(* ===== verification/Prelude.thy ===== *)
theory Prelude
  imports Complex_Main
begin

text \<open>
  Shared vocabulary of the development.

  Python's unbounded integers are \<open>int\<close> (or \<open>nat\<close> for a counter that only grows), its
  strings are \<open>string\<close>, and both \<open>decimal.Decimal\<close> and the \<open>float\<close> timestamps of the
  engine are exact rationals: the rounding of the 28-digit decimal context and of binary
  floats is not part of the model. Python's insertion-ordered \<open>dict\<close> and
  \<open>OrderedDict\<close> are association lists with distinct keys.

  The theory holds the named collections the component proofs use, the string and
  optional-value helpers, and the lemmas on ordered dictionaries, bounded buffers and
  sums that several components share.
\<close>

named_theorems wp_simps "weakest preconditions of the program combinators"
named_theorems wp_intros "introduction rules for weakest preconditions of venue calls"
named_theorems keeps_intros "programs that keep an invariant"
named_theorems model_defs "definitions of small helpers that proofs always unfold"

type_synonym dec = rat
type_synonym time = rat
type_synonym 'v odict = "(string \<times> 'v) list"

subsection \<open>Optional values\<close>

text \<open>Python's \<open>x or d\<close> on an optional number: \<open>None\<close> and zero are both falsy.\<close>

definition or_dec :: "dec option \<Rightarrow> dec \<Rightarrow> dec" where
  "or_dec x d = (case x of None \<Rightarrow> d | Some y \<Rightarrow> (if y = 0 then d else y))"

lemma or_dec_simps [simp]:
  "or_dec None d = d"
  "or_dec (Some y) d = (if y = 0 then d else y)"
  by (simp_all add: or_dec_def)

lemma or_dec_zero: "or_dec x 0 = (case x of None \<Rightarrow> 0 | Some y \<Rightarrow> y)"
  by (simp add: or_dec_def split: option.splits)

subsection \<open>Strings\<close>

text \<open>
  \<open>str.lower\<close> and \<open>str.strip\<close> on ASCII text, and the substring test \<open>m in s\<close>.
\<close>

definition lower_char :: "char \<Rightarrow> char" where
  "lower_char c = (if of_char c \<ge> (65::nat) \<and> of_char c \<le> (90::nat)
     then char_of (of_char c + (32::nat)) else c)"

definition lower_str :: "string \<Rightarrow> string" where
  "lower_str s = map lower_char s"

definition is_space :: "char \<Rightarrow> bool" where
  "is_space c \<longleftrightarrow> of_char c = (32::nat) \<or> (of_char c \<ge> (9::nat) \<and> of_char c \<le> (13::nat))"

definition strip_str :: "string \<Rightarrow> string" where
  "strip_str s = rev (dropWhile is_space (rev (dropWhile is_space s)))"

fun has_prefix :: "string \<Rightarrow> string \<Rightarrow> bool" where
  "has_prefix [] s = True"
| "has_prefix (p # ps) [] = False"
| "has_prefix (p # ps) (c # cs) = (p = c \<and> has_prefix ps cs)"

fun contains_str :: "string \<Rightarrow> string \<Rightarrow> bool" where
  "contains_str m [] = (m = [])"
| "contains_str m (c # cs) = (has_prefix m (c # cs) \<or> contains_str m cs)"

definition has_suffix :: "string \<Rightarrow> string \<Rightarrow> bool" where
  "has_suffix m s = has_prefix (rev m) (rev s)"

subsection \<open>Dates\<close>

text \<open>
  Year, month and day of a day number counted from 1970-01-01, on the proleptic Gregorian
  calendar that \<open>datetime\<close> and \<open>time.gmtime\<close> use.
\<close>

definition civil_date :: "int \<Rightarrow> int \<times> int \<times> int" where
  "civil_date days = (let z = days + 719468; era = z div 146097; doe = z mod 146097;
     yoe = (doe - doe div 1460 + doe div 36524 - doe div 146096) div 365;
     doy = doe - (365 * yoe + yoe div 4 - yoe div 100); mp = (5 * doy + 2) div 153;
     d = doy - (153 * mp + 2) div 5 + 1; m = (if mp < 10 then mp + 3 else mp - 9);
     y = yoe + era * 400 + (if m \<le> 2 then 1 else 0) in (y, m, d))"

subsection \<open>Ordered dictionaries\<close>

text \<open>
  \<open>d.get(k)\<close> is \<open>map_of d k\<close>; \<open>d[k] = v\<close> overwrites in place or appends;
  \<open>d.pop(k, None)\<close> deletes; \<open>OrderedDict.move_to_end(k)\<close> makes \<open>k\<close> the newest entry;
  \<open>popitem(last=False)\<close> drops the head of the list, which is the oldest entry.
\<close>

fun od_set :: "'k \<Rightarrow> 'v \<Rightarrow> ('k \<times> 'v) list \<Rightarrow> ('k \<times> 'v) list" where
  "od_set k v [] = [(k, v)]"
| "od_set k v ((k', v') # d) = (if k' = k then (k, v) # d else (k', v') # od_set k v d)"

definition od_pop :: "'k \<Rightarrow> ('k \<times> 'v) list \<Rightarrow> ('k \<times> 'v) list" where
  "od_pop k d = filter (\<lambda>(k', v). k' \<noteq> k) d"

definition od_move_end :: "'k \<Rightarrow> ('k \<times> 'v) list \<Rightarrow> ('k \<times> 'v) list" where
  "od_move_end k d = (case map_of d k of None \<Rightarrow> d | Some v \<Rightarrow> od_pop k d @ [(k, v)])"

definition od_keys :: "('k \<times> 'v) list \<Rightarrow> 'k list" where
  "od_keys d = map fst d"

lemma od_get_set [simp]: "map_of (od_set k v d) = (map_of d)(k \<mapsto> v)"
  by (induction d) (auto simp: fun_eq_iff)

lemma od_keys_set: "fst ` set (od_set k v d) = insert k (fst ` set d)"
  by (simp flip: dom_map_of_conv_image_fst)

lemma od_set_new: "k \<notin> fst ` set d \<Longrightarrow> od_set k v d = d @ [(k, v)]"
  by (induction d) auto

lemma od_pop_set_new: "k \<notin> fst ` set d \<Longrightarrow> od_pop k (od_set k v d) = d"
  by (induction d) (auto simp: od_pop_def)

lemma od_set_twice: "od_set k v (od_set k w d) = od_set k v d"
  by (induction d) auto

lemma od_distinct_set [simp]:
  "distinct (map fst d) \<Longrightarrow> distinct (map fst (od_set k v d))"
proof (induction d)
  case (Cons p d)
  then show ?case
    by (cases p) (auto simp: od_keys_set)
qed simp

lemma od_length_set:
  "length (od_set k v d) = (if k \<in> fst ` set d then length d else Suc (length d))"
proof (induction d)
  case (Cons p d)
  then show ?case by (cases p) auto
qed simp

lemma od_get_pop [simp]: "map_of (od_pop k d) = (map_of d)(k := None)"
  by (induction d) (auto simp: od_pop_def fun_eq_iff)

lemma od_distinct_pop [simp]:
  "distinct (map fst d) \<Longrightarrow> distinct (map fst (od_pop k d))"
  by (auto simp: od_pop_def distinct_map intro: inj_on_subset)

lemma od_keys_pop: "fst ` set (od_pop k d) = fst ` set d - {k}"
  by (force simp: od_pop_def image_iff)

lemma od_length_pop_le: "length (od_pop k d) \<le> length d"
  by (simp add: od_pop_def)

lemma od_length_pop:
  "distinct (map fst d) \<Longrightarrow> k \<in> fst ` set d \<Longrightarrow> Suc (length (od_pop k d)) = length d"
proof (induction d)
  case (Cons p d)
  show ?case
  proof (cases "fst p = k")
    case True
    then have "k \<notin> fst ` set d" using Cons.prems by auto
    then have "od_pop k d = d"
      by (force simp: od_pop_def filter_id_conv image_iff)
    with True show ?thesis by (cases p) (simp add: od_pop_def)
  next
    case False
    with Cons show ?thesis by (cases p) (auto simp: od_pop_def)
  qed
qed simp

lemma od_get_move_end [simp]:
  "distinct (map fst d) \<Longrightarrow> map_of (od_move_end k d) = map_of d"
  by (auto simp: od_move_end_def map_add_def fun_eq_iff split: option.splits)

lemma map_of_Some_key: "map_of d k = Some v \<Longrightarrow> k \<in> fst ` set d"
  by (metis domI dom_map_of_conv_image_fst)

lemma od_distinct_move_end [simp]:
  "distinct (map fst d) \<Longrightarrow> distinct (map fst (od_move_end k d))"
  by (auto simp: od_move_end_def od_keys_pop split: option.splits)

lemma od_keys_move_end: "fst ` set (od_move_end k d) = fst ` set d"
  by (auto simp: od_move_end_def od_keys_pop dest: map_of_Some_key split: option.splits)

lemma od_length_move_end:
  "distinct (map fst d) \<Longrightarrow> length (od_move_end k d) = length d"
  using map_of_Some_key [of d k]
  by (auto simp: od_move_end_def od_length_pop simp del: map_of_eq_Some_iff split: option.splits)

subsection \<open>Bounded windows\<close>

text \<open>The newest \<open>n\<close> entries of a list that grows at its right end.\<close>

definition last_n :: "nat \<Rightarrow> 'a list \<Rightarrow> 'a list" where
  "last_n n xs = drop (length xs - n) xs"

lemma last_n_length [simp]: "length (last_n n xs) = min n (length xs)"
  by (simp add: last_n_def)

lemma last_n_append1:
  "0 < n \<Longrightarrow> last_n n (last_n n xs @ [x]) = last_n n (xs @ [x])"
  by (cases "length xs < n") (auto simp: last_n_def Suc_diff_le)

lemma last_n_all: "length xs \<le> n \<Longrightarrow> last_n n xs = xs"
  by (simp add: last_n_def)

lemma set_last_n: "set (last_n n xs) \<subseteq> set xs"
  by (simp add: last_n_def set_drop_subset)

subsection \<open>Sums over lists\<close>

lemma sum_list_nonneg_map:
  "(\<And>x. x \<in> set xs \<Longrightarrow> 0 \<le> (f x :: 'a :: ordered_comm_monoid_add)) \<Longrightarrow> 0 \<le> sum_list (map f xs)"
  by (induction xs) (auto intro: add_nonneg_nonneg)

lemma sum_list_update_map:
  "i < length xs \<Longrightarrow>
   sum_list (map f (xs[i := y])) = sum_list (map f xs) - f (xs ! i) + (f y :: rat)"
  by (induction xs arbitrary: i) (auto split: nat.splits)

lemma sum_list_div: "sum_list (map (\<lambda>x. f x / (c :: rat)) xs) = sum_list (map f xs) / c"
  by (induction xs) (auto simp: add_divide_distrib)

end
