(* ===== verification/Effects.thy ===== *)
theory Effects
  imports Prelude
begin

text \<open>
  Programs with state and exceptions: the shape of every coroutine of the engine.

  A program takes the state to an outcome, an exception or a value, together with the
  state it left behind; what was mutated before an exception stays mutated, as in Python.
  \<open>exc\<close> lists the exception classes the engine tells apart. \<open>wp\<close> is the weakest
  precondition with one postcondition for a normal return and one for an exception;
  \<open>keeps I p\<close> says that \<open>p\<close> keeps \<open>I\<close> on both.
\<close>

datatype exc =
    AdapterThrottled string
  | AdapterError string
  | ExecutorFailed string
  | ValueError string
  | TimeoutError string
  | ConnectionError string
  | OtherError string

fun exc_str :: "exc \<Rightarrow> string" where
  "exc_str (AdapterThrottled s) = s"
| "exc_str (AdapterError s) = s"
| "exc_str (ExecutorFailed s) = s"
| "exc_str (ValueError s) = s"
| "exc_str (TimeoutError s) = s"
| "exc_str (ConnectionError s) = s"
| "exc_str (OtherError s) = s"

type_synonym ('s, 'a) prog = "'s \<Rightarrow> (exc + 'a) \<times> 's"

definition ret :: "'a \<Rightarrow> ('s, 'a) prog" where
  "ret a = (\<lambda>s. (Inr a, s))"

definition raise :: "exc \<Rightarrow> ('s, 'a) prog" where
  "raise e = (\<lambda>s. (Inl e, s))"

definition bindP :: "('s, 'a) prog \<Rightarrow> ('a \<Rightarrow> ('s, 'b) prog) \<Rightarrow> ('s, 'b) prog" where
  "bindP p f = (\<lambda>s. case p s of (Inl e, s') \<Rightarrow> (Inl e, s') | (Inr a, s') \<Rightarrow> f a s')"

abbreviation thenP :: "('s, 'a) prog \<Rightarrow> ('s, 'b) prog \<Rightarrow> ('s, 'b) prog" where
  "thenP p q \<equiv> bindP p (\<lambda>_. q)"

definition getsP :: "('s \<Rightarrow> 'a) \<Rightarrow> ('s, 'a) prog" where
  "getsP f = (\<lambda>s. (Inr (f s), s))"

definition modifyP :: "('s \<Rightarrow> 's) \<Rightarrow> ('s, unit) prog" where
  "modifyP f = (\<lambda>s. (Inr (), f s))"

text \<open>\<open>try: p except Exception as e: h e\<close>.\<close>

definition tryP :: "('s, 'a) prog \<Rightarrow> (exc \<Rightarrow> ('s, 'a) prog) \<Rightarrow> ('s, 'a) prog" where
  "tryP p h = (\<lambda>s. case p s of (Inl e, s') \<Rightarrow> h e s' | (Inr a, s') \<Rightarrow> (Inr a, s'))"

text \<open>A block of statements run in order, and a loop over a list.\<close>

fun seqP :: "('s, unit) prog list \<Rightarrow> ('s, unit) prog" where
  "seqP [] = ret ()"
| "seqP [p] = p"
| "seqP (p # q # ps) = thenP p (seqP (q # ps))"

fun forP :: "'b list \<Rightarrow> ('b \<Rightarrow> ('s, unit) prog) \<Rightarrow> ('s, unit) prog" where
  "forP [] f = ret ()"
| "forP (x # xs) f = thenP (f x) (forP xs f)"

definition whenP :: "bool \<Rightarrow> ('s, unit) prog \<Rightarrow> ('s, unit) prog" where
  "whenP b p = (if b then p else ret ())"

text \<open>Raise the exception of an outcome, or go on with its value.\<close>

definition raise_or :: "exc + 'a \<Rightarrow> ('s, 'a) prog" where
  "raise_or r = (case r of Inl c \<Rightarrow> raise c | Inr a \<Rightarrow> ret a)"

subsection \<open>Weakest preconditions\<close>

definition wp :: "('s, 'a) prog \<Rightarrow> ('a \<Rightarrow> 's \<Rightarrow> bool) \<Rightarrow> (exc \<Rightarrow> 's \<Rightarrow> bool) \<Rightarrow> 's \<Rightarrow> bool" where
  "wp p Q E s = (case p s of (Inl e, s') \<Rightarrow> E e s' | (Inr a, s') \<Rightarrow> Q a s')"

lemma wp_ret [simp, wp_simps]: "wp (ret a) Q E s = Q a s"
  by (simp add: wp_def ret_def)

lemma wp_raise [simp, wp_simps]: "wp (raise e) Q E s = E e s"
  by (simp add: wp_def raise_def)

lemma wp_bind [simp, wp_simps]: "wp (bindP p f) Q E s = wp p (\<lambda>a. wp (f a) Q E) E s"
  by (auto simp: wp_def bindP_def split: sum.splits prod.splits)

lemma wp_gets [simp, wp_simps]: "wp (getsP f) Q E s = Q (f s) s"
  by (simp add: wp_def getsP_def)

lemma wp_modify [simp, wp_simps]: "wp (modifyP f) Q E s = Q () (f s)"
  by (simp add: wp_def modifyP_def)

lemma wp_try [simp, wp_simps]: "wp (tryP p h) Q E s = wp p Q (\<lambda>e. wp (h e) Q E) s"
  by (auto simp: wp_def tryP_def split: sum.splits prod.splits)

lemma wp_when [simp, wp_simps]: "wp (whenP b p) Q E s = (if b then wp p Q E s else Q () s)"
  by (simp add: whenP_def)

lemma wp_if: "wp (if b then p else q) Q E s = (if b then wp p Q E s else wp q Q E s)"
  by simp

lemma wp_mono:
  "wp p Q E s \<Longrightarrow> (\<And>a s'. Q a s' \<Longrightarrow> Q' a s') \<Longrightarrow> (\<And>e s'. E e s' \<Longrightarrow> E' e s') \<Longrightarrow> wp p Q' E' s"
  by (auto simp: wp_def split: sum.splits prod.splits)

lemma wp_conj:
  "wp p Q E s \<Longrightarrow> wp p Q' E' s \<Longrightarrow> wp p (\<lambda>a s. Q a s \<and> Q' a s) (\<lambda>e s. E e s \<and> E' e s) s"
  by (auto simp: wp_def split: sum.splits prod.splits)

lemma wp_snd: "wp p (\<lambda>_. R) (\<lambda>_. R) s \<longleftrightarrow> R (snd (p s))"
  by (auto simp: wp_def split: sum.splits prod.splits)

lemma wp_total: "wp p (\<lambda>_. P) (\<lambda>_ _. False) s \<Longrightarrow> \<exists>a s'. p s = (Inr a, s') \<and> P s'"
  by (cases "p s"; cases "fst (p s)") (auto simp: wp_def)

text \<open>Running a program, from its weakest preconditions.\<close>

lemma run_InrI: "wp p (\<lambda>a s'. a = a0 \<and> s' = s0) (\<lambda>_ _. False) s \<Longrightarrow> p s = (Inr a0, s0)"
  by (cases "p s"; cases "fst (p s)") (auto simp: wp_def)

lemma run_InlI: "wp p (\<lambda>_ _. False) (\<lambda>c s'. c = c0 \<and> s' = s0) s \<Longrightarrow> p s = (Inl c0, s0)"
  by (cases "p s"; cases "fst (p s)") (auto simp: wp_def)

lemma wp_ret_value: "p s = (Inr a, s') \<Longrightarrow> wp p Q E s \<Longrightarrow> Q a s'"
  by (simp add: wp_def)

lemma wp_exc_value: "p s = (Inl e, s') \<Longrightarrow> wp p Q E s \<Longrightarrow> E e s'"
  by (simp add: wp_def)

subsection \<open>Invariants of programs\<close>

definition keeps :: "('s \<Rightarrow> bool) \<Rightarrow> ('s, 'a) prog \<Rightarrow> bool" where
  "keeps I p \<longleftrightarrow> (\<forall>s. I s \<longrightarrow> wp p (\<lambda>_. I) (\<lambda>_. I) s)"

lemma keepsI: "(\<And>s. I s \<Longrightarrow> wp p (\<lambda>_. I) (\<lambda>_. I) s) \<Longrightarrow> keeps I p"
  by (simp add: keeps_def)

lemma keepsD: "keeps I p \<Longrightarrow> I s \<Longrightarrow> wp p (\<lambda>_. I) (\<lambda>_. I) s"
  by (simp add: keeps_def)

lemma keeps_wp:
  "keeps I p \<Longrightarrow> I s \<Longrightarrow> (\<And>a s'. I s' \<Longrightarrow> Q a s') \<Longrightarrow> (\<And>e s'. I s' \<Longrightarrow> E e s') \<Longrightarrow> wp p Q E s"
  by (auto simp: keeps_def intro: wp_mono)

lemma keeps_snd: "keeps I p \<Longrightarrow> I s \<Longrightarrow> I (snd (p s))"
  by (auto simp: keeps_def wp_snd)

lemma keeps_ret [keeps_intros]: "keeps I (ret a)"
  by (simp add: keeps_def)

lemma keeps_raise [keeps_intros]: "keeps I (raise e)"
  by (simp add: keeps_def)

lemma keeps_gets [keeps_intros]: "keeps I (getsP f)"
  by (simp add: keeps_def)

lemma keeps_bind [keeps_intros]:
  "keeps I p \<Longrightarrow> (\<And>a. keeps I (f a)) \<Longrightarrow> keeps I (bindP p f)"
  by (auto simp: keeps_def wp_bind intro: wp_mono)

lemma keeps_try [keeps_intros]:
  "keeps I p \<Longrightarrow> (\<And>e. keeps I (h e)) \<Longrightarrow> keeps I (tryP p h)"
  by (auto simp: keeps_def wp_try intro: wp_mono)

lemma keeps_when [keeps_intros]: "keeps I p \<Longrightarrow> keeps I (whenP b p)"
  by (simp add: keeps_def)

lemma keeps_if [keeps_intros]:
  "keeps I p \<Longrightarrow> keeps I q \<Longrightarrow> keeps I (if b then p else q)"
  by simp

lemma keeps_for [keeps_intros]: "(\<And>x. x \<in> set xs \<Longrightarrow> keeps I (f x)) \<Longrightarrow> keeps I (forP xs f)"
  by (induction xs) (auto intro: keeps_intros)

lemma keeps_option [keeps_intros]:
  "keeps I p \<Longrightarrow> (\<And>x. keeps I (f x)) \<Longrightarrow> keeps I (case v of None \<Rightarrow> p | Some x \<Rightarrow> f x)"
  by (simp split: option.splits)

lemma keeps_seq [keeps_intros]:
  "keeps I (seqP [])"
  "keeps I p \<Longrightarrow> keeps I (seqP [p])"
  "keeps I p \<Longrightarrow> keeps I (seqP (q # ps)) \<Longrightarrow> keeps I (seqP (p # q # ps))"
  by (simp_all add: keeps_ret keeps_bind)

text \<open>Two programs that cannot be told apart from a state satisfying \<open>I\<close>.\<close>

definition agree :: "('s \<Rightarrow> bool) \<Rightarrow> ('s, 'a) prog \<Rightarrow> ('s, 'a) prog \<Rightarrow> bool" where
  "agree I p q \<longleftrightarrow> (\<forall>s. I s \<longrightarrow> p s = q s)"

lemma agreeD: "agree I p q \<Longrightarrow> I s \<Longrightarrow> p s = q s"
  by (simp add: agree_def)

lemma agree_refl: "agree I p p"
  by (simp add: agree_def)

lemma agree_bind:
  assumes "agree I p q" and k: "keeps I p" and f: "\<And>a. agree I (f a) (g a)"
  shows "agree I (bindP p f) (bindP q g)"
proof -
  have "bindP p f s = bindP q g s" if "I s" for s
  proof -
    have "p s = q s" using assms(1) that by (simp add: agree_def)
    moreover have "I (snd (p s))" using keeps_snd [OF k that] .
    ultimately show ?thesis
      using f by (auto simp: bindP_def agree_def split: prod.splits sum.splits)
  qed
  then show ?thesis by (simp add: agree_def)
qed

lemma agree_try:
  assumes "agree I p q" and k: "keeps I p" and f: "\<And>c. agree I (f c) (g c)"
  shows "agree I (tryP p f) (tryP q g)"
proof -
  have "tryP p f s = tryP q g s" if "I s" for s
  proof -
    have "p s = q s" using assms(1) that by (simp add: agree_def)
    moreover have "I (snd (p s))" using keeps_snd [OF k that] .
    ultimately show ?thesis
      using f by (auto simp: tryP_def agree_def split: prod.splits sum.splits)
  qed
  then show ?thesis by (simp add: agree_def)
qed

lemma agree_if:
  "(b \<Longrightarrow> agree I p q) \<Longrightarrow> (\<not> b \<Longrightarrow> agree I p' q') \<Longrightarrow> agree I (if b then p else p') (if b then q else q')"
  by simp

lemma agree_when: "agree I p q \<Longrightarrow> agree I (whenP b p) (whenP b q)"
  by (simp add: whenP_def agree_refl)

lemma agree_option:
  "agree I p q \<Longrightarrow> (\<And>x. agree I (f x) (g x))
   \<Longrightarrow> agree I (case v of None \<Rightarrow> p | Some x \<Rightarrow> f x) (case v of None \<Rightarrow> q | Some x \<Rightarrow> g x)"
  by (cases v) simp_all

lemmas agree_intros = agree_bind agree_try agree_if agree_when agree_option

lemma wp_seq_simps [simp, wp_simps]:
  "wp (seqP []) Q E s = Q () s"
  "wp (seqP [p]) Q E s = wp p Q E s"
  "wp (seqP (p # q # ps)) Q E s = wp p (\<lambda>_. wp (seqP (q # ps)) Q E) E s"
  by simp_all

lemma wp_for_simps [simp, wp_simps]:
  "wp (forP [] f) Q E s = Q () s"
  "wp (forP (x # xs) f) Q E s = wp (f x) (\<lambda>_. wp (forP xs f) Q E) E s"
  by simp_all

lemma wp_raise_or [simp]: "wp (raise_or r) Q E s = (case r of Inl c \<Rightarrow> E c s | Inr a \<Rightarrow> Q a s)"
  by (simp add: raise_or_def split: sum.splits)

text \<open>What a helper leaves alone: \<open>frame f p\<close> says that \<open>p\<close> does not change the view \<open>f\<close>.\<close>

definition frame :: "('s \<Rightarrow> 'w) \<Rightarrow> ('s, 'a) prog \<Rightarrow> bool" where
  "frame f p \<longleftrightarrow> (\<forall>s. f (snd (p s)) = f s)"

lemma frame_keeps: "frame f p \<longleftrightarrow> (\<forall>x. keeps (\<lambda>s. f s = x) p)"
  by (auto simp: frame_def keeps_def wp_snd)

lemma frame_wp: "frame f p \<Longrightarrow> (\<And>a s'. f s' = f s \<Longrightarrow> Q a s') \<Longrightarrow> (\<And>c s'. f s' = f s \<Longrightarrow> E c s') \<Longrightarrow> wp p Q E s"
  by (simp add: wp_def frame_def split: sum.splits prod.splits) (metis snd_conv)

end
