(* ===== verification/Engine_Types.thy ===== *)
theory Engine_Types
  imports Effects
begin

text \<open>
  The engine's enums and value objects, from \<open>engine/types.py\<close>. A constructor whose
  \<open>__post_init__\<close> validates its fields is a function into \<open>exc + record\<close>; its
  \<open>ValueError\<close> is the \<open>Inl\<close> branch. Optional guardrails are \<open>option\<close> values, with
  \<open>None\<close> for a disabled gate.
\<close>

subsection \<open>Coercion of configuration flags\<close>

datatype pyval = PyNone | PyBool bool | PyNum rat | PyStr string

definition as_bool :: "pyval \<Rightarrow> bool \<Rightarrow> bool" where
  "as_bool v dflt = (case v of
     PyNone \<Rightarrow> dflt
   | PyBool b \<Rightarrow> b
   | PyNum n \<Rightarrow> n \<noteq> 0
   | PyStr s \<Rightarrow> lower_str (strip_str s) \<in> {''1'', ''true'', ''yes'', ''on''})"

subsection \<open>Enums\<close>

datatype trade_type = BUY | SELL

fun opposite :: "trade_type \<Rightarrow> trade_type" where
  "opposite BUY = SELL"
| "opposite SELL = BUY"

lemma opposite_opposite [simp]: "opposite (opposite s) = s"
  by (cases s) simp_all

lemma opposite_neq [simp]: "opposite s \<noteq> s" "s \<noteq> opposite s"
  by (cases s; simp)+

datatype order_type = LIMIT | LIMIT_MAKER | MARKET

datatype execution_strategy = S_LIMIT | S_LIMIT_MAKER | S_MARKET | S_LIMIT_CHASER

datatype executor_state = CREATED | ACTIVE | TERMINATED

text \<open>The lifecycle order \<open>CREATED < ACTIVE < TERMINATED\<close> of an executor.\<close>

fun state_rank :: "executor_state \<Rightarrow> nat" where
  "state_rank CREATED = 0"
| "state_rank ACTIVE = 1"
| "state_rank TERMINATED = 2"

lemma state_rank_inj: "state_rank a = state_rank b \<Longrightarrow> a = b"
  by (cases a; cases b) simp_all

instantiation executor_state :: linorder
begin

definition less_eq_executor_state :: "executor_state \<Rightarrow> executor_state \<Rightarrow> bool" where
  "less_eq_executor_state a b \<longleftrightarrow> state_rank a \<le> state_rank b"

definition less_executor_state :: "executor_state \<Rightarrow> executor_state \<Rightarrow> bool" where
  "less_executor_state a b \<longleftrightarrow> state_rank a < state_rank b"

instance
  by standard (auto simp: less_eq_executor_state_def less_executor_state_def intro: state_rank_inj)

end

lemma state_le_simps [simp]:
  "CREATED \<le> s" "s \<le> TERMINATED" "TERMINATED \<le> s \<longleftrightarrow> s = TERMINATED"
  "s \<le> CREATED \<longleftrightarrow> s = CREATED" "s \<le> ACTIVE \<longleftrightarrow> s \<noteq> TERMINATED"
  by (cases s; simp add: less_eq_executor_state_def)+

datatype close_type =
    TAKE_PROFIT | STOP_LOSS | TIME_LIMIT | TRAILING_STOP | EARLY_STOP | COMPLETED | FAILED

datatype position_action = OPEN_POS | CLOSE_POS

datatype position_side = LONG | SHORT | FLAT

subsection \<open>Trading pairs\<close>

record exchange_pair =
  ep_base :: string
  ep_quote :: string

definition upper_char :: "char \<Rightarrow> char" where
  "upper_char c = (if of_char c \<ge> (97::nat) \<and> of_char c \<le> (122::nat)
     then char_of (of_char c - (32::nat)) else c)"

definition upper_str :: "string \<Rightarrow> string" where
  "upper_str s = map upper_char s"

definition pair_name :: "exchange_pair \<Rightarrow> string" where
  "pair_name p = ep_base p @ ''-'' @ ep_quote p"

text \<open>\<open>s.partition(c)\<close> without its middle component.\<close>

definition partition_at :: "char \<Rightarrow> string \<Rightarrow> string \<times> string" where
  "partition_at c s = (takeWhile (\<lambda>x. x \<noteq> c) s, drop 1 (dropWhile (\<lambda>x. x \<noteq> c) s))"

definition pair_parse :: "string \<Rightarrow> exc + exchange_pair" where
  "pair_parse pair =
     (let sep = (if CHR ''-'' \<in> set pair then CHR ''-'' else CHR ''/'');
          (base, quote) = partition_at sep pair
      in if base = [] \<or> quote = []
         then Inl (ValueError (''Invalid trading pair: '' @ pair))
         else Inr \<lparr>ep_base = upper_str base, ep_quote = upper_str quote\<rparr>)"

subsection \<open>Barriers\<close>

record trailing_stop =
  activation_price :: dec
  trailing_delta :: dec

definition mk_trailing_stop :: "dec \<Rightarrow> dec \<Rightarrow> exc + trailing_stop" where
  "mk_trailing_stop act delta =
     (if delta \<le> 0 then Inl (ValueError ''trailing_delta must be > 0'')
      else if act < 0 then Inl (ValueError ''activation_price must be >= 0'')
      else Inr \<lparr>activation_price = act, trailing_delta = delta\<rparr>)"

record triple_barrier =
  tb_take_profit :: "dec option"
  tb_stop_loss :: "dec option"
  tb_time_limit :: "int option"
  tb_trailing_stop :: "trailing_stop option"
  tb_open_type :: order_type
  tb_take_profit_type :: order_type
  tb_stop_loss_type :: order_type
  tb_time_limit_type :: order_type
  tb_trailing_stop_type :: order_type

definition check_triple_barrier :: "triple_barrier \<Rightarrow> exc + triple_barrier" where
  "check_triple_barrier b =
     (if (case tb_take_profit b of None \<Rightarrow> False | Some t \<Rightarrow> t \<le> 0)
      then Inl (ValueError ''take_profit must be > 0'')
      else if (case tb_stop_loss b of None \<Rightarrow> False | Some t \<Rightarrow> t \<le> 0)
      then Inl (ValueError ''stop_loss must be > 0'')
      else if (case tb_time_limit b of None \<Rightarrow> False | Some t \<Rightarrow> t \<le> 0)
      then Inl (ValueError ''time_limit must be > 0 seconds'')
      else Inr b)"

definition has_any_barrier :: "triple_barrier \<Rightarrow> bool" where
  "has_any_barrier b \<longleftrightarrow> tb_take_profit b \<noteq> None \<or> tb_stop_loss b \<noteq> None
     \<or> tb_time_limit b \<noteq> None \<or> tb_trailing_stop b \<noteq> None"

record limit_chaser =
  ch_distance :: dec
  ch_refresh_threshold :: dec
  ch_max_refreshes :: int

definition mk_limit_chaser :: "dec \<Rightarrow> dec \<Rightarrow> int \<Rightarrow> exc + limit_chaser" where
  "mk_limit_chaser dst thr n =
     (if dst < 0 then Inl (ValueError ''distance must be >= 0'')
      else if thr \<le> 0 then Inl (ValueError ''refresh_threshold must be > 0'')
      else Inr \<lparr>ch_distance = dst, ch_refresh_threshold = thr, ch_max_refreshes = n\<rparr>)"

subsection \<open>Risk limits and the risk snapshot\<close>

record risk_limits =
  lim_daily_pnl_floor :: "dec option"
  lim_max_drawdown :: "dec option"
  lim_daily_cost_cap :: "dec option"
  lim_max_open_executors :: "int option"
  lim_max_single_order :: "dec option"
  lim_max_position_size :: "dec option"

record risk_state =
  rs_daily_pnl :: dec
  rs_total_exposure :: dec
  rs_executor_count :: int
  rs_drawdown :: dec
  rs_daily_cost :: dec
  rs_is_blocked :: bool
  rs_block_reason :: "string option"
  rs_daily_anchor :: "string option"

definition default_risk_state :: risk_state where
  "default_risk_state = \<lparr>rs_daily_pnl = 0, rs_total_exposure = 0, rs_executor_count = 0,
     rs_drawdown = 0, rs_daily_cost = 0, rs_is_blocked = False, rs_block_reason = None,
     rs_daily_anchor = None\<rparr>"

definition rolled_over :: "risk_state \<Rightarrow> string \<Rightarrow> risk_state" where
  "rolled_over st today =
     (if rs_daily_anchor st = Some today then st
      else \<lparr>rs_daily_pnl = 0, rs_total_exposure = rs_total_exposure st,
            rs_executor_count = rs_executor_count st, rs_drawdown = rs_drawdown st,
            rs_daily_cost = 0, rs_is_blocked = False, rs_block_reason = None,
            rs_daily_anchor = Some today\<rparr>)"

lemma rolled_over_anchor [simp]: "rs_daily_anchor (rolled_over st today) = Some today"
  by (simp add: rolled_over_def)

lemma rolled_over_idem [simp]: "rolled_over (rolled_over st today) today = rolled_over st today"
  by (simp add: rolled_over_def)

text \<open>A parsed pair reads back: \<open>name\<close> then \<open>parse\<close> is the identity on upper-case legs.\<close>

lemma partition_at_append:
  "c \<notin> set xs \<Longrightarrow> partition_at c (xs @ c # ys) = (xs, ys)"
  by (induction xs) (auto simp: partition_at_def)

end
