(* ===== verification/Adapter.thy ===== *)
theory Adapter
  imports Engine_Types
begin

text \<open>
  The venue adapter interface, from \<open>engine/adapter/base.py\<close>: the value objects the
  executors exchange with a venue, the per-cycle placement budget every adapter inherits,
  and the calls an executor makes.

  The live adapter talks to the exchange, so a venue is a parameter of the development:
  \<open>'v venue_api\<close> is a record of the adapter's methods over an arbitrary venue state
  \<open>'v\<close>, each of which may return a value or raise. Nothing is assumed of it unless a
  theorem says so; the locale \<open>venue\<close> below names the laws some theorems need, and the
  simulated venue of the backtester satisfies them (\<open>Sim_Adapter\<close>).
\<close>

subsection \<open>Orders and fills\<close>

datatype order_state = O_OPEN | O_PARTIALLY_FILLED | O_FILLED | O_CANCELLED | O_REJECTED

definition is_terminal :: "order_state \<Rightarrow> bool" where
  "is_terminal s \<longleftrightarrow> s \<in> {O_FILLED, O_CANCELLED, O_REJECTED}"

lemma is_terminal_simps [simp]:
  "\<not> is_terminal O_OPEN" "\<not> is_terminal O_PARTIALLY_FILLED"
  "is_terminal O_FILLED" "is_terminal O_CANCELLED" "is_terminal O_REJECTED"
  by (simp_all add: is_terminal_def)

record nado_order =
  o_id :: string
  o_pair :: string
  o_side :: trade_type
  o_type :: order_type
  o_amount :: dec
  o_price :: "dec option"
  o_state :: order_state
  o_filled_base :: dec
  o_filled_quote :: dec
  o_fee :: dec

definition avg_fill_price :: "nado_order \<Rightarrow> dec option" where
  "avg_fill_price o' = (if o_filled_base o' \<le> 0 then None
     else Some (o_filled_quote o' / o_filled_base o'))"

record fill =
  f_order_id :: string
  f_pair :: string
  f_side :: trade_type
  f_base :: dec
  f_price :: dec
  f_fee :: dec
  f_ts :: time

definition f_quote :: "fill \<Rightarrow> dec" where
  "f_quote f = f_base f * f_price f"

record book_level =
  bl_price :: dec
  bl_amount :: dec

record book_snapshot =
  bk_pair :: string
  bk_bids :: "book_level list"
  bk_asks :: "book_level list"
  bk_ts :: time

definition best_bid :: "book_snapshot \<Rightarrow> dec option" where
  "best_bid b = (case bk_bids b of [] \<Rightarrow> None | l # _ \<Rightarrow> Some (bl_price l))"

definition best_ask :: "book_snapshot \<Rightarrow> dec option" where
  "best_ask b = (case bk_asks b of [] \<Rightarrow> None | l # _ \<Rightarrow> Some (bl_price l))"

definition book_mid :: "book_snapshot \<Rightarrow> dec option" where
  "book_mid b = (case (best_bid b, best_ask b) of
     (Some bid, Some ask) \<Rightarrow> Some ((bid + ask) / 2) | _ \<Rightarrow> None)"

subsection \<open>The per-cycle budget\<close>

text \<open>
  The lazily created counters of an adapter; a missing attribute reads as 0. \<open>cap\<close> is
  \<open>_OPENING_CAP_PER_CYCLE\<close> (an environment setting, so a parameter).
\<close>

record cycle_budget =
  cb_openings :: nat
  cb_exec_throttled :: nat
  cb_exec_throttled_last :: nat
  cb_reads_throttled :: nat
  cb_reads_throttled_last :: nat
  cb_epoch :: nat

definition fresh_budget :: cycle_budget where
  "fresh_budget = \<lparr>cb_openings = 0, cb_exec_throttled = 0, cb_exec_throttled_last = 0,
     cb_reads_throttled = 0, cb_reads_throttled_last = 0, cb_epoch = 0\<rparr>"

definition begin_cycle :: "cycle_budget \<Rightarrow> cycle_budget" where
  "begin_cycle b = b\<lparr>cb_openings := 0,
     cb_exec_throttled_last := cb_exec_throttled b, cb_exec_throttled := 0,
     cb_reads_throttled_last := cb_reads_throttled b, cb_reads_throttled := 0,
     cb_epoch := Suc (cb_epoch b)\<rparr>"

definition note_read_throttled :: "cycle_budget \<Rightarrow> cycle_budget" where
  "note_read_throttled b = b\<lparr>cb_reads_throttled := Suc (cb_reads_throttled b)\<rparr>"

definition venue_reads_contended :: "cycle_budget \<Rightarrow> bool" where
  "venue_reads_contended b \<longleftrightarrow> cb_reads_throttled b > 0 \<or> cb_reads_throttled_last b > 0"

definition note_opening_placement :: "cycle_budget \<Rightarrow> cycle_budget" where
  "note_opening_placement b = b\<lparr>cb_openings := Suc (cb_openings b)\<rparr>"

definition opening_budget_exhausted :: "int \<Rightarrow> cycle_budget \<Rightarrow> bool" where
  "opening_budget_exhausted cap b = (if cap \<le> 0 then False else int (cb_openings b) \<ge> cap)"

definition note_execute_throttled :: "cycle_budget \<Rightarrow> cycle_budget" where
  "note_execute_throttled b = b\<lparr>cb_exec_throttled := Suc (cb_exec_throttled b)\<rparr>"

definition execute_budget_contended :: "cycle_budget \<Rightarrow> bool" where
  "execute_budget_contended b \<longleftrightarrow> cb_exec_throttled b > 0 \<or> cb_exec_throttled_last b > 0"

definition execute_budget_exhausted :: "cycle_budget \<Rightarrow> bool" where
  "execute_budget_exhausted b \<longleftrightarrow> cb_exec_throttled b > 0"

lemmas budget_defs = begin_cycle_def note_read_throttled_def venue_reads_contended_def
  note_opening_placement_def opening_budget_exhausted_def note_execute_throttled_def
  execute_budget_contended_def execute_budget_exhausted_def fresh_budget_def

text \<open>What happens to the budget between two looks at it: events, in order.\<close>

datatype budget_event = BeginCycle | Opening | ExecThrottled | ReadThrottled

fun budget_step :: "cycle_budget \<Rightarrow> budget_event \<Rightarrow> cycle_budget" where
  "budget_step b BeginCycle = begin_cycle b"
| "budget_step b Opening = note_opening_placement b"
| "budget_step b ExecThrottled = note_execute_throttled b"
| "budget_step b ReadThrottled = note_read_throttled b"

definition budget_run :: "budget_event list \<Rightarrow> cycle_budget" where
  "budget_run es = foldl budget_step fresh_budget es"

text \<open>The events of the current cycle and of the one before it.\<close>

definition this_cycle :: "budget_event list \<Rightarrow> budget_event list" where
  "this_cycle es = rev (takeWhile (\<lambda>e. e \<noteq> BeginCycle) (rev es))"

definition last_cycle :: "budget_event list \<Rightarrow> budget_event list" where
  "last_cycle es = (case dropWhile (\<lambda>e. e \<noteq> BeginCycle) (rev es) of
     [] \<Rightarrow> [] | _ # rest \<Rightarrow> this_cycle (rev rest))"

lemma this_cycle_snoc:
  "this_cycle (es @ [e]) = (if e = BeginCycle then [] else this_cycle es @ [e])"
  by (simp add: this_cycle_def)

lemma last_cycle_snoc:
  "last_cycle (es @ [e]) = (if e = BeginCycle then this_cycle es else last_cycle es)"
  by (simp add: last_cycle_def this_cycle_def)

lemma budget_run_counts:
  "cb_openings (budget_run es) = count_list (this_cycle es) Opening
   \<and> cb_exec_throttled (budget_run es) = count_list (this_cycle es) ExecThrottled
   \<and> cb_exec_throttled_last (budget_run es) = count_list (last_cycle es) ExecThrottled
   \<and> cb_reads_throttled (budget_run es) = count_list (this_cycle es) ReadThrottled
   \<and> cb_reads_throttled_last (budget_run es) = count_list (last_cycle es) ReadThrottled
   \<and> cb_epoch (budget_run es) = count_list es BeginCycle"
proof (induction es rule: rev_induct)
  case Nil
  then show ?case by (simp add: budget_run_def budget_defs this_cycle_def last_cycle_def)
next
  case (snoc e es)
  have "budget_run (es @ [e]) = budget_step (budget_run es) e"
    by (simp add: budget_run_def)
  with snoc show ?case
    by (cases e) (simp_all add: this_cycle_snoc last_cycle_snoc budget_defs)
qed

lemma count_list_pos: "count_list xs x > 0 \<longleftrightarrow> x \<in> set xs"
  by (simp add: count_list_0_iff flip: neq0_conv)

text \<open>
  A law: the deferral gates read exactly the events of the current and the previous
  cycle. A throttled placement blocks openings for the rest of its cycle and no longer; a
  decision taken before the cycle's own placements still sees the previous cycle's throttle;
  and the opening cap counts successful openings since the last cycle start, and never binds
  when the cap is not positive.
\<close>

theorem budget_gates_characterised:
  "(execute_budget_exhausted (budget_run es) \<longleftrightarrow> ExecThrottled \<in> set (this_cycle es))
   \<and> (execute_budget_contended (budget_run es)
        \<longleftrightarrow> ExecThrottled \<in> set (this_cycle es) \<union> set (last_cycle es))
   \<and> (venue_reads_contended (budget_run es)
        \<longleftrightarrow> ReadThrottled \<in> set (this_cycle es) \<union> set (last_cycle es))
   \<and> (opening_budget_exhausted cap (budget_run es)
        \<longleftrightarrow> 0 < cap \<and> cap \<le> int (count_list (this_cycle es) Opening))"
  using budget_run_counts [of es]
  by (auto simp: execute_budget_exhausted_def execute_budget_contended_def
      venue_reads_contended_def opening_budget_exhausted_def count_list_pos)

subsection \<open>The calls of an executor\<close>

record 'v venue_api =
  va_place :: "string \<Rightarrow> trade_type \<Rightarrow> order_type \<Rightarrow> dec \<Rightarrow> dec option \<Rightarrow> int \<Rightarrow> bool
     \<Rightarrow> ('v, nado_order) prog"
  va_cancel :: "string \<Rightarrow> ('v, bool) prog"
  va_status :: "string \<Rightarrow> ('v, nado_order) prog"
  va_mid :: "string \<Rightarrow> ('v, dec) prog"
  va_now :: "'v \<Rightarrow> time"
  va_sleep :: "time \<Rightarrow> 'v \<Rightarrow> 'v"
  va_budget :: "'v \<Rightarrow> cycle_budget"
  va_opening_cap :: "'v \<Rightarrow> int"

text \<open>
  The laws a well-behaved venue keeps, over an invariant \<open>ok\<close> of its state: a status or
  placement answer is for the order asked about, is filled between zero and its amount with
  non-negative quote, an order filled at placement is filled in full, and a mid is positive.
\<close>

definition order_sane :: "nado_order \<Rightarrow> bool" where
  "order_sane x \<longleftrightarrow> 0 \<le> o_filled_base x \<and> o_filled_base x \<le> o_amount x
     \<and> 0 \<le> o_filled_quote x \<and> (o_filled_base x = 0 \<longrightarrow> o_filled_quote x = 0)"

locale venue =
  fixes api :: "'v venue_api"
    and ok :: "'v \<Rightarrow> bool"
  assumes place_ok: "ok v \<Longrightarrow> 0 < amt \<Longrightarrow> (\<And>p. px = Some p \<Longrightarrow> 0 < p) \<Longrightarrow>
      wp (va_place api pair side ty amt px lev ro)
        (\<lambda>x v'. ok v' \<and> order_sane x \<and> o_side x = side \<and> o_amount x = amt
           \<and> (o_state x = O_FILLED \<longrightarrow> o_filled_base x = amt)) (\<lambda>_. ok) v"
    and cancel_ok: "ok v \<Longrightarrow> wp (va_cancel api oid) (\<lambda>_. ok) (\<lambda>_. ok) v"
    and status_ok: "ok v \<Longrightarrow>
      wp (va_status api oid) (\<lambda>x v'. ok v' \<and> order_sane x \<and> o_id x = oid) (\<lambda>_. ok) v"
    and mid_ok: "ok v \<Longrightarrow> wp (va_mid api pair) (\<lambda>m v'. ok v' \<and> 0 < m) (\<lambda>_. ok) v"
    and sleep_ok: "ok v \<Longrightarrow> ok (va_sleep api d v)"

subsection \<open>An observed venue\<close>

text \<open>
  A venue together with the log of the orders placed, with their answers, the cancels and
  the status polls; the venue itself behaves as before.
\<close>

datatype venue_call =
    VC_Place trade_type order_type dec "dec option" bool "exc + nado_order"
  | VC_Cancel string
  | VC_Status string

definition logged :: "'v venue_api \<Rightarrow> ('v \<times> venue_call list) venue_api" where
  "logged api = \<lparr>
     va_place = (\<lambda>pair side ty amt px lev ro (v, l). case va_place api pair side ty amt px lev ro v of
        (r, v') \<Rightarrow> (r, (v', l @ [VC_Place side ty amt px ro r]))),
     va_cancel = (\<lambda>oid (v, l). case va_cancel api oid v of (r, v') \<Rightarrow> (r, (v', l @ [VC_Cancel oid]))),
     va_status = (\<lambda>oid (v, l). case va_status api oid v of (r, v') \<Rightarrow> (r, (v', l @ [VC_Status oid]))),
     va_mid = (\<lambda>pair (v, l). case va_mid api pair v of (r, v') \<Rightarrow> (r, (v', l))),
     va_now = (\<lambda>(v, l). va_now api v), va_sleep = (\<lambda>d (v, l). (va_sleep api d v, l)),
     va_budget = (\<lambda>(v, l). va_budget api v), va_opening_cap = (\<lambda>(v, l). va_opening_cap api v)\<rparr>"

fun placed_ids :: "venue_call list \<Rightarrow> string list" where
  "placed_ids [] = []"
| "placed_ids (VC_Place sd ty amt px ro (Inr ord) # l) = o_id ord # placed_ids l"
| "placed_ids (_ # l) = placed_ids l"

fun cancelled_ids :: "venue_call list \<Rightarrow> string list" where
  "cancelled_ids [] = []"
| "cancelled_ids (VC_Cancel oid # l) = oid # cancelled_ids l"
| "cancelled_ids (_ # l) = cancelled_ids l"

text \<open>The quote value of the accepted orders that carry a price.\<close>

fun ordered_quote :: "venue_call list \<Rightarrow> dec" where
  "ordered_quote [] = 0"
| "ordered_quote (VC_Place sd ty amt (Some px) ro (Inr ord) # l) = amt * px + ordered_quote l"
| "ordered_quote (_ # l) = ordered_quote l"

lemma ordered_quote_append [simp]: "ordered_quote (l @ m) = ordered_quote l + ordered_quote m"
  by (induction l rule: ordered_quote.induct) simp_all

lemma placed_ids_append [simp]: "placed_ids (l @ m) = placed_ids l @ placed_ids m"
  by (induction l rule: placed_ids.induct) simp_all

lemma cancelled_ids_append [simp]: "cancelled_ids (l @ m) = cancelled_ids l @ cancelled_ids m"
  by (induction l rule: cancelled_ids.induct) simp_all

lemma placed_ids_one: "placed_ids [VC_Place sd ty amt px ro r] = (case r of Inl _ \<Rightarrow> [] | Inr ord \<Rightarrow> [o_id ord])"
  by (cases r) simp_all

lemma logged_simps [simp]:
  "va_sleep (logged api) d w = (va_sleep api d (fst w), snd w)"
  "va_now (logged api) w = va_now api (fst w)"
  by (simp_all add: logged_def split: prod.split)

text \<open>Each logged call is the call itself with one more entry.\<close>

lemma wp_logged:
  "wp (va_place (logged api) pair side ty amt px lev ro) Q E (v, l)
   = wp (va_place api pair side ty amt px lev ro)
       (\<lambda>a v'. Q a (v', l @ [VC_Place side ty amt px ro (Inr a)]))
       (\<lambda>c v'. E c (v', l @ [VC_Place side ty amt px ro (Inl c)])) v"
  "wp (va_cancel (logged api) oid) Qb E (v, l)
   = wp (va_cancel api oid) (\<lambda>a v'. Qb a (v', l @ [VC_Cancel oid])) (\<lambda>c v'. E c (v', l @ [VC_Cancel oid])) v"
  "wp (va_status (logged api) oid) Q E (v, l)
   = wp (va_status api oid) (\<lambda>a v'. Q a (v', l @ [VC_Status oid])) (\<lambda>c v'. E c (v', l @ [VC_Status oid])) v"
  "wp (va_mid (logged api) pair) Qm E (v, l)
   = wp (va_mid api pair) (\<lambda>a v'. Qm a (v', l)) (\<lambda>c v'. E c (v', l)) v"
  by (simp_all add: wp_def logged_def split: prod.split sum.split)

lemma wp_any: "(\<And>a s'. Q a s') \<Longrightarrow> (\<And>c s'. E c s') \<Longrightarrow> wp p Q E s"
  by (simp add: wp_def split: prod.split sum.split)

lemma wp_logged_place:
  "wp (va_place (logged api) pair side ty amt px lev ro)
     (\<lambda>ord w'. placed_ids (snd w') = placed_ids (snd w) @ [o_id ord] \<and> cancelled_ids (snd w') = cancelled_ids (snd w))
     (\<lambda>_ w'. placed_ids (snd w') = placed_ids (snd w) \<and> cancelled_ids (snd w') = cancelled_ids (snd w)) w"
  by (cases w) (simp add: wp_logged wp_any)

lemma wp_logged_cancel:
  "wp (va_cancel (logged api) oid)
     (\<lambda>_ w'. placed_ids (snd w') = placed_ids (snd w) \<and> cancelled_ids (snd w') = cancelled_ids (snd w) @ [oid])
     (\<lambda>_ w'. placed_ids (snd w') = placed_ids (snd w) \<and> cancelled_ids (snd w') = cancelled_ids (snd w) @ [oid]) w"
  by (cases w) (simp add: wp_logged wp_any)

text \<open>The calls that leave the two totals of the log alone.\<close>

definition log_same :: "venue_call list \<Rightarrow> venue_call list \<Rightarrow> bool" where
  "log_same l m \<longleftrightarrow> placed_ids m = placed_ids l \<and> ordered_quote m = ordered_quote l"

context venue
begin

lemma logged_place:
  assumes "ok (fst w)" "0 < amt" "\<And>p. px = Some p \<Longrightarrow> 0 < p"
  shows "wp (va_place (logged api) pair side ty amt px lev ro)
    (\<lambda>ord w'. ok (fst w') \<and> order_sane ord \<and> placed_ids (snd w') = placed_ids (snd w) @ [o_id ord]
       \<and> ordered_quote (snd w') = ordered_quote (snd w) + (case px of None \<Rightarrow> 0 | Some p \<Rightarrow> amt * p))
    (\<lambda>_ w'. ok (fst w') \<and> log_same (snd w) (snd w')) w"
proof -
  obtain v l where w: "w = (v, l)" by fastforce
  show ?thesis
    unfolding w wp_logged
    by (rule wp_mono [OF place_ok]) (use assms w in \<open>auto simp: log_same_def split: option.split\<close>)
qed

lemma logged_quiet:
  assumes "ok (fst w)"
  shows "wp (va_cancel (logged api) oid) (\<lambda>_ w'. ok (fst w') \<and> log_same (snd w) (snd w'))
      (\<lambda>_ w'. ok (fst w') \<and> log_same (snd w) (snd w')) w"
    and "wp (va_status (logged api) oid) (\<lambda>_ w'. ok (fst w') \<and> log_same (snd w) (snd w'))
      (\<lambda>_ w'. ok (fst w') \<and> log_same (snd w) (snd w')) w"
    and "wp (va_mid (logged api) pair) (\<lambda>m w'. 0 < m \<and> ok (fst w') \<and> log_same (snd w) (snd w'))
      (\<lambda>_ w'. ok (fst w') \<and> log_same (snd w) (snd w')) w"
proof -
  obtain v l where w: "w = (v, l)" by fastforce
  have v: "ok v" using assms w by simp
  show "wp (va_cancel (logged api) oid) (\<lambda>_ w'. ok (fst w') \<and> log_same (snd w) (snd w'))
      (\<lambda>_ w'. ok (fst w') \<and> log_same (snd w) (snd w')) w"
    unfolding w wp_logged by (rule wp_mono [OF cancel_ok [OF v]]) (simp_all add: log_same_def)
  show "wp (va_status (logged api) oid) (\<lambda>_ w'. ok (fst w') \<and> log_same (snd w) (snd w'))
      (\<lambda>_ w'. ok (fst w') \<and> log_same (snd w) (snd w')) w"
    unfolding w wp_logged by (rule wp_mono [OF status_ok [OF v]]) (simp_all add: log_same_def)
  show "wp (va_mid (logged api) pair) (\<lambda>m w'. 0 < m \<and> ok (fst w') \<and> log_same (snd w) (snd w'))
      (\<lambda>_ w'. ok (fst w') \<and> log_same (snd w) (snd w')) w"
    unfolding w wp_logged by (rule wp_mono [OF mid_ok [OF v]]) (simp_all add: log_same_def)
qed

end

subsection \<open>A scripted venue\<close>

text \<open>
  A venue that replays prepared answers, for concrete runs: placements and status polls
  consume \<open>sc_orders\<close>, mids and cancels their own lists; an exhausted script raises.
  Sleeping moves its clock.
\<close>

record script =
  sc_now :: time
  sc_orders :: "(exc + nado_order) list"
  sc_mids :: "(exc + dec) list"
  sc_cancels :: "(exc + bool) list"

definition script_order :: "(script, nado_order) prog" where
  "script_order v = (case sc_orders v of [] \<Rightarrow> (Inl (OtherError ''script''), v)
     | a # as \<Rightarrow> (a, v\<lparr>sc_orders := as\<rparr>))"

definition script_mid :: "(script, dec) prog" where
  "script_mid v = (case sc_mids v of [] \<Rightarrow> (Inl (OtherError ''script''), v)
     | a # as \<Rightarrow> (a, v\<lparr>sc_mids := as\<rparr>))"

definition script_cancel :: "(script, bool) prog" where
  "script_cancel v = (case sc_cancels v of [] \<Rightarrow> (Inl (OtherError ''script''), v)
     | a # as \<Rightarrow> (a, v\<lparr>sc_cancels := as\<rparr>))"

definition script_api :: "script venue_api" where
  "script_api = \<lparr>va_place = (\<lambda>pair side ty amt px lev ro. script_order),
     va_cancel = (\<lambda>oid. script_cancel), va_status = (\<lambda>oid. script_order),
     va_mid = (\<lambda>pair. script_mid), va_now = sc_now,
     va_sleep = (\<lambda>d v. v\<lparr>sc_now := sc_now v + d\<rparr>),
     va_budget = (\<lambda>v. fresh_budget), va_opening_cap = (\<lambda>v. 20)\<rparr>"

lemmas script_defs = script_api_def script_order_def script_mid_def script_cancel_def

end
