(* ===== verification/Inventory.thy ===== *)
theory Inventory
  imports Engine_Types
begin

text \<open>
  Position holds, from \<open>engine/inventory.py\<close>: the per-controller book of buys, sells and
  fees every fill goes through. The repository's dict \<open>_holds\<close> is an ordered dictionary
  keyed by \<open>(user_id, trading_pair, controller_id)\<close>; its lock makes each method one atomic
  step, so a method is a function of the repository. Returned holds are values, as the
  code's \<open>replace(hold)\<close> copies are. Quantities arrive as \<open>num\<close>: a finite decimal or a
  non-finite one (NaN, infinities), which \<open>apply_fill\<close> refuses.
\<close>

type_synonym hold_key = "int \<times> string \<times> string"

record position_hold =
  ph_user :: int
  ph_pair :: string
  ph_controller :: string
  ph_buy_base :: dec
  ph_buy_quote :: dec
  ph_sell_base :: dec
  ph_sell_quote :: dec
  ph_fees :: dec
  ph_updated :: time

type_synonym inventory = "(hold_key \<times> position_hold) list"

definition new_hold :: "int \<Rightarrow> string \<Rightarrow> string \<Rightarrow> position_hold" where
  "new_hold u p c = \<lparr>ph_user = u, ph_pair = p, ph_controller = c, ph_buy_base = 0,
     ph_buy_quote = 0, ph_sell_base = 0, ph_sell_quote = 0, ph_fees = 0, ph_updated = 0\<rparr>"

subsection \<open>Derived values of a hold\<close>

definition avg_buy_price :: "position_hold \<Rightarrow> dec option" where
  "avg_buy_price h = (if ph_buy_base h \<le> 0 then None else Some (ph_buy_quote h / ph_buy_base h))"

definition avg_sell_price :: "position_hold \<Rightarrow> dec option" where
  "avg_sell_price h =
     (if ph_sell_base h \<le> 0 then None else Some (ph_sell_quote h / ph_sell_base h))"

definition net_amount_base :: "position_hold \<Rightarrow> dec" where
  "net_amount_base h = ph_buy_base h - ph_sell_base h"

definition hold_side :: "position_hold \<Rightarrow> position_side" where
  "hold_side h = (let net = net_amount_base h in
     if net > 0 then LONG else if net < 0 then SHORT else FLAT)"

definition breakeven :: "position_hold \<Rightarrow> dec option" where
  "breakeven h = (case hold_side h of
     LONG \<Rightarrow> avg_buy_price h | SHORT \<Rightarrow> avg_sell_price h | FLAT \<Rightarrow> None)"

definition realized_pnl :: "position_hold \<Rightarrow> dec" where
  "realized_pnl h =
     (let matched = min (ph_buy_base h) (ph_sell_base h) in
      if matched \<le> 0 then 0
      else (or_dec (avg_sell_price h) 0 - or_dec (avg_buy_price h) 0) * matched)"

definition realized_pnl_after_fees :: "position_hold \<Rightarrow> dec" where
  "realized_pnl_after_fees h = realized_pnl h - ph_fees h"

definition unrealized_pnl :: "position_hold \<Rightarrow> dec \<Rightarrow> dec" where
  "unrealized_pnl h mark = (case hold_side h of
     LONG \<Rightarrow> net_amount_base h * (mark - or_dec (avg_buy_price h) 0)
   | SHORT \<Rightarrow> (- net_amount_base h) * (or_dec (avg_sell_price h) 0 - mark)
   | FLAT \<Rightarrow> 0)"

subsection \<open>The repository\<close>

datatype qty = Finite dec | NonFinite

fun is_finite_dec :: "qty \<Rightarrow> bool" where
  "is_finite_dec (Finite _) = True"
| "is_finite_dec NonFinite = False"

definition inv_get :: "int \<Rightarrow> string \<Rightarrow> string \<Rightarrow> inventory \<Rightarrow> position_hold \<times> inventory" where
  "inv_get u p c iv = (case map_of iv (u, p, c) of
     Some h \<Rightarrow> (h, iv)
   | None \<Rightarrow> (let h = new_hold u p c in (h, od_set (u, p, c) h iv)))"

definition book_fill :: "trade_type \<Rightarrow> dec \<Rightarrow> dec \<Rightarrow> dec \<Rightarrow> time \<Rightarrow> position_hold \<Rightarrow> position_hold" where
  "book_fill side base quote fee ts h =
     (let h1 = (if side = BUY
                then h\<lparr>ph_buy_base := ph_buy_base h + base, ph_buy_quote := ph_buy_quote h + quote\<rparr>
                else h\<lparr>ph_sell_base := ph_sell_base h + base,
                       ph_sell_quote := ph_sell_quote h + quote\<rparr>)
      in h1\<lparr>ph_fees := ph_fees h + fee, ph_updated := ts\<rparr>)"

text \<open>\<open>now\<close> is the clock, read when the caller passes no timestamp.\<close>

fun apply_fill ::
  "int \<Rightarrow> string \<Rightarrow> string \<Rightarrow> trade_type \<Rightarrow> qty \<Rightarrow> qty \<Rightarrow> qty \<Rightarrow> time option \<Rightarrow> time
   \<Rightarrow> inventory \<Rightarrow> exc + (position_hold \<times> inventory)" where
  "apply_fill u p c side (Finite base) (Finite quote) (Finite fee) ts now iv =
     (if base < 0 \<or> quote < 0
      then Inl (ValueError ''fill quantities must be non-negative'')
      else let h = (case map_of iv (u, p, c) of Some h \<Rightarrow> h | None \<Rightarrow> new_hold u p c);
               h' = book_fill side base quote fee (case ts of Some t \<Rightarrow> t | None \<Rightarrow> now) h
           in Inr (h', od_set (u, p, c) h' iv))"
| "apply_fill u p c side base quote fee ts now iv =
     Inl (ValueError ''fill quantities must be finite'')"

definition list_for_user :: "int \<Rightarrow> inventory \<Rightarrow> position_hold list" where
  "list_for_user u iv = filter (\<lambda>h. ph_user h = u) (map snd iv)"

definition list_for_controller :: "int \<Rightarrow> string \<Rightarrow> inventory \<Rightarrow> position_hold list" where
  "list_for_controller u c iv =
     filter (\<lambda>h. ph_user h = u \<and> ph_controller h = c) (map snd iv)"

definition clear_for_controller :: "string \<Rightarrow> inventory \<Rightarrow> inventory" where
  "clear_for_controller c iv = filter (\<lambda>(k, h). ph_controller h \<noteq> c) iv"

subsection \<open>Invariants\<close>

text \<open>
  Keys are distinct, every hold carries its own key, and its totals are non-negative.
\<close>

definition hold_ok :: "position_hold \<Rightarrow> bool" where
  "hold_ok h \<longleftrightarrow> 0 \<le> ph_buy_base h \<and> 0 \<le> ph_buy_quote h \<and> 0 \<le> ph_sell_base h \<and> 0 \<le> ph_sell_quote h"

definition inv_ok :: "inventory \<Rightarrow> bool" where
  "inv_ok iv \<longleftrightarrow> distinct (map fst iv)
     \<and> (\<forall>(k, h) \<in> set iv. k = (ph_user h, ph_pair h, ph_controller h) \<and> hold_ok h)"

lemma set_od_setD: "x \<in> set (od_set k v d) \<Longrightarrow> x = (k, v) \<or> x \<in> set d"
  by (induction d) (auto split: if_splits)

lemma inv_ok_set:
  "inv_ok iv \<Longrightarrow> k = (ph_user h, ph_pair h, ph_controller h) \<Longrightarrow> hold_ok h
   \<Longrightarrow> inv_ok (od_set k h iv)"
  by (auto simp: inv_ok_def dest!: set_od_setD)

lemma inv_ok_lookup:
  "inv_ok iv \<Longrightarrow> map_of iv (u, p, c) = Some h
   \<Longrightarrow> ph_user h = u \<and> ph_pair h = p \<and> ph_controller h = c \<and> hold_ok h"
  by (force simp: inv_ok_def dest: map_of_SomeD)

lemma book_fill_key [simp]:
  "ph_user (book_fill s b q f t h) = ph_user h"
  "ph_pair (book_fill s b q f t h) = ph_pair h"
  "ph_controller (book_fill s b q f t h) = ph_controller h"
  by (simp_all add: book_fill_def Let_def)

lemma new_hold_simps [simp]:
  "ph_user (new_hold u p c) = u" "ph_pair (new_hold u p c) = p"
  "ph_controller (new_hold u p c) = c" "hold_ok (new_hold u p c)"
  "ph_buy_base (new_hold u p c) = 0" "ph_buy_quote (new_hold u p c) = 0"
  "ph_sell_base (new_hold u p c) = 0" "ph_sell_quote (new_hold u p c) = 0"
  "ph_fees (new_hold u p c) = 0"
  by (simp_all add: new_hold_def hold_ok_def)

lemma hold_ok_book_fill:
  "hold_ok h \<Longrightarrow> 0 \<le> b \<Longrightarrow> 0 \<le> q \<Longrightarrow> hold_ok (book_fill s b q f t h)"
  by (simp add: hold_ok_def book_fill_def Let_def)

lemma apply_fill_Inr:
  "apply_fill u p c s b q f ts now iv = Inr (h', iv') \<longleftrightarrow>
   (\<exists>base quote fee. b = Finite base \<and> q = Finite quote \<and> f = Finite fee \<and> 0 \<le> base \<and> 0 \<le> quote
      \<and> h' = book_fill s base quote fee (case ts of Some t \<Rightarrow> t | None \<Rightarrow> now)
                (case map_of iv (u, p, c) of Some h \<Rightarrow> h | None \<Rightarrow> new_hold u p c)
      \<and> iv' = od_set (u, p, c) h' iv)"
  by (cases b; cases q; cases f) (auto simp: Let_def not_less)

lemma apply_fill_inv_ok:
  assumes "inv_ok iv" and "apply_fill u p c s b q f ts now iv = Inr (h', iv')"
  shows "inv_ok iv'"
proof -
  have "hold_ok (case map_of iv (u, p, c) of Some h \<Rightarrow> h | None \<Rightarrow> new_hold u p c)"
    "ph_user (case map_of iv (u, p, c) of Some h \<Rightarrow> h | None \<Rightarrow> new_hold u p c) = u"
    "ph_pair (case map_of iv (u, p, c) of Some h \<Rightarrow> h | None \<Rightarrow> new_hold u p c) = p"
    "ph_controller (case map_of iv (u, p, c) of Some h \<Rightarrow> h | None \<Rightarrow> new_hold u p c) = c"
    using inv_ok_lookup [OF assms(1)] by (auto split: option.splits)
  with assms show ?thesis
    by (auto simp: apply_fill_Inr intro!: inv_ok_set hold_ok_book_fill)
qed

subsection \<open>Profit and loss\<close>

text \<open>
  A hold has no quote volume on a side without base volume: true of a new hold and kept
  by every fill whose quote is zero when its base is zero.
\<close>

definition no_free_quote :: "position_hold \<Rightarrow> bool" where
  "no_free_quote h \<longleftrightarrow> (ph_buy_base h = 0 \<longrightarrow> ph_buy_quote h = 0)
     \<and> (ph_sell_base h = 0 \<longrightarrow> ph_sell_quote h = 0)"

lemma gross_pnl_cash_flow:
  assumes ok: "hold_ok h" and nf: "no_free_quote h"
  shows "realized_pnl h + unrealized_pnl h mark
     = ph_sell_quote h - ph_buy_quote h + net_amount_base h * mark"
proof -
  define b q s r where "b = ph_buy_base h" and "q = ph_buy_quote h"
    and "s = ph_sell_base h" and "r = ph_sell_quote h"
  note defs = b_def [symmetric] q_def [symmetric] s_def [symmetric] r_def [symmetric]
  have nn: "0 \<le> b" "0 \<le> s" using ok by (simp_all add: hold_ok_def b_def s_def)
  have z: "b = 0 \<Longrightarrow> q = 0" "s = 0 \<Longrightarrow> r = 0"
    using nf by (auto simp: no_free_quote_def b_def q_def s_def r_def)
  have b': "or_dec (avg_buy_price h) 0 * b = q"
    using nn z by (auto simp: avg_buy_price_def defs)
  have s': "or_dec (avg_sell_price h) 0 * s = r"
    using nn z by (auto simp: avg_sell_price_def defs)
  define x y where "x = or_dec (avg_buy_price h) 0" and "y = or_dec (avg_sell_price h) 0"
  have r1: "realized_pnl h = (if s \<le> b then (y - x) * s else (y - x) * b)"
    using nn by (auto simp: realized_pnl_def defs x_def y_def min_def)
  have u1: "unrealized_pnl h mark
      = (if s < b then (b - s) * (mark - x) else if b < s then (s - b) * (y - mark) else 0)"
    by (auto simp: unrealized_pnl_def hold_side_def net_amount_base_def defs x_def y_def)
  show ?thesis
    using b' s' unfolding r1 u1 net_amount_base_def defs x_def [symmetric] y_def [symmetric]
    by (cases s b rule: linorder_cases) (auto simp: algebra_simps)
qed

subsection \<open>Runs of fills\<close>

text \<open>A request to book a fill, and a run of them; the first refused fill stops the run.\<close>

record fill_req =
  fr_user :: int
  fr_pair :: string
  fr_controller :: string
  fr_side :: trade_type
  fr_base :: dec
  fr_quote :: dec
  fr_fee :: dec
  fr_ts :: time

definition fr_key :: "fill_req \<Rightarrow> hold_key" where
  "fr_key r = (fr_user r, fr_pair r, fr_controller r)"

definition fr_valid :: "fill_req \<Rightarrow> bool" where
  "fr_valid r \<longleftrightarrow> 0 \<le> fr_base r \<and> 0 \<le> fr_quote r"

fun run_fills :: "fill_req list \<Rightarrow> inventory \<Rightarrow> exc + inventory" where
  "run_fills [] iv = Inr iv"
| "run_fills (r # rs) iv =
     (case apply_fill (fr_user r) (fr_pair r) (fr_controller r) (fr_side r) (Finite (fr_base r))
             (Finite (fr_quote r)) (Finite (fr_fee r)) (Some (fr_ts r)) 0 iv of
        Inl e \<Rightarrow> Inl e
      | Inr (_, iv') \<Rightarrow> run_fills rs iv')"

definition hold_at :: "inventory \<Rightarrow> hold_key \<Rightarrow> position_hold" where
  "hold_at iv k = (case map_of iv k of Some h \<Rightarrow> h
     | None \<Rightarrow> (case k of (u, p, c) \<Rightarrow> new_hold u p c))"

definition fill_sum :: "(fill_req \<Rightarrow> bool) \<Rightarrow> (fill_req \<Rightarrow> dec) \<Rightarrow> fill_req list \<Rightarrow> dec" where
  "fill_sum P f rs = sum_list (map f (filter P rs))"

lemma fill_sum_simps [simp]:
  "fill_sum P f [] = 0"
  "fill_sum P f (r # rs) = (if P r then f r + fill_sum P f rs else fill_sum P f rs)"
  by (simp_all add: fill_sum_def)

lemma run_fills_step:
  "fr_valid r \<Longrightarrow> run_fills (r # rs) iv
     = run_fills rs (od_set (fr_key r) (book_fill (fr_side r) (fr_base r) (fr_quote r) (fr_fee r)
         (fr_ts r) (hold_at iv (fr_key r))) iv)"
  by (auto simp: fr_valid_def fr_key_def hold_at_def Let_def not_less)

lemma hold_at_set:
  "hold_at (od_set k h iv) k' = (if k' = k then h else hold_at iv k')"
  by (simp add: hold_at_def)

lemma book_fill_totals:
  "ph_buy_base (book_fill s b q f t h) = ph_buy_base h + (if s = BUY then b else 0)"
  "ph_buy_quote (book_fill s b q f t h) = ph_buy_quote h + (if s = BUY then q else 0)"
  "ph_sell_base (book_fill s b q f t h) = ph_sell_base h + (if s = SELL then b else 0)"
  "ph_sell_quote (book_fill s b q f t h) = ph_sell_quote h + (if s = SELL then q else 0)"
  "ph_fees (book_fill s b q f t h) = ph_fees h + f"
  by (cases s; simp add: book_fill_def Let_def)+

lemma run_fills_totals:
  assumes "list_all fr_valid rs"
  shows "\<exists>iv'. run_fills rs iv = Inr iv'
     \<and> (\<forall>k. let h = hold_at iv k; h' = hold_at iv' k in
          ph_buy_base h' = ph_buy_base h + fill_sum (\<lambda>r. fr_key r = k \<and> fr_side r = BUY) fr_base rs
        \<and> ph_buy_quote h' = ph_buy_quote h + fill_sum (\<lambda>r. fr_key r = k \<and> fr_side r = BUY) fr_quote rs
        \<and> ph_sell_base h' = ph_sell_base h + fill_sum (\<lambda>r. fr_key r = k \<and> fr_side r = SELL) fr_base rs
        \<and> ph_sell_quote h' = ph_sell_quote h + fill_sum (\<lambda>r. fr_key r = k \<and> fr_side r = SELL) fr_quote rs
        \<and> ph_fees h' = ph_fees h + fill_sum (\<lambda>r. fr_key r = k) fr_fee rs)"
  using assms
proof (induction rs arbitrary: iv)
  case Nil
  then show ?case by simp
next
  case (Cons r rs)
  define iv1 where "iv1 = od_set (fr_key r) (book_fill (fr_side r) (fr_base r) (fr_quote r)
    (fr_fee r) (fr_ts r) (hold_at iv (fr_key r))) iv"
  have step: "run_fills (r # rs) iv = run_fills rs iv1"
    using Cons.prems unfolding iv1_def by (intro run_fills_step) simp
  have at: "hold_at iv1 k = (if k = fr_key r then book_fill (fr_side r) (fr_base r) (fr_quote r)
    (fr_fee r) (fr_ts r) (hold_at iv (fr_key r)) else hold_at iv k)" for k
    by (simp add: iv1_def hold_at_set)
  have "list_all fr_valid rs" using Cons.prems by simp
  from Cons.IH [OF this, of iv1] obtain iv' where run: "run_fills rs iv1 = Inr iv'"
    and tot: "\<And>k. let h = hold_at iv1 k; h' = hold_at iv' k in
          ph_buy_base h' = ph_buy_base h + fill_sum (\<lambda>r. fr_key r = k \<and> fr_side r = BUY) fr_base rs
        \<and> ph_buy_quote h' = ph_buy_quote h + fill_sum (\<lambda>r. fr_key r = k \<and> fr_side r = BUY) fr_quote rs
        \<and> ph_sell_base h' = ph_sell_base h + fill_sum (\<lambda>r. fr_key r = k \<and> fr_side r = SELL) fr_base rs
        \<and> ph_sell_quote h' = ph_sell_quote h + fill_sum (\<lambda>r. fr_key r = k \<and> fr_side r = SELL) fr_quote rs
        \<and> ph_fees h' = ph_fees h + fill_sum (\<lambda>r. fr_key r = k) fr_fee rs"
    by blast
  show ?case
    unfolding step run
    by (intro exI [of _ iv'] conjI refl allI)
      (use tot in \<open>cases "fr_side r"; auto simp: at book_fill_totals Let_def\<close>)
qed

text \<open>
  A law: realized plus unrealized PnL of a hold is its cash flow marked to market.
  However the fills were split into matched and open parts, what a hold reports is quote
  received minus quote paid plus the net base valued at the mark; the PnL card can neither
  create nor lose money.
\<close>

theorem hold_mark_to_market:
  assumes "hold_ok h" and "no_free_quote h"
  shows "realized_pnl_after_fees h + unrealized_pnl h mark
     = ph_sell_quote h - ph_buy_quote h + net_amount_base h * mark - ph_fees h"
  using gross_pnl_cash_flow [OF assms, of mark] by (simp add: realized_pnl_after_fees_def)

theorem hold_mark_to_market_witness:
  "realized_pnl_after_fees \<lparr>ph_user = 1, ph_pair = ''BTC'', ph_controller = ''c'', ph_buy_base = 3,
     ph_buy_quote = 300, ph_sell_base = 1, ph_sell_quote = 130, ph_fees = 2, ph_updated = 0\<rparr>
   + unrealized_pnl \<lparr>ph_user = 1, ph_pair = ''BTC'', ph_controller = ''c'', ph_buy_base = 3,
     ph_buy_quote = 300, ph_sell_base = 1, ph_sell_quote = 130, ph_fees = 2, ph_updated = 0\<rparr> 110
   = 48"
  by (subst hold_mark_to_market)
    (simp_all add: hold_ok_def no_free_quote_def net_amount_base_def)

definition demo_fills :: "fill_req list" where
  "demo_fills =
     [\<lparr>fr_user = 1, fr_pair = ''BTC'', fr_controller = ''a'', fr_side = BUY,
       fr_base = 2, fr_quote = 200, fr_fee = 1, fr_ts = 5\<rparr>,
      \<lparr>fr_user = 1, fr_pair = ''BTC'', fr_controller = ''b'', fr_side = SELL,
       fr_base = 1, fr_quote = 90, fr_fee = 1, fr_ts = 6\<rparr>]"

text \<open>
  A law: every accepted run of fills books, for each key, exactly the sums of the
  fills addressed to that key and nothing else: holds under different controllers or pairs
  are isolated, buys and sells never mix, and the order of the fills does not matter.
\<close>

theorem inventory_fills_isolated:
  assumes "list_all fr_valid rs"
  shows "\<exists>iv'. run_fills rs iv = Inr iv'
     \<and> (\<forall>k. let h = hold_at iv k; h' = hold_at iv' k in
          net_amount_base h' = net_amount_base h
            + fill_sum (\<lambda>r. fr_key r = k \<and> fr_side r = BUY) fr_base rs
            - fill_sum (\<lambda>r. fr_key r = k \<and> fr_side r = SELL) fr_base rs
        \<and> ph_buy_quote h' = ph_buy_quote h
            + fill_sum (\<lambda>r. fr_key r = k \<and> fr_side r = BUY) fr_quote rs
        \<and> ph_sell_quote h' = ph_sell_quote h
            + fill_sum (\<lambda>r. fr_key r = k \<and> fr_side r = SELL) fr_quote rs
        \<and> ph_fees h' = ph_fees h + fill_sum (\<lambda>r. fr_key r = k) fr_fee rs)"
proof -
  from run_fills_totals [OF assms, of iv] obtain iv' where "run_fills rs iv = Inr iv'"
    and "\<forall>k. let h = hold_at iv k; h' = hold_at iv' k in
          ph_buy_base h' = ph_buy_base h + fill_sum (\<lambda>r. fr_key r = k \<and> fr_side r = BUY) fr_base rs
        \<and> ph_buy_quote h' = ph_buy_quote h + fill_sum (\<lambda>r. fr_key r = k \<and> fr_side r = BUY) fr_quote rs
        \<and> ph_sell_base h' = ph_sell_base h + fill_sum (\<lambda>r. fr_key r = k \<and> fr_side r = SELL) fr_base rs
        \<and> ph_sell_quote h' = ph_sell_quote h + fill_sum (\<lambda>r. fr_key r = k \<and> fr_side r = SELL) fr_quote rs
        \<and> ph_fees h' = ph_fees h + fill_sum (\<lambda>r. fr_key r = k) fr_fee rs"
    by blast
  then show ?thesis
    by (intro exI [of _ iv']) (auto simp: net_amount_base_def Let_def)
qed

theorem inventory_fills_isolated_witness:
  "\<exists>iv'. run_fills demo_fills [] = Inr iv'
   \<and> net_amount_base (hold_at iv' (1, ''BTC'', ''a'')) = 2
   \<and> net_amount_base (hold_at iv' (1, ''BTC'', ''b'')) = -1"
proof -
  have v: "list_all fr_valid demo_fills" by (simp add: demo_fills_def fr_valid_def)
  from inventory_fills_isolated [OF v, of "[]"] obtain iv' where run: "run_fills demo_fills [] = Inr iv'"
    and tot: "\<And>k. net_amount_base (hold_at iv' k) = net_amount_base (hold_at [] k)
            + fill_sum (\<lambda>r. fr_key r = k \<and> fr_side r = BUY) fr_base demo_fills
            - fill_sum (\<lambda>r. fr_key r = k \<and> fr_side r = SELL) fr_base demo_fills"
    unfolding Let_def by blast
  have "net_amount_base (hold_at iv' (1, ''BTC'', ''a'')) = 2"
    "net_amount_base (hold_at iv' (1, ''BTC'', ''b'')) = -1"
    unfolding tot by (simp_all add: demo_fills_def fr_key_def hold_at_def net_amount_base_def)
  with run show ?thesis by blast
qed

end
