(* ===== verification/Executor_Base.thy ===== *)
theory Executor_Base
  imports Adapter Inventory
begin

text \<open>
  The abstract executor, from \<open>engine/executor_base.py\<close>: the attributes every executor
  has, its lifecycle \<open>CREATED \<rightarrow> ACTIVE \<rightarrow> TERMINATED\<close>, the retry policy \<open>_guard\<close> around
  adapter calls, and \<open>_record_fill\<close>, the single funnel of every fill into the inventory
  and the trade reports.

  Concrete executors extend the record \<open>exec_base\<close>, as their classes extend
  \<open>Executor\<close>. A coroutine of an executor is a program over the executor itself and the
  environment it shares with the others: the venue, the inventory repository and the calls
  made to the trade recorder. \<open>time.time()\<close> reads the venue's clock, which the venue's
  own calls and \<open>asyncio.sleep\<close> move. A coroutine runs without interleaving of other
  coroutines of the same executor.
\<close>

subsection \<open>State\<close>

record trade_row =
  t_controller :: string
  t_pair :: string
  t_side :: trade_type
  t_base :: dec
  t_price :: dec
  t_fee :: dec
  t_order :: string
  t_ts :: time
  t_taker :: bool
  t_leverage :: "dec option"

record 'v env =
  env_venue :: 'v
  env_inv :: inventory
  env_trades :: "trade_row list"

text \<open>
  What \<open>_fill_was_taker\<close> and \<open>_config_leverage\<close> see of the executor's configuration:
  \<open>crosses_book\<close> and \<open>execution_strategy\<close> of the config or of its nested
  \<open>order_config\<close>, and the leverages of the nested and the outer config, in that order.
\<close>

record cfg_view =
  cv_crosses :: bool
  cv_strategy :: "execution_strategy option"
  cv_leverages :: "dec option list"

record exec_base =
  ex_id :: string
  ex_user :: int
  ex_controller :: string
  ex_pair :: string
  ex_keep_position :: bool
  ex_has_inventory :: bool
  ex_has_recorder :: bool
  ex_cfg_view :: cfg_view
  ex_suppress_new :: bool
  ex_state :: executor_state
  ex_close :: "close_type option"
  ex_created_at :: time
  ex_terminated_at :: "time option"
  ex_retries :: nat
  ex_net_pnl :: dec
  ex_fees :: dec
  ex_volume :: dec

type_synonym ('v, 'x) est = "'x exec_base_scheme \<times> 'v env"

definition mk_exec_base ::
  "string \<Rightarrow> int \<Rightarrow> string \<Rightarrow> string \<Rightarrow> bool \<Rightarrow> bool \<Rightarrow> cfg_view \<Rightarrow> time \<Rightarrow> exec_base" where
  "mk_exec_base xid user cid pair keep has_inv view t =
     \<lparr>ex_id = xid, ex_user = user, ex_controller = cid, ex_pair = pair, ex_keep_position = keep,
      ex_has_inventory = has_inv, ex_has_recorder = False, ex_cfg_view = view,
      ex_suppress_new = False, ex_state = CREATED, ex_close = None, ex_created_at = t,
      ex_terminated_at = None, ex_retries = 0, ex_net_pnl = 0, ex_fees = 0, ex_volume = 0\<rparr>"

definition me :: "('v, 'x) est \<Rightarrow> (exc + 'x exec_base_scheme) \<times> ('v, 'x) est" where
  "me = getsP fst"

definition upd :: "('x exec_base_scheme \<Rightarrow> 'x exec_base_scheme) \<Rightarrow> (('v, 'x) est, unit) prog" where
  "upd f = modifyP (\<lambda>(x, e). (f x, e))"

definition clock :: "'v venue_api \<Rightarrow> (('v, 'x) est, time) prog" where
  "clock api = getsP (\<lambda>(x, e). va_now api (env_venue e))"

definition venue_do :: "('v, 'a) prog \<Rightarrow> (('v, 'x) est, 'a) prog" where
  "venue_do p = (\<lambda>(x, e). case p (env_venue e) of (r, v') \<Rightarrow> (r, (x, e\<lparr>env_venue := v'\<rparr>)))"

lemma wp_me [simp, wp_simps]: "wp me Q E (x, e) = Q x (x, e)"
  by (simp add: me_def)

lemma wp_upd [simp, wp_simps]: "wp (upd f) Q E (x, e) = Q () (f x, e)"
  by (simp add: upd_def)

lemma wp_clock [simp, wp_simps]: "wp (clock api) Q E (x, e) = Q (va_now api (env_venue e)) (x, e)"
  by (simp add: clock_def)

lemma wp_venue_do:
  "wp (venue_do p) Q E (x, e)
   = wp p (\<lambda>a v'. Q a (x, e\<lparr>env_venue := v'\<rparr>)) (\<lambda>c v'. E c (x, e\<lparr>env_venue := v'\<rparr>)) (env_venue e)"
  by (auto simp: wp_def venue_do_def split: sum.splits prod.splits)

subsection \<open>Lifecycle\<close>

definition activated :: "'x exec_base_scheme \<Rightarrow> 'x exec_base_scheme" where
  "activated x = (if ex_state x = CREATED then x\<lparr>ex_state := ACTIVE\<rparr> else x)"

definition terminated :: "close_type \<Rightarrow> time \<Rightarrow> 'x exec_base_scheme \<Rightarrow> 'x exec_base_scheme" where
  "terminated ct t x = (if ex_state x = TERMINATED then x
     else x\<lparr>ex_state := TERMINATED, ex_close := Some ct, ex_terminated_at := Some t\<rparr>)"

definition activate :: "(('v, 'x) est, unit) prog" where
  "activate = upd activated"

definition terminate :: "'v venue_api \<Rightarrow> close_type \<Rightarrow> (('v, 'x) est, unit) prog" where
  "terminate api ct = bindP (clock api) (\<lambda>t. upd (terminated ct t))"

definition is_active :: "'x exec_base_scheme \<Rightarrow> bool" where
  "is_active x \<longleftrightarrow> ex_state x = ACTIVE"

definition is_terminated :: "'x exec_base_scheme \<Rightarrow> bool" where
  "is_terminated x \<longleftrightarrow> ex_state x = TERMINATED"

definition duration_seconds :: "'x exec_base_scheme \<Rightarrow> time \<Rightarrow> time" where
  "duration_seconds x now = (case ex_terminated_at x of Some t \<Rightarrow> t | None \<Rightarrow> now) - ex_created_at x"

lemma wp_activate [simp, wp_simps]: "wp activate Q E (x, e) = Q () (activated x, e)"
  by (simp add: activate_def)

lemma wp_terminate [simp, wp_simps]:
  "wp (terminate api ct) Q E (x, e) = Q () (terminated ct (va_now api (env_venue e)) x, e)"
  by (simp add: terminate_def)

subsection \<open>The retry policy\<close>

definition MAX_ATTEMPTS :: nat where
  "MAX_ATTEMPTS = 3"

definition BASE_BACKOFF :: time where
  "BASE_BACKOFF = 1 / 100"

definition backoff_sleep :: "'v venue_api \<Rightarrow> nat \<Rightarrow> (('v, 'x) est, unit) prog" where
  "backoff_sleep api attempt =
     modifyP (\<lambda>(x, e). (x, e\<lparr>env_venue := va_sleep api (BASE_BACKOFF * 2 ^ attempt) (env_venue e)\<rparr>))"

text \<open>
  \<open>guard_loop api label op n prev\<close> is the loop with \<open>n\<close> attempts left; the attempt number
  of the code is \<open>MAX_ATTEMPTS - n\<close>.
\<close>

fun guard_loop ::
  "'v venue_api \<Rightarrow> string \<Rightarrow> ('v, 'a) prog \<Rightarrow> nat \<Rightarrow> string \<Rightarrow> (('v, 'x) est, 'a) prog" where
  "guard_loop api label op 0 prev =
     thenP (terminate api FAILED)
       (raise (ExecutorFailed ((if label = [] then ''adapter op'' else label)
          @ '' failed after 3 attempts: '' @ prev)))"
| "guard_loop api label op (Suc n) prev =
     tryP (venue_do op) (\<lambda>c. case c of
        AdapterThrottled m \<Rightarrow> raise c
      | AdapterError m \<Rightarrow>
          thenP (upd (\<lambda>x. x\<lparr>ex_retries := Suc (ex_retries x)\<rparr>))
            (thenP (whenP (0 < n) (backoff_sleep api (MAX_ATTEMPTS - Suc n)))
              (guard_loop api label op n m))
      | _ \<Rightarrow> raise c)"

definition guard :: "'v venue_api \<Rightarrow> string \<Rightarrow> ('v, 'a) prog \<Rightarrow> (('v, 'x) est, 'a) prog" where
  "guard api label op = guard_loop api label op MAX_ATTEMPTS ''None''"

subsection \<open>Recording a fill\<close>

definition fill_was_taker :: "cfg_view \<Rightarrow> nado_order \<Rightarrow> bool" where
  "fill_was_taker cv placed =
     (if o_type placed = MARKET then True else cv_crosses cv)"

definition config_leverage :: "cfg_view \<Rightarrow> dec option" where
  "config_leverage cv =
     (case filter (\<lambda>l. case l of None \<Rightarrow> False | Some f \<Rightarrow> f > 0) (cv_leverages cv) of
        [] \<Rightarrow> None | l # _ \<Rightarrow> l)"

definition book_inventory :: "'v venue_api \<Rightarrow> fill \<Rightarrow> (('v, 'x) est, unit) prog" where
  "book_inventory api f = (\<lambda>(x, e).
     case apply_fill (ex_user x) (ex_pair x) (ex_controller x) (f_side f) (Finite (f_base f))
            (Finite (f_quote f)) (Finite (f_fee f)) (Some (f_ts f)) (va_now api (env_venue e))
            (env_inv e) of
       Inl c \<Rightarrow> (Inl c, (x, e))
     | Inr (_, iv) \<Rightarrow> (Inr (), (x, e\<lparr>env_inv := iv\<rparr>)))"

definition trade_row_of :: "fill \<Rightarrow> nado_order \<Rightarrow> bool option \<Rightarrow> 'x exec_base_scheme \<Rightarrow> trade_row" where
  "trade_row_of f placed crossed x =
     \<lparr>t_controller = ex_controller x, t_pair = ex_pair x, t_side = f_side f,
      t_base = f_base f, t_price = f_price f, t_fee = f_fee f, t_order = f_order_id f,
      t_ts = f_ts f,
      t_taker = (case crossed of None \<Rightarrow> fill_was_taker (ex_cfg_view x) placed | Some b \<Rightarrow> b),
      t_leverage = config_leverage (ex_cfg_view x)\<rparr>"

definition report_trade :: "fill \<Rightarrow> nado_order \<Rightarrow> bool option \<Rightarrow> (('v, 'x) est, unit) prog" where
  "report_trade f placed crossed = modifyP (\<lambda>(x, e).
     (x, e\<lparr>env_trades := env_trades e @ [trade_row_of f placed crossed x]\<rparr>))"

definition charged :: "fill \<Rightarrow> 'x exec_base_scheme \<Rightarrow> 'x exec_base_scheme" where
  "charged f x = x\<lparr>ex_fees := ex_fees x + f_fee f, ex_volume := ex_volume x + f_quote f\<rparr>"

definition record_fill ::
  "'v venue_api \<Rightarrow> fill \<Rightarrow> nado_order \<Rightarrow> bool option \<Rightarrow> (('v, 'x) est, unit) prog" where
  "record_fill api f placed crossed = seqP
     [upd (charged f),
      bindP me (\<lambda>x. whenP (ex_has_inventory x) (book_inventory api f)),
      bindP me (\<lambda>x. whenP (ex_has_recorder x) (report_trade f placed crossed))]"

definition record_realized :: "dec \<Rightarrow> (('v, 'x) est, unit) prog" where
  "record_realized amount = upd (\<lambda>x. x\<lparr>ex_net_pnl := ex_net_pnl x + amount\<rparr>)"

subsection \<open>Lemmas: lifecycle\<close>

lemma activated_simps [simp]:
  "ex_close (activated x) = ex_close x" "ex_terminated_at (activated x) = ex_terminated_at x"
  "ex_state (activated x) = TERMINATED \<longleftrightarrow> ex_state x = TERMINATED"
  "ex_retries (activated x) = ex_retries x" "ex_fees (activated x) = ex_fees x"
  "ex_volume (activated x) = ex_volume x" "ex_has_inventory (activated x) = ex_has_inventory x"
  "ex_has_recorder (activated x) = ex_has_recorder x" "ex_user (activated x) = ex_user x"
  "ex_pair (activated x) = ex_pair x" "ex_controller (activated x) = ex_controller x"
  "ex_id (activated x) = ex_id x" "exec_base.more (activated x) = exec_base.more x"
  by (auto simp: activated_def)

lemma terminated_simps [simp]:
  "ex_state (terminated ct t x) = TERMINATED"
  "ex_close (terminated ct t x) = (if ex_state x = TERMINATED then ex_close x else Some ct)"
  "ex_retries (terminated ct t x) = ex_retries x" "ex_fees (terminated ct t x) = ex_fees x"
  "ex_volume (terminated ct t x) = ex_volume x" "ex_net_pnl (terminated ct t x) = ex_net_pnl x"
  "ex_has_inventory (terminated ct t x) = ex_has_inventory x"
  "ex_has_recorder (terminated ct t x) = ex_has_recorder x" "ex_user (terminated ct t x) = ex_user x"
  "ex_pair (terminated ct t x) = ex_pair x" "ex_controller (terminated ct t x) = ex_controller x"
  "ex_id (terminated ct t x) = ex_id x" "exec_base.more (terminated ct t x) = exec_base.more x"
  by (auto simp: terminated_def)

lemma activated_mono: "ex_state x \<le> ex_state (activated x)"
  by (cases "ex_state x") (auto simp: activated_def)

lemma activated_not_created [simp]: "ex_state (activated x) \<noteq> CREATED"
  by (auto simp: activated_def)

text \<open>
  \<open>ex_later x0 x\<close>: \<open>x\<close> is at the same or a later point of the lifecycle than \<open>x0\<close>, and
  once \<open>x0\<close> is terminated its close type and time are final.
\<close>

definition ex_later :: "'x exec_base_scheme \<Rightarrow> 'x exec_base_scheme \<Rightarrow> bool" where
  "ex_later x0 x \<longleftrightarrow> ex_state x0 \<le> ex_state x
     \<and> (ex_state x0 = TERMINATED \<longrightarrow> ex_close x = ex_close x0 \<and> ex_terminated_at x = ex_terminated_at x0)"

lemma ex_later_refl [simp]: "ex_later x x"
  by (simp add: ex_later_def)

lemma ex_later_activated [simp]: "ex_later x0 x \<Longrightarrow> ex_later x0 (activated x)"
  by (auto simp: ex_later_def activated_def)

lemma ex_later_terminated [simp]: "ex_later x0 x \<Longrightarrow> ex_later x0 (terminated ct t x)"
  by (auto simp: ex_later_def terminated_def)

lemma ex_later_cong:
  "ex_later x0 x \<Longrightarrow> ex_state y = ex_state x \<Longrightarrow> ex_close y = ex_close x
   \<Longrightarrow> ex_terminated_at y = ex_terminated_at x \<Longrightarrow> ex_later x0 y"
  by (simp add: ex_later_def)

lemma terminated_twice [simp]: "ex_state x = TERMINATED \<Longrightarrow> terminated ct t x = x"
  by (simp add: terminated_def)

subsection \<open>Lemmas: the retry policy\<close>

text \<open>
  What a guarded call can do, for any venue operation that from a state satisfying \<open>pre\<close>
  answers within \<open>R\<close> or raises into \<open>bad\<close>, with the backoff sleep leading from \<open>bad\<close> back to
  \<open>pre\<close>: it changes only the retry count and the venue, except that an exhausted budget also
  terminates the executor.
\<close>

lemma wp_guard_loop:
  assumes start: "if k = 0 then bad (env_venue e) else pre (env_venue e)"
    and op: "\<And>v. pre v \<Longrightarrow> wp op R (\<lambda>_. bad) v"
    and sl: "\<And>d v. bad v \<Longrightarrow> pre (va_sleep api d v)"
    and Q: "\<And>a n v'. R a v' \<Longrightarrow> n \<le> ex_retries x + k
        \<Longrightarrow> Q a (x\<lparr>ex_retries := n\<rparr>, e\<lparr>env_venue := v'\<rparr>)"
    and E: "\<And>c n v'. bad v' \<Longrightarrow> n \<le> ex_retries x + k
        \<Longrightarrow> E c (x\<lparr>ex_retries := n\<rparr>, e\<lparr>env_venue := v'\<rparr>)"
    and F: "\<And>m v'. bad v'
        \<Longrightarrow> E (ExecutorFailed m) (terminated FAILED (va_now api v') (x\<lparr>ex_retries := ex_retries x + k\<rparr>),
              e\<lparr>env_venue := v'\<rparr>)"
  shows "wp (guard_loop api label op k prev) Q E (x, e)"
  using start Q E F
proof (induction k arbitrary: x e prev)
  case 0
  from "0.prems"(1) "0.prems"(4) [of "env_venue e"] show ?case
    by simp
next
  case (Suc k)
  let ?H = "\<lambda>c. case c of AdapterThrottled m \<Rightarrow> raise c
      | AdapterError m \<Rightarrow> thenP (upd (\<lambda>x. x\<lparr>ex_retries := Suc (ex_retries x)\<rparr>))
          (thenP (whenP (0 < k) (backoff_sleep api (MAX_ATTEMPTS - Suc k)))
            (guard_loop api label op k m))
      | _ \<Rightarrow> raise c"
  have retry: "wp (?H (AdapterError m)) Q E (x, e\<lparr>env_venue := v'\<rparr>)" if "bad v'" for m v'
  proof -
    define v2 where "v2 = (if 0 < k then va_sleep api (BASE_BACKOFF * 2 ^ (MAX_ATTEMPTS - Suc k)) v' else v')"
    have v2: "if k = 0 then bad v2 else pre v2" using that sl by (simp add: v2_def)
    have "wp (guard_loop api label op k m) Q E
        (x\<lparr>ex_retries := Suc (ex_retries x)\<rparr>, e\<lparr>env_venue := v2\<rparr>)"
    proof (rule Suc.IH)
      show "if k = 0 then bad (env_venue (e\<lparr>env_venue := v2\<rparr>)) else pre (env_venue (e\<lparr>env_venue := v2\<rparr>))"
        using v2 by simp
      show "Q a (x\<lparr>ex_retries := Suc (ex_retries x), ex_retries := n\<rparr>,
          e\<lparr>env_venue := v2, env_venue := w\<rparr>)" if "R a w"
        "n \<le> ex_retries (x\<lparr>ex_retries := Suc (ex_retries x)\<rparr>) + k" for a n w
        using Suc.prems(2) [of a w n] that by simp
      show "E c (x\<lparr>ex_retries := Suc (ex_retries x), ex_retries := n\<rparr>,
          e\<lparr>env_venue := v2, env_venue := w\<rparr>)" if "bad w"
        "n \<le> ex_retries (x\<lparr>ex_retries := Suc (ex_retries x)\<rparr>) + k" for c n w
        using Suc.prems(3) [of w n] that by simp
      show "E (ExecutorFailed m) (terminated FAILED (va_now api w)
            (x\<lparr>ex_retries := Suc (ex_retries x),
               ex_retries := ex_retries (x\<lparr>ex_retries := Suc (ex_retries x)\<rparr>) + k\<rparr>),
          e\<lparr>env_venue := v2, env_venue := w\<rparr>)" if "bad w" for m w
        using Suc.prems(4) [of w m] that by simp
    qed
    then show ?thesis
      by (cases "0 < k") (simp_all add: backoff_sleep_def v2_def del: guard_loop.simps)
  qed
  have "wp op (\<lambda>a v'. Q a (x, e\<lparr>env_venue := v'\<rparr>)) (\<lambda>c v'. wp (?H c) Q E (x, e\<lparr>env_venue := v'\<rparr>))
      (env_venue e)"
  proof (rule wp_mono [OF op])
    show "pre (env_venue e)" using Suc.prems(1) by simp
    show "Q a (x, e\<lparr>env_venue := v'\<rparr>)" if "R a v'" for a v'
      using Suc.prems(2) [of a v' "ex_retries x"] that by simp
    show "wp (?H c) Q E (x, e\<lparr>env_venue := v'\<rparr>)" if "bad v'" for c v'
      using retry that Suc.prems(3) [OF that, of "ex_retries x" c] by (cases c) auto
  qed
  then show ?case by (simp add: wp_venue_do)
qed

lemma wp_guard_law:
  assumes "pre (env_venue e)"
    and "\<And>v. pre v \<Longrightarrow> wp op R (\<lambda>_. bad) v"
    and "\<And>d v. bad v \<Longrightarrow> pre (va_sleep api d v)"
    and "\<And>a n v'. R a v' \<Longrightarrow> Q a (x\<lparr>ex_retries := n\<rparr>, e\<lparr>env_venue := v'\<rparr>)"
    and "\<And>c n v'. bad v' \<Longrightarrow> E c (x\<lparr>ex_retries := n\<rparr>, e\<lparr>env_venue := v'\<rparr>)"
    and "\<And>m n t v'. bad v'
        \<Longrightarrow> E (ExecutorFailed m) (terminated FAILED t (x\<lparr>ex_retries := n\<rparr>), e\<lparr>env_venue := v'\<rparr>)"
  shows "wp (guard api label op) Q E (x, e)"
  unfolding guard_def
  by (rule wp_guard_loop [where pre = pre and bad = bad and R = R])
    (use assms in \<open>simp_all add: MAX_ATTEMPTS_def\<close>)

text \<open>The same for an arbitrary venue.\<close>

lemma wp_guard [wp_intros]:
  assumes "\<And>a n v'. Q a (x\<lparr>ex_retries := n\<rparr>, e\<lparr>env_venue := v'\<rparr>)"
    and "\<And>c n v'. E c (x\<lparr>ex_retries := n\<rparr>, e\<lparr>env_venue := v'\<rparr>)"
    and "\<And>m n t v'. E (ExecutorFailed m) (terminated FAILED t (x\<lparr>ex_retries := n\<rparr>), e\<lparr>env_venue := v'\<rparr>)"
  shows "wp (guard api label op) Q E (x, e)"
  by (rule wp_guard_law [where pre = "\<lambda>_. True" and bad = "\<lambda>_. True" and R = "\<lambda>_ _. True"])
    (use assms in \<open>auto simp: wp_def split: sum.splits prod.splits\<close>)

lemma keeps_guard [keeps_intros]:
  assumes "\<And>x e n v. I (x, e) \<Longrightarrow> I (x\<lparr>ex_retries := n\<rparr>, e\<lparr>env_venue := v\<rparr>)"
    and "\<And>x e t. I (x, e) \<Longrightarrow> I (terminated FAILED t x, e)"
  shows "keeps I (guard api label op)"
  by (rule keepsI) (auto intro!: wp_guard assms)

lemma keeps_me [keeps_intros]: "keeps I me"
  by (simp add: me_def keeps_gets)

lemma keeps_me_bind: "(\<And>x e. I (x, e) \<Longrightarrow> keeps I (f x)) \<Longrightarrow> keeps I (bindP me f)"
  by (rule keepsI) (auto simp: keeps_def)

lemma keeps_world: "(\<And>x e v. I (x, e) \<Longrightarrow> I (x, e\<lparr>env_venue := v\<rparr>)) \<Longrightarrow>
    keeps I (modifyP (\<lambda>(x, e). (x, e\<lparr>env_venue := w (env_venue e)\<rparr>)))"
  by (rule keepsI) auto

lemma keeps_clock [keeps_intros]: "keeps I (clock api)"
  by (simp add: clock_def keeps_gets)

lemma keeps_upd: "(\<And>x e. I (x, e) \<Longrightarrow> I (f x, e)) \<Longrightarrow> keeps I (upd f)"
  by (rule keepsI) auto

lemma keeps_activate [keeps_intros]: "(\<And>x e. I (x, e) \<Longrightarrow> I (activated x, e)) \<Longrightarrow> keeps I activate"
  by (simp add: activate_def keeps_upd)

lemma keeps_terminate [keeps_intros]:
  "(\<And>x e t. I (x, e) \<Longrightarrow> I (terminated ct t x, e)) \<Longrightarrow> keeps I (terminate api ct)"
  by (rule keepsI) auto

subsection \<open>Lemmas: recording\<close>

lemma wp_book_inventory [simp, wp_simps]:
  "wp (book_inventory api f) Q E (x, e) =
    (if f_base f < 0 \<or> f_quote f < 0
     then E (ValueError ''fill quantities must be non-negative'') (x, e)
     else Q () (x, e\<lparr>env_inv := od_set (ex_user x, ex_pair x, ex_controller x)
       (book_fill (f_side f) (f_base f) (f_quote f) (f_fee f) (f_ts f)
          (hold_at (env_inv e) (ex_user x, ex_pair x, ex_controller x))) (env_inv e)\<rparr>))"
  by (auto simp: book_inventory_def wp_def hold_at_def Let_def)

text \<open>The environment a fill leaves behind when it is accepted.\<close>

definition booked :: "fill \<Rightarrow> nado_order \<Rightarrow> bool option \<Rightarrow> 'x exec_base_scheme \<Rightarrow> 'v env \<Rightarrow> 'v env" where
  "booked f placed crossed x e = e\<lparr>
     env_inv := (if ex_has_inventory x
       then od_set (ex_user x, ex_pair x, ex_controller x)
         (book_fill (f_side f) (f_base f) (f_quote f) (f_fee f) (f_ts f)
            (hold_at (env_inv e) (ex_user x, ex_pair x, ex_controller x))) (env_inv e)
       else env_inv e),
     env_trades := (if ex_has_recorder x
       then env_trades e @ [trade_row_of f placed crossed x] else env_trades e)\<rparr>"

definition fill_refused :: "fill \<Rightarrow> 'x exec_base_scheme \<Rightarrow> bool" where
  "fill_refused f x \<longleftrightarrow> ex_has_inventory x \<and> (f_base f < 0 \<or> f_quote f < 0)"

lemma charged_simps [simp]:
  "ex_has_inventory (charged f x) = ex_has_inventory x"
  "ex_has_recorder (charged f x) = ex_has_recorder x"
  "ex_user (charged f x) = ex_user x" "ex_pair (charged f x) = ex_pair x"
  "ex_controller (charged f x) = ex_controller x" "ex_id (charged f x) = ex_id x"
  "ex_state (charged f x) = ex_state x" "ex_close (charged f x) = ex_close x"
  "ex_terminated_at (charged f x) = ex_terminated_at x"
  "ex_retries (charged f x) = ex_retries x" "exec_base.more (charged f x) = exec_base.more x"
  "ex_fees (charged f x) = ex_fees x + f_fee f" "ex_volume (charged f x) = ex_volume x + f_quote f"
  "ex_net_pnl (charged f x) = ex_net_pnl x" "ex_cfg_view (charged f x) = ex_cfg_view x"
  "trade_row_of g placed crossed (charged f x) = trade_row_of g placed crossed x"
  by (simp_all add: charged_def trade_row_of_def split: option.split)

lemma trade_row_of_simps [simp]:
  "t_base (trade_row_of f p c x) = f_base f" "t_price (trade_row_of f p c x) = f_price f"
  "t_fee (trade_row_of f p c x) = f_fee f" "t_side (trade_row_of f p c x) = f_side f"
  "t_order (trade_row_of f p c x) = f_order_id f"
  by (simp_all add: trade_row_of_def)

lemma booked_simps [simp]:
  "env_venue (booked f p c x e) = env_venue e"
  "ex_has_recorder x \<Longrightarrow> env_trades (booked f p c x e) = env_trades e @ [trade_row_of f p c x]"
  "\<not> ex_has_recorder x \<Longrightarrow> env_trades (booked f p c x e) = env_trades e"
  "\<not> ex_has_inventory x \<Longrightarrow> env_inv (booked f p c x e) = env_inv e"
  by (simp_all add: booked_def)

lemma booked_hold:
  "ex_has_inventory x \<Longrightarrow> hold_at (env_inv (booked f p c x e)) k =
    (if k = (ex_user x, ex_pair x, ex_controller x)
     then book_fill (f_side f) (f_base f) (f_quote f) (f_fee f) (f_ts f) (hold_at (env_inv e) k)
     else hold_at (env_inv e) k)"
  by (simp add: booked_def hold_at_set)

lemma wp_record_fill [simp, wp_simps]:
  "wp (record_fill api f placed crossed) Q E (x, e) =
    (if fill_refused f x
     then E (ValueError ''fill quantities must be non-negative'') (charged f x, e)
     else Q () (charged f x, booked f placed crossed x e))"
  by (cases "ex_has_inventory x"; cases "ex_has_recorder x")
    (simp_all add: record_fill_def report_trade_def fill_refused_def booked_def)

text \<open>Equations for concrete runs.\<close>

lemmas run_defs = bindP_def ret_def raise_def getsP_def modifyP_def tryP_def whenP_def me_def upd_def
  clock_def venue_do_def activate_def terminate_def

lemma guard_Inr:
  "op (env_venue e) = (Inr a, v) \<Longrightarrow> guard api label op (x, e) = (Inr a, (x, e\<lparr>env_venue := v\<rparr>))"
  by (simp add: guard_def MAX_ATTEMPTS_def numeral_3_eq_3 guard_loop.simps(2) run_defs)

lemma guard_throttled:
  "op (env_venue e) = (Inl (AdapterThrottled m), v)
   \<Longrightarrow> guard api label op (x, e) = (Inl (AdapterThrottled m), (x, e\<lparr>env_venue := v\<rparr>))"
  by (simp add: guard_def MAX_ATTEMPTS_def numeral_3_eq_3 guard_loop.simps(2) run_defs)

lemma wp_guard_Inr:
  "op (env_venue e) = (Inr a, v)
   \<Longrightarrow> wp (guard api label op) Q E (x, e) = Q a (x, e\<lparr>env_venue := v\<rparr>)"
  by (simp add: wp_def guard_Inr)

lemma wp_guard_throttled:
  "op (env_venue e) = (Inl (AdapterThrottled m), v)
   \<Longrightarrow> wp (guard api label op) Q E (x, e) = E (AdapterThrottled m) (x, e\<lparr>env_venue := v\<rparr>)"
  by (simp add: wp_def guard_throttled)

lemma record_fill_run:
  "record_fill api f placed crossed (x, e) =
    (if fill_refused f x
     then (Inl (ValueError ''fill quantities must be non-negative''), (charged f x, e))
     else (Inr (), (charged f x, booked f placed crossed x e)))"
  by (auto intro!: run_InlI run_InrI)

subsection \<open>The ledger of an executor\<close>

text \<open>
  \<open>ledger tr0 iv0 rows s\<close>: since the recorder's log was \<open>tr0\<close> and the inventory \<open>iv0\<close>,
  the executor has reported exactly \<open>rows\<close>, each for a positive base amount, and every hold
  has moved by exactly the rows of its key: this executor's key by all of them, any other
  key not at all.
\<close>

definition ex_key :: "'x exec_base_scheme \<Rightarrow> hold_key" where
  "ex_key x = (ex_user x, ex_pair x, ex_controller x)"

definition t_quote :: "trade_row \<Rightarrow> dec" where
  "t_quote r = t_base r * t_price r"

definition side_sum :: "trade_type \<Rightarrow> (trade_row \<Rightarrow> dec) \<Rightarrow> trade_row list \<Rightarrow> dec" where
  "side_sum sd g rows = sum_list (map g (filter (\<lambda>r. t_side r = sd) rows))"

definition moved_by :: "trade_row list \<Rightarrow> position_hold \<Rightarrow> position_hold \<Rightarrow> bool" where
  "moved_by rows h0 h \<longleftrightarrow>
      ph_buy_base h = ph_buy_base h0 + side_sum BUY t_base rows
    \<and> ph_buy_quote h = ph_buy_quote h0 + side_sum BUY t_quote rows
    \<and> ph_sell_base h = ph_sell_base h0 + side_sum SELL t_base rows
    \<and> ph_sell_quote h = ph_sell_quote h0 + side_sum SELL t_quote rows
    \<and> ph_fees h = ph_fees h0 + sum_list (map t_fee rows)"

definition ledger :: "trade_row list \<Rightarrow> inventory \<Rightarrow> trade_row list \<Rightarrow> ('v, 'x) est \<Rightarrow> bool" where
  "ledger tr0 iv0 rows s \<longleftrightarrow> (case s of (x, e) \<Rightarrow>
     ex_has_recorder x \<and> ex_has_inventory x \<and> env_trades e = tr0 @ rows
     \<and> (\<forall>r \<in> set rows. 0 < t_base r)
     \<and> (\<forall>k. moved_by (if k = ex_key x then rows else []) (hold_at iv0 k) (hold_at (env_inv e) k)))"

lemma side_sum_simps [simp]:
  "side_sum sd g [] = 0"
  "side_sum sd g (rows @ [r]) = side_sum sd g rows + (if t_side r = sd then g r else 0)"
  by (simp_all add: side_sum_def)

lemma side_sum_all:
  "(\<And>r. r \<in> set rows \<Longrightarrow> t_side r = sd) \<Longrightarrow> side_sum sd g rows = sum_list (map g rows)"
  by (simp add: side_sum_def cong: filter_cong)

lemma moved_by_Nil [simp]: "moved_by [] h h"
  by (simp add: moved_by_def)

lemma moved_by_snoc:
  "moved_by rows h0 h \<Longrightarrow> t_quote r = q \<Longrightarrow>
   moved_by (rows @ [r]) h0 (book_fill (t_side r) (t_base r) q (t_fee r) t h)"
  by (cases "t_side r") (simp_all add: moved_by_def book_fill_totals)

lemma ledger_init:
  "ex_has_recorder x \<Longrightarrow> ex_has_inventory x \<Longrightarrow> ledger (env_trades e) (env_inv e) [] (x, e)"
  by (simp add: ledger_def)

lemma ledger_cong:
  "ledger tr0 iv0 rows (x, e) \<Longrightarrow> ex_has_recorder y = ex_has_recorder x
   \<Longrightarrow> ex_has_inventory y = ex_has_inventory x \<Longrightarrow> ex_key y = ex_key x
   \<Longrightarrow> env_trades e' = env_trades e \<Longrightarrow> env_inv e' = env_inv e \<Longrightarrow> ledger tr0 iv0 rows (y, e')"
  by (simp add: ledger_def)

lemma ex_key_simps [simp]:
  "ex_key (charged f x) = ex_key x" "ex_key (activated x) = ex_key x"
  "ex_key (terminated ct t x) = ex_key x"
  by (simp_all add: ex_key_def)

lemma t_quote_row [simp]: "t_quote (trade_row_of f p c x) = f_quote f"
  by (simp add: t_quote_def f_quote_def)

lemma ledger_booked:
  assumes l: "ledger tr0 iv0 rows (x, e)" and pos: "0 < f_base f"
  shows "ledger tr0 iv0 (rows @ [trade_row_of f p c x]) (charged f x, booked f p c x e)"
proof -
  have fl: "ex_has_recorder x" "ex_has_inventory x" using l by (simp_all add: ledger_def)
  have "moved_by (if k = ex_key x then rows @ [trade_row_of f p c x] else []) (hold_at iv0 k)
      (hold_at (env_inv (booked f p c x e)) k)" for k
  proof (cases "k = ex_key x")
    case True
    have "moved_by rows (hold_at iv0 k) (hold_at (env_inv e) k)"
      using l True unfolding ledger_def prod.case by (metis (full_types))
    from moved_by_snoc [OF this t_quote_row, of f p c x "f_ts f"] True fl show ?thesis
      by (simp add: booked_hold ex_key_def)
  next
    case False
    then have "moved_by [] (hold_at iv0 k) (hold_at (env_inv e) k)"
      using l unfolding ledger_def prod.case by (metis (full_types))
    with False fl show ?thesis by (simp add: booked_hold ex_key_def)
  qed
  with l pos fl show ?thesis by (auto simp: ledger_def)
qed

declare guard_loop.simps(2) [simp del]

lemma guard_loop_pass:
  "op (env_venue e) = (a, v) \<Longrightarrow> \<forall>m. a \<noteq> Inl (AdapterError m)
   \<Longrightarrow> guard_loop api label op (Suc n) prev (x, e) = (a, (x, e\<lparr>env_venue := v\<rparr>))"
  by (auto simp: guard_loop.simps(2) tryP_def venue_do_def raise_def split: sum.splits exc.splits)

lemma guard_loop_retry:
  "op (env_venue e) = (Inl (AdapterError m), v)
   \<Longrightarrow> guard_loop api label op (Suc (Suc n)) prev (x, e)
     = guard_loop api label op (Suc n) m (x\<lparr>ex_retries := Suc (ex_retries x)\<rparr>,
         e\<lparr>env_venue := va_sleep api (BASE_BACKOFF * 2 ^ (MAX_ATTEMPTS - Suc (Suc n))) v\<rparr>)"
  by (subst guard_loop.simps(2))
    (simp add: tryP_def venue_do_def bindP_def upd_def modifyP_def whenP_def backoff_sleep_def)

lemma guard_loop_spent:
  "op (env_venue e) = (Inl (AdapterError m), v)
   \<Longrightarrow> guard_loop api label op (Suc 0) prev (x, e)
     = (Inl (ExecutorFailed ((if label = [] then ''adapter op'' else label)
          @ '' failed after 3 attempts: '' @ m)), (terminated FAILED (va_now api v)
          (x\<lparr>ex_retries := Suc (ex_retries x)\<rparr>), e\<lparr>env_venue := v\<rparr>))"
  by (simp add: guard_loop.simps(2) tryP_def venue_do_def bindP_def upd_def modifyP_def whenP_def ret_def raise_def
      terminate_def clock_def getsP_def)

subsection \<open>Fenced venues\<close>

text \<open>
  \<open>fenced P api\<close> is the venue \<open>api\<close> behind a gate that refuses every placement whose
  side, order type, amount and reduce-only flag \<open>P\<close> does not allow. A program that behaves
  the same before and after the gate is put up never sends an order \<open>P\<close> forbids.
\<close>

definition fenced ::
  "(trade_type \<Rightarrow> order_type \<Rightarrow> dec \<Rightarrow> bool \<Rightarrow> bool) \<Rightarrow> 'v venue_api \<Rightarrow> 'v venue_api" where
  "fenced P api = api\<lparr>va_place := (\<lambda>pair side ty amt px lev ro.
     if P side ty amt ro then va_place api pair side ty amt px lev ro
     else raise (OtherError ''order refused at the fence''))\<rparr>"

lemma fenced_simps [simp]:
  "va_cancel (fenced P api) = va_cancel api" "va_status (fenced P api) = va_status api"
  "va_mid (fenced P api) = va_mid api" "va_now (fenced P api) = va_now api"
  "va_sleep (fenced P api) = va_sleep api" "va_budget (fenced P api) = va_budget api"
  "P side ty amt ro
   \<Longrightarrow> va_place (fenced P api) pair side ty amt px lev ro = va_place api pair side ty amt px lev ro"
  by (simp_all add: fenced_def)

lemma terminate_fenced [simp]: "terminate (fenced P api) ct = terminate api ct"
  by (simp add: terminate_def clock_def)

lemma clock_fenced [simp]: "clock (fenced P api) = clock api"
  by (simp add: clock_def)

lemma guard_fenced [simp]: "guard (fenced P api) label op = guard api label op"
proof -
  have "guard_loop (fenced P api) label op n prev = guard_loop api label op n prev" for n prev
    by (induction n arbitrary: prev) (simp_all add: guard_loop.simps(2) backoff_sleep_def cong: exc.case_cong)
  then show ?thesis by (simp add: guard_def)
qed

lemma record_fill_fenced [simp]: "record_fill (fenced P api) = record_fill api"
  by (simp add: record_fill_def book_inventory_def fun_eq_iff)

subsection \<open>The contract of the retry policy\<close>

text \<open>
  Claim C11: the retry policy around every adapter call. Either the three attempts,
  with the two backoff sleeps between them, all raised an adapter error, and then the
  executor is terminated as FAILED; or the outcome, a value, a throttle or any other
  exception, is the venue's own answer to one of at most three attempts, passed on as it is
  with the executor untouched but for its retry count. In particular a client-side budget
  throttle is never retried and never fails an executor.
\<close>

theorem guard_contract:
  assumes "guard api label op (x, e) = (r, (x', e'))"
  shows "(\<exists>m1 m2 m3 m v1 v2 v3.
        op (env_venue e) = (Inl (AdapterError m1), v1)
      \<and> op (va_sleep api (1 / 100) v1) = (Inl (AdapterError m2), v2)
      \<and> op (va_sleep api (1 / 50) v2) = (Inl (AdapterError m3), v3)
      \<and> r = Inl (ExecutorFailed m) \<and> e' = e\<lparr>env_venue := v3\<rparr>
      \<and> x' = terminated FAILED (va_now api v3) (x\<lparr>ex_retries := ex_retries x + 3\<rparr>))
    \<or> (\<exists>v w k. k \<le> 2 \<and> op v = (r, w) \<and> (\<forall>m. r \<noteq> Inl (AdapterError m))
      \<and> e' = e\<lparr>env_venue := w\<rparr> \<and> x' = x\<lparr>ex_retries := ex_retries x + k\<rparr>
      \<and> ((\<exists>m. r = Inl (AdapterThrottled m)) \<longrightarrow> ex_state x' = ex_state x))"
proof -
  obtain a1 v1 where 1: "op (env_venue e) = (a1, v1)" by fastforce
  obtain a2 v2 where 2: "op (va_sleep api (1 / 100) v1) = (a2, v2)" by fastforce
  obtain a3 v3 where 3: "op (va_sleep api (1 / 50) v2) = (a3, v3)" by fastforce
  note run = assms [unfolded guard_def, simplified MAX_ATTEMPTS_def numeral_3_eq_3]
  note backoff = BASE_BACKOFF_def MAX_ATTEMPTS_def
  consider (first) "\<forall>m. a1 \<noteq> Inl (AdapterError m)"
    | (second) m1 where "a1 = Inl (AdapterError m1)" "\<forall>m. a2 \<noteq> Inl (AdapterError m)"
    | (third) m1 m2 where "a1 = Inl (AdapterError m1)" "a2 = Inl (AdapterError m2)"
        "\<forall>m. a3 \<noteq> Inl (AdapterError m)"
    | (spent) m1 m2 m3 where "a1 = Inl (AdapterError m1)" "a2 = Inl (AdapterError m2)"
        "a3 = Inl (AdapterError m3)"
    by blast
  then show ?thesis
  proof cases
    case first
    with run 1 show ?thesis
      by (intro disjI2 exI [of _ "env_venue e"] exI [of _ v1] exI [of _ 0])
        (auto simp: guard_loop_pass)
  next
    case second
    with run 1 2 show ?thesis
      by (intro disjI2 exI [of _ "va_sleep api (1 / 100) v1"] exI [of _ v2] exI [of _ 1])
        (auto simp: guard_loop_pass guard_loop_retry backoff)
  next
    case third
    with run 1 2 3 show ?thesis
      by (intro disjI2 exI [of _ "va_sleep api (1 / 50) v2"] exI [of _ v3] exI [of _ 2])
        (auto simp: guard_loop_pass guard_loop_retry backoff)
  next
    case spent
    with run 1 2 3 show ?thesis
      by (auto simp: guard_loop_spent guard_loop_retry backoff numeral_3_eq_3)
  qed
qed

definition refusing_op :: "(script, unit) prog" where
  "refusing_op = (\<lambda>v. (Inl (AdapterError ''busy''), v\<lparr>sc_now := sc_now v + 1\<rparr>))"

definition demo_base :: exec_base where
  "demo_base = mk_exec_base ''e1'' 1 ''c1'' ''BTC'' False True
     \<lparr>cv_crosses = False, cv_strategy = None, cv_leverages = []\<rparr> 0"

definition demo_env :: "script env" where
  "demo_env = \<lparr>env_venue = \<lparr>sc_now = 0, sc_orders = [], sc_mids = [], sc_cancels = []\<rparr>,
     env_inv = [], env_trades = []\<rparr>"

theorem guard_contract_witness:
  "ex_state (fst (snd (guard script_api ''place'' refusing_op (demo_base, demo_env)))) = TERMINATED
   \<and> ex_retries (fst (snd (guard script_api ''place'' refusing_op (demo_base, demo_env)))) = 3"
proof -
  obtain r x' e' where run: "guard script_api ''place'' refusing_op (demo_base, demo_env) = (r, (x', e'))"
    by (metis prod.collapse)
  from guard_contract [OF run] have "ex_state x' = TERMINATED \<and> ex_retries x' = 3"
    by (auto simp: refusing_op_def demo_base_def mk_exec_base_def)
  with run show ?thesis by simp
qed

end
