(* ===== verification/Order_Executor.thy ===== *)
theory Order_Executor
  imports Executor_Base
begin

text \<open>
  The order executor, from \<open>engine/executors/order_executor.py\<close>: one venue order worked to
  completion, or, for \<open>LIMIT_CHASER\<close>, a succession of post-only orders chasing the mid.

  The record \<open>order_exec\<close> extends the base executor with the attributes of
  \<open>OrderExecutor\<close>; each \<open>oe_\<close> program is the method of that name. A
  \<open>try ... except Exception\<close> of the code is a \<open>tryP\<close>; log lines are left out.
\<close>

record oe_config =
  oc_pair :: string
  oc_side :: trade_type
  oc_amount :: dec
  oc_strategy :: execution_strategy
  oc_price :: "dec option"
  oc_chaser :: "limit_chaser option"
  oc_leverage :: int
  oc_action :: position_action
  oc_crosses :: bool

text \<open>\<open>OrderExecutorConfig.__post_init__\<close>.\<close>

definition check_oe_config :: "oe_config \<Rightarrow> exc + oe_config" where
  "check_oe_config c =
     (if oc_strategy c \<in> {S_LIMIT, S_LIMIT_MAKER} \<and> oc_price c = None
      then Inl (ValueError ''requires a price'')
      else if oc_strategy c = S_LIMIT_CHASER \<and> oc_chaser c = None
      then Inl (ValueError ''LIMIT_CHASER requires a chaser_config'')
      else Inr c)"

fun strategy_order_type :: "execution_strategy \<Rightarrow> order_type" where
  "strategy_order_type S_LIMIT = LIMIT"
| "strategy_order_type S_LIMIT_MAKER = LIMIT_MAKER"
| "strategy_order_type S_MARKET = MARKET"
| "strategy_order_type S_LIMIT_CHASER = LIMIT_MAKER"

record order_exec = exec_base +
  oe_config :: oe_config
  oe_order :: "nado_order option"
  oe_last_fill :: "fill option"
  oe_refreshes :: int
  oe_placed :: nat
  oe_filled :: nat
  oe_cancelled :: nat
  oe_counted :: bool
  oe_placement_mid :: "dec option"
  oe_rec_base :: dec
  oe_rec_quote :: dec
  oe_rec_fee :: dec

type_synonym ('v, 'x) oe_st = "'x order_exec_scheme \<times> 'v env"

definition oe_view :: "oe_config \<Rightarrow> cfg_view" where
  "oe_view c = \<lparr>cv_crosses = oc_crosses c, cv_strategy = Some (oc_strategy c),
     cv_leverages = [Some (of_int (oc_leverage c))]\<rparr>"

definition mk_order_exec ::
  "string \<Rightarrow> int \<Rightarrow> string \<Rightarrow> bool \<Rightarrow> bool \<Rightarrow> oe_config \<Rightarrow> time \<Rightarrow> order_exec" where
  "mk_order_exec xid user cid keep has_inv c t =
     exec_base.extend (mk_exec_base xid user cid (oc_pair c) keep has_inv (oe_view c) t)
       (order_exec.fields c None None 0 0 0 0 True None 0 0 0)"

subsection \<open>Placement helpers\<close>

definition oe_chaser_price :: "'v venue_api \<Rightarrow> (('v, 'x) oe_st, dec) prog" where
  "oe_chaser_price api = bindP me (\<lambda>x.
     bindP (guard api ''mid_price'' (va_mid api (ex_pair x))) (\<lambda>mid.
     thenP (upd (\<lambda>x. x\<lparr>oe_placement_mid := Some mid\<rparr>))
       (case oc_chaser (oe_config x) of
          None \<Rightarrow> raise (OtherError ''AttributeError'')
        | Some ch \<Rightarrow> ret (if oc_side (oe_config x) = BUY then mid * (1 - ch_distance ch)
                         else mid * (1 + ch_distance ch)))))"

definition delta_fill :: "nado_order \<Rightarrow> string \<Rightarrow> trade_type \<Rightarrow> dec \<Rightarrow> dec \<Rightarrow> dec \<Rightarrow> time \<Rightarrow> fill" where
  "delta_fill ord pair side rec_base rec_quote rec_fee t =
     (let db = o_filled_base ord - rec_base; dq = o_filled_quote ord - rec_quote in
      \<lparr>f_order_id = o_id ord, f_pair = pair, f_side = side, f_base = db,
       f_price = dq / db, f_fee = o_fee ord - rec_fee, f_ts = t\<rparr>)"

definition oe_ingest :: "'v venue_api \<Rightarrow> nado_order \<Rightarrow> (('v, 'x) oe_st, unit) prog" where
  "oe_ingest api ord = bindP me (\<lambda>x.
     if o_filled_base ord - oe_rec_base x \<le> 0 then ret ()
     else bindP (clock api) (\<lambda>t.
       let f = delta_fill ord (ex_pair x) (oc_side (oe_config x))
                 (oe_rec_base x) (oe_rec_quote x) (oe_rec_fee x) t in
       thenP (record_fill api f ord None)
         (upd (\<lambda>x. x\<lparr>oe_last_fill := Some f, oe_rec_base := o_filled_base ord,
            oe_rec_quote := o_filled_quote ord, oe_rec_fee := o_fee ord\<rparr>))))"

definition oe_place :: "'v venue_api \<Rightarrow> order_type \<Rightarrow> dec option \<Rightarrow> (('v, 'x) oe_st, unit) prog" where
  "oe_place api ty px = bindP me (\<lambda>x.
     let c = oe_config x in
     bindP (guard api ''place_order''
        (va_place api (ex_pair x) (oc_side c) ty (oc_amount c) px (oc_leverage c)
           (oc_action c = CLOSE_POS))) (\<lambda>ord.
     thenP (upd (\<lambda>x. x\<lparr>oe_order := Some ord, oe_placed := Suc (oe_placed x), oe_counted := False\<rparr>))
       (oe_ingest api ord)))"

definition count_terminal :: "'x order_exec_scheme \<Rightarrow> 'x order_exec_scheme" where
  "count_terminal x = (case oe_order x of
     None \<Rightarrow> x
   | Some ord \<Rightarrow>
      if oe_counted x then x
      else if o_state ord = O_FILLED then x\<lparr>oe_filled := Suc (oe_filled x), oe_counted := True\<rparr>
      else if o_state ord \<in> {O_CANCELLED, O_REJECTED}
      then x\<lparr>oe_cancelled := Suc (oe_cancelled x), oe_counted := True\<rparr>
      else x)"

text \<open>A cancel the venue performed without a terminal snapshot to show for it.\<close>

definition count_cancel :: "'x order_exec_scheme \<Rightarrow> 'x order_exec_scheme" where
  "count_cancel x = (if oe_counted x then x
     else x\<lparr>oe_cancelled := Suc (oe_cancelled x), oe_counted := True\<rparr>)"

subsection \<open>Lifecycle\<close>

definition oe_check_complete :: "'v venue_api \<Rightarrow> (('v, 'x) oe_st, bool) prog" where
  "oe_check_complete api = bindP me (\<lambda>x. case oe_order x of
     None \<Rightarrow> ret False
   | Some ord \<Rightarrow>
      if o_state ord = O_FILLED
      then thenP (upd count_terminal) (thenP (terminate api COMPLETED) (ret True))
      else if o_state ord \<in> {O_CANCELLED, O_REJECTED} \<and> oc_strategy (oe_config x) \<noteq> S_LIMIT_CHASER
      then thenP (upd count_terminal) (thenP (terminate api EARLY_STOP) (ret True))
      else ret False)"

definition oe_on_create :: "'v venue_api \<Rightarrow> (('v, 'x) oe_st, unit) prog" where
  "oe_on_create api = thenP activate (bindP me (\<lambda>x.
     let strat = oc_strategy (oe_config x) in
     thenP
       (if strat = S_MARKET then oe_place api MARKET None
        else if strat = S_LIMIT_CHASER
        then bindP (oe_chaser_price api) (\<lambda>p. oe_place api LIMIT_MAKER (Some p))
        else oe_place api (strategy_order_type strat) (oc_price (oe_config x)))
       (thenP (oe_check_complete api) (ret ()))))"

definition oe_maybe_refresh :: "'v venue_api \<Rightarrow> (('v, 'x) oe_st, unit) prog" where
  "oe_maybe_refresh api = bindP me (\<lambda>x.
     case oc_chaser (oe_config x) of
       None \<Rightarrow> raise (OtherError ''AssertionError'')
     | Some ch \<Rightarrow> (case oe_order x of None \<Rightarrow> ret () | Some ord \<Rightarrow>
        if oe_refreshes x \<ge> ch_max_refreshes ch then ret ()
        else bindP (guard api ''mid_price'' (va_mid api (ex_pair x))) (\<lambda>mid.
          if or_dec (oe_placement_mid x) 0 = 0
          then upd (\<lambda>x. x\<lparr>oe_placement_mid := Some mid\<rparr>)
          else
            let pm = or_dec (oe_placement_mid x) 0; move = \<bar>mid - pm\<bar> / pm in
            if move > ch_refresh_threshold ch then
              bindP (tryP (thenP (guard api ''cancel_order'' (va_cancel api (o_id ord))) (ret True))
                       (\<lambda>_. thenP (terminate api FAILED) (ret False))) (\<lambda>cancelled.
              if \<not> cancelled then ret ()
              else thenP (upd count_cancel)
                (bindP (tryP (thenP (bindP (oe_chaser_price api)
                                       (\<lambda>p. oe_place api LIMIT_MAKER (Some p))) (ret True))
                         (\<lambda>_. thenP (upd (\<lambda>x. x\<lparr>oe_order := None\<rparr>))
                            (thenP (terminate api FAILED) (ret False)))) (\<lambda>placed.
                 whenP placed (upd (\<lambda>x. x\<lparr>oe_refreshes := oe_refreshes x + 1\<rparr>)))))
            else ret ())))"

definition oe_on_tick :: "'v venue_api \<Rightarrow> (('v, 'x) oe_st, unit) prog" where
  "oe_on_tick api = bindP me (\<lambda>x. case oe_order x of
     None \<Rightarrow> ret ()
   | Some o0 \<Rightarrow>
      if is_terminated x then ret ()
      else bindP (guard api ''order_status'' (va_status api (o_id o0))) (\<lambda>ord.
        thenP (upd (\<lambda>x. x\<lparr>oe_order := Some ord\<rparr>))
          (thenP (oe_ingest api ord)
            (bindP (oe_check_complete api) (\<lambda>completed.
               whenP (\<not> completed \<and> oc_strategy (oe_config x) = S_LIMIT_CHASER)
                 (oe_maybe_refresh api))))))"

definition oe_adopt_order :: "'v venue_api \<Rightarrow> nado_order \<Rightarrow> (('v, 'x) oe_st, unit) prog" where
  "oe_adopt_order api ord = seqP
     [activate,
      upd (\<lambda>x. x\<lparr>oe_order := Some ord, oe_placed := Suc (oe_placed x), oe_counted := False\<rparr>),
      tryP (oe_ingest api ord) (\<lambda>_. ret ())]"

definition order_terminal :: "nado_order option \<Rightarrow> bool" where
  "order_terminal o' = (case o' of None \<Rightarrow> True | Some ord \<Rightarrow> is_terminal (o_state ord))"

definition oe_settle_external :: "'v venue_api \<Rightarrow> (('v, 'x) oe_st, unit) prog" where
  "oe_settle_external api = bindP me (\<lambda>x0.
     if is_terminated x0 then ret ()
     else seqP
       [case oe_order x0 of
          None \<Rightarrow> ret ()
        | Some o0 \<Rightarrow> thenP
            (tryP (bindP (guard api ''settle_replaced_status'' (va_status api (o_id o0)))
               (\<lambda>r. thenP (upd (\<lambda>x. x\<lparr>oe_order := Some r\<rparr>)) (oe_ingest api r))) (\<lambda>_. ret ()))
            (bindP me (\<lambda>x. whenP (\<not> order_terminal (oe_order x))
               (tryP (thenP (guard api ''settle_replaced_fallback_cancel'' (va_cancel api (o_id o0)))
                        (bindP (guard api ''settle_replaced_fallback_status'' (va_status api (o_id o0)))
                           (oe_ingest api))) (\<lambda>_. ret ())))),
        upd count_terminal,
        upd count_cancel,
        terminate api EARLY_STOP])"

definition oe_on_stop :: "'v venue_api \<Rightarrow> close_type \<Rightarrow> (('v, 'x) oe_st, unit) prog" where
  "oe_on_stop api ct = bindP me (\<lambda>x0. case oe_order x0 of
     None \<Rightarrow> thenP (upd count_terminal) (terminate api ct)
   | Some o0 \<Rightarrow>
      if is_terminal (o_state o0) then thenP (upd count_terminal) (terminate api ct)
      else thenP
        (tryP (thenP (guard api ''cancel_order_stop'' (va_cancel api (o_id o0))) (ret ())) (\<lambda>_. ret ()))
        (bindP (tryP (bindP (guard api ''cancel_confirm_status'' (va_status api (o_id o0)))
                  (\<lambda>r. thenP (upd (\<lambda>x. x\<lparr>oe_order := Some r\<rparr>)) (thenP (oe_ingest api r) (ret True))))
                (\<lambda>_. thenP (terminate api FAILED) (ret False))) (\<lambda>confirmed.
         if \<not> confirmed then ret ()
         else bindP me (\<lambda>x.
           if order_terminal (oe_order x) then thenP (upd count_terminal) (terminate api ct)
           else terminate api FAILED))))"

subsection \<open>Events and runs\<close>

text \<open>
  What happens to an executor: the orchestrator's calls, in any order, with the venue's
  state changing arbitrarily in between. An exception ends the call; the orchestrator
  swallows it and the executor lives on with the state it left.
\<close>

datatype 'v oe_event =
    OE_Create | OE_Tick | OE_Stop close_type | OE_Adopt nado_order | OE_Settle
  | OE_World "'v \<Rightarrow> 'v"

fun oe_handle :: "'v venue_api \<Rightarrow> 'v oe_event \<Rightarrow> (('v, 'x) oe_st, unit) prog" where
  "oe_handle api OE_Create = oe_on_create api"
| "oe_handle api OE_Tick = oe_on_tick api"
| "oe_handle api (OE_Stop ct) = oe_on_stop api ct"
| "oe_handle api (OE_Adopt ord) = oe_adopt_order api ord"
| "oe_handle api OE_Settle = oe_settle_external api"
| "oe_handle api (OE_World w) = modifyP (\<lambda>(x, e). (x, e\<lparr>env_venue := w (env_venue e)\<rparr>))"

definition oe_run :: "'v venue_api \<Rightarrow> 'v oe_event list \<Rightarrow> ('v, 'x) oe_st \<Rightarrow> ('v, 'x) oe_st" where
  "oe_run api evs s = foldl (\<lambda>s ev. snd (oe_handle api ev s)) s evs"

lemma oe_fields [simp]:
  "oe_config (terminated ct t x) = oe_config x" "oe_order (terminated ct t x) = oe_order x"
  "oe_placed (terminated ct t x) = oe_placed x" "oe_filled (terminated ct t x) = oe_filled x"
  "oe_cancelled (terminated ct t x) = oe_cancelled x" "oe_counted (terminated ct t x) = oe_counted x"
  "oe_rec_base (terminated ct t x) = oe_rec_base x" "oe_rec_quote (terminated ct t x) = oe_rec_quote x"
  "oe_rec_fee (terminated ct t x) = oe_rec_fee x"
  "oe_config (activated x) = oe_config x" "oe_order (activated x) = oe_order x"
  "oe_placed (activated x) = oe_placed x" "oe_filled (activated x) = oe_filled x"
  "oe_cancelled (activated x) = oe_cancelled x" "oe_counted (activated x) = oe_counted x"
  "oe_rec_base (activated x) = oe_rec_base x" "oe_rec_quote (activated x) = oe_rec_quote x"
  "oe_rec_fee (activated x) = oe_rec_fee x"
  "oe_config (charged f x) = oe_config x" "oe_order (charged f x) = oe_order x"
  "oe_placed (charged f x) = oe_placed x" "oe_filled (charged f x) = oe_filled x"
  "oe_cancelled (charged f x) = oe_cancelled x" "oe_counted (charged f x) = oe_counted x"
  "oe_rec_base (charged f x) = oe_rec_base x" "oe_rec_quote (charged f x) = oe_rec_quote x"
  "oe_rec_fee (charged f x) = oe_rec_fee x"
  by (simp_all add: terminated_def activated_def charged_def)

text \<open>
  An invariant of every handler needs only: the retry count, the venue and the handlers'
  own bookkeeping fields do not matter to it, and the few state changes that do matter keep
  it. \<open>oe_stable I\<close> collects those conditions once.
\<close>

definition oe_stable :: "(('v, 'x) oe_st \<Rightarrow> bool) \<Rightarrow> bool" where
  "oe_stable I \<longleftrightarrow> (\<forall>x e. I (x, e) \<longrightarrow>
     (\<forall>n. I (x\<lparr>ex_retries := n\<rparr>, e)) \<and> (\<forall>v. I (x, e\<lparr>env_venue := v\<rparr>))
   \<and> (\<forall>ct t. I (terminated ct t x, e)) \<and> I (activated x, e)
   \<and> (\<forall>m. I (x\<lparr>oe_placement_mid := m\<rparr>, e)) \<and> (\<forall>n. I (x\<lparr>oe_refreshes := n\<rparr>, e))
   \<and> (\<forall>o'. I (x\<lparr>oe_order := o'\<rparr>, e)) \<and> I (count_terminal x, e) \<and> I (count_cancel x, e)
   \<and> (\<forall>o'. I (x\<lparr>oe_order := o', oe_placed := Suc (oe_placed x), oe_counted := False\<rparr>, e)))"

lemma oe_stableD:
  assumes "oe_stable I" and "I (x, e)"
  shows "I (x\<lparr>ex_retries := n\<rparr>, e\<lparr>env_venue := v\<rparr>)" "I (terminated ct t x, e)" "I (activated x, e)"
    "I (x\<lparr>oe_placement_mid := m\<rparr>, e)" "I (x\<lparr>oe_refreshes := i\<rparr>, e)" "I (x\<lparr>oe_order := o'\<rparr>, e)"
    "I (count_terminal x, e)" "I (count_cancel x, e)"
    "I (x\<lparr>oe_order := o', oe_placed := Suc (oe_placed x), oe_counted := False\<rparr>, e)"
    "I (x, e\<lparr>env_venue := v\<rparr>)"
  using assms by (auto simp: oe_stable_def)

lemma oe_handle_keeps:
  assumes st: "oe_stable I" and ing: "\<And>ord. keeps I (oe_ingest api ord)"
  shows "keeps I (oe_handle api ev)"
proof -
  note k [keeps_intros] = keeps_upd ing
  note D = oe_stableD [OF st]
  have place: "keeps I (oe_place api ty px)" for ty px
    unfolding oe_place_def Let_def by (intro keeps_intros D)
  have price: "keeps I (oe_chaser_price api)"
    unfolding oe_chaser_price_def by (intro keeps_intros D)
  have complete: "keeps I (oe_check_complete api)"
    unfolding oe_check_complete_def by (intro keeps_intros D)
  have refresh: "keeps I (oe_maybe_refresh api)"
    unfolding oe_maybe_refresh_def Let_def by (intro keeps_intros D place price)
  have create: "keeps I (oe_on_create api)"
    unfolding oe_on_create_def Let_def by (intro keeps_intros D place price complete)
  have tick: "keeps I (oe_on_tick api)"
    unfolding oe_on_tick_def by (intro keeps_intros D complete refresh)
  have stop: "keeps I (oe_on_stop api ct)" for ct
    unfolding oe_on_stop_def by (intro keeps_intros D)
  have adopt: "keeps I (oe_adopt_order api ord)" for ord
    unfolding oe_adopt_order_def by (intro keeps_intros D)
  have settle: "keeps I (oe_settle_external api)"
    unfolding oe_settle_external_def by (intro keeps_intros D)
  show ?thesis
    using create tick stop adopt settle
    by (cases ev) (auto intro!: keeps_world D)
qed

lemma oe_run_invariant:
  assumes "oe_stable I" and "\<And>ord. keeps I (oe_ingest api ord)" and "I s"
  shows "I (oe_run api evs s)"
  using assms(3)
proof (induction evs arbitrary: s)
  case Nil
  then show ?case by (simp add: oe_run_def)
next
  case (Cons ev evs)
  have "I (snd (oe_handle api ev s))"
    using keeps_snd [OF oe_handle_keeps [OF assms(1,2)] Cons.prems] .
  from Cons.IH [OF this] show ?case by (simp add: oe_run_def)
qed

subsection \<open>Each fill is booked exactly once\<close>

definition oe_books :: "trade_row list \<Rightarrow> inventory \<Rightarrow> ('v, 'x) oe_st \<Rightarrow> bool" where
  "oe_books tr0 iv0 s \<longleftrightarrow> (case s of (x, e) \<Rightarrow> \<exists>rows. ledger tr0 iv0 rows (x, e)
     \<and> (\<forall>r \<in> set rows. t_side r = oc_side (oe_config x))
     \<and> sum_list (map t_base rows) = oe_rec_base x
     \<and> sum_list (map t_quote rows) = oe_rec_quote x
     \<and> sum_list (map t_fee rows) = oe_rec_fee x)"

lemma oe_books_cong:
  "oe_books tr0 iv0 (x, e) \<Longrightarrow> ex_has_recorder y = ex_has_recorder x
   \<Longrightarrow> ex_has_inventory y = ex_has_inventory x \<Longrightarrow> ex_key y = ex_key x
   \<Longrightarrow> env_trades e' = env_trades e \<Longrightarrow> env_inv e' = env_inv e
   \<Longrightarrow> oe_config y = oe_config x \<Longrightarrow> oe_rec_base y = oe_rec_base x
   \<Longrightarrow> oe_rec_quote y = oe_rec_quote x \<Longrightarrow> oe_rec_fee y = oe_rec_fee x \<Longrightarrow> oe_books tr0 iv0 (y, e')"
  unfolding oe_books_def prod.case using ledger_cong by metis

lemma count_fields [simp]:
  "ex_user (count_terminal x) = ex_user x" "ex_user (count_cancel x) = ex_user x"
  "ex_pair (count_terminal x) = ex_pair x" "ex_pair (count_cancel x) = ex_pair x"
  "ex_controller (count_terminal x) = ex_controller x" "ex_controller (count_cancel x) = ex_controller x"
  "ex_terminated_at (count_terminal x) = ex_terminated_at x"
  "ex_terminated_at (count_cancel x) = ex_terminated_at x"
  "ex_key (count_terminal x) = ex_key x" "ex_key (count_cancel x) = ex_key x"
  "ex_has_recorder (count_terminal x) = ex_has_recorder x"
  "ex_has_inventory (count_terminal x) = ex_has_inventory x"
  "ex_has_recorder (count_cancel x) = ex_has_recorder x"
  "ex_has_inventory (count_cancel x) = ex_has_inventory x"
  "oe_config (count_terminal x) = oe_config x" "oe_config (count_cancel x) = oe_config x"
  "oe_rec_base (count_terminal x) = oe_rec_base x" "oe_rec_base (count_cancel x) = oe_rec_base x"
  "oe_rec_quote (count_terminal x) = oe_rec_quote x" "oe_rec_quote (count_cancel x) = oe_rec_quote x"
  "oe_rec_fee (count_terminal x) = oe_rec_fee x" "oe_rec_fee (count_cancel x) = oe_rec_fee x"
  "ex_state (count_terminal x) = ex_state x" "ex_state (count_cancel x) = ex_state x"
  "ex_close (count_terminal x) = ex_close x" "ex_close (count_cancel x) = ex_close x"
  "oe_order (count_terminal x) = oe_order x" "oe_order (count_cancel x) = oe_order x"
  "oe_placed (count_terminal x) = oe_placed x" "oe_placed (count_cancel x) = oe_placed x"
  by (simp_all add: count_terminal_def count_cancel_def ex_key_def split: option.split)

lemma oe_books_stable: "oe_stable (oe_books tr0 iv0)"
  unfolding oe_stable_def
  by (intro allI impI conjI; erule oe_books_cong) (simp_all add: ex_key_def)

lemma delta_fill_simps [simp]:
  "f_base (delta_fill ord pair sd b q fee t) = o_filled_base ord - b"
  "f_fee (delta_fill ord pair sd b q fee t) = o_fee ord - fee"
  "f_side (delta_fill ord pair sd b q fee t) = sd"
  "f_order_id (delta_fill ord pair sd b q fee t) = o_id ord"
  by (simp_all add: delta_fill_def Let_def)

lemma delta_fill_quote:
  "o_filled_base ord \<noteq> b \<Longrightarrow> f_quote (delta_fill ord pair sd b q fee t) = o_filled_quote ord - q"
  by (simp add: delta_fill_def Let_def f_quote_def)

lemma oe_ingest_books:
  fixes api :: "'v venue_api"
  shows "keeps (oe_books tr0 iv0 :: ('v, 'x) oe_st \<Rightarrow> bool) (oe_ingest api ord)"
proof (rule keepsI)
  fix s :: "('v, 'x) oe_st"
  obtain x e where s: "s = (x, e)" by fastforce
  assume "oe_books tr0 iv0 s"
  then obtain rows where l: "ledger tr0 iv0 rows (x, e)"
    and sd: "\<forall>r \<in> set rows. t_side r = oc_side (oe_config x)"
    and sums: "sum_list (map t_base rows) = oe_rec_base x" "sum_list (map t_quote rows) = oe_rec_quote x"
      "sum_list (map t_fee rows) = oe_rec_fee x"
    by (auto simp: oe_books_def s)
  define f where "f = delta_fill ord (ex_pair x) (oc_side (oe_config x)) (oe_rec_base x)
    (oe_rec_quote x) (oe_rec_fee x) (va_now api (env_venue e))"
  have pos: "0 < f_base f" if "\<not> o_filled_base ord - oe_rec_base x \<le> 0"
    using that by (simp add: f_def)
  have booked: "oe_books tr0 iv0 (charged f x\<lparr>oe_last_fill := Some f, oe_rec_base := o_filled_base ord,
        oe_rec_quote := o_filled_quote ord, oe_rec_fee := o_fee ord\<rparr>, booked f ord None x e)"
    if "\<not> o_filled_base ord - oe_rec_base x \<le> 0"
    unfolding oe_books_def prod.case
  proof (intro exI [of _ "rows @ [trade_row_of f ord None x]"] conjI)
    show "ledger tr0 iv0 (rows @ [trade_row_of f ord None x])
       (charged f x\<lparr>oe_last_fill := Some f, oe_rec_base := o_filled_base ord,
        oe_rec_quote := o_filled_quote ord, oe_rec_fee := o_fee ord\<rparr>, booked f ord None x e)"
      by (rule ledger_cong [OF ledger_booked [OF l pos [OF that]]]) (simp_all add: ex_key_def)
  qed (use that sd sums in \<open>auto simp: f_def delta_fill_quote\<close>)
  have "oe_books tr0 iv0 (charged f x, e)"
    using \<open>oe_books tr0 iv0 s\<close> unfolding s by (rule oe_books_cong) simp_all
  with booked show "wp (oe_ingest api ord) (\<lambda>_. oe_books tr0 iv0) (\<lambda>_. oe_books tr0 iv0) s"
    using \<open>oe_books tr0 iv0 s\<close> by (auto simp: oe_ingest_def s Let_def f_def [symmetric])
qed

text \<open>
  Claim C10: whatever the venue answers and however the orchestrator's calls interleave
  with its changes, an order executor books each quantity once. The rows it has reported,
  all positive and on its own side, add up in base, quote and fee to the watermarks of the
  snapshots it has seen; the inventory hold of its key has moved by exactly those rows, and
  every other hold is untouched.
\<close>

theorem order_executor_books_once:
  "\<exists>rows. ledger (env_trades e) (env_inv e) rows
        (oe_run api evs ((mk_order_exec xid u cid keep True c t)\<lparr>ex_has_recorder := True\<rparr>, e))
   \<and> (let x = fst (oe_run api evs ((mk_order_exec xid u cid keep True c t)\<lparr>ex_has_recorder := True\<rparr>, e)) in
        list_all (\<lambda>r. t_side r = oc_side (oe_config x)) rows
      \<and> sum_list (map t_base rows) = oe_rec_base x
      \<and> sum_list (map t_quote rows) = oe_rec_quote x
      \<and> sum_list (map t_fee rows) = oe_rec_fee x)"
proof -
  let ?x = "(mk_order_exec xid u cid keep True c t)\<lparr>ex_has_recorder := True\<rparr>"
  have "oe_books (env_trades e) (env_inv e) (?x, e)"
    unfolding oe_books_def prod.case
    by (intro exI [of _ "[]"])
      (simp add: ledger_init mk_order_exec_def mk_exec_base_def exec_base.defs order_exec.defs)
  from oe_run_invariant [OF oe_books_stable oe_ingest_books this, of api evs]
  show ?thesis
    by (auto simp: oe_books_def Let_def list_all_iff split: prod.splits)
qed

subsection \<open>Lifecycle and counters\<close>

lemma oe_later_stable: "oe_stable (\<lambda>s. ex_later x0 (fst s))"
  unfolding oe_stable_def by (auto intro: ex_later_cong)

lemma keeps_ingest:
  assumes "\<And>x e f p c. I (x, e) \<Longrightarrow> I (charged f x, e) \<and> I (charged f x, booked f p c x e)"
    and "\<And>x e lf b q fee. I (x, e) \<Longrightarrow> I (x\<lparr>oe_last_fill := lf, oe_rec_base := b,
       oe_rec_quote := q, oe_rec_fee := fee\<rparr>, e)"
  shows "keeps I (oe_ingest api ord)"
  by (rule keepsI) (auto simp: oe_ingest_def Let_def assms(1) intro!: assms(2))

text \<open>
  A law: an executor's lifecycle only moves forward, and how it ended is written once:
  no later call, with any venue behaviour, revives a terminated executor or changes its close
  type or its termination time.
\<close>

theorem order_executor_lifecycle:
  "ex_state x \<le> ex_state (fst (oe_run api evs (x, e)))
   \<and> (ex_state x = TERMINATED \<longrightarrow>
        ex_state (fst (oe_run api evs (x, e))) = TERMINATED
      \<and> ex_close (fst (oe_run api evs (x, e))) = ex_close x
      \<and> ex_terminated_at (fst (oe_run api evs (x, e))) = ex_terminated_at x)"
proof -
  have "ex_later x (fst (oe_run api evs (x, e)))"
    by (rule oe_run_invariant [OF oe_later_stable])
      (auto intro!: keeps_ingest intro: ex_later_cong)
  then show ?thesis by (auto simp: ex_later_def)
qed

theorem order_executor_lifecycle_witness:
  "ex_close (fst (oe_run script_api [OE_Tick, OE_Stop EARLY_STOP]
     (terminated FAILED 5 (mk_order_exec ''e'' 1 ''c'' False True
        \<lparr>oc_pair = ''BTC'', oc_side = BUY, oc_amount = 1, oc_strategy = S_MARKET, oc_price = None,
         oc_chaser = None, oc_leverage = 1, oc_action = OPEN_POS, oc_crosses = False\<rparr> 0), demo_env)))
   = Some FAILED"
  using order_executor_lifecycle [of "terminated FAILED 5 (mk_order_exec ''e'' 1 ''c'' False True
        \<lparr>oc_pair = ''BTC'', oc_side = BUY, oc_amount = 1, oc_strategy = S_MARKET, oc_price = None,
         oc_chaser = None, oc_leverage = 1, oc_action = OPEN_POS, oc_crosses = False\<rparr> 0)"
      script_api "[OE_Tick, OE_Stop EARLY_STOP]" demo_env]
  by (simp add: mk_order_exec_def mk_exec_base_def exec_base.defs order_exec.defs)

definition oe_counts_ok :: "('v, 'x) oe_st \<Rightarrow> bool" where
  "oe_counts_ok s \<longleftrightarrow> (let x = fst s in
     oe_filled x + oe_cancelled x + (if oe_counted x then 0 else 1) \<le> oe_placed x)"

lemma oe_counts_stable: "oe_stable oe_counts_ok"
  unfolding oe_stable_def oe_counts_ok_def
  by (auto simp: count_terminal_def count_cancel_def Let_def split: option.split if_splits)

text \<open>
  A law of the bookkeeping: order counts never overrun. However often a terminal order is observed, by
  ticks, stops, refreshes and external settles, it is counted once: filled plus cancelled
  never exceeds placed, and stays strictly below it while the current order's outcome is
  uncounted.
\<close>

theorem order_executor_counts:
  "let x = fst (oe_run api evs (mk_order_exec xid u cid keep has_inv c t, e)) in
     oe_filled x + oe_cancelled x \<le> oe_placed x
   \<and> (oe_counted x \<or> oe_filled x + oe_cancelled x < oe_placed x)"
proof -
  have "oe_counts_ok (oe_run api evs (mk_order_exec xid u cid keep has_inv c t, e))"
    by (rule oe_run_invariant [OF oe_counts_stable])
      (auto intro!: keeps_ingest simp: oe_counts_ok_def charged_def mk_order_exec_def
        exec_base.defs order_exec.defs)
  then show ?thesis by (auto simp: oe_counts_ok_def Let_def split: if_splits)
qed

subsection \<open>Stopping leaves no orphan\<close>

definition oe_stopped_ok :: "'x order_exec_scheme \<Rightarrow> close_type \<Rightarrow> ('v, 'x) oe_st \<Rightarrow> bool" where
  "oe_stopped_ok x0 ct s \<longleftrightarrow> ex_state (fst s) = TERMINATED
     \<and> (ex_close (fst s) = Some FAILED \<or> ex_close (fst s) = Some ct \<and> order_terminal (oe_order (fst s)))"

lemma wp_oe_ingest:
  "(\<And>x' e'. ex_state x' = ex_state x \<Longrightarrow> ex_close x' = ex_close x \<Longrightarrow> oe_order x' = oe_order x
      \<Longrightarrow> env_venue e' = env_venue e \<Longrightarrow> Q () (x', e') \<and> (\<forall>c. E c (x', e')))
   \<Longrightarrow> wp (oe_ingest api ord) Q E (x, e)"
  by (auto simp: oe_ingest_def Let_def)

lemma order_executor_stop:
  assumes "ex_state x \<noteq> TERMINATED"
  shows "wp (oe_on_stop api ct) (\<lambda>_. oe_stopped_ok x ct) (\<lambda>_ _. False) (x, e)"
proof (cases "oe_order x")
  case None
  with assms show ?thesis
    by (simp add: oe_on_stop_def oe_stopped_ok_def order_terminal_def)
next
  case (Some o0)
  show ?thesis
  proof (cases "is_terminal (o_state o0)")
    case True
    with Some assms show ?thesis
      by (simp add: oe_on_stop_def oe_stopped_ok_def order_terminal_def)
  next
    case False
    with Some assms show ?thesis
      by (auto simp: oe_on_stop_def oe_stopped_ok_def order_terminal_def
          intro!: wp_guard wp_oe_ingest split: option.splits)
  qed
qed

text \<open>
  Claim C9: stopping a running order executor always terminates it, never raises, and
  reports the requested close type only when its last order is known to be off the book:
  if the venue could not confirm a terminal state, the executor ends as FAILED so that the
  orchestrator keeps it and retries, and no resting order is ever forgotten.
\<close>

theorem order_executor_stop_no_orphan:
  assumes "ex_state x \<noteq> TERMINATED"
  shows "\<exists>s. oe_on_stop api ct (x, e) = (Inr (), s) \<and> ex_state (fst s) = TERMINATED
     \<and> (ex_close (fst s) = Some FAILED \<or> ex_close (fst s) = Some ct \<and> order_terminal (oe_order (fst s)))"
  using wp_total [OF order_executor_stop [OF assms, of api ct e]] by (auto simp: oe_stopped_ok_def)

definition demo_oe_config :: oe_config where
  "demo_oe_config = \<lparr>oc_pair = ''BTC'', oc_side = BUY, oc_amount = 10, oc_strategy = S_LIMIT_CHASER,
     oc_price = None, oc_chaser = Some \<lparr>ch_distance = 1 / 100, ch_refresh_threshold = 1 / 100,
       ch_max_refreshes = 5\<rparr>, oc_leverage = 1, oc_action = OPEN_POS, oc_crosses = False\<rparr>"

definition demo_order :: "string \<Rightarrow> order_state \<Rightarrow> dec \<Rightarrow> nado_order" where
  "demo_order oid st filled = \<lparr>o_id = oid, o_pair = ''BTC'', o_side = BUY, o_type = LIMIT_MAKER,
     o_amount = 10, o_price = Some 100, o_state = st, o_filled_base = filled,
     o_filled_quote = 100 * filled, o_fee = filled / 10\<rparr>"

definition demo_oe :: "nado_order \<Rightarrow> dec \<Rightarrow> order_exec" where
  "demo_oe ord booked_base = (mk_order_exec ''e'' 1 ''c'' False True demo_oe_config 0)\<lparr>
     ex_has_recorder := True, ex_state := ACTIVE, oe_order := Some ord, oe_placed := 1,
     oe_counted := False, oe_rec_base := booked_base, oe_rec_quote := 100 * booked_base,
     oe_rec_fee := booked_base / 10\<rparr>"

lemmas demo_oe_defs = demo_oe_def demo_order_def demo_oe_config_def mk_order_exec_def
  mk_exec_base_def exec_base.defs order_exec.defs demo_env_def

theorem order_executor_stop_no_orphan_witness:
  "ex_state (fst (snd (oe_on_stop script_api EARLY_STOP (demo_oe (demo_order ''a'' O_OPEN 0) 0, demo_env))))
     = TERMINATED"
  using order_executor_stop_no_orphan [of "demo_oe (demo_order ''a'' O_OPEN 0) 0" script_api EARLY_STOP demo_env]
  by (auto simp: demo_oe_defs)

subsection \<open>The chaser forgets what its earlier orders filled\<close>

text \<open>
  A finding: the watermarks of a chaser are not reset when a refresh replaces its
  order. When the replacement fills, the tick books only what exceeds the base already booked
  for the cancelled predecessor, so the fill is under-reported by exactly that amount and the
  executor still completes. (The booked base equals the replacement's own cumulative fill,
  while the venue filled both orders.)
\<close>

theorem chaser_replacement_under_booked:
  assumes ord: "oe_order x = Some o0" and act: "ex_state x = ACTIVE"
    and st: "va_status api (o_id o0) (env_venue e) = (Inr ord, v')" and full: "o_state ord = O_FILLED"
    and before: "0 < oe_rec_base x" "oe_rec_base x < o_filled_base ord"
    and quote: "oe_rec_quote x \<le> o_filled_quote ord" and rec: "ex_has_recorder x"
  shows "\<exists>x' e' row. oe_on_tick api (x, e) = (Inr (), (x', e'))
     \<and> env_trades e' = env_trades e @ [row] \<and> ex_close x' = Some COMPLETED
     \<and> t_base row = o_filled_base ord - oe_rec_base x \<and> t_base row < o_filled_base ord
     \<and> oe_rec_base x' = o_filled_base ord"
proof -
  define y where "y = x\<lparr>oe_order := Some ord\<rparr>"
  define f where "f = delta_fill ord (ex_pair x) (oc_side (oe_config x)) (oe_rec_base x)
    (oe_rec_quote x) (oe_rec_fee x) (va_now api v')"
  have accepted: "\<not> fill_refused f y"
    using before quote by (simp add: fill_refused_def f_def delta_fill_quote)
  have "wp (oe_on_tick api) (\<lambda>_ s. \<exists>row. env_trades (snd s) = env_trades e @ [row]
     \<and> ex_close (fst s) = Some COMPLETED
     \<and> t_base row = o_filled_base ord - oe_rec_base x \<and> t_base row < o_filled_base ord
     \<and> oe_rec_base (fst s) = o_filled_base ord) (\<lambda>_ _. False) (x, e)"
    using assms accepted
    by (simp add: oe_on_tick_def is_terminated_def oe_ingest_def oe_check_complete_def Let_def
        wp_guard_Inr [of "va_status api (o_id o0)", OF st] y_def f_def)
  from wp_total [OF this] show ?thesis by auto
qed

theorem chaser_replacement_under_booked_witness:
  "\<exists>x' e' row. oe_on_tick script_api (demo_oe (demo_order ''b'' O_OPEN 0) 4,
      demo_env\<lparr>env_venue := (env_venue demo_env)\<lparr>sc_orders := [Inr (demo_order ''b'' O_FILLED 10)]\<rparr>\<rparr>)
     = (Inr (), (x', e')) \<and> env_trades e' = [row] \<and> t_base row = 6 \<and> oe_rec_base x' = 10"
  using chaser_replacement_under_booked [of "demo_oe (demo_order ''b'' O_OPEN 0) 4" "demo_order ''b'' O_OPEN 0"
      script_api "demo_env\<lparr>env_venue := (env_venue demo_env)\<lparr>sc_orders := [Inr (demo_order ''b'' O_FILLED 10)]\<rparr>\<rparr>"
      "demo_order ''b'' O_FILLED 10" "env_venue demo_env"]
  by (force simp: demo_oe_defs script_defs)

end
