(* ===== verification/RGrid_Maker.thy ===== *)
theory RGrid_Maker
  imports Order_Executor
begin

text \<open>
  The R-Grid maker executor, from \<open>engine/executors/rgrid_maker_executor.py\<close>: an order
  executor whose constructor admits only post-only orders, with two exactly described
  exemptions, and the three builders of its configurations.

  The record extends \<open>order_exec\<close> with the leg, as the class extends \<open>OrderExecutor\<close>; the
  handlers are the inherited ones. \<open>_dec\<close> of a number is the number.
\<close>

definition LEG_ENTRY :: string where "LEG_ENTRY = ''entry''"
definition LEG_EXIT :: string where "LEG_EXIT = ''exit''"
definition LEG_TRAIL_STOP :: string where "LEG_TRAIL_STOP = ''trail_stop''"
definition LEG_ENTRY_CROSS :: string where "LEG_ENTRY_CROSS = ''entry_cross''"

lemmas leg_defs = LEG_ENTRY_def LEG_EXIT_def LEG_TRAIL_STOP_def LEG_ENTRY_CROSS_def

record rgrid_exec = order_exec +
  rg_leg :: string

definition mk_rgrid_exec ::
  "string \<Rightarrow> string \<Rightarrow> int \<Rightarrow> string \<Rightarrow> bool \<Rightarrow> oe_config \<Rightarrow> time \<Rightarrow> exc + rgrid_exec" where
  "mk_rgrid_exec leg0 xid user cid has_inv c t =
     (let leg = (if leg0 = [] then LEG_ENTRY else leg0);
          built = order_exec.extend (mk_order_exec xid user cid False has_inv c t)
                    (rgrid_exec.fields leg)
      in if leg = LEG_TRAIL_STOP then
           (if oc_strategy c \<noteq> S_LIMIT
            then Inl (ValueError ''the trailing stop is the crossing order: must be LIMIT'')
            else if oc_action c \<noteq> CLOSE_POS
            then Inl (ValueError ''the trailing stop must be reduce-only'')
            else Inr built)
         else if leg = LEG_ENTRY_CROSS then
           (if oc_strategy c \<noteq> S_LIMIT
            then Inl (ValueError ''the crossing add is a marketable LIMIT'')
            else if oc_action c \<noteq> OPEN_POS
            then Inl (ValueError ''the crossing add opens/extends the position'')
            else if \<not> oc_crosses c
            then Inl (ValueError ''the crossing add must set crosses_book=True'')
            else Inr built)
         else if oc_strategy c \<noteq> S_LIMIT_MAKER
         then Inl (ValueError ''RGridMakerExecutor is maker-only apart from the trailing stop'')
         else Inr built)"

definition is_exit :: "rgrid_exec \<Rightarrow> bool" where
  "is_exit x \<longleftrightarrow> oc_action (oe_config x) = CLOSE_POS \<or> rg_leg x \<in> {LEG_EXIT, LEG_TRAIL_STOP}"

subsection \<open>The builders\<close>

definition build_maker_quote ::
  "string \<Rightarrow> trade_type \<Rightarrow> dec \<Rightarrow> dec \<Rightarrow> int \<Rightarrow> bool \<Rightarrow> exc + oe_config" where
  "build_maker_quote pair side amt px lev reduce = check_oe_config
     \<lparr>oc_pair = pair, oc_side = side, oc_amount = amt, oc_strategy = S_LIMIT_MAKER,
      oc_price = Some px, oc_chaser = None, oc_leverage = (if lev = 0 then 1 else lev),
      oc_action = (if reduce then CLOSE_POS else OPEN_POS), oc_crosses = False\<rparr>"

definition build_cross_entry ::
  "string \<Rightarrow> trade_type \<Rightarrow> dec \<Rightarrow> int \<Rightarrow> dec option \<Rightarrow> exc + oe_config" where
  "build_cross_entry pair side amt lev px = check_oe_config
     \<lparr>oc_pair = pair, oc_side = side, oc_amount = amt, oc_strategy = S_LIMIT,
      oc_price = px, oc_chaser = None, oc_leverage = (if lev = 0 then 1 else lev),
      oc_action = OPEN_POS, oc_crosses = True\<rparr>"

definition build_trail_stop ::
  "string \<Rightarrow> trade_type \<Rightarrow> dec \<Rightarrow> int \<Rightarrow> dec option \<Rightarrow> exc + oe_config" where
  "build_trail_stop pair side amt lev px = check_oe_config
     \<lparr>oc_pair = pair, oc_side = side, oc_amount = amt, oc_strategy = S_LIMIT,
      oc_price = px, oc_chaser = None, oc_leverage = (if lev = 0 then 1 else lev),
      oc_action = CLOSE_POS, oc_crosses = True\<rparr>"

lemmas builder_defs = build_maker_quote_def build_cross_entry_def build_trail_stop_def
  check_oe_config_def

lemma builders_accepted:
  "\<exists>c. build_maker_quote pair side amt px lev reduce = Inr c
      \<and> \<not> isl (mk_rgrid_exec (if reduce then LEG_EXIT else LEG_ENTRY) xid u cid iv c t)"
  "\<exists>c. build_cross_entry pair side amt lev (Some px) = Inr c
      \<and> \<not> isl (mk_rgrid_exec LEG_ENTRY_CROSS xid u cid iv c t)"
  "\<exists>c. build_trail_stop pair side amt lev (Some px) = Inr c
      \<and> \<not> isl (mk_rgrid_exec LEG_TRAIL_STOP xid u cid iv c t)"
  by (simp_all add: builder_defs mk_rgrid_exec_def Let_def leg_defs)

subsection \<open>Behind a fence\<close>

lemma oe_ingest_fenced [simp]: "oe_ingest (fenced P api) = oe_ingest api"
  by (rule ext) (simp add: oe_ingest_def cong: if_cong)

lemma oe_fenced [simp]:
  "oe_check_complete (fenced P api) = oe_check_complete api"
  "oe_on_stop (fenced P api) ct = oe_on_stop api ct"
  "oe_adopt_order (fenced P api) ord = oe_adopt_order api ord"
  "oe_settle_external (fenced P api) = oe_settle_external api"
  by (simp_all add: oe_check_complete_def oe_on_stop_def oe_adopt_order_def oe_settle_external_def
      cong: option.case_cong if_cong)

lemma oe_place_fenced:
  "P (oc_side (oe_config x)) ty (oc_amount (oe_config x)) (oc_action (oe_config x) = CLOSE_POS)
   \<Longrightarrow> oe_place (fenced P api) ty px (x, e) = oe_place api ty px (x, e)"
  by (simp add: oe_place_def run_defs Let_def)

lemma oe_tick_fenced:
  "oc_strategy (oe_config x) \<noteq> S_LIMIT_CHASER
   \<Longrightarrow> oe_on_tick (fenced P api) (x, e) = oe_on_tick api (x, e)"
  by (simp add: oe_on_tick_def run_defs split: option.split)

lemma oe_create_fenced:
  assumes "oc_strategy (oe_config x) \<in> {S_LIMIT, S_LIMIT_MAKER}"
    and "P (oc_side (oe_config x)) (strategy_order_type (oc_strategy (oe_config x)))
          (oc_amount (oe_config x)) (oc_action (oe_config x) = CLOSE_POS)"
  shows "oe_on_create (fenced P api) (x, e) = oe_on_create api (x, e)"
  using assms by (auto simp: oe_on_create_def bindP_def activate_def upd_def modifyP_def me_def getsP_def Let_def
      oe_place_fenced)

lemma oe_config_stable: "oe_stable (\<lambda>s. oe_config (fst s) = c)"
  by (simp add: oe_stable_def)

lemma oe_run_fenced:
  assumes "oc_strategy c \<in> {S_LIMIT, S_LIMIT_MAKER}"
    and "P (oc_side c) (strategy_order_type (oc_strategy c)) (oc_amount c) (oc_action c = CLOSE_POS)"
    and "oe_config x = c"
  shows "oe_run (fenced P api) evs (x, e) = oe_run api evs (x, e)"
  using assms(3)
proof (induction evs arbitrary: x e)
  case (Cons ev evs)
  have "oe_handle (fenced P api) ev (x, e) = oe_handle api ev (x, e)"
    using assms Cons.prems by (cases ev) (auto simp: oe_create_fenced oe_tick_fenced)
  moreover have "oe_config (fst (snd (oe_handle api ev (x, e)))) = c"
    by (rule keeps_snd [OF oe_handle_keeps [OF oe_config_stable]])
      (auto intro!: keeps_ingest simp: Cons.prems)
  ultimately show ?case
    using Cons.IH by (cases "snd (oe_handle api ev (x, e))") (simp add: oe_run_def)
qed (simp add: oe_run_def)

text \<open>The orders a leg may send.\<close>

definition leg_allows :: "string \<Rightarrow> trade_type \<Rightarrow> order_type \<Rightarrow> dec \<Rightarrow> bool \<Rightarrow> bool" where
  "leg_allows leg side ty amt ro =
     (if leg = LEG_TRAIL_STOP then ty = LIMIT \<and> ro
      else if leg = LEG_ENTRY_CROSS then ty = LIMIT \<and> \<not> ro
      else ty = LIMIT_MAKER)"

text \<open>
  Claim C12: maker-only is structural. Whatever configuration is handed to the R-Grid
  executor, if its constructor accepts it then, for any venue and any sequence of calls, the
  executor behaves exactly as it would behind a gate that lets through nothing but
  post-only orders, or for the trailing stop nothing but a reduce-only limit, or for the
  crossing add nothing but an opening limit. No naked market order is ever sent.
\<close>

theorem rgrid_maker_only:
  assumes "mk_rgrid_exec leg xid u cid iv c t = Inr x"
  shows "oe_run (fenced (leg_allows leg) api) evs (x, e) = oe_run api evs (x, e)"
proof (rule oe_run_fenced)
  show "oe_config x = c"
    using assms by (auto simp: mk_rgrid_exec_def mk_order_exec_def exec_base.defs order_exec.defs
        rgrid_exec.defs mk_exec_base_def Let_def split: if_splits)
  show "oc_strategy c \<in> {S_LIMIT, S_LIMIT_MAKER}"
    using assms by (auto simp: mk_rgrid_exec_def Let_def split: if_splits)
  show "leg_allows leg (oc_side c) (strategy_order_type (oc_strategy c)) (oc_amount c) (oc_action c = CLOSE_POS)"
    using assms by (auto simp: mk_rgrid_exec_def leg_allows_def leg_defs Let_def split: if_splits)
qed

definition demo_trail :: oe_config where
  "demo_trail = \<lparr>oc_pair = ''BTC'', oc_side = SELL, oc_amount = 1, oc_strategy = S_LIMIT,
     oc_price = Some 99, oc_chaser = None, oc_leverage = 2, oc_action = CLOSE_POS, oc_crosses = True\<rparr>"

theorem rgrid_maker_only_witness:
  "\<exists>x. mk_rgrid_exec LEG_TRAIL_STOP ''e'' 1 ''c'' True demo_trail 0 = Inr x
     \<and> oe_run (fenced (leg_allows LEG_TRAIL_STOP) script_api) [OE_Create, OE_Tick] (x, demo_env)
       = oe_run script_api [OE_Create, OE_Tick] (x, demo_env)"
proof -
  obtain x where "mk_rgrid_exec LEG_TRAIL_STOP ''e'' 1 ''c'' True demo_trail 0 = Inr x"
    by (simp add: mk_rgrid_exec_def demo_trail_def leg_defs Let_def)
  with rgrid_maker_only [OF this] show ?thesis by simp
qed

end
