(* ===== verification/Position_Executor.thy ===== *)
theory Position_Executor
  imports Order_Executor
begin

text \<open>
  The position executor, from \<open>engine/executors/position_executor.py\<close>: an entry order, the
  position it opens, and the close that a triple barrier triggers.

  The record \<open>position_exec\<close> extends the base executor with the attributes of
  \<open>PositionExecutor\<close> (its \<open>barriers\<close> attribute is the one of its configuration); each
  \<open>pe_\<close> program is the method of that name.
\<close>

datatype position_exec_state = P_OPENING | P_ACTIVE | P_CLOSING | P_TERMINATED

record pe_config =
  pc_order :: oe_config
  pc_barriers :: triple_barrier

record position_exec = exec_base +
  pe_config :: pe_config
  pe_state :: position_exec_state
  pe_entry :: "nado_order option"
  pe_close :: "nado_order option"
  pe_entry_price :: dec
  pe_entry_base :: dec
  pe_entry_quote :: dec
  pe_exit_quote :: dec
  pe_exit_base :: dec
  pe_opened_at :: "time option"
  pe_max :: "dec option"
  pe_min :: "dec option"
  pe_armed :: bool
  pe_trail :: "dec option"
  pe_pending :: "close_type option"
  pe_e_base :: dec
  pe_e_quote :: dec
  pe_e_fee :: dec
  pe_x_base :: dec
  pe_x_quote :: dec
  pe_x_fee :: dec

type_synonym ('v, 'x) pe_st = "'x position_exec_scheme \<times> 'v env"

definition mk_position_exec ::
  "string \<Rightarrow> int \<Rightarrow> string \<Rightarrow> bool \<Rightarrow> bool \<Rightarrow> pe_config \<Rightarrow> time \<Rightarrow> position_exec" where
  "mk_position_exec xid user cid keep has_inv c t =
     exec_base.extend
       (mk_exec_base xid user cid (oc_pair (pc_order c)) keep has_inv (oe_view (pc_order c)) t)
       (position_exec.fields c P_OPENING None None 0 0 0 0 0 None None None False None None
          0 0 0 0 0 0)"

definition pe_side :: "'x position_exec_scheme \<Rightarrow> trade_type" where
  "pe_side x = oc_side (pc_order (pe_config x))"

definition is_long :: "'x position_exec_scheme \<Rightarrow> bool" where
  "is_long x \<longleftrightarrow> pe_side x = BUY"

definition exit_side :: "'x position_exec_scheme \<Rightarrow> trade_type" where
  "exit_side x = opposite (pe_side x)"

definition pe_barriers :: "'x position_exec_scheme \<Rightarrow> triple_barrier" where
  "pe_barriers x = pc_barriers (pe_config x)"

subsection \<open>Fill ingestion\<close>

definition pe_ingest_entry :: "'v venue_api \<Rightarrow> nado_order \<Rightarrow> (('v, 'x) pe_st, unit) prog" where
  "pe_ingest_entry api ord = bindP me (\<lambda>x.
     if o_filled_base ord - pe_e_base x \<le> 0 then ret ()
     else bindP (clock api) (\<lambda>t.
       let f = delta_fill ord (ex_pair x) (pe_side x) (pe_e_base x) (pe_e_quote x) (pe_e_fee x) t in
       thenP (record_fill api f ord None)
         (upd (\<lambda>x. x\<lparr>pe_e_base := o_filled_base ord, pe_e_quote := o_filled_quote ord,
            pe_e_fee := o_fee ord, pe_entry_base := o_filled_base ord,
            pe_entry_quote := o_filled_quote ord\<rparr>))))"

definition pe_ingest_exit :: "'v venue_api \<Rightarrow> nado_order \<Rightarrow> (('v, 'x) pe_st, unit) prog" where
  "pe_ingest_exit api ord = bindP me (\<lambda>x.
     if o_filled_base ord - pe_x_base x \<le> 0 then ret ()
     else bindP (clock api) (\<lambda>t.
       let f = delta_fill ord (ex_pair x) (exit_side x) (pe_x_base x) (pe_x_quote x) (pe_x_fee x) t in
       thenP (record_fill api f ord None)
         (upd (\<lambda>x. x\<lparr>pe_x_base := o_filled_base ord, pe_x_quote := o_filled_quote ord,
            pe_x_fee := o_fee ord, pe_exit_base := o_filled_base ord,
            pe_exit_quote := o_filled_quote ord\<rparr>))))"

subsection \<open>Opening\<close>

definition entry_filled :: "time \<Rightarrow> 'x position_exec_scheme \<Rightarrow> 'x position_exec_scheme" where
  "entry_filled t x = (if pe_entry_base x \<le> 0 then x
     else let p = pe_entry_quote x / pe_entry_base x in
       x\<lparr>pe_entry_price := p, pe_opened_at := Some t, pe_max := Some p, pe_min := Some p,
         pe_state := P_ACTIVE\<rparr>)"

definition pe_on_entry_filled :: "'v venue_api \<Rightarrow> (('v, 'x) pe_st, unit) prog" where
  "pe_on_entry_filled api = bindP (clock api) (\<lambda>t. upd (entry_filled t))"

definition entry_order_type :: "pe_config \<Rightarrow> order_type" where
  "entry_order_type c =
     (if oc_strategy (pc_order c) \<in> {S_LIMIT, S_LIMIT_MAKER} then tb_open_type (pc_barriers c)
      else strategy_order_type (oc_strategy (pc_order c)))"

definition pe_on_create :: "'v venue_api \<Rightarrow> (('v, 'x) pe_st, unit) prog" where
  "pe_on_create api = thenP activate (bindP me (\<lambda>x.
     let oc = pc_order (pe_config x) in
     bindP (guard api ''place_entry''
        (va_place api (ex_pair x) (oc_side oc) (entry_order_type (pe_config x)) (oc_amount oc)
           (oc_price oc) (oc_leverage oc) False)) (\<lambda>ord.
     thenP (upd (\<lambda>x. x\<lparr>pe_entry := Some ord\<rparr>))
       (thenP (pe_ingest_entry api ord)
         (whenP (o_state ord = O_FILLED) (pe_on_entry_filled api))))))"

subsection \<open>Barriers\<close>

definition update_trailing :: "dec \<Rightarrow> 'x position_exec_scheme \<Rightarrow> 'x position_exec_scheme" where
  "update_trailing price x = (case tb_trailing_stop (pe_barriers x) of
     None \<Rightarrow> x
   | Some ts \<Rightarrow> (let e = pe_entry_price x in
      if is_long x then
        let m = max (or_dec (pe_max x) price) price;
            armed = (pe_armed x \<or> (price - e) / e \<ge> activation_price ts)
        in x\<lparr>pe_max := Some m, pe_armed := armed,
             pe_trail := (if armed then Some (m * (1 - trailing_delta ts)) else pe_trail x)\<rparr>
      else
        let m = min (or_dec (pe_min x) price) price;
            armed = (pe_armed x \<or> (e - price) / e \<ge> activation_price ts)
        in x\<lparr>pe_min := Some m, pe_armed := armed,
             pe_trail := (if armed then Some (m * (1 + trailing_delta ts)) else pe_trail x)\<rparr>))"

text \<open>
  \<open>_evaluate_barriers\<close>: the hit, if any, and the executor with its trailing state moved on.
  The four barriers are tried in the code's order; a helper per barrier returns its hit.
\<close>

type_synonym barrier_hit = "close_type \<times> order_type \<times> dec"

definition time_hit :: "dec \<Rightarrow> time \<Rightarrow> 'x position_exec_scheme \<Rightarrow> barrier_hit option" where
  "time_hit price now x = (case (tb_time_limit (pe_barriers x), pe_opened_at x) of
     (Some lmt, Some t0) \<Rightarrow> (if now - t0 \<ge> of_int lmt
        then Some (TIME_LIMIT, tb_time_limit_type (pe_barriers x), price) else None)
   | _ \<Rightarrow> None)"

definition stop_hit :: "dec \<Rightarrow> 'x position_exec_scheme \<Rightarrow> barrier_hit option" where
  "stop_hit price x = (case tb_stop_loss (pe_barriers x) of
     None \<Rightarrow> None
   | Some sl \<Rightarrow> (let e = pe_entry_price x; lo = e * (1 - sl); hi = e * (1 + sl) in
      if is_long x \<and> price \<le> lo then Some (STOP_LOSS, tb_stop_loss_type (pe_barriers x), lo)
      else if \<not> is_long x \<and> price \<ge> hi
      then Some (STOP_LOSS, tb_stop_loss_type (pe_barriers x), hi)
      else None))"

definition trail_hit :: "dec \<Rightarrow> 'x position_exec_scheme \<Rightarrow> barrier_hit option" where
  "trail_hit price x = (case tb_trailing_stop (pe_barriers x) of
     None \<Rightarrow> None
   | Some _ \<Rightarrow> (case pe_trail x of
       None \<Rightarrow> None
     | Some l \<Rightarrow>
        if pe_armed x \<and> (is_long x \<and> price \<le> l \<or> \<not> is_long x \<and> price \<ge> l)
        then Some (TRAILING_STOP, tb_trailing_stop_type (pe_barriers x), l) else None))"

definition profit_hit :: "dec \<Rightarrow> 'x position_exec_scheme \<Rightarrow> barrier_hit option" where
  "profit_hit price x = (case tb_take_profit (pe_barriers x) of
     None \<Rightarrow> None
   | Some tp \<Rightarrow> (let e = pe_entry_price x; hi = e * (1 + tp); lo = e * (1 - tp) in
      if is_long x \<and> price \<ge> hi then Some (TAKE_PROFIT, tb_take_profit_type (pe_barriers x), hi)
      else if \<not> is_long x \<and> price \<le> lo
      then Some (TAKE_PROFIT, tb_take_profit_type (pe_barriers x), lo)
      else None))"

definition evaluate_barriers ::
  "dec \<Rightarrow> time \<Rightarrow> 'x position_exec_scheme \<Rightarrow> barrier_hit option \<times> 'x position_exec_scheme" where
  "evaluate_barriers price now x =
     (if pe_entry_price x \<le> 0 then (None, x)
      else case time_hit price now x of Some h \<Rightarrow> (Some h, x)
      | None \<Rightarrow> (case stop_hit price x of Some h \<Rightarrow> (Some h, x)
      | None \<Rightarrow> (let y = update_trailing price x in
          (case trail_hit price y of Some h \<Rightarrow> (Some h, y)
           | None \<Rightarrow> (profit_hit price y, y)))))"

subsection \<open>Closing\<close>

definition finalized :: "close_type \<Rightarrow> time \<Rightarrow> 'x position_exec_scheme \<Rightarrow> 'x position_exec_scheme" where
  "finalized ct t x =
     (let avg = (if pe_entry_base x > 0 then pe_entry_quote x / pe_entry_base x else 0);
          gross = (if is_long x then pe_exit_quote x - avg * pe_exit_base x
                   else avg * pe_exit_base x - pe_exit_quote x)
      in terminated ct t (x\<lparr>ex_net_pnl := gross - ex_fees x, pe_state := P_TERMINATED\<rparr>))"

definition pe_finalize :: "'v venue_api \<Rightarrow> close_type \<Rightarrow> (('v, 'x) pe_st, unit) prog" where
  "pe_finalize api ct = bindP (clock api) (\<lambda>t. upd (finalized ct t))"

definition pending_or :: "'x position_exec_scheme \<Rightarrow> close_type" where
  "pending_or x = (case pe_pending x of None \<Rightarrow> COMPLETED | Some ct \<Rightarrow> ct)"

definition pe_place_exit ::
  "'v venue_api \<Rightarrow> string \<Rightarrow> order_type \<Rightarrow> dec \<Rightarrow> dec option \<Rightarrow> (('v, 'x) pe_st, nado_order) prog" where
  "pe_place_exit api label ty amt px = bindP me (\<lambda>x.
     guard api label (va_place api (ex_pair x) (exit_side x) ty amt px
       (oc_leverage (pc_order (pe_config x))) True))"

definition pe_escalate_close :: "'v venue_api \<Rightarrow> (('v, 'x) pe_st, unit) prog" where
  "pe_escalate_close api = bindP me (\<lambda>x.
     let remaining = pe_entry_base x - pe_exit_base x in
     if remaining \<le> 0 then pe_finalize api (pending_or x)
     else bindP (tryP (bindP (pe_place_exit api ''escalate_close_market'' MARKET remaining None)
                         (\<lambda>o'. ret (Some o')))
                   (\<lambda>_. thenP (terminate api FAILED) (ret None))) (\<lambda>placed.
       case placed of None \<Rightarrow> ret ()
       | Some ord \<Rightarrow>
          thenP (upd (\<lambda>x. x\<lparr>pe_close := Some ord\<rparr>))
            (thenP (pe_ingest_exit api ord)
              (if o_state ord = O_FILLED then pe_finalize api (pending_or x)
               else upd (\<lambda>x. x\<lparr>pe_state := P_CLOSING\<rparr>)))))"

definition pe_open_close ::
  "'v venue_api \<Rightarrow> order_type \<Rightarrow> dec option \<Rightarrow> (('v, 'x) pe_st, unit) prog" where
  "pe_open_close api ty trigger = thenP (upd (\<lambda>x. x\<lparr>pe_state := P_CLOSING\<rparr>)) (bindP me (\<lambda>x.
     let remaining = pe_entry_base x - pe_exit_base x in
     if remaining \<le> 0 then pe_finalize api (pending_or x)
     else
       let px = (if ty = MARKET then None
                 else case trigger of Some p \<Rightarrow> Some p | None \<Rightarrow> Some (pe_entry_price x)) in
       bindP (pe_place_exit api ''place_close'' ty remaining px) (\<lambda>ord.
         thenP (upd (\<lambda>x. x\<lparr>pe_close := Some ord\<rparr>))
           (thenP (pe_ingest_exit api ord)
             (if o_state ord = O_FILLED then pe_finalize api (pending_or x)
              else whenP (o_state ord \<in> {O_CANCELLED, O_REJECTED}) (pe_escalate_close api))))))"

definition pe_reduce_position :: "'v venue_api \<Rightarrow> dec \<Rightarrow> (('v, 'x) pe_st, dec) prog" where
  "pe_reduce_position api base_amount = bindP me (\<lambda>x.
     if pe_state x \<noteq> P_ACTIVE then ret 0
     else
       let amount = min base_amount (pe_entry_base x - pe_exit_base x) in
       if amount \<le> 0 then ret 0
       else bindP (pe_place_exit api ''reduce_position'' MARKET amount None) (\<lambda>ord.
         bindP me (\<lambda>x1. thenP (pe_ingest_exit api ord)
           (bindP me (\<lambda>x2. ret (pe_exit_base x2 - pe_exit_base x1))))))"

definition pe_poll_close :: "'v venue_api \<Rightarrow> (('v, 'x) pe_st, unit) prog" where
  "pe_poll_close api = bindP me (\<lambda>x. case pe_close x of
     None \<Rightarrow> ret ()
   | Some c0 \<Rightarrow>
      bindP (guard api ''close_status'' (va_status api (o_id c0))) (\<lambda>ord.
        thenP (upd (\<lambda>x. x\<lparr>pe_close := Some ord\<rparr>))
          (thenP (pe_ingest_exit api ord)
            (if o_state ord = O_FILLED then pe_finalize api (pending_or x)
             else whenP (o_state ord \<in> {O_CANCELLED, O_REJECTED}) (pe_escalate_close api)))))"

definition pe_on_tick :: "'v venue_api \<Rightarrow> (('v, 'x) pe_st, unit) prog" where
  "pe_on_tick api = bindP me (\<lambda>x.
     if is_terminated x then ret ()
     else case pe_state x of
       P_OPENING \<Rightarrow> (case pe_entry x of
           None \<Rightarrow> ret ()
         | Some e0 \<Rightarrow>
            bindP (guard api ''entry_status'' (va_status api (o_id e0))) (\<lambda>ord.
              thenP (upd (\<lambda>x. x\<lparr>pe_entry := Some ord\<rparr>))
                (thenP (pe_ingest_entry api ord)
                  (if o_state ord = O_FILLED then pe_on_entry_filled api
                   else whenP (o_state ord \<in> {O_CANCELLED, O_REJECTED})
                     (bindP me (\<lambda>x. if pe_entry_base x > 0 then pe_on_entry_filled api
                                   else terminate api FAILED))))))
     | P_ACTIVE \<Rightarrow>
         bindP (guard api ''mid_price'' (va_mid api (ex_pair x))) (\<lambda>price.
           bindP (clock api) (\<lambda>now. bindP me (\<lambda>x1.
             thenP (upd (\<lambda>x. snd (evaluate_barriers price now x)))
               (case fst (evaluate_barriers price now x1) of
                  None \<Rightarrow> ret ()
                | Some hit \<Rightarrow>
                   thenP (upd (\<lambda>x. x\<lparr>pe_pending := Some (fst hit)\<rparr>))
                     (pe_open_close api (fst (snd hit)) (Some (snd (snd hit))))))))
     | P_CLOSING \<Rightarrow> pe_poll_close api
     | P_TERMINATED \<Rightarrow> ret ())"

subsection \<open>Stopping\<close>

definition pe_stop_opening :: "'v venue_api \<Rightarrow> close_type \<Rightarrow> (('v, 'x) pe_st, unit) prog" where
  "pe_stop_opening api ct = bindP me (\<lambda>x0. case pe_entry x0 of
     None \<Rightarrow> terminate api ct
   | Some e0 \<Rightarrow>
      if o_state e0 \<noteq> O_OPEN then terminate api ct
      else thenP
        (tryP (thenP (guard api ''cancel_entry'' (va_cancel api (o_id e0))) (ret ())) (\<lambda>_. ret ()))
        (bindP (tryP (bindP (guard api ''cancel_entry_status'' (va_status api (o_id e0)))
                  (\<lambda>r. thenP (upd (\<lambda>x. x\<lparr>pe_entry := Some r\<rparr>))
                     (thenP (pe_ingest_entry api r) (ret True))))
                (\<lambda>_. thenP (terminate api FAILED) (ret False))) (\<lambda>probed.
         if \<not> probed then ret ()
         else bindP me (\<lambda>x.
           if order_terminal (pe_entry x) then
             (if (case pe_entry x of None \<Rightarrow> False | Some r \<Rightarrow> o_state r = O_FILLED)
                 \<and> pe_entry_base x > 0
              then pe_on_entry_filled api
              else terminate api ct)
           else terminate api FAILED))))"

definition pe_stop_closing :: "'v venue_api \<Rightarrow> (('v, 'x) pe_st, unit) prog" where
  "pe_stop_closing api = bindP me (\<lambda>x0. thenP
     (case pe_close x0 of
        None \<Rightarrow> ret ()
      | Some c0 \<Rightarrow> whenP (o_state c0 \<in> {O_OPEN, O_PARTIALLY_FILLED})
         (thenP
           (tryP (thenP (guard api ''cancel_close_on_stop'' (va_cancel api (o_id c0))) (ret ()))
              (\<lambda>_. ret ()))
           (tryP (bindP (guard api ''cancel_close_status'' (va_status api (o_id c0)))
                    (\<lambda>r. thenP (upd (\<lambda>x. x\<lparr>pe_close := Some r\<rparr>)) (pe_ingest_exit api r)))
              (\<lambda>_. ret ()))))
     (bindP me (\<lambda>x. whenP (\<not> is_terminated x) (pe_escalate_close api))))"

definition pe_on_stop :: "'v venue_api \<Rightarrow> close_type \<Rightarrow> (('v, 'x) pe_st, unit) prog" where
  "pe_on_stop api ct = bindP me (\<lambda>x0.
     if is_terminated x0 then ret ()
     else thenP (upd (\<lambda>x. if pe_pending x = None then x\<lparr>pe_pending := Some ct\<rparr> else x))
       (case pe_state x0 of
          P_OPENING \<Rightarrow> pe_stop_opening api ct
        | P_ACTIVE \<Rightarrow>
           if ex_keep_position x0
           then thenP (upd (\<lambda>x. x\<lparr>pe_state := P_TERMINATED\<rparr>)) (terminate api ct)
           else pe_open_close api MARKET None
        | P_CLOSING \<Rightarrow> pe_stop_closing api
        | P_TERMINATED \<Rightarrow> terminate api ct))"

subsection \<open>Events and runs\<close>

datatype 'v pe_event =
    PE_Create | PE_Tick | PE_Stop close_type | PE_Reduce dec | PE_World "'v \<Rightarrow> 'v"

fun pe_handle :: "'v venue_api \<Rightarrow> 'v pe_event \<Rightarrow> (('v, 'x) pe_st, unit) prog" where
  "pe_handle api PE_Create = pe_on_create api"
| "pe_handle api PE_Tick = pe_on_tick api"
| "pe_handle api (PE_Stop ct) = pe_on_stop api ct"
| "pe_handle api (PE_Reduce b) = thenP (pe_reduce_position api b) (ret ())"
| "pe_handle api (PE_World w) = modifyP (\<lambda>(x, e). (x, e\<lparr>env_venue := w (env_venue e)\<rparr>))"

definition pe_run :: "'v venue_api \<Rightarrow> 'v pe_event list \<Rightarrow> ('v, 'x) pe_st \<Rightarrow> ('v, 'x) pe_st" where
  "pe_run api evs s = foldl (\<lambda>s ev. snd (pe_handle api ev s)) s evs"

text \<open>
  The part of an executor its ledger reads: identity, configuration, the two watermarks and
  the totals derived from them. \<open>pe_same\<close> says a state change leaves it alone.
\<close>

definition pe_same :: "'x position_exec_scheme \<Rightarrow> 'x position_exec_scheme \<Rightarrow> bool" where
  "pe_same x y \<longleftrightarrow> ex_has_recorder y = ex_has_recorder x \<and> ex_has_inventory y = ex_has_inventory x
     \<and> ex_key y = ex_key x \<and> pe_config y = pe_config x
     \<and> pe_e_base y = pe_e_base x \<and> pe_e_quote y = pe_e_quote x \<and> pe_e_fee y = pe_e_fee x
     \<and> pe_x_base y = pe_x_base x \<and> pe_x_quote y = pe_x_quote x \<and> pe_x_fee y = pe_x_fee x
     \<and> pe_entry_base y = pe_entry_base x \<and> pe_entry_quote y = pe_entry_quote x
     \<and> pe_exit_base y = pe_exit_base x \<and> pe_exit_quote y = pe_exit_quote x"

lemma pe_fields [simp]:
  "pe_config (terminated ct t x) = pe_config x" "pe_config (activated x) = pe_config x"
  "pe_config (charged f x) = pe_config x" "pe_state (terminated ct t x) = pe_state x"
  "pe_state (activated x) = pe_state x" "pe_state (charged f x) = pe_state x"
  "pe_entry (terminated ct t x) = pe_entry x" "pe_entry (charged f x) = pe_entry x"
  "pe_close (terminated ct t x) = pe_close x" "pe_close (charged f x) = pe_close x"
  "pe_entry_base (charged f x) = pe_entry_base x" "pe_entry_quote (charged f x) = pe_entry_quote x"
  "pe_exit_base (charged f x) = pe_exit_base x" "pe_exit_quote (charged f x) = pe_exit_quote x"
  "pe_entry_price (charged f x) = pe_entry_price x" "pe_pending (charged f x) = pe_pending x"
  "pe_e_base (charged f x) = pe_e_base x" "pe_e_quote (charged f x) = pe_e_quote x"
  "pe_e_fee (charged f x) = pe_e_fee x" "pe_x_base (charged f x) = pe_x_base x"
  "pe_x_quote (charged f x) = pe_x_quote x" "pe_x_fee (charged f x) = pe_x_fee x"
  by (simp_all add: terminated_def activated_def charged_def)

lemma pe_same_refl [simp]: "pe_same x x"
  by (simp add: pe_same_def)

lemma pe_same_upd [simp]:
  "pe_same x (x\<lparr>ex_retries := n\<rparr>)" "pe_same x (x\<lparr>pe_entry := oo\<rparr>)" "pe_same x (x\<lparr>pe_close := oo\<rparr>)"
  "pe_same x (x\<lparr>pe_state := ps\<rparr>)" "pe_same x (x\<lparr>pe_pending := pc\<rparr>)"
  "pe_same x (terminated ct t x)" "pe_same x (activated x)"
  by (simp_all add: pe_same_def ex_key_def terminated_def activated_def)

lemma pe_same_more [simp]:
  "pe_same x (entry_filled t x)" "pe_same x (update_trailing p x)" "pe_same x (finalized ct t x)"
  by (auto simp: pe_same_def ex_key_def entry_filled_def update_trailing_def finalized_def
      terminated_def Let_def split: option.split)

lemma evaluate_state:
  "snd (evaluate_barriers p t x) = x \<or> snd (evaluate_barriers p t x) = update_trailing p x"
  by (auto simp: evaluate_barriers_def Let_def split: option.splits)

text \<open>
  An invariant that reads no more than the ledger part, the inventory and the recorder's
  log is kept by every handler as soon as the two ingestions keep it.
\<close>

definition pe_stable :: "(('v, 'x) pe_st \<Rightarrow> bool) \<Rightarrow> bool" where
  "pe_stable I \<longleftrightarrow> (\<forall>x e y e'. I (x, e) \<longrightarrow> pe_same x y \<longrightarrow> env_trades e' = env_trades e
     \<longrightarrow> env_inv e' = env_inv e \<longrightarrow> I (y, e'))"

lemma pe_stableD:
  "pe_stable I \<Longrightarrow> I (x, e) \<Longrightarrow> pe_same x y \<Longrightarrow> env_trades e' = env_trades e
   \<Longrightarrow> env_inv e' = env_inv e \<Longrightarrow> I (y, e')"
  unfolding pe_stable_def by blast

lemma keeps_upd_same:
  "pe_stable I \<Longrightarrow> (\<And>x. pe_same x (f x)) \<Longrightarrow> keeps I (upd f)"
  by (rule keeps_upd) (auto elim: pe_stableD)

lemma pe_same_evaluate [simp]: "pe_same x (snd (evaluate_barriers p t x))"
  using evaluate_state [of p t x] by auto

lemma keeps_pe_state:
  "keeps I a \<Longrightarrow> keeps I b \<Longrightarrow> keeps I c \<Longrightarrow> keeps I d \<Longrightarrow> keeps I (case ps of P_OPENING \<Rightarrow> a
     | P_ACTIVE \<Rightarrow> b | P_CLOSING \<Rightarrow> c | P_TERMINATED \<Rightarrow> d)"
  by (cases ps) simp_all

lemma pe_handle_keeps:
  fixes api :: "'v venue_api" and I :: "('v, 'x) pe_st \<Rightarrow> bool"
  assumes st: "pe_stable I" and en: "\<And>ord. keeps I (pe_ingest_entry api ord)"
    and ex: "\<And>ord. keeps I (pe_ingest_exit api ord)"
  shows "keeps I (pe_handle api ev)"
proof -
  have g: "keeps I (guard api label op)" for label and op :: "('v, 'c) prog"
    by (rule keeps_guard; erule pe_stableD [OF st]) simp_all
  have tm: "keeps I (terminate api ct)" for ct
    by (rule keeps_terminate; erule pe_stableD [OF st]) simp_all
  have ac: "keeps I activate"
    by (rule keeps_activate; erule pe_stableD [OF st]) simp_all
  note u = keeps_upd_same [OF st]
  have fin: "keeps I (pe_finalize api ct)" for ct
    unfolding pe_finalize_def by (intro keeps_intros u) simp
  have filled: "keeps I (pe_on_entry_filled api)"
    unfolding pe_on_entry_filled_def by (intro keeps_intros u) simp
  have place: "keeps I (pe_place_exit api label ty amt px)" for label ty amt px
    unfolding pe_place_exit_def by (intro keeps_intros g)
  have esc: "keeps I (pe_escalate_close api)"
    unfolding pe_escalate_close_def Let_def by (intro keeps_bind keeps_me keeps_if keeps_try keeps_option keeps_ret keeps_when u fin place tm ex) simp_all
  have opn: "keeps I (pe_open_close api ty trig)" for ty trig
    unfolding pe_open_close_def Let_def by (intro keeps_bind keeps_me keeps_if keeps_when u fin place ex esc) simp_all
  have red: "keeps I (pe_reduce_position api b)" for b
    unfolding pe_reduce_position_def Let_def by (intro keeps_bind keeps_me keeps_if keeps_ret place ex)
  have poll: "keeps I (pe_poll_close api)"
    unfolding pe_poll_close_def by (intro keeps_bind keeps_me keeps_if keeps_ret keeps_when keeps_option u g fin ex esc) simp_all
  have create: "keeps I (pe_on_create api)"
    unfolding pe_on_create_def Let_def by (intro keeps_bind keeps_me keeps_when ac u g en filled) simp_all
  have tick: "keeps I (pe_on_tick api)"
    unfolding pe_on_tick_def
    by (intro keeps_bind keeps_me keeps_if keeps_ret keeps_when keeps_option keeps_clock
        keeps_pe_state u g en filled tm opn poll) simp_all
  have so: "keeps I (pe_stop_opening api ct)" for ct
    unfolding pe_stop_opening_def
    by (intro keeps_bind keeps_me keeps_if keeps_ret keeps_try keeps_option u g en filled tm) simp_all
  have sc: "keeps I (pe_stop_closing api)"
    unfolding pe_stop_closing_def
    by (intro keeps_bind keeps_me keeps_ret keeps_when keeps_try keeps_option u g ex esc) simp_all
  have stop: "keeps I (pe_on_stop api ct)" for ct
    unfolding pe_on_stop_def
    by (intro keeps_bind keeps_me keeps_if keeps_ret keeps_pe_state u so sc tm opn) simp_all
  have "keeps I (pe_handle api (PE_World w))" for w
    unfolding pe_handle.simps
    by (rule keeps_world; erule pe_stableD [OF st]) simp_all
  with create tick stop red show ?thesis
    by (cases ev) (auto intro: keeps_bind keeps_ret)
qed

lemma pe_run_invariant:
  assumes "pe_stable I" and "\<And>ord. keeps I (pe_ingest_entry api ord)"
    and "\<And>ord. keeps I (pe_ingest_exit api ord)" and "I s"
  shows "I (pe_run api evs s)"
  using assms(4)
proof (induction evs arbitrary: s)
  case (Cons ev evs)
  have "I (snd (pe_handle api ev s))"
    using keeps_snd [OF pe_handle_keeps [OF assms(1-3)] Cons.prems] .
  from Cons.IH [OF this] show ?case by (simp add: pe_run_def)
qed (simp add: pe_run_def)

subsection \<open>Both sides are booked once\<close>

definition pe_books :: "trade_row list \<Rightarrow> inventory \<Rightarrow> ('v, 'x) pe_st \<Rightarrow> bool" where
  "pe_books tr0 iv0 s \<longleftrightarrow> (case s of (x, e) \<Rightarrow> \<exists>rows. ledger tr0 iv0 rows (x, e)
     \<and> side_sum (pe_side x) t_base rows = pe_e_base x
     \<and> side_sum (pe_side x) t_quote rows = pe_e_quote x
     \<and> side_sum (exit_side x) t_base rows = pe_x_base x
     \<and> side_sum (exit_side x) t_quote rows = pe_x_quote x
     \<and> sum_list (map t_fee rows) = pe_e_fee x + pe_x_fee x
     \<and> pe_entry_base x = pe_e_base x \<and> pe_entry_quote x = pe_e_quote x
     \<and> pe_exit_base x = pe_x_base x \<and> pe_exit_quote x = pe_x_quote x)"

lemma exit_side_neq [simp]: "exit_side x \<noteq> pe_side x" "pe_side x \<noteq> exit_side x"
  by (simp_all add: exit_side_def)

lemma pe_side_cong [simp]: "pe_side (charged f x) = pe_side x" "exit_side (charged f x) = exit_side x"
  by (simp_all add: pe_side_def exit_side_def)

lemma pe_books_stable: "pe_stable (pe_books tr0 iv0)"
proof -
  have "pe_books tr0 iv0 (y, e')" if b: "pe_books tr0 iv0 (x, e)" and s: "pe_same x y"
    and e: "env_trades e' = env_trades e" "env_inv e' = env_inv e"
    for x y :: "'x position_exec_scheme" and e e' :: "'v env"
  proof -
    obtain rows where rows: "ledger tr0 iv0 rows (x, e)"
      "side_sum (pe_side x) t_base rows = pe_e_base x"
      "side_sum (pe_side x) t_quote rows = pe_e_quote x"
      "side_sum (exit_side x) t_base rows = pe_x_base x"
      "side_sum (exit_side x) t_quote rows = pe_x_quote x"
      "sum_list (map t_fee rows) = pe_e_fee x + pe_x_fee x"
      "pe_entry_base x = pe_e_base x" "pe_entry_quote x = pe_e_quote x"
      "pe_exit_base x = pe_x_base x" "pe_exit_quote x = pe_x_quote x"
      using b unfolding pe_books_def prod.case by blast
    have "ledger tr0 iv0 rows (y, e')"
      by (rule ledger_cong [OF rows(1)]) (use s e in \<open>simp_all add: pe_same_def\<close>)
    with rows s show ?thesis
      by (auto simp: pe_books_def pe_same_def pe_side_def exit_side_def)
  qed
  then show ?thesis unfolding pe_stable_def by blast
qed

lemma pe_books_charged: "pe_books tr0 iv0 (x, e) \<Longrightarrow> pe_books tr0 iv0 (charged f x, e)"
  by (rule pe_stableD [OF pe_books_stable]) (simp_all add: pe_same_def)

lemma pe_books_step:
  assumes "ledger tr0 iv0 rows (x, e)" and "0 < f_base f"
    and "ex_has_recorder y = ex_has_recorder x" "ex_has_inventory y = ex_has_inventory x" "ex_key y = ex_key x"
  shows "ledger tr0 iv0 (rows @ [trade_row_of f p c x]) (y, booked f p c x e)"
  by (rule ledger_cong [OF ledger_booked [OF assms(1,2)]]) (simp_all add: assms)

lemma pe_ingest_entry_books:
  fixes api :: "'v venue_api"
  shows "keeps (pe_books tr0 iv0 :: ('v, 'x) pe_st \<Rightarrow> bool) (pe_ingest_entry api ord)"
proof (rule keepsI)
  fix s :: "('v, 'x) pe_st"
  obtain x e where s: "s = (x, e)" by fastforce
  assume inv: "pe_books tr0 iv0 s"
  then obtain rows where l: "ledger tr0 iv0 rows (x, e)"
    and sums: "side_sum (pe_side x) t_base rows = pe_e_base x"
      "side_sum (pe_side x) t_quote rows = pe_e_quote x"
      "side_sum (exit_side x) t_base rows = pe_x_base x"
      "side_sum (exit_side x) t_quote rows = pe_x_quote x"
      "sum_list (map t_fee rows) = pe_e_fee x + pe_x_fee x"
      "pe_exit_base x = pe_x_base x" "pe_exit_quote x = pe_x_quote x"
    unfolding pe_books_def s prod.case by blast
  define f where "f = delta_fill ord (ex_pair x) (pe_side x) (pe_e_base x) (pe_e_quote x) (pe_e_fee x)
    (va_now api (env_venue e))"
  have "pe_books tr0 iv0 (charged f x\<lparr>pe_e_base := o_filled_base ord, pe_e_quote := o_filled_quote ord,
      pe_e_fee := o_fee ord, pe_entry_base := o_filled_base ord, pe_entry_quote := o_filled_quote ord\<rparr>,
      booked f ord None x e)" if "\<not> o_filled_base ord - pe_e_base x \<le> 0"
    unfolding pe_books_def prod.case
    by (intro exI [of _ "rows @ [trade_row_of f ord None x]"] conjI pe_books_step [OF l])
      (use that sums in \<open>auto simp: f_def delta_fill_quote ex_key_def pe_side_def exit_side_def\<close>)
  with inv show "wp (pe_ingest_entry api ord) (\<lambda>_. pe_books tr0 iv0) (\<lambda>_. pe_books tr0 iv0) s"
    by (auto simp: pe_ingest_entry_def s Let_def f_def [symmetric] pe_books_charged)
qed

lemma pe_ingest_exit_books:
  fixes api :: "'v venue_api"
  shows "keeps (pe_books tr0 iv0 :: ('v, 'x) pe_st \<Rightarrow> bool) (pe_ingest_exit api ord)"
proof (rule keepsI)
  fix s :: "('v, 'x) pe_st"
  obtain x e where s: "s = (x, e)" by fastforce
  assume inv: "pe_books tr0 iv0 s"
  then obtain rows where l: "ledger tr0 iv0 rows (x, e)"
    and sums: "side_sum (pe_side x) t_base rows = pe_e_base x"
      "side_sum (pe_side x) t_quote rows = pe_e_quote x"
      "side_sum (exit_side x) t_base rows = pe_x_base x"
      "side_sum (exit_side x) t_quote rows = pe_x_quote x"
      "sum_list (map t_fee rows) = pe_e_fee x + pe_x_fee x"
      "pe_entry_base x = pe_e_base x" "pe_entry_quote x = pe_e_quote x"
    unfolding pe_books_def s prod.case by blast
  define f where "f = delta_fill ord (ex_pair x) (exit_side x) (pe_x_base x) (pe_x_quote x) (pe_x_fee x)
    (va_now api (env_venue e))"
  have "pe_books tr0 iv0 (charged f x\<lparr>pe_x_base := o_filled_base ord, pe_x_quote := o_filled_quote ord,
      pe_x_fee := o_fee ord, pe_exit_base := o_filled_base ord, pe_exit_quote := o_filled_quote ord\<rparr>,
      booked f ord None x e)" if "\<not> o_filled_base ord - pe_x_base x \<le> 0"
    unfolding pe_books_def prod.case
    by (intro exI [of _ "rows @ [trade_row_of f ord None x]"] conjI pe_books_step [OF l])
      (use that sums in \<open>auto simp: f_def delta_fill_quote ex_key_def pe_side_def exit_side_def\<close>)
  with inv show "wp (pe_ingest_exit api ord) (\<lambda>_. pe_books tr0 iv0) (\<lambda>_. pe_books tr0 iv0) s"
    by (auto simp: pe_ingest_exit_def s Let_def f_def [symmetric] pe_books_charged)
qed

text \<open>
  A law: a position executor's books. For any venue and any interleaving of creation,
  ticks, reductions and stops, the rows it has reported split into its entry side and its
  exit side, whose base and quote totals are exactly the entry and exit totals the executor
  computes its PnL from, with the fees of both; and the inventory hold of its key, and no
  other, has moved by those rows.
\<close>

theorem position_books_once:
  "\<exists>rows. ledger (env_trades e) (env_inv e) rows
        (pe_run api evs ((mk_position_exec xid u cid keep True c t)\<lparr>ex_has_recorder := True\<rparr>, e))
   \<and> (let x = fst (pe_run api evs ((mk_position_exec xid u cid keep True c t)\<lparr>ex_has_recorder := True\<rparr>, e)) in
        side_sum (pe_side x) t_base rows = pe_entry_base x
      \<and> side_sum (pe_side x) t_quote rows = pe_entry_quote x
      \<and> side_sum (exit_side x) t_base rows = pe_exit_base x
      \<and> side_sum (exit_side x) t_quote rows = pe_exit_quote x
      \<and> sum_list (map t_fee rows) = pe_e_fee x + pe_x_fee x)"
proof -
  let ?x = "(mk_position_exec xid u cid keep True c t)\<lparr>ex_has_recorder := True\<rparr>"
  have "pe_books (env_trades e) (env_inv e) (?x, e)"
    unfolding pe_books_def prod.case
    by (intro exI [of _ "[]"])
      (simp add: ledger_init mk_position_exec_def mk_exec_base_def exec_base.defs position_exec.defs)
  from pe_run_invariant [OF pe_books_stable pe_ingest_entry_books pe_ingest_exit_books this, of api evs]
  show ?thesis
    by (auto simp: pe_books_def Let_def split: prod.splits)
qed

subsection \<open>The triple barrier against its history-based specification\<close>

text \<open>
  The specification looks at the whole price history instead of trailing state. A long
  position and a short one are mirror images: \<open>dir\<close> is 1 or -1, the return is signed, and
  the extreme is the best price seen since entry.
\<close>

definition dir :: "'x position_exec_scheme \<Rightarrow> rat" where
  "dir x = (if is_long x then 1 else -1)"

definition signed_return :: "'x position_exec_scheme \<Rightarrow> dec \<Rightarrow> rat" where
  "signed_return x p = dir x * (p - pe_entry_price x) / pe_entry_price x"

definition extreme :: "'x position_exec_scheme \<Rightarrow> dec list \<Rightarrow> dec" where
  "extreme x seen = foldl (if is_long x then max else min) (pe_entry_price x) seen"

definition barrier_spec :: "'x position_exec_scheme \<Rightarrow> dec list \<Rightarrow> dec \<Rightarrow> time \<Rightarrow> barrier_hit option" where
  "barrier_spec x seen p now =
     (let b = pe_barriers x; e = pe_entry_price x; best = extreme x (seen @ [p]) in
      if (case (tb_time_limit b, pe_opened_at x) of
            (Some n, Some t0) \<Rightarrow> of_int n \<le> now - t0 | _ \<Rightarrow> False)
      then Some (TIME_LIMIT, tb_time_limit_type b, p)
      else if (case tb_stop_loss b of None \<Rightarrow> False | Some sl \<Rightarrow> signed_return x p \<le> - sl)
      then Some (STOP_LOSS, tb_stop_loss_type b, e * (1 - dir x * the (tb_stop_loss b)))
      else if (case tb_trailing_stop b of None \<Rightarrow> False | Some ts \<Rightarrow>
                 list_ex (\<lambda>q. activation_price ts \<le> signed_return x q) (seen @ [p])
                 \<and> dir x * p \<le> dir x * (best * (1 - dir x * trailing_delta ts)))
      then Some (TRAILING_STOP, tb_trailing_stop_type b,
                 best * (1 - dir x * trailing_delta (the (tb_trailing_stop b))))
      else if (case tb_take_profit b of None \<Rightarrow> False | Some tp \<Rightarrow> tp \<le> signed_return x p)
      then Some (TAKE_PROFIT, tb_take_profit_type b, e * (1 + dir x * the (tb_take_profit b)))
      else None)"

text \<open>The ticks of an open position: prices and times, until a barrier is hit.\<close>

fun price_run :: "(dec \<times> time) list \<Rightarrow> 'x position_exec_scheme
    \<Rightarrow> barrier_hit option \<times> 'x position_exec_scheme" where
  "price_run [] x = (None, x)"
| "price_run ((p, t) # ps) x = (case evaluate_barriers p t x of
     (Some h, y) \<Rightarrow> (Some h, y) | (None, y) \<Rightarrow> price_run ps y)"

text \<open>What the trailing state of \<open>y\<close> knows of the history since \<open>x\<close>.\<close>

definition trail_knows :: "'x position_exec_scheme \<Rightarrow> dec list \<Rightarrow> 'x position_exec_scheme \<Rightarrow> bool" where
  "trail_knows x seen y \<longleftrightarrow> pe_config y = pe_config x \<and> pe_entry_price y = pe_entry_price x
     \<and> pe_opened_at y = pe_opened_at x
     \<and> (\<forall>ts. tb_trailing_stop (pe_barriers x) = Some ts \<longrightarrow>
          (if is_long x then pe_max y else pe_min y) = Some (extreme x seen)
        \<and> (pe_armed y \<longleftrightarrow> list_ex (\<lambda>q. activation_price ts \<le> signed_return x q) seen))"

lemma extreme_snoc: "extreme x (seen @ [p])
    = (if is_long x then max (extreme x seen) p else min (extreme x seen) p)"
  by (simp add: extreme_def)

lemma extreme_pos:
  "0 < pe_entry_price x \<Longrightarrow> list_all (\<lambda>q. 0 < q) seen \<Longrightarrow> 0 < extreme x seen"
proof (induction seen rule: rev_induct)
  case Nil
  then show ?case by (simp add: extreme_def)
next
  case (snoc p seen)
  then show ?case by (auto simp: extreme_snoc)
qed

lemma trail_knowsD:
  assumes "trail_knows x seen y"
  shows "pe_barriers y = pe_barriers x" "is_long y = is_long x" "pe_entry_price y = pe_entry_price x"
    "pe_opened_at y = pe_opened_at x" "pe_config y = pe_config x"
  using assms by (simp_all add: trail_knows_def pe_barriers_def is_long_def pe_side_def)

lemma update_trailing_knows:
  assumes k: "trail_knows x seen y" and pos: "0 < extreme x seen"
    and ts: "tb_trailing_stop (pe_barriers x) = Some ts"
  shows "trail_knows x (seen @ [p]) (update_trailing p y)
    \<and> (pe_armed (update_trailing p y) \<longrightarrow> pe_trail (update_trailing p y)
        = Some (extreme x (seen @ [p]) * (1 - dir x * trailing_delta ts)))"
proof -
  note y = trail_knowsD [OF k]
  have m: "(if is_long x then pe_max y else pe_min y) = Some (extreme x seen)"
    "pe_armed y \<longleftrightarrow> list_ex (\<lambda>q. activation_price ts \<le> signed_return x q) seen"
    using k ts by (auto simp: trail_knows_def)
  show ?thesis
  proof (cases "is_long x")
    case True
    then have "update_trailing p y = y\<lparr>pe_max := Some (max (extreme x seen) p),
        pe_armed := (pe_armed y \<or> activation_price ts \<le> signed_return x p),
        pe_trail := (if pe_armed y \<or> activation_price ts \<le> signed_return x p
          then Some (max (extreme x seen) p * (1 - trailing_delta ts)) else pe_trail y)\<rparr>"
      using y m pos ts by (simp add: update_trailing_def signed_return_def dir_def Let_def)
    with True y m ts show ?thesis
      by (simp add: trail_knows_def extreme_snoc dir_def)
  next
    case False
    then have "update_trailing p y = y\<lparr>pe_min := Some (min (extreme x seen) p),
        pe_armed := (pe_armed y \<or> activation_price ts \<le> signed_return x p),
        pe_trail := (if pe_armed y \<or> activation_price ts \<le> signed_return x p
          then Some (min (extreme x seen) p * (1 + trailing_delta ts)) else pe_trail y)\<rparr>"
      using y m pos ts by (simp add: update_trailing_def signed_return_def dir_def Let_def)
    with False y m ts show ?thesis
      by (simp add: trail_knows_def extreme_snoc dir_def)
  qed
qed

lemma trail_knows_none:
  "tb_trailing_stop (pe_barriers x) = None \<Longrightarrow> trail_knows x seen y \<Longrightarrow>
   update_trailing p y = y \<and> trail_knows x (seen @ [p]) y"
  using trail_knowsD(1) [of x seen y] by (simp add: trail_knows_def update_trailing_def)

lemma evaluate_spec:
  assumes k: "trail_knows x seen y" and e: "0 < pe_entry_price x" and pos: "list_all (\<lambda>q. 0 < q) seen"
  shows "fst (evaluate_barriers p now y) = barrier_spec x seen p now
    \<and> (fst (evaluate_barriers p now y) = None
        \<longrightarrow> trail_knows x (seen @ [p]) (snd (evaluate_barriers p now y)))"
proof -
  note y = trail_knowsD [OF k]
  let ?u = "update_trailing p y"
  have u: "trail_knows x (seen @ [p]) ?u"
    using update_trailing_knows [OF k extreme_pos [OF e pos], of _ p] trail_knows_none [OF _ k, of p]
    by (cases "tb_trailing_stop (pe_barriers x)") auto
  note uu = trail_knowsD [OF u]
  have th: "time_hit p now y = (if (case (tb_time_limit (pe_barriers x), pe_opened_at x) of
      (Some n, Some t0) \<Rightarrow> of_int n \<le> now - t0 | _ \<Rightarrow> False)
    then Some (TIME_LIMIT, tb_time_limit_type (pe_barriers x), p) else None)"
    using y by (auto simp: time_hit_def split: option.split)
  have sh: "stop_hit p y = (if (case tb_stop_loss (pe_barriers x) of None \<Rightarrow> False
      | Some sl \<Rightarrow> signed_return x p \<le> - sl)
    then Some (STOP_LOSS, tb_stop_loss_type (pe_barriers x),
      pe_entry_price x * (1 - dir x * the (tb_stop_loss (pe_barriers x)))) else None)"
    using y e by (auto simp: stop_hit_def Let_def signed_return_def dir_def pos_divide_le_eq
        pos_le_divide_eq algebra_simps split: option.split)
  have ph: "profit_hit p ?u = (if (case tb_take_profit (pe_barriers x) of None \<Rightarrow> False
      | Some tp \<Rightarrow> tp \<le> signed_return x p)
    then Some (TAKE_PROFIT, tb_take_profit_type (pe_barriers x),
      pe_entry_price x * (1 + dir x * the (tb_take_profit (pe_barriers x)))) else None)"
    using uu e by (auto simp: profit_hit_def Let_def signed_return_def dir_def pos_divide_le_eq
        pos_le_divide_eq algebra_simps split: option.split)
  have tr: "trail_hit p ?u = (if (case tb_trailing_stop (pe_barriers x) of None \<Rightarrow> False | Some ts \<Rightarrow>
        list_ex (\<lambda>q. activation_price ts \<le> signed_return x q) (seen @ [p])
        \<and> dir x * p \<le> dir x * (extreme x (seen @ [p]) * (1 - dir x * trailing_delta ts)))
    then Some (TRAILING_STOP, tb_trailing_stop_type (pe_barriers x),
      extreme x (seen @ [p]) * (1 - dir x * trailing_delta (the (tb_trailing_stop (pe_barriers x)))))
    else None)"
  proof (cases "tb_trailing_stop (pe_barriers x)")
    case None
    then show ?thesis using uu by (simp add: trail_hit_def)
  next
    case (Some ts)
    then show ?thesis
      using update_trailing_knows [OF k extreme_pos [OF e pos] Some, of p] uu
      by (auto simp: trail_hit_def trail_knows_def dir_def split: option.split)
  qed
  have "\<not> pe_entry_price y \<le> 0" using y e by simp
  then show ?thesis
    using u th sh tr ph
    by (simp add: evaluate_barriers_def barrier_spec_def Let_def split: option.split)
qed

lemma price_run_knows:
  assumes "trail_knows x seen y" and "0 < pe_entry_price x" and "list_all (\<lambda>q. 0 < q) seen"
    and "list_all (\<lambda>(q, t). 0 < q) ps" and "price_run ps y = (None, z)"
  shows "trail_knows x (seen @ map fst ps) z"
  using assms
proof (induction ps arbitrary: seen y)
  case (Cons pt ps)
  obtain p t where pt: "pt = (p, t)" by fastforce
  obtain y' where ev: "evaluate_barriers p t y = (None, y')" and run: "price_run ps y' = (None, z)"
    using Cons.prems(5) by (auto simp: pt split: prod.splits option.splits)
  have "trail_knows x (seen @ [p]) y'"
    using evaluate_spec [OF Cons.prems(1-3), of p t] ev by simp
  from Cons.IH [OF this Cons.prems(2) _ _ run] Cons.prems(3,4) show ?case
    by (simp add: pt)
qed simp

text \<open>
  Claim C13: the triple barrier decides as a history-based specification does. Over a
  position opened from a filled entry and any run of positive prices that hit no barrier, the
  next tick fires the first of: the time limit; the stop loss, when the signed return is at
  most minus the stop; the trailing stop, when some price since entry reached the activation
  return and the price has retraced to the best price since entry less the trailing
  fraction; the take profit. The hit carries the barrier's own order type and exact level,
  and long and short positions are mirror images.
\<close>

theorem position_barriers_spec:
  assumes "0 < pe_entry_base x0" "0 < pe_entry_quote x0" "\<not> pe_armed x0"
    and "list_all (\<lambda>(q, t). 0 < q) ps"
    and "price_run ps (entry_filled t x0) = (None, y)"
  shows "fst (evaluate_barriers p now y) = barrier_spec (entry_filled t x0) (map fst ps) p now"
proof -
  let ?x = "entry_filled t x0"
  have e: "0 < pe_entry_price ?x"
    using assms(1,2) by (simp add: entry_filled_def Let_def)
  have start: "trail_knows ?x [] ?x"
    using assms(1-3) by (simp add: trail_knows_def extreme_def entry_filled_def Let_def)
  have "trail_knows ?x (map fst ps) y"
    using price_run_knows [OF start e _ assms(4,5)] by simp
  moreover have "list_all (\<lambda>q. 0 < q) (map fst ps)"
    using assms(4) by (auto simp: list_all_iff)
  ultimately show ?thesis using evaluate_spec [OF _ e] by blast
qed

definition demo_barriers :: triple_barrier where
  "demo_barriers = \<lparr>tb_take_profit = Some (1 / 2), tb_stop_loss = Some (1 / 10), tb_time_limit = Some 3600,
     tb_trailing_stop = Some \<lparr>activation_price = 1 / 10, trailing_delta = 1 / 20\<rparr>,
     tb_open_type = LIMIT, tb_take_profit_type = LIMIT, tb_stop_loss_type = MARKET,
     tb_time_limit_type = MARKET, tb_trailing_stop_type = MARKET\<rparr>"

definition demo_pe :: position_exec where
  "demo_pe = (mk_position_exec ''p'' 1 ''c'' False True
     \<lparr>pc_order = demo_oe_config\<lparr>oc_strategy := S_MARKET\<rparr>, pc_barriers = demo_barriers\<rparr> 0)\<lparr>
     ex_has_recorder := True, ex_state := ACTIVE, pe_entry_base := 10, pe_entry_quote := 1000,
     pe_e_base := 10, pe_e_quote := 1000\<rparr>"

lemmas demo_pe_defs = demo_pe_def demo_barriers_def demo_oe_config_def mk_position_exec_def
  mk_exec_base_def exec_base.defs position_exec.defs demo_env_def

lemmas pe_eval_defs = evaluate_barriers_def time_hit_def stop_hit_def trail_hit_def profit_hit_def
  update_trailing_def is_long_def pe_side_def pe_barriers_def entry_filled_def

theorem position_barriers_spec_witness:
  "\<exists>y. price_run [(105, 1), (120, 2)] (entry_filled 0 demo_pe) = (None, y)
     \<and> barrier_spec (entry_filled 0 demo_pe) [105, 120] 113 3 = Some (TRAILING_STOP, MARKET, 114)
     \<and> fst (evaluate_barriers 113 3 y) = Some (TRAILING_STOP, MARKET, 114)"
proof -
  obtain y where y: "price_run [(105, 1), (120, 2 :: time)] (entry_filled 0 demo_pe) = (None, y)"
    by (simp add: demo_pe_defs pe_eval_defs Let_def)
  have s: "barrier_spec (entry_filled 0 demo_pe) [105, 120] 113 3 = Some (TRAILING_STOP, MARKET, 114)"
    by (simp add: barrier_spec_def Let_def demo_pe_defs pe_eval_defs signed_return_def dir_def extreme_def)
  have "fst (evaluate_barriers 113 3 y)
      = barrier_spec (entry_filled 0 demo_pe) (map fst [(105, 1), (120, 2 :: time)]) 113 3"
    by (rule position_barriers_spec [OF _ _ _ _ y]) (simp_all add: demo_pe_defs)
  with y s show ?thesis by simp
qed

subsection \<open>What a position executor may send\<close>

text \<open>
  Its entry, as configured; otherwise only reduce-only orders of positive size on the exit
  side.
\<close>

definition pe_allows :: "pe_config \<Rightarrow> trade_type \<Rightarrow> order_type \<Rightarrow> dec \<Rightarrow> bool \<Rightarrow> bool" where
  "pe_allows c side ty amt ro =
     (if ro then side = opposite (oc_side (pc_order c)) \<and> 0 < amt
      else side = oc_side (pc_order c) \<and> ty = entry_order_type c \<and> amt = oc_amount (pc_order c))"

lemma pe_ingest_fenced [simp]:
  "pe_ingest_entry (fenced P api) = pe_ingest_entry api"
  "pe_ingest_exit (fenced P api) = pe_ingest_exit api"
  by (rule ext; simp add: pe_ingest_entry_def pe_ingest_exit_def cong: if_cong)+

lemma pe_plain_fenced [simp]:
  "pe_finalize (fenced P api) ct = pe_finalize api ct"
  "pe_on_entry_filled (fenced P api) = pe_on_entry_filled api"
  "pe_stop_opening (fenced P api) ct = pe_stop_opening api ct"
  by (simp_all add: pe_finalize_def pe_on_entry_filled_def pe_stop_opening_def
      cong: option.case_cong if_cong)

abbreviation pe_has :: "pe_config \<Rightarrow> ('v, 'x) pe_st \<Rightarrow> bool" where
  "pe_has c \<equiv> (\<lambda>s. pe_config (fst s) = c)"

lemma pe_has_stable: "pe_stable (pe_has c)"
  by (auto simp: pe_stable_def pe_same_def)

lemma pe_has_keeps:
  fixes api :: "'v venue_api"
  shows "keeps (pe_has c) (pe_ingest_entry api ord)" "keeps (pe_has c) (pe_ingest_exit api ord)"
    "keeps (pe_has c) (guard api label op)" "keeps (pe_has c) (terminate api ct)"
    "(\<And>x. pe_config (f x) = pe_config x) \<Longrightarrow> keeps (pe_has c) (upd f)"
    "keeps (pe_has c) activate" "keeps (pe_has c) (pe_place_exit api label ty amt px)"
  by (auto simp: pe_ingest_entry_def pe_ingest_exit_def pe_place_exit_def Let_def
      intro!: keepsI wp_guard)

lemma pe_place_exit_agree:
  "0 < amt \<Longrightarrow> agree (pe_has c) (pe_place_exit (fenced (pe_allows c) api) label ty amt px)
     (pe_place_exit api label ty amt px)"
  by (auto simp: agree_def pe_place_exit_def run_defs pe_allows_def exit_side_def pe_side_def)

lemma pe_on_create_agree:
  "agree (pe_has c) (pe_on_create (fenced (pe_allows c) api)) (pe_on_create api)"
  by (auto simp: agree_def pe_on_create_def run_defs pe_allows_def Let_def)

lemma pe_escalate_agree:
  "agree (pe_has c) (pe_escalate_close (fenced (pe_allows c) api)) (pe_escalate_close api)"
  unfolding pe_escalate_close_def Let_def pe_ingest_fenced pe_plain_fenced terminate_fenced
  by (intro agree_bind agree_if agree_try agree_refl pe_place_exit_agree keeps_me keeps_bind keeps_ret
      keeps_try pe_has_keeps) simp_all

lemma pe_open_close_agree:
  "agree (pe_has c) (pe_open_close (fenced (pe_allows c) api) ty trig) (pe_open_close api ty trig)"
  unfolding pe_open_close_def Let_def pe_ingest_fenced pe_plain_fenced
  by (intro agree_bind agree_if agree_when agree_refl pe_place_exit_agree pe_escalate_agree keeps_me
      pe_has_keeps) simp_all

lemma pe_reduce_agree:
  "agree (pe_has c) (pe_reduce_position (fenced (pe_allows c) api) b) (pe_reduce_position api b)"
  unfolding pe_reduce_position_def Let_def pe_ingest_fenced
  by (intro agree_bind agree_if agree_refl pe_place_exit_agree keeps_me pe_has_keeps) (simp add: not_le)

lemma pe_poll_agree:
  "agree (pe_has c) (pe_poll_close (fenced (pe_allows c) api)) (pe_poll_close api)"
  unfolding pe_poll_close_def pe_ingest_fenced pe_plain_fenced guard_fenced fenced_simps
  by (intro agree_bind agree_if agree_when agree_option agree_refl pe_escalate_agree keeps_me
      pe_has_keeps) simp_all

lemma agree_pe_state:
  "agree I b b' \<Longrightarrow> agree I d d' \<Longrightarrow> agree I (case ps of P_OPENING \<Rightarrow> a | P_ACTIVE \<Rightarrow> b
     | P_CLOSING \<Rightarrow> d | P_TERMINATED \<Rightarrow> g) (case ps of P_OPENING \<Rightarrow> a | P_ACTIVE \<Rightarrow> b'
     | P_CLOSING \<Rightarrow> d' | P_TERMINATED \<Rightarrow> g)"
  by (cases ps) (simp_all add: agree_refl)

lemma pe_config_eval [simp]: "pe_config (snd (evaluate_barriers p t x)) = pe_config x"
  using pe_same_evaluate [of x p t] by (simp add: pe_same_def)

lemma pe_tick_agree:
  "agree (pe_has c) (pe_on_tick (fenced (pe_allows c) api)) (pe_on_tick api)"
  unfolding pe_on_tick_def pe_ingest_fenced pe_plain_fenced guard_fenced fenced_simps clock_fenced
    terminate_fenced
  by (intro agree_bind agree_if agree_refl agree_option agree_pe_state pe_open_close_agree pe_poll_agree
      keeps_me keeps_clock pe_has_keeps) simp_all

lemma pe_stop_closing_agree:
  "agree (pe_has c) (pe_stop_closing (fenced (pe_allows c) api)) (pe_stop_closing api)"
  unfolding pe_stop_closing_def pe_ingest_fenced guard_fenced fenced_simps
  by (intro agree_bind agree_when agree_refl pe_escalate_agree keeps_me keeps_option keeps_ret
      keeps_when keeps_bind keeps_try pe_has_keeps) simp_all

lemma pe_stop_agree:
  "agree (pe_has c) (pe_on_stop (fenced (pe_allows c) api) ct) (pe_on_stop api ct)"
  unfolding pe_on_stop_def pe_plain_fenced terminate_fenced
  by (intro agree_bind agree_if agree_refl agree_pe_state pe_open_close_agree pe_stop_closing_agree
      keeps_me pe_has_keeps) simp_all

lemma pe_handle_agree:
  "agree (pe_has c) (pe_handle (fenced (pe_allows c) api) ev) (pe_handle api ev)"
proof (cases ev)
  case (PE_Reduce b)
  have "keeps (pe_has c) (pe_reduce_position (fenced (pe_allows c) api) b)"
    unfolding pe_reduce_position_def Let_def
    by (intro keeps_bind keeps_me keeps_if keeps_ret pe_has_keeps)
  with PE_Reduce show ?thesis
    by (auto intro!: agree_bind pe_reduce_agree agree_refl)
qed (simp_all add: pe_on_create_agree pe_tick_agree pe_stop_agree agree_refl)

text \<open>
  Claim C14: the orders of a position executor. Under any venue and any calls it behaves
  as it would behind a gate that lets through only the configured entry, and otherwise only
  reduce-only orders of positive size on the side opposite to the entry: no close,
  escalation or reduction can open or flip a position.
\<close>

theorem position_exits_reduce_only:
  "pe_run (fenced (pe_allows (pe_config x)) api) evs (x, e) = pe_run api evs (x, e)"
proof -
  have "pe_run (fenced (pe_allows c) api) evs (x, e) = pe_run api evs (x, e)" if "pe_config x = c" for c
    using that
  proof (induction evs arbitrary: x e)
    case (Cons ev evs)
    have "pe_handle (fenced (pe_allows c) api) ev (x, e) = pe_handle api ev (x, e)"
      by (rule agreeD [OF pe_handle_agree]) (simp add: Cons.prems)
    moreover have "pe_config (fst (snd (pe_handle api ev (x, e)))) = c"
      by (rule keeps_snd [OF pe_handle_keeps [OF pe_has_stable]])
        (simp_all add: pe_has_keeps Cons.prems)
    ultimately show ?case
      using Cons.IH by (cases "snd (pe_handle api ev (x, e))") (simp add: pe_run_def)
  qed (simp add: pe_run_def)
  then show ?thesis by simp
qed

subsection \<open>A close from start to finish\<close>

lemma pe_side_upd [simp]:
  "pe_side (x\<lparr>ex_retries := a0\<rparr>) = pe_side x"
  "pe_side (x\<lparr>pe_state := a1\<rparr>) = pe_side x"
  "pe_side (x\<lparr>pe_entry := a2\<rparr>) = pe_side x"
  "pe_side (x\<lparr>pe_close := a3\<rparr>) = pe_side x"
  "pe_side (x\<lparr>pe_entry_base := a4\<rparr>) = pe_side x"
  "pe_side (x\<lparr>pe_entry_quote := a5\<rparr>) = pe_side x"
  "pe_side (x\<lparr>pe_exit_base := a6\<rparr>) = pe_side x"
  "pe_side (x\<lparr>pe_exit_quote := a7\<rparr>) = pe_side x"
  "pe_side (x\<lparr>pe_max := a8\<rparr>) = pe_side x"
  "pe_side (x\<lparr>pe_min := a9\<rparr>) = pe_side x"
  "pe_side (x\<lparr>pe_armed := a10\<rparr>) = pe_side x"
  "pe_side (x\<lparr>pe_trail := a11\<rparr>) = pe_side x"
  "pe_side (x\<lparr>pe_pending := a12\<rparr>) = pe_side x"
  "pe_side (x\<lparr>pe_e_base := a13\<rparr>) = pe_side x"
  "pe_side (x\<lparr>pe_e_quote := a14\<rparr>) = pe_side x"
  "pe_side (x\<lparr>pe_e_fee := a15\<rparr>) = pe_side x"
  "pe_side (x\<lparr>pe_x_base := a16\<rparr>) = pe_side x"
  "pe_side (x\<lparr>pe_x_quote := a17\<rparr>) = pe_side x"
  "pe_side (x\<lparr>pe_x_fee := a18\<rparr>) = pe_side x"
  by (simp_all add: pe_side_def)

lemma evaluate_shape: "\<exists>m m' a tr. snd (evaluate_barriers p t x)
    = x\<lparr>pe_max := m, pe_min := m', pe_armed := a, pe_trail := tr\<rparr>"
proof -
  have "update_trailing p x = x\<lparr>pe_max := pe_max (update_trailing p x), pe_min := pe_min (update_trailing p x),
      pe_armed := pe_armed (update_trailing p x), pe_trail := pe_trail (update_trailing p x)\<rparr>"
    by (simp add: update_trailing_def Let_def split: option.split)
  moreover have "x = x\<lparr>pe_max := pe_max x, pe_min := pe_min x, pe_armed := pe_armed x, pe_trail := pe_trail x\<rparr>"
    by simp
  ultimately show ?thesis using evaluate_state [of p t x] by metis
qed

text \<open>
  A law: a barrier hit is carried through. When a tick's price hits a barrier and the
  venue fills the close, the executor sends one order for the whole open base, books it as
  one exit row, terminates with the barrier's close type, and its net PnL is the exit value
  less the entry value, in the direction of the position, less every fee it has paid.
\<close>

theorem position_barrier_close_pnl:
  assumes live: "ex_state x = ACTIVE" "pe_state x = P_ACTIVE" and rec: "ex_has_recorder x"
    and open_base: "0 < pe_entry_base x" "pe_exit_base x = 0" "pe_x_base x = 0" "pe_x_quote x = 0" "pe_x_fee x = 0"
    and mid: "va_mid api (ex_pair x) (env_venue e) = (Inr p, v1)"
    and hit: "fst (evaluate_barriers p (va_now api v1) x) = Some (ct, ty, trig)"
    and fill: "va_place api (ex_pair x) (exit_side x) ty (pe_entry_base x)
        (if ty = MARKET then None else Some trig) (oc_leverage (pc_order (pe_config x))) True v1 = (Inr ord, v2)"
    and full: "o_state ord = O_FILLED" "o_filled_base ord = pe_entry_base x" "0 \<le> o_filled_quote ord"
  shows "\<exists>x' e' row. pe_on_tick api (x, e) = (Inr (), (x', e'))
     \<and> ex_state x' = TERMINATED \<and> ex_close x' = Some ct \<and> pe_state x' = P_TERMINATED
     \<and> env_trades e' = env_trades e @ [row] \<and> t_side row = exit_side x \<and> t_base row = pe_entry_base x
     \<and> ex_net_pnl x' = dir x * (o_filled_quote ord - pe_entry_quote x) - (ex_fees x + o_fee ord)"
proof -
  obtain m m' a tr where y: "snd (evaluate_barriers p (va_now api v1) x)
      = x\<lparr>pe_max := m, pe_min := m', pe_armed := a, pe_trail := tr\<rparr>"
    using evaluate_shape by blast
  let ?y = "x\<lparr>pe_max := m, pe_min := m', pe_armed := a, pe_trail := tr, pe_pending := Some ct,
    pe_state := P_CLOSING\<rparr>"
  have side: "exit_side ?y = exit_side x" "exit_side (?y\<lparr>pe_close := Some ord\<rparr>) = exit_side x"
    by (simp_all add: exit_side_def)
  have place: "wp (pe_place_exit api ''place_close'' ty (pe_entry_base x) px) Q E (?y, e\<lparr>env_venue := v1\<rparr>)
     = Q ord (?y, e\<lparr>env_venue := v2\<rparr>)" if "px = (if ty = MARKET then None else Some trig)" for px Q E
    using fill side that by (simp add: pe_place_exit_def wp_guard_Inr)
  have "wp (pe_on_tick api) (\<lambda>_ s. ex_state (fst s) = TERMINATED \<and> ex_close (fst s) = Some ct
      \<and> pe_state (fst s) = P_TERMINATED
      \<and> (\<exists>row. env_trades (snd s) = env_trades e @ [row] \<and> t_side row = exit_side x
         \<and> t_base row = pe_entry_base x)
      \<and> ex_net_pnl (fst s) = dir x * (o_filled_quote ord - pe_entry_quote x) - (ex_fees x + o_fee ord))
      (\<lambda>_ _. False) (x, e)"
    using live rec open_base full
    by (simp add: pe_on_tick_def is_terminated_def wp_guard_Inr [of "va_mid api (ex_pair x)", OF mid]
        hit y pe_open_close_def Let_def place pe_ingest_exit_def fill_refused_def delta_fill_quote
        pe_finalize_def finalized_def pending_or_def dir_def is_long_def side)
  from wp_total [OF this] show ?thesis by auto
qed

definition demo_live :: position_exec where
  "demo_live = (entry_filled 0 demo_pe)"

definition pe_order :: "string \<Rightarrow> order_state \<Rightarrow> dec \<Rightarrow> dec \<Rightarrow> nado_order" where
  "pe_order oid st base price = \<lparr>o_id = oid, o_pair = ''BTC'', o_side = SELL, o_type = MARKET,
     o_amount = 10, o_price = None, o_state = st, o_filled_base = base,
     o_filled_quote = price * base, o_fee = 1\<rparr>"

definition pe_env :: "(exc + nado_order) list \<Rightarrow> (exc + dec) list \<Rightarrow> script env" where
  "pe_env os ms = \<lparr>env_venue = \<lparr>sc_now = 5, sc_orders = os, sc_mids = ms, sc_cancels = []\<rparr>,
     env_inv = [], env_trades = []\<rparr>"

lemmas demo_live_defs = demo_live_def entry_filled_def demo_pe_defs pe_order_def pe_env_def

theorem position_barrier_close_pnl_witness:
  "\<exists>x' e' row. pe_on_tick script_api (demo_live, pe_env [Inr (pe_order ''x'' O_FILLED 10 89)] [Inr 90])
      = (Inr (), (x', e')) \<and> ex_close x' = Some STOP_LOSS \<and> env_trades e' = [row] \<and> t_side row = SELL
     \<and> ex_net_pnl x' = - 111"
  using position_barrier_close_pnl [of demo_live script_api "pe_env [Inr (pe_order ''x'' O_FILLED 10 89)] [Inr 90]"
      90 "(env_venue (pe_env [Inr (pe_order ''x'' O_FILLED 10 89)] []))"
      STOP_LOSS MARKET 90 "pe_order ''x'' O_FILLED 10 89" "env_venue (pe_env [] [])"]
  by (force simp: demo_live_defs script_defs pe_eval_defs Let_def exit_side_def dir_def)

subsection \<open>Three defects of the position executor\<close>

text \<open>
  A finding: a throttled close is lost. The interface promises that a placement the
  client-side budget refuses is retried on the next cycle. When the close of a barrier hit is
  refused that way, the executor has already moved to its closing state without a close
  order, and no tick ever does anything again, whatever the venue does: the position stays
  open with no order and no barrier watching it until something stops the executor.
\<close>

theorem position_throttled_close_stuck:
  assumes live: "ex_state x = ACTIVE" "pe_state x = P_ACTIVE" "pe_close x = None"
    and open_base: "pe_exit_base x < pe_entry_base x"
    and mid: "va_mid api (ex_pair x) (env_venue e) = (Inr p, v1)"
    and hit: "fst (evaluate_barriers p (va_now api v1) x) = Some (ct, ty, trig)"
    and thr: "va_place api (ex_pair x) (exit_side x) ty (pe_entry_base x - pe_exit_base x)
        (if ty = MARKET then None else Some trig) (oc_leverage (pc_order (pe_config x))) True v1
        = (Inl (AdapterThrottled m), v2)"
  shows "\<exists>x' e'. pe_on_tick api (x, e) = (Inl (AdapterThrottled m), (x', e'))
     \<and> ex_state x' = ACTIVE \<and> pe_entry_base x' - pe_exit_base x' = pe_entry_base x - pe_exit_base x
     \<and> fst (pe_run api (concat (map (\<lambda>w. [PE_World w, PE_Tick]) ws)) (x', e')) = x'"
proof -
  obtain q q' a tr where y: "snd (evaluate_barriers p (va_now api v1) x)
      = x\<lparr>pe_max := q, pe_min := q', pe_armed := a, pe_trail := tr\<rparr>"
    using evaluate_shape by blast
  let ?y = "x\<lparr>pe_max := q, pe_min := q', pe_armed := a, pe_trail := tr, pe_pending := Some ct,
    pe_state := P_CLOSING\<rparr>"
  have side: "exit_side ?y = exit_side x"
    by (simp add: exit_side_def)
  have place: "wp (pe_place_exit api ''place_close'' ty (pe_entry_base x - pe_exit_base x) px) Q E
      (?y, e\<lparr>env_venue := v1\<rparr>) = E (AdapterThrottled m) (?y, e\<lparr>env_venue := v2\<rparr>)"
    if "px = (if ty = MARKET then None else Some trig)" for px Q E
    using thr side that by (simp add: pe_place_exit_def wp_guard_throttled)
  have tick: "pe_on_tick api (x, e) = (Inl (AdapterThrottled m), (?y, e\<lparr>env_venue := v2\<rparr>))"
    by (rule run_InlI)
      (use live open_base in \<open>simp add: pe_on_tick_def is_terminated_def
        wp_guard_Inr [of "va_mid api (ex_pair x)", OF mid] hit y pe_open_close_def Let_def place\<close>)
  have idle: "pe_on_tick api (?y, e') = (Inr (), (?y, e'))" for e'
    by (rule run_InrI) (use live in \<open>simp add: pe_on_tick_def is_terminated_def pe_poll_close_def\<close>)
  have "fst (pe_run api (concat (map (\<lambda>w. [PE_World w, PE_Tick]) ws)) (?y, e')) = ?y" for e'
    by (induction ws arbitrary: e') (simp_all add: pe_run_def idle modifyP_def)
  with tick live show ?thesis by auto
qed

theorem position_throttled_close_stuck_witness:
  "\<exists>x' e'. pe_on_tick script_api (demo_live, pe_env [Inl (AdapterThrottled ''budget'')] [Inr 80])
      = (Inl (AdapterThrottled ''budget''), (x', e'))
     \<and> ex_state x' = ACTIVE \<and> pe_entry_base x' - pe_exit_base x' = 10
     \<and> fst (pe_run script_api (concat (map (\<lambda>w. [PE_World w, PE_Tick]) [id, id])) (x', e')) = x'"
  using position_throttled_close_stuck [of demo_live script_api
      "pe_env [Inl (AdapterThrottled ''budget'')] [Inr 80]" 80
      "env_venue (pe_env [Inl (AdapterThrottled ''budget'')] [])" STOP_LOSS MARKET 90 "''budget''"
      "env_venue (pe_env [] [])" "[id, id]"]
  by (force simp: demo_live_defs script_defs pe_eval_defs Let_def exit_side_def)

text \<open>
  A finding: stopping forgets a partly filled entry. Stopping is meant to confirm that
  the entry order left the book and to flatten what it filled. An entry last seen partially
  filled is neither cancelled nor polled: the executor terminates with the requested close
  type, without a single venue call, while the order may still rest and the filled part
  stays open.
\<close>

theorem position_stop_forgets_partial_entry:
  assumes "ex_state x = ACTIVE" "pe_state x = P_OPENING" "pe_entry x = Some e0"
    and "o_state e0 = O_PARTIALLY_FILLED"
  shows "\<exists>x'. pe_on_stop api ct (x, e) = (Inr (), (x', e)) \<and> ex_state x' = TERMINATED
     \<and> ex_close x' = Some ct \<and> pe_entry x' = Some e0 \<and> pe_close x' = pe_close x
     \<and> pe_entry_base x' = pe_entry_base x"
proof -
  have "wp (pe_on_stop api ct) (\<lambda>_ s. snd s = e \<and> ex_state (fst s) = TERMINATED
     \<and> ex_close (fst s) = Some ct \<and> pe_entry (fst s) = Some e0 \<and> pe_close (fst s) = pe_close x
     \<and> pe_entry_base (fst s) = pe_entry_base x) (\<lambda>_ _. False) (x, e)"
    using assms by (simp add: pe_on_stop_def pe_stop_opening_def is_terminated_def terminated_def)
  from wp_total [OF this] show ?thesis by auto
qed

theorem position_stop_forgets_partial_entry_witness:
  "\<exists>x'. pe_on_stop script_api EARLY_STOP
       (demo_pe\<lparr>pe_entry := Some (pe_order ''n'' O_PARTIALLY_FILLED 4 100)\<rparr>, demo_env)
     = (Inr (), (x', demo_env)) \<and> ex_state x' = TERMINATED"
  using position_stop_forgets_partial_entry [of
      "demo_pe\<lparr>pe_entry := Some (pe_order ''n'' O_PARTIALLY_FILLED 4 100)\<rparr>"
      "pe_order ''n'' O_PARTIALLY_FILLED 4 100" script_api EARLY_STOP demo_env]
  by (auto simp: demo_pe_defs pe_order_def)

text \<open>
  A finding: a second reduction is not booked. The exit watermark is shared by every
  closing order, but each order counts its own fills from zero. A reduction that fills
  completely for no more than what earlier exits already filled is reported as zero, leaves
  the executor's exit total where it was and writes no trade row, although the venue sold it.
\<close>

theorem position_second_reduce_unbooked:
  assumes "pe_state x = P_ACTIVE" and "0 < amt" "amt \<le> pe_entry_base x - pe_exit_base x"
    and place: "va_place api (ex_pair x) (exit_side x) MARKET amt None
        (oc_leverage (pc_order (pe_config x))) True (env_venue e) = (Inr ord, v')"
    and "o_filled_base ord = amt" and "amt \<le> pe_x_base x"
  shows "pe_reduce_position api amt (x, e) = (Inr 0, (x, e\<lparr>env_venue := v'\<rparr>))"
  by (rule run_InrI)
    (use assms in \<open>simp add: pe_reduce_position_def Let_def pe_place_exit_def
      wp_guard_Inr pe_ingest_exit_def min_absorb1\<close>)

theorem position_second_reduce_unbooked_witness:
  "pe_reduce_position script_api 3
     (demo_live\<lparr>pe_exit_base := 4, pe_x_base := 4\<rparr>, pe_env [Inr (pe_order ''r'' O_FILLED 3 100)] [])
   = (Inr 0, (demo_live\<lparr>pe_exit_base := 4, pe_x_base := 4\<rparr>, pe_env [] []))"
  using position_second_reduce_unbooked [of "demo_live\<lparr>pe_exit_base := 4, pe_x_base := 4\<rparr>" 3 script_api
      "pe_env [Inr (pe_order ''r'' O_FILLED 3 100)] []" "pe_order ''r'' O_FILLED 3 100"
      "env_venue (pe_env [] [])"]
  by (simp add: demo_live_defs script_defs exit_side_def pe_side_def Let_def)

end
