(* ===== verification/Dca_Executor.thy ===== *)
theory Dca_Executor
  imports Order_Executor
begin

text \<open>
  The DCA executor, from \<open>engine/executors/dca_executor.py\<close>: a ladder of entry rungs,
  barriers against the running weighted-average entry, and one market close.

  The mutable \<open>DCARung\<close> objects are a list of records addressed by index; each \<open>dca_\<close>
  program is the method of that name. A division by a zero average is an exception, as it is
  in \<open>decimal\<close>.
\<close>

datatype dca_mode = D_MAKER | D_TAKER

datatype dca_phase = D_ACCUMULATING | D_CLOSING | D_TERMINATED

record dca_rung =
  dr_price :: dec
  dr_quote :: dec
  dr_base :: dec
  dr_order :: "string option"
  dr_placed :: bool
  dr_filled :: bool
  dr_rec :: dec
  dr_rec_quote :: dec
  dr_rec_fee :: dec

record dca_config =
  dc_pair :: string
  dc_amounts :: "dec list"
  dc_prices :: "dec list"
  dc_side :: trade_type
  dc_take_profit :: "dec option"
  dc_stop_loss :: "dec option"
  dc_time_limit :: "int option"
  dc_mode :: dca_mode
  dc_trailing :: "trailing_stop option"
  dc_leverage :: int
  dc_keep :: bool

definition check_dca_config :: "dca_config \<Rightarrow> exc + dca_config" where
  "check_dca_config c =
     (if length (dc_amounts c) \<noteq> length (dc_prices c)
      then Inl (ValueError ''amounts_quote and prices must have equal length'')
      else if dc_prices c = [] then Inl (ValueError ''DCA needs at least one rung'')
      else Inr c)"

record dca_exec = exec_base +
  dca_config :: dca_config
  dca_rungs :: "dca_rung list"
  dca_phase :: dca_phase
  dca_base :: dec
  dca_quote :: dec
  dca_exit_quote :: dec
  dca_opened_at :: time
  dca_max :: "dec option"
  dca_min :: "dec option"
  dca_armed :: bool
  dca_trail :: "dec option"
  dca_close :: "nado_order option"
  dca_close_rec :: dec
  dca_close_quote :: dec
  dca_close_fee :: dec
  dca_pending :: "close_type option"

type_synonym ('v, 'x) dca_st = "'x dca_exec_scheme \<times> 'v env"

definition mk_rung :: "dec \<Rightarrow> dec \<Rightarrow> dca_rung" where
  "mk_rung p q = \<lparr>dr_price = p, dr_quote = q, dr_base = q / p, dr_order = None, dr_placed = False,
     dr_filled = False, dr_rec = 0, dr_rec_quote = 0, dr_rec_fee = 0\<rparr>"

definition mk_dca_exec :: "string \<Rightarrow> int \<Rightarrow> string \<Rightarrow> bool \<Rightarrow> dca_config \<Rightarrow> time \<Rightarrow> exc + dca_exec" where
  "mk_dca_exec xid user cid has_inv c t =
     (if 0 \<in> set (take (length (dc_amounts c)) (dc_prices c)) then Inl (OtherError ''DivisionByZero'')
      else Inr (exec_base.extend
        (mk_exec_base xid user cid (dc_pair c) (dc_keep c) has_inv
           \<lparr>cv_crosses = False, cv_strategy = None, cv_leverages = [Some (of_int (dc_leverage c))]\<rparr> t)
        (dca_exec.fields c (map (\<lambda>(p, q). mk_rung p q) (zip (dc_prices c) (dc_amounts c)))
           D_ACCUMULATING 0 0 0 t None None False None None 0 0 0 None)))"

definition dca_long :: "'x dca_exec_scheme \<Rightarrow> bool" where
  "dca_long x \<longleftrightarrow> dc_side (dca_config x) = BUY"

definition dca_close_side :: "'x dca_exec_scheme \<Rightarrow> trade_type" where
  "dca_close_side x = opposite (dc_side (dca_config x))"

definition dca_wae :: "'x dca_exec_scheme \<Rightarrow> dec option" where
  "dca_wae x = (if dca_base x > 0 then Some (dca_quote x / dca_base x) else None)"

definition set_rung :: "nat \<Rightarrow> (dca_rung \<Rightarrow> dca_rung) \<Rightarrow> 'x dca_exec_scheme \<Rightarrow> 'x dca_exec_scheme" where
  "set_rung i f x = x\<lparr>dca_rungs := (dca_rungs x)[i := f (dca_rungs x ! i)]\<rparr>"

subsection \<open>Placement and ingestion\<close>

definition dca_ingest_rung :: "'v venue_api \<Rightarrow> nat \<Rightarrow> nado_order \<Rightarrow> (('v, 'x) dca_st, unit) prog" where
  "dca_ingest_rung api i ord = bindP me (\<lambda>x.
     let r = dca_rungs x ! i in
     if o_filled_base ord - dr_rec r \<le> 0 then ret ()
     else bindP (clock api) (\<lambda>t.
       let f = delta_fill ord (ex_pair x) (dc_side (dca_config x)) (dr_rec r) (dr_rec_quote r)
                 (dr_rec_fee r) t in
       thenP (record_fill api f ord None)
         (upd (\<lambda>x. set_rung i (\<lambda>r. r\<lparr>dr_rec := o_filled_base ord, dr_rec_quote := o_filled_quote ord,
               dr_rec_fee := o_fee ord, dr_filled := dr_filled r \<or> o_state ord = O_FILLED\<rparr>)
            (x\<lparr>dca_base := dca_base x + (o_filled_base ord - dr_rec r),
               dca_quote := dca_quote x + (o_filled_quote ord - dr_rec_quote r)\<rparr>)))))"

definition dca_place_maker :: "'v venue_api \<Rightarrow> nat \<Rightarrow> (('v, 'x) dca_st, string) prog" where
  "dca_place_maker api i = bindP me (\<lambda>x.
     let c = dca_config x; r = dca_rungs x ! i in
     bindP (guard api ''dca_maker''
        (va_place api (ex_pair x) (dc_side c) LIMIT (dr_base r) (Some (dr_price r)) (dc_leverage c) False))
       (\<lambda>ord. thenP (upd (set_rung i (\<lambda>r. r\<lparr>dr_order := Some (o_id ord), dr_placed := True\<rparr>)))
          (ret (o_id ord))))"

definition dca_take_rung :: "'v venue_api \<Rightarrow> nat \<Rightarrow> (('v, 'x) dca_st, unit) prog" where
  "dca_take_rung api i = bindP me (\<lambda>x.
     let c = dca_config x; r = dca_rungs x ! i in
     bindP (guard api ''dca_taker''
        (va_place api (ex_pair x) (dc_side c) MARKET (dr_base r) None (dc_leverage c) False))
       (\<lambda>ord. thenP (upd (set_rung i (\<lambda>r. r\<lparr>dr_order := Some (o_id ord), dr_placed := True\<rparr>)))
          (dca_ingest_rung api i ord)))"

text \<open>
  The maker ladder: rungs are placed in order; when one fails, those already placed are
  cancelled, each cancel's own failure swallowed, and the failure is raised again.
\<close>

definition dca_rollback :: "'v venue_api \<Rightarrow> string list \<Rightarrow> (('v, 'x) dca_st, unit) prog" where
  "dca_rollback api ids = forP ids (\<lambda>oid.
     tryP (thenP (guard api ''dca_rollback_cancel'' (va_cancel api oid)) (ret ())) (\<lambda>_. ret ()))"

fun dca_place_ladder :: "'v venue_api \<Rightarrow> nat list \<Rightarrow> string list \<Rightarrow> (('v, 'x) dca_st, unit) prog" where
  "dca_place_ladder api [] ids = ret ()"
| "dca_place_ladder api (i # is) ids =
     bindP (tryP (dca_place_maker api i) (\<lambda>c. thenP (dca_rollback api ids) (raise c)))
       (\<lambda>oid. dca_place_ladder api is (ids @ [oid]))"

definition dca_on_create :: "'v venue_api \<Rightarrow> (('v, 'x) dca_st, unit) prog" where
  "dca_on_create api = thenP activate (bindP me (\<lambda>x.
     whenP (dc_mode (dca_config x) = D_MAKER)
       (dca_place_ladder api [0..<length (dca_rungs x)] [])))"

subsection \<open>Barriers\<close>

text \<open>
  \<open>_update_trailing\<close>, with the division by a zero average as an exception after the
  extreme has moved.
\<close>

definition dca_update_trailing ::
  "dec \<Rightarrow> dec \<Rightarrow> trailing_stop \<Rightarrow> 'x dca_exec_scheme \<Rightarrow> (exc + unit) \<times> 'x dca_exec_scheme" where
  "dca_update_trailing mid wae ts x =
     (let m = (if dca_long x then max (or_dec (dca_max x) mid) mid
               else min (or_dec (dca_min x) mid) mid);
          y = (if dca_long x then x\<lparr>dca_max := Some m\<rparr> else x\<lparr>dca_min := Some m\<rparr>) in
      if \<not> dca_armed x \<and> wae = 0 then (Inl (OtherError ''DivisionByZero''), y)
      else
        let gain = (if dca_long x then (mid - wae) / wae else (wae - mid) / wae);
            armed = (dca_armed x \<or> gain \<ge> activation_price ts);
            level = (if dca_long x then m * (1 - trailing_delta ts) else m * (1 + trailing_delta ts))
        in (Inr (), y\<lparr>dca_armed := armed, dca_trail := (if armed then Some level else dca_trail x)\<rparr>))"

definition dca_evaluate ::
  "dec \<Rightarrow> time \<Rightarrow> 'x dca_exec_scheme \<Rightarrow> (exc + close_type option) \<times> 'x dca_exec_scheme" where
  "dca_evaluate mid now x = (case dca_wae x of
     None \<Rightarrow> (Inr None, x)
   | Some wae \<Rightarrow>
      (let c = dca_config x; long = dca_long x;
           profit = (case dc_take_profit c of None \<Rightarrow> None
             | Some tp \<Rightarrow> if long \<and> mid \<ge> wae * (1 + tp) \<or> \<not> long \<and> mid \<le> wae * (1 - tp)
                         then Some TAKE_PROFIT else None) in
       if (case dc_time_limit c of None \<Rightarrow> False | Some n \<Rightarrow> now - dca_opened_at x \<ge> of_int n)
       then (Inr (Some TIME_LIMIT), x)
       else if (case dc_stop_loss c of None \<Rightarrow> False
                | Some sl \<Rightarrow> long \<and> mid \<le> wae * (1 - sl) \<or> \<not> long \<and> mid \<ge> wae * (1 + sl))
       then (Inr (Some STOP_LOSS), x)
       else (case dc_trailing c of
           None \<Rightarrow> (Inr profit, x)
         | Some ts \<Rightarrow> (case dca_update_trailing mid wae ts x of
             (Inl err, y) \<Rightarrow> (Inl err, y)
           | (Inr _, y) \<Rightarrow>
              (if dca_armed y \<and> (case dca_trail y of None \<Rightarrow> False
                    | Some l \<Rightarrow> long \<and> mid \<le> l \<or> \<not> long \<and> mid \<ge> l)
               then (Inr (Some TRAILING_STOP), y)
               else (Inr profit, y))))))"

definition dca_barriers :: "'v venue_api \<Rightarrow> dec \<Rightarrow> (('v, 'x) dca_st, close_type option) prog" where
  "dca_barriers api mid = bindP (clock api) (\<lambda>now. bindP me (\<lambda>x0.
     thenP (upd (\<lambda>x. snd (dca_evaluate mid now x)))
       (case fst (dca_evaluate mid now x0) of Inl c \<Rightarrow> raise c | Inr h \<Rightarrow> ret h)))"

subsection \<open>Closing\<close>

definition dca_finalized :: "close_type \<Rightarrow> time \<Rightarrow> 'x dca_exec_scheme \<Rightarrow> 'x dca_exec_scheme" where
  "dca_finalized ct t x =
     (let avg = (if dca_base x > 0 then dca_quote x / dca_base x else 0);
          gross = (if dca_long x then dca_exit_quote x - avg * dca_close_rec x
                   else avg * dca_close_rec x - dca_exit_quote x)
      in terminated ct t (x\<lparr>ex_net_pnl := gross - ex_fees x, dca_phase := D_TERMINATED\<rparr>))"

definition dca_finalize :: "'v venue_api \<Rightarrow> (('v, 'x) dca_st, unit) prog" where
  "dca_finalize api = bindP (clock api) (\<lambda>t. upd (\<lambda>x.
     dca_finalized (case dca_pending x of None \<Rightarrow> COMPLETED | Some ct \<Rightarrow> ct) t x))"

definition dca_ingest_close :: "'v venue_api \<Rightarrow> nado_order \<Rightarrow> (('v, 'x) dca_st, unit) prog" where
  "dca_ingest_close api ord = bindP me (\<lambda>x.
     if o_filled_base ord - dca_close_rec x \<le> 0 then ret ()
     else bindP (clock api) (\<lambda>t.
       let f = delta_fill ord (ex_pair x) (dca_close_side x) (dca_close_rec x) (dca_close_quote x)
                 (dca_close_fee x) t in
       thenP (record_fill api f ord None)
         (upd (\<lambda>x. x\<lparr>dca_exit_quote := dca_exit_quote x + (o_filled_quote ord - dca_close_quote x),
            dca_close_rec := o_filled_base ord, dca_close_quote := o_filled_quote ord,
            dca_close_fee := o_fee ord\<rparr>))))"

definition dca_cancel_open_rungs :: "'v venue_api \<Rightarrow> (('v, 'x) dca_st, unit) prog" where
  "dca_cancel_open_rungs api = bindP me (\<lambda>x0. forP [0..<length (dca_rungs x0)] (\<lambda>i.
     bindP me (\<lambda>x. let r = dca_rungs x ! i in
       case dr_order r of
         None \<Rightarrow> ret ()
       | Some oid \<Rightarrow> whenP (dr_placed r \<and> \<not> dr_filled r)
          (thenP
            (tryP (bindP (guard api ''dca_pre_cancel_status'' (va_status api oid))
               (dca_ingest_rung api i)) (\<lambda>_. ret ()))
            (tryP (thenP (guard api ''dca_cancel'' (va_cancel api oid)) (ret ())) (\<lambda>_. ret ()))))))"

definition dca_open_close :: "'v venue_api \<Rightarrow> (('v, 'x) dca_st, unit) prog" where
  "dca_open_close api = thenP (upd (\<lambda>x. x\<lparr>dca_phase := D_CLOSING\<rparr>)) (bindP me (\<lambda>x0.
     if dca_base x0 \<le> 0 then dca_finalize api
     else thenP (dca_cancel_open_rungs api) (bindP me (\<lambda>x.
       bindP (guard api ''dca_close''
          (va_place api (ex_pair x) (dca_close_side x) MARKET (dca_base x) None
             (dc_leverage (dca_config x)) True)) (\<lambda>ord.
       thenP (upd (\<lambda>x. x\<lparr>dca_close := Some ord\<rparr>))
         (thenP (dca_ingest_close api ord)
           (whenP (o_state ord = O_FILLED) (dca_finalize api))))))))"

definition dca_poll_close :: "'v venue_api \<Rightarrow> (('v, 'x) dca_st, unit) prog" where
  "dca_poll_close api = bindP me (\<lambda>x. case dca_close x of
     None \<Rightarrow> ret ()
   | Some c0 \<Rightarrow>
      bindP (guard api ''dca_close_status'' (va_status api (o_id c0))) (\<lambda>ord.
        thenP (upd (\<lambda>x. x\<lparr>dca_close := Some ord\<rparr>))
          (thenP (dca_ingest_close api ord)
            (whenP (o_state ord = O_FILLED) (dca_finalize api)))))"

subsection \<open>Ticking and stopping\<close>

definition dca_poll_rungs :: "'v venue_api \<Rightarrow> (('v, 'x) dca_st, unit) prog" where
  "dca_poll_rungs api = bindP me (\<lambda>x0. forP [0..<length (dca_rungs x0)] (\<lambda>i.
     bindP me (\<lambda>x. let r = dca_rungs x ! i in
       case dr_order r of
         None \<Rightarrow> ret ()
       | Some oid \<Rightarrow> whenP (dr_placed r \<and> \<not> dr_filled r)
          (bindP (guard api ''dca_status'' (va_status api oid)) (dca_ingest_rung api i)))))"

definition dca_fire_rungs :: "'v venue_api \<Rightarrow> dec \<Rightarrow> (('v, 'x) dca_st, unit) prog" where
  "dca_fire_rungs api mid = bindP me (\<lambda>x0. forP [0..<length (dca_rungs x0)] (\<lambda>i.
     bindP me (\<lambda>x. let r = dca_rungs x ! i in
       whenP (\<not> dr_placed r \<and> (dca_long x \<and> mid \<le> dr_price r \<or> \<not> dca_long x \<and> mid \<ge> dr_price r))
         (dca_take_rung api i))))"

definition dca_on_tick :: "'v venue_api \<Rightarrow> (('v, 'x) dca_st, unit) prog" where
  "dca_on_tick api = bindP me (\<lambda>x.
     if is_terminated x then ret ()
     else if dca_phase x = D_CLOSING then dca_poll_close api
     else bindP (guard api ''dca_mid'' (va_mid api (ex_pair x))) (\<lambda>mid. seqP
       [if dc_mode (dca_config x) = D_MAKER then dca_poll_rungs api else dca_fire_rungs api mid,
        bindP (dca_barriers api mid) (\<lambda>hit. case hit of
            None \<Rightarrow> ret ()
          | Some ct \<Rightarrow> thenP (upd (\<lambda>x. x\<lparr>dca_pending := Some ct\<rparr>)) (dca_open_close api))]))"

definition dca_on_stop :: "'v venue_api \<Rightarrow> close_type \<Rightarrow> (('v, 'x) dca_st, unit) prog" where
  "dca_on_stop api ct = bindP me (\<lambda>x.
     if is_terminated x then ret ()
     else thenP (upd (\<lambda>x. if dca_pending x = None then x\<lparr>dca_pending := Some ct\<rparr> else x))
       (if dc_keep (dca_config x)
        then seqP [dca_cancel_open_rungs api, upd (\<lambda>x. x\<lparr>dca_phase := D_TERMINATED\<rparr>), terminate api ct]
        else if dca_phase x = D_CLOSING \<and> dca_close x \<noteq> None then dca_poll_close api
        else dca_open_close api))"

subsection \<open>Events and runs\<close>

datatype 'v dca_event = DCA_Create | DCA_Tick | DCA_Stop close_type | DCA_World "'v \<Rightarrow> 'v"

fun dca_handle :: "'v venue_api \<Rightarrow> 'v dca_event \<Rightarrow> (('v, 'x) dca_st, unit) prog" where
  "dca_handle api DCA_Create = dca_on_create api"
| "dca_handle api DCA_Tick = dca_on_tick api"
| "dca_handle api (DCA_Stop ct) = dca_on_stop api ct"
| "dca_handle api (DCA_World w) = modifyP (\<lambda>(x, e). (x, e\<lparr>env_venue := w (env_venue e)\<rparr>))"

definition dca_run :: "'v venue_api \<Rightarrow> 'v dca_event list \<Rightarrow> ('v, 'x) dca_st \<Rightarrow> ('v, 'x) dca_st" where
  "dca_run api evs s = foldl (\<lambda>s ev. snd (dca_handle api ev s)) s evs"

text \<open>
  \<open>dca_same\<close>: a state change that leaves the ledger part alone, the watermarks of the
  rungs included.
\<close>

definition dca_same :: "'x dca_exec_scheme \<Rightarrow> 'x dca_exec_scheme \<Rightarrow> bool" where
  "dca_same x y \<longleftrightarrow> ex_has_recorder y = ex_has_recorder x \<and> ex_has_inventory y = ex_has_inventory x
     \<and> ex_key y = ex_key x \<and> dca_config y = dca_config x
     \<and> map dr_rec (dca_rungs y) = map dr_rec (dca_rungs x)
     \<and> map dr_rec_quote (dca_rungs y) = map dr_rec_quote (dca_rungs x)
     \<and> map dr_rec_fee (dca_rungs y) = map dr_rec_fee (dca_rungs x)
     \<and> dca_base y = dca_base x \<and> dca_quote y = dca_quote x \<and> dca_exit_quote y = dca_exit_quote x
     \<and> dca_close_rec y = dca_close_rec x \<and> dca_close_quote y = dca_close_quote x
     \<and> dca_close_fee y = dca_close_fee x"

lemma dca_fields [simp]:
  "dca_config (terminated ct t x) = dca_config x" "dca_config (activated x) = dca_config x"
  "dca_config (charged f x) = dca_config x" "dca_rungs (charged f x) = dca_rungs x"
  "dca_rungs (terminated ct t x) = dca_rungs x" "dca_rungs (activated x) = dca_rungs x"
  "dca_base (charged f x) = dca_base x" "dca_quote (charged f x) = dca_quote x"
  "dca_base (terminated ct t x) = dca_base x" "dca_quote (terminated ct t x) = dca_quote x"
  "dca_phase (terminated ct t x) = dca_phase x" "dca_close (terminated ct t x) = dca_close x"
  "dca_exit_quote (charged f x) = dca_exit_quote x" "dca_close_rec (charged f x) = dca_close_rec x"
  "dca_close_quote (charged f x) = dca_close_quote x" "dca_close_fee (charged f x) = dca_close_fee x"
  by (simp_all add: terminated_def activated_def charged_def)

lemma map_update_id: "g r = g (xs ! i) \<Longrightarrow> map g (xs[i := r]) = map g xs"
  by (cases "i < length xs") (auto intro!: nth_equalityI simp: nth_list_update)

lemma dca_same_upd [simp]:
  "dca_same x x" "dca_same x (x\<lparr>ex_retries := n\<rparr>)" "dca_same x (x\<lparr>dca_phase := ph\<rparr>)"
  "dca_same x (x\<lparr>dca_close := c\<rparr>)" "dca_same x (x\<lparr>dca_pending := pc\<rparr>)"
  "dca_same x (terminated ct t x)" "dca_same x (activated x)" "dca_same x (dca_finalized ct t x)"
  "dca_same x (snd (dca_evaluate mid t x))" "dca_same x (charged f x)"
  by (auto simp: dca_same_def ex_key_def terminated_def activated_def dca_finalized_def dca_evaluate_def
      dca_update_trailing_def charged_def Let_def split: option.split prod.split sum.split)

lemma dca_same_order [simp]:
  "dca_same x (set_rung i (\<lambda>r. r\<lparr>dr_order := oid, dr_placed := b\<rparr>) x)"
  by (simp add: dca_same_def set_rung_def ex_key_def map_update_id)

definition dca_stable :: "(('v, 'x) dca_st \<Rightarrow> bool) \<Rightarrow> bool" where
  "dca_stable I \<longleftrightarrow> (\<forall>x e y e'. I (x, e) \<longrightarrow> dca_same x y \<longrightarrow> env_trades e' = env_trades e
     \<longrightarrow> env_inv e' = env_inv e \<longrightarrow> I (y, e'))"

lemma dca_stableD:
  "dca_stable I \<Longrightarrow> I (x, e) \<Longrightarrow> dca_same x y \<Longrightarrow> env_trades e' = env_trades e
   \<Longrightarrow> env_inv e' = env_inv e \<Longrightarrow> I (y, e')"
  unfolding dca_stable_def by blast

lemma dca_keeps_upd: "dca_stable I \<Longrightarrow> (\<And>x. dca_same x (f x)) \<Longrightarrow> keeps I (upd f)"
  by (rule keeps_upd) (auto elim: dca_stableD)

lemma dca_handle_keeps:
  fixes api :: "'v venue_api" and I :: "('v, 'x) dca_st \<Rightarrow> bool"
  assumes st: "dca_stable I" and len: "\<And>x e. I (x, e) \<Longrightarrow> length (dca_rungs x) = n"
    and rung: "\<And>i ord. i < n \<Longrightarrow> keeps I (dca_ingest_rung api i ord)"
    and clo: "\<And>ord. keeps I (dca_ingest_close api ord)"
  shows "keeps I (dca_handle api ev)"
proof -
  have g: "keeps I (guard api label op)" for label and op :: "('v, 'c) prog"
    by (rule keeps_guard; erule dca_stableD [OF st]) simp_all
  have tm: "keeps I (terminate api ct)" for ct
    by (rule keeps_terminate; erule dca_stableD [OF st]) simp_all
  have ac: "keeps I activate"
    by (rule keeps_activate; erule dca_stableD [OF st]) simp_all
  note u = dca_keeps_upd [OF st]
  note k = keeps_bind keeps_ret keeps_raise keeps_when keeps_if keeps_try keeps_option keeps_clock keeps_me
  have place: "keeps I (dca_place_maker api i)" for i
    unfolding dca_place_maker_def Let_def by (intro k u g) simp
  have take: "i < n \<Longrightarrow> keeps I (dca_take_rung api i)" for i
    unfolding dca_take_rung_def Let_def by (intro k u g rung) simp_all
  have roll: "keeps I (dca_rollback api ids)" for ids
    unfolding dca_rollback_def by (intro keeps_for k g)
  have ladder: "keeps I (dca_place_ladder api is ids)" for "is" ids
    by (induction "is" arbitrary: ids) (auto intro!: k place roll)
  have create: "keeps I (dca_on_create api)"
    unfolding dca_on_create_def by (intro k ac ladder)
  have fin: "keeps I (dca_finalize api)"
    unfolding dca_finalize_def by (intro k u) simp
  have cancel: "keeps I (dca_cancel_open_rungs api)"
    unfolding dca_cancel_open_rungs_def Let_def
    by (intro keeps_me_bind keeps_for k g rung) (auto dest: len)
  have poll: "keeps I (dca_poll_rungs api)"
    unfolding dca_poll_rungs_def Let_def
    by (intro keeps_me_bind keeps_for k g rung) (auto dest: len)
  have fire: "keeps I (dca_fire_rungs api mid)" for mid
    unfolding dca_fire_rungs_def Let_def
    by (intro keeps_me_bind keeps_for k take) (auto dest: len)
  have opn: "keeps I (dca_open_close api)"
    unfolding dca_open_close_def by (intro k u g fin cancel clo) simp_all
  have pollc: "keeps I (dca_poll_close api)"
    unfolding dca_poll_close_def by (intro k u g fin clo) simp_all
  have res: "keeps I (case r of Inl c \<Rightarrow> raise c | Inr h \<Rightarrow> ret h)" for r :: "exc + close_type option"
    by (cases r) (simp_all add: keeps_raise keeps_ret)
  have bar: "keeps I (dca_barriers api mid)" for mid
    unfolding dca_barriers_def by (intro k u res) simp
  have tick: "keeps I (dca_on_tick api)"
    unfolding dca_on_tick_def by (intro k keeps_seq u g pollc poll fire bar opn) simp_all
  have stop: "keeps I (dca_on_stop api ct)" for ct
    unfolding dca_on_stop_def by (intro k keeps_seq u cancel tm pollc opn) simp_all
  show ?thesis
    using create tick stop
    by (cases ev) (auto intro!: keeps_world elim: dca_stableD [OF st])
qed

lemma dca_run_invariant:
  assumes "dca_stable I" and "\<And>x e. I (x, e) \<Longrightarrow> length (dca_rungs x) = n"
    and "\<And>i ord. i < n \<Longrightarrow> keeps I (dca_ingest_rung api i ord)"
    and "\<And>ord. keeps I (dca_ingest_close api ord)" and "I s"
  shows "I (dca_run api evs s)"
  using assms(5)
proof (induction evs arbitrary: s)
  case (Cons ev evs)
  have "I (snd (dca_handle api ev s))"
    by (rule keeps_snd [OF dca_handle_keeps [OF assms(1) _ assms(3,4)] Cons.prems]) (rule assms(2))
  from Cons.IH [OF this] show ?case by (simp add: dca_run_def)
qed (simp add: dca_run_def)

subsection \<open>The books of a ladder\<close>

definition dca_books :: "nat \<Rightarrow> trade_row list \<Rightarrow> inventory \<Rightarrow> ('v, 'x) dca_st \<Rightarrow> bool" where
  "dca_books n tr0 iv0 s \<longleftrightarrow> (case s of (x, e) \<Rightarrow> \<exists>rows. ledger tr0 iv0 rows (x, e)
     \<and> length (dca_rungs x) = n
     \<and> side_sum (dc_side (dca_config x)) t_base rows = dca_base x
     \<and> side_sum (dc_side (dca_config x)) t_quote rows = dca_quote x
     \<and> side_sum (dca_close_side x) t_base rows = dca_close_rec x
     \<and> side_sum (dca_close_side x) t_quote rows = dca_exit_quote x
     \<and> dca_exit_quote x = dca_close_quote x
     \<and> sum_list (map dr_rec (dca_rungs x)) = dca_base x
     \<and> sum_list (map dr_rec_quote (dca_rungs x)) = dca_quote x
     \<and> sum_list (map t_fee rows) = sum_list (map dr_rec_fee (dca_rungs x)) + dca_close_fee x)"

lemma dca_booksE:
  assumes "dca_books n tr0 iv0 (x, e)"
  obtains rows where "ledger tr0 iv0 rows (x, e)" "length (dca_rungs x) = n"
    "side_sum (dc_side (dca_config x)) t_base rows = dca_base x"
    "side_sum (dc_side (dca_config x)) t_quote rows = dca_quote x"
    "side_sum (dca_close_side x) t_base rows = dca_close_rec x"
    "side_sum (dca_close_side x) t_quote rows = dca_exit_quote x" "dca_exit_quote x = dca_close_quote x"
    "sum_list (map dr_rec (dca_rungs x)) = dca_base x"
    "sum_list (map dr_rec_quote (dca_rungs x)) = dca_quote x"
    "sum_list (map t_fee rows) = sum_list (map dr_rec_fee (dca_rungs x)) + dca_close_fee x"
  using assms unfolding dca_books_def prod.case by blast

lemma dca_books_stable: "dca_stable (dca_books n tr0 iv0)"
proof -
  have "dca_books n tr0 iv0 (y, e')" if b: "dca_books n tr0 iv0 (x, e)" and s: "dca_same x y"
    and e: "env_trades e' = env_trades e" "env_inv e' = env_inv e"
    for x y :: "'x dca_exec_scheme" and e e' :: "'v env"
  proof -
    obtain rows where rows: "ledger tr0 iv0 rows (x, e)" "length (dca_rungs x) = n"
      "side_sum (dc_side (dca_config x)) t_base rows = dca_base x"
      "side_sum (dc_side (dca_config x)) t_quote rows = dca_quote x"
      "side_sum (dca_close_side x) t_base rows = dca_close_rec x"
      "side_sum (dca_close_side x) t_quote rows = dca_exit_quote x" "dca_exit_quote x = dca_close_quote x"
      "sum_list (map dr_rec (dca_rungs x)) = dca_base x"
      "sum_list (map dr_rec_quote (dca_rungs x)) = dca_quote x"
      "sum_list (map t_fee rows) = sum_list (map dr_rec_fee (dca_rungs x)) + dca_close_fee x"
      using b by (rule dca_booksE)
    have "ledger tr0 iv0 rows (y, e')"
      by (rule ledger_cong [OF rows(1)]) (use s e in \<open>simp_all add: dca_same_def\<close>)
    moreover have "length (dca_rungs y) = n"
      using s rows(2) unfolding dca_same_def by (metis length_map)
    ultimately show ?thesis
      using rows s unfolding dca_books_def prod.case dca_same_def dca_close_side_def
      by (intro exI [of _ rows]) simp
  qed
  then show ?thesis unfolding dca_stable_def by blast
qed

lemma dca_books_booked:
  assumes "ledger tr0 iv0 rows (x, e)" and "0 < f_base f"
    and "ex_has_recorder y = ex_has_recorder x" "ex_has_inventory y = ex_has_inventory x" "ex_key y = ex_key x"
  shows "ledger tr0 iv0 (rows @ [trade_row_of f p c x]) (y, booked f p c x e)"
  by (rule ledger_cong [OF ledger_booked [OF assms(1,2)]]) (simp_all add: assms)

lemma dca_ingest_rung_books:
  fixes api :: "'v venue_api"
  assumes i: "i < n"
  shows "keeps (dca_books n tr0 iv0 :: ('v, 'x) dca_st \<Rightarrow> bool) (dca_ingest_rung api i ord)"
proof (rule keepsI)
  fix s :: "('v, 'x) dca_st"
  obtain x e where s: "s = (x, e)" by fastforce
  assume inv: "dca_books n tr0 iv0 s"
  then have b: "dca_books n tr0 iv0 (x, e)" by (simp add: s)
  define r where "r = dca_rungs x ! i"
  define f where "f = delta_fill ord (ex_pair x) (dc_side (dca_config x)) (dr_rec r) (dr_rec_quote r)
    (dr_rec_fee r) (va_now api (env_venue e))"
  define y where "y = set_rung i (\<lambda>r. r\<lparr>dr_rec := o_filled_base ord, dr_rec_quote := o_filled_quote ord,
      dr_rec_fee := o_fee ord, dr_filled := dr_filled r \<or> o_state ord = O_FILLED\<rparr>)
    (charged f x\<lparr>dca_base := dca_base x + (o_filled_base ord - dr_rec r),
      dca_quote := dca_quote x + (o_filled_quote ord - dr_rec_quote r)\<rparr>)"
  have yr: "dca_rungs y = (dca_rungs x)[i := r\<lparr>dr_rec := o_filled_base ord,
      dr_rec_quote := o_filled_quote ord, dr_rec_fee := o_fee ord,
      dr_filled := dr_filled r \<or> o_state ord = O_FILLED\<rparr>]"
    by (simp add: y_def set_rung_def r_def)
  have yf: "dca_config y = dca_config x" "dca_base y = dca_base x + (o_filled_base ord - dr_rec r)"
    "dca_quote y = dca_quote x + (o_filled_quote ord - dr_rec_quote r)"
    "dca_close_rec y = dca_close_rec x" "dca_close_quote y = dca_close_quote x"
    "dca_close_fee y = dca_close_fee x" "dca_exit_quote y = dca_exit_quote x"
    "ex_has_recorder y = ex_has_recorder x" "ex_has_inventory y = ex_has_inventory x" "ex_key y = ex_key x"
    by (simp_all add: y_def set_rung_def ex_key_def)
  have step: "dca_books n tr0 iv0 (y, booked f ord None x e)" if pos: "\<not> o_filled_base ord - dr_rec r \<le> 0"
  proof -
    obtain rows where rows: "ledger tr0 iv0 rows (x, e)" "length (dca_rungs x) = n"
      "side_sum (dc_side (dca_config x)) t_base rows = dca_base x"
      "side_sum (dc_side (dca_config x)) t_quote rows = dca_quote x"
      "side_sum (dca_close_side x) t_base rows = dca_close_rec x"
      "side_sum (dca_close_side x) t_quote rows = dca_exit_quote x" "dca_exit_quote x = dca_close_quote x"
      "sum_list (map dr_rec (dca_rungs x)) = dca_base x"
      "sum_list (map dr_rec_quote (dca_rungs x)) = dca_quote x"
      "sum_list (map t_fee rows) = sum_list (map dr_rec_fee (dca_rungs x)) + dca_close_fee x"
      using b by (rule dca_booksE)
    have "ledger tr0 iv0 (rows @ [trade_row_of f ord None x]) (y, booked f ord None x e)"
      by (rule dca_books_booked [OF rows(1)]) (use pos in \<open>simp_all add: f_def yf\<close>)
    then show ?thesis
      using rows pos i unfolding dca_books_def prod.case
      by (intro exI [of _ "rows @ [trade_row_of f ord None x]"])
        (simp add: yf yr dca_close_side_def f_def delta_fill_quote sum_list_update_map r_def)
  qed
  have "dca_books n tr0 iv0 (charged f x, e)"
    by (rule dca_stableD [OF dca_books_stable b]) simp_all
  with b step show "wp (dca_ingest_rung api i ord) (\<lambda>_. dca_books n tr0 iv0) (\<lambda>_. dca_books n tr0 iv0) s"
    by (auto simp: dca_ingest_rung_def s Let_def f_def [symmetric] r_def [symmetric] y_def)
qed

lemma dca_ingest_close_books:
  fixes api :: "'v venue_api"
  shows "keeps (dca_books n tr0 iv0 :: ('v, 'x) dca_st \<Rightarrow> bool) (dca_ingest_close api ord)"
proof (rule keepsI)
  fix s :: "('v, 'x) dca_st"
  obtain x e where s: "s = (x, e)" by fastforce
  assume inv: "dca_books n tr0 iv0 s"
  then have b: "dca_books n tr0 iv0 (x, e)" by (simp add: s)
  define f where "f = delta_fill ord (ex_pair x) (dca_close_side x) (dca_close_rec x) (dca_close_quote x)
    (dca_close_fee x) (va_now api (env_venue e))"
  have step: "dca_books n tr0 iv0 (charged f x\<lparr>dca_exit_quote := dca_exit_quote x
        + (o_filled_quote ord - dca_close_quote x), dca_close_rec := o_filled_base ord,
      dca_close_quote := o_filled_quote ord, dca_close_fee := o_fee ord\<rparr>, booked f ord None x e)"
    (is "dca_books n tr0 iv0 (?y, _)") if pos: "\<not> o_filled_base ord - dca_close_rec x \<le> 0"
  proof -
    obtain rows where rows: "ledger tr0 iv0 rows (x, e)" "length (dca_rungs x) = n"
      "side_sum (dc_side (dca_config x)) t_base rows = dca_base x"
      "side_sum (dc_side (dca_config x)) t_quote rows = dca_quote x"
      "side_sum (dca_close_side x) t_base rows = dca_close_rec x"
      "side_sum (dca_close_side x) t_quote rows = dca_exit_quote x" "dca_exit_quote x = dca_close_quote x"
      "sum_list (map dr_rec (dca_rungs x)) = dca_base x"
      "sum_list (map dr_rec_quote (dca_rungs x)) = dca_quote x"
      "sum_list (map t_fee rows) = sum_list (map dr_rec_fee (dca_rungs x)) + dca_close_fee x"
      using b by (rule dca_booksE)
    have "ledger tr0 iv0 (rows @ [trade_row_of f ord None x]) (?y, booked f ord None x e)"
      by (rule dca_books_booked [OF rows(1)]) (use pos in \<open>simp_all add: f_def ex_key_def\<close>)
    then show ?thesis
      using rows pos unfolding dca_books_def prod.case
      by (intro exI [of _ "rows @ [trade_row_of f ord None x]"])
        (simp add: dca_close_side_def f_def delta_fill_quote)
  qed
  have "dca_books n tr0 iv0 (charged f x, e)"
    by (rule dca_stableD [OF dca_books_stable b]) simp_all
  with b step show "wp (dca_ingest_close api ord) (\<lambda>_. dca_books n tr0 iv0) (\<lambda>_. dca_books n tr0 iv0) s"
    by (auto simp: dca_ingest_close_def s Let_def f_def [symmetric])
qed

text \<open>
  A law: the books of a DCA ladder. For any venue and any interleaving of calls, the
  entry rows reported add up to the base and quote from which the running weighted-average
  entry is computed, and these are the sums of the rungs' own watermarks; the exit rows add
  up to the closed base and exit value of the PnL; fees likewise; and only the hold of the
  executor's key has moved, by exactly those rows.
\<close>

theorem dca_books_once:
  assumes "mk_dca_exec xid u cid True c t = Inr x0"
  shows "\<exists>rows. ledger (env_trades e) (env_inv e) rows (dca_run api evs (x0\<lparr>ex_has_recorder := True\<rparr>, e))
   \<and> (let x = fst (dca_run api evs (x0\<lparr>ex_has_recorder := True\<rparr>, e)) in
        side_sum (dc_side (dca_config x)) t_base rows = dca_base x
      \<and> side_sum (dc_side (dca_config x)) t_quote rows = dca_quote x
      \<and> side_sum (dca_close_side x) t_base rows = dca_close_rec x
      \<and> side_sum (dca_close_side x) t_quote rows = dca_exit_quote x
      \<and> sum_list (map dr_rec (dca_rungs x)) = dca_base x
      \<and> sum_list (map t_fee rows) = sum_list (map dr_rec_fee (dca_rungs x)) + dca_close_fee x)"
proof -
  let ?x = "x0\<lparr>ex_has_recorder := True\<rparr>"
  let ?n = "length (dca_rungs x0)"
  have zero: "sum_list (map (g \<circ> (\<lambda>(p, q). mk_rung p q)) ps) = 0"
    if "\<And>p q. g (mk_rung p q) = (0 :: rat)" for g ps
    by (induction ps) (auto simp: that)
  have fresh: "dr_rec (mk_rung p q) = 0" "dr_rec_quote (mk_rung p q) = 0" "dr_rec_fee (mk_rung p q) = 0"
    for p q by (simp_all add: mk_rung_def)
  have "dca_books ?n (env_trades e) (env_inv e) (?x, e)"
    unfolding dca_books_def prod.case using assms
    by (intro exI [of _ "[]"])
      (auto simp: ledger_init mk_dca_exec_def mk_exec_base_def exec_base.defs dca_exec.defs
        zero fresh split: if_splits)
  then have "dca_books ?n (env_trades e) (env_inv e) (dca_run api evs (?x, e))"
    by (intro dca_run_invariant [OF dca_books_stable _ dca_ingest_rung_books dca_ingest_close_books])
      (auto simp: dca_books_def)
  then show ?thesis
    by (cases "dca_run api evs (?x, e)") (auto simp: Let_def elim!: dca_booksE)
qed

definition demo_dca_config :: dca_config where
  "demo_dca_config = \<lparr>dc_pair = ''BTC'', dc_amounts = [100, 90], dc_prices = [100, 90], dc_side = BUY,
     dc_take_profit = Some (1 / 10), dc_stop_loss = None, dc_time_limit = None, dc_mode = D_MAKER,
     dc_trailing = None, dc_leverage = 1, dc_keep = False\<rparr>"

definition demo_dca :: dca_exec where
  "demo_dca = (case mk_dca_exec ''d'' 1 ''c'' True demo_dca_config 0 of Inr x \<Rightarrow> x)"

lemma demo_dca_built: "mk_dca_exec ''d'' 1 ''c'' True demo_dca_config 0 = Inr demo_dca"
  by (simp add: demo_dca_def mk_dca_exec_def demo_dca_config_def)

lemmas demo_dca_defs = demo_dca_def mk_dca_exec_def demo_dca_config_def mk_exec_base_def mk_rung_def
  exec_base.defs dca_exec.defs demo_env_def

theorem dca_books_once_witness:
  "\<exists>rows. ledger [] [] rows
     (dca_run script_api [DCA_Create, DCA_Tick, DCA_Stop EARLY_STOP] (demo_dca\<lparr>ex_has_recorder := True\<rparr>, demo_env))"
  using dca_books_once [OF demo_dca_built, of demo_env script_api "[DCA_Create, DCA_Tick, DCA_Stop EARLY_STOP]"]
  by (auto simp: demo_env_def)

subsection \<open>Rolling back a half-placed ladder\<close>

text \<open>The observation of a state over a logged venue.\<close>

definition vlog :: "('v \<times> venue_call list, 'x) est \<Rightarrow> venue_call list" where
  "vlog s = snd (env_venue (snd s))"

lemma wp_rollback:
  fixes x :: "'x dca_exec_scheme" and e :: "('v \<times> venue_call list) env"
  shows "placed_ids (vlog (x, e)) = ps \<Longrightarrow> C \<subseteq> set (cancelled_ids (vlog (x, e))) \<Longrightarrow>
   wp (dca_rollback (logged api) ids)
     (\<lambda>_ s. placed_ids (vlog s) = ps \<and> C \<union> set ids \<subseteq> set (cancelled_ids (vlog s))) (\<lambda>_ _. False) (x, e)"
proof (induction ids arbitrary: C x e)
  case Nil
  then show ?case by (simp add: dca_rollback_def)
next
  case (Cons oid ids)
  let ?bad = "\<lambda>w. placed_ids (snd w) = ps \<and> insert oid C \<subseteq> set (cancelled_ids (snd w))"
  have "wp (guard (logged api) ''dca_rollback_cancel'' (va_cancel (logged api) oid))
      (\<lambda>_ s. ?bad (env_venue (snd s))) (\<lambda>_ s. ?bad (env_venue (snd s))) (x, e)"
  proof (rule wp_guard_law [where pre = "\<lambda>w. placed_ids (snd w) = ps \<and> C \<subseteq> set (cancelled_ids (snd w))"
        and bad = ?bad and R = "\<lambda>_. ?bad"])
    show "wp (va_cancel (logged api) oid) (\<lambda>_. ?bad) (\<lambda>_. ?bad) w"
      if "placed_ids (snd w) = ps \<and> C \<subseteq> set (cancelled_ids (snd w))" for w
      by (rule wp_mono [OF wp_logged_cancel]) (use that in auto)
  qed (use Cons.prems in \<open>auto simp: vlog_def\<close>)
  then have "wp (tryP (thenP (guard (logged api) ''dca_rollback_cancel'' (va_cancel (logged api) oid)) (ret ()))
      (\<lambda>_. ret ())) (\<lambda>_ s. ?bad (env_venue (snd s))) (\<lambda>_ _. False) (x, e)"
    unfolding wp_try wp_bind by (rule wp_mono) simp_all
  then show ?case
    unfolding dca_rollback_def wp_for_simps
  proof (rule wp_mono)
    fix u :: unit and s' :: "'x dca_exec_scheme \<times> ('v \<times> venue_call list) env"
    assume b: "?bad (env_venue (snd s'))"
    show "wp (forP ids (\<lambda>oid. tryP (thenP (guard (logged api) ''dca_rollback_cancel'' (va_cancel (logged api) oid))
        (ret ())) (\<lambda>_. ret ()))) (\<lambda>_ s. placed_ids (vlog s) = ps
          \<and> C \<union> set (oid # ids) \<subseteq> set (cancelled_ids (vlog s))) (\<lambda>_ _. False) s'"
      using Cons.IH [of "fst s'" "snd s'" "insert oid C"] b
      by (simp add: dca_rollback_def vlog_def)
  qed simp
qed

definition rolled_back :: "('v \<times> venue_call list, 'x) est \<Rightarrow> bool" where
  "rolled_back s \<longleftrightarrow> set (placed_ids (vlog s)) \<subseteq> set (cancelled_ids (vlog s))"

lemma wp_place_maker_log:
  assumes "placed_ids (vlog (x, e)) = ids"
  shows "wp (dca_place_maker (logged api) i) (\<lambda>oid s. placed_ids (vlog s) = ids @ [oid])
     (\<lambda>_ s. placed_ids (vlog s) = ids) (x, e)"
  unfolding dca_place_maker_def Let_def wp_bind wp_me
proof (rule wp_guard_law [where pre = "\<lambda>w. placed_ids (snd w) = ids"
      and bad = "\<lambda>w. placed_ids (snd w) = ids" and R = "\<lambda>ord w. placed_ids (snd w) = ids @ [o_id ord]"])
  show "wp (va_place (logged api) pair sd ty amt px lev ro) (\<lambda>ord w. placed_ids (snd w) = ids @ [o_id ord])
      (\<lambda>_ w. placed_ids (snd w) = ids) w" if "placed_ids (snd w) = ids" for w pair sd ty amt px lev ro
    by (rule wp_mono [OF wp_logged_place]) (use that in auto)
qed (use assms in \<open>auto simp: vlog_def\<close>)

lemma wp_place_ladder_log:
  fixes x :: "'x dca_exec_scheme" and e :: "('v \<times> venue_call list) env"
  shows "placed_ids (vlog (x, e)) = ids \<Longrightarrow>
   wp (dca_place_ladder (logged api) is ids) (\<lambda>_ _. True) (\<lambda>_. rolled_back) (x, e)"
proof (induction "is" arbitrary: ids x e)
  case (Cons i "is")
  show ?case
    unfolding dca_place_ladder.simps wp_bind wp_try
  proof (rule wp_mono [OF wp_place_maker_log [OF Cons.prems]])
    fix oid and s' :: "'x dca_exec_scheme \<times> ('v \<times> venue_call list) env"
    assume "placed_ids (vlog s') = ids @ [oid]"
    then show "wp (dca_place_ladder (logged api) is (ids @ [oid])) (\<lambda>_ _. True) (\<lambda>_. rolled_back) s'"
      using Cons.IH [of "fst s'" "snd s'" "ids @ [oid]"] by simp
  next
    fix c and s' :: "'x dca_exec_scheme \<times> ('v \<times> venue_call list) env"
    assume "placed_ids (vlog s') = ids"
    then have "wp (dca_rollback (logged api) ids) (\<lambda>_ s. placed_ids (vlog s) = ids
        \<and> {} \<union> set ids \<subseteq> set (cancelled_ids (vlog s))) (\<lambda>_ _. False) s'"
      using wp_rollback [of "fst s'" "snd s'" ids "{}" api ids] by simp
    then show "wp (dca_rollback (logged api) ids) (\<lambda>_. wp (raise c)
        (\<lambda>a. wp (dca_place_ladder (logged api) is (ids @ [a])) (\<lambda>_ _. True) (\<lambda>_. rolled_back))
        (\<lambda>_. rolled_back)) (\<lambda>_. rolled_back) s'"
      by (rule wp_mono) (auto simp: rolled_back_def)
  qed
qed simp

text \<open>
  Claim C16: a half-placed ladder is rolled back. If creating a maker ladder fails, at
  whichever rung and for whatever reason, then every order the venue accepted during the
  creation has been asked to be cancelled before the failure is raised.
\<close>

theorem dca_create_rolls_back:
  assumes "env_venue e = (v, [])" and "dca_on_create (logged api) (x, e) = (Inl c, s)"
  shows "set (placed_ids (snd (env_venue (snd s)))) \<subseteq> set (cancelled_ids (snd (env_venue (snd s))))"
proof -
  have "wp (dca_on_create (logged api)) (\<lambda>_ _. True) (\<lambda>_. rolled_back) (x, e)"
    unfolding dca_on_create_def
    by (auto intro!: wp_place_ladder_log simp: vlog_def assms(1))
  from wp_exc_value [OF assms(2) this] show ?thesis by (simp add: rolled_back_def vlog_def)
qed

definition demo_dca_env :: "(script \<times> venue_call list) env" where
  "demo_dca_env = \<lparr>env_venue = (\<lparr>sc_now = 0,
     sc_orders = [Inr (demo_order ''r1'' O_OPEN 0), Inl (AdapterThrottled ''budget'')],
     sc_mids = [], sc_cancels = [Inr True]\<rparr>, []), env_inv = [], env_trades = []\<rparr>"

lemmas ladder_run = dca_on_create_def dca_place_maker_def bindP_def tryP_def whenP_def me_def getsP_def
  upd_def modifyP_def ret_def raise_def activate_def guard_def MAX_ATTEMPTS_def numeral_3_eq_3 guard_loop.simps(2)
  venue_do_def logged_def dca_rollback_def Let_def

theorem dca_create_rolls_back_witness:
  "\<exists>s. dca_on_create (logged script_api) (demo_dca, demo_dca_env) = (Inl (AdapterThrottled ''budget''), s)
     \<and> set (placed_ids (snd (env_venue (snd s)))) = {''r1''}
     \<and> ''r1'' \<in> set (cancelled_ids (snd (env_venue (snd s))))"
proof -
  obtain s where s: "dca_on_create (logged script_api) (demo_dca, demo_dca_env)
        = (Inl (AdapterThrottled ''budget''), s)"
    and p: "placed_ids (snd (env_venue (snd s))) = [''r1'']"
    by (simp add: ladder_run script_defs demo_dca_env_def demo_dca_defs demo_order_def activated_def
        set_rung_def upt_rec)
  from dca_create_rolls_back [OF _ s] p s show ?thesis by (auto simp: demo_dca_env_def)
qed

subsection \<open>Stopping before the first fill\<close>

text \<open>
  A finding: stopping leaks the resting ladder. The close path returns early when
  nothing has filled yet, before the open rungs are cancelled: a maker ladder stopped before
  its first fill terminates without a single venue call, and every rung it placed keeps
  resting on the book.
\<close>

theorem dca_stop_leaks_resting_rungs:
  assumes "ex_state x = ACTIVE" "dca_phase x = D_ACCUMULATING" "\<not> dc_keep (dca_config x)"
    and "dca_base x = 0"
  shows "\<exists>x'. dca_on_stop api ct (x, e) = (Inr (), (x', e)) \<and> ex_state x' = TERMINATED
     \<and> dca_rungs x' = dca_rungs x"
proof -
  have "wp (dca_on_stop api ct) (\<lambda>_ s. snd s = e \<and> ex_state (fst s) = TERMINATED
     \<and> dca_rungs (fst s) = dca_rungs x) (\<lambda>_ _. False) (x, e)"
    using assms by (simp add: dca_on_stop_def dca_open_close_def dca_finalize_def dca_finalized_def
        is_terminated_def)
  from wp_total [OF this] show ?thesis by auto
qed

definition demo_resting :: dca_exec where
  "demo_resting = set_rung 0 (\<lambda>r. r\<lparr>dr_order := Some ''r1'', dr_placed := True\<rparr>) (demo_dca\<lparr>ex_state := ACTIVE\<rparr>)"

theorem dca_stop_leaks_resting_rungs_witness:
  "\<exists>x'. dca_on_stop script_api EARLY_STOP (demo_resting, demo_env) = (Inr (), (x', demo_env))
     \<and> ex_state x' = TERMINATED \<and> dr_placed (dca_rungs x' ! 0) \<and> \<not> dr_filled (dca_rungs x' ! 0)"
  using dca_stop_leaks_resting_rungs [of demo_resting script_api EARLY_STOP demo_env]
  by (auto simp: demo_resting_def set_rung_def demo_dca_defs)

end
