(* ===== verification/Sim_Adapter.thy ===== *)
theory Sim_Adapter
  imports Adapter Inventory
begin

text \<open>
  The simulated venue of the backtester, from \<open>engine/backtester/executor_sim.py\<close>: a
  candle-driven in-memory book that fills resting limits, crosses market and marketable
  orders, fires price triggers, charges fees and accrues funding.

  The adapter object is the record \<open>sim\<close>; \<open>sim_place\<close>, \<open>sim_cancel\<close>, ... are its methods.
  \<open>_record_fill\<close> mutates the order it is given, so it returns the order and the caller
  stores it back where the object lives, in \<open>_orders\<close> or in a trigger. The inventory handle
  of a trigger controller is the adapter's own in the model, since such a controller runs no
  executor. The theory ends with the interpretation of the locale \<open>venue\<close> on this model.
\<close>

record sim_costs =
  cost_taker :: dec
  cost_maker :: dec
  cost_slip :: dec
  cost_funding :: dec

record sim_meta =
  mt_tick :: dec
  mt_lot :: dec
  mt_min_notional :: dec
  mt_is_perp :: bool

record candle =
  c_ts :: time
  c_open :: dec
  c_high :: dec
  c_low :: dec
  c_close :: dec
  c_volume :: dec

record trigger =
  tg_order :: nado_order
  tg_level :: dec
  tg_reduce :: bool
  tg_dep :: "string option"
  tg_armed :: bool

record sim =
  sm_costs :: sim_costs
  sm_meta :: "(string \<times> sim_meta) list"
  sm_default :: sim_meta
  sm_orders :: "(string \<times> nado_order) list"
  sm_counter :: nat
  sm_fills :: "fill list"
  sm_candle :: "candle option"
  sm_net :: "(string \<times> dec) list"
  sm_fund :: "(time \<times> dec) list"
  sm_fees :: dec
  sm_funding :: dec
  sm_triggers :: "(string \<times> trigger) list"
  sm_inv :: "inventory option"
  sm_user :: int
  sm_controller :: string
  sm_book_market :: bool
  sm_now :: time
  sm_budget :: cycle_budget
  sm_cap :: int

definition mk_sim :: "sim_costs \<Rightarrow> (string \<times> sim_meta) list \<Rightarrow> sim_meta \<Rightarrow> inventory option \<Rightarrow> int
    \<Rightarrow> string \<Rightarrow> bool \<Rightarrow> sim" where
  "mk_sim costs meta dm iv user cid bmf = \<lparr>sm_costs = costs, sm_meta = meta, sm_default = dm,
     sm_orders = [], sm_counter = 0, sm_fills = [], sm_candle = None, sm_net = [], sm_fund = [],
     sm_fees = 0, sm_funding = 0, sm_triggers = [], sm_inv = iv, sm_user = user,
     sm_controller = cid, sm_book_market = bmf, sm_now = 0, sm_budget = fresh_budget, sm_cap = 0\<rparr>"

definition set_candle :: "candle \<Rightarrow> sim \<Rightarrow> sim" where
  "set_candle c s = s\<lparr>sm_candle := Some c\<rparr>"

definition sim_m :: "sim \<Rightarrow> string \<Rightarrow> sim_meta" where
  "sim_m s pair = (case map_of (sm_meta s) pair of Some m \<Rightarrow> m | None \<Rightarrow> sm_default s)"

definition sim_is_perp :: "sim \<Rightarrow> string \<Rightarrow> bool" where
  "sim_is_perp s pair = (case map_of (sm_meta s) pair of
     Some m \<Rightarrow> mt_is_perp m
   | None \<Rightarrow> \<not> list_ex (\<lambda>q. has_suffix q (upper_str pair)) [''-USDT0'', ''-USDC0'', ''-USDC'', ''-USDT''])"

definition net_of :: "sim \<Rightarrow> string \<Rightarrow> dec" where
  "net_of s pair = (case map_of (sm_net s) pair of Some n \<Rightarrow> n | None \<Rightarrow> 0)"

definition candle_ts :: "sim \<Rightarrow> time" where
  "candle_ts s = (case sm_candle s of Some c \<Rightarrow> c_ts c | None \<Rightarrow> 0)"

definition signed_base :: "fill \<Rightarrow> dec" where
  "signed_base f = (if f_side f = BUY then f_base f else - f_base f)"

definition filled_order :: "dec \<Rightarrow> dec \<Rightarrow> dec \<Rightarrow> nado_order \<Rightarrow> nado_order" where
  "filled_order amt px fee ord =
     (let b = o_filled_base ord + amt in
      ord\<lparr>o_filled_base := b, o_filled_quote := o_filled_quote ord + amt * px, o_fee := o_fee ord + fee,
        o_state := (if b \<ge> o_amount ord then O_FILLED else O_PARTIALLY_FILLED)\<rparr>)"

definition fill_of :: "sim \<Rightarrow> nado_order \<Rightarrow> dec \<Rightarrow> dec \<Rightarrow> dec \<Rightarrow> fill" where
  "fill_of s ord amt px fee = \<lparr>f_order_id = o_id ord, f_pair = o_pair ord, f_side = o_side ord,
     f_base = amt, f_price = px, f_fee = fee, f_ts = candle_ts s\<rparr>"

definition sim_record :: "nado_order \<Rightarrow> dec \<Rightarrow> dec \<Rightarrow> dec \<Rightarrow> sim \<Rightarrow> nado_order \<times> sim" where
  "sim_record ord amt px fee s =
     (let f = fill_of s ord amt px fee in
      (filled_order amt px fee ord,
       s\<lparr>sm_fills := sm_fills s @ [f], sm_fees := sm_fees s + fee,
         sm_net := od_set (o_pair ord) (net_of s (o_pair ord) + signed_base f) (sm_net s)\<rparr>))"

subsection \<open>Matching against a candle\<close>

definition match_one :: "candle \<Rightarrow> string \<Rightarrow> sim \<Rightarrow> sim" where
  "match_one c k s = (case map_of (sm_orders s) k of
     None \<Rightarrow> s
   | Some ord \<Rightarrow>
      if is_terminal (o_state ord) \<or> o_type ord = MARKET then s
      else case o_price ord of
        None \<Rightarrow> s
      | Some p \<Rightarrow>
         let remaining = o_amount ord - o_filled_base ord in
         if remaining \<le> 0 then s
         else if o_side ord = BUY \<and> c_low c \<le> p \<or> o_side ord = SELL \<and> c_high c \<ge> p
         then (case sim_record ord remaining p (remaining * p * cost_maker (sm_costs s)) s of
                 (ord', s') \<Rightarrow> s'\<lparr>sm_orders := od_set k ord' (sm_orders s')\<rparr>)
         else s)"

definition match_resting :: "sim \<Rightarrow> sim" where
  "match_resting s = (case sm_candle s of
     None \<Rightarrow> s | Some c \<Rightarrow> foldl (\<lambda>s k. match_one c k s) s (map fst (sm_orders s)))"

definition slipped :: "sim \<Rightarrow> trade_type \<Rightarrow> dec \<Rightarrow> dec" where
  "slipped s side p = (if side = BUY then p * (1 + cost_slip (sm_costs s)) else p * (1 - cost_slip (sm_costs s)))"

definition sim_book :: "string \<Rightarrow> trade_type \<Rightarrow> dec \<Rightarrow> dec \<Rightarrow> dec \<Rightarrow> time \<Rightarrow> (sim, unit) prog" where
  "sim_book pair side amt quote fee ts = (\<lambda>s. case sm_inv s of
     None \<Rightarrow> (Inr (), s)
   | Some iv \<Rightarrow> (case apply_fill (sm_user s) pair (sm_controller s) side (Finite amt) (Finite quote)
        (Finite fee) (Some ts) (sm_now s) iv of
       Inl c \<Rightarrow> (Inl c, s) | Inr (_, iv') \<Rightarrow> (Inr (), s\<lparr>sm_inv := Some iv'\<rparr>)))"

definition arm_dependents :: "string \<Rightarrow> sim \<Rightarrow> sim" where
  "arm_dependents parent s = s\<lparr>sm_triggers := map (\<lambda>(k, t).
     (k, if tg_dep t = Some parent then t\<lparr>tg_armed := True\<rparr> else t)) (sm_triggers s)\<rparr>"

definition pop_trigger :: "string \<Rightarrow> sim \<Rightarrow> sim" where
  "pop_trigger k s = s\<lparr>sm_triggers := od_pop k (sm_triggers s)\<rparr>"

definition trigger_amount :: "sim \<Rightarrow> trigger \<Rightarrow> dec" where
  "trigger_amount s t = (let ord = tg_order t in
     if tg_reduce t then min (o_amount ord) \<bar>net_of s (o_pair ord)\<bar> else o_amount ord)"

definition match_trigger :: "candle \<Rightarrow> string \<Rightarrow> (sim, unit) prog" where
  "match_trigger c k = bindP (getsP (\<lambda>s. s)) (\<lambda>s. case map_of (sm_triggers s) k of
     None \<Rightarrow> ret ()
   | Some t \<Rightarrow>
      let ord = tg_order t; lvl = tg_level t; amt = trigger_amount s t;
          px = slipped s (o_side ord) lvl; fee = amt * px * cost_taker (sm_costs s) in
      if is_terminal (o_state ord) then ret ()
      else if \<not> (if o_side ord = BUY then c_high c \<ge> lvl else c_low c \<le> lvl) then ret ()
      else if amt \<le> 0 then modifyP (pop_trigger k)
      else seqP
        [modifyP (\<lambda>s. case sim_record ord amt px fee s of (ord', s') \<Rightarrow>
            s'\<lparr>sm_triggers := od_set k (t\<lparr>tg_order := ord'\<rparr>) (sm_triggers s')\<rparr>),
         sim_book (o_pair ord) (o_side ord) amt (amt * px) fee (c_ts c),
         modifyP (\<lambda>s. pop_trigger k (arm_dependents k s))])"

definition match_triggers :: "(sim, unit) prog" where
  "match_triggers = bindP (getsP (\<lambda>s. s)) (\<lambda>s. case sm_candle s of
     None \<Rightarrow> ret ()
   | Some c \<Rightarrow> forP (map fst (filter (\<lambda>(k, t). tg_armed t) (sm_triggers s))) (match_trigger c))"

definition funding_step :: "time \<Rightarrow> dec \<Rightarrow> dec \<Rightarrow> string \<times> dec \<Rightarrow> sim \<Rightarrow> sim" where
  "funding_step ts rate mark pn s = (case pn of (pair, net) \<Rightarrow>
     if net = 0 \<or> \<not> sim_is_perp s pair then s
     else let received = rate * (- net) * mark in
       if received = 0 then s
       else s\<lparr>sm_fund := sm_fund s @ [(ts, received)], sm_funding := sm_funding s + received\<rparr>)"

definition accrue_funding :: "sim \<Rightarrow> sim" where
  "accrue_funding s = (case sm_candle s of
     None \<Rightarrow> s
   | Some c \<Rightarrow> (let rate = cost_funding (sm_costs s) in
       if rate = 0 then s
       else foldl (\<lambda>s pn. funding_step (c_ts c) rate (c_close c) pn s) s (sm_net s)))"

subsection \<open>The adapter surface\<close>

fun digits :: "nat \<Rightarrow> string" where
  "digits n = (if n < 10 then [char_of (48 + n)] else digits (n div 10) @ [char_of (48 + n mod 10)])"

declare digits.simps [simp del]

definition new_order :: "string \<Rightarrow> string \<Rightarrow> trade_type \<Rightarrow> order_type \<Rightarrow> dec \<Rightarrow> dec option \<Rightarrow> nado_order" where
  "new_order oid pair side ty amt px = \<lparr>o_id = oid, o_pair = pair, o_side = side, o_type = ty,
     o_amount = amt, o_price = px, o_state = O_OPEN, o_filled_base = 0, o_filled_quote = 0, o_fee = 0\<rparr>"

definition is_marketable_limit :: "sim \<Rightarrow> trade_type \<Rightarrow> order_type \<Rightarrow> dec option \<Rightarrow> bool" where
  "is_marketable_limit s side ty px = (case (px, sm_candle s) of
     (Some p, Some c) \<Rightarrow> ty = LIMIT \<and>
        (if side = BUY then p \<ge> c_close c * (1 + cost_slip (sm_costs s))
         else p \<le> c_close c * (1 - cost_slip (sm_costs s)))
   | _ \<Rightarrow> False)"

definition sim_take :: "string \<Rightarrow> nado_order \<Rightarrow> dec \<Rightarrow> sim \<Rightarrow> nado_order \<times> sim" where
  "sim_take oid ord mid s =
     (let px = slipped s (o_side ord) mid; fee = o_amount ord * px * cost_taker (sm_costs s) in
      case sim_record ord (o_amount ord) px fee s of
        (ord', s') \<Rightarrow> (ord', s'\<lparr>sm_orders := od_set oid ord' (sm_orders s')\<rparr>))"

definition sim_place :: "string \<Rightarrow> trade_type \<Rightarrow> order_type \<Rightarrow> dec \<Rightarrow> dec option \<Rightarrow> int \<Rightarrow> bool
    \<Rightarrow> (sim, nado_order) prog" where
  "sim_place pair side ty amt px lev ro = (\<lambda>s0.
     let n = Suc (sm_counter s0); oid = ''sim-'' @ digits n; ord = new_order oid pair side ty amt px;
         s = s0\<lparr>sm_counter := n, sm_orders := od_set oid ord (sm_orders s0)\<rparr> in
     if ty = MARKET then
       (let mid = (case sm_candle s of Some c \<Rightarrow> c_close c | None \<Rightarrow> or_dec px 0);
            fpx = slipped s side mid; (ord', s') = sim_take oid ord mid s in
        if sm_book_market s'
        then (case sim_book pair side amt (amt * fpx) (amt * fpx * cost_taker (sm_costs s)) (candle_ts s') s' of
                (Inl c, s2) \<Rightarrow> (Inl c, s2) | (Inr _, s2) \<Rightarrow> (Inr ord', s2))
        else (Inr ord', s'))
     else (case sm_candle s of
         None \<Rightarrow> (Inr ord, s)
       | Some c \<Rightarrow> (if is_marketable_limit s side ty px
           then (case sim_take oid ord (c_close c) s of (ord', s') \<Rightarrow> (Inr ord', s'))
           else (Inr ord, s))))"

definition sim_cancel :: "string \<Rightarrow> (sim, bool) prog" where
  "sim_cancel oid = (\<lambda>s. case map_of (sm_orders s) oid of
     None \<Rightarrow> (Inr False, s)
   | Some ord \<Rightarrow> if is_terminal (o_state ord) then (Inr False, s)
       else (Inr True, s\<lparr>sm_orders := od_set oid (ord\<lparr>o_state := O_CANCELLED\<rparr>) (sm_orders s)\<rparr>))"

definition sim_status :: "string \<Rightarrow> (sim, nado_order) prog" where
  "sim_status oid = (\<lambda>s. case map_of (sm_orders s) oid of
     None \<Rightarrow> (Inl (AdapterError (''unknown order '' @ oid)), s)
   | Some ord \<Rightarrow> (Inr ord, s))"

definition sim_mid :: "string \<Rightarrow> (sim, dec) prog" where
  "sim_mid pair = (\<lambda>s. (Inr (case sm_candle s of Some c \<Rightarrow> c_close c | None \<Rightarrow> 0), s))"

definition place_trigger_order ::
  "string \<Rightarrow> trade_type \<Rightarrow> dec \<Rightarrow> dec \<Rightarrow> string option \<Rightarrow> (sim, nado_order) prog" where
  "place_trigger_order pair side amt lvl dep = (\<lambda>s.
     if amt \<le> 0 then (Inl (AdapterError ''place_trigger_order requires a positive amount''), s)
     else if lvl \<le> 0 then (Inl (AdapterError ''place_trigger_order requires a positive trigger price''), s)
     else let n = Suc (sm_counter s); tid = ''sim-trg-'' @ digits n;
              ord = new_order tid pair side LIMIT amt (Some lvl) in
       (Inr ord, s\<lparr>sm_counter := n, sm_triggers := od_set tid \<lparr>tg_order = ord, tg_level = lvl,
          tg_reduce = False, tg_dep = dep, tg_armed = (dep = None)\<rparr> (sm_triggers s)\<rparr>))"

definition place_stop_order :: "string \<Rightarrow> dec \<Rightarrow> dec \<Rightarrow> bool \<Rightarrow> (sim, nado_order) prog" where
  "place_stop_order pair sz stop long = (\<lambda>s.
     if sz \<le> 0 then (Inl (AdapterError ''place_stop_order requires a positive close size''), s)
     else if stop \<le> 0 then (Inl (AdapterError ''place_stop_order requires a positive stop price''), s)
     else let n = Suc (sm_counter s); sid = ''sim-stp-'' @ digits n;
              ord = new_order sid pair (if long then SELL else BUY) LIMIT sz (Some stop) in
       (Inr ord, s\<lparr>sm_counter := n, sm_triggers := od_set sid \<lparr>tg_order = ord, tg_level = stop,
          tg_reduce = True, tg_dep = None, tg_armed = True\<rparr> (sm_triggers s)\<rparr>))"

definition list_trigger_orders :: "string \<Rightarrow> sim \<Rightarrow> string list" where
  "list_trigger_orders pair s = map fst (filter (\<lambda>(k, t).
     o_pair (tg_order t) = pair \<and> \<not> is_terminal (o_state (tg_order t))) (sm_triggers s))"

definition cancel_trigger_order :: "string \<Rightarrow> (sim, bool) prog" where
  "cancel_trigger_order oid = (\<lambda>s. case map_of (sm_triggers s) oid of
     None \<Rightarrow> (Inr False, s)
   | Some t \<Rightarrow> (Inr (\<not> is_terminal (o_state (tg_order t))), pop_trigger oid s))"

definition held_base :: "string \<Rightarrow> sim \<Rightarrow> dec option" where
  "held_base pair s = Some (net_of s pair)"

definition fill_stream :: "string \<Rightarrow> sim \<Rightarrow> fill list" where
  "fill_stream pair s = filter (\<lambda>f. f_pair f = pair) (sm_fills s)"

definition order_book :: "string \<Rightarrow> sim \<Rightarrow> book_snapshot" where
  "order_book pair s =
     (let mid = (case sm_candle s of Some c \<Rightarrow> c_close c | None \<Rightarrow> 0); half = mid * cost_slip (sm_costs s)
      in \<lparr>bk_pair = pair, bk_bids = [\<lparr>bl_price = mid - half, bl_amount = 1\<rparr>],
          bk_asks = [\<lparr>bl_price = mid + half, bl_amount = 1\<rparr>], bk_ts = candle_ts s\<rparr>)"

definition funding_since :: "string \<Rightarrow> time \<Rightarrow> sim \<Rightarrow> dec" where
  "funding_since pair since s = sum_list (map snd (filter (\<lambda>(ts, amt). ts \<ge> since) (sm_fund s)))"

definition funding_rate :: "string \<Rightarrow> sim \<Rightarrow> dec option" where
  "funding_rate pair s = Some (cost_funding (sm_costs s))"

definition sim_api :: "sim venue_api" where
  "sim_api = \<lparr>va_place = sim_place, va_cancel = sim_cancel, va_status = sim_status, va_mid = sim_mid,
     va_now = sm_now, va_sleep = (\<lambda>d s. s\<lparr>sm_now := sm_now s + d\<rparr>), va_budget = sm_budget,
     va_opening_cap = sm_cap\<rparr>"

subsection \<open>Runs\<close>

datatype sim_event =
    SE_Candle candle | SE_Match | SE_Triggers | SE_Funding
  | SE_Place string trade_type order_type dec "dec option" int bool
  | SE_Cancel string
  | SE_Trigger string trade_type dec dec "string option"
  | SE_Stop string dec dec bool
  | SE_CancelTrigger string

fun sim_step :: "sim \<Rightarrow> sim_event \<Rightarrow> sim" where
  "sim_step s (SE_Candle c) = set_candle c s"
| "sim_step s SE_Match = match_resting s"
| "sim_step s SE_Triggers = snd (match_triggers s)"
| "sim_step s SE_Funding = accrue_funding s"
| "sim_step s (SE_Place pair side ty amt px lev ro) = snd (sim_place pair side ty amt px lev ro s)"
| "sim_step s (SE_Cancel oid) = snd (sim_cancel oid s)"
| "sim_step s (SE_Trigger pair side amt lvl dep) = snd (place_trigger_order pair side amt lvl dep s)"
| "sim_step s (SE_Stop pair sz stop long) = snd (place_stop_order pair sz stop long s)"
| "sim_step s (SE_CancelTrigger oid) = snd (cancel_trigger_order oid s)"

definition sim_run :: "sim_event list \<Rightarrow> sim \<Rightarrow> sim" where
  "sim_run evs s = foldl sim_step s evs"

text \<open>
  The accounts of the simulator: positions, fees and funding are what its fills and
  funding events say. Everything but \<open>_record_fill\<close> and the funding accrual leaves them
  alone.
\<close>

definition sim_books :: "sim \<Rightarrow> bool" where
  "sim_books s \<longleftrightarrow>
     (\<forall>pair. net_of s pair = sum_list (map signed_base (filter (\<lambda>f. f_pair f = pair) (sm_fills s))))
   \<and> sm_fees s = sum_list (map f_fee (sm_fills s))
   \<and> sm_funding s = sum_list (map snd (sm_fund s))"

lemma sim_books_cong:
  "sim_books s \<Longrightarrow> sm_net s' = sm_net s \<Longrightarrow> sm_fills s' = sm_fills s \<Longrightarrow> sm_fees s' = sm_fees s
   \<Longrightarrow> sm_funding s' = sm_funding s \<Longrightarrow> sm_fund s' = sm_fund s \<Longrightarrow> sim_books s'"
  by (simp add: sim_books_def net_of_def)

lemma sim_record_books:
  "sim_books s \<Longrightarrow> sim_record ord amt px fee s = (ord', s') \<Longrightarrow> sim_books s'"
  by (auto simp: sim_record_def sim_books_def net_of_def fill_of_def Let_def)

lemma match_one_books: "sim_books s \<Longrightarrow> sim_books (match_one c k s)"
  by (auto simp: match_one_def Let_def split: option.split prod.split
      intro: sim_books_cong dest: sim_record_books)

lemma match_resting_books:
  assumes "sim_books s"
  shows "sim_books (match_resting s)"
proof -
  have "sim_books (foldl (\<lambda>s k. match_one c k s) s ks)" for c ks
    using assms by (induction ks arbitrary: s) (auto intro: match_one_books)
  with assms show ?thesis by (simp add: match_resting_def split: option.split)
qed

lemma keeps_modify: "(\<And>s. I s \<Longrightarrow> I (f s)) \<Longrightarrow> keeps I (modifyP f)"
  by (rule keepsI) simp

lemma keeps_sim_book: "keeps sim_books (sim_book pair side amt quote fee ts)"
  by (rule keepsI) (auto simp: sim_book_def wp_def split: option.split sum.split intro: sim_books_cong)

lemma keeps_match_trigger: "keeps sim_books (match_trigger c k)"
  unfolding match_trigger_def Let_def
  by (intro keeps_intros keeps_modify keeps_sim_book)
    (auto simp: pop_trigger_def arm_dependents_def split: prod.split
      intro: sim_books_cong dest: sim_record_books)

lemma keeps_match_triggers: "keeps sim_books match_triggers"
  unfolding match_triggers_def by (intro keeps_intros keeps_match_trigger)

lemma accrue_funding_books:
  assumes "sim_books s"
  shows "sim_books (accrue_funding s)"
proof -
  have "sim_books (funding_step ts rate mark pn s)" if "sim_books s" for ts rate mark pn s
    using that by (auto simp: funding_step_def sim_books_def net_of_def Let_def split: prod.split)
  then have "sim_books (foldl (\<lambda>s pn. funding_step ts rate mark pn s) s pns)" for ts rate mark pns
    using assms by (induction pns arbitrary: s) auto
  with assms show ?thesis by (simp add: accrue_funding_def Let_def split: option.split)
qed

lemma sim_take_books:
  "sim_books s \<Longrightarrow> sim_take oid ord mid s = (ord', s') \<Longrightarrow> sim_books s'"
  by (auto simp: sim_take_def Let_def split: prod.splits intro: sim_books_cong dest: sim_record_books)

lemma sim_place_books:
  assumes "sim_books s0"
  shows "sim_books (snd (sim_place pair side ty amt px lev ro s0))"
proof -
  define n where "n = Suc (sm_counter s0)"
  define oid where "oid = ''sim-'' @ digits n"
  define s where "s = s0\<lparr>sm_counter := n, sm_orders := od_set oid (new_order oid pair side ty amt px) (sm_orders s0)\<rparr>"
  have "sim_books s" using assms by (simp add: s_def sim_books_def net_of_def)
  moreover have "sim_books s2" if "sim_book a b c d f g s1 = (r, s2)" "sim_books s1" for a b c d f g s1 r s2
    using keeps_snd [OF keeps_sim_book that(2), of a b c d f g] that(1) by simp
  ultimately show ?thesis
    unfolding sim_place_def Let_def n_def [symmetric] oid_def [symmetric] s_def [symmetric]
    by (auto split: prod.split option.split sum.split dest: sim_take_books)
qed

lemma sim_step_books: "sim_books s \<Longrightarrow> sim_books (sim_step s ev)"
  by (cases ev)
    (auto simp: set_candle_def match_resting_books accrue_funding_books sim_place_books
      sim_cancel_def place_trigger_order_def place_stop_order_def cancel_trigger_order_def pop_trigger_def Let_def
      split: option.split intro: sim_books_cong keeps_snd [OF keeps_match_triggers])

text \<open>
  A law: the simulator's accounts. From an empty venue, after any sequence of
  candles, matching, triggers, funding, placements and cancels, the signed position of every
  pair is the sum of its signed fills, the total fee is the sum of the fees of the fills, and
  the funding total is the sum of the funding events.
\<close>

theorem sim_accounts:
  "net_of (sim_run evs (mk_sim costs meta dm iv u cid bmf)) pair
     = sum_list (map signed_base (fill_stream pair (sim_run evs (mk_sim costs meta dm iv u cid bmf))))
   \<and> sm_fees (sim_run evs (mk_sim costs meta dm iv u cid bmf))
     = sum_list (map f_fee (sm_fills (sim_run evs (mk_sim costs meta dm iv u cid bmf))))
   \<and> sm_funding (sim_run evs (mk_sim costs meta dm iv u cid bmf))
     = sum_list (map snd (sm_fund (sim_run evs (mk_sim costs meta dm iv u cid bmf))))"
proof -
  have "sim_books (sim_run evs s)" if "sim_books s" for s
    using that by (induction evs arbitrary: s) (auto simp: sim_run_def intro: sim_step_books)
  moreover have "sim_books (mk_sim costs meta dm iv u cid bmf)"
    by (simp add: sim_books_def mk_sim_def net_of_def)
  ultimately show ?thesis by (auto simp: sim_books_def fill_stream_def)
qed

subsection \<open>Reduce-only triggers\<close>

definition opposes :: "trade_type \<Rightarrow> dec \<Rightarrow> bool" where
  "opposes side net \<longleftrightarrow> (if side = BUY then net \<le> 0 else 0 \<le> net)"

lemma wp_sim_book:
  "Q () s \<Longrightarrow> (\<And>iv. Q () (s\<lparr>sm_inv := iv\<rparr>)) \<Longrightarrow> (\<And>c. E c s) \<Longrightarrow> wp (sim_book a b c d f g) Q E s"
  by (simp add: sim_book_def wp_def split: option.split sum.split prod.split)

text \<open>The signed amount a trigger moves its pair by when it fires.\<close>

definition trigger_move :: "sim \<Rightarrow> trigger \<Rightarrow> string \<Rightarrow> dec" where
  "trigger_move s t pair =
     (if o_pair (tg_order t) \<noteq> pair \<or> trigger_amount s t \<le> 0 then 0
      else if o_side (tg_order t) = BUY then trigger_amount s t else - trigger_amount s t)"

lemma net_of_simps [simp]:
  "net_of (s\<lparr>sm_triggers := a\<rparr>) pair = net_of s pair" "net_of (s\<lparr>sm_inv := b\<rparr>) pair = net_of s pair"
  "net_of (pop_trigger k s) pair = net_of s pair" "net_of (arm_dependents k s) pair = net_of s pair"
  by (simp_all add: net_of_def pop_trigger_def arm_dependents_def)

lemma sim_record_net:
  "net_of (snd (sim_record ord amt px fee s)) pair
     = net_of s pair + (if o_pair ord \<noteq> pair then 0 else if o_side ord = BUY then amt else - amt)"
  by (simp add: sim_record_def Let_def net_of_def signed_base_def fill_of_def)

lemma match_trigger_net:
  assumes "map_of (sm_triggers s) k = Some t"
  shows "net_of (snd (match_trigger c k s)) pair \<in> {net_of s pair, net_of s pair + trigger_move s t pair}"
proof -
  have "wp (match_trigger c k)
      (\<lambda>_ s'. net_of s' pair \<in> {net_of s pair, net_of s pair + trigger_move s t pair})
      (\<lambda>_ s'. net_of s' pair \<in> {net_of s pair, net_of s pair + trigger_move s t pair}) s"
    using assms
    by (auto simp: match_trigger_def Let_def split_beta sim_record_net trigger_move_def intro!: wp_sim_book)
  then show ?thesis by (simp add: wp_snd)
qed

text \<open>
  A law: a reduce-only trigger whose side opposes the position only shrinks it. Firing
  it moves the position towards zero and never past it.
\<close>

theorem reduce_trigger_never_flips:
  assumes "map_of (sm_triggers s) k = Some t" and "tg_reduce t"
    and "opposes (o_side (tg_order t)) (net_of s (o_pair (tg_order t)))"
  shows "\<bar>net_of (snd (match_trigger c k s)) pair\<bar> \<le> \<bar>net_of s pair\<bar>
    \<and> 0 \<le> net_of (snd (match_trigger c k s)) pair * net_of s pair"
proof -
  have amt: "trigger_amount s t \<le> \<bar>net_of s (o_pair (tg_order t))\<bar>"
    using assms(2) by (simp add: trigger_amount_def Let_def)
  have shrink: "\<bar>n - a\<bar> \<le> \<bar>n\<bar> \<and> 0 \<le> (n - a) * n" if "0 \<le> n" "0 < a" "a \<le> \<bar>n\<bar>" for n a :: rat
    using that by simp
  have shrink': "\<bar>n + a\<bar> \<le> \<bar>n\<bar> \<and> 0 \<le> (n + a) * n" if "n \<le> 0" "0 < a" "a \<le> \<bar>n\<bar>" for n a :: rat
    using that by (simp add: mult_nonpos_nonpos)
  show ?thesis
    using match_trigger_net [OF assms(1), of c pair] amt assms(3) unfolding trigger_move_def
    using shrink [of "net_of s pair" "trigger_amount s t"] shrink' [of "net_of s pair" "trigger_amount s t"]
    by (auto simp: opposes_def not_le split: if_splits)
qed

definition demo_trigger :: trigger where
  "demo_trigger = \<lparr>tg_order = new_order ''s'' ''BTC'' SELL LIMIT 3 (Some 95), tg_level = 95,
     tg_reduce = True, tg_dep = None, tg_armed = True\<rparr>"

definition demo_candle :: candle where
  "demo_candle = \<lparr>c_ts = 60, c_open = 100, c_high = 101, c_low = 94, c_close = 95, c_volume = 1\<rparr>"

definition demo_sim :: "dec \<Rightarrow> sim" where
  "demo_sim net = (mk_sim \<lparr>cost_taker = 1 / 1000, cost_maker = 1 / 5000, cost_slip = 1 / 2000,
       cost_funding = 0\<rparr> [] \<lparr>mt_tick = 1 / 100, mt_lot = 1 / 1000, mt_min_notional = 1, mt_is_perp = True\<rparr>
     None 1 ''bt'' False)\<lparr>sm_net := [(''BTC'', net)], sm_candle := Some demo_candle,
     sm_triggers := [(''s'', demo_trigger)]\<rparr>"

lemma demo_sim_simps [simp]:
  "net_of (demo_sim n) ''BTC'' = n" "map_of (sm_triggers (demo_sim n)) ''s'' = Some demo_trigger"
  "tg_reduce demo_trigger" "o_side (tg_order demo_trigger) = SELL" "o_pair (tg_order demo_trigger) = ''BTC''"
  "o_state (tg_order demo_trigger) = O_OPEN" "o_amount (tg_order demo_trigger) = 3"
  "tg_level demo_trigger = 95" "c_low demo_candle = 94"
  by (simp_all add: demo_sim_def demo_trigger_def demo_candle_def new_order_def net_of_def)

theorem reduce_trigger_never_flips_witness:
  "\<bar>net_of (snd (match_trigger demo_candle ''s'' (demo_sim 2))) ''BTC''\<bar> \<le> 2
   \<and> 0 \<le> net_of (snd (match_trigger demo_candle ''s'' (demo_sim 2))) ''BTC'' * 2"
  using reduce_trigger_never_flips [of "demo_sim 2" "''s''" demo_trigger demo_candle "''BTC''"]
  by (auto simp: opposes_def)

text \<open>
  A finding: a stale stop grows the position. The simulator clamps a reduce-only stop to
  the size of the position but does not look at its direction. A stop that was placed for a
  long position and fires after the position has turned short sells again: the short grows,
  although the comment says a reduce-only stop can only shrink it.
\<close>

theorem stale_stop_grows_position:
  assumes "map_of (sm_triggers s) k = Some t" and "tg_reduce t" and "\<not> is_terminal (o_state (tg_order t))"
    and "o_side (tg_order t) = SELL" and "c_low c \<le> tg_level t" and "0 < o_amount (tg_order t)"
    and "net_of s (o_pair (tg_order t)) < 0"
  shows "\<bar>net_of (snd (match_trigger c k s)) (o_pair (tg_order t))\<bar> > \<bar>net_of s (o_pair (tg_order t))\<bar>"
proof -
  have "wp (match_trigger c k)
      (\<lambda>_ s'. \<bar>net_of s' (o_pair (tg_order t))\<bar> > \<bar>net_of s (o_pair (tg_order t))\<bar>)
      (\<lambda>_ s'. \<bar>net_of s' (o_pair (tg_order t))\<bar> > \<bar>net_of s (o_pair (tg_order t))\<bar>) s"
    using assms
    by (auto simp: match_trigger_def Let_def split_beta sim_record_net trigger_amount_def intro!: wp_sim_book)
  then show ?thesis by (simp add: wp_snd)
qed

theorem stale_stop_grows_position_witness:
  "\<bar>net_of (snd (match_trigger demo_candle ''s'' (demo_sim (- 2)))) ''BTC''\<bar> > 2"
  using stale_stop_grows_position [of "demo_sim (- 2)" "''s''" demo_trigger demo_candle] by simp

subsection \<open>The simulator is a venue\<close>

definition sim_order_ok :: "string \<Rightarrow> nado_order \<Rightarrow> bool" where
  "sim_order_ok k ord \<longleftrightarrow> o_id ord = k \<and> order_sane ord"

definition sim_ok :: "sim \<Rightarrow> bool" where
  "sim_ok s \<longleftrightarrow> (\<exists>c. sm_candle s = Some c \<and> 0 < c_close c) \<and> 0 \<le> cost_slip (sm_costs s)
     \<and> cost_slip (sm_costs s) < 1
     \<and> (\<forall>k ord. map_of (sm_orders s) k = Some ord \<longrightarrow> sim_order_ok k ord)"

lemma sim_ok_cong:
  "sim_ok s \<Longrightarrow> sm_candle s' = sm_candle s \<Longrightarrow> sm_costs s' = sm_costs s \<Longrightarrow> sm_orders s' = sm_orders s \<Longrightarrow> sim_ok s'"
  by (simp add: sim_ok_def)

lemma sim_ok_set:
  "sim_ok s \<Longrightarrow> sm_candle s' = sm_candle s \<Longrightarrow> sm_costs s' = sm_costs s
   \<Longrightarrow> sm_orders s' = od_set k ord (sm_orders s) \<Longrightarrow> sim_order_ok k ord \<Longrightarrow> sim_ok s'"
  by (simp add: sim_ok_def)

lemma slipped_pos: "sim_ok s \<Longrightarrow> 0 < p \<Longrightarrow> 0 < slipped s side p"
  by (auto simp: slipped_def sim_ok_def intro!: mult_pos_pos)

lemma sim_take_ok:
  assumes ok: "sim_ok s" and t: "sim_take oid (new_order oid pair side ty amt px) mid s = (ord', s')"
    and pos: "0 < mid" "0 < amt"
  shows "sim_ok s' \<and> order_sane ord' \<and> o_id ord' = oid \<and> o_side ord' = side \<and> o_amount ord' = amt
    \<and> o_filled_base ord' = amt"
proof -
  have px: "0 < slipped s side mid" using slipped_pos [OF ok pos(1)] .
  have o': "ord' = filled_order amt (slipped s side mid) (amt * slipped s side mid * cost_taker (sm_costs s))
      (new_order oid pair side ty amt px)"
    using t by (simp add: sim_take_def Let_def sim_record_def new_order_def)
  have sane: "order_sane ord' \<and> o_id ord' = oid \<and> o_side ord' = side \<and> o_amount ord' = amt \<and> o_filled_base ord' = amt"
    using px pos by (simp add: o' filled_order_def new_order_def order_sane_def Let_def)
  have "sim_ok s'"
    by (rule sim_ok_set [OF ok, of _ oid ord'])
      (use t sane in \<open>auto simp: sim_take_def Let_def sim_record_def sim_order_ok_def\<close>)
  with sane show ?thesis by simp
qed

lemma sim_book_ok:
  "sim_ok s \<Longrightarrow> (\<And>s'. sim_ok s' \<Longrightarrow> Q s') \<Longrightarrow> (\<And>c s'. sim_ok s' \<Longrightarrow> E c s') \<Longrightarrow>
   wp (sim_book a b c d f g) (\<lambda>_. Q) E s"
  by (intro wp_sim_book) (simp_all add: sim_ok_def)

lemma sim_place_ok:
  assumes ok: "sim_ok s0" and amt: "0 < amt"
  shows "wp (sim_place pair side ty amt px lev ro) (\<lambda>x s'. sim_ok s' \<and> order_sane x \<and> o_side x = side
    \<and> o_amount x = amt \<and> (o_state x = O_FILLED \<longrightarrow> o_filled_base x = amt)) (\<lambda>_. sim_ok) s0"
proof -
  define n where "n = Suc (sm_counter s0)"
  define oid where "oid = ''sim-'' @ digits n"
  define ord where "ord = new_order oid pair side ty amt px"
  define s where "s = s0\<lparr>sm_counter := n, sm_orders := od_set oid ord (sm_orders s0)\<rparr>"
  obtain c where c: "sm_candle s = Some c" "0 < c_close c"
    using ok by (auto simp: sim_ok_def s_def)
  have ord: "order_sane ord" "o_side ord = side" "o_amount ord = amt" "o_state ord = O_OPEN" "o_id ord = oid"
    using amt by (simp_all add: ord_def new_order_def order_sane_def)
  have s: "sim_ok s"
    by (rule sim_ok_set [OF ok, of _ oid ord]) (simp_all add: s_def sim_order_ok_def ord)
  obtain ord' s' where t: "sim_take oid ord (c_close c) s = (ord', s')" by fastforce
  note tk = sim_take_ok [OF s t [unfolded ord_def] c(2) amt]
  have bk: "sim_ok s2" if "sim_book a b d f g h s' = (r, s2)" for a b d f g h r s2
    using sim_book_ok [of s' sim_ok "\<lambda>_. sim_ok" a b d f g h] tk that by (auto simp: wp_def split: sum.splits)
  show ?thesis
    unfolding wp_def sim_place_def Let_def n_def [symmetric] oid_def [symmetric] ord_def [symmetric]
      s_def [symmetric]
    using tk ord s by (auto simp: c t split: sum.split prod.split dest: bk)
qed

interpretation simv: venue sim_api sim_ok
proof
  show "wp (va_place sim_api pair side ty amt px lev ro) (\<lambda>x v'. sim_ok v' \<and> order_sane x \<and> o_side x = side
      \<and> o_amount x = amt \<and> (o_state x = O_FILLED \<longrightarrow> o_filled_base x = amt)) (\<lambda>_. sim_ok) v"
    if "sim_ok v" "0 < amt" for v amt px pair side ty lev ro
    using sim_place_ok [OF that] by (simp add: sim_api_def)
  show "wp (va_cancel sim_api oid) (\<lambda>_. sim_ok) (\<lambda>_. sim_ok) v" if "sim_ok v" for v oid
  proof (cases "map_of (sm_orders v) oid")
    case None
    with that show ?thesis by (simp add: sim_api_def sim_cancel_def wp_def)
  next
    case (Some ord)
    have "sim_ok (v\<lparr>sm_orders := od_set oid (ord\<lparr>o_state := O_CANCELLED\<rparr>) (sm_orders v)\<rparr>)"
      by (rule sim_ok_set [OF that])
        (use that Some in \<open>auto simp: sim_ok_def sim_order_ok_def order_sane_def\<close>)
    with that Some show ?thesis by (simp add: sim_api_def sim_cancel_def wp_def)
  qed
  show "wp (va_status sim_api oid) (\<lambda>x v'. sim_ok v' \<and> order_sane x \<and> o_id x = oid) (\<lambda>_. sim_ok) v"
    if "sim_ok v" for v oid
    using that by (auto simp: sim_api_def sim_status_def wp_def sim_ok_def sim_order_ok_def split: option.split)
  show "wp (va_mid sim_api pair) (\<lambda>m v'. sim_ok v' \<and> 0 < m) (\<lambda>_. sim_ok) v" if "sim_ok v" for v pair
    using that by (auto simp: sim_api_def sim_mid_def wp_def sim_ok_def)
  show "sim_ok (va_sleep sim_api d v)" if "sim_ok v" for d v
    using that by (auto simp: sim_api_def sim_ok_def)
qed

end
