(* ===== verification/Twap_Executor.thy ===== *)
theory Twap_Executor
  imports Executor_Base Sim_Adapter
begin

text \<open>
  The TWAP executor, from \<open>engine/executors/twap_executor.py\<close>: a total quote amount worked
  in equal slices on a schedule. Each \<open>tw_\<close> program is the method of that name; the
  catch-up loop of \<open>on_tick\<close> runs on fuel, with the lemma that the fuel given is enough.
\<close>

record tw_config =
  tc_pair :: string
  tc_side :: trade_type
  tc_total :: dec
  tc_duration :: time
  tc_interval :: time
  tc_mode :: string
  tc_leverage :: int
  tc_offset_bp :: dec

definition check_tw_config :: "tw_config \<Rightarrow> exc + tw_config" where
  "check_tw_config c =
     (if tc_interval c \<le> 0 then Inl (ValueError ''order_interval must be > 0'')
      else if tc_duration c < tc_interval c
      then Inl (ValueError ''total_duration must be >= order_interval'')
      else Inr c)"

definition n_orders :: "tw_config \<Rightarrow> int" where
  "n_orders c = \<lfloor>tc_duration c / tc_interval c\<rfloor>"

definition amount_per_order_quote :: "tw_config \<Rightarrow> dec" where
  "amount_per_order_quote c = tc_total c / of_int (n_orders c)"

record twap_exec = exec_base +
  tw_config :: tw_config
  tw_n :: int
  tw_start :: time
  tw_index :: int
  tw_order :: "nado_order option"
  tw_rec :: dec
  tw_rec_quote :: dec
  tw_rec_fee :: dec
  tw_base :: dec
  tw_quote :: dec
  tw_lost :: nat
  tw_p0 :: "dec option"
  tw_last_mid :: "dec option"

type_synonym ('v, 'x) tw_st = "'x twap_exec_scheme \<times> 'v env"

definition mk_twap_exec :: "string \<Rightarrow> int \<Rightarrow> string \<Rightarrow> bool \<Rightarrow> tw_config \<Rightarrow> time \<Rightarrow> twap_exec" where
  "mk_twap_exec xid user cid has_inv c t =
     exec_base.extend
       (mk_exec_base xid user cid (tc_pair c) True has_inv
          \<lparr>cv_crosses = False, cv_strategy = None, cv_leverages = [Some (of_int (tc_leverage c))]\<rparr> t)
       (twap_exec.fields c (n_orders c) 0 (- 1) None 0 0 0 0 0 0 None None)"

definition is_maker :: "tw_config \<Rightarrow> bool" where
  "is_maker c \<longleftrightarrow> upper_str (tc_mode c) = ''MAKER''"

definition average_executed_price :: "'x twap_exec_scheme \<Rightarrow> dec option" where
  "average_executed_price x = (if tw_base x > 0 then Some (tw_quote x / tw_base x) else None)"

definition due_index :: "time \<Rightarrow> 'x twap_exec_scheme \<Rightarrow> int" where
  "due_index now x = min (tw_n x - 1) \<lfloor>(now - tw_start x) / tc_interval (tw_config x)\<rfloor>"

definition current_filled :: "'x twap_exec_scheme \<Rightarrow> bool" where
  "current_filled x \<longleftrightarrow> (case tw_order x of None \<Rightarrow> False | Some ord \<Rightarrow> o_state ord = O_FILLED)"

definition last_slice_resolved :: "time \<Rightarrow> 'x twap_exec_scheme \<Rightarrow> bool" where
  "last_slice_resolved now x \<longleftrightarrow>
     (if \<not> is_maker (tw_config x) then True
      else if current_filled x then True
      else now - tw_start x \<ge> tc_duration (tw_config x))"

subsection \<open>Slices\<close>

definition tw_ingest :: "'v venue_api \<Rightarrow> nado_order \<Rightarrow> (('v, 'x) tw_st, unit) prog" where
  "tw_ingest api ord = bindP me (\<lambda>x.
     if o_filled_base ord - tw_rec x \<le> 0 then ret ()
     else bindP (clock api) (\<lambda>t.
       let f = \<lparr>f_order_id = o_id ord, f_pair = ex_pair x, f_side = tc_side (tw_config x),
                f_base = o_filled_base ord - tw_rec x,
                f_price = (o_filled_quote ord - tw_rec_quote x) / (o_filled_base ord - tw_rec x),
                f_fee = o_fee ord - tw_rec_fee x, f_ts = t\<rparr> in
       thenP (record_fill api f ord None)
         (upd (\<lambda>x. x\<lparr>tw_base := tw_base x + (o_filled_base ord - tw_rec x),
            tw_quote := tw_quote x + (o_filled_quote ord - tw_rec_quote x),
            tw_rec := o_filled_base ord, tw_rec_quote := o_filled_quote ord, tw_rec_fee := o_fee ord\<rparr>))))"

definition slice_price :: "tw_config \<Rightarrow> dec \<Rightarrow> dec" where
  "slice_price c mid = (let offset = tc_offset_bp c / 10000 in
     if offset > 0 then (if tc_side c = BUY then mid * (1 - offset) else mid * (1 + offset)) else mid)"

definition tw_send :: "'v venue_api \<Rightarrow> string \<Rightarrow> order_type \<Rightarrow> dec \<Rightarrow> dec option
    \<Rightarrow> (('v, 'x) tw_st, unit) prog" where
  "tw_send api label ty amt px = bindP me (\<lambda>x. let c = tw_config x in
     bindP (guard api label (va_place api (ex_pair x) (tc_side c) ty amt px (tc_leverage c) False))
       (\<lambda>ord. seqP [upd (\<lambda>x. x\<lparr>tw_order := Some ord\<rparr>),
          upd (\<lambda>x. x\<lparr>tw_rec := 0, tw_rec_quote := 0, tw_rec_fee := 0\<rparr>),
          tw_ingest api ord]))"

definition tw_place_slice :: "'v venue_api \<Rightarrow> int \<Rightarrow> dec \<Rightarrow> (('v, 'x) tw_st, unit) prog" where
  "tw_place_slice api index mid = bindP me (\<lambda>x. let c = tw_config x; px = slice_price c mid in
     thenP
       (if is_maker c
        then (if px = 0 then raise (OtherError ''DivisionByZero'')
              else tw_send api ''twap_maker'' LIMIT_MAKER (amount_per_order_quote c / px) (Some px))
        else (if mid = 0 then raise (OtherError ''DivisionByZero'')
              else tw_send api ''twap_taker'' MARKET (amount_per_order_quote c / mid) None))
       (upd (\<lambda>x. x\<lparr>tw_index := index\<rparr>)))"

definition tw_cancel_and_ingest :: "'v venue_api \<Rightarrow> (('v, 'x) tw_st, unit) prog" where
  "tw_cancel_and_ingest api = bindP me (\<lambda>x. case tw_order x of
     None \<Rightarrow> ret ()
   | Some o0 \<Rightarrow> thenP
      (tryP (thenP (guard api ''twap_cancel'' (va_cancel api (o_id o0))) (ret ())) (\<lambda>_. ret ()))
      (tryP (bindP (guard api ''twap_post_cancel_status'' (va_status api (o_id o0)))
         (\<lambda>r. thenP (upd (\<lambda>x. x\<lparr>tw_order := Some r\<rparr>)) (tw_ingest api r))) (\<lambda>_. ret ())))"

definition resting_maker :: "'x twap_exec_scheme \<Rightarrow> bool" where
  "resting_maker x \<longleftrightarrow> is_maker (tw_config x) \<and> tw_order x \<noteq> None \<and> \<not> current_filled x"

definition tw_advance :: "'v venue_api \<Rightarrow> dec \<Rightarrow> (('v, 'x) tw_st, unit) prog" where
  "tw_advance api mid = seqP
     [bindP me (\<lambda>x. whenP (resting_maker x)
        (thenP (tw_cancel_and_ingest api) (upd (\<lambda>x. x\<lparr>tw_lost := Suc (tw_lost x)\<rparr>)))),
      bindP me (\<lambda>x. tw_place_slice api (tw_index x + 1) mid)]"

fun tw_catch_up :: "'v venue_api \<Rightarrow> dec \<Rightarrow> int \<Rightarrow> nat \<Rightarrow> (('v, 'x) tw_st, unit) prog" where
  "tw_catch_up api mid due 0 = ret ()"
| "tw_catch_up api mid due (Suc k) = bindP me (\<lambda>x.
     if tw_index x < due \<and> \<not> is_terminated x
     then thenP (tw_advance api mid) (tw_catch_up api mid due k) else ret ())"

subsection \<open>Lifecycle\<close>

definition tw_on_create :: "'v venue_api \<Rightarrow> (('v, 'x) tw_st, unit) prog" where
  "tw_on_create api = thenP activate (bindP (clock api) (\<lambda>t.
     thenP (upd (\<lambda>x. x\<lparr>tw_start := t\<rparr>)) (bindP me (\<lambda>x.
       bindP (guard api ''twap_mid'' (va_mid api (ex_pair x))) (\<lambda>mid.
         thenP (upd (\<lambda>x. x\<lparr>tw_p0 := Some mid, tw_last_mid := Some mid\<rparr>))
           (tw_place_slice api 0 mid))))))"

definition tw_finalize :: "'v venue_api \<Rightarrow> (('v, 'x) tw_st, unit) prog" where
  "tw_finalize api = seqP
     [bindP me (\<lambda>x. whenP (resting_maker x)
        (thenP (tw_cancel_and_ingest api) (upd (\<lambda>x. x\<lparr>tw_lost := Suc (tw_lost x)\<rparr>)))),
      upd (\<lambda>x. let p0 = or_dec (tw_p0 x) 0; mark = or_dec (tw_last_mid x) p0;
                   pnl = (if tc_side (tw_config x) = BUY then (mark - p0) * tw_base x
                          else (p0 - mark) * tw_base x)
               in x\<lparr>ex_net_pnl := pnl - ex_fees x\<rparr>),
      terminate api COMPLETED]"

definition tw_on_tick :: "'v venue_api \<Rightarrow> (('v, 'x) tw_st, unit) prog" where
  "tw_on_tick api = bindP me (\<lambda>x0.
     if is_terminated x0 then ret ()
     else bindP (clock api) (\<lambda>now.
       bindP (guard api ''twap_mid'' (va_mid api (ex_pair x0))) (\<lambda>mid. seqP
         [upd (\<lambda>x. x\<lparr>tw_last_mid := Some mid\<rparr>),
          bindP me (\<lambda>x. case tw_order x of
              None \<Rightarrow> ret ()
            | Some o0 \<Rightarrow> whenP (resting_maker x)
                (bindP (guard api ''twap_status'' (va_status api (o_id o0)))
                  (\<lambda>r. thenP (upd (\<lambda>x. x\<lparr>tw_order := Some r\<rparr>)) (tw_ingest api r)))),
          bindP me (\<lambda>x. tw_catch_up api mid (due_index now x) (nat (due_index now x - tw_index x))),
          bindP me (\<lambda>x. whenP (tw_index x \<ge> tw_n x - 1 \<and> last_slice_resolved now x)
            (tw_finalize api))])))"

definition tw_on_stop :: "'v venue_api \<Rightarrow> close_type \<Rightarrow> (('v, 'x) tw_st, unit) prog" where
  "tw_on_stop api ct = bindP me (\<lambda>x.
     if is_terminated x then ret ()
     else seqP [whenP (resting_maker x) (tw_cancel_and_ingest api), terminate api ct])"

datatype 'v tw_event = TW_Tick | TW_Stop close_type | TW_World "'v \<Rightarrow> 'v"

fun tw_handle :: "'v venue_api \<Rightarrow> 'v tw_event \<Rightarrow> (('v, 'x) tw_st, unit) prog" where
  "tw_handle api TW_Tick = tw_on_tick api"
| "tw_handle api (TW_Stop ct) = tw_on_stop api ct"
| "tw_handle api (TW_World w) = modifyP (\<lambda>(x, e). (x, e\<lparr>env_venue := w (env_venue e)\<rparr>))"

text \<open>An executor is created once, then ticked and stopped.\<close>

definition tw_run :: "'v venue_api \<Rightarrow> 'v tw_event list \<Rightarrow> ('v, 'x) tw_st \<Rightarrow> ('v, 'x) tw_st" where
  "tw_run api evs s = foldl (\<lambda>s ev. snd (tw_handle api ev s)) (snd (tw_on_create api s)) evs"

subsection \<open>The catch-up loop ends\<close>

lemma tw_fields [simp]:
  "tw_config (terminated ct t x) = tw_config x" "tw_config (activated x) = tw_config x"
  "tw_config (charged f x) = tw_config x" "tw_index (terminated ct t x) = tw_index x"
  "tw_index (activated x) = tw_index x" "tw_index (charged f x) = tw_index x"
  "tw_n (terminated ct t x) = tw_n x" "tw_n (activated x) = tw_n x" "tw_n (charged f x) = tw_n x"
  "tw_order (charged f x) = tw_order x" "tw_start (charged f x) = tw_start x"
  by (simp_all add: terminated_def activated_def charged_def)

lemma keeps_tw_ingest:
  assumes "\<And>x e f p c. I (x, e) \<Longrightarrow> I (charged f x, e) \<and> I (charged f x, booked f p c x e)"
    and "\<And>x e b q rb rq rf. I (x, e)
        \<Longrightarrow> I (x\<lparr>tw_base := b, tw_quote := q, tw_rec := rb, tw_rec_quote := rq, tw_rec_fee := rf\<rparr>, e)"
  shows "keeps I (tw_ingest api ord)"
  by (rule keepsI) (auto simp: tw_ingest_def Let_def assms(1) intro!: assms(2))

lemma keeps_tw_index:
  "keeps (\<lambda>s. tw_index (fst s) = i) (tw_ingest api ord)"
  "keeps (\<lambda>s. tw_index (fst s) = i) (tw_cancel_and_ingest api)"
proof -
  show ing: "keeps (\<lambda>s. tw_index (fst s) = i) (tw_ingest api ord)" for ord
    by (rule keeps_tw_ingest) auto
  show "keeps (\<lambda>s. tw_index (fst s) = i) (tw_cancel_and_ingest api)"
    unfolding tw_cancel_and_ingest_def by (intro keeps_intros keeps_upd ing) auto
qed

lemma wp_then_upd:
  assumes "\<And>x e. Q () (f x, e)" and "\<And>c s. E c s"
  shows "wp (thenP p (upd f)) Q E s"
proof -
  have "wp (upd f) Q E s'" for s'
    using assms(1) by (cases s') simp
  with assms(2) show ?thesis by (simp add: wp_any)
qed

lemma wp_advance_index:
  "wp (tw_advance api mid) (\<lambda>_ s. tw_index (fst s) = tw_index x + 1) (\<lambda>_ _. True) (x, e)"
proof -
  have place: "wp (tw_place_slice api i mid) (\<lambda>_ s. tw_index (fst s) = i) (\<lambda>_ _. True) s" for i s
    by (cases s) (simp add: tw_place_slice_def Let_def wp_bind [of me] wp_then_upd del: wp_bind)
  have "keeps (\<lambda>s. tw_index (fst s) = tw_index x) (bindP me (\<lambda>x. whenP (resting_maker x)
        (thenP (tw_cancel_and_ingest api) (upd (\<lambda>x. x\<lparr>tw_lost := Suc (tw_lost x)\<rparr>)))))"
    by (intro keeps_intros keeps_upd keeps_tw_index) auto
  then show ?thesis
    unfolding tw_advance_def wp_seq_simps
  proof (rule keeps_wp)
    show "wp (bindP me (\<lambda>x. tw_place_slice api (tw_index x + 1) mid))
        (\<lambda>_ s. tw_index (fst s) = tw_index x + 1) (\<lambda>_ _. True) s'"
      if "tw_index (fst s') = tw_index x" for s'
      using that place by (cases s') simp
  qed simp_all
qed

text \<open>
  A law: the catch-up loop of a tick ends, and the fuel it is given suffices. From any
  state, any larger bound on the number of rounds gives the very same run; and when the
  loop returns normally, the slice that is due has been placed or the executor is
  terminated.
\<close>

theorem twap_catch_up_total:
  assumes "nat (due - tw_index x) \<le> k"
  shows "tw_catch_up api mid due k (x, e) = tw_catch_up api mid due (nat (due - tw_index x)) (x, e)
    \<and> (\<forall>u x' e'. tw_catch_up api mid due k (x, e) = (Inr u, (x', e'))
         \<longrightarrow> due \<le> tw_index x' \<or> is_terminated x')"
  using assms
proof (induction k arbitrary: x e)
  case 0
  then show ?case by (simp add: ret_def)
next
  case (Suc k)
  show ?case
  proof (cases "tw_index x < due \<and> \<not> is_terminated x")
    case False
    then have "tw_catch_up api mid due n (x, e) = (Inr (), (x, e))" for n
      by (cases n) (auto simp: bindP_def me_def getsP_def ret_def)
    with False show ?thesis by (auto simp del: tw_catch_up.simps)
  next
    case True
    then obtain n where n: "nat (due - tw_index x) = Suc n"
      by (metis diff_gt_0_iff_gt gr0_implies_Suc zero_less_nat_eq)
    obtain r x1 e1 where adv: "tw_advance api mid (x, e) = (r, (x1, e1))"
      by (metis prod.collapse)
    have step: "tw_catch_up api mid due (Suc m) (x, e)
        = (case r of Inl c \<Rightarrow> (Inl c, (x1, e1)) | Inr _ \<Rightarrow> tw_catch_up api mid due m (x1, e1))" for m
      using True by (simp add: bindP_def me_def getsP_def adv split: sum.split)
    show ?thesis
    proof (cases r)
      case (Inl c)
      then show ?thesis by (simp add: step n del: tw_catch_up.simps)
    next
      case (Inr u)
      have "tw_index x1 = tw_index x + 1"
        using wp_ret_value [OF _ wp_advance_index [of api mid x e]] adv Inr by auto
      then have "nat (due - tw_index x1) = n" "n \<le> k" using n Suc.prems by simp_all
      with Suc.IH [of x1 e1] Inr show ?thesis by (simp add: step n del: tw_catch_up.simps)
    qed
  qed
qed

subsection \<open>A TWAP never overspends\<close>

text \<open>
  Over an observed venue: as many orders have been accepted as slices are behind us, their
  value is the schedule's value so far, and the index never passes the last slice.
\<close>

definition tw_inv :: "('v \<Rightarrow> bool) \<Rightarrow> tw_config \<Rightarrow> ('v \<times> venue_call list, 'x) tw_st \<Rightarrow> bool" where
  "tw_inv ok c s \<longleftrightarrow> (case s of (x, e) \<Rightarrow> ok (fst (env_venue e)) \<and> tw_config x = c \<and> tw_n x = n_orders c
     \<and> - 1 \<le> tw_index x \<and> tw_index x \<le> n_orders c - 1
     \<and> int (length (placed_ids (snd (env_venue e)))) = tw_index x + 1
     \<and> ordered_quote (snd (env_venue e)) = of_int (tw_index x + 1) * amount_per_order_quote c)"

lemma tw_inv_cong:
  "tw_inv ok c (x, e) \<Longrightarrow> tw_config y = tw_config x \<Longrightarrow> tw_n y = tw_n x \<Longrightarrow> tw_index y = tw_index x
   \<Longrightarrow> ok (fst (env_venue e')) \<Longrightarrow> log_same (snd (env_venue e)) (snd (env_venue e')) \<Longrightarrow> tw_inv ok c (y, e')"
  by (simp add: tw_inv_def log_same_def)

lemma log_same_refl [simp]: "log_same l l"
  by (simp add: log_same_def)

lemma log_same_trans: "log_same l m \<Longrightarrow> log_same m n \<Longrightarrow> log_same l n"
  by (simp add: log_same_def)

lemma tw_inv_same:
  "tw_inv ok c (x, e) \<Longrightarrow> tw_config y = tw_config x \<Longrightarrow> tw_n y = tw_n x \<Longrightarrow> tw_index y = tw_index x
   \<Longrightarrow> env_venue e' = env_venue e \<Longrightarrow> tw_inv ok c (y, e')"
  by (simp add: tw_inv_def)

lemma keeps_tw_upd:
  "(\<And>x. tw_config (f x) = tw_config x \<and> tw_n (f x) = tw_n x \<and> tw_index (f x) = tw_index x)
   \<Longrightarrow> keeps (tw_inv ok c) (upd f)"
  by (rule keeps_upd) (auto intro: tw_inv_same)

definition tw_sound :: "tw_config \<Rightarrow> bool" where
  "tw_sound c \<longleftrightarrow> is_maker c \<and> 0 < tc_total c \<and> 1 \<le> n_orders c \<and> tc_offset_bp c < 10000"

lemma slice_price_pos: "tw_sound c \<Longrightarrow> 0 < mid \<Longrightarrow> 0 < slice_price c mid"
  by (auto simp: slice_price_def Let_def tw_sound_def intro!: mult_pos_pos)

lemma slice_amount_pos: "tw_sound c \<Longrightarrow> 0 < amount_per_order_quote c"
  by (simp add: amount_per_order_quote_def tw_sound_def)

context venue
begin

lemma keeps_quiet_guard:
  assumes op: "\<And>w. ok (fst w) \<Longrightarrow> wp op (\<lambda>_ w'. ok (fst w') \<and> log_same (snd w) (snd w'))
    (\<lambda>_ w'. ok (fst w') \<and> log_same (snd w) (snd w')) w"
  shows "keeps (tw_inv ok c) (guard (logged api) label op)"
proof (rule keepsI)
  fix s :: "('v \<times> venue_call list, 'x) tw_st"
  assume inv: "tw_inv ok c s"
  obtain x e where s: "s = (x, e)" by fastforce
  define K where "K w \<longleftrightarrow> ok (fst w) \<and> log_same (snd (env_venue e)) (snd w)" for w
  show "wp (guard (logged api) label op) (\<lambda>_. tw_inv ok c) (\<lambda>_. tw_inv ok c) s"
    unfolding s
  proof (rule wp_guard_law [where pre = K and bad = K and R = "\<lambda>_. K"])
    show "K (env_venue e)" using inv by (simp add: K_def tw_inv_def s)
    show "wp op (\<lambda>_. K) (\<lambda>_. K) w" if "K w" for w
      by (rule wp_mono [OF op]) (use that in \<open>auto simp: K_def intro: log_same_trans\<close>)
    show "K (va_sleep (logged api) d w)" if "K w" for d w
      using that sleep_ok by (simp add: K_def)
  qed (use inv in \<open>auto simp: K_def s intro: tw_inv_cong\<close>)
qed

lemma keeps_tw_quiet:
  "keeps (tw_inv ok c) (tw_ingest (logged api) ord)"
  "keeps (tw_inv ok c) (tw_cancel_and_ingest (logged api))"
  "keeps (tw_inv ok c) (terminate (logged api) ct)"
  "keeps (tw_inv ok c) activate"
  "keeps (tw_inv ok c) (guard (logged api) label (va_status (logged api) oid))"
  "keeps (tw_inv ok c) (guard (logged api) label (va_cancel (logged api) oid))"
  "keeps (tw_inv ok c) (guard (logged api) label (va_mid (logged api) pair))"
proof -
  have g: "keeps (tw_inv ok c) (guard (logged api) label (va_status (logged api) oid))"
    "keeps (tw_inv ok c) (guard (logged api) label (va_cancel (logged api) oid))"
    "keeps (tw_inv ok c) (guard (logged api) label (va_mid (logged api) pair))" for label oid pair
    by (auto intro!: keeps_quiet_guard logged_quiet wp_mono [OF logged_quiet(3)])
  have i: "keeps (tw_inv ok c) (tw_ingest (logged api) ord)" for ord
    by (rule keeps_tw_ingest) (auto elim: tw_inv_same)
  show "keeps (tw_inv ok c) (tw_ingest (logged api) ord)" by (rule i)
  show "keeps (tw_inv ok c) (tw_cancel_and_ingest (logged api))"
    unfolding tw_cancel_and_ingest_def
    by (intro keeps_bind keeps_me keeps_option keeps_ret keeps_try keeps_tw_upd g i) auto
  show "keeps (tw_inv ok c) (terminate (logged api) ct)"
    by (rule keeps_terminate) (auto elim: tw_inv_same)
  show "keeps (tw_inv ok c) activate"
    by (rule keeps_activate) (auto elim: tw_inv_same)
  show "keeps (tw_inv ok c) (guard (logged api) label (va_status (logged api) oid))" by (rule g(1))
  show "keeps (tw_inv ok c) (guard (logged api) label (va_cancel (logged api) oid))" by (rule g(2))
  show "keeps (tw_inv ok c) (guard (logged api) label (va_mid (logged api) pair))" by (rule g(3))
qed

lemma tw_send_counts:
  fixes x :: "'x twap_exec_scheme" and e :: "('v \<times> venue_call list) env"
  assumes inv: "tw_inv ok c (x, e)" and next_slice: "tw_index x + 1 \<le> n_orders c - 1"
    and amt: "0 < amt" "0 < p" "amt * p = amount_per_order_quote c"
  shows "wp (tw_send (logged api) label ty amt (Some p))
    (\<lambda>_ s. tw_inv ok c (fst s\<lparr>tw_index := tw_index x + 1\<rparr>, snd s)) (\<lambda>_. tw_inv ok c) (x, e)"
  unfolding tw_send_def Let_def wp_bind wp_me
proof (rule wp_guard_law [where pre = "\<lambda>w. ok (fst w) \<and> log_same (snd (env_venue e)) (snd w)"
      and bad = "\<lambda>w. ok (fst w) \<and> log_same (snd (env_venue e)) (snd w)"
      and R = "\<lambda>ord w. ok (fst w) \<and> order_sane ord \<and> length (placed_ids (snd w)) = Suc (length (placed_ids (snd (env_venue e))))
         \<and> ordered_quote (snd w) = ordered_quote (snd (env_venue e)) + amount_per_order_quote c"])
  show "ok (fst (env_venue e)) \<and> log_same (snd (env_venue e)) (snd (env_venue e))"
    using inv by (simp add: tw_inv_def)
  show "wp (va_place (logged api) pair side ty amt (Some p) lev ro)
      (\<lambda>ord w. ok (fst w) \<and> order_sane ord \<and> length (placed_ids (snd w)) = Suc (length (placed_ids (snd (env_venue e))))
         \<and> ordered_quote (snd w) = ordered_quote (snd (env_venue e)) + amount_per_order_quote c)
      (\<lambda>_ w. ok (fst w) \<and> log_same (snd (env_venue e)) (snd w)) w"
    if "ok (fst w) \<and> log_same (snd (env_venue e)) (snd w)" for w pair side lev ro
    by (rule wp_mono [OF logged_place]) (use that amt in \<open>auto simp: log_same_def\<close>)
  show "ok (fst (va_sleep (logged api) d w)) \<and> log_same (snd (env_venue e)) (snd (va_sleep (logged api) d w))"
    if "ok (fst w) \<and> log_same (snd (env_venue e)) (snd w)" for d w
    using that sleep_ok by simp
  show "wp (seqP [upd (\<lambda>x. x\<lparr>tw_order := Some ord\<rparr>),
        upd (\<lambda>x. x\<lparr>tw_rec := 0, tw_rec_quote := 0, tw_rec_fee := 0\<rparr>), tw_ingest (logged api) ord])
      (\<lambda>_ s. tw_inv ok c (fst s\<lparr>tw_index := tw_index x + 1\<rparr>, snd s)) (\<lambda>_. tw_inv ok c)
      (x\<lparr>ex_retries := n\<rparr>, e\<lparr>env_venue := w\<rparr>)"
    if "ok (fst w) \<and> order_sane ord \<and> length (placed_ids (snd w)) = Suc (length (placed_ids (snd (env_venue e))))
         \<and> ordered_quote (snd w) = ordered_quote (snd (env_venue e)) + amount_per_order_quote c" for ord n w
  proof -
    have "tw_inv ok c (y\<lparr>tw_index := tw_index x + 1\<rparr>, e')"
      if "tw_config y = tw_config x" "tw_n y = tw_n x" "env_venue e' = w" for y :: "'x twap_exec_scheme" and e'
      using that \<open>ok (fst w) \<and> _\<close> inv next_slice by (simp add: tw_inv_def algebra_simps)
    moreover have "0 \<le> o_filled_base ord" "0 \<le> o_filled_quote ord"
      using that by (simp_all add: order_sane_def)
    ultimately show ?thesis
      by (simp add: tw_ingest_def Let_def fill_refused_def f_quote_def)
  qed
qed (use inv in \<open>auto intro: tw_inv_cong\<close>)

lemma guard_mid_inv:
  assumes inv: "tw_inv ok c s" and Q: "\<And>m s. 0 < m \<Longrightarrow> tw_inv ok c s \<Longrightarrow> Q m s"
    and E: "\<And>f s. tw_inv ok c s \<Longrightarrow> E f s"
  shows "wp (guard (logged api) label (va_mid (logged api) pair)) Q E s"
proof -
  obtain x e where s: "s = (x, e)" by fastforce
  define K where "K w \<longleftrightarrow> ok (fst w) \<and> log_same (snd (env_venue e)) (snd w)" for w
  have K: "tw_inv ok c (y, e\<lparr>env_venue := w\<rparr>)" if "K w" "tw_config y = tw_config x" "tw_n y = tw_n x"
    "tw_index y = tw_index x" for y w
    using inv that by (auto simp: s K_def intro: tw_inv_cong)
  show ?thesis
    unfolding s
  proof (rule wp_guard_law [where pre = K and bad = K and R = "\<lambda>m w. 0 < m \<and> K w"])
    show "K (env_venue e)" using inv by (simp add: K_def tw_inv_def s)
    show "wp (va_mid (logged api) pair) (\<lambda>m w. 0 < m \<and> K w) (\<lambda>_. K) w" if "K w" for w
      by (rule wp_mono [OF logged_quiet(3)]) (use that in \<open>auto simp: K_def intro: log_same_trans\<close>)
    show "K (va_sleep (logged api) d w)" if "K w" for d w
      using that sleep_ok by (simp add: K_def)
  qed (auto intro!: Q E K)
qed

lemma place_slice_counts:
  assumes inv: "tw_inv ok c (x, e)" and next_slice: "tw_index x + 1 \<le> n_orders c - 1"
    and c: "tw_sound c" "0 < mid"
  shows "wp (tw_place_slice (logged api) (tw_index x + 1) mid) (\<lambda>_. tw_inv ok c) (\<lambda>_. tw_inv ok c) (x, e)"
proof -
  have cfg: "tw_config x = c" using inv by (simp add: tw_inv_def)
  have px: "0 < slice_price c mid" and per: "0 < amount_per_order_quote c"
    using slice_price_pos slice_amount_pos c by auto
  have "wp (tw_send (logged api) ''twap_maker'' LIMIT_MAKER (amount_per_order_quote c / slice_price c mid)
      (Some (slice_price c mid))) (\<lambda>_ s. tw_inv ok c (fst s\<lparr>tw_index := tw_index x + 1\<rparr>, snd s))
      (\<lambda>_. tw_inv ok c) (x, e)"
    by (rule tw_send_counts [OF inv next_slice]) (use px per in auto)
  then have "wp (tw_send (logged api) ''twap_maker'' LIMIT_MAKER (amount_per_order_quote c / slice_price c mid)
      (Some (slice_price c mid))) (\<lambda>_. wp (upd (\<lambda>x'. x'\<lparr>tw_index := tw_index x + 1\<rparr>)) (\<lambda>_. tw_inv ok c)
        (\<lambda>_. tw_inv ok c)) (\<lambda>_. tw_inv ok c) (x, e)"
    by (rule wp_mono) auto
  with px c show ?thesis
    by (simp add: tw_place_slice_def Let_def cfg tw_sound_def)
qed

lemma advance_counts:
  assumes inv: "tw_inv ok c (x, e)" and next_slice: "tw_index x + 1 \<le> n_orders c - 1"
    and c: "tw_sound c" "0 < mid"
  shows "wp (tw_advance (logged api) mid) (\<lambda>_. tw_inv ok c) (\<lambda>_. tw_inv ok c) (x, e)"
proof -
  let ?p = "bindP me (\<lambda>x. whenP (resting_maker x)
        (thenP (tw_cancel_and_ingest (logged api)) (upd (\<lambda>x. x\<lparr>tw_lost := Suc (tw_lost x)\<rparr>))))"
  have "keeps (tw_inv ok c) ?p"
    by (intro keeps_bind keeps_me keeps_when keeps_tw_quiet keeps_tw_upd) simp
  moreover have "keeps (\<lambda>s. tw_index (fst s) = tw_index x) ?p"
    by (intro keeps_bind keeps_me keeps_when keeps_upd keeps_tw_index) auto
  ultimately have "wp ?p (\<lambda>_ s. tw_inv ok c s \<and> tw_index (fst s) = tw_index x)
      (\<lambda>_ s. tw_inv ok c s \<and> tw_index (fst s) = tw_index x) (x, e)"
    using inv by (intro wp_conj keepsD [where I = "tw_inv ok c"]
      keepsD [where I = "\<lambda>s. tw_index (fst s) = tw_index x"]) simp_all
  then show ?thesis
    unfolding tw_advance_def wp_seq_simps
  proof (rule wp_mono)
    show "wp (bindP me (\<lambda>x. tw_place_slice (logged api) (tw_index x + 1) mid)) (\<lambda>_. tw_inv ok c)
        (\<lambda>_. tw_inv ok c) s'"
      if "tw_inv ok c s' \<and> tw_index (fst s') = tw_index x" for s'
      using place_slice_counts [of c "fst s'" "snd s'" mid] that next_slice c by (cases s') simp
  qed simp
qed

lemma catch_up_counts:
  fixes x :: "'x twap_exec_scheme"
  assumes "tw_inv ok c (x, e)" "due \<le> n_orders c - 1" "tw_sound c" "0 < mid"
  shows "wp (tw_catch_up (logged api) mid due k) (\<lambda>_. tw_inv ok c) (\<lambda>_. tw_inv ok c) (x, e)"
  using assms(1)
proof (induction k arbitrary: x e)
  case (Suc k)
  have "wp (tw_catch_up (logged api) mid due k) (\<lambda>_. tw_inv ok c) (\<lambda>_. tw_inv ok c) s" if "tw_inv ok c s"
    for s :: "('v \<times> venue_call list, 'x) tw_st"
    using Suc.IH [of "fst s" "snd s"] that by simp
  moreover have "wp (tw_advance (logged api) mid) (\<lambda>_. tw_inv ok c) (\<lambda>_. tw_inv ok c) (x, e)"
    if "tw_index x < due"
    by (rule advance_counts [OF Suc.prems]) (use that assms in auto)
  ultimately show ?case
    using Suc.prems by (auto intro: wp_mono)
qed simp

lemma finalize_counts: "keeps (tw_inv ok c) (tw_finalize (logged api))"
  unfolding tw_finalize_def Let_def
  by (intro keeps_seq keeps_bind keeps_me keeps_when keeps_tw_quiet keeps_tw_upd) simp_all

lemma tick_counts:
  assumes "tw_sound c"
  shows "keeps (tw_inv ok c) (tw_on_tick (logged api))"
proof (rule keepsI)
  fix s :: "('v \<times> venue_call list, 'x) tw_st"
  assume inv: "tw_inv ok c s"
  obtain x e where s: "s = (x, e)" by fastforce
  have poll: "keeps (tw_inv ok c) (bindP me (\<lambda>x. case tw_order x of None \<Rightarrow> ret ()
      | Some o0 \<Rightarrow> whenP (resting_maker x) (bindP (guard (logged api) ''twap_status'' (va_status (logged api) (o_id o0)))
          (\<lambda>r. thenP (upd (\<lambda>x. x\<lparr>tw_order := Some r\<rparr>)) (tw_ingest (logged api) r)))))"
    by (intro keeps_bind keeps_me keeps_option keeps_ret keeps_when keeps_tw_quiet keeps_tw_upd) simp
  have last: "keeps (tw_inv ok c) (upd (\<lambda>x. x\<lparr>tw_last_mid := Some mid\<rparr>))" for mid
    by (rule keeps_tw_upd) simp
  have "keeps (tw_inv ok c) (bindP me (\<lambda>x. tw_catch_up (logged api) mid (due_index now x)
      (nat (due_index now x - tw_index x))))" if "0 < mid" for mid now
    by (rule keepsI, clarsimp simp del: tw_catch_up.simps, rule catch_up_counts)
      (use assms that in \<open>auto simp: due_index_def tw_inv_def\<close>)
  moreover have "keeps (tw_inv ok c) (bindP me (\<lambda>x. whenP (tw_index x \<ge> tw_n x - 1 \<and> last_slice_resolved now x)
      (tw_finalize (logged api))))" for now
    by (intro keeps_bind keeps_me keeps_when finalize_counts)
  ultimately have rest: "keeps (tw_inv ok c) (seqP
      [upd (\<lambda>x. x\<lparr>tw_last_mid := Some mid\<rparr>),
       bindP me (\<lambda>x. case tw_order x of None \<Rightarrow> ret ()
         | Some o0 \<Rightarrow> whenP (resting_maker x) (bindP (guard (logged api) ''twap_status'' (va_status (logged api) (o_id o0)))
             (\<lambda>r. thenP (upd (\<lambda>x. x\<lparr>tw_order := Some r\<rparr>)) (tw_ingest (logged api) r)))),
       bindP me (\<lambda>x. tw_catch_up (logged api) mid (due_index now x) (nat (due_index now x - tw_index x))),
       bindP me (\<lambda>x. whenP (tw_index x \<ge> tw_n x - 1 \<and> last_slice_resolved now x) (tw_finalize (logged api)))])"
    if "0 < mid" for mid now
    using that by (intro keeps_seq last poll)
  have "wp (guard (logged api) ''twap_mid'' (va_mid (logged api) (ex_pair x))) (\<lambda>mid. wp (seqP
      [upd (\<lambda>x. x\<lparr>tw_last_mid := Some mid\<rparr>),
       bindP me (\<lambda>x. case tw_order x of None \<Rightarrow> ret ()
         | Some o0 \<Rightarrow> whenP (resting_maker x) (bindP (guard (logged api) ''twap_status'' (va_status (logged api) (o_id o0)))
             (\<lambda>r. thenP (upd (\<lambda>x. x\<lparr>tw_order := Some r\<rparr>)) (tw_ingest (logged api) r)))),
       bindP me (\<lambda>x. tw_catch_up (logged api) mid (due_index now x) (nat (due_index now x - tw_index x))),
       bindP me (\<lambda>x. whenP (tw_index x \<ge> tw_n x - 1 \<and> last_slice_resolved now x) (tw_finalize (logged api)))])
      (\<lambda>_. tw_inv ok c) (\<lambda>_. tw_inv ok c)) (\<lambda>_. tw_inv ok c) (x, e)" for now
    by (rule guard_mid_inv) (use inv s rest in \<open>auto simp: keeps_def simp del: seqP.simps wp_seq_simps\<close>)
  with inv show "wp (tw_on_tick (logged api)) (\<lambda>_. tw_inv ok c) (\<lambda>_. tw_inv ok c) s"
    by (simp add: tw_on_tick_def s del: seqP.simps wp_seq_simps)
qed

lemma handle_counts:
  assumes "tw_sound c"
    and "\<And>w u. ev = TW_World w \<Longrightarrow> ok (fst u) \<Longrightarrow> ok (fst (w u)) \<and> snd (w u) = snd u"
  shows "keeps (tw_inv ok c :: ('v \<times> venue_call list, 'x) tw_st \<Rightarrow> bool) (tw_handle (logged api) ev)"
proof (cases ev)
  case TW_Tick
  with assms(1) show ?thesis by (simp add: tick_counts)
next
  case (TW_Stop ct)
  have "keeps (tw_inv ok c) (tw_on_stop (logged api) ct)"
    unfolding tw_on_stop_def
    by (intro keeps_bind keeps_me keeps_if keeps_ret keeps_seq keeps_when keeps_tw_quiet)
  with TW_Stop show ?thesis by simp
next
  case (TW_World w)
  have "tw_inv ok c (x, e\<lparr>env_venue := w (env_venue e)\<rparr>)" if "tw_inv ok c (x, e)"
    for x :: "'x twap_exec_scheme" and e
    using assms(2) [OF TW_World, of "env_venue e"] that by (simp add: tw_inv_def)
  then show ?thesis
    unfolding TW_World tw_handle.simps by (intro keepsI) auto
qed

lemma create_counts:
  assumes "tw_sound c" and "ok (fst (env_venue e))" and "snd (env_venue e) = []"
  shows "tw_inv ok c (snd (tw_on_create (logged api) (mk_twap_exec xid u cid iv c t, e)))"
proof -
  let ?x = "mk_twap_exec xid u cid iv c t"
  have inv: "tw_inv ok c (y, e)" if "tw_config y = c" "tw_n y = n_orders c" "tw_index y = - 1" for y :: twap_exec
    using assms that by (simp add: tw_inv_def tw_sound_def)
  have fresh: "tw_config ?x = c" "tw_n ?x = n_orders c" "tw_index ?x = - 1"
    by (simp_all add: mk_twap_exec_def mk_exec_base_def exec_base.defs twap_exec.defs)
  have place: "wp (tw_place_slice (logged api) 0 mid) (\<lambda>_. tw_inv ok c) (\<lambda>_. tw_inv ok c) s"
    if "tw_inv ok c s" "tw_index (fst s) = - 1" "0 < mid" for s mid
    using place_slice_counts [of c "fst s" "snd s" mid] that assms(1) by (simp add: tw_sound_def)
  define y where "y = (activated ?x)\<lparr>tw_start := va_now api (fst (env_venue e))\<rparr>"
  let ?g = "guard (logged api) ''twap_mid'' (va_mid (logged api) (ex_pair y))"
  have "wp ?g (\<lambda>m s. 0 < m \<and> tw_inv ok c s) (\<lambda>_. tw_inv ok c) (y, e)"
    by (rule guard_mid_inv) (auto intro!: inv simp: y_def fresh)
  moreover have "keeps (\<lambda>s. tw_index (fst s) = - 1) ?g"
    by (intro keeps_guard) auto
  then have "wp ?g (\<lambda>_ s. tw_index (fst s) = - 1) (\<lambda>_ s. tw_index (fst s) = - 1) (y, e)"
    by (rule keepsD) (simp add: y_def fresh)
  ultimately have "wp ?g (\<lambda>m s. (0 < m \<and> tw_inv ok c s) \<and> tw_index (fst s) = - 1)
      (\<lambda>_ s. tw_inv ok c s \<and> tw_index (fst s) = - 1) (y, e)"
    by (rule wp_conj)
  then have "wp ?g (\<lambda>mid. wp (thenP (upd (\<lambda>x. x\<lparr>tw_p0 := Some mid, tw_last_mid := Some mid\<rparr>))
        (tw_place_slice (logged api) 0 mid)) (\<lambda>_. tw_inv ok c) (\<lambda>_. tw_inv ok c)) (\<lambda>_. tw_inv ok c) (y, e)"
  proof (rule wp_mono)
    fix mid :: dec and s' :: "('v \<times> venue_call list, unit) tw_st"
    assume "(0 < mid \<and> tw_inv ok c s') \<and> tw_index (fst s') = - 1"
    moreover obtain x' e' where "s' = (x', e')" by fastforce
    ultimately show "wp (thenP (upd (\<lambda>x. x\<lparr>tw_p0 := Some mid, tw_last_mid := Some mid\<rparr>))
        (tw_place_slice (logged api) 0 mid)) (\<lambda>_. tw_inv ok c) (\<lambda>_. tw_inv ok c) s'"
      by (auto intro!: place elim: tw_inv_same)
  qed simp
  then have "wp (tw_on_create (logged api)) (\<lambda>_. tw_inv ok c) (\<lambda>_. tw_inv ok c) (?x, e)"
    by (simp add: tw_on_create_def y_def)
  then show ?thesis by (simp add: wp_snd)
qed

lemma run_counts:
  assumes "tw_sound c" and "ok (fst (env_venue e))" and "snd (env_venue e) = []"
    and world: "\<And>w u. TW_World w \<in> set evs \<Longrightarrow> ok (fst u) \<Longrightarrow> ok (fst (w u)) \<and> snd (w u) = snd u"
  shows "tw_inv ok c (tw_run (logged api) evs (mk_twap_exec xid u cid iv c t, e))"
proof -
  have "tw_inv ok c (foldl (\<lambda>s ev. snd (tw_handle (logged api) ev s)) s evs)" if "tw_inv ok c s"
    for s :: "('v \<times> venue_call list, unit) tw_st"
    using that world
  proof (induction evs arbitrary: s)
    case (Cons ev evs)
    have "tw_inv ok c (snd (tw_handle (logged api) ev s))"
      by (rule keeps_snd [OF handle_counts [OF assms(1)] Cons.prems(1)]) (use Cons.prems(2) in auto)
    with Cons show ?case by simp
  qed simp
  with create_counts [OF assms(1-3)] show ?thesis by (simp add: tw_run_def)
qed

end

text \<open>
  Claim C15: a maker TWAP never orders more than its total. On any well-behaved venue,
  whatever the venue does between the calls, however long the pauses between ticks and
  whichever calls fail, exactly one order per slice has been accepted so far, each worth the
  total divided by the number of slices, no slice beyond the last is ever sent, and the value
  ordered so far is at most the configured total.
\<close>

theorem twap_never_overspends:
  assumes "venue api ok" and "env_venue e = (v, [])" and "ok v"
    and "check_tw_config c = Inr c" and "is_maker c" and "0 < tc_total c" and "tc_offset_bp c < 10000"
    and "\<And>w u. TW_World w \<in> set evs \<Longrightarrow> ok (fst u) \<Longrightarrow> ok (fst (w u)) \<and> snd (w u) = snd u"
    and "tw_run (logged api) evs (mk_twap_exec xid u cid iv c t, e) = (x', e')"
  shows "int (length (placed_ids (snd (env_venue e')))) = tw_index x' + 1 \<and> tw_index x' < n_orders c
    \<and> ordered_quote (snd (env_venue e')) = of_int (tw_index x' + 1) * (tc_total c / of_int (n_orders c))
    \<and> ordered_quote (snd (env_venue e')) \<le> tc_total c"
proof -
  have n: "1 \<le> n_orders c"
    using assms(4) by (auto simp: check_tw_config_def n_orders_def split: if_splits)
  then have sound: "tw_sound c" using assms by (simp add: tw_sound_def)
  have "tw_inv ok c (tw_run (logged api) evs (mk_twap_exec xid u cid iv c t, e))"
    by (rule venue.run_counts [OF assms(1) sound]) (use assms(2,3,8) in simp_all)
  then have inv: "tw_inv ok c (x', e')" by (simp add: assms(9))
  then have "of_int (tw_index x' + 1) * (tc_total c / of_int (n_orders c)) \<le> of_int (n_orders c) * (tc_total c / of_int (n_orders c))"
    using n assms(6) by (intro mult_right_mono) (auto simp: tw_inv_def)
  with inv n show ?thesis by (simp add: tw_inv_def amount_per_order_quote_def)
qed

definition demo_tw :: tw_config where
  "demo_tw = \<lparr>tc_pair = ''BTC'', tc_side = BUY, tc_total = 1000, tc_duration = 100, tc_interval = 25,
     tc_mode = ''maker'', tc_leverage = 1, tc_offset_bp = 5\<rparr>"

theorem twap_never_overspends_witness:
  "\<exists>x' e'. tw_run (logged sim_api) [TW_Tick, TW_World (\<lambda>u. u), TW_Tick, TW_Stop EARLY_STOP]
      (mk_twap_exec ''t'' 1 ''c'' True demo_tw 0, \<lparr>env_venue = (demo_sim 0, []), env_inv = [], env_trades = []\<rparr>)
    = (x', e') \<and> ordered_quote (snd (env_venue e')) \<le> 1000"
proof -
  obtain x' e' where run: "tw_run (logged sim_api) [TW_Tick, TW_World (\<lambda>u. u), TW_Tick, TW_Stop EARLY_STOP]
      (mk_twap_exec ''t'' 1 ''c'' True demo_tw 0, \<lparr>env_venue = (demo_sim 0, []), env_inv = [], env_trades = []\<rparr>)
    = (x', e')" by fastforce
  have ok: "sim_ok (demo_sim 0)"
    by (simp add: sim_ok_def demo_sim_def mk_sim_def demo_candle_def)
  have maker: "is_maker demo_tw" by code_simp
  have c: "check_tw_config demo_tw = Inr demo_tw" "is_maker demo_tw" "0 < tc_total demo_tw"
    "tc_offset_bp demo_tw < 10000" "tc_total demo_tw = 1000"
    by (rule maker | simp add: demo_tw_def check_tw_config_def)+
  have "ordered_quote (snd (env_venue e')) \<le> tc_total demo_tw"
    using twap_never_overspends [OF simv.venue_axioms _ ok c(1-4) _ run] by auto
  with run c show ?thesis by auto
qed

theorem twap_catch_up_total_witness:
  "tw_catch_up sim_api 100 2 7 (mk_twap_exec ''t'' 1 ''c'' True demo_tw 0, \<lparr>env_venue = demo_sim 0, env_inv = [], env_trades = []\<rparr>)
   = tw_catch_up sim_api 100 2 3 (mk_twap_exec ''t'' 1 ''c'' True demo_tw 0, \<lparr>env_venue = demo_sim 0, env_inv = [], env_trades = []\<rparr>)"
proof -
  have "tw_index (mk_twap_exec ''t'' 1 ''c'' True demo_tw 0) = - 1"
    by (simp add: mk_twap_exec_def mk_exec_base_def exec_base.defs twap_exec.defs)
  with twap_catch_up_total [of 2 "mk_twap_exec ''t'' 1 ''c'' True demo_tw 0" 7 sim_api 100
      "\<lparr>env_venue = demo_sim 0, env_inv = [], env_trades = []\<rparr>"] show ?thesis
    by (simp del: tw_catch_up.simps)
qed

end
