(* ===== verification/Grid_Executor.thy ===== *)
theory Grid_Executor
  imports Order_Executor
begin

text \<open>
  The grid executor, from \<open>engine/executors/grid_executor.py\<close>, with the reverse grid of
  \<open>reverse_grid_executor.py\<close>: a ladder of levels, each with an entry and a paired close
  leg, an aggregate stop and take-profit, external reductions and in-place re-centering.

  The mutable \<open>GridLevel\<close> objects are a list of records addressed by position; each \<open>gr_\<close>
  program is the method of that name. A call the code makes without \<open>_guard\<close> is a
  \<open>venue_do\<close>.
\<close>

datatype grid_level_state =
    L_NOT_ACTIVE | L_OPEN_PLACED | L_OPEN_FILLED | L_CLOSE_PLACED | L_COMPLETE

record grid_level =
  gl_index :: int
  gl_open_price :: dec
  gl_close_price :: dec
  gl_amount :: dec
  gl_state :: grid_level_state
  gl_open_id :: "string option"
  gl_close_id :: "string option"
  gl_o_base :: dec
  gl_o_quote :: dec
  gl_o_fee :: dec
  gl_c_base :: dec
  gl_c_quote :: dec
  gl_c_fee :: dec
  gl_booked :: dec
  gl_filled :: dec
  gl_filled_quote :: dec

record grid_config =
  gc_pair :: string
  gc_side :: trade_type
  gc_start :: dec
  gc_end :: dec
  gc_limit :: dec
  gc_total :: dec
  gc_spread :: dec
  gc_max_open :: int
  gc_batch :: int
  gc_frequency :: time
  gc_bounds :: "dec option"
  gc_safe_extra :: dec
  gc_barrier :: "triple_barrier option"
  gc_leverage :: int
  gc_keep :: bool
  gc_recycle :: bool

subsection \<open>Ladder geometry\<close>

definition fresh_level :: "int \<Rightarrow> dec \<Rightarrow> dec \<Rightarrow> dec \<Rightarrow> grid_level" where
  "fresh_level i op cp amt = \<lparr>gl_index = i, gl_open_price = op, gl_close_price = cp, gl_amount = amt,
     gl_state = L_NOT_ACTIVE, gl_open_id = None, gl_close_id = None, gl_o_base = 0, gl_o_quote = 0,
     gl_o_fee = 0, gl_c_base = 0, gl_c_quote = 0, gl_c_fee = 0, gl_booked = 0, gl_filled = 0,
     gl_filled_quote = 0\<rparr>"

text \<open>\<open>_ladder_levels\<close>: the index counts skipped non-positive prices too.\<close>

fun ladder_levels :: "dec list \<Rightarrow> dec \<Rightarrow> trade_type \<Rightarrow> dec \<Rightarrow> int \<Rightarrow> grid_level list" where
  "ladder_levels [] cap side stepf i = []"
| "ladder_levels (p # ps) cap side stepf i =
     (if p \<le> 0 then ladder_levels ps cap side stepf (i + 1)
      else fresh_level i p (if side = BUY then p * (1 + stepf) else p * (1 - stepf)) (cap / p)
             # ladder_levels ps cap side stepf (i + 1))"

definition ladder_prices :: "dec \<Rightarrow> dec \<Rightarrow> int \<Rightarrow> dec list" where
  "ladder_prices a b count = (let lo = min a b; hi = max a b in
     if count \<le> 1 then [lo]
     else map (\<lambda>i. lo + (hi - lo) / of_int (count - 1) * of_nat i) [0..<nat count])"

text \<open>\<open>int(x)\<close> of a decimal truncates towards zero.\<close>

definition trunc_int :: "dec \<Rightarrow> int" where
  "trunc_int x = (if 0 \<le> x then \<lfloor>x\<rfloor> else \<lceil>x\<rceil>)"

definition level_count :: "grid_config \<Rightarrow> int" where
  "level_count c = (let lo = min (gc_start c) (gc_end c); hi = max (gc_start c) (gc_end c);
       by_spread = (if gc_spread c > 0 \<and> hi > 0 then trunc_int ((hi - lo) / (hi * gc_spread c))
                    else gc_max_open c)
     in max 1 (min (gc_max_open c) (by_spread + 1)))"

definition generate_grid_levels :: "grid_config \<Rightarrow> grid_level list" where
  "generate_grid_levels c = (let n = level_count c in
     ladder_levels (ladder_prices (gc_start c) (gc_end c) n) (gc_total c / of_int n) (gc_side c)
       (gc_spread c + gc_safe_extra c) 0)"

subsection \<open>State\<close>

record grid_exec = exec_base +
  gr_config :: grid_config
  gr_levels :: "grid_level list"
  gr_last_place :: time
  gr_placed :: nat
  gr_filled :: nat
  gr_cancelled :: nat
  gr_b_base :: dec
  gr_b_quote :: dec
  gr_b_fee :: dec

type_synonym ('v, 'x) gr_st = "'x grid_exec_scheme \<times> 'v env"

definition mk_grid_exec :: "string \<Rightarrow> int \<Rightarrow> string \<Rightarrow> bool \<Rightarrow> grid_config \<Rightarrow> time \<Rightarrow> grid_exec" where
  "mk_grid_exec xid user cid has_inv c t =
     exec_base.extend
       (mk_exec_base xid user cid (gc_pair c) (gc_keep c) has_inv
          \<lparr>cv_crosses = False, cv_strategy = None, cv_leverages = [Some (of_int (gc_leverage c))]\<rparr> t)
       (grid_exec.fields c (generate_grid_levels c) 0 0 0 0 0 0 0)"

definition mk_reverse_grid_exec ::
  "string \<Rightarrow> int \<Rightarrow> string \<Rightarrow> bool \<Rightarrow> grid_config \<Rightarrow> time \<Rightarrow> exc + grid_exec" where
  "mk_reverse_grid_exec xid user cid has_inv c t =
     (if gc_side c \<noteq> SELL then Inl (ValueError ''ReverseGridExecutor requires config.side == SELL'')
      else Inr (mk_grid_exec xid user cid has_inv c t))"

definition gr_open_side :: "'x grid_exec_scheme \<Rightarrow> trade_type" where
  "gr_open_side x = gc_side (gr_config x)"

definition gr_close_side :: "'x grid_exec_scheme \<Rightarrow> trade_type" where
  "gr_close_side x = opposite (gc_side (gr_config x))"

definition within_bounds :: "grid_config \<Rightarrow> dec \<Rightarrow> dec \<Rightarrow> bool" where
  "within_bounds c price mid = (case gc_bounds c of
     None \<Rightarrow> True | Some ab \<Rightarrow> if mid \<le> 0 then True else \<bar>price - mid\<bar> / mid \<le> ab)"

text \<open>The base a level still holds.\<close>

definition lv_held :: "grid_level \<Rightarrow> dec" where
  "lv_held lv = gl_filled lv - gl_c_base lv - gl_booked lv"

definition set_level :: "nat \<Rightarrow> (grid_level \<Rightarrow> grid_level) \<Rightarrow> 'x grid_exec_scheme \<Rightarrow> 'x grid_exec_scheme" where
  "set_level i f x = x\<lparr>gr_levels := (gr_levels x)[i := f (gr_levels x ! i)]\<rparr>"

abbreviation upd_level :: "nat \<Rightarrow> (grid_level \<Rightarrow> grid_level) \<Rightarrow> (('v, 'x) gr_st, unit) prog" where
  "upd_level i f \<equiv> upd (set_level i f)"

definition level :: "nat \<Rightarrow> (('v, 'x) gr_st, grid_level) prog" where
  "level i = bindP me (\<lambda>x. ret (gr_levels x ! i))"

definition count_cancelled :: "(('v, 'x) gr_st, unit) prog" where
  "count_cancelled = upd (\<lambda>x. x\<lparr>gr_cancelled := Suc (gr_cancelled x)\<rparr>)"

definition count_filled :: "(('v, 'x) gr_st, unit) prog" where
  "count_filled = upd (\<lambda>x. x\<lparr>gr_filled := Suc (gr_filled x)\<rparr>)"

subsection \<open>Placement and ingestion\<close>

definition gr_place_open :: "'v venue_api \<Rightarrow> nat \<Rightarrow> (('v, 'x) gr_st, unit) prog" where
  "gr_place_open api i = bindP me (\<lambda>x. let lv = gr_levels x ! i in
     bindP (guard api ''grid_open'' (va_place api (ex_pair x) (gr_open_side x) LIMIT_MAKER
        (gl_amount lv) (Some (gl_open_price lv)) (gc_leverage (gr_config x)) False)) (\<lambda>ord. seqP
       [upd_level i (\<lambda>lv. lv\<lparr>gl_open_id := Some (o_id ord), gl_state := L_OPEN_PLACED\<rparr>),
        upd (\<lambda>x. x\<lparr>gr_placed := Suc (gr_placed x)\<rparr>)]))"

definition gr_place_close_remaining :: "'v venue_api \<Rightarrow> nat \<Rightarrow> dec \<Rightarrow> (('v, 'x) gr_st, unit) prog" where
  "gr_place_close_remaining api i amt =
     (if amt \<le> 0 then upd_level i (\<lambda>lv. lv\<lparr>gl_state := L_COMPLETE\<rparr>)
      else bindP me (\<lambda>x. let lv = gr_levels x ! i in
        bindP (guard api ''grid_close'' (va_place api (ex_pair x) (gr_close_side x) LIMIT_MAKER
           amt (Some (gl_close_price lv)) (gc_leverage (gr_config x)) True)) (\<lambda>ord. seqP
          [upd_level i (\<lambda>lv. lv\<lparr>gl_close_id := Some (o_id ord), gl_state := L_CLOSE_PLACED\<rparr>),
           upd (\<lambda>x. x\<lparr>gr_placed := Suc (gr_placed x)\<rparr>)])))"

definition gr_place_close :: "'v venue_api \<Rightarrow> nat \<Rightarrow> (('v, 'x) gr_st, unit) prog" where
  "gr_place_close api i = bindP (level i) (\<lambda>lv. gr_place_close_remaining api i (lv_held lv))"

definition gr_ingest :: "'v venue_api \<Rightarrow> nat \<Rightarrow> nado_order \<Rightarrow> bool \<Rightarrow> (('v, 'x) gr_st, unit) prog" where
  "gr_ingest api i ord opening = bindP me (\<lambda>x.
     let lv = gr_levels x ! i;
         rb = (if opening then gl_o_base lv else gl_c_base lv);
         rq = (if opening then gl_o_quote lv else gl_c_quote lv);
         rf = (if opening then gl_o_fee lv else gl_c_fee lv);
         side = (if opening then gr_open_side x else gr_close_side x) in
     if o_filled_base ord - rb \<le> 0 then ret ()
     else bindP (clock api) (\<lambda>t.
       thenP (record_fill api (delta_fill ord (ex_pair x) side rb rq rf t) ord None)
         (upd_level i (\<lambda>lv. if opening
            then lv\<lparr>gl_o_base := o_filled_base ord, gl_o_quote := o_filled_quote ord, gl_o_fee := o_fee ord,
                   gl_filled := o_filled_base ord, gl_filled_quote := o_filled_quote ord\<rparr>
            else lv\<lparr>gl_c_base := o_filled_base ord, gl_c_quote := o_filled_quote ord,
                   gl_c_fee := o_fee ord\<rparr>))))"

subsection \<open>Opening the ladder\<close>

definition opening_blocked :: "'v venue_api \<Rightarrow> 'v \<Rightarrow> bool" where
  "opening_blocked api v \<longleftrightarrow> opening_budget_exhausted (va_opening_cap api v) (va_budget api v)
     \<or> execute_budget_exhausted (va_budget api v)"

fun gr_open_scan :: "'v venue_api \<Rightarrow> dec \<Rightarrow> nat list \<Rightarrow> int \<Rightarrow> (('v, 'x) gr_st, int) prog" where
  "gr_open_scan api mid [] placed = ret placed"
| "gr_open_scan api mid (i # is) placed = bindP (getsP (\<lambda>s. s)) (\<lambda>s.
     case s of (x, e) \<Rightarrow>
     if placed \<ge> gc_batch (gr_config x) \<or> opening_blocked api (env_venue e) then ret placed
     else let lv = gr_levels x ! i in
       if gl_state lv = L_NOT_ACTIVE \<and> within_bounds (gr_config x) (gl_open_price lv) mid
       then thenP (gr_place_open api i) (gr_open_scan api mid is (placed + 1))
       else gr_open_scan api mid is placed)"

definition gr_maybe_place_opens :: "'v venue_api \<Rightarrow> (('v, 'x) gr_st, unit) prog" where
  "gr_maybe_place_opens api = bindP me (\<lambda>x. bindP (clock api) (\<lambda>t.
     if ex_suppress_new x then ret ()
     else if gc_frequency (gr_config x) > 0 \<and> t - gr_last_place x < gc_frequency (gr_config x) then ret ()
     else bindP (guard api ''mid'' (va_mid api (ex_pair x))) (\<lambda>mid.
       bindP (gr_open_scan api mid [0..<length (gr_levels x)] 0) (\<lambda>placed.
         bindP (clock api) (\<lambda>t. whenP (placed \<noteq> 0) (upd (\<lambda>x. x\<lparr>gr_last_place := t\<rparr>)))))))"

definition gr_on_create :: "'v venue_api \<Rightarrow> (('v, 'x) gr_st, unit) prog" where
  "gr_on_create api = thenP activate (gr_maybe_place_opens api)"

subsection \<open>Completing levels and attributing external closes\<close>

definition best_effort_cancel :: "'v venue_api \<Rightarrow> string \<Rightarrow> string \<Rightarrow> (('v, 'x) gr_st, bool) prog" where
  "best_effort_cancel api label oid =
     tryP (thenP (guard api label (va_cancel api oid)) (thenP count_cancelled (ret True))) (\<lambda>_. ret False)"

definition gr_maybe_complete_level :: "'v venue_api \<Rightarrow> nat \<Rightarrow> (('v, 'x) gr_st, bool) prog" where
  "gr_maybe_complete_level api i = bindP (level i) (\<lambda>lv.
     if gl_c_base lv + gl_booked lv < gl_filled lv then ret False
     else thenP (seqP
       [case gl_open_id lv of None \<Rightarrow> ret ()
        | Some oid \<Rightarrow> thenP (best_effort_cancel api ''grid_open_complete_cancel'' oid)
            (upd_level i (\<lambda>lv. lv\<lparr>gl_open_id := None\<rparr>)),
        case gl_close_id lv of None \<Rightarrow> ret ()
        | Some cid \<Rightarrow> thenP (best_effort_cancel api ''grid_close_complete_cancel'' cid)
            (upd_level i (\<lambda>lv. lv\<lparr>gl_close_id := None\<rparr>)),
        upd_level i (\<lambda>lv. lv\<lparr>gl_state := L_COMPLETE\<rparr>)]) (ret True))"

definition gr_resize_close :: "'v venue_api \<Rightarrow> nat \<Rightarrow> (('v, 'x) gr_st, unit) prog" where
  "gr_resize_close api i = bindP (level i) (\<lambda>lv.
     case gl_close_id lv of
       None \<Rightarrow> ret ()
     | Some cid \<Rightarrow> whenP (gl_state lv = L_CLOSE_PLACED \<and> cid \<noteq> [])
        (bindP (best_effort_cancel api ''grid_close_resize_cancel'' cid) (\<lambda>cancelled.
           whenP cancelled (seqP
             [upd_level i (\<lambda>lv. lv\<lparr>gl_close_id := None, gl_state := L_OPEN_FILLED\<rparr>),
              gr_place_close api i]))))"

fun gr_advance :: "'v venue_api \<Rightarrow> nat list \<Rightarrow> dec \<Rightarrow> (('v, 'x) gr_st, unit) prog" where
  "gr_advance api [] remaining = ret ()"
| "gr_advance api (i # is) remaining =
     (if remaining \<le> 0 then ret ()
      else bindP (level i) (\<lambda>lv.
        if lv_held lv \<le> 0 then gr_advance api is remaining
        else let take_amt = min (lv_held lv) remaining in
          thenP (upd_level i (\<lambda>lv. lv\<lparr>gl_booked := gl_booked lv + take_amt\<rparr>))
            (bindP (gr_maybe_complete_level api i) (\<lambda>completed.
               thenP (whenP (\<not> completed) (gr_resize_close api i))
                 (gr_advance api is (remaining - take_amt))))))"

definition gr_advance_close_accounting :: "'v venue_api \<Rightarrow> dec \<Rightarrow> (('v, 'x) gr_st, unit) prog" where
  "gr_advance_close_accounting api amt =
     bindP me (\<lambda>x. gr_advance api [0..<length (gr_levels x)] amt)"

definition EXIT_CROSS_BP :: dec where "EXIT_CROSS_BP = 30"

definition exit_cross_price :: "trade_type \<Rightarrow> dec \<Rightarrow> dec option" where
  "exit_cross_price close_side mid = (if mid \<le> 0 then None
     else let slip = EXIT_CROSS_BP / 10000 in
       Some (if close_side = SELL then mid * (1 - slip) else mid * (1 + slip)))"

definition unclosed_base :: "'x grid_exec_scheme \<Rightarrow> dec" where
  "unclosed_base x = max 0 (sum_list (map lv_held (gr_levels x)))"

definition gr_ingest_book :: "'v venue_api \<Rightarrow> nado_order \<Rightarrow> bool \<Rightarrow> (('v, 'x) gr_st, dec) prog" where
  "gr_ingest_book api ord crossed = bindP me (\<lambda>x.
     let db = o_filled_base ord - gr_b_base x in
     if db \<le> 0 then ret 0
     else thenP (upd (\<lambda>x. x\<lparr>gr_b_base := o_filled_base ord, gr_b_quote := o_filled_quote ord,
                  gr_b_fee := o_fee ord\<rparr>))
       (bindP (clock api) (\<lambda>t.
         thenP (record_fill api (delta_fill ord (ex_pair x) (gr_close_side x) (gr_b_base x) (gr_b_quote x)
                  (gr_b_fee x) t) ord (if crossed then Some True else None))
           (thenP (gr_advance_close_accounting api db) (ret db)))))"

definition gr_reduce_position :: "'v venue_api \<Rightarrow> dec \<Rightarrow> dec option \<Rightarrow> (('v, 'x) gr_st, dec) prog" where
  "gr_reduce_position api amount mid0 = bindP me (\<lambda>x.
     if is_terminated x then ret 0
     else if amount \<le> 0 then ret 0
     else let reduce = min amount (unclosed_base x) in
       if reduce \<le> 0 then ret 0
       else bindP (case mid0 of Some m \<Rightarrow> ret m
                   | None \<Rightarrow> guard api ''grid_book_mid'' (va_mid api (ex_pair x))) (\<lambda>mid.
         bindP (tryP (bindP (venue_do (va_place api (ex_pair x) (gr_close_side x) LIMIT reduce
                    (exit_cross_price (gr_close_side x) mid) (gc_leverage (gr_config x)) True))
                  (\<lambda>o'. ret (Some o'))) (\<lambda>_. ret None)) (\<lambda>placed.
           case placed of None \<Rightarrow> ret 0
           | Some ord \<Rightarrow>
              thenP (upd (\<lambda>x. x\<lparr>gr_b_base := 0, gr_b_quote := 0, gr_b_fee := 0,
                       gr_placed := Suc (gr_placed x)\<rparr>))
                (bindP (gr_ingest_book api ord True) (\<lambda>booked.
                   thenP (whenP (booked > 0) count_filled) (ret booked))))))"

subsection \<open>Barriers\<close>

definition avg_entry :: "'x grid_exec_scheme \<Rightarrow> dec option" where
  "avg_entry x = (let b = sum_list (map gl_filled (gr_levels x));
                      q = sum_list (map gl_filled_quote (gr_levels x))
                  in if b > 0 then Some (q / b) else None)"

definition take_profit_breached :: "dec \<Rightarrow> 'x grid_exec_scheme \<Rightarrow> bool" where
  "take_profit_breached mid x =
     (case Option.bind (gc_barrier (gr_config x)) tb_take_profit of
        None \<Rightarrow> False
      | Some tp \<Rightarrow> (case avg_entry x of
          None \<Rightarrow> False
        | Some avg \<Rightarrow> gr_open_side x = BUY \<and> mid \<ge> avg * (1 + tp)
            \<or> gr_open_side x = SELL \<and> mid \<le> avg * (1 - tp)))"

definition stop_breached :: "dec \<Rightarrow> 'x grid_exec_scheme \<Rightarrow> bool" where
  "stop_breached mid x =
     (let lp = gc_limit (gr_config x) in
      lp > 0 \<and> (if gr_open_side x = BUY then mid \<le> lp else mid \<ge> lp)
      \<or> (case Option.bind (gc_barrier (gr_config x)) tb_stop_loss of
           None \<Rightarrow> False
         | Some sl \<Rightarrow> (case avg_entry x of
             None \<Rightarrow> False
           | Some avg \<Rightarrow> gr_open_side x = BUY \<and> mid \<le> avg * (1 - sl)
               \<or> gr_open_side x = SELL \<and> mid \<ge> avg * (1 + sl))))"

definition net_base :: "'x grid_exec_scheme \<Rightarrow> dec" where
  "net_base x = sum_list (map gl_filled (gr_levels x))
     - sum_list (map (\<lambda>lv. gl_c_base lv + gl_booked lv) (gr_levels x))"

definition recycle_completed :: "'x grid_exec_scheme \<Rightarrow> 'x grid_exec_scheme" where
  "recycle_completed x = x\<lparr>gr_levels := map (\<lambda>lv. if gl_state lv = L_COMPLETE
     then fresh_level (gl_index lv) (gl_open_price lv) (gl_close_price lv) (gl_amount lv) else lv)
     (gr_levels x)\<rparr>"

subsection \<open>Ticking\<close>

definition gr_process_open :: "'v venue_api \<Rightarrow> nat \<Rightarrow> dec \<Rightarrow> string \<Rightarrow> (('v, 'x) gr_st, unit) prog" where
  "gr_process_open api i mid oid =
     bindP (guard api ''grid_open_status'' (va_status api oid)) (\<lambda>ord.
       thenP (gr_ingest api i ord True)
         (bindP me (\<lambda>x. let lv = gr_levels x ! i in
            if o_state ord = O_FILLED
            then seqP [upd_level i (\<lambda>lv. lv\<lparr>gl_state := L_OPEN_FILLED\<rparr>), count_filled, gr_place_close api i]
            else if o_state ord \<in> {O_CANCELLED, O_REJECTED}
            then thenP (upd_level i (\<lambda>lv. lv\<lparr>gl_open_id := None\<rparr>))
              (if gl_filled lv > 0
               then thenP (upd_level i (\<lambda>lv. lv\<lparr>gl_state := L_OPEN_FILLED\<rparr>)) (gr_place_close api i)
               else upd_level i (\<lambda>lv. lv\<lparr>gl_state := L_NOT_ACTIVE\<rparr>))
            else if gc_bounds (gr_config x) \<noteq> None
                    \<and> \<not> within_bounds (gr_config x) (gl_open_price lv) mid
            then seqP
              [thenP (best_effort_cancel api ''grid_cancel'' oid) (ret ()),
               tryP (bindP (guard api ''grid_open_post_cancel'' (va_status api oid))
                       (\<lambda>r. gr_ingest api i r True)) (\<lambda>_. ret ()),
               upd_level i (\<lambda>lv. lv\<lparr>gl_open_id := None\<rparr>),
               bindP (level i) (\<lambda>lv.
                 if gl_filled lv > 0
                 then thenP (upd_level i (\<lambda>lv. lv\<lparr>gl_state := L_OPEN_FILLED\<rparr>)) (gr_place_close api i)
                 else upd_level i (\<lambda>lv. lv\<lparr>gl_state := L_NOT_ACTIVE\<rparr>))]
            else ret ())))"

definition gr_process_close :: "'v venue_api \<Rightarrow> nat \<Rightarrow> string \<Rightarrow> (('v, 'x) gr_st, unit) prog" where
  "gr_process_close api i cid =
     bindP (guard api ''grid_close_status'' (va_status api cid)) (\<lambda>ord.
       thenP (gr_ingest api i ord False)
         (if o_state ord = O_FILLED
          then seqP [upd_level i (\<lambda>lv. lv\<lparr>gl_state := L_COMPLETE\<rparr>), count_filled]
          else bindP (gr_maybe_complete_level api i) (\<lambda>completed.
            whenP (\<not> completed \<and> o_state ord \<in> {O_CANCELLED, O_REJECTED})
              (thenP (upd_level i (\<lambda>lv. lv\<lparr>gl_close_id := None\<rparr>))
                (bindP (level i) (\<lambda>lv.
                   if lv_held lv \<le> 0 then upd_level i (\<lambda>lv. lv\<lparr>gl_state := L_COMPLETE\<rparr>)
                   else thenP (upd_level i (\<lambda>lv. lv\<lparr>gl_state := L_OPEN_FILLED\<rparr>))
                     (gr_place_close_remaining api i (lv_held lv))))))))"

text \<open>A failed \<open>assert\<close> is an exception.\<close>

definition gr_process_level :: "'v venue_api \<Rightarrow> dec \<Rightarrow> nat \<Rightarrow> (('v, 'x) gr_st, unit) prog" where
  "gr_process_level api mid i = bindP (level i) (\<lambda>lv.
     if gl_state lv = L_OPEN_PLACED
     then (case gl_open_id lv of None \<Rightarrow> raise (OtherError ''AssertionError'')
           | Some oid \<Rightarrow> gr_process_open api i mid oid)
     else if gl_state lv = L_CLOSE_PLACED
     then (case gl_close_id lv of None \<Rightarrow> raise (OtherError ''AssertionError'')
           | Some cid \<Rightarrow> gr_process_close api i cid)
     else ret ())"

subsection \<open>Stopping\<close>

definition cancel_ids :: "'v venue_api \<Rightarrow> string option list \<Rightarrow> (('v, 'x) gr_st, unit) prog" where
  "cancel_ids api ids = forP ids (\<lambda>oid. case oid of None \<Rightarrow> ret ()
     | Some cid \<Rightarrow> thenP (best_effort_cancel api ''grid_cancel_all'' cid) (ret ()))"

definition gr_cancel_all_resting :: "'v venue_api \<Rightarrow> (('v, 'x) gr_st, unit) prog" where
  "gr_cancel_all_resting api = bindP me (\<lambda>x0. forP [0..<length (gr_levels x0)] (\<lambda>i.
     bindP (level i) (\<lambda>lv. cancel_ids api [gl_open_id lv, gl_close_id lv])))"

definition gr_refresh_leg :: "'v venue_api \<Rightarrow> nat \<Rightarrow> string \<Rightarrow> string option \<Rightarrow> bool \<Rightarrow> (('v, 'x) gr_st, unit) prog" where
  "gr_refresh_leg api i label oid opening = (case oid of None \<Rightarrow> ret ()
     | Some cid \<Rightarrow> tryP (bindP (guard api label (va_status api cid)) (\<lambda>r. gr_ingest api i r opening))
         (\<lambda>_. ret ()))"

definition gr_refresh_all :: "'v venue_api \<Rightarrow> (('v, 'x) gr_st, unit) prog" where
  "gr_refresh_all api = bindP me (\<lambda>x0. forP [0..<length (gr_levels x0)] (\<lambda>i.
     bindP (level i) (\<lambda>lv. seqP
       [gr_refresh_leg api i ''grid_open_status_stop'' (gl_open_id lv) True,
        gr_refresh_leg api i ''grid_close_status_stop'' (gl_close_id lv) False])))"

definition gr_book_flatten :: "'v venue_api \<Rightarrow> nado_order \<Rightarrow> (('v, 'x) gr_st, unit) prog" where
  "gr_book_flatten api flat = whenP (o_filled_base flat > 0) (bindP me (\<lambda>x. bindP (clock api) (\<lambda>t.
     thenP (record_fill api \<lparr>f_order_id = o_id flat, f_pair = ex_pair x, f_side = gr_close_side x,
              f_base = o_filled_base flat, f_price = o_filled_quote flat / o_filled_base flat,
              f_fee = o_fee flat, f_ts = t\<rparr> flat (Some True))
       (gr_advance_close_accounting api (o_filled_base flat)))))"

definition gr_flatten :: "'v venue_api \<Rightarrow> (('v, 'x) gr_st, unit) prog" where
  "gr_flatten api = bindP me (\<lambda>x.
     bindP (guard api ''grid_stop_mid'' (va_mid api (ex_pair x))) (\<lambda>mid.
       bindP (guard api ''grid_flatten'' (va_place api (ex_pair x) (gr_close_side x) LIMIT (net_base x)
          (exit_cross_price (gr_close_side x) mid) (gc_leverage (gr_config x)) True))
         (gr_book_flatten api)))"

definition FLAT_EPS :: dec where "FLAT_EPS = 1 / 10 ^ 12"

definition gr_stop_out :: "'v venue_api \<Rightarrow> close_type \<Rightarrow> (('v, 'x) gr_st, unit) prog" where
  "gr_stop_out api ct = seqP
     [gr_cancel_all_resting api,
      gr_refresh_all api,
      bindP me (\<lambda>x.
        if \<not> gc_keep (gr_config x) \<and> net_base x > 0
        then thenP (gr_flatten api) (bindP me (\<lambda>x.
          if net_base x > FLAT_EPS then ret () else terminate api ct))
        else terminate api ct)]"

definition gr_on_stop :: "'v venue_api \<Rightarrow> close_type \<Rightarrow> (('v, 'x) gr_st, unit) prog" where
  "gr_on_stop api ct = bindP me (\<lambda>x. if is_terminated x then ret () else gr_stop_out api ct)"

definition gr_on_tick :: "'v venue_api \<Rightarrow> (('v, 'x) gr_st, unit) prog" where
  "gr_on_tick api = bindP me (\<lambda>x0.
     if is_terminated x0 then ret ()
     else bindP (guard api ''mid'' (va_mid api (ex_pair x0))) (\<lambda>mid. bindP me (\<lambda>x.
       if stop_breached mid x then gr_stop_out api STOP_LOSS
       else if take_profit_breached mid x then gr_stop_out api TAKE_PROFIT
       else seqP
         [forP [0..<length (gr_levels x)] (gr_process_level api mid),
          bindP me (\<lambda>x. whenP (gc_recycle (gr_config x)) (upd recycle_completed)),
          gr_maybe_place_opens api,
          bindP me (\<lambda>x. whenP (\<not> gc_recycle (gr_config x)
              \<and> list_all (\<lambda>lv. gl_state lv = L_COMPLETE) (gr_levels x)) (terminate api COMPLETED))])))"

subsection \<open>Re-centering\<close>

text \<open>
  The scan returns the positions of the levels it keeps; the calls here are deliberately
  not guarded.
\<close>

fun gr_recenter_scan :: "'v venue_api \<Rightarrow> nat list \<Rightarrow> nat list \<Rightarrow> (('v, 'x) gr_st, nat list) prog" where
  "gr_recenter_scan api [] kept = ret kept"
| "gr_recenter_scan api (i # is) kept = bindP (level i) (\<lambda>lv.
     if gl_state lv \<in> {L_OPEN_FILLED, L_CLOSE_PLACED} then gr_recenter_scan api is (kept @ [i])
     else case (if gl_state lv = L_OPEN_PLACED then gl_open_id lv else None) of
       None \<Rightarrow> gr_recenter_scan api is kept
     | Some oid \<Rightarrow>
        bindP (tryP (thenP (venue_do (va_cancel api oid)) (thenP count_cancelled (ret True)))
                 (\<lambda>_. ret False)) (\<lambda>cancelled.
          if \<not> cancelled then gr_recenter_scan api is (kept @ [i])
          else bindP (tryP (bindP (venue_do (va_status api oid))
                        (\<lambda>r. thenP (gr_ingest api i r True) (ret True))) (\<lambda>_. ret False)) (\<lambda>probed.
            if \<not> probed then gr_recenter_scan api is (kept @ [i])
            else thenP (upd_level i (\<lambda>lv. lv\<lparr>gl_open_id := None\<rparr>)) (bindP (level i) (\<lambda>lv.
              if gl_filled lv > 0
              then thenP (seqP [upd_level i (\<lambda>lv. lv\<lparr>gl_state := L_OPEN_FILLED\<rparr>), gr_place_close api i])
                     (gr_recenter_scan api is (kept @ [i]))
              else gr_recenter_scan api is kept)))))"

definition fresh_count :: "grid_config \<Rightarrow> dec \<Rightarrow> dec \<Rightarrow> nat \<Rightarrow> int" where
  "fresh_count c a b kept = (let n = max 0 (gc_max_open c - int kept); lo = min a b; hi = max a b in
     if n > 0 \<and> gc_spread c > 0 \<and> hi > 0
     then max 1 (min n (trunc_int ((hi - lo) / (hi * gc_spread c)) + 1)) else n)"

definition fresh_ladder :: "grid_config \<Rightarrow> dec \<Rightarrow> dec \<Rightarrow> nat \<Rightarrow> grid_level list" where
  "fresh_ladder c a b kept = (let n = fresh_count c a b kept in
     if n > 0 then ladder_levels (ladder_prices a b n) (gc_total c / of_int (max 1 (gc_max_open c)))
       (gc_side c) (gc_spread c + gc_safe_extra c) (int kept)
     else [])"

definition gr_recenter :: "'v venue_api \<Rightarrow> dec \<Rightarrow> dec \<Rightarrow> (('v, 'x) gr_st, unit) prog" where
  "gr_recenter api a b = bindP me (\<lambda>x0.
     if is_terminated x0 then ret ()
     else if a \<le> 0 \<or> b \<le> 0 then ret ()
     else bindP (gr_recenter_scan api [0..<length (gr_levels x0)] []) (\<lambda>kept. seqP
       [upd (\<lambda>x. x\<lparr>gr_levels := map (\<lambda>i. gr_levels x ! i) kept
            @ fresh_ladder (gr_config x) a b (length kept)\<rparr>),
        gr_maybe_place_opens api]))"

subsection \<open>Events and runs\<close>

datatype 'v gr_event = GR_Create | GR_Tick | GR_Stop close_type | GR_Reduce dec "dec option"
  | GR_Recenter dec dec | GR_Suppress bool | GR_World "'v \<Rightarrow> 'v"

fun gr_handle :: "'v venue_api \<Rightarrow> 'v gr_event \<Rightarrow> (('v, 'x) gr_st, unit) prog" where
  "gr_handle api GR_Create = gr_on_create api"
| "gr_handle api GR_Tick = gr_on_tick api"
| "gr_handle api (GR_Stop ct) = gr_on_stop api ct"
| "gr_handle api (GR_Reduce b m) = thenP (gr_reduce_position api b m) (ret ())"
| "gr_handle api (GR_Recenter a b) = gr_recenter api a b"
| "gr_handle api (GR_Suppress b) = upd (\<lambda>x. x\<lparr>ex_suppress_new := b\<rparr>)"
| "gr_handle api (GR_World w) = modifyP (\<lambda>(x, e). (x, e\<lparr>env_venue := w (env_venue e)\<rparr>))"

definition gr_run :: "'v venue_api \<Rightarrow> 'v gr_event list \<Rightarrow> ('v, 'x) gr_st \<Rightarrow> ('v, 'x) gr_st" where
  "gr_run api evs s = foldl (\<lambda>s ev. snd (gr_handle api ev s)) s evs"

subsection \<open>The geometry of a fresh ladder\<close>

lemma ladder_levels_pos:
  "list_all (\<lambda>p. 0 < p) ps \<Longrightarrow> length (ladder_levels ps cap side f i) = length ps
    \<and> map gl_open_price (ladder_levels ps cap side f i) = ps
    \<and> list_all (\<lambda>lv. gl_close_price lv = gl_open_price lv * (if side = BUY then 1 + f else 1 - f)
         \<and> gl_amount lv * gl_open_price lv = cap \<and> gl_state lv = L_NOT_ACTIVE) (ladder_levels ps cap side f i)"
  by (induction ps cap side f i rule: ladder_levels.induct) (auto simp: fresh_level_def)

lemma level_count_bounds:
  assumes "1 \<le> gc_max_open c"
  shows "1 \<le> level_count c" "level_count c \<le> gc_max_open c"
  using assms by (auto simp: level_count_def Let_def)

text \<open>Spacing: the number of gaps was chosen so that each is at least the minimum spread.\<close>

lemma level_count_spread:
  assumes pos: "0 < gc_spread c" "0 < min (gc_start c) (gc_end c)" and n: "1 < level_count c"
  shows "max (gc_start c) (gc_end c) * gc_spread c
    \<le> (max (gc_start c) (gc_end c) - min (gc_start c) (gc_end c)) / of_int (level_count c - 1)"
proof -
  define lo hi where "lo = min (gc_start c) (gc_end c)" and "hi = max (gc_start c) (gc_end c)"
  have h: "0 < hi" "lo \<le> hi" using pos by (auto simp: lo_def hi_def)
  have q: "0 \<le> (hi - lo) / (hi * gc_spread c)" using h pos by simp
  have "level_count c - 1 \<le> \<lfloor>(hi - lo) / (hi * gc_spread c)\<rfloor>"
    using n h pos q unfolding level_count_def trunc_int_def Let_def lo_def [symmetric] hi_def [symmetric]
    by simp
  then have "of_int (level_count c - 1) \<le> (hi - lo) / (hi * gc_spread c)"
    by (simp add: le_floor_iff)
  then have "of_int (level_count c - 1) * (hi * gc_spread c) \<le> hi - lo"
    using h pos by (simp add: pos_le_divide_eq)
  then show ?thesis
    using n unfolding lo_def [symmetric] hi_def [symmetric]
    by (simp add: pos_le_divide_eq mult.commute)
qed

lemma ladder_prices_props:
  fixes a b :: dec
  assumes "1 \<le> n"
  shows "length (ladder_prices a b n) = nat n"
    and "i < nat n \<Longrightarrow> min a b \<le> ladder_prices a b n ! i \<and> ladder_prices a b n ! i \<le> max a b"
    and "Suc i < nat n \<Longrightarrow> ladder_prices a b n ! Suc i - ladder_prices a b n ! i = (max a b - min a b) / of_int (n - 1)"
proof -
  define lo hi where "lo = min a b" and "hi = max a b"
  have lh: "lo \<le> hi" by (simp add: lo_def hi_def)
  note d = ladder_prices_def [of a b n, unfolded Let_def, folded lo_def hi_def]
  show "length (ladder_prices a b n) = nat n" using assms by (simp add: d)
  show "min a b \<le> ladder_prices a b n ! i \<and> ladder_prices a b n ! i \<le> max a b" if "i < nat n"
  proof (cases "n \<le> 1")
    case True
    with that assms lh show ?thesis unfolding d lo_def [symmetric] hi_def [symmetric] by simp
  next
    case False
    have "of_nat i \<le> (of_int (n - 1) :: rat)"
      using that False by (metis (mono_tags, opaque_lifting) int_one_le_iff_zero_less nat_less_iff not_le of_int_le_iff of_int_of_nat_eq zle_diff1_eq zless_nat_eq_int_zless)
    then have "(hi - lo) * (of_nat i / of_int (n - 1)) \<le> (hi - lo) * 1"
      using lh False by (intro mult_left_mono) simp_all
    with that False lh show ?thesis unfolding lo_def [symmetric] hi_def [symmetric] by (simp add: d)
  qed
  show "ladder_prices a b n ! Suc i - ladder_prices a b n ! i = (max a b - min a b) / of_int (n - 1)"
    if "Suc i < nat n"
  proof -
    have n: "1 < n" using that by simp
    define w where "w = (hi - lo) / of_int (n - 1)"
    have "ladder_prices a b n ! j = lo + w * of_nat j" if "j < nat n" for j
      using that n unfolding d w_def by simp
    with that have "ladder_prices a b n ! Suc i - ladder_prices a b n ! i = w"
      by (simp add: distrib_left)
    then show ?thesis by (simp add: w_def lo_def hi_def)
  qed
qed

text \<open>
  Claim C21: the geometry of a fresh ladder. For a positive band, a positive minimum spread
  and at least one allowed order, the ladder has between one and the allowed number of
  levels; every entry price lies in the band; neighbouring entries are at least the minimum
  spread of the upper bound apart; every close leg sits one step on the profit side of its
  entry; and the notional of all entries adds up to the configured total.
\<close>

theorem grid_ladder_geometry:
  assumes "0 < gc_start c" "0 < gc_end c" "0 < gc_spread c" "1 \<le> gc_max_open c"
  defines "ls \<equiv> generate_grid_levels c"
  shows "1 \<le> length ls \<and> int (length ls) \<le> gc_max_open c
    \<and> list_all (\<lambda>lv. min (gc_start c) (gc_end c) \<le> gl_open_price lv
         \<and> gl_open_price lv \<le> max (gc_start c) (gc_end c)
         \<and> gl_close_price lv = gl_open_price lv * (if gc_side c = BUY
              then 1 + (gc_spread c + gc_safe_extra c) else 1 - (gc_spread c + gc_safe_extra c))) ls
    \<and> (\<forall>i. Suc i < length ls \<longrightarrow> max (gc_start c) (gc_end c) * gc_spread c
         \<le> gl_open_price (ls ! Suc i) - gl_open_price (ls ! i))
    \<and> sum_list (map (\<lambda>lv. gl_amount lv * gl_open_price lv) ls) = gc_total c"
proof -
  define n where "n = level_count c"
  define ps where "ps = ladder_prices (gc_start c) (gc_end c) n"
  have n: "1 \<le> n" "n \<le> gc_max_open c" using level_count_bounds [OF assms(4)] by (simp_all add: n_def)
  note P = ladder_prices_props [OF n(1), where a = "gc_start c" and b = "gc_end c", folded ps_def]
  have band: "min (gc_start c) (gc_end c) \<le> p \<and> p \<le> max (gc_start c) (gc_end c)" if "p \<in> set ps" for p
    using that P(1,2) by (auto simp: in_set_conv_nth)
  have "0 < min (gc_start c) (gc_end c)" using assms by simp
  then have "list_all (\<lambda>p. 0 < p) ps"
    using band by (fastforce simp: list_all_iff)
  note L = ladder_levels_pos [OF this, of "gc_total c / of_int n" "gc_side c" "gc_spread c + gc_safe_extra c" 0]
  have ls: "ls = ladder_levels ps (gc_total c / of_int n) (gc_side c) (gc_spread c + gc_safe_extra c) 0"
    by (simp add: ls_def generate_grid_levels_def Let_def ps_def n_def)
  have len: "length ls = nat n" using L P(1) by (simp add: ls)
  have price: "gl_open_price (ls ! i) = ps ! i" if "i < length ls" for i
    using that L unfolding ls by (metis nth_map)
  have notional: "map (\<lambda>lv. gl_amount lv * gl_open_price lv) ls = replicate (nat n) (gc_total c / of_int n)"
    using L len unfolding ls list_all_iff by (intro nth_equalityI) auto
  have "max (gc_start c) (gc_end c) * gc_spread c \<le> gl_open_price (ls ! Suc i) - gl_open_price (ls ! i)"
    if "Suc i < length ls" for i
  proof -
    have "1 < level_count c" using that len by (simp add: n_def)
    from level_count_spread [OF assms(3) \<open>0 < min _ _\<close> this] P(3) [of i] that len price
    show ?thesis by (simp add: n_def)
  qed
  moreover have "list_all (\<lambda>lv. min (gc_start c) (gc_end c) \<le> gl_open_price lv
      \<and> gl_open_price lv \<le> max (gc_start c) (gc_end c)) ls"
    unfolding list_all_length using price band len P(1) by (metis nth_mem)
  moreover have "list_all (\<lambda>lv. gl_close_price lv = gl_open_price lv * (if gc_side c = BUY
      then 1 + (gc_spread c + gc_safe_extra c) else 1 - (gc_spread c + gc_safe_extra c))) ls"
    using L unfolding ls list_all_iff by blast
  moreover have "sum_list (map (\<lambda>lv. gl_amount lv * gl_open_price lv) ls) = gc_total c"
    using n by (simp add: notional sum_list_replicate)
  moreover have "1 \<le> length ls \<and> int (length ls) \<le> gc_max_open c"
    using len n by auto
  ultimately show ?thesis by (simp only: list_all_iff) blast
qed

definition demo_grid_config :: grid_config where
  "demo_grid_config = \<lparr>gc_pair = ''BTC'', gc_side = BUY, gc_start = 90, gc_end = 100, gc_limit = 80,
     gc_total = 300, gc_spread = 1 / 20, gc_max_open = 8, gc_batch = 5, gc_frequency = 0, gc_bounds = None,
     gc_safe_extra = 0, gc_barrier = None, gc_leverage = 1, gc_keep = False, gc_recycle = False\<rparr>"

theorem grid_ladder_geometry_witness:
  "map gl_open_price (generate_grid_levels demo_grid_config) = [90, 95, 100]
   \<and> sum_list (map (\<lambda>lv. gl_amount lv * gl_open_price lv) (generate_grid_levels demo_grid_config)) = 300"
proof
  show "map gl_open_price (generate_grid_levels demo_grid_config) = [90, 95, 100]"
    by code_simp
  show "sum_list (map (\<lambda>lv. gl_amount lv * gl_open_price lv) (generate_grid_levels demo_grid_config)) = 300"
    using grid_ladder_geometry [of demo_grid_config] by (simp add: demo_grid_config_def)
qed

end
