(* ===== verification/Risk.thy ===== *)
theory Risk
  imports Engine_Types
begin

text \<open>
  The risk engine, from \<open>engine/risk.py\<close>, with the database-backed kill-switch store of
  \<open>trading/engine_persistence.py\<close>: the kill switch, the pre-tick gates and the gates on a
  new executor.

  \<open>KillSwitchStore\<close> is an interface of the code: here a record of its four methods, with
  the locale \<open>kill_switch_store\<close> for what an implementation owes its client; the in-memory
  store and the database row are two interpretations. The database table is a map from a
  scope to its row.
\<close>

subsection \<open>Kill-switch stores\<close>

record 's kill_api =
  ks_is_engaged :: "'s \<Rightarrow> bool"
  ks_engage :: "string \<Rightarrow> 's \<Rightarrow> 's"
  ks_disengage :: "'s \<Rightarrow> 's"
  ks_reason :: "'s \<Rightarrow> string option"

record memory_switch =
  ms_engaged :: bool
  ms_reason :: "string option"

definition memory_api :: "memory_switch kill_api" where
  "memory_api = \<lparr>ks_is_engaged = ms_engaged,
     ks_engage = (\<lambda>r s. s\<lparr>ms_engaged := True, ms_reason := Some r\<rparr>),
     ks_disengage = (\<lambda>s. s\<lparr>ms_engaged := False, ms_reason := None\<rparr>),
     ks_reason = ms_reason\<rparr>"

definition fresh_memory_switch :: memory_switch where
  "fresh_memory_switch = \<lparr>ms_engaged = False, ms_reason = None\<rparr>"

record kill_row =
  kr_engaged :: bool
  kr_reason :: "string option"

type_synonym kill_table = "string \<rightharpoonup> kill_row"

definition db_api :: "string \<Rightarrow> kill_table kill_api" where
  "db_api scope = \<lparr>
     ks_is_engaged = (\<lambda>t. case t scope of None \<Rightarrow> False | Some r \<Rightarrow> kr_engaged r),
     ks_engage = (\<lambda>r t. t(scope \<mapsto> \<lparr>kr_engaged = True, kr_reason = Some r\<rparr>)),
     ks_disengage = (\<lambda>t. t(scope \<mapsto> \<lparr>kr_engaged = False, kr_reason = None\<rparr>)),
     ks_reason = (\<lambda>t. case t scope of None \<Rightarrow> None | Some r \<Rightarrow> if kr_engaged r then kr_reason r else None)\<rparr>"

subsection \<open>The engine\<close>

record executor_request =
  rq_order_amount :: dec
  rq_position_size :: dec
  rq_reduce_only :: bool
  rq_position_action :: "position_action option"

definition mk_executor_request :: "executor_request \<Rightarrow> exc + executor_request" where
  "mk_executor_request r =
     (if rq_reduce_only r \<and> rq_position_action r \<noteq> None \<and> rq_position_action r \<noteq> Some CLOSE_POS
      then Inl (ValueError ''reduce_only=True requires PositionAction.CLOSE'')
      else Inr r)"

record 's risk_engine =
  re_limits :: risk_limits
  re_switch :: 's

type_synonym check_result = "bool \<times> string option"

definition kill_block :: "'s kill_api \<Rightarrow> 's risk_engine \<Rightarrow> check_result" where
  "kill_block ks re = (if ks_is_engaged ks (re_switch re)
     then (False, Some (''kill_switch:'' @ (case ks_reason ks (re_switch re) of None \<Rightarrow> ''None'' | Some r \<Rightarrow> r)))
     else (True, None))"

definition over :: "dec option \<Rightarrow> (dec \<Rightarrow> bool) \<Rightarrow> bool" where
  "over limit breached = (case limit of None \<Rightarrow> False | Some l \<Rightarrow> breached l)"

definition pre_tick_check :: "'s kill_api \<Rightarrow> 's risk_engine \<Rightarrow> risk_state \<Rightarrow> check_result" where
  "pre_tick_check ks re st = (case kill_block ks re of (ok, reason) \<Rightarrow>
     if \<not> ok then (ok, reason)
     else let lim = re_limits re in
       if over (lim_daily_pnl_floor lim) (\<lambda>l. rs_daily_pnl st \<le> l) then (False, Some ''daily_pnl_floor'')
       else if over (lim_max_drawdown lim) (\<lambda>l. rs_drawdown st \<ge> l) then (False, Some ''max_drawdown'')
       else if over (lim_daily_cost_cap lim) (\<lambda>l. rs_daily_cost st \<ge> l) then (False, Some ''daily_cost_cap'')
       else (True, None))"

definition pre_executor_check ::
  "'s kill_api \<Rightarrow> 's risk_engine \<Rightarrow> executor_request \<Rightarrow> risk_state \<Rightarrow> check_result" where
  "pre_executor_check ks re rq st = (case kill_block ks re of (ok, reason) \<Rightarrow>
     if \<not> ok then (ok, reason)
     else let lim = re_limits re in
       if (case lim_max_open_executors lim of None \<Rightarrow> False | Some n \<Rightarrow> rs_executor_count st \<ge> n)
       then (False, Some ''max_open_executors'')
       else if \<not> rq_reduce_only rq \<and> over (lim_max_single_order lim) (\<lambda>l. rq_order_amount rq > l)
       then (False, Some ''max_single_order_quote'')
       else if \<not> rq_reduce_only rq \<and> over (lim_max_position_size lim) (\<lambda>l. rq_position_size rq > l)
       then (False, Some ''max_position_size_quote'')
       else (True, None))"

definition risk_kill_on :: "'s kill_api \<Rightarrow> string \<Rightarrow> 's risk_engine \<Rightarrow> 's risk_engine" where
  "risk_kill_on ks reason re = re\<lparr>re_switch := ks_engage ks reason (re_switch re)\<rparr>"

definition risk_kill_off :: "'s kill_api \<Rightarrow> 's risk_engine \<Rightarrow> 's risk_engine" where
  "risk_kill_off ks re = re\<lparr>re_switch := ks_disengage ks (re_switch re)\<rparr>"

definition risk_is_killed :: "'s kill_api \<Rightarrow> 's risk_engine \<Rightarrow> bool" where
  "risk_is_killed ks re = ks_is_engaged ks (re_switch re)"

subsection \<open>The store contract\<close>

text \<open>
  What the engine relies on: after \<open>engage\<close> the switch is engaged with the given reason, after
  \<open>disengage\<close> it is not, and a new engine over the same store sees the same switch.
\<close>

locale kill_switch_store =
  fixes ks :: "'s kill_api"
  assumes engaged: "ks_is_engaged ks (ks_engage ks r s)"
    and reason: "ks_reason ks (ks_engage ks r s) = Some r"
    and disengaged: "\<not> ks_is_engaged ks (ks_disengage ks s)"
begin

lemma blocked:
  "kill_block ks (risk_kill_on ks r re) = (False, Some (''kill_switch:'' @ r))"
  by (simp add: kill_block_def risk_kill_on_def engaged reason)

lemma blocks_ticks: "pre_tick_check ks (risk_kill_on ks r re) st = (False, Some (''kill_switch:'' @ r))"
  by (simp add: pre_tick_check_def blocked)

lemma blocks_executors:
  "pre_executor_check ks (risk_kill_on ks r re) rq st = (False, Some (''kill_switch:'' @ r))"
  by (simp add: pre_executor_check_def blocked)

lemma released: "\<not> risk_is_killed ks (risk_kill_off ks re)"
  by (simp add: risk_is_killed_def risk_kill_off_def disengaged)

lemma killed: "risk_is_killed ks (risk_kill_on ks r re)"
  by (simp add: risk_is_killed_def risk_kill_on_def engaged)

text \<open>The switch survives a restart: it is in the store, not in the engine.\<close>

lemma survives_restart:
  "pre_executor_check ks \<lparr>re_limits = lims, re_switch = re_switch (risk_kill_on ks r re)\<rparr> rq st
     = (False, Some (''kill_switch:'' @ r))"
  by (simp add: pre_executor_check_def kill_block_def risk_kill_on_def engaged reason)

end

interpretation mem: kill_switch_store memory_api
  by unfold_locales (simp_all add: memory_api_def)

interpretation db: kill_switch_store "db_api scope" for scope
  by unfold_locales (simp_all add: db_api_def)

text \<open>
  A law: the gates of the risk engine. With the switch off, a tick passes exactly when
  each configured daily limit is respected; a new executor passes exactly when a slot is free
  and, unless it only reduces, its order and the resulting position are within their caps. A
  request that claims to reduce while opening is refused at construction, so the exemption
  from the size caps is never granted to an order that declares it adds exposure.
\<close>

theorem risk_gates:
  assumes "\<not> risk_is_killed ks re"
  shows "(fst (pre_tick_check ks re st) \<longleftrightarrow>
        \<not> over (lim_daily_pnl_floor (re_limits re)) (\<lambda>l. rs_daily_pnl st \<le> l)
        \<and> \<not> over (lim_max_drawdown (re_limits re)) (\<lambda>l. l \<le> rs_drawdown st)
        \<and> \<not> over (lim_daily_cost_cap (re_limits re)) (\<lambda>l. l \<le> rs_daily_cost st))
    \<and> (fst (pre_executor_check ks re rq st) \<longleftrightarrow>
        (case lim_max_open_executors (re_limits re) of None \<Rightarrow> True | Some n \<Rightarrow> rs_executor_count st < n)
        \<and> (rq_reduce_only rq \<or>
             \<not> over (lim_max_single_order (re_limits re)) (\<lambda>l. l < rq_order_amount rq)
             \<and> \<not> over (lim_max_position_size (re_limits re)) (\<lambda>l. l < rq_position_size rq)))
    \<and> (mk_executor_request rq = Inr rq' \<longrightarrow> rq_reduce_only rq' \<longrightarrow> rq_position_action rq' \<in> {None, Some CLOSE_POS})"
  using assms
  by (auto simp: pre_tick_check_def pre_executor_check_def kill_block_def risk_is_killed_def Let_def
      mk_executor_request_def not_le split: option.splits if_splits)

definition demo_limits :: risk_limits where
  "demo_limits = \<lparr>lim_daily_pnl_floor = Some (-100), lim_max_drawdown = None, lim_daily_cost_cap = None,
     lim_max_open_executors = Some 2, lim_max_single_order = Some 50, lim_max_position_size = None\<rparr>"

definition demo_request :: executor_request where
  "demo_request = \<lparr>rq_order_amount = 80, rq_position_size = 0, rq_reduce_only = True, rq_position_action = Some CLOSE_POS\<rparr>"

theorem risk_gates_witness:
  "fst (pre_executor_check memory_api \<lparr>re_limits = demo_limits, re_switch = fresh_memory_switch\<rparr> demo_request default_risk_state)
   \<and> \<not> fst (pre_executor_check memory_api \<lparr>re_limits = demo_limits, re_switch = fresh_memory_switch\<rparr>
        (demo_request\<lparr>rq_reduce_only := False\<rparr>) default_risk_state)"
proof -
  have off: "\<not> risk_is_killed memory_api \<lparr>re_limits = demo_limits, re_switch = fresh_memory_switch\<rparr>"
    by (simp add: risk_is_killed_def memory_api_def fresh_memory_switch_def)
  show ?thesis
    using risk_gates [OF off, of default_risk_state demo_request undefined]
      risk_gates [OF off, of default_risk_state "demo_request\<lparr>rq_reduce_only := False\<rparr>" undefined]
    by (simp add: demo_limits_def demo_request_def default_risk_state_def over_def)
qed

text \<open>
  A law: the persisted kill switch. Engaging the switch in a scope of the database blocks
  every tick and every new executor of every engine over that scope, one started later with
  other limits included, and leaves every other scope as it was; disengaging it lifts the
  block.
\<close>

theorem db_kill_switch:
  "pre_tick_check (db_api scope) \<lparr>re_limits = lims, re_switch = ks_engage (db_api scope) r t\<rparr> st
      = (False, Some (''kill_switch:'' @ r))
   \<and> pre_executor_check (db_api scope) \<lparr>re_limits = lims, re_switch = ks_engage (db_api scope) r t\<rparr> rq st
      = (False, Some (''kill_switch:'' @ r))
   \<and> (scope' \<noteq> scope \<longrightarrow> ks_is_engaged (db_api scope') (ks_engage (db_api scope) r t) = ks_is_engaged (db_api scope') t)
   \<and> \<not> risk_is_killed (db_api scope) (risk_kill_off (db_api scope) \<lparr>re_limits = lims, re_switch = t\<rparr>)"
  using db.survives_restart [where scope = scope and lims = lims and r = r and re = "\<lparr>re_limits = lims, re_switch = t\<rparr>"]
    db.blocks_ticks [where scope = scope and r = r and re = "\<lparr>re_limits = lims, re_switch = t\<rparr>"] db.released
  by (auto simp: risk_kill_on_def db_api_def)

theorem db_kill_switch_witness:
  "\<not> ks_is_engaged (db_api ''paper'') (ks_engage (db_api ''live'') ''drawdown'' (\<lambda>_. None))"
  using db_kill_switch [of "''live''" demo_limits "''drawdown''" "\<lambda>_. None" default_risk_state demo_request "''paper''"]
  by (simp add: db_api_def)

end
