(* ===== verification/Controller_Base.thy ===== *)
theory Controller_Base
  imports Inventory
begin

text \<open>
  The base class of controllers, from \<open>engine/controllers/controller_base.py\<close>: lifecycle
  state, banked order counts, the regime gate with its asymmetric hysteresis, the net
  exposure cap, entry suppression and the ladder re-center threshold.

  Configuration values are arguments, already read from the \<open>configs\<close> dictionary; the
  verdict of the regime-gate routine is an input of the gate, \<open>None\<close> where the routine or
  the candle provider raised. Strings are kept where the code compares strings.
\<close>

datatype controller_state = CT_CREATED | CT_ACTIVE | CT_STOPPED | CT_FAILED

datatype order_counts = Counts (oc_placed: int) (oc_filled: int) (oc_cancelled: int)

instantiation order_counts :: comm_monoid_add
begin

definition zero_order_counts :: order_counts where
  "0 = Counts 0 0 0"

definition plus_order_counts :: "order_counts \<Rightarrow> order_counts \<Rightarrow> order_counts" where
  "a + b = Counts (oc_placed a + oc_placed b) (oc_filled a + oc_filled b) (oc_cancelled a + oc_cancelled b)"

instance
  by standard (simp_all add: zero_order_counts_def plus_order_counts_def)

end

record controller =
  ct_id :: string
  ct_user :: int
  ct_name :: string
  ct_state :: controller_state
  ct_started_at :: "time option"
  ct_stopped_at :: "time option"
  ct_start_error :: "string option"
  ct_banked :: order_counts

definition mk_controller :: "string \<Rightarrow> int \<Rightarrow> string \<Rightarrow> controller" where
  "mk_controller cid user name = \<lparr>ct_id = cid, ct_user = user, ct_name = name, ct_state = CT_CREATED,
     ct_started_at = None, ct_stopped_at = None, ct_start_error = None, ct_banked = 0\<rparr>"

definition set_active :: "time \<Rightarrow> 'x controller_scheme \<Rightarrow> 'x controller_scheme" where
  "set_active t c = c\<lparr>ct_state := CT_ACTIVE, ct_started_at := Some t\<rparr>"

definition set_stopped :: "time \<Rightarrow> 'x controller_scheme \<Rightarrow> 'x controller_scheme" where
  "set_stopped t c = c\<lparr>ct_state := CT_STOPPED, ct_stopped_at := Some t\<rparr>"

definition set_failed :: "time \<Rightarrow> 'x controller_scheme \<Rightarrow> 'x controller_scheme" where
  "set_failed t c = c\<lparr>ct_state := CT_FAILED, ct_stopped_at := Some t\<rparr>"

definition ctl_active :: "'x controller_scheme \<Rightarrow> bool" where
  "ctl_active c \<longleftrightarrow> ct_state c = CT_ACTIVE"

text \<open>\<open>bank_executor_counts\<close>, and \<open>order_counts\<close> over the executors still held.\<close>

definition bank_counts :: "order_counts \<Rightarrow> 'x controller_scheme \<Rightarrow> 'x controller_scheme" where
  "bank_counts n c = c\<lparr>ct_banked := ct_banked c + n\<rparr>"

definition controller_order_counts :: "order_counts list \<Rightarrow> 'x controller_scheme \<Rightarrow> order_counts" where
  "controller_order_counts held c = ct_banked c + sum_list held"

subsection \<open>The regime gate\<close>

record gate =
  gt_verdict :: string
  gt_reason :: string
  gt_atr :: dec
  gt_event :: "(string \<times> string) option"
  gt_streak :: int
  gt_prev_enabled :: bool

record gate_input =
  gi_enabled :: bool
  gi_provider :: bool
  gi_result :: "(string option \<times> string option \<times> dec option) option"
  gi_confirm :: "int option"
  gi_pause_on_trend :: bool
  gi_adverse_trend :: "string option"
  gi_pause_on_breakout :: bool

definition fresh_gate :: gate where
  "fresh_gate = \<lparr>gt_verdict = ''QUOTE'', gt_reason = [], gt_atr = 0, gt_event = None, gt_streak = 0,
     gt_prev_enabled = False\<rparr>"

definition VENUE_GATE_REASONS :: "string list" where
  "VENUE_GATE_REASONS = [''venue_unreadable'', ''venue_residual'', ''venue_foreign_position'',
     ''venue_min_notional'', ''stop_budget_too_tight'']"

definition or_str :: "string option \<Rightarrow> string \<Rightarrow> string" where
  "or_str x d = (case x of None \<Rightarrow> d | Some s \<Rightarrow> if s = [] then d else s)"

definition is_trend :: "string \<Rightarrow> bool" where
  "is_trend r \<longleftrightarrow> r = ''trending_up'' \<or> r = ''trending_down''"

text \<open>The verdict after the trend and breakout exemptions of the controller.\<close>

definition gate_effective :: "gate_input \<Rightarrow> string option \<Rightarrow> string option \<Rightarrow> string \<times> string" where
  "gate_effective i verdict reason = (let
     nv = or_str verdict ''QUOTE''; nr = or_str reason [];
     (nv, nr) = (if \<not> gi_pause_on_trend i \<and> is_trend nr then (''QUOTE'', [])
                 else if or_str (gi_adverse_trend i) [] \<noteq> [] \<and> is_trend nr \<and> nr \<noteq> or_str (gi_adverse_trend i) []
                 then (''QUOTE'', []) else (nv, nr))
     in if \<not> gi_pause_on_breakout i \<and> (nr = ''breakout'' \<or> nr = ''expansion'') then (''QUOTE'', []) else (nv, nr))"

definition confirm_ticks :: "gate_input \<Rightarrow> int" where
  "confirm_ticks i = max 1 (case gi_confirm i of None \<Rightarrow> 2 | Some n \<Rightarrow> if n = 0 then 2 else n)"

definition gate_commit :: "gate_input \<Rightarrow> string \<Rightarrow> string \<Rightarrow> gate \<Rightarrow> gate" where
  "gate_commit i nv nr g =
     (if nv = ''PAUSE''
      then g\<lparr>gt_streak := 0, gt_event := (if gt_verdict g \<noteq> ''PAUSE'' then Some (''PAUSE'', nr) else gt_event g),
             gt_verdict := ''PAUSE'', gt_reason := nr\<rparr>
      else if gt_verdict g = ''PAUSE'' \<and> gt_streak g + 1 < confirm_ticks i
      then g\<lparr>gt_streak := gt_streak g + 1\<rparr>
      else g\<lparr>gt_event := (if gt_verdict g = ''PAUSE'' then Some (''QUOTE'', nr) else gt_event g),
             gt_streak := 0, gt_verdict := ''QUOTE'', gt_reason := nr\<rparr>)"

definition gate_lift_venue :: "gate \<Rightarrow> gate" where
  "gate_lift_venue g = (if gt_verdict g = ''PAUSE'' \<and> gt_reason g \<in> set VENUE_GATE_REASONS
     then g\<lparr>gt_verdict := ''QUOTE'', gt_reason := [], gt_streak := 0\<rparr> else g)"

definition evaluate_quote_gate :: "gate_input \<Rightarrow> gate \<Rightarrow> gate" where
  "evaluate_quote_gate i g0 = (let g = gate_lift_venue (if gt_verdict g0 = [] then fresh_gate else g0) in
     if \<not> gi_enabled i
     then (if gt_prev_enabled g
           then let g = g\<lparr>gt_prev_enabled := False\<rparr> in
             (if gt_verdict g \<noteq> ''QUOTE''
              then g\<lparr>gt_verdict := ''QUOTE'', gt_reason := [], gt_streak := 0, gt_event := Some (''QUOTE'', [])\<rparr>
              else g)
           else g)
     else let g = g\<lparr>gt_prev_enabled := True\<rparr> in
       if \<not> gi_provider i then g
       else case gi_result i of
         None \<Rightarrow> g
       | Some (verdict, reason, atr) \<Rightarrow>
          (case gate_effective i verdict reason of (nv, nr) \<Rightarrow>
             gate_commit i nv nr (g\<lparr>gt_atr := or_dec atr 0\<rparr>)))"

definition gate_paused :: "gate \<Rightarrow> bool" where
  "gate_paused g \<longleftrightarrow> gt_verdict g = ''PAUSE''"

definition consume_gate_event :: "gate \<Rightarrow> (string \<times> string) option \<times> gate" where
  "consume_gate_event g = (gt_event g, g\<lparr>gt_event := None\<rparr>)"

subsection \<open>The exposure cap and entry suppression\<close>

record exposure_cfg =
  xc_has_inventory :: bool
  xc_cap_pct :: "dec option"
  xc_margin :: "dec option"
  xc_resume_frac :: dec
  xc_suppress :: bool

record exposure_state =
  xs_capped :: bool
  xs_net_quote :: dec

type_synonym sides = "bool \<times> bool"

text \<open>The pair is (buy, sell).\<close>

definition entry_suppression :: "exposure_cfg \<Rightarrow> dec \<Rightarrow> sides \<Rightarrow> sides" where
  "entry_suppression c net_base allowed =
     (if \<not> xc_suppress c then allowed
      else let nb = (if xc_has_inventory c then net_base else 0) in
        (fst allowed \<and> nb < 0, snd allowed \<and> nb > 0))"

definition exposure_allowed_sides ::
  "exposure_cfg \<Rightarrow> dec \<Rightarrow> dec option \<Rightarrow> exposure_state \<Rightarrow> sides \<times> exposure_state" where
  "exposure_allowed_sides c net_base mid s =
     (if \<not> xc_has_inventory c then ((True, True), s)
      else case (xc_cap_pct c, xc_margin c, mid) of
        (Some cap, Some margin, Some m) \<Rightarrow>
          if cap / 100 \<le> 0 \<or> margin \<le> 0 \<or> m \<le> 0 then (entry_suppression c net_base (True, True), s)
          else let net_quote = net_base * m;
                   cap_quote = margin * (cap / 100);
                   resume_quote = cap_quote * xc_resume_frac c;
                   capped = (if \<bar>net_quote\<bar> \<ge> cap_quote then True
                             else if \<bar>net_quote\<bar> \<le> resume_quote then False else xs_capped s);
                   allowed = (if capped then (if net_quote > 0 then (False, True) else (True, False))
                              else (True, True))
               in (entry_suppression c net_base allowed, \<lparr>xs_capped = capped, xs_net_quote = net_quote\<rparr>)
      | _ \<Rightarrow> (entry_suppression c net_base (True, True), s))"

subsection \<open>The re-center threshold\<close>

definition LADDER_RECENTER_FLOOR_BP :: dec where "LADDER_RECENTER_FLOOR_BP = 12"

definition ladder_recenter_threshold_bp :: "dec \<Rightarrow> int \<Rightarrow> dec \<Rightarrow> dec \<Rightarrow> dec \<times> bool" where
  "ladder_recenter_threshold_bp step0 levels user0 floor_bp = (let
     step = max step0 0; band = step * of_int (max (levels - 1) 1);
     lo = max floor_bp step; hi = max lo band; user = max user0 0 in
     if user \<le> 0 then (hi, False) else if user > hi then (hi, True) else (max user lo, False))"

subsection \<open>The gate over a session\<close>

type_synonym gate_result = "string option \<times> string option \<times> dec option"

definition gate_run :: "gate_input \<Rightarrow> gate_result list \<Rightarrow> gate \<Rightarrow> gate" where
  "gate_run i rs g = foldl (\<lambda>g r. evaluate_quote_gate (i\<lparr>gi_result := Some r\<rparr>) g) g rs"

definition pauses :: "gate_input \<Rightarrow> gate_result \<Rightarrow> bool" where
  "pauses i r = (case r of (v, why, _) \<Rightarrow> fst (gate_effective i v why) = ''PAUSE'')"

definition pause_reason :: "gate_input \<Rightarrow> gate_result \<Rightarrow> string" where
  "pause_reason i r = (case r of (v, why, _) \<Rightarrow> snd (gate_effective i v why))"

lemma gate_effective_result [simp]: "gate_effective (i\<lparr>gi_result := r\<rparr>) = gate_effective i"
  "confirm_ticks (i\<lparr>gi_result := r\<rparr>) = confirm_ticks i" "1 \<le> confirm_ticks i"
  by (simp_all add: gate_effective_def confirm_ticks_def fun_eq_iff cong: if_cong)

lemma gate_commit_result [simp]: "gate_commit (i\<lparr>gi_result := r\<rparr>) = gate_commit i"
  by (simp add: gate_commit_def fun_eq_iff)

text \<open>A pause commits at once; a quote counts towards the confirmation.\<close>

lemma gate_step_pause:
  assumes "gi_enabled i" "gi_provider i" "pauses i r"
  shows "gate_paused (evaluate_quote_gate (i\<lparr>gi_result := Some r\<rparr>) g)
    \<and> gt_streak (evaluate_quote_gate (i\<lparr>gi_result := Some r\<rparr>) g) = 0
    \<and> gt_reason (evaluate_quote_gate (i\<lparr>gi_result := Some r\<rparr>) g) = pause_reason i r"
  using assms
  by (cases r) (auto simp: evaluate_quote_gate_def Let_def gate_commit_def gate_paused_def pauses_def pause_reason_def
      split: prod.splits)

lemma gate_step_quote:
  assumes "gi_enabled i" "gi_provider i" "\<not> pauses i r" "gate_paused g" "gt_reason g \<notin> set VENUE_GATE_REASONS"
  shows "if gt_streak g + 1 < confirm_ticks i
    then gate_paused (evaluate_quote_gate (i\<lparr>gi_result := Some r\<rparr>) g)
      \<and> gt_streak (evaluate_quote_gate (i\<lparr>gi_result := Some r\<rparr>) g) = gt_streak g + 1
      \<and> gt_reason (evaluate_quote_gate (i\<lparr>gi_result := Some r\<rparr>) g) = gt_reason g
    else gt_verdict (evaluate_quote_gate (i\<lparr>gi_result := Some r\<rparr>) g) = ''QUOTE''
      \<and> gt_event (evaluate_quote_gate (i\<lparr>gi_result := Some r\<rparr>) g) = Some (''QUOTE'', pause_reason i r)"
  using assms
  by (cases r) (auto simp: evaluate_quote_gate_def Let_def gate_commit_def gate_paused_def pauses_def pause_reason_def
      gate_lift_venue_def split: prod.splits)

lemma gate_step_quoting:
  assumes "gi_enabled i" "gi_provider i" "\<not> pauses i r" "gt_verdict g = ''QUOTE''"
  shows "gt_verdict (evaluate_quote_gate (i\<lparr>gi_result := Some r\<rparr>) g) = ''QUOTE''"
  using assms
  by (cases r) (auto simp: evaluate_quote_gate_def Let_def gate_commit_def pauses_def gate_lift_venue_def
      split: prod.splits)

lemma gate_run_quoting:
  "gi_enabled i \<Longrightarrow> gi_provider i \<Longrightarrow> list_all (\<lambda>r. \<not> pauses i r) qs \<Longrightarrow> gt_verdict g = ''QUOTE''
   \<Longrightarrow> gt_verdict (gate_run i qs g) = ''QUOTE''"
  by (induction qs arbitrary: g) (simp_all add: gate_run_def gate_step_quoting)

lemma gate_run_paused:
  assumes "gi_enabled i" "gi_provider i" "list_all (\<lambda>r. \<not> pauses i r) qs"
    "gate_paused g" "gt_reason g \<notin> set VENUE_GATE_REASONS" "0 \<le> gt_streak g" "gt_streak g < confirm_ticks i"
  shows "if gt_streak g + int (length qs) < confirm_ticks i then gate_paused (gate_run i qs g)
    else gt_verdict (gate_run i qs g) = ''QUOTE''"
  using assms(3-7)
proof (induction qs arbitrary: g)
  case Nil
  then show ?case by (simp add: gate_run_def)
next
  case (Cons r qs)
  define g' where "g' = evaluate_quote_gate (i\<lparr>gi_result := Some r\<rparr>) g"
  have run: "gate_run i (r # qs) g = gate_run i qs g'" by (simp add: gate_run_def g'_def)
  note step = gate_step_quote [OF assms(1,2), of r g, folded g'_def]
  show ?case
  proof (cases "gt_streak g + 1 < confirm_ticks i")
    case True
    then show ?thesis using step Cons.IH [of g'] Cons.prems unfolding run by (auto simp: ac_simps)
  next
    case False
    then have "gt_verdict g' = ''QUOTE''" using step Cons.prems by simp
    then show ?thesis using gate_run_quoting [OF assms(1,2), of qs g'] Cons.prems False unfolding run by simp
  qed
qed

text \<open>
  A law: the asymmetric gate. With the gate enabled and fed, whatever happened before, a
  pause verdict pauses at once, and after it quoting resumes exactly when the configured number
  of consecutive quote verdicts has arrived: fewer keep the pause, and from then on the gate
  quotes until the next pause.
\<close>

theorem gate_hysteresis:
  assumes "gi_enabled i" "gi_provider i" "pauses i p" "pause_reason i p \<notin> set VENUE_GATE_REASONS"
    and "list_all (\<lambda>r. \<not> pauses i r) qs"
  shows "gate_paused (gate_run i (rs @ p # qs) g) \<longleftrightarrow> int (length qs) < confirm_ticks i"
proof -
  define g' where "g' = evaluate_quote_gate (i\<lparr>gi_result := Some p\<rparr>) (gate_run i rs g)"
  have run: "gate_run i (rs @ p # qs) g = gate_run i qs g'" by (simp add: gate_run_def g'_def)
  have "gate_paused g'" "gt_streak g' = 0" "gt_reason g' = pause_reason i p"
    using gate_step_pause [OF assms(1-3)] by (simp_all add: g'_def)
  then show ?thesis
    using gate_run_paused [OF assms(1,2,5), of g'] assms(4) gate_effective_result(3) [of i]
    unfolding run by (auto simp: gate_paused_def split: if_splits)
qed

definition demo_gate_input :: gate_input where
  "demo_gate_input = \<lparr>gi_enabled = True, gi_provider = True, gi_result = None, gi_confirm = None,
     gi_pause_on_trend = True, gi_adverse_trend = None, gi_pause_on_breakout = True\<rparr>"

theorem gate_hysteresis_witness:
  "gate_paused (gate_run demo_gate_input [(Some ''PAUSE'', Some ''breakout'', None), (Some ''QUOTE'', None, None)] fresh_gate)
   \<and> \<not> gate_paused (gate_run demo_gate_input [(Some ''PAUSE'', Some ''breakout'', None), (Some ''QUOTE'', None, None),
        (Some ''QUOTE'', None, None)] fresh_gate)"
proof -
  note d = demo_gate_input_def pauses_def pause_reason_def gate_effective_def or_str_def is_trend_def
    VENUE_GATE_REASONS_def confirm_ticks_def
  show ?thesis
    using gate_hysteresis [of demo_gate_input "(Some ''PAUSE'', Some ''breakout'', None)" "[(Some ''QUOTE'', None, None)]" "[]" fresh_gate]
      gate_hysteresis [of demo_gate_input "(Some ''PAUSE'', Some ''breakout'', None)"
        "[(Some ''QUOTE'', None, None), (Some ''QUOTE'', None, None)]" "[]" fresh_gate]
    by (simp add: d)
qed

text \<open>
  A law: exposure control never traps a position. Where the controller keeps an inventory,
  the side that reduces a position is always allowed; under entry suppression only that side
  is, and a flat book may not trade at all; and once the net exposure reaches its cap the side
  that grows it is refused until the exposure has fallen back to the resume fraction.
\<close>

theorem exposure_sides:
  fixes net_base :: dec and s :: exposure_state
  assumes "xc_has_inventory c" "\<And>m. mid = Some m \<Longrightarrow> 0 < m"
  defines "r \<equiv> exposure_allowed_sides c net_base mid s"
  shows "(0 < net_base \<longrightarrow> snd (fst r)) \<and> (net_base < 0 \<longrightarrow> fst (fst r))
    \<and> (xc_suppress c \<longrightarrow> (fst (fst r) \<longleftrightarrow> net_base < 0) \<and> (snd (fst r) \<longleftrightarrow> 0 < net_base))
    \<and> (\<forall>cap margin m. xc_cap_pct c = Some cap \<longrightarrow> xc_margin c = Some margin \<longrightarrow> mid = Some m \<longrightarrow> 0 < cap
         \<longrightarrow> 0 < margin \<longrightarrow> (margin * (cap / 100) \<le> \<bar>net_base * m\<bar>
             \<or> xs_capped s \<and> margin * (cap / 100) * xc_resume_frac c < \<bar>net_base * m\<bar>)
         \<longrightarrow> xs_capped (snd r) \<and> (0 < net_base \<longrightarrow> \<not> fst (fst r)) \<and> (net_base < 0 \<longrightarrow> \<not> snd (fst r)))"
proof (cases "xc_cap_pct c = None \<or> xc_margin c = None \<or> mid = None")
  case True
  then have "r = (entry_suppression c net_base (True, True), s)"
    using assms(1) by (auto simp: r_def exposure_allowed_sides_def split: option.splits)
  with True assms(1) show ?thesis by (auto simp: entry_suppression_def)
next
  case False
  then obtain cap margin m where o: "xc_cap_pct c = Some cap" "xc_margin c = Some margin" "mid = Some m" by auto
  then have "0 < m" using assms(2) by simp
  then have sign: "0 < net_base * m \<longleftrightarrow> 0 < net_base" by (simp add: zero_less_mult_iff)
  define off where "off \<longleftrightarrow> cap / 100 \<le> 0 \<or> margin \<le> 0 \<or> m \<le> 0"
  define capped where "capped \<longleftrightarrow> (if \<bar>net_base * m\<bar> \<ge> margin * (cap / 100) then True
      else if \<bar>net_base * m\<bar> \<le> margin * (cap / 100) * xc_resume_frac c then False else xs_capped s)"
  have r: "r = (if off then (entry_suppression c net_base (True, True), s)
      else (entry_suppression c net_base (if capped then (if 0 < net_base then (False, True) else (True, False)) else (True, True)),
        \<lparr>xs_capped = capped, xs_net_quote = net_base * m\<rparr>))"
    using assms(1) o sign by (simp add: r_def exposure_allowed_sides_def off_def capped_def Let_def)
  have cap: "capped" if "margin * (cap / 100) \<le> \<bar>net_base * m\<bar>
      \<or> xs_capped s \<and> margin * (cap / 100) * xc_resume_frac c < \<bar>net_base * m\<bar>"
    using that by (auto simp: capped_def)
  have on: "\<not> off" if "0 < cap" "0 < margin" using that \<open>0 < m\<close> by (simp add: off_def)
  have 1: "(0 < net_base \<longrightarrow> snd (fst r)) \<and> (net_base < 0 \<longrightarrow> fst (fst r))"
    unfolding r using assms(1) by (simp add: entry_suppression_def)
  have 2: "xc_suppress c \<longrightarrow> (fst (fst r) \<longleftrightarrow> net_base < 0) \<and> (snd (fst r) \<longleftrightarrow> 0 < net_base)"
    unfolding r using assms(1) by (auto simp: entry_suppression_def)
  have 3: "xs_capped (snd r) \<and> (0 < net_base \<longrightarrow> \<not> fst (fst r)) \<and> (net_base < 0 \<longrightarrow> \<not> snd (fst r))"
    if "0 < cap" "0 < margin" "margin * (cap / 100) \<le> \<bar>net_base * m\<bar>
      \<or> xs_capped s \<and> margin * (cap / 100) * xc_resume_frac c < \<bar>net_base * m\<bar>"
    unfolding r using on [OF that(1,2)] cap [OF that(3)] by (simp add: entry_suppression_def)
  have 4: "xs_capped (snd r) \<and> (0 < net_base \<longrightarrow> \<not> fst (fst r)) \<and> (net_base < 0 \<longrightarrow> \<not> snd (fst r))"
    if "xc_cap_pct c = Some cap'" "xc_margin c = Some margin'" "mid = Some m'" "0 < cap'" "0 < margin'"
      "margin' * (cap' / 100) \<le> \<bar>net_base * m'\<bar>
       \<or> xs_capped s \<and> margin' * (cap' / 100) * xc_resume_frac c < \<bar>net_base * m'\<bar>" for cap' margin' m'
  proof -
    have "cap' = cap" "margin' = margin" "m' = m" using that(1-3) o by simp_all
    then show ?thesis using 3 that(4-6) by simp
  qed
  show ?thesis
    by (rule conjI [OF 1 [THEN conjunct1] conjI [OF 1 [THEN conjunct2] conjI [OF 2]]], intro allI impI, rule 4)
qed

definition demo_exposure :: exposure_cfg where
  "demo_exposure = \<lparr>xc_has_inventory = True, xc_cap_pct = Some 50, xc_margin = Some 100, xc_resume_frac = 7 / 10,
     xc_suppress = False\<rparr>"

theorem exposure_sides_witness:
  "snd (fst (exposure_allowed_sides demo_exposure 4 (Some 10) \<lparr>xs_capped = True, xs_net_quote = 0\<rparr>))
   \<and> \<not> fst (fst (exposure_allowed_sides demo_exposure 4 (Some 10) \<lparr>xs_capped = True, xs_net_quote = 0\<rparr>))"
  using exposure_sides [of demo_exposure "Some 10" 4 "\<lparr>xs_capped = True, xs_net_quote = 0\<rparr>"]
  by (simp add: demo_exposure_def)

text \<open>The threshold lies between one step and one band, and is clamped only downwards.\<close>

lemma recenter_threshold_bounds:
  "ladder_recenter_threshold_bp step levels user fl = (thr, clamped) \<Longrightarrow>
     max fl (max step 0) \<le> thr
     \<and> thr \<le> max (max fl (max step 0)) (max step 0 * of_int (max (levels - 1) 1))
     \<and> (clamped \<longrightarrow> thr < user)"
proof -
  assume h: "ladder_recenter_threshold_bp step levels user fl = (thr, clamped)"
  define lo hi u where "lo = max fl (max step 0)" and "hi = max lo (max step 0 * of_int (max (levels - 1) 1))"
    and "u = max user 0"
  have "(thr, clamped) = (if u \<le> 0 then (hi, False) else if u > hi then (hi, True) else (max u lo, False))"
    using h unfolding ladder_recenter_threshold_bp_def Let_def lo_def hi_def u_def by simp
  moreover have "lo \<le> hi" "0 < u \<Longrightarrow> u = user" by (simp_all add: hi_def u_def)
  ultimately have "lo \<le> thr \<and> thr \<le> hi \<and> (clamped \<longrightarrow> thr < user)"
    by (cases "u \<le> 0"; cases "u > hi") simp_all
  then show ?thesis by (simp add: lo_def hi_def)
qed

text \<open>Without an inventory repository the posture is not consulted at all.\<close>

lemma suppression_ignored_without_inventory:
  "xc_suppress c \<Longrightarrow> \<not> xc_has_inventory c
   \<Longrightarrow> fst (exposure_allowed_sides c net_base mid s) = (True, True)
     \<and> entry_suppression c net_base (True, True) = (False, False)"
  by (simp add: exposure_allowed_sides_def entry_suppression_def)

end
