(* ===== verification/Orchestrator.thy ===== *)
theory Orchestrator
  imports RGrid_Maker Position_Executor Dca_Executor Twap_Executor Grid_Executor Risk Controller_Base "HOL-Library.Multiset"
begin

text \<open>
  The executor orchestrator, from \<open>engine/orchestrator.py\<close>: the registry of executors and
  controllers, spawning behind the kill switch and the risk gates, ticking, stopping, the
  bounded event log and queue, the transient-failure backoff of controllers, and the pruning
  of terminated executors.

  Its executors are the executors of the other theories, a sum over their classes with each
  lifecycle call dispatched to the class's own handler. Controllers other than their base
  class are code this theory does not read: their three hooks are programs over the
  orchestrator, supplied in \<open>ctl_hooks\<close>. \<open>asyncio.gather\<close> runs its coroutines one after the
  other to completion and then raises the first exception.
\<close>

subsection \<open>Executors of every class\<close>

datatype engine_executor =
    EX_Order order_exec | EX_RGrid rgrid_exec | EX_Position position_exec
  | EX_Dca dca_exec | EX_Twap twap_exec | EX_Grid grid_exec

definition lift_ex :: "('x \<Rightarrow> engine_executor) \<Rightarrow> ('x \<times> 'v env, unit) prog \<Rightarrow> 'x \<Rightarrow> 'v env
    \<Rightarrow> (exc + unit) \<times> engine_executor \<times> 'v env" where
  "lift_ex K p x e = (case p (x, e) of (r, (x', e')) \<Rightarrow> (r, K x', e'))"

fun ee_on_create :: "'v venue_api \<Rightarrow> engine_executor \<Rightarrow> 'v env \<Rightarrow> (exc + unit) \<times> engine_executor \<times> 'v env" where
  "ee_on_create api (EX_Order x) = lift_ex EX_Order (oe_on_create api) x"
| "ee_on_create api (EX_RGrid x) = lift_ex EX_RGrid (oe_on_create api) x"
| "ee_on_create api (EX_Position x) = lift_ex EX_Position (pe_on_create api) x"
| "ee_on_create api (EX_Dca x) = lift_ex EX_Dca (dca_on_create api) x"
| "ee_on_create api (EX_Twap x) = lift_ex EX_Twap (tw_on_create api) x"
| "ee_on_create api (EX_Grid x) = lift_ex EX_Grid (gr_on_create api) x"

fun ee_on_tick :: "'v venue_api \<Rightarrow> engine_executor \<Rightarrow> 'v env \<Rightarrow> (exc + unit) \<times> engine_executor \<times> 'v env" where
  "ee_on_tick api (EX_Order x) = lift_ex EX_Order (oe_on_tick api) x"
| "ee_on_tick api (EX_RGrid x) = lift_ex EX_RGrid (oe_on_tick api) x"
| "ee_on_tick api (EX_Position x) = lift_ex EX_Position (pe_on_tick api) x"
| "ee_on_tick api (EX_Dca x) = lift_ex EX_Dca (dca_on_tick api) x"
| "ee_on_tick api (EX_Twap x) = lift_ex EX_Twap (tw_on_tick api) x"
| "ee_on_tick api (EX_Grid x) = lift_ex EX_Grid (gr_on_tick api) x"

fun ee_on_stop :: "'v venue_api \<Rightarrow> close_type \<Rightarrow> engine_executor \<Rightarrow> 'v env
    \<Rightarrow> (exc + unit) \<times> engine_executor \<times> 'v env" where
  "ee_on_stop api ct (EX_Order x) = lift_ex EX_Order (oe_on_stop api ct) x"
| "ee_on_stop api ct (EX_RGrid x) = lift_ex EX_RGrid (oe_on_stop api ct) x"
| "ee_on_stop api ct (EX_Position x) = lift_ex EX_Position (pe_on_stop api ct) x"
| "ee_on_stop api ct (EX_Dca x) = lift_ex EX_Dca (dca_on_stop api ct) x"
| "ee_on_stop api ct (EX_Twap x) = lift_ex EX_Twap (tw_on_stop api ct) x"
| "ee_on_stop api ct (EX_Grid x) = lift_ex EX_Grid (gr_on_stop api ct) x"

text \<open>\<open>adopt_order\<close> and \<open>settle_after_external_cancel\<close> exist on the order executors only.\<close>

fun ee_adopt :: "'v venue_api \<Rightarrow> nado_order \<Rightarrow> engine_executor \<Rightarrow> 'v env
    \<Rightarrow> (exc + unit) \<times> engine_executor \<times> 'v env" where
  "ee_adopt api ord (EX_Order x) = lift_ex EX_Order (oe_adopt_order api ord) x"
| "ee_adopt api ord (EX_RGrid x) = lift_ex EX_RGrid (oe_adopt_order api ord) x"
| "ee_adopt api ord ex = (\<lambda>e. (Inr (), ex, e))"

fun ee_settle :: "'v venue_api \<Rightarrow> engine_executor \<Rightarrow> 'v env \<Rightarrow> (exc + unit) \<times> engine_executor \<times> 'v env" where
  "ee_settle api (EX_Order x) = lift_ex EX_Order (oe_settle_external api) x"
| "ee_settle api (EX_RGrid x) = lift_ex EX_RGrid (oe_settle_external api) x"
| "ee_settle api (EX_Position x) = lift_ex EX_Position (terminate api EARLY_STOP) x"
| "ee_settle api (EX_Dca x) = lift_ex EX_Dca (terminate api EARLY_STOP) x"
| "ee_settle api (EX_Twap x) = lift_ex EX_Twap (terminate api EARLY_STOP) x"
| "ee_settle api (EX_Grid x) = lift_ex EX_Grid (terminate api EARLY_STOP) x"

fun ee_base :: "engine_executor \<Rightarrow> exec_base" where
  "ee_base (EX_Order x) = exec_base.truncate x"
| "ee_base (EX_RGrid x) = exec_base.truncate x"
| "ee_base (EX_Position x) = exec_base.truncate x"
| "ee_base (EX_Dca x) = exec_base.truncate x"
| "ee_base (EX_Twap x) = exec_base.truncate x"
| "ee_base (EX_Grid x) = exec_base.truncate x"

fun ee_recorded :: "engine_executor \<Rightarrow> engine_executor" where
  "ee_recorded (EX_Order x) = EX_Order (x\<lparr>ex_has_recorder := True\<rparr>)"
| "ee_recorded (EX_RGrid x) = EX_RGrid (x\<lparr>ex_has_recorder := True\<rparr>)"
| "ee_recorded (EX_Position x) = EX_Position (x\<lparr>ex_has_recorder := True\<rparr>)"
| "ee_recorded (EX_Dca x) = EX_Dca (x\<lparr>ex_has_recorder := True\<rparr>)"
| "ee_recorded (EX_Twap x) = EX_Twap (x\<lparr>ex_has_recorder := True\<rparr>)"
| "ee_recorded (EX_Grid x) = EX_Grid (x\<lparr>ex_has_recorder := True\<rparr>)"

abbreviation ee_id :: "engine_executor \<Rightarrow> string" where "ee_id x \<equiv> ex_id (ee_base x)"
abbreviation ee_controller :: "engine_executor \<Rightarrow> string" where "ee_controller x \<equiv> ex_controller (ee_base x)"
abbreviation ee_terminated :: "engine_executor \<Rightarrow> bool" where "ee_terminated x \<equiv> is_terminated (ee_base x)"

text \<open>The attributes \<open>order\<close>, \<open>close_order\<close> and \<open>entry_order\<close> a class has.\<close>

fun ee_handles :: "engine_executor \<Rightarrow> nado_order option list" where
  "ee_handles (EX_Order x) = [oe_order x]"
| "ee_handles (EX_RGrid x) = [oe_order x]"
| "ee_handles (EX_Position x) = [pe_close x, pe_entry x]"
| "ee_handles (EX_Dca x) = [dca_close x]"
| "ee_handles (EX_Twap x) = []"
| "ee_handles (EX_Grid x) = []"

fun ee_counts :: "engine_executor \<Rightarrow> order_counts" where
  "ee_counts (EX_Order x) = Counts (int (oe_placed x)) (int (oe_filled x)) (int (oe_cancelled x))"
| "ee_counts (EX_RGrid x) = Counts (int (oe_placed x)) (int (oe_filled x)) (int (oe_cancelled x))"
| "ee_counts (EX_Grid x) = Counts (int (gr_placed x)) (int (gr_filled x)) (int (gr_cancelled x))"
| "ee_counts _ = 0"

definition order_may_still_rest :: "engine_executor \<Rightarrow> bool" where
  "order_may_still_rest x =
     (if list_ex (\<lambda>h. case h of None \<Rightarrow> False | Some ord \<Rightarrow> \<not> is_terminal (o_state ord)) (ee_handles x) then True
      else if ex_close (ee_base x) = Some FAILED then ee_handles x = [] else False)"

subsection \<open>State\<close>

record exec_event =
  ev_kind :: string
  ev_executor :: "string option"
  ev_controller :: "string option"
  ev_close :: "close_type option"
  ev_reason :: "string option"
  ev_ts :: time

record ('v, 'k, 'c) orch =
  or_env :: "'v env"
  or_risk :: "'k risk_engine option"
  or_has_recorder :: bool
  or_executors :: "engine_executor odict"
  or_controllers :: "'c controller_scheme odict"
  or_queue :: "exec_event list"
  or_queue_limit :: nat
  or_log :: "exec_event list"
  or_log_limit :: nat
  or_overflows :: nat
  or_killed :: bool
  or_kill_reason :: "string option"
  or_fail_counts :: "nat odict"
  or_backoff_until :: "time odict"
  or_max_fails :: nat
  or_backoff_cap :: time
  or_retention :: nat
  or_last_spawn :: "string odict"

definition mk_orch :: "'v env \<Rightarrow> 'k risk_engine option \<Rightarrow> bool \<Rightarrow> nat \<Rightarrow> nat \<Rightarrow> nat \<Rightarrow> time \<Rightarrow> nat \<Rightarrow> ('v, 'k, 'c) orch" where
  "mk_orch e risk rec log_limit queue_limit max_fails cap retention =
     \<lparr>or_env = e, or_risk = risk, or_has_recorder = rec, or_executors = [], or_controllers = [],
      or_queue = [], or_queue_limit = max 1 queue_limit, or_log = [], or_log_limit = max 1 log_limit,
      or_overflows = 0, or_killed = False, or_kill_reason = None, or_fail_counts = [],
      or_backoff_until = [], or_max_fails = max 1 max_fails, or_backoff_cap = cap, or_retention = max 1 retention,
      or_last_spawn = []\<rparr>"

type_synonym ('v, 'k, 'c, 'a) oprog = "(('v, 'k, 'c) orch, 'a) prog"

text \<open>
  The collaborators: the venue, the kill-switch store, the optional risk-state provider, the
  optional keep-predicate of pruning, and the hooks of the controllers.
\<close>

record ('v, 'k) deps =
  dp_api :: "'v venue_api"
  dp_kill :: "'k kill_api"
  dp_provider :: "('v \<Rightarrow> string \<Rightarrow> risk_state) option"
  dp_keep :: "(engine_executor \<Rightarrow> exc + bool) option"

record ('v, 'k, 'c) ctl_hooks =
  ch_on_start :: "string \<Rightarrow> ('v, 'k, 'c, unit) oprog"
  ch_on_tick :: "string \<Rightarrow> ('v, 'k, 'c, unit) oprog"
  ch_on_stop :: "string \<Rightarrow> string \<Rightarrow> ('v, 'k, 'c, unit) oprog"

definition o_now :: "('v, 'k) deps \<Rightarrow> ('v, 'k, 'c) orch \<Rightarrow> time" where
  "o_now dp s = va_now (dp_api dp) (env_venue (or_env s))"

subsection \<open>Events\<close>

text \<open>The ring buffer of the log, and the bounded queue that drops its oldest event.\<close>

definition push_event :: "exec_event \<Rightarrow> ('v, 'k, 'c) orch \<Rightarrow> ('v, 'k, 'c) orch" where
  "push_event ev s = s\<lparr>
     or_log := last_n (or_log_limit s) (or_log s @ [ev]),
     or_queue := (if length (or_queue s) < or_queue_limit s then or_queue s @ [ev]
                  else drop 1 (or_queue s) @ [ev]),
     or_overflows := (if length (or_queue s) < or_queue_limit s then or_overflows s else Suc (or_overflows s))\<rparr>"

definition emit :: "('v, 'k) deps \<Rightarrow> string \<Rightarrow> string option \<Rightarrow> string option \<Rightarrow> close_type option \<Rightarrow> string option
    \<Rightarrow> ('v, 'k, 'c, unit) oprog" where
  "emit dp kind xid cid ct reason = modifyP (\<lambda>s. push_event
     \<lparr>ev_kind = kind, ev_executor = xid, ev_controller = cid, ev_close = ct, ev_reason = reason,
      ev_ts = o_now dp s\<rparr> s)"

definition drain_events :: "('v, 'k, 'c, exec_event list) oprog" where
  "drain_events = bindP (getsP or_queue) (\<lambda>q. thenP (modifyP (\<lambda>s. s\<lparr>or_queue := []\<rparr>)) (ret q))"

subsection \<open>Kill switch, registry, risk snapshot\<close>

definition kill_switch_on :: "('v, 'k) deps \<Rightarrow> string \<Rightarrow> ('v, 'k, 'c, unit) oprog" where
  "kill_switch_on dp reason = seqP
     [modifyP (\<lambda>s. s\<lparr>or_killed := True, or_kill_reason := Some reason,
        or_risk := map_option (risk_kill_on (dp_kill dp) reason) (or_risk s)\<rparr>),
      emit dp ''kill_switch'' None None None (Some reason)]"

definition kill_switch_off :: "('v, 'k) deps \<Rightarrow> ('v, 'k, 'c, unit) oprog" where
  "kill_switch_off dp = modifyP (\<lambda>s. s\<lparr>or_killed := False, or_kill_reason := None,
     or_risk := map_option (risk_kill_off (dp_kill dp)) (or_risk s)\<rparr>)"

definition orch_killed :: "('v, 'k) deps \<Rightarrow> ('v, 'k, 'c) orch \<Rightarrow> bool" where
  "orch_killed dp s \<longleftrightarrow> or_killed s \<or> (case or_risk s of None \<Rightarrow> False | Some re \<Rightarrow> risk_is_killed (dp_kill dp) re)"

definition list_executors :: "string option \<Rightarrow> bool \<Rightarrow> ('v, 'k, 'c) orch \<Rightarrow> engine_executor list" where
  "list_executors cid active_only s = filter (\<lambda>x. \<not> active_only \<or> \<not> ee_terminated x)
     (filter (\<lambda>x. case cid of None \<Rightarrow> True | Some c \<Rightarrow> ee_controller x = c) (map snd (or_executors s)))"

text \<open>\<open>time.strftime("%Y-%m-%d", time.gmtime())\<close>.\<close>

definition digit :: "nat \<Rightarrow> char" where "digit n = char_of (48 + n)"

fun nat_str :: "nat \<Rightarrow> string" where
  "nat_str n = (if n < 10 then [digit n] else nat_str (n div 10) @ [digit (n mod 10)])"

declare nat_str.simps [simp del]

definition pad_str :: "nat \<Rightarrow> nat \<Rightarrow> string" where
  "pad_str w n = (let s = nat_str n in replicate (w - length s) (CHR ''0'') @ s)"

definition utc_date :: "time \<Rightarrow> string" where
  "utc_date t = (case civil_date (\<lfloor>t / 86400\<rfloor>) of (y, m, d) \<Rightarrow>
     pad_str 4 (nat y) @ ''-'' @ pad_str 2 (nat m) @ ''-'' @ pad_str 2 (nat d))"

definition state_for :: "('v, 'k) deps \<Rightarrow> string \<Rightarrow> ('v, 'k, 'c) orch \<Rightarrow> risk_state" where
  "state_for dp cid s = (let
     st = (case dp_provider dp of None \<Rightarrow> default_risk_state | Some f \<Rightarrow> f (env_venue (or_env s)) cid);
     st = rolled_over st (utc_date (o_now dp s))
     in st\<lparr>rs_executor_count := int (length (list_executors (Some cid) True s))\<rparr>)"

subsection \<open>Executor lifecycle\<close>

definition put_executor :: "engine_executor \<Rightarrow> ('v, 'k, 'c, unit) oprog" where
  "put_executor x = modifyP (\<lambda>s. s\<lparr>or_executors := od_set (ee_id x) x (or_executors s)\<rparr>)"

text \<open>Run a call on the registered executor \<open>xid\<close>; what it changed stays changed if it raises.\<close>

definition on_executor :: "string \<Rightarrow> (engine_executor \<Rightarrow> 'v env \<Rightarrow> (exc + unit) \<times> engine_executor \<times> 'v env)
    \<Rightarrow> ('v, 'k, 'c, unit) oprog" where
  "on_executor xid f = (\<lambda>s. case map_of (or_executors s) xid of None \<Rightarrow> (Inr (), s)
     | Some x \<Rightarrow> (case f x (or_env s) of (r, x', e') \<Rightarrow>
         (r, s\<lparr>or_executors := od_set xid x' (or_executors s), or_env := e'\<rparr>)))"

definition set_spawn_reason :: "string \<Rightarrow> string option \<Rightarrow> ('v, 'k, 'c, unit) oprog" where
  "set_spawn_reason cid reason = modifyP (\<lambda>s. s\<lparr>or_last_spawn :=
     (case reason of None \<Rightarrow> od_pop cid (or_last_spawn s) | Some r \<Rightarrow> od_set cid r (or_last_spawn s))\<rparr>)"

definition refuse_spawn :: "('v, 'k) deps \<Rightarrow> engine_executor \<Rightarrow> string \<Rightarrow> string option \<Rightarrow> ('v, 'k, 'c, bool) oprog" where
  "refuse_spawn dp x why reason = thenP (seqP
     [set_spawn_reason (ee_controller x) (Some why),
      emit dp ''spawn_rejected'' (Some (ee_id x)) (Some (ee_controller x)) None reason]) (ret False)"

definition spawn_gate :: "('v, 'k) deps \<Rightarrow> string \<Rightarrow> executor_request option \<Rightarrow> ('v, 'k, 'c) orch \<Rightarrow> check_result" where
  "spawn_gate dp cid rq s = (case (or_risk s, rq) of
     (Some re, Some q) \<Rightarrow> pre_executor_check (dp_kill dp) re q (state_for dp cid s)
   | _ \<Rightarrow> (True, None))"

text \<open>Registering the executor and creating its first order, with the handlers of the exceptions.\<close>

definition spawn_failed :: "('v, 'k) deps \<Rightarrow> engine_executor \<Rightarrow> exc \<Rightarrow> ('v, 'k, 'c, bool) oprog" where
  "spawn_failed dp x c = (let cid = ee_controller x; xid = ee_id x in case c of
     AdapterThrottled m \<Rightarrow>
       thenP (modifyP (\<lambda>s. s\<lparr>or_executors := od_pop xid (or_executors s)\<rparr>))
         (refuse_spawn dp x (''execute_throttled:'' @ m) (Some (''execute_throttled:'' @ m)))
   | ExecutorFailed m \<Rightarrow> thenP (seqP
       [set_spawn_reason cid (Some (''executor_failed:'' @ m)),
        emit dp ''failed'' (Some xid) (Some cid) (Some FAILED) (Some m)]) (ret False)
   | _ \<Rightarrow> raise c)"

definition spawn_created :: "('v, 'k) deps \<Rightarrow> engine_executor \<Rightarrow> ('v, 'k, 'c, bool) oprog" where
  "spawn_created dp x = bindP (getsP or_has_recorder) (\<lambda>rec.
     thenP (put_executor (if rec then ee_recorded x else x))
       (tryP (thenP (on_executor (ee_id x) (ee_on_create (dp_api dp)))
          (thenP (seqP
            [set_spawn_reason (ee_controller x) None,
             emit dp ''spawned'' (Some (ee_id x)) (Some (ee_controller x)) None None]) (ret True)))
        (spawn_failed dp x)))"

definition orch_spawn :: "('v, 'k) deps \<Rightarrow> engine_executor \<Rightarrow> executor_request option \<Rightarrow> ('v, 'k, 'c, bool) oprog" where
  "orch_spawn dp x rq = bindP (getsP (\<lambda>s. (orch_killed dp s, spawn_gate dp (ee_controller x) rq s)))
     (\<lambda>(killed, ok, reason).
       if killed then refuse_spawn dp x ''kill_switch'' (Some ''kill_switch'')
       else if \<not> ok
       then refuse_spawn dp x (''risk:'' @ (case reason of None \<Rightarrow> ''None'' | Some r \<Rightarrow> r)) reason
       else spawn_created dp x)"

definition orch_tick :: "('v, 'k) deps \<Rightarrow> string \<Rightarrow> ('v, 'k, 'c, unit) oprog" where
  "orch_tick dp xid = bindP (getsP (\<lambda>s. map_of (or_executors s) xid)) (\<lambda>o'. case o' of
     None \<Rightarrow> ret ()
   | Some x \<Rightarrow> if ee_terminated x then ret ()
      else tryP (thenP (on_executor xid (ee_on_tick (dp_api dp)))
             (emit dp ''tick'' (Some (ee_id x)) (Some (ee_controller x)) None None))
        (\<lambda>c. case c of
           AdapterThrottled m \<Rightarrow> ret ()
         | ExecutorFailed m \<Rightarrow> emit dp ''failed'' (Some (ee_id x)) (Some (ee_controller x)) (Some FAILED) (Some m)
         | _ \<Rightarrow> raise c))"

definition emit_stopped :: "('v, 'k) deps \<Rightarrow> string \<Rightarrow> ('v, 'k, 'c, bool) oprog" where
  "emit_stopped dp xid = bindP (getsP (\<lambda>s. map_of (or_executors s) xid)) (\<lambda>o'. case o' of
     None \<Rightarrow> ret True
   | Some x \<Rightarrow> thenP (emit dp ''stopped'' (Some (ee_id x)) (Some (ee_controller x)) (ex_close (ee_base x)) None) (ret True))"

definition orch_stop :: "('v, 'k) deps \<Rightarrow> string \<Rightarrow> close_type \<Rightarrow> ('v, 'k, 'c, bool) oprog" where
  "orch_stop dp xid ct = bindP (getsP (\<lambda>s. map_of (or_executors s) xid)) (\<lambda>o'.
     if o' = None then ret False
     else thenP (on_executor xid (ee_on_stop (dp_api dp) ct)) (emit_stopped dp xid))"

definition orch_adopt :: "('v, 'k) deps \<Rightarrow> engine_executor \<Rightarrow> nado_order \<Rightarrow> ('v, 'k, 'c, bool) oprog" where
  "orch_adopt dp x ord = bindP (getsP or_has_recorder) (\<lambda>rec. thenP (seqP
     [put_executor (if rec then ee_recorded x else x),
      on_executor (ee_id x) (ee_adopt (dp_api dp) ord),
      set_spawn_reason (ee_controller x) None,
      emit dp ''spawned'' (Some (ee_id x)) (Some (ee_controller x)) None None]) (ret True))"

definition orch_settle_replaced :: "('v, 'k) deps \<Rightarrow> string \<Rightarrow> ('v, 'k, 'c, bool) oprog" where
  "orch_settle_replaced dp xid = bindP (getsP (\<lambda>s. map_of (or_executors s) xid)) (\<lambda>o'.
     if o' = None then ret False
     else thenP (on_executor xid (ee_settle (dp_api dp))) (emit_stopped dp xid))"

subsection \<open>Controllers\<close>

definition upd_controller :: "string \<Rightarrow> (time \<Rightarrow> 'c controller_scheme \<Rightarrow> 'c controller_scheme) \<Rightarrow> ('v, 'k) deps
    \<Rightarrow> ('v, 'k, 'c, unit) oprog" where
  "upd_controller cid f dp = modifyP (\<lambda>s. case map_of (or_controllers s) cid of None \<Rightarrow> s
     | Some c \<Rightarrow> s\<lparr>or_controllers := od_set cid (f (o_now dp s) c) (or_controllers s)\<rparr>)"

text \<open>\<open>asyncio.gather\<close>: every coroutine runs; the first exception is raised, or swallowed.\<close>

fun gatherP :: "('s, 'a) prog list \<Rightarrow> ('s, unit) prog" where
  "gatherP [] = ret ()"
| "gatherP (p # ps) = (\<lambda>s. case p s of
     (Inl c, s') \<Rightarrow> (Inl c, snd (gatherP ps s'))
   | (Inr _, s') \<Rightarrow> gatherP ps s')"

definition ids_of :: "engine_executor list \<Rightarrow> string list" where "ids_of xs = map ee_id xs"

definition spawn_controller ::
  "('v, 'k) deps \<Rightarrow> ('v, 'k, 'c) ctl_hooks \<Rightarrow> 'c controller_scheme \<Rightarrow> ('v, 'k, 'c, bool) oprog" where
  "spawn_controller dp hk c = (let cid = ct_id c in bindP (getsP (orch_killed dp)) (\<lambda>killed.
     if killed
     then thenP (emit dp ''controller_rejected'' None (Some cid) None (Some ''kill_switch'')) (ret False)
     else thenP (modifyP (\<lambda>s. s\<lparr>or_controllers := od_set cid c (or_controllers s)\<rparr>))
       (bindP (tryP (thenP (ch_on_start hk cid) (ret None)) (\<lambda>x. ret (Some x))) (\<lambda>failure.
          case failure of
            None \<Rightarrow> thenP (seqP
              [upd_controller cid set_active dp,
               emit dp ''controller_spawned'' None (Some cid) None None]) (ret True)
          | Some x \<Rightarrow> thenP (seqP
              [upd_controller cid (\<lambda>t c. set_failed t c\<lparr>ct_start_error := Some (exc_str x)\<rparr>) dp,
               bindP (getsP (\<lambda>s. ids_of (list_executors (Some cid) True s))) (\<lambda>ids.
                 tryP (gatherP (map (\<lambda>i. orch_stop dp i FAILED) ids)) (\<lambda>_. ret ())),
               emit dp ''controller_failed'' None (Some cid) None (Some (exc_str x))]) (ret False)))))"

definition transient_markers :: "string list" where
  "transient_markers = [''ipqueryonly'', ''toomanyrequests'', ''too many requests'', ''ratelimit'', ''rate limit'',
     ''rate limited'', ''timeout'', ''timed out'', ''temporarily'', ''serviceunavailable'', ''service unavailable'',
     ''bad gateway'', ''gateway timeout'', ''connection reset'', ''connection aborted'', ''connection refused'',
     ''connectionerror'', ''429'', ''502'', ''503'', ''504'']"

definition is_transient_error :: "exc \<Rightarrow> bool" where
  "is_transient_error c = (case c of
     AdapterThrottled m \<Rightarrow> True | TimeoutError m \<Rightarrow> True | ConnectionError m \<Rightarrow> True
   | _ \<Rightarrow> let txt = lower_str (exc_str c);
             compact = filter (\<lambda>ch. ch \<noteq> CHR ''_'' \<and> ch \<noteq> CHR ''-'') txt in
          list_ex (\<lambda>m. contains_str m txt \<or> contains_str m compact) transient_markers)"

definition clear_failures :: "string \<Rightarrow> ('v, 'k, 'c, unit) oprog" where
  "clear_failures cid = modifyP (\<lambda>s. s\<lparr>or_fail_counts := od_pop cid (or_fail_counts s),
     or_backoff_until := od_pop cid (or_backoff_until s)\<rparr>)"

definition handle_tick_error :: "('v, 'k) deps \<Rightarrow> string \<Rightarrow> exc \<Rightarrow> ('v, 'k, 'c, unit) oprog" where
  "handle_tick_error dp cid c =
     (if is_transient_error c
      then bindP (getsP (\<lambda>s. Suc (case map_of (or_fail_counts s) cid of None \<Rightarrow> 0 | Some n \<Rightarrow> n))) (\<lambda>count.
        thenP (modifyP (\<lambda>s. s\<lparr>or_fail_counts := od_set cid count (or_fail_counts s)\<rparr>))
        (bindP (getsP or_max_fails) (\<lambda>mx.
          if count \<ge> mx
          then seqP [clear_failures cid, upd_controller cid set_failed dp,
             emit dp ''controller_failed'' None (Some cid) None
               (Some (''transient_exhausted('' @ nat_str count @ ''): '' @ exc_str c))]
          else seqP
            [modifyP (\<lambda>s. s\<lparr>or_backoff_until := od_set cid
                (o_now dp s + min (or_backoff_cap s) (3 / 2 * 2 ^ (count - 1))) (or_backoff_until s)\<rparr>),
             emit dp ''controller_degraded'' None (Some cid) None
               (Some (''transient('' @ nat_str count @ ''/'' @ nat_str mx @ ''): '' @ exc_str c))])))
      else seqP [clear_failures cid, upd_controller cid set_failed dp,
        emit dp ''controller_failed'' None (Some cid) None (Some (exc_str c))])"

subsection \<open>Pruning\<close>

definition prunable :: "('v, 'k) deps \<Rightarrow> string list option \<Rightarrow> engine_executor \<Rightarrow> bool" where
  "prunable dp eligible x \<longleftrightarrow>
     (case eligible of None \<Rightarrow> True | Some ids \<Rightarrow> ee_id x \<in> set ids)
     \<and> \<not> order_may_still_rest x
     \<and> (case dp_keep dp of None \<Rightarrow> True | Some f \<Rightarrow> f x = Inr False)"

fun prune_scan :: "('v, 'k) deps \<Rightarrow> string \<Rightarrow> string list option \<Rightarrow> engine_executor list \<Rightarrow> int
    \<Rightarrow> ('v, 'k, 'c) orch \<Rightarrow> int \<times> ('v, 'k, 'c) orch" where
  "prune_scan dp cid eligible [] n s = (n, s)"
| "prune_scan dp cid eligible (x # xs) n s =
     (if \<not> prunable dp eligible x then prune_scan dp cid eligible xs n s
      else prune_scan dp cid eligible xs (n + 1) (s\<lparr>
        or_controllers := (case map_of (or_controllers s) cid of None \<Rightarrow> or_controllers s
          | Some c \<Rightarrow> od_set cid (bank_counts (ee_counts x) c) (or_controllers s)),
        or_executors := od_pop (ee_id x) (or_executors s)\<rparr>))"

definition newest_first :: "engine_executor list \<Rightarrow> engine_executor list" where
  "newest_first xs = sort_key (\<lambda>x. - (case ex_terminated_at (ee_base x) of None \<Rightarrow> 0 | Some t \<Rightarrow> t)) xs"

definition prune_terminated :: "('v, 'k) deps \<Rightarrow> string \<Rightarrow> string list option \<Rightarrow> int option
    \<Rightarrow> ('v, 'k, 'c) orch \<Rightarrow> int \<times> ('v, 'k, 'c) orch" where
  "prune_terminated dp cid eligible keep0 s = (let
     keep = (case keep0 of None \<Rightarrow> or_retention s | Some k \<Rightarrow> nat k);
     dead = filter ee_terminated (list_executors (Some cid) False s) in
     if length dead \<le> keep then (0, s)
     else prune_scan dp cid eligible (drop keep (newest_first dead)) 0 s)"

subsection \<open>Ticking and stopping a controller\<close>

definition tick_controller ::
  "('v, 'k) deps \<Rightarrow> ('v, 'k, 'c) ctl_hooks \<Rightarrow> string \<Rightarrow> ('v, 'k, 'c, unit) oprog" where
  "tick_controller dp hk cid = bindP (getsP (\<lambda>s. s)) (\<lambda>s.
     if (case map_of (or_controllers s) cid of None \<Rightarrow> True | Some c \<Rightarrow> \<not> ctl_active c) then ret ()
     else if (case map_of (or_backoff_until s) cid of None \<Rightarrow> False | Some t \<Rightarrow> t \<noteq> 0 \<and> o_now dp s < t)
     then emit dp ''controller_skipped'' None (Some cid) None (Some ''transient_backoff'')
     else case (case or_risk s of None \<Rightarrow> (True, None) | Some re \<Rightarrow> pre_tick_check (dp_kill dp) re (state_for dp cid s))
       of (ok, reason) \<Rightarrow>
       if \<not> ok then emit dp ''controller_skipped'' None (Some cid) None reason
       else let before = ids_of (filter ee_terminated (list_executors (Some cid) False s)) in
         bindP (tryP (thenP (ch_on_tick hk cid) (ret None)) (\<lambda>c. ret (Some c))) (\<lambda>failure.
           case failure of
             Some c \<Rightarrow> handle_tick_error dp cid c
           | None \<Rightarrow> seqP
               [clear_failures cid,
                emit dp ''controller_tick'' None (Some cid) None None,
                modifyP (\<lambda>s. snd (prune_terminated dp cid (Some before) None s))]))"

definition stop_controller ::
  "('v, 'k) deps \<Rightarrow> ('v, 'k, 'c) ctl_hooks \<Rightarrow> string \<Rightarrow> close_type \<Rightarrow> string \<Rightarrow> ('v, 'k, 'c, nat) oprog" where
  "stop_controller dp hk cid ct reason = thenP (bindP (getsP (\<lambda>s. map_of (or_controllers s) cid)) (\<lambda>o'.
       whenP (o' \<noteq> None) (thenP (tryP (ch_on_stop hk cid reason) (\<lambda>_. ret ())) (upd_controller cid set_stopped dp))))
     (bindP (getsP (\<lambda>s. ids_of (list_executors (Some cid) True s))) (\<lambda>ids.
       thenP (gatherP (map (\<lambda>i. orch_stop dp i ct) ids))
         (thenP (emit dp ''controller_stopped'' None (Some cid) None (Some reason)) (ret (length ids)))))"

definition list_controllers :: "int option \<Rightarrow> ('v, 'k, 'c) orch \<Rightarrow> 'c controller_scheme list" where
  "list_controllers user s = filter (\<lambda>c. case user of None \<Rightarrow> True | Some u \<Rightarrow> ct_user c = u) (map snd (or_controllers s))"

lemmas orun_defs = bindP_def ret_def raise_def getsP_def modifyP_def tryP_def

lemma push_event_simps [simp]:
  "or_executors (push_event ev s) = or_executors s" "or_env (push_event ev s) = or_env s"
  "or_controllers (push_event ev s) = or_controllers s" "or_last_spawn (push_event ev s) = or_last_spawn s"
  "or_killed (push_event ev s) = or_killed s" "or_risk (push_event ev s) = or_risk s"
  "or_fail_counts (push_event ev s) = or_fail_counts s" "or_backoff_until (push_event ev s) = or_backoff_until s"
  "or_max_fails (push_event ev s) = or_max_fails s" "or_backoff_cap (push_event ev s) = or_backoff_cap s"
  by (simp_all add: push_event_def)

lemma emit_run: "emit dp kind xid cid ct reason s = (Inr (), push_event
   \<lparr>ev_kind = kind, ev_executor = xid, ev_controller = cid, ev_close = ct, ev_reason = reason, ev_ts = o_now dp s\<rparr> s)"
  by (simp add: emit_def modifyP_def)

lemma refuse_spawn_run:
  "refuse_spawn dp x why reason s = (Inr False, push_event
     \<lparr>ev_kind = ''spawn_rejected'', ev_executor = Some (ee_id x), ev_controller = Some (ee_controller x),
      ev_close = None, ev_reason = reason, ev_ts = o_now dp s\<rparr>
     (s\<lparr>or_last_spawn := od_set (ee_controller x) why (or_last_spawn s)\<rparr>))"
  by (simp add: refuse_spawn_def set_spawn_reason_def emit_run orun_defs o_now_def)

subsection \<open>Spawning\<close>

lemma kill_switch_on_kills: "orch_killed dp (snd (kill_switch_on dp reason s))"
  by (simp add: kill_switch_on_def emit_run orun_defs orch_killed_def)

text \<open>
  Claim C22: the kill switch blocks. Whatever was configured, after the switch is engaged no
  spawn and no controller start does anything but report its refusal: no executor or
  controller is registered, no venue call is made, nothing already registered changes, and the
  reason is on record.
\<close>

theorem orch_kill_switch_blocks:
  "let s = snd (kill_switch_on dp reason s0) in
     fst (orch_spawn dp x rq s) = Inr False \<and> fst (spawn_controller dp hk c s) = Inr False
    \<and> or_executors (snd (orch_spawn dp x rq s)) = or_executors s0 \<and> or_env (snd (orch_spawn dp x rq s)) = or_env s0
    \<and> or_controllers (snd (spawn_controller dp hk c s)) = or_controllers s0
    \<and> or_executors (snd (spawn_controller dp hk c s)) = or_executors s0
    \<and> or_env (snd (spawn_controller dp hk c s)) = or_env s0
    \<and> map_of (or_last_spawn (snd (orch_spawn dp x rq s))) (ee_controller x) = Some ''kill_switch''"
proof -
  define s where "s = snd (kill_switch_on dp reason s0)"
  have s: "or_executors s = or_executors s0" "or_env s = or_env s0" "or_controllers s = or_controllers s0"
    by (simp_all add: s_def kill_switch_on_def emit_run orun_defs)
  have k: "orch_killed dp s" using kill_switch_on_kills by (simp add: s_def)
  have 1: "orch_spawn dp x rq s = refuse_spawn dp x ''kill_switch'' (Some ''kill_switch'') s"
    using k by (simp add: orch_spawn_def Let_def bindP_def getsP_def)
  have 2: "spawn_controller dp hk c s
      = thenP (emit dp ''controller_rejected'' None (Some (ct_id c)) None (Some ''kill_switch'')) (ret False) s"
    using k by (simp add: spawn_controller_def Let_def bindP_def getsP_def)
  show ?thesis
    unfolding Let_def s_def [symmetric] 1 2 refuse_spawn_run
    by (simp add: s emit_run orun_defs del: map_of_eq_Some_iff)
qed

lemma ee_recorded_simps [simp]:
  "ee_id (ee_recorded x) = ee_id x" "ee_controller (ee_recorded x) = ee_controller x"
  "ee_terminated (ee_recorded x) = ee_terminated x"
  by (cases x; simp add: exec_base.defs is_terminated_def)+

text \<open>
  A law: a throttled spawn leaves nothing behind. When the venue's client-side budget
  refuses the first order of a new executor, the spawn reports False, the registry is exactly
  what it was, so the executor counts towards no limit, and the reason is on record.
\<close>

theorem orch_throttled_spawn:
  assumes "\<not> orch_killed dp s" "fst (spawn_gate dp (ee_controller x) rq s)"
    and "ee_id x \<notin> fst ` set (or_executors s)"
    and "ee_on_create (dp_api dp) (if or_has_recorder s then ee_recorded x else x) (or_env s)
      = (Inl (AdapterThrottled m), x', e')"
  shows "fst (orch_spawn dp x rq s) = Inr False
    \<and> or_executors (snd (orch_spawn dp x rq s)) = or_executors s
    \<and> list_executors cid act (snd (orch_spawn dp x rq s)) = list_executors cid act s
    \<and> or_env (snd (orch_spawn dp x rq s)) = e'
    \<and> map_of (or_last_spawn (snd (orch_spawn dp x rq s))) (ee_controller x) = Some (''execute_throttled:'' @ m)"
proof -
  define y where "y = (if or_has_recorder s then ee_recorded x else x)"
  have y: "ee_id y = ee_id x" by (simp add: y_def)
  define z where "z = s\<lparr>or_executors := od_set (ee_id x) y (or_executors s)\<rparr>"
  have create: "on_executor (ee_id x) (ee_on_create (dp_api dp)) z
      = (Inl (AdapterThrottled m), s\<lparr>or_executors := od_set (ee_id x) x' (or_executors s), or_env := e'\<rparr>)"
    using assms(4) by (simp add: on_executor_def z_def y_def od_set_twice)
  have "orch_spawn dp x rq s = spawn_created dp x s"
    using assms(1,2) by (cases "spawn_gate dp (ee_controller x) rq s") (simp add: orch_spawn_def bindP_def getsP_def)
  also have "\<dots> = refuse_spawn dp x (''execute_throttled:'' @ m) (Some (''execute_throttled:'' @ m)) (s\<lparr>or_env := e'\<rparr>)"
    using create od_pop_set_new [OF assms(3)]
    by (simp add: spawn_created_def spawn_failed_def put_executor_def y_def [symmetric] y z_def orun_defs Let_def)
  finally show ?thesis
    unfolding refuse_spawn_run by (simp add: list_executors_def del: map_of_eq_Some_iff)
qed

subsection \<open>The event window\<close>

text \<open>
  A law: the bounded event buffers. After any sequence of events the log is exactly the
  newest events up to its limit, the undrained queue exactly the newest up to its own, and the
  overflow counter counts the events the queue has dropped.
\<close>

theorem orch_event_window:
  assumes "or_log s = []" "or_queue s = []" "or_overflows s = 0" "0 < or_log_limit s" "0 < or_queue_limit s"
  shows "or_log (foldl (\<lambda>s ev. push_event ev s) s evs) = last_n (or_log_limit s) evs
    \<and> or_queue (foldl (\<lambda>s ev. push_event ev s) s evs) = last_n (or_queue_limit s) evs
    \<and> or_overflows (foldl (\<lambda>s ev. push_event ev s) s evs) = length evs - or_queue_limit s"
proof (induction evs rule: rev_induct)
  case Nil
  then show ?case using assms by (simp add: last_n_def)
next
  case (snoc ev evs)
  define z where "z = foldl (\<lambda>s ev. push_event ev s) s evs"
  have lim: "or_log_limit z = or_log_limit s" "or_queue_limit z = or_queue_limit s"
    unfolding z_def by (induction evs rule: rev_induct) (simp_all add: push_event_def)
  have "last_n q (evs @ [ev]) = (if length evs < q then evs @ [ev] else drop 1 (last_n q evs) @ [ev])" if "0 < q" for q
    using that by (auto simp: last_n_def Suc_diff_le)
  with snoc assms(4,5) lim show ?case
    unfolding foldl_append foldl.simps z_def [symmetric]
    by (auto simp: push_event_def last_n_append1 last_n_all)
qed

subsection \<open>Backoff of a failing controller\<close>

text \<open>Failed ticks of a controller, each with the venue as it was when the error was handled.\<close>

definition failed_ticks :: "('v, 'k) deps \<Rightarrow> string \<Rightarrow> (exc \<times> 'v) list \<Rightarrow> ('v, 'k, 'c) orch \<Rightarrow> ('v, 'k, 'c) orch" where
  "failed_ticks dp cid cvs s = foldl (\<lambda>s (c, v). snd (handle_tick_error dp cid c
     (s\<lparr>or_env := (or_env s)\<lparr>env_venue := v\<rparr>\<rparr>))) s cvs"

lemma handle_transient:
  fixes dp :: "('v, 'k) deps" and s :: "('v, 'k, 'c) orch"
  assumes "is_transient_error c" "map_of (or_controllers s) cid = Some ctl"
    "n = (case map_of (or_fail_counts s) cid of None \<Rightarrow> 0 | Some n \<Rightarrow> n)"
  defines "s' \<equiv> snd (handle_tick_error dp cid c s)"
  shows "Suc n < or_max_fails s \<Longrightarrow> map_of (or_controllers s') cid = Some ctl
      \<and> map_of (or_fail_counts s') cid = Some (Suc n)
      \<and> map_of (or_backoff_until s') cid = Some (o_now dp s + min (or_backoff_cap s) (3 / 2 * 2 ^ n))"
    and "or_max_fails s \<le> Suc n \<Longrightarrow> map_of (or_controllers s') cid = Some (set_failed (o_now dp s) ctl)
      \<and> map_of (or_fail_counts s') cid = None \<and> map_of (or_backoff_until s') cid = None"
    and "or_max_fails s' = or_max_fails s" and "or_backoff_cap s' = or_backoff_cap s"
  using assms(1-3)
  by (auto simp: s'_def handle_tick_error_def emit_run clear_failures_def upd_controller_def orun_defs o_now_def
      simp del: map_of_eq_Some_iff split: option.splits)

lemma handle_fatal:
  assumes "\<not> is_transient_error c" "map_of (or_controllers s) cid = Some ctl"
  shows "map_of (or_controllers (snd (handle_tick_error dp cid c s))) cid = Some (set_failed (o_now dp s) ctl)"
  using assms
  by (simp add: handle_tick_error_def emit_run clear_failures_def upd_controller_def orun_defs o_now_def
      del: map_of_eq_Some_iff)

text \<open>
  Claim C23: transient failures degrade, exhaustion and fatal errors fail. Starting without
  earlier failures, a controller whose ticks fail only transiently stays exactly as it was
  while the streak is below the limit, waiting out an exponentially growing, capped window;
  the error that reaches the limit fails it and clears its counters; and one fatal error fails
  it at once, whatever the streak.
\<close>

theorem controller_backoff:
  fixes dp :: "('v, 'k) deps" and s :: "('v, 'k, 'c) orch"
  assumes "map_of (or_controllers s) cid = Some ctl" "map_of (or_fail_counts s) cid = None"
    and "list_all (\<lambda>(c, v). is_transient_error c) (cvs @ [(c, v)])" "length cvs < or_max_fails s"
    and "\<not> is_transient_error fatal"
  defines "s' \<equiv> failed_ticks dp cid (cvs @ [(c, v)]) s"
  shows "(if Suc (length cvs) < or_max_fails s
     then map_of (or_controllers s') cid = Some ctl \<and> map_of (or_fail_counts s') cid = Some (Suc (length cvs))
      \<and> map_of (or_backoff_until s') cid
          = Some (va_now (dp_api dp) v + min (or_backoff_cap s) (3 / 2 * 2 ^ length cvs))
     else map_of (or_controllers s') cid = Some (set_failed (va_now (dp_api dp) v) ctl)
      \<and> map_of (or_fail_counts s') cid = None \<and> map_of (or_backoff_until s') cid = None)
    \<and> map_of (or_controllers (snd (handle_tick_error dp cid fatal (failed_ticks dp cid cvs s)))) cid
      = Some (set_failed (o_now dp (failed_ticks dp cid cvs s)) ctl)"
proof -
  define ok where "ok k z \<longleftrightarrow> map_of (or_controllers z) cid = Some ctl \<and> or_max_fails z = or_max_fails s
      \<and> or_backoff_cap z = or_backoff_cap s
      \<and> k = (case map_of (or_fail_counts z) cid of None \<Rightarrow> 0 | Some n \<Rightarrow> n)" for k and z :: "('v, 'k, 'c) orch"
  have pre: "ok (length cvs) (failed_ticks dp cid cvs s)"
    if "list_all (\<lambda>(c, v). is_transient_error c) cvs" "length cvs < or_max_fails s" for cvs
    using that
  proof (induction cvs rule: rev_induct)
    case Nil
    then show ?case using assms(1,2) by (simp add: ok_def failed_ticks_def)
  next
    case (snoc p cvs)
    obtain c v where p: "p = (c, v)" by fastforce
    define z where "z = failed_ticks dp cid cvs s"
    have z: "ok (length cvs) z" using snoc by (simp add: z_def)
    have "is_transient_error c" "Suc (length cvs) < or_max_fails s" using snoc.prems p by simp_all
    with handle_transient [of c "z\<lparr>or_env := (or_env z)\<lparr>env_venue := v\<rparr>\<rparr>" cid ctl "length cvs" dp] z
    show ?case by (simp add: ok_def failed_ticks_def p z_def [unfolded failed_ticks_def, symmetric] del: map_of_eq_Some_iff)
  qed
  define z where "z = failed_ticks dp cid cvs s"
  have z: "ok (length cvs) z" using pre assms(3,4) by (simp add: z_def)
  have s': "s' = snd (handle_tick_error dp cid c (z\<lparr>or_env := (or_env z)\<lparr>env_venue := v\<rparr>\<rparr>))"
    by (simp add: s'_def failed_ticks_def z_def)
  have "is_transient_error c" using assms(3) by simp
  with handle_transient [of c "z\<lparr>or_env := (or_env z)\<lparr>env_venue := v\<rparr>\<rparr>" cid ctl "length cvs" dp] z
  have 1: "if Suc (length cvs) < or_max_fails s
     then map_of (or_controllers s') cid = Some ctl \<and> map_of (or_fail_counts s') cid = Some (Suc (length cvs))
      \<and> map_of (or_backoff_until s') cid
          = Some (va_now (dp_api dp) v + min (or_backoff_cap s) (3 / 2 * 2 ^ length cvs))
     else map_of (or_controllers s') cid = Some (set_failed (va_now (dp_api dp) v) ctl)
      \<and> map_of (or_fail_counts s') cid = None \<and> map_of (or_backoff_until s') cid = None"
    unfolding s' by (simp add: ok_def o_now_def del: map_of_eq_Some_iff)
  have "map_of (or_controllers z) cid = Some ctl" using z by (simp add: ok_def)
  from 1 handle_fatal [OF assms(5) this] show ?thesis by (simp add: z_def del: map_of_eq_Some_iff)
qed

subsection \<open>Pruning\<close>

lemma prune_scan_result:
  "map_of (or_controllers s) cid = Some c \<Longrightarrow> prune_scan dp cid el xs n s = (n', s') \<Longrightarrow>
     n' = n + int (length (filter (prunable dp el) xs))
     \<and> or_executors s' = filter (\<lambda>(k, x). k \<notin> ee_id ` set (filter (prunable dp el) xs)) (or_executors s)
     \<and> map_of (or_controllers s') cid = Some (bank_counts (sum_list (map ee_counts (filter (prunable dp el) xs))) c)"
proof (induction xs arbitrary: n s c)
  case Nil
  then show ?case by (auto simp: bank_counts_def simp del: map_of_eq_Some_iff)
next
  case (Cons x xs)
  show ?case
  proof (cases "prunable dp el x")
    case False
    with Cons show ?thesis by simp
  next
    case True
    define z where "z = s\<lparr>or_controllers := od_set cid (bank_counts (ee_counts x) c) (or_controllers s),
        or_executors := od_pop (ee_id x) (or_executors s)\<rparr>"
    have run: "prune_scan dp cid el xs (n + 1) z = (n', s')" using Cons.prems True by (simp add: z_def)
    have "map_of (or_controllers z) cid = Some (bank_counts (ee_counts x) c)" by (simp add: z_def del: map_of_eq_Some_iff)
    from Cons.IH [OF this run] True show ?thesis
      by (simp add: z_def od_pop_def bank_counts_def add.assoc conj_commute case_prod_unfold del: map_of_eq_Some_iff)
  qed
qed

text \<open>Every executor is registered once, under its own id.\<close>

definition registry_ok :: "('v, 'k, 'c) orch \<Rightarrow> bool" where
  "registry_ok s \<longleftrightarrow> distinct (map fst (or_executors s)) \<and> list_all (\<lambda>(k, x). ee_id x = k) (or_executors s)"

lemma registry_snd:
  "registry_ok s \<Longrightarrow> distinct (map ee_id (map snd (or_executors s)))"
proof -
  assume ok: "registry_ok s"
  then have "map (ee_id \<circ> snd) (or_executors s) = map fst (or_executors s)"
    by (auto simp: registry_ok_def list_all_iff)
  then show ?thesis unfolding map_map using ok by (simp only: registry_ok_def)
qed

lemma sum_list_split: "sum_list (map f xs) = sum_list (map f (filter P xs)) + sum_list (map f (filter (\<lambda>x. \<not> P x) xs))"
  for f :: "'a \<Rightarrow> order_counts"
  by (induction xs) (simp_all add: ac_simps)

text \<open>Dropping by id and dropping by identity agree on a well-formed registry.\<close>

lemma registry_drop:
  assumes "registry_ok s" "set gone \<subseteq> snd ` set (or_executors s)"
  shows "filter (\<lambda>(i, x). i \<notin> ee_id ` set gone) (or_executors s) = filter (\<lambda>(i, x). x \<notin> set gone) (or_executors s)"
proof (rule filter_cong [OF refl])
  fix p assume p: "p \<in> set (or_executors s)"
  then have id: "ee_id (snd p) = fst p" "snd p \<in> snd ` set (or_executors s)"
    using assms(1) by (auto simp: registry_ok_def list_all_iff)
  have "inj_on ee_id (snd ` set (or_executors s))"
    using registry_snd [OF assms(1)] unfolding distinct_map [of ee_id] by simp
  then have "ee_id (snd p) \<in> ee_id ` set gone \<longleftrightarrow> snd p \<in> set gone"
    using id(2) assms(2) by (meson image_eqI inj_on_image_mem_iff subset_trans)
  with id(1) show "(case p of (i, x) \<Rightarrow> i \<notin> ee_id ` set gone) = (case p of (i, x) \<Rightarrow> x \<notin> set gone)"
    by (cases p) simp
qed

text \<open>Banking what is dropped conserves the controller's counts.\<close>

lemma banked_counts:
  assumes "distinct L" "distinct gone" "set gone \<subseteq> set L"
  shows "controller_order_counts (map ee_counts (filter (\<lambda>x. x \<notin> set gone) L)) (bank_counts (sum_list (map ee_counts gone)) c)
    = controller_order_counts (map ee_counts L) c"
proof -
  have "mset (filter (\<lambda>x. x \<in> set gone) L) = mset gone"
    using assms by (intro set_eq_iff_mset_eq_distinct [THEN iffD1]) auto
  then have "sum_list (map ee_counts (filter (\<lambda>x. x \<in> set gone) L)) = sum_list (map ee_counts gone)"
    by (metis mset_map sum_mset_sum_list)
  then have "sum_list (map ee_counts L) = sum_list (map ee_counts gone) + sum_list (map ee_counts (filter (\<lambda>x. x \<notin> set gone) L))"
    using sum_list_split [of ee_counts L "\<lambda>x. x \<in> set gone"] by simp
  then show ?thesis by (simp add: controller_order_counts_def bank_counts_def ac_simps)
qed

text \<open>What the pruning test establishes of an executor.\<close>

definition settled :: "engine_executor \<Rightarrow> bool" where
  "settled x \<longleftrightarrow> list_all (\<lambda>h. case h of None \<Rightarrow> True | Some ord \<Rightarrow> is_terminal (o_state ord)) (ee_handles x)
     \<and> \<not> (ex_close (ee_base x) = Some FAILED \<and> ee_handles x = [])"

lemma prunable_settled:
  "prunable dp el x \<Longrightarrow> settled x \<and> (case el of None \<Rightarrow> True | Some ids \<Rightarrow> ee_id x \<in> set ids)
     \<and> (case dp_keep dp of None \<Rightarrow> True | Some f \<Rightarrow> f x = Inr False)"
  by (auto simp: prunable_def settled_def order_may_still_rest_def list_all_iff list_ex_iff
      split: if_splits option.splits)

text \<open>
  A law: pruning is safe and loses no count. It drops only terminated executors of its
  controller that are eligible, whose known orders are all terminal (and not a FAILED one of
  which nothing is known), and whose persistence the keep-predicate confirms, never one of the
  newest ones it must retain; every other registered executor is untouched; the result is the
  number dropped; and the controller's order counts over banked and held executors are exactly
  what they were.
\<close>

theorem orch_prune_safe:
  fixes s :: "('v, 'k, 'c) orch"
  assumes "registry_ok s" "map_of (or_controllers s) cid = Some c"
    and "prune_terminated dp cid el keep s = (n, s')"
  defines "held \<equiv> map ee_counts (list_executors (Some cid) False s)"
    and "held' \<equiv> map ee_counts (list_executors (Some cid) False s')"
    and "dead \<equiv> newest_first (filter ee_terminated (list_executors (Some cid) False s))"
    and "k \<equiv> (case keep of None \<Rightarrow> or_retention s | Some m \<Rightarrow> nat m)"
  shows "\<exists>gone c'. or_executors s' = filter (\<lambda>(i, x). x \<notin> set gone) (or_executors s)
    \<and> list_all (\<lambda>x. ee_terminated x \<and> ee_controller x = cid \<and> x \<notin> set (take k dead) \<and> settled x
         \<and> (case el of None \<Rightarrow> True | Some ids \<Rightarrow> ee_id x \<in> set ids)
         \<and> (case dp_keep dp of None \<Rightarrow> True | Some f \<Rightarrow> f x = Inr False)) gone
    \<and> n = int (length gone)
    \<and> map_of (or_controllers s') cid = Some c'
    \<and> controller_order_counts held' c' = controller_order_counts held c"
proof (cases "length dead \<le> k")
  case True
  then have "s' = s" "n = 0"
    using assms(3) by (auto simp: prune_terminated_def Let_def dead_def newest_first_def k_def)
  then show ?thesis
    using assms(2) by (intro exI [of _ "[]"] exI [of _ c]) (simp add: held_def held'_def case_prod_unfold)
next
  case False
  define L where "L = list_executors (Some cid) False s"
  define gone where "gone = filter (prunable dp el) (drop k dead)"
  have run: "prune_scan dp cid el (drop k dead) 0 s = (n, s')"
    using assms(3) False by (auto simp: prune_terminated_def Let_def dead_def k_def newest_first_def split: if_splits)
  note res = prune_scan_result [OF assms(2) run, folded gone_def]
  have all: "set L \<subseteq> snd ` set (or_executors s)" "set dead \<subseteq> set L"
    by (auto simp: L_def list_executors_def dead_def newest_first_def)
  have "distinct (map ee_id L)"
    unfolding L_def list_executors_def using registry_snd [OF assms(1)] by (simp add: distinct_map_filter)
  then have dL: "distinct L" by (simp add: distinct_map)
  then have dd: "distinct dead" unfolding dead_def newest_first_def by (simp add: L_def)
  have gone: "set gone \<subseteq> set L" "distinct gone" "set gone \<inter> set (take k dead) = {}"
    using all(2) dd set_take_disj_set_drop_if_distinct [of dead k k]
    by (auto simp: gone_def dest: in_set_dropD)
  have ex': "or_executors s' = filter (\<lambda>(i, x). x \<notin> set gone) (or_executors s)"
    using res registry_drop [OF assms(1), of gone] gone(1) all(1) by simp
  have L': "list_executors (Some cid) False s' = filter (\<lambda>x. x \<notin> set gone) L"
    unfolding list_executors_def L_def ex' by (simp add: filter_map comp_def case_prod_unfold conj_ac)
  have dropped: "x \<in> set dead" "prunable dp el x" if "x \<in> set gone" for x
    using that by (auto simp: gone_def dest: in_set_dropD)
  then have "ee_terminated x \<and> ee_controller x = cid" if "x \<in> set gone" for x
    using that by (auto simp: dead_def newest_first_def list_executors_def)
  with gone(3) prunable_settled [OF dropped(2)] show ?thesis
    using res ex' banked_counts [OF dL gone(2,1), of c]
    by (intro exI [of _ gone] exI [of _ "bank_counts (sum_list (map ee_counts gone)) c"])
       (auto simp: list_all_iff held_def held'_def L' L_def simp del: map_of_eq_Some_iff)
qed

subsection \<open>Concrete runs\<close>

definition demo_deps :: "(script, memory_switch) deps" where
  "demo_deps = \<lparr>dp_api = script_api, dp_kill = memory_api, dp_provider = None, dp_keep = None\<rparr>"

definition demo_orch :: "(script, memory_switch, unit) orch" where
  "demo_orch = (mk_orch demo_env None False 2 2 3 90 1)\<lparr>or_controllers := [(''c'', set_active 0 (mk_controller ''c'' 1 ''grid''))]\<rparr>"

definition demo_placing :: "(script, memory_switch, unit) orch" where
  "demo_placing = demo_orch\<lparr>or_env := demo_env\<lparr>env_venue := \<lparr>sc_now = 0,
     sc_orders = [Inl (AdapterThrottled ''budget'')], sc_mids = [Inr 100], sc_cancels = []\<rparr>\<rparr>\<rparr>"

definition demo_fresh_order :: engine_executor where
  "demo_fresh_order = EX_Order (mk_order_exec ''e'' 1 ''c'' False True
     (demo_oe_config\<lparr>oc_strategy := S_LIMIT_MAKER, oc_price := Some 100, oc_chaser := None\<rparr>) 0)"

theorem orch_throttled_spawn_witness:
  "fst (orch_spawn demo_deps demo_fresh_order None demo_placing) = Inr False
   \<and> or_executors (snd (orch_spawn demo_deps demo_fresh_order None demo_placing)) = []"
proof -
  have "case fst (ee_on_create script_api demo_fresh_order (or_env demo_placing)) of
      Inl (AdapterThrottled m) \<Rightarrow> True | _ \<Rightarrow> False" by code_simp
  then obtain m x' e' where c: "ee_on_create script_api demo_fresh_order (or_env demo_placing) = (Inl (AdapterThrottled m), x', e')"
    by (cases "ee_on_create script_api demo_fresh_order (or_env demo_placing)") (auto split: sum.splits exc.splits)
  have s: "or_executors demo_placing = []" "\<not> or_has_recorder demo_placing" "or_risk demo_placing = None" "\<not> or_killed demo_placing"
    by (simp_all add: demo_placing_def demo_orch_def mk_orch_def)
  show ?thesis
    using orch_throttled_spawn [of demo_deps demo_placing demo_fresh_order None m x' e'] c s
    by (simp add: orch_killed_def spawn_gate_def demo_deps_def)
qed

definition demo_event :: "string \<Rightarrow> exec_event" where
  "demo_event k = \<lparr>ev_kind = k, ev_executor = None, ev_controller = None, ev_close = None, ev_reason = None, ev_ts = 0\<rparr>"

theorem orch_event_window_witness:
  "or_queue (foldl (\<lambda>s ev. push_event ev s) demo_orch [demo_event ''a'', demo_event ''b'', demo_event ''c''])
     = [demo_event ''b'', demo_event ''c'']"
  using orch_event_window [of demo_orch "[demo_event ''a'', demo_event ''b'', demo_event ''c'']"]
  by (simp add: demo_orch_def mk_orch_def last_n_def)

theorem controller_backoff_witness:
  "map_of (or_controllers (failed_ticks demo_deps ''c'' [(TimeoutError ''t'', env_venue demo_env),
     (TimeoutError ''t'', env_venue demo_env), (TimeoutError ''t'', env_venue demo_env)] demo_orch)) ''c''
   = Some (set_failed 0 (set_active 0 (mk_controller ''c'' 1 ''grid'')))"
proof -
  have tr: "is_transient_error (TimeoutError t)" for t by (simp add: is_transient_error_def)
  have "\<not> is_transient_error (ValueError ''bad size'')" by code_simp
  from controller_backoff [of demo_orch "''c''" _ "[(TimeoutError ''t'', env_venue demo_env), (TimeoutError ''t'', env_venue demo_env)]"
      "TimeoutError ''t''" "env_venue demo_env", OF _ _ _ _ this, of _ demo_deps]
  show ?thesis by (simp add: demo_orch_def mk_orch_def tr demo_deps_def script_defs demo_env_def)
qed

text \<open>Two terminated executors, one of which may be retained.\<close>

definition demo_done :: "string \<Rightarrow> time \<Rightarrow> engine_executor" where
  "demo_done xid t = EX_Order ((mk_order_exec xid 1 ''c'' False True demo_oe_config 0)
     \<lparr>ex_state := TERMINATED, ex_close := Some COMPLETED, ex_terminated_at := Some t, oe_placed := 1, oe_filled := 1\<rparr>)"

definition demo_full :: "(script, memory_switch, unit) orch" where
  "demo_full = demo_orch\<lparr>or_executors := [(''a'', demo_done ''a'' 5), (''b'', demo_done ''b'' 9)]\<rparr>"

theorem orch_prune_safe_witness:
  "map fst (or_executors (snd (prune_terminated demo_deps ''c'' None None demo_full))) = [''b'']
   \<and> map_of (or_controllers (snd (prune_terminated demo_deps ''c'' None None demo_full))) ''c'' \<noteq> None"
proof -
  obtain n s' where run: "prune_terminated demo_deps ''c'' None None demo_full = (n, s')" by fastforce
  have "map fst (or_executors (snd (prune_terminated demo_deps ''c'' None None demo_full))) = [''b'']" by code_simp
  moreover have "registry_ok demo_full"
    by (simp add: registry_ok_def demo_full_def demo_done_def mk_order_exec_def mk_exec_base_def exec_base.defs order_exec.defs)
  moreover have "map_of (or_controllers demo_full) ''c'' = Some (set_active 0 (mk_controller ''c'' 1 ''grid''))"
    by (simp add: demo_full_def demo_orch_def)
  ultimately show ?thesis using orch_prune_safe [OF _ _ run] by (auto simp: run)
qed

text \<open>
  A ladder's resting rungs are not among the handles pruning looks at: a DCA executor that
  ended FAILED counts as clear of orders, whatever its rungs still hold.
\<close>

lemma prune_ignores_rungs:
  "dca_close x = None \<Longrightarrow> \<not> order_may_still_rest (EX_Dca (x\<lparr>dca_rungs := rungs\<rparr>))"
  by (simp add: order_may_still_rest_def)

end
