(* ===== verification/Controller_Prog.thy ===== *)
theory Controller_Prog
  imports Orchestrator
begin

text \<open>
  What the coroutines of the controllers share. A controller is an entry of the
  orchestrator's registry, extended by the attributes its class adds; its coroutines are
  programs over the orchestrator. The candle provider with the regime routine is a parameter,
  \<open>ge_regime\<close>; fresh identifiers come from \<open>ge_uuid\<close>. A subclass with further collaborators extends
  the record \<open>ctl_env\<close>.
\<close>

record ('v, 'k) ctl_env =
  ge_deps :: "('v, 'k) deps"
  ge_regime :: "'v \<Rightarrow> gate_result option"
  ge_uuid :: "nat \<Rightarrow> string"

text \<open>\<open>configs.get(key, d)\<close>.\<close>

definition or_else :: "'a option \<Rightarrow> 'a \<Rightarrow> 'a" where
  "or_else v d = (case v of None \<Rightarrow> d | Some x \<Rightarrow> x)"

definition with_ctl :: "string \<Rightarrow> ('c controller_scheme \<Rightarrow> ('v, 'k, 'c, unit) oprog) \<Rightarrow> ('v, 'k, 'c, unit) oprog" where
  "with_ctl cid f = bindP (getsP (\<lambda>s. map_of (or_controllers s) cid)) (\<lambda>r. case r of None \<Rightarrow> ret () | Some g \<Rightarrow> f g)"

definition ask_ctl :: "string \<Rightarrow> 'a \<Rightarrow> ('c controller_scheme \<Rightarrow> ('v, 'k, 'c, 'a) oprog) \<Rightarrow> ('v, 'k, 'c, 'a) oprog" where
  "ask_ctl cid d f = bindP (getsP (\<lambda>s. map_of (or_controllers s) cid)) (\<lambda>r. case r of None \<Rightarrow> ret d | Some g \<Rightarrow> f g)"

definition upd_ctl :: "string \<Rightarrow> ('c controller_scheme \<Rightarrow> 'c controller_scheme) \<Rightarrow> ('v, 'k, 'c, unit) oprog" where
  "upd_ctl cid f = modifyP (\<lambda>s. case map_of (or_controllers s) cid of None \<Rightarrow> s
     | Some g \<Rightarrow> s\<lparr>or_controllers := od_set cid (f g) (or_controllers s)\<rparr>)"

definition on_venue :: "('v, 'a) prog \<Rightarrow> ('v, 'k, 'c, 'a) oprog" where
  "on_venue p = (\<lambda>s. case p (env_venue (or_env s)) of
     (r, v) \<Rightarrow> (r, s\<lparr>or_env := (or_env s)\<lparr>env_venue := v\<rparr>\<rparr>))"

definition my_executors :: "string \<Rightarrow> ('v, 'k, 'c, engine_executor list) oprog" where
  "my_executors cid = getsP (list_executors (Some cid) True)"

definition try_mid :: "('v, 'k, 'z) ctl_env_scheme \<Rightarrow> string \<Rightarrow> ('v, 'k, 'c, dec option) oprog" where
  "try_mid ge pair = tryP (bindP (on_venue (va_mid (dp_api (ge_deps ge)) pair)) (\<lambda>m. ret (Some m))) (\<lambda>_. ret None)"

definition venue_contended :: "('v, 'k, 'z) ctl_env_scheme \<Rightarrow> ('v, 'k, 'c) orch \<Rightarrow> bool" where
  "venue_contended ge s = (let b = va_budget (dp_api (ge_deps ge)) (env_venue (or_env s)) in
     venue_reads_contended b \<or> execute_budget_contended b)"

definition live :: "string \<Rightarrow> engine_executor \<Rightarrow> bool" where
  "live cid x \<longleftrightarrow> ee_controller x = cid \<and> \<not> ee_terminated x"

text \<open>The inventory is read, and an empty hold created, only where a net amount is needed.\<close>

definition reads_inventory :: "exposure_cfg \<Rightarrow> dec \<Rightarrow> bool" where
  "reads_inventory c mid \<longleftrightarrow> xc_has_inventory c \<and> (xc_suppress c
     \<or> (case (xc_cap_pct c, xc_margin c) of (Some cap, Some margin) \<Rightarrow> 0 < cap / 100 \<and> 0 < margin \<and> 0 < mid | _ \<Rightarrow> False))"

definition read_net :: "int \<Rightarrow> string \<Rightarrow> string \<Rightarrow> ('v, 'k, 'c, dec) oprog" where
  "read_net u p c = (\<lambda>s. case inv_get u p c (env_inv (or_env s)) of
     (h, iv) \<Rightarrow> (Inr (net_amount_base h), s\<lparr>or_env := (or_env s)\<lparr>env_inv := iv\<rparr>\<rparr>))"

definition read_hold :: "int \<Rightarrow> string \<Rightarrow> string \<Rightarrow> ('v, 'k, 'c, position_hold) oprog" where
  "read_hold u p c = (\<lambda>s. case inv_get u p c (env_inv (or_env s)) of
     (h, iv) \<Rightarrow> (Inr h, s\<lparr>or_env := (or_env s)\<lparr>env_inv := iv\<rparr>\<rparr>))"

text \<open>\<open>exposure_allowed_sides\<close> with the inventory it reads.\<close>

definition exposure_read :: "int \<Rightarrow> string \<Rightarrow> string \<Rightarrow> exposure_cfg \<Rightarrow> dec \<Rightarrow> exposure_state
    \<Rightarrow> ('v, 'k, 'c, sides \<times> exposure_state) oprog" where
  "exposure_read u p cid c mid x = bindP (if reads_inventory c mid then read_net u p cid else ret 0) (\<lambda>net.
     ret (exposure_allowed_sides c net (Some mid) x))"

subsection \<open>Weakest preconditions\<close>

lemma push_event_orch [simp]:
  "or_executors (push_event ev s) = or_executors s" "or_controllers (push_event ev s) = or_controllers s"
  by (simp_all add: push_event_def)

lemma wp_emit [simp]: "wp (emit dp kind xid cid ct reason) Q E s = Q () (snd (emit dp kind xid cid ct reason s))"
  by (simp add: emit_def wp_def modifyP_def)

lemma emit_orch [simp]:
  "or_executors (snd (emit dp kind xid cid ct reason s)) = or_executors s"
  "or_controllers (snd (emit dp kind xid cid ct reason s)) = or_controllers s"
  by (simp_all add: emit_def modifyP_def)

lemma wp_with_ctl [simp]:
  "wp (with_ctl cid f) Q E s = (case map_of (or_controllers s) cid of None \<Rightarrow> Q () s | Some g \<Rightarrow> wp (f g) Q E s)"
  by (simp add: with_ctl_def split: option.splits)

lemma wp_ask_ctl [simp]:
  "wp (ask_ctl cid d f) Q E s = (case map_of (or_controllers s) cid of None \<Rightarrow> Q d s | Some g \<Rightarrow> wp (f g) Q E s)"
  by (simp add: ask_ctl_def split: option.splits)

lemma wp_upd_ctl [simp]:
  "wp (upd_ctl cid f) Q E s = (case map_of (or_controllers s) cid of None \<Rightarrow> Q () s
     | Some g \<Rightarrow> Q () (s\<lparr>or_controllers := od_set cid (f g) (or_controllers s)\<rparr>))"
  by (simp add: upd_ctl_def split: option.splits)

lemma wp_on_venue [simp]:
  "wp (on_venue p) Q E s = wp p (\<lambda>a v. Q a (s\<lparr>or_env := (or_env s)\<lparr>env_venue := v\<rparr>\<rparr>))
     (\<lambda>c v. E c (s\<lparr>or_env := (or_env s)\<lparr>env_venue := v\<rparr>\<rparr>)) (env_venue (or_env s))"
  by (auto simp: wp_def on_venue_def split: sum.splits prod.splits)

lemma wp_my_executors [simp]: "wp (my_executors cid) Q E s = Q (list_executors (Some cid) True s) s"
  by (simp add: my_executors_def)

lemma wp_on_executor:
  "wp (on_executor i f) Q E s = (case map_of (or_executors s) i of None \<Rightarrow> Q () s
     | Some x \<Rightarrow> (case f x (or_env s) of (r, x', e') \<Rightarrow>
         (case r of Inl c \<Rightarrow> E c | Inr _ \<Rightarrow> Q ()) (s\<lparr>or_executors := od_set i x' (or_executors s), or_env := e'\<rparr>)))"
  by (auto simp: wp_def on_executor_def split: sum.splits prod.splits option.splits)

lemma wp_read_net [simp]:
  "wp (read_net u p c) Q E s = Q (net_amount_base (fst (inv_get u p c (env_inv (or_env s)))))
     (s\<lparr>or_env := (or_env s)\<lparr>env_inv := snd (inv_get u p c (env_inv (or_env s)))\<rparr>\<rparr>)"
  by (simp add: wp_def read_net_def split: prod.splits)

lemma wp_read_hold [simp]:
  "wp (read_hold u p c) Q E s = Q (fst (inv_get u p c (env_inv (or_env s))))
     (s\<lparr>or_env := (or_env s)\<lparr>env_inv := snd (inv_get u p c (env_inv (or_env s)))\<rparr>\<rparr>)"
  by (simp add: wp_def read_hold_def split: prod.splits)

lemma wp_try_mid:
  "(\<And>m v. Q m (s\<lparr>or_env := (or_env s)\<lparr>env_venue := v\<rparr>\<rparr>)) \<Longrightarrow> wp (try_mid ge pair) Q E s"
  by (auto simp: try_mid_def intro: wp_any)

end
