(* ===== verification/Registry_Laws.thy ===== *)
theory Registry_Laws
  imports Controller_Prog
begin

text \<open>
  What the orchestrator's calls do to the executors a controller holds. \<open>evolves strict x y\<close>
  says how an executor may change under any lifecycle call but its creation: its class stays,
  a terminated executor stays terminated, and, when \<open>strict\<close>, an order executor stays in one of
  the states its own theorem about stopping describes. A view of the registry that survives such changes
  survives every call of the orchestrator; the locale \<open>registry_view\<close> proves it once.
\<close>

subsection \<open>Order executors\<close>

text \<open>A terminated executor either knows its order to be over, or says that it failed.\<close>

definition stop_ok :: "'x order_exec_scheme \<Rightarrow> bool" where
  "stop_ok x \<longleftrightarrow> (is_terminated x \<longrightarrow> ex_close x = Some FAILED \<or> order_terminal (oe_order x))"

definition done_with :: "'x order_exec_scheme \<Rightarrow> bool" where
  "done_with x \<longleftrightarrow> is_terminated x \<and> order_terminal (oe_order x)"

definition oe_evolves :: "bool \<Rightarrow> 'x order_exec_scheme \<Rightarrow> 'x order_exec_scheme \<Rightarrow> bool" where
  "oe_evolves strict x y \<longleftrightarrow> (is_terminated x \<longrightarrow> is_terminated y)
     \<and> (strict \<longrightarrow> (stop_ok x \<longrightarrow> stop_ok y) \<and> (done_with x \<longrightarrow> done_with y))"

lemma terminated_stays [simp]:
  "is_terminated x \<Longrightarrow> terminated ct t x = x" "is_terminated x \<Longrightarrow> activated x = x" "is_terminated (terminated ct t x)"
  "\<not> is_terminated x \<Longrightarrow> ex_close (terminated ct t x) = Some ct"
  "is_terminated (activated x) = is_terminated x"
  by (auto simp: is_terminated_def terminated_def activated_def)

lemma is_terminated_upd [simp]:
  "is_terminated (x\<lparr>oe_order := o'\<rparr>) = is_terminated x" "is_terminated (x\<lparr>ex_retries := n\<rparr>) = is_terminated x"
  "is_terminated (count_terminal x) = is_terminated x" "is_terminated (count_cancel x) = is_terminated x"
  "is_terminated (x\<lparr>oe_placement_mid := m\<rparr>) = is_terminated x" "is_terminated (x\<lparr>oe_refreshes := r\<rparr>) = is_terminated x"
  "is_terminated (x\<lparr>oe_order := o', oe_placed := p, oe_counted := c\<rparr>) = is_terminated x"
  by (simp_all add: is_terminated_def)

lemma terminated_stable: "oe_stable (\<lambda>(x, e). is_terminated x)"
  by (auto simp: oe_stable_def)

lemma keeps_terminated: "keeps (\<lambda>(x, e). is_terminated x) (oe_handle api ev)"
proof (rule oe_handle_keeps [OF terminated_stable])
  show "keeps (\<lambda>(x, e). is_terminated x) (oe_ingest api ord)" for ord
    by (rule keepsI) (auto intro!: wp_oe_ingest simp: is_terminated_def)
qed

lemma stays_terminated: "is_terminated x \<Longrightarrow> is_terminated (fst (snd (oe_handle api ev (x, e))))"
  using keeps_snd [OF keeps_terminated, of "(x, e)" api ev] by (simp add: case_prod_beta)

lemma stop_ok_running: "\<not> is_terminated x \<Longrightarrow> stop_ok x"
  by (simp add: stop_ok_def)

lemma wp_oe_ingest_ok:
  assumes "\<And>x' e'. ex_state x' = ex_state x \<Longrightarrow> ex_close x' = ex_close x \<Longrightarrow> oe_order x' = oe_order x
      \<Longrightarrow> Q () (x', e') \<and> (\<forall>c. E c (x', e'))"
  shows "wp (oe_ingest api ord) Q E (x, e)"
  by (rule wp_oe_ingest) (use assms in blast)

lemma stop_ok_terminated [simp]:
  assumes "stop_ok y"
  shows "stop_ok (terminated FAILED t y)" "order_terminal (oe_order y) \<Longrightarrow> stop_ok (terminated ct t y)"
proof -
  have "stop_ok (terminated FAILED t y) \<and> (order_terminal (oe_order y) \<longrightarrow> stop_ok (terminated ct t y))"
  proof (cases "is_terminated y")
    case True
    with assms show ?thesis by simp
  next
    case False
    then show ?thesis by (auto simp: stop_ok_def is_terminated_def terminated_def)
  qed
  then show "stop_ok (terminated FAILED t y)" "order_terminal (oe_order y) \<Longrightarrow> stop_ok (terminated ct t y)" by auto
qed

lemma stop_ok_forgotten [simp]: "stop_ok (y\<lparr>oe_order := None\<rparr>)"
  by (simp add: stop_ok_def order_terminal_def)

lemma stop_ok_upd [simp]:
  "stop_ok (count_terminal y) = stop_ok y" "stop_ok (count_cancel y) = stop_ok y" "stop_ok (y\<lparr>ex_retries := n\<rparr>) = stop_ok y"
  by (simp_all add: stop_ok_def)

text \<open>
  \<open>running s\<close>: the executor is not terminated; \<open>fit s\<close>: it may be forgotten or kept. \<open>runs p\<close>: from a
  running executor \<open>p\<close> returns with it running, and raises with it fit; \<open>ends p\<close>: it may also return so.
\<close>

definition running :: "('v, 'x) oe_st \<Rightarrow> bool" where
  "running s \<longleftrightarrow> \<not> is_terminated (fst s)"

definition fit :: "('v, 'x) oe_st \<Rightarrow> bool" where
  "fit s \<longleftrightarrow> stop_ok (fst s)"

lemma running_fit: "running s \<Longrightarrow> fit s"
  by (simp add: running_def fit_def stop_ok_running)

definition runs :: "(('v, 'x) oe_st, 'a) prog \<Rightarrow> bool" where
  "runs p \<longleftrightarrow> (\<forall>s. running s \<longrightarrow> wp p (\<lambda>_. running) (\<lambda>_. fit) s)"

definition ends :: "(('v, 'x) oe_st, 'a) prog \<Rightarrow> bool" where
  "ends p \<longleftrightarrow> (\<forall>s. running s \<longrightarrow> wp p (\<lambda>_. fit) (\<lambda>_. fit) s)"

lemma runsI: "(\<And>x e. \<not> is_terminated x \<Longrightarrow> wp p (\<lambda>_. running) (\<lambda>_. fit) (x, e)) \<Longrightarrow> runs p"
  by (simp add: runs_def running_def)

lemma endsI: "(\<And>s. running s \<Longrightarrow> wp p (\<lambda>_. fit) (\<lambda>_. fit) s) \<Longrightarrow> ends p"
  by (simp add: ends_def)

lemma runsD: "runs p \<Longrightarrow> running s \<Longrightarrow> wp p (\<lambda>_. running) (\<lambda>_. fit) s"
  by (cases s) (simp add: runs_def)

lemma endsD: "ends p \<Longrightarrow> running s \<Longrightarrow> wp p (\<lambda>_. fit) (\<lambda>_. fit) s"
  by (cases s) (simp add: ends_def)

lemma runs_ends: "runs p \<Longrightarrow> ends p"
  by (rule endsI) (erule wp_mono [OF runsD], auto intro: running_fit)

lemma ends_bind: "runs p \<Longrightarrow> (\<And>a. ends (f a)) \<Longrightarrow> ends (bindP p f)"
  by (rule endsI) (auto simp: wp_bind intro!: wp_mono [OF runsD] endsD)

lemma runs_bind: "runs p \<Longrightarrow> (\<And>a. runs (f a)) \<Longrightarrow> runs (bindP p f)"
  by (rule runsI) (auto simp: wp_bind running_def intro!: wp_mono [OF runsD] runsD)

lemma runs_basic:
  "runs (ret a)" "runs me" "runs (clock api)" "runs activate" "runs (raise c)"
  by (rule runsI; simp add: running_def fit_def stop_ok_running)+

lemma runs_upd: "(\<And>x. is_terminated (f x) = is_terminated x) \<Longrightarrow> runs (upd f)"
  by (rule runsI) (simp add: running_def)

lemma runs_ingest: "runs (oe_ingest api ord)"
  by (rule runsI, rule wp_oe_ingest_ok) (auto simp: running_def fit_def is_terminated_def stop_ok_def)

lemma runs_guard: "runs (guard api label op)"
  by (rule runsI, rule wp_guard) (auto simp: running_def fit_def stop_ok_running)

lemma runs_cases:
  "(b \<Longrightarrow> runs p) \<Longrightarrow> (\<not> b \<Longrightarrow> runs q) \<Longrightarrow> runs (if b then p else q)"
  "runs p \<Longrightarrow> (\<And>x. runs (g x)) \<Longrightarrow> runs (case v of None \<Rightarrow> p | Some x \<Rightarrow> g x)"
  by (auto split: option.split)

lemma ends_cases:
  "(b \<Longrightarrow> ends p) \<Longrightarrow> (\<not> b \<Longrightarrow> ends q) \<Longrightarrow> ends (if b then p else q)"
  "ends p \<Longrightarrow> (\<And>x. ends (g x)) \<Longrightarrow> ends (case v of None \<Rightarrow> p | Some x \<Rightarrow> g x)"
  "ends p \<Longrightarrow> ends (whenP b p)" "ends (ret a)" "ends (raise c)"
  by (auto simp: whenP_def split: option.split intro: runs_ends runs_basic)

lemma runs_place: "runs (oe_place api ty px)"
  unfolding oe_place_def Let_def by (intro runs_bind runs_basic runs_guard runs_upd runs_ingest) simp

lemma runs_price: "runs (oe_chaser_price api)"
  unfolding oe_chaser_price_def by (intro runs_bind runs_basic runs_guard runs_upd runs_cases) simp

text \<open>A step whose flag says whether the executor is still running, and what follows it.\<close>

definition flags :: "bool \<Rightarrow> (('v, 'x) oe_st, bool) prog \<Rightarrow> bool" where
  "flags go p \<longleftrightarrow> (\<forall>s. running s \<longrightarrow> wp p (\<lambda>b. if b = go then running else fit) (\<lambda>_. fit) s)"

lemma ends_flag:
  fixes p :: "(('v, 'x) oe_st, bool) prog" and f :: "bool \<Rightarrow> (('v, 'x) oe_st, 'a) prog"
  assumes "flags go p" "ends (f go)" "f (\<not> go) = ret a"
  shows "ends (bindP p f)"
proof (rule endsI, unfold wp_bind)
  fix s :: "('v, 'x) oe_st" assume "running s"
  then have "wp p (\<lambda>b. if b = go then running else fit) (\<lambda>_. fit) s"
    using assms(1) by (cases s) (simp add: flags_def)
  then show "wp p (\<lambda>b. wp (f b) (\<lambda>_. fit) (\<lambda>_. fit)) (\<lambda>_. fit) s"
  proof (rule wp_mono)
    fix b and s' :: "('v, 'x) oe_st" assume "(if b = go then running else fit) s'"
    then show "wp (f b) (\<lambda>_. fit) (\<lambda>_. fit) s'"
      using assms(2,3) endsD [of "f b" s'] by (cases "b = go") auto
  qed
qed

lemma flags_try:
  assumes "runs p" "\<And>s. fit s \<Longrightarrow> wp h (\<lambda>_. fit) (\<lambda>_. fit) s"
  shows "flags True (tryP (thenP p (ret True)) (\<lambda>_. thenP h (ret False)))"
  unfolding flags_def wp_try wp_bind
  by (intro allI impI, rule wp_mono [OF runsD [OF assms(1)]], assumption)
    (simp, rule wp_mono [OF assms(2)], auto)

lemma flags_complete: "flags False (oe_check_complete api)"
  unfolding flags_def
  by (auto simp: oe_check_complete_def running_def fit_def stop_ok_running order_terminal_def split: option.split)

lemma ends_refresh: "ends (oe_maybe_refresh api)"
proof -
  have fail: "fit s \<Longrightarrow> wp (terminate api FAILED) (\<lambda>_. fit) (\<lambda>_. fit) s" for s
    by (cases s) (simp add: fit_def)
  have drop: "wp (thenP (upd (\<lambda>x. x\<lparr>oe_order := None\<rparr>)) (terminate api FAILED)) (\<lambda>_. fit) (\<lambda>_. fit) s" for s
    by (cases s) (simp add: fit_def)
  have assoc: "thenP (upd f) (thenP (terminate api FAILED) (ret False)) = thenP (thenP (upd f) (terminate api FAILED)) (ret False)" for f
    by (auto simp: bindP_def fun_eq_iff split: sum.split prod.split)
  show ?thesis
    unfolding oe_maybe_refresh_def Let_def assoc
    by (intro ends_bind [OF runs_basic(2)] ends_cases ends_bind [OF runs_guard] ends_flag [where go = True]
        flags_try runs_bind runs_guard runs_price runs_place fail drop ends_bind [OF runs_upd] runs_ends [OF runs_upd])
      (simp_all add: whenP_def)
qed

lemma ends_tick: "ends (oe_on_tick api)"
  unfolding oe_on_tick_def
  by (intro ends_bind [OF runs_basic(2)] ends_cases ends_bind [OF runs_guard] ends_bind [OF runs_upd]
      ends_bind [OF runs_ingest] ends_flag [where go = False] flags_complete ends_refresh) (simp_all add: whenP_def)

lemma ends_create: "ends (oe_on_create api)"
  unfolding oe_on_create_def Let_def
  by (intro ends_bind [OF runs_basic(4)] ends_bind [OF runs_basic(2)] ends_bind [of "if b then p else q" for b p q] runs_cases
      runs_place runs_bind [OF runs_price] ends_flag [OF flags_complete] ends_cases) simp_all

lemma runs_adopt: "runs (oe_adopt_order api ord)"
proof -
  have "runs (tryP (oe_ingest api ord) (\<lambda>_. ret ()))"
    by (rule runsI, unfold wp_try, rule wp_oe_ingest_ok) (auto simp: running_def is_terminated_def)
  then show ?thesis unfolding oe_adopt_order_def by (auto intro!: runs_bind runs_basic runs_upd)
qed

text \<open>Stopping, from a running or a terminated executor.\<close>

lemma stop_fit:
  fixes x :: "'x order_exec_scheme" and e :: "'v env"
  assumes "stop_ok x"
  shows "wp (oe_on_stop api ct) (\<lambda>_ s. stop_ok (fst s) \<and> is_terminated (fst s)) (\<lambda>_ _. False) (x, e)"
proof (cases "is_terminated x")
  case False
  then have "ex_state x \<noteq> TERMINATED" by (simp add: is_terminated_def)
  from order_executor_stop [OF this, of api ct e] show ?thesis
    by (rule wp_mono) (auto simp: oe_stopped_ok_def stop_ok_def is_terminated_def)
next
  case True
  show ?thesis
  proof (cases "order_terminal (oe_order x)")
    case True
    then show ?thesis using assms \<open>is_terminated x\<close>
      by (auto simp: oe_on_stop_def order_terminal_def split: option.splits)
  next
    case False
    then have f: "ex_close x = Some FAILED" using assms \<open>is_terminated x\<close> by (simp add: stop_ok_def)
    have st: "stop_ok y \<and> is_terminated y" if "ex_state y = ex_state x" "ex_close y = ex_close x" for y :: "'x order_exec_scheme"
      using that f \<open>is_terminated x\<close> by (simp add: stop_ok_def is_terminated_def)
    have same: "terminated ct' t y = y" if "ex_state y = ex_state x" for ct' t and y :: "'x order_exec_scheme"
      using that \<open>is_terminated x\<close> by (simp add: is_terminated_def terminated_def)
    show ?thesis using False
      by (auto simp: oe_on_stop_def order_terminal_def same st split: option.splits intro!: wp_guard wp_oe_ingest_ok)
  qed
qed

subsection \<open>Executors of every class\<close>

definition evolves :: "bool \<Rightarrow> engine_executor \<Rightarrow> engine_executor \<Rightarrow> bool" where
  "evolves strict x y \<longleftrightarrow> (case x of
     EX_Order a \<Rightarrow> (case y of EX_Order b \<Rightarrow> oe_evolves strict a b | _ \<Rightarrow> False)
   | _ \<Rightarrow> (case y of EX_Order b \<Rightarrow> False | _ \<Rightarrow> True))"

lemma evolves_weaken: "evolves True x y \<Longrightarrow> evolves strict x y"
  by (cases x; cases y) (auto simp: evolves_def oe_evolves_def)

lemma evolves_order: "evolves strict (EX_Order a) y \<longleftrightarrow> (\<exists>b. y = EX_Order b \<and> oe_evolves strict a b)"
  by (cases y) (auto simp: evolves_def)

lemma evolves_other: "(\<And>a. x \<noteq> EX_Order a) \<Longrightarrow> evolves strict x y \<longleftrightarrow> (\<forall>b. y \<noteq> EX_Order b)"
  by (cases x; cases y) (auto simp: evolves_def)

lemma lift_ex_SomeD: "lift_ex K p x e = (r, y, e') \<Longrightarrow> y = K (fst (snd (p (x, e))))"
  by (auto simp: lift_ex_def split: prod.splits)

lemma wp_snd_imp: "wp p (\<lambda>_. R) (\<lambda>_. R) s \<Longrightarrow> R (snd (p s))"
  by (simp add: wp_snd)

lemma tick_evolves:
  assumes "ee_on_tick api x e = (r, y, e')"
  shows "evolves True x y"
proof (cases x)
  case (EX_Order a)
  have y: "y = EX_Order (fst (snd (oe_on_tick api (a, e))))"
    using assms lift_ex_SomeD [of EX_Order "oe_on_tick api" a e r y e'] by (simp add: EX_Order)
  have "is_terminated a \<Longrightarrow> oe_on_tick api (a, e) = (Inr (), (a, e))"
    by (rule run_InrI) (simp add: oe_on_tick_def split: option.split)
  moreover have "\<not> is_terminated a \<Longrightarrow> stop_ok (fst (snd (oe_on_tick api (a, e))))"
    using wp_snd_imp [OF endsD [OF ends_tick, of "(a, e)" api]] by (simp add: running_def fit_def)
  ultimately show ?thesis
    by (cases "is_terminated a") (auto simp: EX_Order y evolves_order oe_evolves_def done_with_def)
qed (use assms in \<open>auto simp: evolves_def dest!: lift_ex_SomeD\<close>)

lemma stop_evolves:
  assumes "ee_on_stop api ct x e = (r, y, e')"
  shows "evolves True x y"
proof (cases x)
  case (EX_Order a)
  have y: "y = EX_Order (fst (snd (oe_on_stop api ct (a, e))))"
    using assms lift_ex_SomeD [of EX_Order "oe_on_stop api ct" a e r y e'] by (simp add: EX_Order)
  have "is_terminated a \<Longrightarrow> is_terminated (fst (snd (oe_on_stop api ct (a, e))))"
    using stays_terminated [of a api "OE_Stop ct" e] by simp
  moreover have "stop_ok a \<Longrightarrow> stop_ok (fst (snd (oe_on_stop api ct (a, e))))"
    using wp_snd_imp [OF wp_mono [OF stop_fit [of a api ct e], where Q' = "\<lambda>_ s. stop_ok (fst s)" and E' = "\<lambda>_ s. stop_ok (fst s)"]]
    by simp
  moreover have "done_with a \<Longrightarrow> oe_on_stop api ct (a, e) = (Inr (), (count_terminal a, e))"
    by (rule run_InrI) (auto simp: oe_on_stop_def done_with_def order_terminal_def split: option.splits)
  ultimately show ?thesis
    by (auto simp: EX_Order y evolves_order oe_evolves_def done_with_def)
qed (use assms in \<open>auto simp: evolves_def dest!: lift_ex_SomeD\<close>)

lemma settle_evolves:
  assumes "ee_settle api x e = (r, y, e')"
  shows "evolves False x y"
proof (cases x)
  case (EX_Order a)
  have y: "y = EX_Order (fst (snd (oe_settle_external api (a, e))))"
    using assms lift_ex_SomeD [of EX_Order "oe_settle_external api" a e r y e'] by (simp add: EX_Order)
  show ?thesis using stays_terminated [of a api OE_Settle e] by (auto simp: EX_Order y evolves_order oe_evolves_def)
qed (use assms in \<open>auto simp: evolves_def dest!: lift_ex_SomeD\<close>)

text \<open>Creating or adopting with a running order executor.\<close>

lemma create_fit:
  assumes "ee_on_create api (EX_Order a) e = (r, y, e')" "\<not> is_terminated a"
  shows "\<exists>b. y = EX_Order b \<and> stop_ok b"
  using wp_snd_imp [OF endsD [OF ends_create, of "(a, e)" api]] assms(2) lift_ex_SomeD [of EX_Order "oe_on_create api" a e r y e'] assms(1)
  by (auto simp: running_def fit_def)

lemma adopt_fit:
  assumes "ee_adopt api ord (EX_Order a) e = (r, y, e')" "\<not> is_terminated a"
  shows "\<exists>b. y = EX_Order b \<and> stop_ok b"
  using wp_snd_imp [OF endsD [OF runs_ends [OF runs_adopt], of "(a, e)" api ord]] assms(2)
    lift_ex_SomeD [of EX_Order "oe_adopt_order api ord" a e r y e'] assms(1)
  by (auto simp: running_def fit_def)

subsection \<open>Views of the registry\<close>

definition held :: "string \<Rightarrow> ('c controller_scheme \<Rightarrow> engine_executor odict \<Rightarrow> bool) \<Rightarrow> ('v, 'k, 'c) orch \<Rightarrow> bool" where
  "held cid P s \<longleftrightarrow> (\<exists>g. map_of (or_controllers s) cid = Some g \<and> P g (or_executors s))"

lemma held_cong:
  "or_controllers s' = or_controllers s \<Longrightarrow> or_executors s' = or_executors s \<Longrightarrow> held cid P s' = held cid P s"
  by (simp add: held_def)

lemma held_simps [simp]:
  "held cid P (s\<lparr>or_env := e\<rparr>) = held cid P s" "held cid P (s\<lparr>or_last_spawn := l\<rparr>) = held cid P s"
  "held cid P (push_event ev s) = held cid P s" "held cid P (snd (emit dp kind xid oc ct reason s)) = held cid P s"
  by (simp_all add: held_def)

lemma keeps_held_modify: "(\<And>s. held cid P s \<Longrightarrow> held cid P (f s)) \<Longrightarrow> keeps (held cid P) (modifyP f)"
  by (simp add: keeps_def)

lemma keeps_held_venue [keeps_intros]: "keeps (held cid P) (on_venue p)"
  by (rule keepsI) (auto intro: wp_any)

lemma keeps_held_reads [keeps_intros]:
  "keeps (held cid P) (read_hold u p c)" "keeps (held cid P) (read_net u p c)" "keeps (held cid P) (set_spawn_reason c reason)"
  "keeps (held cid P) (emit dp kind xid oc ct reason)"
  by (simp_all add: keeps_def set_spawn_reason_def)

lemma keeps_ask [keeps_intros]: "(\<And>g. keeps I (f g)) \<Longrightarrow> keeps I (ask_ctl cid a f)"
  unfolding ask_ctl_def by (intro keeps_intros)

lemma keeps_with [keeps_intros]: "(\<And>g. keeps I (f g)) \<Longrightarrow> keeps I (with_ctl cid f)"
  unfolding with_ctl_def by (intro keeps_intros)

lemma keeps_upd_ctl: "(\<And>g d. P g d \<Longrightarrow> P (f g) d) \<Longrightarrow> keeps (held cid P) (upd_ctl cid f)"
  by (auto simp: keeps_def held_def simp del: map_of_eq_Some_iff)

lemma keeps_refuse [keeps_intros]: "keeps (held cid P) (refuse_spawn dp x why reason)"
  unfolding refuse_spawn_def by (intro keeps_intros)

lemma keeps_emit_stopped [keeps_intros]: "keeps (held cid P) (emit_stopped dp i)"
  unfolding emit_stopped_def by (intro keeps_intros)

locale registry_view =
  fixes cid :: string and strict :: bool and P :: "'c controller_scheme \<Rightarrow> engine_executor odict \<Rightarrow> bool"
  assumes evolve: "P g d \<Longrightarrow> map_of d i = Some x \<Longrightarrow> evolves strict x y \<Longrightarrow> P g (od_set i y d)"
begin

lemma on_executor:
  assumes "\<And>x e r y e'. f x e = (r, y, e') \<Longrightarrow> evolves strict x y"
  shows "keeps (held cid P) (on_executor i f :: ('x, 'y, 'c, unit) oprog)"
proof (rule keepsI)
  fix s :: "('x, 'y, 'c) orch" assume "held cid P s"
  then show "wp (on_executor i f) (\<lambda>_. held cid P) (\<lambda>_. held cid P) s"
    using evolve assms by (fastforce simp: wp_on_executor held_def split: option.splits prod.splits sum.splits simp del: map_of_eq_Some_iff)
qed

lemma ticking: "keeps (held cid P) (orch_tick dp i)"
proof -
  have t: "keeps (held cid P) (on_executor i (ee_on_tick api))" for api :: "'v venue_api"
    by (rule on_executor) (auto intro: evolves_weaken dest: tick_evolves)
  have "keeps (held cid P) (case c of AdapterThrottled m \<Rightarrow> ret () | ExecutorFailed m \<Rightarrow> emit dp k a b' ct (Some m) | _ \<Rightarrow> raise c)"
    for c k a b' ct by (cases c) (auto intro: keeps_intros)
  then show ?thesis unfolding orch_tick_def by (intro keeps_intros t) auto
qed

lemma stopping_executor: "keeps (held cid P) (on_executor i (ee_on_stop api ct))"
  by (rule on_executor) (auto intro: evolves_weaken dest: stop_evolves)

lemma stopping: "keeps (held cid P) (orch_stop dp i ct)"
  unfolding orch_stop_def by (intro keeps_intros stopping_executor)

lemma settling: "\<not> strict \<Longrightarrow> keeps (held cid P) (orch_settle_replaced dp i)"
  unfolding orch_settle_replaced_def by (intro keeps_intros on_executor) (auto dest: settle_evolves)

end

locale registry_entry = registry_view cid strict P
  for cid :: string and strict :: bool and P :: "'c controller_scheme \<Rightarrow> engine_executor odict \<Rightarrow> bool" +
  fixes i :: string
  assumes put: "P g d \<Longrightarrow> stop_ok x \<Longrightarrow> P g (od_set i (EX_Order x) d)" and pop: "P g d \<Longrightarrow> P g (od_pop i d)"
begin

lemma spawning:
  fixes dp :: "('v, 'k) deps"
  assumes x: "ex_id x = i" "\<not> is_terminated x"
  shows "keeps (held cid P) (orch_spawn dp (EX_Order x) rq :: ('v, 'k, 'c, bool) oprog)"
proof -
  define x' where "x' rec = (if rec then x\<lparr>ex_has_recorder := True\<rparr> else x)" for rec
  have x': "ex_id (x' rec) = i" "\<not> is_terminated (x' rec)" for rec using x by (simp_all add: x'_def is_terminated_def)
  have rec: "(if rec then ee_recorded (EX_Order x) else EX_Order x) = EX_Order (x' rec)" for rec by (simp add: x'_def)
  have failed: "keeps (held cid P) (spawn_failed dp (EX_Order x) c :: ('v, 'k, 'c, bool) oprog)" for c
    by (cases c) (auto simp: spawn_failed_def Let_def x exec_base.defs intro!: keeps_intros keeps_held_modify
        simp: held_def pop simp del: map_of_eq_Some_iff)
  have create: "wp (on_executor i (ee_on_create (dp_api dp))) (\<lambda>_. held cid P) (\<lambda>_. held cid P)
      (s\<lparr>or_executors := od_set i (EX_Order (x' rec)) (or_executors s)\<rparr>)" if "held cid P s"
    for s :: "('v, 'k, 'c) orch" and rec
  proof -
    obtain r y e' where run: "ee_on_create (dp_api dp) (EX_Order (x' rec)) (or_env s) = (r, y, e')" by (metis prod_cases3)
    obtain b where "y = EX_Order b" "stop_ok b" using create_fit [OF run x'(2)] by blast
    then show ?thesis using that run put
      by (auto simp: wp_on_executor held_def od_set_twice split: sum.split simp del: map_of_eq_Some_iff ee_on_create.simps)
  qed
  have "keeps (held cid P) (spawn_created dp (EX_Order x) :: ('v, 'k, 'c, bool) oprog)"
  proof (rule keepsI)
    fix s :: "('v, 'k, 'c) orch" assume h: "held cid P s"
    show "wp (spawn_created dp (EX_Order x)) (\<lambda>_. held cid P) (\<lambda>_. held cid P) s"
    proof -
      have id: "ee_id (EX_Order (x' rec)) = i" "ee_id (EX_Order x) = i" for rec using x' x by (simp_all add: exec_base.defs)
      show ?thesis
        unfolding spawn_created_def wp_bind wp_gets rec put_executor_def wp_modify id wp_try
        by (rule wp_mono [OF create [OF h]]) (auto simp: set_spawn_reason_def intro: keeps_wp [OF failed])
    qed
  qed
  then show ?thesis unfolding orch_spawn_def by (auto intro!: keeps_intros)
qed

lemma adopting:
  fixes dp :: "('v, 'k) deps"
  assumes x: "ex_id x = i" "\<not> is_terminated x"
  shows "keeps (held cid P) (orch_adopt dp (EX_Order x) ord :: ('v, 'k, 'c, bool) oprog)"
proof (rule keepsI)
  fix s :: "('v, 'k, 'c) orch" assume h: "held cid P s"
  define x' where "x' rec = (if rec then x\<lparr>ex_has_recorder := True\<rparr> else x)" for rec
  have x': "ex_id (x' rec) = i" "\<not> is_terminated (x' rec)" for rec using x by (simp_all add: x'_def is_terminated_def)
  have rec: "(if rec then ee_recorded (EX_Order x) else EX_Order x) = EX_Order (x' rec)" for rec by (simp add: x'_def)
  have id: "ee_id (EX_Order (x' rec)) = i" "ee_id (EX_Order x) = i" for rec using x' x by (simp_all add: exec_base.defs)
  have create: "wp (on_executor i (ee_adopt (dp_api dp) ord)) (\<lambda>_. held cid P) (\<lambda>_. held cid P)
      (s\<lparr>or_executors := od_set i (EX_Order (x' rec)) (or_executors s)\<rparr>)" for rec
  proof -
    obtain r y e' where run: "ee_adopt (dp_api dp) ord (EX_Order (x' rec)) (or_env s) = (r, y, e')" by (metis prod_cases3)
    obtain b where "y = EX_Order b" "stop_ok b" using adopt_fit [OF run x'(2)] by blast
    then show ?thesis using h run put
      by (auto simp: wp_on_executor held_def od_set_twice split: sum.split simp del: map_of_eq_Some_iff ee_adopt.simps)
  qed
  show "wp (orch_adopt dp (EX_Order x) ord) (\<lambda>_. held cid P) (\<lambda>_. held cid P) s"
    unfolding orch_adopt_def wp_bind wp_gets rec put_executor_def wp_seq_simps wp_modify id
    by (rule wp_mono [OF create]) (simp_all add: set_spawn_reason_def)
qed

end

text \<open>What the orchestrator does around a controller's tick: failure counts, backoff and pruning.\<close>

locale registry_tick =
  fixes cid :: string and P :: "'c controller_scheme \<Rightarrow> engine_executor odict \<Rightarrow> bool"
  assumes pruned: "P g d \<Longrightarrow> P (bank_counts n g) (od_pop j d)" and failed: "P g d \<Longrightarrow> P (set_failed t g) d"
begin

lemma pruning: "held cid P s \<Longrightarrow> held cid P (snd (prune_scan dp cid eligible xs n s))"
proof (induction xs arbitrary: n s)
  case (Cons x xs)
  show ?case
  proof (cases "prunable dp eligible x")
    case True
    obtain g where g: "map_of (or_controllers s) cid = Some g" "P g (or_executors s)"
      using Cons.prems unfolding held_def by blast
    have "held cid P (s\<lparr>or_controllers := od_set cid (bank_counts (ee_counts x) g) (or_controllers s),
        or_executors := od_pop (ee_id x) (or_executors s)\<rparr>)"
      using pruned [OF g(2)] by (simp add: held_def)
    from Cons.IH [OF this] show ?thesis by (simp add: True g(1) del: map_of_eq_Some_iff)
  qed (use Cons in simp)
qed simp

lemma keeps_other:
  assumes "\<And>s. or_controllers (f s) = or_controllers s" "\<And>s. or_executors (f s) = or_executors s"
  shows "keeps (held cid P) (modifyP f)"
  by (rule keeps_held_modify) (simp add: held_def assms)

lemma clearing: "keeps (held cid P) (clear_failures cid)"
  unfolding clear_failures_def by (rule keeps_other) simp_all

lemma failing: "keeps (held cid P) (handle_tick_error dp cid c)"
proof -
  have "keeps (held cid P) (upd_controller cid set_failed dp)"
    unfolding upd_controller_def
    by (rule keeps_held_modify) (auto simp: held_def failed simp del: map_of_eq_Some_iff)
  then show ?thesis
    unfolding handle_tick_error_def by (intro keeps_intros clearing keeps_other) simp_all
qed

lemma controller_tick:
  assumes "keeps (held cid P) (ch_on_tick hk cid)"
  shows "keeps (held cid P) (tick_controller dp hk cid)"
proof -
  have "keeps (held cid P) (modifyP (\<lambda>s. snd (prune_terminated dp' cid e kp s)))" for dp' :: "('a, 'b) deps" and e kp
    by (rule keeps_held_modify) (simp add: prune_terminated_def Let_def pruning)
  then show ?thesis
    unfolding tick_controller_def Let_def
    by (auto intro!: keeps_intros assms clearing failing split: prod.split option.split)
qed

end

end
