(* ===== verification/Quote_Plans.thy ===== *)
theory Quote_Plans
  imports Prelude
begin

text \<open>
  The two pure planners of \<open>quant/\<close> that cut a notional into orders: the quote ladder of
  \<open>quant/ladder.py\<close> (levels of one side of a market-making or fill-anchored grid) and the
  slices and pacing of \<open>quant/twap_schedule.py\<close>.

  An untyped argument that the code passes through \<open>_dec\<close> is a \<open>raw\<close>: \<open>None\<close> when it is
  \<open>None\<close> or does not parse, which \<open>_dec\<close> turns into its default.
\<close>

type_synonym raw = "dec option"

definition num :: "dec \<Rightarrow> raw \<Rightarrow> dec" where
  "num dflt v = (case v of None \<Rightarrow> dflt | Some x \<Rightarrow> x)"

text \<open>\<open>int(d)\<close> and \<open>ROUND_DOWN\<close> truncate towards zero; \<open>quantize\<close> keeps eight places.\<close>

definition trunc_dec :: "dec \<Rightarrow> int" where
  "trunc_dec x = (if 0 \<le> x then \<lfloor>x\<rfloor> else \<lceil>x\<rceil>)"

definition SIZE_QUANTUM :: dec where "SIZE_QUANTUM = 1 / 10 ^ 8"

definition quantize_down :: "dec \<Rightarrow> dec" where
  "quantize_down x = of_int (trunc_dec (x / SIZE_QUANTUM)) * SIZE_QUANTUM"

text \<open>\<open>int(_dec(v, "1") or 1)\<close>: zero is falsy.\<close>

definition requested :: "raw \<Rightarrow> int" where
  "requested v = (let d = num 1 v in if d = 0 then 1 else trunc_dec d)"

lemma quantum_pos [simp]: "0 < SIZE_QUANTUM"
  by (simp add: SIZE_QUANTUM_def)

lemma quantize_down_floor: "0 \<le> x \<Longrightarrow> quantize_down x = of_int \<lfloor>x / SIZE_QUANTUM\<rfloor> * SIZE_QUANTUM"
  by (simp add: quantize_down_def trunc_dec_def SIZE_QUANTUM_def)

lemma quantize_down_le: "0 \<le> x \<Longrightarrow> quantize_down x \<le> x"
  using of_int_floor_le [of "x / SIZE_QUANTUM"] by (simp only: quantize_down_floor pos_le_divide_eq [OF quantum_pos])

lemma quantize_down_nonneg [simp]: "0 \<le> x \<Longrightarrow> 0 \<le> quantize_down x"
  by (simp add: quantize_down_floor SIZE_QUANTUM_def)

lemma quantize_down_mono: "0 \<le> x \<Longrightarrow> x \<le> y \<Longrightarrow> quantize_down x \<le> quantize_down y"
  by (simp add: quantize_down_floor floor_mono divide_right_mono mult_right_mono less_imp_le)

lemma quantize_down_gap: "0 \<le> x \<Longrightarrow> x - SIZE_QUANTUM < quantize_down x"
proof -
  assume x: "0 \<le> x"
  have "x / SIZE_QUANTUM < of_int \<lfloor>x / SIZE_QUANTUM\<rfloor> + 1" by linarith
  then have "x < (of_int \<lfloor>x / SIZE_QUANTUM\<rfloor> + 1) * SIZE_QUANTUM"
    by (simp only: pos_divide_less_eq [OF quantum_pos])
  with x show ?thesis by (simp add: quantize_down_floor distrib_right)
qed

subsection \<open>The quote ladder\<close>

record ladder_level =
  ll_index :: nat
  ll_offset_bp :: dec
  ll_size_quote :: dec

definition NO_FLOOR_LEVEL_BOUND :: int where "NO_FLOOR_LEVEL_BOUND = 1000"
definition MAX_LADDER_LEVELS :: int where "MAX_LADDER_LEVELS = 20"
definition GEOMETRIC_RATIO :: dec where "GEOMETRIC_RATIO = 2"

definition max_levels :: "raw \<Rightarrow> raw \<Rightarrow> int" where
  "max_levels deployed_quote min_notional = (let deployed = num 0 deployed_quote; flr = num 0 min_notional in
     if deployed \<le> 0 then 0 else if flr \<le> 0 then NO_FLOOR_LEVEL_BOUND
     else max 1 (trunc_dec (deployed / flr)))"

definition weights :: "nat \<Rightarrow> string \<Rightarrow> dec list" where
  "weights n curve = (if n \<le> 1 then [1] else let c = lower_str (strip_str (if curve = [] then ''flat'' else curve)) in
     if c = ''linear'' then map (\<lambda>i. of_nat i + 1) [0..<n]
     else if c = ''geometric'' then map (\<lambda>i. GEOMETRIC_RATIO ^ i) [0..<n]
     else replicate n 1)"

definition proximity_weights :: "raw list \<Rightarrow> raw list \<Rightarrow> raw \<Rightarrow> raw \<Rightarrow> dec list" where
  "proximity_weights prices levels tolerance_bp boost = (let
     tol = num 0 tolerance_bp; factor = num 0 boost; refs = filter (\<lambda>r. 0 < r) (map (num 0) levels) in
   map (\<lambda>v. let price = num 0 v in
     if 0 < price \<and> refs \<noteq> [] \<and> 0 < tol \<and> 0 < factor
     then let nearest = Min (set (map (\<lambda>r. \<bar>price - r\<bar> / price * 10000) refs)) in
       if nearest \<le> tol then 1 + (factor - 1) * ((tol - nearest) / tol) else 1
     else 1) prices)"

text \<open>The weights of a count of rungs: the curve, reshaped by the multipliers given.\<close>

definition combined :: "string \<Rightarrow> raw list \<Rightarrow> nat \<Rightarrow> dec list" where
  "combined curve lw count = (let base = weights count curve in
     if lw = [] then base
     else let out = map (\<lambda>(i, b). let m = (if i < length lw then num 0 (lw ! i) else 1) in
                  b * (if 0 < m then m else 1)) (enumerate 0 base)
          in if 0 < sum_list out then out else base)"

definition smallest_rung :: "dec \<Rightarrow> dec list \<Rightarrow> dec" where
  "smallest_rung deployed w = quantize_down (deployed * Min (set w) / sum_list w)"

definition rungs_clear :: "dec \<Rightarrow> dec \<Rightarrow> dec list \<Rightarrow> bool" where
  "rungs_clear deployed flr w \<longleftrightarrow> 0 < smallest_rung deployed w \<and> flr \<le> smallest_rung deployed w"

text \<open>Step the level count down until the smallest weighted rung clears the floor.\<close>

fun step_down :: "dec \<Rightarrow> dec \<Rightarrow> string \<Rightarrow> raw list \<Rightarrow> nat \<Rightarrow> nat" where
  "step_down deployed flr curve lw n =
     (if n \<le> 1 then n
      else if rungs_clear deployed flr (combined curve lw n) then n
      else step_down deployed flr curve lw (n - 1))"

declare step_down.simps [simp del]

text \<open>The sizing loop; the exact remainder rides the deepest rung.\<close>

fun assign_sizes :: "dec \<Rightarrow> dec \<Rightarrow> dec list \<Rightarrow> dec \<Rightarrow> dec list" where
  "assign_sizes deployed total_w [] assigned = []"
| "assign_sizes deployed total_w [w] assigned = [deployed - assigned]"
| "assign_sizes deployed total_w (w # w' # ws) assigned = (let size = quantize_down (deployed * w / total_w)
     in size # assign_sizes deployed total_w (w' # ws) (assigned + size))"

definition ladder_cap :: "raw \<Rightarrow> raw \<Rightarrow> raw \<Rightarrow> nat" where
  "ladder_cap deployed_quote levels min_notional =
     nat (max 1 (min (requested levels) (min MAX_LADDER_LEVELS (max_levels deployed_quote min_notional))))"

definition plan_ladder :: "raw \<Rightarrow> raw \<Rightarrow> raw \<Rightarrow> raw \<Rightarrow> string \<Rightarrow> raw \<Rightarrow> raw list \<Rightarrow> ladder_level list" where
  "plan_ladder deployed_quote levels step_bp first_offset_bp curve min_notional lw =
     (let deployed = num 0 deployed_quote in
      if deployed \<le> 0 then []
      else let n = step_down deployed (num 0 min_notional) curve lw (ladder_cap deployed_quote levels min_notional);
               w = combined curve lw n;
               sizes = assign_sizes deployed (sum_list w) w 0
           in map (\<lambda>(i, size). \<lparr>ll_index = i, ll_offset_bp = num 0 first_offset_bp + num 0 step_bp * of_nat i,
                ll_size_quote = size\<rparr>) (enumerate 0 sizes))"

definition ladder_notional :: "ladder_level list \<Rightarrow> dec" where
  "ladder_notional ls = sum_list (map ll_size_quote ls)"

subsection \<open>Facts about the weights\<close>

lemma weights_length [simp]: "0 < n \<Longrightarrow> length (weights n curve) = n"
  by (auto simp: weights_def Let_def)

lemma weights_pos: "w \<in> set (weights n curve) \<Longrightarrow> 0 < w"
  by (auto simp: weights_def Let_def GEOMETRIC_RATIO_def split: if_splits)

lemma combined_length [simp]: "0 < n \<Longrightarrow> length (combined curve lw n) = n"
  by (simp add: combined_def Let_def)

lemma combined_pos:
  assumes "w \<in> set (combined curve lw n)"
  shows "0 < w"
proof -
  let ?f = "\<lambda>(i, b). let m = (if i < length lw then num 0 (lw ! i) else 1) in b * (if 0 < m then m else (1 :: dec))"
  have "0 < x" if "x \<in> set (map ?f (enumerate 0 (weights n curve)))" for x
  proof -
    have "x \<in> ?f ` set (enumerate 0 (weights n curve))" using that by (simp only: set_map)
    then obtain p where p: "p \<in> set (enumerate 0 (weights n curve))" and x: "x = ?f p" by blast
    obtain i b where ib: "p = (i, b)" by (cases p)
    with p have "0 < b" by (auto simp: in_set_enumerate_eq intro: weights_pos [OF nth_mem])
    with ib x have "0 < b" "x = ?f (i, b)" by simp_all
    then show ?thesis by (simp add: x Let_def)
  qed
  moreover have "w \<in> set (weights n curve) \<or> w \<in> set (map ?f (enumerate 0 (weights n curve)))"
    using assms by (simp only: combined_def Let_def simp_thms split: if_splits)
  ultimately show ?thesis using weights_pos by blast
qed

lemma combined_nonempty [simp]: "0 < n \<Longrightarrow> combined curve lw n \<noteq> []"
  using combined_length [of n curve lw] by fastforce

lemma combined_sum_pos: "0 < n \<Longrightarrow> 0 < sum_list (combined curve lw n)"
proof -
  assume "0 < n"
  then obtain w ws where c: "combined curve lw n = w # ws"
    using combined_nonempty [of n curve lw] by (cases "combined curve lw n") auto
  have pos: "0 < x" if "x \<in> set (w # ws)" for x using combined_pos [of x curve lw n] that unfolding c by simp
  then have "0 \<le> sum_list ws" by (intro sum_list_nonneg) (simp add: less_imp_le)
  with pos [of w] show ?thesis by (simp add: c)
qed

subsection \<open>Facts about the sizes\<close>

lemma assign_sizes_length [simp]: "length (assign_sizes d t ws a) = length ws"
  by (induction d t ws a rule: assign_sizes.induct) (simp_all add: Let_def)

lemma assign_sizes_sum: "ws \<noteq> [] \<Longrightarrow> sum_list (assign_sizes d t ws a) = d - a"
  by (induction d t ws a rule: assign_sizes.induct) (simp_all add: Let_def)

lemma assign_sizes_above:
  assumes "0 \<le> d" "0 < t" "0 \<le> m" "\<And>w. w \<in> set ws \<Longrightarrow> m \<le> w"
    and "a \<le> d * (t - sum_list ws) / t" and "s \<in> set (assign_sizes d t ws a)"
  shows "quantize_down (d * m / t) \<le> s"
  using assms
proof (induction d t ws a rule: assign_sizes.induct)
  case (2 d t w a)
  then have "d * m / t \<le> d * w / t" by (intro divide_right_mono mult_left_mono) simp_all
  moreover have "d * (t - w) / t = d - d * w / t" using 2 by (simp add: field_simps)
  ultimately have "d * m / t \<le> d - a" using 2 by simp
  moreover have "quantize_down (d * m / t) \<le> d * m / t" using 2 by (intro quantize_down_le) simp
  ultimately show ?case using 2 by simp
next
  case (3 d t w w' ws a)
  have dm: "0 \<le> d * m / t" "d * m / t \<le> d * w / t"
    using 3 by (auto intro!: divide_right_mono mult_left_mono)
  have "quantize_down (d * w / t) \<le> d * w / t" using dm by (intro quantize_down_le) linarith
  moreover have "d * (t - sum_list (w # w' # ws)) / t + d * w / t = d * (t - sum_list (w' # ws)) / t"
    by (simp flip: add_divide_distrib add: algebra_simps)
  ultimately have "a + quantize_down (d * w / t) \<le> d * (t - sum_list (w' # ws)) / t" using 3 by linarith
  then show ?case using 3 quantize_down_mono [OF dm] by (auto simp: Let_def)
qed simp

lemma step_down_result:
  assumes "0 < n"
  shows "step_down d flr curve lw n
      = Max {m. 1 \<le> m \<and> m \<le> n \<and> (m = 1 \<or> rungs_clear d flr (combined curve lw m))}"
  using assms
proof (induction n)
  case (Suc n)
  let ?S = "\<lambda>k. {m. 1 \<le> m \<and> m \<le> k \<and> (m = 1 \<or> rungs_clear d flr (combined curve lw m))}"
  show ?case
  proof (cases "Suc n \<le> 1 \<or> rungs_clear d flr (combined curve lw (Suc n))")
    case True
    then have "step_down d flr curve lw (Suc n) = Suc n" by (subst step_down.simps) auto
    also have "Suc n = Max (?S (Suc n))" using True by (intro Max_eqI [symmetric]) auto
    finally show ?thesis .
  next
    case False
    then have "step_down d flr curve lw (Suc n) = step_down d flr curve lw n" by (subst step_down.simps) simp
    moreover have "?S (Suc n) = ?S n" using False by (auto simp: le_Suc_eq)
    ultimately show ?thesis using Suc False by simp
  qed
qed simp

lemma step_down_member:
  assumes "0 < n"
  shows "1 \<le> step_down d flr curve lw n \<and> step_down d flr curve lw n \<le> n
    \<and> (step_down d flr curve lw n = 1 \<or> rungs_clear d flr (combined curve lw (step_down d flr curve lw n)))"
proof -
  have "Max {m. 1 \<le> m \<and> m \<le> n \<and> (m = 1 \<or> rungs_clear d flr (combined curve lw m))}
      \<in> {m. 1 \<le> m \<and> m \<le> n \<and> (m = 1 \<or> rungs_clear d flr (combined curve lw m))}"
    using assms by (intro Max_in) (auto intro: exI [of _ 1] finite_subset [of _ "{..n}"])
  then show ?thesis unfolding step_down_result [OF assms] by blast
qed

lemma enumerate_fst_map: "map (\<lambda>x. g (fst x)) (enumerate 0 xs) = map g [0..<length xs]"
proof -
  have "map (\<lambda>x. g (fst x)) (enumerate 0 xs) = map g (map fst (enumerate 0 xs))"
    by (simp only: map_map comp_def)
  also have "\<dots> = map g [0..<length xs]" by (simp only: map_fst_enumerate add_0)
  finally show ?thesis .
qed

lemma plan_ladder_shape:
  assumes "0 < num 0 deployed" and "n = step_down (num 0 deployed) (num 0 flr) curve lw (ladder_cap deployed levels flr)"
  shows "length (plan_ladder deployed levels step first curve flr lw) = n"
    and "map ll_size_quote (plan_ladder deployed levels step first curve flr lw)
      = assign_sizes (num 0 deployed) (sum_list (combined curve lw n)) (combined curve lw n) 0"
    and "map ll_index (plan_ladder deployed levels step first curve flr lw) = [0..<n]"
    and "map ll_offset_bp (plan_ladder deployed levels step first curve flr lw)
      = map (\<lambda>i. num 0 first + num 0 step * of_nat i) [0..<n]"
proof -
  have "0 < ladder_cap deployed levels flr" by (simp add: ladder_cap_def)
  then have "0 < n" using step_down_member [of "ladder_cap deployed levels flr" "num 0 deployed" "num 0 flr" curve lw]
    by (simp add: assms(2))
  then have l: "length (combined curve lw n) = n" by simp
  show "length (plan_ladder deployed levels step first curve flr lw) = n"
    using assms l by (simp add: plan_ladder_def Let_def)
  show "map ll_size_quote (plan_ladder deployed levels step first curve flr lw)
      = assign_sizes (num 0 deployed) (sum_list (combined curve lw n)) (combined curve lw n) 0"
    using assms by (simp add: plan_ladder_def Let_def comp_def case_prod_unfold)
  show "map ll_index (plan_ladder deployed levels step first curve flr lw) = [0..<n]"
    using assms l by (simp add: plan_ladder_def Let_def comp_def case_prod_unfold)
  show "map ll_offset_bp (plan_ladder deployed levels step first curve flr lw)
      = map (\<lambda>i. num 0 first + num 0 step * of_nat i) [0..<n]"
    using assms l by (simp add: plan_ladder_def Let_def comp_def case_prod_unfold
        enumerate_fst_map [where g = "\<lambda>i. num 0 first + num 0 step * of_nat i"])
qed

text \<open>
  Claim C26: what a ladder plan promises. A positive deployment is split without remainder over
  at most 20 rungs; the count is the largest one, up to what was requested and what the venue
  minimum admits, whose smallest rung still clears the minimum; as soon as there is more than
  one rung every rung is positive and clears the minimum, whatever the curve and the
  multipliers; and the offsets step away from the reference.
\<close>

theorem ladder_plan_sound:
  fixes deployed levels step first flr :: raw and curve :: string and lw :: "raw list"
  assumes "0 < num 0 deployed"
  defines "P \<equiv> plan_ladder deployed levels step first curve flr lw"
  shows "ladder_notional P = num 0 deployed \<and> length P \<le> 20
    \<and> length P = Max {m. 1 \<le> m \<and> m \<le> ladder_cap deployed levels flr
         \<and> (m = 1 \<or> rungs_clear (num 0 deployed) (num 0 flr) (combined curve lw m))}
    \<and> (length P = 1 \<or> list_all (\<lambda>l. 0 < ll_size_quote l \<and> num 0 flr \<le> ll_size_quote l) P)
    \<and> map ll_offset_bp P = map (\<lambda>i. num 0 first + num 0 step * of_nat i) [0..<length P]"
proof -
  define cap where "cap = ladder_cap deployed levels flr"
  define n where "n = step_down (num 0 deployed) (num 0 flr) curve lw cap"
  define w where "w = combined curve lw n"
  have cap: "0 < cap" "cap \<le> 20" by (auto simp: cap_def ladder_cap_def MAX_LADDER_LEVELS_def)
  note shape = plan_ladder_shape [OF assms(1) n_def [unfolded cap_def], of step first, folded P_def w_def]
  have n: "1 \<le> n" "n \<le> cap" "n = 1 \<or> rungs_clear (num 0 deployed) (num 0 flr) w"
    using step_down_member [OF cap(1), of "num 0 deployed" "num 0 flr" curve lw] by (simp_all add: n_def w_def)
  have w: "0 < sum_list w" "w \<noteq> []" "\<And>x. x \<in> set w \<Longrightarrow> 0 < x"
    using n(1) combined_sum_pos [of n curve lw] combined_pos by (auto simp: w_def)
  have sizes: "smallest_rung (num 0 deployed) w \<le> s" if "s \<in> set (map ll_size_quote P)" for s
    using assign_sizes_above [of "num 0 deployed" "sum_list w" "Min (set w)" w 0 s] assms(1) w that
    unfolding shape(2) smallest_rung_def by (simp add: less_imp_le)
  have "length P = 1 \<or> list_all (\<lambda>l. 0 < ll_size_quote l \<and> num 0 flr \<le> ll_size_quote l) P"
    using n(3) sizes unfolding shape(1) rungs_clear_def list_all_iff by fastforce
  moreover have "ladder_notional P = num 0 deployed"
    unfolding ladder_notional_def shape(2) using assign_sizes_sum [OF w(2)] by simp
  ultimately show ?thesis
    using n cap shape(4) step_down_result [OF cap(1), of "num 0 deployed" "num 0 flr" curve lw]
    unfolding shape(1) by (simp add: n_def cap_def)
qed

theorem ladder_plan_sound_witness:
  "ladder_notional (plan_ladder (Some 1000) (Some 8) (Some 10) (Some 5) ''geometric'' (Some 100) []) = 1000
   \<and> length (plan_ladder (Some 1000) (Some 8) (Some 10) (Some 5) ''geometric'' (Some 100) []) = 3"
proof -
  have "length (plan_ladder (Some 1000) (Some 8) (Some 10) (Some 5) ''geometric'' (Some 100) []) = 3" by code_simp
  then show ?thesis
    using ladder_plan_sound [of "Some 1000" "Some 8" "Some 10" "Some 5" "''geometric''" "Some 100" "[]"]
    by (simp add: num_def)
qed

text \<open>The multipliers only reshape: each lies between 1 and the boost.\<close>

lemma proximity_bounds:
  assumes "m \<in> set (proximity_weights prices levels tol boost)"
  shows "min 1 (num 0 boost) \<le> m \<and> m \<le> max 1 (num 0 boost) \<and> 0 < m"
proof -
  have conv: "min 1 f \<le> 1 + (f - 1) * c \<and> 1 + (f - 1) * c \<le> max 1 f \<and> 0 < 1 + (f - 1) * c"
    if c: "0 \<le> c" "c \<le> 1" and f: "0 < f" for c f :: dec
  proof (cases "1 \<le> f")
    case True
    then have "0 \<le> (f - 1) * c" "(f - 1) * c \<le> (f - 1) * 1"
      using c by (auto intro: mult_left_mono simp del: mult_1_right)
    then show ?thesis using True by simp
  next
    case False
    then have "0 \<le> (1 - f) * c" "(1 - f) * c \<le> (1 - f) * 1"
      using c by (auto intro: mult_left_mono simp del: mult_1_right)
    moreover have "1 + (f - 1) * c = 1 - (1 - f) * c" by (simp add: algebra_simps)
    moreover have "min 1 f = f" "max 1 f = 1" using False by simp_all
    ultimately show ?thesis using f by simp
  qed
  obtain v where v: "v \<in> set prices" and m: "m = (let price = num 0 v; refs = filter (\<lambda>r. 0 < r) (map (num 0) levels) in
      if 0 < price \<and> refs \<noteq> [] \<and> 0 < num 0 tol \<and> 0 < num 0 boost
      then let nearest = Min (set (map (\<lambda>r. \<bar>price - r\<bar> / price * 10000) refs)) in
        if nearest \<le> num 0 tol then 1 + (num 0 boost - 1) * ((num 0 tol - nearest) / num 0 tol) else 1
      else 1)"
    using assms unfolding proximity_weights_def Let_def by auto
  show ?thesis
  proof (cases "m = 1")
    case False
    define refs where "refs = filter (\<lambda>r. 0 < r) (map (num 0) levels)"
    define nr where "nr = Min (set (map (\<lambda>r. \<bar>num 0 v - r\<bar> / num 0 v * 10000) refs))"
    from False m have hit: "0 < num 0 v" "refs \<noteq> []" "0 < num 0 tol" "0 < num 0 boost" "nr \<le> num 0 tol"
      and eq: "m = 1 + (num 0 boost - 1) * ((num 0 tol - nr) / num 0 tol)"
      unfolding Let_def refs_def [symmetric] nr_def [symmetric] by (auto split: if_splits)
    have "nr \<in> set (map (\<lambda>r. \<bar>num 0 v - r\<bar> / num 0 v * 10000) refs)"
      unfolding nr_def using hit(2) by (intro Min_in) simp_all
    then have "0 \<le> nr" using hit(1) by auto
    then show ?thesis unfolding eq using hit by (intro conv) (simp_all add: divide_le_eq)
  qed simp
qed

subsection \<open>The TWAP schedule\<close>

definition MIN_SLICE_SAFETY :: dec where "MIN_SLICE_SAFETY = 102 / 100"

definition max_slices :: "raw \<Rightarrow> raw \<Rightarrow> int" where
  "max_slices total_quote min_notional = (let total = num 0 total_quote; flr = num 0 min_notional in
     if total \<le> 0 then 0 else if flr \<le> 0 then 1
     else max 1 (trunc_dec (total / (flr * MIN_SLICE_SAFETY))))"

definition plan_slices :: "raw \<Rightarrow> raw \<Rightarrow> raw \<Rightarrow> dec list" where
  "plan_slices total_quote min_notional requested_slices = (let total = num 0 total_quote in
     if total \<le> 0 then []
     else let n = min (max 1 (requested requested_slices)) (max_slices total_quote min_notional) in
       if n \<le> 1 then [total]
       else let each = quantize_down (total / of_int n); slices = replicate (nat (n - 1)) each
            in slices @ [total - sum_list slices])"

definition target_done_quote :: "raw \<Rightarrow> raw \<Rightarrow> raw \<Rightarrow> dec" where
  "target_done_quote total_quote elapsed_seconds horizon_seconds = (let total = num 0 total_quote in
     if total \<le> 0 then 0
     else let horizon = num 0 horizon_seconds in
       if horizon \<le> 0 then total
       else let el = num 0 elapsed_seconds in
         if el \<le> 0 then 0 else if el \<ge> horizon then total else total * (el / horizon))"

definition schedule_debt_quote :: "raw \<Rightarrow> raw \<Rightarrow> raw \<Rightarrow> raw \<Rightarrow> dec" where
  "schedule_debt_quote total_quote filled_quote elapsed_seconds horizon_seconds =
     (let debt = target_done_quote total_quote elapsed_seconds horizon_seconds - num 0 filled_quote
      in if 0 < debt then debt else 0)"

definition should_cross :: "raw \<Rightarrow> raw \<Rightarrow> raw \<Rightarrow> raw \<Rightarrow> raw \<Rightarrow> raw \<Rightarrow> raw \<Rightarrow> bool" where
  "should_cross total_quote filled_quote elapsed_seconds horizon_seconds tolerance_frac crossed_quote max_taker_frac =
     (let total = num 0 total_quote in
      if total \<le> 0 then False
      else let debt = schedule_debt_quote total_quote filled_quote elapsed_seconds horizon_seconds in
        if debt \<le> total * num (1 / 2) tolerance_frac then False
        else num 0 crossed_quote < total * num (1 / 4) max_taker_frac)"

text \<open>
  A law: slicing loses nothing and respects the venue minimum. A positive parent is split
  into at most the requested number of slices that sum to it exactly; when there is more than
  one, every slice is at least the venue minimum, for any minimum of a millionth or more; and a
  parent that cannot carry two such slices is sent whole.
\<close>

theorem slices_sound:
  fixes parent flr req :: raw
  assumes "0 < num 0 parent" "1 / 10 ^ 6 \<le> num 0 flr"
  defines "S \<equiv> plan_slices parent flr req"
  shows "sum_list S = num 0 parent \<and> int (length S) = min (max 1 (requested req)) (max_slices parent flr)
    \<and> (S = [num 0 parent] \<or> list_all (\<lambda>s. num 0 flr \<le> s) S)
    \<and> (num 0 parent < 2 * (num 0 flr * MIN_SLICE_SAFETY) \<longrightarrow> S = [num 0 parent])"
proof -
  define T F n where "T = num 0 parent" and "F = num 0 flr"
    and "n = min (max 1 (requested req)) (max_slices parent flr)"
  have T: "0 < T" and F: "0 < F" "1 / 10 ^ 6 \<le> F" using assms by (auto simp: T_def F_def intro: less_le_trans)
  have ms: "max_slices parent flr = max 1 \<lfloor>T / (F * MIN_SLICE_SAFETY)\<rfloor>"
    using T F by (simp add: max_slices_def T_def F_def trunc_dec_def MIN_SLICE_SAFETY_def)
  show ?thesis
  proof (cases "n \<le> 1")
    case True
    then have "S = [T]" using T by (simp add: S_def plan_slices_def Let_def T_def n_def)
    moreover have "n = 1" using True ms by (simp add: n_def)
    ultimately show ?thesis by (simp add: T_def n_def)
  next
    case False
    define each where "each = quantize_down (T / of_int n)"
    have S: "S = replicate (nat (n - 1)) each @ [T - of_int (n - 1) * each]"
    proof -
      have "S = (let slices = replicate (nat (n - 1)) each in slices @ [T - sum_list slices])"
        using T False unfolding S_def plan_slices_def each_def Let_def T_def [symmetric] n_def [symmetric] by simp
      then show ?thesis using False by (simp add: Let_def sum_list_replicate)
    qed
    have "n \<le> \<lfloor>T / (F * MIN_SLICE_SAFETY)\<rfloor>" using False ms by (simp add: n_def)
    then have "of_int n \<le> T / (F * MIN_SLICE_SAFETY)" by (simp add: le_floor_iff)
    then have n: "of_int n * (F * MIN_SLICE_SAFETY) \<le> T" "(2 :: dec) \<le> of_int n"
      using F False by (simp_all add: MIN_SLICE_SAFETY_def pos_le_divide_eq)
    then have "F * MIN_SLICE_SAFETY \<le> T / of_int n" by (simp add: pos_le_divide_eq mult.commute)
    moreover have "F + SIZE_QUANTUM \<le> F * MIN_SLICE_SAFETY"
      using F(2) by (simp add: SIZE_QUANTUM_def MIN_SLICE_SAFETY_def)
    ultimately have e1: "F \<le> each" using quantize_down_gap [of "T / of_int n"] T n by (simp add: each_def)
    have "each \<le> T / of_int n" unfolding each_def using T n by (intro quantize_down_le) simp
    then have "of_int n * each \<le> T" using n by (simp add: pos_le_divide_eq mult.commute)
    then have e2: "F \<le> T - of_int (n - 1) * each" using e1 by (simp add: algebra_simps)
    have "2 * (F * MIN_SLICE_SAFETY) \<le> of_int n * (F * MIN_SLICE_SAFETY)"
      using n(2) F by (intro mult_right_mono) (simp_all add: MIN_SLICE_SAFETY_def)
    then have "2 * (F * MIN_SLICE_SAFETY) \<le> T" using n(1) by linarith
    then show ?thesis using e1 e2 False
      by (simp add: S list_all_iff sum_list_replicate flip: T_def F_def n_def)
  qed
qed

theorem slices_sound_witness:
  "list_all (\<lambda>s. 100 \<le> s) (plan_slices (Some 500) (Some 100) (Some 4)) \<and> sum_list (plan_slices (Some 500) (Some 100) (Some 4)) = 500"
proof -
  have "plan_slices (Some 500) (Some 100) (Some 4) \<noteq> [500]" by code_simp
  then show ?thesis using slices_sound [of "Some 500" "Some 100" "Some 4"] by (simp add: num_def)
qed

text \<open>
  A law: pacing. The target of a schedule stays between nothing and the whole parent, never
  falls as time passes, and reaches the whole at the horizon; what is filled plus the debt is
  never short of the target; and a leg is only allowed to cross the spread while it is behind
  and its taker budget is not spent.
\<close>

theorem schedule_paced:
  assumes "el \<le> el'" "0 \<le> num 0 parent"
  shows "0 \<le> target_done_quote parent (Some el) hz
    \<and> target_done_quote parent (Some el) hz \<le> target_done_quote parent (Some el') hz
    \<and> target_done_quote parent (Some el') hz \<le> num 0 parent
    \<and> (num 0 hz \<le> el' \<longrightarrow> target_done_quote parent (Some el') hz = num 0 parent)
    \<and> target_done_quote parent (Some el) hz \<le> num 0 fl + schedule_debt_quote parent fl (Some el) hz
    \<and> (should_cross parent fl (Some el) hz tol cr mx \<longrightarrow> 0 \<le> num (1 / 2) tol
        \<longrightarrow> num 0 fl < target_done_quote parent (Some el) hz \<and> num 0 cr < num 0 parent * num (1 / 4) mx)"
proof -
  have frac: "0 \<le> t * (e / h)" "t * (e / h) \<le> t" if "0 \<le> t" "0 < e" "e < h" for t e h :: dec
    using that mult_left_mono [of "e / h" 1 t] by simp_all
  have mono: "t * (e / h) \<le> t * (e' / h)" if "0 \<le> t" "0 < h" "e \<le> e'" for t e e' h :: dec
    using that by (intro mult_left_mono divide_right_mono) simp_all
  have tgt: "0 \<le> target_done_quote parent (Some el) hz"
      "target_done_quote parent (Some el) hz \<le> target_done_quote parent (Some el') hz"
      "target_done_quote parent (Some el') hz \<le> num 0 parent"
    using assms frac [of "num 0 parent"] mono [of "num 0 parent" "num 0 hz" el el']
    by (auto simp: target_done_quote_def Let_def num_def [of _ "Some _"] split: if_splits)
  have full: "target_done_quote parent (Some el') hz = num 0 parent" if "num 0 hz \<le> el'"
    using assms that by (auto simp: target_done_quote_def Let_def num_def [of _ "Some _"])
  have debt: "target_done_quote parent (Some el) hz \<le> num 0 fl + schedule_debt_quote parent fl (Some el) hz"
    by (simp add: schedule_debt_quote_def Let_def)
  have cross: "num 0 fl < target_done_quote parent (Some el) hz \<and> num 0 cr < num 0 parent * num (1 / 4) mx"
    if "should_cross parent fl (Some el) hz tol cr mx" "0 \<le> num (1 / 2) tol"
  proof -
    have "0 < num 0 parent" "num 0 parent * num (1 / 2) tol < schedule_debt_quote parent fl (Some el) hz"
      "num 0 cr < num 0 parent * num (1 / 4) mx"
      using that(1) by (simp_all add: should_cross_def Let_def split: if_splits)
    moreover have "0 \<le> num 0 parent * num (1 / 2) tol" using calculation(1) that(2) by simp
    ultimately have "0 < schedule_debt_quote parent fl (Some el) hz" by linarith
    then show ?thesis using \<open>num 0 cr < _\<close> by (simp add: schedule_debt_quote_def Let_def split: if_splits)
  qed
  show ?thesis using tgt full debt cross by simp
qed

theorem schedule_paced_witness:
  "target_done_quote (Some 400) (Some 15) (Some 60) \<le> target_done_quote (Some 400) (Some 30) (Some 60)"
  using schedule_paced [of 15 30 "Some 400" "Some 60"] by (simp add: num_def)

end
