(* ===== verification/Mm_Pricing.thy ===== *)
theory Mm_Pricing
  imports Quote_Plans
begin

text \<open>
  The pure mathematics the market maker prices with: the objective profile and the fee floor
  (\<open>quant/mm_profile.py\<close>), the execution presets (\<open>quant/mid_market_making.py\<close>), the blend of
  short-horizon signals (\<open>quant/alpha.py\<close>) and the order-book microstructure
  (\<open>quant/microstructure.py\<close>).

  An untyped argument that goes through \<open>_num\<close> is a \<open>raw\<close>, \<open>None\<close> when it is no number; the
  numbers are finite (\<open>mm_profile._num\<close> alone would let a NaN or an infinity pass). A mapping of
  names is an association list with distinct keys.
  \<open>math.tanh\<close> is the parameter \<open>th\<close>.
\<close>

text \<open>\<open>_num(v) or d\<close>.\<close>

definition or_num :: "raw \<Rightarrow> dec \<Rightarrow> dec" where
  "or_num v d = or_dec v d"

definition clamp :: "dec \<Rightarrow> dec \<Rightarrow> dec \<Rightarrow> dec" where
  "clamp lo hi x = max lo (min hi x)"

lemma clamp_bounds: "lo \<le> hi \<Longrightarrow> lo \<le> clamp lo hi x \<and> clamp lo hi x \<le> hi"
  by (auto simp: clamp_def)

lemma clamp_mono: "x \<le> y \<Longrightarrow> clamp lo hi x \<le> clamp lo hi y"
  by (auto simp: clamp_def max_def min_def)

subsection \<open>The objective profile\<close>

definition DEFAULT_SPREAD_MARGIN :: dec where "DEFAULT_SPREAD_MARGIN = 125 / 100"
definition DEFAULT_FEE_ROUND_TRIP_BP :: dec where "DEFAULT_FEE_ROUND_TRIP_BP = 5"

definition normalize_objective :: "string \<Rightarrow> string" where
  "normalize_objective v = (let token = lower_str (strip_str v) in
     if token \<in> {''auto'', ''volume'', ''spread''} then token else ''auto'')"

definition round_trip_fee :: "raw \<Rightarrow> dec" where
  "round_trip_fee fee = (case fee of None \<Rightarrow> DEFAULT_FEE_ROUND_TRIP_BP
     | Some rt \<Rightarrow> if rt \<le> 0 then DEFAULT_FEE_ROUND_TRIP_BP else rt)"

definition per_leg_fee_bp :: "raw \<Rightarrow> dec" where
  "per_leg_fee_bp fee = round_trip_fee fee / 2"

definition half_spread_floor_bp :: "raw \<Rightarrow> raw \<Rightarrow> raw \<Rightarrow> dec" where
  "half_spread_floor_bp fee min_edge inv_k = (let
     edge = or_num min_edge 0;
     edge = (case inv_k of None \<Rightarrow> edge | Some k \<Rightarrow> if k > edge then k else edge)
   in per_leg_fee_bp fee + max edge (1 / 10))"

definition resolve_profile :: "string \<Rightarrow> raw \<Rightarrow> raw \<Rightarrow> raw \<Rightarrow> string" where
  "resolve_profile objective spread fee margin = (let choice = normalize_objective objective in
     if choice = ''volume'' \<or> choice = ''spread'' then choice
     else case spread of None \<Rightarrow> ''volume''
       | Some width \<Rightarrow> if width \<le> 0 then ''volume''
          else if width \<ge> round_trip_fee fee * max 1 (or_num margin DEFAULT_SPREAD_MARGIN) then ''spread'' else ''volume'')"

definition reservation_offset_bp :: "raw \<Rightarrow> raw \<Rightarrow> raw \<Rightarrow> raw \<Rightarrow> raw \<Rightarrow> dec" where
  "reservation_offset_bp inventory_ratio sigma_bp half_spread gamma max_frac = (case (inventory_ratio, half_spread) of
     (Some r, Some half) \<Rightarrow>
       if half \<le> 0 then 0
       else let ratio = clamp (- 1) 1 r in
         if ratio = 0 then 0
         else let scale = (case sigma_bp of None \<Rightarrow> half | Some s \<Rightarrow> if s > 0 then s else half);
                  magnitude = or_num gamma 0 * scale; cap = half * max 0 (or_num max_frac 0)
              in - ratio * min magnitude cap
   | _ \<Rightarrow> 0)"

subsection \<open>Execution presets\<close>

record mid_profile =
  mp_name :: string
  mp_interval :: int
  mp_spread_mult :: dec
  mp_size_mult :: dec
  mp_ttl :: int

definition mid_profiles :: "(string \<times> mid_profile) list" where
  "mid_profiles =
    [(''aggressive'', \<lparr>mp_name = ''aggressive'', mp_interval = 4, mp_spread_mult = 75 / 100, mp_size_mult = 125 / 100, mp_ttl = 6\<rparr>),
     (''normal'', \<lparr>mp_name = ''normal'', mp_interval = 8, mp_spread_mult = 1, mp_size_mult = 1, mp_ttl = 12\<rparr>),
     (''passive'', \<lparr>mp_name = ''passive'', mp_interval = 16, mp_spread_mult = 135 / 100, mp_size_mult = 70 / 100, mp_ttl = 24\<rparr>)]"

definition normalize_mid_mode :: "string \<Rightarrow> string" where
  "normalize_mid_mode v = (let n = lower_str (strip_str (if v = [] then ''normal'' else v)) in
     if map_of mid_profiles n = None then ''normal'' else n)"

definition resolve_mid_profile :: "string \<Rightarrow> mid_profile" where
  "resolve_mid_profile v = the (map_of mid_profiles (normalize_mid_mode v))"

subsection \<open>Blending signals\<close>

definition DIRECTIONAL_SIGNALS :: "string list" where
  "DIRECTIONAL_SIGNALS = [''obi'', ''micro_displacement'', ''trade_imbalance'', ''ofi'', ''momentum'', ''basis'']"

definition COLD_START_WEIGHTS :: "(string \<times> raw) list" where
  "COLD_START_WEIGHTS = [(''obi'', Some (30 / 100)), (''micro_displacement'', Some (25 / 100)),
     (''trade_imbalance'', Some (25 / 100)), (''ofi'', Some (10 / 100)), (''momentum'', Some (5 / 100)), (''basis'', Some (5 / 100))]"

definition MAX_ALPHA_UNTRUSTED :: dec where "MAX_ALPHA_UNTRUSTED = 35 / 100"

definition squash :: "(dec \<Rightarrow> dec) \<Rightarrow> raw \<Rightarrow> raw \<Rightarrow> dec option" where
  "squash th v scale = (case (v, scale) of (Some x, Some s) \<Rightarrow> if s = 0 then None else Some (th (x / s)) | _ \<Rightarrow> None)"

definition standardize :: "(dec \<Rightarrow> dec) \<Rightarrow> (string \<times> raw) list \<Rightarrow> (string \<times> dec option) list" where
  "standardize th comps = map (\<lambda>(name, v). (name, case v of None \<Rightarrow> None
     | Some x \<Rightarrow> if \<bar>x\<bar> \<le> 1 then Some (clamp (- 1) 1 x) else squash th (Some x) (Some 1))) comps"

text \<open>The median and the median absolute deviation.\<close>

definition median :: "dec list \<Rightarrow> dec" where
  "median xs = (let n = length xs; ys = sort xs in
     if n mod 2 = 1 then ys ! (n div 2) else (ys ! (n div 2 - 1) + ys ! (n div 2)) / 2)"

definition robust_z :: "raw \<Rightarrow> raw list \<Rightarrow> dec option" where
  "robust_z v history = (let vals = List.map_filter id history in
     case v of None \<Rightarrow> None
     | Some x \<Rightarrow> if length vals < 3 then None
        else let med = median vals; mad = median (map (\<lambda>u. \<bar>u - med\<bar>) vals) in
          if mad \<le> 0 then None else Some ((x - med) / (14826 / 10000 * mad)))"

text \<open>Python rounds half to even; \<open>used\<close> is returned sorted, here it is the set of names.\<close>

definition round_even :: "dec \<Rightarrow> int" where
  "round_even x = (let f = \<lfloor>x\<rfloor>; r = x - of_int f in
     if r < 1 / 2 then f else if r > 1 / 2 then f + 1 else if even f then f else f + 1)"

definition round4 :: "dec \<Rightarrow> dec" where
  "round4 x = of_int (round_even (x * 10 ^ 4)) / 10 ^ 4"

record blended =
  bd_alpha :: dec
  bd_confidence :: dec
  bd_used :: "string set"
  bd_dropped :: "(string \<times> string) list"
  bd_covered :: dec

definition weight_of :: "(string \<times> raw) list \<Rightarrow> string \<Rightarrow> raw" where
  "weight_of w name = (case map_of w name of None \<Rightarrow> None | Some v \<Rightarrow> v)"

definition usable :: "(string \<times> raw) list \<Rightarrow> string \<times> dec option \<Rightarrow> bool" where
  "usable w nv \<longleftrightarrow> fst nv \<in> set DIRECTIONAL_SIGNALS
     \<and> (case weight_of w (fst nv) of None \<Rightarrow> False | Some x \<Rightarrow> x > 0) \<and> snd nv \<noteq> None"

definition drop_reason :: "(string \<times> raw) list \<Rightarrow> string \<times> dec option \<Rightarrow> string" where
  "drop_reason w nv = (if fst nv \<notin> set DIRECTIONAL_SIGNALS then ''not_directional''
     else if (case weight_of w (fst nv) of None \<Rightarrow> True | Some x \<Rightarrow> x \<le> 0) then ''no_weight'' else ''missing'')"

definition used_of :: "(string \<times> raw) list \<Rightarrow> (string \<times> dec option) list \<Rightarrow> (string \<times> dec \<times> dec) list" where
  "used_of w sv = map (\<lambda>(name, v). (name, num 0 v, num 0 (weight_of w name))) (filter (usable w) sv)"

definition total_weight :: "(string \<times> raw) list \<Rightarrow> dec" where
  "total_weight w = sum_list (map (\<lambda>(k, v). or_num v 0) (filter (\<lambda>(k, v). k \<in> set DIRECTIONAL_SIGNALS) w))"

definition blend :: "(dec \<Rightarrow> dec) \<Rightarrow> (string \<times> raw) list \<Rightarrow> (string \<times> raw) list option \<Rightarrow> dec \<Rightarrow> bool \<Rightarrow> raw \<Rightarrow> blended" where
  "blend th comps ows min_covered trusted max_alpha = (let
     w = (case ows of None \<Rightarrow> COLD_START_WEIGHTS | Some ws \<Rightarrow> if ws = [] then COLD_START_WEIGHTS else ws);
     sv = standardize th comps; used = used_of w sv;
     dropped = map (\<lambda>nv. (fst nv, drop_reason w nv)) (filter (\<lambda>nv. \<not> usable w nv) sv);
     covered_w = sum_list (map (\<lambda>(_, _, wt). wt) used);
     covered = (if total_weight w > 0 then covered_w / total_weight w else 0) in
   if covered_w \<le> 0 \<or> covered < max 0 min_covered
   then \<lparr>bd_alpha = 0, bd_confidence = 0, bd_used = fst ` set used, bd_dropped = dropped, bd_covered = round4 covered\<rparr>
   else let raw = sum_list (map (\<lambda>(_, v, wt). v * wt) used) / covered_w;
            agreement = (if raw = 0 then 0
              else max 0 (2 * (sum_list (map (\<lambda>(_, v, wt). wt) (filter (\<lambda>(_, v, wt). (v > 0) = (raw > 0)) used)) / covered_w) - 1));
            limit = \<bar>or_num max_alpha MAX_ALPHA_UNTRUSTED\<bar> in
     \<lparr>bd_alpha = (if trusted then raw else clamp (- limit) limit raw), bd_confidence = clamp 0 1 (covered * agreement),
      bd_used = fst ` set used, bd_dropped = dropped, bd_covered = round4 covered\<rparr>)"

definition resolve_bias :: "raw \<Rightarrow> raw \<Rightarrow> raw \<Rightarrow> dec" where
  "resolve_bias fast slow fast_weight = (case (fast, slow) of
     (None, None) \<Rightarrow> 0
   | (None, Some s) \<Rightarrow> clamp (- 1) 1 s
   | (Some f, None) \<Rightarrow> clamp (- 1) 1 f
   | (Some f, Some s) \<Rightarrow> let fw = clamp 0 1 (num (75 / 100) fast_weight) in clamp (- 1) 1 (fw * f + (1 - fw) * s))"

definition anchor_offset_bp :: "raw \<Rightarrow> raw \<Rightarrow> raw \<Rightarrow> raw \<Rightarrow> dec" where
  "anchor_offset_bp alpha half_spread strength max_frac = (case (alpha, half_spread) of
     (Some a, Some half) \<Rightarrow>
       if half \<le> 0 \<or> a = 0 then 0
       else let cap = half * max 0 (or_num max_frac 0) in clamp (- cap) cap (clamp (- 1) 1 a * or_num strength 0 * half)
   | _ \<Rightarrow> 0)"

subsection \<open>Microstructure\<close>

record sized_book =
  sb_bids :: "(raw \<times> raw) list"
  sb_asks :: "(raw \<times> raw) list"

definition clean_levels :: "(raw \<times> raw) list \<Rightarrow> (dec \<times> dec) list" where
  "clean_levels lvls = filter (\<lambda>(p, s). p > 0 \<and> s > 0)
     (List.map_filter (\<lambda>(p, s). case (p, s) of (Some x, Some y) \<Rightarrow> Some (x, y) | _ \<Rightarrow> None) lvls)"

definition bids_of :: "sized_book \<Rightarrow> (dec \<times> dec) list" where "bids_of b = clean_levels (sb_bids b)"
definition asks_of :: "sized_book \<Rightarrow> (dec \<times> dec) list" where "asks_of b = clean_levels (sb_asks b)"

definition l1 :: "sized_book \<Rightarrow> (dec \<times> dec \<times> dec \<times> dec) option" where
  "l1 b = (case (bids_of b, asks_of b) of
     ((p, s) # _, (q, t) # _) \<Rightarrow> Some (p, s, q, t) | _ \<Rightarrow> None)"

definition ms_mid :: "sized_book \<Rightarrow> dec option" where
  "ms_mid b = map_option (\<lambda>(bid, _, ask, _). (bid + ask) / 2) (l1 b)"

definition side_size :: "nat \<Rightarrow> (dec \<times> dec) list \<Rightarrow> dec" where
  "side_size n lv = sum_list (map snd (take n lv))"

definition microprice :: "sized_book \<Rightarrow> int \<Rightarrow> dec option" where
  "microprice b levels = (case l1 b of None \<Rightarrow> None
     | Some (bid, _, ask, _) \<Rightarrow> let n = nat (max 1 levels); x = side_size n (bids_of b); y = side_size n (asks_of b) in
        if x + y \<le> 0 then None else Some ((bid * y + ask * x) / (x + y)))"

definition spread_bp :: "sized_book \<Rightarrow> dec option" where
  "spread_bp b = (case l1 b of None \<Rightarrow> None
     | Some (bid, _, ask, _) \<Rightarrow> let m = (bid + ask) / 2 in if m \<le> 0 then None else Some ((ask - bid) / m * 10000))"

definition obi :: "sized_book \<Rightarrow> int \<Rightarrow> dec option" where
  "obi b levels = (case l1 b of None \<Rightarrow> None
     | Some _ \<Rightarrow> let n = nat (max 1 levels); x = side_size n (bids_of b); y = side_size n (asks_of b) in
        if x + y \<le> 0 then None else Some ((x - y) / (x + y)))"

definition obi_bands :: "sized_book \<Rightarrow> int list \<Rightarrow> (int \<times> dec option) list" where
  "obi_bands b bands = map (\<lambda>n. (n, obi b n)) bands"

definition depth_notional :: "sized_book \<Rightarrow> bool \<Rightarrow> dec \<Rightarrow> dec" where
  "depth_notional b buy bp = (let lv = (if buy then bids_of b else asks_of b) in case lv of [] \<Rightarrow> 0
     | (touch, _) # _ \<Rightarrow> let limit = (if buy then touch * (1 - bp / 10000) else touch * (1 + bp / 10000)) in
        sum_list (map (\<lambda>(p, s). p * s) (takeWhile (\<lambda>(p, s). \<not> (buy \<and> p < limit \<or> \<not> buy \<and> p > limit)) lv)))"

fun walk_vwap :: "(dec \<times> dec) list \<Rightarrow> dec \<Rightarrow> dec \<Rightarrow> dec \<Rightarrow> dec option" where
  "walk_vwap [] remaining base spent = None"
| "walk_vwap ((p, s) # lv) remaining base spent = (let t = min remaining (p * s) in
     if remaining - t \<le> 1 / 10 ^ 12 then (if base + t / p > 0 then Some ((spent + t) / (base + t / p)) else None)
     else walk_vwap lv (remaining - t) (base + t / p) (spent + t))"

definition slippage_bp :: "sized_book \<Rightarrow> bool \<Rightarrow> dec \<Rightarrow> dec option" where
  "slippage_bp b buy notional = (case ms_mid b of None \<Rightarrow> None
     | Some m \<Rightarrow> if m \<le> 0 \<or> notional \<le> 0 then None
        else map_option (\<lambda>v. \<bar>v - m\<bar> / m * 10000) (walk_vwap (if buy then asks_of b else bids_of b) notional 0 0))"

subsection \<open>What the prices promise\<close>

text \<open>
  A law: the fee floor and the profile. The floor of a half-spread is strictly above the fee
  of one leg, whatever the inputs; an explicit objective wins; and under \<open>auto\<close> the spread
  profile is chosen exactly when the spread was read and covers the round trip with the margin,
  so half of it covers the fee of a leg.
\<close>

theorem fee_floor_and_profile:
  "per_leg_fee_bp fee < half_spread_floor_bp fee edge k
    \<and> (normalize_objective ob \<noteq> ''auto'' \<longrightarrow> resolve_profile ob spread fee margin = normalize_objective ob)
    \<and> (normalize_objective ob = ''auto'' \<longrightarrow>
        (resolve_profile ob spread fee margin = ''spread'' \<longleftrightarrow> (\<exists>w. spread = Some w \<and> 0 < w
            \<and> round_trip_fee fee * max 1 (or_num margin DEFAULT_SPREAD_MARGIN) \<le> w)))
    \<and> (normalize_objective ob = ''auto'' \<longrightarrow> resolve_profile ob spread fee margin = ''spread'' \<longrightarrow>
        (\<exists>w. spread = Some w \<and> per_leg_fee_bp fee \<le> w / 2))"
proof -
  have pos: "0 < round_trip_fee fee" by (auto simp: round_trip_fee_def DEFAULT_FEE_ROUND_TRIP_BP_def split: option.split)
  have auto: "resolve_profile ob spread fee margin = ''spread'' \<longleftrightarrow> (\<exists>w. spread = Some w \<and> 0 < w
      \<and> round_trip_fee fee * max 1 (or_num margin DEFAULT_SPREAD_MARGIN) \<le> w)" if "normalize_objective ob = ''auto''"
    using that by (auto simp: resolve_profile_def Let_def split: option.split)
  have "round_trip_fee fee * 1 \<le> round_trip_fee fee * max 1 (or_num margin DEFAULT_SPREAD_MARGIN)"
    using pos by (intro mult_left_mono) auto
  then have half: "per_leg_fee_bp fee \<le> w / 2"
    if "round_trip_fee fee * max 1 (or_num margin DEFAULT_SPREAD_MARGIN) \<le> w" for w
    using that by (simp add: per_leg_fee_bp_def)
  have "normalize_objective ob \<in> {''auto'', ''volume'', ''spread''}" by (auto simp: normalize_objective_def Let_def)
  then have "resolve_profile ob spread fee margin = normalize_objective ob" if "normalize_objective ob \<noteq> ''auto''"
    using that by (auto simp: resolve_profile_def)
  moreover have "per_leg_fee_bp fee < half_spread_floor_bp fee edge k"
    by (auto simp: half_spread_floor_bp_def Let_def split: option.split)
  ultimately show ?thesis using auto half by blast
qed

theorem fee_floor_and_profile_witness:
  "resolve_profile ''AUTO '' (Some 7) None None = ''spread'' \<and> per_leg_fee_bp None \<le> (7 :: rat) / 2"
  using fee_floor_and_profile [of None None None "''AUTO ''" "Some 7" None]
  by (simp add: normalize_objective_def round_trip_fee_def or_num_def DEFAULT_FEE_ROUND_TRIP_BP_def DEFAULT_SPREAD_MARGIN_def
      lower_str_def lower_char_def strip_str_def is_space_def)

text \<open>The inventory and alpha shifts are bounded by their fraction of the half-spread.\<close>

lemma reservation_bounds:
  assumes "0 \<le> num 0 half"
  shows "\<bar>reservation_offset_bp q sigma half gamma mf\<bar> \<le> num 0 half * max 0 (or_num mf 0) \<or> or_num gamma 0 < 0"
    and "reservation_offset_bp (map_option uminus q) sigma half gamma mf = - reservation_offset_bp q sigma half gamma mf"
proof -
  have c: "\<bar>clamp (- 1) 1 r\<bar> \<le> 1" for r using clamp_bounds [of "-1" 1 r] by (simp add: abs_le_iff)
  have mul: "\<bar>clamp (- 1) 1 r\<bar> * \<bar>min m c'\<bar> \<le> c'" if "0 \<le> m" "0 \<le> c'" for r m c'
    using mult_mono [OF c, of "\<bar>min m c'\<bar>" c' r] that by auto
  show "\<bar>reservation_offset_bp q sigma half gamma mf\<bar> \<le> num 0 half * max 0 (or_num mf 0) \<or> or_num gamma 0 < 0"
    using assms by (auto simp: reservation_offset_bp_def Let_def num_def abs_mult not_less split: option.split intro!: mul)
  have neg: "clamp (- 1) 1 (- r) = - clamp (- 1) 1 r" for r by (auto simp: clamp_def max_def min_def)
  show "reservation_offset_bp (map_option uminus q) sigma half gamma mf = - reservation_offset_bp q sigma half gamma mf"
    by (auto simp: reservation_offset_bp_def Let_def neg split: option.split)
qed

lemma anchor_bounds: "0 \<le> num 0 half \<Longrightarrow> \<bar>anchor_offset_bp a half strength mf\<bar> \<le> num 0 half * max 0 (or_num mf 0)"
proof -
  assume h: "0 \<le> num 0 half"
  have cb: "\<bar>clamp (- c) c x\<bar> \<le> c" if "0 \<le> c" for c x using clamp_bounds [of "-c" c x] that by (auto simp: abs_le_iff)
  show ?thesis using h by (auto simp: anchor_offset_bp_def Let_def num_def split: option.split intro!: cb)
qed

subsection \<open>The blend\<close>

definition blend_weights :: "(string \<times> raw) list option \<Rightarrow> (string \<times> raw) list" where
  "blend_weights ows = (case ows of None \<Rightarrow> COLD_START_WEIGHTS | Some ws \<Rightarrow> if ws = [] then COLD_START_WEIGHTS else ws)"

definition covered_weight :: "(string \<times> dec \<times> dec) list \<Rightarrow> dec" where
  "covered_weight used = sum_list (map (\<lambda>(_, _, wt). wt) used)"

definition weighted :: "(string \<times> dec \<times> dec) list \<Rightarrow> dec" where
  "weighted used = sum_list (map (\<lambda>(_, v, wt). v * wt) used)"

lemma used_of_Cons [simp]:
  "used_of w ((n, v) # sv) = (if usable w (n, v) then (n, num 0 v, num 0 (weight_of w n)) # used_of w sv else used_of w sv)"
  by (simp add: used_of_def)

lemma covered_Cons [simp]:
  "covered_weight ((n, v, wt) # used) = wt + covered_weight used"
  "weighted ((n, v, wt) # used) = v * wt + weighted used"
  by (simp_all add: covered_weight_def weighted_def)

lemma num_Some: "num d (Some x) = x"
  by (simp add: num_def)

lemma usable_pos: "usable w (n, v) \<Longrightarrow> 0 < num 0 (weight_of w n)"
  by (auto simp: usable_def num_def split: option.splits)

lemma weighted_bounds:
  assumes "\<And>n v. (n, Some v) \<in> set sv \<Longrightarrow> lo \<le> v \<and> v \<le> hi"
  shows "lo * covered_weight (used_of w sv) \<le> weighted (used_of w sv)"
    and "weighted (used_of w sv) \<le> hi * covered_weight (used_of w sv)" and "0 \<le> covered_weight (used_of w sv)"
proof -
  have "lo * covered_weight (used_of w sv) \<le> weighted (used_of w sv)
      \<and> weighted (used_of w sv) \<le> hi * covered_weight (used_of w sv) \<and> 0 \<le> covered_weight (used_of w sv)"
    using assms
  proof (induction sv)
    case (Cons nv sv)
    obtain n v where nv: "nv = (n, v)" by (cases nv)
    have IH: "lo * covered_weight (used_of w sv) \<le> weighted (used_of w sv)"
      "weighted (used_of w sv) \<le> hi * covered_weight (used_of w sv)" "0 \<le> covered_weight (used_of w sv)"
      using Cons.IH Cons.prems by auto
    show ?case
    proof (cases "usable w (n, v)")
      case True
      then obtain x where v: "v = Some x" by (auto simp: usable_def)
      have x: "lo \<le> x" "x \<le> hi" using Cons.prems [of n x] by (auto simp: nv v)
      note p = usable_pos [OF True]
      have "lo * num 0 (weight_of w n) \<le> x * num 0 (weight_of w n)" "x * num 0 (weight_of w n) \<le> hi * num 0 (weight_of w n)"
        using x p by (auto intro: mult_right_mono)
      then show ?thesis
        using IH p by (simp add: nv v True covered_Cons num_Some distrib_left add_mono)
    qed (use IH in \<open>simp add: nv\<close>)
  qed (simp add: used_of_def covered_weight_def weighted_def)
  then show "lo * covered_weight (used_of w sv) \<le> weighted (used_of w sv)"
    "weighted (used_of w sv) \<le> hi * covered_weight (used_of w sv)" "0 \<le> covered_weight (used_of w sv)" by auto
qed

lemma standardize_bounds:
  assumes "\<And>x. \<bar>th x\<bar> \<le> 1" "(n, Some v) \<in> set (standardize th comps)"
  shows "- 1 \<le> v \<and> v \<le> 1"
proof -
  have sq: "- 1 \<le> th x \<and> th x \<le> 1" for x using assms(1) [of x] by (simp add: abs_le_iff)
  have "\<exists>x. v = clamp (- 1) 1 x \<or> v = th x"
    using assms(2) by (auto simp: standardize_def squash_def split: option.splits if_splits)
  then obtain x where "v = clamp (- 1) 1 x \<or> v = th x" ..
  then show ?thesis using sq [of x] clamp_bounds [of "-1" 1 x] by auto
qed

lemma blend_eq:
  "blend th comps ows mc trusted ma = (let w = blend_weights ows; used = used_of w (standardize th comps);
     cw = covered_weight used; covered = (if total_weight w > 0 then cw / total_weight w else 0) in
   if cw \<le> 0 \<or> covered < max 0 mc
   then \<lparr>bd_alpha = 0, bd_confidence = 0, bd_used = fst ` set used,
      bd_dropped = map (\<lambda>nv. (fst nv, drop_reason w nv)) (filter (\<lambda>nv. \<not> usable w nv) (standardize th comps)), bd_covered = round4 covered\<rparr>
   else let raw = weighted used / cw;
            agreement = (if raw = 0 then 0 else max 0 (2 * (covered_weight (filter (\<lambda>(_, v, wt). (v > 0) = (raw > 0)) used) / cw) - 1));
            limit = \<bar>or_num ma MAX_ALPHA_UNTRUSTED\<bar> in
     \<lparr>bd_alpha = (if trusted then raw else clamp (- limit) limit raw), bd_confidence = clamp 0 1 (covered * agreement),
      bd_used = fst ` set used,
      bd_dropped = map (\<lambda>nv. (fst nv, drop_reason w nv)) (filter (\<lambda>nv. \<not> usable w nv) (standardize th comps)), bd_covered = round4 covered\<rparr>)"
  unfolding blend_def blend_weights_def covered_weight_def weighted_def Let_def ..

lemma used_directional:
  "used_of w (standardize th (filter (\<lambda>(n, v). n \<in> set DIRECTIONAL_SIGNALS \<and> v \<noteq> None) comps)) = used_of w (standardize th comps)"
proof (induction comps)
  case (Cons c comps)
  obtain n v where "c = (n, v)" by (cases c)
  then show ?case using Cons by (auto simp: standardize_def usable_def)
qed simp

lemma blend_bounded:
  assumes "\<And>x. \<bar>th x\<bar> \<le> 1"
  shows "\<bar>bd_alpha (blend th comps ows mc trusted ma)\<bar> \<le> 1
    \<and> (\<not> trusted \<longrightarrow> \<bar>bd_alpha (blend th comps ows mc trusted ma)\<bar> \<le> \<bar>or_num ma MAX_ALPHA_UNTRUSTED\<bar>)"
proof -
  define used where "used = used_of (blend_weights ows) (standardize th comps)"
  define cw where "cw = covered_weight used"
  define raw where "raw = weighted used / cw"
  define limit where "limit = \<bar>or_num ma MAX_ALPHA_UNTRUSTED\<bar>"
  have "- 1 * cw \<le> weighted used" "weighted used \<le> 1 * cw"
    unfolding used_def cw_def using weighted_bounds [of "standardize th comps" "-1" 1] standardize_bounds [OF assms] by auto
  then have "\<bar>raw\<bar> \<le> 1" if "0 < cw"
    using that by (simp add: raw_def abs_le_iff pos_divide_le_eq minus_le_iff pos_le_divide_eq)
  moreover have "\<bar>clamp (- limit) limit raw\<bar> \<le> limit \<and> \<bar>clamp (- limit) limit raw\<bar> \<le> \<bar>raw\<bar>"
    by (auto simp: clamp_def limit_def max_def min_def)
  moreover have "bd_alpha (blend th comps ows mc trusted ma) = 0 \<or> 0 < cw \<and>
      bd_alpha (blend th comps ows mc trusted ma) = (if trusted then raw else clamp (- limit) limit raw)"
    unfolding blend_eq Let_def used_def [symmetric] cw_def [symmetric] raw_def [symmetric] limit_def [symmetric]
    by (simp add: not_le)
  ultimately show ?thesis by (auto simp: limit_def)
qed

text \<open>
  A law: the blended signal is bounded and honest. If the squashing function stays in
  \<open>[-1, 1]\<close>, as the hyperbolic tangent does, the blend lies between the smallest and the
  largest component it used, is clamped to the limit until it is trusted, and its confidence is
  a fraction; it leans at all only when enough of the weight was covered; and
  defensive, unknown and missing signals change neither the lean nor the confidence.
\<close>

theorem alpha_sound:
  fixes comps :: "(string \<times> raw) list" and ows :: "(string \<times> raw) list option" and mc :: dec and trusted :: bool and ma :: raw
  assumes th: "\<And>x. \<bar>th x\<bar> \<le> 1"
  defines "B \<equiv> blend th comps ows mc trusted ma" and "w \<equiv> blend_weights ows"
  shows "\<bar>bd_alpha B\<bar> \<le> 1 \<and> (\<not> trusted \<longrightarrow> \<bar>bd_alpha B\<bar> \<le> \<bar>or_num ma MAX_ALPHA_UNTRUSTED\<bar>)
    \<and> 0 \<le> bd_confidence B \<and> bd_confidence B \<le> 1
    \<and> (bd_alpha B \<noteq> 0 \<longrightarrow> 0 < total_weight w \<or> mc \<le> 0)
    \<and> (bd_alpha B \<noteq> 0 \<longrightarrow> 0 < total_weight w \<longrightarrow> mc * total_weight w \<le> covered_weight (used_of w (standardize th comps)))
    \<and> (bd_alpha B > 0 \<longrightarrow> list_ex (\<lambda>(n, v, wt). v > 0) (used_of w (standardize th comps)))
    \<and> (let D = blend th (filter (\<lambda>(n, v). n \<in> set DIRECTIONAL_SIGNALS \<and> v \<noteq> None) comps) ows mc trusted ma in
        bd_alpha D = bd_alpha B \<and> bd_confidence D = bd_confidence B)"
proof -
  define used where "used = used_of w (standardize th comps)"
  define cw where "cw = covered_weight used"
  define covered where "covered = (if total_weight w > 0 then cw / total_weight w else 0)"
  define raw where "raw = weighted used / cw"
  define limit where "limit = \<bar>or_num ma MAX_ALPHA_UNTRUSTED\<bar>"
  have bounds: "- 1 * cw \<le> weighted used" "weighted used \<le> 1 * cw" "0 \<le> cw"
    unfolding used_def cw_def using weighted_bounds [of "standardize th comps" "-1" 1 w] standardize_bounds [OF th] by auto
  have alpha: "bd_alpha B = (if cw \<le> 0 \<or> covered < max 0 mc then 0 else if trusted then raw else clamp (- limit) limit raw)"
    unfolding B_def blend_eq Let_def w_def [symmetric] used_def [symmetric] cw_def [symmetric] covered_def [symmetric]
      raw_def [symmetric] limit_def [symmetric] by simp
  have conf: "0 \<le> bd_confidence B \<and> bd_confidence B \<le> 1"
    using clamp_bounds [of 0 1] by (simp add: B_def blend_eq Let_def)
  have up: "list_ex (\<lambda>(n, v, wt). v > 0) used" if "raw > 0" "0 < cw"
  proof (rule ccontr)
    assume "\<not> list_ex (\<lambda>(n, v, wt). v > 0) used"
    then have "v * wt \<le> 0" if "(n, v, wt) \<in> set used" for n v wt
      using that usable_pos by (force simp: list_ex_iff used_def used_of_def intro: mult_nonpos_nonneg)
    then have "weighted used \<le> 0" unfolding weighted_def by (intro sum_list_nonpos) auto
    then show False using that by (simp add: raw_def zero_less_divide_iff)
  qed
  have dir: "bd_alpha (blend th (filter (\<lambda>(n, v). n \<in> set DIRECTIONAL_SIGNALS \<and> v \<noteq> None) comps) ows mc trusted ma) = bd_alpha B
      \<and> bd_confidence (blend th (filter (\<lambda>(n, v). n \<in> set DIRECTIONAL_SIGNALS \<and> v \<noteq> None) comps) ows mc trusted ma) = bd_confidence B"
    unfolding B_def blend_eq used_directional Let_def by (simp del: not_None_eq)
  have pos: "0 < clamp (- limit) limit raw \<Longrightarrow> 0 < raw" by (auto simp: clamp_def limit_def max_def min_def split: if_splits)
  have lean: "\<bar>bd_alpha B\<bar> \<le> 1 \<and> (\<not> trusted \<longrightarrow> \<bar>bd_alpha B\<bar> \<le> limit)"
    unfolding B_def limit_def by (rule blend_bounded [OF th])
  have gated: "0 < cw \<and> max 0 mc \<le> covered" if "bd_alpha B \<noteq> 0"
    using that by (simp only: alpha split: if_splits) (simp_all add: not_le not_less)
  have side: "list_ex (\<lambda>(n, v, wt). v > 0) used" if "bd_alpha B > 0"
    using that gated by (intro up) (auto simp: alpha intro: pos split: if_splits)
  have share: "mc * total_weight w \<le> cw" if "bd_alpha B \<noteq> 0" "0 < total_weight w"
    using gated [OF that(1)] that(2) by (simp add: covered_def pos_le_divide_eq)
  have known: "0 < total_weight w \<or> mc \<le> 0" if "bd_alpha B \<noteq> 0"
    using gated [OF that] by (auto simp: covered_def split: if_splits)
  show ?thesis
    unfolding Let_def limit_def [symmetric] used_def [symmetric] cw_def [symmetric]
    using conf dir lean side share known by blast
qed

theorem alpha_sound_witness:
  "\<bar>bd_alpha (blend (clamp (- 1) 1) [(''obi'', Some (9 / 10)), (''ofi'', Some 3), (''rsi'', Some 5)] None (1 / 5) False None)\<bar>
     \<le> \<bar>or_num None MAX_ALPHA_UNTRUSTED\<bar>"
proof -
  have "\<bar>clamp (- 1) 1 x\<bar> \<le> 1" for x using clamp_bounds [of "-1" 1 x] by (simp add: abs_le_iff)
  from alpha_sound [of "clamp (- 1) 1" "[(''obi'', Some (9 / 10)), (''ofi'', Some 3), (''rsi'', Some 5)]" None "1 / 5" False None, OF this]
  show ?thesis by blast
qed

subsection \<open>Reading a book\<close>

lemma clean_pos: "(p, s) \<in> set (clean_levels lv) \<Longrightarrow> 0 < p \<and> 0 < s"
  by (auto simp: clean_levels_def)

lemma side_size_pos:
  assumes "\<And>p s. (p, s) \<in> set lv \<Longrightarrow> 0 < s" "lv \<noteq> []" "0 < n"
  shows "0 < side_size n lv"
proof -
  obtain p s ls where lv: "lv = (p, s) # ls" using assms(2) by (cases lv) auto
  obtain m where n: "n = Suc m" using assms(3) by (cases n) auto
  have "0 \<le> side_size m ls" unfolding side_size_def
    using assms(1) by (intro sum_list_nonneg) (force simp: lv dest: in_set_takeD)
  then show ?thesis using assms(1) [of p s] by (simp add: side_size_def lv n)
qed

lemma l1_sizes:
  assumes "l1 b = Some (bid, s, ask, t)" "0 < n"
  shows "0 < side_size n (bids_of b)" "0 < side_size n (asks_of b)" "0 < bid" "0 < ask"
proof -
  obtain bs as' where bs: "bids_of b = (bid, s) # bs" "asks_of b = (ask, t) # as'"
    using assms(1) by (auto simp: l1_def split: list.splits)
  have "0 < s'" if "(p, s') \<in> set (bids_of b) \<or> (p, s') \<in> set (asks_of b)" for p s'
    using that by (auto simp: bids_of_def asks_of_def dest: clean_pos)
  then show "0 < side_size n (bids_of b)" "0 < side_size n (asks_of b)"
    using bs assms(2) side_size_pos [of "bids_of b" n] side_size_pos [of "asks_of b" n] by (metis list.discI)+
  show "0 < bid" "0 < ask" using clean_pos [of bid s "sb_bids b"] clean_pos [of ask t "sb_asks b"] bs
    by (auto simp: bids_of_def asks_of_def)
qed

definition weighted_mid :: "dec \<Rightarrow> dec \<Rightarrow> dec \<Rightarrow> dec \<Rightarrow> dec" where
  "weighted_mid bid ask x y = (bid * y + ask * x) / (x + y)"

lemma weighted_mid_laws:
  assumes "0 < x" "0 < y"
  shows "weighted_mid bid ask x y - (bid + ask) / 2 = (x - y) / (x + y) * ((ask - bid) / 2)"
    and "bid \<le> ask \<Longrightarrow> bid \<le> weighted_mid bid ask x y \<and> weighted_mid bid ask x y \<le> ask"
    and "\<bar>(x - y) / (x + y)\<bar> < 1"
proof -
  have xy: "x + y \<noteq> 0" "0 < x + y" using assms by auto
  show "weighted_mid bid ask x y - (bid + ask) / 2 = (x - y) / (x + y) * ((ask - bid) / 2)"
    using xy(1) by (simp add: weighted_mid_def field_simps)
  show "bid \<le> weighted_mid bid ask x y \<and> weighted_mid bid ask x y \<le> ask" if "bid \<le> ask"
    using xy mult_right_mono [OF that, of x] mult_right_mono [OF that, of y] assms
    by (simp add: weighted_mid_def pos_le_divide_eq pos_divide_le_eq distrib_left mult.commute)
  show "\<bar>(x - y) / (x + y)\<bar> < 1" using assms by (simp add: abs_less_iff pos_divide_less_eq minus_less_iff pos_less_divide_eq)
qed

text \<open>
  A law: the microstructure readings are defined exactly when both sides of the book hold
  a clean level, and then agree with one another: the imbalance of any depth is strictly
  between minus one and one, the microprice sits off the mid by exactly the imbalance of that depth
  times the half-spread, and on an uncrossed book it stays between the touches.
\<close>

theorem book_readings_agree:
  "case l1 b of
     None \<Rightarrow> ms_mid b = None \<and> microprice b k = None \<and> obi b k = None \<and> spread_bp b = None \<and> (\<forall>buy q. slippage_bp b buy q = None)
   | Some (bid, s, ask, t) \<Rightarrow> (\<exists>m i. ms_mid b = Some ((bid + ask) / 2) \<and> microprice b k = Some m \<and> obi b k = Some i
       \<and> spread_bp b = Some ((ask - bid) / ((bid + ask) / 2) * 10000)
       \<and> \<bar>i\<bar> < 1 \<and> m - (bid + ask) / 2 = i * ((ask - bid) / 2) \<and> (bid \<le> ask \<longrightarrow> bid \<le> m \<and> m \<le> ask))"
proof (cases "l1 b")
  case None
  then show ?thesis by (simp add: ms_mid_def microprice_def obi_def spread_bp_def slippage_bp_def)
next
  case (Some q)
  obtain bid s ask t where q: "l1 b = Some (bid, s, ask, t)" using Some by (cases q) auto
  define n where "n = nat (max 1 k)"
  define x y where "x = side_size n (bids_of b)" and "y = side_size n (asks_of b)"
  have xy: "0 < x" "0 < y" "0 < bid" "0 < ask" using l1_sizes [OF q, of n] by (auto simp: x_def y_def n_def)
  have "microprice b k = Some (weighted_mid bid ask x y)" "obi b k = Some ((x - y) / (x + y))"
    using xy by (simp_all add: microprice_def obi_def q weighted_mid_def Let_def n_def [symmetric] x_def [symmetric] y_def [symmetric])
  moreover have "ms_mid b = Some ((bid + ask) / 2)" "spread_bp b = Some ((ask - bid) / ((bid + ask) / 2) * 10000)"
    using xy by (simp_all add: q ms_mid_def spread_bp_def Let_def)
  ultimately show ?thesis
    using weighted_mid_laws(1,2) [OF xy(1,2), of bid ask] weighted_mid_laws(3) [OF xy(1,2)]
    unfolding q option.case prod.case by blast
qed

theorem book_readings_agree_witness:
  "microprice \<lparr>sb_bids = [(Some 99, Some 3), (None, Some 1)], sb_asks = [(Some 101, Some 1)]\<rparr> 5 = Some (201 / 2)"
proof -
  define b where "b = \<lparr>sb_bids = [(Some 99, Some 3), (None, Some 1)], sb_asks = [(Some 101, Some (1 :: rat))]\<rparr>"
  have q: "l1 b = Some (99, 3, 101, 1)" "obi b 5 = Some (1 / 2)"
    by (simp_all add: b_def l1_def obi_def bids_of_def asks_of_def clean_levels_def map_filter_simps side_size_def eval_nat_numeral)
  from book_readings_agree [of b 5] show ?thesis by (auto simp: q b_def [symmetric])
qed

text \<open>Walking the book for a notional above the tolerance succeeds exactly when the side holds it.\<close>

lemma walk_vwap_fills:
  assumes "\<And>p s. (p, s) \<in> set lv \<Longrightarrow> 0 < p \<and> 0 < s" "0 < r" "0 \<le> base" "1 / 10 ^ 12 < r"
  shows "walk_vwap lv r base spent \<noteq> None \<longleftrightarrow> lv \<noteq> [] \<and> r - sum_list (map (\<lambda>(p, s). p * s) lv) \<le> 1 / 10 ^ 12"
  using assms
proof (induction lv arbitrary: r base spent)
  case (Cons ps lv)
  obtain p s where ps: "ps = (p, s)" by (cases ps)
  have pos: "0 < p" "0 < s" using Cons.prems(1) [of p s] by (auto simp: ps)
  define t where "t = min r (p * s)"
  have t: "0 < t" "t \<le> r" "t \<le> p * s" using pos Cons.prems by (auto simp: t_def)
  have d: "0 < t / p" using t pos by simp
  have rest: "0 \<le> sum_list (map (\<lambda>(p, s). p * s) lv)"
    using Cons.prems(1) by (intro sum_list_nonneg) force
  show ?case
  proof (cases "r - t \<le> 1 / 10 ^ 12")
    case True
    then show ?thesis using d Cons.prems(3) rest t by (simp add: ps t_def [symmetric] Let_def)
  next
    case False
    then have tp: "t = p * s" using Cons.prems(4) by (auto simp: t_def min_def split: if_splits)
    have "walk_vwap lv (r - t) (base + t / p) (spent + t) \<noteq> None
        \<longleftrightarrow> lv \<noteq> [] \<and> r - t - sum_list (map (\<lambda>(p, s). p * s) lv) \<le> 1 / 10 ^ 12"
      using Cons.prems False d t by (intro Cons.IH) (auto simp: not_le)
    then show ?thesis using False by (cases "lv = []") (auto simp: ps t_def [symmetric] Let_def tp)
  qed
qed simp

end
