(* ===== verification/Market_Making.thy ===== *)
theory Market_Making
  imports Registry_Laws Mm_Pricing
begin

text \<open>
  The market-making controller, from \<open>engine/controllers/market_making.py\<close>: it quotes a ladder
  on each side of a reference price, one order executor per level, and keeps, moves or cancels
  each resting quote on every tick.

  The attributes the constructor fixes are the record \<open>mm_par\<close>, computed from the \<open>configs\<close>
  entries by \<open>parse_mm\<close>; those that change are fields of \<open>mm_ctl\<close>, an entry of the
  orchestrator's registry of controllers. An entry of \<open>configs\<close> is \<open>None\<close> where its key is
  missing, and a flag is already read as a boolean. The adapter calls that only this
  controller makes and the injected providers of signals, mark-outs and levels are parameters
  in \<open>mm_env\<close>, as is \<open>math.tanh\<close>; log lines are left out, and with them the digest of the book
  and the description of the plan that decide only whether to log.
\<close>

subsection \<open>Configuration\<close>

record mm_cfg =
  mc_pair :: string
  mc_spread_bid :: "dec option"
  mc_spread_ask :: "dec option"
  mc_amount :: "dec option"
  mc_tolerance :: "dec option"
  mc_max_base :: "dec option"
  mc_min_base :: "dec option"
  mc_protect :: bool
  mc_auto :: bool
  mc_auto_k :: "dec option"
  mc_floor :: "dec option"
  mc_cap :: "dec option"
  mc_bias :: raw
  mc_mode :: "string option"
  mc_levels :: "raw option"
  mc_step_bp :: "dec option"
  mc_curve :: "string option"
  mc_min_life :: "dec option"
  mc_micro :: bool
  mc_profile :: bool
  mc_objective :: string
  mc_fee_bp :: "dec option"
  mc_min_edge :: "dec option"
  mc_skew :: bool
  mc_gamma :: "dec option"
  mc_alpha :: bool
  mc_alpha_max :: "dec option"
  mc_alpha_strength :: "dec option"
  mc_degraded_mult :: "dec option"
  mc_stp :: bool
  mc_fuse :: bool
  mc_leverage :: "raw option"
  mc_level_weights :: bool
  mc_level_tol :: "dec option"
  mc_level_boost :: "dec option"
  mc_policy :: bool
  mc_exec_mode :: "string option"
  mc_max_life :: "dec option"
  mc_soft :: "dec option"
  mc_hard :: "dec option"
  mc_budget :: "dec option"
  mc_used :: "dec option"
  mc_recycle :: bool
  mc_anchor_mode :: "string option"
  mc_drift :: "dec option"
  mc_floor_pct :: "dec option"
  mc_gate :: bool
  mc_provider :: bool
  mc_confirm :: "int option"
  mc_cap_pct :: "dec option"
  mc_margin :: "dec option"
  mc_resume_frac :: "dec option"
  mc_suppress :: bool

record mm_par =
  mp_pair :: string
  mp_amount :: dec
  mp_tolerance :: dec
  mp_max_base :: "dec option"
  mp_min_base :: "dec option"
  mp_protect :: bool
  mp_auto :: bool
  mp_auto_k :: dec
  mp_cap :: dec
  mp_bias :: dec
  mp_touch :: bool
  mp_levels :: int
  mp_step_bp :: dec
  mp_curve :: string
  mp_min_life :: dec
  mp_micro :: bool
  mp_profile :: bool
  mp_objective :: string
  mp_fee_bp :: dec
  mp_min_edge :: dec
  mp_skew :: bool
  mp_gamma :: dec
  mp_alpha :: bool
  mp_alpha_max :: dec
  mp_alpha_strength :: dec
  mp_degraded_mult :: dec
  mp_stp :: bool
  mp_fuse :: bool
  mp_leverage :: int
  mp_level_weights :: bool
  mp_level_tol :: dec
  mp_level_boost :: dec
  mp_policy :: bool
  mp_exec_mode :: string
  mp_max_life :: dec
  mp_soft :: dec
  mp_hard :: dec
  mp_budget :: dec
  mp_recycle :: bool
  mp_static :: bool
  mp_drift :: dec
  mp_floor_pct :: dec
  mp_cfg :: mm_cfg

definition AUTO_LADDER_STEP_FLOOR_BP :: dec where "AUTO_LADDER_STEP_FLOOR_BP = 1"
definition BIAS_SKEW_STRENGTH :: dec where "BIAS_SKEW_STRENGTH = 2 / 10"

definition safe_levels :: "raw \<Rightarrow> int" where
  "safe_levels v = (case v of None \<Rightarrow> 1 | Some x \<Rightarrow> max 1 (trunc_dec x))"

definition safe_bias :: "raw \<Rightarrow> dec" where
  "safe_bias v = (case v of None \<Rightarrow> 0 | Some b \<Rightarrow> clamp (- 1) 1 b)"

text \<open>\<open>str(cfg or d).lower()\<close>.\<close>

definition text_or :: "string option \<Rightarrow> string \<Rightarrow> string" where
  "text_or v d = lower_str (or_str v d)"

definition parse_mm :: "mm_cfg \<Rightarrow> mm_par" where
  "parse_mm c = \<lparr>mp_pair = mc_pair c, mp_amount = or_else (mc_amount c) 10,
     mp_tolerance = or_else (mc_tolerance c) (5 / 10000), mp_max_base = mc_max_base c, mp_min_base = mc_min_base c,
     mp_protect = mc_protect c, mp_auto = mc_auto c, mp_auto_k = or_else (mc_auto_k c) (3 / 2),
     mp_cap = or_else (mc_cap c) (5 / 1000), mp_bias = safe_bias (mc_bias c),
     mp_touch = (text_or (mc_mode c) ''mid'' = ''touch''), mp_levels = safe_levels (or_else (mc_levels c) (Some 1)),
     mp_step_bp = or_dec (mc_step_bp c) 0, mp_curve = text_or (mc_curve c) ''flat'', mp_min_life = or_dec (mc_min_life c) 0,
     mp_micro = mc_micro c, mp_profile = mc_profile c, mp_objective = normalize_objective (mc_objective c),
     mp_fee_bp = or_dec (mc_fee_bp c) 0, mp_min_edge = or_dec (mc_min_edge c) 1, mp_skew = mc_skew c,
     mp_gamma = or_dec (mc_gamma c) (1 / 10), mp_alpha = mc_alpha c, mp_alpha_max = or_dec (mc_alpha_max c) (35 / 100),
     mp_alpha_strength = or_dec (mc_alpha_strength c) (1 / 2), mp_degraded_mult = or_dec (mc_degraded_mult c) (125 / 100),
     mp_stp = mc_stp c, mp_fuse = mc_fuse c,
     mp_leverage = (case or_else (mc_leverage c) (Some 1) of None \<Rightarrow> 1 | Some x \<Rightarrow> trunc_dec (if x = 0 then 1 else x)),
     mp_level_weights = mc_level_weights c, mp_level_tol = or_dec (mc_level_tol c) 25,
     mp_level_boost = or_dec (mc_level_boost c) (3 / 2), mp_policy = mc_policy c,
     mp_exec_mode = normalize_mid_mode (or_else (mc_exec_mode c) ''normal''), mp_max_life = or_dec (mc_max_life c) 0,
     mp_soft = or_dec (mc_soft c) 0, mp_hard = or_dec (mc_hard c) 0, mp_budget = or_dec (mc_budget c) 0,
     mp_recycle = mc_recycle c, mp_static = (text_or (mc_anchor_mode c) ''drift'' = ''static''),
     mp_drift = min 1 (max 0 (or_else (mc_drift c) (2 / 100))), mp_floor_pct = max 0 (or_else (mc_floor_pct c) (2 / 100)),
     mp_cfg = c\<rparr>"

subsection \<open>State\<close>

record quote_slot =
  qs_ex :: "string option"
  qs_price :: "dec option"
  qs_size :: dec
  qs_placed :: time

definition empty_slot :: quote_slot where
  "empty_slot = \<lparr>qs_ex = None, qs_price = None, qs_size = 0, qs_placed = 0\<rparr>"

type_synonym slot_key = "bool \<times> nat"

record micro_view =
  mv_microprice :: "dec option"
  mv_mid :: "dec option"
  mv_spread :: "dec option"
  mv_obi :: "(int \<times> dec option) list"
  mv_bid_depth :: dec
  mv_ask_depth :: dec
  mv_levels :: "nat \<times> nat"
  mv_displacement :: "dec option"
  mv_targets :: "dec \<times> dec"

record mm_ctl = controller +
  mq_par :: mm_par
  mq_has_inv :: bool
  mq_bid_pct :: dec
  mq_ask_pct :: dec
  mq_floor :: dec
  mq_profile :: string
  mq_resolved :: bool
  mq_res_bp :: dec
  mq_alpha :: dec
  mq_conf :: dec
  mq_alpha_bp :: dec
  mq_degraded :: bool
  mq_widen :: dec
  mq_stp_blocks :: nat
  mq_replaced :: nat
  mq_sr :: "raw list option \<times> raw list option"
  mq_touch :: "(dec \<times> dec) option"
  mq_slots :: "(slot_key \<times> quote_slot) list"
  mq_inv_state :: string
  mq_used :: dec
  mq_stop :: string
  mq_anchor :: "dec option"
  mq_floor_price :: "dec option"
  mq_micro :: "micro_view option"
  mq_gate :: gate
  mq_exposure :: exposure_state
  mq_uid :: nat

definition mk_mm_ctl :: "string \<Rightarrow> int \<Rightarrow> bool \<Rightarrow> mm_cfg \<Rightarrow> mm_ctl" where
  "mk_mm_ctl cid user has_inv c = (let fl = or_else (mc_floor c) (15 / 100000) in
     controller.extend (mk_controller cid user ''market_making'')
     \<lparr>mq_par = parse_mm c, mq_has_inv = has_inv,
      mq_bid_pct = max (or_else (mc_spread_bid c) (1 / 1000)) fl, mq_ask_pct = max (or_else (mc_spread_ask c) (1 / 1000)) fl,
      mq_floor = fl, mq_profile = [], mq_resolved = False, mq_res_bp = 0, mq_alpha = 0, mq_conf = 0, mq_alpha_bp = 0,
      mq_degraded = False, mq_widen = 1, mq_stp_blocks = 0, mq_replaced = 0, mq_sr = (None, None), mq_touch = None,
      mq_slots = [], mq_inv_state = ''neutral'', mq_used = max 0 (or_dec (mc_used c) 0), mq_stop = [], mq_anchor = None,
      mq_floor_price = None, mq_micro = None, mq_gate = fresh_gate, mq_exposure = \<lparr>xs_capped = False, xs_net_quote = 0\<rparr>,
      mq_uid = 0\<rparr>)"

type_synonym ('v, 'k) mm_orch = "('v, 'k, unit mm_ctl_ext) orch"
type_synonym ('v, 'k, 'a) mprog = "('v, 'k, unit mm_ctl_ext, 'a) oprog"

text \<open>What the signal provider returns, when it returns a dictionary.\<close>

record signal =
  sg_supported :: bool
  sg_components :: "(string \<times> raw) list"
  sg_weights :: "(string \<times> raw) list option"
  sg_trusted :: bool

record ('v, 'k) mm_env = "('v, 'k) ctl_env" +
  me_book :: "string \<Rightarrow> ('v, dec option \<times> dec option) prog"
  me_depth :: "string \<Rightarrow> ('v, sized_book) prog"
  me_tick :: "string \<Rightarrow> 'v \<Rightarrow> exc + dec"
  me_min_notional :: "string \<Rightarrow> 'v \<Rightarrow> exc + dec"
  me_fuse :: "string \<Rightarrow> string \<Rightarrow> trade_type \<Rightarrow> order_type \<Rightarrow> dec \<Rightarrow> dec \<Rightarrow> int \<Rightarrow> ('v, nado_order option) prog"
  me_forget :: "string \<Rightarrow> ('v, unit) prog"
  me_signal :: "(string \<Rightarrow> dec \<Rightarrow> ('v, signal option) prog) option"
  me_markout :: "(dec \<Rightarrow> ('v, dec) prog) option"
  me_sr :: "('v, (raw list option \<times> raw list option) option) prog option"
  me_tanh :: "dec \<Rightarrow> dec"
  me_clock :: "'v \<Rightarrow> time"
  me_hold_max :: time

definition slot_at :: "slot_key \<Rightarrow> mm_ctl \<Rightarrow> quote_slot" where
  "slot_at k g = (case map_of (mq_slots g) k of None \<Rightarrow> empty_slot | Some s \<Rightarrow> s)"

definition put_slot :: "slot_key \<Rightarrow> quote_slot \<Rightarrow> mm_ctl \<Rightarrow> mm_ctl" where
  "put_slot k s g = g\<lparr>mq_slots := od_set k s (mq_slots g)\<rparr>"

definition ensure_slot :: "slot_key \<Rightarrow> mm_ctl \<Rightarrow> mm_ctl" where
  "ensure_slot k g = put_slot k (slot_at k g) g"

definition live_quote_ids :: "mm_ctl \<Rightarrow> string list" where
  "live_quote_ids g = List.map_filter (\<lambda>(k, s). qs_ex s) (mq_slots g)"

definition or_zero :: "exc + dec \<Rightarrow> dec" where
  "or_zero r = (case r of Inl c \<Rightarrow> 0 | Inr x \<Rightarrow> x)"

definition ctl_venue :: "('v, 'k, 'c, 'v) oprog" where
  "ctl_venue = getsP (\<lambda>s. env_venue (or_env s))"

definition tick_of :: "('v, 'k) mm_env \<Rightarrow> mm_ctl \<Rightarrow> 'v \<Rightarrow> dec" where
  "tick_of ve g v = or_zero (me_tick ve (mp_pair (mq_par g)) v)"

text \<open>\<open>try: await p except Exception: None\<close>.\<close>

definition attempt :: "('v, 'a) prog \<Rightarrow> ('v, 'k, 'c, 'a option) oprog" where
  "attempt p = tryP (bindP (on_venue p) (\<lambda>a. ret (Some a))) (\<lambda>_. ret None)"

definition mm_hold :: "string \<Rightarrow> ('v, 'k, position_hold option) mprog" where
  "mm_hold cid = ask_ctl cid None (\<lambda>g. if mq_has_inv g
     then bindP (read_hold (ct_user g) (mp_pair (mq_par g)) cid) (\<lambda>h. ret (Some h)) else ret None)"

definition hold_value :: "position_hold option \<Rightarrow> dec \<Rightarrow> dec" where
  "hold_value h mid = (case h of None \<Rightarrow> 0 | Some x \<Rightarrow> net_amount_base x * mid)"

definition base_value :: "string \<Rightarrow> dec \<Rightarrow> ('v, 'k, dec) mprog" where
  "base_value cid mid = bindP (mm_hold cid) (\<lambda>h. ret (hold_value h mid))"

subsection \<open>Pricing\<close>

definition touch_quotes :: "dec \<Rightarrow> dec \<Rightarrow> dec \<Rightarrow> dec \<times> dec" where
  "touch_quotes tick bid ask = (let
     (b, a) = (if tick > 0 \<and> ask - bid \<ge> tick * 2 then (bid + tick, ask - tick) else (bid, ask)) in
   if b \<ge> a then (bid, ask) else (b, a))"

definition touch_targets :: "('v, 'k) mm_env \<Rightarrow> string \<Rightarrow> ('v, 'k, (dec \<times> dec \<times> dec) option) mprog" where
  "touch_targets ve cid = thenP (upd_ctl cid (\<lambda>g. g\<lparr>mq_touch := None\<rparr>)) (ask_ctl cid None (\<lambda>g.
     bindP (attempt (me_book ve (mp_pair (mq_par g)))) (\<lambda>b. case b of
       Some (Some bid, Some ask) \<Rightarrow>
         if bid \<le> 0 \<or> ask \<le> 0 \<or> bid \<ge> ask then ret None
         else bindP ctl_venue (\<lambda>v. thenP (upd_ctl cid (\<lambda>g. g\<lparr>mq_touch := Some (bid, ask)\<rparr>))
           (ret (case touch_quotes (tick_of ve g v) bid ask of (tb, ta) \<Rightarrow> Some (tb, ta, (bid + ask) / 2))))
     | _ \<Rightarrow> ret None)))"

definition effective_spreads :: "mm_ctl \<Rightarrow> dec \<times> dec" where
  "effective_spreads g = (let bias = mp_bias (mq_par g) in
     if bias = 0 then (mq_bid_pct g, mq_ask_pct g)
     else let skew = bias * BIAS_SKEW_STRENGTH in
       (max (mq_floor g) (mq_bid_pct g * (1 - skew)), max (mq_floor g) (mq_ask_pct g * (1 + skew))))"

definition touch_spread_bp :: "dec \<times> dec \<Rightarrow> dec" where
  "touch_spread_bp t = (case t of (bid, ask) \<Rightarrow> (ask - bid) / ((bid + ask) / 2) * 10000)"

definition observed_spread_bp :: "('v, 'k) mm_env \<Rightarrow> string \<Rightarrow> ('v, 'k, dec option) mprog" where
  "observed_spread_bp ve cid = ask_ctl cid None (\<lambda>g. case mq_touch g of
     Some t \<Rightarrow> ret (Some (touch_spread_bp t))
   | None \<Rightarrow> bindP (attempt (me_depth ve (mp_pair (mq_par g)))) (\<lambda>b. ret (case b of None \<Rightarrow> None | Some book \<Rightarrow> spread_bp book)))"

definition fee_or_none :: "dec \<Rightarrow> raw" where
  "fee_or_none fee = (if fee = 0 then None else Some fee)"

definition apply_profile :: "dec option \<Rightarrow> mm_ctl \<Rightarrow> mm_ctl" where
  "apply_profile sp g = (let p = mq_par g; fee = fee_or_none (mp_fee_bp p);
     prof = resolve_profile (mp_objective p) sp fee (Some DEFAULT_SPREAD_MARGIN);
     g = g\<lparr>mq_resolved := True, mq_profile := prof\<rparr> in
   if prof \<noteq> ''spread'' then g
   else let fl = half_spread_floor_bp fee (Some (mp_min_edge p)) None / 10000 in
     if fl > mq_floor g
     then g\<lparr>mq_floor := fl, mq_bid_pct := max (mq_bid_pct g) fl, mq_ask_pct := max (mq_ask_pct g) fl\<rparr> else g)"

definition resolve_profile_once :: "('v, 'k) mm_env \<Rightarrow> string \<Rightarrow> ('v, 'k, unit) mprog" where
  "resolve_profile_once ve cid = with_ctl cid (\<lambda>g. if \<not> mp_profile (mq_par g) \<or> mq_resolved g then ret ()
     else bindP (observed_spread_bp ve cid) (\<lambda>sp.
       if sp = None \<and> mp_objective (mq_par g) = ''auto'' then ret () else upd_ctl cid (apply_profile sp)))"

definition inventory_ratio :: "mm_ctl \<Rightarrow> dec \<Rightarrow> dec" where
  "inventory_ratio g base = (let m = or_dec (mp_max_base (mq_par g)) 0;
     cap = (if m > 0 then m else mp_amount (mq_par g)) in
   if cap \<le> 0 then 0 else base / cap)"

definition half_bp :: "mm_ctl \<Rightarrow> dec" where
  "half_bp g = (mq_bid_pct g + mq_ask_pct g) / 2 * 10000"

definition anchor_shift :: "dec \<Rightarrow> dec \<Rightarrow> dec" where
  "anchor_shift half shift = clamp (- (half * (1 / 2))) (half * (1 / 2)) shift"

definition reservation_price :: "dec \<Rightarrow> dec \<Rightarrow> mm_ctl \<Rightarrow> dec \<times> mm_ctl" where
  "reservation_price mid base g0 = (let g = g0\<lparr>mq_res_bp := 0, mq_alpha_bp := 0\<rparr>; p = mq_par g in
     if mid \<le> 0 then (mid, g)
     else let h = half_bp g;
       r = (if mp_skew p then reservation_offset_bp (Some (inventory_ratio g base)) (Some (gt_atr (mq_gate g) * 10000))
              (Some h) (Some (mp_gamma p)) (Some (1 / 2)) else 0);
       a = (if mp_alpha p \<and> mq_alpha g \<noteq> 0
            then anchor_offset_bp (Some (mq_alpha g)) (Some h) (Some (mp_alpha_strength p)) (Some (1 / 2)) else 0);
       g = g\<lparr>mq_res_bp := r, mq_alpha_bp := a\<rparr> in
     if r + a = 0 then (mid, g) else (mid * (1 + anchor_shift h (r + a) / 10000), g))"

definition positive :: "dec option \<Rightarrow> dec option" where
  "positive x = (case x of None \<Rightarrow> None | Some v \<Rightarrow> if v > 0 then Some v else None)"

definition recycle_theta :: "dec \<Rightarrow> mm_ctl \<Rightarrow> dec \<times> mm_ctl" where
  "recycle_theta mid g0 = (let g = g0\<lparr>mq_res_bp := 0, mq_alpha_bp := 0\<rparr>; p = mq_par g in
     if mid \<le> 0 then (case positive (mq_anchor g) of None \<Rightarrow> mid | Some a \<Rightarrow> a, g)
     else let anchor = (case positive (mq_anchor g) of None \<Rightarrow> mid
            | Some a \<Rightarrow> if \<not> mp_static p \<and> mp_drift p > 0 then a + mp_drift p * (mid - a) else a);
          flr = (if 0 < mp_floor_pct p \<and> mp_floor_pct p < 1 then Some (anchor * (1 - mp_floor_pct p)) else None)
      in (anchor, g\<lparr>mq_anchor := Some anchor, mq_floor_price := flr\<rparr>))"

definition quote_anchor :: "dec \<Rightarrow> dec \<Rightarrow> mm_ctl \<Rightarrow> dec \<times> mm_ctl" where
  "quote_anchor mid base g = (if mp_recycle (mq_par g) then recycle_theta mid g else reservation_price mid base g)"

definition auto_spread :: "mm_ctl \<Rightarrow> mm_ctl" where
  "auto_spread g = (let p = mq_par g; atr = gt_atr (mq_gate g) in
     if mp_auto p \<and> atr > 0
     then let h = max (mq_floor g) (min (atr * mp_auto_k p / 2) (mp_cap p)) in g\<lparr>mq_bid_pct := h, mq_ask_pct := h\<rparr>
     else g)"

definition defensive_mult :: "mm_ctl \<Rightarrow> dec" where
  "defensive_mult g = (if mp_alpha (mq_par g) \<and> mq_degraded g then mq_widen g * mp_degraded_mult (mq_par g) else mq_widen g)"

text \<open>The spread each side is quoted at, and the two targets around the anchor.\<close>

definition quoted_spreads :: "dec \<times> dec \<Rightarrow> mm_ctl \<Rightarrow> dec \<times> dec" where
  "quoted_spreads sm g = (case effective_spreads g of (b, a) \<Rightarrow>
     (b * defensive_mult g * fst sm, a * defensive_mult g * snd sm))"

definition mm_targets :: "dec \<Rightarrow> dec \<Rightarrow> dec \<times> dec \<Rightarrow> mm_ctl \<Rightarrow> (dec \<times> dec) \<times> mm_ctl" where
  "mm_targets mid base sm g = (case quoted_spreads sm g of (b, a) \<Rightarrow>
     (case quote_anchor mid base g of (theta, g') \<Rightarrow> ((theta * (1 - b), theta * (1 + a)), g')))"

subsection \<open>Signals, mark-out and levels\<close>

definition no_alpha :: "bool \<Rightarrow> mm_ctl \<Rightarrow> mm_ctl" where
  "no_alpha degraded g = g\<lparr>mq_degraded := degraded, mq_alpha := 0, mq_conf := 0\<rparr>"

definition absorb_signal :: "(dec \<Rightarrow> dec) \<Rightarrow> signal option \<Rightarrow> mm_ctl \<Rightarrow> mm_ctl" where
  "absorb_signal th payload g = (case payload of None \<Rightarrow> no_alpha True g
     | Some s \<Rightarrow> if \<not> sg_supported s then no_alpha False g
        else if sg_components s = [] then no_alpha True g
        else let out = blend th (sg_components s) (sg_weights s) (1 / 2) (sg_trusted s) (Some (mp_alpha_max (mq_par g))) in
          g\<lparr>mq_degraded := False, mq_alpha := bd_alpha out, mq_conf := bd_confidence out\<rparr>)"

definition refresh_alpha :: "('v, 'k) mm_env \<Rightarrow> string \<Rightarrow> dec \<Rightarrow> ('v, 'k, unit) mprog" where
  "refresh_alpha ve cid mid = with_ctl cid (\<lambda>g. if \<not> mp_alpha (mq_par g) then ret ()
     else bindP (case me_signal ve of None \<Rightarrow> ret None | Some f \<Rightarrow> attempt (f (mp_pair (mq_par g)) mid)) (\<lambda>r.
       upd_ctl cid (absorb_signal (me_tanh ve) (case r of None \<Rightarrow> None | Some p \<Rightarrow> p))))"

definition refresh_widen :: "('v, 'k) mm_env \<Rightarrow> string \<Rightarrow> ('v, 'k, unit) mprog" where
  "refresh_widen ve cid = thenP (upd_ctl cid (\<lambda>g. g\<lparr>mq_widen := 1\<rparr>)) (with_ctl cid (\<lambda>g.
     case me_markout ve of None \<Rightarrow> ret ()
     | Some f \<Rightarrow> if \<not> mp_alpha (mq_par g) then ret ()
        else bindP (attempt (f (half_bp g))) (\<lambda>r. case r of None \<Rightarrow> ret ()
          | Some factor \<Rightarrow> upd_ctl cid (\<lambda>g. g\<lparr>mq_widen := max 1 (min 3 factor)\<rparr>))))"

definition refresh_levels :: "('v, 'k) mm_env \<Rightarrow> string \<Rightarrow> ('v, 'k, unit) mprog" where
  "refresh_levels ve cid = with_ctl cid (\<lambda>g. case me_sr ve of None \<Rightarrow> ret ()
     | Some p \<Rightarrow> if \<not> mp_level_weights (mq_par g) then ret ()
        else bindP (attempt p) (\<lambda>r. case r of Some (Some lv) \<Rightarrow> upd_ctl cid (\<lambda>g. g\<lparr>mq_sr := lv\<rparr>) | _ \<Rightarrow> ret ()))"

definition record_micro :: "('v, 'k) mm_env \<Rightarrow> string \<Rightarrow> dec \<Rightarrow> dec \<times> dec \<Rightarrow> ('v, 'k, unit) mprog" where
  "record_micro ve cid mid targets = with_ctl cid (\<lambda>g. if \<not> mp_micro (mq_par g) then ret ()
     else bindP (attempt (me_depth ve (mp_pair (mq_par g)))) (\<lambda>b. case b of None \<Rightarrow> ret ()
       | Some book \<Rightarrow> upd_ctl cid (\<lambda>g. g\<lparr>mq_micro := Some
          \<lparr>mv_microprice = microprice book 1, mv_mid = ms_mid book, mv_spread = spread_bp book,
           mv_obi = obi_bands book [1, 3, 5, 10], mv_bid_depth = depth_notional book True 20,
           mv_ask_depth = depth_notional book False 20, mv_levels = (length (sb_bids book), length (sb_asks book)),
           mv_displacement = (case microprice book 1 of None \<Rightarrow> None
             | Some m \<Rightarrow> if mid > 0 then Some ((m - mid) / mid * 10000) else None),
           mv_targets = targets\<rparr>\<rparr>)))"

subsection \<open>Which sides may quote\<close>

definition base_limits :: "mm_par \<Rightarrow> position_hold option \<Rightarrow> dec \<Rightarrow> bool \<times> bool" where
  "base_limits p h mid = (let base = hold_value h mid;
     at_max = (case mp_max_base p of None \<Rightarrow> False | Some m \<Rightarrow> base \<ge> m);
     at_min = (case mp_min_base p of None \<Rightarrow> False | Some m \<Rightarrow> base \<le> m) in
   if mp_protect p \<and> at_max \<and> (case h of None \<Rightarrow> 0 | Some x \<Rightarrow> unrealized_pnl x mid) < 0 then (False, False)
   else (\<not> at_max, \<not> at_min))"

definition reducing :: "dec \<Rightarrow> sides \<Rightarrow> sides" where
  "reducing base allowed = (fst allowed \<and> base < 0, snd allowed \<and> base > 0)"

definition inventory_policy :: "mm_par \<Rightarrow> dec \<Rightarrow> sides \<Rightarrow> string \<Rightarrow> sides \<times> (dec \<times> dec) \<times> string" where
  "inventory_policy p base allowed st = (if \<not> mp_policy p then (allowed, (1, 1), st)
     else if mp_hard p > 0 \<and> \<bar>base\<bar> \<ge> mp_hard p
     then (reducing base allowed, (1, 1), if base > 0 then ''hard_long'' else ''hard_short'')
     else if mp_soft p > 0 \<and> \<bar>base\<bar> \<ge> mp_soft p
     then (allowed, if base > 0 then (3 / 2, 3 / 4) else (3 / 4, 3 / 2), if base > 0 then ''soft_long'' else ''soft_short'')
     else (allowed, (1, 1), ''neutral''))"

definition expected_budget :: "position_hold option \<Rightarrow> dec \<Rightarrow> mm_ctl \<Rightarrow> bool \<times> mm_ctl" where
  "expected_budget h mid g = (let p = mq_par g in case h of None \<Rightarrow> (False, g)
     | Some x \<Rightarrow> if \<not> mp_policy p \<or> mp_budget p \<le> 0 then (False, g)
        else let used = max (mq_used g) (max 0 (- (realized_pnl_after_fees x + unrealized_pnl x mid))) in
          if used \<ge> mp_budget p then (True, g\<lparr>mq_used := used, mq_stop := ''expected_budget_exhausted''\<rparr>)
          else (False, g\<lparr>mq_used := used, mq_stop := []\<rparr>))"

definition mm_exposure_cfg :: "mm_ctl \<Rightarrow> exposure_cfg" where
  "mm_exposure_cfg g = (let c = mp_cfg (mq_par g) in \<lparr>xc_has_inventory = mq_has_inv g, xc_cap_pct = mc_cap_pct c,
     xc_margin = mc_margin c, xc_resume_frac = or_else (mc_resume_frac c) (7 / 10), xc_suppress = mc_suppress c\<rparr>)"

definition mm_gate_input :: "('v, 'k) mm_env \<Rightarrow> 'v \<Rightarrow> mm_ctl \<Rightarrow> gate_input" where
  "mm_gate_input ve v g = (let c = mp_cfg (mq_par g) in \<lparr>gi_enabled = mc_gate c, gi_provider = mc_provider c,
     gi_result = ge_regime ve v, gi_confirm = mc_confirm c, gi_pause_on_trend = True, gi_adverse_trend = None,
     gi_pause_on_breakout = True\<rparr>)"

definition mm_exposure :: "string \<Rightarrow> dec \<Rightarrow> ('v, 'k, sides) mprog" where
  "mm_exposure cid mid = ask_ctl cid (True, True) (\<lambda>g.
     bindP (exposure_read (ct_user g) (mp_pair (mq_par g)) cid (mm_exposure_cfg g) mid (mq_exposure g)) (\<lambda>(allowed, x).
       thenP (upd_ctl cid (\<lambda>g. g\<lparr>mq_exposure := x\<rparr>)) (ret allowed)))"

text \<open>The two sides after every limit, the widening factors, and the value held.\<close>

definition both :: "sides \<Rightarrow> sides \<Rightarrow> sides" where
  "both a b = (fst a \<and> fst b, snd a \<and> snd b)"

definition mm_gate :: "('v, 'k) mm_env \<Rightarrow> string \<Rightarrow> ('v, 'k, unit) mprog" where
  "mm_gate ve cid = bindP ctl_venue (\<lambda>v.
     upd_ctl cid (\<lambda>g. g\<lparr>mq_gate := evaluate_quote_gate (mm_gate_input ve v g) (mq_gate g)\<rparr>))"

definition mm_allowed :: "('v, 'k) mm_env \<Rightarrow> string \<Rightarrow> dec \<Rightarrow> position_hold option \<Rightarrow> ('v, 'k, sides \<times> (dec \<times> dec)) mprog" where
  "mm_allowed ve cid mid h = ask_ctl cid ((False, False), (1, 1)) (\<lambda>g0. let base = hold_value h mid in
     bindP (mm_exposure cid mid) (\<lambda>x.
       case inventory_policy (mq_par g0) base (both (base_limits (mq_par g0) h mid) x) (mq_inv_state g0) of
         (allowed, sm, st) \<Rightarrow> thenP (upd_ctl cid (\<lambda>g. g\<lparr>mq_inv_state := st\<rparr>))
           (bindP (ask_ctl cid False (\<lambda>g. ret (fst (expected_budget h mid g)))) (\<lambda>stop.
              let allowed = (if stop then reducing base allowed else allowed) in
              thenP (upd_ctl cid (\<lambda>g. snd (expected_budget h mid g))) (thenP (mm_gate ve cid) (ask_ctl cid ((False, False), (1, 1)) (\<lambda>g.
                ret (if gate_paused (mq_gate g) then reducing base allowed else allowed, sm))))))))"

subsection \<open>The ladder of a side\<close>

definition effective_step_bp :: "('v, 'k) mm_env \<Rightarrow> mm_ctl \<Rightarrow> dec \<Rightarrow> 'v \<Rightarrow> dec" where
  "effective_step_bp ve g mid v = (if mp_step_bp (mq_par g) > 0 then mp_step_bp (mq_par g)
     else let tick = tick_of ve g v;
              tick_bp = (if tick > 0 \<and> mid > 0 then tick / mid * 10000 else 0)
          in max tick_bp AUTO_LADDER_STEP_FLOOR_BP)"

definition effective_levels :: "mm_ctl \<Rightarrow> int" where
  "effective_levels g = (let n = mp_levels (mq_par g) in
     if mp_alpha (mq_par g) \<and> mq_degraded g \<and> n > 1 then n - 1 else n)"

definition level_price :: "dec \<Rightarrow> dec \<Rightarrow> bool \<Rightarrow> dec" where
  "level_price target offset_bp is_bid = target * (if is_bid then 1 - offset_bp / 10000 else 1 + offset_bp / 10000)"

definition side_level_weights :: "('v, 'k) mm_env \<Rightarrow> mm_ctl \<Rightarrow> dec \<Rightarrow> dec \<Rightarrow> bool \<Rightarrow> 'v \<Rightarrow> raw list" where
  "side_level_weights ve g mid target is_bid v = (let p = mq_par g in
     if \<not> mp_level_weights p \<or> target \<le> 0 \<or> mid \<le> 0 then []
     else case (if is_bid then fst (mq_sr g) else snd (mq_sr g)) of None \<Rightarrow> []
     | Some rw \<Rightarrow> let refs = filter (\<lambda>x. 0 < x) (List.map_filter id rw) in
        if refs = [] then []
        else let step = effective_step_bp ve g mid v;
                 prices = map (\<lambda>i. Some (level_price target (step * of_nat i) is_bid)) [0..<nat (effective_levels g)] in
          map Some (proximity_weights prices (map Some refs) (Some (mp_level_tol p)) (Some (mp_level_boost p))))"

definition plan_side :: "('v, 'k) mm_env \<Rightarrow> mm_ctl \<Rightarrow> dec \<Rightarrow> dec \<Rightarrow> bool \<Rightarrow> 'v \<Rightarrow> ladder_level list" where
  "plan_side ve g mid target is_bid v = plan_ladder (Some (mp_amount (mq_par g))) (Some (of_int (effective_levels g)))
     (Some (effective_step_bp ve g mid v)) (Some 0) (mp_curve (mq_par g))
     (Some (or_zero (me_min_notional ve (mp_pair (mq_par g)) v))) (side_level_weights ve g mid target is_bid v)"

subsection \<open>Resting quotes\<close>

fun ee_order :: "engine_executor \<Rightarrow> nado_order option" where
  "ee_order (EX_Order x) = oe_order x"
| "ee_order (EX_RGrid x) = oe_order x"
| "ee_order _ = None"

definition failed_resting :: "engine_executor \<Rightarrow> bool" where
  "failed_resting x \<longleftrightarrow> ex_close (ee_base x) = Some FAILED \<and> \<not> order_terminal (ee_order x)"

definition is_live :: "engine_executor odict \<Rightarrow> string \<Rightarrow> bool" where
  "is_live d i = (case map_of d i of None \<Rightarrow> False | Some x \<Rightarrow> \<not> ee_terminated x)"

definition left_resting :: "engine_executor odict \<Rightarrow> string \<Rightarrow> bool" where
  "left_resting d i = (case map_of d i of None \<Rightarrow> False | Some x \<Rightarrow> failed_resting x)"

definition slot_live :: "engine_executor odict \<Rightarrow> quote_slot \<Rightarrow> bool" where
  "slot_live d s = (case qs_ex s of None \<Rightarrow> False | Some i \<Rightarrow> is_live d i)"

definition bound :: "string \<Rightarrow> dec \<Rightarrow> dec \<Rightarrow> time \<Rightarrow> quote_slot" where
  "bound i price q t = \<lparr>qs_ex = Some i, qs_price = Some price, qs_size = q, qs_placed = t\<rparr>"

definition release_slot :: "string \<Rightarrow> slot_key \<Rightarrow> ('v, 'k, unit) mprog" where
  "release_slot cid k = upd_ctl cid (put_slot k empty_slot)"

definition bind_slot :: "('v, 'k) mm_env \<Rightarrow> string \<Rightarrow> slot_key \<Rightarrow> string \<Rightarrow> dec \<Rightarrow> dec \<Rightarrow> ('v, 'k, unit) mprog" where
  "bind_slot ve cid k i price q = bindP ctl_venue (\<lambda>v. upd_ctl cid (put_slot k (bound i price q (me_clock ve v))))"

definition resting_notional :: "engine_executor odict \<Rightarrow> slot_key \<Rightarrow> mm_ctl \<Rightarrow> dec" where
  "resting_notional d k g = sum_list (map (\<lambda>(_, s). qs_size s)
     (filter (\<lambda>(k', s). fst k' = fst k \<and> snd k' \<noteq> snd k \<and> slot_live d s) (mq_slots g)))"

definition crosses :: "bool \<Rightarrow> dec \<Rightarrow> dec \<Rightarrow> bool" where
  "crosses is_bid target price \<longleftrightarrow> (if is_bid then target \<ge> price else target \<le> price)"

definition would_self_trade :: "engine_executor odict \<Rightarrow> bool \<Rightarrow> dec \<Rightarrow> mm_ctl \<Rightarrow> bool" where
  "would_self_trade d is_bid target g \<longleftrightarrow> mp_stp (mq_par g) \<and> \<not> target \<le> 0
     \<and> list_ex (\<lambda>(k, s). fst k \<noteq> is_bid \<and> slot_live d s
          \<and> (case qs_price s of None \<Rightarrow> False | Some p \<Rightarrow> crosses is_bid target p)) (mq_slots g)"

definition self_trade :: "string \<Rightarrow> bool \<Rightarrow> dec \<Rightarrow> ('v, 'k, bool) mprog" where
  "self_trade cid is_bid target = ask_ctl cid True (\<lambda>g. bindP (getsP or_executors) (\<lambda>d.
     if would_self_trade d is_bid target g
     then thenP (upd_ctl cid (\<lambda>g. g\<lparr>mq_stp_blocks := Suc (mq_stp_blocks g)\<rparr>)) (ret True) else ret False))"

definition retry_failed_stop :: "('v, 'k) mm_env \<Rightarrow> string \<Rightarrow> ('v, 'k, bool) mprog" where
  "retry_failed_stop ve i = bindP (tryP (thenP (on_executor i (ee_on_stop (dp_api (ge_deps ve)) EARLY_STOP)) (ret True))
     (\<lambda>_. ret False)) (\<lambda>ok. if \<not> ok then ret False
       else getsP (\<lambda>s. case map_of (or_executors s) i of None \<Rightarrow> True | Some x \<Rightarrow> order_terminal (ee_order x)))"

definition stop_and_release :: "('v, 'k) mm_env \<Rightarrow> string \<Rightarrow> slot_key \<Rightarrow> string \<Rightarrow> ('v, 'k, bool) mprog" where
  "stop_and_release ve cid k i = thenP (orch_stop (ge_deps ve) i EARLY_STOP)
     (bindP (getsP (\<lambda>s. left_resting (or_executors s) i)) (\<lambda>resting.
        if resting then ret False else thenP (release_slot cid k) (ret True)))"

definition stop_all_quotes :: "('v, 'k) mm_env \<Rightarrow> string \<Rightarrow> ('v, 'k, unit) mprog" where
  "stop_all_quotes ve cid = with_ctl cid (\<lambda>g0. forP (map fst (mq_slots g0)) (\<lambda>k. with_ctl cid (\<lambda>g.
     case qs_ex (slot_at k g) of
       Some i \<Rightarrow> thenP (stop_and_release ve cid k i) (ret ())
     | None \<Rightarrow> upd_ctl cid (\<lambda>g. put_slot k ((slot_at k g)\<lparr>qs_price := None\<rparr>) g))))"

definition retire_beyond :: "('v, 'k) mm_env \<Rightarrow> string \<Rightarrow> bool \<Rightarrow> nat \<Rightarrow> ('v, 'k, unit) mprog" where
  "retire_beyond ve cid is_bid n = with_ctl cid (\<lambda>g0.
     forP (filter (\<lambda>k. fst k = is_bid \<and> n \<le> snd k) (map fst (mq_slots g0))) (\<lambda>k. with_ctl cid (\<lambda>g.
       case qs_ex (slot_at k g) of None \<Rightarrow> ret () | Some i \<Rightarrow> thenP (stop_and_release ve cid k i) (ret ()))))"

subsection \<open>Keeping a resting quote\<close>

definition within_tolerance :: "mm_ctl \<Rightarrow> dec \<Rightarrow> dec \<Rightarrow> dec \<Rightarrow> bool" where
  "within_tolerance g tick target cur = (if cur \<le> 0 then False
     else if mp_touch (mq_par g) \<and> tick > 0 then \<bar>target - cur\<bar> \<le> tick
     else \<bar>target - cur\<bar> / cur \<le> mp_tolerance (mq_par g))"

definition holds_queue_position :: "mm_ctl \<Rightarrow> bool \<Rightarrow> dec \<Rightarrow> dec \<Rightarrow> bool" where
  "holds_queue_position g is_bid target price = (case mq_touch g of None \<Rightarrow> False
     | Some (bid, ask) \<Rightarrow> if is_bid then \<not> price < bid \<and> \<not> target < price else \<not> price > ask \<and> \<not> target > price)"

definition should_hold :: "mm_ctl \<Rightarrow> dec \<Rightarrow> time \<Rightarrow> bool \<Rightarrow> dec \<Rightarrow> quote_slot \<Rightarrow> bool" where
  "should_hold g tick now is_bid target s = (let p = mq_par g in case qs_price s of None \<Rightarrow> False
     | Some cur \<Rightarrow> if cur \<le> 0 then False
        else if mp_max_life p > 0 \<and> qs_placed s > 0 \<and> now - qs_placed s \<ge> mp_max_life p then False
        else within_tolerance g tick target cur \<or> holds_queue_position g is_bid target cur
          \<or> mp_min_life p > 0 \<and> qs_placed s > 0 \<and> now - qs_placed s < mp_min_life p)"

definition throttle_hold_expired :: "('v, 'k) mm_env \<Rightarrow> mm_ctl \<Rightarrow> time \<Rightarrow> quote_slot \<Rightarrow> bool" where
  "throttle_hold_expired ve g now s = (if qs_placed s \<le> 0 then True
     else now - qs_placed s \<ge> (if mp_max_life (mq_par g) > 0 then mp_max_life (mq_par g) else me_hold_max ve))"

subsection \<open>Admission\<close>

definition mm_cap_quote :: "mm_par \<Rightarrow> dec option" where
  "mm_cap_quote p = (case (mc_cap_pct (mp_cfg p), mc_margin (mp_cfg p)) of
     (Some pct, Some margin) \<Rightarrow> if margin * pct / 100 \<le> 0 then None else Some (max (margin * pct / 100) (mp_amount p))
   | _ \<Rightarrow> None)"

definition projected_ok :: "dec \<Rightarrow> dec \<Rightarrow> dec \<Rightarrow> bool" where
  "projected_ok cap current delta \<longleftrightarrow> \<not> (\<bar>current + delta\<bar> > \<bar>current\<bar> \<and> \<bar>current + delta\<bar> > cap)"

definition within_exposure :: "string \<Rightarrow> slot_key \<Rightarrow> dec \<Rightarrow> dec \<Rightarrow> ('v, 'k, bool) mprog" where
  "within_exposure cid k mid q = ask_ctl cid True (\<lambda>g. if \<not> mq_has_inv g \<or> mid \<le> 0 then ret True
     else case mm_cap_quote (mq_par g) of None \<Rightarrow> ret True
     | Some cap \<Rightarrow> bindP (base_value cid mid) (\<lambda>current. bindP (getsP or_executors) (\<lambda>d.
         let pending = q + resting_notional d k g in
         ret (projected_ok cap current (if fst k then pending else - pending)))))"

definition recycle_allows :: "string \<Rightarrow> bool \<Rightarrow> dec \<Rightarrow> dec \<Rightarrow> ('v, 'k, bool) mprog" where
  "recycle_allows cid is_bid target mid = ask_ctl cid True (\<lambda>g. case mq_floor_price g of None \<Rightarrow> ret True
     | Some f \<Rightarrow> if is_bid \<and> target > 0 \<and> target < f
        then bindP (base_value cid mid) (\<lambda>base. ret (\<not> base \<ge> 0)) else ret True)"

definition admitted :: "string \<Rightarrow> slot_key \<Rightarrow> dec \<Rightarrow> dec \<Rightarrow> dec \<Rightarrow> bool \<Rightarrow> ('v, 'k, bool) mprog" where
  "admitted cid k target mid q allowed = bindP (recycle_allows cid (fst k) target mid) (\<lambda>above.
     if allowed \<and> above then within_exposure cid k mid q else ret False)"

subsection \<open>Reconciling one quote\<close>

definition quote_config :: "mm_ctl \<Rightarrow> trade_type \<Rightarrow> dec \<Rightarrow> dec \<Rightarrow> oe_config" where
  "quote_config g side target q = \<lparr>oc_pair = mp_pair (mq_par g), oc_side = side, oc_amount = q / target,
     oc_strategy = S_LIMIT_MAKER, oc_price = Some target, oc_chaser = None, oc_leverage = mp_leverage (mq_par g),
     oc_action = OPEN_POS, oc_crosses = False\<rparr>"

definition new_quote :: "('v, 'k) mm_env \<Rightarrow> string \<Rightarrow> trade_type \<Rightarrow> dec \<Rightarrow> dec \<Rightarrow> mm_ctl \<Rightarrow> ('v, 'k, order_exec) mprog" where
  "new_quote ve cid side target q g = bindP (raise_or (check_oe_config (quote_config g side target q))) (\<lambda>c.
     thenP (upd_ctl cid (\<lambda>g. g\<lparr>mq_uid := Suc (mq_uid g)\<rparr>)) (bindP (getsP (o_now (ge_deps ve))) (\<lambda>t.
       ret (mk_order_exec (ge_uuid ve (mq_uid g)) (ct_user g) cid True (mq_has_inv g) c t))))"

definition quote_request :: "dec \<Rightarrow> executor_request" where
  "quote_request q = \<lparr>rq_order_amount = q, rq_position_size = 0, rq_reduce_only = False, rq_position_action = None\<rparr>"

definition place_quote :: "('v, 'k) mm_env \<Rightarrow> string \<Rightarrow> trade_type \<Rightarrow> slot_key \<Rightarrow> dec \<Rightarrow> dec \<Rightarrow> ('v, 'k, unit) mprog" where
  "place_quote ve cid side k target q = (if target \<le> 0 \<or> q \<le> 0 then ret ()
     else bindP (self_trade cid (fst k) target) (\<lambda>st. if st then ret ()
       else with_ctl cid (\<lambda>g. bindP (new_quote ve cid side target q g) (\<lambda>x.
         bindP (orch_spawn (ge_deps ve) (EX_Order x) (Some (quote_request q))) (\<lambda>ok.
           whenP ok (bind_slot ve cid k (ex_id x) target q))))))"

definition replace_quote :: "('v, 'k) mm_env \<Rightarrow> string \<Rightarrow> trade_type \<Rightarrow> slot_key \<Rightarrow> dec \<Rightarrow> dec \<Rightarrow> string \<Rightarrow> string
    \<Rightarrow> ('v, 'k, bool) mprog" where
  "replace_quote ve cid side k target q old digest = ask_ctl cid False (\<lambda>g.
     bindP (tryP (bindP (on_venue (me_fuse ve digest (mp_pair (mq_par g)) side LIMIT_MAKER (q / target) target
                    (mp_leverage (mq_par g)))) (\<lambda>o'. ret (Inr o'))) (\<lambda>c. ret (Inl c))) (\<lambda>r. case r of
       Inl (AdapterThrottled m) \<Rightarrow> ret True
     | Inl c \<Rightarrow> ret False
     | Inr None \<Rightarrow> ret False
     | Inr (Some ord) \<Rightarrow> bindP (new_quote ve cid side target q g) (\<lambda>x.
         thenP (orch_adopt (ge_deps ve) (EX_Order x) ord)
        (thenP (bind_slot ve cid k (ex_id x) target q)
        (thenP (upd_ctl cid (\<lambda>g. g\<lparr>mq_replaced := Suc (mq_replaced g)\<rparr>))
        (thenP (tryP (thenP (orch_settle_replaced (ge_deps ve) old) (on_venue (me_forget ve digest))) (\<lambda>_. ret ()))
           (ret True)))))))"

definition order_digest :: "engine_executor odict \<Rightarrow> string \<Rightarrow> string option" where
  "order_digest d i = (case map_of d i of None \<Rightarrow> None | Some x \<Rightarrow> (case ee_order x of None \<Rightarrow> None
     | Some ord \<Rightarrow> if o_id ord = [] then None else Some (o_id ord)))"

text \<open>Whether the fused path took the requote over.\<close>

definition fused :: "('v, 'k) mm_env \<Rightarrow> string \<Rightarrow> trade_type \<Rightarrow> slot_key \<Rightarrow> dec \<Rightarrow> dec \<Rightarrow> string \<Rightarrow> ('v, 'k, bool) mprog" where
  "fused ve cid side k target q i = ask_ctl cid False (\<lambda>g. if \<not> (mp_fuse (mq_par g) \<and> target > 0 \<and> q > 0) then ret False
     else bindP (self_trade cid (fst k) target) (\<lambda>st. if st then ret False
       else bindP (getsP (\<lambda>s. order_digest (or_executors s) i)) (\<lambda>dg. case dg of None \<Rightarrow> ret False
         | Some digest \<Rightarrow> replace_quote ve cid side k target q i digest)))"

text \<open>Requoting a slot bound to \<open>i\<close>: whether the slot is free for a new quote.\<close>

definition keeps_resting :: "('v, 'k) mm_env \<Rightarrow> mm_ctl \<Rightarrow> slot_key \<Rightarrow> dec \<Rightarrow> bool \<Rightarrow> 'v \<Rightarrow> bool" where
  "keeps_resting ve g k target is_opening v \<longleftrightarrow> (let s = slot_at k g; now = me_clock ve v in
     should_hold g (tick_of ve g v) now (fst k) target s
     \<or> is_opening \<and> cb_reads_throttled (va_budget (dp_api (ge_deps ve)) v) > 0 \<and> \<not> throttle_hold_expired ve g now s)"

definition requote :: "('v, 'k) mm_env \<Rightarrow> string \<Rightarrow> trade_type \<Rightarrow> slot_key \<Rightarrow> dec \<Rightarrow> dec \<Rightarrow> bool \<Rightarrow> string \<Rightarrow> ('v, 'k, bool) mprog" where
  "requote ve cid side k target q is_opening i = ask_ctl cid True (\<lambda>g. bindP (getsP (\<lambda>s. (or_executors s, env_venue (or_env s))))
     (\<lambda>(d, v). if \<not> is_live d i then ret True
       else if keeps_resting ve g k target is_opening v then ret False
       else bindP (fused ve cid side k target q i) (\<lambda>done'. if done' then ret False
         else stop_and_release ve cid k i)))"

definition free_stale :: "('v, 'k) mm_env \<Rightarrow> string \<Rightarrow> slot_key \<Rightarrow> ('v, 'k, bool) mprog" where
  "free_stale ve cid k = ask_ctl cid True (\<lambda>g. case qs_ex (slot_at k g) of None \<Rightarrow> ret True
     | Some i \<Rightarrow> bindP (getsP or_executors) (\<lambda>d. if is_live d i then ret True
        else bindP (if left_resting d i then retry_failed_stop ve i else ret True) (\<lambda>go.
          if go then thenP (release_slot cid k) (ret True) else ret False)))"

definition reconcile_live :: "('v, 'k) mm_env \<Rightarrow> string \<Rightarrow> trade_type \<Rightarrow> slot_key \<Rightarrow> dec \<Rightarrow> dec \<Rightarrow> bool \<Rightarrow> bool \<Rightarrow> ('v, 'k, unit) mprog" where
  "reconcile_live ve cid side k target q allowed is_opening = with_ctl cid (\<lambda>g. let s = slot_at k g in
     if \<not> allowed then (case qs_ex s of None \<Rightarrow> ret () | Some i \<Rightarrow> thenP (stop_and_release ve cid k i) (ret ()))
     else bindP ctl_venue (\<lambda>v. if is_opening \<and> opening_blocked (dp_api (ge_deps ve)) v then ret ()
       else bindP (case (qs_ex s, qs_price s) of (Some i, Some p) \<Rightarrow> requote ve cid side k target q is_opening i | _ \<Rightarrow> ret True)
         (\<lambda>go. whenP go (place_quote ve cid side k target q))))"

definition reconcile :: "('v, 'k) mm_env \<Rightarrow> string \<Rightarrow> trade_type \<Rightarrow> nat \<Rightarrow> dec \<Rightarrow> dec \<Rightarrow> bool \<Rightarrow> dec \<Rightarrow> bool \<Rightarrow> ('v, 'k, unit) mprog" where
  "reconcile ve cid side lvl target q allowed mid is_opening = (let k = (side = BUY, lvl) in
     thenP (upd_ctl cid (ensure_slot k)) (bindP (admitted cid k target mid q allowed) (\<lambda>ok.
       bindP (free_stale ve cid k) (\<lambda>go. whenP go (reconcile_live ve cid side k target q ok is_opening)))))"

definition quote_side :: "('v, 'k) mm_env \<Rightarrow> string \<Rightarrow> trade_type \<Rightarrow> dec \<Rightarrow> bool \<Rightarrow> dec \<Rightarrow> bool \<Rightarrow> ('v, 'k, unit) mprog" where
  "quote_side ve cid side target allowed mid is_opening = with_ctl cid (\<lambda>g. bindP ctl_venue (\<lambda>v.
     let is_bid = (side = BUY); plan = (if target > 0 then plan_side ve g mid target is_bid v else []) in
     if plan = [] then thenP (reconcile ve cid side 0 target (mp_amount (mq_par g)) allowed mid is_opening)
       (retire_beyond ve cid is_bid 1)
     else thenP (forP plan (\<lambda>l. reconcile ve cid side (ll_index l) (level_price target (ll_offset_bp l) is_bid)
         (ll_size_quote l) allowed mid is_opening)) (retire_beyond ve cid is_bid (length plan))))"

subsection \<open>The tick\<close>

definition mm_children :: "('v, 'k) mm_env \<Rightarrow> string \<Rightarrow> ('v, 'k, unit) mprog" where
  "mm_children ve cid = bindP (my_executors cid) (\<lambda>xs. forP (ids_of xs) (orch_tick (ge_deps ve)))"

definition mm_market :: "('v, 'k) mm_env \<Rightarrow> string \<Rightarrow> ('v, 'k, (dec \<times> dec) option \<times> dec) mprog" where
  "mm_market ve cid = thenP (upd_ctl cid (\<lambda>g. g\<lparr>mq_touch := None\<rparr>)) (ask_ctl cid (None, 0) (\<lambda>g.
     bindP (if mp_touch (mq_par g) then touch_targets ve cid else ret None) (\<lambda>t. case t of
       Some (tb, ta, mid) \<Rightarrow> ret (Some (tb, ta), mid)
     | None \<Rightarrow> bindP (on_venue (va_mid (dp_api (ge_deps ve)) (mp_pair (mq_par g)))) (\<lambda>mid. ret (None, mid)))))"

definition mm_price :: "string \<Rightarrow> dec \<Rightarrow> dec \<Rightarrow> dec \<times> dec \<Rightarrow> (dec \<times> dec) option \<Rightarrow> ('v, 'k, dec \<times> dec) mprog" where
  "mm_price cid mid base sm touch = thenP (upd_ctl cid auto_spread) (ask_ctl cid (0, 0) (\<lambda>g.
     thenP (upd_ctl cid (\<lambda>g. snd (mm_targets mid base sm g))) (ret (or_else touch (fst (mm_targets mid base sm g))))))"

definition mm_quote :: "('v, 'k) mm_env \<Rightarrow> string \<Rightarrow> dec \<Rightarrow> dec \<Rightarrow> sides \<Rightarrow> dec \<times> dec \<Rightarrow> ('v, 'k, unit) mprog" where
  "mm_quote ve cid mid base allowed t = seqP [record_micro ve cid mid t,
     quote_side ve cid BUY (fst t) (fst allowed) mid (base \<ge> 0),
     quote_side ve cid SELL (snd t) (snd allowed) mid (base \<le> 0)]"

definition mm_on_tick :: "('v, 'k) mm_env \<Rightarrow> string \<Rightarrow> ('v, 'k, unit) mprog" where
  "mm_on_tick ve cid = thenP (mm_children ve cid) (bindP (mm_market ve cid) (\<lambda>(touch, mid).
     thenP (seqP [resolve_profile_once ve cid, refresh_alpha ve cid mid, refresh_widen ve cid, refresh_levels ve cid])
       (bindP (mm_hold cid) (\<lambda>h. bindP (mm_allowed ve cid mid h) (\<lambda>(allowed, sm).
          bindP (mm_price cid mid (hold_value h mid) sm touch) (\<lambda>t.
            mm_quote ve cid mid (hold_value h mid) allowed t))))))"

definition mm_hooks :: "('v, 'k) mm_env \<Rightarrow> ('v, 'k, unit mm_ctl_ext) ctl_hooks" where
  "mm_hooks ve = \<lparr>ch_on_start = (\<lambda>cid. ret ()), ch_on_tick = mm_on_tick ve, ch_on_stop = (\<lambda>cid reason. ret ())\<rparr>"

subsection \<open>Live changes of the settings\<close>

text \<open>
  What \<open>strategy/engine_runtime.py\<close> does to a market maker of the strategy \<open>mid\<close> that runs when its
  settings change. \<open>_apply_mid_controller_config\<close> writes the attributes below and no others: the
  flags of the constructor, self-trade prevention and fused requotes among them, keep their values,
  and so do the runtime totals. The attribute \<open>limits\<close> of the controller is only read by the
  runtime's own comparison; the limits of the orchestrator's risk engine are replaced.
\<close>

definition config_floor :: "mm_cfg \<Rightarrow> dec" where
  "config_floor c = or_else (mc_floor c) (15 / 100000)"

definition refreshed_par :: "mm_cfg \<Rightarrow> mm_par \<Rightarrow> mm_par" where
  "refreshed_par c p0 = (let n = parse_mm c;
     p = p0\<lparr>mp_cfg := c, mp_pair := mp_pair n, mp_amount := mp_amount n, mp_tolerance := mp_tolerance n,
       mp_max_base := mp_max_base n, mp_min_base := mp_min_base n, mp_protect := mp_protect n, mp_auto := mp_auto n,
       mp_auto_k := mp_auto_k n, mp_cap := mp_cap n, mp_bias := mp_bias n, mp_touch := mp_touch n,
       mp_levels := mp_levels n, mp_step_bp := mp_step_bp n, mp_curve := mp_curve n, mp_min_life := mp_min_life n\<rparr> in
     if mc_policy c
     then p\<lparr>mp_policy := True, mp_exec_mode := mp_exec_mode n, mp_max_life := mp_max_life n, mp_soft := mp_soft n,
       mp_hard := mp_hard n, mp_budget := mp_budget n\<rparr>
     else p)"

definition apply_mid_config :: "mm_cfg \<Rightarrow> mm_ctl \<Rightarrow> mm_ctl" where
  "apply_mid_config c g = g\<lparr>mq_par := refreshed_par c (mq_par g),
     mq_bid_pct := max (or_else (mc_spread_bid c) (1 / 1000)) (config_floor c),
     mq_ask_pct := max (or_else (mc_spread_ask c) (1 / 1000)) (config_floor c), mq_floor := config_floor c\<rparr>"

definition apply_risk_limits :: "risk_limits \<Rightarrow> ('v, 'k, unit) mprog" where
  "apply_risk_limits lims = modifyP (\<lambda>s. s\<lparr>or_risk := map_option (\<lambda>re. re\<lparr>re_limits := lims\<rparr>) (or_risk s)\<rparr>)"

definition live_update :: "('v, 'k) mm_env \<Rightarrow> string \<Rightarrow> mm_cfg \<Rightarrow> risk_limits \<Rightarrow> ('v, 'k, unit) mprog" where
  "live_update ve cid c lims = seqP [apply_risk_limits lims, upd_ctl cid (apply_mid_config c), stop_all_quotes ve cid]"

end
