(* ===== verification/Mm_Quotes.thy ===== *)
theory Mm_Quotes
  imports Market_Making
begin

subsection \<open>The invariant of the quotes\<close>

text \<open>The order of \<open>i\<close> is over, or its executor is no longer held.\<close>

definition gone :: "engine_executor odict \<Rightarrow> string \<Rightarrow> bool" where
  "gone d i \<longleftrightarrow> (case map_of d i of None \<Rightarrow> True | Some x \<Rightarrow> (case x of EX_Order a \<Rightarrow> done_with a | _ \<Rightarrow> False))"

definition order_entry :: "bool \<Rightarrow> engine_executor odict \<Rightarrow> string \<Rightarrow> bool" where
  "order_entry strict d i \<longleftrightarrow> (case map_of d i of None \<Rightarrow> True
     | Some x \<Rightarrow> (case x of EX_Order a \<Rightarrow> strict \<longrightarrow> stop_ok a | _ \<Rightarrow> False))"

text \<open>
  \<open>quote_inv par uuid B g d\<close>: every bound slot has a price and an order executor; fresh
  identifiers are bound nowhere; with self-trade prevention on, live quotes of opposite sides do not cross; and,
  unless requotes are fused, each binding of \<open>B\<close> still stands or its order is over.
\<close>

definition uncrossed :: "engine_executor odict \<Rightarrow> mm_ctl \<Rightarrow> bool" where
  "uncrossed d g \<longleftrightarrow> (\<forall>l l'. slot_live d (slot_at (True, l) g) \<longrightarrow> slot_live d (slot_at (False, l') g) \<longrightarrow>
     (\<exists>p q. qs_price (slot_at (True, l) g) = Some p \<and> qs_price (slot_at (False, l') g) = Some q \<and> p < q))"

text \<open>The two flags of the constructor that decide how a market maker quotes; no live change touches them.\<close>

definition modes :: "mm_par \<Rightarrow> bool \<times> bool" where
  "modes p = (mp_stp p, mp_fuse p)"

definition quote_inv :: "mm_par \<Rightarrow> (nat \<Rightarrow> string) \<Rightarrow> (slot_key \<times> string) list \<Rightarrow> mm_ctl \<Rightarrow> engine_executor odict \<Rightarrow> bool" where
  "quote_inv par uuid B g d \<longleftrightarrow> modes (mq_par g) = modes par
     \<and> (\<forall>n k. mq_uid g \<le> n \<longrightarrow> qs_ex (slot_at k g) \<noteq> Some (uuid n) \<and> uuid n \<notin> snd ` set B)
     \<and> (\<forall>k i. qs_ex (slot_at k g) = Some i \<longrightarrow> qs_price (slot_at k g) \<noteq> None \<and> order_entry (\<not> mp_fuse par) d i)
     \<and> (mp_stp par \<longrightarrow> uncrossed d g)
     \<and> (\<not> mp_fuse par \<longrightarrow> (\<forall>(k, j) \<in> set B. qs_ex (slot_at k g) = Some j \<or> gone d j))
     \<and> (\<forall>n \<ge> mq_uid g. map_of d (uuid n) = None)"

lemma quote_invI:
  assumes "modes (mq_par g) = modes par" "\<And>n k. mq_uid g \<le> n \<Longrightarrow> qs_ex (slot_at k g) \<noteq> Some (uuid n)"
    "\<And>n. mq_uid g \<le> n \<Longrightarrow> uuid n \<notin> snd ` set B"
    "\<And>k i. qs_ex (slot_at k g) = Some i \<Longrightarrow> qs_price (slot_at k g) \<noteq> None"
    "\<And>k i. qs_ex (slot_at k g) = Some i \<Longrightarrow> order_entry (\<not> mp_fuse par) d i"
    "mp_stp par \<Longrightarrow> uncrossed d g"
    "\<And>k j. \<not> mp_fuse par \<Longrightarrow> (k, j) \<in> set B \<Longrightarrow> qs_ex (slot_at k g) = Some j \<or> gone d j"
    "\<And>n. mq_uid g \<le> n \<Longrightarrow> map_of d (uuid n) = None"
  shows "quote_inv par uuid B g d"
  using assms unfolding quote_inv_def by blast

lemma quote_invD:
  assumes "quote_inv par uuid B g d"
  shows "modes (mq_par g) = modes par" "\<And>n k. mq_uid g \<le> n \<Longrightarrow> qs_ex (slot_at k g) \<noteq> Some (uuid n)"
    "\<And>n. mq_uid g \<le> n \<Longrightarrow> uuid n \<notin> snd ` set B"
    "\<And>k i. qs_ex (slot_at k g) = Some i \<Longrightarrow> qs_price (slot_at k g) \<noteq> None"
    "\<And>k i. qs_ex (slot_at k g) = Some i \<Longrightarrow> order_entry (\<not> mp_fuse par) d i"
    "mp_stp par \<Longrightarrow> uncrossed d g"
    "\<And>k j. \<not> mp_fuse par \<Longrightarrow> (k, j) \<in> set B \<Longrightarrow> qs_ex (slot_at k g) = Some j \<or> gone d j"
    "\<And>n. mq_uid g \<le> n \<Longrightarrow> map_of d (uuid n) = None"
  using assms unfolding quote_inv_def by blast+

lemma quote_inv_cong:
  "(\<And>k. slot_at k g' = slot_at k g) \<Longrightarrow> modes (mq_par g') = modes (mq_par g) \<Longrightarrow> mq_uid g' = mq_uid g
   \<Longrightarrow> quote_inv par uuid B g' d = quote_inv par uuid B g d"
  by (simp add: quote_inv_def uncrossed_def)

lemma slot_at_cong: "mq_slots g' = mq_slots g \<Longrightarrow> slot_at k g' = slot_at k g"
  by (simp add: slot_at_def)

lemma slot_at_put [simp]: "slot_at k (put_slot k' s g) = (if k = k' then s else slot_at k g)"
  by (simp add: slot_at_def put_slot_def)

lemma slot_at_ensure [simp]: "slot_at k (ensure_slot k' g) = slot_at k g"
  by (simp add: ensure_slot_def)

lemma put_slot_fields [simp]:
  "mq_par (put_slot k s g) = mq_par g" "mq_uid (put_slot k s g) = mq_uid g"
  "mq_par (ensure_slot k g) = mq_par g" "mq_uid (ensure_slot k g) = mq_uid g"
  by (simp_all add: put_slot_def ensure_slot_def)

lemma is_live_evolve:
  assumes "order_entry strict d i \<or> j \<noteq> i" "map_of d j = Some x" "evolves strict x y"
  shows "is_live (od_set j y d) i \<Longrightarrow> is_live d i"
  using assms
  by (cases "j = i"; cases x; cases y)
    (auto simp: is_live_def order_entry_def evolves_def oe_evolves_def is_terminated_def exec_base.defs simp del: map_of_eq_Some_iff)

lemma order_entry_evolve:
  assumes "order_entry strict d i" "map_of d j = Some x" "evolves strict x y"
  shows "order_entry strict (od_set j y d) i"
  using assms
  by (cases "j = i"; cases x; cases y) (auto simp: order_entry_def evolves_def oe_evolves_def simp del: map_of_eq_Some_iff)

lemma gone_evolve:
  assumes "gone d i" "map_of d j = Some x" "evolves True x y"
  shows "gone (od_set j y d) i"
  using assms
  by (cases "j = i"; cases x; cases y) (auto simp: gone_def evolves_def oe_evolves_def simp del: map_of_eq_Some_iff)

lemma slot_live_evolve:
  assumes "\<And>i. qs_ex s = Some i \<Longrightarrow> order_entry strict d i" "map_of d j = Some x" "evolves strict x y"
    and "slot_live (od_set j y d) s"
  shows "slot_live d s"
proof (cases "qs_ex s")
  case (Some i)
  then show ?thesis using assms(4) is_live_evolve [OF disjI1 [OF assms(1)] assms(2,3), of i] by (simp add: slot_live_def)
qed (use assms(4) in \<open>simp add: slot_live_def\<close>)

lemma slot_live_other:
  "(\<And>j. j \<noteq> i \<Longrightarrow> map_of d' j = map_of d j) \<Longrightarrow> qs_ex s \<noteq> Some i \<Longrightarrow> slot_live d' s = slot_live d s"
  by (cases "qs_ex s") (simp_all add: slot_live_def is_live_def)

lemma uncrossed_mono: "uncrossed d g \<Longrightarrow> (\<And>k. slot_live d' (slot_at k g) \<Longrightarrow> slot_live d (slot_at k g)) \<Longrightarrow> uncrossed d' g"
  unfolding uncrossed_def by meson

lemma quote_inv_evolve:
  assumes "quote_inv par uuid B g d" "map_of d j = Some x" "evolves (\<not> mp_fuse par) x y"
  shows "quote_inv par uuid B g (od_set j y d)"
proof -
  note D = quote_invD [OF assms(1)]
  have "slot_live (od_set j y d) (slot_at k g) \<Longrightarrow> slot_live d (slot_at k g)" for k
    by (rule slot_live_evolve [OF _ assms(2,3)]) (rule D(5))
  then have "uncrossed (od_set j y d) g" if "mp_stp par" by (rule uncrossed_mono [OF D(6) [OF that]])
  moreover have "gone (od_set j y d) i" if "gone d i" "\<not> mp_fuse par" for i
    using gone_evolve [OF that(1) assms(2)] assms(3) that(2) by simp
  moreover have "map_of (od_set j y d) (uuid n) = None" if "mq_uid g \<le> n" for n
    using D(8) [OF that] assms(2) by (auto simp del: map_of_eq_None_iff map_of_eq_Some_iff)
  ultimately show ?thesis
    using order_entry_evolve [OF D(5) assms(2,3)] D by (intro quote_invI) blast+
qed

text \<open>The entry of an identifier no slot is bound to may come and go.\<close>

lemma quote_inv_other:
  assumes "quote_inv par uuid B g d" "\<And>k. qs_ex (slot_at k g) \<noteq> Some i" "i \<notin> snd ` set B" "\<And>n. mq_uid g \<le> n \<Longrightarrow> uuid n \<noteq> i"
    and "\<And>j. j \<noteq> i \<Longrightarrow> map_of d' j = map_of d j"
  shows "quote_inv par uuid B g d'"
proof -
  note D = quote_invD [OF assms(1)]
  have e: "order_entry st d' j = order_entry st d j" "gone d' j = gone d j" if "j \<noteq> i" for j st
    using assms(5) [OF that] by (simp_all add: order_entry_def gone_def)
  have "slot_live d' (slot_at k g) = slot_live d (slot_at k g)" for k
    by (rule slot_live_other [OF assms(5) assms(2)])
  then have "uncrossed d' g" if "mp_stp par" by (intro uncrossed_mono [OF D(6) [OF that]]) simp
  moreover have "gone d' j" if "(k, j) \<in> set B" "gone d j" for k j
    using e(2) [of j] that assms(3) by (metis imageI snd_conv)
  moreover have "order_entry (\<not> mp_fuse par) d' j" if "qs_ex (slot_at k g) = Some j" for k j
    using e(1) [of j] D(5) [OF that] assms(2) [of k] that by auto
  moreover have "map_of d' (uuid n) = None" if "mq_uid g \<le> n" for n
    using D(8) [OF that] assms(5) [OF assms(4) [OF that]] by simp
  ultimately show ?thesis using D by (intro quote_invI) blast+
qed

text \<open>Ready to be bound: \<open>i\<close> is fresh, and at \<open>target\<close> it crosses no live quote of the other side.\<close>

definition clear_of :: "engine_executor odict \<Rightarrow> bool \<Rightarrow> dec \<Rightarrow> mm_ctl \<Rightarrow> bool" where
  "clear_of d is_bid target g \<longleftrightarrow> (\<forall>k. fst k \<noteq> is_bid \<longrightarrow> slot_live d (slot_at k g) \<longrightarrow>
     (\<exists>p. qs_price (slot_at k g) = Some p \<and> \<not> crosses is_bid target p))"

definition bindable :: "mm_par \<Rightarrow> (nat \<Rightarrow> string) \<Rightarrow> (slot_key \<times> string) list \<Rightarrow> slot_key \<Rightarrow> dec \<Rightarrow> string \<Rightarrow> mm_ctl
    \<Rightarrow> engine_executor odict \<Rightarrow> bool" where
  "bindable par uuid B k target i g d \<longleftrightarrow> quote_inv par uuid B g d \<and> (\<forall>k. qs_ex (slot_at k g) \<noteq> Some i)
     \<and> i \<notin> snd ` set B \<and> (\<forall>n \<ge> mq_uid g. uuid n \<noteq> i) \<and> order_entry (\<not> mp_fuse par) d i
     \<and> (mp_stp par \<longrightarrow> clear_of d (fst k) target g) \<and> (\<not> mp_fuse par \<longrightarrow> qs_ex (slot_at k g) = None)"

lemma clear_of_mono: "clear_of d b t g \<Longrightarrow> (\<And>k. slot_live d' (slot_at k g) \<Longrightarrow> slot_live d (slot_at k g)) \<Longrightarrow> clear_of d' b t g"
  unfolding clear_of_def by meson

lemma bindable_inv: "bindable par uuid B k target i g d \<Longrightarrow> quote_inv par uuid B g d"
  by (simp add: bindable_def)

lemma bindable_evolve:
  assumes "bindable par uuid B k target i g d" "map_of d j = Some x" "evolves (\<not> mp_fuse par) x y"
  shows "bindable par uuid B k target i g (od_set j y d)"
proof -
  note D = quote_invD [OF bindable_inv [OF assms(1)]]
  have live: "slot_live (od_set j y d) (slot_at k g) \<Longrightarrow> slot_live d (slot_at k g)" for k
    by (rule slot_live_evolve [OF _ assms(2,3)]) (rule D(5))
  have "clear_of (od_set j y d) (fst k) target g" if "mp_stp par"
    by (rule clear_of_mono [OF _ live]) (use assms(1) that in \<open>simp add: bindable_def\<close>)
  then show ?thesis
    using assms(1) quote_inv_evolve [OF _ assms(2,3)] order_entry_evolve [OF _ assms(2,3)]
    unfolding bindable_def by blast
qed

lemma bindable_other:
  assumes "bindable par uuid B k target i g d" "order_entry (\<not> mp_fuse par) d' i" "\<And>j. j \<noteq> i \<Longrightarrow> map_of d' j = map_of d j"
  shows "bindable par uuid B k target i g d'"
proof -
  have i: "qs_ex (slot_at k' g) \<noteq> Some i" "i \<notin> snd ` set B" "mq_uid g \<le> n \<Longrightarrow> uuid n \<noteq> i" for k' n using assms(1) unfolding bindable_def by blast+
  have "quote_inv par uuid B g d'" by (rule quote_inv_other [OF bindable_inv [OF assms(1)] i assms(3)])
  moreover have "clear_of d' (fst k) target g" if "mp_stp par"
    by (rule clear_of_mono) (use assms(1) that slot_live_other [OF assms(3) i(1)] in \<open>auto simp: bindable_def simp del: split_paired_All\<close>)
  ultimately show ?thesis using assms(1,2) unfolding bindable_def by blast
qed

lemma bindable_bound:
  assumes "bindable par uuid B k target i g d"
  shows "quote_inv par uuid B (put_slot k (bound i target q t) g) d"
proof -
  have inv: "quote_inv par uuid B g d" and i: "order_entry (\<not> mp_fuse par) d i" "\<forall>n \<ge> mq_uid g. uuid n \<noteq> i"
    "i \<notin> snd ` set B" "mp_stp par \<Longrightarrow> clear_of d (fst k) target g" "\<not> mp_fuse par \<Longrightarrow> qs_ex (slot_at k g) = None"
    using assms by (auto simp: bindable_def)
  have "uncrossed d (put_slot k (bound i target q t) g)" if "mp_stp par"
    unfolding uncrossed_def
  proof (intro allI impI)
    fix l l' assume l: "slot_live d (slot_at (True, l) (put_slot k (bound i target q t) g))"
      "slot_live d (slot_at (False, l') (put_slot k (bound i target q t) g))"
    have c: "clear_of d (fst k) target g" and u: "uncrossed d g" using i(4) inv that by (auto simp: quote_inv_def)
    show "\<exists>p qa. qs_price (slot_at (True, l) (put_slot k (bound i target q t) g)) = Some p
        \<and> qs_price (slot_at (False, l') (put_slot k (bound i target q t) g)) = Some qa \<and> p < qa"
      using l c u unfolding clear_of_def uncrossed_def
      by (cases "k = (True, l)"; cases "k = (False, l')") (force simp: bound_def crosses_def not_le split: if_splits)+
  qed
  moreover have "qs_ex (slot_at k' (put_slot k (bound i target q t) g)) = Some j \<or> gone d j"
    if "\<not> mp_fuse par" "(k', j) \<in> set B" for k' j
    using quote_invD(7) [OF inv that] i(5) [OF that(1)] by (cases "k' = k") auto
  ultimately show ?thesis
    using quote_invD(1-5,8) [OF inv] i(1-3) by (intro quote_invI) (auto simp: bound_def split: if_splits)
qed

lemma quote_inv_emptied:
  assumes "quote_inv par uuid B g d" "qs_ex s = None" "\<And>j. \<not> mp_fuse par \<Longrightarrow> qs_ex (slot_at k g) = Some j \<Longrightarrow> gone d j"
  shows "quote_inv par uuid B (put_slot k s g) d"
proof -
  note D = quote_invD [OF assms(1)]
  have "uncrossed d (put_slot k s g)" if "mp_stp par"
    using D(6) [OF that] assms(2) by (simp add: uncrossed_def slot_live_def)
  moreover have "qs_ex (slot_at k' (put_slot k s g)) = Some j \<or> gone d j"
    if "\<not> mp_fuse par" "(k', j) \<in> set B" for k' j
    using D(7) [OF that] assms(3) [OF that(1), of j] by (cases "k' = k") auto
  ultimately show ?thesis
    using D(1-5,8) assms(2) by (intro quote_invI) (auto split: if_splits)
qed

lemma quote_inv_released:
  "quote_inv par uuid B g d \<Longrightarrow> (\<And>j. \<not> mp_fuse par \<Longrightarrow> qs_ex (slot_at k g) = Some j \<Longrightarrow> gone d j)
   \<Longrightarrow> quote_inv par uuid B (put_slot k empty_slot g) d"
  by (rule quote_inv_emptied) (simp_all add: empty_slot_def)

interpretation qv: registry_view cid "\<not> mp_fuse par" "\<lambda>g d. quote_inv par uuid B g d \<and> R g" for cid par uuid B R
  by unfold_locales (auto intro: quote_inv_evolve)

interpretation qe: registry_entry cid "\<not> mp_fuse par" "\<lambda>g d. bindable par uuid B k target i g d" i for cid par uuid B k target i
proof
  show "bindable par uuid B k target i g (od_set j y d)"
    if "bindable par uuid B k target i g d" "map_of d j = Some x" "evolves (\<not> mp_fuse par) x y" for g d j x y
    using that by (rule bindable_evolve)
  show "bindable par uuid B k target i g (od_set i (EX_Order x) d)" if "bindable par uuid B k target i g d" "stop_ok x" for g d x
    by (rule bindable_other [OF that(1)]) (use that(2) in \<open>simp_all add: order_entry_def\<close>)
  show "bindable par uuid B k target i g (od_pop i d)" if "bindable par uuid B k target i g d" for g d
    by (rule bindable_other [OF that(1)]) (simp_all add: order_entry_def)
qed

interpretation qi: registry_view cid "\<not> mp_fuse par" "quote_inv par uuid B" for cid par uuid B
  by unfold_locales (rule quote_inv_evolve)

subsection \<open>Every step keeps it\<close>

definition slot_free :: "slot_key \<Rightarrow> mm_ctl \<Rightarrow> bool" where
  "slot_free k g \<longleftrightarrow> qs_ex (slot_at k g) = None"

definition slot_bound :: "mm_par \<Rightarrow> slot_key \<Rightarrow> string \<Rightarrow> mm_ctl \<Rightarrow> bool" where
  "slot_bound par k i g \<longleftrightarrow> mp_fuse par \<or> qs_ex (slot_at k g) = Some i"

text \<open>The states a reconciliation goes through, before the new quote is bound.\<close>

abbreviation sound :: "string \<Rightarrow> mm_par \<Rightarrow> (nat \<Rightarrow> string) \<Rightarrow> (slot_key \<times> string) list \<Rightarrow> ('v, 'k) mm_orch \<Rightarrow> bool" where
  "sound cid par uuid B \<equiv> held cid (quote_inv par uuid B)"

abbreviation sound_with :: "string \<Rightarrow> mm_par \<Rightarrow> (nat \<Rightarrow> string) \<Rightarrow> (slot_key \<times> string) list \<Rightarrow> (mm_ctl \<Rightarrow> bool) \<Rightarrow> ('v, 'k) mm_orch \<Rightarrow> bool" where
  "sound_with cid par uuid B R \<equiv> held cid (\<lambda>g d. quote_inv par uuid B g d \<and> R g)"

lemma sound_weaken: "sound_with cid par uuid B R s \<Longrightarrow> sound cid par uuid B s"
  by (auto simp: held_def)

lemma quiet_upd:
  assumes "\<And>g. mq_slots (f g) = mq_slots g" "\<And>g. modes (mq_par (f g)) = modes (mq_par g)" "\<And>g. mq_uid (f g) = mq_uid g"
  shows "keeps (sound cid par uuid B) (upd_ctl cid f)"
proof (rule keeps_upd_ctl)
  fix g d assume "quote_inv par uuid B g d"
  then show "quote_inv par uuid B (f g) d"
    using quote_inv_cong [of "f g" g, OF slot_at_cong [OF assms(1)] assms(2,3)] by simp
qed

lemma keeps_attempt [keeps_intros]: "keeps (held cid P) (attempt p)"
  unfolding attempt_def by (intro keeps_intros)

lemma keeps_reads [keeps_intros]:
  "keeps (held cid P) (mm_hold c)" "keeps (held cid P) (base_value c mid)" "keeps (held cid P) ctl_venue"
  "keeps (held cid P) (exposure_read u p c xc mid x)" "keeps (held cid P) (recycle_allows c b target mid)"
  "keeps (held cid P) (within_exposure c k mid q)" "keeps (held cid P) (admitted c k target mid q allowed)"
proof -
  show h: "keeps (held cid P) (mm_hold c)" unfolding mm_hold_def by (intro keeps_intros)
  show b: "keeps (held cid P) (base_value c mid)" for mid unfolding base_value_def by (intro keeps_intros h)
  show "keeps (held cid P) ctl_venue" unfolding ctl_venue_def by (intro keeps_intros)
  show "keeps (held cid P) (exposure_read u p c xc mid x)" unfolding exposure_read_def by (intro keeps_intros)
  show r: "keeps (held cid P) (recycle_allows c b target mid)" for b unfolding recycle_allows_def by (intro keeps_intros b)
  show w: "keeps (held cid P) (within_exposure c k mid q)" unfolding within_exposure_def Let_def by (intro keeps_intros b)
  show "keeps (held cid P) (admitted c k target mid q allowed)" unfolding admitted_def by (intro keeps_intros r w)
qed

lemma ee_order_entry [simp]:
  "ee_terminated (EX_Order a) = is_terminated a" "failed_resting (EX_Order a) \<longleftrightarrow> ex_close a = Some FAILED \<and> \<not> order_terminal (oe_order a)"
  by (simp_all add: failed_resting_def exec_base.defs is_terminated_def)

lemma gone_if:
  assumes "order_entry True d i" "\<And>x. map_of d i = Some x \<Longrightarrow> ee_terminated x" "\<not> left_resting d i"
  shows "gone d i"
proof (cases "map_of d i")
  case (Some x)
  then obtain a where a: "x = EX_Order a" "stop_ok a"
    using assms(1) by (cases x) (simp_all add: order_entry_def del: map_of_eq_Some_iff)
  have "is_terminated a" using assms(2) [OF Some] unfolding a(1) ee_order_entry(1) .
  moreover have "\<not> (ex_close a = Some FAILED \<and> \<not> order_terminal (oe_order a))"
    using assms(3) unfolding left_resting_def Some a(1) by simp
  ultimately have "done_with a" using a(2) unfolding done_with_def stop_ok_def by blast
  then show ?thesis unfolding gone_def Some a(1) by simp
qed (simp add: gone_def)

definition ended :: "string \<Rightarrow> ('v, 'k, 'c) orch \<Rightarrow> bool" where
  "ended i s \<longleftrightarrow> (\<forall>x. map_of (or_executors s) i = Some x \<longrightarrow> ee_terminated x)"

lemma stop_run:
  assumes "map_of (or_executors s) i = Some (EX_Order a)" "stop_ok a"
  shows "wp (on_executor i (ee_on_stop api ct)) (\<lambda>_. ended i) (\<lambda>_ _. False) s"
proof -
  have "wp (oe_on_stop api ct) (\<lambda>_ s. is_terminated (fst s)) (\<lambda>_ _. False) (a, or_env s)"
    by (rule wp_mono [OF stop_fit [OF assms(2)]]) simp_all
  from wp_total [OF this] obtain u b e' where "oe_on_stop api ct (a, or_env s) = (Inr u, (b, e'))" "is_terminated b"
    by (metis fst_conv prod.collapse)
  then show ?thesis
    using assms(1) by (simp add: wp_on_executor lift_ex_def ended_def exec_base.defs is_terminated_def del: map_of_eq_Some_iff)
qed

lemma stop_ends:
  assumes "order_entry True (or_executors s) i"
  shows "wp (orch_stop dp i ct) (\<lambda>_. ended i) (\<lambda>_ _. True) s"
proof (cases "map_of (or_executors s) i")
  case None
  then show ?thesis by (simp add: orch_stop_def ended_def)
next
  case (Some x)
  then obtain a where a: "x = EX_Order a" "stop_ok a"
    using assms by (cases x) (simp_all add: order_entry_def del: map_of_eq_Some_iff)
  have e: "ended i s' \<Longrightarrow> wp (emit_stopped dp i) (\<lambda>_. ended i) (\<lambda>_ _. True) s'" for s'
    by (cases "map_of (or_executors s') i") (simp_all add: emit_stopped_def ended_def del: map_of_eq_Some_iff)
  have "wp (on_executor i (ee_on_stop (dp_api dp) ct)) (\<lambda>_. wp (emit_stopped dp i) (\<lambda>_. ended i) (\<lambda>_ _. True)) (\<lambda>_ _. True) s"
    by (rule wp_mono [OF stop_run [OF Some [unfolded a(1)] a(2)]]) (simp_all add: e)
  then show ?thesis by (simp add: orch_stop_def Some del: map_of_eq_Some_iff)
qed

lemma stop_release:
  assumes "sound_with cid par uuid B (slot_bound par k i) s"
  shows "wp (stop_and_release ve cid k i)
    (\<lambda>b. if b then sound_with cid par uuid B (slot_free k) else sound cid par uuid B) (\<lambda>_. sound cid par uuid B) s"
proof -
  let ?S = "sound_with cid par uuid B (slot_bound par k i)"
  have "wp (orch_stop (ge_deps ve) i EARLY_STOP) (\<lambda>_ s'. ?S s' \<and> (\<not> mp_fuse par \<longrightarrow> ended i s')) (\<lambda>_. ?S) s"
  proof (cases "mp_fuse par")
    case True
    then show ?thesis using keepsD [OF qv.stopping assms] by simp
  next
    case False
    have "order_entry True (or_executors s) i"
      using assms False by (auto simp: held_def slot_bound_def dest: quote_invD(5))
    then show ?thesis
      using wp_conj [OF keepsD [OF qv.stopping assms] stop_ends] False by (auto elim: wp_mono)
  qed
  then show ?thesis
    unfolding stop_and_release_def wp_bind
  proof (rule wp_mono)
    fix b s' assume s': "?S s' \<and> (\<not> mp_fuse par \<longrightarrow> ended i s')"
    then obtain g where g: "map_of (or_controllers s') cid = Some g" "quote_inv par uuid B g (or_executors s')" "slot_bound par k i g"
      by (auto simp: held_def)
    have "gone (or_executors s') j" if "\<not> mp_fuse par" "qs_ex (slot_at k g) = Some j" "\<not> left_resting (or_executors s') i" for j
      using quote_invD(5) [OF g(2) that(2)] s' that g(3) by (intro gone_if) (auto simp: slot_bound_def ended_def)
    then have "\<not> left_resting (or_executors s') i \<Longrightarrow> quote_inv par uuid B (put_slot k empty_slot g) (or_executors s')"
      by (intro quote_inv_released [OF g(2)])
    then show "wp (getsP (\<lambda>s. left_resting (or_executors s) i)) (\<lambda>a. wp (if a then ret False else thenP (release_slot cid k) (ret True))
        (\<lambda>b. if b then sound_with cid par uuid B (slot_free k) else sound cid par uuid B) (\<lambda>_. sound cid par uuid B))
        (\<lambda>_. sound cid par uuid B) s'"
      using g by (auto simp: release_slot_def held_def slot_free_def empty_slot_def simp del: map_of_eq_Some_iff)
  qed (auto intro: sound_weaken)
qed

text \<open>Freeing a slot whose executor is over: it is then empty or bound to a live executor.\<close>

definition slot_ready :: "slot_key \<Rightarrow> mm_ctl \<Rightarrow> engine_executor odict \<Rightarrow> bool" where
  "slot_ready k g d \<longleftrightarrow> (\<forall>i. qs_ex (slot_at k g) = Some i \<longrightarrow> is_live d i)"

lemma retry_release:
  assumes "sound_with cid par uuid B (slot_bound par k i) s" "left_resting (or_executors s) i"
  shows "wp (retry_failed_stop ve i) (\<lambda>b s'. sound_with cid par uuid B (slot_bound par k i) s'
      \<and> (b \<longrightarrow> \<not> mp_fuse par \<longrightarrow> gone (or_executors s') i)) (\<lambda>_. sound cid par uuid B) s"
proof -
  let ?S = "sound_with cid par uuid B (slot_bound par k i)"
  have stop: "wp (on_executor i (ee_on_stop (dp_api (ge_deps ve)) EARLY_STOP)) (\<lambda>_ s'. ?S s' \<and> (\<not> mp_fuse par \<longrightarrow> ended i s')) (\<lambda>_. ?S) s"
  proof (cases "mp_fuse par")
    case True
    then show ?thesis using keepsD [OF qv.stopping_executor assms(1)] by simp
  next
    case False
    have "order_entry True (or_executors s) i"
      using assms False by (auto simp: held_def slot_bound_def dest: quote_invD(5))
    then obtain a where a: "map_of (or_executors s) i = Some (EX_Order a)" "stop_ok a"
      using assms(2) by (auto simp: order_entry_def left_resting_def simp del: map_of_eq_Some_iff split: option.splits engine_executor.splits)
    show ?thesis
      using wp_conj [OF keepsD [OF qv.stopping_executor assms(1)] stop_run [OF a, of "dp_api (ge_deps ve)" EARLY_STOP]]
      by (rule wp_mono) auto
  qed
  have g: "gone (or_executors s') i" if "?S s'" "\<not> mp_fuse par" "ended i s'"
    "case map_of (or_executors s') i of None \<Rightarrow> True | Some x \<Rightarrow> order_terminal (ee_order x)" for s'
  proof -
    have "order_entry True (or_executors s') i"
      using that by (auto simp: held_def slot_bound_def dest: quote_invD(5))
    then show ?thesis
      using that(3,4) by (intro gone_if) (auto simp: ended_def left_resting_def failed_resting_def simp del: map_of_eq_Some_iff split: option.splits)
  qed
  show ?thesis
    unfolding retry_failed_stop_def wp_bind wp_try
    by (rule wp_mono [OF stop]) (auto intro: g)
qed

lemma free_stale_ready:
  assumes "sound cid par uuid B s"
  shows "wp (free_stale ve cid k)
    (\<lambda>b. if b then held cid (\<lambda>g d. quote_inv par uuid B g d \<and> slot_ready k g d) else sound cid par uuid B) (\<lambda>_. sound cid par uuid B) s"
proof -
  obtain g where g: "map_of (or_controllers s) cid = Some g" "quote_inv par uuid B g (or_executors s)"
    using assms by (auto simp: held_def)
  show ?thesis
  proof (cases "qs_ex (slot_at k g)")
    case None
    then show ?thesis using g by (auto simp: free_stale_def held_def slot_ready_def simp del: map_of_eq_Some_iff)
  next
    case (Some i)
    have b: "sound_with cid par uuid B (slot_bound par k i) s" using g Some by (auto simp: held_def slot_bound_def)
    have release: "wp (thenP (release_slot cid k) (ret True))
        (\<lambda>b. if b then held cid (\<lambda>g d. quote_inv par uuid B g d \<and> slot_ready k g d) else sound cid par uuid B) (\<lambda>_. sound cid par uuid B) s'"
      if "sound_with cid par uuid B (slot_bound par k i) s'" "\<not> mp_fuse par \<longrightarrow> gone (or_executors s') i" for s'
      using that by (auto simp: release_slot_def held_def slot_ready_def slot_bound_def empty_slot_def
          simp del: map_of_eq_Some_iff intro!: quote_inv_released [unfolded empty_slot_def])
    consider (live) "is_live (or_executors s) i" | (resting) "\<not> is_live (or_executors s) i" "left_resting (or_executors s) i"
      | (over) "\<not> is_live (or_executors s) i" "\<not> left_resting (or_executors s) i" by blast
    then show ?thesis
    proof cases
      case live
      then show ?thesis using g Some by (auto simp: free_stale_def held_def slot_ready_def simp del: map_of_eq_Some_iff)
    next
      case resting
      then show ?thesis
        by (simp add: free_stale_def g(1) Some del: map_of_eq_Some_iff)
          (rule wp_mono [OF retry_release [OF b]], auto intro: release [unfolded wp_bind] sound_weaken)
    next
      case over
      have "gone (or_executors s) i" if "\<not> mp_fuse par"
        using quote_invD(5) [OF g(2) Some] over that
        by (intro gone_if) (auto simp: is_live_def simp del: map_of_eq_Some_iff split: option.splits)
      then have "wp (thenP (release_slot cid k) (ret True))
        (\<lambda>b. if b then held cid (\<lambda>g d. quote_inv par uuid B g d \<and> slot_ready k g d) else sound cid par uuid B) (\<lambda>_. sound cid par uuid B) s"
        by (intro release [OF b]) blast
      then show ?thesis using over by (simp add: free_stale_def g(1) Some del: map_of_eq_Some_iff)
    qed
  qed
qed

text \<open>Placing or fusing a new quote.\<close>

lemma would_not_cross:
  assumes "\<not> would_self_trade d is_bid target g" "mp_stp (mq_par g)" "0 < target"
    and "\<And>k i. qs_ex (slot_at k g) = Some i \<Longrightarrow> qs_price (slot_at k g) \<noteq> None"
  shows "clear_of d is_bid target g"
  unfolding clear_of_def
proof (intro allI impI)
  fix k assume k: "fst k \<noteq> is_bid" "slot_live d (slot_at k g)"
  then obtain i where i: "qs_ex (slot_at k g) = Some i" by (cases "qs_ex (slot_at k g)") (simp_all add: slot_live_def)
  then obtain p where p: "qs_price (slot_at k g) = Some p" using assms(4) by blast
  have "map_of (mq_slots g) k = Some (slot_at k g)"
    using i by (cases "map_of (mq_slots g) k") (simp_all add: slot_at_def empty_slot_def del: map_of_eq_Some_iff)
  from map_of_SomeD [OF this] have "\<not> crosses is_bid target p"
    using assms(1-3) k p by (force simp: would_self_trade_def list_ex_iff)
  then show "\<exists>p. qs_price (slot_at k g) = Some p \<and> \<not> crosses is_bid target p" using p by blast
qed

text \<open>After the self-trade check and the choice of a fresh identifier.\<close>

definition mk_quote :: "('v, 'k) mm_env \<Rightarrow> string \<Rightarrow> trade_type \<Rightarrow> dec \<Rightarrow> dec \<Rightarrow> mm_ctl \<Rightarrow> time \<Rightarrow> order_exec" where
  "mk_quote ve cid side target q g t = mk_order_exec (ge_uuid ve (mq_uid g)) (ct_user g) cid True (mq_has_inv g) (quote_config g side target q) t"

lemma mk_quote_simps [simp]:
  "ex_id (mk_quote ve cid side target q g t) = ge_uuid ve (mq_uid g)" "\<not> is_terminated (mk_quote ve cid side target q g t)"
  by (simp_all add: mk_quote_def mk_order_exec_def mk_exec_base_def exec_base.defs order_exec.defs is_terminated_def)

lemma new_quote_wp:
  "wp (new_quote ve cid side target q g) Q E s = (case map_of (or_controllers s) cid of
     None \<Rightarrow> Q (mk_quote ve cid side target q g (o_now (ge_deps ve) s)) s
   | Some g' \<Rightarrow> let s' = s\<lparr>or_controllers := od_set cid (g'\<lparr>mq_uid := Suc (mq_uid g')\<rparr>) (or_controllers s)\<rparr> in
       Q (mk_quote ve cid side target q g (o_now (ge_deps ve) s')) s')"
  by (auto simp: new_quote_def check_oe_config_def quote_config_def mk_quote_def Let_def split: option.split)

lemma fresh_bindable:
  assumes "quote_inv par uuid B g d" "inj uuid" "mp_stp par \<Longrightarrow> clear_of d (fst k) target g" "\<not> mp_fuse par \<Longrightarrow> slot_free k g"
  shows "bindable par uuid B k target (uuid (mq_uid g)) (g\<lparr>mq_uid := Suc (mq_uid g)\<rparr>) d"
proof -
  note D = quote_invD [OF assms(1)]
  have at: "slot_at k' (g\<lparr>mq_uid := u\<rparr>) = slot_at k' g" for k' u by (rule slot_at_cong) simp
  have "quote_inv par uuid B (g\<lparr>mq_uid := Suc (mq_uid g)\<rparr>) d"
    using D by (intro quote_invI) (simp_all add: at uncrossed_def)
  moreover have "uuid n \<noteq> uuid (mq_uid g)" if "Suc (mq_uid g) \<le> n" for n
    using that assms(2) by (auto dest: injD)
  ultimately show ?thesis
    using D(2,3) D(8) [of "mq_uid g"] assms(3,4) by (simp add: bindable_def at clear_of_def slot_free_def order_entry_def)
qed

lemma held_and: "held cid P s \<Longrightarrow> (\<And>g d. P g d \<Longrightarrow> Q g d) \<Longrightarrow> held cid Q s"
  by (auto simp: held_def)

definition pre_bind :: "mm_par \<Rightarrow> slot_key \<Rightarrow> dec \<Rightarrow> mm_ctl \<Rightarrow> engine_executor odict \<Rightarrow> bool" where
  "pre_bind par k target g d \<longleftrightarrow> (mp_stp par \<longrightarrow> clear_of d (fst k) target g) \<and> (mp_fuse par \<or> slot_free k g)"

abbreviation may_bind :: "string \<Rightarrow> mm_par \<Rightarrow> (nat \<Rightarrow> string) \<Rightarrow> (slot_key \<times> string) list \<Rightarrow> slot_key \<Rightarrow> dec \<Rightarrow> ('v, 'k) mm_orch \<Rightarrow> bool" where
  "may_bind cid par uuid B k target \<equiv> held cid (\<lambda>g d. quote_inv par uuid B g d \<and> pre_bind par k target g d)"

lemma self_trade_wp:
  assumes "sound_with cid par uuid B (\<lambda>g. R g) s" "0 < target" "\<And>g. R g \<Longrightarrow> mp_fuse par \<or> slot_free k g"
    and "\<And>s. may_bind cid par uuid B k target s \<Longrightarrow> sound_with cid par uuid B R s \<Longrightarrow> Q False s"
    and "\<And>s. sound_with cid par uuid B R s \<Longrightarrow> Q True s"
    and "\<And>g n. R (g\<lparr>mq_stp_blocks := n\<rparr>) = R g"
  shows "wp (self_trade cid (fst k) target) Q E s"
proof -
  obtain g where g: "map_of (or_controllers s) cid = Some g" "quote_inv par uuid B g (or_executors s)" "R g"
    using assms(1) by (auto simp: held_def)
  have up: "quote_inv par uuid B (g\<lparr>mq_stp_blocks := n\<rparr>) (or_executors s)" for n
    using g(2) quote_inv_cong [of "g\<lparr>mq_stp_blocks := n\<rparr>" g, OF slot_at_cong] by simp
  show ?thesis
  proof (cases "would_self_trade (or_executors s) (fst k) target g")
    case True
    then show ?thesis using g(1,3) up assms(5,6) by (simp add: self_trade_def held_def del: map_of_eq_Some_iff)
  next
    case False
    have "pre_bind par k target g (or_executors s)"
      using would_not_cross [OF False _ assms(2) quote_invD(4) [OF g(2)]] quote_invD(1) [OF g(2)] assms(3) [OF g(3)]
      by (auto simp: pre_bind_def modes_def)
    then have "Q False s" using g by (intro assms(4)) (auto simp: held_def)
    then show ?thesis using g(1) False by (simp add: self_trade_def del: map_of_eq_Some_iff)
  qed
qed

lemma bind_sound:
  assumes "held cid (bindable par uuid B k target i) s"
  shows "wp (bind_slot ve cid k i target q) (\<lambda>_. sound cid par uuid B) E s"
  using assms by (auto simp: bind_slot_def ctl_venue_def held_def simp del: map_of_eq_Some_iff intro!: bindable_bound)

lemma new_quote_bindable:
  assumes "map_of (or_controllers s) cid = Some g" "quote_inv par uuid B g (or_executors s)" "pre_bind par k target g (or_executors s)"
    and "inj uuid" "ge_uuid ve = uuid"
    and "\<And>x s'. ex_id x = uuid (mq_uid g) \<Longrightarrow> \<not> is_terminated x \<Longrightarrow> held cid (bindable par uuid B k target (ex_id x)) s' \<Longrightarrow> Q x s'"
  shows "wp (new_quote ve cid side target q g) Q E s"
proof -
  have "bindable par uuid B k target (uuid (mq_uid g)) (g\<lparr>mq_uid := Suc (mq_uid g)\<rparr>) (or_executors s)"
    using assms(3) by (intro fresh_bindable [OF assms(2,4)]) (auto simp: pre_bind_def)
  then show ?thesis
    unfolding new_quote_wp assms(1) option.case Let_def
    using assms(5) by (intro assms(6)) (simp_all add: held_def)
qed

lemma place_sound:
  assumes "sound_with cid par uuid B (\<lambda>g. mp_fuse par \<or> slot_free k g) s" "inj uuid" "ge_uuid ve = uuid"
  shows "wp (place_quote ve cid side k target q) (\<lambda>_. sound cid par uuid B) (\<lambda>_. sound cid par uuid B) s"
proof (cases "target \<le> 0 \<or> q \<le> 0")
  case True
  then show ?thesis using assms(1) sound_weaken by (auto simp: place_quote_def)
next
  case False
  have spawn: "wp (bindP (orch_spawn (ge_deps ve) (EX_Order x) rq) (\<lambda>ok. whenP ok (bind_slot ve cid k (ex_id x) target q)))
      (\<lambda>_. sound cid par uuid B) (\<lambda>_. sound cid par uuid B) s'"
    if "\<not> is_terminated x" "held cid (bindable par uuid B k target (ex_id x)) s'" for x rq s'
    unfolding wp_bind
    by (rule wp_mono [OF keepsD [OF qe.spawning [OF refl that(1)] that(2)]])
      (auto intro: bind_sound held_and bindable_inv)
  have go: "wp (with_ctl cid (\<lambda>g. bindP (new_quote ve cid side target q g) (\<lambda>x.
         bindP (orch_spawn (ge_deps ve) (EX_Order x) (Some (quote_request q))) (\<lambda>ok.
           whenP ok (bind_slot ve cid k (ex_id x) target q)))))
      (\<lambda>_. sound cid par uuid B) (\<lambda>_. sound cid par uuid B) s'" if may: "may_bind cid par uuid B k target s'" for s'
  proof -
    obtain g where g: "map_of (or_controllers s') cid = Some g" "quote_inv par uuid B g (or_executors s')"
      "pre_bind par k target g (or_executors s')" using may unfolding held_def by blast
    show ?thesis
      unfolding wp_with_ctl g(1) option.case wp_bind [of "new_quote ve cid side target q g"]
      by (rule new_quote_bindable [OF g assms(2,3)]) (rule spawn)
  qed
  have same: "(mp_fuse par \<or> slot_free k (g\<lparr>mq_stp_blocks := n\<rparr>)) = (mp_fuse par \<or> slot_free k g)" for g n
    by (simp add: slot_free_def slot_at_def)
  show ?thesis
    unfolding place_quote_def if_not_P [OF False] wp_bind [of "self_trade a b c" for a b c]
    by (rule self_trade_wp [OF assms(1)])
      (use False same in \<open>simp_all only: if_False if_True wp_ret go sound_weaken not_le de_Morgan_disj\<close>)
qed

lemma replace_sound:
  assumes "may_bind cid par uuid B k target s" "mp_fuse par" "inj uuid" "ge_uuid ve = uuid"
  shows "wp (replace_quote ve cid side k target q old digest) (\<lambda>_. sound cid par uuid B) (\<lambda>_. sound cid par uuid B) s"
proof -
  obtain g where g: "map_of (or_controllers s) cid = Some g" "quote_inv par uuid B g (or_executors s)"
    "pre_bind par k target g (or_executors s)" using assms(1) unfolding held_def by blast
  have s: "sound cid par uuid B s" using g by (auto simp: held_def)
  have settle: "keeps (sound cid par uuid B) (tryP (thenP (orch_settle_replaced (ge_deps ve) old) (on_venue (me_forget ve digest))) (\<lambda>_. ret ()))"
    using assms(2) by (intro keeps_intros qi.settling) simp
  have count: "keeps (sound cid par uuid B) (upd_ctl cid (\<lambda>g. g\<lparr>mq_replaced := Suc (mq_replaced g)\<rparr>))"
    by (rule quiet_upd) simp_all
  have tail: "wp (thenP (bind_slot ve cid k (ex_id x) target q)
        (thenP (upd_ctl cid (\<lambda>g. g\<lparr>mq_replaced := Suc (mq_replaced g)\<rparr>))
        (thenP (tryP (thenP (orch_settle_replaced (ge_deps ve) old) (on_venue (me_forget ve digest))) (\<lambda>_. ret ()))
           (ret True)))) (\<lambda>_. sound cid par uuid B) (\<lambda>_. sound cid par uuid B) s'"
    if "held cid (bindable par uuid B k target (ex_id x)) s'" for x s'
    unfolding wp_bind [of "bind_slot ve cid k (ex_id x) target q"]
    by (rule wp_mono [OF bind_sound [OF that, where E = "\<lambda>_ _. False"]])
      (rule keepsD [OF keeps_bind [OF count keeps_bind [OF settle keeps_ret]]], assumption, simp)
  have adopt: "wp (bindP (new_quote ve cid side target q g) (\<lambda>x. thenP (orch_adopt (ge_deps ve) (EX_Order x) ord)
      (thenP (bind_slot ve cid k (ex_id x) target q)
        (thenP (upd_ctl cid (\<lambda>g. g\<lparr>mq_replaced := Suc (mq_replaced g)\<rparr>))
        (thenP (tryP (thenP (orch_settle_replaced (ge_deps ve) old) (on_venue (me_forget ve digest))) (\<lambda>_. ret ()))
           (ret True)))))) (\<lambda>_. sound cid par uuid B) (\<lambda>_. sound cid par uuid B) (s\<lparr>or_env := e\<rparr>)" for ord e
    unfolding wp_bind [of "new_quote ve cid side target q g"]
  proof (rule new_quote_bindable [OF _ _ _ assms(3,4)])
    fix x :: order_exec and s' :: "('a, 'b) mm_orch"
    assume x: "\<not> is_terminated x" "held cid (bindable par uuid B k target (ex_id x)) s'"
    show "wp (thenP (orch_adopt (ge_deps ve) (EX_Order x) ord)
      (thenP (bind_slot ve cid k (ex_id x) target q)
        (thenP (upd_ctl cid (\<lambda>g. g\<lparr>mq_replaced := Suc (mq_replaced g)\<rparr>))
        (thenP (tryP (thenP (orch_settle_replaced (ge_deps ve) old) (on_venue (me_forget ve digest))) (\<lambda>_. ret ()))
           (ret True))))) (\<lambda>_. sound cid par uuid B) (\<lambda>_. sound cid par uuid B) s'"
      unfolding wp_bind [of "orch_adopt (ge_deps ve) (EX_Order x) ord"]
      by (rule wp_mono [OF keepsD [OF qe.adopting [OF refl x(1)] x(2)]]) (rule tail, assumption, erule held_and, rule bindable_inv)
  qed (use g in simp_all)
  have venue: "wp (tryP (bindP (on_venue p) (\<lambda>o'. ret (Inr o'))) (\<lambda>c. ret (Inl c))) (\<lambda>_ s'. \<exists>e. s' = s\<lparr>or_env := e\<rparr>) (\<lambda>_ _. False) s"
    for p :: "('a, nado_order option) prog" by (auto intro: wp_any)
  show ?thesis
    unfolding replace_quote_def wp_ask_ctl g(1) option.case wp_bind [of "tryP p h" for p h]
  proof (rule wp_mono [OF venue])
    fix r and s' :: "('a, 'b) mm_orch" assume "\<exists>e. s' = s\<lparr>or_env := e\<rparr>"
    then obtain e where e: "s' = s\<lparr>or_env := e\<rparr>" ..
    then have s': "sound cid par uuid B s'" using s by simp
    show "wp (case r of Inl (AdapterThrottled m) \<Rightarrow> ret True | Inl c \<Rightarrow> ret False | Inr None \<Rightarrow> ret False
        | Inr (Some ord) \<Rightarrow> bindP (new_quote ve cid side target q g) (\<lambda>x. thenP (orch_adopt (ge_deps ve) (EX_Order x) ord)
          (thenP (bind_slot ve cid k (ex_id x) target q)
            (thenP (upd_ctl cid (\<lambda>g. g\<lparr>mq_replaced := Suc (mq_replaced g)\<rparr>))
            (thenP (tryP (thenP (orch_settle_replaced (ge_deps ve) old) (on_venue (me_forget ve digest))) (\<lambda>_. ret ()))
               (ret True))))))
        (\<lambda>_. sound cid par uuid B) (\<lambda>_. sound cid par uuid B) s'"
    proof (cases r)
      case (Inl c)
      then show ?thesis using s' by (cases c) simp_all
    next
      case (Inr o')
      then show ?thesis using s' adopt by (cases o') (simp_all add: e del: wp_bind)
    qed
  qed simp
qed

lemma fused_sound:
  assumes "sound_with cid par uuid B (slot_bound par k i) s" "inj uuid" "ge_uuid ve = uuid"
  shows "wp (fused ve cid side k target q i)
    (\<lambda>b. if b then sound cid par uuid B else sound_with cid par uuid B (slot_bound par k i)) (\<lambda>_. sound cid par uuid B) s"
proof -
  obtain g where g: "map_of (or_controllers s) cid = Some g" "quote_inv par uuid B g (or_executors s)" "slot_bound par k i g"
    using assms(1) unfolding held_def by blast
  have par: "mp_fuse (mq_par g) = mp_fuse par" using quote_invD(1) [OF g(2)] by (simp add: modes_def)
  show ?thesis
  proof (cases "mp_fuse par \<and> target > 0 \<and> q > 0")
    case False
    then show ?thesis using assms(1) by (auto simp: fused_def g(1) par simp del: map_of_eq_Some_iff)
  next
    case True
    have weak: "sound cid par uuid B s' \<Longrightarrow> if b then sound cid par uuid B s' else sound_with cid par uuid B (slot_bound par k i) s'" for b s'
      using True by (auto simp: held_def slot_bound_def)
    have "wp (bindP (getsP (\<lambda>s. order_digest (or_executors s) i)) (\<lambda>dg. case dg of None \<Rightarrow> ret False
         | Some digest \<Rightarrow> replace_quote ve cid side k target q i digest))
       (\<lambda>b. if b then sound cid par uuid B else sound_with cid par uuid B (slot_bound par k i)) (\<lambda>_. sound cid par uuid B) s'"
      if may: "may_bind cid par uuid B k target s'" for s'
    proof (cases "order_digest (or_executors s') i")
      case None
      then show ?thesis using may weak [of s' False] by (auto simp: held_def)
    next
      case (Some digest)
      show ?thesis
        unfolding wp_bind wp_gets Some option.case
        by (rule wp_mono [OF replace_sound [OF may _ assms(2,3)]]) (use True in \<open>auto simp: held_def slot_bound_def\<close>)
    qed
    then have "wp (bindP (self_trade cid (fst k) target) (\<lambda>st. if st then ret False
       else bindP (getsP (\<lambda>s. order_digest (or_executors s) i)) (\<lambda>dg. case dg of None \<Rightarrow> ret False
         | Some digest \<Rightarrow> replace_quote ve cid side k target q i digest)))
       (\<lambda>b. if b then sound cid par uuid B else sound_with cid par uuid B (slot_bound par k i)) (\<lambda>_. sound cid par uuid B) s"
      unfolding wp_bind [of "self_trade a b c" for a b c]
      by (intro self_trade_wp [OF assms(1)]) (use True in \<open>simp_all add: slot_bound_def del: wp_bind\<close>)
    then show ?thesis using True by (simp add: fused_def g(1) par del: map_of_eq_Some_iff wp_bind)
  qed
qed

lemma requote_sound:
  assumes "held cid (\<lambda>g d. quote_inv par uuid B g d \<and> qs_ex (slot_at k g) = Some i \<and> is_live d i) s" "inj uuid" "ge_uuid ve = uuid"
  shows "wp (requote ve cid side k target q is_opening i)
    (\<lambda>b. if b then sound_with cid par uuid B (\<lambda>g. mp_fuse par \<or> slot_free k g) else sound cid par uuid B) (\<lambda>_. sound cid par uuid B) s"
proof -
  obtain g where g: "map_of (or_controllers s) cid = Some g" "quote_inv par uuid B g (or_executors s)" "qs_ex (slot_at k g) = Some i"
    "is_live (or_executors s) i" using assms(1) unfolding held_def by blast
  have b: "sound_with cid par uuid B (slot_bound par k i) s" using g by (auto simp: held_def slot_bound_def)
  have stop: "wp (stop_and_release ve cid k i)
    (\<lambda>b. if b then sound_with cid par uuid B (\<lambda>g. mp_fuse par \<or> slot_free k g) else sound cid par uuid B) (\<lambda>_. sound cid par uuid B) s'"
    if "sound_with cid par uuid B (slot_bound par k i) s'" for s'
    by (rule wp_mono [OF stop_release [OF that]]) (auto split: if_splits elim: held_and)
  have "wp (bindP (fused ve cid side k target q i) (\<lambda>done'. if done' then ret False else stop_and_release ve cid k i))
    (\<lambda>b. if b then sound_with cid par uuid B (\<lambda>g. mp_fuse par \<or> slot_free k g) else sound cid par uuid B) (\<lambda>_. sound cid par uuid B) s"
    unfolding wp_bind
    by (rule wp_mono [OF fused_sound [OF b assms(2,3)]]) (auto intro: stop split: if_splits)
  then show ?thesis
    unfolding requote_def wp_ask_ctl g(1) option.case wp_bind [of "getsP f" for f] wp_gets prod.case
    using g(4) sound_weaken [OF b] by (simp del: wp_bind)
qed

lemma reconcile_live_sound:
  assumes "held cid (\<lambda>g d. quote_inv par uuid B g d \<and> slot_ready k g d) s" "inj uuid" "ge_uuid ve = uuid"
  shows "wp (reconcile_live ve cid side k target q allowed is_opening) (\<lambda>_. sound cid par uuid B) (\<lambda>_. sound cid par uuid B) s"
proof -
  obtain g where g: "map_of (or_controllers s) cid = Some g" "quote_inv par uuid B g (or_executors s)" "slot_ready k g (or_executors s)"
    using assms(1) unfolding held_def by blast
  have s: "sound cid par uuid B s" using g by (auto simp: held_def)
  have release: "wp (stop_and_release ve cid k i) (\<lambda>_. sound cid par uuid B) (\<lambda>_. sound cid par uuid B) s" if "qs_ex (slot_at k g) = Some i" for i
    by (rule wp_mono [OF stop_release [of cid par uuid B k i]])
      (use g that in \<open>auto simp: held_def slot_bound_def simp del: map_of_eq_Some_iff split: if_splits\<close>)
  have place: "wp (place_quote ve cid side k target q) (\<lambda>_. sound cid par uuid B) (\<lambda>_. sound cid par uuid B) s'"
    if "sound_with cid par uuid B (\<lambda>g. mp_fuse par \<or> slot_free k g) s'" for s'
    by (rule place_sound [OF that assms(2,3)])
  have "wp (bindP (case (qs_ex (slot_at k g), qs_price (slot_at k g)) of (Some i, Some p) \<Rightarrow> requote ve cid side k target q is_opening i | _ \<Rightarrow> ret True)
         (\<lambda>go. whenP go (place_quote ve cid side k target q))) (\<lambda>_. sound cid par uuid B) (\<lambda>_. sound cid par uuid B) s"
  proof (cases "qs_ex (slot_at k g)")
    case None
    then have "sound_with cid par uuid B (\<lambda>g. mp_fuse par \<or> slot_free k g) s" using g by (auto simp: held_def slot_free_def)
    then show ?thesis using place by (simp add: None)
  next
    case (Some i)
    then obtain p where p: "qs_price (slot_at k g) = Some p" using quote_invD(4) [OF g(2)] by blast
    have "held cid (\<lambda>g d. quote_inv par uuid B g d \<and> qs_ex (slot_at k g) = Some i \<and> is_live d i) s"
      using g Some by (auto simp: held_def slot_ready_def)
    then show ?thesis
      unfolding Some p prod.case option.case wp_bind
      by (rule wp_mono [OF requote_sound [OF _ assms(2,3)]]) (auto intro: place split: if_splits)
  qed
  then have go: "wp (if is_opening \<and> opening_blocked (dp_api (ge_deps ve)) v then ret ()
       else bindP (case (qs_ex (slot_at k g), qs_price (slot_at k g)) of (Some i, Some p) \<Rightarrow> requote ve cid side k target q is_opening i | _ \<Rightarrow> ret True)
         (\<lambda>go. whenP go (place_quote ve cid side k target q))) (\<lambda>_. sound cid par uuid B) (\<lambda>_. sound cid par uuid B) s" for v
    using s by (simp del: wp_bind)
  have "wp (case qs_ex (slot_at k g) of None \<Rightarrow> ret () | Some i \<Rightarrow> thenP (stop_and_release ve cid k i) (ret ()))
      (\<lambda>_. sound cid par uuid B) (\<lambda>_. sound cid par uuid B) s"
    using s by (cases "qs_ex (slot_at k g)") (auto intro: wp_mono [OF release])
  then show ?thesis
    unfolding reconcile_live_def wp_with_ctl g(1) option.case Let_def ctl_venue_def
    using go [of "env_venue (or_env s)"] by (cases allowed) (simp_all add: wp_bind [of "getsP f" for f] del: wp_bind)
qed

lemma reconcile_sound:
  assumes "inj uuid" "ge_uuid ve = uuid"
  shows "keeps (sound cid par uuid B) (reconcile ve cid side l target q allowed mid is_opening)"
proof -
  have ensure: "keeps (sound cid par uuid B) (upd_ctl cid (ensure_slot k))" for k
    by (rule keeps_upd_ctl) (simp add: quote_inv_cong [of "ensure_slot k g" g for g])
  have live: "keeps (sound cid par uuid B) (bindP (free_stale ve cid k) (\<lambda>go. whenP go (reconcile_live ve cid side k target q ok is_opening)))" for k ok
    by (rule keepsI, unfold wp_bind, rule wp_mono [OF free_stale_ready])
      (auto intro: reconcile_live_sound [OF _ assms] split: if_splits)
  show ?thesis unfolding reconcile_def Let_def by (intro keeps_bind ensure keeps_reads live)
qed

lemma release_any:
  assumes "sound cid par uuid B s" "map_of (or_controllers s) cid = Some g" "qs_ex (slot_at k g) = Some i"
  shows "wp (thenP (stop_and_release ve cid k i) (ret ())) (\<lambda>_. sound cid par uuid B) (\<lambda>_. sound cid par uuid B) s"
proof -
  have "sound_with cid par uuid B (slot_bound par k i) s" using assms by (auto simp: held_def slot_bound_def)
  then show ?thesis
    by (subst wp_bind, intro wp_mono [OF stop_release]) (auto split: if_splits elim: held_and)
qed

lemma each_slot:
  fixes p :: "('v, 'k, unit) mprog" and ve :: "('v, 'k) mm_env"
  assumes "\<And>s g. sound cid par uuid B s \<Longrightarrow> map_of (or_controllers s) cid = Some g \<Longrightarrow> qs_ex (slot_at k g) = None
      \<Longrightarrow> wp p (\<lambda>_. sound cid par uuid B) (\<lambda>_. sound cid par uuid B) s"
  shows "keeps (sound cid par uuid B) (with_ctl cid (\<lambda>g. case qs_ex (slot_at k g) of None \<Rightarrow> p
      | Some i \<Rightarrow> thenP (stop_and_release ve cid k i) (ret ())))"
proof (rule keepsI)
  fix s :: "('v, 'k) mm_orch" assume s: "sound cid par uuid B s"
  then obtain g where g: "map_of (or_controllers s) cid = Some g" unfolding held_def by blast
  show "wp (with_ctl cid (\<lambda>g. case qs_ex (slot_at k g) of None \<Rightarrow> p
    | Some i \<Rightarrow> thenP (stop_and_release ve cid k i) (ret ()))) (\<lambda>_. sound cid par uuid B) (\<lambda>_. sound cid par uuid B) s"
    unfolding wp_with_ctl g option.case
    using release_any [OF s g] assms [OF s g] by (cases "qs_ex (slot_at k g)") (simp_all del: wp_bind)
qed

lemma retire_sound: "keeps (sound cid par uuid B) (retire_beyond ve cid is_bid n)"
  unfolding retire_beyond_def by (intro keeps_with keeps_for each_slot) simp

lemma stop_all_sound: "keeps (sound cid par uuid B) (stop_all_quotes ve cid)"
proof -
  have "quote_inv par uuid B (put_slot k ((slot_at k g)\<lparr>qs_price := None\<rparr>) g) d"
    if "quote_inv par uuid B g d" "qs_ex (slot_at k g) = None" for k g d
    using that(2) by (intro quote_inv_emptied [OF that(1)]) simp_all
  then show ?thesis
    unfolding stop_all_quotes_def
    by (intro keeps_with keeps_for each_slot) (auto simp: held_def simp del: map_of_eq_Some_iff)
qed

lemma quote_side_sound:
  assumes "inj uuid" "ge_uuid ve = uuid"
  shows "keeps (sound cid par uuid B) (quote_side ve cid side target allowed mid is_opening)"
  unfolding quote_side_def Let_def
  by (intro keeps_intros keeps_reads reconcile_sound [OF assms] retire_sound)

subsection \<open>The rest of the tick does not touch the quotes\<close>

definition quiet :: "(mm_ctl \<Rightarrow> mm_ctl) \<Rightarrow> bool" where
  "quiet f \<longleftrightarrow> (\<forall>g. mq_slots (f g) = mq_slots g \<and> mq_par (f g) = mq_par g \<and> mq_uid (f g) = mq_uid g)"

lemma keeps_quiet: "quiet f \<Longrightarrow> keeps (sound cid par uuid B) (upd_ctl cid f)"
  by (rule quiet_upd) (simp_all add: quiet_def)

lemma quiet_profile: "quiet (apply_profile sp)"
  by (simp add: quiet_def apply_profile_def Let_def)

lemma quiet_spread: "quiet auto_spread"
  by (simp add: quiet_def auto_spread_def Let_def)

lemma quiet_signal: "quiet (absorb_signal th payload)"
  by (simp add: quiet_def absorb_signal_def no_alpha_def Let_def split: option.split)

lemma quiet_budget: "quiet (\<lambda>g. snd (expected_budget h mid g))"
  by (simp add: quiet_def expected_budget_def Let_def split: option.split)

lemma quiet_anchor: "quiet (\<lambda>g. snd (quote_anchor mid base g))"
  unfolding quiet_def quote_anchor_def recycle_theta_def reservation_price_def Let_def by (simp split: if_split)

lemma quiet_targets: "quiet (\<lambda>g. snd (mm_targets mid base sm g))"
proof -
  have "snd (mm_targets mid base sm g) = snd (quote_anchor mid base g)" for g by (simp add: mm_targets_def split: prod.split)
  then show ?thesis using quiet_anchor [of mid base] by (simp add: quiet_def)
qed

lemmas quiet_steps = quiet_profile quiet_spread quiet_signal quiet_budget quiet_targets

lemma tick_sound:
  assumes "inj uuid" "ge_uuid ve = uuid"
  shows "keeps (sound cid par uuid B) (mm_on_tick ve cid)"
proof -
  note q = keeps_quiet [unfolded quiet_def]
  note k [keeps_intros] = keeps_reads keeps_quiet [OF quiet_steps(1)] keeps_quiet [OF quiet_steps(2)] keeps_quiet [OF quiet_steps(3)]
    keeps_quiet [OF quiet_steps(4)] keeps_quiet [OF quiet_steps(5)]
  have children: "keeps (sound cid par uuid B) (mm_children ve cid)"
    unfolding mm_children_def my_executors_def by (intro keeps_intros qi.ticking)
  have touch: "keeps (sound cid par uuid B) (touch_targets ve cid)"
    unfolding touch_targets_def by (intro keeps_intros q) (auto intro!: keeps_intros q split: option.split)
  have market: "keeps (sound cid par uuid B) (mm_market ve cid)"
    unfolding mm_market_def by (intro keeps_intros q touch) (auto intro!: keeps_intros)
  have profile: "keeps (sound cid par uuid B) (resolve_profile_once ve cid)"
    unfolding resolve_profile_once_def observed_spread_bp_def by (intro keeps_intros)
  have alpha: "keeps (sound cid par uuid B) (refresh_alpha ve cid mid)" for mid
    unfolding refresh_alpha_def by (intro keeps_intros)
  have widen: "keeps (sound cid par uuid B) (refresh_widen ve cid)"
    unfolding refresh_widen_def by (intro keeps_intros q) simp_all
  have levels: "keeps (sound cid par uuid B) (refresh_levels ve cid)"
    unfolding refresh_levels_def by (intro keeps_intros) (auto intro!: keeps_intros q split: option.split)
  have exposure: "keeps (sound cid par uuid B) (mm_exposure cid mid)" for mid
    unfolding mm_exposure_def by (intro keeps_intros) (auto intro!: keeps_intros q split: prod.split)
  have gate: "keeps (sound cid par uuid B) (mm_gate ve cid)" unfolding mm_gate_def by (intro keeps_intros q) simp
  have allowed: "keeps (sound cid par uuid B) (mm_allowed ve cid mid h)" for mid h
    unfolding mm_allowed_def Let_def
    by (intro keeps_intros exposure) (auto intro!: keeps_intros q gate split: prod.split)
  have price: "keeps (sound cid par uuid B) (mm_price cid mid base sm t)" for mid base sm t
    unfolding mm_price_def by (intro keeps_intros)
  have micro: "keeps (sound cid par uuid B) (record_micro ve cid mid t)" for mid t
    unfolding record_micro_def by (intro keeps_intros q) simp_all
  have quote: "keeps (sound cid par uuid B) (mm_quote ve cid mid base allowed t)" for mid base allowed t
    unfolding mm_quote_def by (intro keeps_intros micro quote_side_sound [OF assms])
  show ?thesis
    unfolding mm_on_tick_def
    by (intro keeps_intros children market) (auto intro!: keeps_intros profile alpha widen levels allowed price quote split: prod.split)
qed

subsection \<open>The orchestrator's ticks\<close>

lemma map_of_pop_cases: "map_of (od_pop j d) i = None \<or> map_of (od_pop j d) i = map_of d i"
  by simp

lemma quote_inv_pop:
  assumes "quote_inv par uuid B g d"
  shows "quote_inv par uuid B g (od_pop j d)"
proof -
  note D = quote_invD [OF assms]
  note cs = map_of_pop_cases [of j d]
  have live: "is_live (od_pop j d) i \<Longrightarrow> is_live d i" for i using cs [of i] by (auto simp: is_live_def)
  have entry: "order_entry st d i \<Longrightarrow> order_entry st (od_pop j d) i" for i st using cs [of i] by (auto simp: order_entry_def)
  have over: "gone d i \<Longrightarrow> gone (od_pop j d) i" for i using cs [of i] by (auto simp: gone_def)
  have absent: "map_of d i = None \<Longrightarrow> map_of (od_pop j d) i = None" for i using cs [of i] by auto
  have "slot_live (od_pop j d) (slot_at k g) \<Longrightarrow> slot_live d (slot_at k g)" for k
    unfolding slot_live_def using live by (auto split: option.splits)
  then have "uncrossed (od_pop j d) g" if "mp_stp par" by (rule uncrossed_mono [OF D(6) [OF that]])
  moreover have "qs_ex (slot_at k g) = Some i \<or> gone (od_pop j d) i" if "\<not> mp_fuse par" "(k, i) \<in> set B" for k i
    using D(7) [OF that] over by blast
  ultimately show ?thesis
    by (intro quote_invI D(1-4) entry [OF D(5)] absent [OF D(8)])
qed

lemma quote_inv_base:
  "quote_inv par uuid B (set_failed t g) d = quote_inv par uuid B g d"
  "quote_inv par uuid B (bank_counts n g) d = quote_inv par uuid B g d"
  by (rule quote_inv_cong; simp add: slot_at_def set_failed_def bank_counts_def)+

interpretation qt: registry_tick cid "quote_inv par uuid B" for cid par uuid B
  by unfold_locales (simp_all add: quote_inv_base quote_inv_pop)

lemma controller_tick_sound:
  assumes "inj uuid" "ge_uuid ve = uuid"
  shows "keeps (sound cid par uuid B) (tick_controller (ge_deps ve) (mm_hooks ve) cid)"
  by (rule qt.controller_tick) (use tick_sound [OF assms] in \<open>simp add: mm_hooks_def\<close>)

text \<open>
  What happens to a market maker: the orchestrator's ticks, live changes of its settings and of the
  risk limits, each to any configuration, and arbitrary changes of the venue in between.
\<close>

datatype 'v mm_event = MM_Tick | MM_Configure mm_cfg risk_limits | MM_World "'v \<Rightarrow> 'v"

fun mm_handle :: "('v, 'k) mm_env \<Rightarrow> string \<Rightarrow> 'v mm_event \<Rightarrow> ('v, 'k, unit) mprog" where
  "mm_handle ve cid MM_Tick = tick_controller (ge_deps ve) (mm_hooks ve) cid"
| "mm_handle ve cid (MM_Configure c lims) = live_update ve cid c lims"
| "mm_handle ve cid (MM_World w) = modifyP (\<lambda>s. s\<lparr>or_env := (or_env s)\<lparr>env_venue := w (env_venue (or_env s))\<rparr>\<rparr>)"

definition mm_run :: "('v, 'k) mm_env \<Rightarrow> string \<Rightarrow> 'v mm_event list \<Rightarrow> ('v, 'k) mm_orch \<Rightarrow> ('v, 'k) mm_orch" where
  "mm_run ve cid evs s = foldl (\<lambda>s ev. snd (mm_handle ve cid ev s)) s evs"

lemma modes_refreshed [simp]: "modes (refreshed_par c p) = modes p"
  by (simp add: modes_def refreshed_par_def Let_def)

lemma update_sound: "keeps (sound cid par uuid B) (live_update ve cid c lims)"
proof -
  have "keeps (sound cid par uuid B) (upd_ctl cid (apply_mid_config c))"
    by (rule quiet_upd) (simp_all add: apply_mid_config_def)
  then show ?thesis
    unfolding live_update_def apply_risk_limits_def
    by (intro keeps_seq stop_all_sound keeps_held_modify) (simp_all add: held_def)
qed

lemma run_sound:
  assumes "inj uuid" "ge_uuid ve = uuid" "sound cid par uuid B s"
  shows "sound cid par uuid B (mm_run ve cid evs s)"
  using assms(3)
proof (induction evs arbitrary: s)
  case (Cons ev evs)
  have "keeps (sound cid par uuid B) (mm_handle ve cid ev)"
    by (cases ev) (auto simp: held_def intro: controller_tick_sound [OF assms(1,2)] update_sound keeps_held_modify)
  from Cons.IH [OF keeps_snd [OF this Cons.prems]] show ?case by (simp add: mm_run_def)
qed (simp add: mm_run_def)

text \<open>A controller that has not quoted yet, and identifiers no executor has.\<close>

definition mm_fresh :: "('v, 'k) mm_env \<Rightarrow> string \<Rightarrow> mm_ctl \<Rightarrow> ('v, 'k) mm_orch \<Rightarrow> bool" where
  "mm_fresh ve cid g s \<longleftrightarrow> map_of (or_controllers s) cid = Some g \<and> mq_slots g = []
     \<and> inj (ge_uuid ve) \<and> (\<forall>n. ge_uuid ve n \<notin> fst ` set (or_executors s))"

lemma fresh_sound:
  assumes "mm_fresh ve cid g s"
  shows "sound cid (mq_par g) (ge_uuid ve) [] (mm_run ve cid evs s)"
proof -
  have e: "slot_at k g = empty_slot" for k using assms by (simp add: mm_fresh_def slot_at_def)
  have "map_of (or_executors s) (ge_uuid ve n) = None" for n
    using assms by (simp add: mm_fresh_def map_of_eq_None_iff)
  then have "quote_inv (mq_par g) (ge_uuid ve) [] g (or_executors s)"
    by (intro quote_invI) (simp_all add: e empty_slot_def uncrossed_def slot_live_def)
  then have "sound cid (mq_par g) (ge_uuid ve) [] s" using assms by (auto simp: held_def mm_fresh_def)
  then show ?thesis using assms by (intro run_sound) (simp_all add: mm_fresh_def)
qed

lemma in_map_filter: "y \<in> set (List.map_filter f xs) \<longleftrightarrow> (\<exists>x \<in> set xs. f x = Some y)"
  by (force simp: map_filter_def)

text \<open>The prices of the live quotes of a side.\<close>

definition own_quotes :: "engine_executor odict \<Rightarrow> bool \<Rightarrow> mm_ctl \<Rightarrow> dec list" where
  "own_quotes d is_bid g = List.map_filter (\<lambda>k. if slot_live d (slot_at k g) then qs_price (slot_at k g) else None)
     (filter (\<lambda>k. fst k = is_bid) (map fst (mq_slots g)))"

text \<open>
  Claim C4: a market maker never quotes against itself. With self-trade prevention on, from a
  controller that has not quoted, whatever the venue and the signal feeds do, to whatever configuration the settings are changed while it runs and
  however many of the orchestrator's ticks pass, every live bid of its own is strictly below every live ask
  of its own, held, moved and fused quotes included.
\<close>

theorem quotes_never_cross:
  assumes "mm_fresh ve cid g0 s" "mp_stp (mq_par g0)"
  shows "let s' = mm_run ve cid evs s in \<exists>g. map_of (or_controllers s') cid = Some g
    \<and> list_all (\<lambda>p. list_all (\<lambda>q. p < q) (own_quotes (or_executors s') False g)) (own_quotes (or_executors s') True g)"
proof -
  obtain g where g: "map_of (or_controllers (mm_run ve cid evs s)) cid = Some g"
    "quote_inv (mq_par g0) (ge_uuid ve) [] g (or_executors (mm_run ve cid evs s))"
    using fresh_sound [OF assms(1), of evs] unfolding held_def by blast
  have "uncrossed (or_executors (mm_run ve cid evs s)) g" by (rule quote_invD(6) [OF g(2) assms(2)])
  then have "list_all (\<lambda>p. list_all (\<lambda>q. p < q) (own_quotes (or_executors (mm_run ve cid evs s)) False g))
      (own_quotes (or_executors (mm_run ve cid evs s)) True g)"
    by (fastforce simp: own_quotes_def list_all_iff uncrossed_def map_filter_def split: if_splits)
  then show ?thesis using g(1) unfolding Let_def by blast
qed

text \<open>
  Claim C5: no quote is orphaned by its controller. Without fused requotes, whenever a tick of the
  orchestrator, or a change of settings, leaves a level bound to another quote or to none, the
  order of the quote it was bound to is known to be over: its executor has ended with a terminal order, or has been
  pruned from the registry.
\<close>

theorem quotes_never_orphaned:
  fixes ve :: "('v, 'k) mm_env" and evs :: "'v mm_event list" and s0 :: "('v, 'k) mm_orch" and ev :: "'v mm_event"
  assumes "mm_fresh ve cid g0 s0" "\<not> mp_fuse (mq_par g0)"
  defines "s \<equiv> mm_run ve cid evs s0"
  shows "\<exists>g g'. map_of (or_controllers s) cid = Some g \<and> map_of (or_controllers (snd (mm_handle ve cid ev s))) cid = Some g'
    \<and> list_all (\<lambda>k. case qs_ex (slot_at k g) of None \<Rightarrow> True
        | Some i \<Rightarrow> qs_ex (slot_at k g') = Some i \<or> gone (or_executors (snd (mm_handle ve cid ev s))) i) (map fst (mq_slots g))"
proof -
  obtain g where g: "map_of (or_controllers s) cid = Some g" "quote_inv (mq_par g0) (ge_uuid ve) [] g (or_executors s)"
    using fresh_sound [OF assms(1), of evs] unfolding held_def s_def by blast
  define B where "B = List.map_filter (\<lambda>k. map_option (Pair k) (qs_ex (slot_at k g))) (map fst (mq_slots g))"
  have B: "(k, i) \<in> set B \<longleftrightarrow> k \<in> fst ` set (mq_slots g) \<and> qs_ex (slot_at k g) = Some i" for k i
    unfolding B_def in_map_filter by (force split: option.splits)
  note D = quote_invD [OF g(2)]
  have "i \<noteq> ge_uuid ve n" if "(k, i) \<in> set B" "mq_uid g \<le> n" for k i n using D(2) [OF that(2), of k] that(1) B by auto
  then have "ge_uuid ve n \<notin> snd ` set B" if "mq_uid g \<le> n" for n using that by force
  then have "quote_inv (mq_par g0) (ge_uuid ve) B g (or_executors s)"
    using D(1,2,4-6,8) B by (intro quote_invI) auto
  then have "sound cid (mq_par g0) (ge_uuid ve) B s" using g(1) unfolding held_def by blast
  from run_sound [OF _ refl this, of "[ev]"] assms(1)
  obtain g' where g': "map_of (or_controllers (snd (mm_handle ve cid ev s))) cid = Some g'"
    "quote_inv (mq_par g0) (ge_uuid ve) B g' (or_executors (snd (mm_handle ve cid ev s)))"
    unfolding mm_fresh_def held_def mm_run_def by auto
  have "qs_ex (slot_at k g') = Some i \<or> gone (or_executors (snd (mm_handle ve cid ev s))) i"
    if "k \<in> fst ` set (mq_slots g)" "qs_ex (slot_at k g) = Some i" for k i
    using quote_invD(7) [OF g'(2) assms(2), of k i] that B by blast
  then show ?thesis
    using g(1) g'(1) by (force simp: list_all_iff split: option.split)
qed

subsection \<open>A concrete run\<close>

text \<open>A two-sided quote at 100 basis points: both orders are accepted, and the next tick keeps them.\<close>

definition demo_mm_cfg :: mm_cfg where
  "demo_mm_cfg = \<lparr>mc_pair = ''BTC'', mc_spread_bid = Some (1 / 100), mc_spread_ask = Some (1 / 100), mc_amount = None,
     mc_tolerance = None, mc_max_base = None, mc_min_base = None, mc_protect = False, mc_auto = False, mc_auto_k = None,
     mc_floor = None, mc_cap = None, mc_bias = None, mc_mode = None, mc_levels = None, mc_step_bp = None, mc_curve = None,
     mc_min_life = None, mc_micro = False, mc_profile = False, mc_objective = ''auto'', mc_fee_bp = None, mc_min_edge = None,
     mc_skew = False, mc_gamma = None, mc_alpha = False, mc_alpha_max = None, mc_alpha_strength = None,
     mc_degraded_mult = None, mc_stp = True, mc_fuse = False, mc_leverage = None, mc_level_weights = False,
     mc_level_tol = None, mc_level_boost = None, mc_policy = False, mc_exec_mode = None, mc_max_life = None, mc_soft = None,
     mc_hard = None, mc_budget = None, mc_used = None, mc_recycle = False, mc_anchor_mode = None, mc_drift = None,
     mc_floor_pct = None, mc_gate = False, mc_provider = False, mc_confirm = None, mc_cap_pct = Some 10,
     mc_margin = Some 1000, mc_resume_frac = None, mc_suppress = False\<rparr>"

definition demo_mm_ctl :: mm_ctl where
  "demo_mm_ctl = (mk_mm_ctl ''c'' 1 True demo_mm_cfg)\<lparr>ct_state := CT_ACTIVE\<rparr>"

definition demo_mm_env :: "(script, memory_switch) mm_env" where
  "demo_mm_env = \<lparr>ge_deps = demo_deps, ge_regime = (\<lambda>v. None), ge_uuid = (\<lambda>n. replicate n (CHR ''q'')),
     me_book = (\<lambda>p v. (Inr (None, None), v)), me_depth = (\<lambda>p v. (Inl (OtherError ''depth''), v)),
     me_tick = (\<lambda>p v. Inr (1 / 10)), me_min_notional = (\<lambda>p v. Inr 5), me_fuse = (\<lambda>dg p sd ty a px lv v. (Inr None, v)),
     me_forget = (\<lambda>dg v. (Inr (), v)), me_signal = None, me_markout = None, me_sr = None, me_tanh = (\<lambda>x. x), me_clock = sc_now,
     me_hold_max = 120\<rparr>"

definition demo_mm_order :: "string \<Rightarrow> trade_type \<Rightarrow> dec \<Rightarrow> nado_order" where
  "demo_mm_order i side px = \<lparr>o_id = i, o_pair = ''BTC'', o_side = side, o_type = LIMIT_MAKER, o_amount = 1 / 10, o_price = Some px,
     o_state = O_OPEN, o_filled_base = 0, o_filled_quote = 0, o_fee = 0\<rparr>"

definition demo_mm_script :: script where
  "demo_mm_script = \<lparr>sc_now = 10, sc_orders = map Inr [demo_mm_order ''b'' BUY 99, demo_mm_order ''a'' SELL 101,
     demo_mm_order ''b'' BUY 99, demo_mm_order ''a'' SELL 101], sc_mids = [Inr 100, Inr 100, Inr 100], sc_cancels = []\<rparr>"

definition demo_mm_orch :: "(script, memory_switch) mm_orch" where
  "demo_mm_orch = (mk_orch \<lparr>env_venue = demo_mm_script, env_inv = [], env_trades = []\<rparr> None False 9 9 3 90 1)
     \<lparr>or_controllers := [(''c'', demo_mm_ctl)]\<rparr>"

lemma demo_mm_fresh: "mm_fresh demo_mm_env ''c'' demo_mm_ctl demo_mm_orch"
proof -
  have "inj (\<lambda>n. replicate n (CHR ''q''))" by (rule injI) (metis length_replicate)
  then show ?thesis
    by (simp add: mm_fresh_def demo_mm_env_def demo_mm_orch_def demo_mm_ctl_def mk_mm_ctl_def mk_orch_def Let_def
        controller.defs mm_ctl.defs)
qed

lemma demo_mm_flags: "mp_stp (mq_par demo_mm_ctl)" "\<not> mp_fuse (mq_par demo_mm_ctl)"
  by (simp_all add: demo_mm_ctl_def mk_mm_ctl_def parse_mm_def demo_mm_cfg_def Let_def controller.defs)

theorem quotes_never_cross_witness:
  "let s' = mm_run demo_mm_env ''c'' [MM_Tick, MM_Tick] demo_mm_orch in (\<exists>g. map_of (or_controllers s') ''c'' = Some g
     \<and> list_all (\<lambda>p. list_all (\<lambda>q. p < q) (own_quotes (or_executors s') False g)) (own_quotes (or_executors s') True g))
   \<and> list_all (\<lambda>(k, g). own_quotes (or_executors s') True g = [99] \<and> own_quotes (or_executors s') False g = [101])
       (or_controllers s')"
proof -
  have "let s' = mm_run demo_mm_env ''c'' [MM_Tick, MM_Tick] demo_mm_orch in
     list_all (\<lambda>(k, g). own_quotes (or_executors s') True g = [99] \<and> own_quotes (or_executors s') False g = [101])
       (or_controllers s')"
    by code_simp
  then show ?thesis
    using quotes_never_cross [OF demo_mm_fresh demo_mm_flags(1), of "[MM_Tick, MM_Tick]"] unfolding Let_def by blast
qed

text \<open>The spreads are doubled while both quotes rest: the next tick quotes at the new settings.\<close>

definition demo_wide_cfg :: mm_cfg where
  "demo_wide_cfg = demo_mm_cfg\<lparr>mc_spread_bid := Some (2 / 100), mc_spread_ask := Some (2 / 100), mc_floor := Some (1 / 100)\<rparr>"

theorem quotes_never_orphaned_witness:
  "let s = mm_run demo_mm_env ''c'' [MM_Tick] demo_mm_orch;
       s' = snd (mm_handle demo_mm_env ''c'' (MM_Configure demo_wide_cfg demo_limits) s) in
   (\<exists>g g'. map_of (or_controllers s) ''c'' = Some g \<and> map_of (or_controllers s') ''c'' = Some g'
    \<and> list_all (\<lambda>k. case qs_ex (slot_at k g) of None \<Rightarrow> True
        | Some i \<Rightarrow> qs_ex (slot_at k g') = Some i \<or> gone (or_executors s') i) (map fst (mq_slots g)))
   \<and> list_all (\<lambda>(k, g). mq_bid_pct g = 2 / 100 \<and> mq_floor g = 1 / 100) (or_controllers s')"
proof -
  have "let s' = snd (mm_handle demo_mm_env ''c'' (MM_Configure demo_wide_cfg demo_limits)
       (mm_run demo_mm_env ''c'' [MM_Tick] demo_mm_orch)) in
     list_all (\<lambda>(k, g). mq_bid_pct g = 2 / 100 \<and> mq_floor g = 1 / 100) (or_controllers s')"
    by code_simp
  then show ?thesis
    using quotes_never_orphaned [OF demo_mm_fresh demo_mm_flags(2), of "[MM_Tick]" "MM_Configure demo_wide_cfg demo_limits"]
    unfolding Let_def by blast
qed

end
