(* ===== verification/Risk_Sizing.thy ===== *)
theory Risk_Sizing
  imports Quote_Plans
begin

text \<open>
  The risk arithmetic of \<open>quant/\<close>: fee estimates (\<open>vol_fee_estimator.py\<close>), R-Grid steps and the
  trigger ladder against the stop budget (\<open>rgrid_sizing.py\<close>), the distance to liquidation
  (\<open>liquidation.py\<close>), the venue stop's price (\<open>stop_geometry.py\<close>), the trigger of the session stop
  (\<open>sltp_overshoot.py\<close>), isolated margin (\<open>margin.py\<close>) and closeable entries (\<open>mm_quote_math.py\<close>).

  Environment values are arguments. An untyped argument that the code parses is a \<open>raw\<close>, \<open>None\<close> where
  it is \<open>None\<close> or does not parse (where the code parses inside a \<open>try\<close>; the exceptions are noted); \<open>None\<close> as a result stands for \<open>float("inf")\<close> where the text says so.
\<close>

subsection \<open>Fee estimates\<close>

definition DEFAULT_SPOT_TAKER_FEE_RATE :: dec where "DEFAULT_SPOT_TAKER_FEE_RATE = 33 / 100000"
definition DEFAULT_BUILDER_FEE_RATE :: dec where "DEFAULT_BUILDER_FEE_RATE = 1 / 10000"
definition DEFAULT_MAKER_FEE_RATE :: dec where "DEFAULT_MAKER_FEE_RATE = 15 / 100000"
definition MAKER_ROUND_TRIP_RATE :: dec where "MAKER_ROUND_TRIP_RATE = (DEFAULT_MAKER_FEE_RATE + DEFAULT_BUILDER_FEE_RATE) * 2"
definition MIXED_ROUND_TRIP_RATE :: dec where
  "MIXED_ROUND_TRIP_RATE = (DEFAULT_MAKER_FEE_RATE + DEFAULT_BUILDER_FEE_RATE) + (DEFAULT_SPOT_TAKER_FEE_RATE + DEFAULT_BUILDER_FEE_RATE)"
definition MIN_MARGIN_USD :: dec where "MIN_MARGIN_USD = 100"
definition MAX_MARGIN_USD :: dec where "MAX_MARGIN_USD = 500"

definition clamp_margin_usd :: "raw \<Rightarrow> dec" where
  "clamp_margin_usd v = (let m = num MIN_MARGIN_USD v in
     if m < MIN_MARGIN_USD then MIN_MARGIN_USD else if m > MAX_MARGIN_USD then MAX_MARGIN_USD else m)"

record vol_fee_estimate =
  vf_margin :: dec
  vf_target :: dec
  vf_taker :: dec
  vf_builder :: dec
  vf_source :: string

definition vf_total_rate :: "vol_fee_estimate \<Rightarrow> dec" where
  "vf_total_rate e = vf_taker e + vf_builder e"

definition estimated_fee_usd :: "vol_fee_estimate \<Rightarrow> dec" where
  "estimated_fee_usd e = (if vf_target e \<le> 0 then 0 else vf_target e * vf_total_rate e)"

definition estimated_cycles :: "vol_fee_estimate \<Rightarrow> int" where
  "estimated_cycles e = (if vf_margin e \<le> 0 \<or> vf_target e \<le> 0 then 0 else \<lceil>vf_target e / (vf_margin e * 2)\<rceil>)"

definition fee_pct_of_margin :: "vol_fee_estimate \<Rightarrow> dec" where
  "fee_pct_of_margin e = (if vf_margin e \<le> 0 then 0 else estimated_fee_usd e / vf_margin e * 100)"

text \<open>An omitted builder rate is the default; a given one that does not parse is zero.\<close>

definition estimate_vol_fees :: "raw \<Rightarrow> raw \<Rightarrow> raw \<Rightarrow> raw option \<Rightarrow> vol_fee_estimate" where
  "estimate_vol_fees margin target taker builder = (let
     (rate, source) = (if num 0 taker > 0 then (num 0 taker, ''venue'') else (DEFAULT_SPOT_TAKER_FEE_RATE, ''measured_default''));
     b = (case builder of None \<Rightarrow> DEFAULT_BUILDER_FEE_RATE | Some r \<Rightarrow> num 0 r) in
   \<lparr>vf_margin = clamp_margin_usd margin, vf_target = max 0 (num 0 target), vf_taker = rate, vf_builder = max 0 b, vf_source = source\<rparr>)"

definition taker_breakeven_price :: "raw \<Rightarrow> raw \<Rightarrow> raw \<Rightarrow> dec" where
  "taker_breakeven_price entry taker builder = (let e = num 0 entry; r = num 0 taker + num 0 builder;
     r = (if r < 0 then 0 else r); r = (if r \<ge> 99 / 100 then 99 / 100 else r) in
   if e \<le> 0 then 0 else e * (1 + r) / (1 - r))"

definition taker_sell_target :: "raw \<Rightarrow> raw \<Rightarrow> raw \<Rightarrow> raw \<Rightarrow> dec" where
  "taker_sell_target entry taker builder edge = (let e = num 0 entry; bp = max 0 (num 0 edge) in
     if e \<le> 0 then 0 else max (e * (1 + bp / 10000)) (taker_breakeven_price entry taker builder))"

subsection \<open>R-Grid exit geometry\<close>

definition TAKER_ALL_IN_RATE :: dec where "TAKER_ALL_IN_RATE = DEFAULT_SPOT_TAKER_FEE_RATE + DEFAULT_BUILDER_FEE_RATE"
definition TAKER_ROUND_TRIP_RATE :: dec where "TAKER_ROUND_TRIP_RATE = TAKER_ALL_IN_RATE * 2"
definition DEFAULT_MAX_FEE_SHARE :: dec where "DEFAULT_MAX_FEE_SHARE = 33 / 100"
definition EXIT_CROSS_RATE :: dec where "EXIT_CROSS_RATE = 3 / 1000"

definition as_frac :: "raw \<Rightarrow> dec" where
  "as_frac v = max 0 (num 0 v)"

definition arm_pct :: "raw \<Rightarrow> raw \<Rightarrow> dec" where
  "arm_pct band reset = max (as_frac reset) (max (as_frac band * 2) TAKER_ROUND_TRIP_RATE)"

definition trail_giveback_frac :: "raw \<Rightarrow> raw \<Rightarrow> dec" where
  "trail_giveback_frac band reset = arm_pct band reset"

definition exit_band_frac :: "raw \<Rightarrow> raw \<Rightarrow> dec" where
  "exit_band_frac band reset = arm_pct band reset + as_frac band"

definition exit_cost_frac :: "raw \<Rightarrow> raw \<Rightarrow> dec" where
  "exit_cost_frac band reset = exit_band_frac band reset + TAKER_ROUND_TRIP_RATE + EXIT_CROSS_RATE"

definition step_band_frac :: "raw \<Rightarrow> raw \<Rightarrow> dec" where
  "step_band_frac band reset = exit_cost_frac band reset - TAKER_ROUND_TRIP_RATE"

record step_plan =
  sp_step :: dec
  sp_uncapped :: dec
  sp_budget :: dec
  sp_round_trip :: dec
  sp_capped :: bool
  sp_floored :: bool

definition fees_exceed_budget :: "step_plan \<Rightarrow> bool" where
  "fees_exceed_budget p \<longleftrightarrow> sp_floored p \<and> sp_budget p > 0 \<and> sp_round_trip p \<ge> sp_budget p"

text \<open>\<open>None\<close> is infinity.\<close>

definition round_trips_in_budget :: "step_plan \<Rightarrow> dec option" where
  "round_trips_in_budget p = (if sp_round_trip p \<le> 0 \<or> sp_budget p \<le> 0 then None else Some (sp_budget p / sp_round_trip p))"

definition taker_round_trip_cost :: "raw \<Rightarrow> dec" where
  "taker_round_trip_cost step = max 0 (num 0 step) * TAKER_ROUND_TRIP_RATE"

definition max_step_for_stop_budget :: "raw \<Rightarrow> dec \<Rightarrow> int \<Rightarrow> raw \<Rightarrow> dec option" where
  "max_step_for_stop_budget budget share levels band = (let b = num 0 budget in
     if b \<le> 0 \<or> share \<le> 0 \<or> TAKER_ROUND_TRIP_RATE \<le> 0 then None
     else let lv = of_int (max 1 levels); fee_bound = b * share / (lv * TAKER_ROUND_TRIP_RATE);
              bd = max 0 (num 0 band); move = bd + TAKER_ROUND_TRIP_RATE in
       Some (if bd \<le> 0 \<or> move \<le> 0 then fee_bound else min fee_bound (b / (lv * move))))"

definition base_step :: "raw \<Rightarrow> int \<Rightarrow> raw \<Rightarrow> dec" where
  "base_step deployed levels chunk = (let step = max 0 (num 0 deployed) / of_int (max 1 levels) in
     case chunk of None \<Rightarrow> step | Some c \<Rightarrow> if c > 0 then min step c else step)"

text \<open>
  Here \<open>deployed\<close> and \<open>min_step\<close> are converted outside any \<open>try\<close>: \<open>None\<close> stands for Python's \<open>None\<close> (and for an
  empty value), which counts as 0. A text that does not parse raises \<open>InvalidOperation\<close> out of the
  function, and is no argument of the model. For \<open>chunk\<close>, \<open>budget\<close> and \<open>band\<close>, which are converted inside a
  \<open>try\<close>, \<open>None\<close> covers both.
\<close>

definition resolve_step_quote :: "raw \<Rightarrow> int \<Rightarrow> raw \<Rightarrow> raw \<Rightarrow> raw \<Rightarrow> dec \<Rightarrow> raw \<Rightarrow> step_plan" where
  "resolve_step_quote deployed levels chunk budget min_step share band = (let lv = max 1 levels; uncapped = base_step deployed levels chunk;
     flr = max 0 (num 0 min_step);
     (step, capped, floored) = (case max_step_for_stop_budget budget share lv band of
        None \<Rightarrow> (uncapped, False, False)
      | Some cap \<Rightarrow> if cap < uncapped
          then if cap < flr then let s = (if flr > 0 then min uncapped flr else cap) in (s, s < uncapped, True)
               else (cap, True, False)
          else (uncapped, False, False)) in
   \<lparr>sp_step = step, sp_uncapped = uncapped, sp_budget = max 0 (num 0 budget),
    sp_round_trip = taker_round_trip_cost (Some (step * of_int lv)), sp_capped = capped, sp_floored = floored\<rparr>)"

subsection \<open>The trigger ladder\<close>

definition REVGRID_STEP_FLOOR :: dec where "REVGRID_STEP_FLOOR = 15 / 10000"
definition REVGRID_ENTRY_SLIP :: dec where "REVGRID_ENTRY_SLIP = 15 / 10000"
definition REVGRID_STOP_SLIP :: dec where "REVGRID_STOP_SLIP = 5 / 1000"
definition REVGRID_VENUE_MAX_PENDING_TRIGGERS :: int where "REVGRID_VENUE_MAX_PENDING_TRIGGERS = 25"
definition REVGRID_MAX_LEVELS :: int where "REVGRID_MAX_LEVELS = 12"

record trigger_plan =
  tp_step :: dec
  tp_levels :: int
  tp_requested :: int
  tp_stop :: dec
  tp_arm :: dec
  tp_giveback :: dec
  tp_sizing :: step_plan
  tp_step_floored :: bool
  tp_stop_auto :: bool
  tp_trail_auto :: bool
  tp_exit_band :: dec

definition pyramid_stop_cost :: "trigger_plan \<Rightarrow> dec" where
  "pyramid_stop_cost p = sp_step (tp_sizing p) * of_int (tp_levels p) * (tp_exit_band p + TAKER_ROUND_TRIP_RATE)"

definition pyramid_fits_budget :: "trigger_plan \<Rightarrow> bool" where
  "pyramid_fits_budget p \<longleftrightarrow> sp_budget (tp_sizing p) \<le> 0 \<or> pyramid_stop_cost p \<le> sp_budget (tp_sizing p)"

definition levels_capped :: "trigger_plan \<Rightarrow> bool" where
  "levels_capped p \<longleftrightarrow> tp_levels p < tp_requested p"

definition pending_triggers_flat :: "trigger_plan \<Rightarrow> int" where
  "pending_triggers_flat p = 2 * tp_levels p"

definition revgrid_stop_pct :: "dec \<Rightarrow> raw \<Rightarrow> dec \<times> bool" where
  "revgrid_stop_pct step user = (let s = as_frac (Some step); u = as_frac user / 100 in
     if u > 0 then (max u TAKER_ROUND_TRIP_RATE, False) else (max (s * 2) TAKER_ROUND_TRIP_RATE, True))"

definition revgrid_trail_pct :: "dec \<Rightarrow> raw \<Rightarrow> dec \<times> bool" where
  "revgrid_trail_pct step user = (let s = as_frac (Some step); u = as_frac user / 100 in
     if u > 0 then (max u TAKER_ROUND_TRIP_RATE, False) else (arm_pct (Some s) (Some 0), True))"

definition trigger_ladder_plan :: "raw \<Rightarrow> int \<Rightarrow> raw \<Rightarrow> raw \<Rightarrow> raw \<Rightarrow> raw \<Rightarrow> raw \<Rightarrow> raw \<Rightarrow> int \<Rightarrow> trigger_plan" where
  "trigger_ladder_plan deployed levels spread budget min_step chunk user_stop user_trail mxl = (let
     requested = max 1 levels;
     lv = max 1 (min requested (max 1 (if mxl = 0 then REVGRID_MAX_LEVELS else mxl)));
     step = max (as_frac spread) REVGRID_STEP_FLOOR;
     (stop, stop_auto) = revgrid_stop_pct step user_stop;
     (trail, trail_auto) = revgrid_trail_pct step user_trail;
     band = max (step_band_frac (Some step) (Some 0)) (stop + REVGRID_STOP_SLIP + REVGRID_ENTRY_SLIP) in
   \<lparr>tp_step = step, tp_levels = lv, tp_requested = requested, tp_stop = stop, tp_arm = trail, tp_giveback = trail,
    tp_sizing = resolve_step_quote deployed lv chunk budget min_step DEFAULT_MAX_FEE_SHARE (Some band),
    tp_step_floored = as_frac spread < REVGRID_STEP_FLOOR, tp_stop_auto = stop_auto, tp_trail_auto = trail_auto, tp_exit_band = band\<rparr>)"

subsection \<open>Liquidation\<close>

definition fallback_mmf :: "dec \<Rightarrow> dec \<Rightarrow> dec \<Rightarrow> dec" where
  "fallback_mmf imf ratio flr = max (if imf > 0 then imf * ratio else 0) flr"

definition move_to_liquidation :: "dec \<Rightarrow> dec \<Rightarrow> dec" where
  "move_to_liquidation leverage mmf = 1 / max 1 leverage - mmf"

definition liq_loss_pct :: "dec \<Rightarrow> dec \<Rightarrow> dec" where
  "liq_loss_pct leverage mmf = (1 - mmf * max 1 leverage) * 100"

definition safe_max_sl_pct :: "dec \<Rightarrow> dec \<Rightarrow> dec \<Rightarrow> dec \<Rightarrow> dec" where
  "safe_max_sl_pct leverage mmf k cushion = 100 * k * (1 - mmf * max 1 leverage) - cushion"

text \<open>\<open>None\<close> is infinity.\<close>

definition max_safe_leverage :: "dec \<Rightarrow> dec \<Rightarrow> dec \<Rightarrow> dec \<Rightarrow> dec option" where
  "max_safe_leverage sl mmf k cushion = (if mmf \<le> 0 \<or> k \<le> 0 then None
     else let n = 1 - (sl + cushion) / (100 * k) in if n \<le> 0 then Some 1 else Some (max 1 (n / mmf)))"

definition leverage_requires_armed_sl :: "dec \<Rightarrow> dec \<Rightarrow> dec option" where
  "leverage_requires_armed_sl mmf runway = (if mmf + runway \<le> 0 then None else Some (1 / (mmf + runway)))"

record liq_safety =
  ls_ok :: bool
  ls_reason :: string
  ls_safe_sl :: dec
  ls_max_leverage :: "dec option"
  ls_move :: dec
  ls_loss :: dec
  ls_arm :: "dec option"
  ls_require_armed :: bool

definition liquidation_safety :: "dec \<Rightarrow> dec \<Rightarrow> dec \<Rightarrow> bool \<Rightarrow> dec \<Rightarrow> dec \<Rightarrow> dec \<Rightarrow> liq_safety" where
  "liquidation_safety leverage mmf sl armed k cushion runway = (let lev = max 1 leverage;
     move = move_to_liquidation lev mmf; safe = safe_max_sl_pct lev mmf k cushion;
     arm = leverage_requires_armed_sl mmf runway;
     need = (case arm of None \<Rightarrow> False | Some a \<Rightarrow> lev > a);
     reason = (if move \<le> 0 \<or> safe \<le> 0 then ''maint_margin_exceeds_leverage''
       else if need \<and> \<not> (armed \<and> sl > 0) then ''disarmed_sl_high_lev''
       else if armed \<and> sl > 0 \<and> sl > safe then ''sl_too_loose'' else []) in
   \<lparr>ls_ok = (reason = []), ls_reason = reason, ls_safe_sl = safe, ls_max_leverage = max_safe_leverage sl mmf k cushion,
    ls_move = move, ls_loss = liq_loss_pct lev mmf, ls_arm = arm, ls_require_armed = need\<rparr>)"

definition RUNWAY_EPS :: dec where "RUNWAY_EPS = 1 / 10 ^ 12"

definition consumed_runway :: "dec \<Rightarrow> dec \<Rightarrow> dec \<Rightarrow> dec \<Rightarrow> dec option" where
  "consumed_runway e m q nb = (if e \<le> 0 \<or> m \<le> 0 \<or> q \<le> 0 \<or> nb = 0 then None
     else if nb > 0 then (if e - q \<le> RUNWAY_EPS \<or> q \<ge> m then None else Some ((e - m) / (e - q)))
     else (if q - e \<le> RUNWAY_EPS \<or> q \<le> m then None else Some ((m - e) / (q - e))))"

subsection \<open>Stops\<close>

definition stop_loss_price :: "bool \<Rightarrow> dec \<Rightarrow> dec \<Rightarrow> dec \<Rightarrow> dec option" where
  "stop_loss_price is_long e lev s = (if e \<le> 0 \<or> lev < 1 \<or> s \<le> 0 then None
     else let move = s / (100 * lev) in
       if move \<ge> 1 then None
       else let price = (if is_long then e * (1 - move) else e * (1 + move)) in if price > 0 then Some price else None)"

definition stop_trigger_is_below :: "bool \<Rightarrow> bool" where "stop_trigger_is_below is_long = is_long"
definition stop_close_is_buy :: "bool \<Rightarrow> bool" where "stop_close_is_buy is_long = (\<not> is_long)"

definition close_cost_pct :: "raw \<Rightarrow> raw \<Rightarrow> dec \<Rightarrow> dec" where
  "close_cost_pct position_value margin rate = (let pv = \<bar>num 0 position_value\<bar>; mg = num 0 margin; r = max 0 rate in
     if pv \<le> 0 \<or> mg \<le> 0 \<or> r \<le> 0 then 0 else pv * r / mg * 100)"

definition move_bp :: "dec \<Rightarrow> dec \<Rightarrow> dec" where
  "move_bp p m = (if p \<le> 0 \<or> m \<le> 0 then 0 else \<bar>m - p\<bar> / p * 10000)"

definition projected_overshoot_pct :: "dec \<Rightarrow> dec \<Rightarrow> dec \<Rightarrow> dec" where
  "projected_overshoot_pct leverage recent factor = (let f = max 0 factor; lev = max 0 leverage; move = max 0 recent in
     if lev \<le> 0 \<or> move \<le> 0 \<or> f \<le> 0 then 0 else lev * (move / 10000) * 100 * f)"

definition leverage_reserve_frac :: "dec \<Rightarrow> dec \<Rightarrow> dec" where
  "leverage_reserve_frac leverage ref = (if max 0 leverage \<le> 0 then 0 else min 1 (max 0 leverage / max 1 ref))"

definition sl_buffer_pct :: "dec \<Rightarrow> dec \<Rightarrow> dec \<Rightarrow> dec \<Rightarrow> dec \<Rightarrow> dec \<Rightarrow> dec" where
  "sl_buffer_pct sl leverage recent factor max_fraction close_cost = (if sl \<le> 0 then 0
     else sl * max 0 (min (min (9 / 10) (max 0 max_fraction))
       ((projected_overshoot_pct leverage recent factor + max 0 close_cost) / sl)))"

definition effective_sl_trigger :: "dec \<Rightarrow> dec \<Rightarrow> dec \<Rightarrow> dec \<Rightarrow> dec \<Rightarrow> dec \<Rightarrow> dec" where
  "effective_sl_trigger sl leverage recent factor max_fraction close_cost =
     (if sl \<le> 0 then sl else sl - sl_buffer_pct sl leverage recent factor max_fraction close_cost)"

subsection \<open>Margin and closeable entries\<close>

definition compute_isolated_margin :: "dec \<Rightarrow> dec \<Rightarrow> dec \<Rightarrow> dec \<Rightarrow> dec option" where
  "compute_isolated_margin safety qty price leverage = (if \<bar>qty\<bar> \<le> 0 \<or> price \<le> 0 \<or> leverage \<le> 0 then None
     else Some (\<bar>qty\<bar> * price / max 1 leverage * max 1 safety))"

definition MIN_CLOSEABLE_ENTRY_BUFFER :: dec where "MIN_CLOSEABLE_ENTRY_BUFFER = 15 / 100"

definition min_closeable_entry_notional :: "raw \<Rightarrow> dec \<Rightarrow> dec" where
  "min_closeable_entry_notional v buffer = (let flr = num 0 v in if flr \<le> 0 then 0 else flr * (1 + max 0 buffer))"

definition mm_margin_per_quote :: "dec \<Rightarrow> dec \<Rightarrow> dec \<Rightarrow> dec" where
  "mm_margin_per_quote min_notional leverage safety = max 1 min_notional / max 1 (if leverage = 0 then 1 else leverage) * max 1 safety"

definition max_resting_quotes :: "dec \<Rightarrow> dec \<Rightarrow> dec \<Rightarrow> dec \<Rightarrow> int \<Rightarrow> int" where
  "max_resting_quotes collateral min_notional leverage safety max_open =
     (let m = mm_margin_per_quote min_notional leverage safety in
      if m \<le> 0 then 0 else max 0 (min max_open (trunc_dec (max 0 collateral / m))))"

subsection \<open>Participation\<close>

definition MIN_CYCLE_NOTIONAL_USD :: dec where "MIN_CYCLE_NOTIONAL_USD = 1000"
definition MIN_VOLUME_PER_MINUTE_FLOOR :: dec where "MIN_VOLUME_PER_MINUTE_FLOOR = 1 / 10 ^ 9"

definition PARTICIPATION_MULTIPLIERS :: "dec odict" where
  "PARTICIPATION_MULTIPLIERS = [(''aggressive'', 10 / 100), (''normal'', 5 / 100), (''passive'', 1 / 100)]"

definition normalize_preset :: "string option \<Rightarrow> string" where
  "normalize_preset preset = (let t = lower_str (strip_str (case preset of None \<Rightarrow> [] | Some s \<Rightarrow> s)) in
     if t \<in> fst ` set PARTICIPATION_MULTIPLIERS then t else ''normal'')"

definition participation_rate :: "string option \<Rightarrow> dec" where
  "participation_rate preset = (case map_of PARTICIPATION_MULTIPLIERS (normalize_preset preset) of None \<Rightarrow> 5 / 100 | Some r \<Rightarrow> r)"

definition effective_cycle_interval_seconds :: "raw \<Rightarrow> int" where
  "effective_cycle_interval_seconds v = (let r = trunc_dec (num 0 v) in if r \<le> 0 then 60 else max 1 r)"

definition cycle_notional_usd :: "string option \<Rightarrow> dec \<Rightarrow> raw \<Rightarrow> dec \<Rightarrow> dec \<Rightarrow> dec" where
  "cycle_notional_usd preset volume interval deployed venue_min = (if max 0 deployed \<le> 0 then 0
     else let chunk = participation_rate preset * (max 0 volume / 1440) * (of_int (effective_cycle_interval_seconds interval) / 60) in
       min (max chunk (max MIN_CYCLE_NOTIONAL_USD (max 0 venue_min))) (max 0 deployed))"

record pov_plan =
  pv_preset :: string
  pv_multiplier :: dec
  pv_duration_minutes :: dec
  pv_interval :: int
  pv_cycle_notional :: dec
  pv_cycles :: dec
  pv_volume :: dec
  pv_vol_per_minute :: dec

definition compute_pov_duration :: "dec \<Rightarrow> string option \<Rightarrow> dec \<Rightarrow> raw \<Rightarrow> pov_plan" where
  "compute_pov_duration notional0 preset volume0 interval = (let rate = participation_rate preset; notional = max 0 notional0;
     volume = max 0 volume0; per_minute = max (volume / 1440) MIN_VOLUME_PER_MINUTE_FLOOR;
     secs = effective_cycle_interval_seconds interval;
     per_cycle = cycle_notional_usd preset volume (Some (of_int secs)) notional 0 in
   \<lparr>pv_preset = normalize_preset preset, pv_multiplier = rate,
    pv_duration_minutes = notional / max (rate * per_minute) MIN_VOLUME_PER_MINUTE_FLOOR, pv_interval = secs,
    pv_cycle_notional = per_cycle, pv_cycles = (if per_cycle > 0 then notional / per_cycle else 1), pv_volume = volume,
    pv_vol_per_minute = per_minute\<rparr>)"


subsection \<open>The ladder and its stop budget\<close>

lemmas rates = TAKER_ROUND_TRIP_RATE_def TAKER_ALL_IN_RATE_def DEFAULT_SPOT_TAKER_FEE_RATE_def DEFAULT_BUILDER_FEE_RATE_def
lemmas slips = REVGRID_STEP_FLOOR_def REVGRID_ENTRY_SLIP_def REVGRID_STOP_SLIP_def EXIT_CROSS_RATE_def DEFAULT_MAX_FEE_SHARE_def

lemma num_given [simp]: "num d (Some x) = x"
  by (simp add: num_def)

lemma as_frac_nonneg [simp]: "0 \<le> as_frac v"
  by (simp add: as_frac_def)

lemma round_trip_pos [simp]: "0 < TAKER_ROUND_TRIP_RATE" "0 \<le> TAKER_ROUND_TRIP_RATE" "\<not> TAKER_ROUND_TRIP_RATE \<le> 0"
  by (simp_all add: rates)

lemma divide_bound:
  fixes s :: rat
  assumes "s \<le> b / (l * r)" "0 < l" "0 < r"
  shows "s * l * r \<le> b"
  using assms by (simp add: pos_le_divide_eq mult.assoc)

text \<open>The cap is exactly the two bounds of the stop budget, against the exposure of a full pyramid.\<close>

lemma max_step_bounds:
  assumes "max_step_for_stop_budget budget share levels (Some band) = Some c" "s \<le> c" "0 < band"
  shows "s * of_int (max 1 levels) * TAKER_ROUND_TRIP_RATE \<le> num 0 budget * share"
    and "s * of_int (max 1 levels) * (band + TAKER_ROUND_TRIP_RATE) \<le> num 0 budget"
proof -
  let ?l = "of_int (max 1 levels) :: rat"
  have l: "0 < ?l" by linarith
  have m: "0 < band + TAKER_ROUND_TRIP_RATE" using assms(3) by (simp add: add_pos_pos)
  have "c = min (num 0 budget * share / (?l * TAKER_ROUND_TRIP_RATE)) (num 0 budget / (?l * (band + TAKER_ROUND_TRIP_RATE)))"
    using assms(1,3) m by (auto simp: max_step_for_stop_budget_def Let_def max_def split: if_splits)
  then have "s \<le> num 0 budget * share / (?l * TAKER_ROUND_TRIP_RATE)" "s \<le> num 0 budget / (?l * (band + TAKER_ROUND_TRIP_RATE))"
    using assms(2) by auto
  then show "s * ?l * TAKER_ROUND_TRIP_RATE \<le> num 0 budget * share"
    and "s * ?l * (band + TAKER_ROUND_TRIP_RATE) \<le> num 0 budget"
    using l m by (auto intro: divide_bound)
qed

lemma base_step_bounds:
  shows "0 \<le> base_step deployed levels chunk" and "base_step deployed levels chunk * of_int (max 1 levels) \<le> max 0 (num 0 deployed)"
proof -
  let ?l = "of_int (max 1 levels) :: rat" and ?d = "max 0 (num 0 deployed) :: rat"
  have l: "0 < ?l" by linarith
  have "0 \<le> ?d / ?l" using l by (intro divide_nonneg_pos) auto
  then show "0 \<le> base_step deployed levels chunk"
    by (auto simp: base_step_def Let_def split: option.split)
  have "base_step deployed levels chunk \<le> ?d / ?l"
    by (auto simp: base_step_def Let_def split: option.split)
  then show "base_step deployed levels chunk * ?l \<le> ?d"
    using l by (simp add: pos_le_divide_eq)
qed

lemma resolve_step_cases:
  obtains (free) "sp_step (resolve_step_quote deployed levels chunk budget min_step share band) = base_step deployed levels chunk"
      "\<not> sp_floored (resolve_step_quote deployed levels chunk budget min_step share band)"
      "case max_step_for_stop_budget budget share (max 1 levels) band of None \<Rightarrow> True | Some c \<Rightarrow> base_step deployed levels chunk \<le> c"
  | (capped) c where "max_step_for_stop_budget budget share (max 1 levels) band = Some c" "c < base_step deployed levels chunk"
      "sp_step (resolve_step_quote deployed levels chunk budget min_step share band) = c"
      "\<not> sp_floored (resolve_step_quote deployed levels chunk budget min_step share band)"
      "max 0 (num 0 min_step) \<le> c"
  | (floored) c where "max_step_for_stop_budget budget share (max 1 levels) band = Some c" "c < max 0 (num 0 min_step)"
      "c < base_step deployed levels chunk"
      "sp_step (resolve_step_quote deployed levels chunk budget min_step share band) =
        (if max 0 (num 0 min_step) > 0 then min (base_step deployed levels chunk) (max 0 (num 0 min_step)) else c)"
      "sp_floored (resolve_step_quote deployed levels chunk budget min_step share band)"
proof (cases "max_step_for_stop_budget budget share (max 1 levels) band")
  case None
  then show ?thesis by (intro free) (simp_all add: resolve_step_quote_def Let_def)
next
  case (Some c)
  consider "base_step deployed levels chunk \<le> c" | "c < base_step deployed levels chunk" "max 0 (num 0 min_step) \<le> c"
    | "c < base_step deployed levels chunk" "c < max 0 (num 0 min_step)"
    by linarith
  then show ?thesis
  proof cases
    case 1
    with Some show ?thesis by (intro free) (simp_all add: resolve_step_quote_def Let_def)
  next
    case 2
    with Some show ?thesis by (intro capped [of c]) (simp_all add: resolve_step_quote_def Let_def not_less)
  next
    case 3
    with Some show ?thesis by (intro floored [of c]) (simp_all add: resolve_step_quote_def Let_def)
  qed
qed

lemma resolve_step_fields [simp]:
  "sp_uncapped (resolve_step_quote deployed levels chunk budget min_step share band) = base_step deployed levels chunk"
  "sp_budget (resolve_step_quote deployed levels chunk budget min_step share band) = max 0 (num 0 budget)"
  "sp_round_trip (resolve_step_quote deployed levels chunk budget min_step share band) =
     taker_round_trip_cost (Some (sp_step (resolve_step_quote deployed levels chunk budget min_step share band) * of_int (max 1 levels)))"
  by (simp_all add: resolve_step_quote_def Let_def split_def)

lemma resolve_step_sound:
  fixes b :: rat
  assumes p: "p = resolve_step_quote deployed levels chunk budget min_step share (Some b)" and b: "0 < b"
    and pos: "0 < num 0 budget" "0 < share" and nf: "\<not> sp_floored p"
  shows "sp_step p * of_int (max 1 levels) * TAKER_ROUND_TRIP_RATE \<le> sp_budget p * share"
    and "sp_step p * of_int (max 1 levels) * (b + TAKER_ROUND_TRIP_RATE) \<le> sp_budget p"
proof -
  have "max_step_for_stop_budget budget share (max 1 levels) (Some b) \<noteq> None"
    using pos by (simp add: max_step_for_stop_budget_def Let_def)
  then obtain c where c: "max_step_for_stop_budget budget share (max 1 levels) (Some b) = Some c" by blast
  have "sp_step p \<le> c"
    using nf c unfolding p
    by (cases rule: resolve_step_cases [of deployed levels chunk budget min_step share "Some b"]) auto
  note this_bounds = max_step_bounds [OF c this b]
  show "sp_step p * of_int (max 1 levels) * TAKER_ROUND_TRIP_RATE \<le> sp_budget p * share"
    and "sp_step p * of_int (max 1 levels) * (b + TAKER_ROUND_TRIP_RATE) \<le> sp_budget p"
    using this_bounds pos unfolding p by simp_all
qed

lemma resolve_step_exposure:
  assumes p: "p = resolve_step_quote deployed levels chunk budget min_step share band" and b: "0 \<le> share"
  shows "sp_step p \<le> sp_uncapped p" and "0 \<le> sp_step p"
    and "sp_step p * of_int (max 1 levels) \<le> max 0 (num 0 deployed)"
    and "sp_floored p \<Longrightarrow> sp_step p = min (sp_uncapped p) (num 0 min_step)"
proof -
  have cap: "0 \<le> c" if "max_step_for_stop_budget budget share (max 1 levels) band = Some c" for c
    using that b by (auto simp: max_step_for_stop_budget_def Let_def split: if_splits intro!: divide_nonneg_pos mult_nonneg_nonneg mult_pos_pos add_nonneg_pos)
  show le: "sp_step p \<le> sp_uncapped p"
    unfolding p by (cases rule: resolve_step_cases [of deployed levels chunk budget min_step share band]) auto
  show "0 \<le> sp_step p"
    unfolding p using base_step_bounds(1) cap
    by (cases rule: resolve_step_cases [of deployed levels chunk budget min_step share band]) auto
  have "sp_step p * of_int (max 1 levels) \<le> base_step deployed levels chunk * of_int (max 1 levels)"
    using le unfolding p by (intro mult_right_mono) simp_all
  then show "sp_step p * of_int (max 1 levels) \<le> max 0 (num 0 deployed)"
    using base_step_bounds(2) by (rule order_trans)
  show "sp_step p = min (sp_uncapped p) (num 0 min_step)" if "sp_floored p"
    using that cap unfolding p
    by (cases rule: resolve_step_cases [of deployed levels chunk budget min_step share band]) (fastforce simp: max_def)+
qed


lemma stop_pct_floor: "TAKER_ROUND_TRIP_RATE \<le> fst (revgrid_stop_pct step user)"
  by (simp add: revgrid_stop_pct_def Let_def)

lemma trail_pct_floor: "TAKER_ROUND_TRIP_RATE \<le> fst (revgrid_trail_pct step user)"
  by (auto simp: revgrid_trail_pct_def arm_pct_def Let_def max_def)

lemma trigger_ladder_fields:
  fixes p :: trigger_plan
  assumes "p = trigger_ladder_plan deployed levels spread budget min_step chunk user_stop user_trail mxl"
  shows "tp_step p = max (as_frac spread) REVGRID_STEP_FLOOR"
    and "tp_levels p = max 1 (min (max 1 levels) (max 1 (if mxl = 0 then REVGRID_MAX_LEVELS else mxl)))"
    and "tp_stop p = fst (revgrid_stop_pct (tp_step p) user_stop)" and "tp_arm p = fst (revgrid_trail_pct (tp_step p) user_trail)"
    and "tp_exit_band p = max (step_band_frac (Some (tp_step p)) (Some 0)) (tp_stop p + REVGRID_STOP_SLIP + REVGRID_ENTRY_SLIP)"
    and "tp_sizing p = resolve_step_quote deployed (tp_levels p) chunk budget min_step DEFAULT_MAX_FEE_SHARE (Some (tp_exit_band p))"
  using assms by (simp_all add: trigger_ladder_plan_def Let_def split_def)

lemma exit_band_beyond_stop:
  fixes p :: trigger_plan
  assumes "p = trigger_ladder_plan deployed levels spread budget min_step chunk user_stop user_trail mxl"
  shows "tp_stop p + REVGRID_STOP_SLIP + REVGRID_ENTRY_SLIP \<le> tp_exit_band p" and "0 < tp_exit_band p"
proof -
  note f = trigger_ladder_fields [OF assms]
  show le: "tp_stop p + REVGRID_STOP_SLIP + REVGRID_ENTRY_SLIP \<le> tp_exit_band p" using f(5) by linarith
  have "0 < tp_stop p" using stop_pct_floor [of "tp_step p" user_stop] f(3) round_trip_pos(1) by linarith
  with le show "0 < tp_exit_band p" by (simp add: slips)
qed

lemma ladder_levels:
  fixes p :: trigger_plan
  assumes "p = trigger_ladder_plan deployed levels spread budget min_step chunk user_stop user_trail mxl" "mxl \<le> REVGRID_MAX_LEVELS"
  shows "1 \<le> tp_levels p" and "tp_levels p \<le> REVGRID_MAX_LEVELS" and "max 1 (tp_levels p) = tp_levels p"
  using trigger_ladder_fields(2) [OF assms(1)] assms(2) by (auto simp: REVGRID_MAX_LEVELS_def)

lemma ladder_stopped_in_budget:
  fixes p :: trigger_plan
  assumes p: "p = trigger_ladder_plan deployed levels spread budget min_step chunk user_stop user_trail mxl" "mxl \<le> REVGRID_MAX_LEVELS"
    and nf: "\<not> sp_floored (tp_sizing p)"
  shows "pyramid_fits_budget p"
    and "0 < sp_budget (tp_sizing p) \<Longrightarrow> sp_step (tp_sizing p) * of_int (tp_levels p) * TAKER_ROUND_TRIP_RATE \<le> sp_budget (tp_sizing p) * DEFAULT_MAX_FEE_SHARE"
proof -
  note f = trigger_ladder_fields [OF p(1)] and l = ladder_levels [OF p]
  have sh: "0 < DEFAULT_MAX_FEE_SHARE" by (simp add: slips)
  have "sp_step (tp_sizing p) * of_int (tp_levels p) * TAKER_ROUND_TRIP_RATE \<le> sp_budget (tp_sizing p) * DEFAULT_MAX_FEE_SHARE \<and>
    sp_step (tp_sizing p) * of_int (tp_levels p) * (tp_exit_band p + TAKER_ROUND_TRIP_RATE) \<le> sp_budget (tp_sizing p)"
    if "0 < sp_budget (tp_sizing p)"
  proof -
    have "0 < num 0 budget" using that f(6) by simp
    from resolve_step_sound [OF f(6) exit_band_beyond_stop(2) [OF p(1)] this sh nf] show ?thesis by (simp add: l(3))
  qed
  then show "pyramid_fits_budget p"
    and "0 < sp_budget (tp_sizing p) \<Longrightarrow> sp_step (tp_sizing p) * of_int (tp_levels p) * TAKER_ROUND_TRIP_RATE \<le> sp_budget (tp_sizing p) * DEFAULT_MAX_FEE_SHARE"
    by (auto simp: pyramid_fits_budget_def pyramid_stop_cost_def) (meson not_le)
qed

text \<open>
  Claim C30: the trigger ladder never asks the venue for more pending triggers than it accepts while the
  reduce-only stop is armed too; its rungs, its stop and its trail keep their floors; it never deploys more
  than was allocated; and unless the size was floored at the venue minimum, a full pyramid that reaches
  the ladder's own stop, slips and fees included, costs no more than the session's stop budget, a third of
  it at most in fees. A floored plan trades the venue minimum or the size asked for, whichever is smaller.
\<close>

theorem ladder_within_budget:
  fixes p :: trigger_plan
  assumes "p = trigger_ladder_plan deployed levels spread budget min_step chunk user_stop user_trail mxl" "mxl \<le> REVGRID_MAX_LEVELS"
  shows "1 \<le> tp_levels p \<and> pending_triggers_flat p + 1 \<le> REVGRID_VENUE_MAX_PENDING_TRIGGERS
    \<and> REVGRID_STEP_FLOOR \<le> tp_step p \<and> TAKER_ROUND_TRIP_RATE \<le> tp_stop p \<and> TAKER_ROUND_TRIP_RATE \<le> tp_arm p
    \<and> tp_stop p + REVGRID_STOP_SLIP + REVGRID_ENTRY_SLIP \<le> tp_exit_band p
    \<and> 0 \<le> sp_step (tp_sizing p) \<and> sp_step (tp_sizing p) * of_int (tp_levels p) \<le> max 0 (num 0 deployed)
    \<and> (if sp_floored (tp_sizing p) then sp_step (tp_sizing p) = min (sp_uncapped (tp_sizing p)) (num 0 min_step)
       else pyramid_fits_budget p \<and> (sp_budget (tp_sizing p) > 0 \<longrightarrow>
         sp_round_trip (tp_sizing p) \<le> sp_budget (tp_sizing p) * DEFAULT_MAX_FEE_SHARE))"
proof -
  note f = trigger_ladder_fields [OF assms(1)] and l = ladder_levels [OF assms]
  have sh: "0 \<le> DEFAULT_MAX_FEE_SHARE" by (simp add: slips)
  note x = resolve_step_exposure [OF f(6) sh]
  have rt: "sp_round_trip (tp_sizing p) = sp_step (tp_sizing p) * of_int (tp_levels p) * TAKER_ROUND_TRIP_RATE"
    using x(2) l(1) f(6) by (simp add: taker_round_trip_cost_def l(3) max_absorb2)
  have "pending_triggers_flat p + 1 \<le> REVGRID_VENUE_MAX_PENDING_TRIGGERS"
    using l(2) by (simp add: pending_triggers_flat_def REVGRID_VENUE_MAX_PENDING_TRIGGERS_def REVGRID_MAX_LEVELS_def)
  moreover have "REVGRID_STEP_FLOOR \<le> tp_step p" using f(1) by simp
  moreover have "TAKER_ROUND_TRIP_RATE \<le> tp_stop p" "TAKER_ROUND_TRIP_RATE \<le> tp_arm p"
    using f(3,4) stop_pct_floor trail_pct_floor by simp_all
  ultimately show ?thesis
    using l(1) x(2-4) exit_band_beyond_stop(1) [OF assms(1)] ladder_stopped_in_budget [OF assms] by (simp add: rt l(3))
qed

text \<open>Twenty levels a side on 2000 dollars at 10bp with a stop of 2 percent of 100: twelve rungs, the step capped by the budget.\<close>

definition demo_ladder :: trigger_plan where
  "demo_ladder = trigger_ladder_plan (Some 2000) 20 (Some (1 / 1000)) (Some 2) (Some (1 / 10)) None None None 0"

lemma demo_ladder_size: "tp_levels demo_ladder = 12 \<and> sp_capped (tp_sizing demo_ladder) \<and> \<not> sp_floored (tp_sizing demo_ladder)"
  by (simp add: demo_ladder_def trigger_ladder_plan_def Let_def)
    (simp add: resolve_step_quote_def base_step_def max_step_for_stop_budget_def revgrid_stop_pct_def revgrid_trail_pct_def
      step_band_frac_def exit_cost_frac_def exit_band_frac_def arm_pct_def as_frac_def num_def rates slips REVGRID_MAX_LEVELS_def Let_def)

lemma ladder_within_budget_witness:
  "tp_levels demo_ladder = 12 \<and> sp_capped (tp_sizing demo_ladder) \<and> pyramid_fits_budget demo_ladder"
  using ladder_within_budget [OF demo_ladder_def] demo_ladder_size by (simp add: REVGRID_MAX_LEVELS_def)


subsection \<open>The stop and the liquidation\<close>

definition liquidation_price :: "bool \<Rightarrow> dec \<Rightarrow> dec \<Rightarrow> dec \<Rightarrow> dec" where
  "liquidation_price is_long e leverage mmf =
     (if is_long then e * (1 - move_to_liquidation leverage mmf) else e * (1 + move_to_liquidation leverage mmf))"

lemma safe_stop_move:
  fixes lev :: rat
  assumes "1 \<le> lev" "sl \<le> safe_max_sl_pct lev mmf k cushion"
  shows "sl / (100 * lev) + cushion / (100 * lev) \<le> k * move_to_liquidation lev mmf"
proof -
  have "(sl + cushion) / (100 * lev) \<le> 100 * k * (1 - mmf * lev) / (100 * lev)"
    using assms by (intro divide_right_mono) (simp_all add: safe_max_sl_pct_def max_def)
  also have "\<dots> = k * move_to_liquidation lev mmf"
    using assms(1) by (simp add: move_to_liquidation_def field_simps)
  finally show ?thesis by (simp add: add_divide_distrib)
qed

lemma liquidation_safety_fields:
  assumes "ls_ok (liquidation_safety lev mmf sl armed k cushion runway)" "1 \<le> lev"
  shows "0 < move_to_liquidation lev mmf" and "0 < safe_max_sl_pct lev mmf k cushion"
    and "armed \<Longrightarrow> 0 < sl \<Longrightarrow> sl \<le> safe_max_sl_pct lev mmf k cushion"
    and "\<not> (armed \<and> 0 < sl) \<Longrightarrow> 0 < mmf + runway \<Longrightarrow> lev * (mmf + runway) \<le> 1"
  using assms by (auto simp: liquidation_safety_def leverage_requires_armed_sl_def Let_def max_def field_simps split: if_splits)

text \<open>\<open>safe_max_sl_pct\<close> and \<open>max_safe_leverage\<close> are inverses of each other.\<close>

lemma max_safe_leverage_inverts:
  fixes l :: rat
  assumes "max_safe_leverage sl mmf k cushion = Some l" "1 < l"
  shows "safe_max_sl_pct l mmf k cushion = sl"
proof -
  have k: "0 < k" and m: "0 < mmf" and n: "l = (1 - (sl + cushion) / (100 * k)) / mmf"
    using assms by (auto simp: max_safe_leverage_def Let_def max_def split: if_splits)
  have "mmf * l = 1 - (sl + cushion) / (100 * k)" using m n by simp
  then have "100 * k * (1 - mmf * l) = sl + cushion" using k by simp
  then show ?thesis using assms(2) by (simp add: safe_max_sl_pct_def max_def)
qed

lemma stop_price_at:
  fixes e :: rat
  assumes "0 < e" "1 \<le> lev" "0 < sl" "sl / (100 * lev) < 1"
  shows "stop_loss_price is_long e lev sl = Some (if is_long then e * (1 - sl / (100 * lev)) else e * (1 + sl / (100 * lev)))"
proof -
  let ?m = "sl / (100 * lev)"
  have m: "0 < ?m" using assms by simp
  have "0 < e * (1 - ?m)" "0 < e * (1 + ?m)" using assms(1,4) m by (intro mult_pos_pos; linarith)+
  with assms m show ?thesis by (simp add: stop_loss_price_def Let_def not_le)
qed

lemma runway_at:
  fixes e :: rat
  assumes "0 < e" "RUNWAY_EPS < e * d" "0 < m" "m < d" "d < 1"
  shows "consumed_runway e (e * (1 - m)) (e * (1 - d)) 1 = Some (m / d)"
    and "consumed_runway e (e * (1 + m)) (e * (1 + d)) (- 1) = Some (m / d)"
proof -
  have pos: "0 < e * (1 - m)" "0 < e * (1 - d)" "0 < e * (1 + m)" "0 < e * (1 + d)"
    using assms by (intro mult_pos_pos; linarith)+
  have md: "e * m < e * d" using assms(1,4) by simp
  have "(e - e * (1 - m)) / (e - e * (1 - d)) = m / d" "(e * (1 + m) - e) / (e * (1 + d) - e) = m / d"
    using assms(1) by (simp_all add: algebra_simps)
  then show "consumed_runway e (e * (1 - m)) (e * (1 - d)) 1 = Some (m / d)"
    and "consumed_runway e (e * (1 + m)) (e * (1 + d)) (- 1) = Some (m / d)"
    using assms(1,2) pos md by (simp_all add: consumed_runway_def not_le) (simp_all add: algebra_simps)
qed

text \<open>
  Claim C31: a configuration that the liquidation guard passes with an armed stop has a venue stop, and
  that stop stands strictly between the entry and the price of liquidation: when the mark reaches it, the live
  proximity rail reads at most the safety factor of the runway as consumed, the cushion left on top.
\<close>

theorem stop_before_liquidation:
  fixes e :: rat
  assumes ok: "ls_ok (liquidation_safety lev mmf sl True k cushion runway)"
    and lev: "1 \<le> lev" and sl: "0 < sl" and mmf: "0 < mmf" and k: "k < 1" and cushion: "0 \<le> cushion"
    and e: "0 < e" "RUNWAY_EPS < e * move_to_liquidation lev mmf"
  shows "\<exists>p r. stop_loss_price is_long e lev sl = Some p
    \<and> (if is_long then liquidation_price is_long e lev mmf < p \<and> p < e else e < p \<and> p < liquidation_price is_long e lev mmf)
    \<and> consumed_runway e p (liquidation_price is_long e lev mmf) (if is_long then 1 else - 1) = Some r
    \<and> r + cushion / (100 * lev * move_to_liquidation lev mmf) \<le> k"
proof -
  let ?d = "move_to_liquidation lev mmf" and ?m = "sl / (100 * lev)"
  note f = liquidation_safety_fields [OF ok lev]
  have "1 / lev \<le> 1" using lev by simp
  moreover have "?d = 1 / lev - mmf" using lev by (simp add: move_to_liquidation_def max_def)
  ultimately have d1: "?d < 1" using mmf by linarith
  have mc: "?m + cushion / (100 * lev) \<le> k * ?d" by (rule safe_stop_move [OF lev f(3)]) (use sl in simp_all)
  have m0: "0 < ?m" using sl lev by simp
  have "k * ?d < ?d" using k f(1) by simp
  moreover have "0 \<le> cushion / (100 * lev)" using cushion lev by simp
  ultimately have md: "?m < ?d" using mc by linarith
  have r: "?m / ?d + cushion / (100 * lev * ?d) \<le> k"
  proof -
    have "(?m + cushion / (100 * lev)) / ?d \<le> k" using mc f(1) by (simp add: pos_divide_le_eq)
    then show ?thesis by (simp add: add_divide_distrib)
  qed
  show ?thesis
    using stop_price_at [OF e(1) lev sl, of is_long] runway_at [OF e(1,2) m0 md d1] md d1 m0 e(1) r
    by (intro exI [of _ "if is_long then e * (1 - ?m) else e * (1 + ?m)"] exI [of _ "?m / ?d"])
      (simp add: liquidation_price_def mult_less_cancel_left_pos)
qed

text \<open>Tenfold leverage, 1 percent of maintenance, a stop at 20 percent of the margin: the guard passes and the stop uses 2/9 of the runway.\<close>

lemma stop_before_liquidation_witness:
  "ls_ok (liquidation_safety 10 (1 / 100) 20 True (1 / 2) 1 (1 / 20)) \<and> stop_loss_price True 100 10 20 = Some 98
    \<and> liquidation_price True 100 10 (1 / 100) = 91 \<and> consumed_runway 100 98 91 1 = Some (2 / 9)
    \<and> (\<exists>p r. stop_loss_price True 100 10 20 = Some p \<and> consumed_runway 100 p 91 1 = Some r \<and> r + 1 / 90 \<le> 1 / 2)"
proof -
  have ok: "ls_ok (liquidation_safety 10 (1 / 100) 20 True (1 / 2) 1 (1 / 20))"
    by (simp add: liquidation_safety_def move_to_liquidation_def safe_max_sl_pct_def leverage_requires_armed_sl_def Let_def)
  have d: "move_to_liquidation 10 (1 / 100) = 9 / 100" by (simp add: move_to_liquidation_def)
  show ?thesis
    using stop_before_liquidation [OF ok, of 100 True] ok
    by (simp add: d liquidation_price_def stop_loss_price_def consumed_runway_def RUNWAY_EPS_def Let_def)
qed


subsection \<open>The session stop, the fees and the participation\<close>

lemma overshoot_nonneg: "0 \<le> projected_overshoot_pct leverage recent factor"
  by (simp add: projected_overshoot_pct_def Let_def)

text \<open>The trigger only tightens the stop, never past the cap; with nothing projected it is the user's number.\<close>

lemma effective_trigger_reserve:
  assumes "0 < sl"
  shows "effective_sl_trigger sl leverage recent factor max_fraction cost =
    sl * (1 - max 0 (min (min (9 / 10) (max 0 max_fraction)) ((projected_overshoot_pct leverage recent factor + max 0 cost) / sl)))"
  using assms by (simp add: effective_sl_trigger_def sl_buffer_pct_def algebra_simps)

lemma effective_trigger_bounds:
  assumes "0 < sl"
  shows "effective_sl_trigger sl leverage recent factor max_fraction cost \<le> sl"
    and "sl * (1 - min (9 / 10) (max 0 max_fraction)) \<le> effective_sl_trigger sl leverage recent factor max_fraction cost"
    and "0 < effective_sl_trigger sl leverage recent factor max_fraction cost"
proof -
  define c where "c = min (9 / 10 :: rat) (max 0 max_fraction)"
  define r where "r = max 0 (min c ((projected_overshoot_pct leverage recent factor + max 0 cost) / sl))"
  have e: "effective_sl_trigger sl leverage recent factor max_fraction cost = sl * (1 - r)"
    unfolding effective_trigger_reserve [OF assms] r_def c_def ..
  have c: "0 \<le> c" "c < 1" unfolding c_def by linarith+
  then have r: "0 \<le> r" "r \<le> c" unfolding r_def by auto
  show "effective_sl_trigger sl leverage recent factor max_fraction cost \<le> sl"
    unfolding e using assms r(1) by (simp add: mult_le_cancel_left1)
  show "sl * (1 - min (9 / 10) (max 0 max_fraction)) \<le> effective_sl_trigger sl leverage recent factor max_fraction cost"
    unfolding e c_def [symmetric] using assms r(2) by (intro mult_left_mono) simp_all
  show "0 < effective_sl_trigger sl leverage recent factor max_fraction cost"
    unfolding e using assms r(2) c by (intro mult_pos_pos) linarith+
qed

text \<open>Where the reserve fits the cap, the trigger, the projected overshoot and the closing fee add up to the user's stop.\<close>

lemma effective_trigger_exact:
  assumes "0 < sl" "0 \<le> cost" "projected_overshoot_pct leverage recent factor + cost \<le> sl * min (9 / 10) (max 0 max_fraction)"
  shows "effective_sl_trigger sl leverage recent factor max_fraction cost + projected_overshoot_pct leverage recent factor + cost = sl"
proof -
  define c where "c = min (9 / 10 :: rat) (max 0 max_fraction)"
  define q where "q = (projected_overshoot_pct leverage recent factor + cost) / sl"
  have "q \<le> c" using assms unfolding c_def [symmetric] q_def by (simp add: pos_divide_le_eq mult.commute)
  moreover have "0 \<le> q" unfolding q_def
    using assms(1,2) overshoot_nonneg by (intro divide_nonneg_pos add_nonneg_nonneg) auto
  moreover have "effective_sl_trigger sl leverage recent factor max_fraction cost = sl * (1 - max 0 (min c q))"
    using assms(2) unfolding effective_trigger_reserve [OF assms(1)] c_def q_def by (simp add: max_absorb2)
  moreover have "sl * q = projected_overshoot_pct leverage recent factor + cost" using assms(1) by (simp add: q_def)
  ultimately show ?thesis by (simp add: algebra_simps)
qed

lemma breakeven_nets_zero:
  assumes "0 < e" "0 \<le> t + b" "t + b \<le> 99 / 100"
  shows "taker_breakeven_price (Some e) (Some t) (Some b) * (1 - (t + b)) = e * (1 + (t + b))"
  using assms by (simp add: taker_breakeven_price_def Let_def)

lemma sell_target_recovers_fees:
  assumes "0 < e" "0 \<le> t + b" "t + b \<le> 99 / 100"
  shows "e * (1 + (t + b)) \<le> taker_sell_target (Some e) (Some t) (Some b) edge * (1 - (t + b))"
proof -
  have "taker_breakeven_price (Some e) (Some t) (Some b) \<le> taker_sell_target (Some e) (Some t) (Some b) edge"
    using assms(1) by (simp add: taker_sell_target_def Let_def)
  then have "taker_breakeven_price (Some e) (Some t) (Some b) * (1 - (t + b)) \<le> taker_sell_target (Some e) (Some t) (Some b) edge * (1 - (t + b))"
    using assms(3) by (intro mult_right_mono) linarith+
  then show ?thesis by (simp add: breakeven_nets_zero [OF assms])
qed

lemma clamp_margin_range: "MIN_MARGIN_USD \<le> clamp_margin_usd v" "clamp_margin_usd v \<le> MAX_MARGIN_USD"
  by (simp_all add: clamp_margin_usd_def MIN_MARGIN_USD_def MAX_MARGIN_USD_def Let_def)

lemma estimated_cycles_least:
  assumes "0 < vf_margin e" "0 < vf_target e"
  shows "vf_target e \<le> of_int (estimated_cycles e) * (vf_margin e * 2)"
    and "of_int (estimated_cycles e - 1) * (vf_margin e * 2) < vf_target e"
proof -
  let ?q = "vf_target e / (vf_margin e * 2)"
  have "?q \<le> of_int \<lceil>?q\<rceil>" "of_int \<lceil>?q\<rceil> - 1 < ?q" by linarith+
  moreover have "estimated_cycles e = \<lceil>?q\<rceil>" using assms by (simp add: estimated_cycles_def)
  ultimately have "?q \<le> of_int (estimated_cycles e)" "of_int (estimated_cycles e - 1) < ?q" by simp_all
  then show "vf_target e \<le> of_int (estimated_cycles e) * (vf_margin e * 2)"
    and "of_int (estimated_cycles e - 1) * (vf_margin e * 2) < vf_target e"
    using assms by (simp_all add: pos_divide_le_eq pos_less_divide_eq)
qed

lemma cycle_within_deployed: "cycle_notional_usd preset volume interval deployed venue_min \<le> max 0 deployed"
  by (simp add: cycle_notional_usd_def Let_def)

text \<open>The duration on the card is the cycles times the cadence, where neither the floor nor the budget binds.\<close>

lemma pov_duration_is_cycles:
  fixes notional :: rat
  assumes n: "0 < notional" and iv: "effective_cycle_interval_seconds interval = secs"
    and chunk: "chunk = participation_rate preset * (max 0 volume / 1440) * (of_int secs / 60)"
    and free: "MIN_CYCLE_NOTIONAL_USD \<le> chunk" "chunk \<le> notional"
    and vol: "MIN_VOLUME_PER_MINUTE_FLOOR \<le> max 0 volume / 1440" "MIN_VOLUME_PER_MINUTE_FLOOR \<le> participation_rate preset * (max 0 volume / 1440)"
  shows "pv_duration_minutes (compute_pov_duration notional preset volume interval) =
    pv_cycles (compute_pov_duration notional preset volume interval) * (of_int secs / 60)"
proof -
  have s: "1 \<le> secs" using iv by (auto simp: effective_cycle_interval_seconds_def Let_def split: if_splits)
  have s2: "effective_cycle_interval_seconds (Some (of_int secs)) = secs"
    using s by (simp add: effective_cycle_interval_seconds_def Let_def trunc_dec_def)
  have c: "0 < chunk" using free(1) by (simp add: MIN_CYCLE_NOTIONAL_USD_def)
  have "cycle_notional_usd preset (max 0 volume) (Some (of_int secs)) (max 0 notional) 0 = chunk"
    using n free chunk by (simp add: cycle_notional_usd_def s2 MIN_CYCLE_NOTIONAL_USD_def Let_def max_def min_def)
  then have "pv_cycles (compute_pov_duration notional preset volume interval) = notional / chunk"
    using n c by (simp add: compute_pov_duration_def iv Let_def max_def)
  moreover have "pv_duration_minutes (compute_pov_duration notional preset volume interval) = notional / (participation_rate preset * (max 0 volume / 1440))"
    using n vol by (simp add: compute_pov_duration_def Let_def max_absorb1)
  ultimately show ?thesis using s chunk by simp
qed

end
