(* ===== verification/Volume_Bot.thy ===== *)
theory Volume_Bot
  imports Mm_Quotes Quote_Plans Risk_Sizing
begin

text \<open>
  The volume bot, from \<open>engine/controllers/volume_bot.py\<close>: it buys and sells one spot pair in turn,
  one round trip after the other, until a volume, a number of cycles or a loss is reached. The attributes the
  constructor fixes are the record \<open>vb_par\<close>, those that change fields of \<open>vb_ctl\<close>. The book and the sizes
  of the venue that only this controller reads are parameters in \<open>vb_env\<close>. The boolean results of the
  coroutines are never read and left out, and so are the log lines with the flag that limits them and the
  attributes nothing reads (\<open>requote_seconds\<close>, \<open>cross_after_seconds\<close>, \<open>twap_slices\<close>, \<open>leg_started_quote_ts\<close>).
\<close>

subsection \<open>Configuration\<close>

text \<open>
  An entry is \<open>None\<close> where its key is missing. The value of an entry that goes through
  \<open>_non_negative_decimal\<close> is \<open>None\<close> when it does not parse; a rate may also be there and be Python's \<open>None\<close>.
\<close>

datatype rate_entry = Null_Rate | Malformed_Rate | Rate dec

record vb_cfg =
  vf_pair :: "string option"
  vf_market :: "string option"
  vf_leverage :: "int option"
  vf_amount :: "dec option"
  vf_target :: "dec option"
  vf_max_cycles :: "int option"
  vf_offset :: "raw option"
  vf_loss_bp :: "raw option"
  vf_cross_slip :: "raw option"
  vf_algo :: "string option"
  vf_taker_mode :: "dec option"
  vf_horizon :: "dec option"
  vf_tolerance :: "dec option"
  vf_max_taker :: "dec option"
  vf_deadline_mult :: "dec option"
  vf_chase :: "dec option"
  vf_timeout :: "dec option"
  vf_taker_slip :: "raw option"
  vf_builder :: "raw option"
  vf_spot_maker :: "rate_entry option"
  vf_vol_maker :: "rate_entry option"
  vf_maker_bp :: "dec option"
  vf_spot_taker :: "rate_entry option"
  vf_vol_taker :: "rate_entry option"
  vf_limit :: "raw option"
  vf_restore_volume :: "raw option"
  vf_restore_pnl :: "dec option"
  vf_restore_cycles :: "dec option"

record vb_par =
  vp_pair :: string
  vp_amount :: dec
  vp_target :: dec
  vp_max_cycles :: int
  vp_offset :: dec
  vp_loss_bp :: dec
  vp_cross_slip :: dec
  vp_maker_fee :: dec
  vp_algo :: string
  vp_horizon :: dec
  vp_tolerance :: dec
  vp_max_taker :: dec
  vp_deadline_mult :: dec
  vp_chase :: dec
  vp_taker_fee :: dec
  vp_builder :: dec
  vp_limit :: dec
  vp_timeout :: dec
  vp_taker_slip :: dec

definition QUOTE_LIKE_BASES :: "string list" where
  "QUOTE_LIKE_BASES = [''USDC'', ''USDC0'', ''USDT'', ''USDT0'', ''USD'']"

definition MAX_BUY_RETRIES :: nat where "MAX_BUY_RETRIES = 3"
definition MAX_SELL_ATTEMPTS :: nat where "MAX_SELL_ATTEMPTS = 5"
definition MAX_REQUOTES_PER_CYCLE :: nat where "MAX_REQUOTES_PER_CYCLE = 120"

definition non_negative_decimal :: "raw \<Rightarrow> dec" where
  "non_negative_decimal v = (let parsed = num 0 v in if parsed > 0 then parsed else 0)"

definition non_negative_rate :: "rate_entry \<Rightarrow> dec" where
  "non_negative_rate r = (case r of Rate x \<Rightarrow> non_negative_decimal (Some x) | _ \<Rightarrow> 0)"

definition maker_fee_rate :: "vb_cfg \<Rightarrow> dec" where
  "maker_fee_rate c = (let entry = or_else (vf_spot_maker c) (or_else (vf_vol_maker c) Null_Rate);
     entry = (case (entry, vf_maker_bp c) of (Null_Rate, Some bp) \<Rightarrow> Rate (bp / 10000) | _ \<Rightarrow> entry) in
   min (non_negative_rate entry) (99 / 100))"

definition taker_fee_rate :: "vb_cfg \<Rightarrow> dec" where
  "taker_fee_rate c = (let rate = non_negative_rate (or_else (vf_spot_taker c) (or_else (vf_vol_taker c) Null_Rate)) in
   min (if rate \<le> 0 then DEFAULT_SPOT_TAKER_FEE_RATE else rate) (99 / 100))"

definition execution_algo :: "vb_cfg \<Rightarrow> string" where
  "execution_algo c = (let algo = lower_str (strip_str (or_str (vf_algo c) ''twap''));
     algo = (if algo \<in> set [''twap'', ''chase'', ''taker''] then algo else ''twap'') in
   case vf_taker_mode c of None \<Rightarrow> algo
   | Some x \<Rightarrow> if x \<noteq> 0 then ''taker'' else if algo \<noteq> ''taker'' then algo else ''twap'')"

definition raw_pair :: "vb_cfg \<Rightarrow> string" where
  "raw_pair c = upper_str (strip_str (or_str (vf_pair c) []))"

definition parse_vb :: "vb_cfg \<Rightarrow> exc + vb_par" where
  "parse_vb c = (let pair = raw_pair c; algo = execution_algo c in
     if lower_str (or_else (vf_market c) ''spot'') \<noteq> ''spot'' then Inl (ValueError ''VolumeBotController is spot-only (market)'')
     else if or_else (vf_leverage c) 1 \<noteq> 1 then Inl (ValueError ''VolumeBotController is spot-only (leverage must be 1)'')
     else if pair = [] then Inl (ValueError ''VolumeBotController requires a non-empty trading_pair'')
     else if has_prefix (rev ''PERP'') (rev pair) then Inl (ValueError (pair @ '' is a perp; VolumeBotController is spot-only''))
     else if takeWhile (\<lambda>ch. ch \<noteq> CHR ''-'') pair \<in> set QUOTE_LIKE_BASES
     then Inl (ValueError (pair @ '' is a quote-like asset and not a valid Volume spot base''))
     else Inr \<lparr>vp_pair = pair, vp_amount = or_else (vf_amount c) 100, vp_target = or_else (vf_target c) 0,
       vp_max_cycles = (let n = or_else (vf_max_cycles c) 100 in max 1 (if n = 0 then 100 else n)),
       vp_offset = non_negative_decimal (or_else (vf_offset c) (Some 0)),
       vp_loss_bp = non_negative_decimal (or_else (vf_loss_bp c) (Some 20)),
       vp_cross_slip = non_negative_decimal (or_else (vf_cross_slip c) (Some 15)), vp_maker_fee = maker_fee_rate c,
       vp_algo = algo, vp_horizon = or_else (vf_horizon c) (if algo = ''twap'' then 120 else 30),
       vp_tolerance = or_else (vf_tolerance c) (1 / 2), vp_max_taker = or_else (vf_max_taker c) (1 / 4),
       vp_deadline_mult = or_else (vf_deadline_mult c) 3, vp_chase = or_else (vf_chase c) (if algo = ''twap'' then 20 else 5),
       vp_taker_fee = taker_fee_rate c, vp_builder = non_negative_decimal (or_else (vf_builder c) (Some DEFAULT_BUILDER_FEE_RATE)),
       vp_limit = non_negative_decimal (or_else (vf_limit c) (Some 0)), vp_timeout = or_else (vf_timeout c) 10,
       vp_taker_slip = non_negative_decimal (or_else (vf_taker_slip c) (Some 15))\<rparr>)"

definition taker_mode :: "vb_par \<Rightarrow> bool" where "taker_mode p \<longleftrightarrow> vp_algo p = ''taker''"
definition taker_all_in_rate :: "vb_par \<Rightarrow> dec" where "taker_all_in_rate p = vp_taker_fee p + vp_builder p"

subsection \<open>State\<close>

datatype vb_phase = Idle | Pending_Fill | Filled_Wait_Close | Pending_Close_Fill | Cycle_Gap | Market_Closed | Hold_For_Profit | Done

record vb_ctl = controller +
  vo_par :: vb_par
  vo_has_inv :: bool
  vo_volume :: dec
  vo_pnl :: dec
  vo_cycles :: int
  vo_completed :: bool
  vo_reason :: string
  vo_phase :: vb_phase
  vo_buy :: "string option"
  vo_sell :: "string option"
  vo_entry_base :: dec
  vo_entry_quote :: dec
  vo_entry_fee :: dec
  vo_entry_price :: dec
  vo_entry_ts :: time
  vo_close_left :: dec
  vo_sold_base :: dec
  vo_sold_quote :: dec
  vo_sold_fee :: dec
  vo_accounted :: "string list"
  vo_leg_started :: time
  vo_leg_quoted :: time
  vo_leg_crossed :: bool
  vo_buy_retries :: nat
  vo_sell_attempts :: nat
  vo_requotes :: nat
  vo_crosses :: nat
  vo_market_closed :: bool
  vo_digest :: string
  vo_kind :: string
  vo_maker_fills :: nat
  vo_taker_fills :: nat
  vo_chases :: nat
  vo_crossed_quote :: dec
  vo_emergency :: string
  vo_marker :: bool
  vo_uid :: nat

definition mk_vb_ctl :: "string \<Rightarrow> int \<Rightarrow> bool \<Rightarrow> vb_cfg \<Rightarrow> exc + vb_ctl" where
  "mk_vb_ctl cid user has_inv c = (case parse_vb c of Inl e \<Rightarrow> Inl e
   | Inr p \<Rightarrow> Inr (controller.extend (mk_controller cid user ''volume_bot'')
     \<lparr>vo_par = p, vo_has_inv = has_inv, vo_volume = non_negative_decimal (or_else (vf_restore_volume c) (Some 0)),
      vo_pnl = or_dec (vf_restore_pnl c) 0, vo_cycles = max 0 (trunc_dec (or_dec (vf_restore_cycles c) 0)), vo_completed = False,
      vo_reason = [], vo_phase = Idle, vo_buy = None, vo_sell = None, vo_entry_base = 0, vo_entry_quote = 0, vo_entry_fee = 0,
      vo_entry_price = 0, vo_entry_ts = 0, vo_close_left = 0, vo_sold_base = 0, vo_sold_quote = 0, vo_sold_fee = 0,
      vo_accounted = [], vo_leg_started = 0, vo_leg_quoted = 0, vo_leg_crossed = False, vo_buy_retries = 0, vo_sell_attempts = 0,
      vo_requotes = 0, vo_crosses = 0, vo_market_closed = False, vo_digest = [], vo_kind = [], vo_maker_fills = 0,
      vo_taker_fills = 0, vo_chases = 0, vo_crossed_quote = 0, vo_emergency = [], vo_marker = False, vo_uid = 0\<rparr>))"

type_synonym ('v, 'k) vb_orch = "('v, 'k, unit vb_ctl_ext) orch"
type_synonym ('v, 'k, 'a) vprog = "('v, 'k, unit vb_ctl_ext, 'a) oprog"

record ('v, 'k) vb_env = "('v, 'k) ctl_env" +
  ve_book :: "string \<Rightarrow> ('v, dec option \<times> dec option) prog"
  ve_tick :: "string \<Rightarrow> 'v \<Rightarrow> exc + dec"
  ve_lot :: "string \<Rightarrow> 'v \<Rightarrow> exc + dec"
  ve_min_notional :: "string \<Rightarrow> 'v \<Rightarrow> exc + dec"

definition session_loss_breached :: "vb_ctl \<Rightarrow> bool" where
  "session_loss_breached g = (let limit = vp_limit (vo_par g) in if limit \<le> 0 then False else vo_pnl g \<le> - limit)"

definition target_reached :: "vb_ctl \<Rightarrow> bool" where
  "target_reached g \<longleftrightarrow> vp_target (vo_par g) > 0 \<and> vo_volume g \<ge> vp_target (vo_par g)"

definition vb_complete :: "string \<Rightarrow> time \<Rightarrow> vb_ctl \<Rightarrow> vb_ctl" where
  "vb_complete reason t g = set_stopped t (g\<lparr>vo_phase := Done, vo_completed := True, vo_reason := reason\<rparr>)"

definition mark_quoted :: "bool \<Rightarrow> time \<Rightarrow> vb_ctl \<Rightarrow> vb_ctl" where
  "mark_quoted new_leg now g = (if new_leg then g\<lparr>vo_leg_started := now, vo_leg_crossed := False, vo_leg_quoted := now\<rparr>
     else g\<lparr>vo_leg_quoted := now\<rparr>)"

definition enter_market_closed :: "vb_ctl \<Rightarrow> vb_ctl" where
  "enter_market_closed g = g\<lparr>vo_market_closed := True, vo_phase := (if vo_phase g = Done then Done else Market_Closed)\<rparr>"

definition exit_market_closed :: "vb_ctl \<Rightarrow> vb_ctl" where
  "exit_market_closed g = g\<lparr>vo_market_closed := False\<rparr>"

subsection \<open>Pricing\<close>

definition live_touch :: "(dec option \<times> dec option) option \<Rightarrow> (dec \<times> dec) option" where
  "live_touch b = (case b of Some (Some bid, Some ask) \<Rightarrow> if bid \<le> 0 \<or> ask \<le> 0 then None else Some (bid, ask) | _ \<Rightarrow> None)"

definition vb_tick :: "('v, 'k) vb_env \<Rightarrow> vb_ctl \<Rightarrow> 'v \<Rightarrow> dec" where
  "vb_tick ve g v = max 0 (or_zero (ve_tick ve (vp_pair (vo_par g)) v))"

definition snap :: "dec \<Rightarrow> dec \<Rightarrow> bool \<Rightarrow> dec" where
  "snap price tick up = (if tick \<le> 0 \<or> price \<le> 0 then price
     else of_int (if up then \<lceil>price / tick\<rceil> else \<lfloor>price / tick\<rfloor>) * tick)"

definition buy_price :: "vb_par \<Rightarrow> dec \<Rightarrow> dec \<Rightarrow> dec \<Rightarrow> dec" where
  "buy_price p tick bid ask = (let px = (if tick > 0 \<and> ask - bid \<ge> tick * 2 then bid + tick else bid);
     offset = vp_offset p / 10000 in
   snap (if offset > 0 then px * (1 - offset) else px) tick False)"

definition cycle_breakeven :: "vb_ctl \<Rightarrow> dec" where
  "cycle_breakeven g = (if vo_entry_base g \<le> 0 \<or> vo_entry_quote g \<le> 0 then 0
     else let fee = vp_maker_fee (vo_par g);
              buy_fee = (if vo_entry_fee g \<noteq> 0 then vo_entry_fee g else vo_entry_quote g * fee) in
       (vo_entry_quote g + buy_fee) / (vo_entry_base g * (1 - fee)))"

definition sell_floor :: "vb_ctl \<Rightarrow> dec" where
  "sell_floor g = (if cycle_breakeven g \<le> 0 then 0 else cycle_breakeven g * (1 - vp_loss_bp (vo_par g) / 10000))"

definition sell_price :: "vb_ctl \<Rightarrow> dec \<Rightarrow> dec \<Rightarrow> dec \<Rightarrow> dec" where
  "sell_price g tick bid ask = (let px = (if tick > 0 \<and> ask - bid \<ge> tick * 2 then ask - tick else ask); flr = sell_floor g in
     snap (if flr > 0 \<and> px < flr then flr else px) tick True)"

text \<open>What a leg is sent with; \<open>lp_ref\<close> is the price its risk request is sized at when it has none of its own.\<close>

record leg_plan =
  lp_amount :: dec
  lp_price :: "dec option"
  lp_kind :: string
  lp_strategy :: execution_strategy
  lp_ref :: "dec option"
  lp_crosses :: bool

definition maker_leg :: "dec \<Rightarrow> dec \<Rightarrow> string \<Rightarrow> leg_plan" where
  "maker_leg amount price kind = \<lparr>lp_amount = amount, lp_price = Some price, lp_kind = kind, lp_strategy = S_LIMIT_MAKER, lp_ref = None, lp_crosses = False\<rparr>"

definition crossing_leg :: "dec \<Rightarrow> dec \<Rightarrow> string \<Rightarrow> dec option \<Rightarrow> leg_plan" where
  "crossing_leg amount price kind rp = \<lparr>lp_amount = amount, lp_price = Some price, lp_kind = kind, lp_strategy = S_LIMIT, lp_ref = rp, lp_crosses = True\<rparr>"

definition buy_leg :: "vb_par \<Rightarrow> dec \<Rightarrow> dec \<times> dec \<Rightarrow> leg_plan option" where
  "buy_leg p tick touch = (case touch of (bid, ask) \<Rightarrow>
     if taker_mode p
     then if ask \<le> 0 then None
          else Some (crossing_leg (vp_amount p / ask) (snap (ask * (1 + vp_taker_slip p / 10000)) tick True) ''buy_taker'' (Some ask))
     else let price = buy_price p tick bid ask in if price \<le> 0 then None else Some (maker_leg (vp_amount p / price) price ''buy''))"

definition requoted_buy_leg :: "vb_par \<Rightarrow> dec \<Rightarrow> dec \<times> dec \<Rightarrow> leg_plan option" where
  "requoted_buy_leg p tick touch = (let price = buy_price p tick (fst touch) (snd touch) in
     if price \<le> 0 then None else Some (maker_leg (vp_amount p / price) price ''buy''))"

definition sell_leg :: "vb_ctl \<Rightarrow> dec \<Rightarrow> dec \<Rightarrow> dec \<times> dec \<Rightarrow> leg_plan option" where
  "sell_leg g tick amount touch = (case touch of (bid, ask) \<Rightarrow>
     if taker_mode (vo_par g)
     then let cap = snap (bid * (1 - vp_taker_slip (vo_par g) / 10000)) tick False in
       if cap \<le> 0 then None else Some (crossing_leg amount cap ''sell_taker'' (Some bid))
     else let price = sell_price g tick bid ask in if price \<le> 0 then None else Some (maker_leg amount price ''sell''))"

text \<open>The sell that crosses the touch at \<open>bid\<close>; none when that would breach the floor, and then the rest stays at it.\<close>

definition cross_sell_leg :: "vb_ctl \<Rightarrow> dec \<Rightarrow> dec \<Rightarrow> dec \<Rightarrow> leg_plan option" where
  "cross_sell_leg g tick remaining bid = (let px = bid * (1 - vp_cross_slip (vo_par g) / 10000); flr = sell_floor g in
     if flr > 0 \<and> px < flr then None
     else Some (crossing_leg remaining (snap px tick False) ''sell_cross'' None))"

subsection \<open>Fill accounting\<close>

text \<open>A filled part of an order, as far as it is read.\<close>

definition order_of :: "engine_executor odict \<Rightarrow> string \<Rightarrow> nado_order option" where
  "order_of d i = (case map_of d i of None \<Rightarrow> None | Some x \<Rightarrow> ee_order x)"

definition sync_buy_progress :: "time \<Rightarrow> nado_order option \<Rightarrow> vb_ctl \<Rightarrow> vb_ctl" where
  "sync_buy_progress now o' g = (case o' of None \<Rightarrow> g | Some ord \<Rightarrow> if o_filled_base ord \<le> 0 then g
     else g\<lparr>vo_entry_base := o_filled_base ord, vo_entry_quote := o_filled_quote ord, vo_entry_fee := o_fee ord,
       vo_entry_price := o_filled_quote ord / o_filled_base ord, vo_entry_ts := (if vo_entry_ts g \<le> 0 then now else vo_entry_ts g)\<rparr>)"

definition merge_buy_fill :: "time \<Rightarrow> nado_order option \<Rightarrow> vb_ctl \<Rightarrow> vb_ctl" where
  "merge_buy_fill now o' g = (case o' of None \<Rightarrow> g | Some ord \<Rightarrow> if o_filled_base ord \<le> 0 then g
     else let b = vo_entry_base g + o_filled_base ord; q = vo_entry_quote g + o_filled_quote ord in
       g\<lparr>vo_entry_base := b, vo_entry_quote := q, vo_entry_fee := vo_entry_fee g + o_fee ord,
         vo_entry_price := (if b > 0 then q / b else 0), vo_entry_ts := (if vo_entry_ts g \<le> 0 then now else vo_entry_ts g)\<rparr>)"

definition book_sell_fill :: "string \<Rightarrow> nado_order option \<Rightarrow> vb_ctl \<Rightarrow> vb_ctl" where
  "book_sell_fill i o' g = (let g = (case o' of None \<Rightarrow> g | Some ord \<Rightarrow> if i = [] \<or> i \<in> set (vo_accounted g) then g
       else g\<lparr>vo_accounted := i # vo_accounted g, vo_sold_base := vo_sold_base g + o_filled_base ord,
         vo_sold_quote := vo_sold_quote g + o_filled_quote ord, vo_sold_fee := vo_sold_fee g + o_fee ord\<rparr>) in
     g\<lparr>vo_close_left := max 0 (vo_entry_base g - vo_sold_base g)\<rparr>)"

definition attribute_fill :: "vb_ctl \<Rightarrow> vb_ctl" where
  "attribute_fill g = (if taker_mode (vo_par g) \<or> vo_leg_crossed g then g\<lparr>vo_taker_fills := Suc (vo_taker_fills g)\<rparr>
     else g\<lparr>vo_maker_fills := Suc (vo_maker_fills g)\<rparr>)"

definition cycle_pnl :: "vb_ctl \<Rightarrow> dec" where
  "cycle_pnl g = vo_sold_quote g - vo_entry_quote g - vo_entry_fee g - vo_sold_fee g"

definition finish_cycle :: "vb_ctl \<Rightarrow> vb_ctl" where
  "finish_cycle g = g\<lparr>vo_volume := vo_volume g + vo_sold_quote g, vo_pnl := vo_pnl g + cycle_pnl g,
     vo_cycles := vo_cycles g + 1, vo_close_left := 0, vo_buy_retries := 0, vo_sell_attempts := 0, vo_requotes := 0\<rparr>"

text \<open>Booking a finished cycle, with the stop it may bring; still in \<open>Cycle_Gap\<close> when the next one is to begin.\<close>

definition close_cycle :: "time \<Rightarrow> vb_ctl \<Rightarrow> vb_ctl" where
  "close_cycle t g0 = (let g = (finish_cycle g0)\<lparr>vo_sell := None, vo_phase := Cycle_Gap\<rparr> in
     if vo_emergency g \<noteq> [] then vb_complete (vo_emergency g) t g
     else if session_loss_breached g then vb_complete ''session_loss_limit'' t g
     else if vp_target (vo_par g) \<le> 0 then vb_complete ''round_trip_complete'' t g
     else if target_reached g then vb_complete ''target_volume_hit'' t g
     else if vo_cycles g \<ge> vp_max_cycles (vo_par g) then vb_complete ''max_cycles'' t g
     else g)"

definition unsold_stop :: "time \<Rightarrow> vb_ctl \<Rightarrow> vb_ctl" where
  "unsold_stop t g = vb_complete ''unsold_inventory'' t ((finish_cycle g)\<lparr>vo_close_left := vo_entry_base g - vo_sold_base g\<rparr>)"

definition open_base :: "vb_ctl \<Rightarrow> dec" where "open_base g = vo_entry_base g - vo_sold_base g"

definition open_buy :: "string \<Rightarrow> time \<Rightarrow> vb_ctl \<Rightarrow> vb_ctl" where
  "open_buy i now g = (mark_quoted True now (g\<lparr>vo_buy := Some i, vo_sell := None, vo_phase := Pending_Fill\<rparr>))
     \<lparr>vo_entry_base := 0, vo_entry_quote := 0, vo_entry_fee := 0, vo_entry_price := 0, vo_entry_ts := 0, vo_close_left := 0,
      vo_sold_base := 0, vo_sold_quote := 0, vo_sold_fee := 0, vo_accounted := []\<rparr>"

definition open_sell :: "string \<Rightarrow> dec \<Rightarrow> time \<Rightarrow> vb_ctl \<Rightarrow> vb_ctl" where
  "open_sell i amount now g = mark_quoted (vo_phase g \<noteq> Pending_Close_Fill) now
     (g\<lparr>vo_sell := Some i, vo_close_left := amount, vo_phase := Pending_Close_Fill\<rparr>)"

definition sell_remainder_placeable :: "('v, 'k) vb_env \<Rightarrow> 'v \<Rightarrow> vb_ctl \<Rightarrow> dec \<Rightarrow> bool" where
  "sell_remainder_placeable ve v g remaining = (let pair = vp_pair (vo_par g) in case (ve_lot ve pair v, ve_min_notional ve pair v) of
     (Inr lot, Inr min_notional) \<Rightarrow> if lot > 0 \<and> remaining < lot then False
       else \<not> (min_notional > 0 \<and> vo_entry_price g > 0 \<and> remaining * vo_entry_price g < min_notional)
   | _ \<Rightarrow> True)"

subsection \<open>Patience\<close>

definition since :: "time \<Rightarrow> time \<Rightarrow> time" where
  "since now t = (if t \<noteq> 0 then now - t else 0)"

definition leg_patience_exhausted :: "vb_ctl \<Rightarrow> dec \<Rightarrow> bool" where
  "leg_patience_exhausted g elapsed = (if vo_requotes g \<ge> MAX_REQUOTES_PER_CYCLE then True
     else let deadline = vp_horizon (vo_par g) * vp_deadline_mult (vo_par g) in deadline > 0 \<and> elapsed \<ge> deadline)"

definition leg_should_cross :: "vb_ctl \<Rightarrow> time \<Rightarrow> dec \<Rightarrow> dec \<Rightarrow> bool" where
  "leg_should_cross g now total_quote filled_quote = (let p = vo_par g in if taker_mode p \<or> total_quote \<le> 0 then False
     else let elapsed = since now (vo_leg_started g) in
       if leg_patience_exhausted g elapsed then True
       else should_cross (Some total_quote) (Some filled_quote) (Some elapsed) (Some (vp_horizon p)) (Some (vp_tolerance p))
              (Some (vo_crossed_quote g)) (Some (vp_max_taker p)))"

definition sell_leg_notional :: "vb_ctl \<Rightarrow> dec" where
  "sell_leg_notional g = (if vo_entry_base g > 0 \<and> vo_entry_price g > 0 then vo_entry_base g * vo_entry_price g else vp_amount (vo_par g))"

text \<open>Whether a resting leg is requoted: by the stall timeout of taker mode, or by the chase of maker mode.\<close>

definition stalled :: "vb_ctl \<Rightarrow> time \<Rightarrow> bool" where
  "stalled g now \<longleftrightarrow> taker_mode (vo_par g) \<and> vp_timeout (vo_par g) > 0 \<and> since now (vo_leg_quoted g) \<ge> vp_timeout (vo_par g)
     \<and> vo_requotes g < MAX_REQUOTES_PER_CYCLE"

definition chases :: "vb_ctl \<Rightarrow> time \<Rightarrow> bool \<Rightarrow> bool" where
  "chases g now was_cross \<longleftrightarrow> \<not> taker_mode (vo_par g) \<and> vp_chase (vo_par g) > 0 \<and> \<not> was_cross
     \<and> since now (vo_leg_quoted g) \<ge> vp_chase (vo_par g) \<and> vo_requotes g < MAX_REQUOTES_PER_CYCLE"

definition count_cross :: "trade_type \<Rightarrow> vb_ctl \<Rightarrow> vb_ctl" where
  "count_cross side g = g\<lparr>vo_crosses := Suc (vo_crosses g), vo_leg_crossed := True, vo_crossed_quote := vo_crossed_quote g +
     (let px = (if vo_entry_price g > 0 then vo_entry_price g else 0) in
      if side = SELL \<and> open_base g > 0 \<and> px > 0 then open_base g * px else max 0 (vp_amount (vo_par g) - vo_entry_quote g))\<rparr>"

subsection \<open>The coroutines\<close>

definition at_now :: "('v, 'k) vb_env \<Rightarrow> string \<Rightarrow> (time \<Rightarrow> vb_ctl \<Rightarrow> vb_ctl) \<Rightarrow> ('v, 'k, unit) vprog" where
  "at_now ve cid f = bindP (getsP (o_now (ge_deps ve))) (\<lambda>t. upd_ctl cid (f t))"

definition complete :: "('v, 'k) vb_env \<Rightarrow> string \<Rightarrow> string \<Rightarrow> ('v, 'k, unit) vprog" where
  "complete ve cid reason = at_now ve cid (vb_complete reason)"

definition vb_touch :: "('v, 'k) vb_env \<Rightarrow> string \<Rightarrow> ('v, 'k, (dec \<times> dec) option) vprog" where
  "vb_touch ve cid = ask_ctl cid None (\<lambda>g. bindP (attempt (ve_book ve (vp_pair (vo_par g)))) (\<lambda>b. ret (live_touch b)))"

definition leg_config :: "vb_ctl \<Rightarrow> trade_type \<Rightarrow> position_action \<Rightarrow> leg_plan \<Rightarrow> oe_config" where
  "leg_config g side action l = \<lparr>oc_pair = vp_pair (vo_par g), oc_side = side, oc_amount = lp_amount l, oc_strategy = lp_strategy l,
     oc_price = (if lp_strategy l = S_MARKET then None else lp_price l), oc_chaser = None, oc_leverage = 1, oc_action = action,
     oc_crosses = lp_crosses l\<rparr>"

definition leg_request :: "position_action \<Rightarrow> leg_plan \<Rightarrow> executor_request" where
  "leg_request action l = \<lparr>rq_order_amount = lp_amount l * (if (case lp_price l of None \<Rightarrow> False | Some p \<Rightarrow> p > 0) then or_dec (lp_price l) 0
       else or_dec (lp_ref l) 0), rq_position_size = 0, rq_reduce_only = (action = CLOSE_POS), rq_position_action = Some action\<rparr>"

text \<open>\<open>_spawn_order\<close>: the executor of a leg, and its identifier when the orchestrator accepted it.\<close>

definition note_order :: "string \<Rightarrow> leg_plan \<Rightarrow> nado_order option \<Rightarrow> ('v, 'k, unit) vprog" where
  "note_order cid l o' = (case o' of None \<Rightarrow> ret ()
     | Some ord \<Rightarrow> upd_ctl cid (\<lambda>g. g\<lparr>vo_digest := o_id ord, vo_kind := lp_kind l\<rparr>))"

definition leg_executor :: "('v, 'k) vb_env \<Rightarrow> string \<Rightarrow> oe_config \<Rightarrow> vb_ctl \<Rightarrow> ('v, 'k, order_exec) vprog" where
  "leg_executor ve cid c g = bindP (raise_or (check_oe_config c)) (\<lambda>c. thenP (upd_ctl cid (\<lambda>g. g\<lparr>vo_uid := Suc (vo_uid g)\<rparr>))
     (bindP (getsP (o_now (ge_deps ve))) (\<lambda>t. ret (mk_order_exec (ge_uuid ve (vo_uid g)) (ct_user g) cid True (vo_has_inv g) c t))))"

definition spawn_order :: "('v, 'k) vb_env \<Rightarrow> string \<Rightarrow> trade_type \<Rightarrow> position_action \<Rightarrow> leg_plan \<Rightarrow> ('v, 'k, string option) vprog" where
  "spawn_order ve cid side action l = ask_ctl cid None (\<lambda>g.
     bindP (leg_executor ve cid (leg_config g side action l) g) (\<lambda>x.
     bindP (raise_or (mk_executor_request (leg_request action l))) (\<lambda>rq.
     bindP (orch_spawn (ge_deps ve) (EX_Order x) (Some rq)) (\<lambda>ok. if \<not> ok then ret None
       else bindP (getsP (\<lambda>s. order_of (or_executors s) (ex_id x))) (\<lambda>o'. thenP (note_order cid l o') (ret (Some (ex_id x))))))))"

definition start_buy_cycle :: "('v, 'k) vb_env \<Rightarrow> string \<Rightarrow> ('v, 'k, unit) vprog" where
  "start_buy_cycle ve cid = bindP (vb_touch ve cid) (\<lambda>t. case t of None \<Rightarrow> upd_ctl cid enter_market_closed
     | Some touch \<Rightarrow> thenP (upd_ctl cid exit_market_closed) (with_ctl cid (\<lambda>g. bindP ctl_venue (\<lambda>v.
         case buy_leg (vo_par g) (vb_tick ve g v) touch of None \<Rightarrow> complete ve cid ''invalid_buy_price''
         | Some l \<Rightarrow> bindP (spawn_order ve cid BUY OPEN_POS l) (\<lambda>r. case r of
             None \<Rightarrow> complete ve cid ''buy_spawn_failed'' | Some i \<Rightarrow> at_now ve cid (open_buy i))))))"

definition spawn_sell :: "('v, 'k) vb_env \<Rightarrow> string \<Rightarrow> dec \<Rightarrow> leg_plan option \<Rightarrow> ('v, 'k, unit) vprog" where
  "spawn_sell ve cid amount l = (case l of None \<Rightarrow> complete ve cid ''invalid_sell_price''
     | Some l \<Rightarrow> bindP (spawn_order ve cid SELL CLOSE_POS l) (\<lambda>r. case r of
         None \<Rightarrow> complete ve cid ''sell_spawn_failed'' | Some i \<Rightarrow> at_now ve cid (open_sell i amount)))"

definition await_reopening :: "string \<Rightarrow> dec \<Rightarrow> ('v, 'k, unit) vprog" where
  "await_reopening cid amount = upd_ctl cid (\<lambda>g. (enter_market_closed g)\<lparr>vo_close_left := amount\<rparr>)"

definition start_sell_cycle :: "('v, 'k) vb_env \<Rightarrow> string \<Rightarrow> dec \<Rightarrow> ('v, 'k, unit) vprog" where
  "start_sell_cycle ve cid amount = (if amount \<le> 0 then complete ve cid ''sell_nothing_to_close''
     else bindP (vb_touch ve cid) (\<lambda>t. case t of None \<Rightarrow> await_reopening cid amount
     | Some touch \<Rightarrow> thenP (upd_ctl cid exit_market_closed) (with_ctl cid (\<lambda>g. bindP ctl_venue (\<lambda>v.
         if taker_mode (vo_par g) \<and> fst touch \<le> 0 then await_reopening cid amount
         else spawn_sell ve cid amount (sell_leg g (vb_tick ve g v) amount touch))))))"

definition sell_what_is_held :: "('v, 'k) vb_env \<Rightarrow> string \<Rightarrow> ('v, 'k, unit) vprog" where
  "sell_what_is_held ve cid = with_ctl cid (\<lambda>g. start_sell_cycle ve cid (open_base g))"

text \<open>A buy that has filled, whole or in part: its cost counts as volume, and it is sold.\<close>

definition turn_to_sell :: "('v, 'k) vb_env \<Rightarrow> string \<Rightarrow> ('v, 'k, unit) vprog" where
  "turn_to_sell ve cid = thenP (upd_ctl cid (\<lambda>g. g\<lparr>vo_volume := vo_volume g + vo_entry_quote g, vo_phase := Filled_Wait_Close\<rparr>))
     (sell_what_is_held ve cid)"

definition read_order :: "('v, 'k) vb_env \<Rightarrow> string \<Rightarrow> string \<Rightarrow> (time \<Rightarrow> nado_order option \<Rightarrow> vb_ctl \<Rightarrow> vb_ctl) \<Rightarrow> ('v, 'k, unit) vprog" where
  "read_order ve cid i f = bindP (getsP (\<lambda>s. order_of (or_executors s) i)) (\<lambda>o'. at_now ve cid (\<lambda>t. f t o'))"

definition halt :: "('v, 'k) vb_env \<Rightarrow> string \<Rightarrow> ('v, 'k, unit) vprog" where
  "halt ve i = thenP (orch_stop (ge_deps ve) i EARLY_STOP) (ret ())"

definition respawn_buy :: "('v, 'k) vb_env \<Rightarrow> string \<Rightarrow> leg_plan \<Rightarrow> ('v, 'k, unit) vprog" where
  "respawn_buy ve cid l = bindP (spawn_order ve cid BUY OPEN_POS l) (\<lambda>r. case r of
     None \<Rightarrow> complete ve cid ''buy_spawn_failed''
   | Some i \<Rightarrow> at_now ve cid (\<lambda>t g. mark_quoted False t (g\<lparr>vo_buy := Some i\<rparr>)))"

definition requote_buy :: "('v, 'k) vb_env \<Rightarrow> string \<Rightarrow> string \<Rightarrow> ('v, 'k, unit) vprog" where
  "requote_buy ve cid i = seqP [upd_ctl cid (\<lambda>g. g\<lparr>vo_requotes := Suc (vo_requotes g)\<rparr>), halt ve i,
     read_order ve cid i sync_buy_progress,
     with_ctl cid (\<lambda>g. if vo_entry_base g > 0 then turn_to_sell ve cid
       else if taker_mode (vo_par g) then start_buy_cycle ve cid
       else bindP (vb_touch ve cid) (\<lambda>t. case t of None \<Rightarrow> upd_ctl cid enter_market_closed
         | Some touch \<Rightarrow> bindP ctl_venue (\<lambda>v. case requoted_buy_leg (vo_par g) (vb_tick ve g v) touch of
             None \<Rightarrow> complete ve cid ''invalid_buy_price'' | Some l \<Rightarrow> respawn_buy ve cid l)))]"

definition sell_remainder :: "('v, 'k) vb_env \<Rightarrow> string \<Rightarrow> (dec \<Rightarrow> ('v, 'k, unit) vprog) \<Rightarrow> ('v, 'k, unit) vprog" where
  "sell_remainder ve cid f = with_ctl cid (\<lambda>g. if open_base g \<le> 0 then upd_ctl cid (\<lambda>g. g\<lparr>vo_marker := True\<rparr>) else f (open_base g))"

definition requote_sell :: "('v, 'k) vb_env \<Rightarrow> string \<Rightarrow> string \<Rightarrow> ('v, 'k, unit) vprog" where
  "requote_sell ve cid i = seqP [upd_ctl cid (\<lambda>g. g\<lparr>vo_requotes := Suc (vo_requotes g)\<rparr>), halt ve i,
     read_order ve cid i (\<lambda>t. book_sell_fill i), sell_remainder ve cid (start_sell_cycle ve cid)]"

definition cross_buy :: "('v, 'k) vb_env \<Rightarrow> string \<Rightarrow> string \<Rightarrow> dec \<Rightarrow> ('v, 'k, unit) vprog" where
  "cross_buy ve cid i ask = thenP (read_order ve cid i sync_buy_progress) (with_ctl cid (\<lambda>g. bindP ctl_venue (\<lambda>v.
     let remaining = vp_amount (vo_par g) - vo_entry_quote g; px = snap (ask * (1 + vp_cross_slip (vo_par g) / 10000)) (vb_tick ve g v) True in
     if remaining \<le> 0 then ret ()
     else respawn_buy ve cid (crossing_leg (remaining / px) px ''buy_cross'' None))))"

definition cross_sell :: "('v, 'k) vb_env \<Rightarrow> string \<Rightarrow> string \<Rightarrow> dec \<Rightarrow> ('v, 'k, unit) vprog" where
  "cross_sell ve cid i bid = thenP (read_order ve cid i (\<lambda>t. book_sell_fill i)) (sell_remainder ve cid (\<lambda>remaining.
     with_ctl cid (\<lambda>g. bindP ctl_venue (\<lambda>v. case cross_sell_leg g (vb_tick ve g v) remaining bid of
         None \<Rightarrow> start_sell_cycle ve cid remaining
       | Some l \<Rightarrow> bindP (spawn_order ve cid SELL CLOSE_POS l) (\<lambda>r. case r of
           None \<Rightarrow> complete ve cid ''sell_spawn_failed''
         | Some j \<Rightarrow> at_now ve cid (\<lambda>t g. g\<lparr>vo_sell := Some j, vo_close_left := remaining, vo_leg_quoted := t\<rparr>))))))"

definition cross_leg :: "('v, 'k) vb_env \<Rightarrow> string \<Rightarrow> string \<Rightarrow> trade_type \<Rightarrow> ('v, 'k, unit) vprog" where
  "cross_leg ve cid i side = bindP (vb_touch ve cid) (\<lambda>t. case t of None \<Rightarrow> upd_ctl cid enter_market_closed
     | Some (bid, ask) \<Rightarrow> seqP [upd_ctl cid (count_cross side), halt ve i,
         if side = BUY then cross_buy ve cid i ask else cross_sell ve cid i bid])"

definition after_cycle :: "('v, 'k) vb_env \<Rightarrow> string \<Rightarrow> ('v, 'k, unit) vprog" where
  "after_cycle ve cid = thenP (at_now ve cid close_cycle) (with_ctl cid (\<lambda>g. whenP (vo_phase g = Cycle_Gap) (start_buy_cycle ve cid)))"

subsection \<open>The tick\<close>

definition vb_children :: "('v, 'k) vb_env \<Rightarrow> string \<Rightarrow> ('v, 'k, unit) vprog" where
  "vb_children ve cid = bindP (my_executors cid) (\<lambda>xs. forP (ids_of xs) (orch_tick (ge_deps ve)))"

definition buy_resting :: "('v, 'k) vb_env \<Rightarrow> string \<Rightarrow> string \<Rightarrow> ('v, 'k, unit) vprog" where
  "buy_resting ve cid i = with_ctl cid (\<lambda>g0. let was_cross = (vo_kind g0 = ''buy_cross'') in
     thenP (if was_cross then ret () else read_order ve cid i sync_buy_progress)
       (with_ctl cid (\<lambda>g. bindP (getsP (o_now (ge_deps ve))) (\<lambda>now.
          if \<not> vo_leg_crossed g \<and> leg_should_cross g now (vp_amount (vo_par g)) (vo_entry_quote g) then cross_leg ve cid i BUY
          else if stalled g now then requote_buy ve cid i
          else if chases g now was_cross
          then thenP (upd_ctl cid (\<lambda>g. g\<lparr>vo_chases := Suc (vo_chases g)\<rparr>)) (requote_buy ve cid i)
          else ret ()))))"

definition retry_buy :: "('v, 'k) vb_env \<Rightarrow> string \<Rightarrow> string \<Rightarrow> ('v, 'k, unit) vprog" where
  "retry_buy ve cid reason = with_ctl cid (\<lambda>g. if vo_buy_retries g < MAX_BUY_RETRIES
     then thenP (upd_ctl cid (\<lambda>g. g\<lparr>vo_buy_retries := Suc (vo_buy_retries g)\<rparr>)) (start_buy_cycle ve cid)
     else complete ve cid reason)"

definition buy_ended :: "('v, 'k) vb_env \<Rightarrow> string \<Rightarrow> string \<Rightarrow> ('v, 'k, unit) vprog" where
  "buy_ended ve cid i = with_ctl cid (\<lambda>g0. thenP (read_order ve cid i (if vo_kind g0 = ''buy_cross'' then merge_buy_fill else sync_buy_progress))
     (with_ctl cid (\<lambda>g. if vo_entry_base g > 0 then thenP (upd_ctl cid attribute_fill) (turn_to_sell ve cid)
        else retry_buy ve cid ''no_fill'')))"

definition sell_resting :: "('v, 'k) vb_env \<Rightarrow> string \<Rightarrow> string \<Rightarrow> ('v, 'k, unit) vprog" where
  "sell_resting ve cid i = thenP (bindP (getsP (\<lambda>s. order_of (or_executors s) i)) (\<lambda>o'. upd_ctl cid (\<lambda>g. case o' of None \<Rightarrow> g
       | Some ord \<Rightarrow> g\<lparr>vo_close_left := max 0 (open_base g - o_filled_base ord)\<rparr>)))
     (with_ctl cid (\<lambda>g. bindP (getsP (o_now (ge_deps ve))) (\<lambda>now.
        if \<not> vo_leg_crossed g \<and> leg_should_cross g now (sell_leg_notional g) (vo_sold_quote g) then cross_leg ve cid i SELL
        else if stalled g now then requote_sell ve cid i
        else if chases g now (vo_kind g = ''sell_cross'')
        then thenP (upd_ctl cid (\<lambda>g. g\<lparr>vo_chases := Suc (vo_chases g)\<rparr>)) (requote_sell ve cid i)
        else ret ())))"

definition sell_ended :: "('v, 'k) vb_env \<Rightarrow> string \<Rightarrow> string \<Rightarrow> ('v, 'k, unit) vprog" where
  "sell_ended ve cid i = seqP [read_order ve cid i (\<lambda>t. book_sell_fill i), upd_ctl cid attribute_fill,
     with_ctl cid (\<lambda>g. bindP ctl_venue (\<lambda>v. let remaining = open_base g; placeable = sell_remainder_placeable ve v g remaining in
       if remaining > 0 \<and> vo_sell_attempts g < MAX_SELL_ATTEMPTS \<and> placeable
       then thenP (upd_ctl cid (\<lambda>g. g\<lparr>vo_sell_attempts := Suc (vo_sell_attempts g)\<rparr>)) (start_sell_cycle ve cid remaining)
       else if remaining > 0 \<and> placeable then at_now ve cid unsold_stop
       else after_cycle ve cid))]"

text \<open>The executor of the leg: missing, resting or ended.\<close>

definition serve_leg :: "string \<Rightarrow> ('v, 'k, unit) vprog \<Rightarrow> ('v, 'k, unit) vprog \<Rightarrow> ('v, 'k, unit) vprog" where
  "serve_leg i waiting finished = bindP (getsP (\<lambda>s. map_option ee_terminated (map_of (or_executors s) i))) (\<lambda>r. case r of
     None \<Rightarrow> ret () | Some dead \<Rightarrow> if dead then finished else waiting)"

definition serve_phase :: "('v, 'k) vb_env \<Rightarrow> string \<Rightarrow> vb_ctl \<Rightarrow> ('v, 'k, unit) vprog" where
  "serve_phase ve cid g = (case vo_phase g of
     Market_Closed \<Rightarrow> if open_base g > 0 then start_sell_cycle ve cid (open_base g) else start_buy_cycle ve cid
   | Hold_For_Profit \<Rightarrow> if open_base g \<le> 0 then after_cycle ve cid else start_sell_cycle ve cid (open_base g)
   | Pending_Fill \<Rightarrow> (case vo_buy g of None \<Rightarrow> ret () | Some i \<Rightarrow> serve_leg i (buy_resting ve cid i) (buy_ended ve cid i))
   | Filled_Wait_Close \<Rightarrow> if vo_sell_attempts g < MAX_SELL_ATTEMPTS
       then thenP (upd_ctl cid (\<lambda>g. g\<lparr>vo_sell_attempts := Suc (vo_sell_attempts g)\<rparr>)) (sell_what_is_held ve cid)
       else complete ve cid ''sell_spawn_failed''
   | Cycle_Gap \<Rightarrow> retry_buy ve cid ''buy_respawn_failed''
   | Pending_Close_Fill \<Rightarrow> (case vo_sell g of None \<Rightarrow> ret () | Some i \<Rightarrow> serve_leg i (sell_resting ve cid i) (sell_ended ve cid i))
   | _ \<Rightarrow> ret ())"

definition vb_on_tick :: "('v, 'k) vb_env \<Rightarrow> string \<Rightarrow> ('v, 'k, unit) vprog" where
  "vb_on_tick ve cid = thenP (vb_children ve cid) (with_ctl cid (\<lambda>g. if vo_marker g
     then thenP (upd_ctl cid (\<lambda>g. g\<lparr>vo_marker := False\<rparr>)) (after_cycle ve cid) else serve_phase ve cid g))"

definition vb_hooks :: "('v, 'k) vb_env \<Rightarrow> ('v, 'k, unit vb_ctl_ext) ctl_hooks" where
  "vb_hooks ve = \<lparr>ch_on_start = start_buy_cycle ve, ch_on_tick = vb_on_tick ve, ch_on_stop = (\<lambda>cid reason. ret ())\<rparr>"

subsection \<open>Metrics\<close>

text \<open>
  Every entry of the dictionary; \<open>session_volume_usd\<close> repeats \<open>volume_done_usd\<close> and \<open>vol_buy_reprices\<close> repeats
  \<open>vol_requotes\<close>. The conversions to float are exact here.
\<close>

record vb_metrics =
  vm_phase :: vb_phase
  vm_done_usd :: dec
  vm_remaining_usd :: dec
  vm_pnl :: dec
  vm_cycles :: int
  vm_entry_size :: dec
  vm_entry_quote :: dec
  vm_entry_price :: dec
  vm_entry_ts :: time
  vm_close_size :: dec
  vm_open_base :: dec
  vm_algo :: string
  vm_maker_fills :: nat
  vm_taker_fills :: nat
  vm_chases :: nat
  vm_crossed_quote :: dec
  vm_maker_ratio :: dec
  vm_round_trip_fee_bp :: dec
  vm_loss_limit :: dec
  vm_requotes :: nat
  vm_crosses :: nat
  vm_market_closed :: bool
  vm_digest :: string
  vm_kind :: string

definition volume_metrics :: "vb_ctl \<Rightarrow> vb_metrics" where
  "volume_metrics g = (let n = vo_maker_fills g + vo_taker_fills g in
     \<lparr>vm_phase = vo_phase g, vm_done_usd = vo_volume g, vm_remaining_usd = max 0 (vp_target (vo_par g) - vo_volume g),
      vm_pnl = vo_pnl g, vm_cycles = vo_cycles g, vm_entry_size = vo_entry_base g, vm_entry_quote = vo_entry_quote g,
      vm_entry_price = vo_entry_price g, vm_entry_ts = vo_entry_ts g, vm_close_size = vo_close_left g,
      vm_open_base = max 0 (open_base g), vm_algo = vp_algo (vo_par g), vm_maker_fills = vo_maker_fills g,
      vm_taker_fills = vo_taker_fills g, vm_chases = vo_chases g, vm_crossed_quote = vo_crossed_quote g,
      vm_maker_ratio = (if n > 0 then of_nat (vo_maker_fills g) / of_nat n else 0),
      vm_round_trip_fee_bp = taker_all_in_rate (vo_par g) * 20000, vm_loss_limit = vp_limit (vo_par g),
      vm_requotes = vo_requotes g, vm_crosses = vo_crosses g, vm_market_closed = vo_market_closed g,
      vm_digest = vo_digest g, vm_kind = vo_kind g\<rparr>)"

end
