(* ===== verification/Volume_Laws.thy ===== *)
theory Volume_Laws
  imports Volume_Bot
begin

text \<open>
  The volume bot's limits: in every reachable state it is completed or inside its loss limit and cycle cap,
  and once completed it is stopped for good; and what a cycle can lose.
\<close>

subsection \<open>Programs that end a stage\<close>

text \<open>\<open>p\<close> keeps the stage \<open>I\<close> until its last update, which may leave it for the weaker \<open>J\<close>.\<close>

definition leads :: "('s \<Rightarrow> bool) \<Rightarrow> ('s \<Rightarrow> bool) \<Rightarrow> ('s, 'a) prog \<Rightarrow> bool" where
  "leads I J p \<longleftrightarrow> (\<forall>s. I s \<longrightarrow> wp p (\<lambda>_. J) (\<lambda>_. J) s)"

lemma leadsI: "(\<And>s. I s \<Longrightarrow> wp p (\<lambda>_. J) (\<lambda>_. J) s) \<Longrightarrow> leads I J p"
  by (simp add: leads_def)

lemma leadsD: "leads I J p \<Longrightarrow> I s \<Longrightarrow> wp p (\<lambda>_. J) (\<lambda>_. J) s"
  by (simp add: leads_def)

locale stage =
  fixes I J :: "'s \<Rightarrow> bool"
  assumes weaken: "I s \<Longrightarrow> J s"
begin

lemma stays: "keeps I p \<Longrightarrow> leads I J p"
  by (rule leadsI) (auto intro: keeps_wp weaken)

lemma after: "keeps I p \<Longrightarrow> (\<And>a. leads I J (f a)) \<Longrightarrow> leads I J (bindP p f)"
  by (rule leadsI) (auto intro!: keeps_wp [of I p] leadsD weaken)

lemma branching:
  "leads I J p \<Longrightarrow> leads I J q \<Longrightarrow> leads I J (if b then p else q)"
  "leads I J p \<Longrightarrow> (\<And>x. leads I J (h x)) \<Longrightarrow> leads I J (case v of None \<Rightarrow> p | Some x \<Rightarrow> h x)"
  "leads I J p \<Longrightarrow> leads I J (seqP [p])"
  "keeps I q \<Longrightarrow> leads I J (seqP (p # ps)) \<Longrightarrow> leads I J (seqP (q # p # ps))"
  by (auto intro: after split: option.split)

lemma ending: "leads I J (ret ())"
  by (rule stays) (rule keeps_ret)

end

subsection \<open>The stages of a session\<close>

definition within_limits :: "vb_ctl \<Rightarrow> bool" where
  "within_limits g \<longleftrightarrow> \<not> session_loss_breached g \<and> vo_cycles g < vp_max_cycles (vo_par g)"

definition trading :: "vb_par \<Rightarrow> int \<Rightarrow> vb_ctl \<Rightarrow> bool" where
  "trading par n g \<longleftrightarrow> vo_par g = par \<and> n \<le> vo_cycles g \<and> \<not> vo_completed g \<and> within_limits g \<and> \<not> vo_marker g"

definition bounded :: "vb_par \<Rightarrow> int \<Rightarrow> vb_ctl \<Rightarrow> bool" where
  "bounded par n g \<longleftrightarrow> vo_par g = par \<and> n \<le> vo_cycles g
     \<and> (if vo_completed g then vo_phase g = Done \<and> \<not> vo_marker g \<and> vo_reason g \<noteq> [] else within_limits g)"

abbreviation in_session :: "string \<Rightarrow> vb_par \<Rightarrow> int \<Rightarrow> ('v, 'k) vb_orch \<Rightarrow> bool" where
  "in_session cid par n \<equiv> held cid (\<lambda>g d. trading par n g)"

abbreviation safe :: "string \<Rightarrow> vb_par \<Rightarrow> int \<Rightarrow> ('v, 'k) vb_orch \<Rightarrow> bool" where
  "safe cid par n \<equiv> held cid (\<lambda>g d. bounded par n g)"

lemma trading_bounded: "trading par n g \<Longrightarrow> bounded par n g"
  by (simp add: trading_def bounded_def)

lemma bounded_trading: "bounded par n g \<Longrightarrow> \<not> vo_completed g \<Longrightarrow> \<not> vo_marker g \<Longrightarrow> trading par n g"
  by (simp add: trading_def bounded_def)

interpretation st: stage "in_session cid par n" "safe cid par n" for cid par n
  by unfold_locales (auto simp: held_def trading_bounded)

lemma trading_cong:
  "vo_par g' = vo_par g \<Longrightarrow> vo_cycles g' = vo_cycles g \<Longrightarrow> vo_completed g' = vo_completed g \<Longrightarrow> vo_pnl g' = vo_pnl g
   \<Longrightarrow> vo_marker g' = vo_marker g \<Longrightarrow> trading par n g' = trading par n g"
  by (simp add: trading_def within_limits_def session_loss_breached_def)

text \<open>The updates that keep a session going, and those that may end it.\<close>

lemma trading_updates:
  "trading par n g \<Longrightarrow> trading par n (enter_market_closed g)" "trading par n g \<Longrightarrow> trading par n (exit_market_closed g)"
  "trading par n g \<Longrightarrow> trading par n (mark_quoted b t g)" "trading par n g \<Longrightarrow> trading par n (open_buy i t g)"
  "trading par n g \<Longrightarrow> trading par n (open_sell i a t g)" "trading par n g \<Longrightarrow> trading par n (sync_buy_progress t o' g)"
  "trading par n g \<Longrightarrow> trading par n (merge_buy_fill t o' g)" "trading par n g \<Longrightarrow> trading par n (book_sell_fill i o' g)"
  "trading par n g \<Longrightarrow> trading par n (attribute_fill g)" "trading par n g \<Longrightarrow> trading par n (count_cross side g)"
  by (auto elim!: trading_cong [THEN iffD2, rotated -1] split: option.split
      simp: enter_market_closed_def exit_market_closed_def mark_quoted_def open_buy_def open_sell_def sync_buy_progress_def
        merge_buy_fill_def book_sell_fill_def attribute_fill_def count_cross_def Let_def)

lemma trading_fields:
  "trading par n g \<Longrightarrow> trading par n (g\<lparr>vo_uid := u\<rparr>)" "trading par n g \<Longrightarrow> trading par n (g\<lparr>vo_digest := i, vo_kind := k\<rparr>)"
  "trading par n g \<Longrightarrow> trading par n (g\<lparr>vo_close_left := a\<rparr>)" "trading par n g \<Longrightarrow> trading par n (g\<lparr>vo_volume := a, vo_phase := ph\<rparr>)"
  "trading par n g \<Longrightarrow> trading par n (g\<lparr>vo_requotes := m\<rparr>)" "trading par n g \<Longrightarrow> trading par n (g\<lparr>vo_buy := b\<rparr>)"
  "trading par n g \<Longrightarrow> trading par n (g\<lparr>vo_sell := b, vo_close_left := a, vo_leg_quoted := t\<rparr>)"
  "trading par n g \<Longrightarrow> trading par n (g\<lparr>vo_chases := m\<rparr>)" "trading par n g \<Longrightarrow> trading par n (g\<lparr>vo_buy_retries := m\<rparr>)"
  "trading par n g \<Longrightarrow> trading par n (g\<lparr>vo_sell_attempts := m\<rparr>)"
  by (auto elim!: trading_cong [THEN iffD2, rotated -1])

lemma complete_bounded: "trading par n g \<Longrightarrow> r \<noteq> [] \<Longrightarrow> bounded par n (vb_complete r t g)"
  by (simp add: trading_def bounded_def vb_complete_def set_stopped_def)

lemma cycle_bounded: "trading par n g \<Longrightarrow> bounded par n (close_cycle t g)"
  by (auto simp: trading_def bounded_def close_cycle_def Let_def vb_complete_def set_stopped_def finish_cycle_def within_limits_def
      session_loss_breached_def)

lemma cycle_trading: "trading par n g \<Longrightarrow> vo_phase (close_cycle t g) = Cycle_Gap \<Longrightarrow> trading par n (close_cycle t g)"
  by (auto simp: trading_def close_cycle_def Let_def vb_complete_def set_stopped_def finish_cycle_def within_limits_def
      session_loss_breached_def split: if_splits)

lemma unsold_bounded: "trading par n g \<Longrightarrow> bounded par n (unsold_stop t g)"
  by (simp add: trading_def bounded_def unsold_stop_def vb_complete_def set_stopped_def finish_cycle_def)

subsection \<open>Every coroutine keeps to the session\<close>

lemma trading_entry: "registry_entry False (\<lambda>g d. trading par n g) i"
  by unfold_locales

lemma bounded_entry: "registry_entry False (\<lambda>g d. bounded par n g) i"
  by unfold_locales

lemma bounded_tick: "registry_tick (\<lambda>g d. bounded par n g)"
  by unfold_locales (auto simp: bounded_def within_limits_def session_loss_breached_def Let_def bank_counts_def set_failed_def split: if_splits)

lemma session_upd: "(\<And>g. trading par n g \<Longrightarrow> trading par n (f g)) \<Longrightarrow> keeps (in_session cid par n) (upd_ctl cid f)"
  by (rule keeps_upd_ctl)

lemma session_upd_now: "(\<And>t g. trading par n g \<Longrightarrow> trading par n (f t g)) \<Longrightarrow> keeps (in_session cid par n) (at_now ve cid f)"
  unfolding at_now_def by (intro keeps_intros session_upd)

lemmas session_steps = keeps_intros keeps_reads session_upd session_upd_now trading_updates trading_fields

lemma ending_now: "(\<And>t g. trading par n g \<Longrightarrow> bounded par n (f t g)) \<Longrightarrow> leads (in_session cid par n) (safe cid par n) (at_now ve cid f)"
  unfolding at_now_def by (rule leadsI) (auto simp: held_def simp del: map_of_eq_Some_iff)

lemma completing: "r \<noteq> [] \<Longrightarrow> leads (in_session cid par n) (safe cid par n) (complete ve cid r)"
  unfolding complete_def by (rule ending_now) (rule complete_bounded)

lemma marking: "leads (in_session cid par n) (safe cid par n) (upd_ctl cid (\<lambda>g. g\<lparr>vo_marker := True\<rparr>))"
  by (rule leadsI) (auto simp: held_def trading_def bounded_def within_limits_def session_loss_breached_def Let_def simp del: map_of_eq_Some_iff)

lemma choosing: "(\<And>g. leads I J (f g)) \<Longrightarrow> (\<And>s. I s \<Longrightarrow> J s) \<Longrightarrow> leads I J (with_ctl cid f)"
  by (rule leadsI) (auto split: option.split intro: leadsD simp del: map_of_eq_Some_iff)

lemma session_touch: "keeps (in_session cid par n) (vb_touch ve cid)"
  unfolding vb_touch_def by (intro session_steps)

lemma session_halt: "keeps (in_session cid par n) (halt ve i)"
  unfolding halt_def by (intro keeps_intros registry_view.stopping [OF registry_entry.axioms(1) [OF trading_entry]])

lemma session_read: "(\<And>t o' g. trading par n g \<Longrightarrow> trading par n (f t o' g)) \<Longrightarrow> keeps (in_session cid par n) (read_order ve cid i f)"
  unfolding read_order_def by (intro session_steps)

lemma new_leg_then:
  fixes f :: "order_exec \<Rightarrow> ('v, 'k, 'a) vprog"
  assumes "\<And>x. \<not> is_terminated x \<Longrightarrow> keeps (in_session cid par n) (f x)"
  shows "keeps (in_session cid par n) (bindP (leg_executor ve cid c g) f)"
proof (rule keepsI)
  fix s :: "('v, 'k) vb_orch" assume "in_session cid par n s"
  then show "wp (bindP (leg_executor ve cid c g) f) (\<lambda>_. in_session cid par n) (\<lambda>_. in_session cid par n) s"
    unfolding leg_executor_def raise_or_def
    by (auto split: option.split sum.split intro!: keeps_wp [OF assms] simp: held_def trading_fields mk_order_exec_def mk_exec_base_def
          is_terminated_def exec_base.defs order_exec.defs simp del: map_of_eq_Some_iff)
qed

lemma session_raise: "keeps (in_session cid par n) (raise_or r)"
  unfolding raise_or_def by (cases r) (auto intro: keeps_intros)

lemma session_accept: "\<not> is_terminated x \<Longrightarrow> keeps (in_session cid par n) (orch_spawn dp (EX_Order x) rq)"
  by (rule registry_entry.spawning [OF trading_entry refl])

lemma session_spawn: "keeps (in_session cid par n) (spawn_order ve cid side action l)"
  unfolding spawn_order_def note_order_def
  by (rule keeps_ask, rule new_leg_then, rule keeps_bind [OF session_raise]) (intro session_steps session_accept)

lemma session_venue: "keeps (in_session cid par n) ctl_venue"
  unfolding ctl_venue_def by (rule keeps_gets)

lemmas session_calls = session_steps session_venue session_touch session_halt session_read session_spawn

lemmas stage_steps = st.after st.branching st.ending completing choosing [OF _ st.weaken]
  st.stays [OF session_upd] st.stays [OF session_upd_now]

lemma buying: "leads (in_session cid par n) (safe cid par n) (start_buy_cycle ve cid)"
  unfolding start_buy_cycle_def by (auto intro!: stage_steps session_calls)

lemma selling: "leads (in_session cid par n) (safe cid par n) (start_sell_cycle ve cid a)"
proof -
  have wait: "leads (in_session cid par n) (safe cid par n) (await_reopening cid a)" for a
    unfolding await_reopening_def by (auto intro!: stage_steps session_calls)
  show ?thesis
    unfolding start_sell_cycle_def spawn_sell_def by (auto intro!: stage_steps session_calls wait)
qed

lemma respawning: "leads (in_session cid par n) (safe cid par n) (respawn_buy ve cid l)"
  unfolding respawn_buy_def by (auto intro!: stage_steps session_calls)

lemma turning:
  "leads (in_session cid par n) (safe cid par n) (sell_what_is_held ve cid)"
  "leads (in_session cid par n) (safe cid par n) (turn_to_sell ve cid)"
  unfolding turn_to_sell_def sell_what_is_held_def by (auto intro!: stage_steps session_calls selling)

lemma requoting:
  "leads (in_session cid par n) (safe cid par n) (requote_buy ve cid i)"
  "leads (in_session cid par n) (safe cid par n) (requote_sell ve cid i)"
  unfolding requote_buy_def requote_sell_def sell_remainder_def
  by (auto intro!: marking stage_steps session_calls buying selling turning respawning)

lemma crossing: "leads (in_session cid par n) (safe cid par n) (cross_leg ve cid i side)"
  unfolding cross_leg_def cross_buy_def cross_sell_def sell_remainder_def Let_def
  by (auto intro!: marking stage_steps session_calls selling respawning split: prod.split)

lemma cycling:
  fixes ve :: "('v, 'k) vb_env"
  shows "leads (in_session cid par n) (safe cid par n) (after_cycle ve cid)"
proof (rule leadsI)
  fix s :: "('v, 'k) vb_orch" assume "in_session cid par n s"
  then obtain g where g: "map_of (or_controllers s) cid = Some g" "trading par n g" unfolding held_def by blast
  let ?g = "close_cycle (o_now (ge_deps ve) s) g" and ?s = "s\<lparr>or_controllers := od_set cid (close_cycle (o_now (ge_deps ve) s) g) (or_controllers s)\<rparr>"
  have "in_session cid par n ?s" if "vo_phase ?g = Cycle_Gap"
    using cycle_trading [OF g(2) that] by (simp add: held_def)
  moreover have "safe cid par n ?s" using cycle_bounded [OF g(2)] by (simp add: held_def)
  ultimately show "wp (after_cycle ve cid) (\<lambda>_. safe cid par n) (\<lambda>_. safe cid par n) s"
    using g(1) leadsD [OF buying, of cid par n ?s ve]
    by (simp add: after_cycle_def at_now_def del: map_of_eq_Some_iff)
qed

lemma resting:
  "leads (in_session cid par n) (safe cid par n) (buy_resting ve cid i)"
  "leads (in_session cid par n) (safe cid par n) (sell_resting ve cid i)"
  unfolding buy_resting_def sell_resting_def Let_def
  by (auto intro!: stage_steps session_calls crossing requoting split: option.split)

lemma retrying: "r \<noteq> [] \<Longrightarrow> leads (in_session cid par n) (safe cid par n) (retry_buy ve cid r)"
  unfolding retry_buy_def by (auto intro!: stage_steps session_calls buying)

lemma ended_legs:
  "leads (in_session cid par n) (safe cid par n) (buy_ended ve cid i)"
  "leads (in_session cid par n) (safe cid par n) (sell_ended ve cid i)"
  unfolding buy_ended_def sell_ended_def Let_def
  by (auto intro!: stage_steps session_calls retrying turning selling cycling ending_now unsold_bounded)

lemma serving: "leads (in_session cid par n) (safe cid par n) (serve_phase ve cid g)"
  unfolding serve_phase_def serve_leg_def
  by (cases "vo_phase g") (auto intro!: stage_steps session_calls buying selling turning cycling resting ended_legs retrying split: option.split)

lemma ticking_safe:
  fixes ve :: "('v, 'k) vb_env"
  shows "keeps (safe cid par n) (vb_on_tick ve cid)"
proof -
  have children: "keeps (safe cid par n) (vb_children ve cid)"
    unfolding vb_children_def my_executors_def
    by (intro keeps_intros registry_view.ticking [OF registry_entry.axioms(1) [OF bounded_entry]])
  let ?act = "\<lambda>g. if vo_marker g then thenP (upd_ctl cid (\<lambda>g. g\<lparr>vo_marker := False\<rparr>)) (after_cycle ve cid) else serve_phase ve cid g"
  have "keeps (safe cid par n) (with_ctl cid ?act)"
  proof (rule keepsI)
    fix s :: "('v, 'k) vb_orch" assume "safe cid par n s"
    then obtain g where g: "map_of (or_controllers s) cid = Some g" "bounded par n g" unfolding held_def by blast
    let ?s = "s\<lparr>or_controllers := od_set cid (g\<lparr>vo_marker := False\<rparr>) (or_controllers s)\<rparr>"
    have marked: "in_session cid par n ?s" if "vo_marker g"
      using g(2) that by (auto simp: held_def bounded_def trading_def within_limits_def session_loss_breached_def Let_def split: if_splits)
    have open_leg: "in_session cid par n s" if "\<not> vo_completed g" "\<not> vo_marker g"
      using bounded_trading [OF g(2) that] g(1) by (auto simp: held_def)
    have over: "serve_phase ve cid g = ret ()" if "vo_completed g"
      using g(2) that by (simp add: bounded_def serve_phase_def)
    show "wp (with_ctl cid ?act) (\<lambda>_. safe cid par n) (\<lambda>_. safe cid par n) s"
      using g leadsD [OF cycling marked] leadsD [OF serving open_leg] over \<open>safe cid par n s\<close>
      by (cases "vo_marker g"; cases "vo_completed g") (auto simp: bounded_def simp del: map_of_eq_Some_iff)
  qed
  with children show ?thesis unfolding vb_on_tick_def by (intro keeps_bind)
qed

subsection \<open>Sessions\<close>

text \<open>A session: the controller is spawned, and then ticked while the venue changes in between.\<close>

datatype 'v vb_event = VB_Tick | VB_World "'v \<Rightarrow> 'v"

fun vb_handle :: "('v, 'k) vb_env \<Rightarrow> string \<Rightarrow> 'v vb_event \<Rightarrow> ('v, 'k, unit) vprog" where
  "vb_handle ve cid VB_Tick = tick_controller (ge_deps ve) (vb_hooks ve) cid"
| "vb_handle ve cid (VB_World w) = modifyP (\<lambda>s. s\<lparr>or_env := (or_env s)\<lparr>env_venue := w (env_venue (or_env s))\<rparr>\<rparr>)"

definition vb_run :: "('v, 'k) vb_env \<Rightarrow> string \<Rightarrow> 'v vb_event list \<Rightarrow> ('v, 'k) vb_orch \<Rightarrow> ('v, 'k) vb_orch" where
  "vb_run ve cid evs s = foldl (\<lambda>s ev. snd (vb_handle ve cid ev s)) s evs"

definition vb_session :: "('v, 'k) vb_env \<Rightarrow> vb_ctl \<Rightarrow> 'v vb_event list \<Rightarrow> ('v, 'k) vb_orch \<Rightarrow> ('v, 'k) vb_orch" where
  "vb_session ve g evs s = vb_run ve (ct_id g) evs (snd (spawn_controller (ge_deps ve) (vb_hooks ve) g s))"

lemma vb_run_keeps:
  assumes "\<And>ev. keeps I (vb_handle ve cid ev)" "I s"
  shows "I (vb_run ve cid evs s)"
  using assms(2)
proof (induction evs arbitrary: s)
  case (Cons ev evs)
  from Cons.IH [OF keeps_snd [OF assms(1) Cons.prems]] show ?case by (simp add: vb_run_def)
qed (simp add: vb_run_def)

lemma keeps_gather: "(\<And>p. p \<in> set ps \<Longrightarrow> keeps I p) \<Longrightarrow> keeps I (gatherP ps)"
proof (induction ps)
  case (Cons p ps)
  then have k: "keeps I p" "keeps I (gatherP ps)" by simp_all
  show ?case
  proof (rule keepsI)
    fix s assume "I s"
    from keeps_snd [OF k(2) keeps_snd [OF k(1) this]] show "wp (gatherP (p # ps)) (\<lambda>_. I) (\<lambda>_. I) s"
      by (cases "p s"; cases "fst (p s)") (simp_all add: wp_snd)
  qed
qed (simp add: keeps_ret)

lemma bounded_states:
  "bounded par n g \<Longrightarrow> bounded par n (set_active t g)" "bounded par n g \<Longrightarrow> bounded par n (set_failed t g\<lparr>ct_start_error := e\<rparr>)"
  by (auto simp: bounded_def within_limits_def session_loss_breached_def set_active_def set_failed_def Let_def split: if_splits)

lemma spawned_safe:
  fixes ve :: "('v, 'k) vb_env" and s :: "('v, 'k) vb_orch"
  assumes "trading par n g" "ct_id g = cid" "map_of (or_controllers s) cid = None"
  shows "map_of (or_controllers (snd (spawn_controller (ge_deps ve) (vb_hooks ve) g s))) cid = None
    \<or> safe cid par n (snd (spawn_controller (ge_deps ve) (vb_hooks ve) g s))"
proof (cases "orch_killed (ge_deps ve) s")
  case True
  then show ?thesis
    using assms by (simp add: spawn_controller_def bindP_def getsP_def ret_def emit_def modifyP_def)
next
  case False
  let ?s = "s\<lparr>or_controllers := od_set cid g (or_controllers s)\<rparr>"
  have set: "keeps (safe cid par n) (upd_controller cid f dp)"
    if "\<And>t h. bounded par n h \<Longrightarrow> bounded par n (f t h)" for f and dp :: "('v, 'k) deps"
    unfolding upd_controller_def by (rule keeps_held_modify) (auto simp: held_def that simp del: map_of_eq_Some_iff)
  have stop: "keeps (safe cid par n) (orch_stop dp i ct)" for dp :: "('v, 'k) deps" and i ct
    by (rule registry_view.stopping [OF registry_entry.axioms(1) [OF bounded_entry]])
  have start: "leads (in_session cid par n) (safe cid par n)
      (tryP (thenP (start_buy_cycle ve cid) (ret None)) (\<lambda>x. ret (Some x)))"
    unfolding leads_def wp_try wp_bind wp_ret using buying [of cid par n ve] by (simp add: leads_def)
  have rest: "keeps (safe cid par n) (case failure of
      None \<Rightarrow> thenP (seqP [upd_controller cid set_active dp, emit dp ''controller_spawned'' None (Some cid) None None]) (ret True)
    | Some x \<Rightarrow> thenP (seqP [upd_controller cid (\<lambda>t c. set_failed t c\<lparr>ct_start_error := Some (exc_str x)\<rparr>) dp,
        bindP (getsP (\<lambda>s. ids_of (list_executors (Some cid) True s))) (\<lambda>ids.
          tryP (gatherP (map (\<lambda>i. orch_stop dp i FAILED) ids)) (\<lambda>_. ret ())),
        emit dp ''controller_failed'' None (Some cid) None (Some (exc_str x))]) (ret False))" for failure and dp :: "('v, 'k) deps"
    by (auto intro!: keeps_intros set bounded_states keeps_gather stop split: option.split)
  have "in_session cid par n ?s" using assms(1) by (simp add: held_def)
  then have "wp (spawn_controller (ge_deps ve) (vb_hooks ve) g) (\<lambda>_. safe cid par n) (\<lambda>_. safe cid par n) s"
    unfolding spawn_controller_def Let_def assms(2) wp_bind wp_gets
    by (simp only: False if_False wp_bind wp_modify vb_hooks_def ctl_hooks.simps)
      (rule wp_mono [OF leadsD [OF start]], assumption, erule keeps_wp [OF rest], assumption+)
  then show ?thesis by (simp add: wp_snd)
qed

lemma session_bounded:
  assumes g: "mk_vb_ctl cid user has_inv c = Inr g" "within_limits g" and s: "map_of (or_controllers s) cid = None"
  shows "map_of (or_controllers (vb_session ve g evs s)) cid = None \<or> safe cid (vo_par g) (vo_cycles g) (vb_session ve g evs s)"
proof -
  have start: "trading (vo_par g) (vo_cycles g) g" and id: "ct_id g = cid"
    using g by (auto simp: mk_vb_ctl_def trading_def controller.defs vb_ctl.defs mk_controller_def split: sum.splits)
  have tick: "keeps (safe cid (vo_par g) (vo_cycles g)) (vb_handle ve cid ev)" for ev
    by (cases ev) (auto simp: vb_hooks_def intro!: registry_tick.controller_tick [OF bounded_tick] ticking_safe keeps_held_modify)
  have none: "keeps (\<lambda>s. map_of (or_controllers s) cid = None) (vb_handle ve cid ev)" for ev
    by (cases ev) (auto simp: keeps_def tick_controller_def)
  show ?thesis
    using spawned_safe [OF start id s, of ve] vb_run_keeps [OF tick, of _ evs] vb_run_keeps [OF none, of _ evs]
    unfolding vb_session_def id by blast
qed

text \<open>
  Claim C38: a volume bot never trades past its limits. Whatever the venue answers, at the end of every tick of a session
  that began inside its limits the bot is either completed, with a reason and no leg to serve, or its realized PnL is
  above the session's loss limit and its cycles below their cap; its settings stay those of the constructor and
  its count of cycles never falls, so a restored session keeps what it had used up.
\<close>

theorem session_limits:
  assumes g: "mk_vb_ctl cid user has_inv c = Inr g" "within_limits g" and s: "map_of (or_controllers s) cid = None"
  shows "case map_of (or_controllers (vb_session ve g evs s)) cid of None \<Rightarrow> True
    | Some h \<Rightarrow> vo_par h = vo_par g \<and> vo_cycles g \<le> vo_cycles h
        \<and> (if vo_completed h then vo_phase h = Done \<and> \<not> vo_marker h \<and> vo_reason h \<noteq> []
           else (vp_limit (vo_par g) \<le> 0 \<or> - vp_limit (vo_par g) < vo_pnl h) \<and> vo_cycles h < vp_max_cycles (vo_par g))"
  using session_bounded [OF assms, of ve evs]
  by (auto simp: held_def bounded_def within_limits_def session_loss_breached_def Let_def simp del: map_of_eq_Some_iff split: if_splits)

subsection \<open>Stopped for good\<close>

definition at_rest :: "vb_metrics \<Rightarrow> string \<Rightarrow> string set \<Rightarrow> vb_ctl \<Rightarrow> engine_executor odict \<Rightarrow> bool" where
  "at_rest m r K g d \<longleftrightarrow> vo_completed g \<and> vo_phase g = Done \<and> \<not> vo_marker g \<and> volume_metrics g = m \<and> vo_reason g = r \<and> fst ` set d \<subseteq> K"

lemma rest_view: "registry_view False (at_rest m r K)"
proof
  fix g :: vb_ctl and d i x y assume "at_rest m r K g d" "map_of d i = Some x"
  moreover from this(2) have "i \<in> fst ` set d" by (force dest: map_of_SomeD)
  ultimately show "at_rest m r K g (od_set i y d)" by (auto simp: at_rest_def od_keys_set)
qed

lemma rest_tick: "registry_tick (at_rest m r K)"
  by unfold_locales (auto simp: at_rest_def od_keys_pop bank_counts_def set_failed_def volume_metrics_def open_base_def)

lemma rest_on_tick:
  fixes ve :: "('v, 'k) vb_env"
  shows "keeps (held cid (at_rest m r K)) (vb_on_tick ve cid)"
proof -
  have children: "keeps (held cid (at_rest m r K)) (vb_children ve cid)"
    unfolding vb_children_def my_executors_def by (intro keeps_intros registry_view.ticking [OF rest_view])
  have "keeps (held cid (at_rest m r K)) (with_ctl cid (\<lambda>g. if vo_marker g
      then thenP (upd_ctl cid (\<lambda>g. g\<lparr>vo_marker := False\<rparr>)) (after_cycle ve cid) else serve_phase ve cid g))"
    by (rule keepsI) (auto simp: held_def at_rest_def serve_phase_def simp del: map_of_eq_Some_iff)
  with children show ?thesis unfolding vb_on_tick_def by (intro keeps_bind)
qed

text \<open>
  Claim C39: a volume bot that has stopped stays stopped. Once a session is completed, no later tick changes its reason
  or its totals, serves another leg or registers another executor; its executors are only ticked to their ends.
\<close>

theorem stopped_for_good:
  assumes g: "mk_vb_ctl cid user has_inv c = Inr g" "within_limits g" and s: "map_of (or_controllers s) cid = None"
    and h: "map_of (or_controllers (vb_session ve g evs s)) cid = Some h" "vo_completed h"
  shows "let s1 = vb_session ve g evs s; s2 = vb_run ve cid evs' s1 in \<exists>h2. map_of (or_controllers s2) cid = Some h2
    \<and> vo_completed h2 \<and> vo_reason h2 = vo_reason h \<and> volume_metrics h2 = volume_metrics h
    \<and> fst ` set (or_executors s2) \<subseteq> fst ` set (or_executors s1)"
proof -
  let ?K = "fst ` set (or_executors (vb_session ve g evs s))"
  have "bounded (vo_par g) (vo_cycles g) h"
    using session_bounded [OF g s, of ve evs] h(1) by (auto simp: held_def simp del: map_of_eq_Some_iff)
  then have "held cid (at_rest (volume_metrics h) (vo_reason h) ?K) (vb_session ve g evs s)"
    using h by (simp add: held_def at_rest_def bounded_def)
  moreover have "keeps (held cid (at_rest m r K)) (vb_handle ve cid ev)" for m r K ev
    by (cases ev) (auto simp: vb_hooks_def intro!: registry_tick.controller_tick [OF rest_tick] rest_on_tick keeps_held_modify)
  ultimately have "held cid (at_rest (volume_metrics h) (vo_reason h) ?K) (vb_run ve cid evs' (vb_session ve g evs s))"
    by (intro vb_run_keeps [of "held cid (at_rest (volume_metrics h) (vo_reason h) ?K)"])
  then show ?thesis unfolding held_def at_rest_def Let_def by blast
qed

subsection \<open>What a cycle costs\<close>

lemma snap_up: "price \<le> snap price tick True"
proof (cases "tick \<le> 0 \<or> price \<le> 0")
  case False
  then have "price / tick * tick \<le> of_int \<lceil>price / tick\<rceil> * tick" by (intro mult_right_mono) (simp_all add: le_of_int_ceiling)
  then show ?thesis using False by (simp add: snap_def)
qed (simp add: snap_def)

lemma snap_down: "0 < tick \<Longrightarrow> price - tick < snap price tick False"
proof (cases "price \<le> 0")
  case False
  assume "0 < tick"
  moreover have "(price / tick - 1) * tick < of_int \<lfloor>price / tick\<rfloor> * tick"
    by (intro mult_strict_right_mono \<open>0 < tick\<close>) linarith
  ultimately show ?thesis using False by (simp add: snap_def algebra_simps)
qed (simp add: snap_def)

lemma floor_or_none: "sell_floor g \<le> sell_price g tick bid ask \<or> sell_floor g \<le> 0"
proof -
  let ?px = "if tick > 0 \<and> ask - bid \<ge> tick * 2 then ask - tick else ask"
  have "sell_floor g \<le> (if sell_floor g > 0 \<and> ?px < sell_floor g then sell_floor g else ?px)" if "0 < sell_floor g"
    using that by auto
  then show ?thesis unfolding sell_price_def Let_def using order_trans [OF _ snap_up] by (meson not_le)
qed

lemma maker_fee_bounds: "0 \<le> maker_fee_rate c \<and> maker_fee_rate c < 1"
proof -
  have "0 \<le> non_negative_rate r" for r
    by (simp add: non_negative_rate_def non_negative_decimal_def Let_def split: rate_entry.split)
  then show ?thesis unfolding maker_fee_rate_def Let_def by (simp add: min_def)
qed

lemma parsed_rates:
  assumes "parse_vb c = Inr p"
  shows "0 \<le> vp_maker_fee p" "vp_maker_fee p < 1"
proof -
  have "vp_maker_fee p = maker_fee_rate c" using assms by (auto simp: parse_vb_def Let_def split: if_splits)
  then show "0 \<le> vp_maker_fee p" "vp_maker_fee p < 1" using maker_fee_bounds [of c] by simp_all
qed

lemma floor_value:
  assumes "0 < vo_entry_base g" "0 < vo_entry_quote g" "vp_maker_fee (vo_par g) < 1" "0 \<le> vo_entry_fee g" "0 \<le> vp_maker_fee (vo_par g)"
    and "vp_loss_bp (vo_par g) \<le> 10000"
  shows "(vo_entry_quote g + vo_entry_fee g) * (1 - vp_loss_bp (vo_par g) / 10000)
    \<le> sell_floor g * vo_entry_base g * (1 - vp_maker_fee (vo_par g))"
proof -
  let ?f = "vp_maker_fee (vo_par g)" and ?l = "1 - vp_loss_bp (vo_par g) / 10000"
  let ?fee = "if vo_entry_fee g \<noteq> 0 then vo_entry_fee g else vo_entry_quote g * ?f"
  have fee: "vo_entry_fee g \<le> ?fee" using assms by simp
  have be: "cycle_breakeven g * vo_entry_base g * (1 - ?f) = vo_entry_quote g + ?fee" "0 < cycle_breakeven g"
    using assms by (auto simp: cycle_breakeven_def Let_def add_pos_nonneg)
  have "(vo_entry_quote g + vo_entry_fee g) * ?l \<le> (vo_entry_quote g + ?fee) * ?l"
    using fee assms by (intro mult_right_mono) simp_all
  also have "\<dots> = sell_floor g * vo_entry_base g * (1 - ?f)"
    using be(2) by (simp add: sell_floor_def flip: be(1))
  finally show ?thesis .
qed

text \<open>
  The two ways the bot sends a sell in maker mode, resting at a touch or crossing it, and the leg each
  is sent as: \<open>sell_leg\<close> and \<open>cross_sell_leg\<close> are what the controller itself plans with.
\<close>

datatype sell_order = Resting dec "dec \<times> dec" | Crossing dec dec

fun planned_sell :: "vb_ctl \<Rightarrow> dec \<Rightarrow> sell_order \<Rightarrow> leg_plan option" where
  "planned_sell g tick (Resting amount touch) = sell_leg g tick amount touch"
| "planned_sell g tick (Crossing amount bid) = cross_sell_leg g tick amount bid"

definition limit_of :: "vb_ctl \<Rightarrow> dec \<Rightarrow> sell_order \<Rightarrow> dec option" where
  "limit_of g tick q = (case planned_sell g tick q of None \<Rightarrow> None | Some l \<Rightarrow> lp_price l)"

text \<open>A fill of \<open>b\<close> at \<open>p\<close> of an order that was sent: the venue fills a limit sell at its limit or better.\<close>

definition sold_at :: "vb_ctl \<Rightarrow> dec \<Rightarrow> sell_order \<times> dec \<times> dec \<Rightarrow> bool" where
  "sold_at g tick = (\<lambda>(q, b, p). 0 \<le> b \<and> 0 \<le> p \<and> (case limit_of g tick q of None \<Rightarrow> False | Some x \<Rightarrow> x \<le> p))"

definition floor_slack :: "dec \<Rightarrow> (sell_order \<times> dec \<times> dec) list \<Rightarrow> dec" where
  "floor_slack tick fills = (if list_all (\<lambda>(q, b, p). case q of Resting _ _ \<Rightarrow> True | Crossing _ _ \<Rightarrow> False) fills then 0 else tick)"

lemma resting_limit:
  "\<not> taker_mode (vo_par g) \<Longrightarrow> limit_of g tick (Resting amount (bid, ask)) = Some x \<Longrightarrow> x = sell_price g tick bid ask"
  by (auto simp: limit_of_def sell_leg_def maker_leg_def Let_def split: if_splits)

lemma crossing_limit:
  assumes "limit_of g tick (Crossing amount bid) = Some x"
  shows "x = snap (bid * (1 - vp_cross_slip (vo_par g) / 10000)) tick False
    \<and> (sell_floor g \<le> 0 \<or> sell_floor g \<le> bid * (1 - vp_cross_slip (vo_par g) / 10000))"
  using assms by (auto simp: limit_of_def cross_sell_leg_def crossing_leg_def Let_def split: if_splits)

lemma limit_near_floor:
  assumes "\<not> taker_mode (vo_par g)" "sold_at g tick (q, b, p)" "0 < tick" "(q, b, p) \<in> set fills"
  shows "sell_floor g - floor_slack tick fills \<le> p"
proof -
  obtain x where x: "limit_of g tick q = Some x" "x \<le> p" "0 \<le> p" using assms(2) by (auto simp: sold_at_def split: option.splits)
  show ?thesis
  proof (cases q)
    case (Resting amount touch)
    then show ?thesis
      using resting_limit [OF assms(1), of tick amount "fst touch" "snd touch" x] floor_or_none [of g tick "fst touch" "snd touch"] x assms(3)
      by (auto simp: floor_slack_def)
  next
    case (Crossing amount bid)
    let ?px = "bid * (1 - vp_cross_slip (vo_par g) / 10000)"
    have "floor_slack tick fills = tick" using Crossing assms(4) by (auto simp: floor_slack_def list_all_iff)
    moreover have c: "x = snap ?px tick False" "sell_floor g \<le> 0 \<or> sell_floor g \<le> ?px"
      using crossing_limit x(1) Crossing by blast+
    moreover have "?px - tick < p" using snap_down [OF assms(3), of ?px] c(1) x(2) by simp
    ultimately show ?thesis using x(3) assms(3) by auto
  qed
qed

lemma fills_near_floor:
  assumes "\<not> taker_mode (vo_par g)" "list_all (sold_at g tick) fills" "0 < tick"
  shows "(sell_floor g - floor_slack tick fills) * sum_list (map (\<lambda>(q, b, p). b) fills) \<le> sum_list (map (\<lambda>(q, b, p). b * p) fills)"
proof -
  have "(sell_floor g - sl) * sum_list (map (\<lambda>(q, b, p). b) fs) \<le> sum_list (map (\<lambda>(q, b, p). b * p) fs)"
    if "\<And>q b p. (q, b, p) \<in> set fs \<Longrightarrow> 0 \<le> b \<and> sell_floor g - sl \<le> p" for sl fs
    using that
  proof (induction fs)
    case (Cons x fs)
    obtain q b p where x: "x = (q, b, p)" by (cases x)
    have "b * (sell_floor g - sl) \<le> b * p" using Cons.prems [of q b p] by (intro mult_left_mono) (auto simp: x)
    moreover have "(sell_floor g - sl) * sum_list (map (\<lambda>(q, b, p). b) fs) \<le> sum_list (map (\<lambda>(q, b, p). b * p) fs)"
      by (rule Cons.IH) (use Cons.prems in auto)
    ultimately show ?case by (simp add: x distrib_left mult.commute)
  qed simp
  moreover have "0 \<le> b \<and> sell_floor g - floor_slack tick fills \<le> p" if "(q, b, p) \<in> set fills" for q b p
    using that assms limit_near_floor [OF assms(1) _ assms(3) that] by (auto simp: list_all_iff sold_at_def)
  ultimately show ?thesis by blast
qed

text \<open>
  Claim C40: what one round trip in maker mode can cost. Whatever touches the bot met, if the whole bag
  was sold by sells it planned, resting ones and crossing ones, each filled at its limit or better, and the
  sells paid no more than the maker fee, the cycle's loss is at most \<open>vol_max_cycle_loss_bp\<close> of its cost
  with the fee; a crossing sell, rounded down to the tick after it was held against the floor, can
  add a tick per unit, and a resting sell is never below the floor.
\<close>

theorem cycle_loss_bounded:
  assumes par: "parse_vb c = Inr (vo_par g)" "vp_loss_bp (vo_par g) \<le> 10000" "\<not> taker_mode (vo_par g)"
    and bought: "0 < vo_entry_base g" "0 < vo_entry_quote g" "0 \<le> vo_entry_fee g"
    and fills: "list_all (sold_at g tick) fills" "0 < tick"
    and sold: "sum_list (map (\<lambda>(q, b, p). b) fills) = vo_entry_base g" "sum_list (map (\<lambda>(q, b, p). b * p) fills) = vo_sold_quote g"
      "vo_sold_fee g \<le> vp_maker_fee (vo_par g) * vo_sold_quote g"
  shows "- (vp_loss_bp (vo_par g) / 10000 * (vo_entry_quote g + vo_entry_fee g)) - floor_slack tick fills * vo_entry_base g \<le> cycle_pnl g"
proof -
  let ?f = "vp_maker_fee (vo_par g)" and ?sl = "floor_slack tick fills" and ?cost = "vo_entry_quote g + vo_entry_fee g"
  note f = parsed_rates [OF par(1)]
  have "?cost * (1 - vp_loss_bp (vo_par g) / 10000) \<le> sell_floor g * vo_entry_base g * (1 - ?f)"
    using floor_value [OF bought(1,2) f(2) bought(3) f(1) par(2)] .
  also have "\<dots> = (sell_floor g - ?sl) * vo_entry_base g * (1 - ?f) + ?sl * vo_entry_base g * (1 - ?f)" by (simp add: algebra_simps)
  also have "\<dots> \<le> vo_sold_quote g * (1 - ?f) + ?sl * vo_entry_base g"
  proof (rule add_mono)
    show "(sell_floor g - ?sl) * vo_entry_base g * (1 - ?f) \<le> vo_sold_quote g * (1 - ?f)"
      using fills_near_floor [OF par(3) fills] f(2) unfolding sold by (intro mult_right_mono) simp_all
    have "0 \<le> ?sl * vo_entry_base g" using fills(2) bought(1) by (simp add: floor_slack_def)
    then show "?sl * vo_entry_base g * (1 - ?f) \<le> ?sl * vo_entry_base g" using f by (simp add: mult_left_le)
  qed
  finally have "?cost * (1 - vp_loss_bp (vo_par g) / 10000) \<le> vo_sold_quote g * (1 - ?f) + ?sl * vo_entry_base g" .
  then show ?thesis using sold(3) unfolding cycle_pnl_def by (simp add: algebra_simps)
qed

subsection \<open>A concrete session\<close>

text \<open>In taker mode, a clip of 100 bought at 100 and sold at 99: the round trip loses more than the limit of 1.\<close>

definition demo_vb_cfg :: vb_cfg where
  "demo_vb_cfg = \<lparr>vf_pair = Some ''KBTC'', vf_market = None, vf_leverage = None, vf_amount = None, vf_target = Some 1000, vf_max_cycles = None,
     vf_offset = None, vf_loss_bp = None, vf_cross_slip = None, vf_algo = Some ''taker'', vf_taker_mode = None, vf_horizon = None,
     vf_tolerance = None, vf_max_taker = None, vf_deadline_mult = None, vf_chase = None, vf_timeout = None, vf_taker_slip = None,
     vf_builder = None, vf_spot_maker = Some (Rate (1 / 1000)), vf_vol_maker = None, vf_maker_bp = None, vf_spot_taker = None, vf_vol_taker = None,
     vf_limit = Some (Some 1), vf_restore_volume = None, vf_restore_pnl = None, vf_restore_cycles = None\<rparr>"

definition demo_vb_par :: vb_par where
  "demo_vb_par = (case parse_vb demo_vb_cfg of Inr p \<Rightarrow> p)"

definition demo_vb_ctl :: vb_ctl where
  "demo_vb_ctl = (case mk_vb_ctl ''c'' 1 True demo_vb_cfg of Inr g \<Rightarrow> g)"

definition demo_vb_env :: "(script, memory_switch) vb_env" where
  "demo_vb_env = \<lparr>ge_deps = demo_deps, ge_regime = (\<lambda>v. None), ge_uuid = (\<lambda>n. replicate (Suc n) (CHR ''q'')),
     ve_book = (\<lambda>p v. (Inr (Some 99, Some 100), v)), ve_tick = (\<lambda>p v. Inr (1 / 10)), ve_lot = (\<lambda>p v. Inr (1 / 100)),
     ve_min_notional = (\<lambda>p v. Inr 10)\<rparr>"

definition demo_vb_order :: "string \<Rightarrow> trade_type \<Rightarrow> dec \<Rightarrow> nado_order" where
  "demo_vb_order i side px = \<lparr>o_id = i, o_pair = ''KBTC'', o_side = side, o_type = LIMIT, o_amount = 1, o_price = Some px,
     o_state = O_FILLED, o_filled_base = 1, o_filled_quote = px, o_fee = 1 / 10\<rparr>"

definition demo_vb_orch :: "(script, memory_switch) vb_orch" where
  "demo_vb_orch = mk_orch \<lparr>env_venue = \<lparr>sc_now = 10, sc_orders = map Inr [demo_vb_order ''b'' BUY 100, demo_vb_order ''s'' SELL 99],
     sc_mids = [], sc_cancels = []\<rparr>, env_inv = [], env_trades = []\<rparr> None False 9 9 3 90 1"

lemma demo_vb_start:
  "mk_vb_ctl ''c'' 1 True demo_vb_cfg = Inr demo_vb_ctl" "within_limits demo_vb_ctl" "map_of (or_controllers demo_vb_orch) ''c'' = None"
proof -
  show "mk_vb_ctl ''c'' 1 True demo_vb_cfg = Inr demo_vb_ctl" by code_simp
  show "within_limits demo_vb_ctl" by code_simp
  show "map_of (or_controllers demo_vb_orch) ''c'' = None" by code_simp
qed

definition demo_vb_end :: "(script, memory_switch) vb_orch" where
  "demo_vb_end = vb_session demo_vb_env demo_vb_ctl [VB_Tick, VB_Tick] demo_vb_orch"

lemma demo_vb_stopped:
  "case map_of (or_controllers demo_vb_end) ''c'' of None \<Rightarrow> False
   | Some h \<Rightarrow> vo_completed h \<and> vo_reason h = ''session_loss_limit'' \<and> vo_pnl h = - (6 / 5) \<and> vo_volume h = 199"
  by code_simp

theorem session_limits_witness:
  "(case map_of (or_controllers demo_vb_end) ''c'' of None \<Rightarrow> True
    | Some h \<Rightarrow> vo_par h = vo_par demo_vb_ctl \<and> vo_cycles demo_vb_ctl \<le> vo_cycles h
        \<and> (if vo_completed h then vo_phase h = Done \<and> \<not> vo_marker h \<and> vo_reason h \<noteq> []
           else (vp_limit (vo_par demo_vb_ctl) \<le> 0 \<or> - vp_limit (vo_par demo_vb_ctl) < vo_pnl h) \<and> vo_cycles h < vp_max_cycles (vo_par demo_vb_ctl)))
   \<and> (case map_of (or_controllers demo_vb_end) ''c'' of None \<Rightarrow> False
    | Some h \<Rightarrow> vo_completed h \<and> vo_reason h = ''session_loss_limit'' \<and> vo_pnl h = - (6 / 5) \<and> vo_volume h = 199)"
  using session_limits [OF demo_vb_start, of demo_vb_env "[VB_Tick, VB_Tick]"] demo_vb_stopped unfolding demo_vb_end_def by blast

theorem stopped_for_good_witness:
  "\<exists>h h2. map_of (or_controllers demo_vb_end) ''c'' = Some h \<and> vo_completed h
    \<and> map_of (or_controllers (vb_run demo_vb_env ''c'' [VB_Tick, VB_Tick] demo_vb_end)) ''c'' = Some h2
    \<and> vo_completed h2 \<and> vo_reason h2 = vo_reason h \<and> volume_metrics h2 = volume_metrics h"
proof -
  obtain h where h: "map_of (or_controllers demo_vb_end) ''c'' = Some h" "vo_completed h"
    using demo_vb_stopped by (auto split: option.splits simp del: map_of_eq_Some_iff)
  show ?thesis
    using stopped_for_good [OF demo_vb_start h [unfolded demo_vb_end_def], of "[VB_Tick, VB_Tick]"] h
    unfolding Let_def demo_vb_end_def by blast
qed

text \<open>
  The same clip in maker mode, bought at 100 with a fee of 0.1: half of it is sold by a resting sell and
  half by one that crosses a bid of 100.2.
\<close>

definition demo_maker_cfg :: vb_cfg where
  "demo_maker_cfg = demo_vb_cfg\<lparr>vf_algo := Some ''twap''\<rparr>"

definition demo_sold :: vb_ctl where
  "demo_sold = (case mk_vb_ctl ''c'' 1 True demo_maker_cfg of Inr g \<Rightarrow> g)\<lparr>vo_entry_base := 1, vo_entry_quote := 100,
     vo_entry_fee := 1 / 10, vo_sold_base := 1, vo_sold_quote := 1002 / 10, vo_sold_fee := 1 / 10\<rparr>"

theorem cycle_loss_bounded_witness:
  "- (vp_loss_bp (vo_par demo_sold) / 10000 * (vo_entry_quote demo_sold + vo_entry_fee demo_sold)) - 1 / 10 \<le> cycle_pnl demo_sold"
proof -
  let ?fills = "[(Resting (1 / 2) (1003 / 10, 1005 / 10), 1 / 2, 1004 / 10), (Crossing (1 / 2) (1002 / 10), 1 / 2, 100)]"
  have p: "parse_vb demo_maker_cfg = Inr (vo_par demo_sold)" by code_simp
  have a: "vp_loss_bp (vo_par demo_sold) \<le> 10000" "\<not> taker_mode (vo_par demo_sold)" "0 < vo_entry_base demo_sold"
    "0 < vo_entry_quote demo_sold" "0 \<le> vo_entry_fee demo_sold" "list_all (sold_at demo_sold (1 / 10)) ?fills" by code_simp+
  have b: "sum_list (map (\<lambda>(q, b, p). b) ?fills) = vo_entry_base demo_sold" "sum_list (map (\<lambda>(q, b, p). b * p) ?fills) = vo_sold_quote demo_sold"
    "vo_sold_fee demo_sold \<le> vp_maker_fee (vo_par demo_sold) * vo_sold_quote demo_sold" by code_simp+
  have "floor_slack (1 / 10) ?fills * vo_entry_base demo_sold = 1 / 10" by code_simp
  with cycle_loss_bounded [OF p a _ b] show ?thesis by simp
qed

subsection \<open>Where the code differs from its comments\<close>

text \<open>A leg that is to be crossed against a dead book is not cancelled before the bot waits for the market: its order stays.\<close>

lemma dead_book_keeps_order:
  assumes "fst (vb_touch ve cid s) = Inr None"
  shows "cross_leg ve cid i side s = upd_ctl cid enter_market_closed (snd (vb_touch ve cid s))"
  using assms by (cases "vb_touch ve cid s") (simp add: cross_leg_def bindP_def)

lemma reopening_buys_again: "vo_phase g = Market_Closed \<Longrightarrow> open_base g \<le> 0 \<Longrightarrow> serve_phase ve cid g = start_buy_cycle ve cid"
  by (simp add: serve_phase_def)

text \<open>A cycle that ends with dust and then meets a closed market is resumed as a sell, and booked a second time.\<close>

lemma dust_cycle_booked_twice:
  assumes "vo_phase (close_cycle t g) = Cycle_Gap" "0 < open_base g"
  shows "serve_phase ve cid (enter_market_closed (close_cycle t g)) = start_sell_cycle ve cid (open_base g)"
    "vo_pnl (finish_cycle (enter_market_closed (close_cycle t g))) = vo_pnl g + 2 * cycle_pnl g"
  using assms
  by (auto simp: close_cycle_def Let_def finish_cycle_def vb_complete_def set_stopped_def enter_market_closed_def serve_phase_def
      open_base_def cycle_pnl_def split: if_splits)

text \<open>A crossing sell that the floor admits can be sent below it.\<close>

definition probe_bid :: dec where
  "probe_bid = sell_floor demo_sold / (1 - vp_cross_slip (vo_par demo_sold) / 10000)"

lemma crossing_below_floor:
  "case limit_of demo_sold (1 / 10) (Crossing 1 probe_bid) of None \<Rightarrow> False | Some x \<Rightarrow> x < sell_floor demo_sold"
  by code_simp

text \<open>A session restored past its loss limit buys again before it looks at the limit.\<close>

lemma breached_session_buys:
  "let c = demo_vb_cfg\<lparr>vf_restore_pnl := Some (- 5)\<rparr> in case mk_vb_ctl ''c'' 1 True c of Inl _ \<Rightarrow> False
   | Inr g \<Rightarrow> session_loss_breached g \<and> or_executors (vb_session demo_vb_env g [] demo_vb_orch) \<noteq> []"
  by code_simp

text \<open>In maker mode a crossing order that rests is never served again: neither crossed, nor requoted, nor chased.\<close>

lemma crossed_leg_unserved:
  assumes "vo_leg_crossed g" "\<not> taker_mode (vo_par g)"
  shows "\<not> (\<not> vo_leg_crossed g \<and> leg_should_cross g now total_quote filled_quote)" "\<not> stalled g now" "\<not> chases g now True"
  using assms by (simp_all add: stalled_def chases_def)

end
