(* ===== verification/Mm_Limits.thy ===== *)
theory Mm_Limits
  imports Mm_Quotes
begin

text \<open>
  The limits of the market maker: what its settings and its running totals satisfy in every reachable
  state, where its quotes stand, and what the exposure gate of \<open>_reconcile\<close> keeps out.
\<close>

subsection \<open>Fields every tick honours\<close>




subsection \<open>The limits of a market maker\<close>












subsection \<open>Where the quotes stand\<close>






text \<open>The factor of the inventory policy is applied after the floor: a bid meant to buy a short back stands closer than it.\<close>

lemma soft_state_below_floor:
  assumes "mp_policy (mq_par g)" "mp_hard (mq_par g) = 0" "0 < mp_soft (mq_par g)" "base \<le> - mp_soft (mq_par g)"
    and "mp_bias (mq_par g) = 0" "mq_bid_pct g = mq_floor g" "0 < mq_floor g" "defensive_mult g = 1"
  shows "fst (quoted_spreads (fst (snd (inventory_policy (mq_par g) base allowed st))) g) < mq_floor g"
proof -
  have "mp_soft (mq_par g) \<le> \<bar>base\<bar>" "\<not> 0 < base" using assms(3,4) by linarith+
  then show ?thesis using assms by (simp add: inventory_policy_def quoted_spreads_def effective_spreads_def)
qed

subsection \<open>The exposure gate\<close>

lemma inv_get_again [simp]: "fst (inv_get u p c (snd (inv_get u p c iv))) = fst (inv_get u p c iv)"
  by (cases "map_of iv (u, p, c)") (simp_all add: inv_get_def Let_def)

text \<open>The identifiers registered, and what the level may still be bound to.\<close>

definition nothing_new :: "string set \<Rightarrow> slot_key \<Rightarrow> string option \<Rightarrow> mm_ctl \<Rightarrow> engine_executor odict \<Rightarrow> bool" where
  "nothing_new K k b g d \<longleftrightarrow> fst ` set d = K \<and> (qs_ex (slot_at k g) = None \<or> qs_ex (slot_at k g) = b)"

interpretation nn: registry_view cid False "nothing_new K k b" for cid K k b
proof
  fix g :: mm_ctl and d i and x y :: engine_executor
  assume "nothing_new K k b g d" and i: "map_of d i = Some x"
  moreover have "i \<in> fst ` set d" using i by (force dest: map_of_SomeD)
  ultimately show "nothing_new K k b g (od_set i y d)" by (auto simp: nothing_new_def od_keys_set)
qed

lemma nothing_new_released: "nothing_new K k b g d \<Longrightarrow> nothing_new K k b (put_slot k empty_slot g) d"
  by (simp add: nothing_new_def empty_slot_def)

lemma refused_level:
  fixes ve :: "('v, 'k) mm_env"
  shows "keeps (held cid (nothing_new K k b)) (free_stale ve cid k)"
    "keeps (held cid (nothing_new K k b)) (reconcile_live ve cid side k target q False is_opening)"
proof -
  have release: "keeps (held cid (nothing_new K k b)) (release_slot cid k)"
    unfolding release_slot_def by (rule keeps_upd_ctl) (rule nothing_new_released)
  have retry: "keeps (held cid (nothing_new K k b)) (retry_failed_stop ve i)" for i
    unfolding retry_failed_stop_def by (intro keeps_intros nn.stopping_executor)
  have stop: "keeps (held cid (nothing_new K k b)) (stop_and_release ve cid k i)" for i
    unfolding stop_and_release_def by (intro keeps_intros nn.stopping release)
  show "keeps (held cid (nothing_new K k b)) (free_stale ve cid k)"
    unfolding free_stale_def by (auto intro!: keeps_intros retry release split: option.split)
  show "keeps (held cid (nothing_new K k b)) (reconcile_live ve cid side k target q False is_opening)"
    unfolding reconcile_live_def Let_def by (auto intro!: keeps_intros stop split: option.split)
qed

lemma resting_other_level:
  "resting_notional d k (ensure_slot k g) = resting_notional d k g"
proof -
  have "filter (\<lambda>(k', s). fst k' = fst k \<and> snd k' \<noteq> snd k \<and> slot_live d s) (od_set k v xs)
      = filter (\<lambda>(k', s). fst k' = fst k \<and> snd k' \<noteq> snd k \<and> slot_live d s) xs" for v xs
  proof (induction xs)
    case (Cons x xs)
    obtain k' s' where "x = (k', s')" by (cases x)
    then show ?case using Cons by (cases "k' = k") simp_all
  qed simp
  then show ?thesis by (simp add: resting_notional_def ensure_slot_def put_slot_def)
qed

lemma not_admitted:
  fixes s :: "('v, 'k) mm_orch" and k :: slot_key and q :: dec
  assumes "map_of (or_controllers s) cid = Some g" "mq_has_inv g" "0 < mid" "mm_cap_quote (mq_par g) = Some cap"
  defines "current \<equiv> net_amount_base (fst (inv_get (ct_user g) (mp_pair (mq_par g)) cid (env_inv (or_env s)))) * mid"
    and "pending \<equiv> q + resting_notional (or_executors s) k g"
  assumes "\<not> projected_ok cap current (if fst k then pending else - pending)" "held cid P s"
  shows "wp (admitted cid k target mid q allowed) (\<lambda>ok s'. \<not> ok \<and> held cid P s') (\<lambda>_. held cid P) s"
  using assms(1-4,7,8) unfolding current_def pending_def
  by (auto simp: admitted_def recycle_allows_def within_exposure_def base_value_def mm_hold_def hold_value_def Let_def
      simp del: map_of_eq_Some_iff split: option.split)

text \<open>
  Claim C6: the exposure gate holds. If a full fill of the quote, with what already rests on its side,
  would enlarge the position and take it past the cap, reconciling the level registers no executor,
  so that no order is placed, and leaves the level with the quote it had or with none.
\<close>

theorem exposure_gate:
  fixes ve :: "('v, 'k) mm_env" and s :: "('v, 'k) mm_orch" and side :: trade_type and lvl :: nat
    and q mid cap target :: dec and allowed is_opening :: bool
  assumes "map_of (or_controllers s) cid = Some g" "mq_has_inv g" "0 < mid" "mm_cap_quote (mq_par g) = Some cap"
  defines "current \<equiv> net_amount_base (fst (inv_get (ct_user g) (mp_pair (mq_par g)) cid (env_inv (or_env s)))) * mid"
    and "pending \<equiv> q + resting_notional (or_executors s) (side = BUY, lvl) g"
    and "s' \<equiv> snd (reconcile ve cid side lvl target q allowed mid is_opening s)"
  assumes "max cap \<bar>current\<bar> < \<bar>current + (if side = BUY then pending else - pending)\<bar>"
  shows "fst ` set (or_executors s') = fst ` set (or_executors s)
    \<and> (\<exists>g'. map_of (or_controllers s') cid = Some g'
        \<and> (qs_ex (slot_at (side = BUY, lvl) g') = None \<or> qs_ex (slot_at (side = BUY, lvl) g') = qs_ex (slot_at (side = BUY, lvl) g)))"
proof -
  define k where "k = (side = BUY, lvl)"
  let ?P = "nothing_new (fst ` set (or_executors s)) k (qs_ex (slot_at k g))"
  define s1 where "s1 = s\<lparr>or_controllers := od_set cid (ensure_slot k g) (or_controllers s)\<rparr>"
  have same: "mq_par (ensure_slot k g) = mq_par g" "mq_has_inv (ensure_slot k g) = mq_has_inv g" "ct_user (ensure_slot k g) = ct_user g"
    by (simp_all add: ensure_slot_def put_slot_def)
  have "held cid ?P s1" by (simp add: s1_def held_def nothing_new_def)
  have refused: "keeps (held cid ?P) (bindP (free_stale ve cid k) (\<lambda>go.
      whenP go (reconcile_live ve cid side k target q False is_opening)))"
    by (intro keeps_bind keeps_when refused_level)
  note \<open>held cid ?P s1\<close>
  moreover have "\<not> projected_ok cap current (if fst k then pending else - pending)"
    using assms(8) by (auto simp: projected_ok_def k_def)
  moreover have "map_of (or_controllers s1) cid = Some (ensure_slot k g)" "or_executors s1 = or_executors s" "or_env s1 = or_env s"
    by (simp_all add: s1_def)
  moreover have "pending = q + resting_notional (or_executors s) k g" by (simp add: pending_def k_def)
  ultimately have "wp (admitted cid k target mid q allowed) (\<lambda>ok s'. \<not> ok \<and> held cid ?P s') (\<lambda>_. held cid ?P) s1"
    using assms(2-4)
    by (intro not_admitted [where g = "ensure_slot k g" and cap = cap])
      (simp_all only: same resting_other_level current_def not_False_eq_True)
  then have "wp (bindP (admitted cid k target mid q allowed) (\<lambda>ok. bindP (free_stale ve cid k) (\<lambda>go.
      whenP go (reconcile_live ve cid side k target q ok is_opening)))) (\<lambda>_. held cid ?P) (\<lambda>_. held cid ?P) s1"
    unfolding wp_bind [of "admitted cid k target mid q allowed"]
    by (rule wp_mono) (use refused in \<open>simp_all add: keeps_def del: wp_bind\<close>)
  then have "wp (reconcile ve cid side lvl target q allowed mid is_opening) (\<lambda>_. held cid ?P) (\<lambda>_. held cid ?P) s"
    using assms(1) by (simp add: reconcile_def Let_def k_def s1_def wp_bind [of "upd_ctl cid (ensure_slot k)" for k]
        del: map_of_eq_Some_iff wp_bind)
  then have "held cid ?P s'" unfolding s'_def wp_def by (auto split: prod.splits sum.splits)
  then show ?thesis by (auto simp: held_def nothing_new_def k_def)
qed

text \<open>
  A quote whose stop failed with its order still resting keeps its level bound, but it no longer counts:
  neither the projection of the exposure nor the prevention of self-trades sees it.
\<close>

lemma failed_stop_unseen:
  assumes "map_of d i = Some x" "failed_resting x" "ee_terminated x"
    and "mq_slots g = [((False, 0), bound i price size0 t)]" "0 < price" "price \<le> target"
  shows "\<not> would_self_trade d True target g \<and> resting_notional d (False, 1) g = 0"
  using assms(1,3,4)
  by (simp add: would_self_trade_def resting_notional_def slot_live_def is_live_def bound_def del: map_of_eq_Some_iff)

subsection \<open>Concrete instances\<close>




theorem exposure_gate_witness:
  "fst ` set (or_executors (snd (reconcile demo_mm_env ''c'' BUY 0 99 150 True 100 True demo_mm_orch))) = {}"
proof -
  have c: "map_of (or_controllers demo_mm_orch) ''c'' = Some demo_mm_ctl" "or_executors demo_mm_orch = []"
    by (simp_all add: demo_mm_orch_def mk_orch_def)
  have g: "mq_has_inv demo_mm_ctl" "mm_cap_quote (mq_par demo_mm_ctl) = Some 100" by code_simp+
  have n: "net_amount_base (fst (inv_get (ct_user demo_mm_ctl) (mp_pair (mq_par demo_mm_ctl)) ''c'' (env_inv (or_env demo_mm_orch)))) = 0"
    by code_simp
  have r: "resting_notional [] (True, 0) demo_mm_ctl = 0" by code_simp
  show ?thesis
    using exposure_gate [where ve = demo_mm_env and target = 99 and q = 150 and side = BUY and lvl = 0 and mid = 100 and allowed = True
        and is_opening = True, OF c(1) g(1) _ g(2)] by (simp add: n r c(2))
qed

end
