(* ===== verification/Venue_Stop.thy ===== *)
theory Venue_Stop
  imports Risk_Sizing
begin

text \<open>
  The stop the venue holds for a session: \<open>strategy/venue_stop.py\<close>. The venue is the list of its trigger
  orders; the client's calls are arguments, whether a cancel and a listing go through and what placing
  answers; the registry of digests tells which orders are the engine's. Every failure the code swallows is a
  branch; the tunables are a record. The client aligns price and size to the product's increments; what the
  code tracks, and a row here shows, is what it asked for. A snapshot's fields are read with \<open>_f\<close>: what does not parse is zero.
\<close>

subsection \<open>Tunables, snapshot and state\<close>

record stop_config =
  so_enabled :: bool
  so_price_tol :: dec
  so_size_tol :: dec
  so_min_reprice :: dec

definition stop_defaults :: stop_config where
  "stop_defaults = \<lparr>so_enabled = False, so_price_tol = 1 / 1000, so_size_tol = 1 / 100, so_min_reprice = 20\<rparr>"

record snapshot =
  sn_product :: int
  sn_has :: bool
  sn_size :: dec
  sn_long :: bool
  sn_entry :: dec
  sn_margin :: dec
  sn_value :: dec
  sn_leverage :: dec

record tracked_stop =
  tk_product :: int
  tk_long :: bool
  tk_price :: dec
  tk_size :: dec
  tk_placed :: time
  tk_digests :: "string list"

record stop_state =
  st_tracked :: "tracked_stop option"
  st_reconciled :: bool

record trigger_row =
  tr_digest :: string
  tr_product :: int
  tr_reduce_stop :: bool
  tr_long :: bool
  tr_price :: dec
  tr_size :: dec

text \<open>What the calls of one pass meet: the orders linked to the engine (\<open>None\<close> when the registry cannot be read).\<close>

datatype placing = Placed string bool | Refused

record stop_env =
  se_cancel :: bool
  se_list :: bool
  se_linked :: "string set option"
  se_place :: placing

definition rel_close :: "dec \<Rightarrow> dec \<Rightarrow> dec \<Rightarrow> bool" where
  "rel_close a b tol = (if a \<le> 0 \<or> b \<le> 0 then False else \<bar>a - b\<bar> / b \<le> tol)"

definition effective_leverage :: "snapshot \<Rightarrow> dec" where
  "effective_leverage s = (if sn_margin s > 0 \<and> sn_value s > 0 then sn_value s / sn_margin s else sn_leverage s)"

definition has_pos :: "snapshot \<Rightarrow> bool" where
  "has_pos s \<longleftrightarrow> sn_has s \<and> \<bar>sn_size s\<bar> > 1 / 10 ^ 12"

subsection \<open>Cancelling and sweeping\<close>

definition cancel_digests :: "stop_env \<Rightarrow> int \<Rightarrow> string list \<Rightarrow> trigger_row list \<Rightarrow> trigger_row list" where
  "cancel_digests env pid digests rows = (let ds = filter (\<lambda>d. strip_str d \<noteq> []) digests in
     if pid \<le> 0 \<or> ds = [] \<or> \<not> se_cancel env then rows
     else filter (\<lambda>r. \<not> (tr_product r = pid \<and> tr_digest r \<in> set ds)) rows)"

definition orphans :: "stop_env \<Rightarrow> int \<Rightarrow> string set \<Rightarrow> trigger_row list \<Rightarrow> string list" where
  "orphans env pid keep rows = (if \<not> se_list env then [] else
     (let cand = map tr_digest (filter (\<lambda>r. tr_product r = pid \<and> strip_str (tr_digest r) \<noteq> [] \<and> tr_digest r \<notin> keep \<and> tr_reduce_stop r) rows) in
      case se_linked env of None \<Rightarrow> [] | Some linked \<Rightarrow> filter (\<lambda>d. lower_str d \<notin> linked) cand))"

definition reconcile_venue_stops :: "stop_config \<Rightarrow> stop_env \<Rightarrow> int \<Rightarrow> string set \<Rightarrow> trigger_row list \<Rightarrow> int \<times> trigger_row list" where
  "reconcile_venue_stops c env pid keep rows = (if \<not> so_enabled c \<or> pid \<le> 0 then (0, rows)
     else (int (length (orphans env pid keep rows)), cancel_digests env pid (orphans env pid keep rows) rows))"

definition cancel_session_venue_stop :: "stop_config \<Rightarrow> stop_env \<Rightarrow> int \<Rightarrow> bool \<Rightarrow> stop_state \<Rightarrow> trigger_row list
    \<Rightarrow> bool \<times> stop_state \<times> trigger_row list" where
  "cancel_session_venue_stop c env product reconcile st rows = (if \<not> so_enabled c then (False, st, rows)
     else let pid = (case st_tracked st of None \<Rightarrow> product | Some t \<Rightarrow> if tk_product t \<noteq> 0 then tk_product t else product);
              rows = cancel_digests env pid (case st_tracked st of None \<Rightarrow> [] | Some t \<Rightarrow> tk_digests t) rows;
              rows = (if reconcile \<and> pid > 0 then snd (reconcile_venue_stops c env pid {} rows) else rows) in
       (st_tracked st \<noteq> None, st\<lparr>st_tracked := None\<rparr>, rows))"

subsection \<open>Keeping the stop on the position\<close>

definition drop_tracked :: "stop_env \<Rightarrow> int \<Rightarrow> stop_state \<Rightarrow> trigger_row list \<Rightarrow> trigger_row list" where
  "drop_tracked env pid st rows = (case st_tracked st of None \<Rightarrow> rows
     | Some t \<Rightarrow> cancel_digests env (if tk_product t \<noteq> 0 then tk_product t else pid) (tk_digests t) rows)"

definition sweep_once :: "stop_config \<Rightarrow> stop_env \<Rightarrow> int \<Rightarrow> stop_state \<Rightarrow> trigger_row list \<Rightarrow> stop_state \<times> trigger_row list" where
  "sweep_once c env pid st rows = (if st_reconciled st then (st, rows)
     else (st\<lparr>st_reconciled := True\<rparr>,
       snd (reconcile_venue_stops c env pid (case st_tracked st of None \<Rightarrow> {} | Some t \<Rightarrow> set (tk_digests t)) rows)))"

definition same_stop :: "stop_config \<Rightarrow> snapshot \<Rightarrow> dec \<Rightarrow> stop_state \<Rightarrow> bool" where
  "same_stop c s p st = (case st_tracked st of None \<Rightarrow> False
     | Some t \<Rightarrow> tk_long t = sn_long s \<and> rel_close (tk_price t) p (so_price_tol c) \<and> rel_close (tk_size t) \<bar>sn_size s\<bar> (so_size_tol c))"

definition stop_urgent :: "stop_config \<Rightarrow> snapshot \<Rightarrow> stop_state \<Rightarrow> bool" where
  "stop_urgent c s st = (case st_tracked st of None \<Rightarrow> True
     | Some t \<Rightarrow> tk_long t \<noteq> sn_long s \<or> \<bar>sn_size s\<bar> > tk_size t * (1 + so_size_tol c))"

definition deferred :: "stop_config \<Rightarrow> snapshot \<Rightarrow> time \<Rightarrow> stop_state \<Rightarrow> bool" where
  "deferred c s now st = (\<not> stop_urgent c s st \<and> (case st_tracked st of None \<Rightarrow> False | Some t \<Rightarrow> now - tk_placed t < so_min_reprice c))"

definition replace_stop :: "stop_env \<Rightarrow> snapshot \<Rightarrow> dec \<Rightarrow> time \<Rightarrow> stop_state \<Rightarrow> trigger_row list \<Rightarrow> bool \<times> stop_state \<times> trigger_row list" where
  "replace_stop env s p now st rows = (let rows = drop_tracked env (sn_product s) st rows in
     case se_place env of
       Placed d shown \<Rightarrow> (True, st\<lparr>st_tracked := Some \<lparr>tk_product = sn_product s, tk_long = sn_long s, tk_price = p, tk_size = \<bar>sn_size s\<bar>,
           tk_placed = now, tk_digests = (if shown then [d] else [])\<rparr>\<rparr>,
         rows @ [\<lparr>tr_digest = d, tr_product = sn_product s, tr_reduce_stop = True, tr_long = sn_long s, tr_price = p, tr_size = \<bar>sn_size s\<bar>\<rparr>])
     | Refused \<Rightarrow> (st_tracked st \<noteq> None, st\<lparr>st_tracked := None\<rparr>, rows))"

definition sync_session_venue_stop :: "stop_config \<Rightarrow> stop_env \<Rightarrow> snapshot \<Rightarrow> dec \<Rightarrow> time \<Rightarrow> stop_state \<Rightarrow> trigger_row list
    \<Rightarrow> bool \<times> stop_state \<times> trigger_row list" where
  "sync_session_venue_stop c env s sl now st rows = (if \<not> so_enabled c then (False, st, rows)
     else if sn_product s \<le> 0 \<or> sl \<le> 0 \<or> \<not> has_pos s
       then (st_tracked st \<noteq> None, st\<lparr>st_tracked := None\<rparr>, drop_tracked env (sn_product s) st rows)
     else case sweep_once c env (sn_product s) st rows of (st, rows) \<Rightarrow>
       (case stop_loss_price (sn_long s) (sn_entry s) (effective_leverage s) sl of
          None \<Rightarrow> (False, st, rows)
        | Some p \<Rightarrow> if same_stop c s p st \<or> deferred c s now st then (False, st, rows)
                   else replace_stop env s p now st rows))"

subsection \<open>The position is covered\<close>

definition covers :: "stop_config \<Rightarrow> snapshot \<Rightarrow> dec \<Rightarrow> time \<Rightarrow> stop_state \<Rightarrow> bool" where
  "covers c s p now st = (case st_tracked st of None \<Rightarrow> False
     | Some t \<Rightarrow> tk_long t = sn_long s \<and> \<bar>sn_size s\<bar> * (1 - so_size_tol c) \<le> tk_size t
         \<and> (rel_close (tk_price t) p (so_price_tol c) \<or> now - tk_placed t < so_min_reprice c))"

definition resting :: "stop_state \<Rightarrow> trigger_row list \<Rightarrow> bool" where
  "resting st rows = (case st_tracked st of None \<Rightarrow> True
     | Some t \<Rightarrow> list_all (\<lambda>d. list_ex (\<lambda>r. tr_digest r = d \<and> tr_product r = tk_product t \<and> tr_reduce_stop r \<and> tr_long r = tk_long t
         \<and> tr_price r = tk_price t \<and> tr_size r = tk_size t) rows) (tk_digests t))"

lemma rel_close_size: "rel_close a b tol \<Longrightarrow> b * (1 - tol) \<le> a"
proof -
  assume "rel_close a b tol"
  then have b: "0 < b" and "\<bar>a - b\<bar> / b \<le> tol" by (auto simp: rel_close_def not_le split: if_splits)
  then have "\<bar>a - b\<bar> \<le> tol * b" by (simp add: pos_divide_le_eq)
  then show ?thesis by (simp add: algebra_simps abs_le_iff)
qed

lemma rel_close_refl: "0 < a \<Longrightarrow> 0 \<le> tol \<Longrightarrow> rel_close a a tol"
  by (simp add: rel_close_def)

lemma covered_same: "same_stop c s p st \<Longrightarrow> covers c s p now st"
  by (auto simp: same_stop_def covers_def dest: rel_close_size split: option.splits)

lemma tol_bound:
  fixes x :: rat
  assumes "x \<le> t * (1 + e)" "0 \<le> e" "0 \<le> x" "e \<le> 1"
  shows "x * (1 - e) \<le> t"
proof -
  have "x * (1 - e) \<le> t * (1 + e) * (1 - e)" using assms by (intro mult_right_mono) simp_all
  also have "\<dots> = t * (1 - e * e)" by (simp add: algebra_simps)
  also have "\<dots> \<le> t"
  proof -
    have "0 \<le> t" using assms by (metis add_nonneg_nonneg dual_order.trans le_numeral_extra(1) linorder_not_le mult_neg_pos add_pos_nonneg zero_less_one)
    then show ?thesis using assms(2) by (simp add: mult_left_le)
  qed
  finally show ?thesis .
qed

lemma covered_deferred: "deferred c s now st \<Longrightarrow> 0 \<le> so_size_tol c \<Longrightarrow> so_size_tol c \<le> 1 \<Longrightarrow> covers c s p now st"
  by (auto simp: deferred_def stop_urgent_def covers_def intro: tol_bound split: option.splits)


lemma cancel_keeps: "r \<in> set rows \<Longrightarrow> tr_digest r \<notin> set ds \<Longrightarrow> r \<in> set (cancel_digests env pid ds rows)"
  by (simp add: cancel_digests_def Let_def)

lemma orphans_spare: "d \<in> set (orphans env pid keep rows) \<Longrightarrow> d \<notin> keep \<and> (\<exists>linked. se_linked env = Some linked \<and> lower_str d \<notin> linked)"
  by (cases "se_linked env") (auto simp: orphans_def Let_def split: if_splits)

lemma reconcile_keeps:
  assumes "r \<in> set rows" "tr_digest r \<in> keep \<or> (case se_linked env of None \<Rightarrow> True | Some linked \<Rightarrow> lower_str (tr_digest r) \<in> linked)"
  shows "r \<in> set (snd (reconcile_venue_stops c env pid keep rows))"
proof -
  have "tr_digest r \<notin> set (orphans env pid keep rows)" using orphans_spare assms(2) by (fastforce split: option.splits)
  with assms(1) show ?thesis by (simp add: reconcile_venue_stops_def cancel_keeps)
qed

lemma resting_sweep: "resting st rows \<Longrightarrow> sweep_once c env pid st rows = (st', rows') \<Longrightarrow> resting st' rows' \<and> st_tracked st' = st_tracked st"
proof -
  assume r: "resting st rows" and s: "sweep_once c env pid st rows = (st', rows')"
  show ?thesis
  proof (cases "st_reconciled st")
    case True
    then show ?thesis using r s by (simp add: sweep_once_def)
  next
    case False
    then have st: "st_tracked st' = st_tracked st"
      and rows: "rows' = snd (reconcile_venue_stops c env pid (case st_tracked st of None \<Rightarrow> {} | Some t \<Rightarrow> set (tk_digests t)) rows)"
      using s by (auto simp: sweep_once_def)
    have "resting st' rows'"
    proof (cases "st_tracked st")
      case (Some t)
      show ?thesis using r unfolding rows
        by (fastforce simp: resting_def st Some list_all_iff list_ex_iff intro: reconcile_keeps)
    qed (simp add: resting_def st)
    with st show ?thesis by blast
  qed
qed

lemma resting_replace: "resting (fst (snd (replace_stop env s p now st rows))) (snd (snd (replace_stop env s p now st rows)))"
  by (simp add: replace_stop_def resting_def Let_def split: placing.split)

lemma sync_cases:
  assumes on: "so_enabled c" and pos: "0 < sn_product s" "0 < sl" "has_pos s"
    and p: "stop_loss_price (sn_long s) (sn_entry s) (effective_leverage s) sl = Some p"
  obtains (kept) st1 rows1 where "sync_session_venue_stop c env s sl now st rows = (False, st1, rows1)"
      "resting st rows \<Longrightarrow> resting st1 rows1"
      "same_stop c s p st1 \<or> deferred c s now st1"
  | (replaced) st1 rows1 where "sync_session_venue_stop c env s sl now st rows = replace_stop env s p now st1 rows1"
proof -
  obtain st1 rows1 where sw: "sweep_once c env (sn_product s) st rows = (st1, rows1)" by force
  have sync: "sync_session_venue_stop c env s sl now st rows =
    (if same_stop c s p st1 \<or> deferred c s now st1 then (False, st1, rows1) else replace_stop env s p now st1 rows1)"
    using on pos p by (simp add: sync_session_venue_stop_def sw)
  then show thesis using kept [of st1 rows1] replaced resting_sweep [OF _ sw] by (auto split: if_splits)
qed

text \<open>
  Claim C37: what one pass of the rail leaves when it finds a position and can price its stop. Either a
  stop is tracked on the position's side that covers its size up to the tolerance, at the session
  stop's price up to the tolerance or younger than the repricing interval; or nothing is tracked,
  because the venue refused the new stop, and the next pass places again. The tracked stop rests at the
  venue, reduce-only and as it is tracked, if this pass placed it, or if it rested before the pass:
  a pass that keeps the tracked stop does not ask the venue whether it still rests.
\<close>

theorem venue_stop_covers:
  assumes on: "so_enabled c" "0 \<le> so_size_tol c" "so_size_tol c \<le> 1" "0 \<le> so_price_tol c"
    and pos: "0 < sn_product s" "0 < sl" "has_pos s"
    and p: "stop_loss_price (sn_long s) (sn_entry s) (effective_leverage s) sl = Some p"
  shows "case sync_session_venue_stop c env s sl now st rows of (changed, st', rows') \<Rightarrow>
      (if st_tracked st' = None then se_place env = Refused else covers c s p now st')
      \<and> (changed \<or> resting st rows \<longrightarrow> resting st' rows')"
proof (cases rule: sync_cases [OF on(1) pos p, of env now st rows])
  case (1 st1 rows1)
  then have "covers c s p now st1" using covered_same covered_deferred on by blast
  with 1 show ?thesis by (auto simp: covers_def split: option.splits)
next
  case (2 st1 rows1)
  have pr: "0 < p" using p by (auto simp: stop_loss_price_def Let_def split: if_splits)
  have "if st_tracked (fst (snd (replace_stop env s p now st1 rows1))) = None then se_place env = Refused
      else covers c s p now (fst (snd (replace_stop env s p now st1 rows1)))"
    using on pr by (simp add: replace_stop_def covers_def rel_close_refl mult_left_le Let_def split: placing.split)
  with 2 resting_replace [of env s p now st1 rows1] show ?thesis by (simp add: split_def)
qed

text \<open>A long of 0.5 at 100 on 10 dollars of margin grows to 0.6: the stop is replaced at once, at 98 for a stop of 10 percent of margin.\<close>

definition demo_snap :: snapshot where
  "demo_snap = \<lparr>sn_product = 2, sn_has = True, sn_size = 6 / 10, sn_long = True, sn_entry = 100, sn_margin = 12, sn_value = 60, sn_leverage = 0\<rparr>"

definition demo_stop :: tracked_stop where
  "demo_stop = \<lparr>tk_product = 2, tk_long = True, tk_price = 98, tk_size = 1 / 2, tk_placed = 0, tk_digests = [''a'']\<rparr>"

definition demo_env :: stop_env where
  "demo_env = \<lparr>se_cancel = True, se_list = True, se_linked = Some {}, se_place = Placed ''b'' True\<rparr>"

definition demo_row :: trigger_row where
  "demo_row = \<lparr>tr_digest = ''a'', tr_product = 2, tr_reduce_stop = True, tr_long = True, tr_price = 98, tr_size = 1 / 2\<rparr>"

lemma venue_stop_covers_witness:
  "case sync_session_venue_stop (stop_defaults\<lparr>so_enabled := True\<rparr>) demo_env demo_snap 10 1 \<lparr>st_tracked = Some demo_stop, st_reconciled = True\<rparr> [demo_row]
   of (changed, st', rows') \<Rightarrow> changed \<and> covers (stop_defaults\<lparr>so_enabled := True\<rparr>) demo_snap 98 1 st' \<and> resting st' rows'"
proof -
  let ?c = "stop_defaults\<lparr>so_enabled := True\<rparr>" and ?st = "\<lparr>st_tracked = Some demo_stop, st_reconciled = True\<rparr>"
  have p: "stop_loss_price (sn_long demo_snap) (sn_entry demo_snap) (effective_leverage demo_snap) 10 = Some 98"
    by (simp add: demo_snap_def stop_loss_price_def effective_leverage_def Let_def)
  have done1: "fst (sync_session_venue_stop ?c demo_env demo_snap 10 1 ?st [demo_row])" by code_simp
  have "se_place demo_env \<noteq> Refused" by (simp add: demo_env_def)
  then show ?thesis
    using venue_stop_covers [OF _ _ _ _ _ _ _ p, of ?c demo_env 1 ?st "[demo_row]"] done1
    by (auto simp: stop_defaults_def demo_snap_def has_pos_def split: if_splits)
qed

text \<open>
  A finding: a stop that is gone stays tracked. While the tracked stop is the one wanted, no pass writes
  anything or looks at the venue, so when it was cancelled or has expired there, the position has no
  stop at all for as long as its size and entry stay within the tolerances.
\<close>

lemma vanished_stop_stays_tracked:
  assumes "so_enabled c" "0 < sn_product s" "0 < sl" "has_pos s" "st_reconciled st"
    and "stop_loss_price (sn_long s) (sn_entry s) (effective_leverage s) sl = Some p" "same_stop c s p st"
  shows "sync_session_venue_stop c env s sl now st [] = (False, st, []) \<and> covers c s p now st \<and> st_tracked st \<noteq> None"
  using assms covered_same [OF assms(7), of now]
  by (auto simp: sync_session_venue_stop_def sweep_once_def covers_def split: option.splits)

text \<open>The engine's own stops, linked in the registry, survive every sweep.\<close>

lemma sweep_spares_engine:
  assumes "r \<in> set rows" "se_linked env = Some linked" "lower_str (tr_digest r) \<in> linked"
  shows "r \<in> set (snd (sweep_once c env pid st rows))"
  using assms by (simp add: sweep_once_def reconcile_keeps)

text \<open>
  A position smaller than the margin has an effective leverage below one, and then no price: nothing is
  placed, and a stop from a larger position stays where it was.
\<close>

lemma below_margin_uncovered:
  assumes "so_enabled c" "0 < sn_product s" "0 < sl" "has_pos s" "effective_leverage s < 1"
  shows "sync_session_venue_stop c env s sl now st rows = (case sweep_once c env (sn_product s) st rows of (st, rows) \<Rightarrow> (False, st, rows))"
  using assms by (simp add: sync_session_venue_stop_def stop_loss_price_def)

end
