(* ===== verification/Fill_Ledger.thy ===== *)
theory Fill_Ledger
  imports Quote_Plans
begin

text \<open>
  Accounting over fills and positions, from \<open>quant/portfolio_calculator.py\<close>: what a fill row says,
  realized PnL replayed over a complete ledger and cut into time windows, the pairing of fills into
  round trips, unrealized PnL, and the equity of an account.

  A row's numbers are already read: an \<open>amount\<close> remembers whether its text was an integer, which
  decides between a plain number and X18 fixed point. A key that is missing or \<open>None\<close> is \<open>None\<close>.
  Parsed times are seconds since the epoch.
\<close>

subsection \<open>Fill rows\<close>

datatype amount = A_Empty | A_Int int | A_Dec dec

definition X18 :: dec where "X18 = 10 ^ 18"

definition from_x18 :: "int \<Rightarrow> dec" where
  "from_x18 i = of_int i / X18"

definition to_x18 :: "dec \<Rightarrow> int" where
  "to_x18 d = trunc_dec (d * X18)"

definition amount_value :: "amount \<Rightarrow> dec" where
  "amount_value a = (case a of A_Empty \<Rightarrow> 0 | A_Int i \<Rightarrow> of_int i | A_Dec d \<Rightarrow> d)"

definition possible_x18 :: "int option \<Rightarrow> amount option \<Rightarrow> dec" where
  "possible_x18 x18 human = (case x18 of Some i \<Rightarrow> from_x18 i
     | None \<Rightarrow> (case human of None \<Rightarrow> 0 | Some A_Empty \<Rightarrow> 0 | Some (A_Dec d) \<Rightarrow> d
         | Some (A_Int i) \<Rightarrow> if \<bar>i\<bar> \<ge> 1000000000 then from_x18 i else of_int i))"

text \<open>The value of the first key that is there.\<close>

fun pick :: "'a option list \<Rightarrow> 'a option" where
  "pick [] = None"
| "pick (x # xs) = (if x = None then pick xs else x)"

definition picked :: "amount option list \<Rightarrow> dec" where
  "picked xs = (case pick xs of None \<Rightarrow> 0 | Some a \<Rightarrow> amount_value a)"

record fill_row =
  fr_base_x18 :: "int option"
  fr_fill_size :: "amount option"
  fr_size :: "amount option"
  fr_side :: string
  fr_quote_x18 :: "int option"
  fr_quote :: "amount option"
  fr_fee_x18 :: "int option"
  fr_fill_fee :: "amount option"
  fr_fees :: "amount option"
  fr_builder_fee :: "amount option"
  fr_fill_price :: "amount option"
  fr_price :: "amount option"
  fr_product :: "int option"
  fr_isolated :: bool
  fr_time :: "time option"

record leg =
  lg_key :: "int \<times> bool"
  lg_qty :: dec
  lg_price :: dec
  lg_fee :: dec
  lg_ts :: "time option"

definition fill_fee :: "fill_row \<Rightarrow> dec" where
  "fill_fee r = (case fr_fee_x18 r of Some i \<Rightarrow> \<bar>from_x18 i\<bar>
     | None \<Rightarrow> \<bar>picked [fr_fill_fee r, fr_fees r]\<bar> + \<bar>picked [fr_builder_fee r]\<bar>)"

definition fill_base :: "fill_row \<Rightarrow> dec" where
  "fill_base r = (let b = \<bar>possible_x18 (fr_base_x18 r) (fr_fill_size r)\<bar> in
     if b \<le> 0 then \<bar>picked [fr_fill_size r, fr_size r]\<bar> else b)"

definition fill_quote :: "bool \<Rightarrow> bool \<Rightarrow> fill_row \<Rightarrow> dec" where
  "fill_quote gross is_buy r = (let q = \<bar>possible_x18 (fr_quote_x18 r) (fr_quote r)\<bar> in
     case (fr_quote_x18 r, fr_fee_x18 r) of
       (Some _, Some f) \<Rightarrow> if gross \<and> q > 0
         then let g = (if is_buy then q - from_x18 f else q + from_x18 f) in if g > 0 then g else q
         else q
     | _ \<Rightarrow> q)"

definition is_buy_side :: "string \<Rightarrow> bool" where
  "is_buy_side s \<longleftrightarrow> lower_str s = ''long'' \<or> lower_str s = ''buy''"

definition is_sell_side :: "string \<Rightarrow> bool" where
  "is_sell_side s \<longleftrightarrow> lower_str s = ''short'' \<or> lower_str s = ''sell''"

definition fill_leg :: "bool \<Rightarrow> fill_row \<Rightarrow> leg option" where
  "fill_leg gross r = (let base = fill_base r in
     if base \<le> 0 \<or> \<not> is_buy_side (fr_side r) \<and> \<not> is_sell_side (fr_side r) then None
     else let is_buy = is_buy_side (fr_side r); quote = fill_quote gross is_buy r;
              price = (if quote > 0 then quote / base else picked [fr_fill_price r, fr_price r]) in
       if price \<le> 0 then None
       else Some \<lparr>lg_key = (case fr_product r of None \<Rightarrow> 0 | Some p \<Rightarrow> p, fr_isolated r),
         lg_qty = (if is_buy then base else - base), lg_price = price, lg_fee = fill_fee r, lg_ts = fr_time r\<rparr>)"

definition leg_time :: "leg \<Rightarrow> time" where
  "leg_time l = (case lg_ts l of None \<Rightarrow> 0 | Some t \<Rightarrow> t)"

definition ledger_legs :: "bool \<Rightarrow> fill_row list \<Rightarrow> leg list" where
  "ledger_legs gross rows = sort_key leg_time (List.map_filter (fill_leg gross) rows)"

subsection \<open>Realized PnL in windows\<close>

definition window_limits :: "(string \<times> dec) list" where
  "window_limits = [(''24h'', 24 * 3600), (''7d'', 7 * 24 * 3600), (''30d'', 30 * 24 * 3600)]"

definition windows_for :: "time \<Rightarrow> time option \<Rightarrow> string list" where
  "windows_for now ts = ''all'' # (case ts of None \<Rightarrow> []
     | Some t \<Rightarrow> let age = of_int (max 0 (trunc_dec (now - t))) in map fst (filter (\<lambda>(k, limit). age \<le> limit) window_limits))"

definition bump :: "string list \<Rightarrow> 'a :: plus \<Rightarrow> (string \<Rightarrow> 'a) \<Rightarrow> string \<Rightarrow> 'a" where
  "bump ws x f = (\<lambda>w. if w \<in> set ws then f w + x else f w)"

record ledger =
  lb_state :: "((int \<times> bool) \<times> dec \<times> dec) list"
  lb_cycle :: "((int \<times> bool) \<times> dec) list"
  lb_pnl :: "string \<Rightarrow> dec"
  lb_wins :: "string \<Rightarrow> int"
  lb_losses :: "string \<Rightarrow> int"
  lb_win_pnl :: "string \<Rightarrow> dec"
  lb_loss_pnl :: "string \<Rightarrow> dec"

definition empty_ledger :: ledger where
  "empty_ledger = \<lparr>lb_state = [], lb_cycle = [], lb_pnl = (\<lambda>_. 0), lb_wins = (\<lambda>_. 0), lb_losses = (\<lambda>_. 0),
     lb_win_pnl = (\<lambda>_. 0), lb_loss_pnl = (\<lambda>_. 0)\<rparr>"

definition at_key :: "('k \<times> 'v) list \<Rightarrow> 'k \<Rightarrow> 'v \<Rightarrow> 'v" where
  "at_key d k v = (case map_of d k of None \<Rightarrow> v | Some w \<Rightarrow> w)"

text \<open>
  One fill against a signed position and its average entry: the position it leaves, what it
  realizes, and whether it ends a round trip.
\<close>

definition fill_position :: "dec \<times> dec \<Rightarrow> dec \<Rightarrow> dec \<Rightarrow> (dec \<times> dec) \<times> dec \<times> bool" where
  "fill_position s q price = (case s of (pos, entry) \<Rightarrow>
     if pos = 0 \<or> (pos > 0) = (q > 0)
     then ((pos + q, (entry * \<bar>pos\<bar> + price * \<bar>q\<bar>) / (\<bar>pos\<bar> + \<bar>q\<bar>)), 0, False)
     else let closing = min \<bar>pos\<bar> \<bar>q\<bar>;
              realized = (if pos > 0 then (price - entry) * closing else (entry - price) * closing) in
       if \<bar>q\<bar> < \<bar>pos\<bar> then ((pos + q, entry), realized, pos + q = 0)
       else if \<bar>q\<bar> = \<bar>pos\<bar> then ((0, 0), realized, True)
       else let remaining = \<bar>q\<bar> - \<bar>pos\<bar> in ((if q > 0 then remaining else - remaining, price), realized, True))"

definition finalize_cycle :: "time \<Rightarrow> int \<times> bool \<Rightarrow> time option \<Rightarrow> ledger \<Rightarrow> ledger" where
  "finalize_cycle now k ts b = (let c = at_key (lb_cycle b) k 0; b = b\<lparr>lb_cycle := od_set k 0 (lb_cycle b)\<rparr>; ws = windows_for now ts in
     if c = 0 then b
     else if c > 0 then b\<lparr>lb_wins := bump ws 1 (lb_wins b), lb_win_pnl := bump ws c (lb_win_pnl b)\<rparr>
     else b\<lparr>lb_losses := bump ws 1 (lb_losses b), lb_loss_pnl := bump ws c (lb_loss_pnl b)\<rparr>)"

definition apply_leg :: "time \<Rightarrow> ledger \<Rightarrow> leg \<Rightarrow> ledger" where
  "apply_leg now b l = (let k = lg_key l in case fill_position (at_key (lb_state b) k (0, 0)) (lg_qty l) (lg_price l) of
     (s, realized, ended) \<Rightarrow>
       let b = b\<lparr>lb_state := od_set k s (lb_state b)\<rparr>;
           b = (if realized \<noteq> 0 then b\<lparr>lb_cycle := od_set k (at_key (lb_cycle b) k 0 + realized) (lb_cycle b),
                  lb_pnl := bump (windows_for now (lg_ts l)) realized (lb_pnl b)\<rparr> else b) in
       if ended then finalize_cycle now k (lg_ts l) b else b)"

definition realized_pnl_windows :: "time \<Rightarrow> bool \<Rightarrow> fill_row list \<Rightarrow> ledger" where
  "realized_pnl_windows now gross rows = foldl (apply_leg now) empty_ledger (ledger_legs gross rows)"

definition win_rate :: "int \<Rightarrow> int \<Rightarrow> dec" where
  "win_rate wins losses = (if wins + losses \<noteq> 0 then of_int wins / of_int (wins + losses) * 100 else 0)"

subsection \<open>Pairing fills into round trips\<close>

record open_leg =
  ol_pid :: int
  ol_long :: bool
  ol_pos :: dec
  ol_entry_base :: dec
  ol_entry_cost :: dec
  ol_exit_base :: dec
  ol_exit_proceeds :: dec
  ol_realized :: dec
  ol_fees :: dec
  ol_opened :: "time option"
  ol_closed :: "time option"

record paired_trade =
  pt_pid :: int
  pt_long :: bool
  pt_size :: dec
  pt_entry :: dec
  pt_exit :: "dec option"
  pt_realized :: dec
  pt_fees :: dec
  pt_opened :: "time option"
  pt_closed_at :: "time option"
  pt_closed :: bool

definition mk_open_leg :: "int \<Rightarrow> dec \<Rightarrow> dec \<Rightarrow> dec \<Rightarrow> time option \<Rightarrow> open_leg" where
  "mk_open_leg pid q price fee ts = \<lparr>ol_pid = pid, ol_long = (q > 0), ol_pos = q, ol_entry_base = \<bar>q\<bar>, ol_entry_cost = \<bar>q\<bar> * price,
     ol_exit_base = 0, ol_exit_proceeds = 0, ol_realized = 0, ol_fees = fee, ol_opened = ts, ol_closed = ts\<rparr>"

definition entry_avg :: "open_leg \<Rightarrow> dec" where
  "entry_avg g = (if ol_entry_base g > 0 then ol_entry_cost g / ol_entry_base g else 0)"

definition exit_avg :: "open_leg \<Rightarrow> dec option" where
  "exit_avg g = (if ol_exit_base g > 0 then Some (ol_exit_proceeds g / ol_exit_base g) else None)"

definition leg_trade :: "bool \<Rightarrow> open_leg \<Rightarrow> paired_trade" where
  "leg_trade fin g = \<lparr>pt_pid = ol_pid g, pt_long = ol_long g, pt_size = (if fin then ol_exit_base g else \<bar>ol_pos g\<bar>),
     pt_entry = entry_avg g, pt_exit = exit_avg g, pt_realized = ol_realized g, pt_fees = ol_fees g,
     pt_opened = ol_opened g, pt_closed_at = ol_closed g, pt_closed = fin\<rparr>"

definition net_pnl :: "paired_trade \<Rightarrow> dec" where
  "net_pnl t = pt_realized t - pt_fees t"

definition add_entry :: "dec \<Rightarrow> dec \<Rightarrow> open_leg \<Rightarrow> open_leg" where
  "add_entry q price g = g\<lparr>ol_entry_base := ol_entry_base g + \<bar>q\<bar>, ol_entry_cost := ol_entry_cost g + \<bar>q\<bar> * price, ol_pos := ol_pos g + q\<rparr>"

definition add_exit :: "dec \<Rightarrow> dec \<Rightarrow> open_leg \<Rightarrow> open_leg" where
  "add_exit q price g = (let closing = min \<bar>ol_pos g\<bar> \<bar>q\<bar>; avg = entry_avg g in
     g\<lparr>ol_realized := ol_realized g + (if ol_pos g > 0 then (price - avg) * closing else (avg - price) * closing),
       ol_exit_base := ol_exit_base g + closing, ol_exit_proceeds := ol_exit_proceeds g + closing * price\<rparr>)"

definition pair_leg :: "(int \<times> open_leg) list \<times> paired_trade list \<Rightarrow> leg \<Rightarrow> (int \<times> open_leg) list \<times> paired_trade list" where
  "pair_leg st l = (case st of (legs, done) \<Rightarrow> let pid = fst (lg_key l); q = lg_qty l; price = lg_price l in
     case map_of legs pid of
       None \<Rightarrow> (od_set pid (mk_open_leg pid q price (lg_fee l) (lg_ts l)) legs, done)
     | Some g0 \<Rightarrow> let g = g0\<lparr>ol_fees := ol_fees g0 + lg_fee l, ol_closed := lg_ts l\<rparr> in
         if (ol_pos g > 0) = (q > 0) then (od_set pid (add_entry q price g) legs, done)
         else let h = add_exit q price g in
           if \<bar>q\<bar> < \<bar>ol_pos g\<bar> then (od_set pid (h\<lparr>ol_pos := ol_pos h + q\<rparr>) legs, done)
           else if \<bar>q\<bar> = \<bar>ol_pos g\<bar> then (od_pop pid legs, done @ [leg_trade True h])
           else let remaining = \<bar>q\<bar> - \<bar>ol_pos g\<bar>; q' = (if q > 0 then remaining else - remaining) in
             (od_set pid (mk_open_leg pid q' price 0 (lg_ts l)) legs, done @ [leg_trade True h]))"

definition pair_fills_into_trades :: "fill_row list \<Rightarrow> paired_trade list" where
  "pair_fills_into_trades rows = (case foldl pair_leg ([], []) (ledger_legs False rows) of
     (legs, done) \<Rightarrow> done @ map (leg_trade False \<circ> snd) legs)"

subsection \<open>Positions and equity\<close>

record position_row =
  pr_amount_x18 :: "int option"
  pr_signed_amount :: raw
  pr_size_signed :: raw
  pr_amount :: raw
  pr_size :: raw
  pr_position_size :: raw
  pr_side :: string
  pr_est_pnl :: raw
  pr_unrealized :: raw
  pr_unrealized_usd :: raw
  pr_unsettled :: raw
  pr_notional :: raw
  pr_value :: raw
  pr_mark_price :: raw
  pr_mark :: raw
  pr_v_quote_balance :: raw
  pr_v_quote :: raw
  pr_avg_entry :: raw
  pr_entry :: raw
  pr_margin_used :: raw
  pr_net_margin :: raw
  pr_leverage :: raw
  pr_est_liq :: raw
  pr_liquidation :: raw
  pr_product :: "int option"
  pr_symbol :: "string option"
  pr_product_name :: "string option"
  pr_initial_health :: raw
  pr_maintenance_health :: raw

definition position_amount :: "position_row \<Rightarrow> dec" where
  "position_amount r = (case pr_amount_x18 r of Some i \<Rightarrow> from_x18 i
     | None \<Rightarrow> num 0 (pick [pr_position_size r, pr_amount r, pr_signed_amount r]))"

definition signed_position_size :: "position_row \<Rightarrow> dec" where
  "signed_position_size r = (let explicit = or_dec (pick [pr_signed_amount r, pr_size_signed r]) 0 in
     if explicit \<noteq> 0 then explicit
     else let size = \<bar>num 0 (pick [pr_amount r, pr_size r, pr_position_size r])\<bar>; side = lower_str (strip_str (pr_side r)) in
       if is_sell_side side then - size else if is_buy_side side then size
       else num 0 (pick [pr_position_size r, pr_amount r, pr_size r]))"

definition UPNL_RECONCILE_FRACTION :: dec where "UPNL_RECONCILE_FRACTION = 1 / 10"
definition UPNL_RECONCILE_FLOOR :: dec where "UPNL_RECONCILE_FLOOR = 10"

definition reconcile_band :: "raw \<Rightarrow> dec" where
  "reconcile_band notional = (case notional of None \<Rightarrow> UPNL_RECONCILE_FLOOR
     | Some n \<Rightarrow> max UPNL_RECONCILE_FLOOR (\<bar>n\<bar> * UPNL_RECONCILE_FRACTION))"

definition reconcile_unrealized_pnl :: "raw \<Rightarrow> raw \<Rightarrow> raw \<Rightarrow> raw" where
  "reconcile_unrealized_pnl est unsettled notional = (case unsettled of None \<Rightarrow> est
     | Some u \<Rightarrow> (case est of None \<Rightarrow> Some u
         | Some e \<Rightarrow> if \<bar>e - u\<bar> > reconcile_band notional then Some u else Some e))"

definition implied_mark :: "position_row \<Rightarrow> raw \<Rightarrow> raw" where
  "implied_mark r mark = (let signed = signed_position_size r in case pick [mark, pr_mark_price r, pr_mark r] of
     Some m \<Rightarrow> Some m
   | None \<Rightarrow> (case pick [pr_notional r, pr_value r] of Some n \<Rightarrow> if signed \<noteq> 0 then Some (\<bar>n\<bar> / \<bar>signed\<bar>) else None | None \<Rightarrow> None))"

definition derive_unrealized_pnl :: "position_row \<Rightarrow> raw \<Rightarrow> raw" where
  "derive_unrealized_pnl r mark = (case pick [pr_est_pnl r, pr_unrealized r, pr_unrealized_usd r] of
     Some e \<Rightarrow> reconcile_unrealized_pnl (Some e) (pr_unsettled r) (pick [pr_notional r, pr_value r])
   | None \<Rightarrow> (case pr_unsettled r of Some u \<Rightarrow> Some u
     | None \<Rightarrow> let signed = signed_position_size r in
         if signed = 0 then Some 0
         else case implied_mark r mark of None \<Rightarrow> None
         | Some m \<Rightarrow> if m \<le> 0 then None
            else case pick [pr_v_quote_balance r, pr_v_quote r] of Some v \<Rightarrow> Some (signed * m + v)
            | None \<Rightarrow> (case pick [pr_avg_entry r, pr_entry r] of
                Some e \<Rightarrow> if e > 0 then Some ((m - e) * signed) else None
              | None \<Rightarrow> None)))"

definition unrealized_pnl_pct :: "raw \<Rightarrow> raw \<Rightarrow> dec \<Rightarrow> raw \<Rightarrow> bool \<Rightarrow> raw" where
  "unrealized_pnl_pct est margin notional leverage isolated = (case est of None \<Rightarrow> None
     | Some e \<Rightarrow> let denominator = (if isolated then margin
         else if or_dec leverage 0 \<noteq> 0 then Some (notional / or_dec leverage 0)
         else if or_dec margin 0 \<noteq> 0 then margin else None) in
       case denominator of None \<Rightarrow> None | Some d \<Rightarrow> if d = 0 then None else Some (e / d * 100))"

record portfolio_position =
  pp_product :: int
  pp_symbol :: string
  pp_isolated :: bool
  pp_is_long :: bool
  pp_amount :: dec
  pp_notional :: dec
  pp_avg_entry :: raw
  pp_liq :: raw
  pp_est_pnl :: raw
  pp_margin_used :: raw
  pp_leverage :: raw
  pp_initial_health :: raw
  pp_maintenance_health :: raw
  pp_upnl_pct :: raw

definition normalize_position :: "bool \<Rightarrow> position_row \<Rightarrow> portfolio_position" where
  "normalize_position isolated r = (let amount = position_amount r; notional = num 0 (pick [pr_notional r, pr_value r]);
     est = reconcile_unrealized_pnl (pick [pr_est_pnl r, pr_unrealized r]) (pr_unsettled r) (pick [pr_notional r, pr_value r]);
     margin = pick [pr_margin_used r, pr_net_margin r] in
   \<lparr>pp_product = (case pr_product r of None \<Rightarrow> 0 | Some p \<Rightarrow> p),
    pp_symbol = (case pick [pr_symbol r, pr_product_name r] of None \<Rightarrow> [] | Some s \<Rightarrow> s),
    pp_isolated = isolated, pp_is_long = (amount \<ge> 0), pp_amount = amount, pp_notional = notional,
    pp_avg_entry = pick [pr_avg_entry r, pr_entry r], pp_liq = pick [pr_est_liq r, pr_liquidation r], pp_est_pnl = est,
    pp_margin_used = margin, pp_leverage = pr_leverage r, pp_initial_health = pr_initial_health r,
    pp_maintenance_health = pr_maintenance_health r,
    pp_upnl_pct = unrealized_pnl_pct est margin notional (pr_leverage r) isolated\<rparr>)"

definition positions_from_account_summary :: "position_row list \<Rightarrow> position_row list \<Rightarrow> portfolio_position list" where
  "positions_from_account_summary cross isolated = map (normalize_position False) cross @ map (normalize_position True) isolated"

definition fill_price :: "dec \<Rightarrow> dec \<Rightarrow> dec \<Rightarrow> dec" where
  "fill_price base quote fee = (if base = 0 then 0 else \<bar>quote + fee\<bar> / \<bar>base\<bar>)"

definition funding_payment_label :: "dec \<Rightarrow> dec \<times> string" where
  "funding_payment_label amount = (\<bar>amount\<bar>, if amount > 0 then ''paid'' else ''received'')"

definition funding_rate_conversions :: "dec \<Rightarrow> dec odict" where
  "funding_rate_conversions daily = [(''1h'', daily / 24), (''8h'', daily / 3), (''1y'', daily * 365)]"

definition account_leverage :: "dec list \<Rightarrow> dec \<Rightarrow> dec" where
  "account_leverage notionals health = (if health = 0 then 0 else sum_list (map abs notionals) / health)"

definition clamp_margin_usage :: "dec \<Rightarrow> dec" where
  "clamp_margin_usage x = (if x < 0 then 0 else if x > 1 then 1 else x)"

text \<open>
  The account summary: the equity keys in the order they are tried, the spot totals, the health, and the net margins
  of the isolated positions; \<open>balances\<close> are the raw spot balances by product.
\<close>

record account_summary =
  as_equities :: "raw list"
  as_spot_deposits :: raw
  as_spot_borrows :: raw
  as_unweighted_health :: raw
  as_isolated_margins :: "raw list"

record equity =
  eq_total :: dec
  eq_spot :: dec
  eq_cross :: dec
  eq_isolated :: dec

definition USD_QUOTE_PRODUCT_ID :: int where "USD_QUOTE_PRODUCT_ID = 0"

definition spot_collateral :: "account_summary \<Rightarrow> (int \<times> raw) list \<Rightarrow> dec" where
  "spot_collateral s balances = (case as_spot_deposits s of Some d \<Rightarrow> d - \<bar>or_dec (as_spot_borrows s) 0\<bar>
     | None \<Rightarrow> sum_list (map (\<lambda>(k, v). if k \<noteq> USD_QUOTE_PRODUCT_ID then 0 else num 0 v) balances))"

definition compute_total_equity :: "account_summary \<Rightarrow> (int \<times> raw) list \<Rightarrow> equity" where
  "compute_total_equity s balances = (let spot = spot_collateral s balances;
     isolated = sum_list (map (num 0) (as_isolated_margins s));
     total = (case pick (as_equities s) of Some t \<Rightarrow> t
       | None \<Rightarrow> (case as_unweighted_health s of Some u \<Rightarrow> u | None \<Rightarrow> spot) + isolated) in
   \<lparr>eq_total = total, eq_spot = spot, eq_cross = total - spot - isolated, eq_isolated = isolated\<rparr>)"

subsection \<open>Trading statistics\<close>

record stat_fill =
  sf_quote_x18 :: "int option"
  sf_quote :: "amount option"
  sf_fee_x18 :: "int option"
  sf_fee :: "amount option"
  sf_pnl_x18 :: "int option"
  sf_pnl :: "amount option"
  sf_key :: "string option"
  sf_time :: "time option"

record funding_row =
  fp_amount_x18 :: "int option"
  fp_amount :: "amount option"
  fp_time :: "time option"

definition funding_payment_amount :: "funding_row \<Rightarrow> dec" where
  "funding_payment_amount p = possible_x18 (fp_amount_x18 p) (fp_amount p)"

text \<open>The keys under which an order may be identified, in order; the first non-empty one counts.\<close>

fun trade_key :: "(string \<times> string option) list \<Rightarrow> string option" where
  "trade_key [] = None"
| "trade_key ((k, v) # ks) = (case v of None \<Rightarrow> trade_key ks | Some x \<Rightarrow> if x = [] then trade_key ks else Some (k @ '':'' @ x))"

definition stat_windows :: "time \<Rightarrow> time option \<Rightarrow> string list" where
  "stat_windows now ts = ''all'' # (case ts of None \<Rightarrow> []
     | Some t \<Rightarrow> map fst (filter (\<lambda>(k, limit). max 0 (now - t) \<le> limit) window_limits))"

record trading_stats =
  ts_volume :: "string \<Rightarrow> dec"
  ts_fees :: "string \<Rightarrow> dec"
  ts_pnl :: "string \<Rightarrow> dec"
  ts_funding :: "string \<Rightarrow> dec"
  ts_wins :: int
  ts_losses :: int
  ts_trades :: nat

definition window_sum :: "time \<Rightarrow> ('r \<Rightarrow> time option) \<Rightarrow> ('r \<Rightarrow> dec) \<Rightarrow> 'r list \<Rightarrow> string \<Rightarrow> dec" where
  "window_sum now tm f rows = foldl (\<lambda>acc r. bump (stat_windows now (tm r)) (f r) acc) (\<lambda>_. 0) rows"

definition aggregate_trading_stats :: "time \<Rightarrow> stat_fill list \<Rightarrow> funding_row list \<Rightarrow> trading_stats" where
  "aggregate_trading_stats now fills payments = (let pnl = (\<lambda>f. possible_x18 (sf_pnl_x18 f) (sf_pnl f)) in
     \<lparr>ts_volume = window_sum now sf_time (\<lambda>f. \<bar>possible_x18 (sf_quote_x18 f) (sf_quote f)\<bar>) fills,
      ts_fees = window_sum now sf_time (\<lambda>f. \<bar>possible_x18 (sf_fee_x18 f) (sf_fee f)\<bar>) fills,
      ts_pnl = window_sum now sf_time pnl fills,
      ts_funding = window_sum now fp_time funding_payment_amount payments,
      ts_wins = int (length (filter (\<lambda>f. pnl f > 0) fills)), ts_losses = int (length (filter (\<lambda>f. pnl f < 0) fills)),
      ts_trades = length (remdups (List.map_filter sf_key fills)) + length (filter (\<lambda>f. sf_key f = None) fills)\<rparr>)"

subsection \<open>Laws of the ledger\<close>

lemma at_key_set [simp]: "at_key (od_set k v d) k' w = (if k' = k then v else at_key d k' w)"
  by (simp add: at_key_def)

lemma sum_od_set:
  fixes f :: "'k \<times> 'v \<Rightarrow> dec"
  assumes "\<And>k. f (k, w) = 0"
  shows "sum_list (map f (od_set k v d)) = sum_list (map f d) - f (k, at_key d k w) + f (k, v)"
proof (induction d)
  case (Cons x d)
  then show ?case by (cases x) (simp add: at_key_def)
qed (simp add: at_key_def assms)

lemma fill_leg_sound: "fill_leg gross r = Some l \<Longrightarrow> lg_qty l \<noteq> 0 \<and> 0 < lg_price l"
  by (auto simp: fill_leg_def Let_def split: if_splits)

lemma ledger_legs_sound: "l \<in> set (ledger_legs gross rows) \<Longrightarrow> lg_qty l \<noteq> 0 \<and> 0 < lg_price l"
proof -
  assume "l \<in> set (ledger_legs gross rows)"
  then obtain r where "fill_leg gross r = Some l" by (auto simp: ledger_legs_def map_filter_def)
  then show ?thesis by (rule fill_leg_sound)
qed

lemma windows_all [simp]: "''all'' \<in> set (windows_for now ts)"
  by (simp add: windows_for_def)

lemma windows_nested:
  "''24h'' \<in> set (windows_for now ts) \<Longrightarrow> ''7d'' \<in> set (windows_for now ts)"
  "''7d'' \<in> set (windows_for now ts) \<Longrightarrow> ''30d'' \<in> set (windows_for now ts)"
  by (cases ts; simp add: windows_for_def window_limits_def Let_def split: if_splits)+

text \<open>A fill moves the position by its quantity, and what it realizes is its cash flow plus the change of the position at cost.\<close>

lemma fill_position_cash:
  assumes "q \<noteq> 0" "fill_position (pos, entry) q price = ((pos', entry'), realized, ended)"
  shows "pos' = pos + q" "realized = - q * price + (pos' * entry' - pos * entry)" "pos' = 0 \<Longrightarrow> ended"
proof -
  have "pos' = pos + q \<and> realized = - q * price + (pos' * entry' - pos * entry) \<and> (pos' = 0 \<longrightarrow> ended)"
  proof (cases "pos = 0 \<or> (pos > 0) = (q > 0)")
    case True
    then have r: "pos' = pos + q" "realized = 0" "entry' = (entry * \<bar>pos\<bar> + price * \<bar>q\<bar>) / (\<bar>pos\<bar> + \<bar>q\<bar>)"
      using assms(2) by (auto simp: fill_position_def)
    have "\<bar>pos\<bar> + \<bar>q\<bar> \<noteq> 0" using assms(1) by linarith
    then have e: "entry' * (\<bar>pos\<bar> + \<bar>q\<bar>) = entry * \<bar>pos\<bar> + price * \<bar>q\<bar>" by (simp add: r(3))
    have "0 < q \<and> 0 \<le> pos \<or> q < 0 \<and> pos \<le> 0" using True assms(1) by auto
    then consider "0 < q" "0 \<le> pos" | "q < 0" "pos \<le> 0" by blast
    then have "pos' * entry' = pos * entry + q * price \<and> pos' \<noteq> 0"
    proof cases
      case 1
      then show "pos' * entry' = pos * entry + q * price \<and> pos' \<noteq> 0" using e by (simp_all add: r(1) mult.commute)
    next
      case 2
      then show "pos' * entry' = pos * entry + q * price \<and> pos' \<noteq> 0" using e by (simp_all add: r(1) algebra_simps)
    qed
    then show ?thesis by (simp add: r)
  next
    case False
    then have "0 < pos \<and> q < 0 \<or> pos < 0 \<and> 0 < q" using assms(1) by auto
    then consider "0 < pos" "q < 0" | "pos < 0" "0 < q" by blast
    then show ?thesis
      using assms(2) by cases (auto simp: fill_position_def Let_def algebra_simps min_def split: if_splits)
  qed
  then show "pos' = pos + q" "realized = - q * price + (pos' * entry' - pos * entry)" "pos' = 0 \<Longrightarrow> ended" by auto
qed

definition cost_held :: "ledger \<Rightarrow> dec" where
  "cost_held b = sum_list (map (\<lambda>(k, pos, entry). pos * entry) (lb_state b))"

definition cash_flow :: "leg list \<Rightarrow> dec" where
  "cash_flow ls = - sum_list (map (\<lambda>l. lg_qty l * lg_price l) ls)"

definition qty_of :: "int \<times> bool \<Rightarrow> leg list \<Rightarrow> dec" where
  "qty_of k ls = sum_list (map lg_qty (filter (\<lambda>l. lg_key l = k) ls))"

lemma finalize_fields [simp]:
  "lb_state (finalize_cycle now k ts b) = lb_state b" "lb_pnl (finalize_cycle now k ts b) = lb_pnl b"
  by (simp_all add: finalize_cycle_def Let_def)

lemma bump_at: "bump ws x f w = f w + (if w \<in> set ws then x else 0)" for x :: "'a :: monoid_add"
  by (simp add: bump_def)

text \<open>The fold over the legs seen so far, as one invariant per step.\<close>

definition cash_inv :: "leg list \<Rightarrow> ledger \<Rightarrow> bool" where
  "cash_inv ls b \<longleftrightarrow> lb_pnl b ''all'' = cash_flow ls + cost_held b \<and> (\<forall>k. fst (at_key (lb_state b) k (0, 0)) = qty_of k ls)"

lemma cash_step:
  assumes "lg_qty l \<noteq> 0" "cash_inv ls b"
  shows "cash_inv (ls @ [l]) (apply_leg now b l)"
proof -
  obtain pos entry where s: "at_key (lb_state b) (lg_key l) (0, 0) = (pos, entry)" by fastforce
  obtain pos' entry' realized ended where f: "fill_position (pos, entry) (lg_qty l) (lg_price l) = ((pos', entry'), realized, ended)"
    by (metis prod.collapse)
  note c = fill_position_cash [OF assms(1) f]
  have st: "lb_state (apply_leg now b l) = od_set (lg_key l) (pos', entry') (lb_state b)"
    "lb_pnl (apply_leg now b l) ''all'' = lb_pnl b ''all'' + realized"
    by (simp_all add: apply_leg_def s f Let_def bump_at)
  have "cost_held (apply_leg now b l) = cost_held b - pos * entry + pos' * entry'"
    unfolding cost_held_def st by (subst sum_od_set [where w = "(0, 0)"]) (simp_all add: s)
  moreover have "cash_flow (ls @ [l]) = cash_flow ls - lg_qty l * lg_price l" by (simp add: cash_flow_def)
  moreover have "fst (at_key (lb_state (apply_leg now b l)) k (0, 0)) = qty_of k (ls @ [l])" for k
  proof -
    have "fst (at_key (lb_state b) k (0, 0)) = qty_of k ls" using assms(2) unfolding cash_inv_def by blast
    moreover have "pos = fst (at_key (lb_state b) (lg_key l) (0, 0))" by (simp add: s)
    ultimately show ?thesis using c(1) by (auto simp: st(1) qty_of_def)
  qed
  ultimately show ?thesis using assms(2) c(2) by (simp add: cash_inv_def st(2))
qed

lemma cash_run:
  assumes "\<And>l. l \<in> set ls \<Longrightarrow> lg_qty l \<noteq> 0"
  shows "cash_inv ls (foldl (apply_leg now) empty_ledger ls)"
  using assms
proof (induction ls rule: rev_induct)
  case Nil
  then show ?case by (simp add: cash_inv_def cash_flow_def cost_held_def qty_of_def empty_ledger_def at_key_def)
next
  case (snoc l ls)
  then show ?case by (simp add: cash_step)
qed

text \<open>
  Claim C28: the realized PnL of a complete ledger is its cash. Whatever fills the rows hold, the
  realized PnL over all time is what the fills paid out plus the positions they left at their average entry, and
  each position is the sum of its signed fills; so once everything is flat it is the net cash exactly.
\<close>

theorem ledger_cash_identity:
  "let b = realized_pnl_windows now gross rows; ls = ledger_legs gross rows in
     lb_pnl b ''all'' = cash_flow ls + cost_held b \<and> (\<forall>k. fst (at_key (lb_state b) k (0, 0)) = qty_of k ls)"
  using cash_run [of "ledger_legs gross rows" now] ledger_legs_sound
  unfolding realized_pnl_windows_def cash_inv_def Let_def by blast

subsection \<open>Round trips\<close>

definition nested :: "(string \<Rightarrow> 'a :: linordered_idom) \<Rightarrow> bool" where
  "nested f \<longleftrightarrow> 0 \<le> f ''24h'' \<and> f ''24h'' \<le> f ''7d'' \<and> f ''7d'' \<le> f ''30d'' \<and> f ''30d'' \<le> f ''all''"

lemma nested_bump: "nested f \<Longrightarrow> 0 \<le> x \<Longrightarrow> nested (bump (windows_for now ts) x f)"
  using windows_nested [of now ts] by (auto simp: nested_def bump_at intro: add_mono order_trans)

lemma nested_bump_loss:
  assumes "nested (\<lambda>w. - f w)" "x \<le> 0"
  shows "nested (\<lambda>w. - bump (windows_for now ts) x f w)"
proof -
  have "(\<lambda>w. - bump (windows_for now ts) x f w) = bump (windows_for now ts) (- x) (\<lambda>w. - f w)"
    by (simp add: bump_def fun_eq_iff)
  then show ?thesis using assms by (simp add: nested_bump)
qed

definition trips_inv :: "ledger \<Rightarrow> bool" where
  "trips_inv b \<longleftrightarrow> lb_win_pnl b ''all'' + lb_loss_pnl b ''all'' + sum_list (map snd (lb_cycle b)) = lb_pnl b ''all''
     \<and> nested (lb_wins b) \<and> nested (lb_losses b) \<and> nested (lb_win_pnl b) \<and> nested (\<lambda>w. - lb_loss_pnl b w)"

lemma sum_cycle_set: "sum_list (map snd (od_set k v d)) = sum_list (map snd d) - at_key d k 0 + (v :: dec)"
  using sum_od_set [of snd 0 k v d] by simp

lemma finalize_trips:
  assumes "trips_inv b"
  shows "trips_inv (finalize_cycle now k ts b)"
proof -
  define c where "c = at_key (lb_cycle b) k 0"
  have "sum_list (map snd (od_set k 0 (lb_cycle b))) = sum_list (map snd (lb_cycle b)) - c" by (simp add: sum_cycle_set c_def)
  moreover consider "c = 0" | "c > 0" | "c < 0" by linarith
  ultimately show ?thesis
    using assms nested_bump [of "lb_wins b" 1] nested_bump [of "lb_losses b" 1] nested_bump [of "lb_win_pnl b" c]
      nested_bump_loss [of "lb_loss_pnl b" c]
    by cases (simp_all add: trips_inv_def finalize_cycle_def Let_def c_def [symmetric] bump_at)
qed

lemma trips_step:
  assumes "trips_inv b"
  shows "trips_inv (apply_leg now b l)"
proof -
  obtain st realized ended where f: "fill_position (at_key (lb_state b) (lg_key l) (0, 0)) (lg_qty l) (lg_price l) = (st, realized, ended)"
    by (metis prod_cases3)
  define b1 where "b1 = b\<lparr>lb_state := od_set (lg_key l) st (lb_state b)\<rparr>"
  define b2 where "b2 = (if realized \<noteq> 0 then b1\<lparr>lb_cycle := od_set (lg_key l) (at_key (lb_cycle b1) (lg_key l) 0 + realized) (lb_cycle b1),
      lb_pnl := bump (windows_for now (lg_ts l)) realized (lb_pnl b1)\<rparr> else b1)"
  have "trips_inv b2" using assms by (simp add: trips_inv_def b2_def b1_def sum_cycle_set bump_at)
  moreover have "apply_leg now b l = (if ended then finalize_cycle now (lg_key l) (lg_ts l) b2 else b2)"
    by (simp add: apply_leg_def f Let_def b1_def b2_def)
  ultimately show ?thesis by (simp add: finalize_trips)
qed

text \<open>
  A law: wins and losses are decided per round trip and the windows nest. The PnL of the trips won
  and lost, with what the open trips realized so far, is the total; every count and every sum of a
  shorter window is within that of a longer one.
\<close>

theorem ledger_round_trips:
  "let b = realized_pnl_windows now gross rows in
     lb_win_pnl b ''all'' + lb_loss_pnl b ''all'' + sum_list (map snd (lb_cycle b)) = lb_pnl b ''all''
     \<and> nested (lb_wins b) \<and> nested (lb_losses b) \<and> nested (lb_win_pnl b) \<and> nested (\<lambda>w. - lb_loss_pnl b w)"
proof -
  have "trips_inv (foldl (apply_leg now) empty_ledger ls)" for ls
    by (induction ls rule: rev_induct) (simp_all add: trips_step, simp add: trips_inv_def empty_ledger_def nested_def)
  then show ?thesis by (simp add: realized_pnl_windows_def trips_inv_def)
qed

subsection \<open>Both replays agree\<close>

text \<open>
  \<open>steady\<close>: no round trip is added to after it was reduced. The dictionary holds the position of each
  product and whether its trip was reduced.
\<close>

definition steady_next :: "(int \<times> dec \<times> bool) list \<Rightarrow> leg \<Rightarrow> (int \<times> dec \<times> bool) list" where
  "steady_next d l = (let pid = fst (lg_key l); q = lg_qty l in case at_key d pid (0, False) of (pos, red) \<Rightarrow>
     od_set pid (pos + q, \<not> (pos = 0 \<or> (pos > 0) = (q > 0)) \<and> \<bar>q\<bar> < \<bar>pos\<bar>) d)"

definition steady_leg :: "(int \<times> dec \<times> bool) list \<Rightarrow> leg \<Rightarrow> bool" where
  "steady_leg d l = (case at_key d (fst (lg_key l)) (0, False) of (pos, red) \<Rightarrow>
     pos = 0 \<or> (pos > 0) \<noteq> (lg_qty l > 0) \<or> \<not> red)"

fun steady :: "(int \<times> dec \<times> bool) list \<Rightarrow> leg list \<Rightarrow> bool" where
  "steady d [] = True"
| "steady d (l # ls) = (steady_leg d l \<and> steady (steady_next d l) ls)"

text \<open>What the two replays and the scan know of one product.\<close>

definition same_leg :: "dec \<times> bool \<Rightarrow> dec \<times> dec \<Rightarrow> open_leg option \<Rightarrow> bool" where
  "same_leg pr pe og \<longleftrightarrow> fst pr = fst pe \<and> (case og of None \<Rightarrow> fst pe = 0
     | Some g \<Rightarrow> fst pe \<noteq> 0 \<and> ol_pos g = fst pe \<and> 0 < ol_entry_base g \<and> ol_entry_cost g = snd pe * ol_entry_base g
         \<and> (\<not> snd pr \<longrightarrow> ol_entry_base g = \<bar>fst pe\<bar>))"

definition open_sum :: "(open_leg \<Rightarrow> dec) \<Rightarrow> (int \<times> open_leg) list \<Rightarrow> dec" where
  "open_sum f legs = sum_list (map (\<lambda>(k, g). f g) legs)"

abbreviation "open_realized \<equiv> open_sum ol_realized"

lemma open_sum_set:
  "open_sum f (od_set k g legs) = open_sum f legs - (case map_of legs k of None \<Rightarrow> 0 | Some h \<Rightarrow> f h) + f g"
proof (induction legs)
  case (Cons x legs)
  then show ?case by (cases x) (simp add: open_sum_def)
qed (simp add: open_sum_def)

lemma open_sum_pop:
  "distinct (map fst legs) \<Longrightarrow> open_sum f (od_pop k legs) = open_sum f legs - (case map_of legs k of None \<Rightarrow> 0 | Some h \<Rightarrow> f h)"
proof (induction legs)
  case (Cons x legs)
  have "k \<notin> fst ` set legs \<Longrightarrow> map_of legs k = None" by (simp add: map_of_eq_None_iff)
  with Cons show ?case by (cases x) (auto simp: open_sum_def od_pop_def simp del: map_of_eq_None_iff)
qed (simp add: open_sum_def od_pop_def)

lemma entry_avg_same: "same_leg pr (pos, entry) (Some g) \<Longrightarrow> entry_avg g = entry"
  by (simp add: same_leg_def entry_avg_def)

text \<open>One fill on one product: the position stays the same on both sides, and both realize the same.\<close>

lemma open_same:
  assumes "q \<noteq> 0" "same_leg (pos, red) (pos, entry) None" "fill_position (pos, entry) q price = (pe, realized, ended)"
  shows "realized = 0 \<and> same_leg (pos + q, False) pe (Some (mk_open_leg pid q price fee ts))"
  using assms by (auto simp: same_leg_def fill_position_def mk_open_leg_def)

lemma add_same:
  assumes "q \<noteq> 0" "same_leg (pos, red) (pos, entry) (Some g)" "(pos > 0) = (q > 0)" "\<not> red"
    and "fill_position (pos, entry) q price = (pe, realized, ended)"
  shows "realized = 0 \<and> same_leg (pos + q, False) pe (Some (add_entry q price g))"
proof -
  have g: "pos \<noteq> 0" "ol_pos g = pos" "ol_entry_base g = \<bar>pos\<bar>" "ol_entry_cost g = entry * \<bar>pos\<bar>"
    using assms(2,4) by (auto simp: same_leg_def)
  have pe: "realized = 0" "pe = (pos + q, (entry * \<bar>pos\<bar> + price * \<bar>q\<bar>) / (\<bar>pos\<bar> + \<bar>q\<bar>))"
    using assms(3,5) by (auto simp: fill_position_def)
  have n: "\<bar>pos\<bar> + \<bar>q\<bar> = \<bar>pos + q\<bar>" "0 < \<bar>pos\<bar> + \<bar>q\<bar>" using assms(1,3) g(1) by (auto simp: abs_if)
  then show ?thesis using g pe by (simp add: same_leg_def add_entry_def mult.commute)
qed

lemma reduce_same:
  assumes "q \<noteq> 0" "same_leg (pos, red) (pos, entry) (Some g)" "(pos > 0) \<noteq> (q > 0)" "\<bar>q\<bar> < \<bar>pos\<bar>"
    and "fill_position (pos, entry) q price = (pe, realized, ended)"
  shows "ol_realized (add_exit q price g) = ol_realized g + realized
    \<and> same_leg (pos + q, True) pe (Some ((add_exit q price g)\<lparr>ol_pos := ol_pos (add_exit q price g) + q\<rparr>))"
  using assms entry_avg_same [OF assms(2)]
  by (auto simp: same_leg_def fill_position_def add_exit_def Let_def)

lemma close_same:
  assumes "q \<noteq> 0" "same_leg (pos, red) (pos, entry) (Some g)" "(pos > 0) \<noteq> (q > 0)" "\<not> \<bar>q\<bar> < \<bar>pos\<bar>"
    and "fill_position (pos, entry) q price = (pe, realized, ended)"
  shows "ol_realized (add_exit q price g) = ol_realized g + realized
    \<and> (if \<bar>q\<bar> = \<bar>pos\<bar> then same_leg (pos + q, False) pe None
       else same_leg (pos + q, False) pe (Some (mk_open_leg pid (if q > 0 then \<bar>q\<bar> - \<bar>pos\<bar> else - (\<bar>q\<bar> - \<bar>pos\<bar>)) price 0 ts)))"
proof -
  have g: "pos \<noteq> 0" "ol_pos g = pos" using assms(2) by (auto simp: same_leg_def)
  have "0 < pos \<and> q < 0 \<or> pos < 0 \<and> 0 < q" using assms(1,3) g(1) by auto
  then consider "0 < pos" "q < 0" | "pos < 0" "0 < q" by blast
  then show ?thesis
  proof cases
    case 1
    then have "realized = (price - entry) * pos" "pe = (if - q = pos then (0, 0) else (pos + q, price))"
      using assms(4,5) by (auto simp: fill_position_def Let_def split: if_splits)
    then show ?thesis using 1 g(2) assms(4) entry_avg_same [OF assms(2)]
      by (simp add: same_leg_def add_exit_def mk_open_leg_def Let_def)
  next
    case 2
    then have "realized = (entry - price) * (- pos)" "pe = (if q = - pos then (0, 0) else (pos + q, price))"
      using assms(4,5) by (auto simp: fill_position_def Let_def split: if_splits)
    then show ?thesis using 2 g(2) assms(4) entry_avg_same [OF assms(2)]
      by (simp add: same_leg_def add_exit_def mk_open_leg_def Let_def)
  qed
qed

definition agrees :: "(int \<Rightarrow> bool) \<Rightarrow> (int \<times> dec \<times> bool) list \<Rightarrow> ledger \<Rightarrow> (int \<times> open_leg) list \<times> paired_trade list \<Rightarrow> bool" where
  "agrees on_iso d b st \<longleftrightarrow> distinct (map fst (fst st))
     \<and> (\<forall>pid. same_leg (at_key d pid (0, False)) (at_key (lb_state b) (pid, on_iso pid) (0, 0)) (map_of (fst st) pid))
     \<and> lb_pnl b ''all'' = sum_list (map pt_realized (snd st)) + open_realized (fst st)"

lemma leg_trade_realized [simp]: "pt_realized (leg_trade fin g) = ol_realized g"
  by (simp add: leg_trade_def)

lemma apply_leg_effect:
  assumes "fill_position (at_key (lb_state b) (lg_key l) (0, 0)) (lg_qty l) (lg_price l) = (pe, realized, ended)"
  shows "lb_state (apply_leg now b l) = od_set (lg_key l) pe (lb_state b)"
    "lb_pnl (apply_leg now b l) ''all'' = lb_pnl b ''all'' + realized"
  using assms by (simp_all add: apply_leg_def Let_def bump_at)

text \<open>One leg: what each replay does to the product it is on.\<close>

lemma agrees_update:
  assumes "agrees on_iso d b (legs, ds)" "lg_key l = (pid, on_iso pid)"
    and "fill_position (at_key (lb_state b) (pid, on_iso pid) (0, 0)) (lg_qty l) (lg_price l) = (pe, realized, ended)"
    and "steady_next d l = od_set pid pr d" "distinct (map fst legs')" "\<And>k. k \<noteq> pid \<Longrightarrow> map_of legs' k = map_of legs k"
    and "same_leg pr pe (map_of legs' pid)"
    and "sum_list (map pt_realized ds') + open_realized legs' = sum_list (map pt_realized ds) + open_realized legs + realized"
  shows "agrees on_iso (steady_next d l) (apply_leg now b l) (legs', ds')"
proof -
  note e = apply_leg_effect [OF assms(3) [folded assms(2)], of now]
  have "same_leg (at_key (steady_next d l) k (0, False)) (at_key (lb_state (apply_leg now b l)) (k, on_iso k) (0, 0)) (map_of legs' k)" for k
  proof (cases "k = pid")
    case True
    then show ?thesis using assms(2,4,7) e(1) by simp
  next
    case False
    moreover have "same_leg (at_key d k (0, False)) (at_key (lb_state b) (k, on_iso k) (0, 0)) (map_of legs k)"
      using assms(1) unfolding agrees_def fst_conv by blast
    ultimately show ?thesis using assms(2,4,6) e(1) by simp
  qed
  then show ?thesis
    unfolding agrees_def fst_conv snd_conv using assms(1,5,8) e(2) by (auto simp: agrees_def)
qed

lemma agrees_step:
  assumes "agrees on_iso d b st" "lg_qty l \<noteq> 0" "snd (lg_key l) = on_iso (fst (lg_key l))" "steady_leg d l"
  shows "agrees on_iso (steady_next d l) (apply_leg now b l) (pair_leg st l)"
proof -
  obtain legs ds where st: "st = (legs, ds)" by (cases st)
  obtain pid where k: "lg_key l = (pid, on_iso pid)" using assms(3) by (cases "lg_key l") auto
  define q price where "q = lg_qty l" and "price = lg_price l"
  obtain pos red where d: "at_key d pid (0, False) = (pos, red)" by fastforce
  obtain pos' entry where p': "at_key (lb_state b) (pid, on_iso pid) (0, 0) = (pos', entry)" by fastforce
  obtain pe realized ended where f: "fill_position (pos', entry) q price = (pe, realized, ended)" by (metis prod_cases3)
  note a = assms(1) [unfolded st]
  have s: "same_leg (pos, red) (pos', entry) (map_of legs pid)"
    using a d p' unfolding agrees_def fst_conv by metis
  have pos: "pos' = pos" using s by (simp add: same_leg_def)
  note s = s [unfolded pos] and p = p' [unfolded pos] and f = f [unfolded pos]
  have dist: "distinct (map fst legs)" using a by (simp add: agrees_def)
  note upd = agrees_update [OF a k, unfolded p, folded q_def price_def, OF f]
  have nx: "steady_next d l = od_set pid (pos + q, \<not> (pos = 0 \<or> (pos > 0) = (q > 0)) \<and> \<bar>q\<bar> < \<bar>pos\<bar>) d"
    by (simp add: steady_next_def k d q_def Let_def)
  have ok: "pos = 0 \<or> (pos > 0) \<noteq> (q > 0) \<or> \<not> red" using assms(4) by (simp add: steady_leg_def k d q_def)
  have q0: "q \<noteq> 0" using assms(2) by (simp add: q_def)
  show ?thesis
  proof (cases "map_of legs pid")
    case None
    have "pos = 0" using s None by (simp add: same_leg_def)
    moreover have "pair_leg st l = (od_set pid (mk_open_leg pid q price (lg_fee l) (lg_ts l)) legs, ds)"
      by (simp add: st pair_leg_def k None q_def price_def Let_def)
    moreover have "ol_realized (mk_open_leg pid q price (lg_fee l) (lg_ts l)) = 0" by (simp add: mk_open_leg_def)
    ultimately show ?thesis
      using upd [OF nx, of "od_set pid (mk_open_leg pid q price (lg_fee l) (lg_ts l)) legs" ds]
        open_same [OF q0 s [unfolded None] f] dist by (simp add: None open_sum_set)
  next
    case (Some g0)
    define g where "g = g0\<lparr>ol_fees := ol_fees g0 + lg_fee l, ol_closed := lg_ts l\<rparr>"
    have sg: "same_leg (pos, red) (pos, entry) (Some g)" using s Some by (simp add: same_leg_def g_def)
    have g: "pos \<noteq> 0" "ol_pos g = pos" "ol_realized g = ol_realized g0" using sg by (simp_all add: same_leg_def g_def)
    have pl: "pair_leg st l = (if (pos > 0) = (q > 0) then (od_set pid (add_entry q price g) legs, ds)
        else let h = add_exit q price g in
          if \<bar>q\<bar> < \<bar>pos\<bar> then (od_set pid (h\<lparr>ol_pos := ol_pos h + q\<rparr>) legs, ds)
          else if \<bar>q\<bar> = \<bar>pos\<bar> then (od_pop pid legs, ds @ [leg_trade True h])
          else (od_set pid (mk_open_leg pid (if q > 0 then \<bar>q\<bar> - \<bar>pos\<bar> else - (\<bar>q\<bar> - \<bar>pos\<bar>)) price 0 (lg_ts l)) legs, ds @ [leg_trade True h]))"
      using g(2) by (simp add: st pair_leg_def k Some g_def q_def price_def Let_def)
    consider (more) "(pos > 0) = (q > 0)" | (less) "(pos > 0) \<noteq> (q > 0)" "\<bar>q\<bar> < \<bar>pos\<bar>" | (over) "(pos > 0) \<noteq> (q > 0)" "\<not> \<bar>q\<bar> < \<bar>pos\<bar>"
      by blast
    then show ?thesis
    proof cases
      case more
      have "\<not> red" using ok g(1) more by simp
      then show ?thesis
        using upd [OF nx, of "od_set pid (add_entry q price g) legs" ds] add_same [OF q0 sg more _ f] dist more g
        by (simp add: pl Some open_sum_set add_entry_def)
    next
      case less
      then show ?thesis
        using upd [OF nx, of "od_set pid ((add_exit q price g)\<lparr>ol_pos := ol_pos (add_exit q price g) + q\<rparr>) legs" ds]
          reduce_same [OF q0 sg less f] dist g
        by (simp add: pl Some open_sum_set Let_def)
    next
      case over
      note c = close_same [OF q0 sg over f, of pid "lg_ts l"]
      show ?thesis
      proof (cases "\<bar>q\<bar> = \<bar>pos\<bar>")
        case True
        then show ?thesis
          using upd [OF nx, of "od_pop pid legs" "ds @ [leg_trade True (add_exit q price g)]"] c dist over g
          by (simp add: pl Some open_sum_pop Let_def)
      next
        case False
        then show ?thesis
          using upd [OF nx, of "od_set pid (mk_open_leg pid (if q > 0 then \<bar>q\<bar> - \<bar>pos\<bar> else - (\<bar>q\<bar> - \<bar>pos\<bar>)) price 0 (lg_ts l)) legs"
              "ds @ [leg_trade True (add_exit q price g)]"] c dist over g
          by (simp add: pl Some open_sum_set Let_def mk_open_leg_def)
      qed
    qed
  qed
qed

text \<open>The fees of the fills end up on the trades.\<close>

lemma pair_fees_step:
  assumes "distinct (map fst legs)" "pair_leg (legs, ds) l = (legs', ds')"
  shows "distinct (map fst legs') \<and> sum_list (map pt_fees ds') + open_sum ol_fees legs' = sum_list (map pt_fees ds) + open_sum ol_fees legs + lg_fee l"
proof (cases "map_of legs (fst (lg_key l))")
  case None
  then show ?thesis using assms by (auto simp: pair_leg_def Let_def open_sum_set mk_open_leg_def)
next
  case (Some g)
  then show ?thesis using assms
    by (auto simp: pair_leg_def Let_def open_sum_set open_sum_pop mk_open_leg_def add_entry_def add_exit_def leg_trade_def
        split: if_splits simp del: map_of_eq_Some_iff)
qed

lemma pair_fees_run:
  "foldl pair_leg ([], []) ls = (legs, ds) \<Longrightarrow> distinct (map fst legs) \<and> sum_list (map pt_fees ds) + open_sum ol_fees legs = sum_list (map lg_fee ls)"
proof (induction ls arbitrary: legs ds rule: rev_induct)
  case (snoc l ls)
  obtain legs0 ds0 where "foldl pair_leg ([], []) ls = (legs0, ds0)" by fastforce
  then show ?case using snoc.IH [of legs0 ds0] snoc.prems pair_fees_step [of legs0 ds0 l legs ds] by simp
qed (simp add: open_sum_def)

lemma agrees_run:
  "agrees on_iso d b st \<Longrightarrow> list_all (\<lambda>l. lg_qty l \<noteq> 0 \<and> snd (lg_key l) = on_iso (fst (lg_key l))) ls \<Longrightarrow> steady d ls
   \<Longrightarrow> \<exists>d'. agrees on_iso d' (foldl (apply_leg now) b ls) (foldl pair_leg st ls)"
proof (induction ls arbitrary: d b st)
  case (Cons l ls)
  then have "agrees on_iso (steady_next d l) (apply_leg now b l) (pair_leg st l)" by (intro agrees_step) simp_all
  with Cons show ?case by simp
qed auto

lemma agrees_initially: "agrees on_iso [] empty_ledger ([], [])"
  by (simp add: agrees_def same_leg_def at_key_def empty_ledger_def open_sum_def)

lemma sum_open_trades: "sum_list (map (h \<circ> (leg_trade False \<circ> snd)) legs) = open_sum (h \<circ> leg_trade False) legs" for h :: "paired_trade \<Rightarrow> dec"
  by (induction legs) (auto simp: open_sum_def)

text \<open>
  Claim C29: the round trips shown to the user add up to the ledger. If no round trip is added to after it was
  partly closed, and no product has fills both on cross and on isolated margin (\<open>on_iso\<close> says which margin a
  product is on), the realized PnL of the paired trades is the realized PnL of the
  account ledger over the same fills; and the trades carry the fees of the fills exactly. Both
  conditions are needed: the two lemmas below the witness show what happens without them.
\<close>

theorem pairing_agrees:
  assumes "steady [] (ledger_legs False rows)" "list_all (\<lambda>l. snd (lg_key l) = on_iso (fst (lg_key l))) (ledger_legs False rows)"
  shows "sum_list (map pt_realized (pair_fills_into_trades rows)) = lb_pnl (realized_pnl_windows now False rows) ''all''
    \<and> sum_list (map pt_fees (pair_fills_into_trades rows)) = sum_list (map lg_fee (ledger_legs False rows))"
proof -
  obtain legs ds where run: "foldl pair_leg ([], []) (ledger_legs False rows) = (legs, ds)" by fastforce
  have "list_all (\<lambda>l. lg_qty l \<noteq> 0 \<and> snd (lg_key l) = on_iso (fst (lg_key l))) (ledger_legs False rows)"
    using assms(2) ledger_legs_sound by (auto simp: list_all_iff)
  from agrees_run [OF agrees_initially this assms(1), of now] run
  have "lb_pnl (realized_pnl_windows now False rows) ''all'' = sum_list (map pt_realized ds) + open_realized legs"
    by (auto simp: agrees_def realized_pnl_windows_def)
  moreover have "pt_realized \<circ> leg_trade False = ol_realized" "pt_fees \<circ> leg_trade False = ol_fees"
    by (auto simp: leg_trade_def)
  ultimately show ?thesis
    using pair_fees_run [OF run] sum_open_trades [of pt_realized legs] sum_open_trades [of pt_fees legs]
    by (simp add: pair_fills_into_trades_def run)
qed

definition demo_fill :: "string \<Rightarrow> dec \<Rightarrow> dec \<Rightarrow> time \<Rightarrow> fill_row" where
  "demo_fill side q price t = \<lparr>fr_base_x18 = None, fr_fill_size = Some (A_Dec q), fr_size = None, fr_side = side, fr_quote_x18 = None,
     fr_quote = None, fr_fee_x18 = None, fr_fill_fee = Some (A_Dec (1 / 10)), fr_fees = None, fr_builder_fee = None,
     fr_fill_price = Some (A_Dec price), fr_price = None, fr_product = Some 2, fr_isolated = False, fr_time = Some t\<rparr>"

definition demo_iso_fill :: "string \<Rightarrow> dec \<Rightarrow> dec \<Rightarrow> time \<Rightarrow> fill_row" where
  "demo_iso_fill side q price t = (demo_fill side q price t)\<lparr>fr_product := Some 4, fr_isolated := True\<rparr>"

text \<open>A cross product and an isolated one, each closed with a profit of 30 and 5.\<close>

theorem pairing_agrees_witness:
  "let rows = [demo_fill ''buy'' 1 100 1, demo_iso_fill ''sell'' 1 50 2, demo_fill ''buy'' 1 110 3, demo_fill ''sell'' 3 120 4,
     demo_iso_fill ''buy'' 1 45 5] in
   sum_list (map pt_realized (pair_fills_into_trades rows)) = lb_pnl (realized_pnl_windows 10 False rows) ''all''"
proof -
  let ?rows = "[demo_fill ''buy'' 1 100 1, demo_iso_fill ''sell'' 1 50 2, demo_fill ''buy'' 1 110 3, demo_fill ''sell'' 3 120 4,
     demo_iso_fill ''buy'' 1 45 5]"
  have "steady [] (ledger_legs False ?rows)" "list_all (\<lambda>l. snd (lg_key l) = (fst (lg_key l) = 4)) (ledger_legs False ?rows)"
    by code_simp+
  from pairing_agrees [OF this, of 10] show ?thesis unfolding Let_def by (rule conjunct1)
qed

text \<open>
  A finding: a product held on cross and on isolated margin at once. The ledger keeps the two
  positions apart; the pairing keys its open legs by the product alone, so an isolated short that is
  opened against a cross long is shown as the close of the long. Here nothing was closed, the ledger
  realizes nothing, and the user is shown a finished round trip that earned 10.
\<close>

lemma pairing_merges_isolated:
  "let rows = [demo_fill ''buy'' 1 100 1, (demo_fill ''sell'' 1 110 2)\<lparr>fr_isolated := True\<rparr>] in
   map pt_realized (pair_fills_into_trades rows) = [10] \<and> map pt_closed (pair_fills_into_trades rows) = [True]
   \<and> lb_pnl (realized_pnl_windows 10 False rows) ''all'' = 0"
  by code_simp

text \<open>
  A trade that is added to after a partial close: the entry average of the paired trade spans the base
  that is already closed. Here 5 were earned and the trade reports 25/3.
\<close>

lemma pairing_readd_overstates:
  "let rows = [demo_fill ''buy'' 1 100 1, demo_fill ''sell'' (1 / 2) 110 2, demo_fill ''buy'' (1 / 2) 120 3, demo_fill ''sell'' 1 110 4] in
   map pt_realized (pair_fills_into_trades rows) = [25 / 3] \<and> lb_pnl (realized_pnl_windows 10 False rows) ''all'' = 5
   \<and> cash_flow (ledger_legs False rows) = 5"
  by code_simp

subsection \<open>Unrealized PnL and statistics\<close>

lemma stat_windows_nested:
  "''24h'' \<in> set (stat_windows now ts) \<Longrightarrow> ''7d'' \<in> set (stat_windows now ts)"
  "''7d'' \<in> set (stat_windows now ts) \<Longrightarrow> ''30d'' \<in> set (stat_windows now ts)" "''all'' \<in> set (stat_windows now ts)"
  by (cases ts; simp add: stat_windows_def window_limits_def split: if_splits)+

lemma window_sum_nested:
  assumes "\<And>r. 0 \<le> f r"
  shows "nested (window_sum now tm f rows)"
proof (induction rows rule: rev_induct)
  case (snoc r rows)
  have "nested (bump (stat_windows now (tm r)) (f r) g)" if "nested g" for g :: "string \<Rightarrow> dec"
    using that assms [of r] stat_windows_nested [of now "tm r"] by (auto simp: nested_def bump_at intro: add_mono order_trans)
  with snoc show ?case by (simp add: window_sum_def)
qed (simp add: window_sum_def nested_def)

lemma stats_nested:
  "nested (ts_volume (aggregate_trading_stats now fills payments))" "nested (ts_fees (aggregate_trading_stats now fills payments))"
  by (simp_all add: aggregate_trading_stats_def Let_def window_sum_nested)

text \<open>The parts of the equity add up, so that no dollar counts twice.\<close>

lemma equity_parts: "eq_total (compute_total_equity s bal) = eq_spot (compute_total_equity s bal) + eq_cross (compute_total_equity s bal) + eq_isolated (compute_total_equity s bal)"
  by (simp add: compute_total_equity_def Let_def)

text \<open>
  A law: no unrealized PnL strays from the chain. Where the venue reports the on-chain figure, the PnL
  derived for the position is within the band of it, however corrupt the indexer's estimate is; where it reports
  neither, the figure is the value of the position at a positive mark plus its quote balance, or its move from
  a positive entry.
\<close>

theorem unrealized_within_band:
  "(case (pr_unsettled r, derive_unrealized_pnl r mark) of
     (Some u, p) \<Rightarrow> (case p of None \<Rightarrow> False | Some x \<Rightarrow> \<bar>x - u\<bar> \<le> reconcile_band (pick [pr_notional r, pr_value r]))
   | (None, None) \<Rightarrow> True
   | (None, Some x) \<Rightarrow> pick [pr_est_pnl r, pr_unrealized r, pr_unrealized_usd r] = Some x
       \<or> signed_position_size r = 0 \<and> x = 0
       \<or> (\<exists>m > 0. implied_mark r mark = Some m
            \<and> ((\<exists>v. pick [pr_v_quote_balance r, pr_v_quote r] = Some v \<and> x = signed_position_size r * m + v)
              \<or> (\<exists>e > 0. pick [pr_avg_entry r, pr_entry r] = Some e \<and> x = (m - e) * signed_position_size r))))"
proof -
  have band: "0 \<le> reconcile_band n" for n by (simp add: reconcile_band_def UPNL_RECONCILE_FLOOR_def le_max_iff_disj split: option.split)
  show ?thesis
    by (cases "pr_unsettled r"; cases "pick [pr_est_pnl r, pr_unrealized r, pr_unrealized_usd r]")
      (auto simp: derive_unrealized_pnl_def reconcile_unrealized_pnl_def Let_def band simp del: pick.simps
        split: option.splits if_splits)
qed

end
