(* ===== verification/Gateway_Budget.thy ===== *)
theory Gateway_Budget
  imports Prelude
begin

text \<open>
  The budget every call to the venue passes: \<open>venue/gateway_budget.py\<close> and the part of
  \<open>core/http_session.py\<close> it rests on (the weight bucket of a host, the circuit breakers, the retry loop).

  A bucket waits by reading the monotonic clock and sleeping. The readings are an argument, one list per
  call: a call whose readings run out has not returned yet (\<open>None\<close>). One pass of a waiting loop, refill, test
  and charge, is one step \<open>bucket_step\<close>. For the bucket of a host that is the section under
  \<open>_bucket_lock\<close>, so a list of passes is any interleaving of callers. \<open>_TokenBucket\<close>, the bucket of a
  user, a wallet or an edge host, takes no lock: for it a list of passes is any sequence of passes that do
  not overlap, and \<open>overlapping_passes_overdraw\<close> shows what two overlapping ones do. A URL is
  the network location \<open>_host\<close> takes from it; the wall clock is an argument, read once per call; the
  tunables read from the environment are a record, \<open>gw_defaults\<close> the values without one. The caps of the
  bucket tables are positive. Logging is left out.
\<close>

subsection \<open>Tunables\<close>

record gw_config =
  gc_user_rps :: dec
  gc_user_burst :: dec
  gc_user_wait :: dec
  gc_user_inflight :: int
  gc_user_max :: nat
  gc_wallet_rps :: dec
  gc_wallet_burst :: dec
  gc_wallet_max :: nat
  gc_rl_threshold :: nat
  gc_rl_window :: dec
  gc_rl_cooldown :: dec
  gc_write_ban :: dec
  gc_edge_rps :: dec
  gc_edge_burst :: dec
  gc_edge_cooldown :: dec
  gc_http_rps :: dec
  gc_http_burst :: dec
  gc_cf_threshold :: nat
  gc_cf_window :: dec
  gc_cf_cooldown :: dec
  gc_http_wait :: dec
  gc_cf_retry_max :: int

definition gw_defaults :: gw_config where
  "gw_defaults = \<lparr>gc_user_rps = 8, gc_user_burst = 24, gc_user_wait = 2, gc_user_inflight = 4, gc_user_max = 8192,
     gc_wallet_rps = 9, gc_wallet_burst = 90, gc_wallet_max = 8192,
     gc_rl_threshold = 4, gc_rl_window = 15, gc_rl_cooldown = 60, gc_write_ban = 45,
     gc_edge_rps = 150, gc_edge_burst = 1500, gc_edge_cooldown = 5,
     gc_http_rps = 36, gc_http_burst = 360, gc_cf_threshold = 8, gc_cf_window = 10, gc_cf_cooldown = 30,
     gc_http_wait = 5 / 2, gc_cf_retry_max = 2\<rparr>"

subsection \<open>Token buckets\<close>

record bucket =
  bk_rps :: dec
  bk_burst :: dec
  bk_tokens :: dec
  bk_last :: time

text \<open>A new bucket starts full: the default of zero tokens is replaced by the burst.\<close>

definition new_bucket :: "dec \<Rightarrow> dec \<Rightarrow> time \<Rightarrow> bucket" where
  "new_bucket rps burst now = \<lparr>bk_rps = rps, bk_burst = burst, bk_tokens = burst, bk_last = now\<rparr>"

definition bucket_need :: "dec \<Rightarrow> dec \<Rightarrow> dec" where
  "bucket_need cost burst = max 1 (min cost burst)"

definition bucket_refill :: "time \<Rightarrow> bucket \<Rightarrow> bucket" where
  "bucket_refill now b = b\<lparr>bk_tokens := min (bk_burst b) (bk_tokens b + max 0 (now - bk_last b) * bk_rps b), bk_last := now\<rparr>"

text \<open>
  A whole pass with nothing in between; \<open>pass_alone\<close> below shows that it is what the single
  statements of \<open>try_acquire\<close> do when no other caller runs between them.
\<close>

definition bucket_step :: "dec \<Rightarrow> time \<Rightarrow> bucket \<Rightarrow> bool \<times> bucket" where
  "bucket_step need now b = (let r = bucket_refill now b in
     if bk_tokens r \<ge> need then (True, r\<lparr>bk_tokens := bk_tokens r - need\<rparr>) else (False, r))"

definition bucket_sleep :: "dec \<Rightarrow> time \<Rightarrow> bucket \<Rightarrow> dec" where
  "bucket_sleep need deadline b = (let needed = (if bk_rps b > 0 then (need - bk_tokens b) / bk_rps b else 1 / 4) in
     min needed (min (1 / 4) (max 0 (deadline - bk_last b))))"

fun bucket_loop :: "dec \<Rightarrow> time \<Rightarrow> time list \<Rightarrow> bucket \<Rightarrow> bool option \<times> bucket \<times> time list" where
  "bucket_loop need deadline [] b = (None, b, [])"
| "bucket_loop need deadline (now # nows) b = (case bucket_step need now b of
     (True, r) \<Rightarrow> (Some True, r, nows)
   | (False, r) \<Rightarrow> if now \<ge> deadline then (Some False, r, nows) else bucket_loop need deadline nows r)"

definition bucket_acquire :: "dec \<Rightarrow> dec \<Rightarrow> time list \<Rightarrow> bucket \<Rightarrow> bool option \<times> bucket \<times> time list" where
  "bucket_acquire max_wait cost nows b = (case nows of [] \<Rightarrow> (None, b, [])
   | start # rest \<Rightarrow> bucket_loop (bucket_need cost (bk_burst b)) (start + max 0 max_wait) rest b)"

text \<open>The bucket of a host (\<open>_acquire_token\<close>) gives up as soon as the wait it would need passes the deadline.\<close>

fun host_loop :: "dec \<Rightarrow> time \<Rightarrow> time list \<Rightarrow> bucket \<Rightarrow> bool option \<times> bucket \<times> time list" where
  "host_loop need deadline [] b = (None, b, [])"
| "host_loop need deadline [now] b = (case bucket_step need now b of
     (True, r) \<Rightarrow> (Some True, r, []) | (False, r) \<Rightarrow> (None, r, []))"
| "host_loop need deadline (now # check # nows) b = (case bucket_step need now b of
     (True, r) \<Rightarrow> (Some True, r, check # nows)
   | (False, r) \<Rightarrow> if check + (need - bk_tokens r) / bk_rps r > deadline then (Some False, r, nows)
                 else host_loop need deadline nows r)"

subsection \<open>Circuit breakers\<close>

record breaker =
  br_failures :: "time list"
  br_open_until :: time

definition breaker_record :: "nat \<Rightarrow> dec \<Rightarrow> dec \<Rightarrow> string \<Rightarrow> time \<Rightarrow> breaker odict \<Rightarrow> breaker odict" where
  "breaker_record threshold window cooldown h now tbl = (if h = [] then tbl
     else let st = (case map_of tbl h of None \<Rightarrow> \<lparr>br_failures = [], br_open_until = 0\<rparr> | Some s \<Rightarrow> s);
              fails = filter (\<lambda>t. t \<ge> now - window) (br_failures st) @ [now] in
       od_set h \<lparr>br_failures = fails, br_open_until =
         (if length fails \<ge> threshold \<and> now \<ge> br_open_until st then now + cooldown else br_open_until st)\<rparr> tbl)"

definition breaker_open :: "string \<Rightarrow> time \<Rightarrow> breaker odict \<Rightarrow> bool" where
  "breaker_open h now tbl = (if h = [] then False else case map_of tbl h of None \<Rightarrow> False | Some s \<Rightarrow> now < br_open_until s)"

definition timer_open :: "string \<Rightarrow> time \<Rightarrow> time odict \<Rightarrow> bool" where
  "timer_open h now tbl = (if h = [] then False else case map_of tbl h of None \<Rightarrow> now < 0 | Some t \<Rightarrow> now < t)"

definition is_rate_limit_error :: "string \<Rightarrow> bool" where
  "is_rate_limit_error text = (let msg = lower_str text in
     contains_str ''too many requests'' msg \<or> contains_str [CHR 0x22, CHR ''e'', CHR ''r'', CHR ''r'', CHR ''o'', CHR ''r'', CHR ''_'', CHR ''c'', CHR ''o'', CHR ''d'', CHR ''e'', CHR 0x22, CHR '':'', CHR ''1'', CHR ''0'', CHR ''0'', CHR ''0''] msg
     \<or> contains_str ([CHR 0x27] @ ''error_code'' @ [CHR 0x27] @ '': 1000'') msg \<or> contains_str ''error_code=1000'' msg)"

subsection \<open>The gateway's state\<close>

record gateway =
  gw_users :: "(int \<times> bucket) list"
  gw_inflight :: "(int \<times> int) list"
  gw_wallets :: "bucket odict"
  gw_edges :: "bucket odict"
  gw_edge_rl :: "time odict"
  gw_rl :: "breaker odict"
  gw_write_ban :: "time odict"
  gw_hosts :: "bucket odict"
  gw_cf :: "breaker odict"

definition gw_new :: gateway where
  "gw_new = \<lparr>gw_users = [], gw_inflight = [], gw_wallets = [], gw_edges = [], gw_edge_rl = [], gw_rl = [], gw_write_ban = [],
     gw_hosts = [], gw_cf = []\<rparr>"

definition record_gateway_failure :: "gw_config \<Rightarrow> string \<Rightarrow> string option \<Rightarrow> time \<Rightarrow> gateway \<Rightarrow> gateway" where
  "record_gateway_failure c h exc now g = (case exc of
     Some e \<Rightarrow> if \<not> is_rate_limit_error e then g
       else g\<lparr>gw_rl := breaker_record (gc_rl_threshold c) (gc_rl_window c) (gc_rl_cooldown c) h now (gw_rl g)\<rparr>
   | None \<Rightarrow> g\<lparr>gw_rl := breaker_record (gc_rl_threshold c) (gc_rl_window c) (gc_rl_cooldown c) h now (gw_rl g)\<rparr>)"

definition is_gateway_rate_limited :: "string \<Rightarrow> time \<Rightarrow> gateway \<Rightarrow> bool" where
  "is_gateway_rate_limited h now g = breaker_open h now (gw_rl g)"

definition is_circuit_open :: "string \<Rightarrow> time \<Rightarrow> gateway \<Rightarrow> bool" where
  "is_circuit_open h now g = breaker_open h now (gw_cf g)"

definition is_gateway_blocked :: "string \<Rightarrow> time \<Rightarrow> gateway \<Rightarrow> bool" where
  "is_gateway_blocked h now g = (is_circuit_open h now g \<or> is_gateway_rate_limited h now g)"

definition record_ip_query_only :: "gw_config \<Rightarrow> string \<Rightarrow> time \<Rightarrow> gateway \<Rightarrow> gateway" where
  "record_ip_query_only c h now g = (if h = [] then g else g\<lparr>gw_write_ban := od_set h (now + gc_write_ban c) (gw_write_ban g)\<rparr>)"

definition is_write_blocked :: "string \<Rightarrow> time \<Rightarrow> gateway \<Rightarrow> bool" where
  "is_write_blocked h now g = timer_open h now (gw_write_ban g)"

definition clear_write_ban :: "string \<Rightarrow> gateway \<Rightarrow> gateway" where
  "clear_write_ban h g = (if h = [] then g else g\<lparr>gw_write_ban := od_pop h (gw_write_ban g)\<rparr>)"

definition record_edge_rate_limited :: "gw_config \<Rightarrow> string \<Rightarrow> time \<Rightarrow> gateway \<Rightarrow> gateway" where
  "record_edge_rate_limited c h now g = (if h = [] then g else g\<lparr>gw_edge_rl := od_set h (now + gc_edge_cooldown c) (gw_edge_rl g)\<rparr>)"

definition is_edge_rate_limited :: "string \<Rightarrow> time \<Rightarrow> gateway \<Rightarrow> bool" where
  "is_edge_rate_limited h now g = timer_open h now (gw_edge_rl g)"

text \<open>The bucket of a key, made full on first use; a full table first drops the one refilled longest ago.\<close>

fun oldest_bucket :: "('k \<times> bucket) list \<Rightarrow> 'k option" where
  "oldest_bucket [] = None"
| "oldest_bucket ((k, b) # d) = (if list_all (\<lambda>(_, x). bk_last b \<le> bk_last x) d then Some k else oldest_bucket d)"

definition make_room :: "nat option \<Rightarrow> ('k \<times> bucket) list \<Rightarrow> ('k \<times> bucket) list" where
  "make_room mx d = (case mx of None \<Rightarrow> d
   | Some m \<Rightarrow> if length d \<ge> m then (case oldest_bucket d of None \<Rightarrow> d | Some k \<Rightarrow> od_pop k d) else d)"

definition keyed_bucket :: "nat option \<Rightarrow> dec \<Rightarrow> dec \<Rightarrow> 'k \<Rightarrow> time list \<Rightarrow> ('k \<times> bucket) list
    \<Rightarrow> (bucket \<times> ('k \<times> bucket) list \<times> time list) option" where
  "keyed_bucket mx rps burst k nows d = (case map_of d k of Some b \<Rightarrow> Some (b, d, nows)
   | None \<Rightarrow> (case nows of [] \<Rightarrow> None
     | now # rest \<Rightarrow> let b = new_bucket rps burst now in Some (b, od_set k b (make_room mx d), rest)))"

definition keyed_acquire :: "nat option \<Rightarrow> dec \<Rightarrow> dec \<Rightarrow> 'k \<Rightarrow> dec \<Rightarrow> dec \<Rightarrow> time list \<Rightarrow> ('k \<times> bucket) list
    \<Rightarrow> bool option \<times> ('k \<times> bucket) list \<times> time list" where
  "keyed_acquire mx rps burst k wait w nows d = (case keyed_bucket mx rps burst k nows d of None \<Rightarrow> (None, d, [])
   | Some (b, d, rest) \<Rightarrow> (case bucket_acquire wait w rest b of (a, b, rest) \<Rightarrow> (a, od_set k b d, rest)))"

definition throttle_host :: "gw_config \<Rightarrow> string \<Rightarrow> dec \<Rightarrow> dec option \<Rightarrow> time list \<Rightarrow> gateway \<Rightarrow> bool option \<times> gateway \<times> time list" where
  "throttle_host c h cost max_wait nows g = (if h = [] \<or> gc_http_rps c \<le> 0 then (Some True, g, nows)
     else case nows of [] \<Rightarrow> (None, g, [])
     | start # rest \<Rightarrow> (case rest of [] \<Rightarrow> (None, g, [])
       | first # _ \<Rightarrow> let wait = (case max_wait of None \<Rightarrow> gc_http_wait c | Some m \<Rightarrow> m);
           b = (case map_of (gw_hosts g) h of None \<Rightarrow> new_bucket (gc_http_rps c) (gc_http_burst c) first | Some b \<Rightarrow> b) in
         case host_loop (bucket_need cost (gc_http_burst c)) (start + wait) rest b of
           (a, b, rest) \<Rightarrow> (a, g\<lparr>gw_hosts := od_set h b (gw_hosts g)\<rparr>, rest)))"

definition wallet_key :: "string option \<Rightarrow> string" where
  "wallet_key wallet = (let key = lower_str (strip_str (case wallet of None \<Rightarrow> [] | Some w \<Rightarrow> w)) in
     if has_prefix ''0x'' key \<and> length key = 66 then take 42 key else key)"

definition inflight :: "int \<Rightarrow> gateway \<Rightarrow> int" where
  "inflight uid g = (case map_of (gw_inflight g) uid of None \<Rightarrow> 0 | Some n \<Rightarrow> n)"

definition release :: "int option \<Rightarrow> gateway \<Rightarrow> gateway" where
  "release user g = (case user of None \<Rightarrow> g
   | Some uid \<Rightarrow> if inflight uid g \<le> 1 then g\<lparr>gw_inflight := od_pop uid (gw_inflight g)\<rparr>
       else g\<lparr>gw_inflight := od_set uid (inflight uid g - 1) (gw_inflight g)\<rparr>)"

subsection \<open>Reserving budget for a call\<close>

definition acquire_edge :: "gw_config \<Rightarrow> string \<Rightarrow> dec \<Rightarrow> dec \<Rightarrow> time \<Rightarrow> time list \<Rightarrow> gateway \<Rightarrow> bool option \<times> gateway" where
  "acquire_edge c h wait w wall nows g = (if is_circuit_open h wall g \<or> is_edge_rate_limited h wall g then (Some False, g)
     else case keyed_acquire None (gc_edge_rps c) (gc_edge_burst c) h wait w nows (gw_edges g) of
       (a, d, _) \<Rightarrow> (a, g\<lparr>gw_edges := d\<rparr>))"

definition acquire_execute :: "gw_config \<Rightarrow> string \<Rightarrow> string option \<Rightarrow> dec \<Rightarrow> dec \<Rightarrow> time \<Rightarrow> time list \<Rightarrow> gateway \<Rightarrow> bool option \<times> gateway" where
  "acquire_execute c h wallet wait w wall nows g = (if is_circuit_open h wall g \<or> is_write_blocked h wall g then (Some False, g)
     else if wallet_key wallet = [] then (Some True, g)
     else case keyed_acquire (Some (gc_wallet_max c)) (gc_wallet_rps c) (gc_wallet_burst c) (wallet_key wallet) wait w nows (gw_wallets g) of
       (a, d, _) \<Rightarrow> (a, g\<lparr>gw_wallets := d\<rparr>))"

definition take_slot :: "gw_config \<Rightarrow> int option \<Rightarrow> gateway \<Rightarrow> bool \<times> gateway" where
  "take_slot c user g = (case user of None \<Rightarrow> (True, g)
   | Some uid \<Rightarrow> if inflight uid g \<ge> gc_user_inflight c then (False, g)
       else (True, g\<lparr>gw_inflight := od_set uid (inflight uid g + 1) (gw_inflight g)\<rparr>))"

definition charge_user :: "gw_config \<Rightarrow> int option \<Rightarrow> dec \<Rightarrow> dec \<Rightarrow> time list \<Rightarrow> gateway \<Rightarrow> bool option \<times> gateway" where
  "charge_user c user wait w nows g = (case user of None \<Rightarrow> (Some True, g)
   | Some uid \<Rightarrow> (case keyed_acquire (Some (gc_user_max c)) (gc_user_rps c) (gc_user_burst c) uid wait w nows (gw_users g) of
       (a, d, _) \<Rightarrow> (a, g\<lparr>gw_users := d\<rparr>)))"

definition charge_query :: "gw_config \<Rightarrow> string \<Rightarrow> int option \<Rightarrow> dec \<Rightarrow> dec \<Rightarrow> time list \<Rightarrow> gateway \<Rightarrow> bool option \<times> gateway" where
  "charge_query c h user wait w nows g = (case throttle_host c h w (Some wait) nows g of
     (Some True, g, rest) \<Rightarrow> charge_user c user wait w rest g
   | (a, g, _) \<Rightarrow> (a, g))"

text \<open>A refused query gives its slot back.\<close>

definition settle :: "int option \<Rightarrow> bool option \<times> gateway \<Rightarrow> bool option \<times> gateway" where
  "settle user r = (case fst r of Some False \<Rightarrow> (Some False, release user (snd r)) | _ \<Rightarrow> r)"

definition acquire_query :: "gw_config \<Rightarrow> string \<Rightarrow> int option \<Rightarrow> dec \<Rightarrow> dec \<Rightarrow> time \<Rightarrow> time list \<Rightarrow> gateway \<Rightarrow> bool option \<times> gateway" where
  "acquire_query c h user wait w wall nows g = (if is_gateway_blocked h wall g then (Some False, g)
     else case take_slot c user g of (False, g) \<Rightarrow> (Some False, g)
     | (True, g) \<Rightarrow> settle user (charge_query c h user wait w nows g))"

definition try_acquire :: "gw_config \<Rightarrow> string \<Rightarrow> int option \<Rightarrow> dec \<Rightarrow> string \<Rightarrow> string option \<Rightarrow> dec option \<Rightarrow> time \<Rightarrow> time list
    \<Rightarrow> gateway \<Rightarrow> bool option \<times> gateway" where
  "try_acquire c h user weight kind wallet max_wait wall nows g =
     (let wait = (case max_wait of None \<Rightarrow> gc_user_wait c | Some m \<Rightarrow> m); w = max 1 weight in
      if kind = ''edge'' then acquire_edge c h wait w wall nows g
      else if kind = ''execute'' then acquire_execute c h wallet wait w wall nows g
      else acquire_query c h user wait w wall nows g)"

subsection \<open>Requests with retries\<close>

record http_resp =
  hr_status :: int
  hr_ctype :: string
  hr_text :: string

datatype http_out = Transport_Error | Response http_resp

definition is_cloudflare_challenge :: "http_resp \<Rightarrow> bool" where
  "is_cloudflare_challenge r = (if hr_status r \<noteq> 403 then False
     else if \<not> contains_str ''text/html'' (lower_str (hr_ctype r)) then False
     else let body = lower_str (take 512 (hr_text r)) in
       contains_str ''just a moment'' body \<or> contains_str ''cf-chl-'' body \<or> contains_str ''cloudflare'' body)"

definition record_challenge :: "gw_config \<Rightarrow> string \<Rightarrow> time \<Rightarrow> gateway \<Rightarrow> gateway" where
  "record_challenge c h now g = g\<lparr>gw_cf := breaker_record (gc_cf_threshold c) (gc_cf_window c) (gc_cf_cooldown c) h now (gw_cf g)\<rparr>"

definition record_success :: "string \<Rightarrow> gateway \<Rightarrow> gateway" where
  "record_success h g = (if h = [] then g else case map_of (gw_cf g) h of None \<Rightarrow> g
     | Some s \<Rightarrow> g\<lparr>gw_cf := od_set h (s\<lparr>br_failures := []\<rparr>) (gw_cf g)\<rparr>)"

text \<open>The attempts of one request: \<open>outs\<close> answers attempt after attempt, each with the wall clock after it.\<close>

fun cf_attempts :: "gw_config \<Rightarrow> string \<Rightarrow> nat \<Rightarrow> (http_out \<times> time) list \<Rightarrow> http_resp option \<Rightarrow> gateway \<Rightarrow> http_resp option \<times> gateway" where
  "cf_attempts c h 0 outs prev g = (prev, g)"
| "cf_attempts c h (Suc n) [] prev g = (prev, g)"
| "cf_attempts c h (Suc n) ((Transport_Error, _) # outs) prev g = (None, g)"
| "cf_attempts c h (Suc n) ((Response r, now) # outs) prev g =
     (if \<not> is_cloudflare_challenge r then (Some r, record_success h g)
      else cf_attempts c h n outs (Some r) (record_challenge c h now g))"

definition cf_request :: "gw_config \<Rightarrow> string \<Rightarrow> dec \<Rightarrow> time \<Rightarrow> time list \<Rightarrow> (http_out \<times> time) list \<Rightarrow> gateway \<Rightarrow> (http_resp option \<times> gateway) option" where
  "cf_request c h cost wall nows outs g = (if is_gateway_blocked h wall g then Some (None, g)
     else case throttle_host c h cost None nows g of
       (None, _, _) \<Rightarrow> None
     | (Some False, g, _) \<Rightarrow> Some (None, g)
     | (Some True, g, _) \<Rightarrow> Some (cf_attempts c h (nat (max 1 (gc_cf_retry_max c + 1))) outs None g))"


subsection \<open>The weight a bucket admits\<close>

text \<open>Passes of waiting loops over one bucket, of any callers, in the order they ran: what was admitted, and the bucket after.\<close>

fun bucket_run :: "(dec \<times> time) list \<Rightarrow> bucket \<Rightarrow> dec \<times> bucket" where
  "bucket_run [] b = (0, b)"
| "bucket_run ((need, now) # ps) b = (case bucket_step need now b of (ok, r) \<Rightarrow>
     case bucket_run ps r of (w, r) \<Rightarrow> ((if ok then need else 0) + w, r))"

text \<open>The monotonic clock does not go back.\<close>

definition in_order :: "time \<Rightarrow> (dec \<times> time) list \<Rightarrow> bool" where
  "in_order t ps \<longleftrightarrow> sorted (t # map snd ps)"

lemma in_order_simps [simp]: "in_order t []" "in_order t ((need, now) # ps) \<longleftrightarrow> t \<le> now \<and> in_order now ps"
  by (auto simp: in_order_def)

lemma bucket_refill_simps [simp]:
  "bk_rps (bucket_refill now b) = bk_rps b" "bk_burst (bucket_refill now b) = bk_burst b" "bk_last (bucket_refill now b) = now"
  by (simp_all add: bucket_refill_def)

lemma bucket_step_simps [simp]:
  "bk_rps (snd (bucket_step need now b)) = bk_rps b" "bk_burst (snd (bucket_step need now b)) = bk_burst b"
  "bk_last (snd (bucket_step need now b)) = now"
  by (simp_all add: bucket_step_def Let_def)

lemma refill_tokens:
  assumes "bk_last b \<le> now"
  shows "bk_tokens (bucket_refill now b) = min (bk_burst b) (bk_tokens b + (now - bk_last b) * bk_rps b)"
  using assms by (simp add: bucket_refill_def)

lemma step_conserves:
  assumes "bk_last b \<le> now"
  shows "bk_tokens (snd (bucket_step need now b)) + (if fst (bucket_step need now b) then need else 0)
    = min (bk_burst b) (bk_tokens b + (now - bk_last b) * bk_rps b)"
  using refill_tokens [OF assms] by (simp add: bucket_step_def Let_def)

lemma step_within_burst: "0 \<le> need \<Longrightarrow> bk_tokens (snd (bucket_step need now b)) \<le> bk_burst b"
  by (auto simp: bucket_step_def bucket_refill_def Let_def)

lemma bucket_run_Cons:
  "bucket_run ((need, now) # ps) b = ((if fst (bucket_step need now b) then need else 0) + fst (bucket_run ps (snd (bucket_step need now b))),
     snd (bucket_run ps (snd (bucket_step need now b))))"
  by (simp add: split_def)

declare bucket_run.simps(2) [simp del]

lemma run_simps [simp]:
  "bk_rps (snd (bucket_run ps b)) = bk_rps b" "bk_burst (snd (bucket_run ps b)) = bk_burst b"
  by (induction ps arbitrary: b) (auto simp: bucket_run_Cons)

lemma run_within_burst:
  "bk_tokens b \<le> bk_burst b \<Longrightarrow> list_all (\<lambda>p. 0 \<le> fst p) ps \<Longrightarrow> bk_tokens (snd (bucket_run ps b)) \<le> bk_burst b"
proof (induction ps arbitrary: b)
  case (Cons p ps)
  then show ?case using Cons.IH [of "snd (bucket_step (fst p) (snd p) b)"] step_within_burst
    by (cases p) (simp add: bucket_run_Cons)
qed simp

lemma run_nonneg:
  "0 \<le> bk_tokens b \<Longrightarrow> 0 \<le> bk_burst b \<Longrightarrow> 0 \<le> bk_rps b \<Longrightarrow> 0 \<le> bk_tokens (snd (bucket_run ps b))"
proof (induction ps arbitrary: b)
  case (Cons p ps)
  have "0 \<le> bk_tokens (snd (bucket_step (fst p) (snd p) b))"
    using Cons.prems by (auto simp: bucket_step_def bucket_refill_def Let_def)
  with Cons show ?case by (cases p) (simp add: bucket_run_Cons)
qed simp

lemma run_conserves:
  "in_order (bk_last b) ps \<Longrightarrow> 0 \<le> bk_rps b \<Longrightarrow>
    bk_tokens (snd (bucket_run ps b)) + fst (bucket_run ps b) \<le> bk_tokens b + (bk_last (snd (bucket_run ps b)) - bk_last b) * bk_rps b"
proof (induction ps arbitrary: b)
  case (Cons p ps)
  obtain need now where p: "p = (need, now)" by force
  let ?r = "snd (bucket_step need now b)"
  have "bk_tokens ?r + (if fst (bucket_step need now b) then need else 0) \<le> bk_tokens b + (now - bk_last b) * bk_rps b"
    using step_conserves [of b now need] Cons.prems p by simp
  moreover have "bk_tokens (snd (bucket_run ps ?r)) + fst (bucket_run ps ?r) \<le> bk_tokens ?r + (bk_last (snd (bucket_run ps ?r)) - now) * bk_rps b"
    using Cons.IH [of ?r] Cons.prems p by simp
  moreover have "(now - bk_last b) * bk_rps b + (bk_last (snd (bucket_run ps ?r)) - now) * bk_rps b
    = (bk_last (snd (bucket_run ps ?r)) - bk_last b) * bk_rps b" by (simp add: algebra_simps)
  ultimately show ?case by (simp add: p bucket_run_Cons)
qed simp

lemma run_last: "bk_last (snd (bucket_run ps b)) = (if ps = [] then bk_last b else snd (last ps))"
  by (induction ps arbitrary: b) (auto simp: bucket_run_Cons)

text \<open>
  Claim C32: the weight a shared bucket admits. In any stretch of whole passes over one bucket, of any
  callers in any order, the weight admitted is at most the burst plus the rate times the time the
  stretch spans. Passes over the bucket of a host are whole, because they run under its lock, so
  this holds however its callers interleave; for the buckets without a lock it holds as long as no two
  passes overlap.
\<close>

theorem admitted_within_rate:
  assumes "in_order t (pre @ (need, now) # ps)" "list_all (\<lambda>p. 0 \<le> fst p) (pre @ [(need, now)])" "0 \<le> rps"
    and b: "b = snd (bucket_run pre (new_bucket rps burst t))" and burst: "0 \<le> burst"
  shows "fst (bucket_run ((need, now) # ps) b) \<le> burst + rps * (snd (last ((need, now) # ps)) - now)"
proof -
  have ord: "in_order now ps" "bk_last b \<le> now"
    using assms(1) unfolding b by (auto simp: in_order_def sorted_append run_last new_bucket_def sorted_wrt_append)
  have t: "bk_tokens b \<le> burst" "0 \<le> bk_tokens b" "bk_rps b = rps" "bk_burst b = burst"
    using run_within_burst [of "new_bucket rps burst t" pre] run_nonneg [of "new_bucket rps burst t" pre] assms(2,3,5)
    unfolding b by (simp_all add: new_bucket_def)
  let ?r = "snd (bucket_step need now b)"
  have s: "bk_tokens ?r + (if fst (bucket_step need now b) then need else 0) \<le> burst"
    using step_conserves [OF ord(2), of need] t by simp
  have c: "bk_tokens (snd (bucket_run ps ?r)) + fst (bucket_run ps ?r) \<le> bk_tokens ?r + (bk_last (snd (bucket_run ps ?r)) - now) * rps"
    using run_conserves [of ?r ps] ord(1) assms(3) t by simp
  have "0 \<le> bk_tokens ?r" using t burst ord assms(3) by (auto simp: bucket_step_def bucket_refill_def Let_def)
  then have "0 \<le> bk_tokens (snd (bucket_run ps ?r))" using t burst assms(3) by (intro run_nonneg) simp_all
  with s c show ?thesis by (simp add: bucket_run_Cons run_last mult.commute split: if_splits)
qed


text \<open>
  Nine reads of weight ten find a user's bucket of 24 at 8 a second: two pass at once, one a second
  later, two more once it is full again.
\<close>

definition demo_passes :: "(dec \<times> time) list" where
  "demo_passes = [(10, 0), (10, 0), (10, 0), (10, 1), (10, 1), (10, 5), (10, 5), (10, 5), (10, 5)]"

lemma admitted_within_rate_witness:
  "fst (bucket_run demo_passes (new_bucket 8 24 0)) = 50 \<and> fst (bucket_run demo_passes (new_bucket 8 24 0)) \<le> 24 + 8 * (5 - 0)"
  using admitted_within_rate [of 0 "[]" 10 0 "[(10, 0), (10, 0), (10, 1), (10, 1), (10, 5), (10, 5), (10, 5), (10, 5)]" 8 "new_bucket 8 24 0" 24]
  by (simp add: demo_passes_def bucket_run_Cons bucket_step_def bucket_refill_def new_bucket_def Let_def)

text \<open>
  The wallet bucket carries ``a margin'' under the venue's 600 a minute and 100 in ten seconds, but a
  full bucket on top of the rate passes both: 180 in ten seconds, 630 in a minute.
\<close>

definition wallet_passes :: "(dec \<times> time) list" where
  "wallet_passes = [(90, 0), (90, 10), (90, 20), (90, 30), (90, 40), (90, 50), (90, 60)]"

lemma wallet_bucket_exceeds_minute:
  "fst (bucket_run wallet_passes (new_bucket (gc_wallet_rps gw_defaults) (gc_wallet_burst gw_defaults) 0)) = 630
    \<and> fst (bucket_run (take 2 wallet_passes) (new_bucket (gc_wallet_rps gw_defaults) (gc_wallet_burst gw_defaults) 0)) = 180"
  by (simp add: wallet_passes_def bucket_run_Cons bucket_step_def bucket_refill_def new_bucket_def gw_defaults_def Let_def)

subsection \<open>Passes that overlap\<close>

text \<open>
  The statements of one pass of \<open>_TokenBucket.try_acquire\<close>, one step each, of callers that share the
  bucket: the program counter of each caller, and a schedule that says who moves. The charge
  \<open>self.tokens -= need\<close> reads and then writes.
\<close>

datatype pass_pc = PP_Refill | PP_Test | PP_Load | PP_Store dec | PP_End bool

record race =
  ra_bucket :: bucket
  ra_pcs :: "pass_pc list"

definition race_step :: "dec \<Rightarrow> time \<Rightarrow> race \<Rightarrow> nat \<Rightarrow> race" where
  "race_step need now s i = (if i \<ge> length (ra_pcs s) then s else
     let b = ra_bucket s; go = (\<lambda>b pc. \<lparr>ra_bucket = b, ra_pcs = (ra_pcs s)[i := pc]\<rparr>) in
     case ra_pcs s ! i of
       PP_Refill \<Rightarrow> go (bucket_refill now b) PP_Test
     | PP_Test \<Rightarrow> go b (if bk_tokens b \<ge> need then PP_Load else PP_End False)
     | PP_Load \<Rightarrow> go b (PP_Store (bk_tokens b - need))
     | PP_Store v \<Rightarrow> go (b\<lparr>bk_tokens := v\<rparr>) (PP_End True)
     | PP_End ok \<Rightarrow> s)"

definition race_run :: "dec \<Rightarrow> time \<Rightarrow> nat list \<Rightarrow> race \<Rightarrow> race" where
  "race_run need now sched s = foldl (race_step need now) s sched"

text \<open>A caller that is not interrupted does exactly \<open>bucket_step\<close>.\<close>

lemma pass_alone:
  "race_run need now [0, 0, 0, 0] \<lparr>ra_bucket = b, ra_pcs = [PP_Refill]\<rparr>
     = \<lparr>ra_bucket = snd (bucket_step need now b), ra_pcs = [PP_End (fst (bucket_step need now b))]\<rparr>"
  by (simp add: race_run_def race_step_def bucket_step_def Let_def)

text \<open>
  A finding: two callers of a user's bucket of 24 that overlap. Both refill and test before either
  charges: both reads of weight 20 pass, and since both charges start from the same reading the bucket
  still holds 4. One after the other, the second is refused.
\<close>

lemma overlapping_passes_overdraw:
  "race_run 20 0 [0, 1, 0, 1, 0, 1, 0, 1] \<lparr>ra_bucket = new_bucket 8 24 0, ra_pcs = [PP_Refill, PP_Refill]\<rparr>
     = \<lparr>ra_bucket = (new_bucket 8 24 0)\<lparr>bk_tokens := 4\<rparr>, ra_pcs = [PP_End True, PP_End True]\<rparr>
   \<and> ra_pcs (race_run 20 0 [0, 0, 0, 0, 1, 1, 1, 1] \<lparr>ra_bucket = new_bucket 8 24 0, ra_pcs = [PP_Refill, PP_Refill]\<rparr>)
     = [PP_End True, PP_End False]"
  by (simp add: race_run_def race_step_def bucket_refill_def new_bucket_def Let_def)

subsection \<open>A call waits no longer than it said\<close>

text \<open>The readings of a caller that sleeps as long as it asked, or longer.\<close>

fun awake :: "dec \<Rightarrow> time \<Rightarrow> time list \<Rightarrow> bucket \<Rightarrow> bool" where
  "awake need deadline [] b = True"
| "awake need deadline [now] b = (bk_last b \<le> now)"
| "awake need deadline (now # later # nows) b = (bk_last b \<le> now
     \<and> now + bucket_sleep need deadline (snd (bucket_step need now b)) \<le> later \<and> awake need deadline (later # nows) (snd (bucket_step need now b)))"

lemma awake_Cons: "awake need deadline (now # nows) b \<longleftrightarrow> bk_last b \<le> now \<and>
   (case nows of [] \<Rightarrow> True | later # _ \<Rightarrow> now + bucket_sleep need deadline (snd (bucket_step need now b)) \<le> later
     \<and> awake need deadline nows (snd (bucket_step need now b)))"
  by (cases nows) simp_all

lemma loop_Cons:
  "bucket_loop need deadline (now # nows) b = (if fst (bucket_step need now b) then (Some True, snd (bucket_step need now b), nows)
     else if deadline \<le> now then (Some False, snd (bucket_step need now b), nows)
     else bucket_loop need deadline nows (snd (bucket_step need now b)))"
  by (simp add: split_def split: bool.split)

declare bucket_loop.simps(2) [simp del]

lemma step_refused:
  assumes "\<not> fst (bucket_step need now b)" "bk_last b \<le> now" "need \<le> bk_burst b"
  shows "bk_tokens (snd (bucket_step need now b)) = bk_tokens b + (now - bk_last b) * bk_rps b"
    and "bk_tokens b + (now - bk_last b) * bk_rps b < need"
  using assms refill_tokens [OF assms(2)] by (auto simp: bucket_step_def Let_def split: if_splits)

lemma step_granted:
  assumes "bk_last b \<le> now" "need \<le> bk_burst b" "need \<le> bk_tokens b + (now - bk_last b) * bk_rps b"
  shows "fst (bucket_step need now b)"
  using step_refused [OF _ assms(1,2)] assms(3) by fastforce

text \<open>What the bucket will hold at the deadline decides, whatever the readings are.\<close>

lemma loop_grants:
  assumes "awake need deadline nows b" "need \<le> bk_burst b" "0 < bk_rps b"
    and "need \<le> bk_tokens b + (deadline - bk_last b) * bk_rps b"
  shows "fst (bucket_loop need deadline nows b) \<noteq> Some False"
  using assms
proof (induction nows arbitrary: b)
  case (Cons now nows)
  show ?case
  proof (cases "fst (bucket_step need now b)")
    case False
    have le: "bk_last b \<le> now" using Cons.prems(1) by (simp add: awake_Cons)
    note r = step_refused [OF False le Cons.prems(2)]
    have "(now - bk_last b) * bk_rps b < (deadline - bk_last b) * bk_rps b" using r(2) Cons.prems(4) by linarith
    then have d: "now < deadline" using Cons.prems(3) by (simp add: mult_less_cancel_right)
    have "awake need deadline nows (snd (bucket_step need now b))" using Cons.prems(1) by (cases nows) (simp_all add: awake_Cons)
    moreover have "need \<le> bk_tokens (snd (bucket_step need now b)) + (deadline - now) * bk_rps b"
      using r(1) Cons.prems(4) by (simp add: algebra_simps)
    ultimately show ?thesis using Cons.IH [of "snd (bucket_step need now b)"] Cons.prems(2,3) False d by (simp add: loop_Cons)
  qed (simp add: loop_Cons)
qed simp

text \<open>A sleep that does not end the wait is a quarter of a second.\<close>

lemma sleep_cases:
  assumes "\<not> fst (bucket_step need now b)" "bk_last b \<le> now" "need \<le> bk_burst b" "0 < bk_rps b" "now < deadline"
    and later: "now + bucket_sleep need deadline (snd (bucket_step need now b)) \<le> later"
  shows "now \<le> later" and "fst (bucket_step need later (snd (bucket_step need now b))) \<or> deadline \<le> later \<or> now + 1 / 4 \<le> later"
proof -
  let ?r = "snd (bucket_step need now b)"
  note r = step_refused [OF assms(1-3)]
  have miss: "bk_tokens ?r < need" using r by simp
  have sl: "bucket_sleep need deadline ?r = min ((need - bk_tokens ?r) / bk_rps b) (min (1 / 4) (deadline - now))"
    using assms(4,5) by (simp add: bucket_sleep_def)
  have "0 < (need - bk_tokens ?r) / bk_rps b" using miss assms(4) by simp
  then show le: "now \<le> later" using later sl assms(5) by linarith
  consider "bucket_sleep need deadline ?r = (need - bk_tokens ?r) / bk_rps b" | "bucket_sleep need deadline ?r = 1 / 4"
    | "bucket_sleep need deadline ?r = deadline - now"
    using sl by (metis min_def)
  then show "fst (bucket_step need later ?r) \<or> deadline \<le> later \<or> now + 1 / 4 \<le> later"
  proof cases
    case 1
    then have "(need - bk_tokens ?r) / bk_rps b \<le> later - now" using later by linarith
    then have "need - bk_tokens ?r \<le> (later - now) * bk_rps b" using assms(4) by (simp add: pos_divide_le_eq)
    then have "fst (bucket_step need later ?r)" using le assms(3) by (intro step_granted) simp_all
    then show ?thesis ..
  qed (use later in auto)
qed

lemma loop_returns:
  assumes "awake need deadline (now # nows) b" "need \<le> bk_burst b" "0 < bk_rps b"
    and "4 * (deadline - now) < of_nat (length nows)"
  shows "fst (bucket_loop need deadline (now # nows) b) \<noteq> None"
  using assms
proof (induction nows arbitrary: now b)
  case Nil
  then show ?case by (auto simp: loop_Cons)
next
  case (Cons later nows)
  let ?r = "snd (bucket_step need now b)"
  show ?case
  proof (cases "fst (bucket_step need now b) \<or> deadline \<le> now")
    case True
    then show ?thesis by (auto simp: loop_Cons [of need deadline now])
  next
    case False
    have aw: "bk_last b \<le> now" "now + bucket_sleep need deadline ?r \<le> later" "awake need deadline (later # nows) ?r"
      using Cons.prems(1) by simp_all
    have "fst (bucket_loop need deadline (later # nows) ?r) \<noteq> None"
    proof (cases "fst (bucket_step need later ?r) \<or> deadline \<le> later")
      case True
      then show ?thesis by (auto simp: loop_Cons)
    next
      case go: False
      then have "now + 1 / 4 \<le> later" using sleep_cases(2) [of need now b deadline later] False aw(1,2) Cons.prems(2,3) by auto
      then have "4 * (deadline - later) < of_nat (length nows)" using Cons.prems(4) by simp
      then show ?thesis using aw(3) Cons.prems(2,3) by (intro Cons.IH) simp_all
    qed
    then show ?thesis using False by (simp add: loop_Cons [of need deadline now])
  qed
qed

text \<open>
  Claim C33: a call that sleeps as it asks returns after at most four wake-ups for every second it
  is ready to wait, and two more; it is admitted whenever the bucket would hold the weight by the deadline.
\<close>

theorem acquire_returns:
  fixes b :: bucket
  assumes aw: "awake (bucket_need cost (bk_burst b)) (start + max 0 wait) (now # nows) b" and now: "start \<le> now"
    and b: "0 < bk_rps b" "1 \<le> bk_burst b" and fuel: "4 * max 0 wait < of_nat (length nows)"
  shows "(\<exists>a. fst (bucket_acquire wait cost (start # now # nows) b) = Some a) \<and>
    (bucket_need cost (bk_burst b) \<le> bk_tokens b + (start + max 0 wait - bk_last b) * bk_rps b \<longrightarrow>
      fst (bucket_acquire wait cost (start # now # nows) b) = Some True)"
proof -
  have need: "bucket_need cost (bk_burst b) \<le> bk_burst b" using b(2) by (simp add: bucket_need_def)
  have "4 * (start + max 0 wait - now) \<le> 4 * max 0 wait" using now by simp
  also note fuel
  finally have "4 * (start + max 0 wait - now) < of_nat (length nows)" .
  from loop_returns [OF aw need b(1) this]
  obtain a where a: "fst (bucket_acquire wait cost (start # now # nows) b) = Some a" by (auto simp: bucket_acquire_def)
  have "a = True" if "bucket_need cost (bk_burst b) \<le> bk_tokens b + (start + max 0 wait - bk_last b) * bk_rps b"
    using loop_grants [OF aw need b(1) that] a by (simp add: bucket_acquire_def)
  with a show ?thesis by simp
qed

text \<open>A full read of weight 24 on a bucket that holds 8: two seconds of sleeping in quarters admit it.\<close>

definition demo_bucket :: bucket where
  "demo_bucket = \<lparr>bk_rps = 8, bk_burst = 24, bk_tokens = 8, bk_last = 0\<rparr>"

definition demo_wakes :: "time list" where
  "demo_wakes = [1 / 4, 1 / 2, 3 / 4, 1, 5 / 4, 3 / 2, 7 / 4, 2, 9 / 4]"

lemma acquire_returns_witness: "fst (bucket_acquire 2 40 (0 # 0 # demo_wakes) demo_bucket) = Some True"
proof -
  have "awake (bucket_need 40 (bk_burst demo_bucket)) (0 + max 0 2) (0 # demo_wakes) demo_bucket"
    by (simp add: demo_bucket_def demo_wakes_def bucket_need_def bucket_sleep_def bucket_step_def bucket_refill_def Let_def)
  from acquire_returns [OF this] show ?thesis by (simp add: demo_bucket_def demo_wakes_def bucket_need_def)
qed


subsection \<open>Slots in flight\<close>

text \<open>Queries and their ends, in any order, of any users; the ghost count holds what was granted and not ended.\<close>

datatype gw_op = Query string "int option" dec "dec option" time "time list" | Finish int | Other string string dec "string option" time "time list"

fun gw_serve :: "gw_config \<Rightarrow> gw_op \<Rightarrow> (int \<Rightarrow> int) \<times> gateway \<Rightarrow> (int \<Rightarrow> int) \<times> gateway" where
  "gw_serve c (Query h user weight max_wait wall nows) (held, g) =
     (case try_acquire c h user weight ''query'' None max_wait wall nows g of (a, g) \<Rightarrow>
       (case user of None \<Rightarrow> held | Some uid \<Rightarrow> if a = Some False then held else held(uid := held uid + 1), g))"
| "gw_serve c (Finish uid) (held, g) = (if held uid \<le> 0 then (held, g) else (held(uid := held uid - 1), release (Some uid) g))"
| "gw_serve c (Other h kind weight wallet wall nows) (held, g) =
     (held, if kind = ''edge'' \<or> kind = ''execute'' then snd (try_acquire c h None weight kind wallet None wall nows g) else g)"

definition slots_agree :: "gw_config \<Rightarrow> (int \<Rightarrow> int) \<times> gateway \<Rightarrow> bool" where
  "slots_agree c s = (case s of (held, g) \<Rightarrow> \<forall>uid. inflight uid g = held uid \<and> 0 \<le> held uid \<and> held uid \<le> max 0 (gc_user_inflight c))"

lemma inflight_release: "inflight v (release (Some u) g) = (if v = u then (if inflight u g \<le> 1 then 0 else inflight u g - 1) else inflight v g)"
  by (simp add: release_def inflight_def)

lemma inflight_frame:
  "inflight v (snd (charge_user c user wait w nows g)) = inflight v g"
  "inflight v (fst (snd (throttle_host c h cost max_wait nows g))) = inflight v g"
  "inflight v (snd (acquire_edge c h wait' w wall nows g)) = inflight v g"
  "inflight v (snd (acquire_execute c h wallet wait' w wall nows g)) = inflight v g"
  by (auto simp: charge_user_def throttle_host_def acquire_edge_def acquire_execute_def inflight_def Let_def
      split: option.splits prod.splits list.splits)

lemma inflight_charge: "inflight v (snd (charge_query c h user wait w nows g)) = inflight v g"
proof -
  obtain a g1 rest where t: "throttle_host c h w (Some wait) nows g = (a, g1, rest)" by (metis prod_cases3)
  then have "inflight v g1 = inflight v g" using inflight_frame(2) [of v c h w "Some wait" nows g] by simp
  then show ?thesis by (simp add: charge_query_def t inflight_frame split: option.split bool.split)
qed

lemma settle_simps:
  "fst (settle user r) = fst r"
  "inflight v (snd (settle user r)) = (if fst r = Some False then inflight v (release user (snd r)) else inflight v (snd r))"
  by (auto simp: settle_def split: option.split bool.split)

lemma take_slot_cases:
  "take_slot c (Some u) g = (if inflight u g \<ge> gc_user_inflight c then (False, g)
     else (True, g\<lparr>gw_inflight := od_set u (inflight u g + 1) (gw_inflight g)\<rparr>))"
  "take_slot c None g = (True, g)"
  by (simp_all add: take_slot_def)

lemma inflight_taken: "inflight v (g\<lparr>gw_inflight := od_set u n (gw_inflight g)\<rparr>) = (if v = u then n else inflight v g)"
  by (simp add: inflight_def)

lemma inflight_query:
  assumes "0 \<le> inflight v g"
  shows "inflight v (snd (acquire_query c h user wait w wall nows g)) = inflight v g +
     (if user = Some v \<and> fst (acquire_query c h user wait w wall nows g) \<noteq> Some False then 1 else 0)"
proof (cases user)
  case None
  then show ?thesis by (simp add: acquire_query_def take_slot_def settle_simps inflight_charge release_def)
next
  case (Some u)
  consider "is_gateway_blocked h wall g \<or> gc_user_inflight c \<le> inflight u g"
    | "\<not> is_gateway_blocked h wall g" "\<not> gc_user_inflight c \<le> inflight u g" by blast
  then show ?thesis
  proof cases
    case 1
    then show ?thesis by (auto simp: acquire_query_def take_slot_cases Some)
  next
    case 2
    then show ?thesis using assms
      by (auto simp: acquire_query_def take_slot_cases Some settle_simps inflight_release inflight_charge inflight_taken)
  qed
qed

lemma query_slot_free:
  "fst (acquire_query c h (Some u) wait w wall nows g) \<noteq> Some False \<Longrightarrow> inflight u g < gc_user_inflight c"
  by (auto simp: acquire_query_def take_slot_def split: if_splits)

lemma slots_serve: "slots_agree c s \<Longrightarrow> slots_agree c (gw_serve c op s)"
proof (cases op)
  case (Query h user weight max_wait wall nows)
  assume s: "slots_agree c s"
  obtain held g where hg: "s = (held, g)" by force
  have agree: "inflight v g = held v" "0 \<le> held v" "held v \<le> max 0 (gc_user_inflight c)" for v using s by (auto simp: hg slots_agree_def)
  define r where "r = acquire_query c h user (case max_wait of None \<Rightarrow> gc_user_wait c | Some m \<Rightarrow> m) (max 1 weight) wall nows g"
  have serve: "gw_serve c op s = (case user of None \<Rightarrow> held | Some uid \<Rightarrow> if fst r = Some False then held else held(uid := held uid + 1), snd r)"
    by (simp add: Query hg try_acquire_def Let_def split_def flip: r_def split: option.split)
  have q: "inflight v (snd r) = held v + (if user = Some v \<and> fst r \<noteq> Some False then 1 else 0)" for v
    unfolding r_def using inflight_query [of v g] agree by simp
  have cap: "held u < gc_user_inflight c" if "user = Some u" "fst r \<noteq> Some False" for u
    using query_slot_free that agree(1) unfolding r_def by metis
  show ?thesis
  proof (cases user)
    case None
    then show ?thesis using q agree by (simp add: serve slots_agree_def)
  next
    case (Some u)
    then show ?thesis using q agree cap by (fastforce simp: serve slots_agree_def)
  qed
next
  case (Finish u)
  assume "slots_agree c s"
  then obtain held g where "s = (held, g)" "inflight v g = held v" "0 \<le> held v" "held v \<le> max 0 (gc_user_inflight c)" for v
    by (cases s) (auto simp: slots_agree_def)
  then show ?thesis by (simp add: Finish slots_agree_def inflight_release) (smt (verit))
next
  case (Other h kind weight wallet wall nows)
  assume "slots_agree c s"
  then show ?thesis by (cases s) (simp add: Other slots_agree_def try_acquire_def inflight_frame Let_def)
qed

text \<open>
  Claim C34: a user's count in flight is the number of queries granted and not ended, whatever the
  order of queries, refusals, ends and other calls; it never passes the cap, and no slot leaks.
\<close>

theorem slots_never_leak:
  "case fold (gw_serve c) ops ((\<lambda>_. 0), gw_new) of (held, g) \<Rightarrow>
     inflight uid g = held uid \<and> 0 \<le> held uid \<and> held uid \<le> max 0 (gc_user_inflight c)"
proof -
  have "slots_agree c (fold (gw_serve c) ops s)" if "slots_agree c s" for s
    using that by (induction ops arbitrary: s) (simp_all add: slots_serve)
  moreover have "slots_agree c ((\<lambda>_. 0), gw_new)" by (simp add: slots_agree_def inflight_def gw_new_def)
  ultimately have "slots_agree c (fold (gw_serve c) ops ((\<lambda>_. 0), gw_new))" .
  then show ?thesis by (auto simp: slots_agree_def)
qed

subsection \<open>Executes and the query storm\<close>

text \<open>An order or a cancel does not see the rate limit of queries, the host's bucket or the users' shares.\<close>

lemma executes_ignore_queries:
  "fst (try_acquire c h user weight ''execute'' wallet max_wait wall nows
      (g\<lparr>gw_rl := rl, gw_hosts := hosts, gw_users := users, gw_inflight := slots, gw_edges := edges, gw_edge_rl := edge_rl\<rparr>))
    = fst (try_acquire c h user weight ''execute'' wallet max_wait wall nows g)"
  by (auto simp: try_acquire_def acquire_execute_def is_circuit_open_def is_write_blocked_def Let_def split: prod.splits)

lemma executes_parked:
  assumes "is_write_blocked h wall g \<or> is_circuit_open h wall g"
  shows "try_acquire c h user weight ''execute'' wallet max_wait wall nows g = (Some False, g)"
  using assms by (auto simp: try_acquire_def acquire_execute_def Let_def)

lemma write_ban_opens:
  "h \<noteq> [] \<Longrightarrow> is_write_blocked h now' (record_ip_query_only c h now g) \<longleftrightarrow> now' < now + gc_write_ban c"
  by (simp add: is_write_blocked_def timer_open_def record_ip_query_only_def)

subsection \<open>Breakers and retries\<close>

lemma breaker_opens_iff:
  assumes "h \<noteq> []" "\<not> breaker_open h now tbl" "0 < cooldown"
    and "fails = (case map_of tbl h of None \<Rightarrow> [] | Some s \<Rightarrow> filter (\<lambda>t. t \<ge> now - window) (br_failures s))" and "0 \<le> now"
  shows "breaker_open h now (breaker_record threshold window cooldown h now tbl) \<longleftrightarrow> threshold \<le> Suc (length fails)"
  using assms by (cases "map_of tbl h") (auto simp: breaker_record_def breaker_open_def Let_def)

text \<open>A challenged request comes back as the last challenge, not as nothing.\<close>

lemma cf_exhausted_returns_challenge:
  assumes "length outs = Suc n" "list_all (\<lambda>p. case fst p of Response r \<Rightarrow> is_cloudflare_challenge r | Transport_Error \<Rightarrow> False) outs"
  shows "\<exists>r now. outs \<noteq> [] \<and> last outs = (Response r, now) \<and> fst (cf_attempts c h (Suc n) outs prev g) = Some r"
  using assms
proof (induction n arbitrary: outs prev g)
  case 0
  then show ?case by (cases outs) (auto split: http_out.splits)
next
  case (Suc n)
  then obtain r now rest where o: "outs = (Response r, now) # rest" "is_cloudflare_challenge r" "length rest = Suc n"
    by (cases outs) (auto split: http_out.splits)
  then show ?case using Suc.IH [of rest "Some r" "record_challenge c h now g"] Suc.prems(2) by auto
qed

end
