(* ===== verification/Order_Intents.thy ===== *)
theory Order_Intents
  imports Engine_Types Mm_Pricing
begin

text \<open>
  The guard against sending an order twice: \<open>trading/order_intents.py\<close> and the rows of
  \<open>models/database.py\<close> it keeps. Each SQL statement is one atomic step on the table, as Postgres runs it,
  with the database's own clock; a worker's clock only stamps the payload. A statement that raises is the
  argument \<open>up = False\<close>. SHA-256 is a parameter, the hash of the normalised request. Of the payload's
  keys those the code reads are fields, the others an association list. A row's value is kept as the
  dictionary it decodes to.
\<close>

subsection \<open>Intents\<close>

record intent =
  in_id :: "string option"
  in_status :: "string option"
  in_created :: "time option"
  in_updated :: "time option"
  in_trade :: "int option"
  in_digest :: "string option"
  in_rest :: "string odict"

definition empty_intent :: intent where
  "empty_intent = \<lparr>in_id = None, in_status = None, in_created = None, in_updated = None, in_trade = None, in_digest = None, in_rest = []\<rparr>"

definition ACTIVE_STATUSES :: "string list" where
  "ACTIVE_STATUSES = [''pending'', ''recorded'', ''submitted'', ''filled'']"

definition active :: "string option \<Rightarrow> bool" where
  "active s = (case s of None \<Rightarrow> False | Some t \<Rightarrow> t \<in> set ACTIVE_STATUSES)"

text \<open>\<open>status or "pending"\<close>.\<close>

definition status_or :: "string option \<Rightarrow> string \<Rightarrow> string" where
  "status_or s d = (case s of None \<Rightarrow> d | Some t \<Rightarrow> if t = [] then d else t)"

record request =
  rq_user :: int
  rq_network :: string
  rq_session :: "int option"
  rq_source :: string
  rq_product :: string
  rq_side :: string
  rq_size :: dec
  rq_reduce :: bool
  rq_price :: "dec option"
  rq_nonce :: "string option"

definition round10 :: "dec \<Rightarrow> dec" where
  "round10 x = of_int (round_even (x * 10 ^ 10)) / 10 ^ 10"

definition build_intent_id :: "(request \<Rightarrow> string) \<Rightarrow> request \<Rightarrow> string" where
  "build_intent_id sha r = take 24 (sha (r\<lparr>rq_product := upper_str (rq_product r), rq_side := lower_str (rq_side r),
     rq_size := round10 (rq_size r), rq_price := map_option round10 (rq_price r),
     rq_nonce := (case rq_nonce r of Some n \<Rightarrow> if n = [] then None else Some n | None \<Rightarrow> None)\<rparr>))"

subsection \<open>The table and the cache\<close>

record intent_row =
  ir_status :: string
  ir_value :: intent
  ir_trade :: "int option"
  ir_digest :: "string option"
  ir_updated :: time

record intents =
  it_rows :: "intent_row odict"
  it_state :: "intent odict"

definition put_row :: "string \<Rightarrow> intent \<Rightarrow> time \<Rightarrow> intents \<Rightarrow> intents" where
  "put_row i p now db = db\<lparr>it_rows := od_set i \<lparr>ir_status = status_or (in_status p) ''pending'', ir_value = p, ir_trade = in_trade p,
     ir_digest = in_digest p, ir_updated = now\<rparr> (it_rows db)\<rparr>"

text \<open>\<open>INSERT .. ON CONFLICT DO UPDATE .. WHERE\<close>: the row when it was inserted or taken over, nothing when it is held.\<close>

definition reserve_order_intent_row :: "string \<Rightarrow> intent \<Rightarrow> int \<Rightarrow> time \<Rightarrow> intents \<Rightarrow> intent_row option \<times> intents" where
  "reserve_order_intent_row i p stale now db = (case map_of (it_rows db) i of
     None \<Rightarrow> (map_of (it_rows (put_row i p now db)) i, put_row i p now db)
   | Some r \<Rightarrow> if ir_status r \<notin> set ACTIVE_STATUSES \<or> ir_updated r < now - of_int stale
       then (map_of (it_rows (put_row i p now db)) i, put_row i p now db) else (None, db))"

definition update_order_intent_row :: "string \<Rightarrow> intent \<Rightarrow> time \<Rightarrow> intents \<Rightarrow> intent_row option \<times> intents" where
  "update_order_intent_row i p now db = (case map_of (it_rows db) i of None \<Rightarrow> (None, db)
   | Some r \<Rightarrow> (map_of (it_rows (put_row i p now db)) i, put_row i p now db))"

definition get_order_intent_row :: "string \<Rightarrow> intents \<Rightarrow> intent option" where
  "get_order_intent_row i db = (case map_of (it_rows db) i of None \<Rightarrow> None
   | Some r \<Rightarrow> let v = ir_value r in
       Some (v\<lparr>in_id := Some (case in_id v of None \<Rightarrow> i | Some x \<Rightarrow> x), in_status := Some (status_or (Some (ir_status r)) (status_or (in_status v) [])),
         in_trade := (case ir_trade r of None \<Rightarrow> in_trade v | Some t \<Rightarrow> Some t),
         in_digest := (case ir_digest r of None \<Rightarrow> in_digest v | Some d \<Rightarrow> if d = [] then in_digest v else Some d)\<rparr>))"

definition state_key :: "string \<Rightarrow> string" where "state_key i = ''order_intent:'' @ i"

definition set_state :: "string \<Rightarrow> intent \<Rightarrow> intents \<Rightarrow> intents" where
  "set_state i p db = db\<lparr>it_state := od_set (state_key i) p (it_state db)\<rparr>"

definition get_order_intent :: "bool \<Rightarrow> string \<Rightarrow> intents \<Rightarrow> intent option" where
  "get_order_intent up i db = (case (if up then get_order_intent_row i db else None) of
     Some p \<Rightarrow> Some p | None \<Rightarrow> map_of (it_state db) (state_key i))"

subsection \<open>Reserving\<close>

datatype intent_error = OrderIntentReservationError

definition stamp :: "string \<Rightarrow> time \<Rightarrow> intent \<Rightarrow> intent" where
  "stamp i now p = p\<lparr>in_id := Some i, in_status := Some ''pending'', in_created := Some now, in_updated := Some now\<rparr>"

text \<open>\<open>now\<close> is the worker's clock, \<open>dbnow\<close> the database's.\<close>

definition reserve_order_intent :: "bool \<Rightarrow> string \<Rightarrow> intent \<Rightarrow> int \<Rightarrow> time \<Rightarrow> time \<Rightarrow> intents \<Rightarrow> (intent_error + bool \<times> intent) \<times> intents" where
  "reserve_order_intent up i data max_age now dbnow db = (if \<not> up then (Inl OrderIntentReservationError, db)
     else let payload = stamp i now data in
       case reserve_order_intent_row i payload max_age dbnow db of
         (Some r, db) \<Rightarrow> let v = ir_value r; res = v\<lparr>in_id := Some (case in_id v of None \<Rightarrow> i | Some x \<Rightarrow> x),
             in_status := (if ir_status r \<noteq> [] then Some (ir_status r) else in_status v)\<rparr> in
           (if active (map_option lower_str (in_status res)) \<and> in_created res \<noteq> in_created payload
            then (Inr (False, res), db) else (Inr (True, res), db))
       | (None, db) \<Rightarrow> (Inr (False, (case get_order_intent up i db of Some p \<Rightarrow> p | None \<Rightarrow> empty_intent\<lparr>in_id := Some i\<rparr>)), db))"

definition intent_age :: "time \<Rightarrow> intent \<Rightarrow> dec" where
  "intent_age now p = now - or_dec (in_updated p) (or_dec (in_created p) 0)"

definition reserve_order_intent_unsafe_cache_only :: "string \<Rightarrow> intent \<Rightarrow> int \<Rightarrow> time \<Rightarrow> intents \<Rightarrow> (bool \<times> intent) \<times> intents" where
  "reserve_order_intent_unsafe_cache_only i data max_age now db = (let payload = stamp i now data in
     case map_of (it_state db) (state_key i) of
       Some e \<Rightarrow> if intent_age now e \<le> of_int max_age \<and> active (in_status e) then ((False, e), db) else ((True, payload), set_state i payload db)
     | None \<Rightarrow> ((True, payload), set_state i payload db))"

definition create_order_intent :: "bool \<Rightarrow> string \<Rightarrow> intent \<Rightarrow> time \<Rightarrow> time \<Rightarrow> intents \<Rightarrow> intent \<times> intents" where
  "create_order_intent up i data now dbnow db = (case (case reserve_order_intent up i data 120 now dbnow db of
       (Inl _, db) \<Rightarrow> reserve_order_intent_unsafe_cache_only i data 120 now db
     | (Inr r, db) \<Rightarrow> (r, db)) of
     ((reserved, payload), db) \<Rightarrow> if reserved \<or> active (in_status payload) then (payload, db)
       else let p = payload\<lparr>in_status := Some ''pending'', in_updated := Some now\<rparr> in (p, set_state i p db))"

text \<open>\<open>payload.update(updates)\<close>, as a function; reading and writing back are two steps of the database.\<close>

definition update_payload :: "bool \<Rightarrow> string \<Rightarrow> (intent \<Rightarrow> intent) \<Rightarrow> time \<Rightarrow> intents \<Rightarrow> intent" where
  "update_payload up i updates now db =
     (updates (case get_order_intent up i db of Some p \<Rightarrow> p | None \<Rightarrow> empty_intent\<lparr>in_id := Some i\<rparr>))\<lparr>in_updated := Some now\<rparr>"

definition update_write :: "bool \<Rightarrow> string \<Rightarrow> intent \<Rightarrow> time \<Rightarrow> intents \<Rightarrow> intents" where
  "update_write up i payload dbnow db = (case (if up then update_order_intent_row i payload dbnow db else (None, db)) of
     (None, db) \<Rightarrow> set_state i payload db | (Some _, db) \<Rightarrow> db)"

definition update_order_intent :: "bool \<Rightarrow> bool \<Rightarrow> string \<Rightarrow> (intent \<Rightarrow> intent) \<Rightarrow> time \<Rightarrow> time \<Rightarrow> intents \<Rightarrow> intent \<times> intents" where
  "update_order_intent up_get up_put i updates now dbnow db = (let p = update_payload up_get i updates now db in (p, update_write up_put i p dbnow db))"

definition should_skip_duplicate :: "bool \<Rightarrow> string \<Rightarrow> int \<Rightarrow> time \<Rightarrow> intents \<Rightarrow> bool \<times> intent option" where
  "should_skip_duplicate up i max_age now db = (case get_order_intent up i db of None \<Rightarrow> (False, None)
     | Some e \<Rightarrow> (intent_age now e \<le> of_int max_age \<and> active (in_status e), Some e))"

definition link_digest_intent :: "bool \<Rightarrow> string \<Rightarrow> string \<Rightarrow> string odict \<Rightarrow> time \<Rightarrow> intents \<Rightarrow> bool \<times> intents" where
  "link_digest_intent up digest network tags dbnow db = (if digest = [] \<or> \<not> up then (False, db)
     else let i = ''close:'' @ network @ '':'' @ digest; v = empty_intent\<lparr>in_rest := tags\<rparr> in
       (True, db\<lparr>it_rows := (case map_of (it_rows db) i of
          None \<Rightarrow> od_set i \<lparr>ir_status = ''filled'', ir_value = v, ir_trade = None, ir_digest = Some digest, ir_updated = dbnow\<rparr> (it_rows db)
        | Some r \<Rightarrow> od_set i (r\<lparr>ir_value := v, ir_digest := Some digest, ir_updated := dbnow\<rparr>) (it_rows db))\<rparr>))"

subsection \<open>The lease\<close>

text \<open>The database as every worker drives it: each operation is one statement, with the database's clock.\<close>

datatype intent_op =
    Reserve bool string intent int time
  | Write bool string intent
  | Cache string intent time
  | Link bool string string "string odict"

fun intent_step :: "intent_op \<times> time \<Rightarrow> intents \<Rightarrow> intents" where
  "intent_step (Reserve up i data max_age now, dbnow) db = snd (reserve_order_intent up i data max_age now dbnow db)"
| "intent_step (Write up i p, dbnow) db = update_write up i p dbnow db"
| "intent_step (Cache i data now, dbnow) db = snd (reserve_order_intent_unsafe_cache_only i data 120 now db)"
| "intent_step (Link up digest network tags, dbnow) db = snd (link_digest_intent up digest network tags dbnow db)"

definition intent_run :: "(intent_op \<times> time) list \<Rightarrow> intents \<Rightarrow> intents" where
  "intent_run ops db = fold intent_step ops db"

text \<open>An update that lets go of the intent: it marks it failed, cancelled or expired.\<close>

fun lets_go :: "string \<Rightarrow> intent_op \<Rightarrow> bool" where
  "lets_go i (Write up j p) \<longleftrightarrow> j = i \<and> \<not> active (Some (status_or (in_status p) ''pending''))"
| "lets_go i _ \<longleftrightarrow> False"

text \<open>The intent is held: an active row, written at \<open>since\<close> or later.\<close>

definition held :: "string \<Rightarrow> time \<Rightarrow> intents \<Rightarrow> bool" where
  "held i since db = (case map_of (it_rows db) i of None \<Rightarrow> False | Some r \<Rightarrow> active (Some (ir_status r)) \<and> since \<le> ir_updated r)"

definition granted :: "(intent_error + bool \<times> intent) \<times> intents \<Rightarrow> bool" where
  "granted r = (case fst r of Inr (True, _) \<Rightarrow> True | _ \<Rightarrow> False)"

lemma put_row_get [simp]:
  "map_of (it_rows (put_row j p now db)) i = (if i = j then
     Some \<lparr>ir_status = status_or (in_status p) ''pending'', ir_value = p, ir_trade = in_trade p, ir_digest = in_digest p, ir_updated = now\<rparr>
     else map_of (it_rows db) i)"
  by (simp add: put_row_def del: map_of_eq_Some_iff)

lemma held_put: "held i since (put_row j p now db) \<longleftrightarrow>
   (if i = j then active (Some (status_or (in_status p) ''pending'')) \<and> since \<le> now else held i since db)"
  by (simp add: held_def del: map_of_eq_Some_iff)

lemma held_state [simp]: "held i since (set_state j p db) = held i since db"
  by (simp add: held_def set_state_def)

lemma stamp_simps [simp]: "in_status (stamp i now p) = Some ''pending''" "in_created (stamp i now p) = Some now"
  by (simp_all add: stamp_def)

lemma pending_active [simp]: "active (Some ''pending'')" "status_or (Some ''pending'') d = ''pending''" "lower_str ''pending'' = ''pending''"
  by (simp_all add: active_def ACTIVE_STATUSES_def status_or_def lower_str_def lower_char_def)

text \<open>A reservation is granted exactly when the row is free, let go or stale, and it then holds the intent.\<close>

lemma reserve_db: "snd (reserve_order_intent up i data max_age now dbnow db) =
   (if up \<and> \<not> held i (dbnow - of_int max_age) db then put_row i (stamp i now data) dbnow db else db)"
  by (auto simp: reserve_order_intent_def reserve_order_intent_row_def held_def active_def Let_def not_less
      simp del: map_of_eq_Some_iff split: option.split)

lemma reserve_granted:
  "granted (reserve_order_intent up i data max_age now dbnow db) \<longleftrightarrow> up \<and> \<not> held i (dbnow - of_int max_age) db"
  by (auto simp: granted_def reserve_order_intent_def reserve_order_intent_row_def held_def active_def Let_def not_less
      simp del: map_of_eq_Some_iff split: option.split)

lemma held_mono: "held i t db \<Longrightarrow> s \<le> t \<Longrightarrow> held i s db"
  by (auto simp: held_def split: option.splits)


lemma write_db: "update_write up j p dbnow db =
   (if up \<and> map_of (it_rows db) j \<noteq> None then put_row j p dbnow db else set_state j p db)"
  by (auto simp: update_write_def update_order_intent_row_def simp del: map_of_eq_Some_iff split: option.split)

lemma cache_rows: "it_rows (snd (reserve_order_intent_unsafe_cache_only j data age now db)) = it_rows db"
  by (simp add: reserve_order_intent_unsafe_cache_only_def set_state_def Let_def split: option.split)

lemma held_link: "held i since db \<Longrightarrow> since \<le> dbnow \<Longrightarrow> held i since (snd (link_digest_intent up digest network tags dbnow db))"
  by (auto simp: link_digest_intent_def held_def Let_def active_def ACTIVE_STATUSES_def simp del: map_of_eq_Some_iff split: option.splits)

lemma held_step:
  assumes "held i since db" "since \<le> snd op" "\<not> lets_go i (fst op)"
  shows "held i since (intent_step op db)"
proof (cases op)
  case (Pair o' dbnow)
  show ?thesis
  proof (cases o')
    case (Write up j p)
    then show ?thesis using assms by (auto simp: Pair write_db held_put)
  next
    case (Cache j data now)
    then show ?thesis using assms by (simp add: Pair held_def cache_rows)
  qed (use assms in \<open>auto simp: Pair reserve_db held_put intro: held_link\<close>)
qed

lemma held_run:
  "held i since db \<Longrightarrow> list_all (\<lambda>op. since \<le> snd op \<and> \<not> lets_go i (fst op)) ops \<Longrightarrow> held i since (intent_run ops db)"
  by (induction ops arbitrary: db) (simp_all add: intent_run_def held_step)

text \<open>
  Claim C35: an order intent is a lease. After a reservation is granted, and whatever any workers do in
  between as long as none lets go of the intent, no reservation of it is granted again before its
  time has run out; a reservation whose statement fails is refused with an error, never granted.
\<close>

theorem one_lease:
  assumes first: "granted (reserve_order_intent up i data max_age now t db)"
    and ops: "list_all (\<lambda>op. t \<le> snd op \<and> \<not> lets_go i (fst op)) ops"
    and again: "granted (reserve_order_intent up' i data' max_age' now' t' (intent_run ops (snd (reserve_order_intent up i data max_age now t db))))"
  shows "up \<and> up' \<and> t + of_int max_age' < t'"
proof -
  have up: "up" "up'" using first again by (simp_all add: reserve_granted)
  have "held i t (snd (reserve_order_intent up i data max_age now t db))"
    using first by (simp add: reserve_granted reserve_db held_put)
  from held_run [OF this ops] have "held i t (intent_run ops (snd (reserve_order_intent up i data max_age now t db)))" .
  moreover have "\<not> held i (t' - of_int max_age') (intent_run ops (snd (reserve_order_intent up i data max_age now t db)))"
    using again by (simp only: reserve_granted) simp
  ultimately have "\<not> t' - of_int max_age' \<le> t" using held_mono by blast
  with up show ?thesis by simp
qed

definition no_intents :: intents where "no_intents = \<lparr>it_rows = [], it_state = []\<rparr>"

lemma held_none [simp]: "\<not> held i since no_intents"
  by (simp add: held_def no_intents_def)

text \<open>A worker submits, marks the order recorded, a second worker is refused, and the intent goes stale after two minutes.\<close>

definition demo_marks :: "(intent_op \<times> time) list" where
  "demo_marks = [(Write True ''i'' (empty_intent\<lparr>in_status := Some ''recorded''\<rparr>), 1), (Reserve True ''i'' empty_intent 120 50, 50)]"

lemma demo_lease:
  "granted (reserve_order_intent True ''i'' empty_intent 120 0 0 no_intents)"
  "granted (reserve_order_intent True ''i'' empty_intent 120 130 130
     (intent_run demo_marks (snd (reserve_order_intent True ''i'' empty_intent 120 0 0 no_intents))))"
  by (simp_all add: reserve_granted reserve_db demo_marks_def intent_run_def write_db held_put empty_intent_def status_or_def)
    (simp_all add: active_def ACTIVE_STATUSES_def)

lemma one_lease_witness:
  "granted (reserve_order_intent True ''i'' empty_intent 120 130 130
     (intent_run demo_marks (snd (reserve_order_intent True ''i'' empty_intent 120 0 0 no_intents)))) \<and> (0::rat) + 120 < 130"
proof -
  have "list_all (\<lambda>op. 0 \<le> snd op \<and> \<not> lets_go ''i'' (fst op)) demo_marks"
    by (simp add: demo_marks_def status_or_def active_def ACTIVE_STATUSES_def)
  from one_lease [OF demo_lease(1) this demo_lease(2)] demo_lease(2) show ?thesis by simp
qed

text \<open>
  The lease has no owner. A worker whose intent went stale and was taken over still lets go of it when
  its own order is refused, and a third reservation is granted while the second is two seconds old.
\<close>

definition stale_owner :: "(intent_op \<times> time) list" where
  "stale_owner = [(Reserve True ''i'' empty_intent 120 0, 0), (Reserve True ''i'' empty_intent 120 130, 130),
     (Write True ''i'' (empty_intent\<lparr>in_status := Some ''failed''\<rparr>), 131)]"

lemma stale_owner_frees_lease:
  "granted (reserve_order_intent True ''i'' empty_intent 120 130 130 (intent_run (take 1 stale_owner) no_intents))
    \<and> granted (reserve_order_intent True ''i'' empty_intent 120 132 132 (intent_run stale_owner no_intents))"
  by (simp add: stale_owner_def intent_run_def reserve_granted reserve_db write_db held_put empty_intent_def status_or_def)
    (simp add: active_def ACTIVE_STATUSES_def)

text \<open>The cache alone grants two processes: the second read comes before the first write.\<close>

lemma cache_race:
  assumes "map_of (it_state db) (state_key i) = None"
  shows "fst (fst (reserve_order_intent_unsafe_cache_only i d1 120 now1 db)) \<and> fst (fst (reserve_order_intent_unsafe_cache_only i d2 120 now2 db))"
  using assms by (simp add: reserve_order_intent_unsafe_cache_only_def Let_def del: map_of_eq_None_iff)

text \<open>Requests that differ only in case, rounding or an empty nonce are one intent.\<close>

lemma round10_int: "round10 (of_int n / 10 ^ 10) = of_int n / 10 ^ 10"
  by (simp add: round10_def round_even_def Let_def)

lemma intent_id_normal:
  "rq_product r = upper_str p \<Longrightarrow> upper_str (upper_str p) = upper_str p \<Longrightarrow> build_intent_id sha (r\<lparr>rq_product := p\<rparr>) = build_intent_id sha r"
  by (simp add: build_intent_id_def)

end
