(* ===== verification/Daily_Budget.thy ===== *)
theory Daily_Budget
  imports Engine_Types Mm_Pricing
begin

text \<open>
  The daily loss budget and the exposure registry of \<open>trading/risk_budget.py\<close>. Rows live in \<open>bot_state\<close>
  under a string key; here the key is the tuple of its parts, the date the number of the UTC day. The clock,
  in seconds of UTC, is an argument. A stored number that is missing or \<open>None\<close> reads as zero.
\<close>

subsection \<open>The budget of a day\<close>

definition DEFAULT_HARD_STOP_COOLDOWN_SECONDS :: int where "DEFAULT_HARD_STOP_COOLDOWN_SECONDS = 4 * 3600"
definition EXPOSURE_STALE_SECONDS :: dec where "EXPOSURE_STALE_SECONDS = 600"

definition KNOWN_STRATEGIES :: "string list" where
  "KNOWN_STRATEGIES = [''grid'', ''rgrid'', ''dgrid'', ''mid'', ''dn'', ''vol'', ''bro'']"

definition utc_date :: "time \<Rightarrow> int" where "utc_date now = \<lfloor>now / 86400\<rfloor>"

type_synonym budget_key = "int \<times> string \<times> string \<times> int"
type_synonym exposure_key = "int \<times> string \<times> string \<times> string"

definition make_budget_key :: "int \<Rightarrow> string \<Rightarrow> string \<Rightarrow> time \<Rightarrow> budget_key" where
  "make_budget_key uid network product now = (uid, network, upper_str product, utc_date now)"

definition make_exposure_key :: "int \<Rightarrow> string \<Rightarrow> string \<Rightarrow> string \<Rightarrow> exposure_key" where
  "make_exposure_key uid network product strategy = (uid, network, upper_str product, lower_str strategy)"

record budget_row =
  bu_realized :: dec
  bu_mtm :: dec
  bu_low :: dec
  bu_hard_until :: time
  bu_updated :: time

record exposure_row =
  ex_net :: dec
  ex_inv :: dec
  ex_updated :: time

record budgets =
  bs_rows :: "(budget_key \<times> budget_row) list"
  bs_exposure :: "(exposure_key \<times> exposure_row) list"

definition round6 :: "dec \<Rightarrow> dec" where "round6 x = of_int (round_even (x * 10 ^ 6)) / 10 ^ 6"
definition round8 :: "dec \<Rightarrow> dec" where "round8 x = of_int (round_even (x * 10 ^ 8)) / 10 ^ 8"

definition load_budget_row :: "budget_key \<Rightarrow> budgets \<Rightarrow> budget_row" where
  "load_budget_row k st = (case map_of (bs_rows st) k of
     None \<Rightarrow> \<lparr>bu_realized = 0, bu_mtm = 0, bu_low = 0, bu_hard_until = 0, bu_updated = 0\<rparr> | Some r \<Rightarrow> r)"

definition save_budget_row :: "budget_key \<Rightarrow> budget_row \<Rightarrow> time \<Rightarrow> budgets \<Rightarrow> budgets" where
  "save_budget_row k r now st = st\<lparr>bs_rows := od_set k (r\<lparr>bu_updated := now\<rparr>) (bs_rows st)\<rparr>"

definition record_pnl_snapshot :: "budget_key \<Rightarrow> dec \<Rightarrow> time \<Rightarrow> budgets \<Rightarrow> dec \<times> budgets" where
  "record_pnl_snapshot k mtm now st = (let r = load_budget_row k st;
     r = r\<lparr>bu_mtm := round6 mtm, bu_low := round6 (min (bu_low r) mtm)\<rparr> in
   (round6 (bu_realized r + mtm), save_budget_row k r now st))"

definition record_realized_pnl :: "budget_key \<Rightarrow> dec \<Rightarrow> time \<Rightarrow> budgets \<Rightarrow> dec \<times> budgets" where
  "record_realized_pnl k realized now st = (let r = load_budget_row k st; total = bu_realized r + realized in
   (round6 (total + bu_mtm r), save_budget_row k (r\<lparr>bu_realized := round6 total\<rparr>) now st))"

definition get_daily_pnl :: "budget_key \<Rightarrow> budgets \<Rightarrow> dec" where
  "get_daily_pnl k st = (let r = load_budget_row k st in round6 (bu_realized r + bu_mtm r))"

text \<open>A setting: absent or blank, not a number, or its value.\<close>

datatype setting = Absent | Bad | Value dec

definition resolve_budget_thresholds :: "setting \<Rightarrow> setting \<Rightarrow> setting \<Rightarrow> dec \<Rightarrow> dec \<times> dec \<times> int" where
  "resolve_budget_thresholds soft hard cooldown notional0 = (let notional = max 0 notional0 in
     (case soft of Value s \<Rightarrow> s | _ \<Rightarrow> max 25 notional, case hard of Value h \<Rightarrow> h | _ \<Rightarrow> max 50 (notional * 2),
      case cooldown of Value c \<Rightarrow> if c = 0 then DEFAULT_HARD_STOP_COOLDOWN_SECONDS else trunc_dec c | _ \<Rightarrow> DEFAULT_HARD_STOP_COOLDOWN_SECONDS))"

datatype budget_status = Budget_Ok | Soft_Stopped | Hard_Stopped time int

definition check_budget :: "budget_key \<Rightarrow> dec \<Rightarrow> dec \<Rightarrow> int \<Rightarrow> time \<Rightarrow> budgets \<Rightarrow> (budget_status \<times> dec) \<times> budgets" where
  "check_budget k soft hard cooldown now st = (let r = load_budget_row k st; pnl = round6 (bu_realized r + bu_mtm r) in
     if bu_hard_until r > now then ((Hard_Stopped (bu_hard_until r) (trunc_dec (bu_hard_until r - now)), pnl), st)
     else if hard > 0 \<and> pnl \<le> - \<bar>hard\<bar> then
       (let until = now + of_int (max 60 cooldown) in
        ((Hard_Stopped until cooldown, pnl), save_budget_row k (r\<lparr>bu_hard_until := until\<rparr>) now st))
     else if soft > 0 \<and> pnl \<le> - \<bar>soft\<bar> then ((Soft_Stopped, pnl), st)
     else ((Budget_Ok, pnl), st))"

definition clear_hard_stop :: "budget_key \<Rightarrow> time \<Rightarrow> budgets \<Rightarrow> budgets" where
  "clear_hard_stop k now st = save_budget_row k ((load_budget_row k st)\<lparr>bu_hard_until := 0\<rparr>) now st"

subsection \<open>Exposure across strategies\<close>

definition record_strategy_exposure :: "exposure_key \<Rightarrow> dec \<Rightarrow> dec \<Rightarrow> time \<Rightarrow> budgets \<Rightarrow> budgets" where
  "record_strategy_exposure k net usd now st =
     st\<lparr>bs_exposure := od_set k \<lparr>ex_net = round8 net, ex_inv = round4 usd, ex_updated = now\<rparr> (bs_exposure st)\<rparr>"

definition clear_strategy_exposure :: "exposure_key \<Rightarrow> budgets \<Rightarrow> budgets" where
  "clear_strategy_exposure k st = st\<lparr>bs_exposure := od_pop k (bs_exposure st)\<rparr>"

definition live_exposure :: "int \<Rightarrow> string \<Rightarrow> string \<Rightarrow> dec \<Rightarrow> time \<Rightarrow> budgets \<Rightarrow> (string \<times> dec \<times> dec) list" where
  "live_exposure uid network product stale now st = concat (map (\<lambda>s.
     case map_of (bs_exposure st) (make_exposure_key uid network product s) of None \<Rightarrow> []
     | Some r \<Rightarrow> if stale > 0 \<and> now - ex_updated r > stale then []
                else if \<bar>ex_net r\<bar> < 1 / 10 ^ 12 \<and> \<bar>ex_inv r\<bar> < 1 / 10 ^ 9 then [] else [(s, ex_net r, ex_inv r)]) KNOWN_STRATEGIES)"

record product_exposure =
  pe_net :: dec
  pe_gross :: dec
  pe_by_strategy :: "(string \<times> dec \<times> dec) list"
  pe_conflicting :: bool

definition get_product_exposure :: "int \<Rightarrow> string \<Rightarrow> string \<Rightarrow> dec \<Rightarrow> time \<Rightarrow> budgets \<Rightarrow> product_exposure" where
  "get_product_exposure uid network product stale now st = (let xs = live_exposure uid network product stale now st in
     \<lparr>pe_net = round8 (sum_list (map (fst \<circ> snd) xs)), pe_gross = round4 (sum_list (map (\<lambda>x. \<bar>snd (snd x)\<bar>) xs)),
      pe_by_strategy = xs, pe_conflicting = (\<exists>x \<in> set xs. fst (snd x) > 0) \<and> (\<exists>x \<in> set xs. fst (snd x) < 0)\<rparr>)"

subsection \<open>A hard stop holds for its day\<close>

datatype budget_op = Snapshot dec | Realized dec | Check dec dec int | Elsewhere budget_key budget_row

fun budget_step :: "budget_key \<Rightarrow> budget_op \<times> time \<Rightarrow> budgets \<Rightarrow> budgets" where
  "budget_step k (Snapshot m, now) st = snd (record_pnl_snapshot k m now st)"
| "budget_step k (Realized p, now) st = snd (record_realized_pnl k p now st)"
| "budget_step k (Check soft hard cooldown, now) st = snd (check_budget k soft hard cooldown now st)"
| "budget_step k (Elsewhere j r, now) st = (if j = k then st else save_budget_row j r now st)"

definition stopped_until :: "budget_key \<Rightarrow> time \<Rightarrow> budgets \<Rightarrow> bool" where
  "stopped_until k u st \<longleftrightarrow> u \<le> bu_hard_until (load_budget_row k st)"

lemma load_save [simp]: "load_budget_row j (save_budget_row k r now st) = (if j = k then r\<lparr>bu_updated := now\<rparr> else load_budget_row j st)"
  by (simp add: load_budget_row_def save_budget_row_def)

lemma check_hard:
  assumes "fst (fst (check_budget k soft hard cooldown now st)) = Hard_Stopped u c"
  shows "stopped_until k u (snd (check_budget k soft hard cooldown now st)) \<and> now < u"
  using assms by (auto simp: check_budget_def stopped_until_def Let_def split: if_splits)

lemma check_stays: "stopped_until k u st \<Longrightarrow> now < u \<Longrightarrow> snd (check_budget k soft hard cooldown now st) = st
    \<and> (\<exists>v c. u \<le> v \<and> fst (fst (check_budget k soft hard cooldown now st)) = Hard_Stopped v c)"
  by (auto simp: check_budget_def stopped_until_def Let_def)

lemma stopped_step: "stopped_until k u st \<Longrightarrow> snd op < u \<Longrightarrow> stopped_until k u (budget_step k op st)"
  using check_stays
  by (cases op; cases "fst op") (auto simp: stopped_until_def record_pnl_snapshot_def record_realized_pnl_def Let_def)

lemma stopped_run: "stopped_until k u st \<Longrightarrow> list_all (\<lambda>op. snd op < u) ops \<Longrightarrow> stopped_until k u (fold (budget_step k) ops st)"
  by (induction ops arbitrary: st) (simp_all add: stopped_step)

text \<open>
  Claim C36: a hard stop is not lifted by a recovery. Once a check of a product's day reports a hard stop until
  some time, every later check of the same day before that time reports it too, whatever profits, snapshots and
  checks come between, and the halt lasts at least a minute.
\<close>

theorem hard_stop_holds:
  assumes tripped: "fst (fst (check_budget k soft hard cooldown now st)) = Hard_Stopped u c"
    and ops: "list_all (\<lambda>op. snd op < u) ops" and later: "now' < u"
  shows "\<exists>v c'. u \<le> v \<and> fst (fst (check_budget k soft' hard' cooldown' now'
      (fold (budget_step k) ops (snd (check_budget k soft hard cooldown now st))))) = Hard_Stopped v c'"
  using check_stays [OF stopped_run [OF _ ops] later] check_hard [OF tripped] by blast

definition no_budgets :: budgets where "no_budgets = \<lparr>bs_rows = [], bs_exposure = []\<rparr>"

definition demo_key :: budget_key where "demo_key = make_budget_key 7 ''mainnet'' ''btc'' 82800"

definition demo_loss :: budgets where "demo_loss = snd (record_realized_pnl demo_key (- 60) 82800 no_budgets)"

lemma round6_int [simp]: "round6 (of_int n) = of_int n"
proof -
  have "(of_int n :: rat) * 10 ^ 6 = of_int (n * 10 ^ 6)" by simp
  then show ?thesis unfolding round6_def round_even_def Let_def by (simp only: floor_of_int) simp
qed

lemma fresh_row: "load_budget_row k no_budgets = \<lparr>bu_realized = 0, bu_mtm = 0, bu_low = 0, bu_hard_until = 0, bu_updated = 0\<rparr>"
  by (simp add: load_budget_row_def no_budgets_def)

lemma demo_tripped: "fst (fst (check_budget demo_key 25 50 14400 82800 demo_loss)) = Hard_Stopped 97200 14400"
  using round6_int [of "- 60"] fresh_row [of demo_key]
  by (simp add: check_budget_def demo_loss_def record_realized_pnl_def Let_def)

lemma hard_stop_holds_witness:
  "\<exists>v c'. 97200 \<le> v \<and> fst (fst (check_budget demo_key 25 50 14400 86000
      (fold (budget_step demo_key) [(Realized 500, 85000)] (snd (check_budget demo_key 25 50 14400 82800 demo_loss))))) = Hard_Stopped v c'"
  using hard_stop_holds [OF demo_tripped, of "[(Realized 500, 85000)]" 86000 25 50 14400] by simp

text \<open>
  The cooldown is kept under the key of the day that tripped it. A stop of four hours set at 23:00 UTC
  is not seen at midnight: the new day's row starts without it.
\<close>

lemma cooldown_lost_at_midnight:
  "fst (fst (check_budget demo_key 25 50 14400 82800 demo_loss)) = Hard_Stopped 97200 14400
    \<and> fst (fst (check_budget (make_budget_key 7 ''mainnet'' ''btc'' 86400) 25 50 14400 86400
        (snd (check_budget demo_key 25 50 14400 82800 demo_loss)))) = Budget_Ok"
proof -
  have ne: "make_budget_key 7 ''mainnet'' ''btc'' 86400 \<noteq> demo_key" by (simp add: demo_key_def make_budget_key_def utc_date_def floor_eq_iff)
  have r0: "round6 0 = 0" using round6_int [of 0] by simp
  have "load_budget_row (make_budget_key 7 ''mainnet'' ''btc'' 86400) (snd (check_budget demo_key 25 50 14400 82800 demo_loss))
    = load_budget_row (make_budget_key 7 ''mainnet'' ''btc'' 86400) no_budgets"
    using ne by (auto simp: check_budget_def demo_loss_def record_realized_pnl_def Let_def)
  then show ?thesis
    using demo_tripped r0 by (simp add: check_budget_def [of "make_budget_key _ _ _ _"] fresh_row Let_def)
qed

lemma cooldown_at_least_minute:
  assumes "bu_hard_until (load_budget_row k st) \<le> now" "fst (fst (check_budget k soft hard cooldown now st)) = Hard_Stopped u c"
  shows "now + 60 \<le> u"
  using assms by (auto simp: check_budget_def Let_def max_def split: if_splits)

end
