(* ===== verification/Grid_Laws.thy ===== *)
theory Grid_Laws
  imports Grid_Executor
begin

text \<open>
  The laws of the grid executor: the attribution of external closes to the levels, what a
  stop may leave behind, the orders a grid can send and what re-centering keeps.
\<close>

subsection \<open>Attribution of external closes\<close>

text \<open>
  The accounts of a level: filled, closed by its own leg, closed externally. \<open>attribute\<close> is
  the specification of the attribution: it walks the levels in order and closes each as far
  as it can.
\<close>

type_synonym lv_acct = "dec \<times> dec \<times> dec"

definition acct :: "grid_level \<Rightarrow> lv_acct" where
  "acct lv = (gl_filled lv, gl_c_base lv, gl_booked lv)"

definition accts :: "'x grid_exec_scheme \<Rightarrow> lv_acct list" where
  "accts x = map acct (gr_levels x)"

definition acct_held :: "lv_acct \<Rightarrow> dec" where
  "acct_held a = (case a of (f, c, b) \<Rightarrow> f - c - b)"

fun attribute :: "dec \<Rightarrow> lv_acct list \<Rightarrow> lv_acct list" where
  "attribute amt [] = []"
| "attribute amt ((f, c, b) # as) =
     (if amt \<le> 0 then (f, c, b) # as
      else if f - c - b \<le> 0 then (f, c, b) # attribute amt as
      else (f, c, b + min (f - c - b) amt) # attribute (amt - min (f - c - b) amt) as)"

lemma attribute_total:
  "0 \<le> amt \<Longrightarrow> sum_list (map (\<lambda>a. max 0 (acct_held a)) (attribute amt as))
     = max 0 (sum_list (map (\<lambda>a. max 0 (acct_held a)) as) - amt)"
proof (induction amt as rule: attribute.induct)
  case (2 amt f c b as)
  have nonneg: "0 \<le> sum_list (map (\<lambda>a. max 0 (acct_held a)) xs)" for xs
    by (rule sum_list_nonneg_map) simp
  show ?case
    using 2 nonneg [of as] by (auto simp: acct_held_def min_def max_def split: if_splits)
qed simp

lemma attribute_keeps:
  "map fst (attribute amt as) = map fst as"
  "map (fst \<circ> snd) (attribute amt as) = map (fst \<circ> snd) as"
  "list_all (\<lambda>a. 0 \<le> acct_held a) as \<Longrightarrow> list_all (\<lambda>a. 0 \<le> acct_held a) (attribute amt as)"
  by (induction amt as rule: attribute.induct) (auto simp: acct_held_def)

lemma set_level_accts:
  "(\<And>lv. acct (f lv) = acct lv) \<Longrightarrow> accts (set_level i f x) = accts x"
  by (cases "i < length (gr_levels x)")
    (auto simp: accts_def set_level_def list_update_beyond intro!: nth_equalityI simp: nth_list_update)

lemma gr_fields [simp]:
  "gr_config (terminated ct t x) = gr_config x" "gr_config (activated x) = gr_config x"
  "gr_config (charged f x) = gr_config x" "gr_levels (terminated ct t x) = gr_levels x"
  "gr_levels (activated x) = gr_levels x" "gr_levels (charged f x) = gr_levels x"
  "gr_config (set_level i g x) = gr_config x" "ex_close (set_level i g x) = ex_close x"
  "ex_state (set_level i g x) = ex_state x" "ex_key (set_level i g x) = ex_key x"
  "ex_suppress_new (set_level i g x) = ex_suppress_new x" "ex_suppress_new (terminated ct t x) = ex_suppress_new x"
  "ex_suppress_new (activated x) = ex_suppress_new x" "ex_suppress_new (charged f x) = ex_suppress_new x"
  "ex_pair (set_level i g x) = ex_pair x" "length (gr_levels (set_level i g x)) = length (gr_levels x)"
  by (simp_all add: terminated_def activated_def charged_def set_level_def ex_key_def)

lemma accts_simps [simp]:
  "accts (x\<lparr>ex_retries := n\<rparr>) = accts x" "accts (terminated ct t x) = accts x"
  "accts (charged f x) = accts x" "accts (x\<lparr>gr_cancelled := m\<rparr>) = accts x"
  "accts (x\<lparr>gr_placed := m\<rparr>) = accts x" "accts (x\<lparr>gr_filled := m\<rparr>) = accts x"
  by (simp_all add: accts_def)

abbreviation has_accts :: "lv_acct list \<Rightarrow> ('v, 'x) gr_st \<Rightarrow> bool" where
  "has_accts K \<equiv> (\<lambda>s. accts (fst s) = K)"

lemma keeps_accts_guard: "keeps (has_accts K) (guard api label op)"
  by (rule keeps_guard) simp_all

lemma keeps_accts_level: "keeps (has_accts K) (level i)"
  unfolding level_def by (intro keeps_bind keeps_me keeps_ret)

lemma keeps_accts_upd: "(\<And>lv. acct (f lv) = acct lv) \<Longrightarrow> keeps (has_accts K) (upd_level i f)"
  by (rule keeps_upd) (simp add: set_level_accts)

lemma keeps_accts_count: "keeps (has_accts K) count_cancelled"
  unfolding count_cancelled_def by (rule keeps_upd) simp

lemma keeps_accts_cancel: "keeps (has_accts K) (best_effort_cancel api label oid)"
  unfolding best_effort_cancel_def
  by (intro keeps_try keeps_bind keeps_ret keeps_accts_guard keeps_accts_count)

lemmas keeps_accts = keeps_accts_guard keeps_accts_level keeps_accts_upd keeps_accts_count keeps_accts_cancel

lemma keeps_accts_steps:
  fixes api :: "'v venue_api"
  shows "keeps (has_accts K) (gr_place_close_remaining api i amt)"
    "keeps (has_accts K) (gr_maybe_complete_level api i)" "keeps (has_accts K) (gr_resize_close api i)"
proof -
  show p: "keeps (has_accts K) (gr_place_close_remaining api i amt)" for i amt
    unfolding gr_place_close_remaining_def Let_def
    by (intro keeps_if keeps_bind keeps_me keeps_seq keeps_accts keeps_upd) (simp_all add: acct_def)
  show "keeps (has_accts K) (gr_maybe_complete_level api i)"
    unfolding gr_maybe_complete_level_def
    by (intro keeps_if keeps_bind keeps_ret keeps_seq keeps_option keeps_accts) (simp_all add: acct_def)
  show "keeps (has_accts K) (gr_resize_close api i)"
    unfolding gr_resize_close_def gr_place_close_def
    by (intro keeps_bind keeps_ret keeps_seq keeps_when keeps_option keeps_accts p) (simp_all add: acct_def)
qed

lemma wp_level [simp]: "wp (level i) Q E (x, e) = Q (gr_levels x ! i) (x, e)"
  by (simp add: level_def)

text \<open>
  Completing a level never raises, and it completes exactly the level whose base is all closed:
  its cancels are best effort.
\<close>

lemma wp_complete_level:
  fixes x :: "'x grid_exec_scheme" and e :: "'v env"
  assumes "accts x = K" "i < length (gr_levels x)"
  shows "wp (gr_maybe_complete_level api i)
     (\<lambda>q s. has_accts K s \<and> (q \<longleftrightarrow> \<not> gl_c_base (gr_levels x ! i) + gl_booked (gr_levels x ! i) < gl_filled (gr_levels x ! i)))
     (\<lambda>_ _. False) (x, e)"
proof -
  have K: "wp (best_effort_cancel api label oid) (\<lambda>_. has_accts K) (\<lambda>_ _. False) s" if "has_accts K s" for label oid and s :: "('v, 'x) gr_st"
  proof -
    have "wp (thenP (guard api label (va_cancel api oid)) (thenP count_cancelled (ret True))) (\<lambda>_. has_accts K) (\<lambda>_. has_accts K) s"
      by (rule keeps_wp [where I = "has_accts K"], intro keeps_bind keeps_ret keeps_accts) (simp_all add: that)
    then show ?thesis unfolding best_effort_cancel_def wp_try by (rule wp_mono) simp_all
  qed
  have drop: "wp (upd_level i f) (\<lambda>_. has_accts K) (\<lambda>_ _. False) s"
    if "has_accts K s" "\<And>lv. acct (f lv) = acct lv" for f and s :: "('v, 'x) gr_st"
    using that by (cases s) (simp add: set_level_accts)
  have leg: "wp (case o1 of None \<Rightarrow> ret () | Some oid \<Rightarrow> thenP (best_effort_cancel api label oid) (upd_level i f))
      (\<lambda>_. has_accts K) (\<lambda>_ _. False) s"
    if "has_accts K s" "\<And>lv. acct (f lv) = acct lv" for o1 label f and s :: "('v, 'x) gr_st"
  proof (cases o1)
    case (Some oid)
    show ?thesis unfolding Some option.case wp_bind
      by (rule wp_mono [OF K [OF that(1)]]) (use that(2) drop in auto)
  qed (use that in simp)
  show ?thesis
  proof (cases "gl_c_base (gr_levels x ! i) + gl_booked (gr_levels x ! i) < gl_filled (gr_levels x ! i)")
    case True
    then show ?thesis using assms by (simp add: gr_maybe_complete_level_def)
  next
    case False
    let ?leg = "\<lambda>o1 label f. case o1 of None \<Rightarrow> ret () | Some oid \<Rightarrow> thenP (best_effort_cancel api label oid) (upd_level i f)"
    have "wp (?leg (gl_open_id (gr_levels x ! i)) ''grid_open_complete_cancel'' (gl_open_id_update (\<lambda>_. None)))
      (\<lambda>_. wp (?leg (gl_close_id (gr_levels x ! i)) ''grid_close_complete_cancel'' (gl_close_id_update (\<lambda>_. None)))
        (\<lambda>_. wp (upd_level i (gl_state_update (\<lambda>_. L_COMPLETE))) (\<lambda>_. has_accts K) (\<lambda>_ _. False)) (\<lambda>_ _. False))
      (\<lambda>_ _. False) (x, e)"
      by (rule wp_mono [OF leg], use assms(1) in simp, simp add: acct_def, rule wp_mono [OF leg], simp, simp add: acct_def)
        (rule drop, assumption, simp_all add: acct_def)
    then show ?thesis using False by (simp add: gr_maybe_complete_level_def) (erule wp_mono, unfold wp_bind, erule wp_mono, erule wp_mono, simp_all)
  qed
qed

text \<open>
  Whatever the venue answers: the resting leg of a level is only re-placed when the level was
  closed in part, and then nothing is left to attribute, so a re-placement that raises finds
  the attribution complete.
\<close>

lemma attribute_spent [simp]: "amt \<le> 0 \<Longrightarrow> attribute amt as = as"
  by (cases as) auto

lemma wp_advance:
  fixes x :: "'x grid_exec_scheme" and e :: "'v env"
  assumes "accts x = pre @ as" "length pre = k"
  shows "wp (gr_advance api [k..<k + length as] amt) (\<lambda>_. has_accts (pre @ attribute amt as))
     (\<lambda>_. has_accts (pre @ attribute amt as)) (x, e)"
  using assms
proof (induction as arbitrary: pre k amt x e)
  case Nil
  then show ?case by simp
next
  case (Cons a as)
  obtain f c b where a: "a = (f, c, b)" by (metis prod_cases3)
  have len: "k < length (gr_levels x)" using Cons.prems by (metis accts_def length_append length_map less_add_same_cancel1 list.size(4) zero_less_Suc add_Suc_right)
  have lv: "acct (gr_levels x ! k) = (f, c, b)"
    using Cons.prems len unfolding accts_def by (metis a nth_append_length nth_map)
  define js where "js = [Suc k..<Suc k + length as]"
  have "is": "[k..<k + length (a # as)] = k # js"
    by (simp add: js_def upt_conv_Cons del: upt_Suc)
  have IH: "wp (gr_advance api js m) (\<lambda>_. has_accts (pre @ a' # attribute m as)) (\<lambda>_. has_accts (pre @ a' # attribute m as)) s"
    if "has_accts (pre @ a' # as) s" for m a' and s :: "('v, 'x) gr_st"
    using Cons.IH [of "fst s" "pre @ [a']" "Suc k" m "snd s"] that Cons.prems(2) unfolding js_def by simp
  consider (spent) "amt \<le> 0" | (skip) "0 < amt" "f - c - b \<le> 0" | (some_left) "0 < amt" "0 < f - c - b"
    by linarith
  then show ?case
  proof cases
    case spent
    then show ?thesis using Cons.prems unfolding "is" by (simp add: a)
  next
    case skip
    then show ?thesis
      using IH [of "(x, e)" a amt] Cons.prems lv unfolding "is" by (simp add: a lv_held_def acct_def)
  next
    case some_left
    define t where "t = min (f - c - b) amt"
    define y where "y = set_level k (\<lambda>lv. lv\<lparr>gl_booked := gl_booked lv + t\<rparr>) x"
    have y: "accts y = pre @ (f, c, b + t) # as"
      using Cons.prems lv len
      by (simp add: y_def accts_def set_level_def map_update acct_def a list_update_append)
    have leny: "k < length (gr_levels y)" and
      full: "\<not> gl_c_base (gr_levels y ! k) + gl_booked (gr_levels y ! k) < gl_filled (gr_levels y ! k) \<longleftrightarrow> f - c - b \<le> amt"
      using lv len by (auto simp: y_def set_level_def acct_def t_def)
    define H :: "('v, 'x) gr_st \<Rightarrow> bool" where "H = has_accts (pre @ (f, c, b + t) # attribute (amt - t) as)"
    have resize: "wp (gr_resize_close api k) (\<lambda>_. has_accts (accts y)) (\<lambda>_. has_accts (accts y)) s" if "has_accts (accts y) s" for s :: "('v, 'x) gr_st"
      by (rule keeps_wp [OF keeps_accts_steps(3) that]) simp_all
    have "wp (bindP (gr_maybe_complete_level api k) (\<lambda>completed. thenP (whenP (\<not> completed) (gr_resize_close api k))
        (gr_advance api js (amt - t)))) (\<lambda>_. H) (\<lambda>_. H) (y, e)"
      unfolding wp_bind [of "gr_maybe_complete_level api k"]
    proof (rule wp_mono [OF wp_complete_level [OF refl leny]])
      fix q and s' :: "('v, 'x) gr_st"
      assume q: "has_accts (accts y) s' \<and> (q \<longleftrightarrow> \<not> gl_c_base (gr_levels y ! k) + gl_booked (gr_levels y ! k) < gl_filled (gr_levels y ! k))"
      have rest: "wp (gr_advance api js (amt - t)) (\<lambda>_. H) (\<lambda>_. H) s" if "has_accts (accts y) s" for s :: "('v, 'x) gr_st"
        unfolding H_def using IH [where a' = "(f, c, b + t)" and s = s and m = "amt - t"] that y by simp
      show "wp (thenP (whenP (\<not> q) (gr_resize_close api k)) (gr_advance api js (amt - t))) (\<lambda>_. H) (\<lambda>_. H) s'"
      proof (cases q)
        case True
        then show ?thesis using rest q by simp
      next
        case False
        with q full have "amt - t \<le> 0" by (simp add: t_def)
        then have H: "H s" if "has_accts (accts y) s" for s using that y by (simp add: H_def)
        show ?thesis using False q by (auto intro!: wp_mono [OF resize] rest H)
      qed
    qed simp
    with some_left lv show ?thesis
      unfolding "is" by (simp add: a lv_held_def acct_def y_def t_def Let_def H_def)
  qed
qed

text \<open>
  Claim C20: the attribution of an external close. Whatever the venue answers the cancels and
  re-placements it triggers, and whether it returns or the placement of a leg raises out of it,
  the attribution of a non-negative \<open>amt\<close> has closed the levels in order, each as far as it holds
  base; it moves nothing but the externally booked amounts, no level that was not below zero
  goes below zero, and what all levels hold falls by exactly \<open>amt\<close>, or to zero where \<open>amt\<close>
  exceeds it.
\<close>

theorem grid_attribution:
  assumes "0 \<le> amt" "gr_advance_close_accounting api amt (x, e) = (out, (x', e'))"
  shows "accts x' = attribute amt (accts x)
    \<and> map fst (accts x') = map fst (accts x) \<and> map (fst \<circ> snd) (accts x') = map (fst \<circ> snd) (accts x)
    \<and> sum_list (map (\<lambda>a. max 0 (acct_held a)) (accts x'))
        = max 0 (sum_list (map (\<lambda>a. max 0 (acct_held a)) (accts x)) - amt)
    \<and> (list_all (\<lambda>a. 0 \<le> acct_held a) (accts x) \<longrightarrow> list_all (\<lambda>a. 0 \<le> acct_held a) (accts x'))"
proof -
  have "wp (gr_advance_close_accounting api amt) (\<lambda>_. has_accts (attribute amt (accts x)))
      (\<lambda>_. has_accts (attribute amt (accts x))) (x, e)"
    using wp_advance [where pre = "[]" and k = 0 and as = "accts x" and x = x and api = api and amt = amt and e = e]
    by (simp add: gr_advance_close_accounting_def accts_def)
  then have "accts (fst (snd (gr_advance_close_accounting api amt (x, e)))) = attribute amt (accts x)"
    by (simp only: wp_snd)
  with assms(2) have "accts x' = attribute amt (accts x)" by simp
  then show ?thesis
    using attribute_total [OF assms(1), of "accts x"] attribute_keeps(1,2) [of amt "accts x"]
      attribute_keeps(3) [of "accts x" amt] by simp
qed

definition demo_grid :: grid_exec where
  "demo_grid = (mk_grid_exec ''g1'' 1 ''c1'' True demo_grid_config 0)
     \<lparr>ex_state := ACTIVE, gr_levels := map (\<lambda>lv. lv\<lparr>gl_state := L_OPEN_FILLED, gl_o_base := 1, gl_filled := 1\<rparr>)
        (generate_grid_levels demo_grid_config)\<rparr>"

theorem grid_attribution_witness:
  "accts (fst (snd (gr_advance_close_accounting script_api (3 / 2) (demo_grid, demo_env))))
     = [(1, 0, 1), (1, 0, 1 / 2), (1, 0, 0)]"
proof -
  obtain x' e' where run: "gr_advance_close_accounting script_api (3 / 2) (demo_grid, demo_env) = (Inr (), (x', e'))"
  proof -
    have "case fst (gr_advance_close_accounting script_api (3 / 2) (demo_grid, demo_env)) of Inr _ \<Rightarrow> True | Inl _ \<Rightarrow> False"
      by code_simp
    then show ?thesis
      using that by (cases "gr_advance_close_accounting script_api (3 / 2) (demo_grid, demo_env)")
        (auto split: sum.splits)
  qed
  have "accts demo_grid = [(1, 0, 0), (1, 0, 0), (1, 0, 0)]"
    by code_simp
  with grid_attribution [OF _ run] have "accts x' = [(1, 0, 1), (1, 0, 1 / 2), (1, 0, 0)]" by simp
  with run show ?thesis by simp
qed

subsection \<open>What every step of a grid leaves alone\<close>

text \<open>
  A property of the configuration, the lifecycle state, the close type and the suppression flag that also holds of
  an executor failed by its retry policy is kept by every call the grid makes, up to its own
  \<open>terminate\<close>.
\<close>

locale grid_stable =
  fixes I :: "('v, 'x) gr_st \<Rightarrow> bool"
  assumes same: "I (x, e) \<Longrightarrow> gr_config y = gr_config x \<Longrightarrow> ex_state y = ex_state x
      \<Longrightarrow> ex_close y = ex_close x \<Longrightarrow> ex_suppress_new y = ex_suppress_new x \<Longrightarrow> I (y, e')"
    and failed: "I (x, e) \<Longrightarrow> I (terminated FAILED t x, e)"
begin

lemma guards: "keeps I (guard api label op)"
  by (rule keeps_guard) (auto intro: same failed)

lemma venue: "keeps I (venue_do op)"
  by (rule keepsI, clarsimp simp: wp_venue_do, rule wp_any; erule same; simp)

lemma upds: "(\<And>x. gr_config (f x) = gr_config x \<and> ex_state (f x) = ex_state x \<and> ex_close (f x) = ex_close x
      \<and> ex_suppress_new (f x) = ex_suppress_new x) \<Longrightarrow> keeps I (upd f)"
  by (rule keeps_upd) (auto elim: same)

lemma levels: "keeps I (upd_level i f)" "keeps I (level i)"
  by (auto simp: level_def intro!: upds keeps_bind keeps_me keeps_ret)

lemma fills: "keeps I (record_fill api f p c)"
  by (rule keepsI, clarsimp simp: charged_def, intro conjI impI; erule same; simp)

lemma counts: "keeps I count_cancelled" "keeps I count_filled"
  by (auto simp: count_cancelled_def count_filled_def intro!: upds)

lemmas steps = guards venue levels fills counts upds

lemma placing:
  "keeps I (gr_place_open api i)" "keeps I (gr_place_close_remaining api i amt)" "keeps I (gr_place_close api i)"
proof -
  show "keeps I (gr_place_open api i)"
    unfolding gr_place_open_def Let_def
    by (intro keeps_bind keeps_me keeps_seq steps) simp
  show r: "keeps I (gr_place_close_remaining api i amt)" for amt
    unfolding gr_place_close_remaining_def Let_def
    by (intro keeps_if keeps_bind keeps_me keeps_seq steps) simp
  show "keeps I (gr_place_close api i)"
    unfolding gr_place_close_def by (intro keeps_bind steps r)
qed

lemma ingests: "keeps I (gr_ingest api i ord opening)"
  unfolding gr_ingest_def Let_def
  by (intro keeps_bind keeps_me keeps_if keeps_ret keeps_clock steps)

lemma cancels: "keeps I (best_effort_cancel api label oid)"
  unfolding best_effort_cancel_def by (intro keeps_try keeps_bind keeps_ret steps)

lemma opens: "keeps I (gr_open_scan api mid is placed)" "keeps I (gr_maybe_place_opens api)"
proof -
  have g: "keeps I (bindP (getsP (\<lambda>s. s)) (\<lambda>s. case s of (x, e) \<Rightarrow> f x e))"
    if "\<And>x e. keeps I (f x e)" for f :: "'x grid_exec_scheme \<Rightarrow> 'v env \<Rightarrow> (('v, 'x) gr_st, int) prog"
    by (rule keeps_bind [OF keeps_gets]) (simp add: that split: prod.split)
  show s: "keeps I (gr_open_scan api mid is placed)" for mid "is" placed
  proof (induction "is" arbitrary: placed)
    case (Cons i "is")
    show ?case
      unfolding gr_open_scan.simps Let_def by (intro g keeps_if keeps_ret keeps_bind placing Cons.IH)
  qed (simp add: keeps_ret)
  show "keeps I (gr_maybe_place_opens api)"
    unfolding gr_maybe_place_opens_def
    by (intro keeps_bind keeps_me keeps_clock keeps_if keeps_ret keeps_when steps s) simp
qed

lemma completes: "keeps I (gr_maybe_complete_level api i)" "keeps I (gr_resize_close api i)"
  unfolding gr_maybe_complete_level_def gr_resize_close_def
  by (intro keeps_if keeps_bind keeps_ret keeps_seq keeps_option keeps_when steps cancels placing)+

lemma advances: "keeps I (gr_advance_close_accounting api amt)"
proof -
  have "keeps I (gr_advance api is amt)" for "is"
    by (induction "is" arbitrary: amt)
      (auto simp: Let_def intro!: keeps_ret keeps_if keeps_bind keeps_when steps completes)
  then show ?thesis
    unfolding gr_advance_close_accounting_def by (intro keeps_bind keeps_me)
qed

lemma stop_steps:
  "keeps I (gr_cancel_all_resting api)" "keeps I (gr_refresh_all api)" "keeps I (gr_flatten api)"
  unfolding gr_cancel_all_resting_def gr_refresh_all_def gr_refresh_leg_def gr_flatten_def
    gr_book_flatten_def cancel_ids_def
  by (intro keeps_bind keeps_me keeps_for keeps_seq keeps_option keeps_ret keeps_try keeps_when keeps_clock
      steps cancels ingests advances)+

end

text \<open>A property that also holds of an executor terminated for any reason is an invariant.\<close>

locale grid_closed = grid_stable +
  assumes ended: "I (x, e) \<Longrightarrow> I (terminated ct t x, e)"
begin

lemma ends: "keeps I (terminate api ct)"
  by (rule keeps_terminate) (rule ended)

lemma processing: "keeps I (gr_process_level api mid i)"
  unfolding gr_process_level_def gr_process_open_def gr_process_close_def Let_def
  by (intro keeps_bind keeps_if keeps_option keeps_raise keeps_ret keeps_seq keeps_when keeps_try keeps_me
      steps placing ingests cancels completes) simp_all

lemma stopping: "keeps I (gr_stop_out api ct)"
  unfolding gr_stop_out_def
  by (intro keeps_seq keeps_bind keeps_if keeps_me keeps_ret stop_steps ends)

lemma recycling: "keeps I (upd recycle_completed)"
  by (rule upds) (simp add: recycle_completed_def)

lemma ticking: "keeps I (gr_on_tick api)"
  unfolding gr_on_tick_def
  by (intro keeps_bind keeps_if keeps_me keeps_ret keeps_seq keeps_for keeps_when guards stopping processing
      recycling opens ends)

lemma book_ingests: "keeps I (gr_ingest_book api ord cr)"
  unfolding gr_ingest_book_def Let_def
  by (intro keeps_bind keeps_if keeps_me keeps_ret keeps_clock steps advances) simp_all

lemma reducing: "keeps I (gr_reduce_position api b m)"
  unfolding gr_reduce_position_def Let_def
  by (intro keeps_bind keeps_if keeps_me keeps_ret keeps_option keeps_try keeps_when
      steps book_ingests) simp_all

lemma scans: "keeps I (gr_recenter_scan api is kept)"
proof (induction "is" arbitrary: kept)
  case (Cons i "is")
  show ?case
    unfolding gr_recenter_scan.simps
    by (intro keeps_bind keeps_if keeps_option keeps_try keeps_seq keeps_ret steps ingests placing Cons.IH) simp_all
qed (simp add: keeps_ret)

lemma recentering: "keeps I (gr_recenter api a b)"
  unfolding gr_recenter_def
  by (intro keeps_bind keeps_if keeps_me keeps_ret keeps_seq opens scans upds) simp_all

lemma handling:
  assumes "\<And>x e. I (x, e) \<Longrightarrow> I (activated x, e)" "\<And>x e b. I (x, e) \<Longrightarrow> I (x\<lparr>ex_suppress_new := b\<rparr>, e)"
  shows "keeps I (gr_handle api ev)"
proof -
  have "keeps I (gr_on_create api)"
    unfolding gr_on_create_def by (intro keeps_bind opens) (use assms keeps_activate in blast)
  moreover have "keeps I (gr_on_stop api ct)" for ct
    unfolding gr_on_stop_def by (intro keeps_bind keeps_me keeps_if keeps_ret stopping)
  moreover have "keeps I (upd (\<lambda>x. x\<lparr>ex_suppress_new := b\<rparr>))" for b
    by (rule keeps_upd) (rule assms(2))
  ultimately show ?thesis
    by (cases ev) (auto intro!: ticking keeps_bind reducing recentering keeps_ret keeps_world elim: same)
qed

end

text \<open>
  \<open>may_fail c s\<close>: an active executor of configuration \<open>c\<close>, or one its retry policy failed.
\<close>

definition may_fail :: "grid_config \<Rightarrow> ('v, 'x) gr_st \<Rightarrow> bool" where
  "may_fail c s \<longleftrightarrow> gr_config (fst s) = c
     \<and> (ex_state (fst s) = ACTIVE \<or> ex_state (fst s) = TERMINATED \<and> ex_close (fst s) = Some FAILED)"

interpretation mf: grid_stable "may_fail c" for c
  by unfold_locales (auto simp: may_fail_def)

text \<open>
  Claim C17: what a stop may leave behind. However the venue answers, an active grid that is
  stopped, by a caller or by its own barriers, either ends as FAILED, or stays active to try
  again, and after a completed stop that means base above the flatness threshold is still
  held; or it ends with the close type it was stopped for, and then it was told to keep the
  position or is flat to within the threshold.
\<close>

theorem grid_stop_ends_flat:
  fixes x :: "'x grid_exec_scheme" and e :: "'v env"
  assumes "gr_on_stop api ct (x, e) = (r, (x', e'))" "ex_state x = ACTIVE"
  shows "gr_config x' = gr_config x
    \<and> (ex_state x' = TERMINATED \<and> ex_close x' = Some FAILED
       \<or> ex_state x' = ACTIVE \<and> (r = Inr () \<longrightarrow> \<not> gc_keep (gr_config x) \<and> FLAT_EPS < net_base x')
       \<or> ex_state x' = TERMINATED \<and> ex_close x' = Some ct \<and> (gc_keep (gr_config x) \<or> net_base x' \<le> FLAT_EPS))"
proof -
  define c where "c = gr_config x"
  define P where "P ok s = (case s of (y :: 'x grid_exec_scheme, _ :: 'v env) \<Rightarrow> gr_config y = c
    \<and> (ex_state y = TERMINATED \<and> ex_close y = Some FAILED
       \<or> ex_state y = ACTIVE \<and> (ok \<longrightarrow> \<not> gc_keep c \<and> FLAT_EPS < net_base y)
       \<or> ex_state y = TERMINATED \<and> ex_close y = Some ct \<and> (gc_keep c \<or> net_base y \<le> FLAT_EPS)))"
    for ok s
  have E: "P False s" if "may_fail c s" for s
    using that by (auto simp: P_def may_fail_def split: prod.split)
  have net: "net_base (terminated ct t y) = net_base y" for t and y :: "'x grid_exec_scheme"
    by (simp add: net_base_def)
  have T: "P True (terminated ct t y, d)"
    if "may_fail c (y, d)" "gc_keep c \<or> net_base y \<le> FLAT_EPS" for t d and y :: "'x grid_exec_scheme"
    using that by (auto simp: P_def may_fail_def net)
  have 3: "wp (bindP me (\<lambda>x. if \<not> gc_keep (gr_config x) \<and> net_base x > 0
        then thenP (gr_flatten api) (bindP me (\<lambda>x. if net_base x > FLAT_EPS then ret () else terminate api ct))
        else terminate api ct)) (\<lambda>_. P True) (\<lambda>_. P False) s" if s: "may_fail c s" for s
  proof -
    obtain y d where [simp]: "s = (y, d)" by fastforce
    have c: "gr_config y = c" using s by (simp add: may_fail_def)
    have fl: "P True (z, d')" if "may_fail c (z, d')" "FLAT_EPS < net_base z" "\<not> gc_keep c" for z d'
      using that by (auto simp: P_def may_fail_def)
    have "wp (gr_flatten api) (\<lambda>_. wp (bindP me (\<lambda>x. if net_base x > FLAT_EPS then ret () else terminate api ct))
        (\<lambda>_. P True) (\<lambda>_. P False)) (\<lambda>_. P False) s" if "\<not> gc_keep c"
      by (rule keeps_wp [OF mf.stop_steps(3) s]) (use that E fl T in auto)
    moreover have "net_base y \<le> FLAT_EPS" if "\<not> 0 < net_base y"
      using that by (simp add: FLAT_EPS_def)
    ultimately show ?thesis
      using T [of y d] s c by (cases "\<not> gc_keep c \<and> 0 < net_base y") auto
  qed
  have "wp (gr_stop_out api ct) (\<lambda>_. P True) (\<lambda>_. P False) (x, e)"
    unfolding gr_stop_out_def wp_seq_simps
  proof (rule keeps_wp [OF mf.stop_steps(1) [of c]])
    show "may_fail c (x, e)" using assms(2) by (simp add: may_fail_def c_def)
    show "wp (gr_refresh_all api) (\<lambda>_. wp (bindP me (\<lambda>x. if \<not> gc_keep (gr_config x) \<and> net_base x > 0
        then thenP (gr_flatten api) (bindP me (\<lambda>x. if net_base x > FLAT_EPS then ret () else terminate api ct))
        else terminate api ct)) (\<lambda>_. P True) (\<lambda>_. P False)) (\<lambda>_. P False) s" if "may_fail c s" for s
      by (rule keeps_wp [OF mf.stop_steps(2) that]) (use 3 E in blast)+
  qed (rule E)
  then have "case r of Inl _ \<Rightarrow> P False (x', e') | Inr _ \<Rightarrow> P True (x', e')"
    using assms by (auto simp: wp_def gr_on_stop_def me_def getsP_def bindP_def is_terminated_def split: sum.splits)
  then show ?thesis by (cases r) (auto simp: P_def c_def)
qed

definition demo_flat_env :: "script env" where
  "demo_flat_env = \<lparr>env_venue = \<lparr>sc_now = 0,
     sc_orders = [Inr \<lparr>o_id = ''f'', o_pair = ''BTC'', o_side = SELL, o_type = LIMIT, o_amount = 3,
       o_price = Some 93, o_state = O_FILLED, o_filled_base = 3, o_filled_quote = 279, o_fee = 0\<rparr>],
     sc_mids = [Inr 93], sc_cancels = []\<rparr>, env_inv = [], env_trades = []\<rparr>"

theorem grid_stop_ends_flat_witness:
  "ex_close (fst (snd (gr_on_stop script_api EARLY_STOP (demo_grid, demo_flat_env)))) = Some EARLY_STOP
   \<and> net_base (fst (snd (gr_on_stop script_api EARLY_STOP (demo_grid, demo_flat_env)))) \<le> FLAT_EPS"
proof -
  obtain r x' e' where run: "gr_on_stop script_api EARLY_STOP (demo_grid, demo_flat_env) = (r, (x', e'))"
    by (metis prod.collapse)
  have "ex_state demo_grid = ACTIVE" "\<not> gc_keep (gr_config demo_grid)"
    by (simp_all add: demo_grid_def mk_grid_exec_def demo_grid_config_def exec_base.defs grid_exec.defs)
  moreover have "ex_state (fst (snd (gr_on_stop script_api EARLY_STOP (demo_grid, demo_flat_env)))) = TERMINATED
      \<and> ex_close (fst (snd (gr_on_stop script_api EARLY_STOP (demo_grid, demo_flat_env)))) = Some EARLY_STOP"
    by code_simp
  ultimately show ?thesis using grid_stop_ends_flat [OF run] by (auto simp: run)
qed

subsection \<open>The orders a grid can send\<close>

text \<open>
  \<open>gr_allows c\<close>: post-only entries on the configured side, and reduce-only limit orders of a
  positive amount against it. Market orders are never among them.
\<close>

definition gr_allows :: "grid_config \<Rightarrow> trade_type \<Rightarrow> order_type \<Rightarrow> dec \<Rightarrow> bool \<Rightarrow> bool" where
  "gr_allows c side ty amt ro \<longleftrightarrow>
     (if ro then side = opposite (gc_side c) \<and> ty \<in> {LIMIT, LIMIT_MAKER} \<and> 0 < amt
      else side = gc_side c \<and> ty = LIMIT_MAKER)"

definition gr_has :: "grid_config \<Rightarrow> ('v, 'x) gr_st \<Rightarrow> bool" where
  "gr_has c s \<longleftrightarrow> gr_config (fst s) = c"

interpretation gh: grid_closed "gr_has c" for c
  by unfold_locales (auto simp: gr_has_def)

lemma agree_weaken: "agree I p q \<Longrightarrow> (\<And>s. J s \<Longrightarrow> I s) \<Longrightarrow> agree J p q"
  by (simp add: agree_def)

lemma agree_me: "(\<And>x e. I (x, e) \<Longrightarrow> agree I (f x) (g x)) \<Longrightarrow> agree I (bindP me f) (bindP me g)"
  by (auto simp: agree_def bindP_def me_def getsP_def)

lemma agree_state:
  "(\<And>x e. agree I (f x e) (g x e))
   \<Longrightarrow> agree I (bindP (getsP (\<lambda>s. s)) (\<lambda>s. case s of (x, e) \<Rightarrow> f x e))
        (bindP (getsP (\<lambda>s. s)) (\<lambda>s. case s of (x, e) \<Rightarrow> g x e))"
  by (auto simp: agree_def bindP_def getsP_def)

lemma agree_place:
  "P side ty amt ro \<Longrightarrow> agree I (venue_do (va_place (fenced P api) pair side ty amt px lev ro))
     (venue_do (va_place api pair side ty amt px lev ro))"
  by (simp add: agree_refl)

lemma agree_for: "(\<And>i. keeps I (f i)) \<Longrightarrow> (\<And>i. agree I (f i) (g i)) \<Longrightarrow> agree I (forP is f) (forP is g)"
  by (induction "is") (auto intro: agree_refl agree_bind)

lemma agree_seq:
  "agree I (seqP []) (seqP [])"
  "agree I p q \<Longrightarrow> agree I (seqP [p]) (seqP [q])"
  "agree I p q \<Longrightarrow> keeps I p \<Longrightarrow> agree I (seqP (p2 # ps)) (seqP (q2 # qs))
   \<Longrightarrow> agree I (seqP (p # p2 # ps)) (seqP (q # q2 # qs))"
  by (auto intro: agree_refl agree_bind)

lemma gr_calls_fenced [simp]:
  "best_effort_cancel (fenced P api) = best_effort_cancel api"
  "gr_ingest (fenced P api) = gr_ingest api"
  "opening_blocked (fenced P api) = opening_blocked api"
  by (simp_all only: best_effort_cancel_def gr_ingest_def opening_blocked_def fun_eq_iff
      guard_fenced record_fill_fenced clock_fenced fenced_simps simp_thms) (simp add: fenced_def)

lemma gr_quiet_fenced [simp]:
  "gr_maybe_complete_level (fenced P api) = gr_maybe_complete_level api"
  "gr_cancel_all_resting (fenced P api) = gr_cancel_all_resting api"
  "gr_refresh_all (fenced P api) = gr_refresh_all api"
  unfolding gr_maybe_complete_level_def gr_cancel_all_resting_def gr_refresh_all_def gr_refresh_leg_def
    cancel_ids_def
  by (simp_all cong: option.case_cong if_cong)

text \<open>
  A gate \<open>P\<close> that passes every close leg, and every entry that is placed while \<open>I\<close> holds: no
  step of the grid meets it.
\<close>

locale grid_gated = grid_closed I for I :: "('v, 'x) gr_st \<Rightarrow> bool" +
  fixes P :: "trade_type \<Rightarrow> order_type \<Rightarrow> dec \<Rightarrow> bool \<Rightarrow> bool"
  assumes closing: "I (x, e) \<Longrightarrow> 0 < amt \<Longrightarrow> ty \<in> {LIMIT, LIMIT_MAKER} \<Longrightarrow> P (gr_close_side x) ty amt True"
    and entering: "agree I (gr_maybe_place_opens (fenced P api)) (gr_maybe_place_opens api)"
begin

lemma closes_agree:
  "agree I (gr_place_close_remaining (fenced P api) i amt) (gr_place_close_remaining api i amt)"
  "agree I (gr_place_close (fenced P api) i) (gr_place_close api i)"
proof -
  show r: "agree I (gr_place_close_remaining (fenced P api) i amt) (gr_place_close_remaining api i amt)" for amt
    using closing by (auto simp: agree_def gr_place_close_remaining_def run_defs Let_def not_le)
  show "agree I (gr_place_close (fenced P api) i) (gr_place_close api i)"
    unfolding gr_place_close_def by (intro agree_bind agree_refl steps r)
qed

lemma advance_agree:
  "agree I (gr_advance_close_accounting (fenced P api) amt) (gr_advance_close_accounting api amt)"
proof -
  have rz: "agree I (gr_resize_close (fenced P api) i) (gr_resize_close api i)" for i
    unfolding gr_resize_close_def gr_calls_fenced
    by (intro agree_bind agree_option agree_when agree_refl agree_seq closes_agree steps cancels)
  have "agree I (gr_advance (fenced P api) is amt) (gr_advance api is amt)" for "is"
  proof (induction "is" arbitrary: amt)
    case (Cons i "is")
    show ?case
      unfolding gr_advance.simps Let_def gr_quiet_fenced
      by (intro agree_if agree_bind agree_when agree_refl rz steps completes keeps_when Cons.IH)
  qed (simp add: agree_refl)
  then show ?thesis
    unfolding gr_advance_close_accounting_def by (intro agree_bind agree_refl keeps_me)
qed

text \<open>A state that still holds base when it is flattened.\<close>

lemma holds_guard: "keeps (\<lambda>s. I s \<and> 0 < net_base (fst s)) (guard api label op)"
  by (rule keeps_guard) (auto simp: net_base_def intro: same failed)

lemma flatten_agree:
  "agree (\<lambda>s. I s \<and> 0 < net_base (fst s)) (gr_flatten (fenced P api)) (gr_flatten api)"
proof -
  have b: "agree I (gr_book_flatten (fenced P api) flat) (gr_book_flatten api flat)" for flat
    unfolding gr_book_flatten_def clock_fenced record_fill_fenced
    by (intro agree_when agree_bind agree_refl advance_agree steps keeps_me keeps_clock)
  show ?thesis
    unfolding gr_flatten_def guard_fenced fenced_simps
  proof (rule agree_me)
    fix x :: "'x grid_exec_scheme" and e :: "'v env"
    assume h: "I (x, e) \<and> 0 < net_base (fst (x, e))"
    then have "va_place (fenced P api) (ex_pair x) (gr_close_side x) LIMIT (net_base x) px
        (gc_leverage (gr_config x)) True
      = va_place api (ex_pair x) (gr_close_side x) LIMIT (net_base x) px (gc_leverage (gr_config x)) True" for px
      using closing by auto
    then show "agree (\<lambda>s. I s \<and> 0 < net_base (fst s))
       (bindP (guard api ''grid_stop_mid'' (va_mid api (ex_pair x))) (\<lambda>mid.
         bindP (guard api ''grid_flatten'' (va_place (fenced P api) (ex_pair x) (gr_close_side x) LIMIT (net_base x)
          (exit_cross_price (gr_close_side x) mid) (gc_leverage (gr_config x)) True))
         (gr_book_flatten (fenced P api))))
       (bindP (guard api ''grid_stop_mid'' (va_mid api (ex_pair x))) (\<lambda>mid.
         bindP (guard api ''grid_flatten'' (va_place api (ex_pair x) (gr_close_side x) LIMIT (net_base x)
          (exit_cross_price (gr_close_side x) mid) (gc_leverage (gr_config x)) True))
         (gr_book_flatten api)))"
      by (simp only:) (intro agree_bind agree_refl holds_guard agree_weaken [OF b]; simp)
  qed
qed

lemma stop_agree: "agree I (gr_stop_out (fenced P api) ct) (gr_stop_out api ct)"
proof -
  have fl: "gr_flatten (fenced P api) s = gr_flatten api s" if "I s" "0 < net_base (fst s)" for s
    by (rule agreeD [OF flatten_agree]) (use that in simp)
  have f: "agree (\<lambda>s. I s \<and> fst s = x)
     (if \<not> gc_keep (gr_config x) \<and> net_base x > 0
      then thenP (gr_flatten (fenced P api)) (bindP me (\<lambda>x. if net_base x > FLAT_EPS then ret () else terminate api ct))
      else terminate api ct)
     (if \<not> gc_keep (gr_config x) \<and> net_base x > 0
      then thenP (gr_flatten api) (bindP me (\<lambda>x. if net_base x > FLAT_EPS then ret () else terminate api ct))
      else terminate api ct)" for x
    using fl by (auto simp: agree_def bindP_def)
  show ?thesis
    unfolding gr_stop_out_def gr_quiet_fenced terminate_fenced
    by (intro agree_seq agree_refl stop_steps) (use f in \<open>auto simp: agree_def bindP_def me_def getsP_def\<close>)
qed

lemma process_agree: "agree I (gr_process_level (fenced P api) mid i) (gr_process_level api mid i)"
  unfolding gr_process_level_def gr_process_open_def gr_process_close_def gr_calls_fenced gr_quiet_fenced
    guard_fenced fenced_simps Let_def
  by (intro agree_bind agree_if agree_option agree_refl agree_seq agree_when closes_agree steps ingests
      cancels completes keeps_me keeps_bind keeps_ret keeps_try)

lemma tick_agree: "agree I (gr_on_tick (fenced P api)) (gr_on_tick api)"
  unfolding gr_on_tick_def terminate_fenced guard_fenced fenced_simps
  by (intro agree_bind agree_if agree_refl agree_seq agree_for agree_when stop_agree process_agree entering
      guards processing recycling opens keeps_me keeps_for keeps_bind keeps_when)

lemma reduce_agree: "agree I (gr_reduce_position (fenced P api) b m) (gr_reduce_position api b m)"
proof -
  have i: "agree I (gr_ingest_book (fenced P api) ord cr) (gr_ingest_book api ord cr)" for ord cr
    unfolding gr_ingest_book_def clock_fenced record_fill_fenced Let_def
    by (intro agree_bind agree_if agree_refl advance_agree keeps_me keeps_clock steps advances) simp
  show ?thesis
    unfolding gr_reduce_position_def guard_fenced fenced_simps Let_def
    by (intro agree_me agree_if agree_bind agree_try agree_option agree_when agree_refl agree_place i
        keeps_option keeps_ret keeps_try keeps_bind keeps_when book_ingests steps)
      (auto simp: not_le intro: closing)
qed

lemma recenter_agree: "agree I (gr_recenter (fenced P api) a b) (gr_recenter api a b)"
proof -
  have s: "agree I (gr_recenter_scan (fenced P api) is kept) (gr_recenter_scan api is kept)" for "is" kept
  proof (induction "is" arbitrary: kept)
    case (Cons i "is")
    show ?case
      unfolding gr_recenter_scan.simps gr_calls_fenced fenced_simps
      by (intro agree_bind agree_if agree_option agree_seq agree_try agree_refl closes_agree steps ingests
          placing keeps_bind keeps_try keeps_ret keeps_seq Cons.IH) simp_all
  qed (simp add: agree_refl)
  show ?thesis
    unfolding gr_recenter_def
    by (intro agree_bind agree_if agree_seq agree_refl s entering scans upds keeps_me) simp_all
qed

end

text \<open>The whole set of allowed orders; and, while the executor is suppressed, the reduce-only ones.\<close>

lemma gr_opens_agree:
  "agree (gr_has c) (gr_maybe_place_opens (fenced (gr_allows c) api)) (gr_maybe_place_opens api)"
proof -
  have o1: "agree (gr_has c) (gr_place_open (fenced (gr_allows c) api) i) (gr_place_open api i)" for i
    by (auto simp: agree_def gr_place_open_def run_defs gr_has_def gr_allows_def gr_open_side_def Let_def)
  have s: "agree (gr_has c) (gr_open_scan (fenced (gr_allows c) api) mid is placed) (gr_open_scan api mid is placed)"
    for mid "is" placed
  proof (induction "is" arbitrary: placed)
    case (Cons i "is")
    show ?case
      unfolding gr_open_scan.simps Let_def gr_calls_fenced
      by (intro agree_state agree_if agree_bind agree_refl gh.placing o1 Cons.IH)
  qed (simp add: agree_refl)
  show ?thesis
    unfolding gr_maybe_place_opens_def clock_fenced guard_fenced fenced_simps
    by (intro agree_bind agree_if agree_when agree_refl s gh.steps gh.opens keeps_me keeps_clock)
qed

interpretation gf: grid_gated "gr_has c" "gr_allows c" for c
  by unfold_locales (auto simp: gr_has_def gr_allows_def gr_close_side_def intro: gr_opens_agree)

definition suppressed :: "('v, 'x) gr_st \<Rightarrow> bool" where
  "suppressed s \<longleftrightarrow> ex_suppress_new (fst s)"

definition reduces :: "trade_type \<Rightarrow> order_type \<Rightarrow> dec \<Rightarrow> bool \<Rightarrow> bool" where
  "reduces side ty amt ro \<longleftrightarrow> ro"

lemma suppressed_opens_agree:
  "agree suppressed (gr_maybe_place_opens (fenced P api)) (gr_maybe_place_opens api)"
  unfolding gr_maybe_place_opens_def clock_fenced
  by (rule agree_me) (auto simp: suppressed_def intro!: agree_bind agree_refl keeps_clock)

interpretation gs: grid_gated suppressed reduces
  by unfold_locales (auto simp: suppressed_def reduces_def intro: suppressed_opens_agree)

lemma gr_handle_agree:
  "agree (gr_has c) (gr_handle (fenced (gr_allows c) api) ev) (gr_handle api ev)"
proof (cases ev)
  case GR_Create
  then show ?thesis
    by (auto simp: gr_on_create_def gr_has_def intro!: agree_bind agree_refl gr_opens_agree keeps_activate)
next
  case (GR_Stop ct)
  then show ?thesis
    by (auto simp: gr_on_stop_def intro!: agree_bind agree_if agree_refl gf.stop_agree keeps_me)
next
  case (GR_Reduce b m)
  then show ?thesis by (auto intro!: agree_bind agree_refl gf.reduce_agree gh.reducing)
qed (simp_all add: gf.tick_agree gf.recenter_agree agree_refl)

text \<open>
  Claim C18: the orders a grid can send. Every run of a grid, of any events and on any venue,
  comes out the same when a gate refuses all orders but post-only entries on the configured
  side and reduce-only limit orders of a positive amount on the other: nothing a grid does,
  its stop-outs and external reductions included, opens against its side, closes without the
  reduce-only flag or sends a market order.
\<close>

theorem grid_orders_fenced:
  "gr_run (fenced (gr_allows (gr_config x)) api) evs (x, e) = gr_run api evs (x, e)"
proof -
  have "gr_run (fenced (gr_allows c) api) evs s = gr_run api evs s" if "gr_has c s" for c s
    using that
  proof (induction evs arbitrary: s)
    case (Cons ev evs)
    have "gr_handle (fenced (gr_allows c) api) ev s = gr_handle api ev s"
      by (rule agreeD [OF gr_handle_agree Cons.prems])
    moreover have "gr_has c (snd (gr_handle api ev s))"
      by (rule keeps_snd [OF gh.handling Cons.prems]) (simp_all add: gr_has_def)
    ultimately show ?case using Cons.IH by (simp add: gr_run_def)
  qed (simp add: gr_run_def)
  from this [of "gr_config x" "(x, e)"] show ?thesis by (simp add: gr_has_def)
qed

subsection \<open>What re-centering drops\<close>

text \<open>Every level but the one at position \<open>i\<close>.\<close>

definition others :: "nat \<Rightarrow> grid_level list \<Rightarrow> ('v, 'x) gr_st \<Rightarrow> bool" where
  "others i K s \<longleftrightarrow> length (gr_levels (fst s)) = length K \<and> (\<forall>j. j \<noteq> i \<longrightarrow> gr_levels (fst s) ! j = K ! j)"

lemma others_set [simp]: "others i K (set_level i f x, e) = others i K (x, e)"
  by (auto simp: others_def set_level_def)

lemma others_cong: "others i K (x, e) \<Longrightarrow> gr_levels y = gr_levels x \<Longrightarrow> others i K (y, e')"
  by (simp add: others_def)

lemma keeps_others_guard: "keeps (others i K) (guard api label op)"
  by (rule keeps_guard) (auto elim: others_cong)

lemma keeps_others_upd: "keeps (others i K) (upd_level i f)"
  by (rule keeps_upd) simp

lemma keeps_others_level: "keeps (others i K) (level k)"
  unfolding level_def by (intro keeps_bind keeps_me keeps_ret)

lemma keeps_others_count: "keeps (others i K) (upd (\<lambda>x. x\<lparr>gr_placed := Suc (gr_placed x)\<rparr>))"
  by (rule keeps_upd) (auto elim: others_cong)

lemmas keeps_others = keeps_others_guard keeps_others_upd keeps_others_level keeps_others_count

lemma keeps_others_close: "keeps (others i K) (gr_place_close api i)"
  unfolding gr_place_close_def gr_place_close_remaining_def Let_def
  by (intro keeps_bind keeps_if keeps_me keeps_seq keeps_others)

lemma set_level_at [simp]:
  "i < length (gr_levels x) \<Longrightarrow> gr_levels (set_level i f x) ! i = f (gr_levels x ! i)"
  "j \<noteq> i \<Longrightarrow> gr_levels (set_level i f x) ! j = gr_levels x ! j"
  by (simp_all add: set_level_def)

text \<open>
  Why a re-center may drop a level that was \<open>lv\<close> and has become \<open>lv'\<close>, when the scan reached it
  with the venue in state \<open>v\<close>: it was free, or the venue confirmed a cancel of its entry order,
  and, asked in the very state that cancel left, reported no fill of it beyond what was booked.
\<close>

definition free_level :: "grid_level \<Rightarrow> bool" where
  "free_level lv \<longleftrightarrow> gl_state lv \<in> {L_NOT_ACTIVE, L_COMPLETE} \<or> gl_state lv = L_OPEN_PLACED \<and> gl_open_id lv = None"

definition droppable :: "'v venue_api \<Rightarrow> 'v \<Rightarrow> grid_level \<Rightarrow> grid_level \<Rightarrow> bool" where
  "droppable api v lv lv' \<longleftrightarrow> lv' = lv \<and> free_level lv
     \<or> (\<exists>oid b r v' v''. gl_state lv = L_OPEN_PLACED \<and> gl_open_id lv = Some oid
          \<and> va_cancel api oid v = (Inr b, v') \<and> va_status api oid v' = (Inr r, v'')
          \<and> o_filled_base r \<le> max 0 (gl_o_base lv) \<and> gl_filled lv' \<le> 0 \<and> gl_open_id lv' = None)"

lemma wp_ingest_at:
  "i < length (gr_levels x) \<Longrightarrow> wp (gr_ingest api i r True)
     (\<lambda>_ s. others i (gr_levels x) s
        \<and> (o_filled_base r \<le> gl_o_base (gr_levels x ! i) \<or> gl_filled (gr_levels (fst s) ! i) = o_filled_base r))
     (\<lambda>_ s. gr_levels (fst s) = gr_levels x) (x, e)"
  by (simp add: gr_ingest_def Let_def others_def)

lemma wp_venue_any:
  "(\<And>a w. op (env_venue e) = (Inr a, w) \<Longrightarrow> Q a (x, e\<lparr>env_venue := w\<rparr>))
   \<Longrightarrow> (\<And>c w. op (env_venue e) = (Inl c, w) \<Longrightarrow> E c (x, e\<lparr>env_venue := w\<rparr>))
   \<Longrightarrow> wp (venue_do op) Q E (x, e)"
  by (auto simp: wp_def venue_do_def split: prod.splits sum.splits)

text \<open>The scan goes level by level: a scan of a list is the scan of its first part, then of the rest.\<close>

lemma bind_assoc: "bindP (bindP p f) g = bindP p (\<lambda>x. bindP (f x) g)"
  by (auto simp: bindP_def split: sum.splits prod.splits)

lemma bind_ret: "bindP (ret a) f = f a"
  by (auto simp: bindP_def ret_def)

lemma bind_ext: "(\<And>x. f x = g x) \<Longrightarrow> bindP p f = bindP p g"
  by presburger

lemma bind_if: "bindP (if b then p else q) f = (if b then bindP p f else bindP q f)"
  by simp

lemma scan_append:
  "gr_recenter_scan api (js @ is) kept = bindP (gr_recenter_scan api js kept) (gr_recenter_scan api is)"
proof (induction js arbitrary: kept)
  case (Cons j js)
  show ?case
    unfolding append_Cons gr_recenter_scan.simps bind_assoc
    by (rule bind_ext) (auto simp: Cons.IH bind_assoc bind_if intro!: bind_ext split: option.split)
qed (simp add: bind_ret)

text \<open>One level: every other level stays, and this one is kept or droppable in the venue state it met.\<close>

lemma wp_scan_level:
  fixes x :: "'x grid_exec_scheme" and e :: "'v env"
  assumes "i < length (gr_levels x)"
  shows "wp (gr_recenter_scan api [i] kept) (\<lambda>kept' s. others i (gr_levels x) s
      \<and> (kept' = kept @ [i] \<or> kept' = kept \<and> droppable api (env_venue e) (gr_levels x ! i) (gr_levels (fst s) ! i)))
      (\<lambda>_ _. True) (x, e)"
proof -
  define Goal where "Goal kept' s \<longleftrightarrow> others i (gr_levels x) s
      \<and> (kept' = kept @ [i] \<or> kept' = kept \<and> droppable api (env_venue e) (gr_levels x ! i) (gr_levels (fst s) ! i))"
    for kept' and s :: "('v, 'x) gr_st"
  define G where "G = (\<lambda>_ :: exc. \<lambda>_ :: ('v, 'x) gr_st. True)"
  have keep: "Goal (kept @ [i]) (y, d)" if "gr_levels y = gr_levels x" for y d
    using that by (simp add: Goal_def others_def)
  define settle :: "(('v, 'x) gr_st, nat list) prog" where
    "settle = thenP (upd_level i (\<lambda>lv. lv\<lparr>gl_open_id := None\<rparr>)) (bindP (level i) (\<lambda>lv.
       if gl_filled lv > 0
       then thenP (seqP [upd_level i (\<lambda>lv. lv\<lparr>gl_state := L_OPEN_FILLED\<rparr>), gr_place_close api i]) (ret (kept @ [i]))
       else ret kept))"
  define ask :: "string \<Rightarrow> (('v, 'x) gr_st, nat list) prog" where
    "ask oid = bindP (tryP (bindP (venue_do (va_status api oid)) (\<lambda>r. thenP (gr_ingest api i r True) (ret True))) (\<lambda>_. ret False))
       (\<lambda>probed. if \<not> probed then ret (kept @ [i]) else settle)" for oid
  have settled: "wp settle Goal G (y, d)"
    if lv: "gl_state (gr_levels x ! i) = L_OPEN_PLACED" "gl_open_id (gr_levels x ! i) = Some oid"
      and A: "others i (gr_levels x) (y, d)"
        "o_filled_base r \<le> gl_o_base (gr_levels x ! i) \<or> gl_filled (gr_levels y ! i) = o_filled_base r"
      and ev: "va_cancel api oid (env_venue e) = (Inr b, v')" "va_status api oid v' = (Inr r, v'')" for y d oid r b v' v''
  proof -
    have leny: "i < length (gr_levels y)" using A(1) assms by (simp add: others_def)
    define z where "z = set_level i (\<lambda>lv. lv\<lparr>gl_open_id := None\<rparr>) y"
    have z: "others i (gr_levels x) (z, d)" "gl_filled (gr_levels z ! i) = gl_filled (gr_levels y ! i)"
      "gl_open_id (gr_levels z ! i) = None"
      using A leny by (simp_all add: z_def)
    have "droppable api (env_venue e) (gr_levels x ! i) (gr_levels z ! i)" if "gl_filled (gr_levels z ! i) \<le> 0"
      unfolding droppable_def
      by (rule disjI2, intro exI [of _ oid] exI [of _ b] exI [of _ r] exI [of _ v'] exI [of _ v''])
        (use ev lv z A(2) that in auto)
    then have drop: "Goal kept (z, d)" if "gl_filled (gr_levels z ! i) \<le> 0"
      using that z(1) by (simp add: Goal_def)
    have "wp (gr_place_close api i) (\<lambda>_. wp (ret (kept @ [i])) Goal G) G (set_level i (\<lambda>lv. lv\<lparr>gl_state := L_OPEN_FILLED\<rparr>) z, d)"
      by (rule keeps_wp [OF keeps_others_close [where K = "gr_levels x"]]) (use z(1) in \<open>auto simp: G_def Goal_def\<close>)
    with drop show ?thesis by (simp add: z_def settle_def)
  qed
  have asked: "wp (ask oid) Goal G (y, d)"
    if lv: "gl_state (gr_levels x ! i) = L_OPEN_PLACED" "gl_open_id (gr_levels x ! i) = Some oid"
      and y: "gr_levels y = gr_levels x" and ev: "va_cancel api oid (env_venue e) = (Inr b, env_venue d)" for y d oid b
    unfolding ask_def wp_bind wp_try
  proof (rule wp_venue_any)
    fix r w
    assume st: "va_status api oid (env_venue d) = (Inr r, w)"
    show "wp (gr_ingest api i r True) (\<lambda>_. wp (ret True) (\<lambda>a. wp (if \<not> a then ret (kept @ [i]) else settle) Goal G)
          (\<lambda>c. wp (ret False) (\<lambda>a. wp (if \<not> a then ret (kept @ [i]) else settle) Goal G) G))
        (\<lambda>c. wp (ret False) (\<lambda>a. wp (if \<not> a then ret (kept @ [i]) else settle) Goal G) G)
        (y, d\<lparr>env_venue := w\<rparr>)"
    proof (rule wp_mono [OF wp_ingest_at])
      show "i < length (gr_levels y)" using assms y by simp
    qed (use settled [OF lv _ _ ev st] keep y in auto)
  qed (use keep y in simp)
  have "wp (gr_recenter_scan api [i] kept) Goal G (x, e)"
  proof (cases "gl_state (gr_levels x ! i) = L_OPEN_PLACED \<and> gl_open_id (gr_levels x ! i) \<noteq> None")
    case False
    then show ?thesis
      by (cases "gl_state (gr_levels x ! i)")
        (auto simp: level_def keep Goal_def others_def droppable_def free_level_def)
  next
    case True
    then obtain oid where lv: "gl_state (gr_levels x ! i) = L_OPEN_PLACED" "gl_open_id (gr_levels x ! i) = Some oid" by blast
    have "wp (bindP (tryP (thenP (venue_do (va_cancel api oid)) (thenP count_cancelled (ret True))) (\<lambda>_. ret False))
        (\<lambda>cancelled. if \<not> cancelled then ret (kept @ [i]) else ask oid)) Goal G (x, e)"
      unfolding wp_bind [where p = "tryP (thenP p q) h" for p q h] wp_try wp_bind [where p = "venue_do p" for p]
    proof (rule wp_venue_any)
      fix b w
      assume "va_cancel api oid (env_venue e) = (Inr b, w)"
      then show "wp (thenP count_cancelled (ret True))
          (\<lambda>a. wp (if \<not> a then ret (kept @ [i]) else ask oid) Goal G)
          (\<lambda>c. wp (ret False) (\<lambda>a. wp (if \<not> a then ret (kept @ [i]) else ask oid) Goal G) G) (x, e\<lparr>env_venue := w\<rparr>)"
        using asked [OF lv, of "x\<lparr>gr_cancelled := Suc (gr_cancelled x)\<rparr>" b "e\<lparr>env_venue := w\<rparr>"]
        by (simp add: count_cancelled_def)
    qed (use keep in simp)
    then show ?thesis
      using lv unfolding G_def [symmetric] gr_recenter_scan.simps settle_def ask_def by (simp add: level_def)
  qed
  then show ?thesis unfolding Goal_def G_def .
qed

text \<open>A scan keeps what was kept before, adds levels of its list only, and leaves the other levels.\<close>

lemma wp_scan_frame:
  fixes x :: "'x grid_exec_scheme" and e :: "'v env"
  assumes "\<forall>i\<in>set is. i < length K" "length (gr_levels x) = length K" "\<forall>j. j \<notin> set is' \<longrightarrow> gr_levels x ! j = K ! j"
  shows "wp (gr_recenter_scan api is kept) (\<lambda>kept' s. set kept \<subseteq> set kept' \<and> set kept' \<subseteq> set kept \<union> set is
      \<and> length (gr_levels (fst s)) = length K
      \<and> (\<forall>j. j \<notin> set is \<union> set is' \<longrightarrow> gr_levels (fst s) ! j = K ! j)) (\<lambda>_ _. True) (x, e)"
  using assms
proof (induction "is" arbitrary: x e kept is')
  case (Cons i "is")
  have split: "gr_recenter_scan api (i # is) kept = bindP (gr_recenter_scan api [i] kept) (gr_recenter_scan api is)"
    using scan_append [of api "[i]" "is" kept] by simp
  show ?case unfolding split wp_bind
  proof (rule wp_mono [OF wp_scan_level])
    fix k and s :: "('v, 'x) gr_st"
    assume k: "others i (gr_levels x) s \<and> (k = kept @ [i]
      \<or> k = kept \<and> droppable api (env_venue e) (gr_levels x ! i) (gr_levels (fst s) ! i))"
    obtain y d where s: "s = (y, d)" by (cases s)
    from k have ks: "set kept \<subseteq> set k" "set k \<subseteq> insert i (set kept)" by auto
    have y: "length (gr_levels y) = length K" "\<forall>j. j \<notin> set (i # is') \<longrightarrow> gr_levels y ! j = K ! j"
      using k Cons.prems(2,3) by (auto simp: s others_def)
    show "wp (gr_recenter_scan api is k) (\<lambda>kept' s. set kept \<subseteq> set kept' \<and> set kept' \<subseteq> set kept \<union> set (i # is)
      \<and> length (gr_levels (fst s)) = length K
      \<and> (\<forall>j. j \<notin> set (i # is) \<union> set is' \<longrightarrow> gr_levels (fst s) ! j = K ! j)) (\<lambda>_ _. True) s"
      unfolding s by (rule wp_mono [OF Cons.IH [OF _ y]]) (use Cons.prems(1) ks in auto)
  qed (use Cons.prems in auto)
qed simp

text \<open>
  Claim C19: a re-center drops nothing live. When the scan of a re-center completes, every level
  of the ladder is either carried over, or was free and is unchanged, or rested an entry order
  that the venue confirmed cancelled when the scan reached the level and of which it reported,
  asked after that cancel in the state the cancel left, no fill beyond what was booked; a level
  whose cancel or probe fails is always carried over. A fill that races with the cancel is
  therefore seen: the report that decides is never older than the cancel.
\<close>

theorem grid_recenter_drops_nothing_live:
  assumes "gr_recenter_scan api [0..<length (gr_levels x)] [] (x, e) = (Inr kept, (x', e'))"
    and "i < length (gr_levels x)"
  shows "(i \<in> set kept \<or> (\<exists>k y d. gr_recenter_scan api [0..<i] [] (x, e) = (Inr k, (y, d))
        \<and> droppable api (env_venue d) (gr_levels x ! i) (gr_levels x' ! i)))
    \<and> set kept \<subseteq> {0..<length (gr_levels x)}
    \<and> (gl_state (gr_levels x ! i) \<in> {L_OPEN_FILLED, L_CLOSE_PLACED} \<longrightarrow> i \<in> set kept)"
proof -
  have "[0..<length (gr_levels x)] = [0..<i] @ [i] @ [Suc i..<length (gr_levels x)]"
    using assms(2) by (metis append_Cons append_Nil less_imp_add_positive upt_add_eq_append upt_conv_Cons zero_le)
  then have parts: "gr_recenter_scan api [0..<length (gr_levels x)] [] = bindP (gr_recenter_scan api [0..<i] [])
      (\<lambda>k1. bindP (gr_recenter_scan api [i] k1) (gr_recenter_scan api [Suc i..<length (gr_levels x)]))"
    by (simp only: scan_append [symmetric] append_assoc)
  from assms(1) [unfolded parts] obtain k1 y d k2 z d2 where
      run1: "gr_recenter_scan api [0..<i] [] (x, e) = (Inr k1, (y, d))"
      and run2: "gr_recenter_scan api [i] k1 (y, d) = (Inr k2, (z, d2))"
      and run3: "gr_recenter_scan api [Suc i..<length (gr_levels x)] k2 (z, d2) = (Inr kept, (x', e'))"
    by (auto simp: bindP_def simp del: gr_recenter_scan.simps split: sum.splits prod.splits)
  have y: "set k1 \<subseteq> {0..<i}" "length (gr_levels y) = length (gr_levels x)" "gr_levels y ! i = gr_levels x ! i"
    using wp_ret_value [OF run1 wp_scan_frame [where K = "gr_levels x" and is' = "[]"]] assms(2) by auto
  have z: "length (gr_levels z) = length (gr_levels x)"
      "k2 = k1 @ [i] \<or> k2 = k1 \<and> droppable api (env_venue d) (gr_levels x ! i) (gr_levels z ! i)"
    using wp_ret_value [OF run2 wp_scan_level] assms(2) y by (auto simp: others_def)
  have x': "set k2 \<subseteq> set kept" "set kept \<subseteq> set k2 \<union> {Suc i..<length (gr_levels x)}" "gr_levels x' ! i = gr_levels z ! i"
    using wp_ret_value [OF run3 wp_scan_frame [where K = "gr_levels z" and is' = "[]"]] z(1) by auto
  have "i \<in> set kept \<or> droppable api (env_venue d) (gr_levels x ! i) (gr_levels x' ! i)"
    using z(2) x' by auto
  moreover have "set kept \<subseteq> {0..<length (gr_levels x)}" using y(1) z(2) x'(2) assms(2) by (auto; force)
  ultimately show ?thesis using run1 by (auto simp: droppable_def free_level_def)
qed

definition demo_resting :: grid_exec where
  "demo_resting = demo_grid\<lparr>gr_levels :=
     [(fresh_level 0 90 94 1)\<lparr>gl_state := L_OPEN_PLACED, gl_open_id := Some ''a''\<rparr>,
      (fresh_level 1 95 99 1)\<lparr>gl_state := L_OPEN_PLACED, gl_open_id := Some ''b''\<rparr>]\<rparr>"

definition demo_order :: "string \<Rightarrow> order_state \<Rightarrow> dec \<Rightarrow> nado_order" where
  "demo_order oid st filled = \<lparr>o_id = oid, o_pair = ''BTC'', o_side = BUY, o_type = LIMIT_MAKER, o_amount = 1,
     o_price = Some 90, o_state = st, o_filled_base = filled, o_filled_quote = filled * 90, o_fee = 0\<rparr>"

text \<open>Both cancels are confirmed; the first entry is reported unfilled, the second probe fails.\<close>

definition demo_recenter_env :: "script env" where
  "demo_recenter_env = \<lparr>env_venue = \<lparr>sc_now = 0,
     sc_orders = [Inr (demo_order ''a'' O_CANCELLED 0), Inl (AdapterError ''timeout'')],
     sc_mids = [], sc_cancels = [Inr True, Inr True]\<rparr>, env_inv = [], env_trades = []\<rparr>"

theorem grid_recenter_drops_nothing_live_witness:
  "fst (gr_recenter_scan script_api [0..<length (gr_levels demo_resting)] [] (demo_resting, demo_recenter_env)) = Inr [1]
   \<and> droppable script_api (env_venue demo_recenter_env) (gr_levels demo_resting ! 0) (gr_levels (fst (snd
       (gr_recenter_scan script_api [0..<length (gr_levels demo_resting)] [] (demo_resting, demo_recenter_env)))) ! 0)"
proof -
  obtain r x' e' where run: "gr_recenter_scan script_api [0..<length (gr_levels demo_resting)] []
      (demo_resting, demo_recenter_env) = (r, (x', e'))" by (metis prod.collapse)
  have "case fst (gr_recenter_scan script_api [0..<length (gr_levels demo_resting)] []
      (demo_resting, demo_recenter_env)) of Inl _ \<Rightarrow> False | Inr k \<Rightarrow> k = [1]" by code_simp
  then have r: "r = Inr [1]" by (simp add: run split: sum.splits)
  have "0 < length (gr_levels demo_resting)" by (simp add: demo_resting_def)
  from grid_recenter_drops_nothing_live [OF run [unfolded r] this] show ?thesis
    by (simp add: run r ret_def)
qed

subsection \<open>Where the grid goes wrong\<close>

text \<open>
  A finding: a re-center cut short wedges the ladder. When a re-center has confirmed the
  cancel of one entry and then its placement of a close leg for another is throttled, the new
  ladder is never installed, the first level keeps the state of a resting order without the
  order's id, and the next tick fails on its assertion before any level behind it is served.
\<close>

definition demo_wedge_env :: "script env" where
  "demo_wedge_env = \<lparr>env_venue = \<lparr>sc_now = 0,
     sc_orders = [Inr (demo_order ''a'' O_CANCELLED 0), Inr (demo_order ''b'' O_CANCELLED (1 / 2)),
       Inl (AdapterThrottled ''budget'')],
     sc_mids = [Inr 93], sc_cancels = [Inr True, Inr True]\<rparr>, env_inv = [], env_trades = []\<rparr>"

definition wedged :: "nat \<Rightarrow> 'x grid_exec_scheme \<Rightarrow> bool" where
  "wedged i x \<longleftrightarrow> i < length (gr_levels x) \<and> gl_state (gr_levels x ! i) = L_OPEN_PLACED \<and> gl_open_id (gr_levels x ! i) = None"

theorem grid_interrupted_recenter_wedges:
  "fst (gr_recenter script_api 90 96 (demo_resting, demo_wedge_env)) = Inl (AdapterThrottled ''budget'')
   \<and> wedged 0 (fst (snd (gr_recenter script_api 90 96 (demo_resting, demo_wedge_env))))
   \<and> fst (gr_on_tick script_api (snd (gr_recenter script_api 90 96 (demo_resting, demo_wedge_env))))
       = Inl (OtherError ''AssertionError'')"
  by code_simp

text \<open>
  A finding: a re-placed close leg is under-booked. A close leg of two units fills one and is
  cancelled by the venue; the level re-places the remaining unit under a new order but keeps
  the old order's fill as its watermark, so when the new order reports its one unit filled
  nothing is booked: the level completes with one unit still held in its accounts and one of
  the two closing fills never reaches the inventory or the trade log.
\<close>

definition demo_closing :: grid_exec where
  "demo_closing = demo_grid\<lparr>ex_has_recorder := True, gr_levels :=
     [(fresh_level 0 90 94 2)\<lparr>gl_state := L_CLOSE_PLACED, gl_close_id := Some ''c1'', gl_o_base := 2,
        gl_filled := 2, gl_filled_quote := 180\<rparr>]\<rparr>"

definition demo_close :: "string \<Rightarrow> order_state \<Rightarrow> dec \<Rightarrow> dec \<Rightarrow> nado_order" where
  "demo_close oid st amt filled = \<lparr>o_id = oid, o_pair = ''BTC'', o_side = SELL, o_type = LIMIT_MAKER, o_amount = amt,
     o_price = Some 94, o_state = st, o_filled_base = filled, o_filled_quote = filled * 94, o_fee = 0\<rparr>"

definition demo_close_env :: "script env" where
  "demo_close_env = \<lparr>env_venue = \<lparr>sc_now = 0,
     sc_orders = [Inr (demo_close ''c1'' O_CANCELLED 2 1), Inr (demo_close ''c2'' O_OPEN 1 0),
       Inr (demo_close ''c2'' O_FILLED 1 1)],
     sc_mids = [Inr 93, Inr 93, Inr 93, Inr 93], sc_cancels = []\<rparr>, env_inv = [], env_trades = []\<rparr>"

theorem grid_replaced_close_underbooked:
  "let s = gr_run script_api [GR_Tick, GR_Tick] (demo_closing, demo_close_env) in
     map gl_state (gr_levels (fst s)) = [L_COMPLETE] \<and> map lv_held (gr_levels (fst s)) = [1]
     \<and> map t_base (env_trades (snd s)) = [1] \<and> ex_close (fst s) = Some COMPLETED"
  by code_simp

text \<open>
  A finding: a level whose close leg is throttled is forgotten. When an entry order is
  reported filled and the placement of its close leg is throttled, the level keeps its base
  with no close order, and no later processing of the level does anything at all.
\<close>

theorem grid_throttled_close_forgotten:
  fixes x :: "'x grid_exec_scheme" and e :: "'v env"
  assumes i: "i < length (gr_levels x)" "gl_state (gr_levels x ! i) = L_OPEN_PLACED"
      "gl_open_id (gr_levels x ! i) = Some oid" "gl_close_id (gr_levels x ! i) = None"
    and st: "va_status api oid (env_venue e) = (Inr ord, v)" "o_state ord = O_FILLED"
    and fresh: "gl_o_base (gr_levels x ! i) < o_filled_base ord" "gl_o_quote (gr_levels x ! i) \<le> o_filled_quote ord"
      "gl_c_base (gr_levels x ! i) + gl_booked (gr_levels x ! i) < o_filled_base ord"
    and thr: "\<And>pair side ty amt px lev ro. va_place api pair side ty amt px lev ro v = (Inl (AdapterThrottled m), w)"
  shows "\<exists>x' e'. gr_process_level api mid i (x, e) = (Inl (AdapterThrottled m), (x', e'))
    \<and> gl_state (gr_levels x' ! i) = L_OPEN_FILLED \<and> gl_close_id (gr_levels x' ! i) = None
    \<and> 0 < lv_held (gr_levels x' ! i)
    \<and> (\<forall>mid' d. gr_process_level api mid' i (x', d) = (Inr (), (x', d)))"
proof -
  have idle: "gr_process_level api mid' i (y, d) = (Inr (), (y, d))"
    if "gl_state (gr_levels y ! i) = L_OPEN_FILLED" for mid' d and y :: "'x grid_exec_scheme"
    by (rule run_InrI) (simp add: gr_process_level_def that)
  have thr': "va_place api pair side ty amt px lev ro (env_venue (booked f ord c y (e\<lparr>env_venue := v\<rparr>)))
      = (Inl (AdapterThrottled m), w)" for pair side ty amt px lev ro f c and y :: "'x grid_exec_scheme"
    by (simp add: thr)
  have "wp (gr_process_level api mid i) (\<lambda>_ _. False) (\<lambda>c s. c = AdapterThrottled m
      \<and> gl_state (gr_levels (fst s) ! i) = L_OPEN_FILLED \<and> gl_close_id (gr_levels (fst s) ! i) = None
      \<and> 0 < lv_held (gr_levels (fst s) ! i)) (x, e)"
    using i fresh
    by (simp add: gr_process_level_def gr_process_open_def wp_guard_Inr [of "va_status api oid", OF st(1)] st(2)
        gr_ingest_def Let_def fill_refused_def delta_fill_quote gr_place_close_def count_filled_def lv_held_def
        gr_place_close_remaining_def wp_guard_throttled [where op = "va_place api pr sd ty am px lv ro" for pr sd ty am px lv ro, OF thr'])
  then show ?thesis
    using idle by (cases "gr_process_level api mid i (x, e)") (force simp: wp_def split: sum.splits)
qed

theorem grid_throttled_close_forgotten_witness:
  "\<exists>x' e'. gr_process_level script_api 93 0 (demo_resting, demo_env\<lparr>env_venue := \<lparr>sc_now = 0,
       sc_orders = [Inr (demo_order ''a'' O_FILLED 1), Inl (AdapterThrottled ''budget'')], sc_mids = [],
       sc_cancels = []\<rparr>\<rparr>) = (Inl (AdapterThrottled ''budget''), (x', e')) \<and> 0 < lv_held (gr_levels x' ! 0)"
proof -
  define v0 where "v0 = \<lparr>sc_now = 0, sc_orders = [Inr (demo_order ''a'' O_FILLED 1), Inl (AdapterThrottled ''budget'')],
     sc_mids = [], sc_cancels = []\<rparr>"
  define v1 where "v1 = v0\<lparr>sc_orders := [Inl (AdapterThrottled ''budget'')]\<rparr>"
  have st: "va_status script_api ''a'' (env_venue (demo_env\<lparr>env_venue := v0\<rparr>)) = (Inr (demo_order ''a'' O_FILLED 1), v1)"
    by (simp add: script_defs v0_def v1_def)
  have "va_place script_api pair side ty amt px lev ro v1
      = (Inl (AdapterThrottled ''budget''), v1\<lparr>sc_orders := []\<rparr>)" for pair side ty amt px lev ro
    by (simp add: script_defs v0_def v1_def)
  from grid_throttled_close_forgotten [OF _ _ _ _ st _ _ _ _ this, of 0 demo_resting 93]
  show ?thesis by (auto simp: demo_resting_def fresh_level_def demo_order_def v0_def)
qed

end
