(* ===== verification/Grid_Controller.thy ===== *)
theory Grid_Controller
  imports Controller_Prog Grid_Laws
begin

text \<open>
  The grid controllers, from \<open>engine/controllers/grid_trading.py\<close> (\<open>GridController\<close>, long) and
  \<open>short_ladder.py\<close> (\<open>ShortLadderController\<close>, short): one ladder executor spawned on start,
  the regime gate and the exposure cap turned into the executor's suppression flag on every
  tick, and the in-place re-center that follows the price.

  A controller is an entry of the orchestrator's registry of controllers, extended by the
  attributes its class adds, and its coroutines are programs over the orchestrator, so that
  \<open>grid_hooks\<close> plugs it into \<open>spawn_controller\<close> and \<open>tick_controller\<close>. The \<open>configs\<close> dictionary
  is a record of the entries it reads, \<open>None\<close> where a key is missing. The candle provider with
  the regime routine is a parameter, \<open>ge_regime\<close>; fresh identifiers come from \<open>ge_uuid\<close>.
\<close>

subsection \<open>State\<close>

datatype grid_class = GRID_TRADING | SHORT_LADDER

record grid_cfg =
  gf_pair :: string
  gf_start :: "dec option"
  gf_end :: "dec option"
  gf_limit :: "dec option"
  gf_total :: "dec option"
  gf_spread :: "dec option"
  gf_max_open :: "int option"
  gf_batch :: "int option"
  gf_bounds :: "dec option"
  gf_barrier :: "triple_barrier option"
  gf_leverage :: "int option"
  gf_keep :: bool
  gf_recycle :: bool
  gf_step :: dec
  gf_levels :: int
  gf_reset_bp :: dec
  gf_gate :: bool
  gf_provider :: bool
  gf_confirm :: "int option"
  gf_cap_pct :: "dec option"
  gf_margin :: "dec option"
  gf_resume_frac :: "dec option"
  gf_suppress :: bool

record grid_ctl = controller +
  gd_class :: grid_class
  gd_cfg :: grid_cfg
  gd_has_inv :: bool
  gd_gate :: gate
  gd_exposure :: exposure_state
  gd_executor :: "string option"
  gd_threshold :: dec
  gd_anchor :: "dec option"
  gd_move :: dec
  gd_reset_active :: bool
  gd_last :: time
  gd_uid :: nat

type_synonym ('v, 'k) grid_orch = "('v, 'k, unit grid_ctl_ext) orch"
type_synonym ('v, 'k, 'a) gprog = "('v, 'k, unit grid_ctl_ext, 'a) oprog"
type_synonym ('v, 'k) grid_env = "('v, 'k) ctl_env"

definition RECENTER_MIN_INTERVAL :: time where "RECENTER_MIN_INTERVAL = 5"

fun class_side :: "grid_class \<Rightarrow> trade_type" where
  "class_side GRID_TRADING = BUY"
| "class_side SHORT_LADDER = SELL"

fun class_name :: "grid_class \<Rightarrow> string" where
  "class_name GRID_TRADING = ''grid_trading''"
| "class_name SHORT_LADDER = ''short_ladder''"

fun class_executor :: "grid_class \<Rightarrow> string \<Rightarrow> int \<Rightarrow> string \<Rightarrow> bool \<Rightarrow> grid_config \<Rightarrow> time \<Rightarrow> exc + grid_exec" where
  "class_executor GRID_TRADING xid user cid has_inv c t = Inr (mk_grid_exec xid user cid has_inv c t)"
| "class_executor SHORT_LADDER xid user cid has_inv c t = mk_reverse_grid_exec xid user cid has_inv c t"

text \<open>\<open>self.configs[key]\<close> raises where \<open>configs.get(key, d)\<close> takes the default.\<close>

definition need :: "string \<Rightarrow> 'a option \<Rightarrow> exc + 'a" where
  "need key v = (case v of None \<Rightarrow> Inl (OtherError ([CHR 0x27] @ key @ [CHR 0x27])) | Some x \<Rightarrow> Inr x)"

definition build_grid_config :: "grid_cfg \<Rightarrow> trade_type \<Rightarrow> exc + grid_config" where
  "build_grid_config k side = (case (need ''start_price'' (gf_start k), need ''end_price'' (gf_end k),
       need ''total_amount_quote'' (gf_total k)) of
     (Inl c, _, _) \<Rightarrow> Inl c
   | (_, Inl c, _) \<Rightarrow> Inl c
   | (_, _, Inl c) \<Rightarrow> Inl c
   | (Inr a, Inr b, Inr q) \<Rightarrow> Inr
      \<lparr>gc_pair = gf_pair k, gc_side = side, gc_start = a, gc_end = b, gc_limit = or_else (gf_limit k) 0, gc_total = q,
       gc_spread = or_else (gf_spread k) (5 / 1000), gc_max_open = or_else (gf_max_open k) 10,
       gc_batch = or_else (gf_batch k) 10, gc_frequency = 0, gc_bounds = gf_bounds k, gc_safe_extra = 0,
       gc_barrier = gf_barrier k, gc_leverage = or_else (gf_leverage k) 1, gc_keep = gf_keep k,
       gc_recycle = gf_recycle k\<rparr>)"

definition mk_grid_ctl :: "grid_class \<Rightarrow> string \<Rightarrow> int \<Rightarrow> bool \<Rightarrow> grid_cfg \<Rightarrow> grid_ctl" where
  "mk_grid_ctl cl cid user has_inv k = controller.extend (mk_controller cid user (class_name cl))
     \<lparr>gd_class = cl, gd_cfg = k, gd_has_inv = has_inv, gd_gate = fresh_gate,
      gd_exposure = \<lparr>xs_capped = False, xs_net_quote = 0\<rparr>, gd_executor = None,
      gd_threshold = fst (ladder_recenter_threshold_bp (gf_step k * 10000) (gf_levels k) (gf_reset_bp k)
        LADDER_RECENTER_FLOOR_BP),
      gd_anchor = None, gd_move = 0, gd_reset_active = False, gd_last = 0, gd_uid = 0\<rparr>"

subsection \<open>Helpers\<close>

fun ee_suppress :: "bool \<Rightarrow> engine_executor \<Rightarrow> engine_executor" where
  "ee_suppress b (EX_Order x) = EX_Order (x\<lparr>ex_suppress_new := b\<rparr>)"
| "ee_suppress b (EX_RGrid x) = EX_RGrid (x\<lparr>ex_suppress_new := b\<rparr>)"
| "ee_suppress b (EX_Position x) = EX_Position (x\<lparr>ex_suppress_new := b\<rparr>)"
| "ee_suppress b (EX_Dca x) = EX_Dca (x\<lparr>ex_suppress_new := b\<rparr>)"
| "ee_suppress b (EX_Twap x) = EX_Twap (x\<lparr>ex_suppress_new := b\<rparr>)"
| "ee_suppress b (EX_Grid x) = EX_Grid (x\<lparr>ex_suppress_new := b\<rparr>)"

text \<open>Only the grid executors have a \<open>recenter\<close>.\<close>

fun can_recenter :: "engine_executor \<Rightarrow> bool" where
  "can_recenter (EX_Grid x) = True"
| "can_recenter _ = False"

fun ee_recenter :: "'v venue_api \<Rightarrow> dec \<Rightarrow> dec \<Rightarrow> engine_executor \<Rightarrow> 'v env
    \<Rightarrow> (exc + unit) \<times> engine_executor \<times> 'v env" where
  "ee_recenter api a b (EX_Grid x) = lift_ex EX_Grid (gr_recenter api a b) x"
| "ee_recenter api a b ex = (\<lambda>e. (Inr (), ex, e))"

subsection \<open>The gate\<close>

definition grid_gate_input :: "('v, 'k) grid_env \<Rightarrow> 'v \<Rightarrow> grid_ctl \<Rightarrow> gate_input" where
  "grid_gate_input ge v g = \<lparr>gi_enabled = gf_gate (gd_cfg g), gi_provider = gf_provider (gd_cfg g),
     gi_result = ge_regime ge v, gi_confirm = gf_confirm (gd_cfg g), gi_pause_on_trend = True,
     gi_adverse_trend = None, gi_pause_on_breakout = True\<rparr>"

definition grid_gate :: "('v, 'k) grid_env \<Rightarrow> string \<Rightarrow> ('v, 'k, unit) gprog" where
  "grid_gate ge cid = bindP (getsP (\<lambda>s. env_venue (or_env s))) (\<lambda>v.
     upd_ctl cid (\<lambda>g. g\<lparr>gd_gate := evaluate_quote_gate (grid_gate_input ge v g) (gd_gate g)\<rparr>))"

subsection \<open>Spawning\<close>

definition grid_request :: "grid_config \<Rightarrow> executor_request" where
  "grid_request c = \<lparr>rq_order_amount = gc_total c, rq_position_size = gc_total c, rq_reduce_only = False,
     rq_position_action = None\<rparr>"

definition grid_new_executor :: "('v, 'k) grid_env \<Rightarrow> string \<Rightarrow> grid_ctl \<Rightarrow> ('v, 'k, grid_exec) gprog" where
  "grid_new_executor ge cid g = bindP (raise_or (build_grid_config (gd_cfg g) (class_side (gd_class g)))) (\<lambda>c.
     thenP (upd_ctl cid (\<lambda>g. g\<lparr>gd_uid := Suc (gd_uid g)\<rparr>))
       (bindP (getsP (o_now (ge_deps ge))) (\<lambda>t.
          raise_or (class_executor (gd_class g) (ge_uuid ge (gd_uid g)) (ct_user g) cid (gd_has_inv g) c t))))"

definition grid_spawn :: "('v, 'k) grid_env \<Rightarrow> string \<Rightarrow> ('v, 'k, unit) gprog" where
  "grid_spawn ge cid = with_ctl cid (\<lambda>g. bindP (grid_new_executor ge cid g) (\<lambda>x.
     bindP (orch_spawn (ge_deps ge) (EX_Grid x) (Some (grid_request (gr_config x)))) (\<lambda>ok.
       whenP ok (seqP
         [upd_ctl cid (\<lambda>g. g\<lparr>gd_executor := Some (ex_id x)\<rparr>),
          bindP (try_mid ge (gf_pair (gd_cfg g))) (\<lambda>m. upd_ctl cid (\<lambda>g. g\<lparr>gd_anchor := m\<rparr>)),
          upd_ctl cid (\<lambda>g. g\<lparr>gd_move := 0\<rparr>)]))))"

definition grid_on_start :: "('v, 'k) grid_env \<Rightarrow> string \<Rightarrow> ('v, 'k, unit) gprog" where
  "grid_on_start ge cid = thenP (grid_gate ge cid) (grid_spawn ge cid)"

subsection \<open>Re-centering\<close>

text \<open>\<open>_rebuild_bounds_for_side\<close>: start, end and limit, or nothing.\<close>

definition maker_offset :: "dec \<Rightarrow> dec" where
  "maker_offset step = max (step / 2) (15 / 100000)"

definition band_span :: "dec \<Rightarrow> int \<Rightarrow> dec" where
  "band_span step levels = step * of_int (max (levels - 1) 1)"

definition rebuild_bounds :: "trade_type \<Rightarrow> dec \<Rightarrow> int \<Rightarrow> dec \<Rightarrow> (dec \<times> dec \<times> dec) option" where
  "rebuild_bounds side step levels mid =
     (if mid \<le> 0 \<or> step \<le> 0 \<or> levels < 1 then None
      else if side = SELL
      then Some (mid * (1 + maker_offset step), mid * (1 + maker_offset step + band_span step levels), 0)
      else Some (mid * (1 - maker_offset step - band_span step levels), mid * (1 - maker_offset step), 0))"

definition measured :: "dec \<Rightarrow> grid_ctl \<Rightarrow> grid_ctl" where
  "measured mid g = (case gd_anchor g of None \<Rightarrow> g
     | Some a \<Rightarrow> if a > 0 then g\<lparr>gd_move := \<bar>(mid - a) / a\<bar> * 10000\<rparr> else g)"

definition recentered :: "dec \<Rightarrow> time \<Rightarrow> grid_ctl \<Rightarrow> grid_ctl" where
  "recentered mid now g = g\<lparr>gd_anchor := Some mid, gd_move := 0, gd_reset_active := True, gd_last := now\<rparr>"

definition recenter_all :: "('v, 'k) grid_env \<Rightarrow> string \<Rightarrow> dec \<Rightarrow> time \<Rightarrow> dec \<Rightarrow> dec \<Rightarrow> ('v, 'k, unit) gprog" where
  "recenter_all ge cid mid now a b = bindP (my_executors cid) (\<lambda>xs.
     thenP (forP (ids_of (filter can_recenter xs)) (\<lambda>i. on_executor i (ee_recenter (dp_api (ge_deps ge)) a b)))
       (whenP (list_ex can_recenter xs) (upd_ctl cid (recentered mid now))))"

definition recenter_due :: "('v, 'k) grid_env \<Rightarrow> grid_ctl \<Rightarrow> ('v, 'k) grid_orch \<Rightarrow> bool" where
  "recenter_due ge g s \<longleftrightarrow> \<not> gd_move g < gd_threshold g
     \<and> \<not> o_now (ge_deps ge) s - gd_last g < RECENTER_MIN_INTERVAL \<and> \<not> venue_contended ge s"

definition maybe_recenter :: "('v, 'k) grid_env \<Rightarrow> string \<Rightarrow> dec option \<Rightarrow> ('v, 'k, unit) gprog" where
  "maybe_recenter ge cid m = thenP (upd_ctl cid (\<lambda>g. g\<lparr>gd_reset_active := False\<rparr>)) (with_ctl cid (\<lambda>g.
     case m of None \<Rightarrow> ret ()
     | Some mid \<Rightarrow> if gd_threshold g \<le> 0 \<or> mid \<le> 0 then ret ()
        else thenP (upd_ctl cid (measured mid)) (with_ctl cid (\<lambda>g.
          bindP (getsP (\<lambda>s. (recenter_due ge g s, o_now (ge_deps ge) s))) (\<lambda>(due, now).
            if \<not> due then ret ()
            else case rebuild_bounds (class_side (gd_class g)) (gf_step (gd_cfg g)) (gf_levels (gd_cfg g)) mid of
              None \<Rightarrow> ret ()
            | Some (a, b, _) \<Rightarrow> recenter_all ge cid mid now a b)))))"

subsection \<open>The tick\<close>

definition grid_exposure_cfg :: "grid_ctl \<Rightarrow> exposure_cfg" where
  "grid_exposure_cfg g = \<lparr>xc_has_inventory = gd_has_inv g, xc_cap_pct = gf_cap_pct (gd_cfg g),
     xc_margin = gf_margin (gd_cfg g), xc_resume_frac = or_else (gf_resume_frac (gd_cfg g)) (7 / 10),
     xc_suppress = gf_suppress (gd_cfg g)\<rparr>"

definition grid_exposure :: "string \<Rightarrow> dec option \<Rightarrow> ('v, 'k, sides) gprog" where
  "grid_exposure cid m = bindP (getsP (\<lambda>s. map_of (or_controllers s) cid)) (\<lambda>r. case (r, m) of
     (Some g, Some mid) \<Rightarrow> if mid = 0 then ret (True, True)
        else bindP (exposure_read (ct_user g) (gf_pair (gd_cfg g)) cid (grid_exposure_cfg g) mid (gd_exposure g))
          (\<lambda>(allowed, x). thenP (upd_ctl cid (\<lambda>g. g\<lparr>gd_exposure := x\<rparr>)) (ret allowed))
   | _ \<Rightarrow> ret (True, True))"

definition entry_allowed :: "grid_class \<Rightarrow> sides \<Rightarrow> bool" where
  "entry_allowed cl allowed = (if class_side cl = BUY then fst allowed else snd allowed)"

definition set_suppress :: "string \<Rightarrow> bool \<Rightarrow> ('v, 'k, unit) gprog" where
  "set_suppress i b = on_executor i (\<lambda>x e. (Inr (), ee_suppress b x, e))"

definition tick_executors :: "('v, 'k) grid_env \<Rightarrow> string \<Rightarrow> sides \<Rightarrow> string list \<Rightarrow> ('v, 'k, unit) gprog" where
  "tick_executors ge cid allowed is = forP is (\<lambda>i. with_ctl cid (\<lambda>g. thenP
     (set_suppress i (gate_paused (gd_gate g) \<or> \<not> entry_allowed (gd_class g) allowed))
     (orch_tick (ge_deps ge) i)))"

definition grid_ensure :: "('v, 'k) grid_env \<Rightarrow> string \<Rightarrow> ('v, 'k, unit) gprog" where
  "grid_ensure ge cid = with_ctl cid (\<lambda>g. bindP (my_executors cid) (\<lambda>xs.
     whenP (xs = [] \<and> gd_executor g = None) (grid_spawn ge cid)))"

definition grid_manage :: "('v, 'k) grid_env \<Rightarrow> string \<Rightarrow> ('v, 'k, unit) gprog" where
  "grid_manage ge cid = with_ctl cid (\<lambda>g. bindP (my_executors cid) (\<lambda>xs.
     bindP (try_mid ge (gf_pair (gd_cfg g))) (\<lambda>m.
       thenP (maybe_recenter ge cid m)
         (bindP (grid_exposure cid m) (\<lambda>allowed. tick_executors ge cid allowed (ids_of xs))))))"

definition grid_on_tick :: "('v, 'k) grid_env \<Rightarrow> string \<Rightarrow> ('v, 'k, unit) gprog" where
  "grid_on_tick ge cid = seqP [grid_gate ge cid, grid_ensure ge cid, grid_manage ge cid]"

definition grid_hooks :: "('v, 'k) grid_env \<Rightarrow> ('v, 'k, unit grid_ctl_ext) ctl_hooks" where
  "grid_hooks ge = \<lparr>ch_on_start = grid_on_start ge, ch_on_tick = grid_on_tick ge, ch_on_stop = (\<lambda>cid reason. ret ())\<rparr>"

record grid_status =
  gm_anchor :: dec
  gm_side :: trade_type
  gm_drift_pct :: dec
  gm_reset_active :: bool
  gm_threshold :: dec

definition grid_metrics :: "grid_ctl \<Rightarrow> grid_status" where
  "grid_metrics g = \<lparr>gm_anchor = or_dec (gd_anchor g) 0, gm_side = class_side (gd_class g),
     gm_drift_pct = gd_move g / 100, gm_reset_active = gd_threshold g > 0, gm_threshold = gd_threshold g\<rparr>"

subsection \<open>A paused grid\<close>

text \<open>
  \<open>grid_book js cid s\<close>: the keys of the registry are distinct, the executors of \<open>js\<close> are grids,
  and so is every active executor of the controller, which is one of \<open>js\<close> or suppressed.
\<close>

fun is_quiet :: "engine_executor \<Rightarrow> bool" where
  "is_quiet (EX_Grid x) = ex_suppress_new x"
| "is_quiet _ = False"

definition grid_book :: "string list \<Rightarrow> string \<Rightarrow> engine_executor odict \<Rightarrow> bool" where
  "grid_book js cid d \<longleftrightarrow> distinct (map fst d)
     \<and> list_all (\<lambda>i. case map_of d i of Some x \<Rightarrow> can_recenter x | None \<Rightarrow> False) js
     \<and> list_all (\<lambda>(k, x). live cid x \<longrightarrow> can_recenter x \<and> (k \<in> set js \<or> is_quiet x)) d"

lemma can_recenter_iff: "can_recenter x \<longleftrightarrow> (\<exists>y. x = EX_Grid y)"
  by (cases x) simp_all

lemma is_quiet_can: "is_quiet x \<Longrightarrow> can_recenter x"
  by (cases x) simp_all

lemma list_all_map_of:
  assumes "distinct (map fst d)"
  shows "list_all (\<lambda>(k, x). P k x) d \<longleftrightarrow> (\<forall>k x. map_of d k = Some x \<longrightarrow> P k x)"
  using assms by (auto simp: list_all_iff)

lemma grid_book_iff:
  "grid_book js cid d \<longleftrightarrow> distinct (map fst d)
     \<and> (\<forall>i \<in> set js. \<exists>x. map_of d i = Some x \<and> can_recenter x)
     \<and> (\<forall>k x. map_of d k = Some x \<longrightarrow> live cid x \<longrightarrow> can_recenter x \<and> (k \<in> set js \<or> is_quiet x))"
proof (cases "distinct (map fst d)")
  case True
  show ?thesis
    unfolding grid_book_def list_all_map_of [OF True] by (force simp: list_all_iff split: option.splits)
qed (simp add: grid_book_def)

lemma grid_book_set:
  assumes "grid_book js cid d" "can_recenter x" "i \<in> set js"
  shows "grid_book js cid (od_set i x d)"
  using assms by (auto simp: grid_book_iff simp del: map_of_eq_Some_iff)

lemma grid_book_done: "grid_book (i # js) cid d \<Longrightarrow> is_quiet x \<Longrightarrow> grid_book js cid (od_set i x d)"
  by (auto simp: grid_book_iff is_quiet_can simp del: map_of_eq_Some_iff)

lemma lift_ex_quiet:
  assumes "keeps suppressed p" "ex_suppress_new x" "lift_ex EX_Grid p x e = (r, y, e')"
  shows "is_quiet y"
proof -
  have "suppressed (snd (p (x, e)))" by (rule keeps_snd [OF assms(1)]) (simp add: suppressed_def assms(2))
  then show ?thesis using assms(3) by (auto simp: lift_ex_def suppressed_def split: prod.splits)
qed

lemma grid_tick_quiet:
  "is_quiet x \<Longrightarrow> ee_on_tick api x e = (r, y, e') \<Longrightarrow> is_quiet y"
  "is_quiet x \<Longrightarrow> ee_recenter api a b x e = (r, y, e') \<Longrightarrow> is_quiet y"
proof -
  assume q: "is_quiet x"
  then obtain z where z: "x = EX_Grid z" "ex_suppress_new z" by (cases x) simp_all
  show "ee_on_tick api x e = (r, y, e') \<Longrightarrow> is_quiet y" "ee_recenter api a b x e = (r, y, e') \<Longrightarrow> is_quiet y"
    unfolding z(1) ee_on_tick.simps ee_recenter.simps
    by (rule lift_ex_quiet [OF gs.ticking z(2)] lift_ex_quiet [OF gs.recentering z(2)], assumption)+
qed

lemma grid_recenter_grid: "can_recenter x \<Longrightarrow> ee_recenter api a b x e = (r, y, e') \<Longrightarrow> can_recenter y"
  by (cases x) (auto simp: lift_ex_def split: prod.splits)

lemma lift_ex_agree:
  "agree suppressed p q \<Longrightarrow> ex_suppress_new x \<Longrightarrow> lift_ex EX_Grid p x = lift_ex EX_Grid q x"
  by (simp add: lift_ex_def fun_eq_iff agree_def suppressed_def)

lemma grid_calls_fenced:
  "is_quiet x \<Longrightarrow> ee_on_tick (fenced reduces api) x = ee_on_tick api x"
  "is_quiet x \<Longrightarrow> ee_recenter (fenced reduces api) a b x = ee_recenter api a b x"
proof -
  assume q: "is_quiet x"
  then obtain z where z: "x = EX_Grid z" "ex_suppress_new z" by (cases x) simp_all
  show "ee_on_tick (fenced reduces api) x = ee_on_tick api x"
    "ee_recenter (fenced reduces api) a b x = ee_recenter api a b x"
    unfolding z(1) ee_on_tick.simps ee_recenter.simps
    by (rule lift_ex_agree [OF gs.tick_agree z(2)] lift_ex_agree [OF gs.recenter_agree z(2)])+
qed

text \<open>The same environment behind a gate that lets nothing but reduce-only orders through.\<close>

definition reduce_only :: "('v, 'k) grid_env \<Rightarrow> ('v, 'k) grid_env" where
  "reduce_only ge = ge\<lparr>ge_deps := (ge_deps ge)\<lparr>dp_api := fenced reduces (dp_api (ge_deps ge))\<rparr>\<rparr>"

abbreviation reduce_deps :: "('v, 'k) deps \<Rightarrow> ('v, 'k) deps" where
  "reduce_deps dp \<equiv> dp\<lparr>dp_api := fenced reduces (dp_api dp)\<rparr>"

lemma reduce_only_simps [simp]:
  "ge_regime (reduce_only ge) = ge_regime ge" "ge_uuid (reduce_only ge) = ge_uuid ge"
  "ge_deps (reduce_only ge) = reduce_deps (ge_deps ge)"
  by (simp_all add: reduce_only_def)

lemma reduce_deps_quiet [simp]:
  "o_now (reduce_deps dp) s = o_now dp s"
  "emit (reduce_deps dp) kind xid cid ct reason = emit dp kind xid cid ct reason"
  by (simp_all add: o_now_def emit_def)

lemma reduce_only_quiet [simp]:
  "grid_gate (reduce_only ge) cid = grid_gate ge cid"
  "try_mid (reduce_only ge) pair = try_mid ge pair"
  "venue_contended (reduce_only ge) s = venue_contended ge s"
  "recenter_due (reduce_only ge) g s = recenter_due ge g s"
  by (simp_all add: grid_gate_def grid_gate_input_def try_mid_def venue_contended_def recenter_due_def)

lemma orch_tick_fenced:
  assumes "\<And>x. map_of (or_executors s) i = Some x \<Longrightarrow> is_quiet x"
  shows "orch_tick (reduce_deps dp) i s = orch_tick dp i s"
proof -
  have "on_executor i (ee_on_tick (fenced reduces (dp_api dp))) s = on_executor i (ee_on_tick (dp_api dp)) s"
    using assms by (auto simp: on_executor_def grid_calls_fenced split: option.splits)
  then show ?thesis
    unfolding orch_tick_def reduce_deps_quiet
    by (auto simp: bindP_def getsP_def tryP_def split: option.splits)
qed

lemma grid_book_drop: "grid_book (i # js) cid d \<Longrightarrow> map_of d i = Some x \<Longrightarrow> is_quiet x \<Longrightarrow> grid_book js cid d"
  unfolding grid_book_iff by (metis list.set_intros(2) option.inject set_ConsD)

lemma orch_tick_book:
  assumes "map_of (or_executors s) i = Some x" "is_quiet x" "grid_book (i # js) cid (or_executors s)"
  defines "T \<equiv> \<lambda>s'. or_controllers s' = or_controllers s \<and> grid_book js cid (or_executors s')"
  shows "wp (orch_tick dp i) (\<lambda>_. T) (\<lambda>_. T) s"
proof -
  obtain r y e' where run: "ee_on_tick (dp_api dp) x (or_env s) = (r, y, e')" by (metis prod_cases3)
  have "is_quiet y" by (rule grid_tick_quiet(1) [OF assms(2) run])
  then have "T (s\<lparr>or_executors := od_set i y (or_executors s), or_env := e'\<rparr>)"
    using grid_book_done [OF assms(3)] by (simp add: T_def)
  moreover have "T (snd (emit dp kind xid cid ct reason s')) \<longleftrightarrow> T s'" for kind xid cid ct reason s'
    by (simp add: T_def)
  ultimately show ?thesis
    using assms(1) grid_book_drop [OF assms(3,1,2)]
    by (auto simp: orch_tick_def wp_on_executor run T_def simp del: map_of_eq_Some_iff split: sum.splits exc.splits)
qed

lemma set_suppress_run:
  "map_of (or_executors s) i = Some x
   \<Longrightarrow> set_suppress i b s = (Inr (), s\<lparr>or_executors := od_set i (ee_suppress b x) (or_executors s)\<rparr>)"
  by (simp add: set_suppress_def on_executor_def)

lemma ee_suppress_quiet: "can_recenter x \<Longrightarrow> is_quiet (ee_suppress True x)"
  by (cases x) simp_all

lemma tick_executors_quiet:
  fixes s :: "('v, 'k) grid_orch"
  assumes "map_of (or_controllers s) cid = Some g" "gate_paused (gd_gate g) \<or> \<not> entry_allowed (gd_class g) allowed"
    and "grid_book js cid (or_executors s)"
  shows "tick_executors (reduce_only ge) cid allowed js s = tick_executors ge cid allowed js s
    \<and> wp (tick_executors ge cid allowed js) (\<lambda>_ s'. grid_book [] cid (or_executors s')) (\<lambda>_ _. True) s"
  using assms
proof (induction js arbitrary: s)
  case Nil
  then show ?case by (simp add: tick_executors_def)
next
  case (Cons i js)
  obtain x where x: "map_of (or_executors s) i = Some x" "can_recenter x"
    using Cons.prems(3) by (auto simp: grid_book_iff simp del: map_of_eq_Some_iff)
  define s1 where "s1 = s\<lparr>or_executors := od_set i (ee_suppress True x) (or_executors s)\<rparr>"
  have q: "map_of (or_executors s1) i = Some (ee_suppress True x)" "is_quiet (ee_suppress True x)"
    using ee_suppress_quiet [OF x(2)] by (simp_all add: s1_def)
  have bk: "grid_book (i # js) cid (or_executors s1)"
    using grid_book_set [OF Cons.prems(3) is_quiet_can [OF q(2)]] by (simp add: s1_def)
  have tick: "orch_tick (reduce_deps (ge_deps ge)) i s1 = orch_tick (ge_deps ge) i s1"
    by (rule orch_tick_fenced) (use q in simp)
  have step: "tick_executors e cid allowed (i # js) s
      = bindP (orch_tick (ge_deps e) i) (\<lambda>_. tick_executors e cid allowed js) s1" for e :: "('v, 'k) grid_env"
    using Cons.prems(1,2) set_suppress_run [OF x(1)]
    by (simp add: tick_executors_def bindP_def with_ctl_def getsP_def s1_def)
  have T: "wp (orch_tick (ge_deps ge) i) (\<lambda>_ s'. or_controllers s' = or_controllers s1 \<and> grid_book js cid (or_executors s'))
      (\<lambda>_ s'. or_controllers s' = or_controllers s1 \<and> grid_book js cid (or_executors s')) s1"
    by (rule orch_tick_book [OF q bk])
  show ?case
  proof (cases "orch_tick (ge_deps ge) i s1")
    case (Pair r s2)
    then have s2: "map_of (or_controllers s2) cid = Some g" "grid_book js cid (or_executors s2)"
      using T Cons.prems(1) by (auto simp: wp_def s1_def simp del: map_of_eq_Some_iff split: sum.splits)
    show ?thesis
      using Cons.IH [OF s2(1) Cons.prems(2) s2(2)] tick
      by (auto simp: step bindP_def Pair wp_def split: sum.splits)
  qed
qed

lemma grid_book_start:
  fixes s :: "('v, 'k) grid_orch"
  assumes "registry_ok s" "list_all can_recenter (list_executors (Some cid) True s)"
  shows "grid_book (ids_of (list_executors (Some cid) True s)) cid (or_executors s)"
proof -
  have key: "(k, x) \<in> set (or_executors s) \<Longrightarrow> ee_id x = k" for k x
    using assms(1) by (auto simp: registry_ok_def list_all_iff)
  have get: "(k, x) \<in> set (or_executors s) \<longleftrightarrow> map_of (or_executors s) k = Some x" for k x
    using assms(1) by (simp add: registry_ok_def)
  have live_in: "map_of (or_executors s) k = Some x \<Longrightarrow> live cid x \<Longrightarrow> x \<in> set (list_executors (Some cid) True s)" for k x
    by (auto simp: list_executors_def live_def get [symmetric] simp del: map_of_eq_Some_iff intro: rev_image_eqI)
  show ?thesis
    unfolding grid_book_iff
  proof (intro conjI ballI allI impI)
    show "distinct (map fst (or_executors s))" using assms(1) by (simp add: registry_ok_def)
    fix i assume "i \<in> set (ids_of (list_executors (Some cid) True s))"
    then obtain x where "i = ee_id x" "x \<in> set (list_executors (Some cid) True s)" by (auto simp: ids_of_def)
    moreover from this obtain k where "(k, x) \<in> set (or_executors s)" by (auto simp: list_executors_def)
    ultimately show "\<exists>x. map_of (or_executors s) i = Some x \<and> can_recenter x"
      using assms(2) key get by (metis list_all_iff)
  next
    fix k x assume kx: "map_of (or_executors s) k = Some x" "live cid x"
    then show "can_recenter x" using live_in assms(2) by (auto simp: list_all_iff)
    have "ee_id x = k" using kx(1) get key by blast
    then show "k \<in> set (ids_of (list_executors (Some cid) True s)) \<or> is_quiet x"
      using live_in [OF kx] by (auto simp: ids_of_def)
  qed
qed

lemma grid_book_quiet:
  fixes s :: "('v, 'k) grid_orch"
  assumes "grid_book [] cid (or_executors s)"
  shows "list_all is_quiet (list_executors (Some cid) True s)"
  using assms by (auto simp: grid_book_def list_executors_def live_def list_all_iff)

lemma recenter_loop:
  fixes s :: "('v, 'k) grid_orch"
  assumes "grid_book js cid (or_executors s)" "set is \<subseteq> set js"
  defines "T \<equiv> \<lambda>s'. or_controllers s' = or_controllers s \<and> grid_book js cid (or_executors s')"
  shows "wp (forP is (\<lambda>i. on_executor i (ee_recenter api a b))) (\<lambda>_. T) (\<lambda>_. T) s"
  using assms(1,2) unfolding T_def
proof (induction "is" arbitrary: s)
  case (Cons i "is")
  then obtain x where x: "map_of (or_executors s) i = Some x" "can_recenter x"
    by (auto simp: grid_book_iff simp del: map_of_eq_Some_iff)
  obtain r y e' where run: "ee_recenter api a b x (or_env s) = (r, y, e')" by (metis prod_cases3)
  have y: "can_recenter y" by (rule grid_recenter_grid [OF x(2) run])
  define s1 where "s1 = s\<lparr>or_executors := od_set i y (or_executors s), or_env := e'\<rparr>"
  have "grid_book js cid (or_executors s1)"
    using grid_book_set [OF Cons.prems(1) y] Cons.prems(2) by (simp add: s1_def)
  moreover have "or_controllers s1 = or_controllers s" by (simp add: s1_def)
  ultimately show ?case
    using Cons.IH [of s1] Cons.prems(2) by (simp add: wp_on_executor x(1) run s1_def split: sum.split)
qed simp

lemma recenter_loop_fenced:
  fixes s :: "('v, 'k) grid_orch"
  assumes "\<forall>i \<in> set is. \<forall>x. map_of (or_executors s) i = Some x \<longrightarrow> is_quiet x"
  shows "forP is (\<lambda>i. on_executor i (ee_recenter (fenced reduces api) a b)) s = forP is (\<lambda>i. on_executor i (ee_recenter api a b)) s"
  using assms
proof (induction "is" arbitrary: s)
  case (Cons i "is")
  have same: "on_executor i (ee_recenter (fenced reduces api) a b) s = on_executor i (ee_recenter api a b) s"
    using Cons.prems by (auto simp: on_executor_def grid_calls_fenced split: option.split)
  have "\<forall>j \<in> set is. \<forall>x. map_of (or_executors (snd (on_executor i (ee_recenter api a b) s))) j = Some x \<longrightarrow> is_quiet x"
  proof (cases "map_of (or_executors s) i")
    case None
    then show ?thesis using Cons.prems by (simp add: on_executor_def)
  next
    case (Some x)
    obtain r y e' where run: "ee_recenter api a b x (or_env s) = (r, y, e')" by (metis prod_cases3)
    have "is_quiet y" by (rule grid_tick_quiet(2) [OF _ run]) (use Cons.prems Some in simp)
    then show ?thesis using Cons.prems by (simp add: on_executor_def Some run)
  qed
  then show ?case
    using Cons.IH [of "snd (on_executor i (ee_recenter api a b) s)"]
    by (cases "on_executor i (ee_recenter api a b) s") (auto simp: bindP_def same split: sum.split)
qed simp

text \<open>The part of a grid controller no step after the gate changes.\<close>

definition grid_fixed :: "grid_ctl \<Rightarrow> grid_ctl \<Rightarrow> bool" where
  "grid_fixed g g' \<longleftrightarrow> gd_gate g' = gd_gate g \<and> gd_class g' = gd_class g \<and> gd_cfg g' = gd_cfg g
     \<and> gd_executor g' = gd_executor g \<and> gd_threshold g' = gd_threshold g"

definition grid_step_ok :: "string list \<Rightarrow> string \<Rightarrow> grid_ctl \<Rightarrow> ('v, 'k) grid_orch \<Rightarrow> bool" where
  "grid_step_ok js cid g s \<longleftrightarrow> grid_book js cid (or_executors s)
     \<and> (\<exists>g'. map_of (or_controllers s) cid = Some g' \<and> grid_fixed g g')"

lemma grid_fixed_simps [simp]:
  "grid_fixed g g" "grid_fixed g (g'\<lparr>gd_reset_active := b\<rparr>) = grid_fixed g g'" "grid_fixed g (measured m g') = grid_fixed g g'"
  "grid_fixed g (recentered m t g') = grid_fixed g g'" "grid_fixed g (g'\<lparr>gd_exposure := x\<rparr>) = grid_fixed g g'"
  by (auto simp: grid_fixed_def measured_def recentered_def split: option.split)

lemma recenter_all_ok:
  fixes s :: "('v, 'k) grid_orch"
  assumes "grid_step_ok js cid g s" "set (ids_of (filter can_recenter (list_executors (Some cid) True s))) \<subseteq> set js"
  shows "wp (recenter_all ge cid mid now a b) (\<lambda>_. grid_step_ok js cid g) (\<lambda>_. grid_step_ok js cid g) s"
proof -
  have bk: "grid_book js cid (or_executors s)" using assms(1) by (simp add: grid_step_ok_def)
  have "wp (forP (ids_of (filter can_recenter (list_executors (Some cid) True s)))
      (\<lambda>i. on_executor i (ee_recenter (dp_api (ge_deps ge)) a b)))
      (\<lambda>_ s'. or_controllers s' = or_controllers s \<and> grid_book js cid (or_executors s'))
      (\<lambda>_ s'. or_controllers s' = or_controllers s \<and> grid_book js cid (or_executors s')) s"
    by (rule recenter_loop [OF bk assms(2)])
  then show ?thesis
    unfolding recenter_all_def wp_bind wp_my_executors
    by (rule wp_mono) (use assms(1) in \<open>auto simp: grid_step_ok_def split: option.splits simp del: map_of_eq_Some_iff\<close>)
qed

lemma maybe_recenter_ok:
  fixes s :: "('v, 'k) grid_orch"
  assumes "grid_step_ok js cid g s" "set (ids_of (filter can_recenter (list_executors (Some cid) True s))) \<subseteq> set js"
  shows "wp (maybe_recenter ge cid m) (\<lambda>_. grid_step_ok js cid g) (\<lambda>_. grid_step_ok js cid g) s"
proof -
  have all: "wp (recenter_all ge cid mid now a b) (\<lambda>_. grid_step_ok js cid g) (\<lambda>_. grid_step_ok js cid g) s'"
    if "grid_step_ok js cid g s'" "or_executors s' = or_executors s" for s' :: "('v, 'k) grid_orch" and mid now a b
    by (rule recenter_all_ok) (use that assms(2) in \<open>auto simp: list_executors_def\<close>)
  show ?thesis
    using assms(1)
    by (auto simp: maybe_recenter_def grid_step_ok_def simp del: map_of_eq_Some_iff
        split: option.splits intro!: all)
qed

lemma grid_exposure_ok:
  "grid_step_ok js cid g s \<Longrightarrow> wp (grid_exposure cid m) (\<lambda>_. grid_step_ok js cid g) (\<lambda>_. grid_step_ok js cid g) s"
  by (auto simp: grid_exposure_def exposure_read_def grid_step_ok_def Let_def simp del: map_of_eq_Some_iff
      split: option.splits prod.splits)

lemma recenter_fenced:
  fixes s :: "('v, 'k) grid_orch"
  assumes "\<forall>i \<in> set (ids_of (filter can_recenter (list_executors (Some cid) True s))).
      \<forall>x. map_of (or_executors s) i = Some x \<longrightarrow> is_quiet x"
  shows "maybe_recenter (reduce_only ge) cid m s = maybe_recenter ge cid m s"
proof -
  have ex [simp]: "or_executors (snd (upd_ctl cid f s')) = or_executors s'" for f and s' :: "('v, 'k) grid_orch"
    by (simp add: upd_ctl_def modifyP_def split: option.split)
  have all: "recenter_all (reduce_only ge) cid mid now a b s' = recenter_all ge cid mid now a b s'"
    if "or_executors s' = or_executors s" for mid now a b and s' :: "('v, 'k) grid_orch"
  proof -
    have l: "list_executors (Some cid) True s' = list_executors (Some cid) True s"
      by (simp add: list_executors_def that)
    have "forP (ids_of (filter can_recenter (list_executors (Some cid) True s'))) (\<lambda>i. on_executor i (ee_recenter (fenced reduces (dp_api (ge_deps ge))) a b)) s'
        = forP (ids_of (filter can_recenter (list_executors (Some cid) True s'))) (\<lambda>i. on_executor i (ee_recenter (dp_api (ge_deps ge)) a b)) s'"
      by (rule recenter_loop_fenced) (use assms in \<open>simp add: l that\<close>)
    then show ?thesis by (simp add: recenter_all_def my_executors_def bindP_def getsP_def)
  qed
  show ?thesis
    by (simp add: maybe_recenter_def bindP_def upd_ctl_def modifyP_def with_ctl_def getsP_def ret_def
        split: option.split) (auto simp: all split: option.split)
qed

definition grid_rules :: "string \<Rightarrow> ('v, 'k) grid_orch \<Rightarrow> bool" where
  "grid_rules cid s \<longleftrightarrow> registry_ok s \<and> list_all can_recenter (list_executors (Some cid) True s)"

definition all_quiet :: "string \<Rightarrow> ('v, 'k) grid_orch \<Rightarrow> bool" where
  "all_quiet cid s \<longleftrightarrow> list_all is_quiet (list_executors (Some cid) True s)"

lemma ticks_blocked:
  assumes "gate_paused (gd_gate g)" "grid_step_ok js cid g s"
  shows "tick_executors (reduce_only ge) cid allowed js s = tick_executors ge cid allowed js s"
    and "wp (tick_executors ge cid allowed js) (\<lambda>_. all_quiet cid) (\<lambda>_ _. True) s"
proof -
  obtain g' where "map_of (or_controllers s) cid = Some g'" "grid_fixed g g'" "grid_book js cid (or_executors s)"
    using assms(2) by (auto simp: grid_step_ok_def simp del: map_of_eq_Some_iff)
  then have both: "tick_executors (reduce_only ge) cid allowed js s = tick_executors ge cid allowed js s
      \<and> wp (tick_executors ge cid allowed js) (\<lambda>_ s'. grid_book [] cid (or_executors s')) (\<lambda>_ _. True) s"
    using assms(1) by (intro tick_executors_quiet) (auto simp: grid_fixed_def)
  show "tick_executors (reduce_only ge) cid allowed js s = tick_executors ge cid allowed js s"
    using both by blast
  show "wp (tick_executors ge cid allowed js) (\<lambda>_. all_quiet cid) (\<lambda>_ _. True) s"
    by (rule wp_mono [OF conjunct2 [OF both]]) (auto simp: all_quiet_def intro: grid_book_quiet)
qed

lemma quiet_listed:
  assumes "registry_ok s" "all_quiet cid s" "i \<in> set (ids_of (list_executors (Some cid) True s))"
    and "map_of (or_executors s) i = Some x"
  shows "is_quiet x"
proof -
  obtain y where y: "i = ee_id y" "y \<in> set (list_executors (Some cid) True s)"
    using assms(3) by (auto simp: ids_of_def)
  then obtain k where "(k, y) \<in> set (or_executors s)" by (auto simp: list_executors_def)
  moreover from this have "k = i" using assms(1) y(1) by (auto simp: registry_ok_def list_all_iff)
  ultimately have "y = x" using assms(1,4) by (auto simp: registry_ok_def)
  then show ?thesis using assms(2) y(2) by (simp add: all_quiet_def list_all_iff)
qed

text \<open>What remains of a tick once the mid is read: \<open>s\<close> has the registries of the tick's start.\<close>

definition grid_manage_at :: "('v, 'k) grid_env \<Rightarrow> string \<Rightarrow> string list \<Rightarrow> dec option \<Rightarrow> ('v, 'k, unit) gprog" where
  "grid_manage_at ge cid js m = thenP (maybe_recenter ge cid m)
     (bindP (grid_exposure cid m) (\<lambda>allowed. tick_executors ge cid allowed js))"

lemma grid_manage_at_paused:
  fixes s :: "('v, 'k) grid_orch"
  assumes g: "map_of (or_controllers s) cid = Some g" "gate_paused (gd_gate g)" and r: "grid_rules cid s"
  defines "js \<equiv> ids_of (list_executors (Some cid) True s)"
  shows "wp (grid_manage_at ge cid js m) (\<lambda>_. all_quiet cid) (\<lambda>_ _. True) s"
    and "all_quiet cid s \<Longrightarrow> grid_manage_at (reduce_only ge) cid js m s = grid_manage_at ge cid js m s"
proof -
  have ok: "grid_step_ok js cid g s"
    using g(1) r grid_book_start [of s cid] by (simp add: grid_step_ok_def grid_rules_def js_def)
  have sub: "set (ids_of (filter can_recenter (list_executors (Some cid) True s))) \<subseteq> set js"
    by (auto simp: js_def ids_of_def)
  note rc = maybe_recenter_ok [OF ok sub, of ge m]
  show "wp (grid_manage_at ge cid js m) (\<lambda>_. all_quiet cid) (\<lambda>_ _. True) s"
    unfolding grid_manage_at_def wp_bind
    by (rule wp_mono [OF rc]) (auto intro: wp_mono [OF grid_exposure_ok] ticks_blocked(2) [OF g(2)])
  assume q: "all_quiet cid s"
  have "maybe_recenter (reduce_only ge) cid m s = maybe_recenter ge cid m s"
    by (rule recenter_fenced) (use quiet_listed [OF _ q] r sub in \<open>auto simp: grid_rules_def js_def\<close>)
  moreover have "agree (grid_step_ok js cid g) (bindP (grid_exposure cid m) (\<lambda>allowed. tick_executors (reduce_only ge) cid allowed js))
      (bindP (grid_exposure cid m) (\<lambda>allowed. tick_executors ge cid allowed js))"
    by (rule agree_bind [OF agree_refl]) (use ticks_blocked(1) [OF g(2)] grid_exposure_ok in \<open>auto simp: keeps_def agree_def\<close>)
  ultimately show "grid_manage_at (reduce_only ge) cid js m s = grid_manage_at ge cid js m s"
    using agreeD [of "grid_step_ok js cid g"] rc
    by (cases "maybe_recenter ge cid m s")
      (auto simp: grid_manage_at_def bindP_def [of "maybe_recenter _ _ _"] wp_def split: sum.splits)
qed

lemma grid_manage_paused:
  fixes s :: "('v, 'k) grid_orch"
  assumes g: "map_of (or_controllers s) cid = Some g" "gate_paused (gd_gate g)" and r: "grid_rules cid s"
  shows "all_quiet cid s \<Longrightarrow> grid_manage (reduce_only ge) cid s = grid_manage ge cid s"
    and "wp (grid_manage ge cid) (\<lambda>_. all_quiet cid) (\<lambda>_ _. True) s"
proof -
  have same: "map_of (or_controllers s') cid = Some g" "grid_rules cid s'"
      "list_executors (Some cid) True s' = list_executors (Some cid) True s"
    if "\<exists>v. s' = s\<lparr>or_env := (or_env s)\<lparr>env_venue := v\<rparr>\<rparr>" for s' :: "('v, 'k) grid_orch"
    using that g(1) r by (auto simp: grid_rules_def registry_ok_def list_executors_def)
  have mid: "wp (try_mid ge pair) (\<lambda>_ s'. \<exists>v. s' = s\<lparr>or_env := (or_env s)\<lparr>env_venue := v\<rparr>\<rparr>)
      (\<lambda>_ s'. \<exists>v. s' = s\<lparr>or_env := (or_env s)\<lparr>env_venue := v\<rparr>\<rparr>) s" for pair
    by (rule wp_try_mid) blast
  have run: "grid_manage e cid s = bindP (try_mid e (gf_pair (gd_cfg g)))
      (\<lambda>m. grid_manage_at e cid (ids_of (list_executors (Some cid) True s)) m) s" for e :: "('v, 'k) grid_env"
    by (simp add: grid_manage_def grid_manage_at_def with_ctl_def my_executors_def bindP_def getsP_def g(1))
  note at = grid_manage_at_paused [OF same(1) g(2) same(2), unfolded same(3)]
  have "wp (bindP (try_mid ge (gf_pair (gd_cfg g))) (\<lambda>m. grid_manage_at ge cid (ids_of (list_executors (Some cid) True s)) m))
      (\<lambda>_. all_quiet cid) (\<lambda>_ _. True) s"
    unfolding wp_bind by (rule wp_mono [OF mid]) (use at(1) same(3) in auto)
  then show "wp (grid_manage ge cid) (\<lambda>_. all_quiet cid) (\<lambda>_ _. True) s"
    by (simp only: wp_def run)
  assume "all_quiet cid s"
  then have "all_quiet cid s'" if "\<exists>v. s' = s\<lparr>or_env := (or_env s)\<lparr>env_venue := v\<rparr>\<rparr>" for s' :: "('v, 'k) grid_orch"
    using same(3) [OF that] by (simp add: all_quiet_def)
  then show "grid_manage (reduce_only ge) cid s = grid_manage ge cid s"
    using mid [of "gf_pair (gd_cfg g)"] at(2) same(3)
    unfolding run reduce_only_quiet
    by (cases "try_mid ge (gf_pair (gd_cfg g)) s") (auto simp: bindP_def wp_def split: sum.splits)
qed

text \<open>
  Claim C27: a pause stops the digging. While the regime gate of a grid controller that has a ladder pauses, a tick
  that returns leaves every active executor of the controller suppressed; and from a state in
  which they already are, the whole tick, its re-center and its executors included, runs as if
  the venue refused every order that is not reduce-only: no entry is sent.
\<close>

theorem grid_pause:
  fixes s :: "('v, 'k) grid_orch"
  assumes "map_of (or_controllers s) cid = Some g" "gd_executor g \<noteq> None" "grid_rules cid s"
    and "gate_paused (evaluate_quote_gate (grid_gate_input ge (env_venue (or_env s)) g) (gd_gate g))"
  shows "(all_quiet cid s \<longrightarrow> grid_on_tick (reduce_only ge) cid s = grid_on_tick ge cid s)
    \<and> (\<forall>s'. grid_on_tick ge cid s = (Inr (), s') \<longrightarrow> all_quiet cid s')"
proof -
  define g1 where "g1 = g\<lparr>gd_gate := evaluate_quote_gate (grid_gate_input ge (env_venue (or_env s)) g) (gd_gate g)\<rparr>"
  define s1 where "s1 = s\<lparr>or_controllers := od_set cid g1 (or_controllers s)\<rparr>"
  have gate: "grid_gate ge cid s = (Inr (), s1)"
    by (simp add: grid_gate_def bindP_def getsP_def upd_ctl_def modifyP_def assms(1) s1_def g1_def)
  have ensure: "grid_ensure e cid s1 = (Inr (), s1)" for e :: "('v, 'k) grid_env"
    using assms(2) by (cases "gd_executor g") (simp_all add: grid_ensure_def with_ctl_def my_executors_def bindP_def getsP_def s1_def g1_def ret_def whenP_def)
  have run: "grid_on_tick e cid s = grid_manage e cid s1" if "grid_gate e cid s = (Inr (), s1)" for e :: "('v, 'k) grid_env"
    using that by (simp add: grid_on_tick_def bindP_def ensure)
  have g1: "map_of (or_controllers s1) cid = Some g1" "gate_paused (gd_gate g1)" "grid_rules cid s1"
    using assms(3,4) by (auto simp: s1_def g1_def grid_rules_def registry_ok_def list_executors_def)
  have q: "all_quiet cid s1 = all_quiet cid s" by (simp add: s1_def all_quiet_def list_executors_def)
  show ?thesis
    using grid_manage_paused [OF g1, of ge] run [OF gate] run [of "reduce_only ge"] gate q by (auto simp: wp_def)
qed

subsection \<open>The re-centered ladder\<close>

lemma ladder_levels_mem:
  "lv \<in> set (ladder_levels ps cap side f i) \<Longrightarrow> gl_open_price lv \<in> set ps \<and> 0 < gl_open_price lv
     \<and> gl_close_price lv = gl_open_price lv * (if side = BUY then 1 + f else 1 - f)
     \<and> gl_amount lv * gl_open_price lv = cap \<and> gl_state lv = L_NOT_ACTIVE"
  by (induction ps cap side f i rule: ladder_levels.induct) (auto simp: fresh_level_def split: if_splits)

lemma fresh_count_pos: "1 \<le> gc_max_open c \<Longrightarrow> 1 \<le> fresh_count c a b 0"
  by (auto simp: fresh_count_def Let_def)

lemma rebuilt_band:
  assumes "rebuild_bounds side step levels mid = Some (a, b, l)" "maker_offset step + band_span step levels < 1"
  shows "0 < mid" "0 < step" "1 \<le> levels" "0 < a" "a < b" "0 < maker_offset step" "0 < band_span step levels"
    "b - a = mid * band_span step levels"
    "side = BUY \<Longrightarrow> b = mid * (1 - maker_offset step)" "side = SELL \<Longrightarrow> a = mid * (1 + maker_offset step)"
    "side = SELL \<Longrightarrow> b = mid * (1 + maker_offset step + band_span step levels)"
proof -
  show p: "0 < mid" "0 < step" "1 \<le> levels" using assms(1) by (auto simp: rebuild_bounds_def not_le split: if_splits)
  show o1: "0 < maker_offset step" by (simp add: maker_offset_def max_def)
  show sp: "0 < band_span step levels" using p by (simp add: band_span_def)
  show "side = BUY \<Longrightarrow> b = mid * (1 - maker_offset step)" "side = SELL \<Longrightarrow> a = mid * (1 + maker_offset step)"
    "side = SELL \<Longrightarrow> b = mid * (1 + maker_offset step + band_span step levels)" "b - a = mid * band_span step levels"
    using assms(1) by (auto simp: rebuild_bounds_def algebra_simps split: if_splits)
  then show "a < b" using p sp by (metis diff_gt_0_iff_gt mult_pos_pos)
  show "0 < a" using assms p o1 sp by (auto simp: rebuild_bounds_def split: if_splits)
qed

lemma rebuilt_count:
  assumes "rebuild_bounds side (gc_spread c) levels mid = Some (a, b, l)"
    and small: "maker_offset (gc_spread c) + band_span (gc_spread c) levels < 1" and "gc_max_open c = levels"
  shows "side = BUY \<Longrightarrow> fresh_count c a b 0 = levels"
    and "side = SELL \<Longrightarrow> 2 \<le> levels \<Longrightarrow> fresh_count c a b 0 < levels"
proof -
  note B = rebuilt_band [OF assms(1) small]
  define L :: dec where "L = of_int (max (levels - 1) 1)"
  have L: "0 < L" "of_int (levels - 1) \<le> L" by (simp_all add: L_def)
  have span: "band_span (gc_spread c) levels = gc_spread c * L" by (simp add: band_span_def L_def)
  have fc: "fresh_count c a b 0 = max 1 (min levels (\<lfloor>(b - a) / (b * gc_spread c)\<rfloor> + 1))"
    using B assms(3) by (simp add: fresh_count_def Let_def trunc_int_def max_def min_def)
  { assume "side = BUY"
    then have b: "b = mid * (1 - maker_offset (gc_spread c))" by (rule B(9))
    have "L \<le> L / (1 - maker_offset (gc_spread c))"
      using L B small by (simp add: pos_le_divide_eq)
    also have "\<dots> = mid * band_span (gc_spread c) levels / (b * gc_spread c)" using B(1,2) by (simp add: span b)
    also have "\<dots> = (b - a) / (b * gc_spread c)" by (simp only: B(8))
    finally have "levels - 1 \<le> \<lfloor>(b - a) / (b * gc_spread c)\<rfloor>" using L(2) by (simp add: le_floor_iff)
    then show "fresh_count c a b 0 = levels" using B(3) by (simp add: fc) }
  { assume s: "side = SELL" and "2 \<le> levels"
    define w where "w = 1 + maker_offset (gc_spread c) + band_span (gc_spread c) levels"
    have w: "1 < w" using B(6,7) by (simp add: w_def)
    have b: "b = mid * w" unfolding w_def by (rule B(11) [OF s])
    have "(b - a) / (b * gc_spread c) = mid * band_span (gc_spread c) levels / (b * gc_spread c)" by (simp only: B(8))
    also have "\<dots> = L / w" using B(1,2) w by (simp add: span b)
    also have "\<dots> < L" using w L by (simp add: pos_divide_less_eq)
    finally have "\<lfloor>(b - a) / (b * gc_spread c)\<rfloor> < levels - 1"
      using \<open>2 \<le> levels\<close> by (simp add: floor_less_iff L_def max_def split: if_splits)
    then show "fresh_count c a b 0 < levels" using \<open>2 \<le> levels\<close> by (simp add: fc) }
qed

text \<open>
  A law: the ladder a re-center quotes. For the configuration the engine builds, a spread
  equal to the step and as many orders as levels, and no level kept, every rung of the rebuilt
  band is strictly on the maker side of the mid, by half a step and 1.5 bp at least, its close
  leg lies on its profit side, and it commits an equal share of the configured total. A long
  ladder has all its levels; a short one always has fewer than configured, because the count is
  the band over the spread at its upper edge, which lies above the mid.
\<close>

theorem recentered_ladder:
  assumes "rebuild_bounds (gc_side c) (gc_spread c) levels mid = Some (a, b, l)" "gc_max_open c = levels"
    and "maker_offset (gc_spread c) + band_span (gc_spread c) levels < 1" "gc_safe_extra c = 0"
  shows "list_all (\<lambda>lv. gl_amount lv * gl_open_price lv = gc_total c / of_int levels
       \<and> (if gc_side c = BUY
          then gl_open_price lv \<le> mid * (1 - max (gc_spread c / 2) (15 / 100000)) \<and> gl_open_price lv < gl_close_price lv
          else mid * (1 + max (gc_spread c / 2) (15 / 100000)) \<le> gl_open_price lv \<and> gl_close_price lv < gl_open_price lv))
       (fresh_ladder c a b 0)
    \<and> int (length (fresh_ladder c a b 0)) \<le> levels
    \<and> (gc_side c = BUY \<longrightarrow> int (length (fresh_ladder c a b 0)) = levels)
    \<and> (gc_side c = SELL \<longrightarrow> 2 \<le> levels \<longrightarrow> int (length (fresh_ladder c a b 0)) < levels)"
proof -
  note B = rebuilt_band [OF assms(1,3)] and C = rebuilt_count [OF assms(1,3,2)]
  define n where "n = fresh_count c a b 0"
  have n: "1 \<le> n" unfolding n_def by (rule fresh_count_pos) (simp add: assms(2) B(3))
  have nl: "n \<le> levels" using B(3) by (simp add: n_def fresh_count_def Let_def assms(2))
  note P = ladder_prices_props [OF n, where a = a and b = b]
  have fl: "fresh_ladder c a b 0 = ladder_levels (ladder_prices a b n) (gc_total c / of_int levels) (gc_side c) (gc_spread c) 0"
    using n B(3) by (simp add: fresh_ladder_def Let_def n_def [symmetric] assms(2,4))
  have price: "a \<le> p \<and> p \<le> b" if "p \<in> set (ladder_prices a b n)" for p
    using that P(1,2) B(5) by (auto simp: in_set_conv_nth min_def max_def)
  then have "list_all (\<lambda>p. 0 < p) (ladder_prices a b n)" using B(4) by (force simp: list_all_iff)
  then have len: "length (fresh_ladder c a b 0) = nat n" using ladder_levels_pos P(1) by (simp add: fl)
  have "gl_amount lv * gl_open_price lv = gc_total c / of_int levels
       \<and> (if gc_side c = BUY
          then gl_open_price lv \<le> mid * (1 - max (gc_spread c / 2) (15 / 100000)) \<and> gl_open_price lv < gl_close_price lv
          else mid * (1 + max (gc_spread c / 2) (15 / 100000)) \<le> gl_open_price lv \<and> gl_close_price lv < gl_open_price lv)"
    if lv: "lv \<in> set (fresh_ladder c a b 0)" for lv
  proof -
    note M = ladder_levels_mem [OF lv [unfolded fl]]
    have p: "a \<le> gl_open_price lv" "gl_open_price lv \<le> b" "0 < gl_open_price lv" using price M by auto
    show ?thesis
      using M p B(2) B(9,10) trade_type.exhaust [of "gc_side c" "gc_side c = BUY \<or> gc_side c = SELL"]
      by (cases "gc_side c") (auto simp: maker_offset_def)
  qed
  then show ?thesis using C len n nl by (auto simp: list_all_iff n_def)
qed

subsection \<open>When a ladder re-centers\<close>

definition recenter_at :: "('v, 'k) grid_env \<Rightarrow> grid_ctl \<Rightarrow> dec option \<Rightarrow> ('v, 'k) grid_orch \<Rightarrow> bool" where
  "recenter_at ge g m s \<longleftrightarrow> (case m of None \<Rightarrow> False
     | Some mid \<Rightarrow> 0 < gd_threshold g \<and> 0 < mid \<and> gd_threshold g \<le> gd_move (measured mid g)
        \<and> gd_last g + RECENTER_MIN_INTERVAL \<le> o_now (ge_deps ge) s \<and> \<not> venue_contended ge s
        \<and> 0 < gf_step (gd_cfg g) \<and> 1 \<le> gf_levels (gd_cfg g))"

lemma measured_simps [simp]:
  "gd_threshold (measured m g) = gd_threshold g" "gd_last (measured m g) = gd_last g"
  "gd_cfg (measured m g) = gd_cfg g" "gd_class (measured m g) = gd_class g" "gd_anchor (measured m g) = gd_anchor g"
  "gd_move (measured m (g\<lparr>gd_reset_active := b\<rparr>)) = gd_move (measured m g)"
  "gd_reset_active (measured m g) = gd_reset_active g"
  by (auto simp: measured_def split: option.split)

lemma rebuild_bounds_SomeD: "rebuild_bounds side step levels mid = Some x \<Longrightarrow> 0 < mid \<and> 0 < step \<and> 1 \<le> levels"
  by (auto simp: rebuild_bounds_def split: if_splits)

lemma rebuild_bounds_NoneD: "rebuild_bounds side step levels mid = None \<Longrightarrow> 0 < mid \<Longrightarrow> 0 < step \<Longrightarrow> \<not> 1 \<le> levels"
  by (auto simp: rebuild_bounds_def split: if_splits)

text \<open>The executors of the controller, and the orders of the venue, are untouched.\<close>

definition ladder_same :: "('v, 'k) grid_orch \<Rightarrow> ('v, 'k) grid_orch \<Rightarrow> bool" where
  "ladder_same s s' \<longleftrightarrow> or_executors s' = or_executors s \<and> or_env s' = or_env s"

lemma contended_cong [simp]:
  "venue_contended ge (s\<lparr>or_controllers := cs\<rparr>) = venue_contended ge s"
  "o_now dp (s\<lparr>or_controllers := cs\<rparr>) = o_now dp s"
  "list_executors cid act (s\<lparr>or_controllers := cs\<rparr>) = list_executors cid act s"
  by (simp_all add: venue_contended_def o_now_def list_executors_def)

lemma maybe_recenter_idle:
  assumes "map_of (or_controllers s) cid = Some g" "\<not> recenter_at ge g m s"
  shows "wp (maybe_recenter ge cid m) (\<lambda>_ s'. ladder_same s s'
      \<and> (\<exists>g'. map_of (or_controllers s') cid = Some g' \<and> gd_anchor g' = gd_anchor g \<and> gd_last g' = gd_last g
           \<and> \<not> gd_reset_active g')) (\<lambda>_ _. False) s"
  using assms
  by (auto simp: maybe_recenter_def recenter_at_def recenter_due_def ladder_same_def
      simp del: map_of_eq_Some_iff dest: rebuild_bounds_SomeD split: option.splits)

lemma recenter_loop_controllers:
  "wp (forP is (\<lambda>i. on_executor i f)) (\<lambda>_ s'. or_controllers s' = or_controllers s) (\<lambda>_ s'. or_controllers s' = or_controllers s) s"
proof (induction "is" arbitrary: s)
  case (Cons i "is")
  show ?case
    by (auto simp: wp_on_executor intro!: wp_mono [OF Cons.IH] split: option.split prod.split sum.split)
qed simp

lemma maybe_recenter_due:
  assumes "map_of (or_controllers s) cid = Some g" "recenter_at ge g (Some mid) s"
    and "list_ex can_recenter (list_executors (Some cid) True s)"
  shows "wp (maybe_recenter ge cid (Some mid)) (\<lambda>_ s'. \<exists>g'. map_of (or_controllers s') cid = Some g'
      \<and> gd_anchor g' = Some mid \<and> gd_last g' = o_now (ge_deps ge) s \<and> gd_move g' = 0 \<and> gd_reset_active g') (\<lambda>_ _. True) s"
proof -
  obtain a b l where "rebuild_bounds (class_side (gd_class g)) (gf_step (gd_cfg g)) (gf_levels (gd_cfg g)) mid = Some (a, b, l)"
    using assms(2) rebuild_bounds_NoneD [of "class_side (gd_class g)" "gf_step (gd_cfg g)" "gf_levels (gd_cfg g)" mid]
    by (cases "rebuild_bounds (class_side (gd_class g)) (gf_step (gd_cfg g)) (gf_levels (gd_cfg g)) mid")
      (auto simp: recenter_at_def)
  then show ?thesis
    using assms
    by (auto simp: maybe_recenter_def recenter_at_def recenter_due_def recenter_all_def recentered_def
        simp del: map_of_eq_Some_iff intro!: wp_mono [OF recenter_loop_controllers] split: option.splits)
qed

text \<open>
  A law: when a ladder re-centers. The step does nothing unless the mid was read, the drift
  from the anchor has reached the threshold, five seconds have passed since the last re-center
  and neither venue budget is contended; when all that holds and it returns with a ladder to
  move, the anchor is the mid, the drift is zero and the clock of the interval is restarted. A
  grid whose anchor could not be read when it was spawned has no drift: it never re-centers.
\<close>

theorem recenter_discipline:
  assumes "map_of (or_controllers s) cid = Some g" "maybe_recenter ge cid m s = (r, s')"
  shows "(\<not> recenter_at ge g m s \<longrightarrow> r = Inr () \<and> ladder_same s s'
        \<and> (\<exists>g'. map_of (or_controllers s') cid = Some g' \<and> gd_anchor g' = gd_anchor g \<and> gd_last g' = gd_last g))
    \<and> (recenter_at ge g m s \<longrightarrow> (\<exists>mid. m = Some mid \<and> (r = Inr () \<longrightarrow> list_ex can_recenter (list_executors (Some cid) True s)
        \<longrightarrow> (\<exists>g'. map_of (or_controllers s') cid = Some g' \<and> gd_anchor g' = Some mid \<and> gd_move g' = 0
               \<and> gd_last g' = o_now (ge_deps ge) s))))
    \<and> (gd_anchor g = None \<longrightarrow> gd_move g < gd_threshold g \<longrightarrow> \<not> recenter_at ge g m s)"
proof (intro conjI impI)
  assume "\<not> recenter_at ge g m s"
  from maybe_recenter_idle [OF assms(1) this]
  show "r = Inr ()" "ladder_same s s'"
    "\<exists>g'. map_of (or_controllers s') cid = Some g' \<and> gd_anchor g' = gd_anchor g \<and> gd_last g' = gd_last g"
    by (auto simp: wp_def assms(2) split: sum.splits)
next
  assume at: "recenter_at ge g m s"
  then obtain mid where m: "m = Some mid" by (auto simp: recenter_at_def split: option.splits)
  have "\<exists>g'. map_of (or_controllers s') cid = Some g' \<and> gd_anchor g' = Some mid \<and> gd_move g' = 0
      \<and> gd_last g' = o_now (ge_deps ge) s"
    if "r = Inr ()" "list_ex can_recenter (list_executors (Some cid) True s)"
    using maybe_recenter_due [OF assms(1) at [unfolded m] that(2)] assms(2) that(1) by (auto simp: m wp_def)
  with m show "\<exists>mid. m = Some mid \<and> (r = Inr () \<longrightarrow> list_ex can_recenter (list_executors (Some cid) True s)
      \<longrightarrow> (\<exists>g'. map_of (or_controllers s') cid = Some g' \<and> gd_anchor g' = Some mid \<and> gd_move g' = 0
             \<and> gd_last g' = o_now (ge_deps ge) s))" by blast
next
  assume "gd_anchor g = None" "gd_move g < gd_threshold g"
  then show "\<not> recenter_at ge g m s" by (auto simp: recenter_at_def measured_def split: option.splits)
qed

subsection \<open>Concrete runs\<close>

definition demo_grid_cfg :: grid_cfg where
  "demo_grid_cfg = \<lparr>gf_pair = ''BTC'', gf_start = Some 98, gf_end = Some 99, gf_limit = None, gf_total = Some 90, gf_spread = Some (1 / 100),
     gf_max_open = Some 1, gf_batch = None, gf_bounds = None, gf_barrier = None, gf_leverage = None, gf_keep = False,
     gf_recycle = True, gf_step = 1 / 100, gf_levels = 1, gf_reset_bp = 0, gf_gate = True, gf_provider = True,
     gf_confirm = None, gf_cap_pct = None, gf_margin = None, gf_resume_frac = None, gf_suppress = False\<rparr>"

definition demo_ladder :: grid_exec where
  "demo_ladder = (case build_grid_config demo_grid_cfg BUY of Inl _ \<Rightarrow> demo_grid
     | Inr c \<Rightarrow> (mk_grid_exec ''x'' 1 ''c'' True c 0)\<lparr>ex_state := ACTIVE\<rparr>)"

definition demo_grid_ctl :: grid_ctl where
  "demo_grid_ctl = (mk_grid_ctl GRID_TRADING ''c'' 1 True demo_grid_cfg)\<lparr>ct_state := CT_ACTIVE, gd_executor := Some ''x'',
     gd_anchor := Some 100\<rparr>"

definition demo_grid_env :: "(script, memory_switch) grid_env" where
  "demo_grid_env = \<lparr>ge_deps = demo_deps, ge_regime = (\<lambda>v. Some (Some ''PAUSE'', Some ''trending_down'', None)),
     ge_uuid = (\<lambda>n. ''x'')\<rparr>"

definition demo_script :: script where
  "demo_script = \<lparr>sc_now = 10, sc_orders = replicate 2 (Inr \<lparr>o_id = ''o'', o_pair = ''BTC'', o_side = BUY, o_type = LIMIT_MAKER,
     o_amount = 1, o_price = Some 89, o_state = O_OPEN, o_filled_base = 0, o_filled_quote = 0, o_fee = 0\<rparr>),
     sc_mids = [Inr 90, Inr 90, Inr 90], sc_cancels = []\<rparr>"

definition demo_grid_orch :: "bool \<Rightarrow> (script, memory_switch) grid_orch" where
  "demo_grid_orch b = (mk_orch \<lparr>env_venue = demo_script, env_inv = [], env_trades = []\<rparr> None False 9 9 3 90 1)
     \<lparr>or_controllers := [(''c'', demo_grid_ctl)], or_executors := [(''x'', EX_Grid (demo_ladder\<lparr>ex_suppress_new := b\<rparr>))]\<rparr>"

definition entries_of :: "('v, 'k) grid_orch \<Rightarrow> int list" where
  "entries_of s = map (\<lambda>(k, x). oc_placed (ee_counts x)) (or_executors s)"

text \<open>
  The flag of the executors is set after the re-center, so on the first paused tick a drifted
  ladder is quoted afresh while the gate already pauses.
\<close>

lemma pause_recenter_gap:
  "let s = snd (grid_on_tick demo_grid_env ''c'' (demo_grid_orch False)) in
   entries_of (demo_grid_orch False) = [0] \<and> entries_of s = [1]
   \<and> list_all (\<lambda>(k, g). gate_paused (gd_gate g)) (or_controllers s)"
  by code_simp

lemma demo_grid_get: "map_of (or_controllers (demo_grid_orch b)) ''c'' = Some demo_grid_ctl"
  by (simp add: demo_grid_orch_def)

theorem grid_pause_witness:
  "grid_on_tick (reduce_only demo_grid_env) ''c'' (demo_grid_orch True) = grid_on_tick demo_grid_env ''c'' (demo_grid_orch True)
   \<and> gd_executor demo_grid_ctl = Some ''x''"
proof -
  have "grid_rules ''c'' (demo_grid_orch True)" "all_quiet ''c'' (demo_grid_orch True)" by code_simp+
  moreover have "gate_paused (evaluate_quote_gate
      (grid_gate_input demo_grid_env (env_venue (or_env (demo_grid_orch True))) demo_grid_ctl) (gd_gate demo_grid_ctl))"
    by code_simp
  moreover have "gd_executor demo_grid_ctl = Some ''x''" by (simp add: demo_grid_ctl_def)
  ultimately show ?thesis
    using grid_pause [OF demo_grid_get, of True demo_grid_env] by simp
qed

definition demo_short :: grid_config where
  "demo_short = demo_grid_config\<lparr>gc_side := SELL, gc_spread := 1 / 100, gc_max_open := 3\<rparr>"

theorem recentered_ladder_witness:
  "int (length (fresh_ladder demo_short (201 / 2) (205 / 2) 0)) < 3"
  using recentered_ladder [of demo_short 3 100 "201 / 2" "205 / 2" 0]
  by (simp add: demo_short_def demo_grid_config_def rebuild_bounds_def maker_offset_def band_span_def)

theorem recenter_discipline_witness:
  "fst (maybe_recenter demo_grid_env ''c'' (Some 90) (demo_grid_orch True)) = Inr ()
   \<and> (\<exists>g'. map_of (or_controllers (snd (maybe_recenter demo_grid_env ''c'' (Some 90) (demo_grid_orch True)))) ''c'' = Some g'
        \<and> gd_anchor g' = Some 90 \<and> gd_last g' = 10)"
proof -
  have "recenter_at demo_grid_env demo_grid_ctl (Some 90) (demo_grid_orch True)"
    "list_ex can_recenter (list_executors (Some ''c'') True (demo_grid_orch True))"
    "fst (maybe_recenter demo_grid_env ''c'' (Some 90) (demo_grid_orch True)) = Inr ()"
    "o_now (ge_deps demo_grid_env) (demo_grid_orch True) = 10"
    by code_simp+
  then show ?thesis
    using recenter_discipline [OF demo_grid_get prod.collapse [symmetric], of demo_grid_env "Some 90" True] by auto
qed

end
