(* ===== verification/Order_Tags.thy ===== *)
theory Order_Tags
  imports Prelude
begin

text \<open>
  The tag registry, from \<open>engine/order_tags.py\<close>: unique 20-bit tags for engine orders and a
  bounded two-way index between tags, venue digests and order metadata.

  The module's globals are one record passed through every function; the lock makes each
  function one step. Metadata values are the strings, integers and \<open>None\<close> the adapter
  registers; a dictionary returned to a caller is a copy, hence a value.
\<close>

datatype meta_val = MStr string | MInt int | MNone

type_synonym tag_entry = "meta_val odict"

record tag_store =
  tg_counter :: int
  tg_by_tag :: "(int \<times> tag_entry) list"
  tg_digests :: "(string \<times> int) list"

definition empty_tags :: tag_store where
  "empty_tags = \<lparr>tg_counter = 0, tg_by_tag = [], tg_digests = []\<rparr>"

definition TAG_MODULO :: int where "TAG_MODULO = 2 ^ 20"

definition MAX_TAG_ENTRIES :: nat where "MAX_TAG_ENTRIES = 8192"

definition allocate_tag :: "tag_store \<Rightarrow> int \<times> tag_store" where
  "allocate_tag s = (let c = (tg_counter s + 1) mod TAG_MODULO; c' = (if c = 0 then 1 else c)
     in (c', s\<lparr>tg_counter := c'\<rparr>))"

text \<open>The truthy \<open>entry.get("digest")\<close>, as a key of the digest index.\<close>

definition entry_digest :: "tag_entry \<Rightarrow> string option" where
  "entry_digest m = (case map_of m ''digest'' of
     Some (MStr d) \<Rightarrow> (if d = [] then None else Some d) | _ \<Rightarrow> None)"

definition pop_digest :: "string option \<Rightarrow> (string \<times> int) list \<Rightarrow> (string \<times> int) list" where
  "pop_digest d ds = (case d of None \<Rightarrow> ds | Some k \<Rightarrow> od_pop k ds)"

text \<open>The two eviction loops: the oldest tags go first and take their digest with them.\<close>

fun evict_tags :: "(int \<times> tag_entry) list \<Rightarrow> (string \<times> int) list
    \<Rightarrow> (int \<times> tag_entry) list \<times> (string \<times> int) list" where
  "evict_tags [] ds = ([], ds)"
| "evict_tags ((t, m) # bt) ds =
     (if MAX_TAG_ENTRIES < length ((t, m) # bt) then evict_tags bt (pop_digest (entry_digest m) ds)
      else ((t, m) # bt, ds))"

fun evict_digests :: "(string \<times> int) list \<Rightarrow> (string \<times> int) list" where
  "evict_digests [] = []"
| "evict_digests (p # ds) = (if MAX_TAG_ENTRIES < length (p # ds) then evict_digests ds else p # ds)"

definition evict_if_needed :: "tag_store \<Rightarrow> tag_store" where
  "evict_if_needed s = (case evict_tags (tg_by_tag s) (tg_digests s) of (bt, ds) \<Rightarrow>
     s\<lparr>tg_by_tag := bt, tg_digests := evict_digests ds\<rparr>)"

definition register_tag :: "int option \<Rightarrow> tag_entry \<Rightarrow> tag_store \<Rightarrow> tag_store" where
  "register_tag tg meta s = (case tg of None \<Rightarrow> s | Some t \<Rightarrow>
     let e0 = (case map_of (tg_by_tag s) t of None \<Rightarrow> [] | Some m \<Rightarrow> m);
         e1 = foldl (\<lambda>d (k, v). od_set k v d) e0 meta;
         e2 = od_set ''tag'' (MInt t) e1 in
     evict_if_needed (s\<lparr>tg_by_tag := od_move_end t (od_set t e2 (tg_by_tag s))\<rparr>))"

definition bind_digest :: "int option \<Rightarrow> string option \<Rightarrow> tag_store \<Rightarrow> tag_store" where
  "bind_digest tg dg s = (case (tg, dg) of
     (Some t, Some d) \<Rightarrow>
       if d = [] then s
       else let e0 = (case map_of (tg_by_tag s) t of None \<Rightarrow> [(''tag'', MInt t)] | Some m \<Rightarrow> m) in
         evict_if_needed
           (s\<lparr>tg_by_tag := od_move_end t (od_set t (od_set ''digest'' (MStr d) e0) (tg_by_tag s)),
              tg_digests := od_move_end d (od_set d t (tg_digests s))\<rparr>)
   | _ \<Rightarrow> s)"

definition resolve_tag :: "int option \<Rightarrow> tag_store \<Rightarrow> tag_entry option" where
  "resolve_tag tg s = (case tg of None \<Rightarrow> None | Some t \<Rightarrow> map_of (tg_by_tag s) t)"

definition resolve_digest :: "string option \<Rightarrow> tag_store \<Rightarrow> tag_entry option" where
  "resolve_digest dg s = (case dg of None \<Rightarrow> None | Some d \<Rightarrow>
     if d = [] then None
     else Option.bind (map_of (tg_digests s) d) (\<lambda>t. map_of (tg_by_tag s) t))"

definition forget_tag :: "int option \<Rightarrow> string option \<Rightarrow> tag_store \<Rightarrow> tag_store" where
  "forget_tag tg dg s = (let
     s1 = (case dg of None \<Rightarrow> s | Some d \<Rightarrow> if d = [] then s else
        s\<lparr>tg_digests := od_pop d (tg_digests s),
          tg_by_tag := (case map_of (tg_digests s) d of None \<Rightarrow> tg_by_tag s | Some t \<Rightarrow> od_pop t (tg_by_tag s))\<rparr>)
   in case tg of None \<Rightarrow> s1 | Some t \<Rightarrow>
     s1\<lparr>tg_by_tag := od_pop t (tg_by_tag s1),
        tg_digests := pop_digest (Option.bind (map_of (tg_by_tag s1) t) entry_digest) (tg_digests s1)\<rparr>)"

definition clear_tags :: "tag_store \<Rightarrow> tag_store" where
  "clear_tags s = empty_tags"

subsection \<open>Reachable registries\<close>

datatype tag_op = TO_Allocate | TO_Register "int option" tag_entry | TO_Bind "int option" "string option"
  | TO_Forget "int option" "string option" | TO_Clear

fun tag_step :: "tag_op \<Rightarrow> tag_store \<Rightarrow> tag_store" where
  "tag_step TO_Allocate s = snd (allocate_tag s)"
| "tag_step (TO_Register t m) s = register_tag t m s"
| "tag_step (TO_Bind t d) s = bind_digest t d s"
| "tag_step (TO_Forget t d) s = forget_tag t d s"
| "tag_step TO_Clear s = clear_tags s"

definition tags_run :: "tag_op list \<Rightarrow> tag_store" where
  "tags_run ops = foldl (\<lambda>s f. tag_step f s) empty_tags ops"

text \<open>
  Both indexes have distinct keys and respect the bound, the counter is a tag, every entry
  names its own tag, and no digest is the empty string.
\<close>

definition tags_ok :: "tag_store \<Rightarrow> bool" where
  "tags_ok s \<longleftrightarrow> distinct (map fst (tg_by_tag s)) \<and> distinct (map fst (tg_digests s))
     \<and> length (tg_by_tag s) \<le> MAX_TAG_ENTRIES \<and> length (tg_digests s) \<le> MAX_TAG_ENTRIES
     \<and> 0 \<le> tg_counter s \<and> tg_counter s < TAG_MODULO
     \<and> (\<forall>t m. map_of (tg_by_tag s) t = Some m \<longrightarrow> map_of m ''tag'' = Some (MInt t))
     \<and> [] \<notin> fst ` set (tg_digests s)"

lemma evict_digests_last: "evict_digests ds = last_n MAX_TAG_ENTRIES ds"
proof (induction ds)
  case (Cons p ds)
  then show ?case
    by (cases "MAX_TAG_ENTRIES < Suc (length ds)") (auto simp: last_n_def Suc_diff_le)
qed (simp add: last_n_def)

lemma evict_tags_last: "fst (evict_tags bt ds) = last_n MAX_TAG_ENTRIES bt"
proof (induction bt ds rule: evict_tags.induct)
  case (2 t m bt ds)
  then show ?case
    by (cases "MAX_TAG_ENTRIES < Suc (length bt)") (auto simp: last_n_def Suc_diff_le)
qed (simp add: last_n_def)

lemma pop_digest_props:
  "distinct (map fst ds) \<Longrightarrow> distinct (map fst (pop_digest d ds))"
  "set (pop_digest d ds) \<subseteq> set ds"
  by (cases d; simp add: pop_digest_def) (cases d; auto simp: pop_digest_def od_pop_def)

lemma evict_tags_distinct: "distinct (map fst ds) \<Longrightarrow> distinct (map fst (snd (evict_tags bt ds)))"
proof (induction bt arbitrary: ds)
  case (Cons p bt)
  obtain t m where p: "p = (t, m)" by fastforce
  show ?case
    using Cons.IH [of "pop_digest (entry_digest m) ds"] pop_digest_props(1) [OF Cons.prems, of "entry_digest m"]
      Cons.prems unfolding p evict_tags.simps by (simp del: evict_tags.simps)
qed simp

lemma evict_tags_subset: "set (snd (evict_tags bt ds)) \<subseteq> set ds"
proof (induction bt arbitrary: ds)
  case (Cons p bt)
  obtain t m where p: "p = (t, m)" by fastforce
  show ?case
    unfolding p evict_tags.simps
    using subset_trans [OF Cons.IH [of "pop_digest (entry_digest m) ds"] pop_digest_props(2)] by (auto split: if_splits)
qed simp

lemma distinct_last_n: "distinct (map fst d) \<Longrightarrow> distinct (map fst (last_n n d))"
  by (simp add: last_n_def flip: drop_map)

lemma last_n_suffix: "length xs \<le> n \<Longrightarrow> last_n n (ys @ xs) = last_n (n - length xs) ys @ xs"
  by (simp add: last_n_def)

lemma map_of_last_n: "distinct (map fst d) \<Longrightarrow> map_of (last_n n d) k = Some v \<Longrightarrow> map_of d k = Some v"
  by (rule map_of_is_SomeI) (use map_of_SomeD [of "last_n n d" k v] set_last_n [of n d] in auto)

lemma od_set_tag [simp]: "map_of (foldl (\<lambda>d (k, v). od_set k v d) e meta) k
    = (case map_of (rev meta) k of Some v \<Rightarrow> Some v | None \<Rightarrow> map_of e k)"
proof (induction meta arbitrary: e)
  case (Cons p meta)
  then show ?case by (cases p) (auto simp: map_add_def split: option.splits)
qed simp

definition tags_pre :: "tag_store \<Rightarrow> bool" where
  "tags_pre s \<longleftrightarrow> distinct (map fst (tg_by_tag s)) \<and> distinct (map fst (tg_digests s))
     \<and> 0 \<le> tg_counter s \<and> tg_counter s < TAG_MODULO
     \<and> (\<forall>t m. map_of (tg_by_tag s) t = Some m \<longrightarrow> map_of m ''tag'' = Some (MInt t))
     \<and> [] \<notin> fst ` set (tg_digests s)"

lemma evict_ok: "tags_pre s \<Longrightarrow> tags_ok (evict_if_needed s)"
proof -
  assume pre: "tags_pre s"
  obtain bt ds where ev: "evict_tags (tg_by_tag s) (tg_digests s) = (bt, ds)" by fastforce
  have bt: "bt = last_n MAX_TAG_ENTRIES (tg_by_tag s)"
    using evict_tags_last [of "tg_by_tag s" "tg_digests s"] ev by simp
  have ds: "distinct (map fst ds)" "set ds \<subseteq> set (tg_digests s)"
    using evict_tags_distinct [of "tg_digests s" "tg_by_tag s"] evict_tags_subset [of "tg_by_tag s" "tg_digests s"]
      pre ev by (simp_all add: tags_pre_def)
  with pre ds bt show ?thesis
    using set_last_n [of MAX_TAG_ENTRIES ds] set_last_n [of MAX_TAG_ENTRIES "tg_by_tag s"]
    by (auto simp: tags_ok_def tags_pre_def evict_if_needed_def ev evict_digests_last distinct_last_n)
qed

lemma tags_ok_pre: "tags_ok s \<Longrightarrow> tags_pre s"
  by (simp add: tags_ok_def tags_pre_def)

lemma tags_pre_moved:
  assumes "tags_pre s" "map_of e ''tag'' = Some (MInt t)"
  shows "tags_pre (s\<lparr>tg_by_tag := od_move_end t (od_set t e (tg_by_tag s))\<rparr>)"
  using assms by (auto simp: tags_pre_def simp del: map_of_eq_Some_iff)

lemma tags_ok_register: "tags_ok s \<Longrightarrow> tags_ok (register_tag tg meta s)"
  by (cases tg) (auto simp: register_tag_def Let_def intro!: evict_ok tags_pre_moved [OF tags_ok_pre])

lemma tags_ok_bind: "tags_ok s \<Longrightarrow> tags_ok (bind_digest tg dg s)"
proof -
  assume ok: "tags_ok s"
  have "tags_ok (bind_digest (Some t) (Some d) s)" if "d \<noteq> []" for t d
  proof -
    define e where "e = od_set ''digest'' (MStr d) (case map_of (tg_by_tag s) t of None \<Rightarrow> [(''tag'', MInt t)] | Some m \<Rightarrow> m)"
    have "map_of e ''tag'' = Some (MInt t)"
      using ok by (auto simp: e_def tags_ok_def split: option.splits simp del: map_of_eq_Some_iff)
    from tags_pre_moved [OF tags_ok_pre [OF ok] this] that
    have "tags_pre (s\<lparr>tg_by_tag := od_move_end t (od_set t e (tg_by_tag s)),
        tg_digests := od_move_end d (od_set d t (tg_digests s))\<rparr>)"
      by (auto simp: tags_pre_def od_keys_move_end od_keys_set simp del: map_of_eq_Some_iff)
    with that show ?thesis by (simp add: bind_digest_def Let_def e_def evict_ok)
  qed
  with ok show ?thesis by (auto simp: bind_digest_def split: option.splits)
qed

lemma tags_ok_pop_tag: "tags_ok s \<Longrightarrow> tags_ok (s\<lparr>tg_by_tag := od_pop t (tg_by_tag s)\<rparr>)"
  using le_trans [OF od_length_pop_le [of t "tg_by_tag s"]]
  by (simp add: tags_ok_def del: map_of_eq_Some_iff)

lemma tags_ok_pop_digest: "tags_ok s \<Longrightarrow> tags_ok (s\<lparr>tg_digests := pop_digest d (tg_digests s)\<rparr>)"
  using le_trans [OF od_length_pop_le, of "tg_digests s" MAX_TAG_ENTRIES]
  by (cases d) (simp_all add: tags_ok_def pop_digest_def od_keys_pop del: map_of_eq_Some_iff)

lemma tags_ok_forget: "tags_ok s \<Longrightarrow> tags_ok (forget_tag tg dg s)"
proof -
  assume ok: "tags_ok s"
  have two: "tags_ok (z\<lparr>tg_by_tag := od_pop t (tg_by_tag z), tg_digests := pop_digest d (tg_digests z)\<rparr>)"
    if "tags_ok z" for z t d
    using tags_ok_pop_digest [OF tags_ok_pop_tag [OF that, of t], of d] by simp
  have q: "tags_ok (s\<lparr>tg_digests := od_pop d (tg_digests s),
      tg_by_tag := (case m of None \<Rightarrow> tg_by_tag s | Some t \<Rightarrow> od_pop t (tg_by_tag s))\<rparr>)" for d m
    using tags_ok_pop_digest [OF ok, of "Some d"] tags_ok_pop_tag [OF tags_ok_pop_digest [OF ok, of "Some d"]]
    by (cases m) (simp_all add: pop_digest_def)
  with ok show ?thesis
    unfolding forget_tag_def Let_def by (cases dg; cases tg) (auto intro: two q two [OF q, simplified])
qed

lemma tags_ok_empty: "tags_ok empty_tags"
  by (simp add: empty_tags_def tags_ok_def TAG_MODULO_def)

lemma tags_ok_allocate: "tags_ok s \<Longrightarrow> tags_ok (snd (allocate_tag s))"
  by (auto simp: allocate_tag_def Let_def tags_ok_def TAG_MODULO_def)

text \<open>
  A law: the registry stays well-formed and bounded. After any sequence of operations both
  indexes have distinct keys and at most 8192 entries, every entry names the tag it is stored
  under, the counter is below 2^20, and the empty digest is never indexed.
\<close>

theorem tag_registry_bounded: "tags_ok (tags_run ops)"
proof -
  have "tags_ok (foldl (\<lambda>s f. tag_step f s) s ops)" if "tags_ok s" for s
    using that
  proof (induction ops arbitrary: s)
    case (Cons f ops)
    have "tags_ok (tag_step f s)"
      using Cons.prems
      by (cases f) (simp_all add: tags_ok_allocate tags_ok_register tags_ok_bind tags_ok_forget clear_tags_def
          tags_ok_empty)
    then show ?case using Cons.IH by simp
  qed simp
  then show ?thesis
    by (simp add: tags_run_def tags_ok_empty)
qed

text \<open>The newest entry survives eviction.\<close>

lemma od_move_end_last: "map_of d k = Some v \<Longrightarrow> od_move_end k d = od_pop k d @ [(k, v)]"
  by (simp add: od_move_end_def)

lemma MAX_TAG_pos: "0 < MAX_TAG_ENTRIES"
  by (simp add: MAX_TAG_ENTRIES_def)

lemma last_n_snoc: "0 < n \<Longrightarrow> last_n n (xs @ [x]) = last_n (n - 1) xs @ [x]"
  by (simp add: last_n_def)

lemma map_of_last_n_snoc:
  "0 < n \<Longrightarrow> distinct (map fst (xs @ [(k, v)])) \<Longrightarrow> map_of (last_n n (xs @ [(k, v)])) k = Some v"
  by (rule map_of_is_SomeI) (simp_all add: last_n_snoc distinct_last_n, use set_last_n [of "n - 1" xs] in force)

lemma evict_tags_small: "length bt \<le> MAX_TAG_ENTRIES \<Longrightarrow> evict_tags bt ds = (bt, ds)"
  by (cases bt) auto

lemma evict_newest_tag:
  assumes "distinct (map fst (tg_by_tag s))"
  shows "map_of (tg_by_tag (evict_if_needed (s\<lparr>tg_by_tag := od_move_end t (od_set t e (tg_by_tag s))\<rparr>))) t = Some e"
proof -
  let ?d = "od_set t e (tg_by_tag s)"
  have m: "od_move_end t ?d = od_pop t ?d @ [(t, e)]" by (rule od_move_end_last) simp
  have "distinct (map fst (od_move_end t ?d))" using assms by simp
  with map_of_last_n_snoc [OF MAX_TAG_pos, of "od_pop t ?d" t e] show ?thesis
    using evict_tags_last [of "od_move_end t ?d" "tg_digests s"]
    by (auto simp: evict_if_needed_def m split: prod.split)
qed

text \<open>What a registered tag looks like.\<close>

lemma register_tag_entry:
  assumes "tags_ok s"
  shows "\<exists>e. map_of (tg_by_tag (register_tag (Some t) meta s)) t = Some e \<and> map_of e ''tag'' = Some (MInt t)
    \<and> (\<forall>k v. k \<noteq> ''tag'' \<longrightarrow> map_of (rev meta) k = Some v \<longrightarrow> map_of e k = Some v)"
proof -
  define e where "e = od_set ''tag'' (MInt t) (foldl (\<lambda>d (k, v). od_set k v d)
      (case map_of (tg_by_tag s) t of None \<Rightarrow> [] | Some m \<Rightarrow> m) meta)"
  have "map_of (tg_by_tag (register_tag (Some t) meta s)) t = Some e"
    using evict_newest_tag [of s t e] assms by (simp add: register_tag_def e_def tags_ok_def)
  then show ?thesis by (auto simp: e_def)
qed

text \<open>
  A law: what is registered resolves, both ways, until it is forgotten. In any reachable
  registry, after a tag is registered and bound to a venue digest, the tag and the digest
  resolve to one and the same entry, which names both and carries the registered metadata;
  forgetting the tag then makes both unresolvable.
\<close>

theorem tag_digest_roundtrip:
  assumes "d \<noteq> []" and "s = tags_run ops"
    and "s' = bind_digest (Some t) (Some d) (register_tag (Some t) meta s)"
  shows "\<exists>e. resolve_tag (Some t) s' = Some e \<and> resolve_digest (Some d) s' = Some e
      \<and> map_of e ''tag'' = Some (MInt t) \<and> map_of e ''digest'' = Some (MStr d)
      \<and> list_all (\<lambda>(k, v). k \<in> {''tag'', ''digest''} \<or> map_of (rev meta) k \<noteq> Some v \<or> map_of e k = Some v) meta
      \<and> resolve_tag (Some t) (forget_tag (Some t) None s') = None
      \<and> resolve_digest (Some d) (forget_tag (Some t) None s') = None"
proof -
  have ok: "tags_ok s" using tag_registry_bounded assms(2) by blast
  define r where "r = register_tag (Some t) meta s"
  have okr: "tags_ok r" using tags_ok_register [OF ok] by (simp add: r_def)
  obtain e0 where e0: "map_of (tg_by_tag r) t = Some e0" "map_of e0 ''tag'' = Some (MInt t)"
    "\<And>k v. k \<noteq> ''tag'' \<Longrightarrow> map_of (rev meta) k = Some v \<Longrightarrow> map_of e0 k = Some v"
    using register_tag_entry [OF ok] unfolding r_def by metis
  define e where "e = od_set ''digest'' (MStr d) e0"
  let ?bt = "od_move_end t (od_set t e (tg_by_tag r))" and ?ds = "od_move_end d (od_set d t (tg_digests r))"
  have "t \<in> fst ` set (tg_by_tag r)" using map_of_Some_key [OF e0(1)] .
  then have len: "length ?bt \<le> MAX_TAG_ENTRIES"
    using okr by (simp add: tags_ok_def od_length_move_end od_length_set)
  have bind: "tg_by_tag s' = ?bt" "tg_digests s' = evict_digests ?ds"
    using assms(1) e0(1) len
    by (simp_all add: assms(3) r_def [symmetric] bind_digest_def Let_def e_def evict_if_needed_def evict_tags_small)
  have t: "map_of (tg_by_tag s') t = Some e"
    using okr by (simp add: bind tags_ok_def del: map_of_eq_Some_iff)
  have "?ds = od_pop d (od_set d t (tg_digests r)) @ [(d, t)]" by (rule od_move_end_last) simp
  moreover have "distinct (map fst ?ds)" using okr by (simp add: tags_ok_def)
  ultimately have ds: "map_of (tg_digests s') d = Some t"
    using map_of_last_n_snoc [OF MAX_TAG_pos] by (metis bind(2) evict_digests_last)
  have "resolve_tag (Some t) s' = Some e" "resolve_digest (Some d) s' = Some e"
    using t ds assms(1) by (simp_all add: resolve_tag_def resolve_digest_def)
  moreover have "map_of e ''tag'' = Some (MInt t)" "map_of e ''digest'' = Some (MStr d)"
    using e0(2) by (simp_all add: e_def)
  moreover have "resolve_tag (Some t) (forget_tag (Some t) None s') = None"
    "resolve_digest (Some d) (forget_tag (Some t) None s') = None"
    using t ds calculation(4) assms(1)
    by (simp_all add: forget_tag_def resolve_tag_def resolve_digest_def pop_digest_def entry_digest_def)
  ultimately show ?thesis
    using e0(3) by (intro exI [of _ e]) (auto simp: list_all_iff e_def split: if_splits)
qed

theorem tag_digest_roundtrip_witness:
  "\<exists>e. resolve_digest (Some ''0xab'') (bind_digest (Some 7) (Some ''0xab'')
      (register_tag (Some 7) [(''side'', MStr ''BUY'')] (tags_run [TO_Allocate]))) = Some e \<and> map_of e ''tag'' = Some (MInt 7)"
  using tag_digest_roundtrip [of "''0xab''", OF _ refl refl, of 7 "[(''side'', MStr ''BUY'')]" "[TO_Allocate]"] by auto

subsection \<open>Uniqueness of tags\<close>

fun allocate_many :: "nat \<Rightarrow> tag_store \<Rightarrow> int list" where
  "allocate_many 0 s = []"
| "allocate_many (Suc n) s = (case allocate_tag s of (t, s') \<Rightarrow> t # allocate_many n s')"

lemma allocate_tag_eq:
  assumes "tags_ok s"
  shows "fst (allocate_tag s) = tg_counter s mod (TAG_MODULO - 1) + 1"
    "tg_counter (snd (allocate_tag s)) = fst (allocate_tag s)"
    "tags_ok (snd (allocate_tag s))"
proof -
  have c: "0 \<le> tg_counter s" "tg_counter s < TAG_MODULO" using assms by (simp_all add: tags_ok_def)
  show "fst (allocate_tag s) = tg_counter s mod (TAG_MODULO - 1) + 1"
  proof (cases "tg_counter s = TAG_MODULO - 1")
    case True
    then show ?thesis by (simp add: allocate_tag_def Let_def TAG_MODULO_def)
  next
    case False
    with c show ?thesis by (simp add: allocate_tag_def Let_def TAG_MODULO_def)
  qed
  show "tg_counter (snd (allocate_tag s)) = fst (allocate_tag s)" by (simp add: allocate_tag_def Let_def)
  show "tags_ok (snd (allocate_tag s))" using tags_ok_allocate assms by blast
qed

lemma allocate_many_nth:
  assumes "tags_ok s" "k < n"
  shows "allocate_many n s ! k = (tg_counter s + int k) mod (TAG_MODULO - 1) + 1"
  using assms
proof (induction n arbitrary: s k)
  case (Suc n)
  obtain t s' where a: "allocate_tag s = (t, s')" by fastforce
  note eq = allocate_tag_eq [OF Suc.prems(1), unfolded a fst_conv snd_conv]
  show ?case
  proof (cases k)
    case 0
    then show ?thesis by (simp add: a eq)
  next
    case (Suc j)
    have "allocate_many n s' ! j = (t + int j) mod (TAG_MODULO - 1) + 1"
      using Suc.IH [OF eq(3), of j] Suc.prems(2) Suc eq(2) by simp
    also have "\<dots> = (tg_counter s + int k) mod (TAG_MODULO - 1) + 1"
      using mod_add_left_eq [of "tg_counter s" "TAG_MODULO - 1" "1 + int j"]
      unfolding eq(1) Suc by (simp add: ac_simps)
    finally show ?thesis by (simp add: a Suc)
  qed
qed simp

text \<open>
  A law: live tags are unique. Any 2^20 - 1 consecutive allocations of any reachable
  registry are pairwise different, none of them is the reserved tag 0 and all fit in 20 bits.
\<close>

theorem tags_unique:
  assumes "int n \<le> TAG_MODULO - 1"
  shows "distinct (allocate_many n (tags_run ops)) \<and> list_all (\<lambda>t. 0 < t \<and> t < TAG_MODULO) (allocate_many n (tags_run ops))
    \<and> length (allocate_many n (tags_run ops)) = n"
proof -
  define s where "s = tags_run ops"
  have ok: "tags_ok s" using tag_registry_bounded by (simp add: s_def)
  have len: "length (allocate_many n s) = n" for n s
    by (induction n arbitrary: s) (auto split: prod.split)
  have nth: "allocate_many n s ! k = (tg_counter s + int k) mod (TAG_MODULO - 1) + 1" if "k < n" for k
    using allocate_many_nth [OF ok that] .
  have "allocate_many n s ! i \<noteq> allocate_many n s ! j" if "i < j" "j < n" for i j
  proof
    assume "allocate_many n s ! i = allocate_many n s ! j"
    then have "(TAG_MODULO - 1) dvd (int j - int i)"
      using that nth by (simp add: mod_eq_dvd_iff) (metis add_diff_cancel_left dvd_minus_iff minus_diff_eq)
    then have "TAG_MODULO - 1 \<le> int j - int i" using that by (intro zdvd_imp_le) simp_all
    with that assms show False by simp
  qed
  then have "distinct (allocate_many n s)"
    by (metis distinct_conv_nth len linorder_neqE_nat)
  moreover have "list_all (\<lambda>t. 0 < t \<and> t < TAG_MODULO) (allocate_many n s)"
    unfolding list_all_length len using nth by (auto simp: TAG_MODULO_def intro: add_nonneg_pos)
  ultimately show ?thesis using len by (simp add: s_def)
qed

theorem tags_unique_witness: "distinct (allocate_many 3 (tags_run [TO_Allocate]))"
  using tags_unique [of 3 "[TO_Allocate]"] by (simp add: TAG_MODULO_def)

end
