(* ===== verification/Order_Lifecycle.thy ===== *)
theory Order_Lifecycle
  imports Order_Tags Adapter
begin

text \<open>
  The order lifecycle store, from \<open>engine/order_lifecycle.py\<close>: per venue order a state, a
  change sequence and the time of its last stream event, fed by the \<open>order_update\<close> and
  \<open>fill\<close> streams and read by the adapter to decide whether it must poll the venue.

  The state is the store together with the tag registry the stream handlers resolve ids
  through; \<open>time.time()\<close> is an argument. \<open>_TRUST_TTL_SECONDS\<close>, an environment setting, is the
  argument \<open>ttl\<close> of the reads.
\<close>

record lc_entry =
  lc_digest :: string
  lc_state :: order_state
  lc_seq :: nat
  lc_last_event :: time
  lc_tag :: "int option"

record lc_world =
  lw_tags :: tag_store
  lw_store :: "lc_entry odict"

definition MAX_LC_ENTRIES :: nat where "MAX_LC_ENTRIES = 8192"

definition reason_state :: "string \<Rightarrow> order_state option" where
  "reason_state r = map_of
     [(''placed'', O_OPEN), (''open'', O_OPEN), (''filled'', O_FILLED), (''cancelled'', O_CANCELLED),
      (''canceled'', O_CANCELLED), (''rejected'', O_REJECTED)] r"

fun lc_evict :: "lc_entry odict \<Rightarrow> lc_entry odict" where
  "lc_evict [] = []"
| "lc_evict (p # d) = (if MAX_LC_ENTRIES < length (p # d) then lc_evict d else p # d)"

definition new_lc :: "string \<Rightarrow> order_state \<Rightarrow> int option \<Rightarrow> lc_entry" where
  "new_lc d st tg = \<lparr>lc_digest = d, lc_state = st, lc_seq = 0, lc_last_event = 0, lc_tag = tg\<rparr>"

definition lc_seed :: "string \<Rightarrow> order_state \<Rightarrow> int option \<Rightarrow> lc_world \<Rightarrow> lc_world" where
  "lc_seed d st tg w = (if d = [] then w
     else let e = (case map_of (lw_store w) d of
            None \<Rightarrow> new_lc d st tg
          | Some e \<Rightarrow> e\<lparr>lc_state := st, lc_tag := (if tg = None then lc_tag e else tg)\<rparr>)
       in w\<lparr>lw_store := lc_evict (od_move_end d (od_set d e (lw_store w)))\<rparr>)"

definition touched :: "string \<Rightarrow> order_state option \<Rightarrow> int option \<Rightarrow> time \<Rightarrow> lc_entry option \<Rightarrow> lc_entry" where
  "touched d st tg now e0 = (let e = (case e0 of None \<Rightarrow> new_lc d O_OPEN tg | Some e \<Rightarrow> e) in
     e\<lparr>lc_seq := Suc (lc_seq e), lc_last_event := now, lc_tag := (if tg = None then lc_tag e else tg),
       lc_state := (case st of None \<Rightarrow> lc_state e | Some s \<Rightarrow> if is_terminal (lc_state e) then lc_state e else s)\<rparr>)"

definition lc_touch :: "string \<Rightarrow> order_state option \<Rightarrow> int option \<Rightarrow> time \<Rightarrow> lc_world \<Rightarrow> lc_world" where
  "lc_touch d st tg now w = w\<lparr>lw_store :=
     lc_evict (od_move_end d (od_set d (touched d st tg now (map_of (lw_store w) d)) (lw_store w)))\<rparr>"

text \<open>
  The digest an event is about: its own, or the one its tag resolves to.
\<close>

definition event_digest :: "string option \<Rightarrow> int option \<Rightarrow> tag_store \<Rightarrow> string option" where
  "event_digest dg tg s = (let
     d = (case dg of Some d \<Rightarrow> if d = [] then None else Some d | None \<Rightarrow> None) in
     if d = None \<and> tg \<noteq> None then Option.bind (resolve_tag tg s) entry_digest else d)"

definition lc_apply_order_update ::
  "string option \<Rightarrow> string option \<Rightarrow> int option \<Rightarrow> time \<Rightarrow> lc_world \<Rightarrow> lc_world" where
  "lc_apply_order_update dg reason tg now w = (case event_digest dg tg (lw_tags w) of
     None \<Rightarrow> w
   | Some d \<Rightarrow>
      let st = reason_state (lower_str (strip_str (case reason of None \<Rightarrow> [] | Some r \<Rightarrow> r)));
          w1 = lc_touch d st tg now w in
      if tg = None then w1 else w1\<lparr>lw_tags := bind_digest tg (Some d) (lw_tags w1)\<rparr>)"

definition lc_apply_fill :: "int option \<Rightarrow> string option \<Rightarrow> time \<Rightarrow> lc_world \<Rightarrow> lc_world" where
  "lc_apply_fill tg dg now w = (case event_digest dg tg (lw_tags w) of
     None \<Rightarrow> w
   | Some d \<Rightarrow>
      let next_state = (case map_of (lw_store w) d of
             None \<Rightarrow> O_PARTIALLY_FILLED
           | Some e \<Rightarrow> if is_terminal (lc_state e) then lc_state e else O_PARTIALLY_FILLED) in
      lc_touch d (Some next_state) tg now w)"

text \<open>A read: the entry with its freshness.\<close>

definition lc_fresh :: "time \<Rightarrow> time \<Rightarrow> lc_entry \<Rightarrow> bool" where
  "lc_fresh ttl now e \<longleftrightarrow> is_terminal (lc_state e) \<or> (lc_last_event e > 0 \<and> now - lc_last_event e \<le> ttl)"

definition lc_get :: "time \<Rightarrow> time \<Rightarrow> string option \<Rightarrow> lc_world \<Rightarrow> (lc_entry \<times> bool) option" where
  "lc_get ttl now dg w = (case dg of None \<Rightarrow> None | Some d \<Rightarrow>
     if d = [] then None else map_option (\<lambda>e. (e, lc_fresh ttl now e)) (map_of (lw_store w) d))"

definition lc_seq_of :: "string option \<Rightarrow> lc_world \<Rightarrow> int" where
  "lc_seq_of dg w = (case lc_get 0 0 dg w of None \<Rightarrow> -1 | Some (e, _) \<Rightarrow> int (lc_seq e))"

definition lc_is_fresh :: "time \<Rightarrow> time \<Rightarrow> string option \<Rightarrow> lc_world \<Rightarrow> bool" where
  "lc_is_fresh ttl now dg w = (let
     ts = (case dg of None \<Rightarrow> 0 | Some d \<Rightarrow> if d = [] then 0 else
       (case map_of (lw_store w) d of None \<Rightarrow> 0 | Some e \<Rightarrow> lc_last_event e)) in
     ts > 0 \<and> now - ts \<le> ttl)"

definition lc_forget :: "string option \<Rightarrow> lc_world \<Rightarrow> lc_world" where
  "lc_forget dg w = (case dg of None \<Rightarrow> w | Some d \<Rightarrow>
     if d = [] then w else w\<lparr>lw_store := od_pop d (lw_store w)\<rparr>)"

definition lc_stats :: "lc_world \<Rightarrow> nat \<times> nat" where
  "lc_stats w = (length (lw_store w), length (filter (\<lambda>(d, e). is_terminal (lc_state e)) (lw_store w)))"

subsection \<open>The stream\<close>

datatype lc_event = LE_Update "string option" "string option" "int option" time | LE_Fill "int option" "string option" time

fun lc_step :: "lc_event \<Rightarrow> lc_world \<Rightarrow> lc_world" where
  "lc_step (LE_Update dg reason tg now) w = lc_apply_order_update dg reason tg now w"
| "lc_step (LE_Fill tg dg now) w = lc_apply_fill tg dg now w"

definition lc_stream :: "lc_event list \<Rightarrow> lc_world \<Rightarrow> lc_world" where
  "lc_stream evs w = foldl (\<lambda>w ev. lc_step ev w) w evs"

text \<open>The store as a bounded dictionary: distinct keys, bounded, entries under their own digest.\<close>

definition lc_ok :: "lc_world \<Rightarrow> bool" where
  "lc_ok w \<longleftrightarrow> distinct (map fst (lw_store w)) \<and> length (lw_store w) \<le> MAX_LC_ENTRIES"

lemma lc_evict_last: "lc_evict d = last_n MAX_LC_ENTRIES d"
proof (induction d)
  case (Cons p d)
  then show ?case
    by (cases "MAX_LC_ENTRIES < Suc (length d)") (auto simp: last_n_def Suc_diff_le)
qed (simp add: last_n_def)

lemma lc_put_ok:
  assumes "lc_ok w"
  shows "lc_ok (w\<lparr>lw_store := lc_evict (od_move_end d (od_set d e (lw_store w)))\<rparr>)"
    and "map_of (lc_evict (od_move_end d (od_set d e (lw_store w)))) d = Some e"
    and "length (lw_store w) < MAX_LC_ENTRIES
      \<Longrightarrow> map_of (lc_evict (od_move_end d (od_set d e (lw_store w)))) = (map_of (lw_store w))(d \<mapsto> e)"
    and "length (lc_evict (od_move_end d (od_set d e (lw_store w)))) \<le> Suc (length (lw_store w))"
proof -
  let ?m = "od_move_end d (od_set d e (lw_store w))"
  have dist: "distinct (map fst (od_set d e (lw_store w)))" using assms by (simp add: lc_ok_def)
  then have m: "distinct (map fst ?m)" by simp
  show "lc_ok (w\<lparr>lw_store := lc_evict ?m\<rparr>)"
    using m by (simp add: lc_ok_def lc_evict_last distinct_last_n)
  have "?m = od_pop d (od_set d e (lw_store w)) @ [(d, e)]" by (rule od_move_end_last) simp
  then show "map_of (lc_evict ?m) d = Some e"
    unfolding lc_evict_last using m map_of_last_n_snoc [of MAX_LC_ENTRIES] by (simp add: MAX_LC_ENTRIES_def)
  have len: "length ?m \<le> Suc (length (lw_store w))"
    using dist by (simp add: od_length_move_end od_length_set)
  show "map_of (lc_evict ?m) = (map_of (lw_store w))(d \<mapsto> e)" if "length (lw_store w) < MAX_LC_ENTRIES"
    using that len dist by (simp add: lc_evict_last last_n_all)
  show "length (lc_evict ?m) \<le> Suc (length (lw_store w))" using len by (simp add: lc_evict_last)
qed

text \<open>Every stream event is a touch of at most one order; the rest of the store is unchanged.\<close>

lemma lc_step_cases:
  "lw_store (lc_step ev w) = lw_store w
   \<or> (\<exists>d st tg now. lw_store (lc_step ev w) = lw_store (lc_touch d st tg now w))"
proof (cases ev)
  case (LE_Update dg reason tg now)
  then show ?thesis
    by (cases "event_digest dg tg (lw_tags w)") (auto simp: lc_apply_order_update_def Let_def split: if_splits)
next
  case (LE_Fill tg dg now)
  then show ?thesis
    by (cases "event_digest dg tg (lw_tags w)") (auto simp: lc_apply_fill_def Let_def)
qed

text \<open>\<open>moved n e e'\<close>: \<open>e'\<close> is \<open>e\<close> after at most \<open>n\<close> stream events.\<close>

definition moved :: "nat \<Rightarrow> lc_entry \<Rightarrow> lc_entry \<Rightarrow> bool" where
  "moved n e e' \<longleftrightarrow> lc_seq e \<le> lc_seq e' \<and> lc_seq e' \<le> lc_seq e + n \<and> (lc_seq e' = lc_seq e \<longrightarrow> e' = e)
     \<and> (is_terminal (lc_state e) \<longrightarrow> lc_state e' = lc_state e)"

lemma moved_touch: "moved n e e' \<Longrightarrow> moved (Suc n) e (touched d st tg now (Some e'))"
  by (auto simp: moved_def touched_def Let_def split: option.splits)

lemma moved_weaken: "moved n e e' \<Longrightarrow> moved (Suc n) e e'"
  by (auto simp: moved_def)

lemma lc_step_moved:
  assumes "lc_ok w" "length (lw_store w) < MAX_LC_ENTRIES" "map_of (lw_store w) d = Some e'" "moved n e e'"
  shows "\<exists>e''. map_of (lw_store (lc_step ev w)) d = Some e'' \<and> moved (Suc n) e e''"
    and "lc_ok (lc_step ev w)" and "length (lw_store (lc_step ev w)) \<le> Suc (length (lw_store w))"
proof -
  have upd: "\<exists>e''. map_of (lw_store (lc_touch k st tg now w)) d = Some e'' \<and> moved (Suc n) e e''" for k st tg now
    using lc_put_ok(3) [OF assms(1,2)] assms(3,4) moved_touch moved_weaken
    by (cases "k = d") (auto simp: lc_touch_def simp del: map_of_eq_Some_iff)
  show "\<exists>e''. map_of (lw_store (lc_step ev w)) d = Some e'' \<and> moved (Suc n) e e''"
    using lc_step_cases [of ev w] upd assms(3) moved_weaken [OF assms(4)] by auto
  have "lc_ok (lc_touch k st tg now w)" for k st tg now
    using lc_put_ok(1) [OF assms(1)] by (simp add: lc_touch_def)
  then show "lc_ok (lc_step ev w)"
    using lc_step_cases [of ev w] assms(1) by (auto simp: lc_ok_def)
  have "length (lw_store (lc_touch k st tg now w)) \<le> Suc (length (lw_store w))" for k st tg now
    using lc_put_ok(4) [OF assms(1)] by (simp add: lc_touch_def)
  then show "length (lw_store (lc_step ev w)) \<le> Suc (length (lw_store w))"
    using lc_step_cases [of ev w] by auto
qed

text \<open>
  A law: what the adapter may trust. While the store has room, after any run of stream
  events, of any orders and in any order, a known order is still known; its sequence number
  has grown by at most one per event, an unchanged sequence number means an unchanged entry,
  and an order once filled, cancelled or rejected stays exactly that, whatever late event
  arrives.
\<close>

theorem lifecycle_stream:
  assumes "lc_ok w" "length (lw_store w) + length evs \<le> MAX_LC_ENTRIES" "map_of (lw_store w) d = Some e"
  shows "\<exists>e'. map_of (lw_store (lc_stream evs w)) d = Some e'
    \<and> lc_seq e \<le> lc_seq e' \<and> lc_seq e' \<le> lc_seq e + length evs
    \<and> (lc_seq e' = lc_seq e \<longrightarrow> e' = e)
    \<and> (is_terminal (lc_state e) \<longrightarrow> lc_state e' = lc_state e)"
proof -
  have "\<exists>e''. map_of (lw_store (lc_stream evs w)) d = Some e'' \<and> moved (n + length evs) e e''"
    if "lc_ok w" "length (lw_store w) + length evs \<le> MAX_LC_ENTRIES" "map_of (lw_store w) d = Some e'" "moved n e e'"
    for n e' evs w
    using that
  proof (induction evs arbitrary: w n e')
    case (Cons ev evs)
    have "length (lw_store w) < MAX_LC_ENTRIES" using Cons.prems(2) by simp
    note step = lc_step_moved [OF Cons.prems(1) this Cons.prems(3,4), of ev]
    from step(1) obtain e'' where "map_of (lw_store (lc_step ev w)) d = Some e''" "moved (Suc n) e e''" by blast
    from Cons.IH [OF step(2) _ this] step(3) Cons.prems(2) show ?case by (simp add: lc_stream_def)
  qed (auto simp: lc_stream_def)
  from this [OF assms, of 0] show ?thesis by (simp add: moved_def)
qed

definition demo_world :: lc_world where
  "demo_world = lc_apply_order_update (Some ''0xab'') (Some '' FILLED '') None 5
     (lc_seed ''0xab'' O_OPEN (Some 7) \<lparr>lw_tags = empty_tags, lw_store = []\<rparr>)"

theorem lifecycle_stream_witness:
  "\<exists>e'. map_of (lw_store (lc_stream [LE_Fill (Some 7) (Some ''0xab'') 9, LE_Update (Some ''0xab'') (Some ''open'') None 9]
      demo_world)) ''0xab'' = Some e' \<and> lc_state e' = O_FILLED"
proof -
  have "case map_of (lw_store demo_world) ''0xab'' of None \<Rightarrow> False | Some e \<Rightarrow> lc_state e = O_FILLED"
    by code_simp
  then obtain e where e: "map_of (lw_store demo_world) ''0xab'' = Some e" "lc_state e = O_FILLED"
    by (auto split: option.splits)
  have "length (lw_store demo_world) = 1" "distinct (map fst (lw_store demo_world))" by code_simp+
  then have "lc_ok demo_world" "length (lw_store demo_world)
      + length [LE_Fill (Some 7) (Some ''0xab'') 9, LE_Update (Some ''0xab'') (Some ''open'') None 9] \<le> MAX_LC_ENTRIES"
    by (simp_all add: lc_ok_def MAX_LC_ENTRIES_def)
  from lifecycle_stream [OF this e(1)] e(2) show ?thesis by (auto simp: is_terminal_def)
qed

text \<open>
  A law: freshness. A read reports an order as current exactly when it is final, or a
  stream event touched it within the trust window; seeding alone never makes it current, and
  an order neither seeded nor touched is not known at all.
\<close>

theorem lifecycle_freshness:
  assumes "lc_ok w" "d \<noteq> []"
  shows "lc_get ttl now (Some d) (lc_touch d st tg t0 w) =
      (let e = touched d st tg t0 (map_of (lw_store w) d) in
       Some (e, is_terminal (lc_state e) \<or> 0 < t0 \<and> now - t0 \<le> ttl))
    \<and> (map_of (lw_store w) d = None \<longrightarrow> \<not> is_terminal st0
        \<longrightarrow> lc_get ttl now (Some d) (lc_seed d st0 tg w) = Some (new_lc d st0 tg, False))
    \<and> (lc_get ttl now (Some d) w = None \<longleftrightarrow> d \<notin> fst ` set (lw_store w))"
proof (intro conjI impI)
  show "lc_get ttl now (Some d) (lc_touch d st tg t0 w) =
      (let e = touched d st tg t0 (map_of (lw_store w) d) in
       Some (e, is_terminal (lc_state e) \<or> 0 < t0 \<and> now - t0 \<le> ttl))"
    using assms(2) lc_put_ok(2) [OF assms(1)]
    by (simp add: lc_get_def lc_touch_def Let_def lc_fresh_def touched_def del: map_of_eq_Some_iff)
  show "lc_get ttl now (Some d) (lc_seed d st0 tg w) = Some (new_lc d st0 tg, False)"
    if "map_of (lw_store w) d = None" "\<not> is_terminal st0"
    using assms(2) lc_put_ok(2) [OF assms(1)] that
    by (simp add: lc_get_def lc_seed_def Let_def lc_fresh_def new_lc_def del: map_of_eq_Some_iff)
  show "lc_get ttl now (Some d) w = None \<longleftrightarrow> d \<notin> fst ` set (lw_store w)"
    using assms(2) by (auto simp: lc_get_def map_of_eq_None_iff)
qed

theorem lifecycle_freshness_witness:
  "lc_get 8 20 (Some ''0xcd'') (lc_touch ''0xcd'' None None 15 demo_world)
     = Some (\<lparr>lc_digest = ''0xcd'', lc_state = O_OPEN, lc_seq = 1, lc_last_event = 15, lc_tag = None\<rparr>, True)"
proof -
  have "length (lw_store demo_world) = 1" "distinct (map fst (lw_store demo_world))"
    "map_of (lw_store demo_world) ''0xcd'' = None" by code_simp+
  then show ?thesis
    using lifecycle_freshness [of demo_world "''0xcd''" 8 20 None None 15]
    by (simp add: lc_ok_def MAX_LC_ENTRIES_def touched_def new_lc_def Let_def)
qed

text \<open>
  A finding: seeding un-fills an order. When the stream reports an order filled before the
  placing call has returned, the seed that follows puts the order back to open, against the
  rule the stream handlers keep; within the trust window the store then reports an open order
  as current.
\<close>

theorem lifecycle_seed_regresses:
  assumes "lc_ok w" "d \<noteq> []" "0 < t0" "0 \<le> ttl"
  shows "\<exists>e f. lc_get ttl t0 (Some d) (lc_apply_order_update (Some d) (Some ''filled'') None t0 w) = Some (e, True)
      \<and> is_terminal (lc_state e)
    \<and> lc_get ttl t0 (Some d) (lc_seed d O_OPEN tg (lc_apply_order_update (Some d) (Some ''filled'') None t0 w)) = Some (f, True)
      \<and> lc_state f = O_OPEN \<and> lc_seq f = lc_seq e"
proof -
  define e where "e = touched d (Some O_FILLED) None t0 (map_of (lw_store w) d)"
  define w1 where "w1 = lc_touch d (Some O_FILLED) None t0 w"
  have "reason_state (lower_str (strip_str ''filled'')) = Some O_FILLED" by code_simp
  then have w1: "lc_apply_order_update (Some d) (Some ''filled'') None t0 w = w1"
    using assms(2) by (simp add: lc_apply_order_update_def event_digest_def w1_def Let_def)
  have e: "map_of (lw_store w1) d = Some e"
    using lc_put_ok(2) [OF assms(1)] by (simp add: w1_def e_def lc_touch_def del: map_of_eq_Some_iff)
  have ok1: "lc_ok w1" using lc_put_ok(1) [OF assms(1)] by (simp add: w1_def lc_touch_def)
  have f: "map_of (lw_store (lc_seed d O_OPEN tg w1)) d
      = Some (e\<lparr>lc_state := O_OPEN, lc_tag := (if tg = None then lc_tag e else tg)\<rparr>)"
    using lc_put_ok(2) [OF ok1] assms(2) e by (simp add: lc_seed_def Let_def del: map_of_eq_Some_iff)
  have "is_terminal (lc_state e)" "lc_last_event e = t0" by (auto simp: e_def touched_def Let_def)
  with e f assms(2-4) show ?thesis
    unfolding w1 by (simp add: lc_get_def lc_fresh_def del: map_of_eq_Some_iff)
qed

theorem lifecycle_seed_regresses_witness:
  "\<exists>f. lc_get 8 5 (Some ''0xcd'') (lc_seed ''0xcd'' O_OPEN (Some 3)
     (lc_apply_order_update (Some ''0xcd'') (Some ''filled'') None 5 demo_world)) = Some (f, True) \<and> lc_state f = O_OPEN"
proof -
  have "length (lw_store demo_world) = 1" "distinct (map fst (lw_store demo_world))" by code_simp+
  then have "lc_ok demo_world" by (simp add: lc_ok_def MAX_LC_ENTRIES_def)
  from lifecycle_seed_regresses [OF this, of "''0xcd''" 5 8 "Some 3"] show ?thesis by auto
qed

end
