(* ===== verification/Portfolio.thy ===== *)
theory Portfolio
  imports Inventory "HOL-Library.Product_Lexorder" "HOL-Library.Multiset"
begin

text \<open>
  The portfolio facade, from \<open>engine/portfolio.py\<close>: profit and loss per controller over the
  holds of a user, the distribution of the account value, and the history with its sampler
  and its retention policy.

  The code's collaborators are interfaces: the account provider and the executor counts are
  records of read functions, with their in-memory implementations; the history repository is a
  record of its three methods, whose contract is the locale \<open>history_repository\<close>,
  interpreted on the in-memory one. A \<open>datetime\<close> is a UTC instant in seconds.
\<close>

type_synonym tokens = "dec odict odict"
type_synonym accounts = "tokens odict"

record controller_pnl =
  cp_realized :: dec
  cp_unrealized :: dec
  cp_fees :: dec
  cp_net :: dec
  cp_open_executors :: int

definition zero_pnl :: controller_pnl where
  "zero_pnl = \<lparr>cp_realized = 0, cp_unrealized = 0, cp_fees = 0, cp_net = 0, cp_open_executors = 0\<rparr>"

record portfolio_state =
  ps_accounts :: accounts
  ps_total :: dec
  ps_per_controller :: "controller_pnl odict"

record history_row =
  hr_user :: int
  hr_ts :: time
  hr_total :: dec
  hr_by_account :: "dec odict"
  hr_by_asset :: "dec odict"
  hr_network :: string

subsection \<open>Collaborators\<close>

record account_provider =
  ap_accounts :: "int \<Rightarrow> accounts"
  ap_marks :: "int \<Rightarrow> dec odict"
  ap_network :: "int \<Rightarrow> string"

record memory_accounts =
  ma_accounts :: "(int \<times> accounts) list"
  ma_marks :: "(int \<times> dec odict) list"
  ma_networks :: "(int \<times> string) list"

definition lookup_or :: "'b \<Rightarrow> ('a \<times> 'b) list \<Rightarrow> 'a \<Rightarrow> 'b" where
  "lookup_or dflt d k = (case map_of d k of None \<Rightarrow> dflt | Some v \<Rightarrow> v)"

definition ma_set :: "int \<Rightarrow> accounts \<Rightarrow> dec odict option \<Rightarrow> string option \<Rightarrow> memory_accounts \<Rightarrow> memory_accounts" where
  "ma_set u accs marks network m = m\<lparr>ma_accounts := od_set u accs (ma_accounts m),
     ma_marks := od_set u (case marks of None \<Rightarrow> [] | Some d \<Rightarrow> d) (ma_marks m),
     ma_networks := (case network of None \<Rightarrow> ma_networks m | Some n \<Rightarrow> od_set u n (ma_networks m))\<rparr>"

definition memory_provider :: "memory_accounts \<Rightarrow> account_provider" where
  "memory_provider m = \<lparr>ap_accounts = lookup_or [] (ma_accounts m), ap_marks = lookup_or [] (ma_marks m),
     ap_network = lookup_or ''mainnet'' (ma_networks m)\<rparr>"

type_synonym executor_counts = "((int \<times> string) \<times> int) list"

definition set_open_count :: "int \<Rightarrow> string \<Rightarrow> int \<Rightarrow> executor_counts \<Rightarrow> executor_counts" where
  "set_open_count u cid n d = od_set (u, cid) n d"

definition open_count :: "executor_counts \<Rightarrow> int \<Rightarrow> string \<Rightarrow> int" where
  "open_count d u cid = lookup_or 0 d (u, cid)"

record 'h history_api =
  hi_record :: "history_row \<Rightarrow> 'h \<Rightarrow> 'h"
  hi_fetch :: "int \<Rightarrow> time option \<Rightarrow> time option \<Rightarrow> string option \<Rightarrow> 'h \<Rightarrow> history_row list"
  hi_prune :: "time \<Rightarrow> 'h \<Rightarrow> int \<times> 'h"

subsection \<open>The in-memory history and its retention\<close>

definition RETENTION_FINE_DAYS :: rat where "RETENTION_FINE_DAYS = 7"
definition RETENTION_HOURLY_DAYS :: rat where "RETENTION_HOURLY_DAYS = 30"
definition RETENTION_DAILY_DAYS :: rat where "RETENTION_DAILY_DAYS = 365"

datatype bucket = Fine time | Hourly "int \<times> int \<times> int" int | Daily "int \<times> int \<times> int"

definition date_of :: "time \<Rightarrow> int \<times> int \<times> int" where
  "date_of t = civil_date \<lfloor>t / 86400\<rfloor>"

definition hour_of :: "time \<Rightarrow> int" where
  "hour_of t = \<lfloor>t / 3600\<rfloor> mod 24"

definition retention_bucket :: "time \<Rightarrow> time \<Rightarrow> bucket option" where
  "retention_bucket ts now = (let age = now - ts in
     if age \<le> RETENTION_FINE_DAYS * 86400 then Some (Fine ts)
     else if age \<le> RETENTION_HOURLY_DAYS * 86400 then Some (Hourly (date_of ts) (hour_of ts))
     else if age \<le> RETENTION_DAILY_DAYS * 86400 then Some (Daily (date_of ts))
     else None)"

type_synonym prune_key = "int \<times> string \<times> bucket"

fun keep_newest :: "time \<Rightarrow> history_row list \<Rightarrow> (prune_key \<times> history_row) list \<Rightarrow> (prune_key \<times> history_row) list" where
  "keep_newest now [] kept = kept"
| "keep_newest now (row # rows) kept = (case retention_bucket (hr_ts row) now of
     None \<Rightarrow> keep_newest now rows kept
   | Some b \<Rightarrow> let key = (hr_user row, hr_network row, b) in
       keep_newest now rows (case map_of kept key of
           None \<Rightarrow> od_set key row kept
         | Some current \<Rightarrow> if hr_ts current < hr_ts row then od_set key row kept else kept))"

definition mh_prune :: "time \<Rightarrow> history_row list \<Rightarrow> int \<times> history_row list" where
  "mh_prune now rows = (let rows' = sort_key (\<lambda>r. (hr_user r, hr_ts r)) (map snd (keep_newest now rows []))
     in (int (length rows) - int (length rows'), rows'))"

definition in_window :: "int \<Rightarrow> time option \<Rightarrow> time option \<Rightarrow> string option \<Rightarrow> history_row \<Rightarrow> bool" where
  "in_window u since until network r \<longleftrightarrow> hr_user r = u
     \<and> (case network of None \<Rightarrow> True | Some n \<Rightarrow> hr_network r = n)
     \<and> (case since of None \<Rightarrow> True | Some t \<Rightarrow> t \<le> hr_ts r)
     \<and> (case until of None \<Rightarrow> True | Some t \<Rightarrow> hr_ts r \<le> t)"

definition mh_fetch :: "int \<Rightarrow> time option \<Rightarrow> time option \<Rightarrow> string option \<Rightarrow> history_row list \<Rightarrow> history_row list" where
  "mh_fetch u since until network rows = sort_key hr_ts (filter (in_window u since until network) rows)"

definition memory_history :: "history_row list history_api" where
  "memory_history = \<lparr>hi_record = (\<lambda>r rows. rows @ [r]), hi_fetch = mh_fetch, hi_prune = mh_prune\<rparr>"

subsection \<open>Values\<close>

definition value_of :: "dec odict \<Rightarrow> dec" where
  "value_of fs = (case map_of fs ''value'' of Some v \<Rightarrow> v
     | None \<Rightarrow> lookup_or 0 fs ''units'' * (case map_of fs ''price'' of Some p \<Rightarrow> p | None \<Rightarrow> lookup_or 0 fs ''mark''))"

definition account_value :: "tokens \<Rightarrow> dec" where
  "account_value ts = sum_list (map (value_of \<circ> snd) ts)"

definition total_value :: "accounts \<Rightarrow> dec" where
  "total_value accs = sum_list (map (account_value \<circ> snd) accs)"

definition to_pct :: "dec odict \<Rightarrow> dec odict" where
  "to_pct vals = (let total = sum_list (map snd vals) in
     if total \<le> 0 then map (\<lambda>(k, v). (k, 0)) vals else map (\<lambda>(k, v). (k, v / total * 100)) vals)"

text \<open>\<open>by_asset[token] = by_asset.get(token, 0) + value\<close> over every account in turn.\<close>

definition add_asset :: "dec odict \<Rightarrow> string \<times> dec odict \<Rightarrow> dec odict" where
  "add_asset d tf = od_set (fst tf) (lookup_or 0 d (fst tf) + value_of (snd tf)) d"

definition by_asset :: "accounts \<Rightarrow> dec odict" where
  "by_asset accs = foldl (foldl add_asset) [] (map snd accs)"

definition by_account :: "accounts \<Rightarrow> dec odict" where
  "by_account accs = map (\<lambda>(a, ts). (a, account_value ts)) accs"

subsection \<open>The facade\<close>

definition add_hold :: "dec odict \<Rightarrow> controller_pnl odict \<Rightarrow> position_hold \<Rightarrow> controller_pnl odict" where
  "add_hold marks d h = (let cid = ph_controller h; agg = lookup_or zero_pnl d cid in
     od_set cid (agg\<lparr>cp_realized := cp_realized agg + realized_pnl h, cp_fees := cp_fees agg + ph_fees h,
       cp_unrealized := (case map_of marks (ph_pair h) of None \<Rightarrow> cp_unrealized agg
          | Some mark \<Rightarrow> cp_unrealized agg + unrealized_pnl h mark)\<rparr>) d)"

definition finish_pnl :: "(string \<Rightarrow> int) \<Rightarrow> string \<Rightarrow> controller_pnl \<Rightarrow> controller_pnl" where
  "finish_pnl cnt cid agg = agg\<lparr>cp_net := cp_realized agg - cp_fees agg + cp_unrealized agg,
     cp_open_executors := cnt cid\<rparr>"

definition pf_state :: "(int \<Rightarrow> position_hold list) \<Rightarrow> account_provider \<Rightarrow> (int \<Rightarrow> string \<Rightarrow> int) \<Rightarrow> int \<Rightarrow> portfolio_state" where
  "pf_state holds ap cnt u = (let accs = ap_accounts ap u in
     \<lparr>ps_accounts = accs, ps_total = total_value accs,
      ps_per_controller = map (\<lambda>(cid, agg). (cid, finish_pnl (cnt u) cid agg))
        (foldl (add_hold (ap_marks ap u)) [] (holds u))\<rparr>)"

definition distribution :: "account_provider \<Rightarrow> int \<Rightarrow> dec odict" where
  "distribution ap u = to_pct (by_asset (ap_accounts ap u))"

definition accounts_distribution :: "account_provider \<Rightarrow> int \<Rightarrow> dec odict" where
  "accounts_distribution ap u = to_pct (by_account (ap_accounts ap u))"

definition span_days :: "string \<Rightarrow> rat" where
  "span_days interval = (if interval = ''7d'' then 7 else if interval = ''30d'' then 30 else 1)"

definition pf_history :: "'h history_api \<Rightarrow> time \<Rightarrow> int \<Rightarrow> string \<Rightarrow> time option \<Rightarrow> time option \<Rightarrow> string option
    \<Rightarrow> 'h \<Rightarrow> history_row list" where
  "pf_history api clk u interval start_at end_at network h = (let
     now = (case end_at of None \<Rightarrow> clk | Some t \<Rightarrow> t);
     since = (if interval = ''custom'' then start_at else Some (now - span_days interval * 86400))
   in hi_fetch api u since (Some now) network h)"

definition sample_row :: "account_provider \<Rightarrow> time \<Rightarrow> int \<Rightarrow> time option \<Rightarrow> history_row" where
  "sample_row ap clk u now = (let accs = ap_accounts ap u in
     \<lparr>hr_user = u, hr_ts = (case now of None \<Rightarrow> clk | Some t \<Rightarrow> t), hr_total = total_value accs,
      hr_by_account = by_account accs, hr_by_asset = by_asset accs, hr_network = ap_network ap u\<rparr>)"

definition pf_sample :: "'h history_api \<Rightarrow> account_provider \<Rightarrow> time \<Rightarrow> int \<Rightarrow> time option \<Rightarrow> 'h \<Rightarrow> history_row \<times> 'h" where
  "pf_sample api ap clk u now h = (let row = sample_row ap clk u now in (row, hi_record api row h))"

subsection \<open>The contract of a history repository\<close>

text \<open>
  A fetch is sorted by time and returns exactly the recorded rows of its window; pruning only
  removes rows.
\<close>

locale history_repository =
  fixes api :: "'h history_api"
  assumes sorted_fetch: "sorted (map hr_ts (hi_fetch api u since until network h))"
    and fetch_recorded: "mset (hi_fetch api u since until network (hi_record api r h))
      = mset (hi_fetch api u since until network h) + (if in_window u since until network r then {#r#} else {#})"
    and pruned: "set (hi_fetch api u since until network (snd (hi_prune api now h)))
      \<subseteq> set (hi_fetch api u since until network h)"
begin

lemma fetch_set:
  "set (hi_fetch api u since until network (hi_record api r h))
    = (if in_window u since until network r then {r} else {}) \<union> set (hi_fetch api u since until network h)"
  using arg_cong [OF fetch_recorded [of u since until network r h], of set_mset] by auto

lemma sample_visible:
  assumes "clk \<le> clk'" "clk' \<le> clk + span_days interval * 86400" "interval \<noteq> ''custom''"
  shows "sample_row ap clk u None
    \<in> set (pf_history api clk' u interval None None (Some (ap_network ap u)) (snd (pf_sample api ap clk u None h)))"
  using assms by (simp add: pf_history_def pf_sample_def Let_def fetch_set in_window_def sample_row_def)

lemma sample_private:
  assumes "u' \<noteq> u \<or> network = Some n \<and> n \<noteq> ap_network ap u"
  shows "mset (pf_history api clk' u' interval start_at end_at network (snd (pf_sample api ap clk u now h)))
    = mset (pf_history api clk' u' interval start_at end_at network h)"
  using assms by (auto simp: pf_history_def pf_sample_def Let_def fetch_recorded in_window_def sample_row_def)

lemma history_sorted: "sorted (map hr_ts (pf_history api clk u interval start_at end_at network h))"
  by (simp add: pf_history_def Let_def sorted_fetch)

end

subsection \<open>Retention\<close>

definition row_key :: "time \<Rightarrow> history_row \<Rightarrow> prune_key option" where
  "row_key now r = map_option (\<lambda>b. (hr_user r, hr_network r, b)) (retention_bucket (hr_ts r) now)"

text \<open>What the scan keeps: under each key a newest row of that key.\<close>

definition kept_of :: "time \<Rightarrow> history_row list \<Rightarrow> (prune_key \<times> history_row) list \<Rightarrow> bool" where
  "kept_of now rows kept \<longleftrightarrow> distinct (map fst kept)
     \<and> (\<forall>(k, r) \<in> set kept. r \<in> set rows \<and> row_key now r = Some k)
     \<and> (\<forall>r \<in> set rows. \<forall>k. row_key now r = Some k \<longrightarrow> (\<exists>r'. map_of kept k = Some r' \<and> hr_ts r \<le> hr_ts r'))"

lemma kept_of_step:
  assumes "kept_of now rows kept" "row_key now r = Some k"
  shows "kept_of now (rows @ [r]) (case map_of kept k of None \<Rightarrow> od_set k r kept
     | Some current \<Rightarrow> if hr_ts current < hr_ts r then od_set k r kept else kept)"
proof (cases "\<exists>c. map_of kept k = Some c \<and> hr_ts r \<le> hr_ts c")
  case True
  then obtain c where c: "map_of kept k = Some c" "hr_ts r \<le> hr_ts c" by blast
  have "kept_of now (rows @ [r]) kept"
    using assms c unfolding kept_of_def by (auto simp del: map_of_eq_Some_iff)
  with c show ?thesis by (simp add: not_less [symmetric] del: map_of_eq_Some_iff)
next
  case False
  have "kept_of now (rows @ [r]) (od_set k r kept)"
    unfolding kept_of_def
  proof (intro conjI)
    show "distinct (map fst (od_set k r kept))" using assms by (simp add: kept_of_def)
    show "\<forall>(k', r') \<in> set (od_set k r kept). r' \<in> set (rows @ [r]) \<and> row_key now r' = Some k'"
      using assms by (auto simp: kept_of_def dest!: set_od_setD)
    show "\<forall>r' \<in> set (rows @ [r]). \<forall>k'. row_key now r' = Some k' \<longrightarrow>
        (\<exists>r''. map_of (od_set k r kept) k' = Some r'' \<and> hr_ts r' \<le> hr_ts r'')"
    proof (intro ballI allI impI)
      fix r' k' assume r': "r' \<in> set (rows @ [r])" "row_key now r' = Some k'"
      show "\<exists>r''. map_of (od_set k r kept) k' = Some r'' \<and> hr_ts r' \<le> hr_ts r''"
      proof (cases "r' \<in> set rows")
        case True
        then obtain c where c: "map_of kept k' = Some c" "hr_ts r' \<le> hr_ts c"
          using assms(1) r'(2) unfolding kept_of_def by blast
        show ?thesis
        proof (cases "k' = k")
          case True
          then have "hr_ts c < hr_ts r" using False c(1) by force
          with True c(2) show ?thesis by simp
        qed (use c in simp)
      qed (use r' assms(2) in simp)
    qed
  qed
  with False show ?thesis by (auto simp: not_le simp del: map_of_eq_Some_iff split: option.split)
qed

lemma keep_newest_kept: "kept_of now done kept \<Longrightarrow> kept_of now (done @ rows) (keep_newest now rows kept)"
proof (induction rows arbitrary: "done" kept)
  case (Cons r rows)
  show ?case
  proof (cases "row_key now r")
    case None
    then have "kept_of now (done @ [r]) kept" using Cons.prems by (auto simp: kept_of_def)
    from Cons.IH [OF this] None show ?thesis by (simp add: row_key_def)
  next
    case (Some k)
    from Cons.IH [OF kept_of_step [OF Cons.prems Some]] Some show ?thesis
      by (auto simp: row_key_def Let_def simp del: map_of_eq_Some_iff)
  qed
qed simp

lemma keep_newest_fresh:
  assumes "distinct (map (row_key now) rows)" "\<And>r. r \<in> set rows \<Longrightarrow> row_key now r \<noteq> None"
    and "\<And>r k. r \<in> set rows \<Longrightarrow> row_key now r = Some k \<Longrightarrow> k \<notin> fst ` set kept"
  shows "map snd (keep_newest now rows kept) = map snd kept @ rows"
  using assms
proof (induction rows arbitrary: kept)
  case (Cons r rows)
  obtain b where b: "retention_bucket (hr_ts r) now = Some b"
    using Cons.prems(2) [of r] by (auto simp: row_key_def)
  define k where "k = (hr_user r, hr_network r, b)"
  have k: "row_key now r = Some k" "k \<notin> fst ` set kept"
    using b Cons.prems(3) [of r k] by (simp_all add: row_key_def k_def)
  then have new: "map_of kept k = None" "od_set k r kept = kept @ [(k, r)]"
    by (simp_all add: map_of_eq_None_iff od_set_new)
  have "k' \<notin> fst ` set (kept @ [(k, r)])" if "r' \<in> set rows" "row_key now r' = Some k'" for r' k'
    using Cons.prems(1) Cons.prems(3) [of r' k'] that k(1) by force
  then have "map snd (keep_newest now rows (kept @ [(k, r)])) = map snd (kept @ [(k, r)]) @ rows"
    using Cons.prems by (intro Cons.IH) auto
  then show ?case using b new by (simp add: k_def Let_def)
qed simp

lemma kept_all: "kept_of now rows (keep_newest now rows [])"
proof -
  have "kept_of now ([] @ rows) (keep_newest now rows [])"
    by (rule keep_newest_kept) (simp add: kept_of_def)
  then show ?thesis by simp
qed

lemma mh_prune_rows:
  assumes "mh_prune now rows = (n, rows')"
  shows "mset rows' = mset (map snd (keep_newest now rows []))" "sorted (map (\<lambda>r. (hr_user r, hr_ts r)) rows')"
    "n = int (length rows) - int (length rows')"
  using assms by (auto simp: mh_prune_def Let_def)

interpretation mem_hist: history_repository memory_history
proof
  fix u since until network h r now
  show "sorted (map hr_ts (hi_fetch memory_history u since until network h))"
    by (simp add: memory_history_def mh_fetch_def)
  show "mset (hi_fetch memory_history u since until network (hi_record memory_history r h))
      = mset (hi_fetch memory_history u since until network h) + (if in_window u since until network r then {#r#} else {#})"
    by (simp add: memory_history_def mh_fetch_def)
  have "set (snd (mh_prune now h)) \<subseteq> set h"
    using kept_all [of now h] by (auto simp: mh_prune_def Let_def kept_of_def)
  then show "set (hi_fetch memory_history u since until network (snd (hi_prune memory_history now h)))
      \<subseteq> set (hi_fetch memory_history u since until network h)"
    by (auto simp: memory_history_def mh_fetch_def)
qed

text \<open>
  A law: retention. Pruning drops every row older than a year and keeps, of every user and
  network, exactly one row per bucket, a newest one of it; every sample of the last week
  survives; the result is ordered, the count is the number of rows dropped, and pruning again
  at the same time changes nothing.
\<close>

theorem portfolio_retention:
  assumes "mh_prune now rows = (n, rows')"
  shows "n = int (length rows) - int (length rows') \<and> sorted (map (\<lambda>r. (hr_user r, hr_ts r)) rows')
    \<and> set rows' \<subseteq> {r \<in> set rows. now - hr_ts r \<le> 365 * 86400}
    \<and> distinct (map (row_key now) rows')
    \<and> (\<forall>r \<in> set rows. now - hr_ts r \<le> 365 * 86400 \<longrightarrow>
         (\<exists>r' \<in> set rows'. row_key now r' = row_key now r \<and> hr_ts r \<le> hr_ts r'))
    \<and> (\<forall>r \<in> set rows. now - hr_ts r \<le> 7 * 86400 \<longrightarrow>
         (\<exists>r' \<in> set rows'. hr_user r' = hr_user r \<and> hr_network r' = hr_network r \<and> hr_ts r' = hr_ts r))
    \<and> mh_prune now rows' = (0, rows')"
proof -
  define kept where "kept = keep_newest now rows []"
  note K = kept_all [of now rows, folded kept_def, unfolded kept_of_def]
  note R = mh_prune_rows [OF assms, folded kept_def]
  have set': "set rows' = snd ` set kept" using arg_cong [OF R(1), of set_mset] by simp
  have fresh: "row_key now r \<noteq> None \<longleftrightarrow> now - hr_ts r \<le> 365 * 86400" for r
    by (auto simp: row_key_def retention_bucket_def Let_def RETENTION_FINE_DAYS_def
        RETENTION_HOURLY_DAYS_def RETENTION_DAILY_DAYS_def)
  have "map (row_key now) (map snd kept) = map Some (map fst kept)"
    using K by auto
  then have "distinct (map (row_key now) (map snd kept))"
    using K by (simp only: distinct_map inj_Some inj_on_subset [OF inj_Some])
  then have d: "distinct (map (row_key now) rows')"
    using R(1) by (metis mset_eq_imp_distinct_iff mset_map)
  have newest: "\<exists>r' \<in> set rows'. row_key now r' = row_key now r \<and> hr_ts r \<le> hr_ts r'"
    if r: "r \<in> set rows" "now - hr_ts r \<le> 365 * 86400" for r
  proof -
    obtain k where k: "row_key now r = Some k" using r(2) fresh [of r] by auto
    then obtain r' where r': "map_of kept k = Some r'" "hr_ts r \<le> hr_ts r'"
      using K [THEN conjunct2, THEN conjunct2] r(1) by blast
    have "(k, r') \<in> set kept" using r'(1) by (rule map_of_SomeD)
    then have "r' \<in> set rows'" "row_key now r' = Some k"
      using K [THEN conjunct2, THEN conjunct1] unfolding set' by force+
    with k r'(2) show ?thesis by auto
  qed
  have week: "\<exists>r' \<in> set rows'. hr_user r' = hr_user r \<and> hr_network r' = hr_network r \<and> hr_ts r' = hr_ts r"
    if r: "r \<in> set rows" "now - hr_ts r \<le> 7 * 86400" for r
  proof -
    obtain r' where r': "r' \<in> set rows'" "row_key now r' = row_key now r" using newest [OF r(1)] r(2) by auto
    moreover have "retention_bucket (hr_ts r) now = Some (Fine (hr_ts r))"
      using r(2) by (simp add: retention_bucket_def RETENTION_FINE_DAYS_def)
    ultimately have "retention_bucket (hr_ts r') now = Some (Fine (hr_ts r))" "hr_user r' = hr_user r" "hr_network r' = hr_network r"
      by (auto simp: row_key_def)
    then show ?thesis using r' by (auto simp: retention_bucket_def Let_def split: if_splits)
  qed
  have old: "row_key now r \<noteq> None" if "r \<in> set rows'" for r
    using K that unfolding set' by force
  have "map snd (keep_newest now rows' []) = rows'"
    using keep_newest_fresh [OF d old, of "[]"] by simp
  then have "mh_prune now rows' = (0, rows')"
    using R(2) by (simp add: mh_prune_def sort_key_id_if_sorted)
  moreover have "set rows' \<subseteq> {r \<in> set rows. now - hr_ts r \<le> 365 * 86400}"
    using K old fresh unfolding set' by force
  ultimately show ?thesis using R(2,3) d newest week by blast
qed

text \<open>
  A law: a sample is seen. What the sampler records is in the history of its user and
  network for the whole of the interval asked for, and the histories of other users and
  networks are unchanged.
\<close>

theorem portfolio_sample_visible:
  fixes h :: "history_row list" and ap :: account_provider and clk :: time and u :: int
  assumes "clk \<le> clk'" "clk' \<le> clk + span_days interval * 86400" "interval \<noteq> ''custom''"
    and "u' \<noteq> u \<or> network = Some n \<and> n \<noteq> ap_network ap u"
  defines "h' \<equiv> snd (pf_sample memory_history ap clk u None h)"
  shows "sample_row ap clk u None \<in> set (pf_history memory_history clk' u interval None None (Some (ap_network ap u)) h')
    \<and> mset (pf_history memory_history clk' u' iv s e network h') = mset (pf_history memory_history clk' u' iv s e network h)
    \<and> sorted (map hr_ts (pf_history memory_history clk' u interval None None network h'))"
  unfolding h'_def
  using mem_hist.sample_visible [OF assms(1-3)] mem_hist.sample_private [OF assms(4)] mem_hist.history_sorted
  by blast

subsection \<open>State and distribution\<close>

definition marked :: "dec odict \<Rightarrow> position_hold \<Rightarrow> dec" where
  "marked marks h = (case map_of marks (ph_pair h) of None \<Rightarrow> 0 | Some m \<Rightarrow> unrealized_pnl h m)"

lemma add_holds_get:
  "map_of (foldl (add_hold marks) [] hs) cid = (let mine = filter (\<lambda>h. ph_controller h = cid) hs in
     if mine = [] then None
     else Some \<lparr>cp_realized = sum_list (map realized_pnl mine), cp_unrealized = sum_list (map (marked marks) mine),
       cp_fees = sum_list (map ph_fees mine), cp_net = 0, cp_open_executors = 0\<rparr>)"
proof (induction hs rule: rev_induct)
  case (snoc h hs)
  show ?case
  proof (cases "ph_controller h = cid")
    case True
    then show ?thesis using snoc
      by (auto simp: add_hold_def lookup_or_def zero_pnl_def marked_def Let_def
          simp del: map_of_eq_Some_iff split: option.splits)
  next
    case False
    then show ?thesis using snoc by (simp add: add_hold_def Let_def)
  qed
qed simp

lemma add_holds_distinct: "distinct (map fst (foldl (add_hold marks) d hs)) \<longleftrightarrow> distinct (map fst d)" if "distinct (map fst d)"
  using that by (induction hs arbitrary: d) (auto simp: add_hold_def Let_def)

lemma map_of_map_snd: "map_of (map (\<lambda>(k, v). (k, f k v)) d) k = map_option (f k) (map_of d k)"
  by (induction d) auto

text \<open>
  A law: the state of a portfolio. Every controller with a hold, and no other, has an entry.
  With a mark for each of its pairs, its net is the cash flow of its holds marked to market
  less their fees: grouping the holds by controller neither loses nor invents money. The open
  executors are those the executor repository counts.
\<close>

theorem portfolio_state_net:
  fixes ap :: account_provider and u :: int and cid :: string and holds :: "int \<Rightarrow> position_hold list"
  defines "mine \<equiv> filter (\<lambda>h. ph_controller h = cid) (holds u)"
  assumes "mine \<noteq> []"
    and "list_all (\<lambda>h. hold_ok h \<and> no_free_quote h \<and> map_of (ap_marks ap u) (ph_pair h) \<noteq> None) mine"
  shows "\<exists>agg. map_of (ps_per_controller (pf_state holds ap cnt u)) cid = Some agg
      \<and> cp_net agg = sum_list (map (\<lambda>h. ph_sell_quote h - ph_buy_quote h
          + net_amount_base h * lookup_or 0 (ap_marks ap u) (ph_pair h) - ph_fees h) mine)
      \<and> cp_realized agg = sum_list (map realized_pnl mine) \<and> cp_fees agg = sum_list (map ph_fees mine)
      \<and> cp_open_executors agg = cnt u cid
    \<and> set (map fst (ps_per_controller (pf_state holds ap cnt u))) = ph_controller ` set (holds u)
    \<and> distinct (map fst (ps_per_controller (pf_state holds ap cnt u)))"
proof -
  define M D where "M = ap_marks ap u" and "D = foldl (add_hold M) [] (holds u)"
  have pc: "ps_per_controller (pf_state holds ap cnt u) = map (\<lambda>(c, a). (c, finish_pnl (cnt u) c a)) D"
    by (simp add: pf_state_def Let_def D_def M_def)
  have D: "map_of D cid = Some \<lparr>cp_realized = sum_list (map realized_pnl mine), cp_unrealized = sum_list (map (marked M) mine),
       cp_fees = sum_list (map ph_fees mine), cp_net = 0, cp_open_executors = 0\<rparr>"
    using assms(2) by (simp add: D_def add_holds_get mine_def Let_def del: map_of_eq_Some_iff)
  have "sum_list (map realized_pnl hs) - sum_list (map ph_fees hs) + sum_list (map (marked M) hs)
      = sum_list (map (\<lambda>h. ph_sell_quote h - ph_buy_quote h
          + net_amount_base h * lookup_or 0 M (ph_pair h) - ph_fees h) hs)"
    if "list_all (\<lambda>h. hold_ok h \<and> no_free_quote h \<and> map_of M (ph_pair h) \<noteq> None) hs" for hs
    using that
  proof (induction hs)
    case (Cons h hs)
    then obtain m where "map_of M (ph_pair h) = Some m" "hold_ok h" "no_free_quote h" by auto
    then have "realized_pnl h + marked M h = ph_sell_quote h - ph_buy_quote h + net_amount_base h * lookup_or 0 M (ph_pair h)"
      using gross_pnl_cash_flow [of h m] by (simp add: marked_def lookup_or_def del: map_of_eq_Some_iff)
    with Cons show ?case by simp
  qed simp
  then have net: "sum_list (map realized_pnl mine) - sum_list (map ph_fees mine) + sum_list (map (marked M) mine)
      = sum_list (map (\<lambda>h. ph_sell_quote h - ph_buy_quote h
          + net_amount_base h * lookup_or 0 M (ph_pair h) - ph_fees h) mine)"
    using assms(3) by (simp add: M_def)
  have "c \<in> fst ` set D \<longleftrightarrow> c \<in> ph_controller ` set (holds u)" for c
    using add_holds_get [of M "holds u" c] map_of_eq_None_iff [of D c]
    by (auto simp: D_def Let_def filter_empty_conv split: if_splits)
  then have "fst ` set D = ph_controller ` set (holds u)" by blast
  moreover have "map fst (ps_per_controller (pf_state holds ap cnt u)) = map fst D"
    by (simp add: pc comp_def case_prod_unfold)
  ultimately have keys: "set (map fst (ps_per_controller (pf_state holds ap cnt u))) = ph_controller ` set (holds u)"
    by simp
  have "distinct (map fst (ps_per_controller (pf_state holds ap cnt u)))"
    using add_holds_distinct [of "[]" M "holds u"] by (simp add: pc D_def comp_def case_prod_unfold)
  then show ?thesis
    using D net keys unfolding pc map_of_map_snd
    by (simp add: finish_pnl_def M_def [symmetric] del: map_of_eq_Some_iff)
qed

text \<open>The value a token has over all accounts.\<close>

definition asset_value :: "string \<Rightarrow> accounts \<Rightarrow> dec" where
  "asset_value t accs = sum_list (map (\<lambda>tf. if fst tf = t then value_of (snd tf) else 0) (concat (map snd accs)))"

lemma od_set_sum:
  "distinct (map fst d) \<Longrightarrow> sum_list (map snd (od_set k v d)) = sum_list (map snd d) - lookup_or 0 d k + (v :: dec)"
proof (induction d)
  case (Cons p d)
  have "k \<notin> fst ` set d \<Longrightarrow> map_of d k = None" by (simp add: map_of_eq_None_iff)
  with Cons show ?case by (cases p) (auto simp: lookup_or_def)
qed (simp add: lookup_or_def)

lemma add_assets:
  "distinct (map fst d) \<Longrightarrow> distinct (map fst (foldl add_asset d fs))
    \<and> sum_list (map snd (foldl add_asset d fs)) = sum_list (map snd d) + sum_list (map (value_of \<circ> snd) fs)
    \<and> lookup_or 0 (foldl add_asset d fs) t
      = lookup_or 0 d t + sum_list (map (\<lambda>tf. if fst tf = t then value_of (snd tf) else 0) fs)"
proof (induction fs arbitrary: d)
  case (Cons tf fs)
  have "distinct (map fst (add_asset d tf))" using Cons.prems by (simp add: add_asset_def)
  moreover have "sum_list (map snd (add_asset d tf)) = sum_list (map snd d) + value_of (snd tf)"
    using Cons.prems by (simp add: add_asset_def od_set_sum)
  moreover have "lookup_or 0 (add_asset d tf) t = lookup_or 0 d t + (if fst tf = t then value_of (snd tf) else 0)"
    by (simp add: add_asset_def lookup_or_def)
  ultimately show ?case using Cons.IH [of "add_asset d tf"] by simp
qed simp

lemma by_asset_fold: "by_asset accs = foldl add_asset [] (concat (map snd accs))"
proof -
  have "foldl (foldl add_asset) d xs = foldl add_asset d (concat xs)" for d xs
    by (induction xs arbitrary: d) simp_all
  then show ?thesis by (simp add: by_asset_def)
qed

lemma total_concat: "total_value accs = sum_list (map (value_of \<circ> snd) (concat (map snd accs)))"
  by (induction accs) (simp_all add: total_value_def account_value_def comp_def)

lemma to_pct_sum: "0 < sum_list (map snd d) \<Longrightarrow> sum_list (map snd (to_pct d)) = 100"
proof -
  assume p: "0 < sum_list (map snd d)"
  have "sum_list (map (\<lambda>(k, v). v / T * 100) d) = sum_list (map snd d) / T * (100 :: dec)" for T
    by (induction d) (auto simp: add_divide_distrib distrib_right)
  with p show ?thesis by (simp add: to_pct_def Let_def comp_def case_prod_unfold)
qed

text \<open>
  A law: the distributions. When the accounts are worth something, the weights by asset and
  the weights by account each sum to 100, every asset is listed once, and its weight is its
  value over all accounts as a share of the total; an empty or negative total gives weights of
  zero.
\<close>

theorem portfolio_distribution:
  fixes ap :: account_provider and u :: int
  defines "T \<equiv> total_value (ap_accounts ap u)"
  shows "distinct (map fst (distribution ap u))
    \<and> (if 0 < T then sum_list (map snd (distribution ap u)) = 100
          \<and> sum_list (map snd (accounts_distribution ap u)) = 100
          \<and> lookup_or 0 (distribution ap u) t = 100 * asset_value t (ap_accounts ap u) / T
        else list_all (\<lambda>(k, w). w = 0) (distribution ap u @ accounts_distribution ap u))"
proof -
  define accs B where "accs = ap_accounts ap u" and "B = by_asset accs"
  have B: "distinct (map fst B)" "sum_list (map snd B) = T" "lookup_or 0 B t = asset_value t accs"
    using add_assets [of "[]" "concat (map snd accs)"]
    by (simp_all add: B_def by_asset_fold T_def accs_def total_concat asset_value_def lookup_or_def)
  have A: "sum_list (map snd (by_account accs)) = T"
    by (simp add: by_account_def T_def accs_def total_value_def comp_def case_prod_unfold)
  have dd: "distribution ap u = to_pct B" "accounts_distribution ap u = to_pct (by_account accs)"
    by (simp_all add: distribution_def accounts_distribution_def B_def accs_def)
  have "distinct (map fst (to_pct B))"
    using B(1) by (simp add: to_pct_def Let_def comp_def case_prod_unfold)
  moreover have "lookup_or 0 (to_pct B) t = 100 * asset_value t accs / T" if "0 < T"
    using that B(2,3) by (simp add: to_pct_def Let_def lookup_or_def map_of_map_snd split: option.splits)
  moreover have "list_all (\<lambda>(k, w). w = 0) (to_pct B @ to_pct (by_account accs))" if "\<not> 0 < T"
    using that A B(2) by (auto simp: to_pct_def Let_def list_all_iff)
  ultimately show ?thesis
    using to_pct_sum [of B] to_pct_sum [of "by_account accs"] A B(2) unfolding dd accs_def by simp
qed

subsection \<open>Concrete runs\<close>

definition demo_row :: "time \<Rightarrow> history_row" where
  "demo_row t = \<lparr>hr_user = 1, hr_ts = t, hr_total = 10, hr_by_account = [], hr_by_asset = [], hr_network = ''mainnet''\<rparr>"

theorem portfolio_retention_witness:
  "fst (mh_prune 864000 [demo_row 3600, demo_row 3660, demo_row 860000]) = 1
   \<and> mh_prune 864000 (snd (mh_prune 864000 [demo_row 3600, demo_row 3660, demo_row 860000]))
     = (0, snd (mh_prune 864000 [demo_row 3600, demo_row 3660, demo_row 860000]))"
proof -
  have n: "fst (mh_prune 864000 [demo_row 3600, demo_row 3660, demo_row 860000]) = 1" by code_simp
  obtain m rs where run: "mh_prune 864000 [demo_row 3600, demo_row 3660, demo_row 860000] = (m, rs)" by fastforce
  show ?thesis using portfolio_retention [OF run] n by (simp add: run)
qed

definition demo_provider :: account_provider where
  "demo_provider = memory_provider (ma_set 1 [(''spot'', [(''USDC'', [(''value'', 60)])]), (''perps'', [(''BTC'', [(''units'', 2), (''price'', 20)])])]
     (Some [(''BTC'', 110)]) None \<lparr>ma_accounts = [], ma_marks = [], ma_networks = []\<rparr>)"

theorem portfolio_sample_visible_witness:
  "sample_row demo_provider 100 1 None \<in> set (pf_history memory_history 200 1 ''24h'' None None (Some (ap_network demo_provider 1))
     (snd (pf_sample memory_history demo_provider 100 1 None [])))"
  using portfolio_sample_visible [of 100 200 "''24h''" 2 1 None "''x''" demo_provider "[]"] by (simp add: span_days_def)

definition demo_hold :: position_hold where
  "demo_hold = \<lparr>ph_user = 1, ph_pair = ''BTC'', ph_controller = ''c'', ph_buy_base = 3, ph_buy_quote = 300,
     ph_sell_base = 1, ph_sell_quote = 130, ph_fees = 2, ph_updated = 0\<rparr>"

theorem portfolio_state_net_witness:
  "map_option cp_net (map_of (ps_per_controller (pf_state (\<lambda>u. [demo_hold]) demo_provider (\<lambda>u c. 4) 1)) ''c'') = Some 48"
proof -
  have "map_of (ap_marks demo_provider 1) ''BTC'' = Some 110"
    by (simp add: demo_provider_def memory_provider_def ma_set_def lookup_or_def)
  then show ?thesis
    using portfolio_state_net [where ap = demo_provider and u = 1 and cid = "''c''" and holds = "\<lambda>u. [demo_hold]" and cnt = "\<lambda>u c. 4"]
    by (auto simp: demo_hold_def hold_ok_def no_free_quote_def net_amount_base_def lookup_or_def
        simp del: map_of_eq_Some_iff)
qed

end
