(* ===== verification/Desk_Plan.thy ===== *)
theory Desk_Plan
  imports Engine_Types
begin

text \<open>
  The desk's execution plans, from \<open>engine/desk_plan.py\<close>: the structured object between a
  user's text and the orders, its dictionary form, the deterministic validation every parsed
  plan passes, and the resolution of entry triggers at confirmation.

  A dictionary as JSON stores it is a \<open>jval\<close>. Python's \<open>float\<close> of a text and \<open>str\<close> of a value
  that is no text are the two functions of a \<open>py_text\<close>, arguments of what uses them. The
  texts of validation problems are constructors; log lines and card texts are left out.
\<close>

subsection \<open>Data\<close>

datatype jval = JNone | JBool bool | JNum rat | JStr string | JDict "(string \<times> jval) list"

record py_text =
  py_float :: "string \<Rightarrow> rat option"
  py_str :: "jval \<Rightarrow> string"

record entry_trigger =
  tr_kind :: string
  tr_price :: "dec option"
  tr_pct :: "dec option"
  tr_delay :: "dec option"
  tr_fire_at :: "time option"

record exit_plan =
  xp_tp_pct :: "dec option"
  xp_sl_pct :: "dec option"
  xp_tp_price :: "dec option"
  xp_sl_price :: "dec option"
  xp_trailing_pct :: "dec option"

record execution_plan =
  pl_algo :: string
  pl_market :: string
  pl_product :: "string option"
  pl_side :: "string option"
  pl_size_base :: "dec option"
  pl_size_quote :: "dec option"
  pl_limit_price :: "dec option"
  pl_leverage :: "int option"
  pl_duration :: "dec option"
  pl_interval :: "dec option"
  pl_exec_mode :: string
  pl_trigger :: "entry_trigger option"
  pl_exits :: "exit_plan option"
  pl_raw :: string
  pl_id :: string
  pl_created :: time

definition is_empty_exits :: "exit_plan \<Rightarrow> bool" where
  "is_empty_exits x \<longleftrightarrow> xp_tp_pct x = None \<and> xp_sl_pct x = None \<and> xp_tp_price x = None
     \<and> xp_sl_price x = None \<and> xp_trailing_pct x = None"

definition has_exits :: "execution_plan \<Rightarrow> bool" where
  "has_exits p \<longleftrightarrow> (case pl_exits p of None \<Rightarrow> False | Some x \<Rightarrow> \<not> is_empty_exits x)"

definition venue_pair :: "execution_plan \<Rightarrow> string" where
  "venue_pair p = (case pl_product p of None \<Rightarrow> ''None'' | Some s \<Rightarrow> s) @ ''-''
     @ (if pl_market p = ''perp'' then ''PERP'' else ''SPOT'')"

definition MAX_PLAN_DURATION_MINUTES :: dec where "MAX_PLAN_DURATION_MINUTES = 10080"
definition MAX_TRIGGER_WAIT_MINUTES :: dec where "MAX_TRIGGER_WAIT_MINUTES = 10080"
definition MIN_TWAP_DURATION_MINUTES :: dec where "MIN_TWAP_DURATION_MINUTES = 2"
definition MIN_TWAP_INTERVAL_SECONDS :: dec where "MIN_TWAP_INTERVAL_SECONDS = 10"
definition DEFAULT_TWAP_INTERVAL_SECONDS :: dec where "DEFAULT_TWAP_INTERVAL_SECONDS = 30"
definition MAX_TWAP_SLICES :: dec where "MAX_TWAP_SLICES = 2000"

lemmas plan_limits = MAX_PLAN_DURATION_MINUTES_def MAX_TRIGGER_WAIT_MINUTES_def MIN_TWAP_DURATION_MINUTES_def
  MIN_TWAP_INTERVAL_SECONDS_def DEFAULT_TWAP_INTERVAL_SECONDS_def MAX_TWAP_SLICES_def

definition twap_slices :: "execution_plan \<Rightarrow> int option" where
  "twap_slices p = (if pl_algo p \<noteq> ''twap'' \<or> or_dec (pl_duration p) 0 = 0 \<or> or_dec (pl_interval p) 0 = 0 then None
     else Some (max 1 \<lfloor>or_dec (pl_duration p) 0 * 60 / or_dec (pl_interval p) 0\<rfloor>))"

subsection \<open>Dictionaries\<close>

fun falsy :: "jval \<Rightarrow> bool" where
  "falsy JNone = True"
| "falsy (JBool b) = (\<not> b)"
| "falsy (JNum n) = (n = 0)"
| "falsy (JStr s) = (s = [])"
| "falsy (JDict d) = (d = [])"

definition jget :: "(string \<times> jval) list \<Rightarrow> string \<Rightarrow> jval" where
  "jget d k = (case map_of d k of None \<Rightarrow> JNone | Some v \<Rightarrow> v)"

fun opt_float :: "py_text \<Rightarrow> jval \<Rightarrow> dec option" where
  "opt_float py JNone = None"
| "opt_float py (JBool b) = Some (if b then 1 else 0)"
| "opt_float py (JNum n) = Some n"
| "opt_float py (JStr s) = (if s = [] then None else py_float py s)"
| "opt_float py (JDict d) = None"

definition int_trunc :: "dec \<Rightarrow> int" where
  "int_trunc x = (if 0 \<le> x then \<lfloor>x\<rfloor> else \<lceil>x\<rceil>)"

definition opt_int :: "py_text \<Rightarrow> jval \<Rightarrow> int option" where
  "opt_int py v = map_option int_trunc (opt_float py v)"

text \<open>\<open>str(v)\<close>, and \<open>str(v or dflt)\<close>.\<close>

definition jtext :: "py_text \<Rightarrow> jval \<Rightarrow> string" where
  "jtext py v = (case v of JStr s \<Rightarrow> s | _ \<Rightarrow> py_str py v)"

definition text_or :: "py_text \<Rightarrow> string \<Rightarrow> jval \<Rightarrow> string" where
  "text_or py dflt v = (if falsy v then dflt else jtext py v)"

definition jopt :: "dec option \<Rightarrow> jval" where
  "jopt v = (case v of None \<Rightarrow> JNone | Some x \<Rightarrow> JNum x)"

definition jstr_opt :: "string option \<Rightarrow> jval" where
  "jstr_opt v = (case v of None \<Rightarrow> JNone | Some s \<Rightarrow> JStr s)"

definition trigger_to_dict :: "entry_trigger \<Rightarrow> (string \<times> jval) list" where
  "trigger_to_dict t = [(''kind'', JStr (tr_kind t)), (''price'', jopt (tr_price t)), (''pct'', jopt (tr_pct t)),
     (''delay_minutes'', jopt (tr_delay t)), (''fire_at_ts'', jopt (tr_fire_at t))]"

definition trigger_from_dict :: "py_text \<Rightarrow> (string \<times> jval) list \<Rightarrow> entry_trigger" where
  "trigger_from_dict py d = \<lparr>tr_kind = text_or py [] (jget d ''kind''), tr_price = opt_float py (jget d ''price''),
     tr_pct = opt_float py (jget d ''pct''), tr_delay = opt_float py (jget d ''delay_minutes''),
     tr_fire_at = opt_float py (jget d ''fire_at_ts'')\<rparr>"

definition exits_to_dict :: "exit_plan \<Rightarrow> (string \<times> jval) list" where
  "exits_to_dict x = [(''tp_pct'', jopt (xp_tp_pct x)), (''sl_pct'', jopt (xp_sl_pct x)),
     (''tp_price'', jopt (xp_tp_price x)), (''sl_price'', jopt (xp_sl_price x)),
     (''trailing_pct'', jopt (xp_trailing_pct x))]"

definition exits_from_dict :: "py_text \<Rightarrow> (string \<times> jval) list \<Rightarrow> exit_plan" where
  "exits_from_dict py d = \<lparr>xp_tp_pct = opt_float py (jget d ''tp_pct''), xp_sl_pct = opt_float py (jget d ''sl_pct''),
     xp_tp_price = opt_float py (jget d ''tp_price''), xp_sl_price = opt_float py (jget d ''sl_price''),
     xp_trailing_pct = opt_float py (jget d ''trailing_pct'')\<rparr>"

definition plan_to_dict :: "execution_plan \<Rightarrow> (string \<times> jval) list" where
  "plan_to_dict p = [(''plan_id'', JStr (pl_id p)), (''algo'', JStr (pl_algo p)), (''market'', JStr (pl_market p)),
     (''product'', jstr_opt (pl_product p)), (''side'', jstr_opt (pl_side p)),
     (''size_base'', jopt (pl_size_base p)), (''size_quote'', jopt (pl_size_quote p)),
     (''limit_price'', jopt (pl_limit_price p)), (''leverage'', jopt (map_option of_int (pl_leverage p))),
     (''duration_minutes'', jopt (pl_duration p)), (''interval_seconds'', jopt (pl_interval p)),
     (''exec_mode'', JStr (pl_exec_mode p)),
     (''entry_trigger'', case pl_trigger p of None \<Rightarrow> JNone | Some t \<Rightarrow> JDict (trigger_to_dict t)),
     (''exits'', case pl_exits p of None \<Rightarrow> JNone | Some x \<Rightarrow> JDict (exits_to_dict x)),
     (''raw_text'', JStr (pl_raw p)), (''created_ts'', JNum (pl_created p))]"

definition upper_strip :: "string \<Rightarrow> string" where
  "upper_strip s = strip_str (upper_str s)"

text \<open>
  \<open>uid\<close> is the fresh identifier and \<open>now\<close> the clock a record without them gets. A
  \<open>created_ts\<close> that is no number raises.
\<close>

definition plan_from_dict :: "py_text \<Rightarrow> string \<Rightarrow> time \<Rightarrow> (string \<times> jval) list \<Rightarrow> execution_plan option" where
  "plan_from_dict py uid now d =
     (case (if falsy (jget d ''created_ts'') then Some now else opt_float py (jget d ''created_ts'')) of
        None \<Rightarrow> None
      | Some created \<Rightarrow> Some
         \<lparr>pl_algo = lower_str (text_or py ''market'' (jget d ''algo'')),
          pl_market = lower_str (text_or py ''spot'' (jget d ''market'')),
          pl_product = (if falsy (jget d ''product'') then None else Some (upper_strip (jtext py (jget d ''product'')))),
          pl_side = (if falsy (jget d ''side'') then None else Some (strip_str (lower_str (jtext py (jget d ''side''))))),
          pl_size_base = opt_float py (jget d ''size_base''), pl_size_quote = opt_float py (jget d ''size_quote''),
          pl_limit_price = opt_float py (jget d ''limit_price''), pl_leverage = opt_int py (jget d ''leverage''),
          pl_duration = opt_float py (jget d ''duration_minutes''),
          pl_interval = opt_float py (jget d ''interval_seconds''),
          pl_exec_mode = lower_str (text_or py ''taker'' (jget d ''exec_mode'')),
          pl_trigger = (case jget d ''entry_trigger'' of JDict t \<Rightarrow> Some (trigger_from_dict py t) | _ \<Rightarrow> None),
          pl_exits = (case jget d ''exits'' of JDict x \<Rightarrow> Some (exits_from_dict py x) | _ \<Rightarrow> None),
          pl_raw = text_or py [] (jget d ''raw_text''),
          pl_id = text_or py uid (jget d ''plan_id''), pl_created = created\<rparr>)"

subsection \<open>Validation\<close>

datatype plan_problem =
    P_Algo | P_Market | P_Side | P_ExecMode | P_NoProduct | P_NoPerpMarket | P_UnknownPerp | P_NoSpotMarket
  | P_UnknownSpot | P_NoSize | P_SizePositive | P_QuotePositive | P_BothSizes | P_MinBase | P_MinQuote
  | P_SpotLeverage | P_SpotTrailing | P_LeverageLow | P_LeverageHigh | P_LimitPrice | P_TwapShort | P_TwapLong
  | P_TwapInterval | P_TwapSlices | P_TwapLimit | P_TriggerKind | P_TriggerPrice | P_TriggerPct | P_TriggerPctRange
  | P_TriggerDelay | P_TriggerFar | P_TpPct | P_SlPct | P_TrailPct | P_TpPrice | P_SlPrice | P_TpBoth | P_SlBoth
  | P_SpotSellExits

definition when_l :: "bool \<Rightarrow> 'a \<Rightarrow> 'a list" where
  "when_l b x = (if b then [x] else [])"

definition product_problems :: "string list \<Rightarrow> string list \<Rightarrow> execution_plan \<Rightarrow> plan_problem list" where
  "product_problems perps spots p = (let prod = (case pl_product p of None \<Rightarrow> [] | Some s \<Rightarrow> s) in
     if prod = [] then [P_NoProduct]
     else if pl_market p = ''perp'' \<and> prod \<notin> set perps
     then (if prod \<in> set spots then [P_NoPerpMarket] else [P_UnknownPerp])
     else if pl_market p = ''spot'' \<and> prod \<notin> set spots
     then (if prod \<in> set perps then [P_NoSpotMarket] else [P_UnknownSpot])
     else [])"

definition size_problems :: "dec option \<Rightarrow> dec \<Rightarrow> execution_plan \<Rightarrow> plan_problem list" where
  "size_problems mid min_notional p =
     (if pl_size_base p = None \<and> pl_size_quote p = None then [P_NoSize]
      else when_l (case pl_size_base p of None \<Rightarrow> False | Some b \<Rightarrow> b \<le> 0) P_SizePositive
         @ when_l (case pl_size_quote p of None \<Rightarrow> False | Some q \<Rightarrow> q \<le> 0) P_QuotePositive
         @ when_l (pl_size_base p \<noteq> None \<and> pl_size_quote p \<noteq> None) P_BothSizes)
     @ when_l (or_dec mid 0 \<noteq> 0 \<and> (case pl_size_base p of None \<Rightarrow> False | Some b \<Rightarrow> b * or_dec mid 0 < min_notional)) P_MinBase
     @ when_l (case pl_size_quote p of None \<Rightarrow> False | Some q \<Rightarrow> q < min_notional) P_MinQuote"

definition market_problems :: "int option \<Rightarrow> execution_plan \<Rightarrow> plan_problem list" where
  "market_problems max_leverage p =
     (if pl_market p = ''spot''
      then when_l (case pl_leverage p of None \<Rightarrow> False | Some l \<Rightarrow> l > 1) P_SpotLeverage
         @ when_l (case pl_exits p of None \<Rightarrow> False | Some x \<Rightarrow> xp_trailing_pct x \<noteq> None) P_SpotTrailing
      else case pl_leverage p of None \<Rightarrow> []
        | Some l \<Rightarrow> if l < 1 then [P_LeverageLow]
            else when_l (case max_leverage of None \<Rightarrow> False | Some m \<Rightarrow> m \<noteq> 0 \<and> l > m) P_LeverageHigh)"

definition algo_problems :: "execution_plan \<Rightarrow> plan_problem list" where
  "algo_problems p =
     when_l (pl_algo p = ''limit'' \<and> (case pl_limit_price p of None \<Rightarrow> True | Some x \<Rightarrow> x \<le> 0)) P_LimitPrice
     @ (if pl_algo p \<noteq> ''twap'' then [] else let dur = or_dec (pl_duration p) 0;
           interval = or_dec (pl_interval p) DEFAULT_TWAP_INTERVAL_SECONDS in
         (if dur < MIN_TWAP_DURATION_MINUTES then [P_TwapShort]
          else when_l (dur > MAX_PLAN_DURATION_MINUTES) P_TwapLong)
         @ (if interval < MIN_TWAP_INTERVAL_SECONDS then [P_TwapInterval]
            else when_l (dur \<noteq> 0 \<and> dur * 60 / interval > MAX_TWAP_SLICES) P_TwapSlices)
         @ when_l (pl_limit_price p \<noteq> None) P_TwapLimit)"

definition trigger_problems :: "entry_trigger \<Rightarrow> plan_problem list" where
  "trigger_problems t =
     (if tr_kind t \<notin> {''price_above'', ''price_below'', ''price_cross'', ''pct_move'', ''time''} then [P_TriggerKind]
      else if tr_kind t = ''pct_move''
      then (if or_dec (tr_pct t) 0 = 0 then [P_TriggerPct] else when_l (\<bar>or_dec (tr_pct t) 0\<bar> > 50) P_TriggerPctRange)
      else if tr_kind t = ''time''
      then (if (case tr_delay t of None \<Rightarrow> True | Some x \<Rightarrow> x \<le> 0) \<and> or_dec (tr_fire_at t) 0 = 0 then [P_TriggerDelay]
            else when_l (case tr_delay t of None \<Rightarrow> False | Some x \<Rightarrow> x > MAX_TRIGGER_WAIT_MINUTES) P_TriggerFar)
      else when_l (case tr_price t of None \<Rightarrow> True | Some x \<Rightarrow> x \<le> 0) P_TriggerPrice)"

definition bad_pct :: "dec option \<Rightarrow> bool" where
  "bad_pct v = (case v of None \<Rightarrow> False | Some x \<Rightarrow> \<not> (0 < x \<and> x \<le> 100))"

definition bad_price :: "dec option \<Rightarrow> bool" where
  "bad_price v = (case v of None \<Rightarrow> False | Some x \<Rightarrow> x \<le> 0)"

definition exit_problems :: "execution_plan \<Rightarrow> plan_problem list" where
  "exit_problems p = (case pl_exits p of None \<Rightarrow> [] | Some x \<Rightarrow> if is_empty_exits x then [] else
     when_l (bad_pct (xp_tp_pct x)) P_TpPct @ when_l (bad_pct (xp_sl_pct x)) P_SlPct
     @ when_l (bad_pct (xp_trailing_pct x)) P_TrailPct
     @ when_l (bad_price (xp_tp_price x)) P_TpPrice @ when_l (bad_price (xp_sl_price x)) P_SlPrice
     @ when_l (xp_tp_pct x \<noteq> None \<and> xp_tp_price x \<noteq> None) P_TpBoth
     @ when_l (xp_sl_pct x \<noteq> None \<and> xp_sl_price x \<noteq> None) P_SlBoth
     @ when_l (pl_market p = ''spot'' \<and> pl_side p = Some ''sell'') P_SpotSellExits)"

definition validate_plan :: "string list \<Rightarrow> string list \<Rightarrow> int option \<Rightarrow> dec option \<Rightarrow> dec \<Rightarrow> execution_plan \<Rightarrow> plan_problem list" where
  "validate_plan perps spots max_leverage mid min_notional p =
     when_l (pl_algo p \<notin> {''market'', ''limit'', ''twap''}) P_Algo
     @ when_l (pl_market p \<notin> {''spot'', ''perp''}) P_Market
     @ when_l (pl_side p \<notin> {Some ''buy'', Some ''sell''}) P_Side
     @ when_l (pl_exec_mode p \<notin> {''taker'', ''maker''}) P_ExecMode
     @ product_problems perps spots p @ size_problems mid min_notional p @ market_problems max_leverage p
     @ algo_problems p @ (case pl_trigger p of None \<Rightarrow> [] | Some t \<Rightarrow> trigger_problems t) @ exit_problems p"

subsection \<open>Triggers\<close>

definition absolute_trigger :: "string \<Rightarrow> dec option \<Rightarrow> dec option \<Rightarrow> dec option \<Rightarrow> time option \<Rightarrow> entry_trigger" where
  "absolute_trigger k price pct delay fire =
     \<lparr>tr_kind = k, tr_price = price, tr_pct = pct, tr_delay = delay, tr_fire_at = fire\<rparr>"

definition resolve_trigger :: "dec \<Rightarrow> time \<Rightarrow> entry_trigger \<Rightarrow> entry_trigger" where
  "resolve_trigger arrival_mid now t =
     (if tr_kind t = ''pct_move'' \<and> or_dec (tr_pct t) 0 \<noteq> 0
      then absolute_trigger (if or_dec (tr_pct t) 0 > 0 then ''price_above'' else ''price_below'')
             (Some (arrival_mid * (1 + or_dec (tr_pct t) 0 / 100))) (tr_pct t) None None
      else if tr_kind t = ''price_cross'' \<and> or_dec (tr_price t) 0 \<noteq> 0
      then absolute_trigger (if or_dec (tr_price t) 0 \<ge> arrival_mid then ''price_above'' else ''price_below'')
             (tr_price t) None None None
      else if tr_kind t = ''time'' \<and> tr_fire_at t = None \<and> or_dec (tr_delay t) 0 \<noteq> 0
      then absolute_trigger ''time'' None None (tr_delay t) (Some (now + or_dec (tr_delay t) 0 * 60))
      else t)"

definition trigger_satisfied :: "entry_trigger option \<Rightarrow> dec \<Rightarrow> time \<Rightarrow> bool" where
  "trigger_satisfied tr mid now = (case tr of None \<Rightarrow> True | Some t \<Rightarrow>
     if tr_kind t = ''price_above'' then (case tr_price t of None \<Rightarrow> False | Some x \<Rightarrow> mid \<ge> x)
     else if tr_kind t = ''price_below'' then (case tr_price t of None \<Rightarrow> False | Some x \<Rightarrow> 0 < mid \<and> mid \<le> x)
     else if tr_kind t = ''time'' then (case tr_fire_at t of None \<Rightarrow> False | Some x \<Rightarrow> now \<ge> x)
     else False)"

subsection \<open>Laws\<close>

text \<open>The normal form every plan has once it has been read from a dictionary.\<close>

definition plan_normal :: "execution_plan \<Rightarrow> bool" where
  "plan_normal p \<longleftrightarrow> pl_id p \<noteq> [] \<and> pl_created p \<noteq> 0
     \<and> list_all (\<lambda>s. s \<noteq> [] \<and> lower_str s = s) [pl_algo p, pl_market p, pl_exec_mode p]
     \<and> (case pl_product p of None \<Rightarrow> True | Some s \<Rightarrow> s \<noteq> [] \<and> upper_strip s = s)
     \<and> (case pl_side p of None \<Rightarrow> True | Some s \<Rightarrow> s \<noteq> [] \<and> strip_str (lower_str s) = s)"

lemma jget_simps [simp]: "jget [] k = JNone" "jget ((k', v) # d) k = (if k' = k then v else jget d k)"
  by (simp_all add: jget_def)

lemma opt_float_jopt [simp]: "opt_float py (jopt v) = v"
  by (cases v) (simp_all add: jopt_def)

lemma opt_int_jopt [simp]: "opt_int py (jopt (map_option of_int v)) = v"
  by (cases v) (simp_all add: jopt_def opt_int_def int_trunc_def)

lemma trigger_roundtrip: "trigger_from_dict py (trigger_to_dict t) = t"
  by (simp add: trigger_from_dict_def trigger_to_dict_def text_or_def jtext_def)

lemma exits_roundtrip: "exits_from_dict py (exits_to_dict x) = x"
  by (simp add: exits_from_dict_def exits_to_dict_def)

text \<open>
  Claim C25: plans survive storage. A plan in normal form, its trigger and its exits included,
  is read back from the dictionary it is stored as exactly as it was, on any later day and
  whatever the text conversions do.
\<close>

theorem plan_dict_roundtrip:
  assumes "plan_normal p"
  shows "plan_from_dict py uid now (plan_to_dict p) = Some p"
proof -
  have d: "jget (plan_to_dict p) k = (case map_of (plan_to_dict p) k of None \<Rightarrow> JNone | Some v \<Rightarrow> v)" for k
    by (simp add: jget_def)
  have "falsy (jstr_opt v) \<longleftrightarrow> v = None \<or> v = Some []" "v \<noteq> None \<Longrightarrow> jtext py (jstr_opt v) = the v" for v
    by (cases v; simp add: jstr_opt_def jtext_def)+
  then show ?thesis
    using assms unfolding plan_from_dict_def
    by (simp add: plan_to_dict_def plan_normal_def text_or_def jtext_def trigger_roundtrip exits_roundtrip
        split: option.splits)
qed

theorem plan_dict_roundtrip_witness:
  "plan_from_dict \<lparr>py_float = \<lambda>_. None, py_str = \<lambda>_. []\<rparr> ''u'' 5
    (plan_to_dict \<lparr>pl_algo = ''twap'', pl_market = ''perp'', pl_product = Some ''BTC'', pl_side = Some ''buy'',
      pl_size_base = None, pl_size_quote = Some 500, pl_limit_price = None, pl_leverage = Some 3, pl_duration = Some 10,
      pl_interval = Some 30, pl_exec_mode = ''maker'', pl_trigger = None, pl_exits = None, pl_raw = ''x'', pl_id = ''p'',
      pl_created = 7\<rparr>) \<noteq> None"
proof -
  have "plan_normal \<lparr>pl_algo = ''twap'', pl_market = ''perp'', pl_product = Some ''BTC'', pl_side = Some ''buy'',
      pl_size_base = None, pl_size_quote = Some 500, pl_limit_price = None, pl_leverage = Some 3, pl_duration = Some 10,
      pl_interval = Some 30, pl_exec_mode = ''maker'', pl_trigger = None, pl_exits = None, pl_raw = ''x'', pl_id = ''p'',
      pl_created = 7\<rparr>" by code_simp
  then show ?thesis by (subst plan_dict_roundtrip) simp_all
qed

text \<open>
  A law: what confirming a trigger pins down. Against a positive arrival price a percent
  move fires exactly when the price has moved that far from the arrival price in that
  direction, a crossing exactly when the level is reached from the side the price was on, and a
  delay exactly from its instant on; resolving again, at any later price and time, changes
  nothing.
\<close>

theorem trigger_resolution:
  fixes t :: entry_trigger and arrival :: dec and now :: time
  assumes "0 < arrival" "trigger_problems t = []" "0 < mid"
  defines "r \<equiv> resolve_trigger arrival now t"
  shows "(tr_kind t = ''pct_move'' \<longrightarrow> tr_pct t = Some pct \<longrightarrow>
        (trigger_satisfied (Some r) mid ts \<longleftrightarrow>
          (if 0 < pct then pct \<le> (mid - arrival) / arrival * 100 else (mid - arrival) / arrival * 100 \<le> pct)))
    \<and> (tr_kind t = ''price_cross'' \<longrightarrow> tr_price t = Some level \<longrightarrow>
        (trigger_satisfied (Some r) mid ts \<longleftrightarrow> (if arrival \<le> level then level \<le> mid else mid \<le> level)))
    \<and> (tr_kind t = ''time'' \<longrightarrow> tr_fire_at t = None \<longrightarrow> tr_delay t = Some mins \<longrightarrow>
        (trigger_satisfied (Some r) mid ts \<longleftrightarrow> now + mins * 60 \<le> ts))
    \<and> resolve_trigger arrival' now' r = r"
proof (intro conjI impI)
  assume k: "tr_kind t = ''pct_move''" "tr_pct t = Some pct"
  with assms(2) have "pct \<noteq> 0" by (auto simp: trigger_problems_def)
  moreover have "arrival * (1 + pct / 100) \<le> mid \<longleftrightarrow> pct \<le> (mid - arrival) / arrival * 100"
    "mid \<le> arrival * (1 + pct / 100) \<longleftrightarrow> (mid - arrival) / arrival * 100 \<le> pct"
    using assms(1) by (simp_all add: field_simps)
  ultimately show "trigger_satisfied (Some r) mid ts \<longleftrightarrow>
      (if 0 < pct then pct \<le> (mid - arrival) / arrival * 100 else (mid - arrival) / arrival * 100 \<le> pct)"
    using k assms(3) by (simp add: r_def resolve_trigger_def trigger_satisfied_def absolute_trigger_def)
next
  assume k: "tr_kind t = ''price_cross''" "tr_price t = Some level"
  with assms(2) have "0 < level" by (auto simp: trigger_problems_def when_l_def split: if_splits)
  then show "trigger_satisfied (Some r) mid ts \<longleftrightarrow> (if arrival \<le> level then level \<le> mid else mid \<le> level)"
    using k assms(3) by (simp add: r_def resolve_trigger_def trigger_satisfied_def absolute_trigger_def)
next
  assume k: "tr_kind t = ''time''" "tr_fire_at t = None" "tr_delay t = Some mins"
  with assms(2) have "0 < mins" by (auto simp: trigger_problems_def when_l_def split: if_splits)
  then show "trigger_satisfied (Some r) mid ts \<longleftrightarrow> now + mins * 60 \<le> ts"
    using k by (simp add: r_def resolve_trigger_def trigger_satisfied_def absolute_trigger_def)
next
  show "resolve_trigger arrival' now' r = r"
    unfolding r_def resolve_trigger_def absolute_trigger_def by (auto split: if_splits)
qed

theorem trigger_resolution_witness:
  "trigger_satisfied (Some (resolve_trigger 100 0 (absolute_trigger ''pct_move'' None (Some (- 2)) None None))) 98 0
   \<and> \<not> trigger_satisfied (Some (resolve_trigger 100 0 (absolute_trigger ''pct_move'' None (Some (- 2)) None None))) 99 0"
  using trigger_resolution [of 100 "absolute_trigger ''pct_move'' None (Some (- 2)) None None" 98 "- 2" 0 0]
    trigger_resolution [of 100 "absolute_trigger ''pct_move'' None (Some (- 2)) None None" 99 "- 2" 0 0]
  by (simp add: trigger_problems_def absolute_trigger_def when_l_def)

end
