(* ===== verification/Desk.thy ===== *)
theory Desk
  imports Desk_Plan Orchestrator
begin

text \<open>
  The desk controller, from \<open>engine/controllers/desk.py\<close>: it runs a user's confirmed plans
  through waiting for the trigger, the entry leg, the exit watch and the exit, on the
  orchestrator and the executors of the other theories, and checkpoints its progress so that a
  restart neither loses a plan nor fires an order twice.

  The plan store is the database behind four injected coroutines: a record of programs over an
  abstract store state; the market-hours feed is a fifth. A \<open>_PlanRun\<close> object is the entry of
  its plan in \<open>_runs\<close>. Texts written with \<open>str(Decimal)\<close> and read back with \<open>Decimal(text)\<close>
  are the decimal itself; fresh executor identifiers come from the stream \<open>kc_uuid\<close>.
\<close>

subsection \<open>State\<close>

datatype plan_phase = PH_WAITING | PH_ENTRY | PH_SUSPENDED | PH_EXIT_WATCH | PH_EXITING

record plan_run =
  rn_plan :: execution_plan
  rn_phase :: plan_phase
  rn_entry :: "string option"
  rn_exit :: "string option"
  rn_base :: dec
  rn_quote :: dec
  rn_fees :: dec
  rn_target :: dec
  rn_deadline :: time
  rn_started :: bool
  rn_done :: bool
  rn_reason :: string
  rn_pending :: string
  rn_hwm :: "dec option"
  rn_lwm :: "dec option"
  rn_notified :: "int list"
  rn_dirty :: bool

definition new_run :: "execution_plan \<Rightarrow> plan_run" where
  "new_run p = \<lparr>rn_plan = p, rn_phase = PH_WAITING, rn_entry = None, rn_exit = None, rn_base = 0, rn_quote = 0,
     rn_fees = 0, rn_target = 0, rn_deadline = 0, rn_started = False, rn_done = False, rn_reason = [],
     rn_pending = [], rn_hwm = None, rn_lwm = None, rn_notified = [], rn_dirty = True\<rparr>"

record checkpoint =
  ck_phase :: plan_phase
  ck_started :: bool
  ck_done :: bool
  ck_base :: dec
  ck_quote :: dec
  ck_fees :: dec
  ck_target :: dec
  ck_deadline :: time
  ck_hwm :: "dec option"
  ck_lwm :: "dec option"
  ck_reason :: string
  ck_notified :: "int list"

definition no_checkpoint :: checkpoint where
  "no_checkpoint = \<lparr>ck_phase = PH_WAITING, ck_started = False, ck_done = False, ck_base = 0, ck_quote = 0,
     ck_fees = 0, ck_target = 0, ck_deadline = 0, ck_hwm = None, ck_lwm = None, ck_reason = [], ck_notified = []\<rparr>"

record plan_rec =
  pr_plan :: execution_plan
  pr_status :: string
  pr_state :: "checkpoint option"

record 'p desk_store =
  ds_plans :: "('p, plan_rec list) prog"
  ds_claim :: "string \<Rightarrow> ('p, bool) prog"
  ds_finish :: "string \<Rightarrow> string \<Rightarrow> string option \<Rightarrow> ('p, unit) prog"
  ds_checkpoint :: "string \<Rightarrow> checkpoint \<Rightarrow> ('p, unit) prog"
  ds_spot_open :: "(string option \<Rightarrow> ('p, bool) prog) option"

record desk_event =
  de_kind :: string
  de_plan :: string
  de_extra :: "(string \<times> jval) list"

record ('v, 'k, 'c, 'p) desk =
  dk_runs :: "plan_run odict"
  dk_events :: "desk_event list"
  dk_mids :: "dec odict"
  dk_uid :: nat
  dk_orch :: "('v, 'k, 'c) orch"
  dk_store :: 'p

record ('v, 'k, 'p) desk_cfg =
  kc_deps :: "('v, 'k) deps"
  kc_user :: int
  kc_id :: string
  kc_has_inv :: bool
  kc_store :: "'p desk_store"
  kc_uuid :: "nat \<Rightarrow> string"

type_synonym ('v, 'k, 'c, 'p, 'a) dprog = "(('v, 'k, 'c, 'p) desk, 'a) prog"

definition LIMIT_ENTRY_TTL_SECONDS :: time where "LIMIT_ENTRY_TTL_SECONDS = 604800"
definition PROGRESS_MARKS :: "int list" where "PROGRESS_MARKS = [25, 50, 75]"

subsection \<open>Helpers\<close>

definition in_orch :: "('v, 'k, 'c, 'a) oprog \<Rightarrow> ('v, 'k, 'c, 'p, 'a) dprog" where
  "in_orch p = (\<lambda>s. case p (dk_orch s) of (r, w) \<Rightarrow> (r, s\<lparr>dk_orch := w\<rparr>))"

definition in_store :: "('p, 'a) prog \<Rightarrow> ('v, 'k, 'c, 'p, 'a) dprog" where
  "in_store p = (\<lambda>s. case p (dk_store s) of (r, w) \<Rightarrow> (r, s\<lparr>dk_store := w\<rparr>))"

definition in_venue :: "('v, 'a) prog \<Rightarrow> ('v, 'k, 'c, 'p, 'a) dprog" where
  "in_venue p = in_orch (\<lambda>o1. case p (env_venue (or_env o1)) of
     (r, v) \<Rightarrow> (r, o1\<lparr>or_env := (or_env o1)\<lparr>env_venue := v\<rparr>\<rparr>))"

definition desk_now :: "('v, 'k, 'p) desk_cfg \<Rightarrow> ('v, 'k, 'c, 'p, time) dprog" where
  "desk_now kc = getsP (\<lambda>s. o_now (kc_deps kc) (dk_orch s))"

definition desk_emit :: "string \<Rightarrow> execution_plan \<Rightarrow> (string \<times> jval) list \<Rightarrow> ('v, 'k, 'c, 'p, unit) dprog" where
  "desk_emit kind p extra = modifyP (\<lambda>s. s\<lparr>dk_events := dk_events s
     @ [\<lparr>de_kind = kind, de_plan = pl_id p, de_extra = extra\<rparr>]\<rparr>)"

definition consume_desk_events :: "('v, 'k, 'c, 'p, desk_event list) dprog" where
  "consume_desk_events = bindP (getsP dk_events) (\<lambda>evs. thenP (modifyP (\<lambda>s. s\<lparr>dk_events := []\<rparr>)) (ret evs))"

text \<open>The run of a plan: a read and an update of its object, and its removal.\<close>

definition with_run :: "string \<Rightarrow> (plan_run \<Rightarrow> ('v, 'k, 'c, 'p, unit) dprog) \<Rightarrow> ('v, 'k, 'c, 'p, unit) dprog" where
  "with_run pid f = bindP (getsP (\<lambda>s. map_of (dk_runs s) pid)) (\<lambda>r. case r of None \<Rightarrow> ret () | Some x \<Rightarrow> f x)"

definition upd_run :: "string \<Rightarrow> (plan_run \<Rightarrow> plan_run) \<Rightarrow> ('v, 'k, 'c, 'p, unit) dprog" where
  "upd_run pid f = modifyP (\<lambda>s. case map_of (dk_runs s) pid of None \<Rightarrow> s
     | Some x \<Rightarrow> s\<lparr>dk_runs := od_set pid (f x) (dk_runs s)\<rparr>)"

definition pop_run :: "string \<Rightarrow> ('v, 'k, 'c, 'p, unit) dprog" where
  "pop_run pid = modifyP (\<lambda>s. s\<lparr>dk_runs := od_pop pid (dk_runs s)\<rparr>)"

text \<open>\<open>filled_base\<close> or \<open>_recorded_base\<close>, whichever attribute the executor's class has.\<close>

fun exec_filled :: "engine_executor \<Rightarrow> dec \<times> dec" where
  "exec_filled (EX_Order x) = (oe_rec_base x, oe_rec_quote x)"
| "exec_filled (EX_RGrid x) = (oe_rec_base x, oe_rec_quote x)"
| "exec_filled (EX_Twap x) = (tw_base x, tw_quote x)"
| "exec_filled (EX_Dca x) = (dca_base x, dca_quote x)"
| "exec_filled (EX_Position x) = (0, 0)"
| "exec_filled (EX_Grid x) = (0, 0)"

definition exec_fees :: "engine_executor \<Rightarrow> dec" where
  "exec_fees x = ex_fees (ee_base x)"

definition desk_executor :: "string option \<Rightarrow> ('v, 'k, 'c) orch \<Rightarrow> engine_executor option" where
  "desk_executor xid w = (case xid of None \<Rightarrow> None | Some i \<Rightarrow> map_of (or_executors w) i)"

definition executor_totals :: "('v, 'k, 'c) orch \<Rightarrow> plan_run \<Rightarrow> dec \<times> dec \<times> dec" where
  "executor_totals w r = (case desk_executor (rn_entry r) w of
     None \<Rightarrow> (rn_base r, rn_quote r, rn_fees r)
   | Some x \<Rightarrow> (rn_base r + fst (exec_filled x), rn_quote r + snd (exec_filled x), rn_fees r + exec_fees x))"

definition state_dict :: "('v, 'k, 'c) orch \<Rightarrow> plan_run \<Rightarrow> checkpoint" where
  "state_dict w r = (case executor_totals w r of (base, quote, fees) \<Rightarrow>
     \<lparr>ck_phase = rn_phase r, ck_started = rn_started r, ck_done = rn_done r, ck_base = base, ck_quote = quote,
      ck_fees = fees, ck_target = rn_target r, ck_deadline = rn_deadline r, ck_hwm = rn_hwm r, ck_lwm = rn_lwm r,
      ck_reason = rn_reason r, ck_notified = rn_notified r\<rparr>)"

definition save_run :: "('v, 'k, 'p) desk_cfg \<Rightarrow> string \<Rightarrow> ('v, 'k, 'c, 'p, unit) dprog" where
  "save_run kc pid = with_run pid (\<lambda>r. bindP (getsP (\<lambda>s. state_dict (dk_orch s) r)) (\<lambda>ck.
     in_store (ds_checkpoint (kc_store kc) pid ck)))"

definition desk_mid :: "('v, 'k, 'p) desk_cfg \<Rightarrow> string \<Rightarrow> ('v, 'k, 'c, 'p, dec option) dprog" where
  "desk_mid kc pair = bindP (getsP (\<lambda>s. map_of (dk_mids s) pair)) (\<lambda>c. case c of
     Some m \<Rightarrow> ret (Some m)
   | None \<Rightarrow> bindP (tryP (bindP (in_venue (va_mid (dp_api (kc_deps kc)) pair)) (\<lambda>m. ret (Some m))) (\<lambda>_. ret None))
      (\<lambda>r. case r of
         Some m \<Rightarrow> if 0 < m then thenP (modifyP (\<lambda>s. s\<lparr>dk_mids := od_set pair m (dk_mids s)\<rparr>)) (ret (Some m)) else ret None
       | None \<Rightarrow> ret None))"

definition market_open :: "('v, 'k, 'p) desk_cfg \<Rightarrow> execution_plan \<Rightarrow> ('v, 'k, 'c, 'p, bool) dprog" where
  "market_open kc p = (case ds_spot_open (kc_store kc) of
     None \<Rightarrow> ret True
   | Some f \<Rightarrow> if pl_market p \<noteq> ''spot'' then ret True
      else tryP (in_store (f (pl_product p))) (\<lambda>_. ret True))"

definition entry_side :: "execution_plan \<Rightarrow> trade_type" where
  "entry_side p = (if pl_side p = Some ''buy'' then BUY else SELL)"

subsection \<open>Terminal steps\<close>

definition run_vwap :: "plan_run \<Rightarrow> dec" where
  "run_vwap r = (if 0 < rn_base r then rn_quote r / rn_base r else 0)"

definition finish_plan :: "('v, 'k, 'p) desk_cfg \<Rightarrow> string \<Rightarrow> string \<Rightarrow> string option \<Rightarrow> ('v, 'k, 'c, 'p, unit) dprog" where
  "finish_plan kc pid status err = thenP
     (tryP (in_store (ds_finish (kc_store kc) pid status err)) (\<lambda>_. ret ())) (pop_run pid)"

definition desk_complete :: "('v, 'k, 'p) desk_cfg \<Rightarrow> string \<Rightarrow> dec option \<Rightarrow> ('v, 'k, 'c, 'p, unit) dprog" where
  "desk_complete kc pid exit_quote = with_run pid (\<lambda>r. thenP (finish_plan kc pid ''completed'' None)
     (desk_emit ''plan_completed'' (rn_plan r)
       ([(''filled_base'', JNum (rn_base r)), (''filled_quote'', JNum (rn_quote r)), (''vwap'', JNum (run_vwap r)),
         (''fees'', JNum (rn_fees r))]
        @ (if rn_reason r = [] then [] else [(''exit_reason'', JStr (rn_reason r))])
        @ (case exit_quote of None \<Rightarrow> [] | Some q \<Rightarrow> [(''exit_quote'', JNum q)]))))"

definition desk_fail :: "('v, 'k, 'p) desk_cfg \<Rightarrow> string \<Rightarrow> string \<Rightarrow> ('v, 'k, 'c, 'p, unit) dprog" where
  "desk_fail kc pid err = with_run pid (\<lambda>r. thenP (finish_plan kc pid ''failed'' (Some err))
     (desk_emit ''plan_failed'' (rn_plan r) [(''error'', JStr err)]))"

definition entry_finished :: "('v, 'k, 'p) desk_cfg \<Rightarrow> string \<Rightarrow> ('v, 'k, 'c, 'p, unit) dprog" where
  "entry_finished kc pid = with_run pid (\<lambda>r.
     if rn_base r \<le> 0 then desk_fail kc pid ''entry leg filled nothing''
     else if has_exits (rn_plan r)
     then thenP (upd_run pid (\<lambda>r. r\<lparr>rn_phase := PH_EXIT_WATCH, rn_dirty := True\<rparr>))
       (desk_emit ''entry_filled'' (rn_plan r) [(''filled_base'', JNum (rn_base r)), (''vwap'', JNum (run_vwap r)),
          (''fees'', JNum (rn_fees r)), (''exits_armed'', JBool True)])
     else desk_complete kc pid None)"

subsection \<open>The entry leg\<close>

definition next_uid :: "('v, 'k, 'p) desk_cfg \<Rightarrow> ('v, 'k, 'c, 'p, string) dprog" where
  "next_uid kc = bindP (getsP (\<lambda>s. kc_uuid kc (dk_uid s))) (\<lambda>i. thenP (modifyP (\<lambda>s. s\<lparr>dk_uid := Suc (dk_uid s)\<rparr>)) (ret i))"

definition plan_leverage :: "execution_plan \<Rightarrow> int" where
  "plan_leverage p = (if pl_market p = ''perp'' then (case pl_leverage p of None \<Rightarrow> 1 | Some l \<Rightarrow> if l = 0 then 1 else l) else 1)"

definition entry_tw_config :: "plan_run \<Rightarrow> dec \<Rightarrow> tw_config" where
  "entry_tw_config r remaining = (let p = rn_plan r; interval = or_dec (pl_interval p) 30;
     total_secs = or_dec (pl_duration p) 60 * 60;
     secs = (if 0 < rn_quote r \<and> 0 < rn_target r then max interval (total_secs * (remaining / rn_target r)) else total_secs)
   in \<lparr>tc_pair = venue_pair p, tc_side = entry_side p, tc_total = remaining, tc_duration = secs, tc_interval = interval,
      tc_mode = (if pl_exec_mode p = ''maker'' then ''MAKER'' else ''TAKER''), tc_leverage = plan_leverage p,
      tc_offset_bp = 0\<rparr>)"

definition entry_oe_config :: "plan_run \<Rightarrow> dec \<Rightarrow> dec \<Rightarrow> oe_config" where
  "entry_oe_config r remaining mid = (let p = rn_plan r; lim = (pl_algo p = ''limit''); px = or_dec (pl_limit_price p) 0
   in \<lparr>oc_pair = venue_pair p, oc_side = entry_side p,
      oc_amount = (if or_dec (pl_size_base p) 0 \<noteq> 0 then or_dec (pl_size_base p) 0
                   else remaining / (if lim \<and> px \<noteq> 0 then px else mid)),
      oc_strategy = (if lim then S_LIMIT else S_MARKET),
      oc_price = (if lim then Some px else None), oc_chaser = None, oc_leverage = plan_leverage p,
      oc_action = OPEN_POS, oc_crosses = False\<rparr>)"

text \<open>
  Constructing the entry executor; a limit entry also gets its deadline. A limit plan without a
  price raises, as \<open>Decimal("None")\<close> does.
\<close>

definition build_entry :: "('v, 'k, 'p) desk_cfg \<Rightarrow> string \<Rightarrow> dec \<Rightarrow> dec \<Rightarrow> ('v, 'k, 'c, 'p, engine_executor option) dprog" where
  "build_entry kc pid remaining mid = bindP (getsP (\<lambda>s. map_of (dk_runs s) pid)) (\<lambda>o1. case o1 of None \<Rightarrow> ret None
     | Some r \<Rightarrow> if pl_algo (rn_plan r) = ''twap''
       then bindP (raise_or (check_tw_config (entry_tw_config r remaining))) (\<lambda>c.
         bindP (next_uid kc) (\<lambda>i. bindP (desk_now kc) (\<lambda>t.
           ret (Some (EX_Twap (mk_twap_exec i (kc_user kc) (kc_id kc) (kc_has_inv kc) c t))))))
       else if pl_algo (rn_plan r) = ''limit'' \<and> pl_limit_price (rn_plan r) = None
       then raise (OtherError ''InvalidOperation'')
       else bindP (raise_or (check_oe_config (entry_oe_config r remaining mid))) (\<lambda>c.
         bindP (next_uid kc) (\<lambda>i. bindP (desk_now kc) (\<lambda>t.
           thenP (whenP (pl_algo (rn_plan r) = ''limit'' \<and> rn_deadline r \<le> 0)
                   (upd_run pid (\<lambda>r. r\<lparr>rn_deadline := t + LIMIT_ENTRY_TTL_SECONDS\<rparr>)))
             (ret (Some (EX_Order (mk_order_exec i (kc_user kc) (kc_id kc) True (kc_has_inv kc) c t))))))))"

definition request_of :: "dec \<Rightarrow> executor_request" where
  "request_of q = \<lparr>rq_order_amount = q, rq_position_size = 0, rq_reduce_only = False, rq_position_action = None\<rparr>"

definition place_entry :: "('v, 'k, 'p) desk_cfg \<Rightarrow> string \<Rightarrow> dec \<Rightarrow> dec \<Rightarrow> ('v, 'k, 'c, 'p, unit) dprog" where
  "place_entry kc pid remaining mid = bindP (build_entry kc pid remaining mid) (\<lambda>o1. case o1 of None \<Rightarrow> ret ()
     | Some x \<Rightarrow> bindP (in_orch (orch_spawn (kc_deps kc) x (Some (request_of remaining)))) (\<lambda>ok.
         if \<not> ok then desk_fail kc pid ''risk engine refused the order (budget/limits)''
         else upd_run pid (\<lambda>r. r\<lparr>rn_entry := Some (ee_id x)\<rparr>)))"

text \<open>\<open>entry_started\<close> is checkpointed before anything touches the venue.\<close>

definition targeted :: "dec \<Rightarrow> plan_run \<Rightarrow> plan_run" where
  "targeted mid r = (if rn_target r \<le> 0
     then r\<lparr>rn_target := (if or_dec (pl_size_quote (rn_plan r)) 0 \<noteq> 0 then or_dec (pl_size_quote (rn_plan r)) 0
             else or_dec (pl_size_base (rn_plan r)) 0 * mid)\<rparr>
     else r)"

definition start_entry :: "('v, 'k, 'p) desk_cfg \<Rightarrow> string \<Rightarrow> dec \<Rightarrow> ('v, 'k, 'c, 'p, unit) dprog" where
  "start_entry kc pid mid = with_run pid (\<lambda>r. let remaining = rn_target r - rn_quote r in
     if remaining \<le> 0 then thenP (upd_run pid (\<lambda>r. r\<lparr>rn_done := True\<rparr>)) (entry_finished kc pid)
     else thenP (upd_run pid (\<lambda>r. r\<lparr>rn_started := True, rn_dirty := True\<rparr>))
       (bindP (tryP (thenP (save_run kc pid) (ret True)) (\<lambda>_. ret False)) (\<lambda>saved.
         if \<not> saved then upd_run pid (\<lambda>r. r\<lparr>rn_started := False, rn_dirty := True\<rparr>)
         else place_entry kc pid remaining mid)))"

definition spawn_entry :: "('v, 'k, 'p) desk_cfg \<Rightarrow> string \<Rightarrow> dec \<Rightarrow> ('v, 'k, 'c, 'p, unit) dprog" where
  "spawn_entry kc pid mid = with_run pid (\<lambda>r.
     if (case pl_product (rn_plan r) of None \<Rightarrow> True | Some s \<Rightarrow> s = []) then desk_fail kc pid ''plan has no product''
     else thenP (upd_run pid (targeted mid)) (start_entry kc pid mid))"

text \<open>The guarded database update, which one worker wins, and the entry it permits.\<close>

definition claim_plan :: "('v, 'k, 'p) desk_cfg \<Rightarrow> execution_plan \<Rightarrow> ('v, 'k, 'c, 'p, bool option) dprog" where
  "claim_plan kc p = tryP (bindP (in_store (ds_claim (kc_store kc) (pl_id p))) (\<lambda>w. ret (Some w))) (\<lambda>_. ret None)"

definition fire_plan :: "('v, 'k, 'p) desk_cfg \<Rightarrow> string \<Rightarrow> execution_plan \<Rightarrow> dec \<Rightarrow> ('v, 'k, 'c, 'p, unit) dprog" where
  "fire_plan kc pid p mid = bindP (claim_plan kc p) (\<lambda>won. case won of
     None \<Rightarrow> ret ()
   | Some w \<Rightarrow> if \<not> w then pop_run pid
      else seqP [desk_emit ''trigger_fired'' p [(''mid'', JNum mid)],
        upd_run pid (\<lambda>r. r\<lparr>rn_phase := PH_ENTRY, rn_dirty := True\<rparr>), spawn_entry kc pid mid])"

definition tick_waiting :: "('v, 'k, 'p) desk_cfg \<Rightarrow> string \<Rightarrow> ('v, 'k, 'c, 'p, unit) dprog" where
  "tick_waiting kc pid = with_run pid (\<lambda>r. let p = rn_plan r in
     bindP (market_open kc p) (\<lambda>is_open. if \<not> is_open then ret ()
     else bindP (desk_mid kc (venue_pair p)) (\<lambda>m. case m of None \<Rightarrow> ret ()
      | Some mid \<Rightarrow> bindP (desk_now kc) (\<lambda>now.
         if \<not> trigger_satisfied (pl_trigger p) mid now then ret () else fire_plan kc pid p mid))))"

definition absorb_entry :: "string \<Rightarrow> engine_executor \<Rightarrow> ('v, 'k, 'c, 'p, unit) dprog" where
  "absorb_entry pid x = upd_run pid (\<lambda>r. r\<lparr>rn_base := rn_base r + fst (exec_filled x),
     rn_quote := rn_quote r + snd (exec_filled x), rn_fees := rn_fees r + exec_fees x, rn_entry := None, rn_dirty := True\<rparr>)"

fun progress_from :: "int list \<Rightarrow> int \<Rightarrow> string \<Rightarrow> execution_plan \<Rightarrow> dec \<times> dec \<times> dec \<Rightarrow> ('v, 'k, 'c, 'p, unit) dprog" where
  "progress_from [] pct pid p tot = ret ()"
| "progress_from (mark # marks) pct pid p tot = with_run pid (\<lambda>r.
     thenP (whenP (pct \<ge> mark \<and> mark \<notin> set (rn_notified r))
       (thenP (upd_run pid (\<lambda>r. r\<lparr>rn_notified := rn_notified r @ [mark]\<rparr>))
         (desk_emit ''entry_progress'' p [(''pct'', JNum (of_int mark)), (''filled_base'', JNum (fst tot)),
            (''filled_quote'', JNum (fst (snd tot)))])))
     (progress_from marks pct pid p tot))"

definition notify_progress :: "string \<Rightarrow> ('v, 'k, 'c, 'p, unit) dprog" where
  "notify_progress pid = with_run pid (\<lambda>r.
     if pl_algo (rn_plan r) \<noteq> ''twap'' \<or> rn_target r \<le> 0 then ret ()
     else bindP (getsP (\<lambda>s. executor_totals (dk_orch s) r)) (\<lambda>tot.
       progress_from PROGRESS_MARKS (int_trunc (fst (snd tot) / rn_target r * 100)) pid (rn_plan r) tot))"

definition stop_direct :: "('v, 'k, 'p) desk_cfg \<Rightarrow> string \<Rightarrow> ('v, 'k, 'c, 'p, unit) dprog" where
  "stop_direct kc xid = in_orch (on_executor xid (ee_on_stop (dp_api (kc_deps kc)) EARLY_STOP))"

text \<open>The state of a registered executor, after whatever ran before.\<close>

definition with_executor :: "string \<Rightarrow> (engine_executor \<Rightarrow> ('v, 'k, 'c, 'p, unit) dprog) \<Rightarrow> ('v, 'k, 'c, 'p, unit) dprog" where
  "with_executor xid f = bindP (getsP (\<lambda>s. map_of (or_executors (dk_orch s)) xid)) (\<lambda>o1. case o1 of None \<Rightarrow> ret () | Some x \<Rightarrow> f x)"

definition tick_running_entry :: "('v, 'k, 'p) desk_cfg \<Rightarrow> string \<Rightarrow> string \<Rightarrow> ('v, 'k, 'c, 'p, unit) dprog" where
  "tick_running_entry kc pid xid = with_run pid (\<lambda>r. with_executor xid (\<lambda>x.
     bindP (if \<not> ee_terminated x \<and> pl_algo (rn_plan r) = ''twap'' then market_open kc (rn_plan r) else ret True) (\<lambda>is_open.
     if \<not> is_open
     then seqP [stop_direct kc xid, with_executor xid (absorb_entry pid),
            upd_run pid (\<lambda>r. r\<lparr>rn_phase := PH_SUSPENDED\<rparr>),
            desk_emit ''entry_suspended'' (rn_plan r) [(''reason'', JStr ''market closed'')]]
     else bindP (desk_now kc) (\<lambda>now.
       thenP (whenP (\<not> ee_terminated x \<and> rn_deadline r \<noteq> 0 \<and> rn_deadline r < now) (stop_direct kc xid))
         (with_executor xid (\<lambda>x.
            if \<not> ee_terminated x then thenP (notify_progress pid) (upd_run pid (\<lambda>r. r\<lparr>rn_dirty := True\<rparr>))
            else seqP [absorb_entry pid x, upd_run pid (\<lambda>r. r\<lparr>rn_done := True\<rparr>), entry_finished kc pid]))))))"

definition tick_entry :: "('v, 'k, 'p) desk_cfg \<Rightarrow> string \<Rightarrow> ('v, 'k, 'c, 'p, unit) dprog" where
  "tick_entry kc pid = with_run pid (\<lambda>r. let p = rn_plan r in
     case rn_entry r of
       None \<Rightarrow>
        if rn_done r then entry_finished kc pid
        else bindP (market_open kc p) (\<lambda>is_open.
          if \<not> is_open then upd_run pid (\<lambda>r. r\<lparr>rn_phase := PH_SUSPENDED, rn_dirty := True\<rparr>)
          else bindP (desk_mid kc (venue_pair p)) (\<lambda>m. case m of None \<Rightarrow> ret () | Some mid \<Rightarrow> spawn_entry kc pid mid))
     | Some xid \<Rightarrow> bindP (getsP (\<lambda>s. map_of (or_executors (dk_orch s)) xid)) (\<lambda>o1.
         if o1 = None then upd_run pid (\<lambda>r. r\<lparr>rn_entry := None\<rparr>) else tick_running_entry kc pid xid))"

definition tick_suspended :: "('v, 'k, 'p) desk_cfg \<Rightarrow> string \<Rightarrow> ('v, 'k, 'c, 'p, unit) dprog" where
  "tick_suspended kc pid = with_run pid (\<lambda>r. bindP (market_open kc (rn_plan r)) (\<lambda>is_open.
     whenP is_open (thenP (upd_run pid (\<lambda>r. r\<lparr>rn_phase := PH_ENTRY, rn_dirty := True\<rparr>))
       (desk_emit ''entry_resumed'' (rn_plan r) []))))"

subsection \<open>The exit watch\<close>

record exit_levels =
  xl_tp :: "dec option"
  xl_sl :: "dec option"
  xl_trail :: "dec option"

definition run_long :: "plan_run \<Rightarrow> bool" where
  "run_long r \<longleftrightarrow> pl_side (rn_plan r) = Some ''buy''"

definition exit_levels_of :: "plan_run \<Rightarrow> exit_levels" where
  "exit_levels_of r = (let vwap = run_vwap r; long = run_long r in
     case pl_exits (rn_plan r) of
       None \<Rightarrow> \<lparr>xl_tp = None, xl_sl = None, xl_trail = None\<rparr>
     | Some x \<Rightarrow> if vwap \<le> 0 then \<lparr>xl_tp = None, xl_sl = None, xl_trail = None\<rparr>
        else \<lparr>xl_tp = (case xp_tp_price x of Some v \<Rightarrow> Some v | None \<Rightarrow>
                 map_option (\<lambda>v. if long then vwap * (1 + v / 100) else vwap * (1 - v / 100)) (xp_tp_pct x)),
              xl_sl = (case xp_sl_price x of Some v \<Rightarrow> Some v | None \<Rightarrow>
                 map_option (\<lambda>v. if long then vwap * (1 - v / 100) else vwap * (1 + v / 100)) (xp_sl_pct x)),
              xl_trail = map_option (\<lambda>v. v / 100) (xp_trailing_pct x)\<rparr>)"

text \<open>The decision at one mid: the reason, or none, and the run with its extremes updated.\<close>

definition exit_check :: "dec \<Rightarrow> plan_run \<Rightarrow> string \<times> plan_run" where
  "exit_check mid r = (let lv = exit_levels_of r; long = run_long r;
     stop = (case xl_sl lv of None \<Rightarrow> False | Some sl \<Rightarrow> if long then mid \<le> sl else mid \<ge> sl) in
     if stop then (''stop_loss'', r)
     else let trail = (if pl_market (rn_plan r) = ''perp'' then xl_trail lv else None);
          r1 = (case trail of None \<Rightarrow> r
            | Some t \<Rightarrow> (if long then r\<lparr>rn_hwm := Some (case rn_hwm r of None \<Rightarrow> mid | Some h \<Rightarrow> if mid > h then mid else h), rn_dirty := True\<rparr>
                else r\<lparr>rn_lwm := Some (case rn_lwm r of None \<Rightarrow> mid | Some l \<Rightarrow> if mid < l then mid else l), rn_dirty := True\<rparr>));
          trailed = (case trail of None \<Rightarrow> False
            | Some t \<Rightarrow> if long then mid \<le> or_dec (rn_hwm r1) 0 * (1 - t) else mid \<ge> or_dec (rn_lwm r1) 0 * (1 + t)) in
       if trailed then (''trailing_stop'', r1)
       else if (case xl_tp lv of None \<Rightarrow> False | Some tp \<Rightarrow> if long then mid \<ge> tp else mid \<le> tp)
       then (''take_profit'', r1) else ([], r1))"

definition exit_oe_config :: "plan_run \<Rightarrow> oe_config" where
  "exit_oe_config r = (let p = rn_plan r in
     \<lparr>oc_pair = venue_pair p, oc_side = (if pl_side p = Some ''buy'' then SELL else BUY), oc_amount = rn_base r,
      oc_strategy = S_MARKET, oc_price = None, oc_chaser = None, oc_leverage = plan_leverage p,
      oc_action = (if pl_market p = ''perp'' then CLOSE_POS else OPEN_POS), oc_crosses = False\<rparr>)"

definition spawn_exit :: "('v, 'k, 'p) desk_cfg \<Rightarrow> string \<Rightarrow> ('v, 'k, 'c, 'p, unit) dprog" where
  "spawn_exit kc pid = with_run pid (\<lambda>r. let p = rn_plan r in
     if rn_base r \<le> 0 \<or> (case pl_product p of None \<Rightarrow> True | Some s \<Rightarrow> s = []) then desk_complete kc pid None
     else bindP (raise_or (check_oe_config (exit_oe_config r))) (\<lambda>c.
       bindP (next_uid kc) (\<lambda>i. bindP (desk_now kc) (\<lambda>t.
         let x = EX_Order (mk_order_exec i (kc_user kc) (kc_id kc) True (kc_has_inv kc) c t) in
         bindP (getsP (\<lambda>s. rn_base r * or_dec (map_of (dk_mids s) (venue_pair p)) 1)) (\<lambda>notional.
         bindP (in_orch (orch_spawn (kc_deps kc) x (Some (request_of notional)))) (\<lambda>ok.
           if \<not> ok then desk_fail kc pid (''exit ('' @ rn_reason r @ '') refused by risk engine'')
           else upd_run pid (\<lambda>r. r\<lparr>rn_exit := Some i, rn_phase := PH_EXITING, rn_dirty := True\<rparr>)))))))"

definition tick_exit_watch :: "('v, 'k, 'p) desk_cfg \<Rightarrow> string \<Rightarrow> ('v, 'k, 'c, 'p, unit) dprog" where
  "tick_exit_watch kc pid = with_run pid (\<lambda>r. bindP (desk_mid kc (venue_pair (rn_plan r))) (\<lambda>m. case m of
     None \<Rightarrow> ret ()
   | Some mid \<Rightarrow> (case exit_check mid r of (reason, r') \<Rightarrow>
       thenP (upd_run pid (\<lambda>_. r'))
         (if reason = [] then ret ()
          else seqP [upd_run pid (\<lambda>r. r\<lparr>rn_reason := reason, rn_dirty := True\<rparr>),
            desk_emit ''exit_triggered'' (rn_plan r) [(''reason'', JStr reason), (''mid'', JNum mid)],
            spawn_exit kc pid]))))"

text \<open>What a finished exit order leaves of the run.\<close>

definition after_partial :: "dec \<Rightarrow> dec \<Rightarrow> plan_run \<Rightarrow> plan_run" where
  "after_partial exit_base fees r = (let base = max 0 (rn_base r - exit_base) in
     r\<lparr>rn_fees := rn_fees r + fees, rn_base := base, rn_quote := run_vwap r * base,
       rn_phase := PH_EXIT_WATCH, rn_exit := None, rn_dirty := True\<rparr>)"

definition tick_exiting :: "('v, 'k, 'p) desk_cfg \<Rightarrow> string \<Rightarrow> ('v, 'k, 'c, 'p, unit) dprog" where
  "tick_exiting kc pid = with_run pid (\<lambda>r. bindP (getsP (\<lambda>s. desk_executor (rn_exit r) (dk_orch s))) (\<lambda>o1. case o1 of
     None \<Rightarrow> upd_run pid (\<lambda>r. r\<lparr>rn_phase := PH_EXIT_WATCH, rn_exit := None, rn_dirty := True\<rparr>)
   | Some x \<Rightarrow> if \<not> ee_terminated x then ret ()
      else if fst (exec_filled x) < rn_base r * (999 / 1000)
      then thenP (upd_run pid (after_partial (fst (exec_filled x)) (exec_fees x)))
        (desk_emit ''exit_partial'' (rn_plan r) [(''closed_base'', JNum (fst (exec_filled x)))])
      else thenP (upd_run pid (\<lambda>r. r\<lparr>rn_fees := rn_fees r + exec_fees x\<rparr>))
        (desk_complete kc pid (Some (snd (exec_filled x))))))"

subsection \<open>Ticks and reconciliation\<close>

definition advance :: "('v, 'k, 'p) desk_cfg \<Rightarrow> string \<Rightarrow> ('v, 'k, 'c, 'p, unit) dprog" where
  "advance kc pid = with_run pid (\<lambda>r.
     if rn_pending r \<noteq> [] then desk_fail kc pid (rn_pending r)
     else case rn_phase r of PH_WAITING \<Rightarrow> tick_waiting kc pid | PH_ENTRY \<Rightarrow> tick_entry kc pid
       | PH_SUSPENDED \<Rightarrow> tick_suspended kc pid | PH_EXIT_WATCH \<Rightarrow> tick_exit_watch kc pid
       | PH_EXITING \<Rightarrow> tick_exiting kc pid)"

text \<open>Re-attaching a plan that was running before a restart.\<close>

definition recovered_run :: "execution_plan \<Rightarrow> checkpoint \<Rightarrow> plan_run" where
  "recovered_run p ck = (let r = (new_run p)\<lparr>rn_started := ck_started ck, rn_done := ck_done ck, rn_base := ck_base ck,
       rn_quote := ck_quote ck, rn_fees := ck_fees ck, rn_target := ck_target ck, rn_deadline := ck_deadline ck,
       rn_notified := ck_notified ck, rn_reason := ck_reason ck, rn_hwm := ck_hwm ck, rn_lwm := ck_lwm ck\<rparr> in
     if ck_done ck then r\<lparr>rn_phase := PH_ENTRY\<rparr>
     else if ck_started ck \<and> pl_algo p \<in> {''market'', ''limit''}
     then r\<lparr>rn_pending := ''a restart interrupted this order and its outcome is unknown''\<rparr>
     else r\<lparr>rn_phase := PH_ENTRY\<rparr>)"

definition recover_event :: "execution_plan \<Rightarrow> checkpoint \<Rightarrow> ('v, 'k, 'c, 'p, unit) dprog" where
  "recover_event p ck =
     (if ck_done ck then whenP (has_exits p \<and> 0 < ck_base ck)
        (desk_emit ''plan_recovered'' p [(''detail'', JStr ''exit watch re-armed'')])
      else if ck_started ck \<and> pl_algo p \<in> {''market'', ''limit''} then desk_emit ''plan_ambiguous'' p []
      else whenP (ck_started ck) (desk_emit ''plan_recovered'' p [(''detail'', JStr ''resuming remainder'')]))"

definition recover :: "execution_plan \<Rightarrow> checkpoint \<Rightarrow> ('v, 'k, 'c, 'p, unit) dprog" where
  "recover p ck = thenP (modifyP (\<lambda>s. s\<lparr>dk_runs := od_set (pl_id p) (recovered_run p ck) (dk_runs s)\<rparr>)) (recover_event p ck)"

definition attach_record :: "plan_rec \<Rightarrow> ('v, 'k, 'c, 'p, unit) dprog" where
  "attach_record rec = bindP (getsP (\<lambda>s. map_of (dk_runs s) (pl_id (pr_plan rec)))) (\<lambda>known.
     if known \<noteq> None then ret ()
     else if pr_status rec = ''awaiting_trigger''
     then modifyP (\<lambda>s. s\<lparr>dk_runs := od_set (pl_id (pr_plan rec)) (new_run (pr_plan rec)) (dk_runs s)\<rparr>)
     else whenP (pr_status rec = ''running'')
       (recover (pr_plan rec) (case pr_state rec of None \<Rightarrow> no_checkpoint | Some ck \<Rightarrow> ck)))"

definition cancel_executor :: "('v, 'k, 'p) desk_cfg \<Rightarrow> string option \<Rightarrow> ('v, 'k, 'c, 'p, unit) dprog" where
  "cancel_executor kc xid = (case xid of None \<Rightarrow> ret () | Some i \<Rightarrow> with_executor i (\<lambda>x.
     if ee_terminated x then ret () else tryP (stop_direct kc i) (\<lambda>_. ret ())))"

definition drop_plan :: "('v, 'k, 'p) desk_cfg \<Rightarrow> string \<Rightarrow> ('v, 'k, 'c, 'p, unit) dprog" where
  "drop_plan kc pid = with_run pid (\<lambda>r. seqP [pop_run pid, cancel_executor kc (rn_entry r), cancel_executor kc (rn_exit r),
     desk_emit ''plan_cancelled'' (rn_plan r) []])"

definition reconcile :: "('v, 'k, 'p) desk_cfg \<Rightarrow> ('v, 'k, 'c, 'p, unit) dprog" where
  "reconcile kc = bindP (tryP (bindP (in_store (ds_plans (kc_store kc))) (\<lambda>rs. ret (Some rs))) (\<lambda>_. ret None)) (\<lambda>o1.
     case o1 of None \<Rightarrow> ret ()
     | Some recs \<Rightarrow> thenP (forP recs attach_record)
        (bindP (getsP (\<lambda>s. filter (\<lambda>i. i \<notin> set (map (\<lambda>rec. pl_id (pr_plan rec)) recs)) (map fst (dk_runs s))))
          (\<lambda>gone. forP gone (drop_plan kc))))"

definition desk_on_start :: "('v, 'k, 'p) desk_cfg \<Rightarrow> ('v, 'k, 'c, 'p, unit) dprog" where
  "desk_on_start kc = reconcile kc"

definition checkpoint_dirty :: "('v, 'k, 'p) desk_cfg \<Rightarrow> string \<Rightarrow> ('v, 'k, 'c, 'p, unit) dprog" where
  "checkpoint_dirty kc pid = with_run pid (\<lambda>r. whenP (rn_dirty r)
     (tryP (thenP (save_run kc pid) (upd_run pid (\<lambda>r. r\<lparr>rn_dirty := False\<rparr>))) (\<lambda>_. ret ())))"

definition my_ids :: "('v, 'k, 'p) desk_cfg \<Rightarrow> ('v, 'k, 'c, 'p) desk \<Rightarrow> string list" where
  "my_ids kc s = ids_of (list_executors (Some (kc_id kc)) True (dk_orch s))"

definition desk_on_tick :: "('v, 'k, 'p) desk_cfg \<Rightarrow> ('v, 'k, 'c, 'p, unit) dprog" where
  "desk_on_tick kc = seqP
     [modifyP (\<lambda>s. s\<lparr>dk_mids := []\<rparr>), reconcile kc,
      bindP (getsP (my_ids kc)) (\<lambda>ids. forP ids (\<lambda>i. in_orch (orch_tick (kc_deps kc) i))),
      bindP (getsP (\<lambda>s. map fst (dk_runs s))) (\<lambda>pids. forP pids (\<lambda>pid. tryP (advance kc pid) (\<lambda>_. ret ()))),
      bindP (getsP (\<lambda>s. map fst (dk_runs s))) (\<lambda>pids. forP pids (checkpoint_dirty kc))]"

definition desk_on_stop :: "('v, 'k, 'p) desk_cfg \<Rightarrow> ('v, 'k, 'c, 'p, unit) dprog" where
  "desk_on_stop kc = bindP (getsP (my_ids kc)) (\<lambda>ids. forP ids (\<lambda>i. tryP (stop_direct kc i) (\<lambda>_. ret ())))"

subsection \<open>Weakest preconditions of the helpers\<close>

lemma wp_in_orch [simp]:
  "wp (in_orch p) Q E s = wp p (\<lambda>a w. Q a (s\<lparr>dk_orch := w\<rparr>)) (\<lambda>c w. E c (s\<lparr>dk_orch := w\<rparr>)) (dk_orch s)"
  by (auto simp: wp_def in_orch_def split: sum.splits prod.splits)

lemma wp_in_store [simp]:
  "wp (in_store p) Q E s = wp p (\<lambda>a w. Q a (s\<lparr>dk_store := w\<rparr>)) (\<lambda>c w. E c (s\<lparr>dk_store := w\<rparr>)) (dk_store s)"
  by (auto simp: wp_def in_store_def split: sum.splits prod.splits)

lemma wp_with_run [simp]:
  "wp (with_run pid f) Q E s = (case map_of (dk_runs s) pid of None \<Rightarrow> Q () s | Some r \<Rightarrow> wp (f r) Q E s)"
  by (simp add: with_run_def split: option.splits)

lemma wp_with_executor [simp]:
  "wp (with_executor xid f) Q E s = (case map_of (or_executors (dk_orch s)) xid of None \<Rightarrow> Q () s | Some x \<Rightarrow> wp (f x) Q E s)"
  by (simp add: with_executor_def split: option.splits)

lemma wp_seq_cons [simp]: "ps \<noteq> [] \<Longrightarrow> wp (seqP (p # ps)) Q E s = wp p (\<lambda>_. wp (seqP ps) Q E) E s"
  by (cases ps) simp_all

lemmas desk_simple = upd_run_def pop_run_def desk_emit_def desk_now_def next_uid_def

text \<open>The part of the state an order can show in: the registry, the venue's books of the bot.\<close>

definition booked_view :: "('v, 'k, 'c, 'p) desk \<Rightarrow> engine_executor odict \<times> trade_row list \<times> inventory" where
  "booked_view s = (or_executors (dk_orch s), env_trades (or_env (dk_orch s)), env_inv (or_env (dk_orch s)))"

text \<open>The store with a log of what was claimed, finished and checkpointed.\<close>

datatype store_call = SC_Claim string "exc + bool" | SC_Finish string string "string option"
  | SC_Checkpoint string checkpoint "exc + unit"

definition store_logged :: "('p, 'a) prog \<Rightarrow> (exc + 'a \<Rightarrow> store_call) \<Rightarrow> ('p \<times> store_call list, 'a) prog" where
  "store_logged p entry = (\<lambda>(w, l). case p w of (r, w') \<Rightarrow> (r, (w', l @ [entry r])))"

definition store_unlogged :: "('p, 'a) prog \<Rightarrow> ('p \<times> store_call list, 'a) prog" where
  "store_unlogged p = (\<lambda>(w, l). case p w of (r, w') \<Rightarrow> (r, (w', l)))"

definition logged_store :: "'p desk_store \<Rightarrow> ('p \<times> store_call list) desk_store" where
  "logged_store st = \<lparr>ds_plans = store_unlogged (ds_plans st),
     ds_claim = (\<lambda>i. store_logged (ds_claim st i) (SC_Claim i)),
     ds_finish = (\<lambda>i status err. store_logged (ds_finish st i status err) (\<lambda>_. SC_Finish i status err)),
     ds_checkpoint = (\<lambda>i ck. store_logged (ds_checkpoint st i ck) (SC_Checkpoint i ck)),
     ds_spot_open = map_option (\<lambda>f product. store_unlogged (f product)) (ds_spot_open st)\<rparr>"

lemma wp_store_logged [simp]: "wp (store_logged p entry) Q E w = wp p
    (\<lambda>a w'. Q a (w', snd w @ [entry (Inr a)])) (\<lambda>c w'. E c (w', snd w @ [entry (Inl c)])) (fst w)"
  by (cases w) (auto simp: wp_def store_logged_def split: sum.splits prod.splits)

lemma wp_store_unlogged [simp]: "wp (store_unlogged p) Q E w = wp p (\<lambda>a w'. Q a (w', snd w)) (\<lambda>c w'. E c (w', snd w)) (fst w)"
  by (cases w) (auto simp: wp_def store_unlogged_def split: sum.splits prod.splits)

lemma market_open_frame:
  "kc_store kc = logged_store st \<Longrightarrow>
    frame (\<lambda>s. (dk_orch s, dk_runs s, snd (dk_store s), dk_mids s)) (market_open kc p)"
  unfolding frame_keeps
  by (intro allI keepsI) (auto simp: market_open_def logged_store_def intro!: wp_any split: option.splits)

lemma desk_mid_frame: "frame (\<lambda>s. (booked_view s, dk_runs s, dk_store s)) (desk_mid kc pair)"
  unfolding frame_keeps
  by (intro allI keepsI)
    (auto simp: desk_mid_def in_venue_def booked_view_def wp_def bindP_def tryP_def getsP_def ret_def raise_def
      modifyP_def in_orch_def split: option.splits sum.splits prod.splits)

lemma desk_mid_pos:
  "list_all (\<lambda>(k, m). 0 < m) (dk_mids s) \<Longrightarrow> wp (desk_mid kc pair) (\<lambda>r s'. case r of None \<Rightarrow> True | Some m \<Rightarrow> 0 < m) (\<lambda>_ _. False) s"
  by (auto simp: desk_mid_def in_venue_def wp_def bindP_def tryP_def getsP_def ret_def raise_def
      modifyP_def in_orch_def list_all_iff dest!: map_of_SomeD split: option.splits sum.splits prod.splits)

subsection \<open>Claims and checkpoints come first\<close>

abbreviation slog :: "('v, 'k, 'c, 'p \<times> store_call list) desk \<Rightarrow> store_call list" where
  "slog s \<equiv> snd (dk_store s)"

definition booked_same :: "('v, 'k, 'c, 'p) desk \<Rightarrow> ('v, 'k, 'c, 'p) desk \<Rightarrow> bool" where
  "booked_same s s' \<longleftrightarrow> booked_view s' = booked_view s \<and> dk_mids s' = dk_mids s"

definition extends_log :: "store_call list \<Rightarrow> ('v, 'k, 'c, 'p \<times> store_call list) desk \<Rightarrow> bool" where
  "extends_log l s \<longleftrightarrow> (\<exists>rest. slog s = l @ rest)"

lemma extends_log_append: "slog s = l @ l' \<Longrightarrow> extends_log l s"
  by (auto simp: extends_log_def)

lemma finish_plan_wp:
  assumes "kc_store kc = logged_store st"
  shows "wp (finish_plan kc pid status err)
    (\<lambda>_ s'. booked_same s s' \<and> slog s' = slog s @ [SC_Finish pid status err] \<and> dk_runs s' = od_pop pid (dk_runs s)
       \<and> dk_orch s' = dk_orch s) (\<lambda>_ _. False) s"
  by (auto simp: finish_plan_def assms logged_store_def pop_run_def booked_same_def booked_view_def intro!: wp_any)

lemma desk_fail_wp:
  assumes "kc_store kc = logged_store st" "map_of (dk_runs s) pid = Some r"
  shows "wp (desk_fail kc pid err)
    (\<lambda>_ s'. booked_same s s' \<and> slog s' = slog s @ [SC_Finish pid ''failed'' (Some err)] \<and> dk_runs s' = od_pop pid (dk_runs s)
       \<and> dk_orch s' = dk_orch s) (\<lambda>_ _. False) s"
  using assms(2)
  by (auto simp: desk_fail_def desk_emit_def booked_same_def booked_view_def simp del: map_of_eq_Some_iff
      intro!: wp_mono [OF finish_plan_wp [OF assms(1)]])

lemma desk_complete_wp:
  assumes "kc_store kc = logged_store st" "map_of (dk_runs s) pid = Some r"
  shows "wp (desk_complete kc pid q)
    (\<lambda>_ s'. booked_same s s' \<and> slog s' = slog s @ [SC_Finish pid ''completed'' None] \<and> dk_runs s' = od_pop pid (dk_runs s)
       \<and> dk_orch s' = dk_orch s) (\<lambda>_ _. False) s"
  using assms(2)
  by (auto simp: desk_complete_def desk_emit_def booked_same_def booked_view_def simp del: map_of_eq_Some_iff
      intro!: wp_mono [OF finish_plan_wp [OF assms(1)]])

lemma entry_finished_wp:
  assumes "kc_store kc = logged_store st" "map_of (dk_runs s) pid = Some r"
  shows "wp (entry_finished kc pid) (\<lambda>_ s'. booked_same s s') (\<lambda>_ _. False) s"
  using assms(2)
  by (auto simp: entry_finished_def desk_emit_def upd_run_def booked_same_def booked_view_def simp del: map_of_eq_Some_iff
      intro!: wp_mono [OF desk_fail_wp [OF assms]] wp_mono [OF desk_complete_wp [OF assms]])

lemma place_entry_log:
  fixes s :: "('v, 'k, 'c, 'p \<times> store_call list) desk"
  assumes "kc_store kc = logged_store st"
  shows "wp (place_entry kc pid remaining mid) (\<lambda>_ s'. extends_log (slog s) s' \<and> dk_mids s' = dk_mids s)
    (\<lambda>_ s'. extends_log (slog s) s' \<and> dk_mids s' = dk_mids s) s"
proof -
  define same :: "('v, 'k, 'c, 'p \<times> store_call list) desk \<Rightarrow> bool"
    where "same = (\<lambda>s'. slog s' = slog s \<and> dk_mids s' = dk_mids s)"
  have 1: "wp (build_entry kc pid remaining mid) (\<lambda>_. same) (\<lambda>_. same) s"
    by (auto simp: build_entry_def desk_simple same_def split: option.splits sum.splits)
  have fl: "wp (desk_fail kc pid err) (\<lambda>_ s'. extends_log (slog s) s' \<and> dk_mids s' = dk_mids s)
      (\<lambda>_ s'. extends_log (slog s) s' \<and> dk_mids s' = dk_mids s) u" if "same u" for u err
  proof (cases "map_of (dk_runs u) pid")
    case None
    then show ?thesis using that by (simp add: desk_fail_def same_def extends_log_def)
  next
    case (Some r)
    show ?thesis
      by (rule wp_mono [OF desk_fail_wp [OF assms Some]])
        (use that in \<open>auto simp: same_def extends_log_def booked_same_def\<close>)
  qed
  have sp: "same (u\<lparr>dk_orch := w\<rparr>) \<longleftrightarrow> same u" for u w by (simp add: same_def)
  have up: "wp (upd_run pid f) (\<lambda>_ s'. extends_log (slog s) s' \<and> dk_mids s' = dk_mids s)
      (\<lambda>_ s'. extends_log (slog s) s' \<and> dk_mids s' = dk_mids s) u" if "same u" for u f
    using that by (auto simp: upd_run_def same_def extends_log_def split: option.splits)
  have ok: "extends_log (slog s) u" "dk_mids u = dk_mids s" if "same u" for u
    using that by (simp_all add: same_def extends_log_def)
  show ?thesis
    unfolding place_entry_def wp_bind
  proof (rule wp_mono [OF 1])
    fix o1 u assume u: "same u"
    show "wp (case o1 of None \<Rightarrow> ret () | Some x \<Rightarrow> bindP (in_orch (orch_spawn (kc_deps kc) x (Some (request_of remaining))))
        (\<lambda>ok. if \<not> ok then desk_fail kc pid ''risk engine refused the order (budget/limits)''
         else upd_run pid (\<lambda>r. r\<lparr>rn_entry := Some (ee_id x)\<rparr>)))
      (\<lambda>_ s'. extends_log (slog s) s' \<and> dk_mids s' = dk_mids s)
      (\<lambda>_ s'. extends_log (slog s) s' \<and> dk_mids s' = dk_mids s) u"
    proof (cases o1)
      case (Some x)
      have any: "wp (orch_spawn (kc_deps kc) x (Some (request_of remaining))) Q E w"
        if "\<And>a w. Q a w" "\<And>c w. E c w" for Q E w using that by (rule wp_any)
      show ?thesis
        unfolding Some option.case wp_bind wp_in_orch
        by (rule any) (use u ok in \<open>simp_all add: fl up sp\<close>)
    qed (use u ok in simp)
  qed (use ok in simp)
qed

definition entry_logged :: "string \<Rightarrow> ('v, 'k, 'c, 'p \<times> store_call list) desk \<Rightarrow> ('v, 'k, 'c, 'p \<times> store_call list) desk \<Rightarrow> bool" where
  "entry_logged pid s s' \<longleftrightarrow> dk_mids s' = dk_mids s \<and> (booked_view s' = booked_view s
     \<or> (\<exists>ck. ck_started ck \<and> ck_phase ck = PH_ENTRY \<and> extends_log (slog s @ [SC_Checkpoint pid ck (Inr ())]) s'))"

lemma entry_logged_same: "booked_same s s' \<Longrightarrow> entry_logged pid s s'"
  by (simp add: entry_logged_def booked_same_def)

lemma start_entry_log:
  assumes "kc_store kc = logged_store st" "map_of (dk_runs s) pid = Some r" "rn_phase r = PH_ENTRY"
  shows "wp (start_entry kc pid mid) (\<lambda>_. entry_logged pid s) (\<lambda>_. entry_logged pid s) s"
proof (cases "rn_target r \<le> rn_quote r")
  case True
  have "wp (entry_finished kc pid) (\<lambda>_. entry_logged pid s) (\<lambda>_. entry_logged pid s)
      (s\<lparr>dk_runs := od_set pid (r\<lparr>rn_done := True\<rparr>) (dk_runs s)\<rparr>)"
    by (rule wp_mono [OF entry_finished_wp [OF assms(1)]])
      (auto simp: entry_logged_def booked_same_def booked_view_def simp del: map_of_eq_Some_iff)
  then show ?thesis using True assms(2) by (simp add: start_entry_def upd_run_def del: map_of_eq_Some_iff)
next
  case False
  define r2 where "r2 = r\<lparr>rn_started := True, rn_dirty := True\<rparr>"
  define s2 where "s2 = s\<lparr>dk_runs := od_set pid r2 (dk_runs s)\<rparr>"
  define ck where "ck = state_dict (dk_orch s) r2"
  have s2: "map_of (dk_runs s2) pid = Some r2" by (simp add: s2_def del: map_of_eq_Some_iff)
  have ck: "ck_started ck" "ck_phase ck = PH_ENTRY"
    using assms(3) by (simp_all add: ck_def state_dict_def r2_def split: prod.splits)
  have saved: "wp (tryP (thenP (save_run kc pid) (ret True)) (\<lambda>_. ret False))
      (\<lambda>saved u. booked_same s u \<and> (saved \<longrightarrow> slog u = slog s @ [SC_Checkpoint pid ck (Inr ())])) (\<lambda>_ _. False) s2"
    using s2 by (auto simp: save_run_def assms(1) logged_store_def ck_def [symmetric] booked_same_def booked_view_def s2_def
        simp del: map_of_eq_Some_iff intro!: wp_any)
  have place: "wp (place_entry kc pid remaining mid) (\<lambda>_. entry_logged pid s) (\<lambda>_. entry_logged pid s) u"
    if "slog u = slog s @ [SC_Checkpoint pid ck (Inr ())]" "dk_mids u = dk_mids s" for u remaining
    by (rule wp_mono [OF place_entry_log [OF assms(1)]]) (use that ck in \<open>auto simp: entry_logged_def\<close>)
  have undo: "booked_same s (snd (upd_run pid f u))" if "booked_same s u" for f u
    using that by (simp add: upd_run_def modifyP_def booked_same_def booked_view_def split: option.splits)
  have "wp (bindP (tryP (thenP (save_run kc pid) (ret True)) (\<lambda>_. ret False)) (\<lambda>saved.
         if \<not> saved then upd_run pid (\<lambda>r. r\<lparr>rn_started := False, rn_dirty := True\<rparr>)
         else place_entry kc pid remaining mid)) (\<lambda>_. entry_logged pid s) (\<lambda>_. entry_logged pid s) s2" for remaining
    unfolding wp_bind
  proof (rule wp_mono [OF saved])
    fix saved u assume u: "booked_same s u \<and> (saved \<longrightarrow> slog u = slog s @ [SC_Checkpoint pid ck (Inr ())])"
    show "wp (if \<not> saved then upd_run pid (\<lambda>r. r\<lparr>rn_started := False, rn_dirty := True\<rparr>)
        else place_entry kc pid remaining mid) (\<lambda>_. entry_logged pid s) (\<lambda>_. entry_logged pid s) u"
    proof (cases saved)
      case True
      then show ?thesis using u by (simp add: place booked_same_def)
    next
      case False
      then show ?thesis using entry_logged_same [OF undo] u by (simp add: wp_snd)
    qed
  qed simp
  moreover have "wp (start_entry kc pid mid) Q E s = wp (bindP (tryP (thenP (save_run kc pid) (ret True)) (\<lambda>_. ret False))
      (\<lambda>saved. if \<not> saved then upd_run pid (\<lambda>r. r\<lparr>rn_started := False, rn_dirty := True\<rparr>)
         else place_entry kc pid (rn_target r - rn_quote r) mid)) Q E s2" for Q E
    using False assms(2) unfolding start_entry_def Let_def wp_with_run upd_run_def
    by (simp add: s2_def r2_def del: map_of_eq_Some_iff)
  ultimately show ?thesis by simp
qed

lemma spawn_entry_log:
  assumes "kc_store kc = logged_store st" "map_of (dk_runs s) pid = Some r" "rn_phase r = PH_ENTRY"
  shows "wp (spawn_entry kc pid mid) (\<lambda>_. entry_logged pid s) (\<lambda>_. entry_logged pid s) s"
proof -
  define s1 where "s1 = s\<lparr>dk_runs := od_set pid (targeted mid r) (dk_runs s)\<rparr>"
  have s1: "map_of (dk_runs s1) pid = Some (targeted mid r)" "rn_phase (targeted mid r) = PH_ENTRY"
    "entry_logged pid s1 = entry_logged pid s"
    using assms(3) by (simp_all add: s1_def targeted_def entry_logged_def booked_view_def fun_eq_iff del: map_of_eq_Some_iff)
  have "wp (desk_fail kc pid err) (\<lambda>_. entry_logged pid s) (\<lambda>_. entry_logged pid s) s" for err
    by (rule wp_mono [OF desk_fail_wp [OF assms(1,2)]]) (auto intro: entry_logged_same)
  then show ?thesis
    using start_entry_log [OF assms(1) s1(1,2), of mid] assms(2)
    by (simp add: spawn_entry_def upd_run_def s1_def [symmetric] s1(3) del: map_of_eq_Some_iff)
qed

lemma claim_wp:
  assumes "kc_store kc = logged_store st"
  shows "wp (claim_plan kc p)
    (\<lambda>won s'. booked_same s s' \<and> dk_runs s' = dk_runs s \<and> (won = Some True \<longrightarrow> slog s' = slog s @ [SC_Claim (pl_id p) (Inr True)]))
    (\<lambda>_ _. False) s"
  by (auto simp: claim_plan_def assms logged_store_def booked_same_def booked_view_def intro!: wp_any)

text \<open>
  What a waiting plan is tested against when it is advanced in state \<open>s\<close>: the answer of the market
  check, the mid read after it, and the clock read after the mid. The plan is due when the market
  is open, a mid came back, and the trigger holds at exactly this mid and this clock.
\<close>

definition quoted_at :: "('v, 'k, 'p) desk_cfg \<Rightarrow> execution_plan \<Rightarrow> ('v, 'k, 'c, 'p) desk
    \<Rightarrow> (exc + dec option) \<times> ('v, 'k, 'c, 'p) desk" where
  "quoted_at kc p s = desk_mid kc (venue_pair p) (snd (market_open kc p s))"

definition plan_due :: "('v, 'k, 'p) desk_cfg \<Rightarrow> execution_plan \<Rightarrow> ('v, 'k, 'c, 'p) desk \<Rightarrow> bool" where
  "plan_due kc p s \<longleftrightarrow> fst (market_open kc p s) = Inr True
    \<and> (case fst (quoted_at kc p s) of
          Inr (Some mid) \<Rightarrow> trigger_satisfied (pl_trigger p) mid (o_now (kc_deps kc) (dk_orch (snd (quoted_at kc p s))))
        | _ \<Rightarrow> False)"

text \<open>What firing leaves: nothing booked, or a due plan with a won claim and a stored checkpoint logged first.\<close>

definition fired_logged :: "('v, 'k, 'p \<times> store_call list) desk_cfg \<Rightarrow> string \<Rightarrow> execution_plan
    \<Rightarrow> ('v, 'k, 'c, 'p \<times> store_call list) desk \<Rightarrow> ('v, 'k, 'c, 'p \<times> store_call list) desk \<Rightarrow> bool" where
  "fired_logged kc pid p s u \<longleftrightarrow> booked_view u = booked_view s
    \<or> plan_due kc p s
      \<and> (\<exists>ck. extends_log [SC_Claim (pl_id p) (Inr True), SC_Checkpoint pid ck (Inr ())] u
           \<and> ck_started ck \<and> ck_phase ck = PH_ENTRY)"

lemma wp_exact: "wp m P E s \<Longrightarrow> wp m (\<lambda>x u. P x u \<and> m s = (Inr x, u)) E s"
  by (auto simp: wp_def split: prod.splits sum.splits)

lemma fire_plan_log:
  fixes s u :: "('v, 'k, 'c, 'p \<times> store_call list) desk"
  assumes "kc_store kc = logged_store st" "booked_view u = booked_view s" "map_of (dk_runs u) pid = Some r"
    and "slog u = []" "plan_due kc p s"
  shows "wp (fire_plan kc pid p mid) (\<lambda>_. fired_logged kc pid p s) (\<lambda>_. fired_logged kc pid p s) u"
  unfolding fire_plan_def wp_bind [of "claim_plan kc p"]
proof (rule wp_mono [OF claim_wp [OF assms(1)]])
  fix won and w :: "('v, 'k, 'c, 'p \<times> store_call list) desk"
  assume w: "booked_same u w \<and> dk_runs w = dk_runs u \<and> (won = Some True \<longrightarrow> slog w = slog u @ [SC_Claim (pl_id p) (Inr True)])"
  define w1 where "w1 = w\<lparr>dk_events := dk_events w @ [\<lparr>de_kind = ''trigger_fired'', de_plan = pl_id p, de_extra = [(''mid'', JNum mid)]\<rparr>],
    dk_runs := od_set pid (r\<lparr>rn_phase := PH_ENTRY, rn_dirty := True\<rparr>) (dk_runs w)\<rparr>"
  have w1: "map_of (dk_runs w1) pid = Some (r\<lparr>rn_phase := PH_ENTRY, rn_dirty := True\<rparr>)"
      "booked_view w1 = booked_view s" "dk_mids w1 = dk_mids u" "slog w1 = slog w"
    using w assms(2) by (simp_all add: w1_def booked_same_def booked_view_def del: map_of_eq_Some_iff)
  have same: "fired_logged kc pid p s v" if "booked_view v = booked_view s" for v using that by (simp add: fired_logged_def)
  show "wp (case won of None \<Rightarrow> ret () | Some w \<Rightarrow> if \<not> w then pop_run pid
      else seqP [desk_emit ''trigger_fired'' p [(''mid'', JNum mid)],
        upd_run pid (\<lambda>r. r\<lparr>rn_phase := PH_ENTRY, rn_dirty := True\<rparr>), spawn_entry kc pid mid])
     (\<lambda>_. fired_logged kc pid p s) (\<lambda>_. fired_logged kc pid p s) w"
  proof (cases "won = Some True")
    case True
    have fired: "fired_logged kc pid p s v" if v: "entry_logged pid w1 v" for v
      using v assms(4,5) w w1 True by (auto simp: entry_logged_def fired_logged_def simp del: map_of_eq_Some_iff)
    have "wp (spawn_entry kc pid mid) (\<lambda>_. fired_logged kc pid p s) (\<lambda>_. fired_logged kc pid p s) w1"
      by (rule wp_mono [OF spawn_entry_log [OF assms(1) w1(1)]]) (auto intro: fired)
    then show ?thesis
      using w assms(3) True by (simp add: desk_emit_def upd_run_def w1_def del: map_of_eq_Some_iff)
  next
    case False
    have "booked_view w = booked_view s" using w assms(2) by (simp add: booked_same_def)
    with False show ?thesis by (auto simp: pop_run_def booked_view_def intro!: same split: option.splits)
  qed
qed simp

lemma tick_waiting_log:
  fixes s :: "('v, 'k, 'c, 'p \<times> store_call list) desk"
  assumes "kc_store kc = logged_store st" "map_of (dk_runs s) pid = Some r" "slog s = []"
  defines "G \<equiv> fired_logged kc pid (rn_plan r) s"
  shows "wp (tick_waiting kc pid) (\<lambda>_. G) (\<lambda>_. G) s"
proof -
  let ?p = "rn_plan r"
  let ?kept = "\<lambda>u. booked_view u = booked_view s \<and> dk_runs u = dk_runs s \<and> slog u = []"
  let ?fire = "\<lambda>m. case m of None \<Rightarrow> ret ()
      | Some mid \<Rightarrow> bindP (desk_now kc) (\<lambda>now.
         if \<not> trigger_satisfied (pl_trigger ?p) mid now then ret () else fire_plan kc pid ?p mid)"
  have same: "G v" if "booked_view v = booked_view s" for v using that by (simp add: G_def fired_logged_def)
  have fire: "wp (?fire m) (\<lambda>_. G) (\<lambda>_. G) v"
    if "?kept v" "fst (market_open kc ?p s) = Inr True" "quoted_at kc ?p s = (Inr m, v)" for m v
    using that assms(2) fire_plan_log [OF assms(1), of v s pid r ?p]
    by (auto simp: desk_now_def plan_due_def G_def same [unfolded G_def] simp del: map_of_eq_Some_iff split: option.splits)
  have quoted: "wp (bindP (desk_mid kc (venue_pair ?p)) ?fire) (\<lambda>_. G) (\<lambda>_. G) u"
    if u: "?kept u" "market_open kc ?p s = (Inr True, u)" for u
  proof -
    have "wp (desk_mid kc (venue_pair ?p)) (\<lambda>m v. ?kept v \<and> desk_mid kc (venue_pair ?p) u = (Inr m, v)) (\<lambda>_ v. G v) u"
      by (rule wp_exact, rule frame_wp [OF desk_mid_frame]) (use u in \<open>auto intro: same\<close>)
    then show ?thesis
      unfolding wp_bind [of "desk_mid kc (venue_pair ?p)"]
      by (rule wp_mono) (use u in \<open>auto intro!: fire simp: quoted_at_def\<close>)
  qed
  have opened: "wp (market_open kc ?p) (\<lambda>b u. ?kept u \<and> market_open kc ?p s = (Inr b, u)) (\<lambda>_ u. G u) s"
    by (rule wp_exact, rule frame_wp [OF market_open_frame [OF assms(1)]]) (auto simp: booked_view_def assms(3) intro: same)
  show ?thesis
    unfolding tick_waiting_def wp_with_run assms(2) option.case Let_def wp_bind [of "market_open kc ?p"]
    by (rule wp_mono [OF opened]) (auto simp: quoted same simp del: wp_bind)
qed

text \<open>
  Claim C1: nothing is placed before the plan is due, claimed and checkpointed. When advancing a
  waiting plan changed an executor, the inventory or the trades at all, then the market was open,
  the trigger held at the very mid and clock this advance read, and the first thing the plan store
  saw was a claim that this worker won, the second a checkpoint, which was stored, saying that the
  entry has started: a crash at any later moment recovers as an order that may be out, never as
  nothing placed.
\<close>

theorem desk_claims_first:
  fixes s :: "('v, 'k, 'c, 'p \<times> store_call list) desk"
  assumes "kc_store kc = logged_store st" "map_of (dk_runs s) pid = Some r"
    and "rn_phase r = PH_WAITING" "rn_pending r = []" "slog s = []"
    and "booked_view (snd (advance kc pid s)) \<noteq> booked_view s"
  shows "fst (market_open kc (rn_plan r) s) = Inr True
    \<and> (\<exists>mid s'. desk_mid kc (venue_pair (rn_plan r)) (snd (market_open kc (rn_plan r) s)) = (Inr (Some mid), s')
         \<and> trigger_satisfied (pl_trigger (rn_plan r)) mid (o_now (kc_deps kc) (dk_orch s')))
    \<and> (\<exists>ck rest. slog (snd (advance kc pid s))
          = SC_Claim (pl_id (rn_plan r)) (Inr True) # SC_Checkpoint pid ck (Inr ()) # rest
        \<and> ck_started ck \<and> ck_phase ck = PH_ENTRY)"
proof -
  have "advance kc pid s = tick_waiting kc pid s"
    using assms(2-4) by (simp add: advance_def with_run_def bindP_def getsP_def del: map_of_eq_Some_iff)
  then have "fired_logged kc pid (rn_plan r) s (snd (advance kc pid s))"
    using tick_waiting_log [OF assms(1,2,5)] by (simp add: wp_snd)
  then show ?thesis using assms(6)
    by (auto simp: fired_logged_def extends_log_def plan_due_def quoted_at_def prod_eq_iff split: sum.splits option.splits)
qed

subsection \<open>Restarts\<close>

lemma advance_pending:
  assumes "kc_store kc = logged_store st" "map_of (dk_runs s) pid = Some r" "rn_pending r \<noteq> []"
  shows "wp (advance kc pid) (\<lambda>_ s'. dk_orch s' = dk_orch s \<and> dk_runs s' = od_pop pid (dk_runs s)
      \<and> slog s' = slog s @ [SC_Finish pid ''failed'' (Some (rn_pending r))]) (\<lambda>_ _. False) s"
  using assms(2,3) by (auto simp: advance_def simp del: map_of_eq_Some_iff intro!: wp_mono [OF desk_fail_wp [OF assms(1,2)]])

lemma exit_levels_cong:
  "rn_plan r' = rn_plan r \<Longrightarrow> run_vwap r' = run_vwap r \<Longrightarrow> exit_levels_of r' = exit_levels_of r"
  by (simp add: exit_levels_of_def run_long_def)

lemma exit_check_cong:
  assumes "rn_plan r' = rn_plan r" "run_vwap r' = run_vwap r" "rn_hwm r' = rn_hwm r" "rn_lwm r' = rn_lwm r"
  shows "fst (exit_check mid r') = fst (exit_check mid r)"
  using assms exit_levels_cong [OF assms(1,2)]
  by (simp add: exit_check_def Let_def run_long_def split: option.splits)

text \<open>
  Claim C2: the restart contract. Re-attached from its last checkpoint, a one-shot order whose
  outcome is unknown is failed at the next advance without a call to the venue; a TWAP resumes
  with exactly what its executors had not filled; and a plan past its entry watches its exits
  at the same levels, deciding at every price as it would have before.
\<close>

theorem desk_restart:
  fixes s :: "('v, 'k, 'c, 'p \<times> store_call list) desk" and w :: "('v, 'k, 'c) orch" and r :: plan_run
  defines "ck \<equiv> state_dict w r" and "p \<equiv> rn_plan r"
  assumes "kc_store kc = logged_store st" "map_of (dk_runs s) pid = Some (recovered_run p ck)"
  shows "(rn_started r \<and> \<not> rn_done r \<and> pl_algo p \<in> {''market'', ''limit''} \<longrightarrow>
        (let s' = snd (advance kc pid s) in fst (advance kc pid s) = Inr () \<and> dk_orch s' = dk_orch s
          \<and> map_of (dk_runs s') pid = None
          \<and> (\<exists>err. slog s' = slog s @ [SC_Finish pid ''failed'' (Some err)])))
    \<and> (\<not> rn_done r \<and> pl_algo p = ''twap'' \<longrightarrow>
        rn_phase (recovered_run p ck) = PH_ENTRY \<and> rn_entry (recovered_run p ck) = None
        \<and> rn_target (recovered_run p ck) - rn_quote (recovered_run p ck) = rn_target r - fst (snd (executor_totals w r)))
    \<and> (rn_done r \<and> rn_entry r = None \<longrightarrow>
        exit_levels_of (recovered_run p ck) = exit_levels_of r
        \<and> fst (exit_check mid (recovered_run p ck)) = fst (exit_check mid r))"
proof (intro conjI impI)
  assume a: "rn_started r \<and> \<not> rn_done r \<and> pl_algo p \<in> {''market'', ''limit''}"
  then have "rn_pending (recovered_run p ck) \<noteq> []"
    by (auto simp: recovered_run_def ck_def state_dict_def Let_def split: prod.splits)
  from advance_pending [OF assms(3,4) this]
  show "let s' = snd (advance kc pid s) in fst (advance kc pid s) = Inr () \<and> dk_orch s' = dk_orch s
      \<and> map_of (dk_runs s') pid = None \<and> (\<exists>err. slog s' = slog s @ [SC_Finish pid ''failed'' (Some err)])"
    by (cases "advance kc pid s"; cases "fst (advance kc pid s)") (auto simp: wp_def Let_def)
next
  assume "\<not> rn_done r \<and> pl_algo p = ''twap''"
  then show "rn_phase (recovered_run p ck) = PH_ENTRY" "rn_entry (recovered_run p ck) = None"
    "rn_target (recovered_run p ck) - rn_quote (recovered_run p ck) = rn_target r - fst (snd (executor_totals w r))"
    by (simp_all add: recovered_run_def ck_def state_dict_def new_run_def Let_def split: prod.splits)
next
  assume d: "rn_done r \<and> rn_entry r = None"
  then have "executor_totals w r = (rn_base r, rn_quote r, rn_fees r)"
    by (simp add: executor_totals_def desk_executor_def)
  with d have same: "rn_plan (recovered_run p ck) = rn_plan r" "run_vwap (recovered_run p ck) = run_vwap r"
      "rn_hwm (recovered_run p ck) = rn_hwm r" "rn_lwm (recovered_run p ck) = rn_lwm r"
    by (simp_all add: recovered_run_def ck_def state_dict_def new_run_def Let_def run_vwap_def p_def)
  show "exit_levels_of (recovered_run p ck) = exit_levels_of r"
    by (rule exit_levels_cong [OF same(1,2)])
  show "fst (exit_check mid (recovered_run p ck)) = fst (exit_check mid r)"
    by (rule exit_check_cong [OF same])
qed

subsection \<open>The exit watch against its history\<close>

text \<open>The prices a watch has seen, after each of its checks.\<close>

definition histories :: "dec list \<Rightarrow> dec list list" where
  "histories ms = map (\<lambda>k. take (Suc k) ms) [0..<length ms]"

lemma histories_simps [simp]: "histories [] = []" "histories (m # ms) = [m] # map ((#) m) (histories ms)"
  by (simp_all add: histories_def upt_conv_Cons map_Suc_upt [symmetric] del: upt_Suc)

fun watch :: "dec list \<Rightarrow> plan_run \<Rightarrow> string" where
  "watch [] r = []"
| "watch (m # ms) r = (if fst (exit_check m r) \<noteq> [] then fst (exit_check m r) else watch ms (snd (exit_check m r)))"

text \<open>
  The decision as a function of everything seen: stop loss before trailing stop before take
  profit; the trailing stop, on perps only, measured from the best price seen.
\<close>

definition exit_spec :: "exit_levels \<Rightarrow> bool \<Rightarrow> bool \<Rightarrow> dec list \<Rightarrow> string" where
  "exit_spec lv long perp seen = (let mid = last seen in
     if (case xl_sl lv of None \<Rightarrow> False | Some sl \<Rightarrow> if long then mid \<le> sl else sl \<le> mid) then ''stop_loss''
     else if perp \<and> (case xl_trail lv of None \<Rightarrow> False
        | Some t \<Rightarrow> if long then mid \<le> Max (set seen) * (1 - t) else Min (set seen) * (1 + t) \<le> mid) then ''trailing_stop''
     else if (case xl_tp lv of None \<Rightarrow> False | Some tp \<Rightarrow> if long then tp \<le> mid else mid \<le> tp) then ''take_profit''
     else [])"

definition watched :: "plan_run \<Rightarrow> dec list \<Rightarrow> plan_run \<Rightarrow> bool" where
  "watched r0 seen r \<longleftrightarrow> rn_plan r = rn_plan r0 \<and> rn_base r = rn_base r0 \<and> rn_quote r = rn_quote r0
     \<and> (pl_market (rn_plan r0) = ''perp'' \<and> xl_trail (exit_levels_of r0) \<noteq> None \<longrightarrow>
          (if run_long r0 then rn_hwm r = (if seen = [] then None else Some (Max (set seen)))
           else rn_lwm r = (if seen = [] then None else Some (Min (set seen)))))"

lemma max_if: "max (m :: dec) x = (if x < m then m else x)"
  by (simp add: max_def)

lemma min_if: "min (m :: dec) x = (if m < x then m else x)"
  by (simp add: min_def)

lemma watched_step:
  assumes "watched r0 seen r"
  shows "fst (exit_check m r) = exit_spec (exit_levels_of r0) (run_long r0) (pl_market (rn_plan r0) = ''perp'') (seen @ [m])"
    and "fst (exit_check m r) = [] \<Longrightarrow> watched r0 (seen @ [m]) (snd (exit_check m r))"
proof -
  have lv: "exit_levels_of r = exit_levels_of r0" "run_long r = run_long r0" "rn_plan r = rn_plan r0"
    using assms by (simp_all add: watched_def exit_levels_of_def run_long_def run_vwap_def)
  have mx: "(case (if seen = [] then None else Some (Max (set seen))) of None \<Rightarrow> m | Some h \<Rightarrow> if h < m then m else h) = Max (insert m (set seen))"
    "(case (if seen = [] then None else Some (Min (set seen))) of None \<Rightarrow> m | Some h \<Rightarrow> if m < h then m else h) = Min (insert m (set seen))"
    using Max_insert [of "set seen" m] Min_insert [of "set seen" m] by (cases "seen = []"; simp add: max_if min_if)+
  define trail where "trail = (if pl_market (rn_plan r0) = ''perp'' then xl_trail (exit_levels_of r0) else None)"
  have hw: "rn_hwm r = (if seen = [] then None else Some (Max (set seen)))" if "trail \<noteq> None" "run_long r0"
    using that assms by (auto simp: watched_def trail_def split: if_splits)
  have lw: "rn_lwm r = (if seen = [] then None else Some (Min (set seen)))" if "trail \<noteq> None" "\<not> run_long r0"
    using that assms by (auto simp: watched_def trail_def split: if_splits)
  have trail: "(pl_market (rn_plan r0) = ''perp'' \<and> (case xl_trail (exit_levels_of r0) of None \<Rightarrow> False | Some t \<Rightarrow> B t))
      = (case trail of None \<Rightarrow> False | Some t \<Rightarrow> B t)" for B
    by (simp add: trail_def)
  have cases: "fst (exit_check m r) = exit_spec (exit_levels_of r0) (run_long r0) (pl_market (rn_plan r0) = ''perp'') (seen @ [m])
      \<and> (fst (exit_check m r) = [] \<longrightarrow> watched r0 (seen @ [m]) (snd (exit_check m r)))"
  proof (cases trail)
    case None
    then have "\<not> (pl_market (rn_plan r0) = ''perp'' \<and> xl_trail (exit_levels_of r0) \<noteq> None)"
      by (auto simp: trail_def split: if_splits)
    then show ?thesis using assms None
      unfolding exit_check_def exit_spec_def Let_def lv trail trail_def [symmetric] watched_def last_snoc
      by (auto simp: lv(3))
  next
    case (Some t)
    then have "pl_market (rn_plan r0) = ''perp'' \<and> xl_trail (exit_levels_of r0) \<noteq> None"
      by (auto simp: trail_def split: if_splits)
    then show ?thesis using assms Some hw lw
      unfolding exit_check_def exit_spec_def Let_def lv trail trail_def [symmetric] watched_def or_dec_zero last_snoc
      by (cases "run_long r0") (auto simp: mx lv(3))
  qed
  then show "fst (exit_check m r) = exit_spec (exit_levels_of r0) (run_long r0) (pl_market (rn_plan r0) = ''perp'') (seen @ [m])"
    and "fst (exit_check m r) = [] \<Longrightarrow> watched r0 (seen @ [m]) (snd (exit_check m r))" by blast+
qed

lemma watch_spec:
  assumes "watched r0 seen r"
  shows "watch ms r = (case find (\<lambda>h. exit_spec (exit_levels_of r0) (run_long r0) (pl_market (rn_plan r0) = ''perp'') h \<noteq> [])
      (map ((@) seen) (histories ms)) of None \<Rightarrow> []
    | Some h \<Rightarrow> exit_spec (exit_levels_of r0) (run_long r0) (pl_market (rn_plan r0) = ''perp'') h)"
  using assms
proof (induction ms arbitrary: seen r)
  case (Cons m ms)
  have shift: "map ((@) seen) (map ((#) m) hs) = map ((@) (seen @ [m])) hs" for hs by simp
  show ?case
  proof (cases "fst (exit_check m r) = []")
    case True
    from Cons.IH [OF watched_step(2) [OF Cons.prems True]] show ?thesis
      using True watched_step(1) [OF Cons.prems, of m] by (simp only: watch.simps histories_simps list.map find.simps shift) simp
  qed (use watched_step(1) [OF Cons.prems, of m] in simp)
qed simp

text \<open>
  Claim C3: the exit watch decides on the whole price history. Armed afresh, it fires at the
  first price at which the specification over everything seen so far does, with the same
  reason, for long and short, spot and perp alike.
\<close>

theorem desk_exit_watch_spec:
  assumes "rn_hwm r = None" "rn_lwm r = None"
  shows "watch ms r = (case find (\<lambda>seen. exit_spec (exit_levels_of r) (run_long r) (pl_market (rn_plan r) = ''perp'') seen \<noteq> [])
      (histories ms) of None \<Rightarrow> []
    | Some seen \<Rightarrow> exit_spec (exit_levels_of r) (run_long r) (pl_market (rn_plan r) = ''perp'') seen)"
proof -
  have "watched r [] r" using assms by (simp add: watched_def)
  from watch_spec [OF this, of ms] show ?thesis by (simp add: map_idI)
qed

subsection \<open>Exits close what is held\<close>

lemma after_partial_run:
  assumes "0 \<le> e" "e < rn_base r"
  shows "rn_base (after_partial e f r) = rn_base r - e" "rn_plan (after_partial e f r) = rn_plan r"
    "rn_fees (after_partial e f r) = rn_fees r + f" "run_vwap (after_partial e f r) = run_vwap r"
  using assms by (simp_all add: after_partial_def run_vwap_def Let_def)

text \<open>
  A law: partial exits. However an exit is filled in parts, the desk keeps the fees and the
  base that is left, the levels it watches stay at the average entry price, and the next exit
  order is a market order for exactly that base on the closing side, reduce-only on a perp.
\<close>

theorem desk_partial_exits:
  assumes "list_all (\<lambda>(e, f). 0 \<le> e) es" "sum_list (map fst es) < rn_base r"
  shows "(let r' = foldl (\<lambda>r (e, f). after_partial e f r) r es; c = exit_oe_config r' in
       oc_amount c = rn_base r - sum_list (map fst es) \<and> rn_base r' = rn_base r - sum_list (map fst es)
     \<and> rn_fees r' = rn_fees r + sum_list (map snd es) \<and> exit_levels_of r' = exit_levels_of r
     \<and> oc_side c = opposite (entry_side (rn_plan r)) \<and> oc_pair c = venue_pair (rn_plan r)
     \<and> (pl_market (rn_plan r) = ''perp'' \<longrightarrow> oc_action c = CLOSE_POS) \<and> check_oe_config c = Inr c)"
proof -
  define r' where "r' = foldl (\<lambda>r (e, f). after_partial e f r) r es"
  have left: "rn_base r' = rn_base r - sum_list (map fst es) \<and> rn_plan r' = rn_plan r \<and> run_vwap r' = run_vwap r
      \<and> rn_fees r' = rn_fees r + sum_list (map snd es)"
    using assms unfolding r'_def
  proof (induction es arbitrary: r)
    case (Cons x es)
    obtain e f where x: "x = (e, f)" by (cases x)
    have nn: "0 \<le> sum_list (map fst es)" using Cons.prems(1) by (intro sum_list_nonneg) (auto simp: list_all_iff)
    then have e: "0 \<le> e" "e < rn_base r" using Cons.prems by (auto simp: x)
    show ?case using Cons.IH [of "after_partial e f r"] Cons.prems after_partial_run [OF e, of f] by (simp add: x)
  qed simp
  have "exit_levels_of r' = exit_levels_of r" using left by (intro exit_levels_cong) simp_all
  with left show ?thesis
    unfolding r'_def [symmetric] by (simp add: Let_def exit_oe_config_def check_oe_config_def entry_side_def)
qed

subsection \<open>Validated plans\<close>

text \<open>
  Claim C24: a validated plan can be placed. A plan without problems, and, for a TWAP, an interval
  no longer than its duration, gives an entry executor whose configuration passes its own
  checks: a positive notional or amount on a listed product, a positive price on a limit order,
  a leverage of at least one, between one and 2000 slices.
\<close>

theorem desk_valid_plan_builds:
  assumes "validate_plan perps spots max_leverage quoted min_notional p = []" "0 < mid"
    and "pl_algo p = ''twap'' \<longrightarrow> or_dec (pl_interval p) 30 \<le> or_dec (pl_duration p) 60 * 60"
  defines "r \<equiv> targeted mid (new_run p)"
  shows "0 < rn_target r \<and> 1 \<le> plan_leverage p
    \<and> (\<exists>s. pl_product p = Some s \<and> s \<in> set (if pl_market p = ''perp'' then perps else spots))
    \<and> (pl_algo p = ''twap'' \<longrightarrow> check_tw_config (entry_tw_config r (rn_target r)) = Inr (entry_tw_config r (rn_target r))
        \<and> 1 \<le> n_orders (entry_tw_config r (rn_target r)) \<and> n_orders (entry_tw_config r (rn_target r)) \<le> 2000)
    \<and> (pl_algo p \<noteq> ''twap'' \<longrightarrow> check_oe_config (entry_oe_config r (rn_target r) mid) = Inr (entry_oe_config r (rn_target r) mid)
        \<and> 0 < oc_amount (entry_oe_config r (rn_target r) mid)
        \<and> (pl_algo p = ''limit'' \<longrightarrow> 0 < or_dec (oc_price (entry_oe_config r (rn_target r) mid)) 0))"
proof -
  note v = assms(1) [unfolded validate_plan_def, simplified]
  have sz: "(\<exists>b. pl_size_base p = Some b \<and> 0 < b \<and> pl_size_quote p = None)
      \<or> (\<exists>q. pl_size_quote p = Some q \<and> 0 < q \<and> pl_size_base p = None)"
    using v by (auto simp: size_problems_def when_l_def split: option.splits if_splits)
  then have tgt: "0 < rn_target r" "rn_quote r = 0" "rn_plan r = p"
    using assms(2) by (auto simp: r_def targeted_def new_run_def)
  have mk: "pl_market p \<in> {''spot'', ''perp''}" using v by (auto simp: when_l_def split: if_splits)
  have lev: "1 \<le> plan_leverage p"
    using v mk by (auto simp: market_problems_def plan_leverage_def when_l_def split: option.splits if_splits)
  have sym: "\<exists>s. pl_product p = Some s \<and> s \<in> set (if pl_market p = ''perp'' then perps else spots)"
    using v mk by (auto simp: product_problems_def Let_def split: option.splits if_splits)
  have twap: "check_tw_config (entry_tw_config r (rn_target r)) = Inr (entry_tw_config r (rn_target r))
      \<and> 1 \<le> n_orders (entry_tw_config r (rn_target r)) \<and> n_orders (entry_tw_config r (rn_target r)) \<le> 2000"
    if tw: "pl_algo p = ''twap''"
  proof -
    define dur ivl where "dur = or_dec (pl_duration p) 60 * 60" and "ivl = or_dec (pl_interval p) 30"
    have "algo_problems p = []" using v by simp
    then have "2 \<le> or_dec (pl_duration p) 0" "10 \<le> ivl" "or_dec (pl_duration p) 0 * 60 / ivl \<le> 2000"
      using tw by (auto simp: algo_problems_def Let_def when_l_def plan_limits ivl_def not_less split: if_splits)
    moreover have "dur = or_dec (pl_duration p) 0 * 60"
      using calculation(1) by (cases "pl_duration p") (auto simp: dur_def split: if_splits)
    ultimately have b: "0 < ivl" "dur / ivl \<le> 2000" by auto
    have le: "ivl \<le> dur" using assms(3) tw by (simp add: dur_def ivl_def)
    then have "1 \<le> dur / ivl" using b(1) by simp
    moreover have "\<lfloor>dur / ivl\<rfloor> \<le> 2000" using b(2) by linarith
    moreover have "tc_duration (entry_tw_config r (rn_target r)) = dur" "tc_interval (entry_tw_config r (rn_target r)) = ivl"
      by (simp_all add: entry_tw_config_def Let_def tgt dur_def ivl_def)
    ultimately show ?thesis using b(1) le by (simp add: check_tw_config_def n_orders_def le_floor_iff)
  qed
  have order: "check_oe_config (entry_oe_config r (rn_target r) mid) = Inr (entry_oe_config r (rn_target r) mid)
      \<and> 0 < oc_amount (entry_oe_config r (rn_target r) mid)
      \<and> (pl_algo p = ''limit'' \<longrightarrow> 0 < or_dec (oc_price (entry_oe_config r (rn_target r) mid)) 0)"
    if "pl_algo p \<noteq> ''twap''"
  proof -
    have px: "pl_algo p = ''limit'' \<Longrightarrow> \<exists>x. pl_limit_price p = Some x \<and> 0 < x"
      using v by (auto simp: algo_problems_def when_l_def split: option.splits if_splits)
    show ?thesis
      using sz px tgt assms(2) by (auto simp: entry_oe_config_def check_oe_config_def Let_def)
  qed
  show ?thesis using tgt(1) lev sym twap order by blast
qed

text \<open>
  A finding: the validation admits a TWAP whose interval is longer than its duration, whose
  executor configuration then raises on every advance.
\<close>

lemma validation_interval_gap:
  "\<exists>p r. validate_plan [''BTC''] [] None None 10 p = [] \<and> r = targeted 100 (new_run p)
     \<and> check_tw_config (entry_tw_config r (rn_target r)) = Inl (ValueError ''total_duration must be >= order_interval'')"
proof -
  define p where "p = \<lparr>pl_algo = ''twap'', pl_market = ''perp'', pl_product = Some ''BTC'', pl_side = Some ''buy'',
      pl_size_base = None, pl_size_quote = Some 500, pl_limit_price = None, pl_leverage = Some 3, pl_duration = Some 2,
      pl_interval = Some 600, pl_exec_mode = ''maker'', pl_trigger = None, pl_exits = None, pl_raw = [], pl_id = ''p'',
      pl_created = 7\<rparr>"
  have "validate_plan [''BTC''] [] None None 10 p = []" unfolding p_def by code_simp
  moreover have "check_tw_config (entry_tw_config (targeted 100 (new_run p)) (rn_target (targeted 100 (new_run p))))
      = Inl (ValueError ''total_duration must be >= order_interval'')"
    by (simp add: p_def targeted_def new_run_def entry_tw_config_def check_tw_config_def Let_def)
  ultimately show ?thesis by blast
qed

text \<open>
  A finding: a throttled exit is given up. When the orchestrator reports that the exit was not
  spawned, which a momentary client-side throttle is enough for, the plan is finished as failed
  and dropped: its stop loss is never tried again.
\<close>

lemma exit_refused_abandons:
  fixes s :: "('v, 'k, 'c, 'p \<times> store_call list) desk"
  assumes "kc_store kc = logged_store st" "map_of (dk_runs s) pid = Some r" "0 < rn_base r" "pl_product (rn_plan r) = Some (ch # nm)"
    and "\<And>x rq (w :: ('v, 'k, 'c) orch). fst (orch_spawn (kc_deps kc) x rq w) = Inr False"
  shows "wp (spawn_exit kc pid) (\<lambda>_ s'. dk_runs s' = od_pop pid (dk_runs s)
      \<and> (\<exists>err. slog s' = slog s @ [SC_Finish pid ''failed'' (Some err)])) (\<lambda>_ _. False) s"
proof -
  have cfg: "check_oe_config (exit_oe_config r) = Inr (exit_oe_config r)"
    by (simp add: check_oe_config_def exit_oe_config_def Let_def)
  have sp: "wp (orch_spawn (kc_deps kc) x rq) Q E w" if "\<And>u. Q False u" for x rq Q E and w :: "('v, 'k, 'c) orch"
    using assms(5) [of x rq w] that by (cases "orch_spawn (kc_deps kc) x rq w") (simp add: wp_def)
  have fl: "wp (desk_fail kc pid err) (\<lambda>_ s'. dk_runs s' = od_pop pid (dk_runs s)
      \<and> (\<exists>err. slog s' = slog s @ [SC_Finish pid ''failed'' (Some err)])) (\<lambda>_ _. False) u"
    if "dk_runs u = dk_runs s" "slog u = slog s" for u err
    by (rule wp_mono [OF desk_fail_wp [OF assms(1), where r = r]]) (use that assms(2) in auto)
  show ?thesis
    using assms(2-4) cfg
    by (simp add: spawn_exit_def Let_def next_uid_def desk_now_def del: map_of_eq_Some_iff) (intro sp; simp add: fl)
qed

subsection \<open>Concrete runs\<close>

definition demo_plan :: execution_plan where
  "demo_plan = \<lparr>pl_algo = ''market'', pl_market = ''perp'', pl_product = Some ''BTC'', pl_side = Some ''buy'',
     pl_size_base = None, pl_size_quote = Some 500, pl_limit_price = None, pl_leverage = Some 3, pl_duration = Some 10,
     pl_interval = Some 30, pl_exec_mode = ''taker'', pl_trigger = None,
     pl_exits = Some \<lparr>xp_tp_pct = None, xp_sl_pct = Some 5, xp_tp_price = None, xp_sl_price = None, xp_trailing_pct = Some 2\<rparr>,
     pl_raw = [], pl_id = ''p'', pl_created = 0\<rparr>"

definition memory_store :: "unit desk_store" where
  "memory_store = \<lparr>ds_plans = ret [], ds_claim = (\<lambda>_. ret True), ds_finish = (\<lambda>_ _ _. ret ()),
     ds_checkpoint = (\<lambda>_ _. ret ()), ds_spot_open = None\<rparr>"

definition demo_desk_cfg :: "(script, memory_switch, unit \<times> store_call list) desk_cfg" where
  "demo_desk_cfg = \<lparr>kc_deps = demo_deps, kc_user = 1, kc_id = ''desk'', kc_has_inv = True,
     kc_store = logged_store memory_store, kc_uuid = (\<lambda>n. ''e'')\<rparr>"

definition demo_desk :: "plan_run \<Rightarrow> (script, memory_switch, unit, unit \<times> store_call list) desk" where
  "demo_desk r = \<lparr>dk_runs = [(''p'', r)], dk_events = [], dk_mids = [], dk_uid = 0,
     dk_orch = demo_placing, dk_store = ((), [])\<rparr>"

definition demo_twap :: execution_plan where
  "demo_twap = demo_plan\<lparr>pl_algo := ''twap''\<rparr>"

definition demo_held :: plan_run where
  "demo_held = (new_run demo_plan)\<lparr>rn_phase := PH_EXIT_WATCH, rn_base := 5, rn_quote := 500, rn_done := True\<rparr>"

definition demo_dip :: execution_plan where
  "demo_dip = demo_twap\<lparr>pl_trigger := Some (absolute_trigger ''price_below'' (Some 100) None None None)\<rparr>"

theorem desk_claims_first_witness:
  "let s = demo_desk (new_run demo_dip) in
     (\<exists>mid s'. desk_mid demo_desk_cfg (venue_pair demo_dip) s = (Inr (Some mid), s') \<and> 0 < mid \<and> mid \<le> 100)
     \<and> (\<exists>ck rest. slog (snd (advance demo_desk_cfg ''p'' s))
          = SC_Claim ''p'' (Inr True) # SC_Checkpoint ''p'' ck (Inr ()) # rest \<and> ck_started ck)"
proof -
  let ?s = "demo_desk (new_run demo_dip)"
  have "or_executors (dk_orch (snd (advance demo_desk_cfg ''p'' ?s))) \<noteq> []" by code_simp
  then have "booked_view (snd (advance demo_desk_cfg ''p'' ?s)) \<noteq> booked_view ?s"
    by (simp add: booked_view_def demo_desk_def demo_placing_def demo_orch_def mk_orch_def)
  from desk_claims_first [OF _ _ _ _ _ this, of memory_store "new_run demo_dip"] show ?thesis
    by (auto simp: demo_desk_cfg_def demo_desk_def new_run_def demo_dip_def demo_twap_def demo_plan_def Let_def
      market_open_def logged_store_def memory_store_def ret_def absolute_trigger_def trigger_satisfied_def)
qed

theorem desk_restart_witness:
  "let s = demo_desk (recovered_run demo_plan (state_dict demo_placing ((new_run demo_plan)\<lparr>rn_started := True\<rparr>))) in
     fst (advance demo_desk_cfg ''p'' s) = Inr () \<and> dk_orch (snd (advance demo_desk_cfg ''p'' s)) = demo_placing
     \<and> map_of (dk_runs (snd (advance demo_desk_cfg ''p'' s))) ''p'' = None"
proof -
  define r where "r = (new_run demo_plan)\<lparr>rn_started := True\<rparr>"
  have r: "rn_plan r = demo_plan" "rn_started r" "\<not> rn_done r" "pl_algo demo_plan = ''market''"
    by (simp_all add: r_def new_run_def demo_plan_def)
  have "kc_store demo_desk_cfg = logged_store memory_store"
    "map_of (dk_runs (demo_desk (recovered_run demo_plan (state_dict demo_placing r)))) ''p''
      = Some (recovered_run (rn_plan r) (state_dict demo_placing r))"
    by (simp_all add: demo_desk_cfg_def demo_desk_def r)
  from desk_restart [OF this] show ?thesis
    unfolding r_def [symmetric] by (simp add: r Let_def) (simp add: demo_desk_def)
qed

theorem desk_exit_watch_spec_witness:
  "watch [100, 110, 107] demo_held = ''trailing_stop''"
proof -
  have "rn_hwm demo_held = None" "rn_lwm demo_held = None" by (simp_all add: demo_held_def new_run_def)
  from desk_exit_watch_spec [OF this, of "[100, 110, 107]"] show ?thesis
    by (simp add: exit_spec_def exit_levels_of_def run_vwap_def run_long_def demo_held_def new_run_def demo_plan_def Let_def)
qed

theorem desk_partial_exits_witness:
  "oc_amount (exit_oe_config (foldl (\<lambda>r (e, f). after_partial e f r) demo_held [(1, 0), (2, 1)])) = 2"
  using desk_partial_exits [of "[(1, 0), (2, 1)]" demo_held] by (simp add: Let_def demo_held_def new_run_def)

theorem desk_valid_plan_builds_witness:
  "0 < rn_target (targeted 100 (new_run demo_twap))
   \<and> n_orders (entry_tw_config (targeted 100 (new_run demo_twap)) (rn_target (targeted 100 (new_run demo_twap)))) \<le> 2000"
proof -
  have "validate_plan [''BTC''] [] None None 10 demo_twap = []" by code_simp
  from desk_valid_plan_builds [OF this, of 100] show ?thesis by (simp add: demo_twap_def demo_plan_def)
qed

end
