(* ===== verification/Guards.thy ===== *)
theory Guards
  imports Effects
begin

text \<open>
  The guards of \<open>core/\<close>: the per-user token bucket (\<open>user_rate_limit.py\<close>), the per-user circuit
  breaker (\<open>user_circuit.py\<close>) and the bounded retry (\<open>rate_limit.py\<close>). The module dictionaries
  are the state, in insertion order; the clocks are arguments; what the environment variables
  configure is an argument too. The module lock makes each call one step.
\<close>

subsection \<open>The token bucket\<close>

type_synonym bucket_key = "int \<times> string"

record bucket =
  bk_tokens :: dec
  bk_last :: time

type_synonym buckets = "(bucket_key \<times> bucket) list"

definition MAX_BUCKETS :: nat where "MAX_BUCKETS = 5000"

text \<open>\<open>min(d, key=f)\<close> is the first key with the smallest value; the loop drops it until there is room.\<close>

definition oldest_key :: "('b \<Rightarrow> 'a::linorder) \<Rightarrow> ('k \<times> 'b) list \<Rightarrow> 'k" where
  "oldest_key f d = fst (arg_min_list (\<lambda>(k, b). f b) d)"

lemma arg_min_list_mem: "d \<noteq> [] \<Longrightarrow> arg_min_list f d \<in> set d"
proof (induction f d rule: arg_min_list.induct)
  case (2 f x y zs)
  then show ?case by (auto simp: Let_def)
qed simp_all

lemma od_pop_oldest: "d \<noteq> [] \<Longrightarrow> length (od_pop (oldest_key f d) d) < length d"
  using arg_min_list_mem [of d "\<lambda>(k, b). f b"]
  by (auto simp: od_pop_def oldest_key_def intro!: length_filter_less)

function drop_oldest :: "nat \<Rightarrow> buckets \<Rightarrow> buckets" where
  "drop_oldest n d = (if length d < n \<or> d = [] then d else drop_oldest n (od_pop (oldest_key bk_last d) d))"
  by pat_completeness auto
termination by (relation "measure (\<lambda>(n, d). length d)") (simp_all add: od_pop_oldest)

declare drop_oldest.simps [simp del]

definition evict_stale :: "time \<Rightarrow> time \<Rightarrow> buckets \<Rightarrow> buckets" where
  "evict_stale now window d = (if length d < MAX_BUCKETS then d
     else drop_oldest MAX_BUCKETS (filter (\<lambda>(k, b). \<not> now - bk_last b > max window 60) d))"

definition refilled :: "dec \<Rightarrow> dec \<Rightarrow> time \<Rightarrow> bucket option \<Rightarrow> dec" where
  "refilled cap refill now ob = (case ob of None \<Rightarrow> cap
     | Some b \<Rightarrow> min cap (bk_tokens b + (now - bk_last b) * refill))"

definition rl_check :: "dec \<Rightarrow> dec \<Rightarrow> bucket_key \<Rightarrow> time \<Rightarrow> buckets \<Rightarrow> (bool \<times> time) \<times> buckets" where
  "rl_check cap refill key now d =
     (if cap \<le> 0 \<or> refill \<le> 0 then ((True, 0), d)
      else let d1 = evict_stale now (cap / refill) d; t = refilled cap refill now (map_of d1 key) in
        if 1 \<le> t then ((True, 0), od_set key \<lparr>bk_tokens = t - 1, bk_last = now\<rparr> d1)
        else ((False, max 0 ((1 - t) / refill)), od_set key \<lparr>bk_tokens = t, bk_last = now\<rparr> d1))"

definition rl_reset :: "int option \<Rightarrow> buckets \<Rightarrow> buckets" where
  "rl_reset tid d = (case tid of None \<Rightarrow> [] | Some u \<Rightarrow> filter (\<lambda>(k, b). fst k \<noteq> u) d)"

subsection \<open>The circuit breaker\<close>

record circuit =
  ci_failures :: "time list"
  ci_open_until :: time
  ci_error :: string

type_synonym circuits = "(bucket_key \<times> circuit) list"

record circuit_cfg =
  cc_threshold :: int
  cc_window :: time
  cc_cooldown :: time
  cc_max :: int

definition circuit_key :: "int \<Rightarrow> string \<Rightarrow> bucket_key" where
  "circuit_key uid network = (uid, lower_str (if network = [] then ''mainnet'' else network))"

definition new_circuit :: circuit where
  "new_circuit = \<lparr>ci_failures = [], ci_open_until = 0, ci_error = []\<rparr>"

definition last_failure :: "circuit \<Rightarrow> time" where
  "last_failure c = (if ci_failures c = [] then 0 else last (ci_failures c))"

definition circuit_fail :: "circuit_cfg \<Rightarrow> time \<Rightarrow> string \<Rightarrow> circuit \<Rightarrow> circuit" where
  "circuit_fail g now err c = (let fs = filter (\<lambda>t. now - cc_window g \<le> t) (ci_failures c) @ [now];
     c1 = c\<lparr>ci_failures := fs, ci_error := (if err = [] then ci_error c else take 220 err)\<rparr> in
     if cc_threshold g \<le> int (length fs) \<and> ci_open_until c1 \<le> now
     then c1\<lparr>ci_open_until := now + cc_cooldown g\<rparr> else c1)"

definition record_failure :: "circuit_cfg \<Rightarrow> bucket_key \<Rightarrow> time \<Rightarrow> string \<Rightarrow> circuits \<Rightarrow> circuits" where
  "record_failure g key now err d =
     (let d1 = (if cc_max g \<le> int (length d) \<and> map_of d key = None \<and> d \<noteq> [] then od_pop (oldest_key last_failure d) d else d);
          c = (case map_of d1 key of None \<Rightarrow> new_circuit | Some c \<Rightarrow> c) in
      od_set key (circuit_fail g now err c) d1)"

definition record_success :: "bucket_key \<Rightarrow> circuits \<Rightarrow> circuits" where
  "record_success key d = (case map_of d key of None \<Rightarrow> d
     | Some c \<Rightarrow> od_set key (c\<lparr>ci_failures := [], ci_open_until := 0\<rparr>) d)"

definition circuit_open :: "bucket_key \<Rightarrow> time \<Rightarrow> circuits \<Rightarrow> bool" where
  "circuit_open key now d = (case map_of d key of None \<Rightarrow> False | Some c \<Rightarrow> now < ci_open_until c)"

definition circuit_error :: "bucket_key \<Rightarrow> circuits \<Rightarrow> string" where
  "circuit_error key d = (case map_of d key of None \<Rightarrow> [] | Some c \<Rightarrow> ci_error c)"

definition circuit_snapshot :: "time \<Rightarrow> circuits \<Rightarrow> (bucket_key \<times> time \<times> nat \<times> string) list \<times> nat" where
  "circuit_snapshot now d = (map (\<lambda>(k, c). (k, ci_open_until c, length (ci_failures c), ci_error c))
       (filter (\<lambda>(k, c). now < ci_open_until c) d), length d)"

subsection \<open>Bounded retry\<close>

definition rate_limit_hints :: "string list" where
  "rate_limit_hints = [''429'', ''rate limit'', ''rate-limit'', ''ratelimit'', ''too many requests'', ''throttle'']"

definition transient_hints :: "string list" where
  "transient_hints = [''timeout'', ''timed out'', ''temporarily unavailable'', ''connection reset'', ''connection aborted'',
     ''service unavailable'', ''503'', ''504'', ''bad gateway'', ''502'']"

definition is_rate_limit_text :: "string \<Rightarrow> bool" where
  "is_rate_limit_text txt = list_ex (\<lambda>h. contains_str h (lower_str txt)) rate_limit_hints"

definition is_transient_text :: "string \<Rightarrow> bool" where
  "is_transient_text txt = (is_rate_limit_text (lower_str txt) \<or> list_ex (\<lambda>h. contains_str h (lower_str txt)) transient_hints)"

definition retry_delay :: "time \<Rightarrow> time \<Rightarrow> nat \<Rightarrow> time" where
  "retry_delay base mx attempt = min mx (base * 2 ^ attempt)"

text \<open>
  The attempts from \<open>attempt\<close> on, \<open>left\<close> of them; \<open>digits\<close> prints a number and \<open>sleep\<close> is the
  blocking sleep. The errors of the attempts are returned with the value, or lost with a raise.
\<close>

primrec retry_from :: "(nat \<Rightarrow> string) \<Rightarrow> (time \<Rightarrow> 's \<Rightarrow> 's) \<Rightarrow> ('s, 'a) prog \<Rightarrow> time \<Rightarrow> time \<Rightarrow> ('a \<Rightarrow> bool) option
    \<Rightarrow> string \<Rightarrow> nat \<Rightarrow> nat \<Rightarrow> 'a option \<Rightarrow> string list \<Rightarrow> ('s, 'a option \<times> string list) prog" where
  "retry_from digits sleep fn base mx is_empty label 0 attempt lastv errs = ret (lastv, errs)"
| "retry_from digits sleep fn base mx is_empty label (Suc left) attempt lastv errs =
     bindP (tryP (bindP fn (\<lambda>v. ret (Inr v))) (\<lambda>c. ret (Inl c))) (\<lambda>r. case r of
       Inl c \<Rightarrow> if \<not> is_transient_text (exc_str c) \<or> left = 0 then raise c
         else thenP (modifyP (sleep (retry_delay base mx attempt)))
           (retry_from digits sleep fn base mx is_empty label left (Suc attempt) lastv (errs @ [label @ '': '' @ exc_str c]))
     | Inr v \<Rightarrow> if (case is_empty of None \<Rightarrow> False | Some f \<Rightarrow> f v)
         then let errs' = errs @ [label @ '': empty result on attempt '' @ digits (Suc attempt)] in
           if left = 0 then ret (Some v, errs')
           else thenP (modifyP (sleep (retry_delay base mx attempt)))
             (retry_from digits sleep fn base mx is_empty label left (Suc attempt) (Some v) errs')
         else ret (Some v, errs))"

definition retry_attempts :: "int \<Rightarrow> nat" where
  "retry_attempts max_retries = nat (max 1 (max_retries + 1))"

definition call_with_retry :: "(nat \<Rightarrow> string) \<Rightarrow> (time \<Rightarrow> 's \<Rightarrow> 's) \<Rightarrow> ('s, 'a) prog \<Rightarrow> int \<Rightarrow> time \<Rightarrow> time
    \<Rightarrow> ('a \<Rightarrow> bool) option \<Rightarrow> string \<Rightarrow> ('s, 'a option \<times> string list) prog" where
  "call_with_retry digits sleep fn max_retries base mx is_empty label =
     retry_from digits sleep fn base mx is_empty label (retry_attempts max_retries) 0 None []"

text \<open>\<open>get_market_price\<close> swallows its own failures into a zero mid; anything but a positive mid is empty.\<close>

definition market_price_is_empty :: "(string \<times> dec) list option \<Rightarrow> bool" where
  "market_price_is_empty v = (case v of None \<Rightarrow> True | Some d \<Rightarrow> or_dec (map_of d ''mid'') 0 \<le> 0)"

definition open_orders_is_empty :: "'a \<Rightarrow> bool" where
  "open_orders_is_empty v = False"

subsection \<open>Rates\<close>

fun rl_run :: "dec \<Rightarrow> dec \<Rightarrow> (bucket_key \<times> time) list \<Rightarrow> buckets \<Rightarrow> bool list \<times> buckets" where
  "rl_run cap refill [] d = ([], d)"
| "rl_run cap refill ((k, now) # calls) d = (case rl_check cap refill k now d of
     ((ok, _), d1) \<Rightarrow> (case rl_run cap refill calls d1 of (oks, d2) \<Rightarrow> (ok # oks, d2)))"

definition granted :: "bucket_key \<Rightarrow> (bucket_key \<times> time) list \<Rightarrow> bool list \<Rightarrow> nat" where
  "granted k calls oks = length (filter (\<lambda>((k', _), ok). k' = k \<and> ok) (zip calls oks))"

definition roomy :: "bucket_key set \<Rightarrow> buckets \<Rightarrow> bool" where
  "roomy K d \<longleftrightarrow> distinct (map fst d) \<and> fst ` set d \<subseteq> K \<and> finite K \<and> card K < MAX_BUCKETS"

lemma roomy_length: "roomy K d \<Longrightarrow> length d < MAX_BUCKETS"
  using card_mono [of K "fst ` set d"] distinct_card [of "map fst d"] by (simp add: roomy_def)

definition bucket_ok :: "dec \<Rightarrow> time \<Rightarrow> bucket option \<Rightarrow> bool" where
  "bucket_ok cap t ob = (case ob of None \<Rightarrow> True | Some b \<Rightarrow> 0 \<le> bk_tokens b \<and> bk_last b \<le> t)"

lemma refilled_grow:
  assumes "0 < refill" "0 < cap" "t0 \<le> t1"
  shows "refilled cap refill t1 ob \<le> refilled cap refill t0 ob + (t1 - t0) * refill"
proof (cases ob)
  case (Some b)
  have "(t1 - bk_last b) * refill = (t0 - bk_last b) * refill + (t1 - t0) * refill" by (simp add: algebra_simps)
  moreover have "0 \<le> (t1 - t0) * refill" using assms by simp
  ultimately show ?thesis by (simp add: refilled_def Some)
qed (use assms in \<open>simp add: refilled_def\<close>)

lemma refilled_nonneg: "0 < refill \<Longrightarrow> 0 < cap \<Longrightarrow> bucket_ok cap t ob \<Longrightarrow> t \<le> t' \<Longrightarrow> 0 \<le> refilled cap refill t' ob"
  by (auto simp: refilled_def bucket_ok_def split: option.splits)

text \<open>One call, when there is room: the bucket of its key, and no other.\<close>

lemma rl_check_step:
  fixes now :: time
  assumes "0 < cap" "0 < refill" "roomy K d" "k \<in> K"
  defines "t \<equiv> refilled cap refill now (map_of d k)"
  shows "fst (fst (rl_check cap refill k now d)) \<longleftrightarrow> 1 \<le> t"
    and "\<not> 1 \<le> t \<Longrightarrow> snd (fst (rl_check cap refill k now d)) = (1 - t) / refill"
    and "map_of (snd (rl_check cap refill k now d)) k = Some \<lparr>bk_tokens = (if 1 \<le> t then t - 1 else t), bk_last = now\<rparr>"
    and "k' \<noteq> k \<Longrightarrow> map_of (snd (rl_check cap refill k now d)) k' = map_of d k'"
    and "roomy K (snd (rl_check cap refill k now d))"
  using assms roomy_length [OF assms(3)]
  by (auto simp: rl_check_def evict_stale_def Let_def t_def roomy_def od_keys_set simp del: map_of_eq_Some_iff)

lemma granted_Cons [simp]:
  "granted k (((k', t) # calls)) (ok # oks) = (if k' = k \<and> ok then 1 else 0) + granted k calls oks"
  by (simp add: granted_def)

lemma rl_run_bound:
  assumes "0 < cap" "0 < refill" "roomy K d" "fst ` set calls \<subseteq> K" "sorted (map snd calls)"
    and "list_all (\<lambda>(_, t). t0 \<le> t \<and> t \<le> t1) calls" "t0 \<le> t1" "bucket_ok cap t0 (map_of d k)"
  shows "of_nat (granted k calls (fst (rl_run cap refill calls d))) + refilled cap refill t1 (map_of (snd (rl_run cap refill calls d)) k)
      \<le> refilled cap refill t0 (map_of d k) + (t1 - t0) * refill
    \<and> bucket_ok cap t1 (map_of (snd (rl_run cap refill calls d)) k) \<and> roomy K (snd (rl_run cap refill calls d))"
  using assms(3-)
proof (induction calls arbitrary: d t0)
  case Nil
  then show ?case using refilled_grow [OF assms(2,1), of t0 t1 "map_of d k"]
    by (auto simp: granted_def bucket_ok_def split: option.splits)
next
  case (Cons c calls)
  obtain j now where c: "c = (j, now)" by (cases c)
  define d1 where "d1 = snd (rl_check cap refill j now d)"
  have j: "j \<in> K" and now: "t0 \<le> now" "now \<le> t1" using Cons.prems by (auto simp: c)
  note st = rl_check_step [OF assms(1,2) Cons.prems(1) j, where now = now, folded d1_def]
  have later: "list_all (\<lambda>(_, t). now \<le> t \<and> t \<le> t1) calls" using Cons.prems by (auto simp: c list_all_iff)
  have run: "fst (rl_run cap refill (c # calls) d) = fst (fst (rl_check cap refill j now d)) # fst (rl_run cap refill calls d1)"
    "snd (rl_run cap refill (c # calls) d) = snd (rl_run cap refill calls d1)"
    by (simp_all add: c d1_def split: prod.splits)
  have avail: "refilled cap refill now (map_of d k) \<le> refilled cap refill t0 (map_of d k) + (now - t0) * refill"
    by (rule refilled_grow [OF assms(2,1) now(1)])
  have nn: "0 \<le> refilled cap refill now (map_of d k)" by (rule refilled_nonneg [OF assms(2,1) Cons.prems(6) now(1)])
  have ok1: "bucket_ok cap now (map_of d1 k)" and spent: "(if j = k \<and> fst (fst (rl_check cap refill j now d)) then 1 else 0)
      + refilled cap refill now (map_of d1 k) \<le> refilled cap refill now (map_of d k)"
    using st(1,3) st(4) [of k] nn Cons.prems(6) now(1)
    by (cases "j = k"; auto simp: bucket_ok_def refilled_def simp del: map_of_eq_Some_iff split: option.splits)+
  have "fst ` set calls \<subseteq> K" "sorted (map snd calls)" using Cons.prems by (auto simp: c)
  note IH = Cons.IH [OF st(5) this later now(2) ok1]
  define g :: rat where "g = (if j = k \<and> fst (fst (rl_check cap refill j now d)) then 1 else 0)"
  have "of_nat (granted k (c # calls) (fst (rl_run cap refill (c # calls) d))) = g + of_nat (granted k calls (fst (rl_run cap refill calls d1)))"
    unfolding run(1) unfolding c granted_Cons by (auto simp: g_def)
  moreover have "(t1 - t0) * refill = (t1 - now) * refill + (now - t0) * refill" by (simp add: algebra_simps)
  ultimately show ?case using IH avail spent [folded g_def] unfolding run(2) by linarith
qed

text \<open>
  A law: the rate limit. Whatever the users and actions of a stretch of calls, one key is
  granted at most its capacity plus what refills meanwhile; and when a call is refused, the
  same key is granted exactly from the announced retry time on. (Room for all keys: the store
  holds fewer than 5000.)
\<close>

theorem rate_limit_bound:
  fixes calls :: "(bucket_key \<times> time) list" and d :: buckets
  assumes "0 < cap" "0 < refill" "roomy K d" "fst ` set calls \<subseteq> K" "sorted (map snd calls)"
    and "list_all (\<lambda>(_, t). t0 \<le> t \<and> t \<le> t1) calls" "t0 \<le> t1" "bucket_ok cap t0 (map_of d k)"
    and "k \<in> K" "1 \<le> cap" "t1 \<le> now" "now \<le> later"
  defines "d' \<equiv> snd (rl_run cap refill calls d)"
  shows "of_nat (granted k calls (fst (rl_run cap refill calls d))) \<le> cap + (t1 - t0) * refill
    \<and> (\<forall>r. fst (rl_check cap refill k now d') = (False, r) \<longrightarrow>
        0 < r \<and> r \<le> 1 / refill
        \<and> (fst (fst (rl_check cap refill k later (snd (rl_check cap refill k now d')))) \<longleftrightarrow> now + r \<le> later))"
proof (intro conjI allI impI)
  note run = rl_run_bound [OF assms(1-8), folded d'_def]
  have "0 \<le> refilled cap refill t1 (map_of d' k)" using refilled_nonneg [OF assms(2,1), of t1 _ t1] run by simp
  moreover have "refilled cap refill t0 (map_of d k) \<le> cap" by (auto simp: refilled_def split: option.splits)
  ultimately show "of_nat (granted k calls (fst (rl_run cap refill calls d))) \<le> cap + (t1 - t0) * refill"
    using run by linarith
  fix r assume r: "fst (rl_check cap refill k now d') = (False, r)"
  define t where "t = refilled cap refill now (map_of d' k)"
  have room: "roomy K d'" using run by simp
  note st = rl_check_step [OF assms(1,2) room assms(9), where now = now, folded t_def]
  have lo: "\<not> 1 \<le> t" using st(1) r by simp
  have r': "r = (1 - t) / refill" using st(2) [OF lo] r by simp
  have t: "0 \<le> t" unfolding t_def using refilled_nonneg [OF assms(2,1), of t1 _ now] run assms(11) by simp
  show "0 < r" "r \<le> 1 / refill" using lo t assms(2) by (simp_all add: r' divide_right_mono)
  note st2 = rl_check_step [OF assms(1,2) st(5) assms(9), where now = later]
  have "1 \<le> min cap (t + (later - now) * refill) \<longleftrightarrow> 1 - t \<le> (later - now) * refill" using assms(10) by auto
  also have "\<dots> \<longleftrightarrow> r \<le> later - now" using assms(2) by (simp add: r' pos_divide_le_eq)
  also have "\<dots> \<longleftrightarrow> now + r \<le> later" by (simp add: algebra_simps)
  finally show "fst (fst (rl_check cap refill k later (snd (rl_check cap refill k now d')))) \<longleftrightarrow> now + r \<le> later"
    using st2(1) st(3) lo by (simp add: refilled_def del: map_of_eq_Some_iff)
qed

theorem rate_limit_bound_witness:
  "of_nat (granted (1, ''llm'') (replicate 9 ((1, ''llm''), 0)) (fst (rl_run 6 (1 / 4) (replicate 9 ((1, ''llm''), 0)) []))) \<le> (6 :: rat)"
  using rate_limit_bound [of 6 "1 / 4" "{(1, ''llm'')}" "[]" "replicate 9 ((1, ''llm''), 0)" 0 0 "(1, ''llm'')" 0 0]
  by (simp add: roomy_def MAX_BUCKETS_def bucket_ok_def list_all_iff)

subsection \<open>Breaking\<close>

datatype circuit_event = CE_Fail time string | CE_Success

fun circuit_event_step :: "circuit_cfg \<Rightarrow> bucket_key \<times> circuit_event \<Rightarrow> circuits \<Rightarrow> circuits" where
  "circuit_event_step g (k, CE_Fail now err) d = record_failure g k now err d"
| "circuit_event_step g (k, CE_Success) d = record_success k d"

definition circuit_run :: "circuit_cfg \<Rightarrow> (bucket_key \<times> circuit_event) list \<Rightarrow> circuits \<Rightarrow> circuits" where
  "circuit_run g evs d = foldl (\<lambda>d ev. circuit_event_step g ev d) d evs"

text \<open>The failures of a key since its last success.\<close>

fun streak_step :: "bucket_key \<Rightarrow> bucket_key \<times> circuit_event \<Rightarrow> time list \<Rightarrow> time list" where
  "streak_step k (k', CE_Fail now err) ts = (if k' = k then ts @ [now] else ts)"
| "streak_step k (k', CE_Success) ts = (if k' = k then [] else ts)"

definition streak :: "bucket_key \<Rightarrow> (bucket_key \<times> circuit_event) list \<Rightarrow> time list" where
  "streak k evs = foldl (\<lambda>ts ev. streak_step k ev ts) [] evs"

fun fail_times :: "(bucket_key \<times> circuit_event) list \<Rightarrow> time list" where
  "fail_times [] = []"
| "fail_times ((k, CE_Fail now err) # evs) = now # fail_times evs"
| "fail_times ((k, CE_Success) # evs) = fail_times evs"

definition recent :: "circuit_cfg \<Rightarrow> time list \<Rightarrow> time \<Rightarrow> time list" where
  "recent g ts t = filter (\<lambda>u. t - cc_window g \<le> u \<and> u \<le> t) ts"

lemma fail_times_append: "fail_times (xs @ ys) = fail_times xs @ fail_times ys"
  by (induction xs rule: fail_times.induct) simp_all

lemma streak_subset: "set (streak k evs) \<subseteq> set (fail_times evs)"
proof (induction evs rule: rev_induct)
  case (snoc ev evs)
  then show ?case
    by (cases ev; cases "snd ev") (auto simp: streak_def fail_times_append)
qed (simp add: streak_def)

lemma sorted_streak: "sorted (fail_times evs) \<Longrightarrow> sorted (streak k evs)"
proof (induction evs rule: rev_induct)
  case (snoc ev evs)
  then show ?case using streak_subset [of k evs]
    by (cases ev; cases "snd ev") (auto simp: streak_def fail_times_append sorted_append)
qed (simp add: streak_def)

text \<open>The circuit of one key against its failures.\<close>

definition circuit_inv :: "circuit_cfg \<Rightarrow> time list \<Rightarrow> circuit option \<Rightarrow> bool" where
  "circuit_inv g ts oc = (case oc of None \<Rightarrow> ts = []
   | Some c \<Rightarrow> ci_failures c = (if ts = [] then [] else recent g ts (last ts))
      \<and> (ci_open_until c = 0 \<or> (\<exists>t \<in> set ts. ci_open_until c = t + cc_cooldown g \<and> cc_threshold g \<le> int (length (recent g ts t))))
      \<and> (ts \<noteq> [] \<longrightarrow> cc_threshold g \<le> int (length (recent g ts (last ts))) \<longrightarrow> last ts < ci_open_until c))"

lemma recent_mono: "length (recent g ts t) \<le> length (recent g (ts @ us) t)"
  by (simp add: recent_def)

lemma circuit_inv_fail:
  assumes inv: "circuit_inv g ts oc" and "0 < cc_cooldown g" "0 \<le> cc_window g" "sorted (ts @ [now])"
  shows "circuit_inv g (ts @ [now]) (Some (circuit_fail g now err (case oc of None \<Rightarrow> new_circuit | Some c \<Rightarrow> c)))"
proof -
  define c where "c = (case oc of None \<Rightarrow> new_circuit | Some c \<Rightarrow> c)"
  have le: "u \<le> now" if "u \<in> set ts" for u using assms(4) that by (simp add: sorted_append)
  have old: "ci_failures c = (if ts = [] then [] else recent g ts (last ts))"
    and opened: "ci_open_until c = 0 \<or> (\<exists>t \<in> set ts. ci_open_until c = t + cc_cooldown g \<and> cc_threshold g \<le> int (length (recent g ts t)))"
    using inv by (auto simp: c_def circuit_inv_def new_circuit_def split: option.splits)
  have srt: "u \<le> last ts" if "u \<in> set ts" for u
    using assms(4) that by (cases ts rule: rev_cases) (auto simp: sorted_append)
  have kept: "filter (\<lambda>t. now - cc_window g \<le> t) (ci_failures c) @ [now] = recent g (ts @ [now]) now"
  proof -
    have "filter (\<lambda>t. now - cc_window g \<le> t) (if ts = [] then [] else recent g ts (last ts)) = recent g ts now"
    proof (cases "ts = []")
      case False
      have "last ts - cc_window g \<le> x" if "now - cc_window g \<le> x" for x
        using le [OF last_in_set [OF False]] that by linarith
      then show ?thesis using le srt False by (auto simp: recent_def intro!: filter_cong)
    qed (simp add: recent_def)
    moreover have "recent g (ts @ [now]) now = recent g ts now @ [now]" using assms(3) by (simp add: recent_def)
    ultimately show ?thesis by (simp add: old)
  qed
  have still: "ci_open_until c = 0 \<or> (\<exists>t \<in> set (ts @ [now]). ci_open_until c = t + cc_cooldown g \<and> cc_threshold g \<le> int (length (recent g (ts @ [now]) t)))"
    using opened recent_mono [of g ts _ "[now]"] by (force intro: order_trans)
  show ?thesis
    using still assms(2) unfolding c_def [symmetric] circuit_inv_def circuit_fail_def Let_def option.case kept
    by auto
qed

lemma circuit_run_inv:
  assumes "0 < cc_cooldown g" "0 \<le> cc_window g" "sorted (fail_times evs)"
    and "finite K" "fst ` set evs \<subseteq> K" "int (card K) \<le> cc_max g"
  shows "distinct (map fst (circuit_run g evs [])) \<and> fst ` set (circuit_run g evs []) \<subseteq> K
    \<and> circuit_inv g (streak k evs) (map_of (circuit_run g evs []) k)"
  using assms(3,5)
proof (induction evs rule: rev_induct)
  case Nil
  show ?case by (simp add: circuit_run_def streak_def circuit_inv_def)
next
  case (snoc ev evs)
  define d where "d = circuit_run g evs []"
  have IH: "distinct (map fst d)" "fst ` set d \<subseteq> K" "circuit_inv g (streak k evs) (map_of d k)"
    using snoc by (auto simp: d_def fail_times_append sorted_append)
  have run: "circuit_run g (evs @ [ev]) [] = circuit_event_step g ev d" by (simp add: circuit_run_def d_def)
  obtain j e where ev: "ev = (j, e)" by (cases ev)
  have jK: "j \<in> K" using snoc.prems by (simp add: ev)
  show ?case
  proof (cases e)
    case (CE_Fail now err)
    have room: "int (length d) < cc_max g" if "map_of d j = None"
    proof -
      have "insert j (fst ` set d) \<subseteq> K" "j \<notin> fst ` set d" using IH(2) jK that by (auto simp: map_of_eq_None_iff)
      then have "Suc (card (fst ` set d)) \<le> card K" using card_mono [OF assms(4)] by (metis card_insert_disjoint finite_imageI finite_set)
      then show ?thesis using assms(6) distinct_card [OF IH(1)] by simp
    qed
    then have fail: "circuit_event_step g ev d
        = od_set j (circuit_fail g now err (case map_of d j of None \<Rightarrow> new_circuit | Some c \<Rightarrow> c)) d"
      by (cases "map_of d j") (auto simp: ev CE_Fail record_failure_def Let_def)
    have "streak k (evs @ [ev]) = (if j = k then streak k evs @ [now] else streak k evs)"
      by (simp add: streak_def ev CE_Fail)
    moreover have "sorted (streak k evs @ [now])"
      using snoc.prems(1) streak_subset [of k evs] sorted_streak [of evs k]
      by (auto simp: ev CE_Fail fail_times_append sorted_append)
    note circuit_inv_fail [OF IH(3) assms(1,2) this, of err]
    ultimately have "circuit_inv g (streak k (evs @ [ev])) (map_of (circuit_event_step g ev d) k)"
      using IH(3) by (cases "j = k") (simp_all add: fail del: map_of_eq_Some_iff)
    then show ?thesis using IH(1,2) jK by (simp add: run fail od_keys_set)
  next
    case CE_Success
    have "streak k (evs @ [ev]) = (if j = k then [] else streak k evs)" by (simp add: streak_def ev CE_Success)
    then have "circuit_inv g (streak k (evs @ [ev])) (map_of (circuit_event_step g ev d) k)"
      using IH(3) by (cases "j = k"; cases "map_of d j")
        (simp_all add: ev CE_Success record_success_def circuit_inv_def del: map_of_eq_Some_iff)
    then show ?thesis using IH(1,2) jK
      unfolding run by (simp add: ev CE_Success record_success_def od_keys_set del: map_of_eq_Some_iff split: option.split)
  qed
qed

text \<open>
  A law: the circuit breaker. Whatever happens to other users and networks, the breaker of a
  key is open only because of a failure since its last success at which the threshold was met
  within the window, and only for the cooldown from it; it is open right after a failure that
  meets the threshold; and a success closes it.
\<close>

theorem circuit_contract:
  fixes k :: bucket_key
  assumes "0 < cc_cooldown g" "0 \<le> cc_window g" "sorted (fail_times evs)" "0 \<le> now"
    and "int (card (fst ` set evs)) \<le> cc_max g"
  defines "ts \<equiv> streak k evs" and "d \<equiv> circuit_run g evs []"
  shows "(circuit_open k now d \<longrightarrow>
      (\<exists>t \<in> set ts. now < t + cc_cooldown g \<and> cc_threshold g \<le> int (length (recent g ts t))))
    \<and> (ts \<noteq> [] \<longrightarrow> cc_threshold g \<le> int (length (recent g ts (last ts))) \<longrightarrow> circuit_open k (last ts) d)
    \<and> \<not> circuit_open k now (record_success k d)"
proof -
  have "circuit_inv g ts (map_of d k)"
    using circuit_run_inv [OF assms(1-3) finite_imageI [OF finite_set] subset_refl assms(5), of k] by (simp add: ts_def d_def)
  then show ?thesis using assms(4)
    by (auto simp: circuit_open_def circuit_inv_def record_success_def simp del: map_of_eq_Some_iff split: option.splits)
qed

definition demo_circuit_cfg :: circuit_cfg where
  "demo_circuit_cfg = \<lparr>cc_threshold = 2, cc_window = 60, cc_cooldown = 120, cc_max = 4096\<rparr>"

theorem circuit_contract_witness:
  "circuit_open (1, ''mainnet'') 10 (circuit_run demo_circuit_cfg [((1, ''mainnet''), CE_Fail 5 ''x''), ((2, ''mainnet''), CE_Fail 7 ''y''),
     ((1, ''mainnet''), CE_Fail 10 ''x'')] [])"
  using circuit_contract [of demo_circuit_cfg "[((1, ''mainnet''), CE_Fail 5 ''x''), ((2, ''mainnet''), CE_Fail 7 ''y''),
     ((1, ''mainnet''), CE_Fail 10 ''x'')]" 10 "(1, ''mainnet'')"]
  by (simp add: demo_circuit_cfg_def streak_def recent_def card_insert_if)

subsection \<open>Retrying\<close>

text \<open>A call that replays prepared outcomes, and a clock of the sleeps.\<close>

record 'a attempts =
  at_outs :: "(exc + 'a) list"
  at_slept :: "time list"

definition replay :: "('a attempts, 'a) prog" where
  "replay s = (case at_outs s of [] \<Rightarrow> (Inl (OtherError ''no more outcomes''), s)
     | r # rs \<Rightarrow> (r, s\<lparr>at_outs := rs\<rparr>))"

definition log_sleep :: "time \<Rightarrow> 'a attempts \<Rightarrow> 'a attempts" where
  "log_sleep t s = s\<lparr>at_slept := at_slept s @ [t]\<rparr>"

definition again :: "('a \<Rightarrow> bool) option \<Rightarrow> exc + 'a \<Rightarrow> bool" where
  "again is_empty r = (case r of Inl c \<Rightarrow> is_transient_text (exc_str c)
     | Inr v \<Rightarrow> (case is_empty of None \<Rightarrow> False | Some f \<Rightarrow> f v))"

definition attempt_error :: "(nat \<Rightarrow> string) \<Rightarrow> string \<Rightarrow> nat \<Rightarrow> exc + 'a \<Rightarrow> string" where
  "attempt_error digits label i r = (case r of Inl c \<Rightarrow> label @ '': '' @ exc_str c
     | Inr v \<Rightarrow> label @ '': empty result on attempt '' @ digits (Suc i))"

lemma retry_from_replay:
  fixes is_empty :: "('a \<Rightarrow> bool) option" and outs :: "(exc + 'a) list"
  assumes "Suc left \<le> length outs"
  defines "k \<equiv> length (takeWhile (again is_empty) (take left outs))"
  shows "retry_from digits log_sleep replay base mx is_empty label (Suc left) i lastv errs \<lparr>at_outs = outs, at_slept = sl\<rparr>
    = (case outs ! k of
         Inl c \<Rightarrow> Inl c
       | Inr v \<Rightarrow> Inr (Some v, errs @ map (\<lambda>j. attempt_error digits label (i + j) (outs ! j))
            [0..<(if again is_empty (Inr v) then Suc k else k)]),
       \<lparr>at_outs = drop (Suc k) outs, at_slept = sl @ map (\<lambda>j. retry_delay base mx (i + j)) [0..<k]\<rparr>)"
  using assms(1) unfolding k_def
proof (induction left arbitrary: outs i lastv errs sl)
  case 0
  then obtain r rs where outs: "outs = r # rs" by (cases outs) auto
  show ?case
    by (cases r) (auto simp: outs again_def bindP_def tryP_def replay_def ret_def raise_def attempt_error_def Let_def)
next
  case (Suc left)
  then obtain r rs where outs: "outs = r # rs" and rs: "Suc left \<le> length rs" by (cases outs) auto
  have shift: "map f [Suc m..<Suc n] = map (\<lambda>j. f (Suc j)) [m..<n]" for f :: "nat \<Rightarrow> 'x" and m n
    by (simp add: map_Suc_upt [symmetric] comp_def del: upt_Suc)
  show ?case
  proof (cases "again is_empty r")
    case False
    then show ?thesis
      by (cases r) (auto simp: outs again_def bindP_def tryP_def replay_def ret_def raise_def)
  next
    case True
    define k where "k = length (takeWhile (again is_empty) (take left rs))"
    note IH = Suc.IH [OF rs, folded k_def]
    have step: "retry_from digits log_sleep replay base mx is_empty label (Suc (Suc left)) i lastv errs \<lparr>at_outs = outs, at_slept = sl\<rparr>
      = retry_from digits log_sleep replay base mx is_empty label (Suc left) (Suc i)
          (case r of Inl c \<Rightarrow> lastv | Inr v \<Rightarrow> Some v) (errs @ [attempt_error digits label i r])
          \<lparr>at_outs = rs, at_slept = sl @ [retry_delay base mx i]\<rparr>"
      using True
      by (cases r) (auto simp: outs again_def bindP_def tryP_def replay_def ret_def raise_def modifyP_def log_sleep_def
          attempt_error_def Let_def simp del: retry_from.simps(2) intro!: arg_cong2 [where f = fst] 
          simp: retry_from.simps(2) [of _ _ _ _ _ _ _ "Suc left"])
    have k: "length (takeWhile (again is_empty) (take (Suc left) outs)) = Suc k" by (simp add: outs True k_def)
    show ?thesis unfolding step IH k
      by (cases "rs ! k") (auto simp: outs shift upt_conv_Cons simp del: upt_Suc)
  qed
qed

text \<open>
  A law: bounded retry. The call is tried once more after each transient failure or empty
  result, never more often than allowed, and the first other outcome, or the last attempt's, is
  the result; the errors returned with a value are exactly those of the attempts that did not
  count; and it sleeps only between attempts, for the capped exponential delays.
\<close>

theorem retry_contract:
  fixes is_empty :: "('a \<Rightarrow> bool) option" and outs :: "(exc + 'a) list"
  assumes "retry_attempts n \<le> length outs" "0 \<le> base" "0 \<le> mx"
  defines "k \<equiv> length (takeWhile (again is_empty) (take (retry_attempts n - 1) outs))"
  shows "call_with_retry digits log_sleep replay n base mx is_empty label \<lparr>at_outs = outs, at_slept = []\<rparr>
      = (case outs ! k of
           Inl c \<Rightarrow> Inl c
         | Inr v \<Rightarrow> Inr (Some v, map (\<lambda>j. attempt_error digits label j (outs ! j))
              [0..<(if again is_empty (Inr v) then Suc k else k)]),
         \<lparr>at_outs = drop (Suc k) outs, at_slept = map (retry_delay base mx) [0..<k]\<rparr>)
    \<and> int k \<le> max 0 n \<and> list_all (again is_empty) (take k outs)
    \<and> (again is_empty (outs ! k) \<longrightarrow> int k = max 0 n)
    \<and> list_all (\<lambda>t. 0 \<le> t \<and> t \<le> mx) (map (retry_delay base mx) [0..<k])"
proof (intro conjI impI)
  define left where "left = retry_attempts n - 1"
  have n: "retry_attempts n = Suc left" "int left = max 0 n" by (auto simp: left_def retry_attempts_def)
  have k: "k = length (takeWhile (again is_empty) (take left outs))" by (simp add: k_def left_def)
  from retry_from_replay [of left outs digits base mx is_empty label 0 None "[]" "[]"] assms(1)
  show "call_with_retry digits log_sleep replay n base mx is_empty label \<lparr>at_outs = outs, at_slept = []\<rparr>
      = (case outs ! k of
           Inl c \<Rightarrow> Inl c
         | Inr v \<Rightarrow> Inr (Some v, map (\<lambda>j. attempt_error digits label j (outs ! j))
              [0..<(if again is_empty (Inr v) then Suc k else k)]),
         \<lparr>at_outs = drop (Suc k) outs, at_slept = map (retry_delay base mx) [0..<k]\<rparr>)"
    unfolding call_with_retry_def n k by (simp only: append_Nil add_0 simp_thms)
  have "k \<le> left" using length_takeWhile_le [of "again is_empty" "take left outs"] by (simp add: k)
  then show "int k \<le> max 0 n" using n(2) by linarith
  have pre: "take k outs = takeWhile (again is_empty) (take left outs)"
    using takeWhile_eq_take [of "again is_empty" "take left outs"] \<open>k \<le> left\<close> by (simp add: k min_def)
  show "list_all (again is_empty) (take k outs)" unfolding pre by (auto simp: list_all_iff dest: set_takeWhileD)
  show "list_all (\<lambda>t. 0 \<le> t \<and> t \<le> mx) (map (retry_delay base mx) [0..<k])"
    using assms(2,3) by (simp add: list_all_iff retry_delay_def)
  assume ag: "again is_empty (outs ! k)"
  have "\<not> k < left"
  proof
    assume "k < left"
    moreover have "length (take left outs) = left" using assms(1) n(1) by simp
    ultimately have "\<not> again is_empty (take left outs ! k)" unfolding k by (intro nth_length_takeWhile) simp
    with ag \<open>k < left\<close> show False by simp
  qed
  with \<open>k \<le> left\<close> show "int k = max 0 n" using n(2) by linarith
qed

theorem retry_contract_witness:
  "fst (call_with_retry (\<lambda>_. ''1'') log_sleep replay 2 (3 / 10) 2 None ''mid''
     \<lparr>at_outs = [Inl (OtherError ''503''), Inr (7 :: int), Inr 8], at_slept = []\<rparr>) = Inr (Some 7, [''mid: 503''])"
proof -
  have "retry_attempts 2 \<le> length [Inl (OtherError ''503''), Inr (7 :: int), Inr 8]" by (simp add: retry_attempts_def)
  moreover have "again (None :: (int \<Rightarrow> bool) option) (Inl (OtherError ''503''))" by code_simp
  moreover have "\<not> again (None :: (int \<Rightarrow> bool) option) (Inr v)" for v by (simp add: again_def)
  ultimately show ?thesis
    using retry_contract [of 2 "[Inl (OtherError ''503''), Inr (7 :: int), Inr 8]" "3 / 10" 2 "\<lambda>_. ''1''" None "''mid''"]
    by (simp add: retry_attempts_def attempt_error_def)
qed

end
