(* ===== verification/Bounded_Cache.thy ===== *)
theory Bounded_Cache
  imports Prelude
begin

text \<open>
  The bounded caches of \<open>core/bounded_cache.py\<close>: the least-recently-used cache with a time to
  live, and the map of per-key locks. An \<open>OrderedDict\<close> is an association list, oldest entry
  first; the lock around each method makes it one step. The clock is an argument, and the lock
  factory is the supply of fresh lock identities.
\<close>

subsection \<open>The LRU cache\<close>

record 'v centry =
  ce_value :: 'v
  ce_expires :: time

record ('k, 'v) lru =
  lr_max :: int
  lr_ttl :: time
  lr_store :: "('k \<times> 'v centry) list"

definition lru_new :: "int \<Rightarrow> time \<Rightarrow> ('k, 'v) lru" where
  "lru_new max_size ttl = \<lparr>lr_max = max_size, lr_ttl = ttl, lr_store = []\<rparr>"

text \<open>\<open>while len(store) > max_size: popitem(last=False)\<close>.\<close>

definition enforce_cap :: "int \<Rightarrow> 'e list \<Rightarrow> 'e list" where
  "enforce_cap mx d = (if mx \<le> 0 then d else last_n (nat mx) d)"

definition lru_get :: "'k \<Rightarrow> time \<Rightarrow> ('k, 'v) lru \<Rightarrow> 'v option \<times> ('k, 'v) lru" where
  "lru_get key now c = (case map_of (lr_store c) key of
     None \<Rightarrow> (None, c)
   | Some e \<Rightarrow> if ce_expires e \<noteq> 0 \<and> ce_expires e \<le> now
       then (None, c\<lparr>lr_store := od_pop key (lr_store c)\<rparr>)
       else (Some (ce_value e), c\<lparr>lr_store := od_move_end key (lr_store c)\<rparr>))"

definition entry_for :: "'v \<Rightarrow> time option \<Rightarrow> time \<Rightarrow> ('k, 'v) lru \<Rightarrow> 'v centry" where
  "entry_for v ttl_seconds now c = (let ttl = (case ttl_seconds of None \<Rightarrow> lr_ttl c | Some t \<Rightarrow> t) in
     \<lparr>ce_value = v, ce_expires = (if 0 < ttl then now + ttl else 0)\<rparr>)"

definition lru_set :: "'k \<Rightarrow> 'v \<Rightarrow> time option \<Rightarrow> time \<Rightarrow> ('k, 'v) lru \<Rightarrow> ('k, 'v) lru" where
  "lru_set key v ttl_seconds now c = (let e = entry_for v ttl_seconds now c in
     if map_of (lr_store c) key \<noteq> None
     then c\<lparr>lr_store := od_set key e (od_move_end key (lr_store c))\<rparr>
     else c\<lparr>lr_store := enforce_cap (lr_max c) (od_set key e (lr_store c))\<rparr>)"

definition lru_pop :: "'k \<Rightarrow> ('k, 'v) lru \<Rightarrow> 'v option \<times> ('k, 'v) lru" where
  "lru_pop key c = (map_option ce_value (map_of (lr_store c) key), c\<lparr>lr_store := od_pop key (lr_store c)\<rparr>)"

definition lru_clear :: "('k, 'v) lru \<Rightarrow> ('k, 'v) lru" where
  "lru_clear c = c\<lparr>lr_store := []\<rparr>"

definition lru_len :: "('k, 'v) lru \<Rightarrow> nat" where
  "lru_len c = length (lr_store c)"

definition lru_contains :: "'k \<Rightarrow> ('k, 'v) lru \<Rightarrow> bool" where
  "lru_contains key c \<longleftrightarrow> map_of (lr_store c) key \<noteq> None"

definition lru_keys :: "('k, 'v) lru \<Rightarrow> 'k list" where
  "lru_keys c = od_keys (lr_store c)"

definition lru_stats :: "('k, 'v) lru \<Rightarrow> (string \<times> int) list" where
  "lru_stats c = [(''size'', int (length (lr_store c))), (''max_size'', lr_max c)]"

subsection \<open>The lock map\<close>

record 'l lock_handle =
  lh_lock :: 'l
  lh_touched :: time

record ('k, 'l) lock_map =
  lm_max :: int
  lm_idle :: time
  lm_made :: nat
  lm_store :: "('k \<times> 'l lock_handle) list"

text \<open>The idle pass over a snapshot of the entries, oldest first.\<close>

fun drop_idle :: "nat \<Rightarrow> time \<Rightarrow> ('k \<times> 'l lock_handle) list \<Rightarrow> ('k \<times> 'l lock_handle) list \<Rightarrow> ('k \<times> 'l lock_handle) list" where
  "drop_idle mx cutoff [] d = d"
| "drop_idle mx cutoff ((k, h) # hs) d =
     (if length d \<le> mx then d
      else drop_idle mx cutoff hs (if lh_touched h \<le> cutoff then od_pop k d else d))"

definition lock_cap :: "int \<Rightarrow> time \<Rightarrow> time \<Rightarrow> ('k \<times> 'l lock_handle) list \<Rightarrow> ('k \<times> 'l lock_handle) list" where
  "lock_cap mx idle now d = (if mx \<le> 0 then d
     else if int (length d) \<le> mx then d
     else enforce_cap mx (drop_idle (nat mx) (now - idle) d d))"

definition lock_get :: "(nat \<Rightarrow> 'l) \<Rightarrow> 'k \<Rightarrow> time \<Rightarrow> ('k, 'l) lock_map \<Rightarrow> 'l \<times> ('k, 'l) lock_map" where
  "lock_get factory key now m = (case map_of (lm_store m) key of
     None \<Rightarrow> (let h = \<lparr>lh_lock = factory (lm_made m), lh_touched = now\<rparr> in
       (lh_lock h, m\<lparr>lm_made := Suc (lm_made m),
          lm_store := lock_cap (lm_max m) (lm_idle m) now (od_set key h (lm_store m))\<rparr>))
   | Some h \<Rightarrow> (lh_lock h, m\<lparr>lm_store := od_move_end key (od_set key (h\<lparr>lh_touched := now\<rparr>) (lm_store m))\<rparr>))"

definition lock_discard :: "'k \<Rightarrow> ('k, 'l) lock_map \<Rightarrow> ('k, 'l) lock_map" where
  "lock_discard key m = m\<lparr>lm_store := od_pop key (lm_store m)\<rparr>"

subsection \<open>Runs of the cache\<close>

datatype ('k, 'v) cache_op = C_Get 'k time | C_Set 'k 'v "time option" time | C_Pop 'k | C_Clear

fun cache_step :: "('k, 'v) cache_op \<Rightarrow> ('k, 'v) lru \<Rightarrow> ('k, 'v) lru" where
  "cache_step (C_Get k t) c = snd (lru_get k t c)"
| "cache_step (C_Set k v ttl t) c = lru_set k v ttl t c"
| "cache_step (C_Pop k) c = snd (lru_pop k c)"
| "cache_step C_Clear c = lru_clear c"

fun op_key :: "('k, 'v) cache_op \<Rightarrow> 'k option" where
  "op_key (C_Get k t) = Some k"
| "op_key (C_Set k v ttl t) = Some k"
| "op_key (C_Pop k) = Some k"
| "op_key C_Clear = None"

definition cache_run :: "('k, 'v) cache_op list \<Rightarrow> ('k, 'v) lru \<Rightarrow> ('k, 'v) lru" where
  "cache_run ops c = foldl (\<lambda>c a. cache_step a c) c ops"

lemma cache_run_simps [simp]:
  "cache_run [] c = c"
  "cache_run (a # ops) c = cache_run ops (cache_step a c)"
  "cache_run (ops @ [a]) c = cache_step a (cache_run ops c)"
  by (simp_all add: cache_run_def)

text \<open>What the cache stands for: the last value put under a key and not taken out since.\<close>

fun stored_step :: "time \<Rightarrow> ('k, 'v) cache_op \<Rightarrow> ('k \<Rightarrow> 'v centry option) \<Rightarrow> 'k \<Rightarrow> 'v centry option" where
  "stored_step ttl0 (C_Set k v ttl t) m = m(k \<mapsto> (let s = (case ttl of None \<Rightarrow> ttl0 | Some x \<Rightarrow> x) in
     \<lparr>ce_value = v, ce_expires = (if 0 < s then t + s else 0)\<rparr>))"
| "stored_step ttl0 (C_Pop k) m = m(k := None)"
| "stored_step ttl0 C_Clear m = Map.empty"
| "stored_step ttl0 (C_Get k t) m = m"

definition lru_ok :: "('k, 'v) lru \<Rightarrow> bool" where
  "lru_ok c \<longleftrightarrow> distinct (map fst (lr_store c)) \<and> (0 < lr_max c \<longrightarrow> int (length (lr_store c)) \<le> lr_max c)"

lemma map_of_last_n_le:
  assumes "distinct (map fst d)" "map_of (last_n n d) k = Some v"
  shows "map_of d k = Some v"
proof -
  have "distinct (map fst (last_n n d))" using assms(1) by (simp add: last_n_def drop_map [symmetric])
  moreover have "set (last_n n d) \<subseteq> set d" by (rule set_last_n)
  ultimately show ?thesis using assms by (auto simp: dest: map_of_SomeD)
qed

lemma cache_step_fields [simp]:
  "lr_max (cache_step a c) = lr_max c" "lr_ttl (cache_step a c) = lr_ttl c"
  by (cases a; simp add: lru_get_def lru_set_def lru_pop_def lru_clear_def Let_def split: option.splits)+

lemma cache_step_ok:
  assumes "lru_ok c"
  shows "lru_ok (cache_step a c)"
proof -
  have len: "length (od_move_end k (lr_store c)) = length (lr_store c)" for k
    using assms by (simp add: lru_ok_def od_length_move_end)
  have dl: "distinct (map fst (last_n n d))" if "distinct (map fst d)" for n and d :: "('a \<times> 'b centry) list"
    using that by (simp add: last_n_def drop_map [symmetric])
  show ?thesis
  proof (cases a)
    case (C_Get k t)
    show ?thesis using assms len od_length_pop_le [of k "lr_store c"]
      by (auto simp: C_Get lru_get_def lru_ok_def split: option.splits)
  next
    case (C_Set k v ttl t)
    have "k \<in> fst ` set (lr_store c)" if "map_of (lr_store c) k \<noteq> None"
      using that by (simp add: map_of_eq_None_iff)
    then show ?thesis using assms len
      by (auto simp: C_Set lru_set_def Let_def lru_ok_def enforce_cap_def od_length_set od_keys_move_end dl)
  next
    case (C_Pop k)
    show ?thesis using assms od_length_pop_le [of k "lr_store c"]
      by (auto simp: C_Pop lru_pop_def lru_ok_def)
  qed (simp add: lru_clear_def lru_ok_def)
qed


lemma od_set_move_end:
  assumes "map_of d j = Some v"
  shows "od_set j e (od_move_end j d) = od_pop j d @ [(j, e)]"
proof -
  have "od_set j e (xs @ [(j, v)]) = xs @ [(j, e)]" if "j \<notin> fst ` set xs" for xs
    using that by (induction xs) auto
  moreover have "j \<notin> fst ` set (od_pop j d)" by (simp add: od_keys_pop)
  ultimately show ?thesis using assms by (simp add: od_move_end_def)
qed

lemma od_pop_absent: "map_of d j = None \<Longrightarrow> od_pop j d = d"
  by (force simp: od_pop_def filter_id_conv map_of_eq_None_iff image_iff)

lemma od_pop_append: "od_pop j (xs @ ys) = od_pop j xs @ od_pop j ys"
  by (simp add: od_pop_def)

text \<open>The store a step on key \<open>j\<close> leaves: \<open>j\<close> taken out, or taken out and put back as the newest.\<close>

lemma cache_step_store:
  assumes "op_key a = Some j"
  shows "lr_store (cache_step a c) \<in> {lr_store c, od_pop j (lr_store c)}
    \<or> (\<exists>e. lr_store (cache_step a c) = od_pop j (lr_store c) @ [(j, e)])
    \<or> (\<exists>e. lr_store (cache_step a c) = enforce_cap (lr_max c) (od_pop j (lr_store c) @ [(j, e)]))"
proof (cases a)
  case (C_Set k v ttl t)
  then have k: "k = j" using assms by simp
  show ?thesis
  proof (cases "map_of (lr_store c) j")
    case None
    then have "j \<notin> fst ` set (lr_store c)" by (simp add: map_of_eq_None_iff)
    then show ?thesis using None by (auto simp: C_Set k lru_set_def Let_def od_set_new od_pop_absent)
  next
    case (Some e)
    then show ?thesis
      using od_set_move_end [OF Some] by (simp add: C_Set k lru_set_def Let_def del: map_of_eq_Some_iff)
  qed
qed (use assms in \<open>auto simp: lru_get_def lru_pop_def od_move_end_def split: option.splits\<close>)

definition held_at :: "'k set \<Rightarrow> 'k \<Rightarrow> 'e \<Rightarrow> ('k \<times> 'e) list \<Rightarrow> bool" where
  "held_at K k e d \<longleftrightarrow> (\<exists>pre post. d = pre @ (k, e) # post \<and> fst ` set post \<subseteq> K)"

lemma held_at_pop: "held_at K k e d \<Longrightarrow> j \<noteq> k \<Longrightarrow> held_at K k e (od_pop j d)"
  unfolding held_at_def by (force simp: od_pop_def)

lemma held_at_snoc: "held_at K k e d \<Longrightarrow> j \<in> K \<Longrightarrow> held_at K k e (d @ [(j, e')])"
  unfolding held_at_def by force

lemma held_at_last_n:
  assumes "held_at K k e d" "distinct (map fst d)" "finite K" "k \<notin> K" "card K < n"
  shows "held_at K k e (last_n n d)"
proof -
  obtain pre post where d: "d = pre @ (k, e) # post" "fst ` set post \<subseteq> K" using assms(1) by (auto simp: held_at_def)
  have "length post = card (fst ` set post)"
    using assms(2) d(1) by (metis distinct_append distinct_map distinct_card list.simps(9) list.set_map length_map distinct.simps(2) map_append)
  then have "length post < n" using card_mono [OF assms(3) d(2)] assms(5) by simp
  then have "last_n n d = drop (length d - n) pre @ (k, e) # post"
    using d(1) by (simp add: last_n_def)
  then show ?thesis using d(2) unfolding held_at_def by blast
qed

lemma cache_step_holds:
  assumes "held_at K k e (lr_store c)" "lru_ok c" "op_key a = Some j" "j \<in> K" "k \<notin> K" "finite K" "int (card K) < lr_max c"
  shows "held_at K k e (lr_store (cache_step a c))"
proof -
  have "j \<noteq> k" using assms(4,5) by auto
  note held = held_at_pop [OF assms(1) this]
  from cache_step_store [OF assms(3), of c] show ?thesis
  proof (elim disjE exE)
    fix e' assume s: "lr_store (cache_step a c) = enforce_cap (lr_max c) (od_pop j (lr_store c) @ [(j, e')])"
    have "distinct (map fst (od_pop j (lr_store c) @ [(j, e')]))"
      using assms(2) by (simp add: lru_ok_def od_keys_pop)
    from held_at_last_n [OF held_at_snoc [OF held assms(4)] this assms(6,5), of "nat (lr_max c)"] assms(7)
    show ?thesis by (simp add: s enforce_cap_def)
  qed (use assms held held_at_snoc [OF held assms(4)] in auto)
qed

lemma held_at_get: "held_at K k e d \<Longrightarrow> distinct (map fst d) \<Longrightarrow> map_of d k = Some e"
  by (auto simp: held_at_def)

text \<open>
  Claim C0: the cache never invents or revives a value. After any operations the store has
  distinct keys and, when the size is capped, at most that many entries; a read returns a value
  only if it is the last one put under its key, not taken out since, and its time has not run
  out.
\<close>

theorem lru_sound:
  fixes ops :: "('k, 'v) cache_op list" and mx :: int and ttl :: time
  defines "c \<equiv> cache_run ops (lru_new mx ttl)"
  shows "lru_ok c \<and> (fst (lru_get k t c) = Some v \<longrightarrow>
    (\<exists>e. foldl (\<lambda>m a. stored_step ttl a m) Map.empty ops k = Some e \<and> ce_value e = v
       \<and> (ce_expires e = 0 \<or> t < ce_expires e)))"
proof -
  define m where "m = foldl (\<lambda>m a. stored_step ttl a m) Map.empty ops"
  have inv: "lru_ok c \<and> lr_ttl c = ttl \<and> (\<forall>j e. map_of (lr_store c) j = Some e \<longrightarrow> m j = Some e)"
    unfolding c_def m_def
  proof (induction ops rule: rev_induct)
    case Nil
    show ?case by (simp add: lru_new_def lru_ok_def)
  next
    case (snoc a ops)
    define c0 m0 where "c0 = cache_run ops (lru_new mx ttl)" and "m0 = foldl (\<lambda>m a. stored_step ttl a m) Map.empty ops"
    have ok: "lru_ok c0" "lr_ttl c0 = ttl" "distinct (map fst (lr_store c0))"
      and sub: "map_of (lr_store c0) j = Some e \<Longrightarrow> m0 j = Some e" for j e
      using snoc.IH by (auto simp: c0_def m0_def lru_ok_def simp del: map_of_eq_Some_iff)
    have "stored_step ttl a m0 j = Some e" if "map_of (lr_store (cache_step a c0)) j = Some e" for j e
    proof (cases a)
      case (C_Set k v tt t)
      have "map_of (od_set k (entry_for v tt t c0) d) j = Some e \<Longrightarrow> map_of d = map_of (lr_store c0) \<Longrightarrow>
          stored_step ttl a m0 j = Some e" for d
        using sub ok(2) by (auto simp: C_Set entry_for_def Let_def simp del: map_of_eq_Some_iff split: if_splits)
      then show ?thesis using that ok(3)
        by (auto simp: C_Set lru_set_def Let_def enforce_cap_def simp del: map_of_eq_Some_iff od_get_set
            dest!: map_of_last_n_le [rotated] split: if_splits option.splits)
    qed (use that sub ok(3) in \<open>auto simp: lru_get_def lru_pop_def lru_clear_def simp del: map_of_eq_Some_iff
          split: option.splits if_splits\<close>)
    then show ?case using cache_step_ok [OF ok(1), of a] ok(2) by (simp add: c0_def m0_def del: map_of_eq_Some_iff)
  qed
  then show ?thesis
    by (auto simp: lru_get_def m_def [symmetric] simp del: map_of_eq_Some_iff split: option.splits if_splits)
qed

text \<open>
  A law: what the cache promises to keep. An entry is still served, with its value, while its
  time has not run out and fewer than \<open>max_size\<close> other keys have been read, written or removed
  since it was written, in however many operations: only the least recently used entries go.
\<close>

theorem lru_retains:
  assumes "lru_ok c" "list_all (\<lambda>a. op_key a \<noteq> None \<and> op_key a \<noteq> Some k) ops"
    and "int (card (op_key ` set ops)) < lr_max c"
    and "ce_expires (entry_for v ttl now c) = 0 \<or> t < ce_expires (entry_for v ttl now c)"
  shows "fst (lru_get k t (cache_run ops (lru_set k v ttl now c))) = Some v"
proof -
  define e where "e = entry_for v ttl now c"
  define K where "K = (\<lambda>a. the (op_key a)) ` set ops"
  have img: "op_key ` set ops = Some ` K"
    unfolding K_def image_image using assms(2) by (intro image_cong refl) (auto simp: list_all_iff)
  have K: "finite K" "k \<notin> K" "int (card K) < lr_max c"
    using assms(2,3) by (auto simp: img card_image) (auto simp: K_def list_all_iff)
  have ok: "lru_ok (lru_set k v ttl now c)" using cache_step_ok [OF assms(1), of "C_Set k v ttl now"] by simp
  have first: "held_at K k e (lr_store (lru_set k v ttl now c))"
  proof -
    have "k \<notin> fst ` set (lr_store c)" if "map_of (lr_store c) k = None" using that by (simp add: map_of_eq_None_iff)
    moreover have tail: "held_at K k e (d @ [(k, e)])" for d by (force simp: held_at_def)
    moreover have "held_at K k e (last_n (nat (lr_max c)) (d @ [(k, e)]))" for d
      using K(3) tail [of "drop (Suc (length d) - nat (lr_max c)) d"] by (simp add: last_n_def)
    ultimately show ?thesis using K(3)
      by (auto simp: lru_set_def Let_def e_def od_set_new od_set_move_end enforce_cap_def simp del: map_of_eq_Some_iff
          split: option.splits)
  qed
  have "held_at K k e (lr_store c1) \<and> lru_ok c1 \<and> lr_max c1 = lr_max c0"
    if "held_at K k e (lr_store c0)" "lru_ok c0" "lr_max c0 = lr_max c" "c1 = cache_run ops' c0" "set ops' \<subseteq> set ops"
    for c0 c1 ops'
    using that
  proof (induction ops' arbitrary: c0 c1)
    case (Cons a ops')
    have "op_key a \<in> Some ` K" using Cons.prems(5) img by auto
    then obtain j where j: "op_key a = Some j" "j \<in> K" by auto
    from Cons.IH [OF cache_step_holds [OF Cons.prems(1,2) j K(2,1)] cache_step_ok [OF Cons.prems(2)]] Cons.prems K(3)
    show ?case by simp
  qed simp
  from this [OF first ok _ refl subset_refl] have "held_at K k e (lr_store (cache_run ops (lru_set k v ttl now c)))"
    "distinct (map fst (lr_store (cache_run ops (lru_set k v ttl now c))))"
    by (auto simp: lru_set_def Let_def lru_ok_def)
  from held_at_get [OF this] assms(4) show ?thesis
    by (auto simp: lru_get_def e_def entry_for_def Let_def simp del: map_of_eq_Some_iff split: if_splits)
qed

definition demo_ops :: "(string, int) cache_op list" where
  "demo_ops = [C_Set ''a'' 1 None 0, C_Set ''b'' 2 (Some 5) 1, C_Get ''a'' 2, C_Set ''c'' 3 None 3]"

theorem lru_sound_witness:
  "\<exists>e. foldl (\<lambda>m a. stored_step 0 a m) Map.empty demo_ops ''a'' = Some e \<and> ce_value e = 1"
proof -
  have "fst (lru_get ''a'' 4 (cache_run demo_ops (lru_new 2 0))) = Some 1" by code_simp
  then show ?thesis using lru_sound [of demo_ops 2 0 "''a''" 4 1] by blast
qed

theorem lru_retains_witness:
  "fst (lru_get ''a'' 9 (cache_run [C_Set ''b'' 2 None 1, C_Get ''b'' 2, C_Pop ''b''] (lru_set ''a'' (1 :: int) None 0 (lru_new 2 0)))) = Some 1"
  using lru_retains [of "lru_new 2 0" "''a''" "[C_Set ''b'' 2 None 1, C_Get ''b'' 2, C_Pop ''b'']" 1 None 0 9]
  by (simp add: lru_ok_def lru_new_def entry_for_def)

text \<open>
  A finding: a full lock map hands out a second lock for a key whose first lock is still in use.
  The documentation makes only idle locks eligible for eviction; when none is idle the oldest is
  dropped all the same, and the next caller of its key is given a fresh lock.
\<close>

lemma lock_map_splits_key:
  "let m0 = \<lparr>lm_max = 1, lm_idle = 600, lm_made = 0, lm_store = []\<rparr>; (l1, m1) = lock_get id ''a'' 0 m0;
     (l2, m2) = lock_get id ''b'' 1 m1; (l3, m3) = lock_get id ''a'' 2 m2 in l1 = (0 :: nat) \<and> l3 = 2"
  by code_simp

end
