(* ===== verification/Strategy_Fsm.thy ===== *)
theory Strategy_Fsm
  imports Effects
begin

text \<open>
  The strategy state machine of \<open>strategy/strategy_fsm.py\<close>: the legal transitions, the phase
  inferred from a strategy's state dictionary, and the guarded move. The dictionary is a record
  of the entries the module reads and writes; an absent entry and an empty text are both falsy
  and are both the empty string.
\<close>

definition PHASES :: "string list" where
  "PHASES = [''idle'', ''starting'', ''scanning'', ''placing'', ''waiting_fill'', ''reconciling'', ''closing'',
     ''paused'', ''failed'', ''stopped'']"

definition TERMINAL_PHASES :: "string list" where
  "TERMINAL_PHASES = [''failed'', ''stopped'']"

definition LEGAL_TRANSITIONS :: "(string \<times> string list) list" where
  "LEGAL_TRANSITIONS =
    [(''idle'', [''starting'', ''stopped'']),
     (''starting'', [''scanning'', ''failed'', ''stopped'']),
     (''scanning'', [''placing'', ''waiting_fill'', ''reconciling'', ''paused'', ''closing'', ''failed'', ''stopped'']),
     (''placing'', [''waiting_fill'', ''reconciling'', ''failed'', ''closing'']),
     (''waiting_fill'', [''reconciling'', ''closing'', ''failed'', ''stopped'']),
     (''reconciling'', [''scanning'', ''closing'', ''failed'', ''stopped'']),
     (''closing'', [''reconciling'', ''stopped'', ''failed'']),
     (''paused'', [''scanning'', ''closing'', ''stopped'', ''failed'']),
     (''failed'', [''reconciling'', ''stopped'']),
     (''stopped'', [''starting''])]"

record strategy_phase =
  sp_phase :: string
  sp_detail :: string
  sp_recoverable :: bool
  sp_actions :: "string list"

definition mk_phase :: "string \<Rightarrow> string \<Rightarrow> string list \<Rightarrow> strategy_phase" where
  "mk_phase ph detail actions = \<lparr>sp_phase = ph, sp_detail = detail, sp_recoverable = True, sp_actions = actions\<rparr>"

record strategy_state =
  ss_running :: bool
  ss_last_error :: string
  ss_stopped_reason :: string
  ss_mm_paused :: bool
  ss_mm_pause_reason :: string
  ss_vol_phase :: string
  ss_last_action :: string
  ss_last_action_detail :: string
  ss_phase :: string
  ss_phase_detail :: string

definition or_text :: "string \<Rightarrow> string \<Rightarrow> string" where
  "or_text s d = (if s = [] then d else s)"

definition successors :: "string \<Rightarrow> string list" where
  "successors ph = (case map_of LEGAL_TRANSITIONS ph of None \<Rightarrow> [] | Some ts \<Rightarrow> ts)"

definition can_transition :: "string \<Rightarrow> string \<Rightarrow> bool" where
  "can_transition current target \<longleftrightarrow> or_text target ''idle'' \<in> set (successors (or_text current ''idle''))"

definition infer_phase :: "strategy_state \<Rightarrow> strategy_phase" where
  "infer_phase s =
    (if \<not> ss_running s
     then mk_phase ''stopped'' (or_text (ss_last_error s) (or_text (ss_stopped_reason s) ''Strategy is not running.'')) [''start'']
     else if ss_mm_paused s then mk_phase ''paused'' (or_text (ss_mm_pause_reason s) ''Paused.'') [''resume'', ''stop'', ''flatten'']
     else if ss_last_error s \<noteq> [] then mk_phase ''failed'' (ss_last_error s) [''recover'', ''stop'', ''flatten'']
     else let vol = ss_vol_phase s; action = lower_str (ss_last_action s) in
       if vol \<in> {''pending_entry_fill'', ''pending_fill'', ''pending_close_fill''}
       then mk_phase ''waiting_fill'' vol [''stop'', ''recover'']
       else if vol \<in> {''filled_wait_close'', ''hold_for_profit''} then mk_phase ''closing'' vol [''stop'', ''flatten'']
       else if action \<in> {''open_long'', ''open_short'', ''placing'', ''quote'', ''placed''}
       then mk_phase ''placing'' action [''stop'', ''flatten'']
       else if action \<in> {''close'', ''emergency_flatten'', ''closing''}
       then mk_phase ''closing'' action [''stop'', ''flatten'', ''recover'']
       else if action \<in> {''reconcile'', ''fill_sync'', ''waiting_limit_close_fill''}
       then mk_phase ''reconciling'' action [''stop'', ''recover'']
       else mk_phase ''scanning'' (or_text (ss_last_action_detail s) ''Scanning.'') [''pause'', ''stop'', ''flatten''])"

definition apply_phase :: "string \<Rightarrow> string \<Rightarrow> strategy_state \<Rightarrow> strategy_state" where
  "apply_phase target detail s = (let current = or_text (ss_phase s) ''idle'' in
     if can_transition current target \<or> current = target
     then s\<lparr>ss_phase := target, ss_phase_detail := detail\<rparr>
     else s\<lparr>ss_phase := ''failed'', ss_phase_detail := ''Illegal transition '' @ current @ '' -> '' @ target\<rparr>)"

subsection \<open>The machine\<close>

text \<open>One legal step, and the phases a machine can be driven to.\<close>

inductive legal :: "string \<Rightarrow> string \<Rightarrow> bool" where
  legal: "b \<in> set (successors a) \<Longrightarrow> legal a b"

inductive_simps legal_iff: "legal a b"

definition phase_ok :: "strategy_state \<Rightarrow> bool" where
  "phase_ok s \<longleftrightarrow> ss_phase s = [] \<or> ss_phase s \<in> set PHASES"

definition drive :: "(string \<times> string) list \<Rightarrow> strategy_state \<Rightarrow> strategy_state" where
  "drive moves s = foldl (\<lambda>s (t, d). apply_phase t d s) s moves"

lemma successors_phases: "b \<in> set (successors a) \<Longrightarrow> a \<in> set PHASES \<and> b \<in> set PHASES \<and> b \<noteq> ''idle''"
  by (auto simp: successors_def LEGAL_TRANSITIONS_def PHASES_def split: if_splits)

lemma phases_nonempty: "p \<in> set PHASES \<Longrightarrow> p \<noteq> []"
  by (auto simp: PHASES_def)

lemma apply_phase_cases:
  fixes s :: strategy_state
  assumes "phase_ok s" "t \<in> set PHASES"
  obtains (moved) "ss_phase (apply_phase t d s) = t" "ss_phase_detail (apply_phase t d s) = d"
      "or_text (ss_phase s) ''idle'' = t \<or> legal (or_text (ss_phase s) ''idle'') t"
    | (refused) "ss_phase (apply_phase t d s) = ''failed''" "\<not> legal (or_text (ss_phase s) ''idle'') t"
      "ss_phase_detail (apply_phase t d s) = ''Illegal transition '' @ or_text (ss_phase s) ''idle'' @ '' -> '' @ t"
  using phases_nonempty [OF assms(2)]
  by (cases "can_transition (or_text (ss_phase s) ''idle'') t \<or> or_text (ss_phase s) ''idle'' = t")
     (auto simp: apply_phase_def Let_def can_transition_def legal_iff or_text_def split: if_splits)

lemma legal_stop:
  assumes "p \<in> set PHASES" "p \<noteq> ''stopped''"
  shows "legal p ''stopped'' \<or> (legal p ''closing'' \<and> legal ''closing'' ''stopped'')"
proof -
  have "list_all (\<lambda>p. p = ''stopped'' \<or> ''stopped'' \<in> set (successors p)
      \<or> (''closing'' \<in> set (successors p) \<and> ''stopped'' \<in> set (successors ''closing''))) PHASES"
    by code_simp
  then show ?thesis using assms by (auto simp: list_all_iff legal_iff)
qed

text \<open>
  A law: the state machine is closed, guarded and can always be stopped. However it is driven,
  a strategy is in a known phase; every single move is legal, or repeats the phase, or is refused
  into \<open>failed\<close> with the refused pair in the detail; from every phase the machine reaches
  \<open>stopped\<close> in at most two legal moves, and from \<open>stopped\<close> only \<open>starting\<close> leads out.
\<close>

theorem strategy_fsm:
  assumes "phase_ok s" "list_all (\<lambda>(t, d). t \<in> set PHASES) moves"
  shows "phase_ok (drive moves s)
    \<and> (\<forall>t \<in> set PHASES. let p = or_text (ss_phase (drive moves s)) ''idle''; s' = apply_phase t d (drive moves s) in
         (ss_phase s' = t \<and> ss_phase_detail s' = d \<and> (p = t \<or> legal p t))
       \<or> (ss_phase s' = ''failed'' \<and> \<not> legal p t \<and> ss_phase_detail s' = ''Illegal transition '' @ p @ '' -> '' @ t))
    \<and> (\<exists>back. length back \<le> 2 \<and> ss_phase (drive back (drive moves s)) = ''stopped''
         \<and> \<not> list_ex (\<lambda>(t, d). t = ''failed'') back)
    \<and> (\<forall>t. legal ''stopped'' t \<longleftrightarrow> t = ''starting'')"
proof (intro conjI)
  show ok: "phase_ok (drive moves s)"
    using assms
  proof (induction moves arbitrary: s)
    case (Cons m moves)
    obtain t d where m: "m = (t, d)" by (cases m)
    have "t \<in> set PHASES" using Cons.prems by (simp add: m)
    then have "phase_ok (apply_phase t d s)"
      using apply_phase_cases [OF Cons.prems(1), of t d] by (auto simp: phase_ok_def PHASES_def)
    then show ?case using Cons by (simp add: drive_def m)
  qed (simp add: drive_def)
  show "\<forall>t \<in> set PHASES. let p = or_text (ss_phase (drive moves s)) ''idle''; s' = apply_phase t d (drive moves s) in
         (ss_phase s' = t \<and> ss_phase_detail s' = d \<and> (p = t \<or> legal p t))
       \<or> (ss_phase s' = ''failed'' \<and> \<not> legal p t \<and> ss_phase_detail s' = ''Illegal transition '' @ p @ '' -> '' @ t)"
  proof
    fix t assume t: "t \<in> set PHASES"
    show "let p = or_text (ss_phase (drive moves s)) ''idle''; s' = apply_phase t d (drive moves s) in
         (ss_phase s' = t \<and> ss_phase_detail s' = d \<and> (p = t \<or> legal p t))
       \<or> (ss_phase s' = ''failed'' \<and> \<not> legal p t \<and> ss_phase_detail s' = ''Illegal transition '' @ p @ '' -> '' @ t)"
      unfolding Let_def by (rule apply_phase_cases [OF ok t, of d]) blast+
  qed
  define p where "p = or_text (ss_phase (drive moves s)) ''idle''"
  have p: "p \<in> set PHASES" using ok by (auto simp: p_def or_text_def phase_ok_def PHASES_def)
  have step: "ss_phase (apply_phase t d s') = t" if "legal (or_text (ss_phase s') ''idle'') t" for t d and s' :: strategy_state
    using that successors_phases [of t] phases_nonempty [of t]
    by (auto simp: apply_phase_def Let_def can_transition_def legal_iff or_text_def)
  show "\<exists>back. length back \<le> 2 \<and> ss_phase (drive back (drive moves s)) = ''stopped'' \<and> \<not> list_ex (\<lambda>(t, d). t = ''failed'') back"
  proof (cases "p = ''stopped''")
    case True
    then have "ss_phase (drive moves s) = ''stopped''" by (auto simp: p_def or_text_def split: if_splits)
    then show ?thesis by (intro exI [of _ "[]"]) (simp add: drive_def)
  next
    case False
    from legal_stop [OF p False] show ?thesis
    proof
      assume "legal p ''stopped''"
      then show ?thesis using step [of "drive moves s" "''stopped''" "[]"]
        by (intro exI [of _ "[(''stopped'', [])]"]) (simp add: drive_def p_def)
    next
      assume two: "legal p ''closing'' \<and> legal ''closing'' ''stopped''"
      then have "ss_phase (apply_phase ''closing'' [] (drive moves s)) = ''closing''"
        using step [of "drive moves s" "''closing''" "[]"] by (simp add: p_def)
      then have "ss_phase (apply_phase ''stopped'' [] (apply_phase ''closing'' [] (drive moves s))) = ''stopped''"
        using step [of "apply_phase ''closing'' [] (drive moves s)" "''stopped''" "[]"] two by (simp add: or_text_def)
      then show ?thesis
        by (intro exI [of _ "[(''closing'', []), (''stopped'', [])]"]) (simp add: drive_def)
    qed
  qed
  show "\<forall>t. legal ''stopped'' t \<longleftrightarrow> t = ''starting''"
    by (auto simp: legal_iff successors_def LEGAL_TRANSITIONS_def)
qed

text \<open>What the inferred phase offers: a running strategy can always be stopped, a stopped one started.\<close>

lemma infer_phase_actions:
  "sp_phase (infer_phase s) \<in> set PHASES
   \<and> (if ss_running s then ''stop'' \<in> set (sp_actions (infer_phase s)) else sp_actions (infer_phase s) = [''start''])
   \<and> (sp_phase (infer_phase s) \<in> {''closing'', ''placing''} \<longrightarrow> ''flatten'' \<in> set (sp_actions (infer_phase s)))"
  by (simp add: infer_phase_def mk_phase_def PHASES_def Let_def)

text \<open>
  A finding: the refusal is itself an illegal move. A refused target takes a stopped or idle
  strategy to \<open>failed\<close>, which no legal transition does.
\<close>

lemma refusal_is_illegal:
  assumes "ss_phase s = ''stopped''"
  shows "ss_phase (apply_phase ''placing'' d s) = ''failed'' \<and> \<not> legal ''stopped'' ''failed''"
  using assms by (simp add: apply_phase_def can_transition_def or_text_def legal_iff successors_def LEGAL_TRANSITIONS_def)

definition idle_state :: strategy_state where
  "idle_state = \<lparr>ss_running = False, ss_last_error = [], ss_stopped_reason = [], ss_mm_paused = False,
     ss_mm_pause_reason = [], ss_vol_phase = [], ss_last_action = [], ss_last_action_detail = [], ss_phase = [],
     ss_phase_detail = []\<rparr>"

theorem strategy_fsm_witness:
  "phase_ok (drive [(''starting'', []), (''scanning'', []), (''placing'', []), (''paused'', [])] idle_state)
   \<and> ss_phase (drive [(''starting'', []), (''scanning'', []), (''placing'', []), (''paused'', [])] idle_state) = ''failed''"
proof
  show "phase_ok (drive [(''starting'', []), (''scanning'', []), (''placing'', []), (''paused'', [])] idle_state)"
    using strategy_fsm [of idle_state "[(''starting'', []), (''scanning'', []), (''placing'', []), (''paused'', [])]"]
    by (simp add: phase_ok_def idle_state_def PHASES_def)
  show "ss_phase (drive [(''starting'', []), (''scanning'', []), (''placing'', []), (''paused'', [])] idle_state) = ''failed''"
    by code_simp
qed

end
