(* ===== verification/Spec2Isabelle.thy ===== *)
theory Spec2Isabelle
  imports Volume_Laws Mm_Limits Venue_Stop Fill_Ledger Gateway_Budget Order_Intents Daily_Budget Grid_Controller Order_Lifecycle Portfolio Quote_Plans Desk Guards Bounded_Cache Strategy_Fsm
begin

text \<open>
  A model of the trading core of the Nadobro bot, and what makes it correct.

  The program is a Telegram bot that runs trading strategies on the Nado perpetuals venue. Its
  core is the engine under \<open>src/nadobro/engine\<close>. A \<^emph>\<open>controller\<close> decides what to do and
  spawns \<^emph>\<open>executors\<close>, each of which drives one order or one bundle of orders through its life;
  the \<^emph>\<open>orchestrator\<close> owns both, ticks them and enforces the kill switch and the risk limits; an
  \<^emph>\<open>adapter\<close> is the only way to the venue; fills are booked in an \<^emph>\<open>inventory\<close> of position
  holds, from which the portfolio is computed. Around the engine, services budget the calls to the
  venue (\<open>venue/\<close>), guard a user's requests (\<open>core/\<close>), plan and size quotes and account for fills
  (\<open>quant/\<close>), keep an order from being sent twice and a day's losses within a budget
  (\<open>trading/\<close>), keep a stop order on the venue and track the state of strategies (\<open>strategy/\<close>).

  \<^bold>\<open>Conventions.\<close> Every coroutine is a program in the sense of \<open>Effects\<close>: it maps a state to an
  exception or a value and the state it leaves, so what was changed before an exception stays
  changed. An executor program runs on the executor's record and the environment (venue,
  inventory, reported trades); an orchestrator program on the registry that contains them. The
  venue is a parameter throughout, a record of calls over an arbitrary state type: whatever is
  proved holds for every venue, unless a hypothesis says otherwise. Numbers are exact rationals;
  the rounding of the 28-digit decimal context and of floats is not modelled. Dictionaries are
  association lists in insertion order. Clocks, identifiers and configuration are arguments.

  \<^bold>\<open>The theories.\<close>
  \<^item> \<open>Prelude\<close>, \<open>Effects\<close>: ordered dictionaries, strings, dates; programs with exceptions, their
    weakest preconditions (\<open>wp\<close>), kept invariants (\<open>keeps\<close>) and indistinguishability (\<open>agree\<close>).
  \<^item> \<open>Engine_Types\<close>, \<open>Inventory\<close>, \<open>Adapter\<close>: \<open>engine/types.py\<close>, \<open>inventory.py\<close>,
    \<open>adapter/base.py\<close>. Position holds, their PnL and the repository; the venue interface and the
    per-cycle request budget.
  \<^item> \<open>Executor_Base\<close>, \<open>Order_Executor\<close>, \<open>RGrid_Maker\<close>, \<open>Position_Executor\<close>, \<open>Dca_Executor\<close>,
    \<open>Twap_Executor\<close>, \<open>Grid_Executor\<close>, \<open>Grid_Laws\<close>: \<open>executor_base.py\<close> and \<open>executors/\<close>. For each
    class its configuration checks and all handlers; that it books each fill once; what orders
    it can send; how it stops.
  \<^item> \<open>Risk\<close>, \<open>Controller_Base\<close>, \<open>Orchestrator\<close>: \<open>risk.py\<close>, \<open>controllers/controller_base.py\<close>,
    \<open>orchestrator.py\<close>. Kill switches and limits; the regime gate, exposure cap and re-centering
    threshold; spawning, ticking, stopping, pruning, backoff and events.
  \<^item> \<open>Desk_Plan\<close>, \<open>Desk\<close>: \<open>desk_plan.py\<close>, \<open>controllers/desk.py\<close>. A user's confirmed plans:
    dictionaries, validation, triggers; the controller that runs them with claims, checkpoints
    and restarts.
  \<^item> \<open>Controller_Prog\<close>, \<open>Registry_Laws\<close>: what the coroutines of the controllers share, and what the
    orchestrator's calls can do to the executors a controller holds.
  \<^item> \<open>Grid_Controller\<close>: \<open>controllers/grid_trading.py\<close>, \<open>short_ladder.py\<close>. One ladder executor, paused
    by the regime gate and the exposure cap, and re-centered as the price moves.
  \<^item> \<open>Mm_Pricing\<close>, \<open>Market_Making\<close>, \<open>Mm_Quotes\<close>, \<open>Mm_Limits\<close>: \<open>quant/mm_profile.py\<close>,
    \<open>mid_market_making.py\<close>, \<open>alpha.py\<close>, \<open>microstructure.py\<close>; \<open>controllers/market_making.py\<close> with the
    live changes of its settings (\<open>_apply_mid_controller_config\<close> and \<open>_apply_risk_limits\<close> of
    \<open>strategy/engine_runtime.py\<close>). Prices and sizes of the quotes; that live quotes are never lost
    and never cross; that the limits of the settings in force hold.
  \<^item> \<open>Volume_Bot\<close>, \<open>Volume_Laws\<close>: \<open>controllers/volume_bot.py\<close>. The buy and sell legs; that a
    session ends at its limits and stays ended; what one cycle can lose.
  \<^item> \<open>Order_Tags\<close>, \<open>Order_Lifecycle\<close>: \<open>order_tags.py\<close>, \<open>order_lifecycle.py\<close>. The in-process
    registries that match stream events to orders.
  \<^item> \<open>Sim_Adapter\<close>: \<open>backtester/executor_sim.py\<close>, the simulated venue.
  \<^item> \<open>Portfolio\<close>: \<open>portfolio.py\<close>. State, distribution, history retention and sampling.
  \<^item> \<open>Quote_Plans\<close>: \<open>quant/ladder.py\<close>, \<open>quant/twap_schedule.py\<close>.
  \<^item> \<open>Fill_Ledger\<close>: \<open>quant/portfolio_calculator.py\<close>. Realized PnL replayed over a ledger, the pairing
    of fills into trades, and that the two agree.
  \<^item> \<open>Risk_Sizing\<close>, \<open>Venue_Stop\<close>: the risk arithmetic of \<open>quant/\<close> (\<open>rgrid_sizing.py\<close>,
    \<open>liquidation.py\<close>, \<open>stop_geometry.py\<close>, \<open>margin.py\<close> and others) and \<open>strategy/venue_stop.py\<close>, which
    keeps the stop it computes on the venue.
  \<^item> \<open>Gateway_Budget\<close>: \<open>venue/gateway_budget.py\<close>, \<open>core/http_session.py\<close>. Token buckets, breakers,
    circuits and slots in front of every call.
  \<^item> \<open>Order_Intents\<close>, \<open>Daily_Budget\<close>: \<open>trading/order_intents.py\<close>, \<open>trading/risk_budget.py\<close>. The lease
    on an order intent; the daily loss budget with its hard stop.
  \<^item> \<open>Guards\<close>, \<open>Bounded_Cache\<close>, \<open>Strategy_Fsm\<close>: \<open>core/user_rate_limit.py\<close>, \<open>user_circuit.py\<close>,
    \<open>rate_limit.py\<close>, \<open>bounded_cache.py\<close>; \<open>strategy/strategy_fsm.py\<close>.

  \<^bold>\<open>How the proofs are organised.\<close> An interface between components is a locale with its laws
  (\<open>kill_switch_store\<close>, \<open>history_repository\<close>, \<open>registry_view\<close> and others), interpreted on the model in the theory
  that provides it. Accounting theorems are invariants of one step lifted to arbitrary runs of
  events, in which the world may change between any two steps. Statements about which orders can
  be sent say that a run is unchanged behind a gate that refuses every other order. Incremental
  decisions (barriers, trailing stops, exit watches) are equal to specifications over the whole
  history they have seen.

  \<^bold>\<open>Bounds.\<close> An adapter call is tried at most three times (\<open>MAX_ATTEMPTS\<close>), as in the code; the
  catch-up loop of the TWAP executor has fuel for every slice that is due, and is proved never
  to run out; the registries of tags and orders hold at most 8192 entries and the rate-limit
  store fewer than 5000, and the theorems that need room say so.

  \<^bold>\<open>Not modelled.\<close> A coroutine of the model is not interrupted: the interleaving of two
  coroutines inside one executor is left out, and \<open>gather\<close> runs its coroutines in order. Passes of
  the unlocked token buckets that overlap are modelled apart (\<open>race_step\<close>), since they can overdraw.
  Logging is left out. The live venue adapter and the venue client speak to a service that is not in
  the repository; executors are verified against an arbitrary venue instead, and what the client
  rounds prices and sizes to is outside the model. Of \<open>strategy/engine_runtime.py\<close> only the live
  update of a market maker is modelled; the rest wires users, database and engine together. The
  controllers \<open>rgrid.py\<close>, \<open>dynamic_grid.py\<close>, \<open>reverse_grid.py\<close>, \<open>delta_neutral.py\<close> and
  \<open>fill_anchored.py\<close> have no theory of their own: they are covered as far as the executors they spawn,
  the base class and an arbitrary hook of the orchestrator go. Estimators over candles use float
  logarithms and square roots. The database, the plan store and conversions between text and numbers
  are parameters with stated laws. Chat handlers, message formatting, prompts, images, deployment and
  scripts carry no trading logic of their own. Texts of errors that contain non-ASCII characters are
  shortened.
\<close>

end
